(* ===== verification/Prelude.thy ===== *)
theory Prelude
  imports Main "HOL-Library.Word"
begin

text \<open>
  Shared vocabulary of the development.

  \<^item> \<open>exec\<close>: a computation of the native code that reads and writes a state and either
    returns a value or stops with a fault; \<open>bindE\<close> is the code's sequence of
    "call, return early if the status is not ok".
  \<^item> \<open>triple\<close>: a Hoare triple for such computations with one postcondition for the normal
    and one for the faulting exit; \<open>keeps\<close>: a frame relation between the states before
    and after, whatever the outcome.
  \<^item> \<open>uint64_t\<close> arithmetic on \<open>nat\<close> with the wrap-around written out.
  \<^item> decimal rendering of integers, used by the messages of the shape validator.
\<close>

named_theorems exec_simps \<open>one-step equations of the effect combinators\<close>
named_theorems triple_rules \<open>introduction rules for Hoare triples\<close>
named_theorems keeps_rules \<open>introduction rules for frame relations\<close>

section \<open>Computations with state and faults\<close>

type_synonym ('s, 'e, 'a) exec = "'s \<Rightarrow> ('e + 'a) \<times> 's"

definition returnE :: "'a \<Rightarrow> ('s, 'e, 'a) exec" where
  "returnE a = (\<lambda>s. (Inr a, s))"

definition throwE :: "'e \<Rightarrow> ('s, 'e, 'a) exec" where
  "throwE e = (\<lambda>s. (Inl e, s))"

definition bindE :: "('s, 'e, 'a) exec \<Rightarrow> ('a \<Rightarrow> ('s, 'e, 'b) exec) \<Rightarrow> ('s, 'e, 'b) exec" where
  "bindE m f = (\<lambda>s. case m s of (r, s') \<Rightarrow> (case r of Inl e \<Rightarrow> (Inl e, s') | Inr a \<Rightarrow> f a s'))"

definition getE :: "('s \<Rightarrow> 'a) \<Rightarrow> ('s, 'e, 'a) exec" where
  "getE f = (\<lambda>s. (Inr (f s), s))"

definition modifyE :: "('s \<Rightarrow> 's) \<Rightarrow> ('s, 'e, unit) exec" where
  "modifyE f = (\<lambda>s. (Inr (), f s))"

definition liftE :: "('e + 'a) \<Rightarrow> ('s, 'e, 'a) exec" where
  "liftE r = (\<lambda>s. (r, s))"

text \<open>\<open>if (!condition) return error;\<close>\<close>

definition guardE :: "bool \<Rightarrow> 'e \<Rightarrow> ('s, 'e, unit) exec" where
  "guardE b e = (if b then returnE () else throwE e)"

text \<open>A range-based \<open>for\<close> whose body may return early.\<close>

fun forE :: "'x list \<Rightarrow> ('x \<Rightarrow> ('s, 'e, unit) exec) \<Rightarrow> ('s, 'e, unit) exec" where
  "forE [] f = returnE ()"
| "forE (x # xs) f = bindE (f x) (\<lambda>_. forE xs f)"

text \<open>The same with a loop-carried local variable.\<close>

fun foldE :: "'x list \<Rightarrow> 'acc \<Rightarrow> ('x \<Rightarrow> 'acc \<Rightarrow> ('s, 'e, 'acc) exec) \<Rightarrow> ('s, 'e, 'acc) exec" where
  "foldE [] acc f = returnE acc"
| "foldE (x # xs) acc f = bindE (f x acc) (\<lambda>acc'. foldE xs acc' f)"

lemma returnE_run [exec_simps]: "returnE a s = (Inr a, s)"
  by (simp add: returnE_def)

lemma throwE_run [exec_simps]: "throwE e s = (Inl e, s)"
  by (simp add: throwE_def)

lemma getE_run [exec_simps, simp]: "getE f s = (Inr (f s), s)"
  by (simp add: getE_def)

lemma modifyE_run [exec_simps, simp]: "modifyE f s = (Inr (), f s)"
  by (simp add: modifyE_def)

lemma liftE_run [exec_simps]: "liftE r s = (r, s)"
  by (simp add: liftE_def)

lemma guardE_run [exec_simps]: "guardE b e s = ((if b then Inr () else Inl e), s)"
  by (simp add: guardE_def returnE_def throwE_def)

lemma bindE_Inr_run [exec_simps]: "m s = (Inr a, s') \<Longrightarrow> bindE m f s = f a s'"
  by (simp add: bindE_def)

lemma bindE_Inl_run [exec_simps]: "m s = (Inl e, s') \<Longrightarrow> bindE m f s = (Inl e, s')"
  by (simp add: bindE_def)

lemma bindE_return [simp]: "bindE (returnE a) f = f a"
  by (simp add: bindE_def returnE_def)

lemma bindE_throw [simp]: "bindE (throwE e) f = throwE e"
  by (simp add: bindE_def throwE_def)

lemma bindE_get [simp]: "bindE (getE g) f s = f (g s) s"
  by (simp add: bindE_def)

lemma bindE_modify [simp]: "bindE (modifyE g) f s = f () (g s)"
  by (simp add: bindE_def)

lemma bindE_lift_Inr [simp]: "bindE (liftE (Inr a)) f = f a"
  by (simp add: bindE_def liftE_def)

lemma bindE_lift_Inl [simp]: "bindE (liftE (Inl e)) f = throwE e"
  by (simp add: bindE_def liftE_def throwE_def)

lemma bindE_guard [simp]: "bindE (guardE b e) f s = (if b then f () s else (Inl e, s))"
  by (simp add: bindE_def exec_simps)

lemma bindE_assoc: "bindE (bindE m f) g = bindE m (\<lambda>a. bindE (f a) g)"
  by (auto simp: bindE_def fun_eq_iff split: prod.splits sum.splits)

lemma bindE_InrE:
  assumes "bindE m f s = (Inr b, s'')"
  obtains a s' where "m s = (Inr a, s')" and "f a s' = (Inr b, s'')"
  using assms by (auto simp: bindE_def split: prod.splits sum.splits)

lemma bindE_InlE:
  assumes "bindE m f s = (Inl e, s'')"
  obtains "m s = (Inl e, s'')"
    | a s' where "m s = (Inr a, s')" and "f a s' = (Inl e, s'')"
  using assms by (auto simp: bindE_def split: prod.splits sum.splits)

section \<open>Hoare triples\<close>

definition triple :: "('s \<Rightarrow> bool) \<Rightarrow> ('s, 'e, 'a) exec \<Rightarrow> ('a \<Rightarrow> 's \<Rightarrow> bool) \<Rightarrow>
    ('e \<Rightarrow> 's \<Rightarrow> bool) \<Rightarrow> bool" where
  "triple P m Q E \<longleftrightarrow>
     (\<forall>s. P s \<longrightarrow> (case m s of (r, s') \<Rightarrow> (case r of Inl e \<Rightarrow> E e s' | Inr a \<Rightarrow> Q a s')))"

lemma tripleI:
  assumes "\<And>s a s'. P s \<Longrightarrow> m s = (Inr a, s') \<Longrightarrow> Q a s'"
    and "\<And>s e s'. P s \<Longrightarrow> m s = (Inl e, s') \<Longrightarrow> E e s'"
  shows "triple P m Q E"
  using assms by (auto simp: triple_def split: prod.splits sum.splits)

lemma triple_InrD: "triple P m Q E \<Longrightarrow> P s \<Longrightarrow> m s = (Inr a, s') \<Longrightarrow> Q a s'"
  by (force simp: triple_def)

lemma triple_InlD: "triple P m Q E \<Longrightarrow> P s \<Longrightarrow> m s = (Inl e, s') \<Longrightarrow> E e s'"
  by (force simp: triple_def)

lemma triple_weaken:
  assumes "triple P m Q E" and "\<And>s. P' s \<Longrightarrow> P s" and "\<And>a s. Q a s \<Longrightarrow> Q' a s"
    and "\<And>e s. E e s \<Longrightarrow> E' e s"
  shows "triple P' m Q' E'"
  using assms by (fastforce simp: triple_def split: prod.splits sum.splits)

lemma triple_pre: "triple P m Q E \<Longrightarrow> (\<And>s. P' s \<Longrightarrow> P s) \<Longrightarrow> triple P' m Q E"
  by (rule triple_weaken)

lemma triple_return [triple_rules]: "(\<And>s. P s \<Longrightarrow> Q a s) \<Longrightarrow> triple P (returnE a) Q E"
  by (simp add: triple_def exec_simps)

lemma triple_throw [triple_rules]: "(\<And>s. P s \<Longrightarrow> E e s) \<Longrightarrow> triple P (throwE e) Q E"
  by (simp add: triple_def exec_simps)

lemma triple_get [triple_rules]: "(\<And>s. P s \<Longrightarrow> Q (f s) s) \<Longrightarrow> triple P (getE f) Q E"
  by (simp add: triple_def)

lemma triple_modify [triple_rules]: "(\<And>s. P s \<Longrightarrow> Q () (f s)) \<Longrightarrow> triple P (modifyE f) Q E"
  by (simp add: triple_def)

lemma triple_bind:
  assumes "triple P m Q E" and "\<And>a. triple (Q a) (f a) R E"
  shows "triple P (bindE m f) R E"
proof (rule tripleI)
  fix s b s''
  assume "P s" and "bindE m f s = (Inr b, s'')"
  then show "R b s''"
    using assms by (elim bindE_InrE) (metis triple_InrD)
next
  fix s e s''
  assume "P s" and "bindE m f s = (Inl e, s'')"
  then show "E e s''"
    using assms by (elim bindE_InlE) (metis triple_InlD triple_InrD)+
qed

lemma triple_guard [triple_rules]:
  "(\<And>s. P s \<Longrightarrow> b \<Longrightarrow> Q () s) \<Longrightarrow> (\<And>s. P s \<Longrightarrow> \<not> b \<Longrightarrow> E e s) \<Longrightarrow> triple P (guardE b e) Q E"
  by (simp add: triple_def exec_simps)

lemma triple_lift [triple_rules]:
  "(\<And>s a. P s \<Longrightarrow> r = Inr a \<Longrightarrow> Q a s) \<Longrightarrow> (\<And>s e. P s \<Longrightarrow> r = Inl e \<Longrightarrow> E e s) \<Longrightarrow>
   triple P (liftE r) Q E"
  by (cases r) (simp_all add: triple_def exec_simps)

lemma triple_forE:
  assumes "\<And>x. x \<in> set xs \<Longrightarrow> triple I (f x) (\<lambda>_. I) E"
  shows "triple I (forE xs f) (\<lambda>_. I) E"
  using assms
proof (induction xs)
  case Nil
  then show ?case by (simp add: triple_return)
next
  case (Cons x xs)
  then show ?case by (auto intro!: triple_bind [where Q = "\<lambda>_. I"])
qed

text \<open>Loop rules whose invariant speaks of the elements processed so far.\<close>

lemma triple_fold_prefix:
  assumes "\<And>pre x post acc. xs = pre @ x # post \<Longrightarrow>
    triple (I pre acc) (f x acc) (\<lambda>acc'. I (pre @ [x]) acc') E"
  shows "triple (I [] acc) (foldE xs acc f) (\<lambda>acc'. I xs acc') E"
proof -
  have "triple (I pre acc) (foldE post acc f) (\<lambda>acc'. I (pre @ post) acc') E" if "xs = pre @ post" for pre post acc
    using that
  proof (induction post arbitrary: pre acc)
    case Nil
    then show ?case by (simp add: triple_return)
  next
    case (Cons x post)
    have "triple (I (pre @ [x]) acc') (foldE post acc' f) (\<lambda>a. I (pre @ x # post) a) E" for acc'
      using Cons.IH [of "pre @ [x]" acc'] Cons.prems by simp
    then show ?case
      unfolding foldE.simps by (rule triple_bind [OF assms [OF Cons.prems]])
  qed
  from this [of "[]" xs] show ?thesis by simp
qed

lemma triple_for_prefix:
  assumes "\<And>pre x post. xs = pre @ x # post \<Longrightarrow> triple (I pre) (f x) (\<lambda>_. I (pre @ [x])) E"
  shows "triple (I []) (forE xs f) (\<lambda>_. I xs) E"
proof -
  have "triple (I pre) (forE post f) (\<lambda>_. I (pre @ post)) E" if "xs = pre @ post" for pre post
    using that
  proof (induction post arbitrary: pre)
    case Nil
    then show ?case by (simp add: triple_return)
  next
    case (Cons x post)
    then have "triple (I (pre @ [x])) (forE post f) (\<lambda>_. I (pre @ x # post)) E"
      using Cons.IH [of "pre @ [x]"] by simp
    then show ?case
      unfolding forE.simps by (rule triple_bind [OF assms [OF Cons.prems]])
  qed
  from this [of "[]" xs] show ?thesis by simp
qed

section \<open>Frame relations\<close>

definition keeps :: "('s \<Rightarrow> 's \<Rightarrow> bool) \<Rightarrow> ('s, 'e, 'a) exec \<Rightarrow> bool" where
  "keeps R m \<longleftrightarrow> (\<forall>s. R s (snd (m s)))"

lemma keepsD: "keeps R m \<Longrightarrow> m s = (r, s') \<Longrightarrow> R s s'"
  by (metis keeps_def snd_conv)

text \<open>
  The contract of a frame relation: whatever every step of a computation respects, the whole
  computation respects, provided the relation is reflexive and transitive.
\<close>

locale frame_relation =
  fixes R :: "'s \<Rightarrow> 's \<Rightarrow> bool"
  assumes frame_refl: "R s s"
    and frame_trans: "R s t \<Longrightarrow> R t u \<Longrightarrow> R s u"
begin

lemma keeps_return: "keeps R (returnE a)"
  by (simp add: keeps_def frame_refl exec_simps)

lemma keeps_throw: "keeps R (throwE e)"
  by (simp add: keeps_def frame_refl exec_simps)

lemma keeps_get: "keeps R (getE f)"
  by (simp add: keeps_def frame_refl)

lemma keeps_lift: "keeps R (liftE r)"
  by (simp add: keeps_def frame_refl exec_simps)

lemma keeps_guard: "keeps R (guardE b e)"
  by (simp add: keeps_def frame_refl exec_simps)

lemma keeps_bind:
  assumes "keeps R m" and "\<And>a. keeps R (f a)"
  shows "keeps R (bindE m f)"
proof -
  have "R s (snd (bindE m f s))" for s
  proof -
    obtain r s' where m: "m s = (r, s')" by force
    with assms(1) have "R s s'" by (rule keepsD)
    moreover have "R s' (snd (f a s'))" for a
      using assms(2) by (simp add: keeps_def)
    ultimately show ?thesis
      using m by (auto simp: bindE_def split: sum.splits intro: frame_trans)
  qed
  then show ?thesis by (simp add: keeps_def)
qed

lemma keeps_for: "(\<And>x. x \<in> set xs \<Longrightarrow> keeps R (f x)) \<Longrightarrow> keeps R (forE xs f)"
  by (induction xs) (auto intro: keeps_return keeps_bind)

lemma keeps_fold:
  "(\<And>x acc. x \<in> set xs \<Longrightarrow> keeps R (f x acc)) \<Longrightarrow> keeps R (foldE xs acc f)"
  by (induction xs arbitrary: acc) (auto intro: keeps_return keeps_bind)

lemmas keeps_basic = keeps_return keeps_throw keeps_get keeps_lift keeps_guard keeps_bind

end

text \<open>Equality is a frame relation: the computations that never write.\<close>

abbreviation reads_only :: "('s, 'e, 'a) exec \<Rightarrow> bool" where
  "reads_only m \<equiv> keeps (\<lambda>s s'. s' = s) m"

interpretation unchanged: frame_relation "\<lambda>s s'. s' = s"
  by unfold_locales simp_all

lemma reads_onlyD: "reads_only m \<Longrightarrow> m s = (r, s') \<Longrightarrow> s' = s"
  by (drule keepsD)

section \<open>Unsigned 64-bit arithmetic on naturals\<close>

abbreviation two64 :: nat where "two64 \<equiv> 2 ^ 64"

definition u64_max :: nat where "u64_max = 2 ^ 64 - 1"

definition i64_max :: nat where "i64_max = 2 ^ 63 - 1"

definition add64 :: "nat \<Rightarrow> nat \<Rightarrow> nat" where
  "add64 a b = (a + b) mod 2 ^ 64"

definition mul64 :: "nat \<Rightarrow> nat \<Rightarrow> nat" where
  "mul64 a b = (a * b) mod 2 ^ 64"

text \<open>\<open>static_cast<uint64_t>\<close> of an \<open>int64_t\<close>.\<close>

definition i64_to_u64 :: "int \<Rightarrow> nat" where
  "i64_to_u64 d = nat (d mod 2 ^ 64)"

lemma add64_exact [simp]: "a + b < 2 ^ 64 \<Longrightarrow> add64 a b = a + b"
  by (simp add: add64_def)

lemma mul64_exact [simp]: "a * b < 2 ^ 64 \<Longrightarrow> mul64 a b = a * b"
  by (simp add: mul64_def)

lemma mul64_1 [simp]: "mul64 1 b = b mod 2 ^ 64" "mul64 a 1 = a mod 2 ^ 64"
  by (simp_all add: mul64_def)

lemma i64_to_u64_pos [simp]: "0 \<le> d \<Longrightarrow> d < 2 ^ 64 \<Longrightarrow> i64_to_u64 d = nat d"
  by (simp add: i64_to_u64_def)

lemma u64_max_numeral: "u64_max = 18446744073709551615"
  by (simp add: u64_max_def)

lemma i64_max_numeral: "i64_max = 9223372036854775807"
  by (simp add: i64_max_def)

section \<open>Decimal rendering\<close>

definition digit_char :: "nat \<Rightarrow> char" where
  "digit_char d = char_of (48 + d)"

fun show_nat :: "nat \<Rightarrow> string" where
  "show_nat n = (if n < 10 then [digit_char n] else show_nat (n div 10) @ [digit_char (n mod 10)])"

declare show_nat.simps [simp del]

definition show_int :: "int \<Rightarrow> string" where
  "show_int i = (if i < 0 then ''-'' @ show_nat (nat (- i)) else show_nat (nat i))"

section \<open>Lists\<close>

lemma prod_list_pos:
  fixes xs :: "nat list"
  shows "(\<forall>x \<in> set xs. 0 < x) \<Longrightarrow> 0 < prod_list xs"
  by (induction xs) auto

lemma list_update_range_map:
  assumes "n \<le> length xs"
  shows "foldl (\<lambda>acc i. acc[i := f i]) xs [0..<n] = map f [0..<n] @ drop n xs"
  using assms
proof (induction n)
  case 0
  then show ?case by simp
next
  case (Suc n)
  then have IH: "foldl (\<lambda>acc i. acc[i := f i]) xs [0..<n] = map f [0..<n] @ drop n xs"
    by simp
  have "drop n xs = xs ! n # drop (Suc n) xs"
    using Suc.prems by (simp add: Cons_nth_drop_Suc)
  then show ?case
    using Suc.prems by (simp add: IH list_update_append)
qed

lemma nth_append_length_eq [simp]: "(xs @ [x]) ! length xs = x"
  by simp

end
