(* ===== verification/Status.thy ===== *)
theory Status
  imports Prelude
begin

text \<open>
  Statuses, exceptions and the guards at the two error boundaries
  (\<open>native/src/core/status.h\<close>, \<open>status.cc\<close>, \<open>abi_guard.h\<close>, \<open>allocation_guard.h\<close>,
  \<open>integer_math.h\<close>, and \<open>ts_status_name\<close> of \<open>native/src/c_api.cc\<close>).

  A C++ function that returns \<open>Status\<close> becomes a computation that returns normally for
  \<open>Status::Ok()\<close> and faults with \<open>Failed st\<close> otherwise; an exception that leaves a function is
  the fault \<open>Raised ex\<close>.  The constructors of \<open>status\<close> are the factory functions of
  \<open>status.cc\<close>, so every status that is not ok carries its message.
\<close>

section \<open>Statuses\<close>

datatype status =
    InvalidArgument string
  | InvalidShape string
  | OutOfMemory string
  | Unsupported string
  | InvalidHandle string
  | InternalError string
  | ModelError string

text \<open>
  Messages are long literals: these congruence rules keep the simplifier out of them.
\<close>

lemma status_message_cong [cong]:
  "InvalidArgument m = InvalidArgument m" "InvalidShape m = InvalidShape m"
  "OutOfMemory m = OutOfMemory m" "Unsupported m = Unsupported m"
  "InvalidHandle m = InvalidHandle m" "InternalError m = InternalError m"
  "ModelError m = ModelError m"
  by (rule refl)+

text \<open>The status codes of \<open>tensora.h\<close>.\<close>

definition TS_OK :: int where "TS_OK = 0"
definition TS_INVALID_ARGUMENT :: int where "TS_INVALID_ARGUMENT = 1"
definition TS_INVALID_SHAPE :: int where "TS_INVALID_SHAPE = 2"
definition TS_OUT_OF_MEMORY :: int where "TS_OUT_OF_MEMORY = 3"
definition TS_UNSUPPORTED :: int where "TS_UNSUPPORTED = 4"
definition TS_INVALID_HANDLE :: int where "TS_INVALID_HANDLE = 5"
definition TS_INTERNAL_ERROR :: int where "TS_INTERNAL_ERROR = 6"
definition TS_MODEL_ERROR :: int where "TS_MODEL_ERROR = 7"

lemmas ts_codes = TS_OK_def TS_INVALID_ARGUMENT_def TS_INVALID_SHAPE_def TS_OUT_OF_MEMORY_def
  TS_UNSUPPORTED_def TS_INVALID_HANDLE_def TS_INTERNAL_ERROR_def TS_MODEL_ERROR_def

fun status_code :: "status \<Rightarrow> int" where
  "status_code (InvalidArgument _) = TS_INVALID_ARGUMENT"
| "status_code (InvalidShape _) = TS_INVALID_SHAPE"
| "status_code (OutOfMemory _) = TS_OUT_OF_MEMORY"
| "status_code (Unsupported _) = TS_UNSUPPORTED"
| "status_code (InvalidHandle _) = TS_INVALID_HANDLE"
| "status_code (InternalError _) = TS_INTERNAL_ERROR"
| "status_code (ModelError _) = TS_MODEL_ERROR"

fun status_message :: "status \<Rightarrow> string" where
  "status_message (InvalidArgument m) = m"
| "status_message (InvalidShape m) = m"
| "status_message (OutOfMemory m) = m"
| "status_message (Unsupported m) = m"
| "status_message (InvalidHandle m) = m"
| "status_message (InternalError m) = m"
| "status_message (ModelError m) = m"

definition ts_status_name :: "int \<Rightarrow> string" where
  "ts_status_name status =
     (if status = TS_OK then ''OK''
      else if status = TS_INVALID_ARGUMENT then ''INVALID_ARGUMENT''
      else if status = TS_INVALID_SHAPE then ''INVALID_SHAPE''
      else if status = TS_OUT_OF_MEMORY then ''OUT_OF_MEMORY''
      else if status = TS_UNSUPPORTED then ''UNSUPPORTED''
      else if status = TS_INVALID_HANDLE then ''INVALID_HANDLE''
      else if status = TS_INTERNAL_ERROR then ''INTERNAL_ERROR''
      else if status = TS_MODEL_ERROR then ''MODEL_ERROR''
      else ''UNKNOWN_STATUS'')"

section \<open>Exceptions and faults\<close>

text \<open>
  \<open>Terminated\<close> is \<open>std::terminate\<close>, called when an exception leaves a \<open>noexcept\<close> function.
\<close>

datatype cxx_exception =
    BadAlloc
  | LengthError string
  | StdException string
  | UnknownException
  | Terminated

datatype fault = Failed status | Raised cxx_exception

type_synonym ('s, 'a) run = "('s, fault, 'a) exec"

definition failE :: "status \<Rightarrow> ('s, 'a) run" where
  "failE st = throwE (Failed st)"

definition checkE :: "bool \<Rightarrow> status \<Rightarrow> ('s, unit) run" where
  "checkE b st = guardE b (Failed st)"

definition statusE :: "(status + 'a) \<Rightarrow> ('s, 'a) run" where
  "statusE r = liftE (map_sum Failed id r)"

lemma failE_run [exec_simps]: "failE st s = (Inl (Failed st), s)"
  by (simp add: failE_def exec_simps)

lemma checkE_run [exec_simps]: "checkE b st s = ((if b then Inr () else Inl (Failed st)), s)"
  by (simp add: checkE_def exec_simps)

lemma statusE_run [exec_simps]: "statusE r s = (map_sum Failed id r, s)"
  by (simp add: statusE_def exec_simps)

lemma bindE_check [simp]: "bindE (checkE b st) f s = (if b then f () s else (Inl (Failed st), s))"
  by (simp add: checkE_def)

lemma bindE_status_Inr [simp]: "bindE (statusE (Inr a)) f = f a"
  by (simp add: statusE_def)

lemma bindE_fail [simp]: "bindE (failE st) f = failE st"
  by (simp add: failE_def)

lemma triple_fail [triple_rules]:
  "(\<And>s. P s \<Longrightarrow> E (Failed st) s) \<Longrightarrow> triple P (failE st) Q E"
  by (simp add: failE_def triple_throw)

lemma triple_check [triple_rules]:
  "(\<And>s. P s \<Longrightarrow> b \<Longrightarrow> Q () s) \<Longrightarrow> (\<And>s. P s \<Longrightarrow> \<not> b \<Longrightarrow> E (Failed st) s) \<Longrightarrow>
   triple P (checkE b st) Q E"
  by (simp add: checkE_def triple_guard)

lemma triple_status [triple_rules]:
  "(\<And>s a. P s \<Longrightarrow> r = Inr a \<Longrightarrow> Q a s) \<Longrightarrow>
   (\<And>s st. P s \<Longrightarrow> r = Inl st \<Longrightarrow> E (Failed st) s) \<Longrightarrow> triple P (statusE r) Q E"
  by (cases r) (auto simp: statusE_def intro: triple_lift)

context frame_relation
begin

lemma keeps_fail: "keeps R (failE st)"
  by (simp add: failE_def keeps_throw)

lemma keeps_check: "keeps R (checkE b st)"
  by (simp add: checkE_def keeps_guard)

lemma keeps_status: "keeps R (statusE r)"
  by (simp add: statusE_def keeps_lift)

lemmas keeps_all = keeps_basic keeps_fail keeps_check keeps_status keeps_for keeps_fold

end

section \<open>AllocationGuard\<close>

text \<open>
  The wrapper around an allocating body: \<open>bad_alloc\<close> and \<open>length_error\<close> become
  \<open>OutOfMemory\<close>; any other exception reaches the \<open>noexcept\<close> boundary.
\<close>

definition allocation_guard :: "string \<Rightarrow> ('s, 'a) run \<Rightarrow> ('s, 'a) run" where
  "allocation_guard operation body = (\<lambda>s. case body s of (r, s') \<Rightarrow>
     (case r of
        Inr a \<Rightarrow> (Inr a, s')
      | Inl f \<Rightarrow> (case f of
          Failed st \<Rightarrow> (Inl (Failed st), s')
        | Raised ex \<Rightarrow> (case ex of
            BadAlloc \<Rightarrow> (Inl (Failed (OutOfMemory (operation @ '': allocation failed''))), s')
          | LengthError _ \<Rightarrow>
              (Inl (Failed (OutOfMemory (operation @ '': allocation size is too large''))), s')
          | _ \<Rightarrow> (Inl (Raised Terminated), s')))))"

lemma allocation_guard_Inr [simp]:
  "allocation_guard operation body s = (Inr a, s') \<longleftrightarrow> body s = (Inr a, s')"
  by (auto simp: allocation_guard_def split: prod.splits sum.splits fault.splits
      cxx_exception.splits)

lemma allocation_guard_state [simp]: "snd (allocation_guard operation body s) = snd (body s)"
  by (auto simp: allocation_guard_def split: prod.splits sum.splits fault.splits
      cxx_exception.splits)

lemma keeps_allocation_guard: "keeps R m \<Longrightarrow> keeps R (allocation_guard operation m)"
  by (simp add: keeps_def)

lemma allocation_guard_no_allocation_exception:
  assumes "allocation_guard operation body s = (Inl (Raised ex), s')"
  shows "ex = Terminated"
  using assms by (auto simp: allocation_guard_def split: prod.splits sum.splits fault.splits
      cxx_exception.splits)

lemma triple_allocation_guard:
  assumes "triple P m Q E"
    and "\<And>s st. E (Failed st) s \<Longrightarrow> E' (Failed st) s"
    and "\<And>s. E (Raised BadAlloc) s \<Longrightarrow>
          E' (Failed (OutOfMemory (operation @ '': allocation failed''))) s"
    and "\<And>s what. E (Raised (LengthError what)) s \<Longrightarrow>
          E' (Failed (OutOfMemory (operation @ '': allocation size is too large''))) s"
    and "\<And>s ex. ex \<noteq> BadAlloc \<Longrightarrow> \<forall>what. ex \<noteq> LengthError what \<Longrightarrow> E (Raised ex) s \<Longrightarrow>
          E' (Raised Terminated) s"
  shows "triple P (allocation_guard operation m) Q E'"
proof (rule tripleI)
  fix s a s'
  assume "P s" and "allocation_guard operation m s = (Inr a, s')"
  then show "Q a s'" using assms(1) by (auto dest: triple_InrD)
next
  fix s f s'
  assume P: "P s" and run: "allocation_guard operation m s = (Inl f, s')"
  then obtain f' where m: "m s = (Inl f', s')"
    and f: "f = (case f' of Failed st \<Rightarrow> Failed st
      | Raised BadAlloc \<Rightarrow> Failed (OutOfMemory (operation @ '': allocation failed''))
      | Raised (LengthError _) \<Rightarrow> Failed (OutOfMemory (operation @ '': allocation size is too large''))
      | Raised _ \<Rightarrow> Raised Terminated)"
    by (auto simp: allocation_guard_def split: prod.splits sum.splits fault.splits
        cxx_exception.splits)
  from triple_InlD [OF assms(1) P m] have "E f' s'" .
  then show "E' f s'"
  proof (cases f')
    case (Failed st)
    with \<open>E f' s'\<close> f assms(2) show ?thesis by simp
  next
    case (Raised ex)
    have "ex \<noteq> BadAlloc \<Longrightarrow> \<forall>what. ex \<noteq> LengthError what \<Longrightarrow> E' (Raised Terminated) s'"
      using assms(5) [of ex s'] Raised \<open>E f' s'\<close> by simp
    with Raised \<open>E f' s'\<close> f assms(3,4) show ?thesis by (cases ex) simp_all
  qed
qed

section \<open>AbiGuard\<close>

text \<open>
  The body of every exported function runs under \<open>AbiGuard\<close>.  The result is the returned
  \<open>ts_status_t\<close> (\<open>None\<close>: the process was terminated inside a \<open>noexcept\<close> function) and the new
  content of the thread-local \<open>g_last_error\<close>, which is cleared first and set for every status
  that is not ok.  An empty message is replaced by \<open>operation: failed\<close>.
\<close>

definition status_or_default :: "string \<Rightarrow> status \<Rightarrow> string" where
  "status_or_default operation st =
     (if status_message st = [] then operation @ '': failed'' else status_message st)"

fun abi_result :: "string \<Rightarrow> (fault + unit) \<Rightarrow> int option \<times> string" where
  "abi_result operation (Inr _) = (Some TS_OK, [])"
| "abi_result operation (Inl (Failed st)) =
     (Some (status_code st), status_or_default operation st)"
| "abi_result operation (Inl (Raised BadAlloc)) =
     (Some TS_OUT_OF_MEMORY, operation @ '': native allocation failed'')"
| "abi_result operation (Inl (Raised (LengthError what))) =
     (Some TS_INTERNAL_ERROR, operation @ '': '' @ what)"
| "abi_result operation (Inl (Raised (StdException what))) =
     (Some TS_INTERNAL_ERROR, operation @ '': '' @ what)"
| "abi_result operation (Inl (Raised UnknownException)) =
     (Some TS_INTERNAL_ERROR, operation @ '': unknown native exception'')"
| "abi_result operation (Inl (Raised Terminated)) = (None, [])"

definition abi_guard :: "string \<Rightarrow> ('s, unit) run \<Rightarrow> 's \<Rightarrow> (int option \<times> string) \<times> 's" where
  "abi_guard operation body s = (case body s of (r, s') \<Rightarrow> (abi_result operation r, s'))"

lemma abi_result_ok_iff: "fst (abi_result operation r) = Some TS_OK \<longleftrightarrow> r = Inr ()"
  by (cases "(operation, r)" rule: abi_result.cases; cases r)
    (auto simp: ts_codes elim: status_code.elims)

lemma abi_result_message_iff:
  "snd (abi_result operation r) = [] \<longleftrightarrow>
   fst (abi_result operation r) = Some TS_OK \<or> fst (abi_result operation r) = None"
  by (cases "(operation, r)" rule: abi_result.cases)
    (auto simp: ts_codes status_or_default_def elim: status_code.elims)

lemma status_code_range: "1 \<le> status_code st" "status_code st \<le> 7"
  by (cases st; simp add: ts_codes)+

lemma abi_result_range:
  assumes "fst (abi_result operation r) = Some c"
  shows "0 \<le> c \<and> c \<le> 7"
proof (cases "(operation, r)" rule: abi_result.cases)
  case (2 operation st)
  then show ?thesis
    using assms status_code_range [of st] by simp
qed (use assms in \<open>auto simp: ts_codes\<close>)

section \<open>Checked addition\<close>

text \<open>
  \<open>CheckedAddU64\<close>: the output cell (\<open>None\<close>: a null pointer) is zeroed before the overflow test,
  so it holds 0 after a failure.
\<close>

definition CheckedAddU64 ::
    "nat \<Rightarrow> nat \<Rightarrow> string \<Rightarrow> nat option \<Rightarrow> (status + unit) \<times> nat option" where
  "CheckedAddU64 left right operation out =
     (case out of
        None \<Rightarrow> (Inl (InvalidArgument (operation @ '': output pointer is null'')), None)
      | Some _ \<Rightarrow>
          (if right > u64_max - left
           then (Inl (InternalError (operation @ '': counter overflow'')), Some 0)
           else (Inr (), Some (add64 left right))))"

lemma CheckedAddU64_ok_iff:
  assumes "left \<le> u64_max"
  shows "fst (CheckedAddU64 left right operation (Some v)) = Inr () \<longleftrightarrow> left + right \<le> u64_max"
  using assms by (auto simp: CheckedAddU64_def)

lemma CheckedAddU64_value:
  assumes "left \<le> u64_max" and "left + right \<le> u64_max"
  shows "CheckedAddU64 left right operation (Some v) = (Inr (), Some (left + right))"
  using assms by (auto simp: CheckedAddU64_def u64_max_def)

end
