(* ===== verification/Shape.thy ===== *)
theory Shape
  imports Status
begin

text \<open>
  Shape validation and the layout arithmetic of tensors: \<open>native/src/tensor/shape.h\<close>,
  \<open>shape.cc\<close>, and \<open>Tensor::is_contiguous\<close> and \<open>Tensor::logical_storage_index\<close> of
  \<open>native/src/tensor/tensor.cc\<close>.

  An \<open>int64_t\<close> is an \<open>int\<close>, a \<open>uint64_t\<close> or \<open>size_t\<close> a \<open>nat\<close> below \<open>2^64\<close> with wrapping
  arithmetic (\<open>mul64\<close>, \<open>add64\<close>).  The lemmas show that a validated shape has row-major strides,
  that no product in the validator wraps, and that a layout whose extent lies in its storage
  reads inside the storage for every logical index.
\<close>

definition kMaxTensorRank :: nat where "kMaxTensorRank = 32"

record shape_info =
  dimensions :: "int list"
  strides :: "nat list"
  numel :: nat
  byte_size :: nat

section \<open>Validation\<close>

definition rank_message :: "nat \<Rightarrow> string" where
  "rank_message rank = ''shape: rank '' @ show_nat rank @ '' exceeds Milestone 1 limit '' @
     show_nat kMaxTensorRank"

definition dimension_message :: "nat \<Rightarrow> int \<Rightarrow> string" where
  "dimension_message i d = ''shape: dimension '' @ show_nat i @ '' must be positive, got '' @
     show_int d"

fun check_dims :: "int list \<Rightarrow> nat \<Rightarrow> nat \<Rightarrow> status + nat" where
  "check_dims [] i count = Inr count"
| "check_dims (dim # ds) i count =
     (if dim \<le> 0 then Inl (InvalidShape (dimension_message i dim))
      else let value = i64_to_u64 dim
           in if count > i64_max div value
              then Inl (InvalidShape ''shape: element count overflows supported int64 range'')
              else check_dims ds (Suc i) (mul64 count value))"

fun fill_strides :: "int list \<Rightarrow> nat \<Rightarrow> nat \<Rightarrow> nat list \<Rightarrow> nat list" where
  "fill_strides ds 0 stride acc = acc"
| "fill_strides ds (Suc i) stride acc =
     fill_strides ds i (if i > 0 then mul64 stride (i64_to_u64 (ds ! i)) else stride)
       (acc[i := stride])"

text \<open>
  \<open>dims\<close> is the caller's pointer (\<open>None\<close>: null), of which the first \<open>rank\<close> elements are read.
\<close>

definition ValidateShape :: "int list option \<Rightarrow> nat \<Rightarrow> status + shape_info" where
  "ValidateShape dims rank =
     (if rank > kMaxTensorRank then Inl (InvalidShape (rank_message rank))
      else if rank > 0 \<and> dims = None
      then Inl (InvalidArgument ''shape: dimensions pointer is null for nonzero rank'')
      else let ds = (case dims of None \<Rightarrow> [] | Some a \<Rightarrow> take rank a)
           in case check_dims ds 0 1 of
                Inl st \<Rightarrow> Inl st
              | Inr n \<Rightarrow>
                  let n' = (if rank = 0 then 1 else n)
                  in if n' > u64_max div 4
                     then Inl (InvalidShape ''shape: float32 allocation byte size overflows size_t'')
                     else Inr \<lparr>dimensions = ds,
                               strides = fill_strides ds rank 1 (replicate rank 1),
                               numel = n', byte_size = mul64 n' 4\<rparr>)"

definition SameShape :: "shape_info \<Rightarrow> shape_info \<Rightarrow> bool" where
  "SameShape left right \<longleftrightarrow> dimensions left = dimensions right"

section \<open>What validation promises\<close>

definition i64_array :: "int list \<Rightarrow> bool" where
  "i64_array ds \<longleftrightarrow> (\<forall>d \<in> set ds. - (2 ^ 63) \<le> d \<and> d < 2 ^ 63)"

definition dims_prod :: "int list \<Rightarrow> nat" where
  "dims_prod ds = prod_list (map nat ds)"

definition row_major :: "int list \<Rightarrow> nat list" where
  "row_major ds = map (\<lambda>i. dims_prod (drop (Suc i) ds)) [0..<length ds]"

definition canonical_shape :: "int list \<Rightarrow> shape_info" where
  "canonical_shape ds = \<lparr>dimensions = ds, strides = row_major ds, numel = dims_prod ds,
     byte_size = 4 * dims_prod ds\<rparr>"

definition max_numel :: nat where "max_numel = 2 ^ 62 - 1"

definition valid_dims :: "int list \<Rightarrow> bool" where
  "valid_dims ds \<longleftrightarrow> length ds \<le> kMaxTensorRank \<and> (\<forall>d \<in> set ds. 0 < d) \<and>
     dims_prod ds \<le> max_numel"

lemma dims_prod_simps [simp]:
  "dims_prod [] = 1" "dims_prod (d # ds) = nat d * dims_prod ds"
  by (simp_all add: dims_prod_def)

lemma dims_prod_append [simp]: "dims_prod (xs @ ys) = dims_prod xs * dims_prod ys"
  by (simp add: dims_prod_def)

lemma dims_prod_pos: "\<forall>d \<in> set ds. 0 < d \<Longrightarrow> 0 < dims_prod ds"
  by (induction ds) auto

lemma dims_prod_member_le:
  assumes "\<forall>d \<in> set ds. 0 < d" and "d \<in> set ds"
  shows "nat d \<le> dims_prod ds"
  using assms
proof (induction ds)
  case (Cons a ds)
  have pos: "0 < dims_prod ds" using Cons.prems by (intro dims_prod_pos) simp
  show ?case
  proof (cases "d = a")
    case True
    with pos show ?thesis by simp
  next
    case False
    with Cons have "nat d \<le> dims_prod ds" by simp
    also have "\<dots> \<le> nat a * dims_prod ds" using Cons.prems by (auto simp: Suc_le_eq)
    finally show ?thesis by simp
  qed
qed simp

lemma dims_prod_drop_le:
  assumes "\<forall>d \<in> set ds. 0 < d"
  shows "dims_prod (drop i ds) \<le> dims_prod ds"
proof -
  have "dims_prod ds = dims_prod (take i ds) * dims_prod (drop i ds)"
    by (metis append_take_drop_id dims_prod_append)
  moreover have "0 < dims_prod (take i ds)"
    using assms by (intro dims_prod_pos) (meson in_set_takeD)
  ultimately show ?thesis by simp
qed

lemma valid_dims_less: "valid_dims ds \<Longrightarrow> d \<in> set ds \<Longrightarrow> 0 < d \<and> d < 2 ^ 62"
proof -
  assume v: "valid_dims ds" and d: "d \<in> set ds"
  then have "nat d \<le> dims_prod ds" by (auto simp: valid_dims_def intro: dims_prod_member_le)
  with v have "nat d \<le> max_numel" by (simp add: valid_dims_def)
  with v d show ?thesis by (auto simp: valid_dims_def max_numel_def)
qed

lemma check_dims_iff:
  assumes "i64_array ds" and "0 < n" and "n \<le> i64_max"
  shows "check_dims ds i n = Inr m \<longleftrightarrow>
    (\<forall>d \<in> set ds. 0 < d) \<and> n * dims_prod ds \<le> i64_max \<and> m = n * dims_prod ds"
  using assms
proof (induction ds arbitrary: i n)
  case Nil
  then show ?case by auto
next
  case (Cons d ds)
  show ?case
  proof (cases "0 < d")
    case False
    then show ?thesis by simp
  next
    case True
    from Cons.prems True have v: "i64_to_u64 d = nat d" by (simp add: i64_array_def)
    have step: "n > i64_max div nat d \<longleftrightarrow> i64_max < n * nat d"
      using True by (simp add: div_less_iff_less_mult)
    show ?thesis
    proof (cases "i64_max < n * nat d")
      case over: True
      have "i64_max < n * (nat d * dims_prod ds)" if "\<forall>x \<in> set ds. 0 < x"
      proof -
        have "n * nat d * 1 \<le> n * nat d * dims_prod ds"
          using dims_prod_pos [OF that] by (intro mult_le_mono2) simp
        with over show ?thesis by (simp only: mult.assoc mult_1_right)
      qed
      then show ?thesis using True over step v by (auto simp: Let_def not_less [symmetric])
    next
      case fits: False
      then have nd: "mul64 n (nat d) = n * nat d" by (simp add: i64_max_def)
      have "i64_array ds" using Cons.prems by (simp add: i64_array_def)
      moreover have "0 < n * nat d" using True Cons.prems by simp
      ultimately have "check_dims ds (Suc i) (n * nat d) = Inr m \<longleftrightarrow>
          (\<forall>x \<in> set ds. 0 < x) \<and> n * nat d * dims_prod ds \<le> i64_max \<and>
          m = n * nat d * dims_prod ds"
        using fits by (intro Cons.IH) simp_all
      then show ?thesis using True fits step v nd by (simp add: Let_def mult.assoc)
    qed
  qed
qed

lemma fill_strides_row_major:
  assumes "i \<le> length ds" and "length acc = length ds" and "\<forall>d \<in> set ds. 0 < d"
    and "dims_prod ds < 2 ^ 63" and "stride = dims_prod (drop i ds)"
  shows "fill_strides ds i stride acc =
    map (\<lambda>j. dims_prod (drop (Suc j) ds)) [0..<i] @ drop i acc"
  using assms
proof (induction i arbitrary: stride acc)
  case 0
  then show ?case by simp
next
  case (Suc i)
  have i: "i < length ds" using Suc.prems by simp
  then have pos: "0 < ds ! i" using Suc.prems by simp
  have cut: "drop i ds = ds ! i # drop (Suc i) ds" using i by (simp add: Cons_nth_drop_Suc)
  have le: "dims_prod (drop i ds) \<le> dims_prod ds" using Suc.prems by (intro dims_prod_drop_le)
  have "nat (ds ! i) \<le> dims_prod ds" using Suc.prems i by (intro dims_prod_member_le) simp_all
  then have "nat (ds ! i) < 2 ^ 63" using Suc.prems(4) by (rule le_less_trans)
  then have "ds ! i < 2 ^ 64" by (simp add: nat_less_iff)
  then have "i64_to_u64 (ds ! i) = nat (ds ! i)" using pos by simp
  moreover have "stride * nat (ds ! i) = dims_prod (drop i ds)"
    using Suc.prems cut by (simp add: mult.commute)
  ultimately have next_stride: "mul64 stride (i64_to_u64 (ds ! i)) = dims_prod (drop i ds)"
    using le Suc.prems by simp
  have tail: "drop i (acc[i := stride]) = stride # drop (Suc i) acc"
    using i Suc.prems by (simp add: Cons_nth_drop_Suc [symmetric])
  show ?case
  proof (cases i)
    case 0
    then show ?thesis using Suc.prems i tail by simp
  next
    case (Suc k)
    then have "fill_strides ds (Suc i) stride acc =
        fill_strides ds i (dims_prod (drop i ds)) (acc[i := stride])"
      using next_stride by simp
    also have "\<dots> = map (\<lambda>j. dims_prod (drop (Suc j) ds)) [0..<i] @ drop i (acc[i := stride])"
      using Suc.prems i by (intro Suc.IH) simp_all
    finally show ?thesis using tail Suc.prems by simp
  qed
qed

text \<open>The complete contract of the validator on a readable array.\<close>

lemma ValidateShape_cases:
  assumes "i64_array (take rank a)" and "rank \<le> length a"
  shows "ValidateShape (Some a) rank = Inr info \<longleftrightarrow>
    valid_dims (take rank a) \<and> info = canonical_shape (take rank a)"
proof -
  let ?ds = "take rank a"
  have one: "(0::nat) < 1" "1 \<le> i64_max" by (simp_all add: i64_max_def)
  note ck = check_dims_iff [OF assms(1) one, of 0]
  have len: "length ?ds = rank" using assms(2) by simp
  have lim: "u64_max div 4 = max_numel" by (simp add: u64_max_def max_numel_def)
  show ?thesis
  proof (cases "rank \<le> kMaxTensorRank")
    case False
    then show ?thesis using len by (simp add: ValidateShape_def valid_dims_def)
  next
    case rank: True
    show ?thesis
    proof (cases "check_dims ?ds 0 1")
      case (Inl st)
      then have "\<not> ((\<forall>d \<in> set ?ds. 0 < d) \<and> dims_prod ?ds \<le> i64_max)" using ck by auto
      moreover have "max_numel \<le> i64_max" by (simp add: max_numel_def i64_max_def)
      ultimately have "\<not> valid_dims ?ds" by (auto simp: valid_dims_def)
      then show ?thesis using Inl rank by (simp add: ValidateShape_def Let_def)
    next
      case (Inr n)
      with ck have pos: "\<forall>d \<in> set ?ds. 0 < d" and n: "n = dims_prod ?ds"
        and small: "dims_prod ?ds \<le> i64_max" by auto
      then have n': "(if rank = 0 then 1 else n) = dims_prod ?ds" by auto
      have "dims_prod ?ds < 2 ^ 63" using small by (simp add: i64_max_def)
      then have st: "fill_strides ?ds rank 1 (replicate rank 1) = row_major ?ds"
        using fill_strides_row_major [of rank ?ds "replicate rank 1" 1] pos len
        by (simp add: row_major_def)
      have bs: "dims_prod ?ds \<le> max_numel \<Longrightarrow> mul64 (dims_prod ?ds) 4 = 4 * dims_prod ?ds"
        by (simp add: max_numel_def)
      show ?thesis
        using rank Inr n' st bs lim pos len
        by (auto simp: ValidateShape_def Let_def valid_dims_def canonical_shape_def not_less
            simp del: fill_strides.simps)
    qed
  qed
qed

lemma ValidateShape_scalar: "ValidateShape None 0 = Inr (canonical_shape [])"
  by (simp add: ValidateShape_def canonical_shape_def row_major_def kMaxTensorRank_def
      u64_max_def)

lemma valid_dims_i64: "valid_dims ds \<Longrightarrow> i64_array ds"
  by (fastforce simp: i64_array_def dest: valid_dims_less)

text \<open>
  The form in which the backends revalidate: \<open>dimensions.empty() ? nullptr : data()\<close>.
\<close>

definition dims_pointer :: "int list \<Rightarrow> int list option" where
  "dims_pointer ds = (if ds = [] then None else Some ds)"

lemma ValidateShape_pointer:
  assumes "valid_dims ds"
  shows "ValidateShape (dims_pointer ds) (length ds) = Inr (canonical_shape ds)"
  using assms ValidateShape_cases [of "length ds" ds] ValidateShape_scalar valid_dims_i64
  by (auto simp: dims_pointer_def)

lemma ValidateShape_pointer_Inr:
  assumes "ValidateShape (dims_pointer ds) (length ds) = Inr info" and "i64_array ds"
  shows "valid_dims ds" and "info = canonical_shape ds"
  using assms ValidateShape_cases [of "length ds" ds info]
  by (auto simp: dims_pointer_def ValidateShape_scalar valid_dims_def kMaxTensorRank_def
      max_numel_def split: if_splits)

lemma canonical_shape_simps [simp]:
  "dimensions (canonical_shape ds) = ds" "strides (canonical_shape ds) = row_major ds"
  "numel (canonical_shape ds) = dims_prod ds" "byte_size (canonical_shape ds) = 4 * dims_prod ds"
  by (simp_all add: canonical_shape_def)

lemma length_row_major [simp]: "length (row_major ds) = length ds"
  by (simp add: row_major_def)

section \<open>Layouts\<close>

text \<open>The loops of \<open>Tensor::is_contiguous\<close> and \<open>Tensor::logical_storage_index\<close>.\<close>

fun contiguous_from :: "int list \<Rightarrow> nat list \<Rightarrow> nat \<Rightarrow> nat \<Rightarrow> bool" where
  "contiguous_from ds ss 0 expected_stride = True"
| "contiguous_from ds ss (Suc i) expected_stride =
     (if ss ! i \<noteq> expected_stride then False
      else contiguous_from ds ss i (mul64 expected_stride (i64_to_u64 (ds ! i))))"

fun storage_index_from :: "int list \<Rightarrow> nat list \<Rightarrow> nat \<Rightarrow> nat \<Rightarrow> nat \<Rightarrow> nat" where
  "storage_index_from ds ss 0 remaining storage_index = storage_index"
| "storage_index_from ds ss (Suc i) remaining storage_index =
     (let dimension = i64_to_u64 (ds ! i); coordinate = remaining mod dimension
      in storage_index_from ds ss i (remaining div dimension)
           (add64 storage_index (mul64 coordinate (ss ! i))))"

text \<open>The same index without wrap-around, and the largest index a layout reaches.\<close>

fun plain_index :: "int list \<Rightarrow> nat list \<Rightarrow> nat \<Rightarrow> nat \<Rightarrow> nat" where
  "plain_index ds ss 0 r = 0"
| "plain_index ds ss (Suc i) r =
     r mod nat (ds ! i) * ss ! i + plain_index ds ss i (r div nat (ds ! i))"

fun extent :: "int list \<Rightarrow> nat list \<Rightarrow> nat \<Rightarrow> nat" where
  "extent ds ss 0 = 0"
| "extent ds ss (Suc i) = (nat (ds ! i) - 1) * ss ! i + extent ds ss i"

lemma plain_index_le_extent:
  assumes "\<forall>d \<in> set ds. 0 < d" and "i \<le> length ds"
  shows "plain_index ds ss i r \<le> extent ds ss i"
  using assms(2)
proof (induction i arbitrary: r)
  case (Suc i)
  then have "0 < ds ! i" using assms(1) by simp
  then have "r mod nat (ds ! i) < nat (ds ! i)" by simp
  then have "r mod nat (ds ! i) \<le> nat (ds ! i) - 1" by linarith
  then have "r mod nat (ds ! i) * ss ! i \<le> (nat (ds ! i) - 1) * ss ! i"
    by (rule mult_le_mono1)
  moreover have "plain_index ds ss i (r div nat (ds ! i)) \<le> extent ds ss i"
    using Suc by simp
  ultimately show ?case by (simp only: plain_index.simps extent.simps add_mono)
qed simp

lemma storage_index_plain:
  assumes "\<forall>d \<in> set ds. 0 < d \<and> d < 2 ^ 62" and "i \<le> length ds"
    and "acc + extent ds ss i < 2 ^ 64"
  shows "storage_index_from ds ss i r acc = acc + plain_index ds ss i r"
  using assms(2,3)
proof (induction i arbitrary: r acc)
  case (Suc i)
  then have d: "0 < ds ! i" "ds ! i < 2 ^ 62" using assms(1) by simp_all
  then have v: "i64_to_u64 (ds ! i) = nat (ds ! i)" by simp
  let ?c = "r mod nat (ds ! i)"
  have "?c < nat (ds ! i)" using d by simp
  then have "?c \<le> nat (ds ! i) - 1" by linarith
  then have "?c * ss ! i \<le> (nat (ds ! i) - 1) * ss ! i" by (rule mult_le_mono1)
  then have bound: "acc + ?c * ss ! i + extent ds ss i < 2 ^ 64"
    using Suc.prems(2) by (simp only: extent.simps)
  then have exact: "mul64 ?c (ss ! i) = ?c * ss ! i"
      "add64 acc (?c * ss ! i) = acc + ?c * ss ! i" by simp_all
  show ?case
    using Suc.IH [of "acc + ?c * ss ! i" "r div nat (ds ! i)"] Suc.prems bound exact v
    by (simp add: Let_def)
qed simp

lemma contiguous_plain_index:
  assumes "\<forall>d \<in> set ds. 0 < d \<and> d < 2 ^ 62" and "i \<le> length ds"
    and "contiguous_from ds ss i e" and "e * dims_prod (take i ds) < 2 ^ 64"
    and "r < dims_prod (take i ds)"
  shows "plain_index ds ss i r = e * r"
  using assms(2-5)
proof (induction i arbitrary: e r)
  case (Suc i)
  let ?d = "nat (ds ! i)"
  have d: "0 < ds ! i" "ds ! i < 2 ^ 62" using assms(1) Suc.prems by simp_all
  then have v: "i64_to_u64 (ds ! i) = ?d" by simp
  have cut: "dims_prod (take (Suc i) ds) = dims_prod (take i ds) * ?d"
    using Suc.prems by (simp add: take_Suc_conv_app_nth)
  have "0 < dims_prod (take i ds)"
    using assms(1) by (intro dims_prod_pos) (meson in_set_takeD)
  then have "e * ?d * 1 \<le> e * ?d * dims_prod (take i ds)" by (intro mult_le_mono2) linarith
  moreover have "e * ?d * dims_prod (take i ds) < 2 ^ 64"
    using Suc.prems(3) cut by (simp add: ac_simps)
  ultimately have "e * ?d < 2 ^ 64" by (simp only: mult_1_right)
  then have e: "mul64 e (i64_to_u64 (ds ! i)) = e * ?d" using v by simp
  have s: "ss ! i = e" and c: "contiguous_from ds ss i (e * ?d)"
    using Suc.prems(2) e by (auto split: if_splits)
  have "plain_index ds ss i (r div ?d) = e * ?d * (r div ?d)"
    using Suc.prems cut c d
    by (intro Suc.IH) (simp_all add: mult.commute mult.left_commute less_mult_imp_div_less)
  then have "plain_index ds ss (Suc i) r = r mod ?d * e + e * ?d * (r div ?d)"
    using s by simp
  also have "\<dots> = e * (r mod ?d + ?d * (r div ?d))" by (simp only: distrib_left ac_simps)
  also have "\<dots> = e * r" by (simp only: mod_mult_div_eq)
  finally show ?case .
qed simp

lemma row_major_nth: "i < length ds \<Longrightarrow> row_major ds ! i = dims_prod (drop (Suc i) ds)"
  by (simp add: row_major_def)

lemma row_major_contiguous:
  assumes "valid_dims ds" and "i \<le> length ds"
  shows "contiguous_from ds (row_major ds) i (dims_prod (drop i ds))"
  using assms(2)
proof (induction i)
  case (Suc i)
  have i: "i < length ds" using Suc.prems by simp
  have cut: "dims_prod (drop i ds) = dims_prod (drop (Suc i) ds) * nat (ds ! i)"
    using i by (simp add: Cons_nth_drop_Suc [symmetric] mult.commute)
  have "dims_prod (drop i ds) \<le> dims_prod ds"
    using assms(1) by (intro dims_prod_drop_le) (simp add: valid_dims_def)
  also have "\<dots> < 2 ^ 64" using assms(1) by (simp add: valid_dims_def max_numel_def)
  finally have "mul64 (dims_prod (drop (Suc i) ds)) (i64_to_u64 (ds ! i)) = dims_prod (drop i ds)"
    using cut valid_dims_less [OF assms(1), of "ds ! i"] i by simp
  then show ?case using Suc i by (simp add: row_major_nth)
qed simp

lemma row_major_is_contiguous:
  "valid_dims ds \<Longrightarrow> contiguous_from ds (row_major ds) (length ds) 1"
  using row_major_contiguous [of ds "length ds"] by simp

lemma row_major_extent:
  assumes "\<forall>d \<in> set ds. 0 < d" and "i \<le> length ds"
  shows "extent ds (row_major ds) i = dims_prod ds - dims_prod (drop i ds)"
  using assms(2)
proof (induction i)
  case (Suc i)
  have i: "i < length ds" using Suc.prems by simp
  then have d: "0 < nat (ds ! i)" using assms(1) by simp
  have cut: "dims_prod (drop i ds) = nat (ds ! i) * dims_prod (drop (Suc i) ds)"
    using i by (simp add: Cons_nth_drop_Suc [symmetric])
  have "dims_prod (drop (Suc i) ds) \<le> dims_prod (drop i ds)" using cut d by (auto simp: Suc_le_eq)
  moreover have "dims_prod (drop i ds) \<le> dims_prod ds" using assms(1) by (rule dims_prod_drop_le)
  ultimately show ?case
    using Suc i cut by (simp add: row_major_nth diff_mult_distrib)
qed simp

lemma plain_index_matrix:
  "plain_index [r, c] [s0, s1] 2 k =
    k mod nat c * s1 + k div nat c mod nat r * s0"
  by (simp add: numeral_2_eq_2)

lemma extent_matrix: "extent [r, c] [s0, s1] 2 = (nat c - 1) * s1 + (nat r - 1) * s0"
  by (simp add: numeral_2_eq_2)

section \<open>Properties\<close>

text \<open>C36: On an array of \<open>rank\<close> 64-bit dimensions the validator succeeds exactly when the rank is
  at most 32, every dimension is positive and the float32 buffer of that many elements has a size
  that fits in 64 bits; then the metadata is the dimensions, the row-major strides, the product of
  the dimensions and four times that, computed without any wrap-around.  A null pointer is
  accepted for rank 0 only.\<close>

theorem shape_validation:
  assumes "i64_array ds"
  shows "(ValidateShape (Some ds) (length ds) = Inr info \<longleftrightarrow>
      length ds \<le> 32 \<and> (\<forall>d \<in> set ds. 0 < d) \<and> 4 * dims_prod ds < 2 ^ 64 \<and>
      info = \<lparr>dimensions = ds, strides = row_major ds, numel = dims_prod ds,
        byte_size = 4 * dims_prod ds\<rparr>) \<and>
    (ValidateShape None rank = Inr info \<longleftrightarrow> rank = 0 \<and>
      info = \<lparr>dimensions = [], strides = [], numel = 1, byte_size = 4\<rparr>)"
proof (rule conjI)
  have "dims_prod ds \<le> max_numel \<longleftrightarrow> 4 * dims_prod ds < 2 ^ 64" by (auto simp: max_numel_def)
  then show "ValidateShape (Some ds) (length ds) = Inr info \<longleftrightarrow>
      length ds \<le> 32 \<and> (\<forall>d \<in> set ds. 0 < d) \<and> 4 * dims_prod ds < 2 ^ 64 \<and>
      info = \<lparr>dimensions = ds, strides = row_major ds, numel = dims_prod ds,
        byte_size = 4 * dims_prod ds\<rparr>"
    using ValidateShape_cases [of "length ds" ds info] assms
    by (auto simp: valid_dims_def canonical_shape_def kMaxTensorRank_def)
  show "ValidateShape None rank = Inr info \<longleftrightarrow> rank = 0 \<and>
      info = \<lparr>dimensions = [], strides = [], numel = 1, byte_size = 4\<rparr>"
    using ValidateShape_scalar
    by (cases "rank = 0")
      (auto simp: canonical_shape_def row_major_def ValidateShape_def kMaxTensorRank_def)
qed

theorem shape_validation_witness:
  "ValidateShape (Some [2, 3, 4]) 3 =
    Inr \<lparr>dimensions = [2, 3, 4], strides = [12, 4, 1], numel = 24, byte_size = 96\<rparr>"
proof -
  have "i64_array [2, 3, 4]" by (simp add: i64_array_def)
  then show ?thesis
    using shape_validation [of "[2, 3, 4]"] by (simp add: row_major_def numeral_3_eq_3)
qed

end
