(* ===== verification/Ieee_Float.thy ===== *)
theory Ieee_Float
  imports Prelude
begin

text \<open>
  The C++ types \<open>float\<close> and \<open>double\<close> as the native code uses them: IEEE 754 binary32 and
  binary64 bit patterns with round-to-nearest-even arithmetic and no contraction, as the
  default code generation on x86-64 and AArch64 without FMA contraction gives it.

  A value is its bit pattern (what the checkpoint writer copies and \<open>CopyToHostF32\<close> hands out).
  An arithmetic result that is a NaN is the canonical quiet NaN: the code never looks at a NaN's
  payload.  The transcendental functions of the C++ library (\<open>exp\<close>, \<open>tanh\<close>, \<open>erf\<close>, \<open>log\<close>, \<open>pow\<close>)
  have no specified rounding; they are the fields of \<open>libm\<close>, a parameter of the definitions that
  use them.  Square root is correctly rounded and defined here.
\<close>

type_synonym f32 = "32 word"
type_synonym f64 = "64 word"

section \<open>Unpacked values\<close>

text \<open>\<open>FNum s m e\<close> is \<open>(-1)^s * m * 2^e\<close>; a zero significand is a signed zero.\<close>

datatype fp = FNaN | FInf bool | FNum bool nat int

fun bit_length :: "nat \<Rightarrow> nat" where
  "bit_length n = (if n = 0 then 0 else Suc (bit_length (n div 2)))"

declare bit_length.simps [simp del]

text \<open>
  A format is given by its number of fraction bits and exponent bits: (23, 8) and (52, 11).
\<close>

definition min_exponent :: "nat \<Rightarrow> nat \<Rightarrow> int" where
  "min_exponent mb eb = 2 - 2 ^ (eb - 1) - int mb"

definition unpack :: "nat \<Rightarrow> nat \<Rightarrow> nat \<Rightarrow> fp" where
  "unpack mb eb w =
     (let s = odd (w div 2 ^ (mb + eb)); e = w div 2 ^ mb mod 2 ^ eb; f = w mod 2 ^ mb
      in if e = 2 ^ eb - 1 then (if f = 0 then FInf s else FNaN)
         else if e = 0 then FNum s f (min_exponent mb eb)
         else FNum s (2 ^ mb + f) (min_exponent mb eb + int e - 1))"

definition sign_bits :: "nat \<Rightarrow> nat \<Rightarrow> bool \<Rightarrow> nat" where
  "sign_bits mb eb s = (if s then 2 ^ (mb + eb) else 0)"

text \<open>
  Rounding of \<open>m * 2^e\<close>.  The kept significand \<open>q\<close> has at most \<open>mb + 1\<close> bits and exponent at
  least \<open>min_exponent\<close>; adding \<open>q\<close> to the exponent field lets a carry out of the significand move
  into the exponent.
\<close>

definition round_significand :: "nat \<Rightarrow> nat \<Rightarrow> nat \<Rightarrow> int \<Rightarrow> nat \<times> int" where
  "round_significand mb eb m e =
     (let sh = max (int (bit_length m) - int (mb + 1)) (min_exponent mb eb - e)
      in if sh \<le> 0 then (m * 2 ^ nat (- sh), e + sh)
         else let k = nat sh; q = m div 2 ^ k; r = m mod 2 ^ k; half = 2 ^ (k - 1)
              in ((if r > half \<or> r = half \<and> odd q then q + 1 else q), e + sh))"

definition pack :: "nat \<Rightarrow> nat \<Rightarrow> fp \<Rightarrow> nat" where
  "pack mb eb x =
     (case x of
        FNaN \<Rightarrow> (2 ^ eb - 1) * 2 ^ mb + 2 ^ (mb - 1)
      | FInf s \<Rightarrow> sign_bits mb eb s + (2 ^ eb - 1) * 2 ^ mb
      | FNum s m e \<Rightarrow>
          (if m = 0 then sign_bits mb eb s
           else case round_significand mb eb m e of (q, E) \<Rightarrow>
             sign_bits mb eb s +
             min ((2 ^ eb - 1) * 2 ^ mb) (nat (E - min_exponent mb eb) * 2 ^ mb + q)))"

section \<open>Arithmetic on unpacked values\<close>

fun fp_neg :: "fp \<Rightarrow> fp" where
  "fp_neg FNaN = FNaN"
| "fp_neg (FInf s) = FInf (\<not> s)"
| "fp_neg (FNum s m e) = FNum (\<not> s) m e"

definition signed :: "bool \<Rightarrow> nat \<Rightarrow> int" where
  "signed s m = (if s then - int m else int m)"

fun fp_add :: "fp \<Rightarrow> fp \<Rightarrow> fp" where
  "fp_add (FNum s1 m1 e1) (FNum s2 m2 e2) =
     (let e = min e1 e2;
          v = signed s1 (m1 * 2 ^ nat (e1 - e)) + signed s2 (m2 * 2 ^ nat (e2 - e))
      in if v = 0 then FNum (s1 \<and> s2) 0 e else FNum (v < 0) (nat \<bar>v\<bar>) e)"
| "fp_add (FInf s1) (FInf s2) = (if s1 = s2 then FInf s1 else FNaN)"
| "fp_add (FInf s) (FNum _ _ _) = FInf s"
| "fp_add (FNum _ _ _) (FInf s) = FInf s"
| "fp_add FNaN _ = FNaN"
| "fp_add _ FNaN = FNaN"

fun fp_mul :: "fp \<Rightarrow> fp \<Rightarrow> fp" where
  "fp_mul (FNum s1 m1 e1) (FNum s2 m2 e2) = FNum (s1 \<noteq> s2) (m1 * m2) (e1 + e2)"
| "fp_mul (FInf s1) (FInf s2) = FInf (s1 \<noteq> s2)"
| "fp_mul (FInf s1) (FNum s2 m _) = (if m = 0 then FNaN else FInf (s1 \<noteq> s2))"
| "fp_mul (FNum s1 m _) (FInf s2) = (if m = 0 then FNaN else FInf (s1 \<noteq> s2))"
| "fp_mul FNaN _ = FNaN"
| "fp_mul _ FNaN = FNaN"

text \<open>
  Division and square root keep \<open>mb + 3\<close> or more quotient bits and one sticky bit, so the
  rounding of the result is that of the exact value.
\<close>

definition sticky :: "nat \<Rightarrow> nat \<Rightarrow> nat" where
  "sticky q r = 2 * q + (if r = 0 then 0 else 1)"

fun fp_div :: "nat \<Rightarrow> fp \<Rightarrow> fp \<Rightarrow> fp" where
  "fp_div mb (FNum s1 m1 e1) (FNum s2 m2 e2) =
     (if m2 = 0 then (if m1 = 0 then FNaN else FInf (s1 \<noteq> s2))
      else if m1 = 0 then FNum (s1 \<noteq> s2) 0 e1
      else let k = mb + 3 + bit_length m2; n = m1 * 2 ^ k
           in FNum (s1 \<noteq> s2) (sticky (n div m2) (n mod m2)) (e1 - e2 - int k - 1))"
| "fp_div mb (FInf _) (FInf _) = FNaN"
| "fp_div mb (FInf s1) (FNum s2 _ _) = FInf (s1 \<noteq> s2)"
| "fp_div mb (FNum s1 _ _) (FInf s2) = FNum (s1 \<noteq> s2) 0 0"
| "fp_div mb FNaN _ = FNaN"
| "fp_div mb _ FNaN = FNaN"

fun int_sqrt :: "nat \<Rightarrow> nat" where
  "int_sqrt n = (if n = 0 then 0
     else let r = 2 * int_sqrt (n div 4) in if (r + 1) * (r + 1) \<le> n then r + 1 else r)"

declare int_sqrt.simps [simp del]

fun fp_sqrt :: "nat \<Rightarrow> fp \<Rightarrow> fp" where
  "fp_sqrt mb (FNum s m e) =
     (if m = 0 then FNum s 0 e
      else if s then FNaN
      else let k = 2 * (mb + 3) + (if even e then 0 else 1); n = m * 2 ^ k; r = int_sqrt n
           in FNum False (sticky r (n - r * r)) ((e - int k) div 2 - 1))"
| "fp_sqrt mb (FInf s) = (if s then FNaN else FInf False)"
| "fp_sqrt mb FNaN = FNaN"

text \<open>The C++ operator \<open><\<close>: false when either side is a NaN, and \<open>-0 < +0\<close> is false.\<close>

fun fp_less :: "fp \<Rightarrow> fp \<Rightarrow> bool" where
  "fp_less (FNum s1 m1 e1) (FNum s2 m2 e2) =
     (let e = min e1 e2
      in signed s1 (m1 * 2 ^ nat (e1 - e)) < signed s2 (m2 * 2 ^ nat (e2 - e)))"
| "fp_less (FInf s1) (FInf s2) = (s1 \<and> \<not> s2)"
| "fp_less (FInf s) (FNum _ _ _) = s"
| "fp_less (FNum _ _ _) (FInf s) = (\<not> s)"
| "fp_less FNaN _ = False"
| "fp_less _ FNaN = False"

section \<open>float\<close>

definition of_f32 :: "f32 \<Rightarrow> fp" where "of_f32 x = unpack 23 8 (unat x)"
definition to_f32 :: "fp \<Rightarrow> f32" where "to_f32 x = of_nat (pack 23 8 x)"

definition f32_add :: "f32 \<Rightarrow> f32 \<Rightarrow> f32" where
  "f32_add x y = to_f32 (fp_add (of_f32 x) (of_f32 y))"
definition f32_sub :: "f32 \<Rightarrow> f32 \<Rightarrow> f32" where
  "f32_sub x y = to_f32 (fp_add (of_f32 x) (fp_neg (of_f32 y)))"
definition f32_mul :: "f32 \<Rightarrow> f32 \<Rightarrow> f32" where
  "f32_mul x y = to_f32 (fp_mul (of_f32 x) (of_f32 y))"
definition f32_div :: "f32 \<Rightarrow> f32 \<Rightarrow> f32" where
  "f32_div x y = to_f32 (fp_div 23 (of_f32 x) (of_f32 y))"
definition f32_sqrt :: "f32 \<Rightarrow> f32" where
  "f32_sqrt x = to_f32 (fp_sqrt 23 (of_f32 x))"
definition f32_neg :: "f32 \<Rightarrow> f32" where
  "f32_neg x = to_f32 (fp_neg (of_f32 x))"
definition f32_less :: "f32 \<Rightarrow> f32 \<Rightarrow> bool" where
  "f32_less x y = fp_less (of_f32 x) (of_f32 y)"
definition f32_of_nat :: "nat \<Rightarrow> f32" where
  "f32_of_nat n = to_f32 (FNum False n 0)"

text \<open>\<open>std::max(a, b)\<close> is \<open>a < b ? b : a\<close>.\<close>

definition f32_max :: "f32 \<Rightarrow> f32 \<Rightarrow> f32" where
  "f32_max a b = (if f32_less a b then b else a)"

definition f32_zero :: f32 where "f32_zero = 0"
definition f32_one :: f32 where "f32_one = 0x3F800000"

section \<open>double\<close>

definition of_f64 :: "f64 \<Rightarrow> fp" where "of_f64 x = unpack 52 11 (unat x)"
definition to_f64 :: "fp \<Rightarrow> f64" where "to_f64 x = of_nat (pack 52 11 x)"

definition f64_add :: "f64 \<Rightarrow> f64 \<Rightarrow> f64" where
  "f64_add x y = to_f64 (fp_add (of_f64 x) (of_f64 y))"
definition f64_sub :: "f64 \<Rightarrow> f64 \<Rightarrow> f64" where
  "f64_sub x y = to_f64 (fp_add (of_f64 x) (fp_neg (of_f64 y)))"
definition f64_mul :: "f64 \<Rightarrow> f64 \<Rightarrow> f64" where
  "f64_mul x y = to_f64 (fp_mul (of_f64 x) (of_f64 y))"
definition f64_div :: "f64 \<Rightarrow> f64 \<Rightarrow> f64" where
  "f64_div x y = to_f64 (fp_div 52 (of_f64 x) (of_f64 y))"
definition f64_sqrt :: "f64 \<Rightarrow> f64" where
  "f64_sqrt x = to_f64 (fp_sqrt 52 (of_f64 x))"
definition f64_less :: "f64 \<Rightarrow> f64 \<Rightarrow> bool" where
  "f64_less x y = fp_less (of_f64 x) (of_f64 y)"
definition f64_of_nat :: "nat \<Rightarrow> f64" where
  "f64_of_nat n = to_f64 (FNum False n 0)"

definition f64_zero :: f64 where "f64_zero = 0"
definition f64_one :: f64 where "f64_one = 0x3FF0000000000000"

text \<open>\<open>std::isfinite\<close>.\<close>

definition f64_isfinite :: "f64 \<Rightarrow> bool" where
  "f64_isfinite x = (case of_f64 x of FNum _ _ _ \<Rightarrow> True | _ \<Rightarrow> False)"

text \<open>\<open>static_cast<double>\<close> and \<open>static_cast<float>\<close>.\<close>

definition f32_to_f64 :: "f32 \<Rightarrow> f64" where "f32_to_f64 x = to_f64 (of_f32 x)"
definition f64_to_f32 :: "f64 \<Rightarrow> f32" where "f64_to_f32 x = to_f32 (of_f64 x)"

text \<open>The functions of the C++ library whose rounding no standard fixes.\<close>

record libm =
  expf :: "f32 \<Rightarrow> f32"
  tanhf :: "f32 \<Rightarrow> f32"
  erff :: "f32 \<Rightarrow> f32"
  logf :: "f32 \<Rightarrow> f32"
  exp64 :: "f64 \<Rightarrow> f64"
  log64 :: "f64 \<Rightarrow> f64"
  pow64 :: "f64 \<Rightarrow> f64 \<Rightarrow> f64"

section \<open>Facts used by the components\<close>

lemma fp_add_comm: "fp_add x y = fp_add y x"
  by (cases x; cases y) (auto simp: Let_def min.commute add.commute conj_commute)

lemma fp_mul_comm: "fp_mul x y = fp_mul y x"
  by (cases x; cases y) (auto simp: mult.commute add.commute)

lemma f32_add_comm: "f32_add x y = f32_add y x"
  by (simp add: f32_add_def fp_add_comm)

lemma f32_mul_comm: "f32_mul x y = f32_mul y x"
  by (simp add: f32_mul_def fp_mul_comm)

lemma bit_length_bound: "m < 2 ^ bit_length m"
proof (induction m rule: bit_length.induct)
  case (1 n)
  show ?case
  proof (cases "n = 0")
    case False
    with 1 have "n div 2 < 2 ^ bit_length (n div 2)" by simp
    with False show ?thesis by (subst bit_length.simps) auto
  qed (simp add: bit_length.simps)
qed

lemma bit_length_le: "m < 2 ^ k \<Longrightarrow> bit_length m \<le> k"
proof (induction m arbitrary: k rule: bit_length.induct)
  case (1 n)
  show ?case
  proof (cases "n = 0")
    case True
    then show ?thesis by (simp add: bit_length.simps)
  next
    case False
    with "1.prems" obtain k' where k: "k = Suc k'" by (cases k) auto
    with "1.prems" have "n div 2 < 2 ^ k'" by auto
    with 1 False have "bit_length (n div 2) \<le> k'" by simp
    with False k show ?thesis by (subst bit_length.simps) simp
  qed
qed

lemma bit_length_ge: "m \<noteq> 0 \<Longrightarrow> 2 ^ (bit_length m - 1) \<le> m"
proof (induction m rule: bit_length.induct)
  case (1 n)
  show ?case
  proof (cases "n div 2 = 0")
    case True
    with "1.prems" have "n = 1" by auto
    then show ?thesis by (simp add: bit_length.simps)
  next
    case False
    with 1 have IH: "2 ^ (bit_length (n div 2) - 1) \<le> n div 2" by simp
    have len: "bit_length n = Suc (bit_length (n div 2))"
      using "1.prems" by (subst bit_length.simps) simp
    have "bit_length (n div 2) = Suc (bit_length (n div 2) - 1)"
      using False by (subst bit_length.simps, subst (2) bit_length.simps) simp
    then have "(2::nat) ^ bit_length (n div 2) = 2 * 2 ^ (bit_length (n div 2) - 1)"
      by (metis power_Suc)
    with IH len show ?thesis by simp
  qed
qed

text \<open>
  The exactness of rounding: a value with at most \<open>mb + 1\<close> significant bits and an exponent not
  below the least one is kept as it is.
\<close>

lemma round_significand_exact:
  assumes "m < 2 ^ (mb + 1)" and "min_exponent mb eb \<le> e"
  obtains k where "round_significand mb eb m e = (m * 2 ^ k, e - int k)"
proof -
  have "bit_length m \<le> mb + 1" using assms(1) by (rule bit_length_le)
  then have sh: "max (int (bit_length m) - int (mb + 1)) (min_exponent mb eb - e) \<le> 0"
    using assms(2) by simp
  show thesis
    by (rule that [of "nat (- max (int (bit_length m) - int (mb + 1)) (min_exponent mb eb - e))"])
      (use sh in \<open>simp add: round_significand_def Let_def\<close>)
qed

end
