(* ===== verification/Tensor_Heap.thy ===== *)
theory Tensor_Heap
  imports Shape Ieee_Float "HOL-Library.Sublist"
begin

text \<open>
  The objects behind \<open>shared_ptr\<close>s and the tensor class: \<open>native/src/memory/tensor_storage.h\<close>,
  \<open>cpu_storage.h\<close>, \<open>cpu_storage.cc\<close>, \<open>native/src/tensor/tensor.h\<close>, \<open>tensor.cc\<close>, and the types of
  \<open>native/src/autograd/autograd.h\<close> that a tensor points to.

  A \<open>shared_ptr\<close> is an index into the list of the objects of its kind; allocation appends, so a
  reference stays valid and an object allocated later has a larger index.  Pointers the code
  never leaves null (a tensor's storage, a node's parents) are plain indices.  The heap also
  carries \<open>alloc_plan\<close>, the outcomes the environment chooses for the coming allocations of
  tensor buffers and tensor objects: theorems quantify over it, and the empty plan means that
  every allocation succeeds.
\<close>

section \<open>Objects\<close>

datatype storage_kind = StorageKindCpu | StorageKindTorch

text \<open>
  A storage of another class is known by what its virtual functions return: its kind, its byte
  size, and the outcome of its \<open>CopyToHostF32\<close>.
\<close>

datatype storage =
    CpuStorage "f32 list"
  | ForeignStorage storage_kind nat "status + f32 list"

datatype dtype = kFloat32 | OtherDType nat

datatype device = kCpu | kCuda | kMps | kXpu | kHip

datatype operation =
    kIdentity | kReshape | kTranspose2D | kAdd | kMultiply | kSum | kMatmul | kRelu | kSigmoid
  | kTanh | kGelu | kSilu | kSwiGlu | kMse | kCrossEntropy | kBiasAdd

type_synonym tensor_ref = nat

record grad_node =
  node_operation :: operation
  node_parents :: "tensor_ref list"
  node_versions :: "64 word list"

record autograd_meta =
  meta_requires_grad :: bool
  meta_is_leaf :: bool
  meta_gradient :: "tensor_ref option"
  meta_grad_fn :: "grad_node option"

record tensor =
  t_shape :: shape_info
  t_storage :: nat
  t_dtype :: dtype
  t_device :: device
  t_device_index :: int
  t_offset :: nat
  t_version_counter :: nat
  t_meta :: "autograd_meta option"

record version_counter =
  vc_value :: "64 word"
  vc_identity :: "64 word"

datatype alloc_outcome = AllocOk | AllocFails | AllocTooLarge string

record heap =
  storages :: "storage list"
  counters :: "version_counter list"
  tensors :: "tensor list"
  next_identity :: "64 word"
  alloc_plan :: "alloc_outcome list"

definition empty_heap :: heap where
  "empty_heap = \<lparr>storages = [], counters = [], tensors = [], next_identity = 1, alloc_plan = []\<rparr>"

abbreviation tensor_at :: "heap \<Rightarrow> tensor_ref \<Rightarrow> tensor" where
  "tensor_at h r \<equiv> tensors h ! r"

abbreviation storage_of :: "heap \<Rightarrow> tensor \<Rightarrow> storage" where
  "storage_of h t \<equiv> storages h ! t_storage t"

abbreviation dims_of :: "tensor \<Rightarrow> int list" where
  "dims_of t \<equiv> dimensions (t_shape t)"

abbreviation numel_of :: "tensor \<Rightarrow> nat" where
  "numel_of t \<equiv> numel (t_shape t)"

section \<open>Storages\<close>

fun storage_kind_of :: "storage \<Rightarrow> storage_kind" where
  "storage_kind_of (CpuStorage _) = StorageKindCpu"
| "storage_kind_of (ForeignStorage k _ _) = k"

fun storage_byte_size :: "storage \<Rightarrow> nat" where
  "storage_byte_size (CpuStorage values) = mul64 (length values) 4"
| "storage_byte_size (ForeignStorage _ bytes _) = bytes"

text \<open>The allocation decided by the environment.\<close>

definition request_alloc :: "(heap, unit) run" where
  "request_alloc = (\<lambda>h. case alloc_plan h of
      [] \<Rightarrow> (Inr (), h)
    | AllocOk # rest \<Rightarrow> (Inr (), h\<lparr>alloc_plan := rest\<rparr>)
    | AllocFails # rest \<Rightarrow> (Inl (Raised BadAlloc), h\<lparr>alloc_plan := rest\<rparr>)
    | AllocTooLarge what # rest \<Rightarrow> (Inl (Raised (LengthError what)), h\<lparr>alloc_plan := rest\<rparr>))"

definition new_storage :: "storage \<Rightarrow> (heap, nat) run" where
  "new_storage st = (\<lambda>h. (Inr (length (storages h)), h\<lparr>storages := storages h @ [st]\<rparr>))"

definition CpuStorage_Filled :: "nat \<Rightarrow> f32 \<Rightarrow> (heap, nat) run" where
  "CpuStorage_Filled n x = allocation_guard ''cpu storage''
     (bindE request_alloc (\<lambda>_. new_storage (CpuStorage (replicate n x))))"

definition CpuStorage_FromData :: "f32 list option \<Rightarrow> nat \<Rightarrow> (heap, nat) run" where
  "CpuStorage_FromData data n =
     bindE (checkE (\<not> (n > 0 \<and> data = None))
       (InvalidArgument ''cpu storage: input data pointer is null'')) (\<lambda>_.
     allocation_guard ''cpu storage''
       (bindE request_alloc (\<lambda>_.
        new_storage (CpuStorage (case data of None \<Rightarrow> [] | Some d \<Rightarrow> take n d)))))"

text \<open>
  \<open>CopyToHostF32\<close> of a storage: status, the caller's buffer (\<open>None\<close>: null) afterwards, and the
  content of \<open>*out_written\<close>.
\<close>

type_synonym copy_result = "(status + unit) \<times> f32 list option \<times> nat"

definition write_prefix :: "f32 list \<Rightarrow> f32 list option \<Rightarrow> f32 list option" where
  "write_prefix vs buf = map_option (\<lambda>b. vs @ drop (length vs) b) buf"

fun storage_copy_to_host :: "storage \<Rightarrow> f32 list option \<Rightarrow> nat \<Rightarrow> copy_result" where
  "storage_copy_to_host (CpuStorage values) out capacity =
     (if capacity < length values
      then (Inl (InvalidArgument ''cpu storage: output capacity is too small''), out, 0)
      else if values \<noteq> [] \<and> out = None
      then (Inl (InvalidArgument ''cpu storage: output values pointer is null''), out, 0)
      else (Inr (), write_prefix values out, length values))"
| "storage_copy_to_host (ForeignStorage _ _ outcome) out capacity =
     (case outcome of
        Inl st \<Rightarrow> (Inl st, out, 0)
      | Inr vs \<Rightarrow> (Inr (), write_prefix vs out, length vs))"

section \<open>Tensors\<close>

definition NewTensorIdentityAnchor :: "(heap, 64 word) run" where
  "NewTensorIdentityAnchor =
     (\<lambda>h. (Inr (next_identity h), h\<lparr>next_identity := next_identity h + 1\<rparr>))"

definition NewVersionCounter :: "(heap, nat) run" where
  "NewVersionCounter =
     bindE NewTensorIdentityAnchor (\<lambda>ident. \<lambda>h.
       (Inr (length (counters h)),
        h\<lparr>counters := counters h @ [\<lparr>vc_value = 0, vc_identity = ident\<rparr>]\<rparr>))"

text \<open>
  \<open>make_shared<Tensor>\<close>: a version counter is shared when one is passed and created with a new
  identity otherwise; the new tensor has no autograd metadata.
\<close>

definition new_tensor :: "shape_info \<Rightarrow> nat \<Rightarrow> dtype \<Rightarrow> device \<Rightarrow> int \<Rightarrow> nat \<Rightarrow> nat option \<Rightarrow>
    (heap, tensor_ref) run" where
  "new_tensor shape storage dtype device device_index offset vc =
     bindE request_alloc (\<lambda>_.
     bindE (case vc of Some v \<Rightarrow> returnE v | None \<Rightarrow> NewVersionCounter) (\<lambda>counter. \<lambda>h.
       (Inr (length (tensors h)),
        h\<lparr>tensors := tensors h @ [\<lparr>t_shape = shape, t_storage = storage, t_dtype = dtype,
            t_device = device, t_device_index = device_index, t_offset = offset,
            t_version_counter = counter, t_meta = None\<rparr>]\<rparr>)))"

text \<open>The constructor with its default arguments.\<close>

definition new_cpu_tensor :: "shape_info \<Rightarrow> nat \<Rightarrow> (heap, tensor_ref) run" where
  "new_cpu_tensor shape storage = new_tensor shape storage kFloat32 kCpu 0 0 None"

definition is_contiguous :: "tensor \<Rightarrow> bool" where
  "is_contiguous t =
     contiguous_from (dims_of t) (strides (t_shape t)) (length (dims_of t)) 1"

definition logical_storage_index :: "tensor \<Rightarrow> nat \<Rightarrow> nat" where
  "logical_storage_index t logical_index =
     storage_index_from (dims_of t) (strides (t_shape t)) (length (dims_of t)) logical_index
       (t_offset t)"

definition tensor_version :: "heap \<Rightarrow> tensor_ref \<Rightarrow> 64 word" where
  "tensor_version h r = vc_value (counters h ! t_version_counter (tensor_at h r))"

definition tensor_identity :: "heap \<Rightarrow> tensor_ref \<Rightarrow> 64 word" where
  "tensor_identity h r = vc_identity (counters h ! t_version_counter (tensor_at h r))"

definition increment_version :: "tensor_ref \<Rightarrow> (heap, unit) run" where
  "increment_version r = modifyE (\<lambda>h.
     let v = t_version_counter (tensor_at h r); c = counters h ! v
     in h\<lparr>counters := (counters h)[v := c\<lparr>vc_value := vc_value c + 1\<rparr>]\<rparr>)"

definition set_autograd_meta :: "tensor_ref \<Rightarrow> autograd_meta \<Rightarrow> (heap, unit) run" where
  "set_autograd_meta r m = modifyE (\<lambda>h.
     h\<lparr>tensors := (tensors h)[r := (tensor_at h r)\<lparr>t_meta := Some m\<rparr>]\<rparr>)"

text \<open>The element loop of \<open>Tensor::CopyToHostF32\<close> for views.\<close>

fun strided_copy :: "tensor \<Rightarrow> f32 list \<Rightarrow> nat \<Rightarrow> nat \<Rightarrow> f32 list \<Rightarrow> (status + unit) \<times> f32 list" where
  "strided_copy t values logical_index 0 buf = (Inr (), buf)"
| "strided_copy t values logical_index (Suc n) buf =
     (let storage_index = logical_storage_index t logical_index
      in if storage_index \<ge> length values
         then (Inl (InternalError ''tensor copy: view layout exceeds backing storage''), buf)
         else strided_copy t values (Suc logical_index) n
                (buf[logical_index := values ! storage_index]))"

definition tensor_copy_to_host ::
    "heap \<Rightarrow> tensor \<Rightarrow> f32 list option \<Rightarrow> nat \<Rightarrow> copy_result" where
  "tensor_copy_to_host h t out capacity =
     (if t_dtype t \<noteq> kFloat32
      then (Inl (Unsupported ''tensor copy: tensor dtype is not float32''), out, 0)
      else if capacity < numel_of t
      then (Inl (InvalidArgument ''tensor copy: output capacity is smaller than tensor''), out, 0)
      else if numel_of t > 0 \<and> out = None
      then (Inl (InvalidArgument ''tensor copy: output values pointer is null''), out, 0)
      else if is_contiguous t \<and> t_offset t = 0 \<and>
              storage_byte_size (storage_of h t) = byte_size (t_shape t)
      then (case storage_copy_to_host (storage_of h t) out capacity of
              (Inl st, out', written) \<Rightarrow> (Inl st, out', written)
            | (Inr _, out', written) \<Rightarrow>
                (if written \<noteq> numel_of t
                 then (Inl (InternalError
                    ''tensor copy: storage returned an inconsistent element count''), out', 0)
                 else (Inr (), out', written)))
      else if t_device t \<noteq> kCpu \<or> t_device_index t \<noteq> 0
      then (Inl (Unsupported
              ''tensor copy: non-contiguous accelerator views are not qualified yet''), out, 0)
      else (case storage_of h t of
              ForeignStorage _ _ _ \<Rightarrow>
                (Inl (Unsupported ''tensor copy: tensor is not backed by CPU storage''), out, 0)
            | CpuStorage values \<Rightarrow>
                (case out of
                   None \<Rightarrow> (Inr (), None, numel_of t)
                 | Some buf \<Rightarrow>
                     (case strided_copy t values 0 (numel_of t) buf of
                        (Inl st, buf') \<Rightarrow> (Inl st, Some buf', 0)
                      | (Inr _, buf') \<Rightarrow> (Inr (), Some buf', numel_of t)))))"

text \<open>
  Reading a tensor into a temporary vector: the shared body of \<open>cpu_backend_internal::LogicalValues\<close>
  and \<open>autograd::ReadLogicalCpuValues\<close>, which differ in the messages of their device check.
\<close>

definition ensure_cpu_float32 :: "string \<Rightarrow> string \<Rightarrow> tensor \<Rightarrow> string \<Rightarrow> status + unit" where
  "ensure_cpu_float32 device_message dtype_message t operation =
     (if t_device t \<noteq> kCpu \<or> t_device_index t \<noteq> 0
      then Inl (Unsupported (operation @ device_message))
      else if t_dtype t \<noteq> kFloat32 then Inl (Unsupported (operation @ dtype_message))
      else Inr ())"

definition read_values :: "(tensor \<Rightarrow> string \<Rightarrow> status + unit) \<Rightarrow> tensor_ref \<Rightarrow> string \<Rightarrow>
    (heap, f32 list) run" where
  "read_values ensure r operation =
     bindE (getE (\<lambda>h. tensor_at h r)) (\<lambda>t.
     bindE (statusE (ensure t operation)) (\<lambda>_.
     bindE (allocation_guard operation request_alloc) (\<lambda>_.
     bindE (getE (\<lambda>h. tensor_copy_to_host h t (Some (replicate (numel_of t) f32_zero))
              (numel_of t))) (\<lambda>(res, buf, written).
     bindE (statusE res) (\<lambda>_. returnE (the buf))))))"

section \<open>The heap only grows\<close>

text \<open>
  \<open>heap_extends\<close>: every object that existed before is still there, unchanged.  All the operations
  that compute a new tensor satisfy it, successful or not.
\<close>

definition heap_extends :: "heap \<Rightarrow> heap \<Rightarrow> bool" where
  "heap_extends h h' \<longleftrightarrow> prefix (storages h) (storages h') \<and> prefix (counters h) (counters h') \<and>
     prefix (tensors h) (tensors h')"

interpretation ext: frame_relation heap_extends
  by unfold_locales (auto simp: heap_extends_def)

lemma prefix_nth: "prefix xs ys \<Longrightarrow> i < length xs \<Longrightarrow> ys ! i = xs ! i"
  by (auto simp: prefix_def nth_append)

lemma heap_extends_lengths:
  assumes "heap_extends h h'"
  shows "length (storages h) \<le> length (storages h')" "length (counters h) \<le> length (counters h')"
    "length (tensors h) \<le> length (tensors h')"
  using assms by (auto simp: heap_extends_def dest: prefix_length_le)

lemma heap_extends_nth:
  assumes "heap_extends h h'"
  shows "i < length (storages h) \<Longrightarrow> storages h' ! i = storages h ! i"
    "i < length (counters h) \<Longrightarrow> counters h' ! i = counters h ! i"
    "i < length (tensors h) \<Longrightarrow> tensors h' ! i = tensors h ! i"
  using assms by (auto simp: heap_extends_def prefix_nth)

lemma request_alloc_keeps_objects:
  "storages (snd (request_alloc h)) = storages h" "counters (snd (request_alloc h)) = counters h"
  "tensors (snd (request_alloc h)) = tensors h"
  "next_identity (snd (request_alloc h)) = next_identity h"
  by (auto simp: request_alloc_def split: list.splits alloc_outcome.splits)

lemma request_alloc_ok [simp]: "alloc_plan h = [] \<Longrightarrow> request_alloc h = (Inr (), h)"
  by (simp add: request_alloc_def)

lemma request_alloc_Inl:
  "request_alloc h = (Inl f, h') \<Longrightarrow> f = Raised BadAlloc \<or> (\<exists>what. f = Raised (LengthError what))"
  by (auto simp: request_alloc_def split: list.splits alloc_outcome.splits)

lemma keeps_request_alloc [keeps_rules]: "keeps heap_extends request_alloc"
  by (simp add: keeps_def heap_extends_def request_alloc_keeps_objects)

lemma keeps_new_storage [keeps_rules]: "keeps heap_extends (new_storage st)"
  by (simp add: keeps_def heap_extends_def new_storage_def)

lemma keeps_NewVersionCounter [keeps_rules]: "keeps heap_extends NewVersionCounter"
  by (simp add: keeps_def heap_extends_def NewVersionCounter_def NewTensorIdentityAnchor_def bindE_def)

lemma keeps_Filled [keeps_rules]: "keeps heap_extends (CpuStorage_Filled n x)"
  unfolding CpuStorage_Filled_def
  by (intro keeps_allocation_guard ext.keeps_all keeps_rules)

lemma keeps_FromData [keeps_rules]: "keeps heap_extends (CpuStorage_FromData d n)"
  unfolding CpuStorage_FromData_def
  by (intro keeps_allocation_guard ext.keeps_all keeps_rules)

lemma keeps_new_tensor [keeps_rules]: "keeps heap_extends (new_tensor sh st dt dv ix off vc)"
  unfolding new_tensor_def
proof (intro ext.keeps_bind keeps_rules)
  show "keeps heap_extends (case vc of None \<Rightarrow> NewVersionCounter | Some x \<Rightarrow> returnE x)"
    by (cases vc) (simp_all add: keeps_NewVersionCounter ext.keeps_return)
qed (simp add: keeps_def heap_extends_def)

lemma keeps_new_cpu_tensor [keeps_rules]: "keeps heap_extends (new_cpu_tensor sh st)"
  by (simp add: new_cpu_tensor_def keeps_new_tensor)

lemma keeps_read_values [keeps_rules]: "keeps heap_extends (read_values ensure r op)"
  unfolding read_values_def
  by (auto intro!: keeps_allocation_guard ext.keeps_all keeps_request_alloc split: prod.splits)

section \<open>Effects of the allocating operations\<close>

lemma CpuStorage_Filled_Inr:
  assumes "CpuStorage_Filled n x h = (Inr s, h')"
  shows "s = length (storages h)" "storages h' = storages h @ [CpuStorage (replicate n x)]"
    "counters h' = counters h" "tensors h' = tensors h"
  using assms
  by (auto simp: CpuStorage_Filled_def new_storage_def request_alloc_def elim!: bindE_InrE
      split: list.splits alloc_outcome.splits)

lemma CpuStorage_FromData_Inr:
  assumes "CpuStorage_FromData d n h = (Inr s, h')"
  shows "s = length (storages h)"
    "storages h' = storages h @ [CpuStorage (case d of None \<Rightarrow> [] | Some vs \<Rightarrow> take n vs)]"
    "counters h' = counters h" "tensors h' = tensors h"
  using assms
  by (auto simp: CpuStorage_FromData_def checkE_def new_storage_def request_alloc_def exec_simps
      elim!: bindE_InrE split: list.splits alloc_outcome.splits if_splits)

lemma new_tensor_Inr:
  assumes "new_tensor sh st dt dv ix off vc h = (Inr r, h')"
  shows "r = length (tensors h)" "storages h' = storages h"
    "tensors h' = tensors h @ [\<lparr>t_shape = sh, t_storage = st, t_dtype = dt, t_device = dv,
       t_device_index = ix, t_offset = off,
       t_version_counter = (case vc of Some v \<Rightarrow> v | None \<Rightarrow> length (counters h)),
       t_meta = None\<rparr>]"
    "counters h' = counters h @ (case vc of Some v \<Rightarrow> []
       | None \<Rightarrow> [\<lparr>vc_value = 0, vc_identity = next_identity h\<rparr>])"
  using assms request_alloc_keeps_objects [of h]
  by (auto simp: new_tensor_def NewVersionCounter_def NewTensorIdentityAnchor_def exec_simps
      elim!: bindE_InrE split: option.splits)

lemma CpuStorage_Filled_ok:
  "alloc_plan h = [] \<Longrightarrow> CpuStorage_Filled n x h =
     (Inr (length (storages h)), h\<lparr>storages := storages h @ [CpuStorage (replicate n x)]\<rparr>)"
  by (simp add: CpuStorage_Filled_def new_storage_def bindE_def)

lemma CpuStorage_FromData_ok:
  "alloc_plan h = [] \<Longrightarrow> CpuStorage_FromData (Some d) n h =
     (Inr (length (storages h)), h\<lparr>storages := storages h @ [CpuStorage (take n d)]\<rparr>)"
  by (simp add: CpuStorage_FromData_def new_storage_def bindE_def exec_simps)

lemma new_tensor_ok:
  "alloc_plan h = [] \<Longrightarrow> \<exists>r h'. new_tensor sh st dt dv ix off vc h = (Inr r, h') \<and> alloc_plan h' = []"
  by (auto simp: new_tensor_def NewVersionCounter_def NewTensorIdentityAnchor_def bindE_def
      exec_simps split: option.splits)

section \<open>Well-formed tensors and their logical values\<close>

fun cpu_values :: "storage \<Rightarrow> f32 list" where
  "cpu_values (CpuStorage vs) = vs"
| "cpu_values (ForeignStorage _ _ _) = []"

text \<open>
  \<open>shape_ok\<close>: validated dimensions with dense strides, row-major or a permutation of row-major.
\<close>

definition shape_ok :: "shape_info \<Rightarrow> bool" where
  "shape_ok sh \<longleftrightarrow> valid_dims (dimensions sh) \<and> length (strides sh) = length (dimensions sh) \<and>
     numel sh = dims_prod (dimensions sh) \<and> byte_size sh = 4 * dims_prod (dimensions sh) \<and>
     extent (dimensions sh) (strides sh) (length (dimensions sh)) < dims_prod (dimensions sh)"

lemma shape_ok_canonical: "valid_dims ds \<Longrightarrow> shape_ok (canonical_shape ds)"
  using row_major_extent [of ds "length ds"] dims_prod_pos [of ds]
  by (auto simp: shape_ok_def valid_dims_def)

definition layout_ok :: "heap \<Rightarrow> tensor \<Rightarrow> bool" where
  "layout_ok h t \<longleftrightarrow> shape_ok (t_shape t) \<and> t_dtype t = kFloat32 \<and> t_device t = kCpu \<and> t_device_index t = 0 \<and>
     t_version_counter t < length (counters h) \<and> t_storage t < length (storages h) \<and>
     (\<exists>vs. storage_of h t = CpuStorage vs \<and> length vs \<le> max_numel \<and>
        t_offset t + extent (dims_of t) (strides (t_shape t)) (length (dims_of t)) < length vs)"

definition logical_values :: "heap \<Rightarrow> tensor \<Rightarrow> f32 list" where
  "logical_values h t =
     map (\<lambda>i. cpu_values (storage_of h t) ! logical_storage_index t i) [0..<numel_of t]"

lemma length_logical_values [simp]: "length (logical_values h t) = numel_of t"
  by (simp add: logical_values_def)

lemma layout_ok_ext: "layout_ok h t \<Longrightarrow> heap_extends h h' \<Longrightarrow> layout_ok h' t"
  using heap_extends_lengths [of h h'] heap_extends_nth [of h h'] unfolding layout_ok_def by fastforce

lemma logical_values_ext:
  "t_storage t < length (storages h) \<Longrightarrow> heap_extends h h' \<Longrightarrow> logical_values h' t = logical_values h t"
  by (simp add: logical_values_def heap_extends_nth)

lemma layout_ok_shape: "layout_ok h t \<Longrightarrow> shape_ok (t_shape t)"
  by (simp add: layout_ok_def)

lemma layout_ok_valid: "layout_ok h t \<Longrightarrow> valid_dims (dims_of t)"
  by (simp add: layout_ok_def shape_ok_def)

lemma layout_ok_numel: "layout_ok h t \<Longrightarrow> numel_of t = dims_prod (dims_of t)"
  by (simp add: layout_ok_def shape_ok_def)

lemma layout_ok_numel_pos: "layout_ok h t \<Longrightarrow> 0 < numel_of t"
  by (auto simp: layout_ok_def shape_ok_def valid_dims_def intro: dims_prod_pos)

lemma layout_ok_index_plain:
  assumes "layout_ok h t"
  shows "logical_storage_index t i =
    t_offset t + plain_index (dims_of t) (strides (t_shape t)) (length (dims_of t)) i"
proof -
  obtain vs :: "f32 list" where "length vs \<le> max_numel"
    "t_offset t + extent (dims_of t) (strides (t_shape t)) (length (dims_of t)) < length vs"
    using assms unfolding layout_ok_def by blast
  then have "t_offset t + extent (dims_of t) (strides (t_shape t)) (length (dims_of t)) < 2 ^ 64"
    by (simp add: max_numel_def)
  then show ?thesis
    unfolding logical_storage_index_def
    using valid_dims_less [OF layout_ok_valid [OF assms]] by (intro storage_index_plain) auto
qed

lemma layout_ok_index_less:
  assumes "layout_ok h t"
  shows "logical_storage_index t i < length (cpu_values (storage_of h t))"
proof -
  have "plain_index (dims_of t) (strides (t_shape t)) (length (dims_of t)) i \<le>
      extent (dims_of t) (strides (t_shape t)) (length (dims_of t))"
    using layout_ok_valid [OF assms] by (intro plain_index_le_extent) (auto simp: valid_dims_def)
  then show ?thesis
    using assms layout_ok_index_plain [OF assms, of i] by (auto simp: layout_ok_def)
qed

lemma contiguous_index:
  assumes "layout_ok h t" and "is_contiguous t" and "i < numel_of t"
  shows "logical_storage_index t i = t_offset t + i"
proof -
  have "plain_index (dims_of t) (strides (t_shape t)) (length (dims_of t)) i = 1 * i"
    using assms valid_dims_less [OF layout_ok_valid [OF assms(1)]]
    by (intro contiguous_plain_index) (auto simp: layout_ok_def shape_ok_def is_contiguous_def valid_dims_def
        max_numel_def)
  then show ?thesis using layout_ok_index_plain [OF assms(1), of i] by simp
qed

lemma contiguous_logical_values:
  assumes "layout_ok h t" and "is_contiguous t" and "t_offset t = 0"
    and "storage_of h t = CpuStorage vs" and "length vs = numel_of t"
  shows "logical_values h t = vs"
proof (rule nth_equalityI)
  show "length (logical_values h t) = length vs" using assms(5) by simp
  fix i assume "i < length (logical_values h t)"
  then have i: "i < numel_of t" by simp
  then have "logical_values h t ! i = vs ! logical_storage_index t i"
    using assms(4) by (simp add: logical_values_def)
  then show "logical_values h t ! i = vs ! i"
    using contiguous_index [OF assms(1,2) i] assms(3) by simp
qed

lemma strided_copy_ok:
  assumes "\<And>k. k < n \<Longrightarrow> logical_storage_index t (i + k) < length vs" and "i + n \<le> length buf"
  shows "strided_copy t vs i n buf =
    (Inr (), take i buf @ map (\<lambda>k. vs ! logical_storage_index t k) [i..<i + n] @ drop (i + n) buf)"
  using assms
proof (induction n arbitrary: i buf)
  case 0
  then show ?case by simp
next
  case (Suc n)
  let ?v = "vs ! logical_storage_index t i"
  let ?buf = "buf[i := ?v]"
  have first: "logical_storage_index t i < length vs" using Suc.prems(1) [of 0] by simp
  have "strided_copy t vs (Suc i) n ?buf = (Inr (),
      take (Suc i) ?buf @ map (\<lambda>k. vs ! logical_storage_index t k) [Suc i..<Suc i + n] @
      drop (Suc i + n) ?buf)"
  proof (rule Suc.IH)
    show "logical_storage_index t (Suc i + k) < length vs" if "k < n" for k
      using Suc.prems(1) [of "Suc k"] that by simp
    show "Suc i + n \<le> length ?buf" using Suc.prems(2) by simp
  qed
  moreover have "take (Suc i) ?buf = take i buf @ [?v]"
    using Suc.prems(2) by (simp add: take_Suc_conv_app_nth)
  moreover have "drop (Suc i + n) ?buf = drop (Suc i + n) buf" by simp
  moreover have "[i..<i + Suc n] = i # [Suc i..<Suc i + n]" by (simp add: upt_conv_Cons)
  ultimately show ?case using first by (simp add: Let_def)
qed

text \<open>Both branches of the copy deliver the logical values.\<close>

lemma tensor_copy_to_host_ok:
  assumes "layout_ok h t" and "numel_of t \<le> capacity" and "numel_of t \<le> length buf"
  shows "tensor_copy_to_host h t (Some buf) capacity =
    (Inr (), Some (logical_values h t @ drop (numel_of t) buf), numel_of t)"
proof -
  obtain vs where vs: "storage_of h t = CpuStorage vs" "length vs \<le> max_numel"
    using assms(1) by (auto simp: layout_ok_def)
  have t: "t_dtype t = kFloat32" "t_device t = kCpu" "t_device_index t = 0"
    "byte_size (t_shape t) = 4 * numel_of t"
    using assms(1) by (auto simp: layout_ok_def shape_ok_def)
  have bytes: "storage_byte_size (storage_of h t) = 4 * length vs"
    using vs by (simp add: max_numel_def)
  show ?thesis
  proof (cases "is_contiguous t \<and> t_offset t = 0 \<and> length vs = numel_of t")
    case True
    then have "logical_values h t = vs"
      using assms(1) vs by (intro contiguous_logical_values) auto
    then show ?thesis
      using True t assms(2) vs bytes by (simp add: tensor_copy_to_host_def write_prefix_def)
  next
    case False
    have "strided_copy t vs 0 (numel_of t) buf =
        (Inr (), logical_values h t @ drop (numel_of t) buf)"
      using strided_copy_ok [of "numel_of t" t 0 vs buf] layout_ok_index_less [OF assms(1)] vs
        assms(3) by (simp add: logical_values_def)
    then show ?thesis
      using False t assms(2) vs bytes by (auto simp: tensor_copy_to_host_def)
  qed
qed

lemma read_values_Inr:
  assumes "layout_ok h (tensor_at h r)" and "read_values ensure r op h = (Inr vs, h')"
  shows "vs = logical_values h (tensor_at h r)" "storages h' = storages h"
    "counters h' = counters h" "tensors h' = tensors h"
proof -
  obtain h1 where h1: "request_alloc h = (Inr (), h1)"
    and rest: "bindE (getE (\<lambda>h. tensor_copy_to_host h (tensor_at h1 r)
        (Some (replicate (numel_of (tensor_at h1 r)) f32_zero)) (numel_of (tensor_at h1 r))))
        (\<lambda>(res, buf, written). bindE (statusE res) (\<lambda>_. returnE (the buf))) h1 = (Inr vs, h')"
    using assms(2) request_alloc_keeps_objects [of h]
    by (auto simp: read_values_def statusE_def exec_simps elim!: bindE_InrE)
  have same: "storages h1 = storages h" "counters h1 = counters h" "tensors h1 = tensors h"
    using request_alloc_keeps_objects [of h] h1 by simp_all
  then have l: "layout_ok h1 (tensor_at h1 r)" and v: "logical_values h1 = logical_values h"
    using assms(1) by (simp_all add: layout_ok_def logical_values_def fun_eq_iff)
  have "vs = logical_values h1 (tensor_at h1 r) \<and> h' = h1"
    using rest tensor_copy_to_host_ok [OF l order_refl, of "replicate _ f32_zero"]
    by (auto simp: exec_simps)
  then show "vs = logical_values h (tensor_at h r)" "storages h' = storages h"
    "counters h' = counters h" "tensors h' = tensors h"
    using same v by auto
qed

lemma read_values_ok:
  assumes "layout_ok h (tensor_at h r)" and "alloc_plan h = []"
    and "ensure (tensor_at h r) op = Inr ()"
  shows "read_values ensure r op h = (Inr (logical_values h (tensor_at h r)), h)"
  using assms tensor_copy_to_host_ok [OF assms(1) order_refl]
  by (simp add: read_values_def bindE_def exec_simps allocation_guard_def)

section \<open>Properties\<close>


definition demo_view :: tensor where
  "demo_view = \<lparr>t_shape = \<lparr>dimensions = [3, 2], strides = [1, 3], numel = 6, byte_size = 24\<rparr>,
     t_storage = 0, t_dtype = kFloat32, t_device = kCpu, t_device_index = 0, t_offset = 0,
     t_version_counter = 0, t_meta = None\<rparr>"

definition demo_view_heap :: heap where
  "demo_view_heap = \<lparr>storages = [CpuStorage [10, 20, 30, 40, 50, 60]],
     counters = [\<lparr>vc_value = 0, vc_identity = 1\<rparr>], tensors = [demo_view], next_identity = 2,
     alloc_plan = []\<rparr>"

lemma demo_view_layout: "layout_ok demo_view_heap demo_view"
proof -
  have "shape_ok (t_shape demo_view)"
    by (simp add: shape_ok_def demo_view_def valid_dims_def kMaxTensorRank_def max_numel_def)
  then show ?thesis by (simp add: layout_ok_def demo_view_def demo_view_heap_def max_numel_def)
qed


end
