(* ===== verification/Autograd_Graph.thy ===== *)
theory Autograd_Graph
  imports Tensor_Heap
begin

text \<open>
  The part of \<open>native/src/autograd/autograd.h\<close> that builds and inspects the gradient graph:
  storage access, detached copies, the metadata of a tensor, and the recording of operations.
  Differentiation itself is in \<open>Autograd_Backward\<close>.

  Every tensor of the model is owned by a \<open>shared_ptr\<close>, so \<open>Share\<close> always succeeds
  (\<open>shared_from_this\<close> throws only for a tensor that is not).  A tensor's \<open>AutogradMeta\<close> is created
  for that tensor alone, so it is part of the tensor object.
\<close>

section \<open>Access to values\<close>

definition EnsureCpuFloat32 :: "tensor \<Rightarrow> string \<Rightarrow> status + unit" where
  "EnsureCpuFloat32 = ensure_cpu_float32 '': CPU autograd requires cpu:0''
     '': CPU autograd currently supports float32 only''"

text \<open>
  \<open>CpuValues\<close> and \<open>MutableCpuValues\<close> share their checks and differ in the messages; the pointer
  they return is the storage's index.
\<close>

definition direct_storage :: "string \<Rightarrow> string \<Rightarrow> tensor_ref \<Rightarrow> string \<Rightarrow> (heap, nat) run" where
  "direct_storage contiguity_message extent_message r operation =
     bindE (getE (\<lambda>h. tensor_at h r)) (\<lambda>t.
     bindE (statusE (EnsureCpuFloat32 t operation)) (\<lambda>_.
     bindE (checkE (is_contiguous t \<and> t_offset t = 0)
       (InvalidArgument (operation @ contiguity_message))) (\<lambda>_.
     bindE (getE (\<lambda>h. storage_of h t)) (\<lambda>storage.
     case storage of
       ForeignStorage _ _ _ \<Rightarrow>
         failE (Unsupported (operation @ '': tensor is not backed by CPU storage''))
     | CpuStorage values \<Rightarrow>
         bindE (checkE (length values = numel_of t)
           (InvalidArgument (operation @ extent_message))) (\<lambda>_.
         returnE (t_storage t))))))"

definition CpuValues :: "tensor_ref \<Rightarrow> string \<Rightarrow> (heap, f32 list) run" where
  "CpuValues r operation =
     bindE (direct_storage '': direct storage access requires a contiguous tensor''
       '': direct access requires full logical storage extent'' r operation)
     (\<lambda>s. getE (\<lambda>h. cpu_values (storages h ! s)))"

definition MutableCpuValues :: "tensor_ref \<Rightarrow> string \<Rightarrow> (heap, nat) run" where
  "MutableCpuValues =
     direct_storage '': mutable storage access requires a contiguous tensor''
       '': mutable access to aliased sub-storage is not supported''"

definition write_values :: "nat \<Rightarrow> f32 list \<Rightarrow> (heap, unit) run" where
  "write_values s vs = modifyE (\<lambda>h. h\<lparr>storages := (storages h)[s := CpuStorage vs]\<rparr>)"

definition ReadLogicalCpuValues :: "tensor_ref \<Rightarrow> string \<Rightarrow> (heap, f32 list) run" where
  "ReadLogicalCpuValues = read_values EnsureCpuFloat32"

definition MakeCpuTensor :: "shape_info \<Rightarrow> f32 list \<Rightarrow> (heap, tensor_ref) run" where
  "MakeCpuTensor shape values =
     bindE (checkE (length values = numel shape)
       (InternalError ''autograd: gradient value count does not match shape'')) (\<lambda>_.
     case ValidateShape (dims_pointer (dimensions shape)) (length (dimensions shape)) of
       Inl _ \<Rightarrow>
         failE (InternalError ''autograd: could not canonicalize materialized gradient shape'')
     | Inr materialized_shape \<Rightarrow>
         bindE (checkE (numel materialized_shape = numel shape)
           (InternalError ''autograd: could not canonicalize materialized gradient shape'')) (\<lambda>_.
         bindE (CpuStorage_FromData (Some values) (numel shape)) (\<lambda>storage.
         allocation_guard ''autograd tensor'' (new_cpu_tensor materialized_shape storage))))"

definition MakeCpuFull :: "shape_info \<Rightarrow> f32 \<Rightarrow> (heap, tensor_ref) run" where
  "MakeCpuFull shape x =
     bindE (CpuStorage_Filled (numel shape) x) (\<lambda>storage.
     allocation_guard ''autograd tensor'' (new_cpu_tensor shape storage))"

definition CloneDetached :: "tensor_ref \<Rightarrow> (heap, tensor_ref) run" where
  "CloneDetached source =
     bindE (ReadLogicalCpuValues source ''autograd_clone'') (\<lambda>values.
     bindE (getE (\<lambda>h. t_shape (tensor_at h source))) (\<lambda>shape.
     MakeCpuTensor shape values))"

definition CopyGradient :: "tensor_ref \<Rightarrow> (heap, tensor_ref) run" where
  "CopyGradient = CloneDetached"

section \<open>Metadata\<close>

definition default_meta :: autograd_meta where
  "default_meta = \<lparr>meta_requires_grad = False, meta_is_leaf = True, meta_gradient = None,
     meta_grad_fn = None\<rparr>"

definition RequiresGrad :: "heap \<Rightarrow> tensor_ref \<Rightarrow> bool" where
  "RequiresGrad h r =
     (case t_meta (tensor_at h r) of None \<Rightarrow> False | Some m \<Rightarrow> meta_requires_grad m)"

definition grad_fn_of :: "heap \<Rightarrow> tensor_ref \<Rightarrow> grad_node option" where
  "grad_fn_of h r = (case t_meta (tensor_at h r) of None \<Rightarrow> None | Some m \<Rightarrow> meta_grad_fn m)"

definition gradient_of :: "heap \<Rightarrow> tensor_ref \<Rightarrow> tensor_ref option" where
  "gradient_of h r = (case t_meta (tensor_at h r) of None \<Rightarrow> None | Some m \<Rightarrow> meta_gradient m)"

definition CloneAsLeaf :: "tensor_ref \<Rightarrow> bool \<Rightarrow> (heap, tensor_ref) run" where
  "CloneAsLeaf source requires_grad =
     bindE (CloneDetached source) (\<lambda>out.
     bindE request_alloc (\<lambda>_.
     bindE (set_autograd_meta out
       (default_meta\<lparr>meta_requires_grad := requires_grad, meta_is_leaf := True\<rparr>)) (\<lambda>_.
     returnE out)))"

definition ClearGradient :: "tensor_ref \<Rightarrow> (heap, unit) run" where
  "ClearGradient r =
     bindE (getE (\<lambda>h. t_meta (tensor_at h r))) (\<lambda>meta.
     case meta of
       None \<Rightarrow> returnE ()
     | Some m \<Rightarrow> set_autograd_meta r (m\<lparr>meta_gradient := None\<rparr>))"

definition GradientSnapshot :: "tensor_ref \<Rightarrow> (heap, tensor_ref) run" where
  "GradientSnapshot r =
     bindE (getE (\<lambda>h. t_meta (tensor_at h r))) (\<lambda>meta.
     case meta of
       None \<Rightarrow> failE (InvalidArgument ''tensor_grad: gradient is not available'')
     | Some m \<Rightarrow>
         (case meta_gradient m of
            None \<Rightarrow> failE (InvalidArgument ''tensor_grad: gradient is not available'')
          | Some g \<Rightarrow> CopyGradient g))"

section \<open>Recording\<close>

definition AttachNode :: "tensor_ref \<Rightarrow> operation \<Rightarrow> tensor_ref list \<Rightarrow> (heap, unit) run" where
  "AttachNode result operation parents =
     bindE (getE (\<lambda>h. \<exists>p \<in> set parents. RequiresGrad h p)) (\<lambda>needs_grad.
     if \<not> needs_grad then returnE ()
     else
       bindE request_alloc (\<lambda>_.
       bindE (getE (\<lambda>h. map (tensor_version h) parents)) (\<lambda>parent_versions.
       bindE request_alloc (\<lambda>_.
       set_autograd_meta result (default_meta\<lparr>meta_requires_grad := True, meta_is_leaf := False,
         meta_grad_fn := Some \<lparr>node_operation = operation, node_parents = parents,
           node_versions = parent_versions\<rparr>\<rparr>)))))"

definition RecordUnary :: "operation \<Rightarrow> tensor_ref \<Rightarrow> tensor_ref \<Rightarrow> (heap, unit) run" where
  "RecordUnary operation input result =
     bindE (getE (\<lambda>h. RequiresGrad h input)) (\<lambda>rg.
     if \<not> rg then returnE () else AttachNode result operation [input])"

definition RecordBinary ::
    "operation \<Rightarrow> tensor_ref \<Rightarrow> tensor_ref \<Rightarrow> tensor_ref \<Rightarrow> (heap, unit) run" where
  "RecordBinary operation left right result =
     bindE (getE (\<lambda>h. RequiresGrad h left \<or> RequiresGrad h right)) (\<lambda>rg.
     if \<not> rg then returnE () else AttachNode result operation [left, right])"

definition RecordBiasAdd :: "tensor_ref \<Rightarrow> tensor_ref \<Rightarrow> tensor_ref \<Rightarrow> (heap, unit) run" where
  "RecordBiasAdd matrix bias result = RecordBinary kBiasAdd matrix bias result"

section \<open>Well-formed heaps\<close>

text \<open>
  The shapes a recorded operation relates.  The forward operations establish these facts and
  nothing changes a shape afterwards; differentiation relies on them.
\<close>

definition one_parent :: "(int list \<Rightarrow> bool) \<Rightarrow> int list list \<Rightarrow> bool" where
  "one_parent P ps \<longleftrightarrow> length ps = 1 \<and> P (ps ! 0)"

definition two_parents :: "(int list \<Rightarrow> int list \<Rightarrow> bool) \<Rightarrow> int list list \<Rightarrow> bool" where
  "two_parents P ps \<longleftrightarrow> length ps = 2 \<and> P (ps ! 0) (ps ! 1)"

fun node_dims_ok :: "operation \<Rightarrow> int list list \<Rightarrow> int list \<Rightarrow> bool" where
  "node_dims_ok kIdentity ps d = one_parent (\<lambda>p. p = d) ps"
| "node_dims_ok kReshape ps d = one_parent (\<lambda>p. dims_prod p = dims_prod d) ps"
| "node_dims_ok kTranspose2D ps d = one_parent (\<lambda>p. length p = 2 \<and> d = [p ! 1, p ! 0]) ps"
| "node_dims_ok kAdd ps d = two_parents (\<lambda>p q. p = d \<and> q = d) ps"
| "node_dims_ok kMultiply ps d = two_parents (\<lambda>p q. p = d \<and> q = d) ps"
| "node_dims_ok kSum ps d = one_parent (\<lambda>p. d = []) ps"
| "node_dims_ok kMatmul ps d =
     two_parents (\<lambda>p q. length p = 2 \<and> length q = 2 \<and> q ! 0 = p ! 1 \<and> d = [p ! 0, q ! 1]) ps"
| "node_dims_ok kRelu ps d = one_parent (\<lambda>p. p = d) ps"
| "node_dims_ok kSigmoid ps d = one_parent (\<lambda>p. p = d) ps"
| "node_dims_ok kTanh ps d = one_parent (\<lambda>p. p = d) ps"
| "node_dims_ok kGelu ps d = one_parent (\<lambda>p. p = d) ps"
| "node_dims_ok kSilu ps d = one_parent (\<lambda>p. p = d) ps"
| "node_dims_ok kSwiGlu ps d =
     one_parent (\<lambda>p. p \<noteq> [] \<and> last p mod 2 = 0 \<and> d = butlast p @ [last p div 2]) ps"
| "node_dims_ok kMse ps d = two_parents (\<lambda>p q. p = q \<and> d = []) ps"
| "node_dims_ok kCrossEntropy ps d = two_parents (\<lambda>p q. p = q \<and> length p = 2 \<and> d = []) ps"
| "node_dims_ok kBiasAdd ps d = two_parents (\<lambda>p q. length p = 2 \<and> q = [p ! 1] \<and> d = p) ps"

definition node_ok :: "heap \<Rightarrow> nat \<Rightarrow> grad_node \<Rightarrow> bool" where
  "node_ok h i n \<longleftrightarrow> (\<forall>p \<in> set (node_parents n). p < i) \<and>
     length (node_versions n) = length (node_parents n) \<and>
     node_dims_ok (node_operation n) (map (\<lambda>p. dims_of (tensor_at h p)) (node_parents n))
       (dims_of (tensor_at h i))"

text \<open>A gradient buffer: a canonical tensor of the same shape that owns its whole storage.\<close>

definition buffer_ok :: "heap \<Rightarrow> int list \<Rightarrow> tensor_ref \<Rightarrow> bool" where
  "buffer_ok h d g \<longleftrightarrow> g < length (tensors h) \<and> t_shape (tensor_at h g) = canonical_shape d \<and>
     t_offset (tensor_at h g) = 0 \<and> t_meta (tensor_at h g) = None \<and>
     length (cpu_values (storage_of h (tensor_at h g))) = dims_prod d"

definition meta_ok :: "heap \<Rightarrow> nat \<Rightarrow> bool" where
  "meta_ok h i \<longleftrightarrow>
     (case t_meta (tensor_at h i) of
        None \<Rightarrow> True
      | Some m \<Rightarrow>
          (case meta_grad_fn m of
             None \<Rightarrow> meta_is_leaf m
           | Some n \<Rightarrow> node_ok h i n \<and> meta_requires_grad m \<and> \<not> meta_is_leaf m) \<and>
          (case meta_gradient m of
             None \<Rightarrow> True
           | Some g \<Rightarrow> buffer_ok h (dims_of (tensor_at h i)) g))"

definition wf_heap :: "heap \<Rightarrow> bool" where
  "wf_heap h \<longleftrightarrow> (\<forall>i < length (tensors h). layout_ok h (tensor_at h i) \<and> meta_ok h i)"

lemma wf_heap_empty: "wf_heap empty_heap"
  by (simp add: wf_heap_def empty_heap_def)

lemma wf_heap_layout: "wf_heap h \<Longrightarrow> i < length (tensors h) \<Longrightarrow> layout_ok h (tensor_at h i)"
  by (simp add: wf_heap_def)

lemma wf_heap_node:
  assumes "wf_heap h" and "i < length (tensors h)" and "grad_fn_of h i = Some n"
  shows "node_ok h i n"
  using assms by (auto simp: wf_heap_def meta_ok_def grad_fn_of_def split: option.splits)

lemma node_ok_ext:
  assumes "node_ok h i n" and "heap_extends h h'" and "i < length (tensors h)"
  shows "node_ok h' i n"
proof -
  have parents: "map (\<lambda>p. dims_of (tensor_at h' p)) (node_parents n) =
      map (\<lambda>p. dims_of (tensor_at h p)) (node_parents n)"
    using assms heap_extends_nth(3) [OF assms(2)] by (auto simp: node_ok_def)
  have self: "tensor_at h' i = tensor_at h i" using heap_extends_nth(3) [OF assms(2,3)] .
  show ?thesis using assms(1) unfolding node_ok_def parents self .
qed

lemma buffer_ok_ext:
  assumes "buffer_ok h d g" and "heap_extends h h'" and "t_storage (tensor_at h g) < length (storages h)"
  shows "buffer_ok h' d g"
  using assms heap_extends_nth [OF assms(2)] heap_extends_lengths [OF assms(2)]
  by (auto simp: buffer_ok_def)

lemma meta_ok_ext:
  assumes "wf_heap h" and "heap_extends h h'" and "i < length (tensors h)"
  shows "meta_ok h' i"
proof (cases "t_meta (tensor_at h i)")
  case None
  then show ?thesis using heap_extends_nth(3) [OF assms(2,3)] by (simp add: meta_ok_def)
next
  case (Some m)
  have self: "tensor_at h' i = tensor_at h i" using heap_extends_nth(3) [OF assms(2,3)] .
  have old: "meta_ok h i" using assms(1,3) by (simp add: wf_heap_def)
  have "buffer_ok h' d g" if "buffer_ok h d g" for d g
  proof (rule buffer_ok_ext [OF that assms(2)])
    have "g < length (tensors h)" using that by (simp add: buffer_ok_def)
    then show "t_storage (tensor_at h g) < length (storages h)"
      using wf_heap_layout [OF assms(1)] by (simp add: layout_ok_def)
  qed
  moreover have "node_ok h' i n" if "node_ok h i n" for n
    using that assms(2,3) by (rule node_ok_ext)
  ultimately show ?thesis
    using old Some self unfolding meta_ok_def
    by (cases "meta_grad_fn m"; cases "meta_gradient m") simp_all
qed

lemma wf_heap_ext_old:
  assumes "wf_heap h" and "heap_extends h h'" and "i < length (tensors h)"
  shows "layout_ok h' (tensor_at h' i) \<and> meta_ok h' i"
  using assms wf_heap_layout [OF assms(1,3)] meta_ok_ext [OF assms] heap_extends_nth(3) [OF assms(2,3)]
  by (simp add: layout_ok_ext)

lemma wf_heap_same_tensors:
  assumes "wf_heap h" and "heap_extends h h'" and "tensors h' = tensors h"
  shows "wf_heap h'"
  using assms wf_heap_ext_old [OF assms(1,2)] by (simp add: wf_heap_def)

lemma wf_heap_new_tensor:
  assumes "wf_heap h" and "heap_extends h h'" and "tensors h' = tensors h @ [t]"
    and "layout_ok h' t" and "t_meta t = None"
  shows "wf_heap h'"
  unfolding wf_heap_def
proof (intro allI impI)
  fix i assume "i < length (tensors h')"
  then consider "i < length (tensors h)" | "i = length (tensors h)" using assms(3) by fastforce
  then show "layout_ok h' (tensor_at h' i) \<and> meta_ok h' i"
  proof cases
    case 1
    then show ?thesis using wf_heap_ext_old [OF assms(1,2)] by simp
  next
    case 2
    then show ?thesis using assms(3-5) by (simp add: meta_ok_def)
  qed
qed

text \<open>Changing only the metadata of one tensor.\<close>

lemma wf_heap_set_meta:
  assumes "wf_heap h" and "r < length (tensors h)" and "t_meta (tensor_at h r) = None"
    and "h' = h\<lparr>tensors := (tensors h)[r := (tensor_at h r)\<lparr>t_meta := Some m\<rparr>]\<rparr>"
    and "\<And>i m' g. i < length (tensors h) \<Longrightarrow> t_meta (tensor_at h i) = Some m' \<Longrightarrow>
          meta_gradient m' = Some g \<Longrightarrow> g \<noteq> r"
    and "meta_gradient m = None"
    and "case meta_grad_fn m of None \<Rightarrow> meta_is_leaf m
         | Some n \<Rightarrow> node_ok h r n \<and> meta_requires_grad m \<and> \<not> meta_is_leaf m"
  shows "wf_heap h'"
proof -
  have dims: "dims_of (tensor_at h' p) = dims_of (tensor_at h p)" for p
    using assms(2,4) by (cases "p = r") simp_all
  then have nodes: "node_ok h' i n = node_ok h i n" for i n by (simp add: node_ok_def)
  have others: "i \<noteq> r \<Longrightarrow> tensor_at h' i = tensor_at h i" for i using assms(4) by simp
  have lay: "layout_ok h' t = layout_ok h t" for t using assms(4) by (simp add: layout_ok_def)
  have "layout_ok h' (tensor_at h' i) \<and> meta_ok h' i" if i: "i < length (tensors h)" for i
  proof (cases "i = r")
    case True
    then have "layout_ok h' (tensor_at h' i)"
      using assms(2,4) wf_heap_layout [OF assms(1,2)] lay by (simp add: layout_ok_def)
    then show ?thesis
      using True assms(2,4,6,7) nodes by (auto simp: meta_ok_def split: option.splits)
  next
    case False
    have buf: "buffer_ok h' d g" if "buffer_ok h d g" "g \<noteq> r" for d g
      using that others assms(4) by (simp add: buffer_ok_def)
    have "meta_ok h i" "layout_ok h (tensor_at h i)" using assms(1) i by (simp_all add: wf_heap_def)
    then show ?thesis
      using False others lay nodes dims assms(5) [OF i] buf
      by (auto simp: meta_ok_def split: option.splits)
  qed
  then show ?thesis using assms(4) by (simp add: wf_heap_def)
qed

section \<open>Quiet computations\<close>

text \<open>
  Computations that at most allocate storages: they leave the tensors and all existing objects
  alone, so a well-formed heap stays well formed.
\<close>

definition quietly :: "heap \<Rightarrow> heap \<Rightarrow> bool" where
  "quietly h h' \<longleftrightarrow> heap_extends h h' \<and> tensors h' = tensors h"

interpretation quiet: frame_relation quietly
  by unfold_locales (auto simp: quietly_def intro: ext.frame_trans ext.frame_refl)

lemma wf_heap_quietly: "wf_heap h \<Longrightarrow> quietly h h' \<Longrightarrow> wf_heap h'"
  using wf_heap_same_tensors by (simp add: quietly_def)

lemma quiet_request_alloc: "keeps quietly request_alloc"
  using keeps_request_alloc request_alloc_keeps_objects by (simp add: keeps_def quietly_def)

lemma quiet_new_storage: "keeps quietly (new_storage st)"
  by (simp add: keeps_def quietly_def heap_extends_def new_storage_def)

lemma quiet_Filled: "keeps quietly (CpuStorage_Filled n x)"
  unfolding CpuStorage_Filled_def
  by (intro keeps_allocation_guard quiet.keeps_all quiet_request_alloc quiet_new_storage)

lemma quiet_FromData: "keeps quietly (CpuStorage_FromData d n)"
  unfolding CpuStorage_FromData_def
  by (intro keeps_allocation_guard quiet.keeps_all quiet_request_alloc quiet_new_storage)

lemma quiet_read_values: "keeps quietly (read_values ensure r op)"
  unfolding read_values_def
  by (auto intro!: keeps_allocation_guard quiet.keeps_all quiet_request_alloc split: prod.splits)

lemma quiet_ReadLogicalCpuValues: "keeps quietly (ReadLogicalCpuValues r op)"
  by (simp add: ReadLogicalCpuValues_def quiet_read_values)

lemma reads_direct_storage: "reads_only (direct_storage m m' r op)"
  unfolding direct_storage_def
  by (intro unchanged.keeps_all) (auto intro!: unchanged.keeps_all split: storage.splits)

lemma reads_CpuValues: "reads_only (CpuValues r op)"
  unfolding CpuValues_def by (intro unchanged.keeps_all reads_direct_storage)

lemma quiet_reads_only: "reads_only m \<Longrightarrow> keeps quietly m"
  by (simp add: keeps_def quiet.frame_refl)

lemmas quiet_rules = quiet.keeps_all quiet_request_alloc quiet_new_storage quiet_Filled
  quiet_FromData quiet_read_values quiet_ReadLogicalCpuValues
  quiet_reads_only [OF reads_direct_storage] quiet_reads_only [OF reads_CpuValues]
  keeps_allocation_guard

section \<open>Creating one tensor\<close>

definition fresh_tensor :: "shape_info \<Rightarrow> nat \<Rightarrow> nat \<Rightarrow> tensor" where
  "fresh_tensor sh st vc = \<lparr>t_shape = sh, t_storage = st, t_dtype = kFloat32, t_device = kCpu,
     t_device_index = 0, t_offset = 0, t_version_counter = vc, t_meta = None\<rparr>"

lemma fresh_tensor_simps [simp]:
  "t_shape (fresh_tensor sh st vc) = sh" "t_storage (fresh_tensor sh st vc) = st"
  "t_dtype (fresh_tensor sh st vc) = kFloat32" "t_device (fresh_tensor sh st vc) = kCpu"
  "t_device_index (fresh_tensor sh st vc) = 0" "t_offset (fresh_tensor sh st vc) = 0"
  "t_version_counter (fresh_tensor sh st vc) = vc" "t_meta (fresh_tensor sh st vc) = None"
  by (simp_all add: fresh_tensor_def)

definition appends :: "heap \<Rightarrow> heap \<Rightarrow> tensor \<Rightarrow> storage list \<Rightarrow> version_counter list \<Rightarrow> bool" where
  "appends h h' t ss cs \<longleftrightarrow> storages h' = storages h @ ss \<and> counters h' = counters h @ cs \<and>
     tensors h' = tensors h @ [t]"

lemma appends_extends: "appends h h' t ss cs \<Longrightarrow> heap_extends h h'"
  by (auto simp: appends_def heap_extends_def)

lemma appends_new [simp]: "appends h h' t ss cs \<Longrightarrow> tensor_at h' (length (tensors h)) = t"
  by (simp add: appends_def)

lemma appends_length: "appends h h' t ss cs \<Longrightarrow> length (tensors h') = Suc (length (tensors h))"
  by (simp add: appends_def)

text \<open>A tensor over a storage of its own.\<close>

definition adds_tensor :: "heap \<Rightarrow> heap \<Rightarrow> shape_info \<Rightarrow> f32 list \<Rightarrow> autograd_meta option \<Rightarrow> bool" where
  "adds_tensor h h' sh vs meta \<longleftrightarrow> (\<exists>ident.
     appends h h' ((fresh_tensor sh (length (storages h)) (length (counters h)))\<lparr>t_meta := meta\<rparr>)
       [CpuStorage vs] [\<lparr>vc_value = 0, vc_identity = ident\<rparr>])"

lemma adds_tensor_extends: "adds_tensor h h' sh vs meta \<Longrightarrow> heap_extends h h'"
  by (auto simp: adds_tensor_def appends_extends)

lemma adds_tensor_facts:
  assumes "adds_tensor h h' sh vs meta"
  shows "t_shape (tensor_at h' (length (tensors h))) = sh"
    "t_meta (tensor_at h' (length (tensors h))) = meta"
    "storage_of h' (tensor_at h' (length (tensors h))) = CpuStorage vs"
    "t_offset (tensor_at h' (length (tensors h))) = 0"
    "length (tensors h') = Suc (length (tensors h))"
    "t_storage (tensor_at h' (length (tensors h))) = length (storages h)"
  using assms by (auto simp: adds_tensor_def appends_def)

lemma adds_tensor_layout:
  assumes "adds_tensor h h' sh vs meta" and "shape_ok sh" and "length vs = numel sh"
  shows "layout_ok h' (tensor_at h' (length (tensors h)))"
  using assms
  by (auto simp: adds_tensor_def appends_def layout_ok_def shape_ok_def valid_dims_def)

lemma adds_tensor_values:
  assumes "adds_tensor h h' (canonical_shape ds) vs meta" and "valid_dims ds"
    and "length vs = dims_prod ds"
  shows "logical_values h' (tensor_at h' (length (tensors h))) = vs"
proof (rule contiguous_logical_values)
  note f = adds_tensor_facts [OF assms(1)]
  show "layout_ok h' (tensor_at h' (length (tensors h)))"
    using assms by (intro adds_tensor_layout) (auto intro: shape_ok_canonical)
  show "is_contiguous (tensor_at h' (length (tensors h)))"
    using assms(2) f by (simp add: is_contiguous_def row_major_is_contiguous del: One_nat_def)
qed (use assms adds_tensor_facts [OF assms(1)] in simp_all)

lemma adds_tensor_fill:
  assumes "adds_tensor h h' sh (replicate (numel sh) x) meta" and "shape_ok sh"
  shows "logical_values h' (tensor_at h' (length (tensors h))) = replicate (numel sh) x"
proof -
  note f = adds_tensor_facts [OF assms(1)]
  have "layout_ok h' (tensor_at h' (length (tensors h)))"
    using adds_tensor_layout [OF assms] by simp
  then have "logical_storage_index (tensor_at h' (length (tensors h))) i < numel sh" for i
    using layout_ok_index_less [of h' "tensor_at h' (length (tensors h))" i] f by simp
  then show ?thesis
    using f by (intro nth_equalityI) (simp_all add: logical_values_def)
qed

lemma adds_tensor_wf:
  assumes "adds_tensor h h' sh vs None" and "wf_heap h" and "shape_ok sh" and "length vs = numel sh"
  shows "wf_heap h'"
proof -
  obtain ident where a: "appends h h' (fresh_tensor sh (length (storages h)) (length (counters h)))
      [CpuStorage vs] [\<lparr>vc_value = 0, vc_identity = ident\<rparr>]"
    using assms(1) by (auto simp: adds_tensor_def fresh_tensor_def)
  show ?thesis
    using wf_heap_new_tensor [OF assms(2) appends_extends [OF a]] a
      adds_tensor_layout [OF assms(1,3,4)] by (simp add: appends_def)
qed

lemma adds_tensor_buffer:
  assumes "adds_tensor h h' (canonical_shape ds) vs None" and "length vs = dims_prod ds"
  shows "buffer_ok h' ds (length (tensors h))"
  using adds_tensor_facts [OF assms(1)] assms(2) by (simp add: buffer_ok_def)

lemma new_cpu_tensor_adds:
  assumes "new_cpu_tensor sh (length (storages h0)) h = (Inr r, h')"
    and "storages h = storages h0 @ [CpuStorage vs]" and "counters h = counters h0"
    and "tensors h = tensors h0"
  shows "r = length (tensors h0)" "adds_tensor h0 h' sh vs None"
  using new_tensor_Inr [OF assms(1) [unfolded new_cpu_tensor_def]] assms(2-4)
  by (auto simp: adds_tensor_def appends_def fresh_tensor_def)

text \<open>A failed tensor allocation creates nothing.\<close>

lemma new_tensor_Inl:
  assumes "new_tensor sh st dt dv ix off vc h = (Inl f, h')"
  shows "quietly h h'"
proof -
  have "request_alloc h = (Inl f, h')"
    using assms by (auto simp: new_tensor_def NewVersionCounter_def NewTensorIdentityAnchor_def
        exec_simps elim!: bindE_InlE split: option.splits)
  then show ?thesis using keepsD [OF quiet_request_alloc] by blast
qed

lemma guarded_new_cpu_tensor_Inl:
  assumes "allocation_guard op (new_cpu_tensor sh st) h = (Inl f, h')"
  shows "quietly h h'"
proof -
  obtain r where "new_cpu_tensor sh st h = (r, h')"
    using allocation_guard_state [of op "new_cpu_tensor sh st" h] assms
    by (metis prod.collapse snd_conv)
  then show ?thesis
    using new_tensor_Inl assms
    by (cases r) (auto simp: new_cpu_tensor_def allocation_guard_def split: prod.splits)
qed

section \<open>Attaching a node\<close>

definition record_meta :: "heap \<Rightarrow> operation \<Rightarrow> tensor_ref list \<Rightarrow> autograd_meta option" where
  "record_meta h op ps =
     (if \<exists>p \<in> set ps. RequiresGrad h p
      then Some (default_meta\<lparr>meta_requires_grad := True, meta_is_leaf := False,
        meta_grad_fn := Some \<lparr>node_operation = op, node_parents = ps,
          node_versions = map (tensor_version h) ps\<rparr>\<rparr>)
      else None)"

lemma RecordUnary_Attach: "RecordUnary op p r = AttachNode r op [p]"
  by (simp add: RecordUnary_def AttachNode_def fun_eq_iff)

lemma RecordBinary_Attach: "RecordBinary op p q r = AttachNode r op [p, q]"
  by (simp add: RecordBinary_def AttachNode_def fun_eq_iff)

lemmas record_simps = RecordUnary_Attach RecordBinary_Attach RecordBiasAdd_def

lemma AttachNode_cases:
  assumes "AttachNode r op ps h = (res, h')"
  obtains (failed) f where "res = Inl f" "quietly h h'"
  | (attached) "res = Inr ()" "storages h' = storages h" "counters h' = counters h"
      "tensors h' = (case record_meta h op ps of None \<Rightarrow> tensors h
         | Some m \<Rightarrow> (tensors h)[r := (tensor_at h r)\<lparr>t_meta := Some m\<rparr>])"
proof (cases "\<exists>p \<in> set ps. RequiresGrad h p")
  case False
  then show thesis using assms attached by (simp add: AttachNode_def record_meta_def exec_simps)
next
  case True
  obtain r1 h1 where a1: "request_alloc h = (r1, h1)" by force
  obtain r2 h2 where a2: "request_alloc h1 = (r2, h2)" by force
  have q1: "quietly h h1" and q2: "quietly h1 h2"
    using a1 a2 keepsD [OF quiet_request_alloc] by blast+
  have same: "storages h2 = storages h" "counters h2 = counters h" "tensors h2 = tensors h"
    "counters h1 = counters h" "tensors h1 = tensors h"
    using request_alloc_keeps_objects [of h] request_alloc_keeps_objects [of h1] a1 a2 by simp_all
  have ver: "tensor_version h1 = tensor_version h"
    using same by (simp add: tensor_version_def fun_eq_iff)
  show thesis
  proof (cases r1)
    case (Inl f)
    then have "AttachNode r op ps h = (Inl f, h1)" using True a1 by (simp add: AttachNode_def exec_simps)
    then show thesis using assms q1 by (intro failed) simp_all
  next
    case r1: (Inr u)
    show thesis
    proof (cases r2)
      case (Inl f)
      then have "AttachNode r op ps h = (Inl f, h2)"
        using True a1 a2 r1 by (simp add: AttachNode_def exec_simps)
      then show thesis using assms quiet.frame_trans [OF q1 q2] by (intro failed) simp_all
    next
      case (Inr u')
      then have "AttachNode r op ps h = (Inr (), h2\<lparr>tensors := (tensors h)[r := (tensor_at h r)
          \<lparr>t_meta := record_meta h op ps\<rparr>]\<rparr>)"
        using True a1 a2 r1 same ver
        by (simp add: AttachNode_def exec_simps record_meta_def set_autograd_meta_def)
      then show thesis using assms True same by (intro attached) (auto simp: record_meta_def)
    qed
  qed
qed

text \<open>
  Recording on a tensor created since \<open>h\<close>: relative to \<open>h\<close> nothing that existed has changed, the
  heap stays well formed on every exit, and on success the new tensor carries the node exactly
  when some parent requires gradients.
\<close>

lemma attach_new:
  assumes wf: "wf_heap h" and app: "appends h h1 tn ss cs" and lay: "layout_ok h1 tn"
    and none: "t_meta tn = None" and parents: "\<forall>p \<in> set ps. p < length (tensors h)"
    and dims: "node_dims_ok op (map (\<lambda>p. dims_of (tensor_at h p)) ps) (dims_of tn)"
    and run: "AttachNode (length (tensors h)) op ps h1 = (res, h2)"
  shows "wf_heap h2" "heap_extends h h2" "length (tensors h2) = Suc (length (tensors h))"
    "res = Inr () \<Longrightarrow> appends h h2 (tn\<lparr>t_meta := record_meta h op ps\<rparr>) ss cs"
    "res = Inl f \<Longrightarrow> tensor_at h2 (length (tensors h)) = tn"
proof -
  let ?r = "length (tensors h)"
  note e1 = appends_extends [OF app]
  have wf1: "wf_heap h1"
    using app lay none by (intro wf_heap_new_tensor [OF wf e1]) (simp_all add: appends_def)
  have old: "tensor_at h1 p = tensor_at h p" if "p \<in> set ps" for p
    using heap_extends_nth(3) [OF e1] parents that by simp
  have rg: "RequiresGrad h1 p = RequiresGrad h p" if "p \<in> set ps" for p
    using old [OF that] by (simp add: RequiresGrad_def)
  have ver: "tensor_version h1 p = tensor_version h p" if "p \<in> set ps" for p
  proof -
    have "t_version_counter (tensor_at h p) < length (counters h)"
      using wf_heap_layout [OF wf] parents that by (simp add: layout_ok_def)
    then show ?thesis
      using old [OF that] heap_extends_nth(2) [OF e1] by (simp add: tensor_version_def)
  qed
  have meta: "record_meta h1 op ps = record_meta h op ps"
    using rg ver by (auto simp: record_meta_def cong: map_cong)
  have res: "wf_heap h2 \<and> heap_extends h h2 \<and> length (tensors h2) = Suc ?r \<and>
      (res = Inr () \<longrightarrow> appends h h2 (tn\<lparr>t_meta := record_meta h op ps\<rparr>) ss cs) \<and>
      (res = Inl f \<longrightarrow> tensor_at h2 ?r = tn)"
    using run
  proof (cases rule: AttachNode_cases)
    case (failed f)
    then show ?thesis
      using wf_heap_quietly [OF wf1] e1 app ext.frame_trans
      by (auto simp: quietly_def appends_def)
  next
    case attached
    show ?thesis
    proof (cases "record_meta h op ps")
      case None
      then have "storages h2 = storages h1" "counters h2 = counters h1" "tensors h2 = tensors h1"
        using attached meta by simp_all
      moreover from this have "heap_extends h1 h2" by (simp add: heap_extends_def)
      ultimately show ?thesis
        using wf_heap_same_tensors [OF wf1] app None none e1 attached(1)
        by (auto simp: appends_def heap_extends_def)
    next
      case (Some m)
      let ?h3 = "h1\<lparr>tensors := (tensors h1)[?r := (tensor_at h1 ?r)\<lparr>t_meta := Some m\<rparr>]\<rparr>"
      have h2: "storages h2 = storages ?h3" "counters h2 = counters ?h3"
        "tensors h2 = tensors ?h3" using attached meta Some by simp_all
      have tens: "tensors ?h3 = tensors h @ [tn\<lparr>t_meta := Some m\<rparr>]"
        using app by (simp add: appends_def)
      have "wf_heap ?h3"
      proof (rule wf_heap_set_meta [OF wf1 _ _ refl])
        show "?r < length (tensors h1)" "t_meta (tensor_at h1 ?r) = None"
          using app none by (simp_all add: appends_def)
        show "g \<noteq> ?r" if "i < length (tensors h1)" "t_meta (tensor_at h1 i) = Some m'"
          "meta_gradient m' = Some g" for i m' g
        proof -
          have i: "i < length (tensors h)"
            using that(1,2) app none by (auto simp: appends_def nth_append split: if_splits)
          then have "meta_ok h i" "tensor_at h1 i = tensor_at h i"
            using wf heap_extends_nth(3) [OF e1] by (simp_all add: wf_heap_def)
          then show ?thesis using that(2,3) by (auto simp: meta_ok_def buffer_ok_def)
        qed
        show "meta_gradient m = None"
          using Some by (auto simp: record_meta_def default_meta_def split: if_splits)
        have "map (\<lambda>p. dims_of (tensor_at h1 p)) ps = map (\<lambda>p. dims_of (tensor_at h p)) ps"
          using old by simp
        then have "node_dims_ok op (map (\<lambda>p. dims_of (tensor_at h1 p)) ps) (dims_of tn)"
          using dims by (simp only:)
        then show "case meta_grad_fn m of None \<Rightarrow> meta_is_leaf m
            | Some n \<Rightarrow> node_ok h1 ?r n \<and> meta_requires_grad m \<and> \<not> meta_is_leaf m"
          using Some app parents
          by (auto simp: record_meta_def node_ok_def split: if_splits)
      qed
      then have "wf_heap h2"
        using h2 wf_heap_same_tensors [of ?h3 h2] by (simp add: heap_extends_def)
      then show ?thesis
        using h2 tens app Some attached(1) by (auto simp: appends_def heap_extends_def)
    qed
  qed
  then show "wf_heap h2" "heap_extends h h2" "length (tensors h2) = Suc ?r"
    "res = Inr () \<Longrightarrow> appends h h2 (tn\<lparr>t_meta := record_meta h op ps\<rparr>) ss cs"
    "res = Inl f \<Longrightarrow> tensor_at h2 ?r = tn" by blast+
qed

section \<open>The tensors autograd creates\<close>

lemma MakeCpuTensor_cases:
  assumes "MakeCpuTensor sh vs h = (res, h')" and "i64_array (dimensions sh)"
  obtains (failed) f where "res = Inl f" "quietly h h'"
  | (made) "res = Inr (length (tensors h))" "valid_dims (dimensions sh)"
      "length vs = numel sh" "numel sh = dims_prod (dimensions sh)"
      "adds_tensor h h' (canonical_shape (dimensions sh)) vs None"
proof (cases "length vs = numel sh")
  case False
  then show thesis
    using assms failed quiet.frame_refl [of h] by (auto simp: MakeCpuTensor_def exec_simps checkE_def failE_def)
next
  case len: True
  show thesis
  proof (cases "ValidateShape (dims_pointer (dimensions sh)) (length (dimensions sh))")
    case (Inl e)
    then show thesis
      using assms len failed quiet.frame_refl [of h]
      by (auto simp: MakeCpuTensor_def exec_simps checkE_def failE_def)
  next
    case (Inr sh')
    note canon = ValidateShape_pointer_Inr [OF Inr assms(2)]
    obtain r1 h1 where fd: "CpuStorage_FromData (Some vs) (numel sh) h = (r1, h1)" by force
    have q1: "quietly h h1" using keepsD [OF quiet_FromData fd] .
    show thesis
    proof (cases "numel sh' = numel sh")
      case False
      then show thesis
        using assms len Inr failed quiet.frame_refl [of h]
        by (auto simp: MakeCpuTensor_def exec_simps checkE_def failE_def)
    next
      case eq: True
      show thesis
      proof (cases r1)
        case (Inl f)
        then have "MakeCpuTensor sh vs h = (Inl f, h1)"
          using len Inr eq fd by (simp add: MakeCpuTensor_def exec_simps checkE_def)
        then show thesis using assms q1 by (intro failed) simp_all
      next
        case r1: (Inr st)
        note fd' = CpuStorage_FromData_Inr [OF fd [unfolded r1]]
        have run: "allocation_guard ''autograd tensor'' (new_cpu_tensor sh' st) h1 = (res, h')"
          using assms len Inr eq fd r1 by (simp add: MakeCpuTensor_def exec_simps checkE_def)
        show thesis
        proof (cases res)
          case (Inl f)
          show thesis
            using failed [OF Inl] guarded_new_cpu_tensor_Inl run q1 quiet.frame_trans
            unfolding Inl by blast
        next
          case (Inr r)
          then have "new_cpu_tensor sh' (length (storages h)) h1 = (Inr r, h')" using run fd' by simp
          note adds = new_cpu_tensor_adds [OF this]
          have vs: "take (numel sh) vs = vs" using len by simp
          have st: "storages h1 = storages h @ [CpuStorage vs]" "counters h1 = counters h"
            "tensors h1 = tensors h" using fd' vs by simp_all
          show thesis
            using made adds [OF st] canon eq len Inr by (simp add: canonical_shape_def)
        qed
      qed
    qed
  qed
qed

lemma MakeCpuFull_cases:
  assumes "MakeCpuFull sh x h = (res, h')"
  obtains (failed) f where "res = Inl f" "quietly h h'"
  | (made) "res = Inr (length (tensors h))" "adds_tensor h h' sh (replicate (numel sh) x) None"
proof -
  obtain r1 h1 where fl: "CpuStorage_Filled (numel sh) x h = (r1, h1)" by force
  have q1: "quietly h h1" using keepsD [OF quiet_Filled fl] .
  show thesis
  proof (cases r1)
    case (Inl f)
    then have "MakeCpuFull sh x h = (Inl f, h1)" using fl by (simp add: MakeCpuFull_def exec_simps)
    then show thesis using assms q1 by (intro failed) simp_all
  next
    case r1: (Inr st)
    have run: "allocation_guard ''autograd tensor'' (new_cpu_tensor sh st) h1 = (res, h')"
      using assms fl r1 by (simp add: MakeCpuFull_def exec_simps)
    show thesis
    proof (cases res)
      case (Inl f)
      show thesis
        using failed [OF Inl] guarded_new_cpu_tensor_Inl run q1 quiet.frame_trans
        unfolding Inl by blast
    next
      case (Inr r)
      then have "new_cpu_tensor sh (length (storages h)) h1 = (Inr r, h')"
        using run CpuStorage_Filled_Inr(1) [OF fl [unfolded r1]] by simp
      then show thesis
        using new_cpu_tensor_adds [of sh h h1 r h' "replicate (numel sh) x"] made Inr
          CpuStorage_Filled_Inr [OF fl [unfolded r1]] by simp
    qed
  qed
qed

lemma CloneDetached_cases:
  assumes "CloneDetached r h = (res, h')" and "layout_ok h (tensor_at h r)"
  obtains (failed) f where "res = Inl f" "quietly h h'"
  | (made) "res = Inr (length (tensors h))"
      "adds_tensor h h' (canonical_shape (dims_of (tensor_at h r)))
         (logical_values h (tensor_at h r)) None"
proof -
  obtain r1 h1 where rd: "ReadLogicalCpuValues r ''autograd_clone'' h = (r1, h1)" by force
  have q1: "quietly h h1" using keepsD [OF quiet_ReadLogicalCpuValues rd] .
  show thesis
  proof (cases r1)
    case (Inl f)
    then have "CloneDetached r h = (Inl f, h1)" using rd by (simp add: CloneDetached_def exec_simps)
    then show thesis using assms q1 by (intro failed) simp_all
  next
    case (Inr vs)
    note rv = read_values_Inr [OF assms(2) rd [unfolded Inr ReadLogicalCpuValues_def]]
    have "MakeCpuTensor (t_shape (tensor_at h r)) vs h1 = (res, h')"
      using assms(1) rd Inr rv by (simp add: CloneDetached_def exec_simps)
    from this valid_dims_i64 [OF layout_ok_valid [OF assms(2)]] show thesis
    proof (cases rule: MakeCpuTensor_cases)
      case (failed f)
      then show thesis using that(1) quiet.frame_trans [OF q1] by blast
    next
      case made
      then show thesis using that(2) rv by (simp add: adds_tensor_def appends_def)
    qed
  qed
qed

text \<open>Nothing but an allocation failure can stop them.\<close>

lemma guarded_new_cpu_tensor_ok:
  assumes "alloc_plan h = []"
  shows "\<exists>r h'. allocation_guard op (new_cpu_tensor sh st) h = (Inr r, h') \<and> alloc_plan h' = []"
proof -
  obtain r h' where "new_cpu_tensor sh st h = (Inr r, h')" "alloc_plan h' = []"
    using new_tensor_ok [OF assms] unfolding new_cpu_tensor_def by blast
  then show ?thesis by (simp add: allocation_guard_def)
qed

lemma MakeCpuTensor_ok:
  assumes "alloc_plan h = []" and "valid_dims (dimensions sh)" and "numel sh = dims_prod (dimensions sh)"
    and "length vs = numel sh"
  shows "\<exists>h'. MakeCpuTensor sh vs h = (Inr (length (tensors h)), h') \<and> alloc_plan h' = []"
proof -
  have val: "ValidateShape (dims_pointer (dimensions sh)) (length (dimensions sh)) =
      Inr (canonical_shape (dimensions sh))"
    using assms(2) by (rule ValidateShape_pointer)
  have "MakeCpuTensor sh vs h = allocation_guard ''autograd tensor''
      (new_cpu_tensor (canonical_shape (dimensions sh)) (length (storages h)))
      (h\<lparr>storages := storages h @ [CpuStorage vs]\<rparr>)"
    using assms val CpuStorage_FromData_ok [OF assms(1), of vs "numel sh"]
    by (simp add: MakeCpuTensor_def checkE_def exec_simps canonical_shape_def)
  moreover obtain r h' where g: "allocation_guard ''autograd tensor''
      (new_cpu_tensor (canonical_shape (dimensions sh)) (length (storages h)))
      (h\<lparr>storages := storages h @ [CpuStorage vs]\<rparr>) = (Inr r, h')" "alloc_plan h' = []"
    using guarded_new_cpu_tensor_ok [of "h\<lparr>storages := storages h @ [CpuStorage vs]\<rparr>"] assms(1)
    by (simp, blast)
  ultimately have run: "MakeCpuTensor sh vs h = (Inr r, h')" by simp
  from run valid_dims_i64 [OF assms(2)] have "r = length (tensors h)"
    by (cases rule: MakeCpuTensor_cases) auto
  then show ?thesis using run g(2) by blast
qed

lemma MakeCpuFull_ok:
  assumes "alloc_plan h = []"
  shows "\<exists>h'. MakeCpuFull sh x h = (Inr (length (tensors h)), h') \<and> alloc_plan h' = []"
proof -
  obtain r h' where g: "allocation_guard ''autograd tensor''
      (new_cpu_tensor sh (length (storages h)))
      (h\<lparr>storages := storages h @ [CpuStorage (replicate (numel sh) x)]\<rparr>) = (Inr r, h')"
      "alloc_plan h' = []"
    using guarded_new_cpu_tensor_ok
      [of "h\<lparr>storages := storages h @ [CpuStorage (replicate (numel sh) x)]\<rparr>"] assms
    by (simp, blast)
  then have run: "MakeCpuFull sh x h = (Inr r, h')"
    using CpuStorage_Filled_ok [OF assms] by (simp add: MakeCpuFull_def exec_simps)
  from run have "r = length (tensors h)" by (cases rule: MakeCpuFull_cases) auto
  then show ?thesis using run g(2) by blast
qed

lemma layout_ok_ensure: "layout_ok h t \<Longrightarrow> EnsureCpuFloat32 t op = Inr ()"
  by (simp add: EnsureCpuFloat32_def ensure_cpu_float32_def layout_ok_def)

lemma CloneDetached_ok:
  assumes "alloc_plan h = []" and "layout_ok h (tensor_at h r)"
  shows "\<exists>h'. CloneDetached r h = (Inr (length (tensors h)), h') \<and> alloc_plan h' = []"
  using read_values_ok [OF assms(2,1), of EnsureCpuFloat32] layout_ok_ensure [OF assms(2)] assms
    MakeCpuTensor_ok [OF assms(1), of "t_shape (tensor_at h r)"]
  by (simp add: CloneDetached_def ReadLogicalCpuValues_def exec_simps layout_ok_valid layout_ok_numel)

end
