(* ===== verification/Kernels.thy ===== *)
theory Kernels
  imports Ieee_Float Shape
begin

text \<open>
  The numeric loops of the CPU code, as functions on vectors of \<open>float\<close>: the elementwise, sum and
  matrix loops of \<open>native/src/backends/cpu/cpu_backend.cc\<close>, the activation and loss loops of
  \<open>native/src/training/training_bridge_stub.cc\<close> and \<open>nn_v2_runtime.h\<close>.  A loop
  \<open>for (i = 0; i < n; ++i)\<close> is \<open>loop n body\<close>; the order of the floating-point operations is the
  order of the loops, so the results are exact bit patterns and not approximations.

  The lemmas describe each matrix loop entry by entry: an entry of a product is the left-to-right
  dot product of a row and a column.
\<close>

section \<open>Counting loops\<close>

fun loop :: "nat \<Rightarrow> (nat \<Rightarrow> 's \<Rightarrow> 's) \<Rightarrow> 's \<Rightarrow> 's" where
  "loop 0 body s = s"
| "loop (Suc n) body s = body n (loop n body s)"

lemma loop_cong:
  assumes "\<And>i s. i < n \<Longrightarrow> f i s = g i s"
  shows "loop n f s = loop n g s"
  using assms by (induction n) simp_all

lemma loop_invariant:
  assumes "I 0 s" and "\<And>i s. i < n \<Longrightarrow> I i s \<Longrightarrow> I (Suc i) (body i s)"
  shows "I n (loop n body s)"
  using assms(2) by (induction n) (simp_all add: assms(1))

lemma loop_foldl: "loop n f s = foldl (\<lambda>s i. f i s) s [0..<n]"
  by (induction n) simp_all

lemma loop_preserves:
  assumes "P s" and "\<And>i s. P s \<Longrightarrow> P (f i s)"
  shows "P (loop n f s)"
  using assms by (induction n) simp_all

lemma length_loop:
  assumes "\<And>i xs. length (f i xs) = length xs"
  shows "length (loop n f xs) = length xs"
  using assms by (induction n) simp_all

text \<open>
  Reading one cell of a vector that a loop updates: the loop restricted to that cell.
\<close>

lemma loop_nth:
  assumes "j < length xs" and "\<And>i ys. length (f i ys) = length ys"
    and "\<And>i ys. i < n \<Longrightarrow> j < length ys \<Longrightarrow> f i ys ! j = g i (ys ! j)"
  shows "loop n f xs ! j = loop n g (xs ! j)"
  using assms(3)
proof (induction n)
  case 0
  then show ?case by simp
next
  case (Suc n)
  have "j < length (loop n f xs)" using assms(1) length_loop [OF assms(2)] by simp
  then show ?case using Suc by simp
qed

lemma loop_never: "(\<And>i. i < n \<Longrightarrow> i \<noteq> k) \<Longrightarrow> loop n (\<lambda>i v. if i = k then f i v else v) v = v"
  by (induction n) auto

lemma loop_once:
  assumes "k < n"
  shows "loop n (\<lambda>i v. if i = k then f i v else v) v = f k v"
  using assms
proof (induction n)
  case 0
  then show ?case by simp
next
  case (Suc n)
  then show ?case by (cases "k = n") (auto simp: loop_never)
qed

lemma matrix_index_eq:
  fixes r r' c c' n :: nat
  assumes "c < n" and "c' < n"
  shows "r * n + c = r' * n + c' \<longleftrightarrow> r = r' \<and> c = c'"
proof
  assume eq: "r * n + c = r' * n + c'"
  have "r = (r * n + c) div n" "r' = (r' * n + c') div n" using assms by simp_all
  with eq show "r = r' \<and> c = c'" by auto
qed simp

lemma matrix_index_less:
  fixes r c m n :: nat
  assumes "r < m" and "c < n"
  shows "r * n + c < m * n"
proof -
  have "r * n + c < Suc r * n" using assms(2) by simp
  also have "\<dots> \<le> m * n" using assms(1) by (intro mult_le_mono1) simp
  finally show ?thesis .
qed

text \<open>A double loop over a matrix whose body changes one cell, read at one cell.\<close>

lemma loop_matrix_once:
  assumes "r < m" and "c < n"
  shows "loop m (\<lambda>i. loop n (\<lambda>j v. if i * n + j = r * n + c then f i j v else v)) v = f r c v"
proof -
  have "loop n (\<lambda>j v. if i * n + j = r * n + c then f i j v else v) v =
      (if i = r then f i c v else v)" for i v
  proof (cases "i = r")
    case True
    have "loop n (\<lambda>j v. if i * n + j = r * n + c then f i j v else v) v =
        loop n (\<lambda>j v. if j = c then f i j v else v) v"
      using True by (intro loop_cong) simp
    then show ?thesis using True assms(2) by (simp add: loop_once)
  next
    case False
    have "loop n (\<lambda>j v. if i * n + j = r * n + c then f i j v else v) v = loop n (\<lambda>j v. v) v"
      using False assms(2) by (intro loop_cong) (simp add: matrix_index_eq)
    moreover have "loop n (\<lambda>j v. v) v = v" by (induction n) simp_all
    ultimately show ?thesis using False by simp
  qed
  then have "loop m (\<lambda>i. loop n (\<lambda>j v. if i * n + j = r * n + c then f i j v else v)) v =
      loop m (\<lambda>i v. if i = r then f i c v else v) v"
    by (intro loop_cong) simp
  then show ?thesis using assms(1) by (simp add: loop_once)
qed

section \<open>Rows, columns and dot products\<close>

definition mat_row :: "nat \<Rightarrow> nat \<Rightarrow> f32 list \<Rightarrow> f32 list" where
  "mat_row cols i vs = map (\<lambda>j. vs ! (i * cols + j)) [0..<cols]"

definition mat_col :: "nat \<Rightarrow> nat \<Rightarrow> nat \<Rightarrow> f32 list \<Rightarrow> f32 list" where
  "mat_col rows cols j vs = map (\<lambda>i. vs ! (i * cols + j)) [0..<rows]"

definition sum_left :: "f32 list \<Rightarrow> f32" where
  "sum_left vs = foldl f32_add f32_zero vs"

definition dot :: "f32 list \<Rightarrow> f32 list \<Rightarrow> f32" where
  "dot xs ys = sum_left (map2 f32_mul xs ys)"

lemma length_mat_row [simp]: "length (mat_row cols i vs) = cols"
  by (simp add: mat_row_def)

lemma length_mat_col [simp]: "length (mat_col rows cols j vs) = rows"
  by (simp add: mat_col_def)

lemma map2_map_upt: "map2 f (map g [0..<n]) (map h [0..<n]) = map (\<lambda>i. f (g i) (h i)) [0..<n]"
  by (simp add: zip_map_map list_eq_iff_nth_eq)

lemma foldl_map_upt: "foldl f a (map g [0..<n]) = loop n (\<lambda>i v. f v (g i)) a"
  by (induction n) simp_all

lemma dot_loop:
  "dot (map g [0..<n]) (map h [0..<n]) = loop n (\<lambda>i v. f32_add v (f32_mul (g i) (h i))) f32_zero"
  by (simp add: dot_def sum_left_def map2_map_upt foldl_map_upt)

section \<open>The loops of the CPU backend\<close>

definition add_values :: "f32 list \<Rightarrow> f32 list \<Rightarrow> nat \<Rightarrow> f32 list" where
  "add_values left right n = map (\<lambda>i. f32_add (left ! i) (right ! i)) [0..<n]"

definition multiply_values :: "f32 list \<Rightarrow> f32 list \<Rightarrow> nat \<Rightarrow> f32 list" where
  "multiply_values left right n = map (\<lambda>i. f32_mul (left ! i) (right ! i)) [0..<n]"

definition matmul_values :: "nat \<Rightarrow> nat \<Rightarrow> nat \<Rightarrow> f32 list \<Rightarrow> f32 list \<Rightarrow> f32 list" where
  "matmul_values m k n left right =
     loop m (\<lambda>row. loop k (\<lambda>inner.
       let left_value = left ! (row * k + inner)
       in loop n (\<lambda>col output. output[row * n + col :=
            f32_add (output ! (row * n + col))
              (f32_mul left_value (right ! (inner * n + col)))])))
     (replicate (m * n) f32_zero)"

definition transpose_values :: "nat \<Rightarrow> nat \<Rightarrow> f32 list \<Rightarrow> f32 list" where
  "transpose_values rows cols input =
     loop rows (\<lambda>row. loop cols (\<lambda>col output.
       output[col * rows + row := input ! (row * cols + col)]))
     (replicate (rows * cols) f32_zero)"

lemma length_matmul_values [simp]: "length (matmul_values m k n left right) = m * n"
  by (simp add: matmul_values_def Let_def length_loop)

lemma length_transpose_values [simp]: "length (transpose_values rows cols input) = rows * cols"
  by (simp add: transpose_values_def length_loop)

lemma length_add_values [simp]: "length (add_values l r n) = n"
  by (simp add: add_values_def)

lemma length_multiply_values [simp]: "length (multiply_values l r n) = n"
  by (simp add: multiply_values_def)

lemma add_values_map2:
  "length l = n \<Longrightarrow> length r = n \<Longrightarrow> add_values l r n = map2 f32_add l r"
  by (simp add: add_values_def list_eq_iff_nth_eq)

lemma multiply_values_map2:
  "length l = n \<Longrightarrow> length r = n \<Longrightarrow> multiply_values l r n = map2 f32_mul l r"
  by (simp add: multiply_values_def list_eq_iff_nth_eq)

lemma update_nth: "j < length xs \<Longrightarrow> xs[i := v] ! j = (if i = j then v else xs ! j)"
  by simp

lemma matmul_values_nth:
  assumes r: "r < m" and c: "c < n"
  shows "matmul_values m k n left right ! (r * n + c) =
    dot (mat_row k r left) (mat_col k n c right)"
proof -
  let ?g = "\<lambda>row inner col v. if row * n + col = r * n + c
    then f32_add v (f32_mul (left ! (row * k + inner)) (right ! (inner * n + col))) else v"
  have "matmul_values m k n left right ! (r * n + c) =
      loop m (\<lambda>row. loop k (\<lambda>inner. loop n (?g row inner))) (replicate (m * n) f32_zero ! (r * n + c))"
    unfolding matmul_values_def Let_def
    using matrix_index_less [OF r c] by (intro loop_nth) (simp_all add: length_loop update_nth)
  also have "\<dots> = loop m (\<lambda>row v. if row = r
      then loop k (\<lambda>inner v. f32_add v (f32_mul (left ! (r * k + inner)) (right ! (inner * n + c)))) v
      else v) (replicate (m * n) f32_zero ! (r * n + c))"
  proof (intro loop_cong)
    fix row v
    have "loop n (?g row inner) v = (if row = r
        then f32_add v (f32_mul (left ! (row * k + inner)) (right ! (inner * n + c))) else v)"
      for inner v
    proof -
      have "loop n (?g row inner) v = loop n (\<lambda>col v. if col = c then (if row = r
          then f32_add v (f32_mul (left ! (row * k + inner)) (right ! (inner * n + col))) else v)
          else v) v"
        using c by (intro loop_cong) (simp add: matrix_index_eq)
      then show ?thesis using c by (simp add: loop_once)
    qed
    then have "loop k (\<lambda>inner. loop n (?g row inner)) v = loop k (\<lambda>inner v. if row = r
        then f32_add v (f32_mul (left ! (row * k + inner)) (right ! (inner * n + c))) else v) v"
      by (intro loop_cong)
    moreover have "loop k (\<lambda>inner v. v) v = v" by (induction k) simp_all
    ultimately show "loop k (\<lambda>inner. loop n (?g row inner)) v = (if row = r
      then loop k (\<lambda>inner v. f32_add v (f32_mul (left ! (r * k + inner)) (right ! (inner * n + c)))) v
      else v)" by simp
  qed
  also have "\<dots> = dot (mat_row k r left) (mat_col k n c right)"
    using r matrix_index_less [OF r c] by (simp add: loop_once mat_row_def mat_col_def dot_loop)
  finally show ?thesis .
qed

lemma transpose_values_nth:
  assumes r: "r < rows" and c: "c < cols"
  shows "transpose_values rows cols input ! (c * rows + r) = input ! (r * cols + c)"
proof -
  have len: "c * rows + r < rows * cols" using matrix_index_less [OF c r] by (simp add: mult.commute)
  have "transpose_values rows cols input ! (c * rows + r) =
      loop rows (\<lambda>row. loop cols (\<lambda>col v. if col * rows + row = c * rows + r
        then input ! (row * cols + col) else v)) (replicate (rows * cols) f32_zero ! (c * rows + r))"
    unfolding transpose_values_def
    using len by (intro loop_nth) (simp_all add: length_loop update_nth)
  also have "\<dots> = loop rows (\<lambda>row. loop cols (\<lambda>col v. if row * cols + col = r * cols + c
        then input ! (row * cols + col) else v)) (replicate (rows * cols) f32_zero ! (c * rows + r))"
    using r c by (intro loop_cong) (auto simp: matrix_index_eq)
  finally show ?thesis
    using loop_matrix_once [OF r c, of "\<lambda>row col v. input ! (row * cols + col)"] by simp
qed

lemma transpose_values_twice:
  assumes "length input = rows * cols"
  shows "transpose_values cols rows (transpose_values rows cols input) = input"
proof (rule nth_equalityI)
  show "length (transpose_values cols rows (transpose_values rows cols input)) = length input"
    using assms by (simp add: mult.commute)
  fix k assume "k < length (transpose_values cols rows (transpose_values rows cols input))"
  then have k: "k < rows * cols" by (simp add: mult.commute)
  define r c where "r = k div cols" and "c = k mod cols"
  have "0 < cols" using k by (cases cols) auto
  then have rc: "k = r * cols + c" "r < rows" "c < cols"
    using k by (simp_all add: r_def c_def less_mult_imp_div_less)
  show "transpose_values cols rows (transpose_values rows cols input) ! k = input ! k"
    using transpose_values_nth [OF rc(3,2), of "transpose_values rows cols input"]
      transpose_values_nth [OF rc(2,3), of input] rc(1) by simp
qed

end
