(* ===== verification/Cpu_Backend.thy ===== *)
theory Cpu_Backend
  imports Autograd_Graph Kernels
begin

text \<open>
  The backend interface (\<open>native/src/backends/backend.h\<close>), the CPU backend that implements it
  (\<open>native/src/backends/cpu/cpu_backend.cc\<close>), and the selection of a backend
  (\<open>native/src/runtime/dispatcher.cc\<close>, \<open>device_codec.cc\<close>) in the core-only build.

  \<open>yields\<close> is what a tensor operation promises: on every exit the heap is well formed and nothing
  that existed has changed; on success there is one new tensor, with the stated dimensions,
  logical values and graph node.  The locale \<open>backend_contract\<close> collects these promises for a
  backend, and \<open>CpuBackend\<close> is shown to meet them.
\<close>

section \<open>The interface\<close>

record backend =
  be_FromData :: "shape_info \<Rightarrow> f32 list option \<Rightarrow> (heap, tensor_ref) run"
  be_Full :: "shape_info \<Rightarrow> f32 \<Rightarrow> (heap, tensor_ref) run"
  be_Reshape :: "tensor_ref \<Rightarrow> shape_info \<Rightarrow> (heap, tensor_ref) run"
  be_Transpose2D :: "tensor_ref \<Rightarrow> (heap, tensor_ref) run"
  be_Add :: "tensor_ref \<Rightarrow> tensor_ref \<Rightarrow> (heap, tensor_ref) run"
  be_Multiply :: "tensor_ref \<Rightarrow> tensor_ref \<Rightarrow> (heap, tensor_ref) run"
  be_Sum :: "tensor_ref \<Rightarrow> (heap, tensor_ref) run"
  be_Matmul :: "tensor_ref \<Rightarrow> tensor_ref \<Rightarrow> (heap, tensor_ref) run"

section \<open>The CPU backend\<close>

definition MakeTensor :: "shape_info \<Rightarrow> nat \<Rightarrow> (heap, tensor_ref) run" where
  "MakeTensor shape storage =
     bindE (getE (\<lambda>h. length (cpu_values (storages h ! storage)))) (\<lambda>storage_numel.
     case ValidateShape (dims_pointer (dimensions shape)) (length (dimensions shape)) of
       Inl _ \<Rightarrow> failE (InternalError
         ''cpu backend: materialized tensor shape/storage contract is invalid'')
     | Inr materialized_shape \<Rightarrow>
         bindE (checkE (numel materialized_shape = numel shape \<and> storage_numel = numel shape)
           (InternalError ''cpu backend: materialized tensor shape/storage contract is invalid''))
           (\<lambda>_. allocation_guard ''cpu backend tensor''
             (new_cpu_tensor materialized_shape storage)))"

definition MakeView :: "shape_info \<Rightarrow> tensor_ref \<Rightarrow> (heap, tensor_ref) run" where
  "MakeView shape source =
     bindE (getE (\<lambda>h. tensor_at h source)) (\<lambda>t.
     allocation_guard ''cpu backend view''
       (new_tensor shape (t_storage t) (t_dtype t) (t_device t) (t_device_index t) (t_offset t)
          (Some (t_version_counter t))))"

definition backend_EnsureCpuFloat32 :: "tensor \<Rightarrow> string \<Rightarrow> status + unit" where
  "backend_EnsureCpuFloat32 = ensure_cpu_float32 '': CPU backend requires cpu:0''
     '': only float32 is supported''"

definition LogicalValues :: "tensor_ref \<Rightarrow> string \<Rightarrow> (heap, f32 list) run" where
  "LogicalValues = read_values backend_EnsureCpuFloat32"

definition ensure_ref :: "tensor_ref \<Rightarrow> string \<Rightarrow> (heap, unit) run" where
  "ensure_ref r operation =
     bindE (getE (\<lambda>h. tensor_at h r)) (\<lambda>t. statusE (backend_EnsureCpuFloat32 t operation))"

text \<open>
  The end of an operation that computes a new vector: a zero-filled storage of \<open>n\<close> values, its
  values overwritten by the loop, the tensor.
\<close>

definition store_result :: "shape_info \<Rightarrow> nat \<Rightarrow> (nat \<Rightarrow> f32 list) \<Rightarrow> (heap, tensor_ref) run" where
  "store_result shape n values =
     bindE (CpuStorage_Filled n f32_zero) (\<lambda>storage.
     bindE (write_values storage (values n)) (\<lambda>_.
     MakeTensor shape storage))"

definition CpuBackend_FromData :: "shape_info \<Rightarrow> f32 list option \<Rightarrow> (heap, tensor_ref) run" where
  "CpuBackend_FromData shape data =
     bindE (CpuStorage_FromData data (numel shape)) (\<lambda>storage. MakeTensor shape storage)"

definition CpuBackend_Full :: "shape_info \<Rightarrow> f32 \<Rightarrow> (heap, tensor_ref) run" where
  "CpuBackend_Full shape x =
     bindE (CpuStorage_Filled (numel shape) x) (\<lambda>storage. MakeTensor shape storage)"

definition CpuBackend_Reshape :: "tensor_ref \<Rightarrow> shape_info \<Rightarrow> (heap, tensor_ref) run" where
  "CpuBackend_Reshape r shape =
     bindE (ensure_ref r ''reshape'') (\<lambda>_.
     bindE (getE (\<lambda>h. tensor_at h r)) (\<lambda>t.
     bindE (checkE (numel_of t = numel shape)
       (InvalidShape ''reshape: target shape must preserve element count'')) (\<lambda>_.
     bindE (if is_contiguous t then MakeView shape r
            else bindE (LogicalValues r ''reshape'') (\<lambda>values.
                 bindE (CpuStorage_FromData (Some values) (numel_of t)) (\<lambda>storage.
                 MakeTensor shape storage))) (\<lambda>out.
     bindE (RecordUnary kReshape r out) (\<lambda>_. returnE out)))))"

definition swap01 :: "'a list \<Rightarrow> 'a list" where
  "swap01 xs = xs[0 := xs ! 1, 1 := xs ! 0]"

definition CpuBackend_Transpose2D :: "tensor_ref \<Rightarrow> (heap, tensor_ref) run" where
  "CpuBackend_Transpose2D r =
     bindE (ensure_ref r ''transpose'') (\<lambda>_.
     bindE (getE (\<lambda>h. t_shape (tensor_at h r))) (\<lambda>shape.
     bindE (checkE (length (dimensions shape) = 2)
       (InvalidShape ''transpose: Milestone 1 requires a rank-2 tensor'')) (\<lambda>_.
     bindE (MakeView (shape\<lparr>dimensions := swap01 (dimensions shape),
                            strides := swap01 (strides shape)\<rparr>) r) (\<lambda>out.
     bindE (RecordUnary kTranspose2D r out) (\<lambda>_. returnE out)))))"

definition CpuBackend_Add :: "tensor_ref \<Rightarrow> tensor_ref \<Rightarrow> (heap, tensor_ref) run" where
  "CpuBackend_Add left right =
     bindE (ensure_ref left ''add'') (\<lambda>_.
     bindE (ensure_ref right ''add'') (\<lambda>_.
     bindE (getE (\<lambda>h. (t_shape (tensor_at h left), t_shape (tensor_at h right)))) (\<lambda>(ls, rs).
     bindE (checkE (SameShape ls rs)
       (InvalidShape ''add: Milestone 1 elementwise operations require equal shapes'')) (\<lambda>_.
     bindE (LogicalValues left ''add'') (\<lambda>left_values.
     bindE (LogicalValues right ''add'') (\<lambda>right_values.
     bindE (store_result ls (numel ls) (add_values left_values right_values)) (\<lambda>out.
     bindE (RecordBinary kAdd left right out) (\<lambda>_. returnE out))))))))"

definition CpuBackend_Multiply :: "tensor_ref \<Rightarrow> tensor_ref \<Rightarrow> (heap, tensor_ref) run" where
  "CpuBackend_Multiply left right =
     bindE (ensure_ref left ''multiply'') (\<lambda>_.
     bindE (ensure_ref right ''multiply'') (\<lambda>_.
     bindE (getE (\<lambda>h. (t_shape (tensor_at h left), t_shape (tensor_at h right)))) (\<lambda>(ls, rs).
     bindE (checkE (SameShape ls rs)
       (InvalidShape ''multiply: Milestone 1 elementwise operations require equal shapes'')) (\<lambda>_.
     bindE (LogicalValues left ''multiply'') (\<lambda>left_values.
     bindE (LogicalValues right ''multiply'') (\<lambda>right_values.
     bindE (store_result ls (numel ls) (multiply_values left_values right_values)) (\<lambda>out.
     bindE (RecordBinary kMultiply left right out) (\<lambda>_. returnE out))))))))"

definition CpuBackend_Sum :: "tensor_ref \<Rightarrow> (heap, tensor_ref) run" where
  "CpuBackend_Sum r =
     bindE (ensure_ref r ''sum'') (\<lambda>_.
     bindE (LogicalValues r ''sum'') (\<lambda>input.
     bindE (statusE (ValidateShape None 0)) (\<lambda>scalar_shape.
     bindE (CpuStorage_Filled 1 (foldl f32_add f32_zero input)) (\<lambda>storage.
     bindE (MakeTensor scalar_shape storage) (\<lambda>out.
     bindE (RecordUnary kSum r out) (\<lambda>_. returnE out))))))"

definition CpuBackend_Matmul :: "tensor_ref \<Rightarrow> tensor_ref \<Rightarrow> (heap, tensor_ref) run" where
  "CpuBackend_Matmul left right =
     bindE (ensure_ref left ''matmul'') (\<lambda>_.
     bindE (ensure_ref right ''matmul'') (\<lambda>_.
     bindE (getE (\<lambda>h. (dims_of (tensor_at h left), dims_of (tensor_at h right)))) (\<lambda>(ld, rd).
     bindE (checkE (length ld = 2 \<and> length rd = 2)
       (InvalidShape ''matmul: Milestone 1 requires rank-2 tensors'')) (\<lambda>_.
     bindE (checkE (ld ! 1 = rd ! 0) (InvalidShape ''matmul: inner dimensions must match'')) (\<lambda>_.
     bindE (LogicalValues left ''matmul'') (\<lambda>left_values.
     bindE (LogicalValues right ''matmul'') (\<lambda>right_values.
     bindE (statusE (ValidateShape (Some [ld ! 0, rd ! 1]) 2)) (\<lambda>output_shape.
     bindE (store_result output_shape (numel output_shape)
       (\<lambda>_. matmul_values (nat (ld ! 0)) (nat (ld ! 1)) (nat (rd ! 1)) left_values right_values))
       (\<lambda>out. bindE (RecordBinary kMatmul left right out) (\<lambda>_. returnE out))))))))))"

definition CpuBackend :: backend where
  "CpuBackend = \<lparr>be_FromData = CpuBackend_FromData, be_Full = CpuBackend_Full,
     be_Reshape = CpuBackend_Reshape, be_Transpose2D = CpuBackend_Transpose2D,
     be_Add = CpuBackend_Add, be_Multiply = CpuBackend_Multiply, be_Sum = CpuBackend_Sum,
     be_Matmul = CpuBackend_Matmul\<rparr>"

section \<open>Selecting a backend\<close>

text \<open>The core-only build has no LibTorch backend: only \<open>cpu\<close> is supported.\<close>

definition Dispatcher_For :: "device \<Rightarrow> status + backend" where
  "Dispatcher_For d =
     (if d = kCpu then Inr CpuBackend
      else Inl (Unsupported ''dispatcher: requested device is not supported''))"

definition Dispatcher_ForTensor :: "tensor \<Rightarrow> status + backend" where
  "Dispatcher_ForTensor t = Dispatcher_For (t_device t)"

definition Dispatcher_ForTensors :: "tensor \<Rightarrow> tensor \<Rightarrow> status + backend" where
  "Dispatcher_ForTensors left right =
     (if t_device left \<noteq> t_device right \<or> t_device_index left \<noteq> t_device_index right
      then Inl (InvalidArgument ''dispatcher: input tensors must use the same device'')
      else Dispatcher_For (t_device left))"

definition TS_DEVICE_CPU :: nat where "TS_DEVICE_CPU = 1"
definition TS_DEVICE_CUDA :: nat where "TS_DEVICE_CUDA = 2"
definition TS_DEVICE_MPS :: nat where "TS_DEVICE_MPS = 3"
definition TS_DEVICE_XPU :: nat where "TS_DEVICE_XPU = 4"
definition TS_DEVICE_HIP :: nat where "TS_DEVICE_HIP = 5"

lemmas device_codes = TS_DEVICE_CPU_def TS_DEVICE_CUDA_def TS_DEVICE_MPS_def TS_DEVICE_XPU_def
  TS_DEVICE_HIP_def

definition DeviceFromCode :: "nat \<Rightarrow> status + device" where
  "DeviceFromCode code =
     (if code = TS_DEVICE_CPU then Inr kCpu
      else if code = TS_DEVICE_CUDA then Inr kCuda
      else if code = TS_DEVICE_MPS then Inr kMps
      else if code = TS_DEVICE_XPU then Inr kXpu
      else if code = TS_DEVICE_HIP then Inr kHip
      else Inl (Unsupported ''device: unknown device kind''))"

lemma Dispatcher_For_Inr: "Dispatcher_For d = Inr b \<longleftrightarrow> d = kCpu \<and> b = CpuBackend"
  by (auto simp: Dispatcher_For_def)

lemma Dispatcher_layout_ok:
  "layout_ok h t \<Longrightarrow> Dispatcher_ForTensor t = Inr CpuBackend"
  "layout_ok h t \<Longrightarrow> layout_ok h t' \<Longrightarrow> Dispatcher_ForTensors t t' = Inr CpuBackend"
  by (simp_all add: Dispatcher_ForTensor_def Dispatcher_ForTensors_def Dispatcher_For_def
      layout_ok_def)

section \<open>What an operation promises\<close>

definition new_tensor_at :: "heap \<Rightarrow> heap \<Rightarrow> tensor" where
  "new_tensor_at h h' = tensor_at h' (length (tensors h))"

text \<open>\<open>srcs\<close> are the tensors whose storage the result may share.\<close>

definition makes_tensor :: "heap \<Rightarrow> tensor_ref list \<Rightarrow> int list \<Rightarrow> f32 list \<Rightarrow> autograd_meta option \<Rightarrow>
    heap \<Rightarrow> bool" where
  "makes_tensor h srcs d vs meta h' \<longleftrightarrow>
     length (tensors h') = Suc (length (tensors h)) \<and>
     dims_of (new_tensor_at h h') = d \<and>
     logical_values h' (new_tensor_at h h') = vs \<and>
     t_meta (new_tensor_at h h') = meta \<and>
     (length (storages h) \<le> t_storage (new_tensor_at h h') \<or>
      (\<exists>p \<in> set srcs. t_storage (new_tensor_at h h') = t_storage (tensor_at h p)))"

text \<open>
  At most one tensor is created, also by a call that fails; it has a storage of its own or is a view
  that shares storage and version counter with a source, and its metadata is at most the recorded
  node.
\<close>

definition shares_with :: "heap \<Rightarrow> tensor_ref list \<Rightarrow> tensor \<Rightarrow> bool" where
  "shares_with h srcs t \<longleftrightarrow> length (storages h) \<le> t_storage t \<or>
     (\<exists>p \<in> set srcs. t_storage t = t_storage (tensor_at h p) \<and>
        t_version_counter t = t_version_counter (tensor_at h p))"

definition may_add :: "heap \<Rightarrow> tensor_ref list \<Rightarrow> autograd_meta option \<Rightarrow> heap \<Rightarrow> bool" where
  "may_add h srcs meta h' \<longleftrightarrow> tensors h' = tensors h \<or>
     length (tensors h') = Suc (length (tensors h)) \<and> shares_with h srcs (new_tensor_at h h') \<and>
     (t_meta (new_tensor_at h h') = None \<or> t_meta (new_tensor_at h h') = meta)"

definition yields :: "heap \<Rightarrow> tensor_ref list \<Rightarrow> int list \<Rightarrow> f32 list \<Rightarrow> autograd_meta option \<Rightarrow>
    (fault + tensor_ref) \<times> heap \<Rightarrow> bool" where
  "yields h srcs d vs meta x \<longleftrightarrow>
     wf_heap (snd x) \<and> heap_extends h (snd x) \<and> may_add h srcs meta (snd x) \<and>
     (case fst x of
        Inl _ \<Rightarrow> True
      | Inr r \<Rightarrow> r = length (tensors h) \<and> makes_tensor h srcs d vs meta (snd x))"

lemma yieldsD:
  assumes "yields h srcs d vs meta (res, h')"
  shows "wf_heap h'" "heap_extends h h'" "may_add h srcs meta h'"
    "res = Inr r \<Longrightarrow> r = length (tensors h)" "res = Inr r \<Longrightarrow> makes_tensor h srcs d vs meta h'"
  using assms by (auto simp: yields_def)

lemma yields_fault: "wf_heap h' \<Longrightarrow> heap_extends h h' \<Longrightarrow> may_add h srcs meta h' \<Longrightarrow>
    yields h srcs d vs meta (Inl f, h')"
  by (simp add: yields_def)

lemma yields_quiet_fault: "wf_heap h \<Longrightarrow> quietly h h' \<Longrightarrow> yields h srcs d vs meta (Inl f, h')"
  using wf_heap_quietly [of h h'] by (simp add: yields_def quietly_def may_add_def)

lemma record_meta_quiet:
  assumes "wf_heap h" and "quietly h h'" and "\<forall>p \<in> set ps. p < length (tensors h)"
  shows "record_meta h' op ps = record_meta h op ps"
proof -
  have t: "tensors h' = tensors h" and e: "heap_extends h h'" using assms(2) by (simp_all add: quietly_def)
  have "tensor_version h' p = tensor_version h p" if "p \<in> set ps" for p
  proof -
    have "t_version_counter (tensor_at h p) < length (counters h)"
      using wf_heap_layout [OF assms(1)] assms(3) that by (simp add: layout_ok_def)
    then show ?thesis using t heap_extends_nth(2) [OF e] by (simp add: tensor_version_def)
  qed
  moreover have "RequiresGrad h' = RequiresGrad h" using t by (simp add: RequiresGrad_def fun_eq_iff)
  ultimately show ?thesis by (auto simp: record_meta_def cong: map_cong)
qed

lemma yields_quiet:
  assumes "quietly h h1" and "yields h1 srcs d vs meta x"
  shows "yields h srcs d vs meta x"
proof -
  have t: "tensors h1 = tensors h" and e: "heap_extends h h1" using assms(1) by (simp_all add: quietly_def)
  have "length (storages h) \<le> length (storages h1)" using heap_extends_lengths [OF e] by simp
  then show ?thesis
    using assms(2) t e ext.frame_trans [OF e]
    by (auto simp: yields_def makes_tensor_def new_tensor_at_def may_add_def shares_with_def
        split: sum.splits)
qed

lemma yields_bind:
  assumes "wf_heap h" and "keeps quietly m"
    and "\<And>a h1. m h = (Inr a, h1) \<Longrightarrow> quietly h h1 \<Longrightarrow> wf_heap h1 \<Longrightarrow>
          yields h srcs d vs meta (f a h1)"
  shows "yields h srcs d vs meta (bindE m f h)"
proof -
  obtain r h1 where m: "m h = (r, h1)" by force
  have q: "quietly h h1" using keepsD [OF assms(2) m] .
  show ?thesis
  proof (cases r)
    case (Inl e)
    then show ?thesis using m yields_quiet_fault [OF assms(1) q] by (simp add: bindE_def)
  next
    case (Inr a)
    then show ?thesis
      using m assms(3) q wf_heap_quietly [OF assms(1) q] by (simp add: bindE_def)
  qed
qed

lemma yields_read:
  assumes "wf_heap h" and "r < length (tensors h)"
    and "\<And>h1. quietly h h1 \<Longrightarrow> wf_heap h1 \<Longrightarrow>
          yields h1 srcs d vs meta (f (logical_values h (tensor_at h r)) h1)"
  shows "yields h srcs d vs meta (bindE (read_values ensure r op) f h)"
  using assms(1) quiet_read_values
proof (rule yields_bind)
  fix a h1 assume run: "read_values ensure r op h = (Inr a, h1)" and q: "quietly h h1" and "wf_heap h1"
  then show "yields h srcs d vs meta (f a h1)"
    using assms(3) read_values_Inr(1) [OF wf_heap_layout [OF assms(1,2)] run] yields_quiet [OF q]
    by simp
qed

lemma yields_check:
  assumes "wf_heap h" and "b \<Longrightarrow> yields h srcs d vs meta (f () h)"
  shows "yields h srcs d vs meta (bindE (checkE b st) f h)"
  using assms by (simp add: yields_quiet_fault quiet.frame_refl)

lemma yields_get: "yields h srcs d vs meta (f (g h) h) \<Longrightarrow> yields h srcs d vs meta (bindE (getE g) f h)"
  by simp

lemma quiet_logical_values:
  assumes "wf_heap h" and "quietly h h1" and "r < length (tensors h)"
  shows "logical_values h1 (tensor_at h1 r) = logical_values h (tensor_at h r)"
proof -
  have "t_storage (tensor_at h r) < length (storages h)"
    using wf_heap_layout [OF assms(1,3)] by (simp add: layout_ok_def)
  then show ?thesis using assms(2) by (simp add: quietly_def logical_values_ext)
qed

lemma ensure_ref_ok:
  "wf_heap h \<Longrightarrow> r < length (tensors h) \<Longrightarrow> ensure_ref r op h = (Inr (), h)"
  using wf_heap_layout [of h r]
  by (simp add: ensure_ref_def backend_EnsureCpuFloat32_def ensure_cpu_float32_def layout_ok_def
      exec_simps)

lemma yields_ensure:
  assumes "wf_heap h" and "r < length (tensors h)" and "yields h srcs d vs meta (f () h)"
  shows "yields h srcs d vs meta (bindE (ensure_ref r op) f h)"
  using assms by (simp add: bindE_def ensure_ref_ok)

text \<open>The last step of every operation: the node is attached to the new tensor.\<close>

lemma yields_attach:
  assumes wf: "wf_heap h" and app: "appends h h1 tn ss cs" and lay: "layout_ok h1 tn"
    and none: "t_meta tn = None" and ps: "\<forall>p \<in> set ps. p < length (tensors h)"
    and dims: "node_dims_ok op (map (\<lambda>p. dims_of (tensor_at h p)) ps) (dims_of tn)"
    and vals: "logical_values h1 tn = vs"
    and store: "shares_with h srcs tn"
  shows "yields h srcs (dims_of tn) vs (record_meta h op ps)
    (bindE (AttachNode (length (tensors h)) op ps) (\<lambda>_. returnE (length (tensors h))) h1)"
proof -
  obtain res h2 where run: "AttachNode (length (tensors h)) op ps h1 = (res, h2)" by force
  note at = attach_new [OF wf app lay none ps dims run]
  show ?thesis
  proof (cases res)
    case (Inl f)
    then have "may_add h srcs (record_meta h op ps) h2"
      using at(3) at(5) store none by (simp add: may_add_def new_tensor_at_def)
    then show ?thesis using at(1,2) run Inl by (simp add: bindE_def yields_fault)
  next
    case (Inr u)
    have app2: "appends h h2 (tn\<lparr>t_meta := record_meta h op ps\<rparr>) ss cs" using at(4) Inr by simp
    have new: "new_tensor_at h h2 = tn\<lparr>t_meta := record_meta h op ps\<rparr>"
      using app2 by (simp add: new_tensor_at_def)
    have "storages h2 = storages h1" using app app2 by (simp add: appends_def)
    then have "logical_values h2 (new_tensor_at h h2) = vs"
      using vals unfolding new by (simp add: logical_values_def logical_storage_index_def)
    then show ?thesis
      using at(1-3) run Inr store
      by (auto simp: bindE_def yields_def makes_tensor_def may_add_def shares_with_def new exec_simps)
  qed
qed

section \<open>Materialized results\<close>

lemma MakeTensor_cases:
  assumes run: "MakeTensor sh st h = (res, h')" and i64: "i64_array (dimensions sh)"
    and st: "storages h = storages h0 @ [CpuStorage vs]" "st = length (storages h0)"
      "counters h = counters h0" "tensors h = tensors h0"
  obtains (failed) f where "res = Inl f" "quietly h0 h'"
  | (made) "res = Inr (length (tensors h0))" "valid_dims (dimensions sh)"
      "length vs = dims_prod (dimensions sh)"
      "adds_tensor h0 h' (canonical_shape (dimensions sh)) vs None"
proof -
  have q0: "quietly h0 h" using st by (simp add: quietly_def heap_extends_def)
  show thesis
  proof (cases "ValidateShape (dims_pointer (dimensions sh)) (length (dimensions sh))")
    case (Inl e)
    then show thesis using run q0 by (intro failed) (auto simp: MakeTensor_def exec_simps)
  next
    case (Inr sh')
    note canon = ValidateShape_pointer_Inr [OF Inr i64]
    show thesis
    proof (cases "numel sh' = numel sh \<and> length vs = numel sh")
      case False
      then show thesis
        using run q0 Inr st by (intro failed) (auto simp: MakeTensor_def exec_simps)
    next
      case True
      then have g: "allocation_guard ''cpu backend tensor'' (new_cpu_tensor sh' st) h = (res, h')"
        using run Inr st by (simp add: MakeTensor_def exec_simps)
      show thesis
      proof (cases res)
        case (Inl f)
        then show thesis
          using failed guarded_new_cpu_tensor_Inl g quiet.frame_trans [OF q0] by blast
      next
        case r: (Inr r)
        then have "new_cpu_tensor sh' (length (storages h0)) h = (Inr r, h')" using g st by simp
        note adds = new_cpu_tensor_adds [OF this st(1,3,4)]
        show thesis
          using made adds canon True r by (simp add: canonical_shape_def)
      qed
    qed
  qed
qed

text \<open>A computed vector of the right length, stored and recorded.\<close>

lemma yields_made:
  assumes wf: "wf_heap h" and adds: "adds_tensor h h1 (canonical_shape d) vs None"
    and valid: "valid_dims d" and len: "length vs = dims_prod d"
    and ps: "\<forall>p \<in> set ps. p < length (tensors h)"
    and dims: "node_dims_ok op (map (\<lambda>p. dims_of (tensor_at h p)) ps) d"
  shows "yields h srcs d vs (record_meta h op ps)
    (bindE (AttachNode (length (tensors h)) op ps) (\<lambda>_. returnE (length (tensors h))) h1)"
proof -
  let ?tn = "fresh_tensor (canonical_shape d) (length (storages h)) (length (counters h))"
  obtain ident where app: "appends h h1 ?tn [CpuStorage vs] [\<lparr>vc_value = 0, vc_identity = ident\<rparr>]"
    using adds by (auto simp: adds_tensor_def fresh_tensor_def)
  have lay: "layout_ok h1 ?tn"
    using adds_tensor_layout [OF adds shape_ok_canonical [OF valid]] len appends_new [OF app] by simp
  have "logical_values h1 ?tn = vs"
    using adds_tensor_values [OF adds valid len] appends_new [OF app] by simp
  then show ?thesis
    using yields_attach [OF wf app lay _ ps, of op vs srcs] dims by (simp add: shares_with_def)
qed

lemma yields_MakeTensor:
  assumes wf: "wf_heap h" and dims: "dimensions sh = d"
    and h1: "storages h1 = storages h @ [CpuStorage vs]" "counters h1 = counters h"
      "tensors h1 = tensors h"
    and valid: "valid_dims d" and ps: "\<forall>p \<in> set ps. p < length (tensors h)"
    and ok: "node_dims_ok op (map (\<lambda>p. dims_of (tensor_at h p)) ps) d"
    and cont: "\<And>out. f out = bindE (AttachNode out op ps) (\<lambda>_. returnE out)"
  shows "yields h srcs d vs (record_meta h op ps) (bindE (MakeTensor sh (length (storages h))) f h1)"
proof -
  obtain res h2 where run: "MakeTensor sh (length (storages h)) h1 = (res, h2)" by force
  have i64: "i64_array (dimensions sh)" using valid dims by (simp add: valid_dims_i64)
  from run i64 h1(1) refl h1(2,3) show ?thesis
  proof (cases rule: MakeTensor_cases)
    case (failed e)
    then show ?thesis using run wf by (simp add: bindE_def yields_quiet_fault)
  next
    case made
    then show ?thesis
      using run dims yields_made [OF wf _ valid _ ps ok] by (simp add: bindE_def cont)
  qed
qed

lemma yields_store_result:
  assumes wf: "wf_heap h" and dims: "dimensions sh = d" and valid: "valid_dims d"
    and ps: "\<forall>p \<in> set ps. p < length (tensors h)"
    and ok: "node_dims_ok op (map (\<lambda>p. dims_of (tensor_at h p)) ps) d"
    and cont: "\<And>out. f out = bindE (AttachNode out op ps) (\<lambda>_. returnE out)"
  shows "yields h srcs d (values n) (record_meta h op ps) (bindE (store_result sh n values) f h)"
proof -
  obtain r1 h1 where fl: "CpuStorage_Filled n f32_zero h = (r1, h1)" by force
  have q: "quietly h h1" using keepsD [OF quiet_Filled fl] .
  show ?thesis
  proof (cases r1)
    case (Inl e)
    then show ?thesis
      using fl yields_quiet_fault [OF wf q] by (simp add: store_result_def bindE_assoc exec_simps)
  next
    case (Inr st)
    note s1 = CpuStorage_Filled_Inr [OF fl [unfolded Inr]]
    let ?h2 = "h1\<lparr>storages := storages h @ [CpuStorage (values n)]\<rparr>"
    have "bindE (store_result sh n values) f h = bindE (MakeTensor sh (length (storages h))) f ?h2"
      using fl Inr s1 by (simp add: store_result_def bindE_assoc exec_simps write_values_def)
    then show ?thesis
      using yields_MakeTensor [OF wf dims, of ?h2 "values n"] s1 valid ps ok cont by simp
  qed
qed

lemma yields_FromData:
  assumes wf: "wf_heap h" and dims: "dimensions sh = d" and valid: "valid_dims d"
    and ps: "\<forall>p \<in> set ps. p < length (tensors h)"
    and ok: "node_dims_ok op (map (\<lambda>p. dims_of (tensor_at h p)) ps) d"
    and cont: "\<And>out. f out = bindE (AttachNode out op ps) (\<lambda>_. returnE out)"
  shows "yields h srcs d (take n vs) (record_meta h op ps)
    (bindE (CpuStorage_FromData (Some vs) n) (\<lambda>st. bindE (MakeTensor sh st) f) h)"
proof -
  obtain r1 h1 where fd: "CpuStorage_FromData (Some vs) n h = (r1, h1)" by force
  have q: "quietly h h1" using keepsD [OF quiet_FromData fd] .
  show ?thesis
  proof (cases r1)
    case (Inl e)
    then show ?thesis using fd yields_quiet_fault [OF wf q] by (simp add: exec_simps)
  next
    case (Inr st)
    note s1 = CpuStorage_FromData_Inr [OF fd [unfolded Inr]]
    show ?thesis
      using fd Inr s1 yields_MakeTensor [OF wf dims, of h1 "take n vs"] valid ps ok cont
      by (simp add: exec_simps)
  qed
qed

lemma yields_made_plain:
  assumes "wf_heap h" and "adds_tensor h h1 (canonical_shape d) vs None"
    and "valid_dims d" and "length vs = dims_prod d"
  shows "yields h srcs d vs None (Inr (length (tensors h)), h1)"
  using adds_tensor_wf [OF assms(2,1) shape_ok_canonical [OF assms(3)]] adds_tensor_facts [OF assms(2)]
    adds_tensor_extends [OF assms(2)] adds_tensor_values [OF assms(2,3,4)] assms(4)
  by (simp add: yields_def makes_tensor_def may_add_def shares_with_def new_tensor_at_def)

lemma yields_MakeTensor_plain:
  assumes wf: "wf_heap h" and dims: "dimensions sh = d" and valid: "valid_dims d"
    and h1: "storages h1 = storages h @ [CpuStorage vs]" "counters h1 = counters h"
      "tensors h1 = tensors h"
  shows "yields h srcs d vs None (MakeTensor sh (length (storages h)) h1)"
proof -
  obtain res h2 where run: "MakeTensor sh (length (storages h)) h1 = (res, h2)" by force
  have i64: "i64_array (dimensions sh)" using valid dims by (simp add: valid_dims_i64)
  from run i64 h1(1) refl h1(2,3) show ?thesis
  proof (cases rule: MakeTensor_cases)
    case (failed e)
    then show ?thesis using run wf by (simp add: yields_quiet_fault)
  next
    case made
    then show ?thesis using run dims yields_made_plain [OF wf _ valid] by simp
  qed
qed

section \<open>Views\<close>

lemma MakeView_cases:
  assumes "MakeView sh r h = (res, h')"
  obtains (failed) f where "res = Inl f" "quietly h h'"
  | (made) "res = Inr (length (tensors h))"
      "appends h h' ((tensor_at h r)\<lparr>t_shape := sh, t_meta := None\<rparr>) [] []"
proof -
  let ?t = "tensor_at h r"
  let ?body = "new_tensor sh (t_storage ?t) (t_dtype ?t) (t_device ?t) (t_device_index ?t)
    (t_offset ?t) (Some (t_version_counter ?t))"
  have g: "allocation_guard ''cpu backend view'' ?body h = (res, h')"
    using assms by (simp add: MakeView_def)
  show thesis
  proof (cases res)
    case (Inr a)
    then have "?body h = (Inr a, h')" using g by simp
    then show thesis
      using made new_tensor_Inr [of sh "t_storage ?t" _ _ _ _ _ h a h'] Inr
      by (simp add: appends_def)
  next
    case (Inl f)
    obtain r0 where b: "?body h = (r0, h')"
      using g allocation_guard_state [of "''cpu backend view''" ?body h] by (metis prod.collapse snd_conv)
    then show thesis
      using g Inl failed new_tensor_Inl by (cases r0) (auto simp: allocation_guard_def)
  qed
qed

lemma yields_view:
  assumes wf: "wf_heap h" and r: "r < length (tensors h)" and shape: "shape_ok sh"
    and dims: "dimensions sh = d"
    and inside: "extent d (strides sh) (length d) \<le>
      extent (dims_of (tensor_at h r)) (strides (t_shape (tensor_at h r)))
        (length (dims_of (tensor_at h r)))"
    and vals: "\<And>h1. logical_values h ((tensor_at h r)\<lparr>t_shape := sh, t_meta := None\<rparr>) = vs"
    and ok: "node_dims_ok op [dims_of (tensor_at h r)] d"
    and cont: "\<And>out. f out = bindE (AttachNode out op [r]) (\<lambda>_. returnE out)"
  shows "yields h [r] d vs (record_meta h op [r]) (bindE (MakeView sh r) f h)"
proof -
  let ?tn = "(tensor_at h r)\<lparr>t_shape := sh, t_meta := None\<rparr>"
  obtain res h1 where run: "MakeView sh r h = (res, h1)" by force
  then show ?thesis
  proof (cases rule: MakeView_cases)
    case (failed e)
    then show ?thesis using run wf by (simp add: bindE_def yields_quiet_fault)
  next
    case made
    note e1 = appends_extends [OF made(2)]
    have "layout_ok h ?tn"
      using wf_heap_layout [OF wf r] shape dims inside by (auto simp: layout_ok_def)
    then have lay: "layout_ok h1 ?tn" using e1 by (rule layout_ok_ext)
    have "storages h1 = storages h" using made(2) by (simp add: appends_def)
    then have "logical_values h1 ?tn = vs" using vals by (simp add: logical_values_def)
    then have "yields h [r] (dims_of ?tn) vs (record_meta h op [r])
        (bindE (AttachNode (length (tensors h)) op [r]) (\<lambda>_. returnE (length (tensors h))) h1)"
      using r ok dims by (intro yields_attach [OF wf made(2) lay]) (simp_all add: shares_with_def)
    then show ?thesis using run made(1) dims by (simp add: bindE_def cont)
  qed
qed

text \<open>A contiguous tensor reshaped in place has the same logical values.\<close>

lemma contiguous_extent:
  assumes "layout_ok h t" and "is_contiguous t"
  shows "numel_of t - 1 \<le> extent (dims_of t) (strides (t_shape t)) (length (dims_of t))"
proof -
  have pos: "0 < numel_of t" using assms(1) by (rule layout_ok_numel_pos)
  have "logical_storage_index t (numel_of t - 1) = t_offset t + (numel_of t - 1)"
    using contiguous_index [OF assms] pos by simp
  moreover have "plain_index (dims_of t) (strides (t_shape t)) (length (dims_of t)) (numel_of t - 1) \<le>
      extent (dims_of t) (strides (t_shape t)) (length (dims_of t))"
    using layout_ok_valid [OF assms(1)] by (intro plain_index_le_extent) (auto simp: valid_dims_def)
  ultimately show ?thesis using layout_ok_index_plain [OF assms(1)] by simp
qed

lemma canonical_extent: "valid_dims d \<Longrightarrow> extent d (row_major d) (length d) = dims_prod d - 1"
  using row_major_extent [of d "length d"] by (auto simp: valid_dims_def)

lemma reshape_logical_values:
  assumes lay: "layout_ok h t" and cont: "is_contiguous t" and valid: "valid_dims d"
    and eq: "numel_of t = dims_prod d"
  shows "logical_values h (t\<lparr>t_shape := canonical_shape d, t_meta := None\<rparr>) = logical_values h t"
proof -
  let ?v = "t\<lparr>t_shape := canonical_shape d, t_meta := None\<rparr>"
  have "extent d (row_major d) (length d) \<le> extent (dims_of t) (strides (t_shape t)) (length (dims_of t))"
    using contiguous_extent [OF lay cont] canonical_extent [OF valid] eq by simp
  then have lv: "layout_ok h ?v"
    using lay shape_ok_canonical [OF valid] by (auto simp: layout_ok_def)
  have cv: "is_contiguous ?v"
    using valid by (simp add: is_contiguous_def row_major_is_contiguous del: One_nat_def)
  have "logical_storage_index ?v i = logical_storage_index t i" if "i < numel_of t" for i
    using contiguous_index [OF lv cv] contiguous_index [OF lay cont] that eq by simp
  then show ?thesis using eq by (simp add: logical_values_def)
qed

section \<open>The operations of the CPU backend\<close>

lemma node_dims_quiet:
  assumes "quietly h h1"
  shows "map (\<lambda>p. dims_of (tensor_at h1 p)) ps = map (\<lambda>p. dims_of (tensor_at h p)) ps"
  using assms by (simp add: quietly_def)

lemma SameShape_iff: "SameShape a b \<longleftrightarrow> dimensions a = dimensions b"
  by (simp add: SameShape_def)

lemma yields_binary_values:
  assumes wf: "wf_heap h" and l: "l < length (tensors h)" and r: "r < length (tensors h)"
    and same: "dims_of (tensor_at h l) = dims_of (tensor_at h r)" and op: "op \<in> {kAdd, kMultiply}"
  shows "yields h [] (dims_of (tensor_at h l))
    (values (logical_values h (tensor_at h l)) (logical_values h (tensor_at h r))
      (numel_of (tensor_at h l)))
    (record_meta h op [l, r])
    (bindE (LogicalValues l name) (\<lambda>left_values.
     bindE (LogicalValues r name) (\<lambda>right_values.
     bindE (store_result (t_shape (tensor_at h l)) (numel_of (tensor_at h l))
       (values left_values right_values)) (\<lambda>out.
     bindE (RecordBinary op l r out) (\<lambda>_. returnE out)))) h)"
  unfolding LogicalValues_def
proof (rule yields_read [OF wf l])
  fix h1 assume q1: "quietly h h1" and wf1: "wf_heap h1"
  have t1: "tensors h1 = tensors h" using q1 by (simp add: quietly_def)
  have r1: "r < length (tensors h1)" using r t1 by simp
  let ?lv = "logical_values h (tensor_at h l)" and ?rv = "logical_values h (tensor_at h r)"
  show "yields h1 [] (dims_of (tensor_at h l)) (values ?lv ?rv (numel_of (tensor_at h l)))
      (record_meta h op [l, r])
      (bindE (read_values backend_EnsureCpuFloat32 r name) (\<lambda>right_values.
        bindE (store_result (t_shape (tensor_at h l)) (numel_of (tensor_at h l))
          (values ?lv right_values)) (\<lambda>out.
        bindE (RecordBinary op l r out) (\<lambda>_. returnE out))) h1)"
  proof (rule yields_read [OF wf1 r1])
    fix h2 assume q2: "quietly h1 h2" and wf2: "wf_heap h2"
    have q: "quietly h h2" using quiet.frame_trans [OF q1 q2] .
    have t2: "tensors h2 = tensors h" using q by (simp add: quietly_def)
    have meta: "record_meta h2 op [l, r] = record_meta h op [l, r]"
      using l r by (intro record_meta_quiet [OF wf q]) simp
    have rv: "logical_values h1 (tensor_at h1 r) = ?rv" using quiet_logical_values [OF wf q1 r] .
    have "valid_dims (dims_of (tensor_at h l))"
      using layout_ok_valid [OF wf_heap_layout [OF wf l]] .
    then have "yields h2 [] (dims_of (tensor_at h l)) (values ?lv ?rv (numel_of (tensor_at h l)))
        (record_meta h2 op [l, r])
        (bindE (store_result (t_shape (tensor_at h l)) (numel_of (tensor_at h l)) (values ?lv ?rv))
          (\<lambda>out. bindE (RecordBinary op l r out) (\<lambda>_. returnE out)) h2)"
      using l r t2 same op
      by (intro yields_store_result [OF wf2]) (auto simp: two_parents_def record_simps)
    then show "yields h2 [] (dims_of (tensor_at h l)) (values ?lv ?rv (numel_of (tensor_at h l)))
        (record_meta h op [l, r])
        (bindE (store_result (t_shape (tensor_at h l)) (numel_of (tensor_at h l))
          (values ?lv (logical_values h1 (tensor_at h1 r))))
          (\<lambda>out. bindE (RecordBinary op l r out) (\<lambda>_. returnE out)) h2)"
      by (simp add: rv meta)
  qed
qed

lemma Add_yields:
  assumes wf: "wf_heap h" and l: "l < length (tensors h)" and r: "r < length (tensors h)"
  shows "yields h [] (dims_of (tensor_at h l))
    (map2 f32_add (logical_values h (tensor_at h l)) (logical_values h (tensor_at h r)))
    (record_meta h kAdd [l, r]) (CpuBackend_Add l r h)"
proof (cases "dims_of (tensor_at h l) = dims_of (tensor_at h r)")
  case True
  then have "numel_of (tensor_at h l) = numel_of (tensor_at h r)"
    using layout_ok_numel [OF wf_heap_layout [OF wf l]] layout_ok_numel [OF wf_heap_layout [OF wf r]]
    by simp
  then show ?thesis
    using yields_binary_values [OF wf l r True, of kAdd add_values "''add''"] wf l r True
    by (simp add: CpuBackend_Add_def bindE_Inr_run ensure_ref_ok SameShape_iff add_values_map2)
qed (use wf l r in \<open>simp add: CpuBackend_Add_def bindE_Inr_run ensure_ref_ok SameShape_iff
  yields_quiet_fault quiet.frame_refl\<close>)

lemma Multiply_yields:
  assumes wf: "wf_heap h" and l: "l < length (tensors h)" and r: "r < length (tensors h)"
  shows "yields h [] (dims_of (tensor_at h l))
    (map2 f32_mul (logical_values h (tensor_at h l)) (logical_values h (tensor_at h r)))
    (record_meta h kMultiply [l, r]) (CpuBackend_Multiply l r h)"
proof (cases "dims_of (tensor_at h l) = dims_of (tensor_at h r)")
  case True
  then have "numel_of (tensor_at h l) = numel_of (tensor_at h r)"
    using layout_ok_numel [OF wf_heap_layout [OF wf l]] layout_ok_numel [OF wf_heap_layout [OF wf r]]
    by simp
  then show ?thesis
    using yields_binary_values [OF wf l r True, of kMultiply multiply_values "''multiply''"] wf l r True
    by (simp add: CpuBackend_Multiply_def bindE_Inr_run ensure_ref_ok SameShape_iff
        multiply_values_map2)
qed (use wf l r in \<open>simp add: CpuBackend_Multiply_def bindE_Inr_run ensure_ref_ok SameShape_iff
  yields_quiet_fault quiet.frame_refl\<close>)

lemma FromData_yields:
  assumes wf: "wf_heap h" and valid: "valid_dims d" and len: "length vs = dims_prod d"
  shows "yields h [] d vs None (CpuBackend_FromData (canonical_shape d) (Some vs) h)"
  unfolding CpuBackend_FromData_def
proof (rule yields_bind [OF wf quiet_FromData])
  fix st h1
  assume run: "CpuStorage_FromData (Some vs) (numel (canonical_shape d)) h = (Inr st, h1)"
  note s1 = CpuStorage_FromData_Inr [OF run]
  show "yields h [] d vs None (MakeTensor (canonical_shape d) st h1)"
    unfolding s1(1) using s1 len by (intro yields_MakeTensor_plain [OF wf _ valid]) simp_all
qed

lemma Full_yields:
  assumes wf: "wf_heap h" and valid: "valid_dims d"
  shows "yields h [] d (replicate (dims_prod d) x) None (CpuBackend_Full (canonical_shape d) x h)"
  unfolding CpuBackend_Full_def
proof (rule yields_bind [OF wf quiet_Filled])
  fix st h1 assume run: "CpuStorage_Filled (numel (canonical_shape d)) x h = (Inr st, h1)"
  note s1 = CpuStorage_Filled_Inr [OF run]
  show "yields h [] d (replicate (dims_prod d) x) None (MakeTensor (canonical_shape d) st h1)"
    unfolding s1(1) using s1 by (intro yields_MakeTensor_plain [OF wf _ valid]) simp_all
qed

lemma Sum_yields:
  assumes wf: "wf_heap h" and r: "r < length (tensors h)"
  shows "yields h [] [] [sum_left (logical_values h (tensor_at h r))] (record_meta h kSum [r])
    (CpuBackend_Sum r h)"
proof -
  let ?vs = "logical_values h (tensor_at h r)"
  let ?rest = "\<lambda>input. bindE (CpuStorage_Filled 1 (foldl f32_add f32_zero input)) (\<lambda>storage.
     bindE (MakeTensor (canonical_shape []) storage) (\<lambda>out.
     bindE (RecordUnary kSum r out) (\<lambda>_. returnE out)))"
  have "yields h [] [] [sum_left ?vs] (record_meta h kSum [r])
      (bindE (LogicalValues r ''sum'') ?rest h)"
    unfolding LogicalValues_def
  proof (rule yields_read [OF wf r])
    fix h1 assume q: "quietly h h1" and wf1: "wf_heap h1"
    have t1: "tensors h1 = tensors h" using q by (simp add: quietly_def)
    have meta: "record_meta h1 kSum [r] = record_meta h kSum [r]"
      using r by (intro record_meta_quiet [OF wf q]) simp
    have "yields h1 [] [] [sum_left ?vs] (record_meta h1 kSum [r]) (?rest ?vs h1)"
    proof (rule yields_bind [OF wf1 quiet_Filled])
      fix st h2 assume run: "CpuStorage_Filled 1 (foldl f32_add f32_zero ?vs) h1 = (Inr st, h2)"
      note s2 = CpuStorage_Filled_Inr [OF run]
      show "yields h1 [] [] [sum_left ?vs] (record_meta h1 kSum [r])
          (bindE (MakeTensor (canonical_shape []) st) (\<lambda>out.
            bindE (RecordUnary kSum r out) (\<lambda>_. returnE out)) h2)"
        unfolding s2(1) using s2 r t1
        by (intro yields_MakeTensor [OF wf1])
          (auto simp: sum_left_def one_parent_def record_simps valid_dims_def kMaxTensorRank_def max_numel_def)
    qed
    then show "yields h1 [] [] [sum_left ?vs] (record_meta h kSum [r]) (?rest ?vs h1)"
      by (simp add: meta)
  qed
  then show ?thesis
    using wf r by (simp add: CpuBackend_Sum_def bindE_Inr_run ensure_ref_ok ValidateShape_scalar)
qed

text \<open>The logical values of a product, and of a transpose.\<close>

definition matmul_result :: "heap \<Rightarrow> tensor_ref \<Rightarrow> tensor_ref \<Rightarrow> f32 list" where
  "matmul_result h l r = matmul_values (nat (dims_of (tensor_at h l) ! 0))
     (nat (dims_of (tensor_at h l) ! 1)) (nat (dims_of (tensor_at h r) ! 1))
     (logical_values h (tensor_at h l)) (logical_values h (tensor_at h r))"

lemma Matmul_yields:
  assumes wf: "wf_heap h" and l: "l < length (tensors h)" and r: "r < length (tensors h)"
  shows "yields h [] [dims_of (tensor_at h l) ! 0, dims_of (tensor_at h r) ! 1] (matmul_result h l r)
    (record_meta h kMatmul [l, r]) (CpuBackend_Matmul l r h)"
proof (cases "length (dims_of (tensor_at h l)) = 2 \<and> length (dims_of (tensor_at h r)) = 2 \<and>
    dims_of (tensor_at h l) ! 1 = dims_of (tensor_at h r) ! 0")
  case False
  then show ?thesis using wf l r
    by (auto simp: CpuBackend_Matmul_def bindE_Inr_run ensure_ref_ok yields_quiet_fault quiet.frame_refl)
next
  case True
  let ?lv = "logical_values h (tensor_at h l)" and ?rv = "logical_values h (tensor_at h r)"
  let ?m = "dims_of (tensor_at h l) ! 0" and ?k = "dims_of (tensor_at h l) ! 1"
  let ?n = "dims_of (tensor_at h r) ! 1"
  let ?meta = "record_meta h kMatmul [l, r]"
  let ?tail = "\<lambda>lv rv. bindE (statusE (ValidateShape (Some [?m, ?n]) 2)) (\<lambda>output_shape.
     bindE (store_result output_shape (numel output_shape)
       (\<lambda>_. matmul_values (nat ?m) (nat ?k) (nat ?n) lv rv))
       (\<lambda>out. bindE (RecordBinary kMatmul l r out) (\<lambda>_. returnE out)))"
  have i64: "i64_array [?m, ?n]"
  proof -
    have "i64_array (dims_of (tensor_at h l))" "i64_array (dims_of (tensor_at h r))"
      using layout_ok_valid [OF wf_heap_layout [OF wf]] l r valid_dims_i64 by auto
    then show ?thesis using True by (simp add: i64_array_def)
  qed
  have step: "yields h [] [?m, ?n] (matmul_result h l r) ?meta
      (bindE (LogicalValues l ''matmul'') (\<lambda>lv. bindE (LogicalValues r ''matmul'') (\<lambda>rv. ?tail lv rv)) h)"
    unfolding LogicalValues_def
  proof (rule yields_read [OF wf l])
    fix h1 assume q1: "quietly h h1" and wf1: "wf_heap h1"
    have r1: "r < length (tensors h1)" using r q1 by (simp add: quietly_def)
    show "yields h1 [] [?m, ?n] (matmul_result h l r) ?meta
        (bindE (read_values backend_EnsureCpuFloat32 r ''matmul'') (\<lambda>rv. ?tail ?lv rv) h1)"
    proof (rule yields_read [OF wf1 r1])
      fix h2 assume q2: "quietly h1 h2" and wf2: "wf_heap h2"
      have q: "quietly h h2" using quiet.frame_trans [OF q1 q2] .
      have t2: "tensors h2 = tensors h" using q by (simp add: quietly_def)
      have meta: "record_meta h2 kMatmul [l, r] = ?meta"
        using l r by (intro record_meta_quiet [OF wf q]) simp
      have rv: "logical_values h1 (tensor_at h1 r) = ?rv" using quiet_logical_values [OF wf q1 r] .
      show "yields h2 [] [?m, ?n] (matmul_result h l r) ?meta
          (?tail ?lv (logical_values h1 (tensor_at h1 r)) h2)"
      proof (cases "ValidateShape (Some [?m, ?n]) 2")
        case (Inl e)
        then show ?thesis
          using wf2 by (simp add: bindE_def statusE_run yields_quiet_fault quiet.frame_refl)
      next
        case (Inr sh)
        then have canon: "valid_dims [?m, ?n]" "sh = canonical_shape [?m, ?n]"
          using ValidateShape_pointer_Inr [of "[?m, ?n]" sh] i64
          by (simp_all add: dims_pointer_def numeral_2_eq_2)
        have "yields h2 [] [?m, ?n] (matmul_result h l r) (record_meta h2 kMatmul [l, r])
            (bindE (store_result sh (numel sh) (\<lambda>_. matmul_result h l r))
              (\<lambda>out. bindE (RecordBinary kMatmul l r out) (\<lambda>_. returnE out)) h2)"
          using l r t2 True canon
          by (intro yields_store_result [OF wf2]) (auto simp: two_parents_def record_simps)
        then show ?thesis using Inr by (simp add: meta rv matmul_result_def)
      qed
    qed
  qed
  then show ?thesis
    using wf l r True by (simp add: CpuBackend_Matmul_def bindE_Inr_run ensure_ref_ok)
qed

lemma Reshape_yields:
  assumes wf: "wf_heap h" and r: "r < length (tensors h)" and valid: "valid_dims d"
  shows "yields h [r] d (logical_values h (tensor_at h r)) (record_meta h kReshape [r])
    (CpuBackend_Reshape r (canonical_shape d) h)"
proof (cases "numel_of (tensor_at h r) = dims_prod d")
  case False
  then show ?thesis using wf r
    by (simp add: CpuBackend_Reshape_def bindE_Inr_run ensure_ref_ok yields_quiet_fault quiet.frame_refl)
next
  case eq: True
  note lay = wf_heap_layout [OF wf r]
  let ?t = "tensor_at h r"
  let ?vs = "logical_values h ?t"
  let ?rec = "\<lambda>out. bindE (RecordUnary kReshape r out) (\<lambda>_. returnE out)"
  have prod: "dims_prod (dims_of ?t) = dims_prod d" using layout_ok_numel [OF lay] eq by simp
  show ?thesis
  proof (cases "is_contiguous ?t")
    case True
    have "yields h [r] d ?vs (record_meta h kReshape [r]) (bindE (MakeView (canonical_shape d) r) ?rec h)"
      using shape_ok_canonical [OF valid] contiguous_extent [OF lay True] canonical_extent [OF valid]
        reshape_logical_values [OF lay True valid eq] eq prod
      by (intro yields_view [OF wf r]) (simp_all add: one_parent_def record_simps)
    then show ?thesis
      using wf r eq True by (simp add: CpuBackend_Reshape_def bindE_Inr_run ensure_ref_ok)
  next
    case False
    have "yields h [r] d ?vs (record_meta h kReshape [r])
        (bindE (LogicalValues r ''reshape'') (\<lambda>values.
         bindE (CpuStorage_FromData (Some values) (numel_of ?t)) (\<lambda>storage.
         bindE (MakeTensor (canonical_shape d) storage) ?rec)) h)"
      unfolding LogicalValues_def
    proof (rule yields_read [OF wf r])
      fix h1 assume q: "quietly h h1" and wf1: "wf_heap h1"
      have t1: "tensors h1 = tensors h" using q by (simp add: quietly_def)
      have meta: "record_meta h1 kReshape [r] = record_meta h kReshape [r]"
        using r by (intro record_meta_quiet [OF wf q]) simp
      have "yields h1 [r] d (take (numel_of ?t) ?vs) (record_meta h1 kReshape [r])
          (bindE (CpuStorage_FromData (Some ?vs) (numel_of ?t)) (\<lambda>storage.
            bindE (MakeTensor (canonical_shape d) storage) ?rec) h1)"
        using r t1 prod
        by (intro yields_FromData [OF wf1 _ valid]) (auto simp: one_parent_def record_simps)
      then show "yields h1 [r] d ?vs (record_meta h kReshape [r])
          (bindE (CpuStorage_FromData (Some ?vs) (numel_of ?t)) (\<lambda>storage.
            bindE (MakeTensor (canonical_shape d) storage) ?rec) h1)"
        by (simp add: meta)
    qed
    then show ?thesis
      using wf r eq False by (simp add: CpuBackend_Reshape_def bindE_Inr_run ensure_ref_ok bindE_assoc)
  qed
qed

text \<open>Exchanging the two dimensions and strides of a layout.\<close>

lemma length_2_eq: "length xs = 2 \<Longrightarrow> \<exists>a b. xs = [a, b]"
  by (cases xs; cases "tl xs") auto

lemma swap01_pair [simp]: "swap01 [a, b] = [b, a]"
  by (simp add: swap01_def)

lemma transposed_layout:
  assumes lay: "layout_ok h t" and d: "dims_of t = [R, C]" and s: "strides (t_shape t) = [s0, s1]"
    and sh: "sh = (t_shape t)\<lparr>dimensions := [C, R], strides := [s1, s0]\<rparr>"
  shows "shape_ok sh" "extent [C, R] [s1, s0] 2 = extent [R, C] [s0, s1] 2"
    "logical_values h (t\<lparr>t_shape := sh, t_meta := None\<rparr>) =
       transpose_values (nat R) (nat C) (logical_values h t)"
proof -
  have ok: "shape_ok (t_shape t)" using layout_ok_shape [OF lay] .
  show ext: "extent [C, R] [s1, s0] 2 = extent [R, C] [s0, s1] 2" by (simp add: extent_matrix)
  show shape: "shape_ok sh"
    using ok ext sh d s by (auto simp: shape_ok_def valid_dims_def mult.commute numeral_2_eq_2)
  let ?v = "t\<lparr>t_shape := sh, t_meta := None\<rparr>"
  have lv: "layout_ok h ?v"
    using lay shape ext sh d s by (auto simp: layout_ok_def numeral_2_eq_2)
  have pos: "0 < R" "0 < C" using layout_ok_valid [OF lay] d by (auto simp: valid_dims_def)
  have num: "numel_of t = nat R * nat C" using layout_ok_numel [OF lay] d by simp
  have numv: "numel_of ?v = nat R * nat C" using num sh by simp
  show "logical_values h ?v = transpose_values (nat R) (nat C) (logical_values h t)"
  proof (rule nth_equalityI)
    show "length (logical_values h ?v) = length (transpose_values (nat R) (nat C) (logical_values h t))"
      using numv by simp
    fix k assume "k < length (logical_values h ?v)"
    then have k: "k < nat C * nat R" using numv by (simp add: mult.commute)
    define i j where "i = k div nat R" and "j = k mod nat R"
    have ij: "k = i * nat R + j" "i < nat C" "j < nat R"
      using k pos by (simp_all add: i_def j_def less_mult_imp_div_less)
    have kt: "j * nat C + i < nat R * nat C" using matrix_index_less [OF ij(3,2)] .
    have "logical_storage_index ?v k = logical_storage_index t (j * nat C + i)"
      using layout_ok_index_plain [OF lv] layout_ok_index_plain [OF lay] sh d s ij
      by (simp add: plain_index_matrix)
    then have "logical_values h ?v ! k = logical_values h t ! (j * nat C + i)"
      using k kt num numv by (simp add: logical_values_def mult.commute)
    then show "logical_values h ?v ! k = transpose_values (nat R) (nat C) (logical_values h t) ! k"
      using transpose_values_nth [OF ij(3,2)] ij(1) by simp
  qed
qed

definition transpose_result :: "heap \<Rightarrow> tensor_ref \<Rightarrow> f32 list" where
  "transpose_result h r = transpose_values (nat (dims_of (tensor_at h r) ! 0))
     (nat (dims_of (tensor_at h r) ! 1)) (logical_values h (tensor_at h r))"

lemma Transpose2D_yields:
  assumes wf: "wf_heap h" and r: "r < length (tensors h)"
  shows "yields h [r] (swap01 (dims_of (tensor_at h r))) (transpose_result h r)
    (record_meta h kTranspose2D [r]) (CpuBackend_Transpose2D r h)"
proof (cases "length (dims_of (tensor_at h r)) = 2")
  case False
  then show ?thesis using wf r
    by (simp add: CpuBackend_Transpose2D_def bindE_Inr_run ensure_ref_ok yields_quiet_fault
        quiet.frame_refl)
next
  case True
  note lay = wf_heap_layout [OF wf r]
  obtain R C where d: "dims_of (tensor_at h r) = [R, C]" using length_2_eq [OF True] by blast
  have "length (strides (t_shape (tensor_at h r))) = 2"
    using layout_ok_shape [OF lay] True by (simp add: shape_ok_def)
  then obtain s0 s1 where s: "strides (t_shape (tensor_at h r)) = [s0, s1]"
    using length_2_eq by blast
  let ?sh = "(t_shape (tensor_at h r))\<lparr>dimensions := [C, R], strides := [s1, s0]\<rparr>"
  note tr = transposed_layout [OF lay d s refl]
  have "yields h [r] [C, R] (transpose_result h r) (record_meta h kTranspose2D [r])
      (bindE (MakeView ?sh r) (\<lambda>out. bindE (RecordUnary kTranspose2D r out) (\<lambda>_. returnE out)) h)"
    using tr d s
    by (intro yields_view [OF wf r])
      (simp_all add: one_parent_def record_simps transpose_result_def numeral_2_eq_2)
  then show ?thesis
    using wf r d s by (simp add: CpuBackend_Transpose2D_def bindE_Inr_run ensure_ref_ok numeral_2_eq_2)
qed

section \<open>Success\<close>

text \<open>When no allocation fails, a well-typed operation returns.\<close>

definition succeeds :: "(heap, 'a) run \<Rightarrow> heap \<Rightarrow> bool" where
  "succeeds m h \<longleftrightarrow> (\<exists>a h'. m h = (Inr a, h') \<and> alloc_plan h' = [])"

lemma AttachNode_succeeds: "alloc_plan h = [] \<Longrightarrow> succeeds (AttachNode out op ps) h"
  by (simp add: succeeds_def AttachNode_def exec_simps set_autograd_meta_def)

lemma finish_succeeds:
  assumes "succeeds m h" and "\<And>out. f out = bindE (AttachNode out op ps) (\<lambda>_. returnE out)"
  shows "succeeds (bindE m f) h"
proof -
  obtain out h1 where m: "m h = (Inr out, h1)" "alloc_plan h1 = []"
    using assms(1) by (auto simp: succeeds_def)
  obtain h2 where "AttachNode out op ps h1 = (Inr (), h2)" "alloc_plan h2 = []"
    using AttachNode_succeeds [OF m(2), of out op ps] by (auto simp: succeeds_def)
  then show ?thesis using m assms(2) by (simp add: succeeds_def bindE_def exec_simps)
qed

lemma MakeTensor_succeeds:
  assumes "alloc_plan h = []" and "valid_dims (dimensions sh)"
    and "numel sh = dims_prod (dimensions sh)"
    and "length (cpu_values (storages h ! st)) = dims_prod (dimensions sh)"
  shows "succeeds (MakeTensor sh st) h"
proof -
  obtain r h' where "allocation_guard ''cpu backend tensor''
      (new_cpu_tensor (canonical_shape (dimensions sh)) st) h = (Inr r, h')" "alloc_plan h' = []"
    using guarded_new_cpu_tensor_ok [OF assms(1)] by blast
  then show ?thesis
    using assms ValidateShape_pointer [OF assms(2)] by (simp add: succeeds_def MakeTensor_def)
qed

lemma store_result_succeeds:
  assumes "alloc_plan h = []" and "valid_dims (dimensions sh)"
    and "numel sh = dims_prod (dimensions sh)" and "length (values n) = dims_prod (dimensions sh)"
  shows "succeeds (store_result sh n values) h"
  using MakeTensor_succeeds [of "h\<lparr>storages := storages h @ [CpuStorage (values n)]\<rparr>" sh
      "length (storages h)"] assms
  by (simp add: succeeds_def store_result_def CpuStorage_Filled_ok write_values_def bindE_Inr_run)

lemma MakeView_succeeds:
  assumes "alloc_plan h = []"
  shows "succeeds (MakeView sh r) h"
proof -
  let ?t = "tensor_at h r"
  obtain a h' where "new_tensor sh (t_storage ?t) (t_dtype ?t) (t_device ?t) (t_device_index ?t)
      (t_offset ?t) (Some (t_version_counter ?t)) h = (Inr a, h')" "alloc_plan h' = []"
    using new_tensor_ok [OF assms] by blast
  then show ?thesis by (simp add: succeeds_def MakeView_def)
qed

lemma LogicalValues_run:
  assumes "wf_heap h" and "alloc_plan h = []" and "r < length (tensors h)"
  shows "LogicalValues r op h = (Inr (logical_values h (tensor_at h r)), h)"
  unfolding LogicalValues_def
  using wf_heap_layout [OF assms(1,3)]
  by (intro read_values_ok assms(2))
    (simp_all add: backend_EnsureCpuFloat32_def ensure_cpu_float32_def layout_ok_def)

lemmas ok_simps = bindE_Inr_run ensure_ref_ok LogicalValues_run SameShape_iff record_simps

lemma Add_succeeds:
  assumes wf: "wf_heap h" and ok: "alloc_plan h = []" and l: "l < length (tensors h)"
    and r: "r < length (tensors h)" and "dims_of (tensor_at h l) = dims_of (tensor_at h r)"
  shows "succeeds (CpuBackend_Add l r) h"
proof -
  let ?sh = "t_shape (tensor_at h l)"
  have "succeeds (bindE (store_result ?sh (numel ?sh)
      (add_values (logical_values h (tensor_at h l)) (logical_values h (tensor_at h r))))
      (\<lambda>out. bindE (AttachNode out kAdd [l, r]) (\<lambda>_. returnE out))) h"
    using layout_ok_valid [OF wf_heap_layout [OF wf l]] layout_ok_numel [OF wf_heap_layout [OF wf l]] ok
    by (intro finish_succeeds store_result_succeeds) auto
  then show ?thesis using assms by (simp add: succeeds_def CpuBackend_Add_def ok_simps)
qed

lemma Multiply_succeeds:
  assumes wf: "wf_heap h" and ok: "alloc_plan h = []" and l: "l < length (tensors h)"
    and r: "r < length (tensors h)" and "dims_of (tensor_at h l) = dims_of (tensor_at h r)"
  shows "succeeds (CpuBackend_Multiply l r) h"
proof -
  let ?sh = "t_shape (tensor_at h l)"
  have "succeeds (bindE (store_result ?sh (numel ?sh)
      (multiply_values (logical_values h (tensor_at h l)) (logical_values h (tensor_at h r))))
      (\<lambda>out. bindE (AttachNode out kMultiply [l, r]) (\<lambda>_. returnE out))) h"
    using layout_ok_valid [OF wf_heap_layout [OF wf l]] layout_ok_numel [OF wf_heap_layout [OF wf l]] ok
    by (intro finish_succeeds store_result_succeeds) auto
  then show ?thesis using assms by (simp add: succeeds_def CpuBackend_Multiply_def ok_simps)
qed

lemma Matmul_succeeds:
  assumes wf: "wf_heap h" and ok: "alloc_plan h = []" and l: "l < length (tensors h)"
    and r: "r < length (tensors h)" and ld: "dims_of (tensor_at h l) = [m, k]"
    and rd: "dims_of (tensor_at h r) = [k, n]" and valid: "valid_dims [m, n]"
  shows "succeeds (CpuBackend_Matmul l r) h"
proof -
  let ?vs = "matmul_values (nat m) (nat k) (nat n) (logical_values h (tensor_at h l))
    (logical_values h (tensor_at h r))"
  have "succeeds (bindE (store_result (canonical_shape [m, n]) (dims_prod [m, n]) (\<lambda>_. ?vs))
      (\<lambda>out. bindE (AttachNode out kMatmul [l, r]) (\<lambda>_. returnE out))) h"
    using ok valid by (intro finish_succeeds store_result_succeeds) auto
  moreover have "ValidateShape (Some [m, n]) 2 = Inr (canonical_shape [m, n])"
    using ValidateShape_pointer [OF valid] by (simp add: dims_pointer_def numeral_2_eq_2)
  ultimately show ?thesis
    using assms by (simp add: succeeds_def CpuBackend_Matmul_def ok_simps)
qed

lemma Sum_succeeds:
  assumes wf: "wf_heap h" and ok: "alloc_plan h = []" and r: "r < length (tensors h)"
  shows "succeeds (CpuBackend_Sum r) h"
proof -
  let ?v = "foldl f32_add f32_zero (logical_values h (tensor_at h r))"
  let ?h1 = "h\<lparr>storages := storages h @ [CpuStorage (replicate 1 ?v)]\<rparr>"
  have "succeeds (bindE (MakeTensor (canonical_shape []) (length (storages h)))
      (\<lambda>out. bindE (AttachNode out kSum [r]) (\<lambda>_. returnE out))) ?h1"
    using ok by (intro finish_succeeds MakeTensor_succeeds)
      (auto simp: valid_dims_def kMaxTensorRank_def max_numel_def)
  then show ?thesis
    using assms by (simp add: succeeds_def CpuBackend_Sum_def ok_simps ValidateShape_scalar
        CpuStorage_Filled_ok)
qed

lemma Reshape_succeeds:
  assumes wf: "wf_heap h" and ok: "alloc_plan h = []" and r: "r < length (tensors h)"
    and valid: "valid_dims d" and eq: "dims_prod d = numel_of (tensor_at h r)"
  shows "succeeds (CpuBackend_Reshape r (canonical_shape d)) h"
proof (cases "is_contiguous (tensor_at h r)")
  case True
  have "succeeds (bindE (MakeView (canonical_shape d) r)
      (\<lambda>out. bindE (AttachNode out kReshape [r]) (\<lambda>_. returnE out))) h"
    by (intro finish_succeeds MakeView_succeeds ok) auto
  then show ?thesis using assms True by (simp add: succeeds_def CpuBackend_Reshape_def ok_simps)
next
  case False
  let ?vs = "logical_values h (tensor_at h r)"
  let ?h1 = "h\<lparr>storages := storages h @ [CpuStorage ?vs]\<rparr>"
  have "succeeds (bindE (MakeTensor (canonical_shape d) (length (storages h)))
      (\<lambda>out. bindE (AttachNode out kReshape [r]) (\<lambda>_. returnE out))) ?h1"
    using ok valid eq by (intro finish_succeeds MakeTensor_succeeds) auto
  then show ?thesis
    using assms False
    by (simp add: succeeds_def CpuBackend_Reshape_def ok_simps bindE_assoc CpuStorage_FromData_ok)
qed

lemma Transpose2D_succeeds:
  assumes "wf_heap h" and "alloc_plan h = []" and "r < length (tensors h)"
    and "length (dims_of (tensor_at h r)) = 2"
  shows "succeeds (CpuBackend_Transpose2D r) h"
proof -
  let ?sh = "t_shape (tensor_at h r)"
  have "succeeds (bindE (MakeView (?sh\<lparr>dimensions := swap01 (dimensions ?sh),
      strides := swap01 (strides ?sh)\<rparr>) r)
      (\<lambda>out. bindE (AttachNode out kTranspose2D [r]) (\<lambda>_. returnE out))) h"
    by (intro finish_succeeds MakeView_succeeds assms(2)) auto
  then show ?thesis using assms by (simp add: succeeds_def CpuBackend_Transpose2D_def ok_simps)
qed

lemma FromData_succeeds:
  assumes "alloc_plan h = []" and "valid_dims d" and "length vs = dims_prod d"
  shows "succeeds (CpuBackend_FromData (canonical_shape d) (Some vs)) h"
  using MakeTensor_succeeds [of "h\<lparr>storages := storages h @ [CpuStorage vs]\<rparr>" "canonical_shape d"
      "length (storages h)"] assms
  by (simp add: succeeds_def CpuBackend_FromData_def CpuStorage_FromData_ok bindE_Inr_run)

lemma Full_succeeds:
  assumes "alloc_plan h = []" and "valid_dims d"
  shows "succeeds (CpuBackend_Full (canonical_shape d) x) h"
  using MakeTensor_succeeds [of "h\<lparr>storages := storages h @ [CpuStorage (replicate (dims_prod d) x)]\<rparr>"
      "canonical_shape d" "length (storages h)"] assms
  by (simp add: succeeds_def CpuBackend_Full_def CpuStorage_Filled_ok bindE_Inr_run)

section \<open>The contract of a backend\<close>

locale backend_contract =
  fixes B :: backend
  assumes from_data: "wf_heap h \<Longrightarrow> valid_dims d \<Longrightarrow> length vs = dims_prod d \<Longrightarrow>
      yields h [] d vs None (be_FromData B (canonical_shape d) (Some vs) h)"
    and full: "wf_heap h \<Longrightarrow> valid_dims d \<Longrightarrow>
      yields h [] d (replicate (dims_prod d) x) None (be_Full B (canonical_shape d) x h)"
    and reshape: "wf_heap h \<Longrightarrow> r < length (tensors h) \<Longrightarrow> valid_dims d \<Longrightarrow>
      yields h [r] d (logical_values h (tensor_at h r)) (record_meta h kReshape [r])
        (be_Reshape B r (canonical_shape d) h)"
    and transpose: "wf_heap h \<Longrightarrow> r < length (tensors h) \<Longrightarrow>
      yields h [r] (swap01 (dims_of (tensor_at h r))) (transpose_result h r)
        (record_meta h kTranspose2D [r]) (be_Transpose2D B r h)"
    and add: "wf_heap h \<Longrightarrow> l < length (tensors h) \<Longrightarrow> r < length (tensors h) \<Longrightarrow>
      yields h [] (dims_of (tensor_at h l))
        (map2 f32_add (logical_values h (tensor_at h l)) (logical_values h (tensor_at h r)))
        (record_meta h kAdd [l, r]) (be_Add B l r h)"
    and multiply: "wf_heap h \<Longrightarrow> l < length (tensors h) \<Longrightarrow> r < length (tensors h) \<Longrightarrow>
      yields h [] (dims_of (tensor_at h l))
        (map2 f32_mul (logical_values h (tensor_at h l)) (logical_values h (tensor_at h r)))
        (record_meta h kMultiply [l, r]) (be_Multiply B l r h)"
    and sum: "wf_heap h \<Longrightarrow> r < length (tensors h) \<Longrightarrow>
      yields h [] [] [sum_left (logical_values h (tensor_at h r))] (record_meta h kSum [r])
        (be_Sum B r h)"
    and matmul: "wf_heap h \<Longrightarrow> l < length (tensors h) \<Longrightarrow> r < length (tensors h) \<Longrightarrow>
      yields h [] [dims_of (tensor_at h l) ! 0, dims_of (tensor_at h r) ! 1] (matmul_result h l r)
        (record_meta h kMatmul [l, r]) (be_Matmul B l r h)"
    and from_data_ok: "alloc_plan h = [] \<Longrightarrow> valid_dims d \<Longrightarrow> length vs = dims_prod d \<Longrightarrow>
      succeeds (be_FromData B (canonical_shape d) (Some vs)) h"
    and full_ok: "alloc_plan h = [] \<Longrightarrow> valid_dims d \<Longrightarrow>
      succeeds (be_Full B (canonical_shape d) x) h"
    and reshape_ok: "wf_heap h \<Longrightarrow> alloc_plan h = [] \<Longrightarrow> r < length (tensors h) \<Longrightarrow>
      valid_dims d \<Longrightarrow> dims_prod d = numel_of (tensor_at h r) \<Longrightarrow>
      succeeds (be_Reshape B r (canonical_shape d)) h"
    and transpose_ok: "wf_heap h \<Longrightarrow> alloc_plan h = [] \<Longrightarrow> r < length (tensors h) \<Longrightarrow>
      length (dims_of (tensor_at h r)) = 2 \<Longrightarrow> succeeds (be_Transpose2D B r) h"
    and add_ok: "wf_heap h \<Longrightarrow> alloc_plan h = [] \<Longrightarrow> l < length (tensors h) \<Longrightarrow>
      r < length (tensors h) \<Longrightarrow> dims_of (tensor_at h l) = dims_of (tensor_at h r) \<Longrightarrow>
      succeeds (be_Add B l r) h"
    and multiply_ok: "wf_heap h \<Longrightarrow> alloc_plan h = [] \<Longrightarrow> l < length (tensors h) \<Longrightarrow>
      r < length (tensors h) \<Longrightarrow> dims_of (tensor_at h l) = dims_of (tensor_at h r) \<Longrightarrow>
      succeeds (be_Multiply B l r) h"
    and sum_ok: "wf_heap h \<Longrightarrow> alloc_plan h = [] \<Longrightarrow> r < length (tensors h) \<Longrightarrow>
      succeeds (be_Sum B r) h"
    and matmul_ok: "wf_heap h \<Longrightarrow> alloc_plan h = [] \<Longrightarrow> l < length (tensors h) \<Longrightarrow>
      r < length (tensors h) \<Longrightarrow> dims_of (tensor_at h l) = [m, k] \<Longrightarrow>
      dims_of (tensor_at h r) = [k, n] \<Longrightarrow> valid_dims [m, n] \<Longrightarrow> succeeds (be_Matmul B l r) h"
begin

lemma result_of:
  assumes "yields h srcs d vs meta (m h)" and "succeeds m h"
  shows "\<exists>h'. m h = (Inr (length (tensors h)), h') \<and> alloc_plan h' = [] \<and> wf_heap h' \<and>
    heap_extends h h' \<and> makes_tensor h srcs d vs meta h'"
  using assms by (auto simp: succeeds_def yields_def)

lemma add_result:
  assumes "wf_heap h" and "alloc_plan h = []" and "l < length (tensors h)" and "r < length (tensors h)"
    and "dims_of (tensor_at h l) = dims_of (tensor_at h r)"
  shows "\<exists>h'. be_Add B l r h = (Inr (length (tensors h)), h') \<and> alloc_plan h' = [] \<and> wf_heap h' \<and>
    heap_extends h h' \<and> makes_tensor h [] (dims_of (tensor_at h l))
      (map2 f32_add (logical_values h (tensor_at h l)) (logical_values h (tensor_at h r)))
      (record_meta h kAdd [l, r]) h'"
  using result_of [OF add add_ok] assms by blast

lemma matmul_result_of:
  assumes "wf_heap h" and "alloc_plan h = []" and "l < length (tensors h)" and "r < length (tensors h)"
    and "dims_of (tensor_at h l) = [m, k]" and "dims_of (tensor_at h r) = [k, n]"
    and "valid_dims [m, n]"
  shows "\<exists>h'. be_Matmul B l r h = (Inr (length (tensors h)), h') \<and> alloc_plan h' = [] \<and> wf_heap h' \<and>
    heap_extends h h' \<and> makes_tensor h [] [m, n] (matmul_result h l r) (record_meta h kMatmul [l, r]) h'"
  using result_of [OF matmul [OF assms(1,3,4)] matmul_ok [OF assms]] assms(5,6) by simp

lemma reshape_result:
  assumes "wf_heap h" and "alloc_plan h = []" and "r < length (tensors h)" and "valid_dims d"
    and "dims_prod d = numel_of (tensor_at h r)"
  shows "\<exists>h'. be_Reshape B r (canonical_shape d) h = (Inr (length (tensors h)), h') \<and>
    alloc_plan h' = [] \<and> wf_heap h' \<and> heap_extends h h' \<and>
    makes_tensor h [r] d (logical_values h (tensor_at h r)) (record_meta h kReshape [r]) h'"
  using result_of [OF reshape reshape_ok] assms by blast

lemma transpose_result_of:
  assumes "wf_heap h" and "alloc_plan h = []" and "r < length (tensors h)"
    and "length (dims_of (tensor_at h r)) = 2"
  shows "\<exists>h'. be_Transpose2D B r h = (Inr (length (tensors h)), h') \<and> alloc_plan h' = [] \<and>
    wf_heap h' \<and> heap_extends h h' \<and> makes_tensor h [r] (swap01 (dims_of (tensor_at h r)))
      (transpose_result h r) (record_meta h kTranspose2D [r]) h'"
  using result_of [OF transpose transpose_ok] assms by blast

end

interpretation cpu: backend_contract CpuBackend
  by unfold_locales
    (simp_all add: CpuBackend_def FromData_yields Full_yields Reshape_yields Transpose2D_yields
      Add_yields Multiply_yields Sum_yields Matmul_yields FromData_succeeds Full_succeeds
      Reshape_succeeds Transpose2D_succeeds Add_succeeds Multiply_succeeds Sum_succeeds
      Matmul_succeeds del: One_nat_def)

section \<open>A concrete heap\<close>

text \<open>A 2 x 3 and a 3 x 2 tensor, both with the values 1, 2, 3, 4, 5, 6.\<close>

definition demo_values :: "f32 list" where
  "demo_values = [0x3F800000, 0x40000000, 0x40400000, 0x40800000, 0x40A00000, 0x40C00000]"

definition demo_heap :: heap where
  "demo_heap = \<lparr>storages = [CpuStorage demo_values, CpuStorage demo_values],
     counters = [\<lparr>vc_value = 0, vc_identity = 1\<rparr>, \<lparr>vc_value = 0, vc_identity = 2\<rparr>],
     tensors = [fresh_tensor (canonical_shape [2, 3]) 0 0, fresh_tensor (canonical_shape [3, 2]) 1 1],
     next_identity = 3, alloc_plan = []\<rparr>"

lemma demo_valid_dims: "valid_dims [2, 3]" "valid_dims [3, 2]" "valid_dims [2, 2]" "valid_dims [6]"
  by (simp_all add: valid_dims_def kMaxTensorRank_def max_numel_def)

lemma demo_heap_simps [simp]:
  "length (tensors demo_heap) = 2" "alloc_plan demo_heap = []"
  "tensor_at demo_heap 0 = fresh_tensor (canonical_shape [2, 3]) 0 0"
  "tensor_at demo_heap (Suc 0) = fresh_tensor (canonical_shape [3, 2]) 1 1"
  "storages demo_heap = [CpuStorage demo_values, CpuStorage demo_values]"
  "length (counters demo_heap) = 2" "length demo_values = 6"
  by (simp_all add: demo_heap_def demo_values_def)

lemma demo_heap_wf: "wf_heap demo_heap"
proof -
  have "layout_ok demo_heap (tensor_at demo_heap i) \<and> meta_ok demo_heap i" if i: "i < 2" for i
  proof -
    consider "i = 0" | "i = 1" using i by linarith
    then show ?thesis
    proof cases
      case 1
      then show ?thesis
        using shape_ok_canonical [OF demo_valid_dims(1)] canonical_extent [OF demo_valid_dims(1)]
        by (simp add: layout_ok_def meta_ok_def max_numel_def)
    next
      case 2
      then show ?thesis
        using shape_ok_canonical [OF demo_valid_dims(2)] canonical_extent [OF demo_valid_dims(2)]
        by (simp add: layout_ok_def meta_ok_def max_numel_def)
    qed
  qed
  then show ?thesis by (simp add: wf_heap_def)
qed

section \<open>Properties\<close>

lemma CpuBackend_simps [simp]:
  "be_FromData CpuBackend = CpuBackend_FromData" "be_Full CpuBackend = CpuBackend_Full"
  "be_Reshape CpuBackend = CpuBackend_Reshape" "be_Transpose2D CpuBackend = CpuBackend_Transpose2D"
  "be_Add CpuBackend = CpuBackend_Add" "be_Multiply CpuBackend = CpuBackend_Multiply"
  "be_Sum CpuBackend = CpuBackend_Sum" "be_Matmul CpuBackend = CpuBackend_Matmul"
  by (simp_all add: CpuBackend_def)

lemma makes_tensorD:
  assumes "makes_tensor h srcs d vs meta h'"
  shows "dims_of (tensor_at h' (length (tensors h))) = d"
    "logical_values h' (tensor_at h' (length (tensors h))) = vs"
    "t_meta (tensor_at h' (length (tensors h))) = meta"
    "length (tensors h') = Suc (length (tensors h))"
  using assms by (simp_all add: makes_tensor_def new_tensor_at_def)

text \<open>C32: Whatever the environment does to the allocations and whatever the shapes are, every
  operation of the CPU backend on tensors of a well-formed heap leaves the heap well formed and
  every existing tensor, storage and version counter unchanged, also when it fails.\<close>

theorem cpu_backend_safe:
  assumes "wf_heap h" and "l < length (tensors h)" and "r < length (tensors h)" and "valid_dims d"
    and "length vs = dims_prod d"
    and "m \<in> {CpuBackend_Add l r, CpuBackend_Multiply l r, CpuBackend_Matmul l r, CpuBackend_Sum l,
      CpuBackend_Transpose2D l, CpuBackend_Reshape l (canonical_shape d),
      CpuBackend_FromData (canonical_shape d) (Some vs), CpuBackend_Full (canonical_shape d) x}"
  shows "wf_heap (snd (m h)) \<and> heap_extends h (snd (m h))"
  using assms(6) cpu.add [OF assms(1,2,3)] cpu.multiply [OF assms(1,2,3)] cpu.matmul [OF assms(1,2,3)]
    cpu.sum [OF assms(1,2)] cpu.transpose [OF assms(1,2)] cpu.reshape [OF assms(1,2,4)]
    cpu.from_data [OF assms(1,4,5)] cpu.full [OF assms(1,4), of x]
  by (auto simp: yields_def)

theorem cpu_backend_safe_witness:
  "wf_heap (snd (CpuBackend_Matmul 0 1 demo_heap)) \<and>
   heap_extends demo_heap (snd (CpuBackend_Matmul 0 1 demo_heap))"
  by (rule cpu_backend_safe [OF demo_heap_wf _ _ demo_valid_dims(4), of 0 1 demo_values]) simp_all

text \<open>C31: The product of an \<open>m x k\<close> and a \<open>k x n\<close> tensor, views included, is a new \<open>m x n\<close>
  tensor whose entry (i, j) is the dot product of row i and column j, accumulated from left to
  right in single precision, although the code runs the loops in row-inner-column order.\<close>

theorem cpu_matmul_dot_products:
  assumes "wf_heap h" and "alloc_plan h = []" and "l < length (tensors h)" and "r < length (tensors h)"
    and "dims_of (tensor_at h l) = [m, k]" and "dims_of (tensor_at h r) = [k, n]"
    and "valid_dims [m, n]"
  shows "\<exists>h' out. CpuBackend_Matmul l r h = (Inr out, h') \<and> dims_of (tensor_at h' out) = [m, n] \<and>
    (\<forall>i < nat m. \<forall>j < nat n. logical_values h' (tensor_at h' out) ! (i * nat n + j) =
      dot (mat_row (nat k) i (logical_values h (tensor_at h l)))
        (mat_col (nat k) (nat n) j (logical_values h (tensor_at h r))))"
proof -
  obtain h' where run: "CpuBackend_Matmul l r h = (Inr (length (tensors h)), h')"
    and res: "makes_tensor h [] [m, n] (matmul_result h l r) (record_meta h kMatmul [l, r]) h'"
    using cpu.matmul_result_of [OF assms] by auto
  note out = makes_tensorD [OF res]
  then show ?thesis
    using run assms(5,6) by (intro exI [of _ h'] exI [of _ "length (tensors h)"])
      (simp add: matmul_result_def matmul_values_nth)
qed

theorem cpu_matmul_dot_products_witness:
  "\<exists>h' out. CpuBackend_Matmul 0 1 demo_heap = (Inr out, h') \<and> dims_of (tensor_at h' out) = [2, 2] \<and>
    (\<forall>i < nat 2. \<forall>j < nat 2. logical_values h' (tensor_at h' out) ! (i * nat 2 + j) =
      dot (mat_row (nat 3) i (logical_values demo_heap (tensor_at demo_heap 0)))
        (mat_col (nat 3) (nat 2) j (logical_values demo_heap (tensor_at demo_heap 1))))"
  by (rule cpu_matmul_dot_products [OF demo_heap_wf _ _ _ _ _ demo_valid_dims(3)]) simp_all



text \<open>C33: Transposing a rank-2 tensor twice gives a tensor with the original dimensions and the
  original logical values.\<close>

theorem cpu_transpose_involution:
  assumes "wf_heap h" and "alloc_plan h = []" and "r < length (tensors h)"
    and "dims_of (tensor_at h r) = [R, C]"
  shows "\<exists>h1 t h2 u. CpuBackend_Transpose2D r h = (Inr t, h1) \<and>
    CpuBackend_Transpose2D t h1 = (Inr u, h2) \<and>
    dims_of (tensor_at h1 t) = [C, R] \<and> dims_of (tensor_at h2 u) = [R, C] \<and>
    logical_values h2 (tensor_at h2 u) = logical_values h (tensor_at h r)"
proof -
  let ?t = "length (tensors h)"
  obtain h1 where r1: "CpuBackend_Transpose2D r h = (Inr ?t, h1)" "alloc_plan h1 = []" "wf_heap h1"
    and m1: "makes_tensor h [r] [C, R] (transpose_result h r) (record_meta h kTranspose2D [r]) h1"
    using cpu.transpose_result_of [OF assms(1,2,3)] assms(4) by auto
  note o1 = makes_tensorD [OF m1]
  obtain h2 where r2: "CpuBackend_Transpose2D ?t h1 = (Inr (length (tensors h1)), h2)"
    and m2: "makes_tensor h1 [?t] [R, C] (transpose_result h1 ?t) (record_meta h1 kTranspose2D [?t]) h2"
    using cpu.transpose_result_of [OF r1(3,2), of ?t] o1 by auto
  note o2 = makes_tensorD [OF m2]
  have len: "length (logical_values h (tensor_at h r)) = nat R * nat C"
    using layout_ok_numel [OF wf_heap_layout [OF assms(1,3)]] assms(4) by simp
  have "transpose_result h1 ?t = logical_values h (tensor_at h r)"
    using o1 assms(4) len transpose_values_twice by (simp add: transpose_result_def)
  then show ?thesis
    using r1(1) r2 o1(1) o2(1,2)
    by (intro exI [of _ h1] exI [of _ ?t] exI [of _ h2] exI [of _ "length (tensors h1)"]) simp
qed

theorem cpu_transpose_involution_witness:
  "\<exists>h1 t h2 u. CpuBackend_Transpose2D 0 demo_heap = (Inr t, h1) \<and>
    CpuBackend_Transpose2D t h1 = (Inr u, h2) \<and>
    dims_of (tensor_at h1 t) = [3, 2] \<and> dims_of (tensor_at h2 u) = [2, 3] \<and>
    logical_values h2 (tensor_at h2 u) = logical_values demo_heap (tensor_at demo_heap 0)"
  by (rule cpu_transpose_involution [OF demo_heap_wf]) simp_all

end
