(* ===== verification/Gradient_Kernels.thy ===== *)
theory Gradient_Kernels
  imports Kernels Tensor_Heap
begin

text \<open>
  The numeric loops of \<open>ApplyNode\<close> in \<open>native/src/autograd/autograd.h\<close>: for each recorded
  operation, the vector it contributes to a parent, computed from the upstream gradient and the
  logical values of the parents.  The parameter \<open>L\<close> stands for the functions of the C++ maths
  library.
\<close>

section \<open>Constants\<close>

definition f32_two :: f32 where "f32_two = 0x40000000"
definition f32_half :: f32 where "f32_half = 0x3F000000"
definition f32_neg_half :: f32 where "f32_neg_half = 0xBF000000"

text \<open>\<open>0.7071067811865475244f\<close> and \<open>0.39894228040143267794f\<close>.\<close>

definition kInvSqrt2 :: f32 where "kInvSqrt2 = 0x3F3504F3"
definition kInvSqrt2Pi :: f32 where "kInvSqrt2Pi = 0x3ECC422A"

section \<open>Matrix gradients\<close>

definition matmul_left_gradient :: "nat \<Rightarrow> nat \<Rightarrow> nat \<Rightarrow> f32 list \<Rightarrow> f32 list \<Rightarrow> f32 list" where
  "matmul_left_gradient m k n grad right =
     loop m (\<lambda>row. loop k (\<lambda>inner values. values[row * k + inner :=
       loop n (\<lambda>col value. f32_add value
         (f32_mul (grad ! (row * n + col)) (right ! (inner * n + col)))) f32_zero]))
     (replicate (m * k) f32_zero)"

definition matmul_right_gradient :: "nat \<Rightarrow> nat \<Rightarrow> nat \<Rightarrow> f32 list \<Rightarrow> f32 list \<Rightarrow> f32 list" where
  "matmul_right_gradient m k n left grad =
     loop k (\<lambda>inner. loop n (\<lambda>col values. values[inner * n + col :=
       loop m (\<lambda>row value. f32_add value
         (f32_mul (left ! (row * k + inner)) (grad ! (row * n + col)))) f32_zero]))
     (replicate (k * n) f32_zero)"

definition bias_gradient :: "nat \<Rightarrow> nat \<Rightarrow> f32 list \<Rightarrow> f32 list" where
  "bias_gradient rows cols grad =
     loop rows (\<lambda>row. loop cols (\<lambda>col values. values[col :=
       f32_add (values ! col) (grad ! (row * cols + col))]))
     (replicate cols f32_zero)"

section \<open>Activation gradients\<close>

text \<open>The function \<open>1.0f / (1.0f + std::exp(-x))\<close> that several branches share.\<close>

definition logistic :: "libm \<Rightarrow> f32 \<Rightarrow> f32" where
  "logistic L x = f32_div f32_one (f32_add f32_one (expf L (f32_neg x)))"

fun activation_local :: "libm \<Rightarrow> operation \<Rightarrow> f32 \<Rightarrow> f32" where
  "activation_local L kRelu x = (if f32_less f32_zero x then f32_one else f32_zero)"
| "activation_local L kSigmoid x =
     (let sigmoid = logistic L x in f32_mul sigmoid (f32_sub f32_one sigmoid))"
| "activation_local L kTanh x =
     (let hyperbolic = tanhf L x in f32_sub f32_one (f32_mul hyperbolic hyperbolic))"
| "activation_local L kGelu x =
     f32_add (f32_mul f32_half (f32_add f32_one (erff L (f32_mul x kInvSqrt2))))
       (f32_mul (f32_mul x (expf L (f32_mul (f32_mul f32_neg_half x) x))) kInvSqrt2Pi)"
| "activation_local L _ x =
     (let sigmoid = logistic L x
      in f32_mul sigmoid (f32_add f32_one (f32_mul x (f32_sub f32_one sigmoid))))"

definition activation_gradient :: "libm \<Rightarrow> operation \<Rightarrow> f32 list \<Rightarrow> f32 list \<Rightarrow> f32 list" where
  "activation_gradient L op input grad =
     map (\<lambda>index. f32_mul (grad ! index) (activation_local L op (input ! index)))
       [0..<length grad]"

definition swiglu_gradient :: "libm \<Rightarrow> nat \<Rightarrow> nat \<Rightarrow> nat \<Rightarrow> f32 list \<Rightarrow> f32 list \<Rightarrow> f32 list" where
  "swiglu_gradient L rows width half input grad =
     loop rows (\<lambda>row. loop half (\<lambda>col values.
       let input_base = row * width; grad_base = row * half;
           left_index = input_base + col; right_index = input_base + (half + col);
           a = input ! left_index; b = input ! right_index;
           sigmoid = logistic L a; silu = f32_mul a sigmoid;
           silu_prime = f32_mul sigmoid (f32_add f32_one (f32_mul a (f32_sub f32_one sigmoid)));
           upstream_value = grad ! (grad_base + col)
       in values[left_index := f32_mul (f32_mul upstream_value b) silu_prime,
                 right_index := f32_mul upstream_value silu]))
     (replicate (length input) f32_zero)"

section \<open>Loss gradients\<close>

definition mse_scale :: "f32 \<Rightarrow> nat \<Rightarrow> f32" where
  "mse_scale g n = f32_div (f32_mul f32_two g) (f32_of_nat n)"

definition mse_gradient :: "f32 \<Rightarrow> f32 list \<Rightarrow> f32 list \<Rightarrow> nat \<Rightarrow> f32 list" where
  "mse_gradient scale prediction target n =
     map (\<lambda>index. f32_mul scale (f32_sub (prediction ! index) (target ! index))) [0..<n]"

definition row_max :: "f32 list \<Rightarrow> nat \<Rightarrow> nat \<Rightarrow> f32" where
  "row_max logits classes row =
     foldl (\<lambda>max_logit col. f32_max max_logit (logits ! (row * classes + col)))
       (logits ! (row * classes)) [1..<classes]"

definition row_denominator :: "libm \<Rightarrow> f32 list \<Rightarrow> nat \<Rightarrow> nat \<Rightarrow> f32 \<Rightarrow> f32" where
  "row_denominator L logits classes row max_logit =
     loop classes (\<lambda>col denominator. f32_add denominator
       (expf L (f32_sub (logits ! (row * classes + col)) max_logit))) f32_zero"

definition cross_entropy_logits_gradient ::
    "libm \<Rightarrow> f32 \<Rightarrow> nat \<Rightarrow> nat \<Rightarrow> f32 list \<Rightarrow> f32 list \<Rightarrow> f32 list" where
  "cross_entropy_logits_gradient L scale batch classes logits target =
     loop batch (\<lambda>row.
       let max_logit = row_max logits classes row;
           denominator = row_denominator L logits classes row max_logit
       in loop classes (\<lambda>col values.
         let index = row * classes + col;
             probability = f32_div (expf L (f32_sub (logits ! index) max_logit)) denominator
         in values[index := f32_mul scale (f32_sub probability (target ! index))]))
     (replicate (length logits) f32_zero)"

definition cross_entropy_target_gradient ::
    "libm \<Rightarrow> f32 \<Rightarrow> nat \<Rightarrow> nat \<Rightarrow> f32 list \<Rightarrow> nat \<Rightarrow> f32 list" where
  "cross_entropy_target_gradient L scale batch classes logits n =
     loop batch (\<lambda>row.
       let max_logit = row_max logits classes row;
           denominator = row_denominator L logits classes row max_logit;
           log_denominator = f32_add (logf L denominator) max_logit
       in loop classes (\<lambda>col values.
         let index = row * classes + col
         in values[index := f32_mul (f32_neg scale) (f32_sub (logits ! index) log_denominator)]))
     (replicate n f32_zero)"

section \<open>Their lengths and entries\<close>

lemma length_gradients [simp]:
  "length (matmul_left_gradient m k n g r) = m * k"
  "length (matmul_right_gradient m k n l g) = k * n"
  "length (bias_gradient rows cols g) = cols"
  "length (activation_gradient L op input g) = length g"
  "length (swiglu_gradient L rows width half input g) = length input"
  "length (mse_gradient scale p t n) = n"
  "length (cross_entropy_logits_gradient L scale batch classes logits target) = length logits"
  "length (cross_entropy_target_gradient L scale batch classes logits n) = n"
  by (simp_all add: matmul_left_gradient_def matmul_right_gradient_def bias_gradient_def
      activation_gradient_def swiglu_gradient_def mse_gradient_def
      cross_entropy_logits_gradient_def cross_entropy_target_gradient_def length_loop Let_def)

text \<open>
  The gradient of the left factor is \<open>grad * right\<^sup>T\<close> and that of the right factor
  \<open>left\<^sup>T * grad\<close>, entry by entry.
\<close>

lemma matmul_left_gradient_nth:
  assumes "i < m" and "p < k"
  shows "matmul_left_gradient m k n grad right ! (i * k + p) =
    dot (mat_row n i grad) (mat_row n p right)"
proof -
  let ?e = "\<lambda>row inner. loop n (\<lambda>col value. f32_add value
    (f32_mul (grad ! (row * n + col)) (right ! (inner * n + col)))) f32_zero"
  have "matmul_left_gradient m k n grad right ! (i * k + p) =
      loop m (\<lambda>row. loop k (\<lambda>inner v. if row * k + inner = i * k + p then ?e row inner else v))
        (replicate (m * k) f32_zero ! (i * k + p))"
    unfolding matmul_left_gradient_def
    using matrix_index_less [OF assms] by (intro loop_nth) (simp_all add: length_loop update_nth)
  also have "\<dots> = ?e i p"
    using loop_matrix_once [OF assms, of "\<lambda>row inner v. ?e row inner"] by simp
  finally show ?thesis by (simp add: mat_row_def dot_loop)
qed

lemma matmul_right_gradient_nth:
  assumes "p < k" and "j < n"
  shows "matmul_right_gradient m k n left grad ! (p * n + j) =
    dot (mat_col m k p left) (mat_col m n j grad)"
proof -
  let ?e = "\<lambda>inner col. loop m (\<lambda>row value. f32_add value
    (f32_mul (left ! (row * k + inner)) (grad ! (row * n + col)))) f32_zero"
  have "matmul_right_gradient m k n left grad ! (p * n + j) =
      loop k (\<lambda>inner. loop n (\<lambda>col v. if inner * n + col = p * n + j then ?e inner col else v))
        (replicate (k * n) f32_zero ! (p * n + j))"
    unfolding matmul_right_gradient_def
    using matrix_index_less [OF assms] by (intro loop_nth) (simp_all add: length_loop update_nth)
  also have "\<dots> = ?e p j"
    using loop_matrix_once [OF assms, of "\<lambda>inner col v. ?e inner col"] by simp
  finally show ?thesis by (simp add: mat_col_def dot_loop)
qed

lemma bias_gradient_nth:
  assumes "j < cols"
  shows "bias_gradient rows cols grad ! j = sum_left (mat_col rows cols j grad)"
proof -
  have "bias_gradient rows cols grad ! j =
      loop rows (\<lambda>row. loop cols (\<lambda>col v. if col = j
        then f32_add v (grad ! (row * cols + col)) else v)) (replicate cols f32_zero ! j)"
    unfolding bias_gradient_def
    using assms by (intro loop_nth) (simp_all add: length_loop update_nth)
  also have "\<dots> = loop rows (\<lambda>row v. f32_add v (grad ! (row * cols + j))) f32_zero"
    using assms by (simp, intro loop_cong) (simp add: loop_once)
  finally show ?thesis by (simp add: sum_left_def mat_col_def foldl_map_upt)
qed

end
