(* ===== verification/Autograd_Backward.thy ===== *)
theory Autograd_Backward
  imports Cpu_Backend Gradient_Kernels "HOL-Library.AList"
begin

text \<open>
  Reverse-mode differentiation: the second half of \<open>native/src/autograd/autograd.h\<close>.

  \<open>ApplyNode\<close> is split by operation, as the \<open>switch\<close> is.  \<open>BuildTopology\<close> recurses through the
  graph with a visited set; each level of the recursion visits a new tensor, so as much fuel as
  there are tensors is enough.  The map from tensors to accumulated gradients is an association
  list.
\<close>

type_synonym contribution = "tensor_ref \<times> tensor_ref"

section \<open>Accumulation\<close>

definition AddInPlace :: "tensor_ref \<Rightarrow> tensor_ref \<Rightarrow> (heap, unit) run" where
  "AddInPlace destination source =
     bindE (getE (\<lambda>h. SameShape (t_shape (tensor_at h destination)) (t_shape (tensor_at h source))))
       (\<lambda>same.
     bindE (checkE same (InternalError ''autograd: gradient accumulation shape mismatch'')) (\<lambda>_.
     bindE (MutableCpuValues destination ''autograd_accumulate'') (\<lambda>storage.
     bindE (ReadLogicalCpuValues source ''autograd_accumulate'') (\<lambda>source_values.
     bindE (getE (\<lambda>h. cpu_values (storages h ! storage))) (\<lambda>destination_values.
     write_values storage
       (add_values destination_values source_values (length destination_values)))))))"

definition Accumulate :: "tensor_ref option \<Rightarrow> tensor_ref \<Rightarrow> (heap, tensor_ref) run" where
  "Accumulate destination contribution =
     (case destination of
        None \<Rightarrow> CopyGradient contribution
      | Some d \<Rightarrow> bindE (AddInPlace d contribution) (\<lambda>_. returnE d))"

definition AccumulateLeaf :: "tensor_ref \<Rightarrow> tensor_ref \<Rightarrow> (heap, unit) run" where
  "AccumulateLeaf r gradient =
     bindE (getE (\<lambda>h. gradient_of h r)) (\<lambda>current.
     bindE (Accumulate current gradient) (\<lambda>updated.
     bindE (getE (\<lambda>h. t_meta (tensor_at h r))) (\<lambda>meta.
     case meta of
       None \<Rightarrow> returnE ()
     | Some m \<Rightarrow> set_autograd_meta r (m\<lparr>meta_gradient := Some updated\<rparr>))))"

section \<open>Saved versions\<close>

definition ValidateSavedVersions :: "grad_node \<Rightarrow> (heap, unit) run" where
  "ValidateSavedVersions node =
     bindE (checkE (length (node_parents node) = length (node_versions node))
       (InternalError ''autograd: corrupt saved-version metadata'')) (\<lambda>_.
     forE (zip (node_parents node) (node_versions node)) (\<lambda>(parent, saved).
       bindE (getE (\<lambda>h. tensor_version h parent)) (\<lambda>current.
       checkE (current = saved)
         (InvalidArgument ''autograd: a saved tensor alias was modified before backward''))))"

section \<open>Contributions of one node\<close>

definition emit :: "tensor_ref \<Rightarrow> tensor_ref \<Rightarrow> (heap, contribution list) run" where
  "emit parent contribution =
     bindE (getE (\<lambda>h. RequiresGrad h parent)) (\<lambda>rg.
     returnE (if rg then [(parent, contribution)] else []))"

text \<open>The value vector is built, wrapped and emitted only for a parent that requires gradients.\<close>

definition contribute :: "tensor_ref \<Rightarrow> f32 list \<Rightarrow> (heap, contribution list) run" where
  "contribute parent values =
     bindE (getE (\<lambda>h. RequiresGrad h parent)) (\<lambda>rg.
     if \<not> rg then returnE []
     else
       bindE (getE (\<lambda>h. t_shape (tensor_at h parent))) (\<lambda>shape.
       bindE (MakeCpuTensor shape values) (\<lambda>contribution.
       emit parent contribution)))"

text \<open>\<open>node.parents.at(0)\<close>\<close>

definition first_parent :: "grad_node \<Rightarrow> (heap, tensor_ref) run" where
  "first_parent node =
     (case node_parents node of
        [] \<Rightarrow> throwE (Raised (StdException ''vector''))
      | p # _ \<Rightarrow> returnE p)"

definition CloneWithShape :: "tensor_ref \<Rightarrow> shape_info \<Rightarrow> (heap, tensor_ref) run" where
  "CloneWithShape source shape =
     bindE (getE (\<lambda>h. numel_of (tensor_at h source))) (\<lambda>n.
     bindE (checkE (n = numel shape)
       (InternalError ''autograd: reshape gradient element count mismatch'')) (\<lambda>_.
     bindE (ReadLogicalCpuValues source ''autograd_reshape'') (\<lambda>values.
     MakeCpuTensor shape values)))"

definition TransposeGradient :: "tensor_ref \<Rightarrow> (heap, tensor_ref) run" where
  "TransposeGradient source =
     bindE (getE (\<lambda>h. dims_of (tensor_at h source))) (\<lambda>ds.
     bindE (checkE (length ds = 2)
       (InternalError ''autograd: transpose gradient requires rank 2'')) (\<lambda>_.
     bindE (statusE (ValidateShape (Some [ds ! 1, ds ! 0]) 2)) (\<lambda>shape.
     bindE (ReadLogicalCpuValues source ''autograd_transpose'') (\<lambda>input.
     MakeCpuTensor shape (transpose_values (nat (ds ! 0)) (nat (ds ! 1)) input)))))"

definition apply_identity :: "grad_node \<Rightarrow> tensor_ref \<Rightarrow> (heap, contribution list) run" where
  "apply_identity node upstream =
     bindE (CopyGradient upstream) (\<lambda>c. bindE (first_parent node) (\<lambda>p. emit p c))"

definition apply_reshape :: "grad_node \<Rightarrow> tensor_ref \<Rightarrow> (heap, contribution list) run" where
  "apply_reshape node upstream =
     bindE (first_parent node) (\<lambda>p.
     bindE (getE (\<lambda>h. t_shape (tensor_at h p))) (\<lambda>shape.
     bindE (CloneWithShape upstream shape) (\<lambda>c. emit p c)))"

definition apply_transpose :: "grad_node \<Rightarrow> tensor_ref \<Rightarrow> (heap, contribution list) run" where
  "apply_transpose node upstream =
     bindE (TransposeGradient upstream) (\<lambda>c. bindE (first_parent node) (\<lambda>p. emit p c))"

definition apply_add :: "grad_node \<Rightarrow> tensor_ref \<Rightarrow> (heap, contribution list) run" where
  "apply_add node upstream =
     foldE (node_parents node) [] (\<lambda>parent out.
       bindE (getE (\<lambda>h. RequiresGrad h parent)) (\<lambda>rg.
       if \<not> rg then returnE out
       else bindE (CopyGradient upstream) (\<lambda>c.
            bindE (emit parent c) (\<lambda>e. returnE (out @ e)))))"

definition apply_multiply :: "grad_node \<Rightarrow> f32 list \<Rightarrow> (heap, contribution list) run" where
  "apply_multiply node grad =
     bindE (checkE (length (node_parents node) = 2)
       (InternalError ''autograd: multiply node parent count mismatch'')) (\<lambda>_.
     bindE (ReadLogicalCpuValues (node_parents node ! 0) ''autograd_multiply'') (\<lambda>left.
     bindE (ReadLogicalCpuValues (node_parents node ! 1) ''autograd_multiply'') (\<lambda>right.
     bindE (checkE (length grad = length left \<and> length grad = length right)
       (InternalError ''autograd: multiply gradient size mismatch'')) (\<lambda>_.
     bindE (contribute (node_parents node ! 0) (multiply_values grad right (length grad))) (\<lambda>a.
     bindE (contribute (node_parents node ! 1) (multiply_values grad left (length grad))) (\<lambda>b.
     returnE (a @ b)))))))"

definition apply_sum :: "grad_node \<Rightarrow> f32 list \<Rightarrow> (heap, contribution list) run" where
  "apply_sum node grad =
     bindE (checkE (length grad = 1)
       (InternalError ''autograd: sum upstream gradient must be scalar'')) (\<lambda>_.
     bindE (first_parent node) (\<lambda>p.
     bindE (getE (\<lambda>h. t_shape (tensor_at h p))) (\<lambda>shape.
     bindE (MakeCpuFull shape (grad ! 0)) (\<lambda>c. emit p c))))"

definition apply_matmul :: "grad_node \<Rightarrow> tensor_ref \<Rightarrow> f32 list \<Rightarrow> (heap, contribution list) run" where
  "apply_matmul node upstream grad =
     bindE (checkE (length (node_parents node) = 2)
       (InternalError ''autograd: matmul node parent count mismatch'')) (\<lambda>_.
     bindE (getE (\<lambda>h. (dims_of (tensor_at h (node_parents node ! 0)),
         dims_of (tensor_at h (node_parents node ! 1)), dims_of (tensor_at h upstream))))
       (\<lambda>(ld, rd, ud).
     bindE (checkE (length ld = 2 \<and> length rd = 2 \<and> length ud = 2)
       (InternalError ''autograd: matmul gradients require rank 2'')) (\<lambda>_.
     bindE (ReadLogicalCpuValues (node_parents node ! 0) ''autograd_matmul'') (\<lambda>left.
     bindE (ReadLogicalCpuValues (node_parents node ! 1) ''autograd_matmul'') (\<lambda>right.
     bindE (contribute (node_parents node ! 0)
       (matmul_left_gradient (nat (ld ! 0)) (nat (ld ! 1)) (nat (rd ! 1)) grad right)) (\<lambda>a.
     bindE (contribute (node_parents node ! 1)
       (matmul_right_gradient (nat (ld ! 0)) (nat (ld ! 1)) (nat (rd ! 1)) left grad)) (\<lambda>b.
     returnE (a @ b))))))))"

definition apply_activation :: "libm \<Rightarrow> grad_node \<Rightarrow> f32 list \<Rightarrow> (heap, contribution list) run" where
  "apply_activation L node grad =
     bindE (first_parent node) (\<lambda>p.
     bindE (ReadLogicalCpuValues p ''autograd_activation'') (\<lambda>input.
     bindE (checkE (length input = length grad)
       (InternalError ''autograd: activation gradient size mismatch'')) (\<lambda>_.
     bindE (getE (\<lambda>h. t_shape (tensor_at h p))) (\<lambda>shape.
     bindE (MakeCpuTensor shape (activation_gradient L (node_operation node) input grad)) (\<lambda>c.
     emit p c)))))"

definition apply_swiglu :: "libm \<Rightarrow> grad_node \<Rightarrow> f32 list \<Rightarrow> (heap, contribution list) run" where
  "apply_swiglu L node grad =
     bindE (checkE (length (node_parents node) = 1)
       (InternalError ''autograd: SwiGLU node parent count mismatch'')) (\<lambda>_.
     bindE (getE (\<lambda>h. t_shape (tensor_at h (node_parents node ! 0)))) (\<lambda>shape.
     bindE (checkE (dimensions shape \<noteq> [])
       (InternalError ''autograd: SwiGLU parent rank is invalid'')) (\<lambda>_.
     bindE (returnE (last (dimensions shape))) (\<lambda>width.
     bindE (checkE (0 < width \<and> width mod 2 = 0)
       (InternalError ''autograd: SwiGLU parent width is invalid'')) (\<lambda>_.
     bindE (returnE (nat (width div 2), numel shape div nat width)) (\<lambda>(half, rows).
     bindE (checkE (length grad = rows * half)
       (InternalError ''autograd: SwiGLU gradient shape mismatch'')) (\<lambda>_.
     bindE (ReadLogicalCpuValues (node_parents node ! 0) ''autograd_swiglu'') (\<lambda>input.
     bindE (MakeCpuTensor shape (swiglu_gradient L rows (nat width) half input grad)) (\<lambda>c.
     emit (node_parents node ! 0) c)))))))))"

definition apply_mse :: "grad_node \<Rightarrow> f32 list \<Rightarrow> (heap, contribution list) run" where
  "apply_mse node grad =
     bindE (checkE (length (node_parents node) = 2 \<and> length grad = 1)
       (InternalError ''autograd: invalid MSE node metadata'')) (\<lambda>_.
     bindE (ReadLogicalCpuValues (node_parents node ! 0) ''autograd_mse'') (\<lambda>prediction.
     bindE (ReadLogicalCpuValues (node_parents node ! 1) ''autograd_mse'') (\<lambda>target.
     bindE (returnE (mse_scale (grad ! 0) (length prediction))) (\<lambda>scale.
     bindE (contribute (node_parents node ! 0)
       (mse_gradient scale prediction target (length prediction))) (\<lambda>a.
     bindE (contribute (node_parents node ! 1)
       (mse_gradient (f32_neg scale) prediction target (length target))) (\<lambda>b.
     returnE (a @ b)))))))"

definition apply_cross_entropy :: "libm \<Rightarrow> grad_node \<Rightarrow> f32 list \<Rightarrow> (heap, contribution list) run" where
  "apply_cross_entropy L node grad =
     bindE (checkE (length (node_parents node) = 2 \<and> length grad = 1)
       (InternalError ''autograd: invalid cross entropy metadata'')) (\<lambda>_.
     bindE (getE (\<lambda>h. (t_shape (tensor_at h (node_parents node ! 0)),
         t_shape (tensor_at h (node_parents node ! 1))))) (\<lambda>(ls, ts).
     bindE (checkE (length (dimensions ls) = 2 \<and> SameShape ls ts)
       (InternalError ''autograd: invalid cross entropy shapes'')) (\<lambda>_.
     bindE (returnE (nat (dimensions ls ! 0), nat (dimensions ls ! 1))) (\<lambda>(batch, classes).
     bindE (ReadLogicalCpuValues (node_parents node ! 0) ''autograd_cross_entropy'') (\<lambda>logits.
     bindE (ReadLogicalCpuValues (node_parents node ! 1) ''autograd_cross_entropy'') (\<lambda>target.
     bindE (returnE (f32_div (grad ! 0) (f32_of_nat batch))) (\<lambda>scale.
     bindE (contribute (node_parents node ! 0)
       (cross_entropy_logits_gradient L scale batch classes logits target)) (\<lambda>a.
     bindE (contribute (node_parents node ! 1)
       (cross_entropy_target_gradient L scale batch classes logits (length target))) (\<lambda>b.
     returnE (a @ b))))))))))"

definition apply_bias_add :: "grad_node \<Rightarrow> tensor_ref \<Rightarrow> f32 list \<Rightarrow> (heap, contribution list) run" where
  "apply_bias_add node upstream grad =
     bindE (checkE (length (node_parents node) = 2)
       (InternalError ''autograd: bias-add node parent count mismatch'')) (\<lambda>_.
     bindE (getE (\<lambda>h. (dims_of (tensor_at h (node_parents node ! 0)),
         dims_of (tensor_at h (node_parents node ! 1))))) (\<lambda>(md, bd).
     bindE (checkE (length md = 2 \<and> length bd = 1)
       (InternalError ''autograd: bias-add shape metadata is invalid'')) (\<lambda>_.
     bindE (checkE (bd ! 0 = md ! 1 \<and> length grad = nat (md ! 0) * nat (md ! 1))
       (InternalError ''autograd: bias-add gradient shape mismatch'')) (\<lambda>_.
     bindE (getE (\<lambda>h. RequiresGrad h (node_parents node ! 0))) (\<lambda>rg.
     bindE (if \<not> rg then returnE []
            else bindE (CopyGradient upstream) (\<lambda>c. emit (node_parents node ! 0) c)) (\<lambda>a.
     bindE (contribute (node_parents node ! 1)
       (bias_gradient (nat (md ! 0)) (nat (md ! 1)) grad)) (\<lambda>b.
     returnE (a @ b))))))))"

definition apply_operation ::
    "libm \<Rightarrow> grad_node \<Rightarrow> tensor_ref \<Rightarrow> f32 list \<Rightarrow> (heap, contribution list) run" where
  "apply_operation L node upstream grad =
     (case node_operation node of
        kIdentity \<Rightarrow> apply_identity node upstream
      | kReshape \<Rightarrow> apply_reshape node upstream
      | kTranspose2D \<Rightarrow> apply_transpose node upstream
      | kAdd \<Rightarrow> apply_add node upstream
      | kMultiply \<Rightarrow> apply_multiply node grad
      | kSum \<Rightarrow> apply_sum node grad
      | kMatmul \<Rightarrow> apply_matmul node upstream grad
      | kRelu \<Rightarrow> apply_activation L node grad
      | kSigmoid \<Rightarrow> apply_activation L node grad
      | kTanh \<Rightarrow> apply_activation L node grad
      | kGelu \<Rightarrow> apply_activation L node grad
      | kSilu \<Rightarrow> apply_activation L node grad
      | kSwiGlu \<Rightarrow> apply_swiglu L node grad
      | kMse \<Rightarrow> apply_mse node grad
      | kCrossEntropy \<Rightarrow> apply_cross_entropy L node grad
      | kBiasAdd \<Rightarrow> apply_bias_add node upstream grad)"

definition ApplyNode :: "libm \<Rightarrow> grad_node \<Rightarrow> tensor_ref \<Rightarrow> (heap, contribution list) run" where
  "ApplyNode L node upstream =
     bindE (ValidateSavedVersions node) (\<lambda>_.
     bindE (ReadLogicalCpuValues upstream ''autograd_backward'') (\<lambda>grad.
     apply_operation L node upstream grad))"

section \<open>Topological order\<close>

text \<open>The state of the traversal: the visited tensors and the order built so far.\<close>

type_synonym traversal = "tensor_ref list \<times> tensor_ref list"

fun BuildTopology :: "nat \<Rightarrow> heap \<Rightarrow> tensor_ref \<Rightarrow> traversal \<Rightarrow> traversal option"
  and BuildParents :: "nat \<Rightarrow> heap \<Rightarrow> tensor_ref list \<Rightarrow> traversal \<Rightarrow> traversal option" where
  "BuildTopology 0 h r st = None"
| "BuildTopology (Suc fuel) h r st =
     (case st of (visited, topology) \<Rightarrow>
        if r \<in> set visited then Some (visited, topology)
        else case (case grad_fn_of h r of
                     None \<Rightarrow> Some (r # visited, topology)
                   | Some node \<Rightarrow> BuildParents fuel h (node_parents node) (r # visited, topology)) of
               None \<Rightarrow> None
             | Some (visited', topology') \<Rightarrow> Some (visited', topology' @ [r]))"
| "BuildParents fuel h [] st = Some st"
| "BuildParents fuel h (p # ps) st =
     (case BuildTopology fuel h p st of
        None \<Rightarrow> None
      | Some st' \<Rightarrow> BuildParents fuel h ps st')"

section \<open>Backward\<close>

definition accumulate_contributions ::
    "contribution list \<Rightarrow> (tensor_ref \<times> tensor_ref) list \<Rightarrow>
     (heap, (tensor_ref \<times> tensor_ref) list) run" where
  "accumulate_contributions contributions gradients =
     foldE contributions gradients (\<lambda>(parent, gradient) gs.
       bindE (Accumulate (map_of gs parent) gradient) (\<lambda>updated.
       returnE (AList.update parent updated gs)))"

definition backward_step ::
    "libm \<Rightarrow> tensor_ref \<Rightarrow> (tensor_ref \<times> tensor_ref) list \<Rightarrow>
     (heap, (tensor_ref \<times> tensor_ref) list) run" where
  "backward_step L r gradients =
     (case map_of gradients r of
        None \<Rightarrow> returnE gradients
      | Some upstream \<Rightarrow>
          bindE (getE (\<lambda>h. t_meta (tensor_at h r))) (\<lambda>meta.
          case meta of
            None \<Rightarrow> returnE gradients
          | Some m \<Rightarrow>
              bindE (if meta_requires_grad m \<and> meta_is_leaf m
                     then AccumulateLeaf r upstream else returnE ()) (\<lambda>_.
              case meta_grad_fn m of
                None \<Rightarrow> returnE gradients
              | Some node \<Rightarrow>
                  bindE (ApplyNode L node upstream) (\<lambda>contributions.
                  accumulate_contributions contributions gradients))))"

definition validate_topology :: "tensor_ref list \<Rightarrow> (heap, unit) run" where
  "validate_topology topology =
     forE topology (\<lambda>r.
       bindE (getE (\<lambda>h. grad_fn_of h r)) (\<lambda>fn.
       case fn of None \<Rightarrow> returnE () | Some node \<Rightarrow> ValidateSavedVersions node))"

definition Backward :: "libm \<Rightarrow> tensor_ref \<Rightarrow> (heap, unit) run" where
  "Backward L root =
     bindE (getE (\<lambda>h. numel_of (tensor_at h root))) (\<lambda>n.
     bindE (checkE (n = 1)
       (InvalidShape ''tensor_backward: loss tensor must contain one value'')) (\<lambda>_.
     bindE (getE (\<lambda>h. RequiresGrad h root)) (\<lambda>rg.
     bindE (checkE rg
       (InvalidArgument ''tensor_backward: tensor does not require gradients'')) (\<lambda>_.
     bindE (getE (\<lambda>h. BuildTopology (length (tensors h)) h root ([], []))) (\<lambda>traversal.
     case traversal of
       None \<Rightarrow> throwE (Raised Terminated)
     | Some (visited, topology) \<Rightarrow>
         bindE (validate_topology topology) (\<lambda>_.
         bindE (getE (\<lambda>h. t_shape (tensor_at h root))) (\<lambda>shape.
         bindE (MakeCpuFull shape f32_one) (\<lambda>root_gradient.
         bindE (foldE (rev topology) [(root, root_gradient)] (backward_step L)) (\<lambda>_.
         returnE ())))))))))"

section \<open>The order is topological\<close>

inductive reaches :: "heap \<Rightarrow> tensor_ref \<Rightarrow> tensor_ref \<Rightarrow> bool" for h r where
  reaches_self: "reaches h r r"
| reaches_parent: "reaches h r x \<Longrightarrow> grad_fn_of h x = Some node \<Longrightarrow> p \<in> set (node_parents node) \<Longrightarrow>
    reaches h r p"

definition parents_of :: "heap \<Rightarrow> tensor_ref \<Rightarrow> tensor_ref list" where
  "parents_of h r = (case grad_fn_of h r of None \<Rightarrow> [] | Some node \<Rightarrow> node_parents node)"

lemma reaches_parents_of: "reaches h r x \<Longrightarrow> p \<in> set (parents_of h x) \<Longrightarrow> reaches h r p"
  by (cases "grad_fn_of h x") (auto simp: parents_of_def intro: reaches_parent)

lemma reaches_trans:
  assumes "reaches h x y" and "reaches h r x"
  shows "reaches h r y"
  using assms(1)
proof induction
  case reaches_self
  then show ?case using assms(2) by simp
next
  case (reaches_parent y node p)
  then show ?case using reaches.reaches_parent by blast
qed

lemma wf_parents_less:
  "wf_heap h \<Longrightarrow> r < length (tensors h) \<Longrightarrow> p \<in> set (parents_of h r) \<Longrightarrow> p < r"
  using wf_heap_node [of h r] by (cases "grad_fn_of h r") (auto simp: parents_of_def node_ok_def)

text \<open>Distinct, and every tensor comes after its parents.\<close>

definition ordered_topology :: "heap \<Rightarrow> tensor_ref list \<Rightarrow> bool" where
  "ordered_topology h ts \<longleftrightarrow> distinct ts \<and>
     (\<forall>i < length ts. set (parents_of h (ts ! i)) \<subseteq> set (take i ts))"

lemma ordered_topology_snoc:
  assumes "ordered_topology h ts" and "r \<notin> set ts" and "set (parents_of h r) \<subseteq> set ts"
  shows "ordered_topology h (ts @ [r])"
  using assms by (auto simp: ordered_topology_def nth_append less_Suc_eq)

text \<open>
  One call: the visited tensors that are not yet ordered are the callers, which all come later
  than \<open>r\<close>; they are unaffected.
\<close>

definition topology_call :: "heap \<Rightarrow> nat \<Rightarrow> tensor_ref list \<Rightarrow> traversal \<Rightarrow> traversal option \<Rightarrow> bool" where
  "topology_call h bound rs st res \<longleftrightarrow> (\<exists>vis' new. res = Some (vis', snd st @ new) \<and>
     ordered_topology h (snd st @ new) \<and> set vis' = set (fst st) \<union> set new \<and>
     set rs \<subseteq> set (snd st @ new) \<and> (\<forall>x \<in> set new. x < bound \<and> (\<exists>r \<in> set rs. reaches h r x)))"

lemma topology_callE:
  assumes "topology_call h bound rs st res"
  obtains vis' new where "res = Some (vis', snd st @ new)" "ordered_topology h (snd st @ new)"
    "set vis' = set (fst st) \<union> set new" "set rs \<subseteq> set (snd st @ new)"
    "\<forall>x \<in> set new. x < bound \<and> (\<exists>r \<in> set rs. reaches h r x)"
  using assms by (auto simp: topology_call_def)

lemma BuildParents_call:
  assumes one: "\<And>p vis ts. p \<in> set ps \<Longrightarrow> ordered_topology h ts \<Longrightarrow> set ts \<subseteq> set vis \<Longrightarrow>
      \<forall>x \<in> set vis - set ts. bound \<le> x \<Longrightarrow>
      topology_call h (Suc p) [p] (vis, ts) (BuildTopology fuel h p (vis, ts))"
    and ps: "\<forall>p \<in> set ps. p < bound" and ts: "ordered_topology h ts" "set ts \<subseteq> set vis"
    and gray: "\<forall>x \<in> set vis - set ts. bound \<le> x"
  shows "topology_call h bound ps (vis, ts) (BuildParents fuel h ps (vis, ts))"
  using assms
proof (induction ps arbitrary: vis ts)
  case Nil
  then show ?case by (simp add: topology_call_def)
next
  case (Cons p ps)
  from Cons.prems(1) [of p ts vis] Cons.prems(3-5)
  have "topology_call h (Suc p) [p] (vis, ts) (BuildTopology fuel h p (vis, ts))" by simp
  then obtain vis1 new1 where r1: "BuildTopology fuel h p (vis, ts) = Some (vis1, ts @ new1)"
    and t1: "ordered_topology h (ts @ new1)" and v1: "set vis1 = set vis \<union> set new1"
    and p1: "p \<in> set (ts @ new1)" and n1: "\<forall>x \<in> set new1. x < Suc p \<and> reaches h p x"
    by (rule topology_callE) auto
  have "topology_call h bound ps (vis1, ts @ new1) (BuildParents fuel h ps (vis1, ts @ new1))"
    using Cons.prems v1 t1 by (intro Cons.IH) auto
  then obtain vis2 new2 where r2: "BuildParents fuel h ps (vis1, ts @ new1) =
      Some (vis2, (ts @ new1) @ new2)"
    and t2: "ordered_topology h ((ts @ new1) @ new2)" and v2: "set vis2 = set vis1 \<union> set new2"
    and p2: "set ps \<subseteq> set ((ts @ new1) @ new2)"
    and n2: "\<forall>x \<in> set new2. x < bound \<and> (\<exists>r \<in> set ps. reaches h r x)"
    by (rule topology_callE) auto
  have "p < bound" using Cons.prems(2) by simp
  then have "\<forall>x \<in> set (new1 @ new2). x < bound \<and> (\<exists>r \<in> set (p # ps). reaches h r x)"
    using n1 n2 by fastforce
  then show ?case
    unfolding topology_call_def using r1 r2 t2 v1 v2 p1 p2
    by (intro exI [of _ vis2] exI [of _ "new1 @ new2"]) auto
qed

lemma BuildTopology_call:
  assumes wf: "wf_heap h"
  shows "r < length (tensors h) \<Longrightarrow> r < fuel \<Longrightarrow> ordered_topology h ts \<Longrightarrow> set ts \<subseteq> set vis \<Longrightarrow>
    \<forall>x \<in> set vis - set ts. r < x \<Longrightarrow>
    topology_call h (Suc r) [r] (vis, ts) (BuildTopology fuel h r (vis, ts))"
proof (induction fuel arbitrary: r vis ts)
  case 0
  then show ?case by simp
next
  case (Suc fuel)
  show ?case
  proof (cases "r \<in> set vis")
    case True
    then have "r \<in> set ts" using Suc.prems(5) by auto
    then show ?thesis using True Suc.prems(3) by (auto simp: topology_call_def)
  next
    case False
    let ?ps = "parents_of h r"
    have less: "\<forall>p \<in> set ?ps. p < r" using wf_parents_less [OF wf Suc.prems(1)] by blast
    have call: "topology_call h r ?ps (r # vis, ts) (BuildParents fuel h ?ps (r # vis, ts))"
    proof (rule BuildParents_call)
      fix p vis' ts'
      assume p: "p \<in> set ?ps" and o: "ordered_topology h ts'" "set ts' \<subseteq> set vis'"
        and gray: "\<forall>x \<in> set vis' - set ts'. r \<le> x"
      have "p < r" using p less by blast
      then have "\<forall>x \<in> set vis' - set ts'. p < x" using gray by (meson less_le_trans)
      with \<open>p < r\<close> show "topology_call h (Suc p) [p] (vis', ts') (BuildTopology fuel h p (vis', ts'))"
        using Suc.prems(1,2) o by (intro Suc.IH) simp_all
    qed (use less Suc.prems(3-5) in \<open>auto intro: less_imp_le\<close>)
    then obtain vis1 new1 where r1: "BuildParents fuel h ?ps (r # vis, ts) = Some (vis1, ts @ new1)"
      and t1: "ordered_topology h (ts @ new1)" and v1: "set vis1 = insert r (set vis) \<union> set new1"
      and p1: "set ?ps \<subseteq> set (ts @ new1)"
      and n1: "\<forall>x \<in> set new1. x < r \<and> (\<exists>q \<in> set ?ps. reaches h q x)"
      by (rule topology_callE) auto
    have run: "BuildTopology (Suc fuel) h r (vis, ts) = Some (vis1, ts @ new1 @ [r])"
    proof (cases "grad_fn_of h r")
      case None
      then have "Some (r # vis, ts) = Some (vis1, ts @ new1)"
        using r1 by (simp add: parents_of_def)
      then show ?thesis using False None by auto
    next
      case (Some node)
      then show ?thesis using False r1 by (simp add: parents_of_def)
    qed
    have "r \<notin> set (ts @ new1)" using False Suc.prems(4) n1 by auto
    then have "ordered_topology h ((ts @ new1) @ [r])" by (rule ordered_topology_snoc [OF t1 _ p1])
    moreover have "reaches h r x" if "x \<in> set new1" for x
    proof -
      from n1 that have "\<exists>q \<in> set ?ps. reaches h q x" by simp
      then obtain q where q: "q \<in> set ?ps" "reaches h q x" ..
      have "reaches h r q" using reaches_parents_of [OF reaches_self q(1)] .
      then show ?thesis using reaches_trans [OF q(2)] by blast
    qed
    ultimately have new: "\<forall>x \<in> set (new1 @ [r]). x < Suc r \<and> (\<exists>q \<in> set [r]. reaches h q x)"
      and "ordered_topology h (ts @ new1 @ [r])"
      using n1 reaches_self by (auto simp: less_SucI)
    then show ?thesis
      unfolding topology_call_def using run v1
      by (intro exI [of _ vis1] exI [of _ "new1 @ [r]"]) auto
  qed
qed

lemma topology_complete:
  assumes "ordered_topology h ts" and "r \<in> set ts" and "reaches h r x"
  shows "x \<in> set ts"
  using assms(3,2)
proof (induction rule: reaches.induct)
  case (reaches_parent x node p)
  then have "x \<in> set ts" by simp
  then obtain i where i: "i < length ts" "ts ! i = x" by (auto simp: in_set_conv_nth)
  have "p \<in> set (parents_of h (ts ! i))"
    using reaches_parent(2,3) i by (simp add: parents_of_def)
  then have "p \<in> set (take i ts)" using assms(1) i(1) unfolding ordered_topology_def by blast
  then show ?case by (rule in_set_takeD)
qed simp

lemma BuildTopology_total:
  assumes wf: "wf_heap h" and r: "r < length (tensors h)"
  obtains vis ts where "BuildTopology (length (tensors h)) h r ([], []) = Some (vis, ts)"
    "ordered_topology h ts" "set ts = {x. reaches h r x}" "\<forall>x \<in> set ts. x \<le> r"
proof -
  have "topology_call h (Suc r) [r] ([], []) (BuildTopology (length (tensors h)) h r ([], []))"
    using r by (intro BuildTopology_call [OF wf]) (simp_all add: ordered_topology_def)
  then obtain vis ts where run: "BuildTopology (length (tensors h)) h r ([], []) = Some (vis, ts)"
    and o: "ordered_topology h ts" and mem: "r \<in> set ts"
    and new: "\<forall>x \<in> set ts. x < Suc r \<and> reaches h r x"
    unfolding topology_call_def by auto
  have "set ts = {x. reaches h r x}" using topology_complete [OF o mem] new by blast
  moreover have "\<forall>x \<in> set ts. x \<le> r" using new by (simp add: less_Suc_eq_le)
  ultimately show thesis using that [OF run o] by blast
qed

section \<open>Validation of saved versions\<close>

definition versions_fresh :: "heap \<Rightarrow> grad_node \<Rightarrow> bool" where
  "versions_fresh h node \<longleftrightarrow> map (tensor_version h) (node_parents node) = node_versions node"

abbreviation stale_alias :: status where
  "stale_alias \<equiv> InvalidArgument ''autograd: a saved tensor alias was modified before backward''"

lemma forE_checks:
  assumes "\<And>x. x \<in> set xs \<Longrightarrow> f x s = ((if P x then Inr () else Inl e), s)"
  shows "forE xs f s = ((if \<forall>x \<in> set xs. P x then Inr () else Inl e), s)"
  using assms by (induction xs) (auto simp: bindE_def returnE_def)

lemma ValidateSavedVersions_run:
  assumes "length (node_versions node) = length (node_parents node)"
  shows "ValidateSavedVersions node h =
    ((if versions_fresh h node then Inr () else Inl (Failed stale_alias)), h)"
proof -
  have "(\<forall>(p, v) \<in> set (zip (node_parents node) (node_versions node)). tensor_version h p = v) \<longleftrightarrow>
      versions_fresh h node"
    using assms by (auto simp: versions_fresh_def set_zip list_eq_iff_nth_eq)
  moreover have "forE (zip (node_parents node) (node_versions node)) (\<lambda>(parent, saved).
      bindE (getE (\<lambda>h. tensor_version h parent)) (\<lambda>current. checkE (current = saved) stale_alias)) h =
      ((if \<forall>x \<in> set (zip (node_parents node) (node_versions node)).
          case x of (p, v) \<Rightarrow> tensor_version h p = v then Inr () else Inl (Failed stale_alias)), h)"
    by (rule forE_checks) (auto simp: bindE_def checkE_run)
  ultimately show ?thesis using assms by (simp add: ValidateSavedVersions_def)
qed

definition graph_fresh :: "heap \<Rightarrow> tensor_ref list \<Rightarrow> bool" where
  "graph_fresh h ts \<longleftrightarrow> (\<forall>x \<in> set ts. \<forall>n. grad_fn_of h x = Some n \<longrightarrow> versions_fresh h n)"

lemma validate_topology_run:
  assumes wf: "wf_heap h" and ts: "\<forall>x \<in> set ts. x < length (tensors h)"
  shows "validate_topology ts h =
    ((if graph_fresh h ts then Inr () else Inl (Failed stale_alias)), h)"
  unfolding validate_topology_def graph_fresh_def
proof (rule forE_checks)
  fix x assume x: "x \<in> set ts"
  show "bindE (getE (\<lambda>h. grad_fn_of h x))
      (\<lambda>fn. case fn of None \<Rightarrow> returnE () | Some node \<Rightarrow> ValidateSavedVersions node) h =
    ((if \<forall>n. grad_fn_of h x = Some n \<longrightarrow> versions_fresh h n then Inr ()
      else Inl (Failed stale_alias)), h)"
  proof (cases "grad_fn_of h x")
    case (Some n)
    then have "node_ok h x n" using wf_heap_node [OF wf] ts x by simp
    then show ?thesis using Some ValidateSavedVersions_run [of n h] by (simp add: node_ok_def)
  qed (simp add: returnE_run)
qed

section \<open>Growing heaps\<close>

text \<open>
  \<open>grows\<close>: the heap is extended by tensors without metadata that own their storages.
\<close>

definition owned :: "heap \<Rightarrow> tensor_ref \<Rightarrow> bool" where
  "owned h g \<longleftrightarrow> g < length (tensors h) \<and> (\<forall>j < length (tensors h). j \<noteq> g \<longrightarrow>
     t_storage (tensor_at h j) \<noteq> t_storage (tensor_at h g))"

definition grows :: "heap \<Rightarrow> heap \<Rightarrow> bool" where
  "grows h h' \<longleftrightarrow> heap_extends h h' \<and>
     (\<forall>g. length (tensors h) \<le> g \<and> g < length (tensors h') \<longrightarrow>
        owned h' g \<and> layout_ok h' (tensor_at h' g) \<and> t_meta (tensor_at h' g) = None \<and>
        length (storages h) \<le> t_storage (tensor_at h' g))"

lemma grows_extends: "grows h h' \<Longrightarrow> heap_extends h h'"
  by (simp add: grows_def)

lemma grows_quietly: "quietly h h' \<Longrightarrow> grows h h'"
  by (auto simp: grows_def quietly_def)

lemma grows_refl: "grows h h"
  by (simp add: grows_quietly quiet.frame_refl)

lemma grows_wf:
  assumes "wf_heap h" and "grows h h'"
  shows "wf_heap h'"
  unfolding wf_heap_def
proof (intro allI impI)
  fix i assume i: "i < length (tensors h')"
  show "layout_ok h' (tensor_at h' i) \<and> meta_ok h' i"
  proof (cases "i < length (tensors h)")
    case True
    then show ?thesis using wf_heap_ext_old [OF assms(1) grows_extends [OF assms(2)]] by simp
  next
    case False
    then show ?thesis using assms(2) i by (simp add: grows_def meta_ok_def)
  qed
qed

lemma grows_trans:
  assumes g1: "grows h h1" and g2: "grows h1 h2"
  shows "grows h h2"
proof -
  note e1 = grows_extends [OF g1] and e2 = grows_extends [OF g2]
  have "owned h2 g \<and> layout_ok h2 (tensor_at h2 g) \<and> t_meta (tensor_at h2 g) = None \<and>
      length (storages h) \<le> t_storage (tensor_at h2 g)"
    if lo: "length (tensors h) \<le> g" and hi: "g < length (tensors h2)" for g
  proof (cases "g < length (tensors h1)")
    case True
    then have old: "tensor_at h2 g = tensor_at h1 g" using heap_extends_nth(3) [OF e2] by simp
    have f: "owned h1 g" "layout_ok h1 (tensor_at h1 g)" "t_meta (tensor_at h1 g) = None"
      "length (storages h) \<le> t_storage (tensor_at h1 g)"
      using g1 lo True by (simp_all add: grows_def)
    have "t_storage (tensor_at h2 j) \<noteq> t_storage (tensor_at h2 g)"
      if j: "j < length (tensors h2)" "j \<noteq> g" for j
    proof (cases "j < length (tensors h1)")
      case True
      then show ?thesis
        using f(1) j old heap_extends_nth(3) [OF e2 True] by (simp add: owned_def)
    next
      case False
      then have "length (storages h1) \<le> t_storage (tensor_at h2 j)"
        using g2 j by (simp add: grows_def)
      moreover have "t_storage (tensor_at h1 g) < length (storages h1)"
        using f(2) by (simp add: layout_ok_def)
      ultimately show ?thesis using old by simp
    qed
    then show ?thesis using f old hi layout_ok_ext [OF f(2) e2] by (simp add: owned_def)
  next
    case False
    then have "owned h2 g \<and> layout_ok h2 (tensor_at h2 g) \<and> t_meta (tensor_at h2 g) = None \<and>
        length (storages h1) \<le> t_storage (tensor_at h2 g)"
      using g2 hi by (simp add: grows_def)
    then show ?thesis using heap_extends_lengths(1) [OF e1] by simp
  qed
  then show ?thesis using ext.frame_trans [OF e1 e2] by (simp add: grows_def)
qed

lemma grows_adds:
  assumes wf: "wf_heap h" and add: "adds_tensor h h' sh vs None" and sh: "shape_ok sh"
    and len: "length vs = numel sh"
  shows "grows h h'"
proof -
  note f = adds_tensor_facts [OF add]
  note e = adds_tensor_extends [OF add]
  have "t_storage (tensor_at h' j) \<noteq> length (storages h)" if "j < length (tensors h)" for j
    using wf_heap_layout [OF wf that] heap_extends_nth(3) [OF e that] by (simp add: layout_ok_def)
  then have "owned h' (length (tensors h))"
    using f by (auto simp: owned_def less_Suc_eq)
  then show ?thesis
    using adds_tensor_layout [OF add sh len] f e by (auto simp: grows_def le_less_Suc_eq)
qed

text \<open>What is unchanged by growth.\<close>

lemma grows_old:
  assumes "wf_heap h" and "grows h h'" and "p < length (tensors h)"
  shows "tensor_at h' p = tensor_at h p" "RequiresGrad h' p = RequiresGrad h p"
    "logical_values h' (tensor_at h' p) = logical_values h (tensor_at h p)"
    "tensor_version h' p = tensor_version h p"
proof -
  note e = grows_extends [OF assms(2)]
  show t: "tensor_at h' p = tensor_at h p" using heap_extends_nth(3) [OF e assms(3)] .
  then show "RequiresGrad h' p = RequiresGrad h p" by (simp add: RequiresGrad_def)
  have lay: "layout_ok h (tensor_at h p)" using wf_heap_layout [OF assms(1,3)] .
  then show "logical_values h' (tensor_at h' p) = logical_values h (tensor_at h p)"
    using t logical_values_ext [OF _ e] by (simp add: layout_ok_def)
  show "tensor_version h' p = tensor_version h p"
    using t lay heap_extends_nth(2) [OF e] by (simp add: tensor_version_def layout_ok_def)
qed

end
