(* ===== verification/Backward_Apply.thy ===== *)
theory Backward_Apply
  imports Autograd_Backward
begin

text \<open>
  What one graph node contributes: \<open>local_gradients\<close> gives, for every operation, the vectors the
  node passes to its parents as pure functions of the upstream gradient and the parents' logical
  values; \<open>ApplyNode\<close> is shown to build exactly these, as new tensors that own their storage, and
  to fail only when an allocation fails.
\<close>

section \<open>The specification\<close>

definition local_gradients :: "libm \<Rightarrow> heap \<Rightarrow> grad_node \<Rightarrow> f32 list \<Rightarrow> f32 list list" where
  "local_gradients L h n grad =
     (let parent = (\<lambda>i. tensor_at h (node_parents n ! i));
          val = (\<lambda>i. logical_values h (parent i)); d = (\<lambda>i. dims_of (parent i))
      in case node_operation n of
        kIdentity \<Rightarrow> [grad]
      | kReshape \<Rightarrow> [grad]
      | kTranspose2D \<Rightarrow> [transpose_values (nat (d 0 ! 1)) (nat (d 0 ! 0)) grad]
      | kAdd \<Rightarrow> [grad, grad]
      | kMultiply \<Rightarrow> [map2 f32_mul grad (val 1), map2 f32_mul grad (val 0)]
      | kSum \<Rightarrow> [replicate (dims_prod (d 0)) (grad ! 0)]
      | kMatmul \<Rightarrow>
          [matmul_left_gradient (nat (d 0 ! 0)) (nat (d 0 ! 1)) (nat (d 1 ! 1)) grad (val 1),
           matmul_right_gradient (nat (d 0 ! 0)) (nat (d 0 ! 1)) (nat (d 1 ! 1)) (val 0) grad]
      | kSwiGlu \<Rightarrow>
          [swiglu_gradient L (dims_prod (d 0) div nat (last (d 0))) (nat (last (d 0)))
             (nat (last (d 0) div 2)) (val 0) grad]
      | kMse \<Rightarrow>
          (let s = mse_scale (grad ! 0) (length (val 0))
           in [mse_gradient s (val 0) (val 1) (length (val 0)),
               mse_gradient (f32_neg s) (val 0) (val 1) (length (val 1))])
      | kCrossEntropy \<Rightarrow>
          (let s = f32_div (grad ! 0) (f32_of_nat (nat (d 0 ! 0)))
           in [cross_entropy_logits_gradient L s (nat (d 0 ! 0)) (nat (d 0 ! 1)) (val 0) (val 1),
               cross_entropy_target_gradient L s (nat (d 0 ! 0)) (nat (d 0 ! 1)) (val 0)
                 (length (val 1))])
      | kBiasAdd \<Rightarrow> [grad, bias_gradient (nat (d 0 ! 0)) (nat (d 0 ! 1)) grad]
      | op \<Rightarrow> [activation_gradient L op (val 0) grad])"

definition node_contribs :: "libm \<Rightarrow> heap \<Rightarrow> grad_node \<Rightarrow> f32 list \<Rightarrow> (tensor_ref \<times> f32 list) list" where
  "node_contribs L h n grad =
     filter (\<lambda>(p, _). RequiresGrad h p) (zip (node_parents n) (local_gradients L h n grad))"

section \<open>Creating one tensor\<close>

definition makes1 :: "heap \<Rightarrow> int list \<Rightarrow> f32 list \<Rightarrow> (fault + tensor_ref) \<times> heap \<Rightarrow> bool" where
  "makes1 h d vs x \<longleftrightarrow> grows h (snd x) \<and>
     (alloc_plan h = [] \<longrightarrow> (\<exists>c. fst x = Inr c) \<and> alloc_plan (snd x) = []) \<and>
     (\<forall>c. fst x = Inr c \<longrightarrow> length (tensors h) \<le> c \<and> c < length (tensors (snd x)) \<and>
        dims_of (tensor_at (snd x) c) = d \<and> logical_values (snd x) (tensor_at (snd x) c) = vs \<and>
        buffer_ok (snd x) d c)"

lemma makes1_added:
  assumes wf: "wf_heap h" and add: "adds_tensor h h' (canonical_shape d) vs None"
    and valid: "valid_dims d" and len: "length vs = dims_prod d"
    and plan: "alloc_plan h = [] \<longrightarrow> alloc_plan h' = []"
  shows "makes1 h d vs (Inr (length (tensors h)), h')"
  using grows_adds [OF wf add shape_ok_canonical [OF valid]] len plan adds_tensor_facts [OF add]
    adds_tensor_values [OF add valid len] adds_tensor_buffer [OF add len]
  by (simp add: makes1_def)

lemma makes1_failed:
  assumes "quietly h h'" and "alloc_plan h \<noteq> []"
  shows "makes1 h d vs (Inl f, h')"
  using assms grows_quietly by (simp add: makes1_def)

lemma makes1_MakeCpuTensor:
  assumes wf: "wf_heap h" and valid: "valid_dims (dimensions sh)"
    and num: "numel sh = dims_prod (dimensions sh)" and len: "length vs = numel sh"
  shows "makes1 h (dimensions sh) vs (MakeCpuTensor sh vs h)"
proof -
  obtain res h' where run: "MakeCpuTensor sh vs h = (res, h')" by force
  note ok = MakeCpuTensor_ok [OF _ valid num len]
  from run valid_dims_i64 [OF valid] show ?thesis
  proof (cases rule: MakeCpuTensor_cases)
    case (failed f)
    then have "alloc_plan h \<noteq> []" using ok run by fastforce
    then show ?thesis using run failed makes1_failed by simp
  next
    case made
    then show ?thesis using run makes1_added [OF wf made(5) valid] ok num len by fastforce
  qed
qed

lemma makes1_CopyGradient:
  assumes wf: "wf_heap h" and r: "r < length (tensors h)"
  shows "makes1 h (dims_of (tensor_at h r)) (logical_values h (tensor_at h r)) (CopyGradient r h)"
proof -
  note lay = wf_heap_layout [OF wf r]
  obtain res h' where run: "CloneDetached r h = (res, h')" by force
  note ok = CloneDetached_ok [OF _ lay]
  from run lay show ?thesis
  proof (cases rule: CloneDetached_cases)
    case (failed f)
    then have "alloc_plan h \<noteq> []" using ok run by fastforce
    then show ?thesis using run failed makes1_failed by (simp add: CopyGradient_def)
  next
    case made
    have "alloc_plan h = [] \<longrightarrow> alloc_plan h' = []" using ok run by fastforce
    then show ?thesis
      using run made makes1_added [OF wf made(2) layout_ok_valid [OF lay]] layout_ok_numel [OF lay]
      by (simp add: CopyGradient_def)
  qed
qed

text \<open>A filled tensor keeps the shape it is given, so it need not be a canonical buffer.\<close>

definition fills1 :: "heap \<Rightarrow> int list \<Rightarrow> f32 list \<Rightarrow> (fault + tensor_ref) \<times> heap \<Rightarrow> bool" where
  "fills1 h d vs x \<longleftrightarrow> grows h (snd x) \<and>
     (alloc_plan h = [] \<longrightarrow> (\<exists>c. fst x = Inr c) \<and> alloc_plan (snd x) = []) \<and>
     (\<forall>c. fst x = Inr c \<longrightarrow> length (tensors h) \<le> c \<and> c < length (tensors (snd x)) \<and>
        dims_of (tensor_at (snd x) c) = d \<and> logical_values (snd x) (tensor_at (snd x) c) = vs)"

lemma makes1_fills1: "makes1 h d vs x \<Longrightarrow> fills1 h d vs x"
  by (simp add: makes1_def fills1_def)

lemma fills1_MakeCpuFull:
  assumes wf: "wf_heap h" and sh: "shape_ok sh"
  shows "fills1 h (dimensions sh) (replicate (numel sh) v) (MakeCpuFull sh v h)"
proof -
  obtain res h' where run: "MakeCpuFull sh v h = (res, h')" by force
  note ok = MakeCpuFull_ok [of h sh v]
  from run show ?thesis
  proof (cases rule: MakeCpuFull_cases)
    case (failed f)
    then have "alloc_plan h \<noteq> []" using ok run by fastforce
    then show ?thesis using run failed grows_quietly by (simp add: fills1_def)
  next
    case made
    have "alloc_plan h = [] \<longrightarrow> alloc_plan h' = []" using ok run by fastforce
    then show ?thesis
      using run made grows_adds [OF wf made(2) sh] adds_tensor_facts [OF made(2)]
        adds_tensor_fill [OF made(2) sh] by (simp add: fills1_def)
  qed
qed

section \<open>Contributions\<close>

definition gives :: "heap \<Rightarrow> (tensor_ref \<times> f32 list) list \<Rightarrow>
    (fault + contribution list) \<times> heap \<Rightarrow> bool" where
  "gives h cs x \<longleftrightarrow> grows h (snd x) \<and>
     (alloc_plan h = [] \<longrightarrow> (\<exists>out. fst x = Inr out) \<and> alloc_plan (snd x) = []) \<and>
     (\<forall>out. fst x = Inr out \<longrightarrow>
        list_all2 (\<lambda>(p, c) (q, vs). p = q \<and> length (tensors h) \<le> c \<and> c < length (tensors (snd x)) \<and>
          dims_of (tensor_at (snd x) c) = dims_of (tensor_at h p) \<and>
          logical_values (snd x) (tensor_at (snd x) c) = vs) out cs)"

lemma gives_nothing: "gives h [] (Inr [], h)"
  by (simp add: gives_def grows_refl)

lemma gives_quiet_pre:
  assumes "quietly h h1" and "alloc_plan h = [] \<longrightarrow> alloc_plan h1 = []" and "gives h1 cs x"
  shows "gives h cs x"
  using assms grows_trans [OF grows_quietly [OF assms(1)]]
  by (auto simp: gives_def quietly_def)

lemma gives_read:
  assumes wf: "wf_heap h" and r: "r < length (tensors h)"
    and rest: "\<And>h1. quietly h h1 \<Longrightarrow> wf_heap h1 \<Longrightarrow> tensors h1 = tensors h \<Longrightarrow>
      gives h1 cs (f (logical_values h (tensor_at h r)) h1)"
  shows "gives h cs (bindE (ReadLogicalCpuValues r op) f h)"
proof -
  note lay = wf_heap_layout [OF wf r]
  obtain res h1 where run: "ReadLogicalCpuValues r op h = (res, h1)" by force
  have q: "quietly h h1" using keepsD [OF quiet_ReadLogicalCpuValues run] .
  have ok: "alloc_plan h = [] \<longrightarrow> res = Inr (logical_values h (tensor_at h r)) \<and> h1 = h"
    using run read_values_ok [OF lay, of EnsureCpuFloat32 op] layout_ok_ensure [OF lay, of op]
    by (auto simp: ReadLogicalCpuValues_def)
  show ?thesis
  proof (cases res)
    case (Inl f')
    then show ?thesis using run ok grows_quietly [OF q] by (auto simp: gives_def bindE_def)
  next
    case (Inr vs)
    then have "vs = logical_values h (tensor_at h r)"
      using read_values_Inr(1) [OF lay] run by (simp add: ReadLogicalCpuValues_def)
    then show ?thesis
      using run Inr rest [OF q wf_heap_quietly [OF wf q]] q ok gives_quiet_pre [OF q]
      by (auto simp: bindE_def quietly_def)
  qed
qed

lemma gives_emit:
  assumes wf: "wf_heap h" and p: "p < length (tensors h)"
    and m: "fills1 h (dims_of (tensor_at h p)) vs (m h)"
    and f: "\<And>c. f c = emit p c"
  shows "gives h (if RequiresGrad h p then [(p, vs)] else []) (bindE m f h)"
proof -
  obtain res h1 where run: "m h = (res, h1)" by force
  show ?thesis
  proof (cases res)
    case (Inl e)
    then show ?thesis using run m by (auto simp: gives_def fills1_def bindE_def)
  next
    case (Inr c)
    have g: "grows h h1" using m run by (simp add: fills1_def)
    have "RequiresGrad h1 p = RequiresGrad h p" using grows_old(2) [OF wf g p] .
    then show ?thesis
      using run Inr m by (auto simp: gives_def fills1_def bindE_Inr_run f emit_def returnE_run)
  qed
qed

lemma gives_contribute:
  assumes wf: "wf_heap h" and p: "p < length (tensors h)"
    and len: "length vs = dims_prod (dims_of (tensor_at h p))"
  shows "gives h (if RequiresGrad h p then [(p, vs)] else []) (contribute p vs h)"
proof (cases "RequiresGrad h p")
  case True
  note lay = wf_heap_layout [OF wf p]
  have "makes1 h (dims_of (tensor_at h p)) vs (MakeCpuTensor (t_shape (tensor_at h p)) vs h)"
    using makes1_MakeCpuTensor [OF wf layout_ok_valid [OF lay] layout_ok_numel [OF lay]] len
      layout_ok_numel [OF lay] by simp
  then have "gives h (if RequiresGrad h p then [(p, vs)] else [])
      (bindE (MakeCpuTensor (t_shape (tensor_at h p)) vs) (\<lambda>c. emit p c) h)"
    by (intro gives_emit [OF wf p] makes1_fills1) simp_all
  then show ?thesis using True by (simp add: contribute_def)
next
  case False
  then show ?thesis by (simp add: contribute_def gives_nothing returnE_run)
qed

lemma gives_append:
  assumes wf: "wf_heap h" and m: "gives h cs1 (m h)"
    and k: "\<And>h1. grows h h1 \<Longrightarrow> wf_heap h1 \<Longrightarrow> gives h1 cs2 (k h1)"
    and small: "\<forall>(p, _) \<in> set cs2. p < length (tensors h)"
  shows "gives h (cs1 @ cs2) (bindE m (\<lambda>a. bindE k (\<lambda>b. returnE (a @ b))) h)"
proof -
  obtain r1 h1 where run1: "m h = (r1, h1)" by force
  have g1: "grows h h1" using m run1 by (simp add: gives_def)
  have wf1: "wf_heap h1" using grows_wf [OF wf g1] .
  show ?thesis
  proof (cases r1)
    case (Inl e)
    then show ?thesis using run1 m by (auto simp: gives_def bindE_def)
  next
    case (Inr out1)
    obtain r2 h2 where run2: "k h1 = (r2, h2)" by force
    have k2: "gives h1 cs2 (r2, h2)" using k [OF g1 wf1] run2 by simp
    have g2: "grows h1 h2" using k2 by (simp add: gives_def)
    have len1: "length (tensors h) \<le> length (tensors h1)"
      "length (tensors h1) \<le> length (tensors h2)"
      using heap_extends_lengths(3) grows_extends g1 g2 by blast+
    show ?thesis
    proof (cases r2)
      case (Inl e)
      then show ?thesis
        using run1 run2 Inr m k2 grows_trans [OF g1 g2] by (auto simp: gives_def bindE_def)
    next
      case (Inr out2)
      have a: "list_all2 (\<lambda>(p, c) (q, vs). p = q \<and> length (tensors h) \<le> c \<and>
          c < length (tensors h2) \<and> dims_of (tensor_at h2 c) = dims_of (tensor_at h p) \<and>
          logical_values h2 (tensor_at h2 c) = vs) out1 cs1"
      proof -
        have "list_all2 (\<lambda>(p, c) (q, vs). p = q \<and> length (tensors h) \<le> c \<and>
            c < length (tensors h1) \<and> dims_of (tensor_at h1 c) = dims_of (tensor_at h p) \<and>
            logical_values h1 (tensor_at h1 c) = vs) out1 cs1"
          using m run1 \<open>r1 = Inr out1\<close> by (simp add: gives_def)
        then show ?thesis
          using len1 grows_old(1,3) [OF wf1 g2]
          by (elim list_all2_mono) (auto split: prod.splits)
      qed
      have b: "list_all2 (\<lambda>(p, c) (q, vs). p = q \<and> length (tensors h) \<le> c \<and>
          c < length (tensors h2) \<and> dims_of (tensor_at h2 c) = dims_of (tensor_at h p) \<and>
          logical_values h2 (tensor_at h2 c) = vs) out2 cs2"
      proof -
        have "list_all2 (\<lambda>(p, c) (q, vs). p = q \<and> length (tensors h1) \<le> c \<and>
            c < length (tensors h2) \<and> dims_of (tensor_at h2 c) = dims_of (tensor_at h1 p) \<and>
            logical_values h2 (tensor_at h2 c) = vs) out2 cs2"
          using k2 Inr by (simp add: gives_def)
        then show ?thesis
        proof (rule list.rel_mono_strong)
          fix z y assume y: "y \<in> set cs2"
            and zy: "(\<lambda>(p, c) (q, vs). p = q \<and> length (tensors h1) \<le> c \<and> c < length (tensors h2) \<and>
              dims_of (tensor_at h2 c) = dims_of (tensor_at h1 p) \<and>
              logical_values h2 (tensor_at h2 c) = vs) z y"
          obtain p c q vs where z: "z = (p, c)" and yq: "y = (q, vs)" by (metis surj_pair)
          have "q < length (tensors h)" using small y yq by blast
          then have "tensor_at h1 q = tensor_at h q" by (rule grows_old(1) [OF wf g1])
          then show "(\<lambda>(p, c) (q, vs). p = q \<and> length (tensors h) \<le> c \<and> c < length (tensors h2) \<and>
              dims_of (tensor_at h2 c) = dims_of (tensor_at h p) \<and>
              logical_values h2 (tensor_at h2 c) = vs) z y"
            using zy z yq len1 by simp
        qed
      qed
      show ?thesis
        using run1 run2 Inr \<open>r1 = Inr out1\<close> m k2 grows_trans [OF g1 g2] list_all2_appendI [OF a b]
        by (auto simp: gives_def bindE_def returnE_run)
    qed
  qed
qed

section \<open>The operations\<close>

definition req :: "heap \<Rightarrow> tensor_ref \<Rightarrow> f32 list \<Rightarrow> (tensor_ref \<times> f32 list) list" where
  "req h p vs = (if RequiresGrad h p then [(p, vs)] else [])"

lemma req_same: "tensors h1 = tensors h \<Longrightarrow> req h1 = req h"
  by (simp add: req_def RequiresGrad_def fun_eq_iff)

lemma gives_req: 
  "wf_heap h \<Longrightarrow> p < length (tensors h) \<Longrightarrow> length vs = dims_prod (dims_of (tensor_at h p)) \<Longrightarrow>
   gives h (req h p vs) (contribute p vs h)"
  unfolding req_def by (rule gives_contribute)

lemma gives_emit_req:
  "wf_heap h \<Longrightarrow> p < length (tensors h) \<Longrightarrow> fills1 h (dims_of (tensor_at h p)) vs (m h) \<Longrightarrow>
   gives h (req h p vs) (bindE m (\<lambda>c. emit p c) h)"
  unfolding req_def by (rule gives_emit) simp_all

lemma gives_two:
  assumes wf: "wf_heap h" and p: "p < length (tensors h)" and q: "q < length (tensors h)"
    and m: "gives h (req h p vs) (m h)" and len: "length ws = dims_prod (dims_of (tensor_at h q))"
  shows "gives h (req h p vs @ req h q ws)
    (bindE m (\<lambda>a. bindE (contribute q ws) (\<lambda>b. returnE (a @ b))) h)"
proof (rule gives_append [where m = m, OF wf m])
  fix h1 assume g: "grows h h1" and wf1: "wf_heap h1"
  have "q < length (tensors h1)" using heap_extends_lengths(3) [OF grows_extends [OF g]] q by simp
  then have "gives h1 (req h1 q ws) (contribute q ws h1)"
    using grows_old(1) [OF wf g q] len by (intro gives_req [OF wf1]) simp_all
  then show "gives h1 (req h q ws) (contribute q ws h1)"
    using grows_old(2) [OF wf g q] by (simp add: req_def)
qed (use q in \<open>simp add: req_def\<close>)

lemma gives_read2:
  assumes wf: "wf_heap h" and p: "p < length (tensors h)" and q: "q < length (tensors h)"
    and rest: "\<And>h2. wf_heap h2 \<Longrightarrow> tensors h2 = tensors h \<Longrightarrow>
      gives h2 cs (f (logical_values h (tensor_at h p)) (logical_values h (tensor_at h q)) h2)"
  shows "gives h cs (bindE (ReadLogicalCpuValues p op) (\<lambda>a. bindE (ReadLogicalCpuValues q op') (f a)) h)"
proof (rule gives_read [OF wf p])
  fix h1 assume q1: "quietly h h1" and wf1: "wf_heap h1" and t1: "tensors h1 = tensors h"
  have "q < length (tensors h1)" using q t1 by simp
  then show "gives h1 cs (bindE (ReadLogicalCpuValues q op') (f (logical_values h (tensor_at h p))) h1)"
  proof (rule gives_read [OF wf1])
    fix h2 assume "quietly h1 h2" and wf2: "wf_heap h2" and t2: "tensors h2 = tensors h1"
    show "gives h2 cs (f (logical_values h (tensor_at h p)) (logical_values h1 (tensor_at h1 q)) h2)"
      using rest [OF wf2] t1 t2 quiet_logical_values [OF wf q1 q] by simp
  qed
qed

lemma apply_identity_gives:
  assumes wf: "wf_heap h" and ps: "node_parents n = [p]" and p: "p < length (tensors h)"
    and u: "u < length (tensors h)" and d: "dims_of (tensor_at h u) = dims_of (tensor_at h p)"
  shows "gives h (req h p (logical_values h (tensor_at h u))) (apply_identity n u h)"
  using gives_emit_req [OF wf p, of _ "CopyGradient u"] makes1_fills1 [OF makes1_CopyGradient [OF wf u]] d
  by (simp add: apply_identity_def first_parent_def ps)

lemma apply_sum_gives:
  assumes wf: "wf_heap h" and ps: "node_parents n = [p]" and p: "p < length (tensors h)"
    and g: "length grad = 1"
  shows "gives h (req h p (replicate (dims_prod (dims_of (tensor_at h p))) (grad ! 0))) (apply_sum n grad h)"
  using gives_emit_req [OF wf p, of _ "MakeCpuFull (t_shape (tensor_at h p)) (grad ! 0)"]
    fills1_MakeCpuFull [OF wf layout_ok_shape [OF wf_heap_layout [OF wf p]], of "grad ! 0"]
    layout_ok_numel [OF wf_heap_layout [OF wf p]] g
  by (simp add: apply_sum_def first_parent_def ps)

lemma apply_reshape_gives:
  assumes wf: "wf_heap h" and ps: "node_parents n = [p]" and p: "p < length (tensors h)"
    and u: "u < length (tensors h)"
    and d: "dims_prod (dims_of (tensor_at h u)) = dims_prod (dims_of (tensor_at h p))"
  shows "gives h (req h p (logical_values h (tensor_at h u))) (apply_reshape n u h)"
proof -
  let ?sh = "t_shape (tensor_at h p)"
  note lay = wf_heap_layout [OF wf p] and layu = wf_heap_layout [OF wf u]
  have num: "numel_of (tensor_at h u) = numel ?sh"
    using layout_ok_numel [OF lay] layout_ok_numel [OF layu] d by simp
  have run: "apply_reshape n u h = bindE (ReadLogicalCpuValues u ''autograd_reshape'')
      (\<lambda>values. bindE (MakeCpuTensor ?sh values) (\<lambda>c. emit p c)) h"
    by (simp add: apply_reshape_def first_parent_def ps CloneWithShape_def num bindE_assoc)
  show ?thesis
    unfolding run
  proof (rule gives_read [OF wf u])
    fix h1 assume wf1: "wf_heap h1" and t1: "tensors h1 = tensors h"
    have "makes1 h1 (dimensions ?sh) (logical_values h (tensor_at h u))
        (MakeCpuTensor ?sh (logical_values h (tensor_at h u)) h1)"
      using layout_ok_valid [OF lay] layout_ok_numel [OF lay] num
      by (intro makes1_MakeCpuTensor [OF wf1]) simp_all
    from gives_emit_req [OF wf1, of p, OF _ makes1_fills1] this p t1
    show "gives h1 (req h p (logical_values h (tensor_at h u)))
        (bindE (MakeCpuTensor ?sh (logical_values h (tensor_at h u))) (\<lambda>c. emit p c) h1)"
      by (simp add: req_same [OF t1])
  qed
qed

lemma apply_transpose_gives:
  assumes wf: "wf_heap h" and ps: "node_parents n = [p]" and p: "p < length (tensors h)"
    and u: "u < length (tensors h)" and dp: "dims_of (tensor_at h p) = [R, C]"
    and d: "dims_of (tensor_at h u) = [C, R]"
  shows "gives h (req h p (transpose_values (nat C) (nat R) (logical_values h (tensor_at h u))))
    (apply_transpose n u h)"
proof -
  note lay = wf_heap_layout [OF wf p]
  let ?sh = "canonical_shape [R, C]"
  have valid: "valid_dims [R, C]" using layout_ok_valid [OF lay] dp by simp
  have val: "ValidateShape (Some [R, C]) 2 = Inr ?sh"
    using ValidateShape_pointer [OF valid] by (simp add: dims_pointer_def numeral_2_eq_2)
  have run: "apply_transpose n u h = bindE (ReadLogicalCpuValues u ''autograd_transpose'')
      (\<lambda>input. bindE (MakeCpuTensor ?sh (transpose_values (nat C) (nat R) input)) (\<lambda>c. emit p c)) h"
    using d val
    by (simp add: apply_transpose_def first_parent_def ps TransposeGradient_def bindE_assoc)
  show ?thesis
    unfolding run
  proof (rule gives_read [OF wf u])
    let ?vs = "transpose_values (nat C) (nat R) (logical_values h (tensor_at h u))"
    fix h1 assume wf1: "wf_heap h1" and t1: "tensors h1 = tensors h"
    have "makes1 h1 [R, C] ?vs (MakeCpuTensor ?sh ?vs h1)"
      using makes1_MakeCpuTensor [OF wf1, of ?sh ?vs] valid by (simp add: mult.commute)
    from gives_emit_req [OF wf1, of p, OF _ makes1_fills1] this p t1 dp
    show "gives h1 (req h p ?vs) (bindE (MakeCpuTensor ?sh ?vs) (\<lambda>c. emit p c) h1)"
      by (simp add: req_same [OF t1])
  qed
qed

lemma apply_activation_gives:
  assumes wf: "wf_heap h" and ps: "node_parents n = [p]" and p: "p < length (tensors h)"
    and g: "length grad = dims_prod (dims_of (tensor_at h p))"
  shows "gives h (req h p (activation_gradient L (node_operation n) (logical_values h (tensor_at h p)) grad))
    (apply_activation L n grad h)"
proof -
  note lay = wf_heap_layout [OF wf p]
  let ?in = "logical_values h (tensor_at h p)" and ?sh = "t_shape (tensor_at h p)"
  let ?vs = "activation_gradient L (node_operation n) ?in grad"
  have run: "apply_activation L n grad h = bindE (ReadLogicalCpuValues p ''autograd_activation'')
      (\<lambda>input. bindE (checkE (length input = length grad)
         (InternalError ''autograd: activation gradient size mismatch'')) (\<lambda>_.
       bindE (getE (\<lambda>h. t_shape (tensor_at h p))) (\<lambda>shape.
       bindE (MakeCpuTensor shape (activation_gradient L (node_operation n) input grad)) (\<lambda>c.
       emit p c)))) h"
    by (simp add: apply_activation_def first_parent_def ps)
  show ?thesis
    unfolding run
  proof (rule gives_read [OF wf p])
    fix h1 assume wf1: "wf_heap h1" and t1: "tensors h1 = tensors h"
    have "makes1 h1 (dimensions ?sh) ?vs (MakeCpuTensor ?sh ?vs h1)"
      using layout_ok_valid [OF lay] layout_ok_numel [OF lay] g
      by (intro makes1_MakeCpuTensor [OF wf1]) simp_all
    from gives_emit_req [OF wf1, of p, OF _ makes1_fills1] this p t1 g layout_ok_numel [OF lay]
    show "gives h1 (req h p ?vs) (bindE (checkE (length ?in = length grad)
         (InternalError ''autograd: activation gradient size mismatch'')) (\<lambda>_.
       bindE (getE (\<lambda>h. t_shape (tensor_at h p))) (\<lambda>shape.
       bindE (MakeCpuTensor shape (activation_gradient L (node_operation n) ?in grad)) (\<lambda>c.
       emit p c))) h1)"
      by (simp add: req_same [OF t1])
  qed
qed

lemma apply_multiply_gives:
  assumes wf: "wf_heap h" and ps: "node_parents n = [p, q]" and p: "p < length (tensors h)"
    and q: "q < length (tensors h)" and d: "dims_of (tensor_at h q) = dims_of (tensor_at h p)"
    and g: "length grad = dims_prod (dims_of (tensor_at h p))"
  shows "gives h (req h p (map2 f32_mul grad (logical_values h (tensor_at h q))) @
      req h q (map2 f32_mul grad (logical_values h (tensor_at h p)))) (apply_multiply n grad h)"
proof -
  let ?f = "\<lambda>left right. bindE (checkE (length grad = length left \<and> length grad = length right)
       (InternalError ''autograd: multiply gradient size mismatch'')) (\<lambda>_.
     bindE (contribute p (multiply_values grad right (length grad))) (\<lambda>a.
     bindE (contribute q (multiply_values grad left (length grad))) (\<lambda>b.
     returnE (a @ b))))"
  have num: "length grad = numel_of (tensor_at h p)" "length grad = numel_of (tensor_at h q)"
    using layout_ok_numel [OF wf_heap_layout [OF wf]] p q d g by simp_all
  have run: "apply_multiply n grad h = bindE (ReadLogicalCpuValues p ''autograd_multiply'')
      (\<lambda>a. bindE (ReadLogicalCpuValues q ''autograd_multiply'') (?f a)) h"
    by (simp add: apply_multiply_def ps)
  show ?thesis
    unfolding run
  proof (rule gives_read2 [OF wf p q])
    fix h2 assume wf2: "wf_heap h2" and t2: "tensors h2 = tensors h"
    let ?lv = "logical_values h (tensor_at h p)" and ?rv = "logical_values h (tensor_at h q)"
    have "gives h2 (req h2 p (map2 f32_mul grad ?rv) @ req h2 q (map2 f32_mul grad ?lv))
        (bindE (contribute p (map2 f32_mul grad ?rv)) (\<lambda>a.
         bindE (contribute q (map2 f32_mul grad ?lv)) (\<lambda>b. returnE (a @ b))) h2)"
      using p q t2 d g num by (intro gives_two [OF wf2] gives_req [OF wf2]) simp_all
    then show "gives h2 (req h p (map2 f32_mul grad ?rv) @ req h q (map2 f32_mul grad ?lv))
        (?f ?lv ?rv h2)"
      using num by (simp add: req_same [OF t2] multiply_values_map2)
  qed
qed

lemma apply_matmul_gives:
  assumes wf: "wf_heap h" and ps: "node_parents n = [p, q]" and p: "p < length (tensors h)"
    and q: "q < length (tensors h)" and dp: "dims_of (tensor_at h p) = [m, k]"
    and dq: "dims_of (tensor_at h q) = [k, c]" and du: "dims_of (tensor_at h u) = [m, c]"
  shows "gives h (req h p (matmul_left_gradient (nat m) (nat k) (nat c) grad
        (logical_values h (tensor_at h q))) @
      req h q (matmul_right_gradient (nat m) (nat k) (nat c) (logical_values h (tensor_at h p)) grad))
    (apply_matmul n u grad h)"
proof -
  let ?f = "\<lambda>left right.
     bindE (contribute p (matmul_left_gradient (nat m) (nat k) (nat c) grad right)) (\<lambda>a.
     bindE (contribute q (matmul_right_gradient (nat m) (nat k) (nat c) left grad)) (\<lambda>b.
     returnE (a @ b)))"
  have run: "apply_matmul n u grad h = bindE (ReadLogicalCpuValues p ''autograd_matmul'')
      (\<lambda>a. bindE (ReadLogicalCpuValues q ''autograd_matmul'') (?f a)) h"
    using dp dq du by (simp add: apply_matmul_def ps)
  show ?thesis
    unfolding run
  proof (rule gives_read2 [OF wf p q])
    let ?lv = "logical_values h (tensor_at h p)" and ?rv = "logical_values h (tensor_at h q)"
    fix h2 assume wf2: "wf_heap h2" and t2: "tensors h2 = tensors h"
    have "gives h2 (req h2 p (matmul_left_gradient (nat m) (nat k) (nat c) grad ?rv) @
        req h2 q (matmul_right_gradient (nat m) (nat k) (nat c) ?lv grad)) (?f ?lv ?rv h2)"
      using p q t2 dp dq by (intro gives_two [OF wf2] gives_req [OF wf2]) simp_all
    then show "gives h2 (req h p (matmul_left_gradient (nat m) (nat k) (nat c) grad ?rv) @
        req h q (matmul_right_gradient (nat m) (nat k) (nat c) ?lv grad)) (?f ?lv ?rv h2)"
      by (simp add: req_same [OF t2])
  qed
qed

lemma apply_mse_gives:
  assumes wf: "wf_heap h" and ps: "node_parents n = [p, q]" and p: "p < length (tensors h)"
    and q: "q < length (tensors h)" and d: "dims_of (tensor_at h q) = dims_of (tensor_at h p)"
    and g: "length grad = 1"
  shows "gives h (let pv = logical_values h (tensor_at h p); tv = logical_values h (tensor_at h q);
        s = mse_scale (grad ! 0) (length pv)
      in req h p (mse_gradient s pv tv (length pv)) @
         req h q (mse_gradient (f32_neg s) pv tv (length tv))) (apply_mse n grad h)"
proof -
  let ?f = "\<lambda>prediction target. bindE (returnE (mse_scale (grad ! 0) (length prediction))) (\<lambda>scale.
     bindE (contribute p (mse_gradient scale prediction target (length prediction))) (\<lambda>a.
     bindE (contribute q (mse_gradient (f32_neg scale) prediction target (length target))) (\<lambda>b.
     returnE (a @ b))))"
  let ?pv = "logical_values h (tensor_at h p)" and ?tv = "logical_values h (tensor_at h q)"
  let ?s = "mse_scale (grad ! 0) (length ?pv)"
  have num: "length ?pv = dims_prod (dims_of (tensor_at h p))"
    "length ?tv = dims_prod (dims_of (tensor_at h q))"
    using layout_ok_numel [OF wf_heap_layout [OF wf]] p q by simp_all
  have run: "apply_mse n grad h = bindE (ReadLogicalCpuValues p ''autograd_mse'')
      (\<lambda>a. bindE (ReadLogicalCpuValues q ''autograd_mse'') (?f a)) h"
    using g by (simp add: apply_mse_def ps)
  have "gives h (req h p (mse_gradient ?s ?pv ?tv (length ?pv)) @
      req h q (mse_gradient (f32_neg ?s) ?pv ?tv (length ?tv))) (apply_mse n grad h)"
    unfolding run
  proof (rule gives_read2 [OF wf p q])
    fix h2 assume wf2: "wf_heap h2" and t2: "tensors h2 = tensors h"
    have "gives h2 (req h2 p (mse_gradient ?s ?pv ?tv (length ?pv)) @
        req h2 q (mse_gradient (f32_neg ?s) ?pv ?tv (length ?tv)))
        (bindE (contribute p (mse_gradient ?s ?pv ?tv (length ?pv))) (\<lambda>a.
         bindE (contribute q (mse_gradient (f32_neg ?s) ?pv ?tv (length ?tv))) (\<lambda>b.
         returnE (a @ b))) h2)"
      using p q t2 num by (intro gives_two [OF wf2] gives_req [OF wf2]) simp_all
    then show "gives h2 (req h p (mse_gradient ?s ?pv ?tv (length ?pv)) @
        req h q (mse_gradient (f32_neg ?s) ?pv ?tv (length ?tv))) (?f ?pv ?tv h2)"
      by (simp add: req_same [OF t2])
  qed
  then show ?thesis by (simp add: Let_def)
qed

lemma apply_cross_entropy_gives:
  assumes wf: "wf_heap h" and ps: "node_parents n = [p, q]" and p: "p < length (tensors h)"
    and q: "q < length (tensors h)" and dp: "dims_of (tensor_at h p) = [b, c]"
    and dq: "dims_of (tensor_at h q) = [b, c]" and g: "length grad = 1"
  shows "gives h (let lv = logical_values h (tensor_at h p); tv = logical_values h (tensor_at h q);
        s = f32_div (grad ! 0) (f32_of_nat (nat b))
      in req h p (cross_entropy_logits_gradient L s (nat b) (nat c) lv tv) @
         req h q (cross_entropy_target_gradient L s (nat b) (nat c) lv (length tv)))
    (apply_cross_entropy L n grad h)"
proof -
  let ?s = "f32_div (grad ! 0) (f32_of_nat (nat b))"
  let ?f = "\<lambda>logits target.
     bindE (contribute p (cross_entropy_logits_gradient L ?s (nat b) (nat c) logits target)) (\<lambda>a.
     bindE (contribute q (cross_entropy_target_gradient L ?s (nat b) (nat c) logits (length target)))
       (\<lambda>b. returnE (a @ b)))"
  let ?lv = "logical_values h (tensor_at h p)" and ?tv = "logical_values h (tensor_at h q)"
  have num: "length ?lv = dims_prod (dims_of (tensor_at h p))"
    "length ?tv = dims_prod (dims_of (tensor_at h q))"
    using layout_ok_numel [OF wf_heap_layout [OF wf]] p q by simp_all
  have run: "apply_cross_entropy L n grad h =
      bindE (ReadLogicalCpuValues p ''autograd_cross_entropy'')
      (\<lambda>a. bindE (ReadLogicalCpuValues q ''autograd_cross_entropy'') (?f a)) h"
    using g dp dq by (simp add: apply_cross_entropy_def ps SameShape_iff)
  have "gives h (req h p (cross_entropy_logits_gradient L ?s (nat b) (nat c) ?lv ?tv) @
      req h q (cross_entropy_target_gradient L ?s (nat b) (nat c) ?lv (length ?tv)))
      (apply_cross_entropy L n grad h)"
    unfolding run
  proof (rule gives_read2 [OF wf p q])
    fix h2 assume wf2: "wf_heap h2" and t2: "tensors h2 = tensors h"
    have "gives h2 (req h2 p (cross_entropy_logits_gradient L ?s (nat b) (nat c) ?lv ?tv) @
        req h2 q (cross_entropy_target_gradient L ?s (nat b) (nat c) ?lv (length ?tv))) (?f ?lv ?tv h2)"
      using p q t2 num by (intro gives_two [OF wf2] gives_req [OF wf2]) simp_all
    then show "gives h2 (req h p (cross_entropy_logits_gradient L ?s (nat b) (nat c) ?lv ?tv) @
        req h q (cross_entropy_target_gradient L ?s (nat b) (nat c) ?lv (length ?tv))) (?f ?lv ?tv h2)"
      by (simp add: req_same [OF t2])
  qed
  then show ?thesis by (simp add: Let_def)
qed

text \<open>A copy of the upstream gradient for a parent that requires gradients.\<close>

definition copy_to :: "tensor_ref \<Rightarrow> tensor_ref \<Rightarrow> (heap, contribution list) run" where
  "copy_to u p = bindE (getE (\<lambda>h. RequiresGrad h p)) (\<lambda>rg.
     if \<not> rg then returnE [] else bindE (CopyGradient u) (\<lambda>c. emit p c))"

lemma copy_to_gives:
  assumes wf: "wf_heap h" and p: "p < length (tensors h)" and u: "u < length (tensors h)"
    and d: "dims_of (tensor_at h u) = dims_of (tensor_at h p)"
  shows "gives h (req h p (logical_values h (tensor_at h u))) (copy_to u p h)"
proof (cases "RequiresGrad h p")
  case True
  then show ?thesis
    using gives_emit_req [OF wf p, of _ "CopyGradient u"] d
      makes1_fills1 [OF makes1_CopyGradient [OF wf u]] by (simp add: copy_to_def)
next
  case False
  then show ?thesis by (simp add: copy_to_def req_def gives_nothing returnE_run)
qed

lemma add_step_copy_to:
  "bindE (getE (\<lambda>h. RequiresGrad h p)) (\<lambda>rg. if \<not> rg then returnE out
     else bindE (CopyGradient u) (\<lambda>c. bindE (emit p c) (\<lambda>e. returnE (out @ e)))) =
   bindE (copy_to u p) (\<lambda>e. returnE (out @ e))"
proof
  fix h
  show "bindE (getE (\<lambda>h. RequiresGrad h p)) (\<lambda>rg. if \<not> rg then returnE out
     else bindE (CopyGradient u) (\<lambda>c. bindE (emit p c) (\<lambda>e. returnE (out @ e)))) h =
   bindE (copy_to u p) (\<lambda>e. returnE (out @ e)) h"
    by (simp add: copy_to_def bindE_assoc)
qed

lemma apply_add_two:
  "node_parents n = [p, q] \<Longrightarrow> apply_add n u =
     bindE (copy_to u p) (\<lambda>a. bindE (copy_to u q) (\<lambda>b. returnE (a @ b)))"
  unfolding apply_add_def add_step_copy_to
  by (simp add: bindE_assoc)

lemma apply_add_gives:
  assumes wf: "wf_heap h" and ps: "node_parents n = [p, q]" and p: "p < length (tensors h)"
    and q: "q < length (tensors h)" and u: "u < length (tensors h)"
    and dp: "dims_of (tensor_at h p) = dims_of (tensor_at h u)"
    and dq: "dims_of (tensor_at h q) = dims_of (tensor_at h u)"
  shows "gives h (req h p (logical_values h (tensor_at h u)) @
      req h q (logical_values h (tensor_at h u))) (apply_add n u h)"
  unfolding apply_add_two [OF ps]
proof (rule gives_append [where m = "copy_to u p", OF wf])
  show "gives h (req h p (logical_values h (tensor_at h u))) (copy_to u p h)"
    using dp by (intro copy_to_gives [OF wf p u]) simp
  fix h1 assume g: "grows h h1" and wf1: "wf_heap h1"
  have "length (tensors h) \<le> length (tensors h1)"
    using heap_extends_lengths(3) [OF grows_extends [OF g]] .
  then have "gives h1 (req h1 q (logical_values h1 (tensor_at h1 u))) (copy_to u q h1)"
    using q u dq grows_old(1) [OF wf g] by (intro copy_to_gives [OF wf1]) simp_all
  then show "gives h1 (req h q (logical_values h (tensor_at h u))) (copy_to u q h1)"
    using grows_old(2) [OF wf g q] grows_old(3) [OF wf g u] by (simp add: req_def)
qed (use q in \<open>simp add: req_def\<close>)

lemma apply_bias_add_gives:
  assumes wf: "wf_heap h" and ps: "node_parents n = [p, q]" and p: "p < length (tensors h)"
    and q: "q < length (tensors h)" and u: "u < length (tensors h)"
    and dp: "dims_of (tensor_at h p) = [r, c]" and dq: "dims_of (tensor_at h q) = [c]"
    and du: "dims_of (tensor_at h u) = [r, c]" and g: "grad = logical_values h (tensor_at h u)"
  shows "gives h (req h p grad @ req h q (bias_gradient (nat r) (nat c) grad))
    (apply_bias_add n u grad h)"
proof -
  have "length grad = nat r * nat c" using layout_ok_numel [OF wf_heap_layout [OF wf u]] du g by simp
  then have run: "apply_bias_add n u grad h =
      bindE (copy_to u p) (\<lambda>a. bindE (contribute q (bias_gradient (nat r) (nat c) grad))
        (\<lambda>b. returnE (a @ b))) h"
    using dp dq by (simp add: apply_bias_add_def ps copy_to_def bindE_assoc)
  show ?thesis
    unfolding run using dp dq du g
    by (intro gives_two [OF wf p q] copy_to_gives [OF wf p u, folded g]) simp_all
qed

lemma apply_swiglu_gives:
  assumes wf: "wf_heap h" and ps: "node_parents n = [p]" and p: "p < length (tensors h)"
    and dp: "dims_of (tensor_at h p) \<noteq> []" "last (dims_of (tensor_at h p)) mod 2 = 0"
    and g: "length grad = dims_prod (butlast (dims_of (tensor_at h p)) @
      [last (dims_of (tensor_at h p)) div 2])"
  shows "gives h (req h p (swiglu_gradient L
      (dims_prod (dims_of (tensor_at h p)) div nat (last (dims_of (tensor_at h p))))
      (nat (last (dims_of (tensor_at h p)))) (nat (last (dims_of (tensor_at h p)) div 2))
      (logical_values h (tensor_at h p)) grad)) (apply_swiglu L n grad h)"
proof -
  note lay = wf_heap_layout [OF wf p]
  let ?sh = "t_shape (tensor_at h p)" and ?in = "logical_values h (tensor_at h p)"
  let ?w = "last (dims_of (tensor_at h p))"
  let ?rows = "dims_prod (dims_of (tensor_at h p)) div nat ?w"
  let ?vs = "\<lambda>input. swiglu_gradient L ?rows (nat ?w) (nat (?w div 2)) input grad"
  have w: "0 < ?w" using layout_ok_valid [OF lay] dp(1) by (simp add: valid_dims_def)
  have "dims_prod (dims_of (tensor_at h p)) = dims_prod (butlast (dims_of (tensor_at h p))) * nat ?w"
    using dims_prod_append [of "butlast (dims_of (tensor_at h p))" "[?w]"]
      append_butlast_last_id [OF dp(1)] by (simp del: dims_prod_append)
  then have rows: "?rows = dims_prod (butlast (dims_of (tensor_at h p)))" using w by simp
  have run: "apply_swiglu L n grad h = bindE (ReadLogicalCpuValues p ''autograd_swiglu'')
      (\<lambda>input. bindE (MakeCpuTensor ?sh (?vs input)) (\<lambda>c. emit p c)) h"
    using dp w g rows layout_ok_numel [OF lay] by (simp add: apply_swiglu_def ps)
  show ?thesis
    unfolding run
  proof (rule gives_read [OF wf p])
    fix h1 assume wf1: "wf_heap h1" and t1: "tensors h1 = tensors h"
    have "makes1 h1 (dimensions ?sh) (?vs ?in) (MakeCpuTensor ?sh (?vs ?in) h1)"
      using layout_ok_valid [OF lay] layout_ok_numel [OF lay]
      by (intro makes1_MakeCpuTensor [OF wf1]) simp_all
    from gives_emit_req [OF wf1, of p, OF _ makes1_fills1] this p t1
    show "gives h1 (req h p (?vs ?in)) (bindE (MakeCpuTensor ?sh (?vs ?in)) (\<lambda>c. emit p c) h1)"
      by (simp add: req_same [OF t1])
  qed
qed

section \<open>Every node\<close>

lemma node_contribs_one:
  "node_parents n = [p] \<Longrightarrow> local_gradients L h n grad = [vs] \<Longrightarrow>
   node_contribs L h n grad = req h p vs"
  by (simp add: node_contribs_def req_def)

lemma node_contribs_two:
  "node_parents n = [p, q] \<Longrightarrow> local_gradients L h n grad = [vs, ws] \<Longrightarrow>
   node_contribs L h n grad = req h p vs @ req h q ws"
  by (simp add: node_contribs_def req_def)

lemma length_1_eq: "length xs = 1 \<Longrightarrow> \<exists>a. xs = [a]"
  by (cases xs) auto

lemma one_parentE:
  assumes "one_parent P (map f ps)"
  obtains p where "ps = [p]" "P (f p)"
  using assms length_1_eq [of ps] by (auto simp: one_parent_def)

lemma two_parentsE:
  assumes "two_parents P (map f ps)"
  obtains p q where "ps = [p, q]" "P (f p) (f q)"
  using assms length_2_eq [of ps] by (auto simp: two_parents_def)

lemmas local_simps = local_gradients_def Let_def

lemma apply_unary_gives:
  assumes wf: "wf_heap h" and ps: "\<forall>p \<in> set (node_parents n). p < length (tensors h)"
    and u: "u < length (tensors h)" and grad: "grad = logical_values h (tensor_at h u)"
    and ok: "node_dims_ok (node_operation n)
      (map (\<lambda>p. dims_of (tensor_at h p)) (node_parents n)) (dims_of (tensor_at h u))"
    and op: "node_operation n \<notin> {kAdd, kMultiply, kMatmul, kMse, kCrossEntropy, kBiasAdd}"
  shows "gives h (node_contribs L h n grad) (apply_operation L n u grad h)"
proof -
  obtain p where p: "node_parents n = [p]"
    using ok op by (cases "node_operation n") (auto elim!: one_parentE)
  have p': "p < length (tensors h)" using ps p by simp
  have lenu: "length grad = dims_prod (dims_of (tensor_at h u))"
    using grad layout_ok_numel [OF wf_heap_layout [OF wf u]] by simp
  show ?thesis
  proof (cases "node_operation n")
    case kIdentity
    then show ?thesis
      using apply_identity_gives [OF wf p p' u] ok p grad node_contribs_one [OF p]
      by (simp add: apply_operation_def local_simps one_parent_def)
  next
    case kReshape
    then show ?thesis
      using apply_reshape_gives [OF wf p p' u] ok p grad node_contribs_one [OF p]
      by (simp add: apply_operation_def local_simps one_parent_def)
  next
    case kTranspose2D
    then obtain R C where dp: "dims_of (tensor_at h p) = [R, C]" "dims_of (tensor_at h u) = [C, R]"
      using ok p length_2_eq by (fastforce simp: one_parent_def)
    then show ?thesis
      using apply_transpose_gives [OF wf p p' u dp] grad p node_contribs_one [OF p] kTranspose2D
      by (simp add: apply_operation_def local_simps)
  next
    case kSum
    then have "length grad = 1" using ok lenu by (simp add: one_parent_def)
    then show ?thesis
      using apply_sum_gives [OF wf p p'] p node_contribs_one [OF p] kSum
      by (simp add: apply_operation_def local_simps)
  next
    case kSwiGlu
    then show ?thesis
      using apply_swiglu_gives [OF wf p p', of grad L] ok p lenu node_contribs_one [OF p]
      by (simp add: apply_operation_def local_simps one_parent_def)
  qed (use op ok p lenu apply_activation_gives [OF wf p p', of grad L] node_contribs_one [OF p] in
    \<open>simp_all add: apply_operation_def local_simps one_parent_def\<close>)
qed

lemma apply_binary_gives:
  assumes wf: "wf_heap h" and ps: "\<forall>p \<in> set (node_parents n). p < length (tensors h)"
    and u: "u < length (tensors h)" and grad: "grad = logical_values h (tensor_at h u)"
    and ok: "node_dims_ok (node_operation n)
      (map (\<lambda>p. dims_of (tensor_at h p)) (node_parents n)) (dims_of (tensor_at h u))"
    and op: "node_operation n \<in> {kAdd, kMultiply, kMatmul, kMse, kCrossEntropy, kBiasAdd}"
  shows "gives h (node_contribs L h n grad) (apply_operation L n u grad h)"
proof -
  obtain p q where pq: "node_parents n = [p, q]"
    using ok op by (cases "node_operation n") (auto elim!: two_parentsE)
  have p: "p < length (tensors h)" and q: "q < length (tensors h)" using ps pq by simp_all
  have lenu: "length grad = dims_prod (dims_of (tensor_at h u))"
    using grad layout_ok_numel [OF wf_heap_layout [OF wf u]] by simp
  note two = node_contribs_two [OF pq]
  show ?thesis
  proof (cases "node_operation n")
    case kAdd
    then show ?thesis
      using apply_add_gives [OF wf pq p q u] ok pq grad two
      by (simp add: apply_operation_def local_simps two_parents_def)
  next
    case kMultiply
    then show ?thesis
      using apply_multiply_gives [OF wf pq p q] ok pq lenu two
      by (simp add: apply_operation_def local_simps two_parents_def)
  next
    case kMatmul
    then obtain m k c where "dims_of (tensor_at h p) = [m, k]" "dims_of (tensor_at h q) = [k, c]"
      "dims_of (tensor_at h u) = [m, c]"
      using ok pq length_2_eq [of "dims_of (tensor_at h p)"] length_2_eq [of "dims_of (tensor_at h q)"]
      by (auto simp: two_parents_def)
    then show ?thesis
      using apply_matmul_gives [OF wf pq p q] pq two kMatmul
      by (simp add: apply_operation_def local_simps)
  next
    case kMse
    then show ?thesis
      using apply_mse_gives [OF wf pq p q, of grad] ok pq lenu two
      by (simp add: apply_operation_def local_simps two_parents_def)
  next
    case kCrossEntropy
    then obtain b c where "dims_of (tensor_at h p) = [b, c]" "dims_of (tensor_at h q) = [b, c]"
      and "dims_of (tensor_at h u) = []"
      using ok pq length_2_eq [of "dims_of (tensor_at h p)"] by (auto simp: two_parents_def)
    then show ?thesis
      using apply_cross_entropy_gives [OF wf pq p q, of b c grad L] pq lenu two kCrossEntropy
      by (simp add: apply_operation_def local_simps)
  next
    case kBiasAdd
    then obtain r c where "dims_of (tensor_at h p) = [r, c]" "dims_of (tensor_at h q) = [c]"
      "dims_of (tensor_at h u) = [r, c]"
      using ok pq length_2_eq [of "dims_of (tensor_at h p)"] by (auto simp: two_parents_def)
    then show ?thesis
      using apply_bias_add_gives [OF wf pq p q u _ _ _ grad] pq two kBiasAdd
      by (simp add: apply_operation_def local_simps)
  qed (use op in auto)
qed

text \<open>The specification only looks at the dimensions and values of the parents.\<close>

lemma local_gradients_cong:
  assumes same: "\<And>p. p \<in> set (node_parents n) \<Longrightarrow> dims_of (tensor_at h1 p) = dims_of (tensor_at h p) \<and>
      logical_values h1 (tensor_at h1 p) = logical_values h (tensor_at h p)"
    and ok: "node_dims_ok (node_operation n) (map (\<lambda>p. dims_of (tensor_at h p)) (node_parents n)) d"
  shows "local_gradients L h1 n grad = local_gradients L h n grad"
proof (cases "node_operation n \<in> {kAdd, kMultiply, kMatmul, kMse, kCrossEntropy, kBiasAdd}")
  case True
  then obtain p q where "node_parents n = [p, q]"
    using ok by (cases "node_operation n") (auto elim!: two_parentsE)
  then show ?thesis
    using same [of p] same [of q] True by (auto simp: local_simps)
next
  case False
  then obtain p where "node_parents n = [p]"
    using ok by (cases "node_operation n") (auto elim!: one_parentE)
  then show ?thesis
    using same [of p] False by (cases "node_operation n") (auto simp: local_simps)
qed

lemma ApplyNode_gives:
  assumes wf: "wf_heap h" and x: "x < length (tensors h)" and fn: "grad_fn_of h x = Some n"
    and fresh: "versions_fresh h n" and u: "u < length (tensors h)"
    and d: "dims_of (tensor_at h u) = dims_of (tensor_at h x)"
  shows "gives h (node_contribs L h n (logical_values h (tensor_at h u))) (ApplyNode L n u h)"
proof -
  let ?g = "logical_values h (tensor_at h u)"
  have node: "node_ok h x n" using wf_heap_node [OF wf x fn] .
  then have ps: "\<forall>p \<in> set (node_parents n). p < length (tensors h)" using x by (auto simp: node_ok_def)
  have run: "ApplyNode L n u h = bindE (ReadLogicalCpuValues u ''autograd_backward'')
      (\<lambda>grad. apply_operation L n u grad) h"
    using ValidateSavedVersions_run [of n h] node fresh
    by (simp add: ApplyNode_def bindE_Inr_run node_ok_def)
  show ?thesis
    unfolding run
  proof (rule gives_read [OF wf u])
    fix h1 assume q1: "quietly h h1" and wf1: "wf_heap h1" and t1: "tensors h1 = tensors h"
    have vals: "logical_values h1 (tensor_at h1 r) = logical_values h (tensor_at h r)"
      if "r < length (tensors h)" for r using quiet_logical_values [OF wf q1 that] .
    have "gives h1 (node_contribs L h1 n ?g) (apply_operation L n u ?g h1)"
      using apply_unary_gives [OF wf1, of n u ?g L] apply_binary_gives [OF wf1, of n u ?g L]
        ps u t1 vals [OF u] node d by (auto simp: node_ok_def)
    moreover have "node_contribs L h1 n ?g = node_contribs L h n ?g"
    proof -
      have "local_gradients L h1 n ?g = local_gradients L h n ?g"
        using node ps vals t1 by (intro local_gradients_cong) (auto simp: node_ok_def)
      then show ?thesis using t1 by (simp add: node_contribs_def RequiresGrad_def)
    qed
    ultimately show "gives h1 (node_contribs L h n ?g) (apply_operation L n u ?g h1)" by simp
  qed
qed

end
