(* ===== verification/Backward_Pass.thy ===== *)
theory Backward_Pass
  imports Backward_Apply
begin

text \<open>
  The whole of \<open>Backward\<close>: it refines a reverse pass over pure value maps.  The heap is related to
  its state at the start by \<open>base_inv\<close>, which holds on every exit, and to the abstract maps by
  \<open>pass_inv\<close>.
\<close>

section \<open>The abstract pass\<close>

type_synonym gradient_map = "tensor_ref \<Rightarrow> f32 list option"

fun accum :: "f32 list option \<Rightarrow> f32 list \<Rightarrow> f32 list" where
  "accum None c = c"
| "accum (Some g) c = map2 f32_add g c"

definition add_to :: "gradient_map \<Rightarrow> tensor_ref \<times> f32 list \<Rightarrow> gradient_map" where
  "add_to G = (\<lambda>(p, c). G(p \<mapsto> accum (G p) c))"

definition spec_step :: "libm \<Rightarrow> heap \<Rightarrow> tensor_ref \<Rightarrow> gradient_map \<times> gradient_map \<Rightarrow>
    gradient_map \<times> gradient_map" where
  "spec_step L h r = (\<lambda>(G, F). case G r of
       None \<Rightarrow> (G, F)
     | Some u \<Rightarrow>
         (case t_meta (tensor_at h r) of
            None \<Rightarrow> (G, F)
          | Some m \<Rightarrow>
              ((case meta_grad_fn m of
                  None \<Rightarrow> G
                | Some n \<Rightarrow> foldl add_to G (node_contribs L h n u)),
               (if meta_requires_grad m \<and> meta_is_leaf m then add_to F (r, u) else F))))"

definition leaf_gradients :: "heap \<Rightarrow> gradient_map" where
  "leaf_gradients h r = (if r < length (tensors h)
     then map_option (\<lambda>g. logical_values h (tensor_at h g)) (gradient_of h r) else None)"

definition spec_backward :: "libm \<Rightarrow> heap \<Rightarrow> tensor_ref list \<Rightarrow> tensor_ref \<Rightarrow> gradient_map" where
  "spec_backward L h ts root =
     snd (fold (spec_step L h) (rev ts) ([root \<mapsto> [f32_one]], leaf_gradients h))"

section \<open>Adding into a buffer\<close>

definition adds_into :: "heap \<Rightarrow> tensor_ref \<Rightarrow> f32 list \<Rightarrow> heap \<Rightarrow> bool" where
  "adds_into h d vs h' \<longleftrightarrow> tensors h' = tensors h \<and> counters h' = counters h \<and>
     storages h' = (storages h)[t_storage (tensor_at h d) := CpuStorage vs]"

lemma buffer_contiguous:
  assumes "buffer_ok h ds d" and "valid_dims ds"
  shows "is_contiguous (tensor_at h d)"
  using assms by (simp add: buffer_ok_def is_contiguous_def row_major_is_contiguous del: One_nat_def)

lemma buffer_values:
  assumes wf: "wf_heap h" and b: "buffer_ok h ds d" and valid: "valid_dims ds"
  shows "storage_of h (tensor_at h d) = CpuStorage (logical_values h (tensor_at h d))"
proof -
  have "d < length (tensors h)" using b by (simp add: buffer_ok_def)
  note lay = wf_heap_layout [OF wf this]
  obtain vs where vs: "storage_of h (tensor_at h d) = CpuStorage vs" using lay by (auto simp: layout_ok_def)
  have "length vs = numel_of (tensor_at h d)" using b vs by (simp add: buffer_ok_def)
  then have "logical_values h (tensor_at h d) = vs"
    using b vs by (intro contiguous_logical_values [OF lay buffer_contiguous [OF b valid]])
      (simp_all add: buffer_ok_def)
  then show ?thesis using vs by simp
qed

lemma AddInPlace_cases:
  assumes wf: "wf_heap h" and s: "s < length (tensors h)" and b: "buffer_ok h ds d"
    and dims: "dims_of (tensor_at h s) = ds"
    and run: "AddInPlace d s h = (res, h')"
  obtains (failed) f where "res = Inl f" "quietly h h'" "alloc_plan h \<noteq> []"
  | (added) "res = Inr ()" "alloc_plan h = [] \<longrightarrow> alloc_plan h' = []"
      "adds_into h d (map2 f32_add (logical_values h (tensor_at h d))
         (logical_values h (tensor_at h s))) h'"
proof -
  let ?st = "t_storage (tensor_at h d)"
  have d: "d < length (tensors h)" using b by (simp add: buffer_ok_def)
  note lay = wf_heap_layout [OF wf d] and lays = wf_heap_layout [OF wf s]
  have valid: "valid_dims ds" using layout_ok_valid [OF lays] dims by simp
  have dd: "dims_of (tensor_at h d) = ds" using b by (simp add: buffer_ok_def)
  note bv = buffer_values [OF wf b valid]
  have num: "numel_of (tensor_at h s) = numel_of (tensor_at h d)"
    using layout_ok_numel [OF lay] layout_ok_numel [OF lays] dims dd by simp
  have mut: "MutableCpuValues d ''autograd_accumulate'' h = (Inr ?st, h)"
    using buffer_contiguous [OF b valid] b bv layout_ok_ensure [OF lay]
    by (simp add: MutableCpuValues_def direct_storage_def buffer_ok_def returnE_run)
  obtain r1 h1 where rd: "ReadLogicalCpuValues s ''autograd_accumulate'' h = (r1, h1)" by force
  have q: "quietly h h1" using keepsD [OF quiet_ReadLogicalCpuValues rd] .
  have ok: "alloc_plan h = [] \<longrightarrow> r1 = Inr (logical_values h (tensor_at h s)) \<and> h1 = h"
    using rd read_values_ok [OF lays, of EnsureCpuFloat32 "''autograd_accumulate''"]
      layout_ok_ensure [OF lays, of "''autograd_accumulate''"] by (auto simp: ReadLogicalCpuValues_def)
  show thesis
  proof (cases r1)
    case (Inl f)
    then have "AddInPlace d s h = (Inl f, h1)"
      using dd dims mut rd by (simp add: AddInPlace_def SameShape_iff bindE_Inr_run bindE_Inl_run)
    then show thesis using run q ok Inl failed by auto
  next
    case (Inr vs)
    note rv = read_values_Inr [OF lays rd [unfolded Inr ReadLogicalCpuValues_def]]
    have "AddInPlace d s h = (Inr (), h1\<lparr>storages := (storages h)[?st := CpuStorage
        (map2 f32_add (logical_values h (tensor_at h d)) (logical_values h (tensor_at h s)))]\<rparr>)"
      using dd dims mut rd Inr rv bv num
      by (simp add: AddInPlace_def SameShape_iff bindE_Inr_run write_values_def add_values_map2)
    then show thesis using run rv added ok by (auto simp: adds_into_def)
  qed
qed

text \<open>Overwriting an owned buffer changes the values of that buffer only.\<close>

lemma adds_into_facts:
  assumes wf: "wf_heap h" and into: "adds_into h d vs h'" and b: "buffer_ok h ds d"
    and valid: "valid_dims ds" and own: "owned h d" and len: "length vs = dims_prod ds"
  shows "wf_heap h'" "\<And>j. j < length (tensors h) \<Longrightarrow> j \<noteq> d \<Longrightarrow>
      logical_values h' (tensor_at h' j) = logical_values h (tensor_at h j)"
    "logical_values h' (tensor_at h' d) = vs"
    "\<And>ds' g. buffer_ok h' ds' g = buffer_ok h ds' g"
proof -
  let ?st = "t_storage (tensor_at h d)"
  have t: "tensors h' = tensors h" "counters h' = counters h"
    and s: "storages h' = (storages h)[?st := CpuStorage vs]"
    using into by (simp_all add: adds_into_def)
  have d: "d < length (tensors h)" using b by (simp add: buffer_ok_def)
  have st: "?st < length (storages h)" using wf_heap_layout [OF wf d] by (simp add: layout_ok_def)
  note bv = buffer_values [OF wf b valid]
  have lenv: "length (logical_values h (tensor_at h d)) = dims_prod ds"
    using b by (simp add: buffer_ok_def)
  have lenc: "length (cpu_values (storages h' ! i)) = length (cpu_values (storages h ! i))" for i
    using s bv len lenv st by (cases "i = ?st") simp_all
  show buf: "buffer_ok h' ds' g = buffer_ok h ds' g" for ds' g
    using t(1) lenc by (simp add: buffer_ok_def)
  have lay: "layout_ok h' tt" if "layout_ok h tt" for tt
  proof (cases "t_storage tt = ?st")
    case True
    then show ?thesis using that bv s t(2) len lenv st by (auto simp: layout_ok_def)
  next
    case False
    then show ?thesis using that s t(2) by (simp add: layout_ok_def)
  qed
  have node: "node_ok h' i n = node_ok h i n" for i n using t(1) by (simp add: node_ok_def)
  have "meta_ok h' i = meta_ok h i" for i unfolding meta_ok_def buf node t(1) ..
  then show "wf_heap h'" using wf lay t(1) by (simp add: wf_heap_def)
  show "logical_values h' (tensor_at h' j) = logical_values h (tensor_at h j)"
    if "j < length (tensors h)" "j \<noteq> d" for j
  proof -
    have "t_storage (tensor_at h j) \<noteq> ?st" using own that by (simp add: owned_def)
    then have "storage_of h' (tensor_at h' j) = storage_of h (tensor_at h j)" using t(1) s by simp
    then show ?thesis using t(1) by (simp add: logical_values_def)
  qed
  have "storage_of h' (tensor_at h' d) = CpuStorage vs" using t(1) s st by simp
  moreover have lay': "layout_ok h' (tensor_at h' d)"
    using lay wf_heap_layout [OF wf d] t(1) by simp
  ultimately show "logical_values h' (tensor_at h' d) = vs"
    using b buffer_contiguous [OF b valid] t(1) len
    by (intro contiguous_logical_values) (simp_all add: buffer_ok_def)
qed

section \<open>Gradient buffers are private\<close>

definition is_grad :: "heap \<Rightarrow> tensor_ref \<Rightarrow> bool" where
  "is_grad h g \<longleftrightarrow> (\<exists>i < length (tensors h). gradient_of h i = Some g)"

definition grads_owned :: "heap \<Rightarrow> bool" where
  "grads_owned h \<longleftrightarrow>
     (\<forall>i < length (tensors h). \<forall>g. gradient_of h i = Some g \<longrightarrow> owned h g \<and>
        (\<forall>j < length (tensors h). gradient_of h j = Some g \<longrightarrow> j = i)) \<and>
     (\<forall>i < length (tensors h). \<forall>p \<in> set (parents_of h i). \<not> is_grad h p)"

lemma wf_gradient_buffer:
  assumes "wf_heap h" and "i < length (tensors h)" and "gradient_of h i = Some g"
  shows "buffer_ok h (dims_of (tensor_at h i)) g"
  using assms by (cases "t_meta (tensor_at h i)") (auto simp: wf_heap_def meta_ok_def gradient_of_def)

lemma wf_gradient_less: "wf_heap h \<Longrightarrow> i < length (tensors h) \<Longrightarrow> gradient_of h i = Some g \<Longrightarrow>
    g < length (tensors h)"
  using wf_gradient_buffer [of h i g] by (simp add: buffer_ok_def)

lemma gradient_of_same: "tensor_at h' i = tensor_at h i \<Longrightarrow> gradient_of h' i = gradient_of h i"
  by (simp add: gradient_of_def)

lemma parents_of_same: "tensor_at h' i = tensor_at h i \<Longrightarrow> parents_of h' i = parents_of h i"
  by (simp add: parents_of_def grad_fn_of_def)

lemma no_meta: "t_meta (tensor_at h i) = None \<Longrightarrow> gradient_of h i = None \<and> parents_of h i = []"
  by (simp add: gradient_of_def parents_of_def grad_fn_of_def)

text \<open>Growth by tensors without metadata.\<close>

lemma grows_gradient:
  assumes wf: "wf_heap h" and g: "grows h h'" and i: "i < length (tensors h')"
  shows "gradient_of h' i = (if i < length (tensors h) then gradient_of h i else None)"
    "parents_of h' i = (if i < length (tensors h) then parents_of h i else [])"
proof -
  have "gradient_of h' i = (if i < length (tensors h) then gradient_of h i else None) \<and>
      parents_of h' i = (if i < length (tensors h) then parents_of h i else [])"
  proof (cases "i < length (tensors h)")
    case True
    have "tensor_at h' i = tensor_at h i" using grows_old(1) [OF wf g True] .
    from gradient_of_same [OF this] parents_of_same [OF this] True show ?thesis by simp
  next
    case False
    then have "t_meta (tensor_at h' i) = None" using g i by (simp add: grows_def)
    from no_meta [OF this] False show ?thesis by simp
  qed
  then show "gradient_of h' i = (if i < length (tensors h) then gradient_of h i else None)"
    "parents_of h' i = (if i < length (tensors h) then parents_of h i else [])" by simp_all
qed

lemma is_grad_grows:
  assumes wf: "wf_heap h" and g: "grows h h'"
  shows "is_grad h' x = is_grad h x"
proof -
  have "length (tensors h) \<le> length (tensors h')"
    using heap_extends_lengths(3) [OF grows_extends [OF g]] .
  then have lt: "i < length (tensors h')" if "i < length (tensors h)" for i using that by simp
  have "gradient_of h' i = Some x \<longleftrightarrow> i < length (tensors h) \<and> gradient_of h i = Some x"
    if "i < length (tensors h')" for i using grows_gradient(1) [OF wf g that] by simp
  then show ?thesis unfolding is_grad_def using lt by blast
qed

lemma owned_grows:
  assumes wf: "wf_heap h" and g: "grows h h'" and own: "owned h x"
  shows "owned h' x"
proof -
  have x: "x < length (tensors h)" using own by (simp add: owned_def)
  have len: "length (tensors h) \<le> length (tensors h')"
    using heap_extends_lengths(3) [OF grows_extends [OF g]] .
  have st: "t_storage (tensor_at h x) < length (storages h)"
    using wf_heap_layout [OF wf x] by (simp add: layout_ok_def)
  have "t_storage (tensor_at h' j) \<noteq> t_storage (tensor_at h' x)"
    if j: "j < length (tensors h')" "j \<noteq> x" for j
  proof (cases "j < length (tensors h)")
    case True
    then show ?thesis
      using own j(2) grows_old(1) [OF wf g True] grows_old(1) [OF wf g x] by (simp add: owned_def)
  next
    case False
    then have "length (storages h) \<le> t_storage (tensor_at h' j)" using g j(1) by (simp add: grows_def)
    then show ?thesis using st grows_old(1) [OF wf g x] by simp
  qed
  then show ?thesis using x len by (simp add: owned_def)
qed

lemma grads_owned_grows:
  assumes wf: "wf_heap h" and g: "grows h h'" and go: "grads_owned h"
  shows "grads_owned h'"
  unfolding grads_owned_def
proof (intro conjI allI impI ballI)
  fix i x assume i: "i < length (tensors h')" and gi: "gradient_of h' i = Some x"
  then have i': "i < length (tensors h)" "gradient_of h i = Some x"
    using grows_gradient(1) [OF wf g i] by (simp_all split: if_splits)
  then have "owned h x" using go unfolding grads_owned_def by blast
  then show "owned h' x" by (rule owned_grows [OF wf g])
  fix j assume j: "j < length (tensors h')" and gj: "gradient_of h' j = Some x"
  then have "j < length (tensors h)" "gradient_of h j = Some x"
    using grows_gradient(1) [OF wf g j] by (simp_all split: if_splits)
  then show "j = i" using go i' unfolding grads_owned_def by blast
next
  fix i p assume i: "i < length (tensors h')" and p: "p \<in> set (parents_of h' i)"
  then have "i < length (tensors h)" "p \<in> set (parents_of h i)"
    using grows_gradient(2) [OF wf g i] by (simp_all split: if_splits)
  then have "\<not> is_grad h p" using go unfolding grads_owned_def by blast
  then show "\<not> is_grad h' p" using is_grad_grows [OF wf g] by simp
qed

section \<open>The relation to the initial heap\<close>

definition core :: "tensor \<Rightarrow> tensor" where
  "core t = t\<lparr>t_meta := map_option (\<lambda>m. m\<lparr>meta_gradient := None\<rparr>) (t_meta t)\<rparr>"

definition base_inv :: "heap \<Rightarrow> heap \<Rightarrow> bool" where
  "base_inv h0 h \<longleftrightarrow> wf_heap h \<and> grads_owned h \<and> prefix (counters h0) (counters h) \<and>
     length (tensors h0) \<le> length (tensors h) \<and>
     (\<forall>i < length (tensors h0). core (tensor_at h i) = core (tensor_at h0 i) \<and>
        (gradient_of h i = gradient_of h0 i \<or> gradient_of h0 i = None \<and>
          (\<exists>g. gradient_of h i = Some g \<and> length (tensors h0) \<le> g)) \<and>
        (\<not> is_grad h0 i \<longrightarrow>
          logical_values h (tensor_at h i) = logical_values h0 (tensor_at h0 i))) \<and>
     (\<forall>g < length (tensors h). length (tensors h0) \<le> g \<longrightarrow>
        owned h g \<and> t_meta (tensor_at h g) = None)"

lemma base_invD:
  assumes "base_inv h0 h"
  shows "wf_heap h" "grads_owned h" "prefix (counters h0) (counters h)"
    "length (tensors h0) \<le> length (tensors h)"
    "i < length (tensors h0) \<Longrightarrow> core (tensor_at h i) = core (tensor_at h0 i)"
    "i < length (tensors h0) \<Longrightarrow> gradient_of h i = gradient_of h0 i \<or> gradient_of h0 i = None \<and>
      (\<exists>g. gradient_of h i = Some g \<and> length (tensors h0) \<le> g)"
    "i < length (tensors h0) \<Longrightarrow> \<not> is_grad h0 i \<Longrightarrow>
      logical_values h (tensor_at h i) = logical_values h0 (tensor_at h0 i)"
    "g < length (tensors h) \<Longrightarrow> length (tensors h0) \<le> g \<Longrightarrow> owned h g"
    "g < length (tensors h) \<Longrightarrow> length (tensors h0) \<le> g \<Longrightarrow> t_meta (tensor_at h g) = None"
  using assms unfolding base_inv_def by blast+

lemma base_invI:
  assumes "wf_heap h" "grads_owned h" "prefix (counters h0) (counters h)"
    "length (tensors h0) \<le> length (tensors h)"
    "\<And>i. i < length (tensors h0) \<Longrightarrow> core (tensor_at h i) = core (tensor_at h0 i)"
    "\<And>i. i < length (tensors h0) \<Longrightarrow> gradient_of h i = gradient_of h0 i \<or> gradient_of h0 i = None \<and>
      (\<exists>g. gradient_of h i = Some g \<and> length (tensors h0) \<le> g)"
    "\<And>i. i < length (tensors h0) \<Longrightarrow> \<not> is_grad h0 i \<Longrightarrow>
      logical_values h (tensor_at h i) = logical_values h0 (tensor_at h0 i)"
    "\<And>g. g < length (tensors h) \<Longrightarrow> length (tensors h0) \<le> g \<Longrightarrow>
      owned h g \<and> t_meta (tensor_at h g) = None"
  shows "base_inv h0 h"
  using assms unfolding base_inv_def by blast

lemma base_inv_refl: "wf_heap h \<Longrightarrow> grads_owned h \<Longrightarrow> base_inv h h"
  by (simp add: base_inv_def)

lemma core_eqD:
  assumes "core t' = core t"
  shows "t_shape t' = t_shape t" "t_storage t' = t_storage t" "t_version_counter t' = t_version_counter t"
    "t_offset t' = t_offset t"
    "map_option (\<lambda>m. m\<lparr>meta_gradient := None\<rparr>) (t_meta t') =
     map_option (\<lambda>m. m\<lparr>meta_gradient := None\<rparr>) (t_meta t)"
proof -
  have "t_shape (core t') = t_shape (core t)" "t_storage (core t') = t_storage (core t)"
    "t_version_counter (core t') = t_version_counter (core t)" "t_offset (core t') = t_offset (core t)"
    "t_meta (core t') = t_meta (core t)" using assms by simp_all
  then show "t_shape t' = t_shape t" "t_storage t' = t_storage t"
    "t_version_counter t' = t_version_counter t" "t_offset t' = t_offset t"
    "map_option (\<lambda>m. m\<lparr>meta_gradient := None\<rparr>) (t_meta t') =
     map_option (\<lambda>m. m\<lparr>meta_gradient := None\<rparr>) (t_meta t)"
    by (simp_all add: core_def)
qed

lemma core_meta:
  assumes "core t' = core t"
  shows "(t_meta t' = None) = (t_meta t = None)"
    "t_meta t' = Some m' \<Longrightarrow> t_meta t = Some m \<Longrightarrow> meta_requires_grad m' = meta_requires_grad m \<and>
      meta_is_leaf m' = meta_is_leaf m \<and> meta_grad_fn m' = meta_grad_fn m"
proof -
  note e = core_eqD(5) [OF assms]
  show "(t_meta t' = None) = (t_meta t = None)" using e by (cases "t_meta t'"; cases "t_meta t") auto
  assume "t_meta t' = Some m'" "t_meta t = Some m"
  then have eq: "m'\<lparr>meta_gradient := None\<rparr> = m\<lparr>meta_gradient := None\<rparr>" using e by simp
  have "meta_requires_grad (m'\<lparr>meta_gradient := None\<rparr>) = meta_requires_grad (m\<lparr>meta_gradient := None\<rparr>)"
    "meta_is_leaf (m'\<lparr>meta_gradient := None\<rparr>) = meta_is_leaf (m\<lparr>meta_gradient := None\<rparr>)"
    "meta_grad_fn (m'\<lparr>meta_gradient := None\<rparr>) = meta_grad_fn (m\<lparr>meta_gradient := None\<rparr>)"
    unfolding eq by (rule refl)+
  then show "meta_requires_grad m' = meta_requires_grad m \<and>
      meta_is_leaf m' = meta_is_leaf m \<and> meta_grad_fn m' = meta_grad_fn m" by simp
qed

lemma core_views:
  assumes "core (tensor_at h' i) = core (tensor_at h i)"
  shows "RequiresGrad h' i = RequiresGrad h i" "grad_fn_of h' i = grad_fn_of h i"
    "parents_of h' i = parents_of h i" "dims_of (tensor_at h' i) = dims_of (tensor_at h i)"
proof -
  have "RequiresGrad h' i = RequiresGrad h i \<and> grad_fn_of h' i = grad_fn_of h i"
  proof (cases "t_meta (tensor_at h i)")
    case None
    then show ?thesis using core_meta(1) [OF assms] by (simp add: RequiresGrad_def grad_fn_of_def)
  next
    case (Some m)
    then obtain m' where m': "t_meta (tensor_at h' i) = Some m'" using core_meta(1) [OF assms] by auto
    from core_meta(2) [OF assms m' Some] show ?thesis
      using m' Some by (simp add: RequiresGrad_def grad_fn_of_def)
  qed
  then show a: "RequiresGrad h' i = RequiresGrad h i" and b: "grad_fn_of h' i = grad_fn_of h i"
    by simp_all
  show "parents_of h' i = parents_of h i" using b by (simp add: parents_of_def)
  show "dims_of (tensor_at h' i) = dims_of (tensor_at h i)" using core_eqD(1) [OF assms] by simp
qed

lemma base_inv_grows:
  assumes b: "base_inv h0 h" and g: "grows h h'"
  shows "base_inv h0 h'"
proof -
  have wf: "wf_heap h" and go: "grads_owned h" and n: "length (tensors h0) \<le> length (tensors h)"
    using b by (simp_all add: base_inv_def)
  note e = grows_extends [OF g]
  have len: "length (tensors h) \<le> length (tensors h')" using heap_extends_lengths(3) [OF e] .
  have old: "core (tensor_at h' i) = core (tensor_at h0 i) \<and>
        (gradient_of h' i = gradient_of h0 i \<or> gradient_of h0 i = None \<and>
          (\<exists>g. gradient_of h' i = Some g \<and> length (tensors h0) \<le> g)) \<and>
        (\<not> is_grad h0 i \<longrightarrow>
          logical_values h' (tensor_at h' i) = logical_values h0 (tensor_at h0 i))"
    if i: "i < length (tensors h0)" for i
  proof -
    have i': "i < length (tensors h)" using i n by simp
    have "gradient_of h' i = gradient_of h i"
      using grows_old(1) [OF wf g i'] by (simp add: gradient_of_def)
    then show ?thesis using b i grows_old(1,3) [OF wf g i'] by (simp add: base_inv_def)
  qed
  have new: "owned h' x \<and> t_meta (tensor_at h' x) = None"
    if x: "x < length (tensors h')" "length (tensors h0) \<le> x" for x
  proof (cases "x < length (tensors h)")
    case True
    then show ?thesis
      using b x(2) owned_grows [OF wf g] grows_old(1) [OF wf g True] by (simp add: base_inv_def)
  next
    case False
    then show ?thesis using g x(1) by (simp add: grows_def)
  qed
  have "prefix (counters h0) (counters h')"
    using b e by (auto simp: base_inv_def heap_extends_def intro: prefix_order.trans)
  then show ?thesis
    using grows_wf [OF wf g] grads_owned_grows [OF wf g go] n len old new by (simp add: base_inv_def)
qed

lemma is_grad_initial:
  assumes b: "base_inv h0 h" and d: "d < length (tensors h0)" and g: "is_grad h d"
  shows "is_grad h0 d"
proof -
  obtain j where j: "j < length (tensors h)" "gradient_of h j = Some d"
    using g by (auto simp: is_grad_def)
  have "j < length (tensors h0)"
  proof (rule ccontr)
    assume "\<not> j < length (tensors h0)"
    then have "t_meta (tensor_at h j) = None" using b j(1) by (simp add: base_inv_def)
    then show False using no_meta j(2) by simp
  qed
  then have "gradient_of h0 j = Some d" using b j(2) d by (auto simp: base_inv_def)
  then show ?thesis using \<open>j < length (tensors h0)\<close> by (auto simp: is_grad_def)
qed

lemma base_inv_owned:
  assumes "base_inv h0 h" and "d < length (tensors h)" and "length (tensors h0) \<le> d \<or> is_grad h d"
  shows "owned h d"
  using assms by (auto simp: base_inv_def grads_owned_def is_grad_def)

lemma base_inv_adds_into:
  assumes b: "base_inv h0 h" and into: "adds_into h d vs h'" and buf: "buffer_ok h ds d"
    and valid: "valid_dims ds" and len: "length vs = dims_prod ds"
    and priv: "length (tensors h0) \<le> d \<or> is_grad h d"
  shows "base_inv h0 h'"
proof -
  have wf: "wf_heap h" using b by (simp add: base_inv_def)
  have own: "owned h d" using base_inv_owned [OF b _ priv] buf by (simp add: buffer_ok_def)
  note f = adds_into_facts [OF wf into buf valid own len]
  have t: "tensors h' = tensors h" "counters h' = counters h" using into by (simp_all add: adds_into_def)
  have same: "gradient_of h' = gradient_of h" "parents_of h' = parents_of h" "is_grad h' = is_grad h"
    "owned h' = owned h"
    using t(1) by (simp_all add: gradient_of_def parents_of_def grad_fn_of_def is_grad_def owned_def fun_eq_iff)
  have "logical_values h' (tensor_at h' i) = logical_values h0 (tensor_at h0 i)"
    if i: "i < length (tensors h0)" "\<not> is_grad h0 i" for i
  proof -
    have "i \<noteq> d" using i priv is_grad_initial [OF b] by auto
    moreover have "i < length (tensors h)" using i b by (simp add: base_inv_def)
    ultimately show ?thesis using f(2) b i by (simp add: base_inv_def)
  qed
  note vals = this
  have go: "grads_owned h'" using base_invD(2) [OF b] unfolding grads_owned_def same t .
  show ?thesis
    by (rule base_invI) (use base_invD [OF b] f(1) go vals in \<open>simp_all add: t same\<close>)
qed

text \<open>Publishing a first gradient.\<close>

lemma set_gradient_facts:
  assumes wf: "wf_heap h" and r: "r < length (tensors h)" and m: "t_meta (tensor_at h r) = Some m"
    and buf: "buffer_ok h (dims_of (tensor_at h r)) g"
    and h': "h' = h\<lparr>tensors := (tensors h)[r := (tensor_at h r)\<lparr>t_meta :=
      Some (m\<lparr>meta_gradient := Some g\<rparr>)\<rparr>]\<rparr>"
  shows "wf_heap h'" "\<And>i. core (tensor_at h' i) = core (tensor_at h i)"
    "\<And>i. gradient_of h' i = (if i = r then Some g else gradient_of h i)"
    "\<And>i. logical_values h' (tensor_at h' i) = logical_values h (tensor_at h i)"
    "\<And>ds x. buffer_ok h' ds x = buffer_ok h ds x"
    "\<And>i. owned h' i = owned h i" "\<And>i. parents_of h' i = parents_of h i"
proof -
  have at: "tensor_at h' i = (if i = r then (tensor_at h r)\<lparr>t_meta := Some (m\<lparr>meta_gradient := Some g\<rparr>)\<rparr>
      else tensor_at h i)" for i using h' r by simp
  have len: "length (tensors h') = length (tensors h)" "storages h' = storages h" "counters h' = counters h"
    using h' by simp_all
  show c: "core (tensor_at h' i) = core (tensor_at h i)" for i
    using m by (simp add: at core_def)
  note same = core_eqD [OF c]
  show gr: "gradient_of h' i = (if i = r then Some g else gradient_of h i)" for i
    by (simp add: at gradient_of_def)
  show "logical_values h' (tensor_at h' i) = logical_values h (tensor_at h i)" for i
    using same [of i] len(2) by (simp add: logical_values_def logical_storage_index_def)
  show buf': "buffer_ok h' ds x = buffer_ok h ds x" for ds x
    using same [of x] len core_meta(1) [OF c, of x] by (simp add: buffer_ok_def)
  show "owned h' i = owned h i" for i using same(2) len(1) by (simp add: owned_def)
  show "parents_of h' i = parents_of h i" for i by (rule core_views(3) [OF c])
  have lay: "layout_ok h' (tensor_at h' i)" if "i < length (tensors h)" for i
    using wf_heap_layout [OF wf that] len by (cases "i = r") (simp_all add: at layout_ok_def)
  have node: "node_ok h' i n = node_ok h i n" for i n
    using core_views(4) [OF c] by (simp add: node_ok_def)
  have dims: "dims_of (tensor_at h' i) = dims_of (tensor_at h i)" for i by (rule core_views(4) [OF c])
  have "meta_ok h' i" if i: "i < length (tensors h)" for i
  proof (cases "i = r")
    case True
    have "meta_ok h r" using wf r by (simp add: wf_heap_def)
    then have "case meta_grad_fn m of None \<Rightarrow> meta_is_leaf m
        | Some n \<Rightarrow> node_ok h r n \<and> meta_requires_grad m \<and> \<not> meta_is_leaf m"
      using m by (simp add: meta_ok_def)
    then show ?thesis
      using True buf unfolding meta_ok_def buf' node dims
      by (cases "meta_grad_fn m") (simp_all add: at)
  next
    case False
    then have "t_meta (tensor_at h' i) = t_meta (tensor_at h i)" by (simp add: at)
    moreover have "meta_ok h i" using wf i by (simp add: wf_heap_def)
    ultimately show ?thesis unfolding meta_ok_def buf' node dims by simp
  qed
  then show "wf_heap h'" using lay len by (simp add: wf_heap_def)
qed

lemma base_inv_set_gradient:
  assumes b: "base_inv h0 h" and r: "r < length (tensors h0)" and m: "t_meta (tensor_at h r) = Some m"
    and none: "meta_gradient m = None" and buf: "buffer_ok h (dims_of (tensor_at h r)) g"
    and g: "length (tensors h0) \<le> g" and fresh: "\<not> is_grad h g"
    and h': "h' = h\<lparr>tensors := (tensors h)[r := (tensor_at h r)\<lparr>t_meta :=
      Some (m\<lparr>meta_gradient := Some g\<rparr>)\<rparr>]\<rparr>"
  shows "base_inv h0 h'"
proof -
  have wf: "wf_heap h" and r': "r < length (tensors h)" and go: "grads_owned h"
    using b r by (simp_all add: base_inv_def)
  note f = set_gradient_facts [OF wf r' m buf h']
  have gr: "gradient_of h r = None" using m none by (simp add: gradient_of_def)
  have len: "length (tensors h') = length (tensors h)" "counters h' = counters h" using h' by simp_all
  have gl: "g < length (tensors h)" using buf by (simp add: buffer_ok_def)
  have ig: "is_grad h' x \<longleftrightarrow> is_grad h x \<or> x = g" for x
  proof
    assume "is_grad h' x"
    then show "is_grad h x \<or> x = g" using f(3) len by (auto simp: is_grad_def split: if_splits)
  next
    assume "is_grad h x \<or> x = g"
    then show "is_grad h' x"
    proof
      assume "is_grad h x"
      then obtain i where i: "i < length (tensors h)" "gradient_of h i = Some x"
        by (auto simp: is_grad_def)
      then have "i \<noteq> r" using gr by auto
      then show ?thesis using i f(3) len unfolding is_grad_def by auto
    next
      assume "x = g"
      then show ?thesis using f(3) len r' unfolding is_grad_def by auto
    qed
  qed
  have own: "owned h g" using base_inv_owned [OF b gl] g by simp
  have go': "grads_owned h'"
    unfolding grads_owned_def
  proof (intro conjI allI impI ballI)
    fix i x assume i: "i < length (tensors h')" and gi: "gradient_of h' i = Some x"
    show "owned h' x"
    proof (cases "i = r")
      case True then show ?thesis using gi f(3,6) own by simp
    next
      case False
      then have "gradient_of h i = Some x" using gi f(3) by simp
      moreover have "i < length (tensors h)" using i len by simp
      ultimately have "owned h x" using go unfolding grads_owned_def by blast
      then show ?thesis using f(6) by simp
    qed
    fix j assume j: "j < length (tensors h')" and gj: "gradient_of h' j = Some x"
    show "j = i"
    proof (cases "x = g")
      case True
      have "\<not> (i \<noteq> r)" "\<not> (j \<noteq> r)"
        using True gi gj f(3) fresh i j len unfolding is_grad_def by (auto split: if_splits)
      then show ?thesis by simp
    next
      case False
      then have "i \<noteq> r" "j \<noteq> r" using gi gj f(3) by auto
      then have "gradient_of h i = Some x" "gradient_of h j = Some x" using gi gj f(3) by simp_all
      moreover have "i < length (tensors h)" "j < length (tensors h)" using i j len by simp_all
      ultimately show ?thesis using go unfolding grads_owned_def by blast
    qed
  next
    fix i p assume i: "i < length (tensors h')" and p: "p \<in> set (parents_of h' i)"
    have p': "p \<in> set (parents_of h i)" and i': "i < length (tensors h)" using i p f(7) len by simp_all
    have "\<not> is_grad h p" using go i' p' unfolding grads_owned_def by blast
    moreover have "p \<noteq> g"
    proof -
      have "i < length (tensors h0)"
      proof (rule ccontr)
        assume "\<not> i < length (tensors h0)"
        then have "t_meta (tensor_at h i) = None" using b i' by (simp add: base_inv_def)
        then show False using p' no_meta by simp
      qed
      moreover have "p < i" using wf_parents_less [OF wf i' p'] .
      ultimately show ?thesis using g by simp
    qed
    ultimately show "\<not> is_grad h' p" using ig by simp
  qed
  have old': "core (tensor_at h' i) = core (tensor_at h0 i) \<and>
        (gradient_of h' i = gradient_of h0 i \<or> gradient_of h0 i = None \<and>
          (\<exists>g. gradient_of h' i = Some g \<and> length (tensors h0) \<le> g)) \<and>
        (\<not> is_grad h0 i \<longrightarrow>
          logical_values h' (tensor_at h' i) = logical_values h0 (tensor_at h0 i))"
    if i: "i < length (tensors h0)" for i
  proof -
    have old: "core (tensor_at h i) = core (tensor_at h0 i)"
      "gradient_of h i = gradient_of h0 i \<or> gradient_of h0 i = None \<and>
          (\<exists>g. gradient_of h i = Some g \<and> length (tensors h0) \<le> g)"
      "\<not> is_grad h0 i \<longrightarrow> logical_values h (tensor_at h i) = logical_values h0 (tensor_at h0 i)"
      using b i by (simp_all add: base_inv_def)
    show ?thesis
      using old f(2,3,4) gr g by (cases "i = r") auto
  qed
  have new': "owned h' x \<and> t_meta (tensor_at h' x) = None"
    if "x < length (tensors h')" "length (tensors h0) \<le> x" for x
  proof -
    have "owned h x \<and> t_meta (tensor_at h x) = None" using b that len by (simp add: base_inv_def)
    moreover have "x \<noteq> r" using that(2) r by simp
    ultimately show ?thesis using f(6) h' by simp
  qed
  show ?thesis
  proof (rule base_invI)
    show "wf_heap h'" by (rule f(1))
    show "grads_owned h'" by (rule go')
    show "prefix (counters h0) (counters h')" "length (tensors h0) \<le> length (tensors h')"
      using base_invD(3,4) [OF b] len by simp_all
  qed (use old' new' in \<open>blast+\<close>)
qed

section \<open>Steps of the pass\<close>

definition step_ok :: "heap \<Rightarrow> heap \<Rightarrow> (fault + 'a) \<times> heap \<Rightarrow> ('a \<Rightarrow> heap \<Rightarrow> bool) \<Rightarrow> bool" where
  "step_ok h0 h x Q \<longleftrightarrow> base_inv h0 (snd x) \<and>
     (alloc_plan h = [] \<longrightarrow> (\<exists>a. fst x = Inr a) \<and> alloc_plan (snd x) = []) \<and>
     (\<forall>a. fst x = Inr a \<longrightarrow> Q a (snd x))"

lemma step_ok_return: "base_inv h0 h \<Longrightarrow> Q a h \<Longrightarrow> step_ok h0 h (returnE a h) Q"
  by (simp add: step_ok_def returnE_run)

lemma step_ok_bind:
  assumes "step_ok h0 h (m h) Q"
    and "\<And>a h1. Q a h1 \<Longrightarrow> base_inv h0 h1 \<Longrightarrow> step_ok h0 h1 (f a h1) R"
  shows "step_ok h0 h (bindE m f h) R"
proof -
  obtain r h1 where m: "m h = (r, h1)" by force
  show ?thesis
  proof (cases r)
    case (Inl e)
    then show ?thesis using assms(1) m by (auto simp: step_ok_def bindE_def)
  next
    case (Inr a)
    then have "Q a h1" "base_inv h0 h1" "alloc_plan h = [] \<longrightarrow> alloc_plan h1 = []"
      using assms(1) m by (auto simp: step_ok_def)
    then show ?thesis using assms(2) [of a h1] m Inr by (auto simp: step_ok_def bindE_def)
  qed
qed

lemma step_ok_fold:
  assumes "J xs acc h" and "base_inv h0 h"
    and "\<And>x xs acc h. J (x # xs) acc h \<Longrightarrow> base_inv h0 h \<Longrightarrow> step_ok h0 h (f x acc h) (J xs)"
  shows "step_ok h0 h (foldE xs acc f h) (J [])"
  using assms(1,2)
proof (induction xs arbitrary: acc h)
  case Nil
  then show ?case by (simp add: step_ok_return)
next
  case (Cons x xs)
  show ?case
    unfolding foldE.simps
    by (rule step_ok_bind [where Q = "J xs"]) (use Cons assms(3) in auto)
qed

definition gs_inv :: "heap \<Rightarrow> tensor_ref \<Rightarrow> heap \<Rightarrow> (tensor_ref \<times> tensor_ref) list \<Rightarrow> bool" where
  "gs_inv h0 root h gs \<longleftrightarrow> (\<forall>r g. map_of gs r = Some g \<longrightarrow>
     r < length (tensors h0) \<and> length (tensors h0) \<le> g \<and> g < length (tensors h) \<and> \<not> is_grad h g \<and>
     dims_of (tensor_at h g) = dims_of (tensor_at h0 r) \<and>
     (r \<noteq> root \<longrightarrow> buffer_ok h (dims_of (tensor_at h0 r)) g) \<and>
     (\<forall>r'. map_of gs r' = Some g \<longrightarrow> r' = r))"

definition gview :: "heap \<Rightarrow> (tensor_ref \<times> tensor_ref) list \<Rightarrow> gradient_map" where
  "gview h gs r = map_option (\<lambda>g. logical_values h (tensor_at h g)) (map_of gs r)"

definition lview :: "heap \<Rightarrow> heap \<Rightarrow> gradient_map" where
  "lview h0 h r = (if r < length (tensors h0)
     then map_option (\<lambda>g. logical_values h (tensor_at h g)) (gradient_of h r) else None)"

text \<open>A contribution that no map refers to.\<close>

definition temp :: "heap \<Rightarrow> heap \<Rightarrow> (tensor_ref \<times> tensor_ref) list \<Rightarrow> tensor_ref \<Rightarrow> bool" where
  "temp h0 h gs c \<longleftrightarrow> length (tensors h0) \<le> c \<and> c < length (tensors h) \<and> \<not> is_grad h c \<and>
     (\<forall>r. map_of gs r \<noteq> Some c)"

lemma gs_invD:
  assumes "gs_inv h0 root h gs" and "map_of gs r = Some g"
  shows "r < length (tensors h0)" "length (tensors h0) \<le> g" "g < length (tensors h)" "\<not> is_grad h g"
    "dims_of (tensor_at h g) = dims_of (tensor_at h0 r)"
    "r \<noteq> root \<Longrightarrow> buffer_ok h (dims_of (tensor_at h0 r)) g"
    "map_of gs r' = Some g \<Longrightarrow> r' = r"
  using assms unfolding gs_inv_def by blast+

lemma dims_initial:
  "base_inv h0 h \<Longrightarrow> r < length (tensors h0) \<Longrightarrow> dims_of (tensor_at h r) = dims_of (tensor_at h0 r)"
  using core_views(4) base_invD(5) by blast

lemma valid_initial:
  assumes "base_inv h0 h" and "r < length (tensors h0)"
  shows "valid_dims (dims_of (tensor_at h0 r))"
proof -
  have "r < length (tensors h)" using assms base_invD(4) by fastforce
  then show ?thesis
    using layout_ok_valid [OF wf_heap_layout [OF base_invD(1) [OF assms(1)]]] dims_initial [OF assms]
    by fastforce
qed

lemma pass_grows:
  assumes b: "base_inv h0 h" and gs: "gs_inv h0 root h gs" and g: "grows h h'"
  shows "gs_inv h0 root h' gs" "gview h' gs = gview h gs" "lview h0 h' = lview h0 h"
    "\<And>c. temp h0 h gs c \<Longrightarrow> temp h0 h' gs c"
proof -
  have wf: "wf_heap h" using base_invD(1) [OF b] .
  have len: "length (tensors h) \<le> length (tensors h')"
    using heap_extends_lengths(3) [OF grows_extends [OF g]] .
  note ig = is_grad_grows [OF wf g] and old = grows_old [OF wf g]
  have buf: "buffer_ok h' ds x" if "buffer_ok h ds x" for ds x
  proof -
    have "x < length (tensors h)" using that by (simp add: buffer_ok_def)
    then have "t_storage (tensor_at h x) < length (storages h)"
      using wf_heap_layout [OF wf] by (simp add: layout_ok_def)
    then show ?thesis by (rule buffer_ok_ext [OF that grows_extends [OF g]])
  qed
  show "gs_inv h0 root h' gs"
    unfolding gs_inv_def
  proof (intro allI impI)
    fix r x assume m: "map_of gs r = Some x"
    note d = gs_invD [OF gs m]
    show "r < length (tensors h0) \<and> length (tensors h0) \<le> x \<and> x < length (tensors h') \<and>
      \<not> is_grad h' x \<and> dims_of (tensor_at h' x) = dims_of (tensor_at h0 r) \<and>
      (r \<noteq> root \<longrightarrow> buffer_ok h' (dims_of (tensor_at h0 r)) x) \<and>
      (\<forall>r'. map_of gs r' = Some x \<longrightarrow> r' = r)"
      using d(1-6) len ig buf old(1) [OF d(3)] d(7) by auto
  qed
  show "gview h' gs = gview h gs"
  proof
    fix r show "gview h' gs r = gview h gs r"
      using gs_invD(3) [OF gs] old(3) by (cases "map_of gs r") (auto simp: gview_def)
  qed
  show "lview h0 h' = lview h0 h"
  proof
    fix r show "lview h0 h' r = lview h0 h r"
    proof (cases "r < length (tensors h0)")
      case True
      then have r: "r < length (tensors h)" using base_invD(4) [OF b] by simp
      have "gradient_of h' r = gradient_of h r" using gradient_of_same [OF old(1) [OF r]] .
      then show ?thesis
        using wf_gradient_less [OF wf r] old(3) True by (cases "gradient_of h r") (auto simp: lview_def)
    qed (simp add: lview_def)
  qed
  show "temp h0 h' gs c" if "temp h0 h gs c" for c using that len ig by (simp add: temp_def)
qed


lemma values_length:
  "wf_heap h \<Longrightarrow> i < length (tensors h) \<Longrightarrow>
   length (logical_values h (tensor_at h i)) = dims_prod (dims_of (tensor_at h i))"
  using layout_ok_numel [OF wf_heap_layout] by simp

lemma is_grad_less: "wf_heap h \<Longrightarrow> is_grad h g \<Longrightarrow> g < length (tensors h)"
  using wf_gradient_less by (auto simp: is_grad_def)

lemma pass_adds_into:
  assumes b: "base_inv h0 h" and gs: "gs_inv h0 root h gs" and into: "adds_into h d vs h'"
    and buf: "buffer_ok h ds d" and valid: "valid_dims ds" and len: "length vs = dims_prod ds"
    and priv: "length (tensors h0) \<le> d \<or> is_grad h d"
  shows "base_inv h0 h'" "gs_inv h0 root h' gs" "tensors h' = tensors h"
    "logical_values h' (tensor_at h' d) = vs"
    "\<And>j. j < length (tensors h) \<Longrightarrow> j \<noteq> d \<Longrightarrow>
      logical_values h' (tensor_at h' j) = logical_values h (tensor_at h j)"
    "\<And>c. temp h0 h gs c \<Longrightarrow> temp h0 h' gs c"
proof -
  have wf: "wf_heap h" using base_invD(1) [OF b] .
  have own: "owned h d" using base_inv_owned [OF b _ priv] buf by (simp add: buffer_ok_def)
  note f = adds_into_facts [OF wf into buf valid own len]
  show "base_inv h0 h'" by (rule base_inv_adds_into [OF b into buf valid len priv])
  show t: "tensors h' = tensors h" using into by (simp add: adds_into_def)
  have ig: "is_grad h' = is_grad h" by (simp add: is_grad_def gradient_of_def t fun_eq_iff)
  show "gs_inv h0 root h' gs" using gs unfolding gs_inv_def f(4) t ig .
  show "logical_values h' (tensor_at h' d) = vs" by (rule f(3))
  show "logical_values h' (tensor_at h' j) = logical_values h (tensor_at h j)"
    if "j < length (tensors h)" "j \<noteq> d" for j using f(2) that .
  show "temp h0 h' gs c" if "temp h0 h gs c" for c using that unfolding temp_def t ig .
qed

text \<open>The gradients of the other tensors, and contributions not yet used, keep their values.\<close>

definition keeps_temps :: "heap \<Rightarrow> heap \<Rightarrow> (tensor_ref \<times> tensor_ref) list \<Rightarrow> heap \<Rightarrow>
    (tensor_ref \<times> tensor_ref) list \<Rightarrow> bool" where
  "keeps_temps h0 h gs h' gs' \<longleftrightarrow> (\<forall>c. temp h0 h gs c \<longrightarrow> temp h0 h' gs' c \<and>
     dims_of (tensor_at h' c) = dims_of (tensor_at h c) \<and>
     logical_values h' (tensor_at h' c) = logical_values h (tensor_at h c))"

lemma add_to_apply:
  "add_to G (p, c) r = (if r = p then Some (accum (G p) c) else G r)"
  by (simp add: add_to_def)

lemma accumulate_entry:
  assumes b: "base_inv h0 h" and gs: "gs_inv h0 root h gs" and t: "temp h0 h gs c"
    and p: "p < length (tensors h0)" "p \<noteq> root"
    and dims: "dims_of (tensor_at h c) = dims_of (tensor_at h0 p)"
  shows "step_ok h0 h (bindE (Accumulate (map_of gs p) c) (\<lambda>d. returnE (AList.update p d gs)) h)
    (\<lambda>gs' h'. gs_inv h0 root h' gs' \<and> lview h0 h' = lview h0 h \<and>
       gview h' gs' = add_to (gview h gs) (p, logical_values h (tensor_at h c)) \<and>
       keeps_temps h0 h gs h' gs')"
proof (cases "map_of gs p")
  case None
  have wf: "wf_heap h" using base_invD(1) [OF b] .
  have c: "c < length (tensors h)" using t by (simp add: temp_def)
  obtain res h1 where run: "CopyGradient c h = (res, h1)" by force
  have mk: "makes1 h (dims_of (tensor_at h0 p)) (logical_values h (tensor_at h c)) (res, h1)"
    using makes1_CopyGradient [OF wf c] run dims by simp
  then have g: "grows h h1" by (simp add: makes1_def)
  have b1: "base_inv h0 h1" using base_inv_grows [OF b g] .
  note pg = pass_grows [OF b gs g]
  show ?thesis
  proof (cases res)
    case (Inl f)
    then show ?thesis
      using run mk None b1 by (simp add: Accumulate_def bindE_Inl_run step_ok_def makes1_def)
  next
    case (Inr d)
    have d: "length (tensors h) \<le> d" "d < length (tensors h1)"
      "logical_values h1 (tensor_at h1 d) = logical_values h (tensor_at h c)"
      "buffer_ok h1 (dims_of (tensor_at h0 p)) d" "dims_of (tensor_at h1 d) = dims_of (tensor_at h0 p)"
      "alloc_plan h = [] \<longrightarrow> alloc_plan h1 = []"
      using mk Inr by (simp_all add: makes1_def)
    have fresh: "map_of gs r \<noteq> Some d" for r using gs_invD(3) [OF gs] d(1) by fastforce
    have ng: "\<not> is_grad h1 d" using is_grad_less [OF wf, of d] is_grad_grows [OF wf g] d(1) by auto
    let ?gs = "AList.update p d gs"
    have mo: "map_of ?gs = (map_of gs)(p \<mapsto> d)" by (rule update_conv')
    have n0: "length (tensors h0) \<le> length (tensors h)" using base_invD(4) [OF b] .
    have "gs_inv h0 root h1 ?gs"
      unfolding gs_inv_def
    proof (intro allI impI)
      fix r g' assume m: "map_of ?gs r = Some g'"
      show "r < length (tensors h0) \<and> length (tensors h0) \<le> g' \<and> g' < length (tensors h1) \<and>
        \<not> is_grad h1 g' \<and> dims_of (tensor_at h1 g') = dims_of (tensor_at h0 r) \<and>
        (r \<noteq> root \<longrightarrow> buffer_ok h1 (dims_of (tensor_at h0 r)) g') \<and>
        (\<forall>r'. map_of ?gs r' = Some g' \<longrightarrow> r' = r)"
      proof (cases "r = p")
        case True
        then have "g' = d" using m mo by simp
        then show ?thesis using True p d ng n0 fresh mo by (auto split: if_splits)
      next
        case False
        then have m': "map_of gs r = Some g'" using m mo by simp
        have "g' \<noteq> d" using m' fresh by auto
        then show ?thesis using gs_invD [OF pg(1) m'] mo by (auto split: if_splits)
      qed
    qed
    moreover have "gview h1 ?gs = add_to (gview h gs) (p, logical_values h (tensor_at h c))"
    proof
      fix r
      have "gview h1 gs r = gview h gs r" using pg(2) by simp
      then show "gview h1 ?gs r = add_to (gview h gs) (p, logical_values h (tensor_at h c)) r"
        using None d(3) by (simp add: gview_def mo add_to_apply)
    qed
    moreover have "keeps_temps h0 h gs h1 ?gs"
      unfolding keeps_temps_def
    proof (intro allI impI)
      fix x assume x: "temp h0 h gs x"
      have xl: "x < length (tensors h)" using x by (simp add: temp_def)
      have "temp h0 h1 ?gs x" using pg(4) [OF x] xl d(1) mo by (auto simp: temp_def)
      then show "temp h0 h1 ?gs x \<and> dims_of (tensor_at h1 x) = dims_of (tensor_at h x) \<and>
          logical_values h1 (tensor_at h1 x) = logical_values h (tensor_at h x)"
        using grows_old [OF wf g xl] by simp
    qed
    ultimately show ?thesis
      using run Inr None b1 pg(3) d(6)
      by (simp add: Accumulate_def bindE_Inr_run step_ok_def returnE_run)
  qed
next
  case (Some d)
  have wf: "wf_heap h" using base_invD(1) [OF b] .
  have c: "c < length (tensors h)" using t by (simp add: temp_def)
  note gd = gs_invD [OF gs Some]
  have buf: "buffer_ok h (dims_of (tensor_at h0 p)) d" using gd(6) p(2) by simp
  obtain res h1 where run: "AddInPlace d c h = (res, h1)" by force
  from wf c buf dims run show ?thesis
  proof (cases rule: AddInPlace_cases)
    case (failed f)
    then have "base_inv h0 h1" using base_inv_grows [OF b grows_quietly] by blast
    then show ?thesis
      using run failed Some
      by (auto simp: Accumulate_def bindE_def step_ok_def)
  next
    case added
    let ?vs = "map2 f32_add (logical_values h (tensor_at h d)) (logical_values h (tensor_at h c))"
    have len: "length ?vs = dims_prod (dims_of (tensor_at h0 p))"
      using values_length [OF wf c] values_length [OF wf gd(3)] dims gd(5) by simp
    note pa = pass_adds_into [OF b gs added(3) buf valid_initial [OF b p(1)] len disjI1 [OF gd(2)]]
    let ?gs = "AList.update p d gs"
    have mo: "map_of ?gs = map_of gs" using Some by (simp add: update_conv' map_upd_triv)
    have "gs_inv h0 root h1 ?gs" using pa(2) unfolding gs_inv_def mo .
    moreover have "gview h1 ?gs = add_to (gview h gs) (p, logical_values h (tensor_at h c))"
    proof
      fix r
      show "gview h1 ?gs r = add_to (gview h gs) (p, logical_values h (tensor_at h c)) r"
      proof (cases "r = p")
        case True
        then show ?thesis using Some pa(4) by (simp add: gview_def mo add_to_apply)
      next
        case False
        have "logical_values h1 (tensor_at h1 g) = logical_values h (tensor_at h g)"
          if m: "map_of gs r = Some g" for g
        proof (rule pa(5) [OF gs_invD(3) [OF gs m]])
          show "g \<noteq> d" using gs_invD(7) [OF gs m] Some False by auto
        qed
        then show ?thesis using False by (cases "map_of gs r") (auto simp: gview_def mo add_to_apply)
      qed
    qed
    moreover have "lview h0 h1 = lview h0 h"
    proof
      fix r
      have gr: "gradient_of h1 r = gradient_of h r" using pa(3) by (simp add: gradient_of_def)
      have "logical_values h1 (tensor_at h1 g) = logical_values h (tensor_at h g)"
        if r: "r < length (tensors h0)" and m: "gradient_of h r = Some g" for g
      proof (rule pa(5))
        have r': "r < length (tensors h)" using r base_invD(4) [OF b] by simp
        show "g < length (tensors h)" using wf_gradient_less [OF wf r' m] .
        show "g \<noteq> d" using gd(4) m r' by (auto simp: is_grad_def)
      qed
      then show "lview h0 h1 r = lview h0 h r"
        using gr by (cases "gradient_of h r") (auto simp: lview_def)
    qed
    moreover have "keeps_temps h0 h gs h1 ?gs"
      unfolding keeps_temps_def
    proof (intro allI impI)
      fix x assume x: "temp h0 h gs x"
      have "x < length (tensors h)" "x \<noteq> d" using x Some by (auto simp: temp_def)
      then show "temp h0 h1 ?gs x \<and> dims_of (tensor_at h1 x) = dims_of (tensor_at h x) \<and>
          logical_values h1 (tensor_at h1 x) = logical_values h (tensor_at h x)"
        using pa(3,5) pa(6) [OF x] mo by (simp add: temp_def)
    qed
    ultimately show ?thesis
      using run added Some pa(1)
      by (simp add: Accumulate_def bindE_Inr_run step_ok_def returnE_run)
  qed
qed


text \<open>Publishing a leaf's gradient.\<close>

lemma lview_value:
  "r < length (tensors h0) \<Longrightarrow> gradient_of h r = Some g \<Longrightarrow>
   lview h0 h r = Some (logical_values h (tensor_at h g))"
  by (simp add: lview_def)

lemma pass_set_gradient:
  assumes b: "base_inv h0 h" and gs: "gs_inv h0 root h gs"
    and r: "r < length (tensors h0)" and m: "t_meta (tensor_at h r) = Some m"
    and none: "meta_gradient m = None" and buf: "buffer_ok h (dims_of (tensor_at h r)) g"
    and t: "temp h0 h gs g"
    and h': "h' = h\<lparr>tensors := (tensors h)[r := (tensor_at h r)\<lparr>t_meta :=
      Some (m\<lparr>meta_gradient := Some g\<rparr>)\<rparr>]\<rparr>"
  shows "base_inv h0 h'" "gs_inv h0 root h' gs" "gview h' gs = gview h gs"
    "lview h0 h' = add_to (lview h0 h) (r, logical_values h (tensor_at h g))"
proof -
  have wf: "wf_heap h" using base_invD(1) [OF b] .
  have r': "r < length (tensors h)" using r base_invD(4) [OF b] by simp
  have g: "length (tensors h0) \<le> g" "\<not> is_grad h g" using t by (simp_all add: temp_def)
  show "base_inv h0 h'" by (rule base_inv_set_gradient [OF b r m none buf g h'])
  note f = set_gradient_facts [OF wf r' m buf h']
  have len: "length (tensors h') = length (tensors h)" using h' by simp
  have ig: "is_grad h' x \<Longrightarrow> x \<noteq> g \<Longrightarrow> is_grad h x" for x
    using f(3) len by (auto simp: is_grad_def split: if_splits)
  have dims: "dims_of (tensor_at h' x) = dims_of (tensor_at h x)" for x
    using core_views(4) [OF f(2)] .
  show "gs_inv h0 root h' gs"
    unfolding gs_inv_def
  proof (intro allI impI)
    fix q x assume mx: "map_of gs q = Some x"
    have "x \<noteq> g" using t mx by (auto simp: temp_def)
    then show "q < length (tensors h0) \<and> length (tensors h0) \<le> x \<and> x < length (tensors h') \<and>
      \<not> is_grad h' x \<and> dims_of (tensor_at h' x) = dims_of (tensor_at h0 q) \<and>
      (q \<noteq> root \<longrightarrow> buffer_ok h' (dims_of (tensor_at h0 q)) x) \<and>
      (\<forall>r'. map_of gs r' = Some x \<longrightarrow> r' = q)"
      using gs_invD [OF gs mx] ig len f(5) dims by auto
  qed
  show "gview h' gs = gview h gs" by (simp add: gview_def f(4) fun_eq_iff)
  show "lview h0 h' = add_to (lview h0 h) (r, logical_values h (tensor_at h g))"
  proof
    fix q
    have "gradient_of h r = None" using m none by (simp add: gradient_of_def)
    then show "lview h0 h' q = add_to (lview h0 h) (r, logical_values h (tensor_at h g)) q"
      using r by (simp add: lview_def f(3,4) add_to_apply)
  qed
qed

lemma set_autograd_meta_same:
  assumes "t_meta (tensor_at h r) = Some m"
  shows "set_autograd_meta r m h = (Inr (), h)"
proof -
  have "(tensor_at h r)\<lparr>t_meta := Some m\<rparr> = tensor_at h r"
    using assms by (cases "tensor_at h r") simp
  then show ?thesis by (simp add: set_autograd_meta_def)
qed

lemma AccumulateLeaf_step:
  assumes b: "base_inv h0 h" and gs: "gs_inv h0 root h gs"
    and r: "r < length (tensors h0)" and m: "t_meta (tensor_at h r) = Some m"
    and u: "map_of gs r = Some u"
  shows "step_ok h0 h (AccumulateLeaf r u h) (\<lambda>_ h'. gs_inv h0 root h' gs \<and>
    gview h' gs = gview h gs \<and>
    lview h0 h' = add_to (lview h0 h) (r, logical_values h (tensor_at h u)))"
proof (cases "meta_gradient m")
  case None
  have wf: "wf_heap h" using base_invD(1) [OF b] .
  note ud = gs_invD [OF gs u]
  have r': "r < length (tensors h)" using r base_invD(4) [OF b] by simp
  have gr: "gradient_of h r = None" using None m by (simp add: gradient_of_def)
  obtain res h1 where run: "CopyGradient u h = (res, h1)" by force
  have mk: "makes1 h (dims_of (tensor_at h0 r)) (logical_values h (tensor_at h u)) (res, h1)"
    using makes1_CopyGradient [OF wf ud(3)] run ud(5) by simp
  then have g: "grows h h1" by (simp add: makes1_def)
  have b1: "base_inv h0 h1" using base_inv_grows [OF b g] .
  note pg = pass_grows [OF b gs g]
  show ?thesis
  proof (cases res)
    case (Inl f)
    then show ?thesis
      using run mk gr b1
      by (simp add: AccumulateLeaf_def Accumulate_def bindE_Inl_run step_ok_def makes1_def)
  next
    case (Inr d)
    have d: "length (tensors h) \<le> d" "d < length (tensors h1)"
      "logical_values h1 (tensor_at h1 d) = logical_values h (tensor_at h u)"
      "buffer_ok h1 (dims_of (tensor_at h0 r)) d" "alloc_plan h = [] \<longrightarrow> alloc_plan h1 = []"
      using mk Inr by (simp_all add: makes1_def)
    have n0: "length (tensors h0) \<le> length (tensors h)" using base_invD(4) [OF b] .
    have m1: "t_meta (tensor_at h1 r) = Some m" using grows_old(1) [OF wf g r'] m by simp
    have t: "temp h0 h1 gs d"
      using d(1,2) n0 is_grad_less [OF wf, of d] is_grad_grows [OF wf g, of d] gs_invD(3) [OF gs]
      by (fastforce simp: temp_def)
    let ?h2 = "h1\<lparr>tensors := (tensors h1)[r := (tensor_at h1 r)\<lparr>t_meta :=
      Some (m\<lparr>meta_gradient := Some d\<rparr>)\<rparr>]\<rparr>"
    have buf: "buffer_ok h1 (dims_of (tensor_at h1 r)) d" using d(4) dims_initial [OF b1 r] by simp
    note ps = pass_set_gradient [OF b1 pg(1) r m1 None buf t refl]
    have "AccumulateLeaf r u h = (Inr (), ?h2)"
      using run Inr gr m1
      by (simp add: AccumulateLeaf_def Accumulate_def bindE_Inr_run set_autograd_meta_def)
    then show ?thesis using ps pg(2,3) d(3,5) by (simp add: step_ok_def)
  qed
next
  case (Some g)
  have wf: "wf_heap h" using base_invD(1) [OF b] .
  note ud = gs_invD [OF gs u]
  have r': "r < length (tensors h)" using r base_invD(4) [OF b] by simp
  have gr: "gradient_of h r = Some g" using Some m by (simp add: gradient_of_def)
  have isg: "is_grad h g" using gr r' by (auto simp: is_grad_def)
  have buf: "buffer_ok h (dims_of (tensor_at h0 r)) g"
    using wf_gradient_buffer [OF wf r' gr] dims_initial [OF b r] by simp
  have gl: "g < length (tensors h)" using wf_gradient_less [OF wf r' gr] .
  obtain res h1 where run: "AddInPlace g u h = (res, h1)" by force
  from wf ud(3) buf ud(5) run show ?thesis
  proof (cases rule: AddInPlace_cases)
    case (failed f)
    then have "base_inv h0 h1" using base_inv_grows [OF b grows_quietly] by blast
    then show ?thesis
      using run failed gr
      by (auto simp: AccumulateLeaf_def Accumulate_def bindE_def step_ok_def)
  next
    case added
    let ?vs = "map2 f32_add (logical_values h (tensor_at h g)) (logical_values h (tensor_at h u))"
    have dg: "dims_of (tensor_at h g) = dims_of (tensor_at h0 r)" using buf by (simp add: buffer_ok_def)
    have len: "length ?vs = dims_prod (dims_of (tensor_at h0 r))"
      using values_length [OF wf ud(3)] values_length [OF wf gl] dg ud(5) by simp
    note pa = pass_adds_into [OF b gs added(3) buf valid_initial [OF b r] len disjI2 [OF isg]]
    have same: "m\<lparr>meta_gradient := Some g\<rparr> = m" using Some by (cases m) simp
    have run': "AccumulateLeaf r u h = (Inr (), h1)"
      using run added gr m same pa(3) set_autograd_meta_same [of h1 r m]
      by (simp add: AccumulateLeaf_def Accumulate_def bindE_assoc bindE_Inr_run)
    have gv: "gview h1 gs = gview h gs"
    proof
      fix q
      have "logical_values h1 (tensor_at h1 x) = logical_values h (tensor_at h x)"
        if mx: "map_of gs q = Some x" for x
      proof (rule pa(5) [OF gs_invD(3) [OF gs mx]])
        show "x \<noteq> g" using gs_invD(4) [OF gs mx] isg by auto
      qed
      then show "gview h1 gs q = gview h gs q" by (cases "map_of gs q") (auto simp: gview_def)
    qed
    moreover have "lview h0 h1 = add_to (lview h0 h) (r, logical_values h (tensor_at h u))"
    proof
      fix q
      have gq: "gradient_of h1 q = gradient_of h q" for q using pa(3) by (simp add: gradient_of_def)
      show "lview h0 h1 q = add_to (lview h0 h) (r, logical_values h (tensor_at h u)) q"
      proof (cases "q = r")
        case True
        then show ?thesis using gr gq r pa(4) by (simp add: lview_def add_to_apply)
      next
        case False
        have "logical_values h1 (tensor_at h1 x) = logical_values h (tensor_at h x)"
          if q: "q < length (tensors h0)" and mx: "gradient_of h q = Some x" for x
        proof (rule pa(5))
          have q': "q < length (tensors h)" using q base_invD(4) [OF b] by simp
          show "x < length (tensors h)" using wf_gradient_less [OF wf q' mx] .
          show "x \<noteq> g"
          proof
            assume "x = g"
            then have "q = r" using base_invD(2) [OF b] gr mx q' r' unfolding grads_owned_def by blast
            then show False using False by simp
          qed
        qed
        then show ?thesis
          using gq False by (cases "gradient_of h q") (auto simp: lview_def add_to_apply)
      qed
    qed
    ultimately show ?thesis using run' added(2) pa(1,2) by (simp add: step_ok_def)
  qed
qed


section \<open>One node\<close>

text \<open>What is left of a node's contributions, as references and as values.\<close>

definition pending :: "heap \<Rightarrow> tensor_ref \<Rightarrow> heap \<Rightarrow> (tensor_ref \<times> tensor_ref) list \<Rightarrow>
    contribution list \<Rightarrow> (tensor_ref \<times> f32 list) list \<Rightarrow> bool" where
  "pending h0 root h gs out cs \<longleftrightarrow> list_all2 (\<lambda>(p, c) (q, vs). p = q \<and> p < length (tensors h0) \<and>
     p \<noteq> root \<and> temp h0 h gs c \<and> dims_of (tensor_at h c) = dims_of (tensor_at h0 p) \<and>
     logical_values h (tensor_at h c) = vs) out cs"

lemma pending_kept:
  assumes "pending h0 root h gs out cs" and "keeps_temps h0 h gs h' gs'"
  shows "pending h0 root h' gs' out cs"
  using assms(1) unfolding pending_def
  by (rule list_all2_mono) (use assms(2) in \<open>auto simp: keeps_temps_def\<close>)

lemma accumulate_contributions_step:
  assumes "base_inv h0 h" and "gs_inv h0 root h gs" and "pending h0 root h gs out cs"
  shows "step_ok h0 h (accumulate_contributions out gs h) (\<lambda>gs' h'. gs_inv h0 root h' gs' \<and>
    gview h' gs' = foldl add_to (gview h gs) cs \<and> lview h0 h' = lview h0 h)"
proof -
  let ?J = "\<lambda>xs gs' h'. gs_inv h0 root h' gs' \<and> lview h0 h' = lview h0 h \<and>
    (\<exists>ys. pending h0 root h' gs' xs ys \<and> foldl add_to (gview h' gs') ys = foldl add_to (gview h gs) cs)"
  have "step_ok h0 h (foldE out gs (\<lambda>(parent, gradient) gs.
      bindE (Accumulate (map_of gs parent) gradient) (\<lambda>updated.
      returnE (AList.update parent updated gs))) h) (?J [])"
  proof (rule step_ok_fold)
    show "?J out gs h" using assms(2,3) by blast
  next
    fix x xs acc h1
    assume J: "?J (x # xs) acc h1" and b1: "base_inv h0 h1"
    obtain p c where x: "x = (p, c)" by force
    from J obtain ys where ys: "pending h0 root h1 acc (x # xs) ys"
      "foldl add_to (gview h1 acc) ys = foldl add_to (gview h gs) cs" by blast
    then obtain vs ys' where ys': "ys = (p, vs) # ys'" "pending h0 root h1 acc xs ys'"
      "p < length (tensors h0)" "p \<noteq> root" "temp h0 h1 acc c"
      "dims_of (tensor_at h1 c) = dims_of (tensor_at h0 p)"
      "logical_values h1 (tensor_at h1 c) = vs"
      using x by (cases ys) (auto simp: pending_def)
    have gs1: "gs_inv h0 root h1 acc" using J by simp
    note step = accumulate_entry [OF b1 gs1 ys'(5,3,4,6)]
    have "?J xs a h2"
      if q: "gs_inv h0 root h2 a \<and> lview h0 h2 = lview h0 h1 \<and>
       gview h2 a = add_to (gview h1 acc) (p, logical_values h1 (tensor_at h1 c)) \<and>
       keeps_temps h0 h1 acc h2 a" for a h2
    proof -
      have "pending h0 root h2 a xs ys'" using pending_kept [OF ys'(2)] q by blast
      moreover have "foldl add_to (gview h2 a) ys' = foldl add_to (gview h gs) cs"
        using q ys(2) ys'(1,7) by simp
      ultimately show ?thesis using q J by auto
    qed
    then show "step_ok h0 h1 ((case x of (parent, gradient) \<Rightarrow> \<lambda>gs.
        bindE (Accumulate (map_of gs parent) gradient) (\<lambda>updated.
        returnE (AList.update parent updated gs))) acc h1) (?J xs)"
      using step unfolding x step_ok_def by auto
  qed (rule assms(1))
  then show ?thesis
    unfolding accumulate_contributions_def step_ok_def by (auto simp: pending_def)
qed

lemma versions_fresh_initial:
  assumes b: "base_inv h0 h" and wf0: "wf_heap h0" and r: "r < length (tensors h0)"
    and fn: "grad_fn_of h0 r = Some n" and fresh: "versions_fresh h0 n"
  shows "versions_fresh h n"
proof -
  have node: "node_ok h0 r n" using wf_heap_node [OF wf0 r fn] .
  have "tensor_version h p = tensor_version h0 p" if "p \<in> set (node_parents n)" for p
  proof -
    have p: "p < length (tensors h0)" using node that r by (auto simp: node_ok_def)
    then have "t_version_counter (tensor_at h0 p) < length (counters h0)"
      using wf_heap_layout [OF wf0] by (simp add: layout_ok_def)
    then show ?thesis
      using core_eqD(3) [OF base_invD(5) [OF b p]] prefix_nth [OF base_invD(3) [OF b]]
      by (simp add: tensor_version_def)
  qed
  then have "map (tensor_version h) (node_parents n) = map (tensor_version h0) (node_parents n)"
    by simp
  also have "\<dots> = node_versions n" using fresh by (simp add: versions_fresh_def)
  finally show ?thesis by (simp add: versions_fresh_def)
qed

lemma node_contribs_initial:
  assumes b: "base_inv h0 h" and wf0: "wf_heap h0" and go: "grads_owned h0"
    and r: "r < length (tensors h0)" and fn: "grad_fn_of h0 r = Some n"
  shows "node_contribs L h n u = node_contribs L h0 n u"
proof -
  have node: "node_ok h0 r n" using wf_heap_node [OF wf0 r fn] .
  have p: "p < length (tensors h0)" "\<not> is_grad h0 p" if "p \<in> set (node_parents n)" for p
    using node that r go fn unfolding grads_owned_def by (auto simp: node_ok_def parents_of_def)
  have "RequiresGrad h p = RequiresGrad h0 p" if "p \<in> set (node_parents n)" for p
    using core_views(1) [OF base_invD(5) [OF b p(1) [OF that]]] .
  then have "filter (\<lambda>(p, _). RequiresGrad h p) (zip (node_parents n) xs) =
      filter (\<lambda>(p, _). RequiresGrad h0 p) (zip (node_parents n) xs)" for xs :: "f32 list list"
    by (intro filter_cong) (auto dest: set_zip_leftD)
  moreover have "local_gradients L h n u = local_gradients L h0 n u"
    using node p b
    by (intro local_gradients_cong [where d = "dims_of (tensor_at h0 r)"])
      (auto simp: node_ok_def intro: core_views(4) base_invD)
  ultimately show ?thesis by (simp add: node_contribs_def)
qed

lemma ApplyNode_step:
  assumes b: "base_inv h0 h" and gs: "gs_inv h0 root h gs" and wf0: "wf_heap h0"
    and go: "grads_owned h0" and r: "r < length (tensors h0)" "r \<le> root"
    and fn: "grad_fn_of h0 r = Some n" and fresh: "versions_fresh h0 n" and u: "map_of gs r = Some u"
  shows "step_ok h0 h (ApplyNode L n u h) (\<lambda>out h'. gs_inv h0 root h' gs \<and>
    gview h' gs = gview h gs \<and> lview h0 h' = lview h0 h \<and>
    pending h0 root h' gs out (node_contribs L h0 n (logical_values h (tensor_at h u))))"
proof -
  have wf: "wf_heap h" using base_invD(1) [OF b] .
  have node: "node_ok h0 r n" using wf_heap_node [OF wf0 r(1) fn] .
  note ud = gs_invD [OF gs u]
  have n0: "length (tensors h0) \<le> length (tensors h)" using base_invD(4) [OF b] .
  have r': "r < length (tensors h)" using r n0 by simp
  have fn': "grad_fn_of h r = Some n" using core_views(2) [OF base_invD(5) [OF b r(1)]] fn by simp
  have d: "dims_of (tensor_at h u) = dims_of (tensor_at h r)"
    using ud(5) dims_initial [OF b r(1)] by simp
  let ?cs = "node_contribs L h0 n (logical_values h (tensor_at h u))"
  obtain res h' where run: "ApplyNode L n u h = (res, h')" by force
  have gv: "gives h ?cs (res, h')"
    using ApplyNode_gives [OF wf r' fn' versions_fresh_initial [OF b wf0 r(1) fn fresh] ud(3) d, of L]
    unfolding node_contribs_initial [OF b wf0 go r(1) fn] run .
  then have g: "grows h h'" by (simp add: gives_def)
  note pg = pass_grows [OF b gs g]
  have "pending h0 root h' gs out ?cs" if out: "res = Inr out" for out
  proof -
    have all: "list_all2 (\<lambda>(p, c) (q, vs). p = q \<and> length (tensors h) \<le> c \<and>
        c < length (tensors h') \<and> dims_of (tensor_at h' c) = dims_of (tensor_at h p) \<and>
        logical_values h' (tensor_at h' c) = vs) out ?cs"
      using gv out by (simp add: gives_def)
    have parents: "q \<in> set (node_parents n)" if "(q, vs) \<in> set ?cs" for q vs
      using that by (auto simp: node_contribs_def dest: set_zip_leftD)
    have p: "p < length (tensors h0)" "p \<noteq> root" "dims_of (tensor_at h p) = dims_of (tensor_at h0 p)"
      if "p \<in> set (node_parents n)" for p
    proof -
      have "p < r" using node that by (simp add: node_ok_def)
      then show "p < length (tensors h0)" "p \<noteq> root" using r by simp_all
      then show "dims_of (tensor_at h p) = dims_of (tensor_at h0 p)" using dims_initial [OF b] by simp
    qed
    have t: "temp h0 h' gs c" if "length (tensors h) \<le> c" "c < length (tensors h')" for c
      using that n0 is_grad_less [OF wf, of c] is_grad_grows [OF wf g, of c] gs_invD(3) [OF gs]
      by (fastforce simp: temp_def)
    show ?thesis
      unfolding pending_def
    proof (rule list.rel_mono_strong [OF all], clarify)
      fix p' c q vs
      assume "(q, vs) \<in> set ?cs" and "length (tensors h) \<le> c" "c < length (tensors h')"
        "dims_of (tensor_at h' c) = dims_of (tensor_at h q)"
      then show "q = q \<and> q < length (tensors h0) \<and> q \<noteq> root \<and> temp h0 h' gs c \<and>
          dims_of (tensor_at h' c) = dims_of (tensor_at h0 q) \<and>
          logical_values h' (tensor_at h' c) = logical_values h' (tensor_at h' c)"
        using p [OF parents] t by simp
    qed
  qed
  then show ?thesis
    using gv run base_inv_grows [OF b g] pg by (simp add: step_ok_def gives_def)
qed

lemma spec_step_simps:
  fixes G F :: gradient_map
  shows "G r = None \<Longrightarrow> spec_step L h r (G, F) = (G, F)"
  "G r = Some u \<Longrightarrow> t_meta (tensor_at h r) = None \<Longrightarrow> spec_step L h r (G, F) = (G, F)"
  "G r = Some u \<Longrightarrow> t_meta (tensor_at h r) = Some m \<Longrightarrow> spec_step L h r (G, F) =
     ((case meta_grad_fn m of None \<Rightarrow> G | Some n \<Rightarrow> foldl add_to G (node_contribs L h n u)),
      (if meta_requires_grad m \<and> meta_is_leaf m then add_to F (r, u) else F))"
  by (simp_all add: spec_step_def)

lemma backward_step_ok:
  assumes b: "base_inv h0 h" and gs: "gs_inv h0 root h gs" and wf0: "wf_heap h0"
    and go: "grads_owned h0" and r: "r < length (tensors h0)" "r \<le> root"
    and fresh: "\<And>n. grad_fn_of h0 r = Some n \<Longrightarrow> versions_fresh h0 n"
  shows "step_ok h0 h (backward_step L r gs h) (\<lambda>gs' h'. gs_inv h0 root h' gs' \<and>
    (gview h' gs', lview h0 h') = spec_step L h0 r (gview h gs, lview h0 h))"
proof (cases "map_of gs r")
  case None
  then show ?thesis
    using b gs by (simp add: backward_step_def step_ok_return spec_step_simps(1) gview_def)
next
  case (Some u)
  then have gu: "gview h gs r = Some (logical_values h (tensor_at h u))" by (simp add: gview_def)
  show ?thesis
  proof (cases "t_meta (tensor_at h0 r)")
    case None
    then have "t_meta (tensor_at h r) = None"
      using core_meta(1) [OF base_invD(5) [OF b r(1)]] by simp
    then show ?thesis
      using b gs Some None spec_step_simps(2) [where G = "gview h gs", OF gu]
      by (simp add: backward_step_def step_ok_return)
  next
    case m0: (Some m0)
    then obtain m where m: "t_meta (tensor_at h r) = Some m"
      using core_meta(1) [OF base_invD(5) [OF b r(1)]] by auto
    have flags: "meta_requires_grad m = meta_requires_grad m0" "meta_is_leaf m = meta_is_leaf m0"
      "meta_grad_fn m = meta_grad_fn m0"
      using core_meta(2) [OF base_invD(5) [OF b r(1)] m m0] by simp_all
    let ?leaf = "meta_requires_grad m0 \<and> meta_is_leaf m0"
    let ?v = "logical_values h (tensor_at h u)"
    let ?F = "if ?leaf then add_to (lview h0 h) (r, ?v) else lview h0 h"
    let ?Q = "\<lambda>h1. gs_inv h0 root h1 gs \<and> gview h1 gs = gview h gs \<and> lview h0 h1 = ?F"
    have leaf: "step_ok h0 h ((if ?leaf then AccumulateLeaf r u else returnE ()) h) (\<lambda>_. ?Q)"
      using AccumulateLeaf_step [OF b gs r(1) m Some] b gs by (simp add: step_ok_return)
    have rest: "step_ok h0 h1 ((case meta_grad_fn m0 of
          None \<Rightarrow> returnE gs
        | Some node \<Rightarrow> bindE (ApplyNode L node u) (\<lambda>contributions.
            accumulate_contributions contributions gs)) h1)
        (\<lambda>gs' h'. gs_inv h0 root h' gs' \<and>
          (gview h' gs', lview h0 h') = spec_step L h0 r (gview h gs, lview h0 h))"
      if q: "?Q h1" and b1: "base_inv h0 h1" for h1
    proof (cases "meta_grad_fn m0")
      case None
      then show ?thesis using q b1 spec_step_simps(3) [where G = "gview h gs", OF gu m0] by (simp add: step_ok_return)
    next
      case fn: (Some n)
      have fn0: "grad_fn_of h0 r = Some n" using m0 fn by (simp add: grad_fn_of_def)
      have gs1: "gs_inv h0 root h1 gs" using q by blast
      have v1: "logical_values h1 (tensor_at h1 u) = ?v"
        using q gu Some by (simp add: gview_def fun_eq_iff) (metis option.inject option.simps(9))
      note app = ApplyNode_step [OF b1 gs1 wf0 go r fn0 fresh [OF fn0] Some, of L, unfolded v1]
      have "step_ok h0 h1 (bindE (ApplyNode L n u) (\<lambda>contributions.
            accumulate_contributions contributions gs) h1)
        (\<lambda>gs' h'. gs_inv h0 root h' gs' \<and>
          (gview h' gs', lview h0 h') = spec_step L h0 r (gview h gs, lview h0 h))"
      proof (rule step_ok_bind [where m = "ApplyNode L n u", OF app])
        fix out h2
        assume a: "gs_inv h0 root h2 gs \<and> gview h2 gs = gview h1 gs \<and> lview h0 h2 = lview h0 h1 \<and>
          pending h0 root h2 gs out (node_contribs L h0 n ?v)" and b2: "base_inv h0 h2"
        then have "step_ok h0 h2 (accumulate_contributions out gs h2) (\<lambda>gs' h'. gs_inv h0 root h' gs' \<and>
            gview h' gs' = foldl add_to (gview h2 gs) (node_contribs L h0 n ?v) \<and>
            lview h0 h' = lview h0 h2)"
          by (intro accumulate_contributions_step) auto
        then show "step_ok h0 h2 (accumulate_contributions out gs h2) (\<lambda>gs' h'. gs_inv h0 root h' gs' \<and>
            (gview h' gs', lview h0 h') = spec_step L h0 r (gview h gs, lview h0 h))"
          using a q fn spec_step_simps(3) [where G = "gview h gs", OF gu m0] by (simp add: step_ok_def)
      qed
      then show ?thesis using fn by simp
    qed
    have "backward_step L r gs h = bindE (if ?leaf then AccumulateLeaf r u else returnE ()) (\<lambda>_.
        case meta_grad_fn m0 of
          None \<Rightarrow> returnE gs
        | Some node \<Rightarrow> bindE (ApplyNode L node u) (\<lambda>contributions.
            accumulate_contributions contributions gs)) h"
      using Some m flags by (simp add: backward_step_def)
    then show ?thesis using step_ok_bind [where m = "if ?leaf then AccumulateLeaf r u else returnE ()", OF leaf rest]
      by simp
  qed
qed

end
