(* ===== verification/Backward_Spec.thy ===== *)
theory Backward_Spec
  imports Backward_Pass
begin

text \<open>
  What \<open>Backward\<close> promises.  The order of the nodes is a topological order of the graph under the
  loss; a stale view stops the call before it changes anything; otherwise the call succeeds unless
  an allocation fails, and the gradients it publishes are those of the chain rule: the gradient of
  every tensor is the sum, in the order of the pass, of the contributions of the operations that
  used it.
\<close>

section \<open>The pass as a whole\<close>

lemma gs_inv_root:
  assumes "wf_heap h0" and "grows h0 h" and "length (tensors h0) \<le> c" "c < length (tensors h)"
    and "root < length (tensors h0)" and "dims_of (tensor_at h c) = dims_of (tensor_at h0 root)"
  shows "gs_inv h0 root h [(root, c)]"
  using assms is_grad_less [OF assms(1), of c] is_grad_grows [OF assms(1,2), of c]
  by (auto simp: gs_inv_def split: if_splits)

lemma lview_initial: "lview h h = leaf_gradients h"
  by (simp add: lview_def leaf_gradients_def fun_eq_iff)

lemma gs_inv_Nil: "gs_inv h0 root h []"
  by (simp add: gs_inv_def)

lemma backward_fold:
  assumes b: "base_inv h0 h" and gs: "gs_inv h0 root h gs" and wf0: "wf_heap h0"
    and go: "grads_owned h0" and root: "root < length (tensors h0)"
    and small: "\<forall>x \<in> set xs. x \<le> root" and fresh: "graph_fresh h0 xs"
  shows "step_ok h0 h (foldE xs gs (backward_step L) h) (\<lambda>gs' h'.
    (gview h' gs', lview h0 h') = fold (spec_step L h0) xs (gview h gs, lview h0 h))"
proof -
  let ?J = "\<lambda>ys gs' h'. gs_inv h0 root h' gs' \<and> set ys \<subseteq> set xs \<and>
    fold (spec_step L h0) ys (gview h' gs', lview h0 h') =
    fold (spec_step L h0) xs (gview h gs, lview h0 h)"
  have "step_ok h0 h (foldE xs gs (backward_step L) h) (?J [])"
  proof (rule step_ok_fold)
    fix r ys acc h1 assume J: "?J (r # ys) acc h1" and b1: "base_inv h0 h1"
    have r: "r \<in> set xs" using J by simp
    then have "r \<le> root" "r < length (tensors h0)" using small root by auto
    moreover have "versions_fresh h0 n" if "grad_fn_of h0 r = Some n" for n
      using fresh r that by (simp add: graph_fresh_def)
    ultimately have "step_ok h0 h1 (backward_step L r acc h1) (\<lambda>gs' h'. gs_inv h0 root h' gs' \<and>
        (gview h' gs', lview h0 h') = spec_step L h0 r (gview h1 acc, lview h0 h1))"
      using J by (intro backward_step_ok [OF b1 _ wf0 go]) auto
    then show "step_ok h0 h1 (backward_step L r acc h1) (?J ys)"
      using J by (simp add: step_ok_def)
  qed (use b gs in auto)
  then show ?thesis by (simp add: step_ok_def)
qed

text \<open>The part of \<open>Backward\<close> after the checks.\<close>

lemma Backward_run:
  assumes wf: "wf_heap h" and root: "root < length (tensors h)"
    and one: "numel_of (tensor_at h root) = 1" and rg: "RequiresGrad h root"
    and top: "BuildTopology (length (tensors h)) h root ([], []) = Some (vis, ts)"
  shows "Backward L root h =
    (if graph_fresh h ts
     then bindE (MakeCpuFull (t_shape (tensor_at h root)) f32_one) (\<lambda>c.
          bindE (foldE (rev ts) [(root, c)] (backward_step L)) (\<lambda>_. returnE ())) h
     else (Inl (Failed stale_alias), h))"
proof -
  obtain vis' ts' where "BuildTopology (length (tensors h)) h root ([], []) = Some (vis', ts')"
    "\<forall>x \<in> set ts'. x \<le> root" using BuildTopology_total [OF wf root] by metis
  then have "\<forall>x \<in> set ts. x < length (tensors h)" using top root by auto
  then show ?thesis
    using validate_topology_run [OF wf, of ts] one rg top
    by (simp add: Backward_def checkE_run bindE_def [of "checkE _ _"] bindE_def [of "validate_topology _"])
qed

lemma Backward_ok:
  assumes wf: "wf_heap h" and go: "grads_owned h" and root: "root < length (tensors h)"
    and one: "numel_of (tensor_at h root) = 1" and rg: "RequiresGrad h root"
    and top: "BuildTopology (length (tensors h)) h root ([], []) = Some (vis, ts)"
    and small: "\<forall>x \<in> set ts. x \<le> root" and fresh: "graph_fresh h ts"
  shows "step_ok h h (Backward L root h) (\<lambda>_ h'. lview h h' = spec_backward L h ts root)"
proof -
  note lay = wf_heap_layout [OF wf root]
  have sh: "shape_ok (t_shape (tensor_at h root))" using lay by (simp add: layout_ok_def)
  let ?m = "MakeCpuFull (t_shape (tensor_at h root)) f32_one"
  have fill: "fills1 h (dims_of (tensor_at h root)) [f32_one] (?m h)"
    using fills1_MakeCpuFull [OF wf sh, of f32_one] one by simp
  let ?Q = "\<lambda>c h1. gs_inv h root h1 [(root, c)] \<and> gview h1 [(root, c)] = [root \<mapsto> [f32_one]] \<and>
    lview h h1 = leaf_gradients h"
  obtain res h1 where run: "?m h = (res, h1)" by force
  then have g: "grows h h1" using fill by (simp add: fills1_def)
  have Q: "?Q c h1" if "res = Inr c" for c
  proof -
    have c: "length (tensors h) \<le> c" "c < length (tensors h1)"
      "dims_of (tensor_at h1 c) = dims_of (tensor_at h root)"
      "logical_values h1 (tensor_at h1 c) = [f32_one]"
      using fill run that by (simp_all add: fills1_def)
    then show ?thesis
      using gs_inv_root [OF wf g c(1,2) root c(3)]
        pass_grows(3) [OF base_inv_refl [OF wf go] gs_inv_Nil g] lview_initial
      by (simp add: gview_def fun_eq_iff)
  qed
  have first: "step_ok h h (?m h) ?Q"
    using fill run base_inv_grows [OF base_inv_refl [OF wf go] g] Q
    by (simp add: step_ok_def fills1_def)
  have rest: "step_ok h h1 (bindE (foldE (rev ts) [(root, c)] (backward_step L)) (\<lambda>_. returnE ()) h1)
      (\<lambda>_ h'. lview h h' = spec_backward L h ts root)"
    if q: "?Q c h1" and b1: "base_inv h h1" for c h1
  proof (rule step_ok_bind [where m = "foldE (rev ts) [(root, c)] (backward_step L)"])
    show "step_ok h h1 (foldE (rev ts) [(root, c)] (backward_step L) h1) (\<lambda>gs' h'.
        (gview h' gs', lview h h') =
        fold (spec_step L h) (rev ts) (gview h1 [(root, c)], lview h h1))"
      using q small fresh
      by (intro backward_fold [OF b1 _ wf go root]) (auto simp: graph_fresh_def)
  next
    fix gs' h2
    assume "(gview h2 gs', lview h h2) =
        fold (spec_step L h) (rev ts) (gview h1 [(root, c)], lview h h1)" and b2: "base_inv h h2"
    then have "lview h h2 = spec_backward L h ts root"
      using q unfolding spec_backward_def by (metis snd_conv)
    then show "step_ok h h2 (returnE () h2) (\<lambda>_ h'. lview h h' = spec_backward L h ts root)"
      using b2 by (simp add: step_ok_return)
  qed
  show ?thesis
    using step_ok_bind [where m = ?m, OF first rest] Backward_run [OF wf root one rg top] fresh by simp
qed


section \<open>The chain rule\<close>

text \<open>What a tensor receives from the operation that produced \<open>r\<close>, given the gradients \<open>G\<close>.\<close>

definition from_node :: "libm \<Rightarrow> heap \<Rightarrow> gradient_map \<Rightarrow> tensor_ref \<Rightarrow> (tensor_ref \<times> f32 list) list" where
  "from_node L h G r = (case (grad_fn_of h r, G r) of
       (Some n, Some u) \<Rightarrow> node_contribs L h n u
     | _ \<Rightarrow> [])"

definition incoming :: "libm \<Rightarrow> heap \<Rightarrow> gradient_map \<Rightarrow> tensor_ref list \<Rightarrow> tensor_ref \<Rightarrow> f32 list list" where
  "incoming L h G rs x =
     map snd (filter (\<lambda>(p, _). p = x) (concat (map (from_node L h G) rs)))"

definition add_all :: "f32 list option \<Rightarrow> f32 list list \<Rightarrow> f32 list option" where
  "add_all = foldl (\<lambda>a c. Some (accum a c))"

definition is_leaf :: "heap \<Rightarrow> tensor_ref \<Rightarrow> bool" where
  "is_leaf h r = (case t_meta (tensor_at h r) of
       None \<Rightarrow> False | Some m \<Rightarrow> meta_requires_grad m \<and> meta_is_leaf m)"

lemma foldl_add_to: "foldl add_to G cs x = add_all (G x) (map snd (filter (\<lambda>(p, _). p = x) cs))"
  by (induction cs arbitrary: G) (auto simp: add_all_def add_to_apply)

lemma spec_step_fst: "fst (spec_step L h r (G, F)) = foldl add_to G (from_node L h G r)"
  by (auto simp: spec_step_def from_node_def grad_fn_of_def split: option.splits)

lemma spec_step_snd:
  "snd (spec_step L h r (G, F)) x = (case G r of
     Some u \<Rightarrow> if x = r \<and> is_leaf h r then Some (accum (F x) u) else F x | None \<Rightarrow> F x)"
  by (auto simp: spec_step_def is_leaf_def add_to_apply split: option.splits)

lemma from_node_parents: "(p, c) \<in> set (from_node L h G r) \<Longrightarrow> p \<in> set (parents_of h r)"
  by (auto simp: from_node_def node_contribs_def parents_of_def split: option.splits
      dest: set_zip_leftD)

lemma foldl_add_to_other:
  assumes "x \<notin> set (parents_of h r)"
  shows "foldl add_to G (from_node L h G r) x = G x"
proof -
  have "filter (\<lambda>(p, _). p = x) (from_node L h G r) = []"
    using assms from_node_parents by (fastforce simp: filter_empty_conv)
  then show ?thesis by (simp add: foldl_add_to add_all_def)
qed

lemma from_node_cong: "G r = G' r \<Longrightarrow> from_node L h G r = from_node L h G' r"
  by (simp add: from_node_def)

text \<open>The nodes are processed after everything that uses them.\<close>

definition consumers_first :: "heap \<Rightarrow> tensor_ref list \<Rightarrow> bool" where
  "consumers_first h ys \<longleftrightarrow> distinct ys \<and>
     (\<forall>i < length ys. \<forall>y \<in> set (take (Suc i) ys). y \<notin> set (parents_of h (ys ! i)))"

lemma consumers_first_rev:
  assumes "ordered_topology h ts"
  shows "consumers_first h (rev ts)"
  unfolding consumers_first_def
proof (intro conjI allI impI ballI)
  show "distinct (rev ts)" using assms by (simp add: ordered_topology_def)
next
  fix i y assume i: "i < length (rev ts)" and y: "y \<in> set (take (Suc i) (rev ts))"
  let ?j = "length ts - Suc i"
  have j: "?j < length ts" "rev ts ! i = ts ! ?j" using i by (simp_all add: rev_nth)
  have "y \<in> set (drop ?j ts)" using y by (simp add: take_rev)
  moreover have "set (parents_of h (ts ! ?j)) \<subseteq> set (take ?j ts)"
    using assms j(1) by (simp add: ordered_topology_def)
  moreover have "set (take ?j ts) \<inter> set (drop ?j ts) = {}"
    using assms by (intro set_take_disj_set_drop_if_distinct) (simp_all add: ordered_topology_def)
  ultimately show "y \<notin> set (parents_of h (rev ts ! i))" using j(2) by auto
qed

lemma consumers_first_snoc:
  assumes "consumers_first h (ys @ [r])"
  shows "consumers_first h ys" "r \<notin> set ys" "\<forall>y \<in> set ys. y \<notin> set (parents_of h r)"
    "r \<notin> set (parents_of h r)"
proof -
  have all: "y \<notin> set (parents_of h ((ys @ [r]) ! i))"
    if "i < Suc (length ys)" "y \<in> set (take (Suc i) (ys @ [r]))" for i y
    using assms that by (simp add: consumers_first_def)
  have "y \<notin> set (parents_of h (ys ! i))" if "i < length ys" "y \<in> set (take (Suc i) ys)" for i y
    using all [of i y] that by (simp add: nth_append)
  then show "consumers_first h ys" using assms by (simp add: consumers_first_def)
  show "r \<notin> set ys" using assms by (simp add: consumers_first_def)
  show "\<forall>y \<in> set ys. y \<notin> set (parents_of h r)" "r \<notin> set (parents_of h r)"
    using all [of "length ys"] by simp_all
qed

lemma pass_solves_chain_rule:
  fixes G0 F0 :: gradient_map
  assumes "consumers_first h ys"
  shows "(G, F) = fold (spec_step L h) ys (G0, F0) \<Longrightarrow>
    G x = add_all (G0 x) (incoming L h G ys x) \<and>
    F x = (case G x of
       Some u \<Rightarrow> if x \<in> set ys \<and> is_leaf h x then Some (accum (F0 x) u) else F0 x | None \<Rightarrow> F0 x)"
  using assms
proof (induction ys arbitrary: G F x rule: rev_induct)
  case Nil
  then show ?case by (auto simp: incoming_def add_all_def split: option.splits)
next
  case (snoc r ys)
  note c = consumers_first_snoc [OF snoc.prems(2)]
  obtain G1 F1 where s1: "(G1, F1) = fold (spec_step L h) ys (G0, F0)" by (metis surj_pair)
  have IH: "G1 x = add_all (G0 x) (incoming L h G1 ys x) \<and>
    F1 x = (case G1 x of
       Some u \<Rightarrow> if x \<in> set ys \<and> is_leaf h x then Some (accum (F0 x) u) else F0 x | None \<Rightarrow> F0 x)"
    for x using snoc.IH [OF s1 c(1)] .
  have GF: "G = fst (spec_step L h r (G1, F1))" "F = snd (spec_step L h r (G1, F1))"
    using snoc.prems(1) s1 by (metis fold_append fold_simps comp_apply fst_conv, metis fold_append fold_simps comp_apply snd_conv)
  have G: "G = foldl add_to G1 (from_node L h G1 r)" using GF(1) by (simp add: spec_step_fst)
  have same: "G y = G1 y" if "y \<in> set ys \<or> y = r" for y
    using foldl_add_to_other [of y h r G1 L] c(3,4) that unfolding G by blast
  have nodes: "map (from_node L h G) ys = map (from_node L h G1) ys"
    "from_node L h G r = from_node L h G1 r"
    using same by (auto intro: from_node_cong)
  have "incoming L h G (ys @ [r]) x = incoming L h G1 ys x @
      map snd (filter (\<lambda>(p, _). p = x) (from_node L h G1 r))"
    by (simp only: incoming_def map_append nodes list.simps concat_append concat.simps
        filter_append append_Nil2)
  moreover have "G x = add_all (G1 x) (map snd (filter (\<lambda>(p, _). p = x) (from_node L h G1 r)))"
    using G by (simp add: foldl_add_to)
  ultimately have first: "G x = add_all (G0 x) (incoming L h G (ys @ [r]) x)"
    using IH by (simp add: add_all_def)
  have "F x = (case G1 r of
      Some u \<Rightarrow> if x = r \<and> is_leaf h r then Some (accum (F1 x) u) else F1 x | None \<Rightarrow> F1 x)"
    using GF(2) spec_step_snd [of L h r G1 F1 x] by simp
  moreover have "F1 r = F0 r" using IH [of r] c(2) by (simp split: option.splits)
  moreover have "F1 x = (case G x of
       Some u \<Rightarrow> if x \<in> set ys \<and> is_leaf h x then Some (accum (F0 x) u) else F0 x | None \<Rightarrow> F0 x)"
    using IH [of x] same [of x] by (auto split: option.splits)
  ultimately have "F x = (case G x of
       Some u \<Rightarrow> if x \<in> set (ys @ [r]) \<and> is_leaf h x then Some (accum (F0 x) u) else F0 x
     | None \<Rightarrow> F0 x)"
    using same [of r] c(2) by (auto split: option.splits)
  with first show ?case by blast
qed


section \<open>Properties\<close>

text \<open>A reachable part of the graph whose saved versions are all current.\<close>

definition fresh_below :: "heap \<Rightarrow> tensor_ref \<Rightarrow> bool" where
  "fresh_below h root \<longleftrightarrow>
     (\<forall>x n. reaches h root x \<longrightarrow> grad_fn_of h x = Some n \<longrightarrow> versions_fresh h n)"

lemma graph_fresh_below:
  "set ts = {x. reaches h root x} \<Longrightarrow> graph_fresh h ts = fresh_below h root"
  by (auto simp: graph_fresh_def fresh_below_def)

text \<open>The calls the first checks let through.\<close>

definition is_loss :: "heap \<Rightarrow> tensor_ref \<Rightarrow> bool" where
  "is_loss h root \<longleftrightarrow> root < length (tensors h) \<and> numel_of (tensor_at h root) = 1 \<and>
     RequiresGrad h root"

definition diff_heap :: "heap \<Rightarrow> bool" where
  "diff_heap h \<longleftrightarrow> wf_heap h \<and> grads_owned h"

lemma Backward_not_loss:
  assumes "root < length (tensors h)" and "\<not> is_loss h root"
  shows "\<exists>f. Backward L root h = (Inl f, h)"
  using assms by (auto simp: Backward_def is_loss_def checkE_run bindE_def)

lemma consumers_root:
  assumes wf: "wf_heap h" and small: "\<forall>x \<in> set ys. x \<le> root" and root: "root < length (tensors h)"
  shows "incoming L h G ys root = []"
proof -
  have "p < root" if "(p, c) \<in> set (from_node L h G r)" "r \<in> set ys" for p c r
  proof -
    have "p < r" using wf_parents_less [OF wf _ from_node_parents [OF that(1)]] small that(2) root
      by fastforce
    then show ?thesis using small that(2) by fastforce
  qed
  then show ?thesis by (fastforce simp: incoming_def filter_empty_conv)
qed

lemma Backward_decided:
  assumes "diff_heap h" and "is_loss h root" and "alloc_plan h = []"
  shows "if fresh_below h root then \<exists>h'. Backward L root h = (Inr (), h')
    else Backward L root h = (Inl (Failed stale_alias), h)"
proof -
  have wf: "wf_heap h" and go: "grads_owned h" and root: "root < length (tensors h)"
    and one: "numel_of (tensor_at h root) = 1" and rg: "RequiresGrad h root"
    using assms(1,2) by (simp_all add: diff_heap_def is_loss_def)
  obtain vis ts where top: "BuildTopology (length (tensors h)) h root ([], []) = Some (vis, ts)"
    and set: "set ts = {x. reaches h root x}" and small: "\<forall>x \<in> set ts. x \<le> root"
    using BuildTopology_total [OF wf root] by metis
  show ?thesis
  proof (cases "fresh_below h root")
    case True
    then have "graph_fresh h ts" using graph_fresh_below [OF set] by simp
    then have st: "step_ok h h (Backward L root h) (\<lambda>_ h'. lview h h' = spec_backward L h ts root)"
      by (rule Backward_ok [OF wf go root one rg top small])
    then show ?thesis using True assms(3) by (cases "Backward L root h") (simp add: step_ok_def)
  next
    case False
    then show ?thesis
      using Backward_run [OF wf root one rg top, of L] graph_fresh_below [OF set] by simp
  qed
qed

text \<open>On every exit, the heap is related to the one at the start by \<open>base_inv\<close>.\<close>

lemma Backward_base_inv:
  assumes "diff_heap h" and "root < length (tensors h)" and run: "Backward L root h = (res, h')"
  shows "base_inv h h'"
proof -
  have wf: "wf_heap h" and go: "grads_owned h" using assms(1) by (simp_all add: diff_heap_def)
  show ?thesis
  proof (cases "is_loss h root")
    case False
    then have "h' = h" using Backward_not_loss [OF assms(2) False, of L] run by auto
    then show ?thesis using base_inv_refl [OF wf go] by simp
  next
    case True
    then have one: "numel_of (tensor_at h root) = 1" and rg: "RequiresGrad h root"
      by (simp_all add: is_loss_def)
    obtain vis ts where top: "BuildTopology (length (tensors h)) h root ([], []) = Some (vis, ts)"
      and small: "\<forall>x \<in> set ts. x \<le> root" using BuildTopology_total [OF wf assms(2)] by metis
    show ?thesis
    proof (cases "graph_fresh h ts")
      case True
      from Backward_ok [OF wf go assms(2) one rg top small True, of L] show ?thesis
        using run by (simp add: step_ok_def)
    next
      case False
      then have "h' = h" using Backward_run [OF wf assms(2) one rg top, of L] run by simp
      then show ?thesis using base_inv_refl [OF wf go] by simp
    qed
  qed
qed

section \<open>The equations of the chain rule\<close>

text \<open>
  A map \<open>G\<close> solves the chain rule over the tensors \<open>ys\<close> under a loss: the loss has gradient one, and
  every other tensor the sum of what its users contribute.
\<close>

definition chain_rule :: "libm \<Rightarrow> heap \<Rightarrow> tensor_ref \<Rightarrow> gradient_map \<Rightarrow> tensor_ref list \<Rightarrow> bool" where
  "chain_rule L h root G ys \<longleftrightarrow> set ys = {x. reaches h root x} \<and> consumers_first h ys \<and> G root = Some [f32_one] \<and>
     (\<forall>x. x \<noteq> root \<longrightarrow> G x = add_all None (incoming L h G ys x))"

text \<open>The gradients of leaves after \<open>G\<close> has been added to them.\<close>

definition published :: "heap \<Rightarrow> gradient_map \<Rightarrow> gradient_map" where
  "published h G x = (case G x of
       Some u \<Rightarrow> if is_leaf h x then Some (accum (leaf_gradients h x) u) else leaf_gradients h x
     | None \<Rightarrow> leaf_gradients h x)"

lemma chain_rule_reaches:
  assumes c: "chain_rule L h root G ys" and u: "G x = Some u"
  shows "x \<in> set ys"
proof (rule ccontr)
  assume "x \<notin> set ys"
  then have none: "\<not> reaches h root x" and set: "set ys = {x. reaches h root x}"
    using c by (auto simp: chain_rule_def)
  have "p \<noteq> x" if "(p, v) \<in> set (from_node L h G r)" "r \<in> set ys" for p v r
    using from_node_parents [OF that(1)] that(2) reaches_parents_of none set by auto
  then have "incoming L h G ys x = []" by (fastforce simp: incoming_def filter_empty_conv)
  moreover have "x \<noteq> root" using none reaches_self by auto
  ultimately show False using c u by (simp add: chain_rule_def add_all_def)
qed

lemma Backward_solves:
  assumes "diff_heap h" and "is_loss h root" and run: "Backward L root h = (Inr (), h')"
  shows "\<exists>G ys. chain_rule L h root G ys \<and>
    (\<forall>x < length (tensors h). leaf_gradients h' x = published h G x)"
proof -
  have wf: "wf_heap h" and go: "grads_owned h" and root: "root < length (tensors h)"
    and one: "numel_of (tensor_at h root) = 1" and rg: "RequiresGrad h root"
    using assms(1,2) by (simp_all add: diff_heap_def is_loss_def)
  obtain vis ts where top: "BuildTopology (length (tensors h)) h root ([], []) = Some (vis, ts)"
    and o: "ordered_topology h ts" and set: "set ts = {x. reaches h root x}"
    and small: "\<forall>x \<in> set ts. x \<le> root" by (rule BuildTopology_total [OF wf root])
  have fresh: "graph_fresh h ts"
    using run Backward_run [OF wf root one rg top, of L] by (auto split: if_splits)
  have st: "step_ok h h (Backward L root h) (\<lambda>_ h'. lview h h' = spec_backward L h ts root)"
    by (rule Backward_ok [OF wf go root one rg top small fresh])
  then have lv: "lview h h' = spec_backward L h ts root" and n: "length (tensors h) \<le> length (tensors h')"
    using run by (simp_all add: step_ok_def base_inv_def)
  obtain G F where GF: "(G, F) = fold (spec_step L h) (rev ts) ([root \<mapsto> [f32_one]], leaf_gradients h)"
    by (metis surj_pair)
  note c = consumers_first_rev [OF o]
  note solve = pass_solves_chain_rule [OF c GF]
  have "G root = Some [f32_one]"
    using solve [of root] consumers_root [OF wf _ root, of "rev ts"] small by (simp add: add_all_def)
  moreover have "G x = add_all None (incoming L h G (rev ts) x)" if "x \<noteq> root" for x
    using solve [of x] that by simp
  ultimately have rule: "chain_rule L h root G (rev ts)" using c set by (simp add: chain_rule_def)
  have "leaf_gradients h' x = published h G x" if x: "x < length (tensors h)" for x
  proof -
    have "leaf_gradients h' x = F x"
      using lv GF x n by (simp add: spec_backward_def lview_def leaf_gradients_def fun_eq_iff)
        (metis snd_conv)
    also have "\<dots> = (case G x of Some u \<Rightarrow>
        if x \<in> set (rev ts) \<and> is_leaf h x then Some (accum (leaf_gradients h x) u)
        else leaf_gradients h x | None \<Rightarrow> leaf_gradients h x)"
      using solve [of x] by blast
    finally show ?thesis
      using chain_rule_reaches [OF rule, of x] by (cases "G x") (simp_all add: published_def)
  qed
  then show ?thesis using rule by blast
qed

section \<open>A concrete graph\<close>

text \<open>A leaf \<open>x\<close> with the values 1 and 2, \<open>y = x * x\<close>, and the loss \<open>sum y\<close>.\<close>

definition demo_node :: "operation \<Rightarrow> tensor_ref list \<Rightarrow> autograd_meta" where
  "demo_node op ps = \<lparr>meta_requires_grad = True, meta_is_leaf = False, meta_gradient = None,
     meta_grad_fn = Some \<lparr>node_operation = op, node_parents = ps,
       node_versions = map (\<lambda>_. 0) ps\<rparr>\<rparr>"

definition demo_graph :: heap where
  "demo_graph = \<lparr>storages = [CpuStorage [0x3F800000, 0x40000000], CpuStorage [0x3F800000, 0x40800000],
       CpuStorage [0x40A00000]],
     counters = [\<lparr>vc_value = 0, vc_identity = 1\<rparr>, \<lparr>vc_value = 0, vc_identity = 2\<rparr>,
       \<lparr>vc_value = 0, vc_identity = 3\<rparr>],
     tensors = [
       (fresh_tensor (canonical_shape [1, 2]) 0 0)\<lparr>t_meta := Some (default_meta\<lparr>meta_requires_grad := True\<rparr>)\<rparr>,
       (fresh_tensor (canonical_shape [1, 2]) 1 1)\<lparr>t_meta := Some (demo_node kMultiply [0, 0])\<rparr>,
       (fresh_tensor (canonical_shape []) 2 2)\<lparr>t_meta := Some (demo_node kSum [1])\<rparr>],
     next_identity = 4, alloc_plan = []\<rparr>"

definition demo_libm :: libm where
  "demo_libm = \<lparr>expf = (\<lambda>x. x), tanhf = (\<lambda>x. x), erff = (\<lambda>x. x), logf = (\<lambda>x. x),
     exp64 = (\<lambda>x. x), log64 = (\<lambda>x. x), pow64 = (\<lambda>x y. x)\<rparr>"

lemma demo_graph_simps [simp]:
  "length (tensors demo_graph) = 3" "alloc_plan demo_graph = []" "length (counters demo_graph) = 3"
  "tensor_at demo_graph 0 = (fresh_tensor (canonical_shape [1, 2]) 0 0)
     \<lparr>t_meta := Some (default_meta\<lparr>meta_requires_grad := True\<rparr>)\<rparr>"
  "tensor_at demo_graph (Suc 0) = (fresh_tensor (canonical_shape [1, 2]) 1 1)
     \<lparr>t_meta := Some (demo_node kMultiply [0, 0])\<rparr>"
  "tensor_at demo_graph 2 = (fresh_tensor (canonical_shape []) 2 2)
     \<lparr>t_meta := Some (demo_node kSum [1])\<rparr>"
  "storages demo_graph = [CpuStorage [0x3F800000, 0x40000000], CpuStorage [0x3F800000, 0x40800000],
     CpuStorage [0x40A00000]]"
  by (simp_all add: demo_graph_def)

lemma demo_graph_dims: "valid_dims [1, 2]" "valid_dims []"
  by (simp_all add: valid_dims_def kMaxTensorRank_def max_numel_def)

lemma demo_graph_cases:
  assumes "i < 3"
  obtains "i = 0" | "i = Suc 0" | "i = 2"
  using assms by linarith

lemma demo_graph_wf: "wf_heap demo_graph"
proof -
  have "layout_ok demo_graph (tensor_at demo_graph i) \<and> meta_ok demo_graph i" if i: "i < 3" for i
    using i
  proof (cases rule: demo_graph_cases)
    case 1
    then show ?thesis
      using shape_ok_canonical [OF demo_graph_dims(1)] canonical_extent [OF demo_graph_dims(1)]
      by (simp add: layout_ok_def meta_ok_def max_numel_def default_meta_def)
  next
    case 2
    then show ?thesis
      using shape_ok_canonical [OF demo_graph_dims(1)] canonical_extent [OF demo_graph_dims(1)]
      by (simp add: layout_ok_def meta_ok_def max_numel_def demo_node_def node_ok_def two_parents_def)
  next
    case 3
    then show ?thesis
      using shape_ok_canonical [OF demo_graph_dims(2)] canonical_extent [OF demo_graph_dims(2)]
      by (simp add: layout_ok_def meta_ok_def max_numel_def demo_node_def node_ok_def one_parent_def)
  qed
  then show ?thesis by (simp add: wf_heap_def)
qed

lemma demo_graph_gradients: "i < 3 \<Longrightarrow> gradient_of demo_graph i = None"
  by (erule demo_graph_cases) (simp_all add: gradient_of_def demo_node_def default_meta_def)

lemma demo_graph_diff: "diff_heap demo_graph"
  using demo_graph_wf by (simp add: diff_heap_def grads_owned_def is_grad_def demo_graph_gradients)

lemma demo_graph_loss: "is_loss demo_graph 2"
  by (simp add: is_loss_def RequiresGrad_def demo_node_def)

lemma demo_graph_fresh: "fresh_below demo_graph 2"
proof -
  have "x < 3 \<and> versions_fresh demo_graph n"
    if "reaches demo_graph 2 x" "grad_fn_of demo_graph x = Some n" for x n
  proof -
    have x: "x < 3" using that(1)
    proof (induction rule: reaches.induct)
      case (reaches_parent x node p)
      then show ?case using wf_heap_node [OF demo_graph_wf] by (fastforce simp: node_ok_def)
    qed simp
    from this that(2) show ?thesis
      by (cases rule: demo_graph_cases)
        (auto simp: grad_fn_of_def demo_node_def default_meta_def versions_fresh_def
          tensor_version_def demo_graph_def)
  qed
  then show ?thesis by (simp add: fresh_below_def)
qed

section \<open>Differentiation is the chain rule\<close>

text \<open>C2: Differentiation computes the chain rule.  After a successful call there is a map \<open>G\<close> on
  tensors and an order of the tensors under the loss, users before parents, such that the loss has
  gradient one, every other tensor's gradient is the sum, left to right, of what each of its users
  contributes according to the user's own gradient, and each leaf that requires gradients and
  received one has it added to the gradient it had, every other gradient being as before.\<close>

theorem backward_chain_rule:
  assumes "diff_heap h" and "is_loss h root" and run: "Backward L root h = (Inr (), h')"
  shows "\<exists>G ys. set ys = {x. reaches h root x} \<and> consumers_first h ys \<and> G root = Some [f32_one] \<and>
    (\<forall>x. x \<noteq> root \<longrightarrow> G x = add_all None (incoming L h G ys x)) \<and>
    (\<forall>x < length (tensors h). leaf_gradients h' x = (case G x of
       Some u \<Rightarrow> if is_leaf h x then Some (accum (leaf_gradients h x) u) else leaf_gradients h x
     | None \<Rightarrow> leaf_gradients h x))"
  using Backward_solves [OF assms] unfolding chain_rule_def published_def by blast

theorem backward_chain_rule_witness:
  "\<exists>h' G ys. Backward demo_libm 2 demo_graph = (Inr (), h') \<and>
    set ys = {x. reaches demo_graph 2 x} \<and> consumers_first demo_graph ys \<and> G 2 = Some [f32_one] \<and>
    G 1 = add_all None (incoming demo_libm demo_graph G ys 1) \<and>
    G 0 = add_all None (incoming demo_libm demo_graph G ys 0)"
proof -
  obtain h' where h': "Backward demo_libm 2 demo_graph = (Inr (), h')"
    using Backward_decided [OF demo_graph_diff demo_graph_loss] demo_graph_fresh by auto
  have "\<exists>G ys. set ys = {x. reaches demo_graph 2 x} \<and> consumers_first demo_graph ys \<and>
    G 2 = Some [f32_one] \<and>
    G 1 = add_all None (incoming demo_libm demo_graph G ys 1) \<and>
    G 0 = add_all None (incoming demo_libm demo_graph G ys 0)"
    using backward_chain_rule [OF demo_graph_diff demo_graph_loss h']
    by (elim exE conjE) (intro exI conjI, assumption+, simp_all)
  then show ?thesis using h' by blast
qed

text \<open>C19: Differentiation fails transactionally on stale views and succeeds otherwise.  When some
  operation under the loss saved a version that is no longer current, the call reports the stale
  alias and leaves everything as it was; when all versions are current and no allocation fails, it
  returns.\<close>

theorem backward_stale_or_returns:
  assumes "diff_heap h" and "is_loss h root" and "alloc_plan h = []"
  shows "if fresh_below h root then \<exists>h'. Backward L root h = (Inr (), h')
    else Backward L root h = (Inl (Failed stale_alias), h)"
  using assms by (rule Backward_decided)

theorem backward_stale_or_returns_witness:
  "if fresh_below demo_graph 2 then \<exists>h'. Backward demo_libm 2 demo_graph = (Inr (), h')
    else Backward demo_libm 2 demo_graph = (Inl (Failed stale_alias), demo_graph)"
  by (rule backward_stale_or_returns [OF demo_graph_diff demo_graph_loss]) simp

text \<open>C20: However the call ends, the heap stays well formed with private gradient buffers, no
  tensor is lost, and every tensor that is not itself a gradient buffer keeps its shape, storage,
  version counter, place in the graph and values.\<close>

theorem backward_preserves:
  assumes "diff_heap h" and "root < length (tensors h)" and run: "Backward L root h = (res, h')"
  shows "diff_heap h' \<and> length (tensors h) \<le> length (tensors h') \<and>
    prefix (counters h) (counters h') \<and>
    (\<forall>i < length (tensors h). core (tensor_at h' i) = core (tensor_at h i) \<and>
      (\<not> is_grad h i \<longrightarrow> logical_values h' (tensor_at h' i) = logical_values h (tensor_at h i)))"
proof -
  note b = base_invD [OF Backward_base_inv [OF assms]]
  show ?thesis using b(1-5) b(7) by (simp add: diff_heap_def)
qed

theorem backward_preserves_witness:
  "diff_heap (snd (Backward demo_libm 2 demo_graph)) \<and>
    3 \<le> length (tensors (snd (Backward demo_libm 2 demo_graph)))"
  using backward_preserves [OF demo_graph_diff _ prod.collapse [symmetric], of 2 demo_libm]
  by (simp del: prod.collapse)

text \<open>C40: The traversal of the graph under a tensor ends, and lists exactly the tensors the
  tensor was computed from, each once and after the tensors it was computed from itself.\<close>

theorem topology_is_topological:
  assumes "wf_heap h" and "root < length (tensors h)"
  shows "\<exists>vis ts. BuildTopology (length (tensors h)) h root ([], []) = Some (vis, ts) \<and>
    distinct ts \<and> set ts = {x. reaches h root x} \<and>
    (\<forall>i < length ts. set (parents_of h (ts ! i)) \<subseteq> set (take i ts))"
proof -
  obtain vis ts where "BuildTopology (length (tensors h)) h root ([], []) = Some (vis, ts)"
    "ordered_topology h ts" "set ts = {x. reaches h root x}"
    using BuildTopology_total [OF assms] by metis
  then show ?thesis by (intro exI [of _ vis] exI [of _ ts]) (simp add: ordered_topology_def)
qed

theorem topology_is_topological_witness:
  "\<exists>vis ts. BuildTopology 3 demo_graph 2 ([], []) = Some (vis, ts) \<and> distinct ts \<and>
    set ts = {x. reaches demo_graph 2 x}"
  using topology_is_topological [OF demo_graph_wf, of 2] by auto

end
