(* ===== verification/Heap_Invariant.thy ===== *)
theory Heap_Invariant
  imports Backward_Spec
begin

text \<open>
  The invariant of the whole heap between two calls of the library: tensors are well formed,
  gradient buffers are private, and tensors that share a storage share its version counter, so that
  a write through one of them is visible in the version of all.  A tensor is \<open>public\<close> when it is not
  a gradient buffer; handles and modules only ever refer to public tensors.

  \<open>safe\<close> says of a computation that it keeps the invariant and all public tensors public, on every
  exit.
\<close>

section \<open>The invariant\<close>

definition one_counter :: "heap \<Rightarrow> bool" where
  "one_counter h \<longleftrightarrow> (\<forall>i < length (tensors h). \<forall>j < length (tensors h).
     t_storage (tensor_at h i) = t_storage (tensor_at h j) \<longrightarrow>
     t_version_counter (tensor_at h i) = t_version_counter (tensor_at h j))"

definition heap_inv :: "heap \<Rightarrow> bool" where
  "heap_inv h \<longleftrightarrow> wf_heap h \<and> grads_owned h \<and> one_counter h"

definition public :: "heap \<Rightarrow> tensor_ref \<Rightarrow> bool" where
  "public h r \<longleftrightarrow> r < length (tensors h) \<and> \<not> is_grad h r"

lemma heap_invD:
  assumes "heap_inv h"
  shows "wf_heap h" "grads_owned h" "one_counter h" "diff_heap h"
  using assms by (simp_all add: heap_inv_def diff_heap_def)

lemma heap_inv_empty: "heap_inv empty_heap"
  using wf_heap_empty by (simp add: heap_inv_def grads_owned_def one_counter_def empty_heap_def)

lemma one_counterD: "one_counter h \<Longrightarrow> i < length (tensors h) \<Longrightarrow> j < length (tensors h) \<Longrightarrow>
    t_storage (tensor_at h i) = t_storage (tensor_at h j) \<Longrightarrow>
    t_version_counter (tensor_at h i) = t_version_counter (tensor_at h j)"
  unfolding one_counter_def by blast

lemma publicD: "public h r \<Longrightarrow> r < length (tensors h)" "public h r \<Longrightarrow> \<not> is_grad h r"
  by (simp_all add: public_def)

lemma grads_ownedD:
  assumes "grads_owned h" and "i < length (tensors h)"
  shows "gradient_of h i = Some g \<Longrightarrow> owned h g"
    "gradient_of h i = Some g \<Longrightarrow> j < length (tensors h) \<Longrightarrow> gradient_of h j = Some g \<Longrightarrow> j = i"
    "p \<in> set (parents_of h i) \<Longrightarrow> \<not> is_grad h p"
  using assms unfolding grads_owned_def by blast+

lemma grads_ownedI:
  assumes "\<And>i g. i < length (tensors h) \<Longrightarrow> gradient_of h i = Some g \<Longrightarrow> owned h g"
    and "\<And>i j g. i < length (tensors h) \<Longrightarrow> gradient_of h i = Some g \<Longrightarrow>
      j < length (tensors h) \<Longrightarrow> gradient_of h j = Some g \<Longrightarrow> j = i"
    and "\<And>i p. i < length (tensors h) \<Longrightarrow> p \<in> set (parents_of h i) \<Longrightarrow> \<not> is_grad h p"
  shows "grads_owned h"
  using assms unfolding grads_owned_def by blast

section \<open>Adding a tensor\<close>

text \<open>Metadata a new tensor may carry: no gradient yet, and public parents.\<close>

definition clean_meta :: "heap \<Rightarrow> autograd_meta option \<Rightarrow> bool" where
  "clean_meta h meta \<longleftrightarrow> (\<forall>m. meta = Some m \<longrightarrow> meta_gradient m = None \<and>
     (\<forall>n. meta_grad_fn m = Some n \<longrightarrow> (\<forall>p \<in> set (node_parents n). public h p)))"

lemma clean_None: "clean_meta h None"
  by (simp add: clean_meta_def)

lemma clean_record: "\<forall>p \<in> set ps. public h p \<Longrightarrow> clean_meta h (record_meta h op ps)"
  by (auto simp: clean_meta_def record_meta_def default_meta_def)

lemma may_add_inv:
  assumes inv: "heap_inv h" and wf': "wf_heap h'" and e: "heap_extends h h'"
    and add: "may_add h srcs meta h'" and srcs: "\<forall>p \<in> set srcs. public h p"
    and clean: "clean_meta h meta"
  shows "heap_inv h'" "is_grad h' = is_grad h"
proof -
  note wf = heap_invD(1) [OF inv] and go = heap_invD(2) [OF inv] and oc = heap_invD(3) [OF inv]
  let ?n = "length (tensors h)"
  have old: "tensor_at h' i = tensor_at h i" if "i < ?n" for i using heap_extends_nth(3) [OF e that] .
  have grd: "gradient_of h' i = gradient_of h i" "parents_of h' i = parents_of h i" if "i < ?n" for i
    using gradient_of_same [OF old [OF that]] parents_of_same [OF old [OF that]] by simp_all
  have len: "?n \<le> length (tensors h')" using heap_extends_lengths(3) [OF e] .
  have new: "i = ?n \<and> shares_with h srcs (tensor_at h' i) \<and>
      (t_meta (tensor_at h' i) = None \<or> t_meta (tensor_at h' i) = meta)"
    if "i < length (tensors h')" "\<not> i < ?n" for i
    using add that by (auto simp: may_add_def new_tensor_at_def less_Suc_eq)
  have new_grad: "gradient_of h' i = None" "p \<in> set (parents_of h' i) \<Longrightarrow> public h p"
    if i: "i < length (tensors h')" "\<not> i < ?n" for i p
  proof -
    note nw = new [OF i]
    consider "t_meta (tensor_at h' i) = None" | m where "t_meta (tensor_at h' i) = Some m" "meta = Some m"
      using nw by (cases "t_meta (tensor_at h' i)") auto
    then have "gradient_of h' i = None \<and> (p \<in> set (parents_of h' i) \<longrightarrow> public h p)"
    proof cases
      case 1
      then show ?thesis using no_meta by simp
    next
      case 2
      then show ?thesis
        using clean by (cases "meta_grad_fn m")
          (auto simp: clean_meta_def gradient_of_def parents_of_def grad_fn_of_def)
    qed
    then show "gradient_of h' i = None" "p \<in> set (parents_of h' i) \<Longrightarrow> public h p" by blast+
  qed
  have lt: "i < length (tensors h')" if "i < ?n" for i using that len by simp
  have gi: "gradient_of h' i = Some g \<longleftrightarrow> i < ?n \<and> gradient_of h i = Some g"
    if "i < length (tensors h')" for i g
    using grd(1) [of i] new_grad(1) [OF that] by (cases "i < ?n") simp_all
  show ig: "is_grad h' = is_grad h"
    unfolding is_grad_def fun_eq_iff using gi lt by blast
  have st: "t_storage (tensor_at h j) < length (storages h)" if "j < ?n" for j
    using wf_heap_layout [OF wf that] by (simp add: layout_ok_def)
  have own: "owned h' g" if g: "owned h g" "is_grad h g" for g
  proof -
    have gl: "g < ?n" using g(1) by (simp add: owned_def)
    have "t_storage (tensor_at h' j) \<noteq> t_storage (tensor_at h' g)"
      if j: "j < length (tensors h')" "j \<noteq> g" for j
    proof (cases "j < ?n")
      case True
      then show ?thesis using g(1) j(2) old [OF True] old [OF gl] by (simp add: owned_def)
    next
      case False
      from new [OF j(1) False] have "shares_with h srcs (tensor_at h' j)" by blast
      then consider "length (storages h) \<le> t_storage (tensor_at h' j)"
        | p where "p \<in> set srcs" "t_storage (tensor_at h' j) = t_storage (tensor_at h p)"
        unfolding shares_with_def by blast
      then show ?thesis
      proof cases
        case 1
        then show ?thesis using st [OF gl] old [OF gl] by simp
      next
        case 2
        then have "public h p" using srcs by blast
        then have "p < ?n" "p \<noteq> g" using g(2) by (auto simp: public_def)
        then show ?thesis using 2(2) g(1) old [OF gl] by (simp add: owned_def)
      qed
    qed
    then show ?thesis using gl lt by (simp add: owned_def)
  qed
  have "grads_owned h'"
  proof (rule grads_ownedI)
    fix i g assume i: "i < length (tensors h')" and g: "gradient_of h' i = Some g"
    then have i': "i < ?n" "gradient_of h i = Some g" using gi by blast+
    then have "is_grad h g" by (auto simp: is_grad_def)
    then show "owned h' g" using own grads_ownedD(1) [OF go i'] by blast
    fix j assume "j < length (tensors h')" "gradient_of h' j = Some g"
    then have "j < ?n" "gradient_of h j = Some g" using gi by blast+
    then show "j = i" using grads_ownedD(2) [OF go i'] by blast
  next
    fix i p assume i: "i < length (tensors h')" and p: "p \<in> set (parents_of h' i)"
    show "\<not> is_grad h' p"
    proof (cases "i < ?n")
      case True
      then show ?thesis using grads_ownedD(3) [OF go True] p grd(2) ig by simp
    next
      case False
      then show ?thesis using new_grad(2) [OF i False p] ig by (simp add: public_def)
    qed
  qed
  moreover have "one_counter h'"
  proof -
    have same: "t_version_counter (tensor_at h' i) = t_version_counter (tensor_at h' j)"
      if j: "j < ?n" and i: "i < length (tensors h')"
        and eq: "t_storage (tensor_at h' i) = t_storage (tensor_at h' j)" for i j
    proof (cases "i < ?n")
      case True
      then show ?thesis using one_counterD [OF oc True j] eq old [OF True] old [OF j] by simp
    next
      case False
      from new [OF i False] have "shares_with h srcs (tensor_at h' i)" by blast
      moreover have "\<not> length (storages h) \<le> t_storage (tensor_at h' i)"
        using eq st [OF j] old [OF j] by simp
      ultimately obtain p where p: "p \<in> set srcs" "t_storage (tensor_at h' i) = t_storage (tensor_at h p)"
        "t_version_counter (tensor_at h' i) = t_version_counter (tensor_at h p)"
        unfolding shares_with_def by blast
      have "p < ?n" using srcs p(1) by (simp add: public_def)
      then show ?thesis using one_counterD [OF oc _ j] p eq old [OF j] by simp
    qed
    have "t_version_counter (tensor_at h' i) = t_version_counter (tensor_at h' j)"
      if i: "i < length (tensors h')" and j: "j < length (tensors h')"
        and eq: "t_storage (tensor_at h' i) = t_storage (tensor_at h' j)" for i j
    proof -
      consider "j < ?n" | "i < ?n" | "i = ?n" "j = ?n" using new i j by blast
      then show ?thesis
      proof cases
        case 1 then show ?thesis using same i eq by blast
      next
        case 2 then show ?thesis using same [OF 2 j eq [symmetric]] by simp
      next
        case 3 then show ?thesis by simp
      qed
    qed
    then show ?thesis unfolding one_counter_def by blast
  qed
  ultimately show "heap_inv h'" using wf' by (simp add: heap_inv_def)
qed

section \<open>Safe computations\<close>

definition safe :: "heap \<Rightarrow> 'a \<times> heap \<Rightarrow> bool" where
  "safe h x \<longleftrightarrow> heap_inv (snd x) \<and> (\<forall>p. public h p \<longrightarrow> public (snd x) p)"

lemma safeD:
  assumes "safe h (r, h')"
  shows "heap_inv h'" "public h p \<Longrightarrow> public h' p"
  using assms by (simp_all add: safe_def)

lemma safe_same: "heap_inv h \<Longrightarrow> safe h (r, h)"
  by (simp add: safe_def)

lemma safe_bind:
  assumes "safe h (m h)"
    and "\<And>a h1. m h = (Inr a, h1) \<Longrightarrow> heap_inv h1 \<Longrightarrow> (\<And>p. public h p \<Longrightarrow> public h1 p) \<Longrightarrow>
      safe h1 (f a h1)"
  shows "safe h (bindE m f h)"
proof -
  obtain r h1 where m: "m h = (r, h1)" by force
  then have s: "heap_inv h1" "\<And>p. public h p \<Longrightarrow> public h1 p" using assms(1) by (auto simp: safe_def)
  show ?thesis
  proof (cases r)
    case (Inl e)
    then show ?thesis using m assms(1) by (simp add: bindE_def safe_def)
  next
    case (Inr a)
    then have "safe h1 (f a h1)" using assms(2) m s by blast
    then show ?thesis using m Inr s by (simp add: bindE_def safe_def)
  qed
qed

lemma yields_safe:
  assumes "heap_inv h" and "yields h srcs d vs meta x"
    and "\<forall>p \<in> set srcs. public h p" and "clean_meta h meta"
  shows "safe h x" "fst x = Inr r \<Longrightarrow> public (snd x) r"
proof -
  obtain res h' where x: "x = (res, h')" by force
  note y = yieldsD(1-3) [OF assms(2) [unfolded x]]
  note m = may_add_inv [OF assms(1) y assms(3,4)]
  have len: "length (tensors h) \<le> length (tensors h')" using heap_extends_lengths(3) [OF y(2)] .
  then have "public h p \<Longrightarrow> public h' p" for p using m(2) by (simp add: public_def)
  then show "safe h x" using m(1) x by (simp add: safe_def)
  show "public (snd x) r" if "fst x = Inr r"
  proof -
    have "r = length (tensors h)" "length (tensors h') = Suc (length (tensors h))"
      using assms(2) x that by (simp_all add: yields_def makes_tensor_def)
    then show ?thesis
      using m(2) is_grad_less [OF heap_invD(1) [OF assms(1)], of r] x by (auto simp: public_def)
  qed
qed

lemma quietly_safe:
  assumes "heap_inv h" and "quietly h h'"
  shows "safe h (r, h')"
proof -
  have "may_add h [] None h'" using assms(2) by (simp add: may_add_def quietly_def)
  moreover have "heap_extends h h'" "tensors h' = tensors h" using assms(2) by (simp_all add: quietly_def)
  moreover have "wf_heap h'" using wf_heap_quietly [OF heap_invD(1) [OF assms(1)] assms(2)] .
  ultimately show ?thesis
    using may_add_inv [OF assms(1) _ _ _ _ clean_None] by (simp add: safe_def public_def)
qed

text \<open>Differentiation.\<close>

lemma base_inv_one_counter:
  assumes b: "base_inv h h'" and oc: "one_counter h"
  shows "one_counter h'"
  unfolding one_counter_def
proof (intro allI impI)
  fix i j assume i: "i < length (tensors h')" and j: "j < length (tensors h')"
    and eq: "t_storage (tensor_at h' i) = t_storage (tensor_at h' j)"
  show "t_version_counter (tensor_at h' i) = t_version_counter (tensor_at h' j)"
  proof (cases "i < length (tensors h) \<and> j < length (tensors h)")
    case True
    then show ?thesis
      using core_eqD(2,3) [OF base_invD(5) [OF b, of i]] core_eqD(2,3) [OF base_invD(5) [OF b, of j]]
        eq one_counterD [OF oc, of i j] by simp
  next
    case False
    then have "owned h' i \<or> owned h' j" using base_invD(8) [OF b] i j by (meson not_less)
    then have "i = j" using eq i j by (auto simp: owned_def)
    then show ?thesis by simp
  qed
qed

lemma Backward_safe:
  assumes inv: "heap_inv h" and root: "root < length (tensors h)"
  shows "safe h (Backward L root h)"
proof -
  obtain res h' where run: "Backward L root h = (res, h')" by force
  note b = Backward_base_inv [OF heap_invD(4) [OF inv] root run]
  have "public h' p" if "public h p" for p
    using that base_invD(4) [OF b] is_grad_initial [OF b] by (auto simp: public_def)
  then show ?thesis
    using run base_invD(1,2) [OF b] base_inv_one_counter [OF b] heap_invD(3) [OF inv]
    by (simp add: safe_def heap_inv_def)
qed

end
