(* ===== verification/Training_Ops.thy ===== *)
theory Training_Ops
  imports Heap_Invariant
begin

text \<open>
  Activations and losses of the core-only training bridge
  (\<open>native/src/training/training_bridge_stub.cc\<close>) and of \<open>native/src/training/nn_v2_runtime.h\<close>,
  and the bias addition of the linear module.  Each operation computes one vector from the values of
  its operands and records itself as the producer of the result.

  Relu, sigmoid, tanh, the losses and the bias addition read the storage of their operands directly
  and refuse views that are not contiguous; gelu, silu and swiglu read logical values.
\<close>

section \<open>Scalar functions\<close>

definition f32_isnan :: "f32 \<Rightarrow> bool" where "f32_isnan x = (of_f32 x = FNaN)"

text \<open>\<open>x >= y\<close>\<close>

definition f32_ge :: "f32 \<Rightarrow> f32 \<Rightarrow> bool" where
  "f32_ge x y = (\<not> f32_isnan x \<and> \<not> f32_isnan y \<and> \<not> f32_less x y)"

definition relu_value :: "f32 \<Rightarrow> f32" where
  "relu_value x = f32_max f32_zero x"

definition sigmoid_value :: "libm \<Rightarrow> f32 \<Rightarrow> f32" where
  "sigmoid_value L value =
     (if f32_ge value f32_zero
      then (let exp_value = expf L (f32_neg value) in f32_div f32_one (f32_add f32_one exp_value))
      else (let exp_value = expf L value in f32_div exp_value (f32_add f32_one exp_value)))"

fun activation_value :: "libm \<Rightarrow> operation \<Rightarrow> f32 \<Rightarrow> f32" where
  "activation_value L kRelu x = relu_value x"
| "activation_value L kSigmoid x = sigmoid_value L x"
| "activation_value L _ x = tanhf L x"

definition GeluForward :: "libm \<Rightarrow> f32 \<Rightarrow> f32" where
  "GeluForward L x =
     f32_mul (f32_mul f32_half x) (f32_add f32_one (erff L (f32_mul x kInvSqrt2)))"

definition SiluForward :: "libm \<Rightarrow> f32 \<Rightarrow> f32" where
  "SiluForward L x = (let sigmoid = logistic L x in f32_mul x sigmoid)"

section \<open>Loops\<close>

definition swiglu_values :: "libm \<Rightarrow> nat \<Rightarrow> nat \<Rightarrow> nat \<Rightarrow> nat \<Rightarrow> f32 list \<Rightarrow> f32 list" where
  "swiglu_values L output_numel rows width half input =
     loop rows (\<lambda>row. loop half (\<lambda>col values.
       let a = input ! (row * width + col); b = input ! (row * width + (half + col))
       in values[row * half + col := f32_mul (SiluForward L a) b]))
     (replicate output_numel f32_zero)"

definition add_bias_values :: "nat \<Rightarrow> nat \<Rightarrow> f32 list \<Rightarrow> f32 list \<Rightarrow> f32 list" where
  "add_bias_values rows cols matrix bias =
     loop rows (\<lambda>row. loop cols (\<lambda>col values.
       values[row * cols + col := f32_add (values ! (row * cols + col)) (bias ! col)]))
     matrix"

definition mse_value :: "f32 list \<Rightarrow> f32 list \<Rightarrow> f32" where
  "mse_value prediction target =
     (let squared_error = loop (length prediction) (\<lambda>index squared_error.
        let difference = f64_sub (f32_to_f64 (prediction ! index)) (f32_to_f64 (target ! index))
        in f64_add squared_error (f64_mul difference difference)) f64_zero
      in f64_to_f32 (f64_div squared_error (f64_of_nat (length prediction))))"

definition log_denominator :: "libm \<Rightarrow> f32 list \<Rightarrow> nat \<Rightarrow> nat \<Rightarrow> f64" where
  "log_denominator L logits classes row =
     (let max_logit = row_max logits classes row;
          denominator = loop classes (\<lambda>col denominator. f64_add denominator
            (exp64 L (f32_to_f64 (f32_sub (logits ! (row * classes + col)) max_logit)))) f64_zero
      in f64_add (log64 L denominator) (f32_to_f64 max_logit))"

definition cross_entropy_value :: "libm \<Rightarrow> nat \<Rightarrow> nat \<Rightarrow> f32 list \<Rightarrow> f32 list \<Rightarrow> f32" where
  "cross_entropy_value L batch classes logits target =
     (let total = loop batch (\<lambda>row total.
        let ld = log_denominator L logits classes row
        in loop classes (\<lambda>col total.
          let index = row * classes + col
          in f64_sub total (f64_mul (f32_to_f64 (target ! index))
               (f64_sub (f32_to_f64 (logits ! index)) ld))) total) f64_zero
      in f64_to_f32 (f64_div total (f64_of_nat batch)))"

section \<open>Operations\<close>

definition MakeActivation :: "libm \<Rightarrow> tensor_ref \<Rightarrow> operation \<Rightarrow> (heap, tensor_ref) run" where
  "MakeActivation L tensor operation =
     bindE (CpuValues tensor ''activation'') (\<lambda>input.
     bindE (checkE (operation \<in> {kRelu, kSigmoid, kTanh} \<or> input = [])
       (InternalError ''activation: unsupported operation'')) (\<lambda>_.
     bindE (getE (\<lambda>h. t_shape (tensor_at h tensor))) (\<lambda>shape.
     bindE (MakeCpuTensor shape (map (activation_value L operation) input)) (\<lambda>out.
     bindE (RecordUnary operation tensor out) (\<lambda>_. returnE out)))))"

definition Relu :: "libm \<Rightarrow> tensor_ref \<Rightarrow> (heap, tensor_ref) run" where
  "Relu L tensor = MakeActivation L tensor kRelu"

definition Sigmoid :: "libm \<Rightarrow> tensor_ref \<Rightarrow> (heap, tensor_ref) run" where
  "Sigmoid L tensor = MakeActivation L tensor kSigmoid"

definition Tanh :: "libm \<Rightarrow> tensor_ref \<Rightarrow> (heap, tensor_ref) run" where
  "Tanh L tensor = MakeActivation L tensor kTanh"

definition MakeScalar :: "f32 \<Rightarrow> (heap, tensor_ref) run" where
  "MakeScalar value =
     bindE (statusE (ValidateShape None 0)) (\<lambda>scalar. MakeCpuTensor scalar [value])"

definition AddBias :: "tensor_ref \<Rightarrow> tensor_ref \<Rightarrow> (heap, tensor_ref) run" where
  "AddBias matrix bias =
     bindE (getE (\<lambda>h. (t_shape (tensor_at h matrix), dims_of (tensor_at h bias)))) (\<lambda>(shape, bd).
     bindE (checkE (length (dimensions shape) = 2 \<and> length bd = 1)
       (InternalError ''linear_forward: invalid internal bias shapes'')) (\<lambda>_.
     bindE (checkE (bd ! 0 = dimensions shape ! 1)
       (InternalError ''linear_forward: bias width mismatch'')) (\<lambda>_.
     bindE (CpuValues matrix ''linear_forward'') (\<lambda>matrix_values.
     bindE (CpuValues bias ''linear_forward'') (\<lambda>bias_values.
     bindE (MakeCpuTensor shape (add_bias_values (nat (dimensions shape ! 0))
       (nat (dimensions shape ! 1)) matrix_values bias_values)) (\<lambda>out.
     bindE (RecordBiasAdd matrix bias out) (\<lambda>_. returnE out)))))))"

definition MseLoss :: "tensor_ref \<Rightarrow> tensor_ref \<Rightarrow> (heap, tensor_ref) run" where
  "MseLoss prediction target =
     bindE (getE (\<lambda>h. (tensor_at h prediction, tensor_at h target))) (\<lambda>(p, t).
     bindE (statusE (EnsureCpuFloat32 p ''mse_loss'')) (\<lambda>_.
     bindE (statusE (EnsureCpuFloat32 t ''mse_loss'')) (\<lambda>_.
     bindE (checkE (SameShape (t_shape p) (t_shape t))
       (InvalidShape ''mse_loss: prediction and target shapes must match'')) (\<lambda>_.
     bindE (CpuValues prediction ''mse_loss'') (\<lambda>prediction_values.
     bindE (CpuValues target ''mse_loss'') (\<lambda>target_values.
     bindE (MakeScalar (mse_value prediction_values target_values)) (\<lambda>out.
     bindE (RecordBinary kMse prediction target out) (\<lambda>_. returnE out))))))))"

definition CrossEntropyLoss :: "libm \<Rightarrow> tensor_ref \<Rightarrow> tensor_ref \<Rightarrow> (heap, tensor_ref) run" where
  "CrossEntropyLoss L logits one_hot_target =
     bindE (getE (\<lambda>h. (tensor_at h logits, tensor_at h one_hot_target))) (\<lambda>(l, t).
     bindE (statusE (EnsureCpuFloat32 l ''cross_entropy_loss'')) (\<lambda>_.
     bindE (statusE (EnsureCpuFloat32 t ''cross_entropy_loss'')) (\<lambda>_.
     bindE (checkE (SameShape (t_shape l) (t_shape t)) (InvalidShape
       ''cross_entropy_loss: logits and one-hot target shapes must match'')) (\<lambda>_.
     bindE (checkE (length (dims_of l) = 2) (InvalidShape
       ''cross_entropy_loss: initial contract requires rank-2 tensors'')) (\<lambda>_.
     bindE (CpuValues logits ''cross_entropy_loss'') (\<lambda>logits_values.
     bindE (CpuValues one_hot_target ''cross_entropy_loss'') (\<lambda>target_values.
     bindE (MakeScalar (cross_entropy_value L (nat (dims_of l ! 0)) (nat (dims_of l ! 1))
       logits_values target_values)) (\<lambda>out.
     bindE (RecordBinary kCrossEntropy logits one_hot_target out) (\<lambda>_. returnE out)))))))))"

definition ValidateCpuFloat32 :: "tensor_ref \<Rightarrow> string \<Rightarrow> (heap, unit) run" where
  "ValidateCpuFloat32 tensor operation =
     bindE (getE (\<lambda>h. tensor_at h tensor)) (\<lambda>t. statusE (EnsureCpuFloat32 t operation))"

definition CpuUnary ::
    "tensor_ref \<Rightarrow> operation \<Rightarrow> string \<Rightarrow> (f32 \<Rightarrow> f32) \<Rightarrow> (heap, tensor_ref) run" where
  "CpuUnary tensor operation operation_name forward =
     bindE (ValidateCpuFloat32 tensor operation_name) (\<lambda>_.
     bindE (ReadLogicalCpuValues tensor operation_name) (\<lambda>input.
     bindE (allocation_guard operation_name request_alloc) (\<lambda>_.
     bindE (getE (\<lambda>h. t_shape (tensor_at h tensor))) (\<lambda>shape.
     bindE (MakeCpuTensor shape (map forward input)) (\<lambda>out.
     bindE (RecordUnary operation tensor out) (\<lambda>_. returnE out))))))"

definition Gelu :: "libm \<Rightarrow> tensor_ref \<Rightarrow> (heap, tensor_ref) run" where
  "Gelu L tensor = CpuUnary tensor kGelu ''tensor_gelu'' (GeluForward L)"

definition Silu :: "libm \<Rightarrow> tensor_ref \<Rightarrow> (heap, tensor_ref) run" where
  "Silu L tensor = CpuUnary tensor kSilu ''tensor_silu'' (SiluForward L)"

definition SwiGlu :: "libm \<Rightarrow> tensor_ref \<Rightarrow> (heap, tensor_ref) run" where
  "SwiGlu L tensor =
     bindE (ValidateCpuFloat32 tensor ''tensor_swiglu'') (\<lambda>_.
     bindE (getE (\<lambda>h. t_shape (tensor_at h tensor))) (\<lambda>shape.
     bindE (checkE (dimensions shape \<noteq> [])
       (InvalidShape ''tensor_swiglu: input must have rank at least one'')) (\<lambda>_.
     bindE (returnE (last (dimensions shape))) (\<lambda>width.
     bindE (checkE (\<not> (width \<le> 0 \<or> width mod 2 \<noteq> 0))
       (InvalidShape ''tensor_swiglu: final dimension must be positive and even'')) (\<lambda>_.
     bindE (returnE (nat (width div 2), numel shape div nat width,
              butlast (dimensions shape) @ [width div 2])) (\<lambda>(half, rows, output_dimensions).
     bindE (statusE (ValidateShape (Some output_dimensions) (length output_dimensions)))
       (\<lambda>output_shape.
     bindE (ReadLogicalCpuValues tensor ''tensor_swiglu'') (\<lambda>input.
     bindE (allocation_guard ''tensor_swiglu'' request_alloc) (\<lambda>_.
     bindE (MakeCpuTensor output_shape (swiglu_values L (numel output_shape) rows (nat width) half
       input)) (\<lambda>out.
     bindE (RecordUnary kSwiGlu tensor out) (\<lambda>_. returnE out)))))))))))"

section \<open>Direct access to a storage\<close>

text \<open>A tensor whose elements are its whole storage, in order: what direct access requires.\<close>

definition direct :: "heap \<Rightarrow> tensor_ref \<Rightarrow> bool" where
  "direct h r \<longleftrightarrow> is_contiguous (tensor_at h r) \<and> t_offset (tensor_at h r) = 0 \<and>
     length (cpu_values (storage_of h (tensor_at h r))) = numel_of (tensor_at h r)"

lemma direct_storage_run:
  assumes "layout_ok h (tensor_at h r)"
  shows "\<exists>m. direct_storage contiguity extent_text r op h =
    (if direct h r then (Inr (t_storage (tensor_at h r)), h)
     else (Inl (Failed (InvalidArgument m)), h))"
  using assms layout_ok_ensure [OF assms]
  by (auto simp: direct_storage_def direct_def layout_ok_def exec_simps)

lemma direct_values:
  assumes "layout_ok h (tensor_at h r)" and "direct h r"
  shows "cpu_values (storage_of h (tensor_at h r)) = logical_values h (tensor_at h r)"
proof -
  obtain vs where "storage_of h (tensor_at h r) = CpuStorage vs" using assms(1) by (auto simp: layout_ok_def)
  then show ?thesis
    using contiguous_logical_values [OF assms(1), of vs] assms(2) by (simp add: direct_def)
qed

lemma CpuValues_run:
  assumes "layout_ok h (tensor_at h r)"
  shows "\<exists>m. CpuValues r op h =
    (if direct h r then (Inr (logical_values h (tensor_at h r)), h)
     else (Inl (Failed (InvalidArgument m)), h))"
proof -
  obtain m where "direct_storage '': direct storage access requires a contiguous tensor''
      '': direct access requires full logical storage extent'' r op h =
    (if direct h r then (Inr (t_storage (tensor_at h r)), h)
     else (Inl (Failed (InvalidArgument m)), h))"
    using direct_storage_run [OF assms] by blast
  then show ?thesis
    using direct_values [OF assms] by (cases "direct h r") (auto simp: CpuValues_def exec_simps)
qed

lemma CpuValues_direct:
  assumes "layout_ok h (tensor_at h r)" and "direct h r"
  shows "CpuValues r op h = (Inr (logical_values h (tensor_at h r)), h)"
  using CpuValues_run [OF assms(1), of op] assms(2) by simp

lemma yields_CpuValues:
  assumes wf: "wf_heap h" and r: "r < length (tensors h)"
    and step: "direct h r \<Longrightarrow> yields h srcs d vs meta (f (logical_values h (tensor_at h r)) h)"
  shows "yields h srcs d vs meta (bindE (CpuValues r op) f h)"
proof -
  obtain m where "CpuValues r op h =
    (if direct h r then (Inr (logical_values h (tensor_at h r)), h)
     else (Inl (Failed (InvalidArgument m)), h))"
    using CpuValues_run [OF wf_heap_layout [OF wf r]] by blast
  then show ?thesis
    using step wf by (cases "direct h r") (simp_all add: bindE_def yields_quiet_fault quiet.frame_refl)
qed

section \<open>Recording a computed tensor\<close>

lemma yields_MakeCpuTensor:
  assumes wf: "wf_heap h" and dims: "dimensions sh = d" and valid: "valid_dims d"
    and ps: "\<forall>p \<in> set ps. p < length (tensors h)"
    and ok: "node_dims_ok op (map (\<lambda>p. dims_of (tensor_at h p)) ps) d"
    and cont: "\<And>out. f out = bindE (AttachNode out op ps) (\<lambda>_. returnE out)"
  shows "yields h srcs d vs (record_meta h op ps) (bindE (MakeCpuTensor sh vs) f h)"
proof -
  obtain res h1 where run: "MakeCpuTensor sh vs h = (res, h1)" by force
  have i64: "i64_array (dimensions sh)" using valid dims by (simp add: valid_dims_i64)
  from run i64 show ?thesis
  proof (cases rule: MakeCpuTensor_cases)
    case (failed e)
    then show ?thesis using run wf by (simp add: bindE_def yields_quiet_fault)
  next
    case made
    then show ?thesis
      using run dims yields_made [OF wf _ valid _ ps ok] by (simp add: bindE_def cont)
  qed
qed

lemma MakeCpuTensor_succeeds:
  assumes "alloc_plan h = []" and "valid_dims (dimensions sh)" and "numel sh = dims_prod (dimensions sh)"
    and "length vs = numel sh"
  shows "succeeds (MakeCpuTensor sh vs) h"
  using MakeCpuTensor_ok [OF assms] by (auto simp: succeeds_def)

lemma tensor_shape_facts:
  assumes "wf_heap h" and "r < length (tensors h)"
  shows "valid_dims (dims_of (tensor_at h r))"
    "numel_of (tensor_at h r) = dims_prod (dims_of (tensor_at h r))"
    "length (logical_values h (tensor_at h r)) = dims_prod (dims_of (tensor_at h r))"
  using layout_ok_valid [OF wf_heap_layout [OF assms]] layout_ok_numel [OF wf_heap_layout [OF assms]]
  by simp_all

lemma scalar_shape: "valid_dims []" "dims_prod [] = 1"
  by (simp_all add: valid_dims_def kMaxTensorRank_def max_numel_def)

lemma MakeScalar_run: "MakeScalar x = MakeCpuTensor (canonical_shape []) [x]"
  by (simp add: MakeScalar_def ValidateShape_scalar)

section \<open>Activations\<close>

lemma MakeActivation_yields:
  assumes wf: "wf_heap h" and r: "r < length (tensors h)" and op: "op \<in> {kRelu, kSigmoid, kTanh}"
  shows "yields h [] (dims_of (tensor_at h r))
    (map (activation_value L op) (logical_values h (tensor_at h r))) (record_meta h op [r])
    (MakeActivation L r op h)"
  unfolding MakeActivation_def
proof (rule yields_CpuValues [OF wf r])
  have "yields h [] (dims_of (tensor_at h r))
      (map (activation_value L op) (logical_values h (tensor_at h r))) (record_meta h op [r])
      (bindE (MakeCpuTensor (t_shape (tensor_at h r))
        (map (activation_value L op) (logical_values h (tensor_at h r)))) (\<lambda>out.
       bindE (RecordUnary op r out) (\<lambda>_. returnE out)) h)"
    using tensor_shape_facts [OF wf r] r op
    by (intro yields_MakeCpuTensor [OF wf]) (auto simp: one_parent_def record_simps)
  then show "yields h [] (dims_of (tensor_at h r))
      (map (activation_value L op) (logical_values h (tensor_at h r))) (record_meta h op [r])
      (bindE (checkE (op \<in> {kRelu, kSigmoid, kTanh} \<or> logical_values h (tensor_at h r) = [])
         (InternalError ''activation: unsupported operation'')) (\<lambda>_.
       bindE (getE (\<lambda>h. t_shape (tensor_at h r))) (\<lambda>shape.
       bindE (MakeCpuTensor shape (map (activation_value L op) (logical_values h (tensor_at h r)))) (\<lambda>out.
       bindE (RecordUnary op r out) (\<lambda>_. returnE out)))) h)"
    using op by simp
qed

lemma MakeActivation_succeeds:
  assumes wf: "wf_heap h" and "alloc_plan h = []" and r: "r < length (tensors h)" and "direct h r"
    and op: "op \<in> {kRelu, kSigmoid, kTanh}"
  shows "succeeds (MakeActivation L r op) h"
proof -
  have "succeeds (bindE (MakeCpuTensor (t_shape (tensor_at h r))
      (map (activation_value L op) (logical_values h (tensor_at h r)))) (\<lambda>out.
       bindE (RecordUnary op r out) (\<lambda>_. returnE out))) h"
    using tensor_shape_facts [OF wf r] assms(2)
    by (intro finish_succeeds MakeCpuTensor_succeeds) (auto simp: record_simps)
  then show ?thesis
    using op CpuValues_direct [OF wf_heap_layout [OF wf r] assms(4)]
    by (simp add: succeeds_def MakeActivation_def bindE_Inr_run)
qed

lemma ValidateCpuFloat32_ok:
  "wf_heap h \<Longrightarrow> r < length (tensors h) \<Longrightarrow> ValidateCpuFloat32 r op h = (Inr (), h)"
  using layout_ok_ensure [OF wf_heap_layout [of h r]] by (simp add: ValidateCpuFloat32_def statusE_run)

lemma yields_guard_alloc:
  assumes "wf_heap h"
    and "\<And>h1. quietly h h1 \<Longrightarrow> wf_heap h1 \<Longrightarrow> yields h1 srcs d vs meta (f () h1)"
  shows "yields h srcs d vs meta (bindE (allocation_guard op request_alloc) f h)"
proof (rule yields_bind [OF assms(1)])
  show "keeps quietly (allocation_guard op request_alloc)"
    by (intro keeps_allocation_guard quiet_request_alloc)
  fix a h1 assume "quietly h h1" "wf_heap h1"
  then show "yields h srcs d vs meta (f a h1)" using assms(2) yields_quiet by simp
qed

lemma CpuUnary_yields:
  assumes wf: "wf_heap h" and r: "r < length (tensors h)" and op: "op \<in> {kGelu, kSilu}"
  shows "yields h [] (dims_of (tensor_at h r)) (map f (logical_values h (tensor_at h r)))
    (record_meta h op [r]) (CpuUnary r op name f h)"
proof -
  let ?d = "dims_of (tensor_at h r)" and ?vs = "logical_values h (tensor_at h r)"
  let ?finish = "\<lambda>input. bindE (allocation_guard name request_alloc) (\<lambda>_.
     bindE (getE (\<lambda>h. t_shape (tensor_at h r))) (\<lambda>shape.
     bindE (MakeCpuTensor shape (map f input)) (\<lambda>out.
     bindE (RecordUnary op r out) (\<lambda>_. returnE out))))"
  have "yields h [] ?d (map f ?vs) (record_meta h op [r])
      (bindE (read_values EnsureCpuFloat32 r name) ?finish h)"
  proof (rule yields_read [OF wf r], rule yields_guard_alloc)
    fix h1 h2 assume "quietly h h1" "quietly h1 h2" and wf2: "wf_heap h2"
    then have q: "quietly h h2" using quiet.frame_trans by blast
    then have t2: "tensors h2 = tensors h" by (simp add: quietly_def)
    have "record_meta h2 op [r] = record_meta h op [r]"
      using r by (intro record_meta_quiet [OF wf q]) simp
    moreover have "yields h2 [] ?d (map f ?vs) (record_meta h2 op [r])
        (bindE (MakeCpuTensor (t_shape (tensor_at h2 r)) (map f ?vs)) (\<lambda>out.
         bindE (RecordUnary op r out) (\<lambda>_. returnE out)) h2)"
      using tensor_shape_facts [OF wf r] r op t2
      by (intro yields_MakeCpuTensor [OF wf2]) (auto simp: one_parent_def record_simps)
    ultimately show "yields h2 [] ?d (map f ?vs) (record_meta h op [r])
        (bindE (getE (\<lambda>h. t_shape (tensor_at h r))) (\<lambda>shape.
         bindE (MakeCpuTensor shape (map f ?vs)) (\<lambda>out.
         bindE (RecordUnary op r out) (\<lambda>_. returnE out))) h2)"
      by simp
  qed
  then show ?thesis
    using ValidateCpuFloat32_ok [OF wf r]
    by (simp add: CpuUnary_def bindE_Inr_run ReadLogicalCpuValues_def)
qed

lemma guard_alloc_ok: "alloc_plan h = [] \<Longrightarrow> allocation_guard op request_alloc h = (Inr (), h)"
  by (simp add: allocation_guard_def request_alloc_ok)

lemma ReadLogical_ok:
  assumes "wf_heap h" and "r < length (tensors h)" and "alloc_plan h = []"
  shows "ReadLogicalCpuValues r op h = (Inr (logical_values h (tensor_at h r)), h)"
  using read_values_ok [OF wf_heap_layout [OF assms(1,2)] assms(3)]
    layout_ok_ensure [OF wf_heap_layout [OF assms(1,2)]]
  by (simp add: ReadLogicalCpuValues_def)

lemma CpuUnary_succeeds:
  assumes wf: "wf_heap h" and al: "alloc_plan h = []" and r: "r < length (tensors h)"
  shows "succeeds (CpuUnary r op name f) h"
proof -
  have "succeeds (bindE (MakeCpuTensor (t_shape (tensor_at h r))
      (map f (logical_values h (tensor_at h r)))) (\<lambda>out.
       bindE (RecordUnary op r out) (\<lambda>_. returnE out))) h"
    using tensor_shape_facts [OF wf r] al
    by (intro finish_succeeds MakeCpuTensor_succeeds) (auto simp: record_simps)
  then show ?thesis
    using ValidateCpuFloat32_ok [OF wf r] ReadLogical_ok [OF wf r al] guard_alloc_ok [OF al]
    by (simp add: succeeds_def CpuUnary_def bindE_Inr_run)
qed

section \<open>Losses, the bias and the gated activation\<close>

lemma length_add_bias_values [simp]: "length (add_bias_values rows cols matrix bias) = length matrix"
  by (simp add: add_bias_values_def length_loop)

lemma length_swiglu_values [simp]: "length (swiglu_values L n rows width half input) = n"
  by (simp add: swiglu_values_def Let_def length_loop)

text \<open>Two operands read directly, one scalar result.\<close>

lemma yields_scalar_loss:
  assumes wf: "wf_heap h" and l: "l < length (tensors h)" and r: "r < length (tensors h)"
    and ok: "node_dims_ok op [dims_of (tensor_at h l), dims_of (tensor_at h r)] []"
  shows "yields h [] [] [value (logical_values h (tensor_at h l)) (logical_values h (tensor_at h r))]
    (record_meta h op [l, r])
    (bindE (CpuValues l name) (\<lambda>xs. bindE (CpuValues r name) (\<lambda>ys.
     bindE (MakeScalar (value xs ys)) (\<lambda>out.
     bindE (RecordBinary op l r out) (\<lambda>_. returnE out)))) h)"
proof (rule yields_CpuValues [OF wf l], rule yields_CpuValues [OF wf r])
  show "yields h [] [] [value (logical_values h (tensor_at h l)) (logical_values h (tensor_at h r))]
    (record_meta h op [l, r])
    (bindE (MakeScalar (value (logical_values h (tensor_at h l)) (logical_values h (tensor_at h r)))) (\<lambda>out.
     bindE (RecordBinary op l r out) (\<lambda>_. returnE out)) h)"
    unfolding MakeScalar_run using l r ok scalar_shape
    by (intro yields_MakeCpuTensor [OF wf]) (auto simp: record_simps)
qed

lemma scalar_loss_succeeds:
  assumes wf: "wf_heap h" and al: "alloc_plan h = []" and l: "l < length (tensors h)"
    and r: "r < length (tensors h)" and d: "direct h l" "direct h r"
  shows "succeeds (bindE (CpuValues l name) (\<lambda>xs. bindE (CpuValues r name) (\<lambda>ys.
     bindE (MakeScalar (value xs ys)) (\<lambda>out.
     bindE (RecordBinary op l r out) (\<lambda>_. returnE out))))) h"
proof -
  have "succeeds (bindE (MakeScalar v) (\<lambda>out. bindE (RecordBinary op l r out) (\<lambda>_. returnE out))) h" for v
    unfolding MakeScalar_run using al scalar_shape
    by (intro finish_succeeds MakeCpuTensor_succeeds) (auto simp: record_simps)
  then show ?thesis
    using CpuValues_direct [OF wf_heap_layout [OF wf l] d(1)] CpuValues_direct [OF wf_heap_layout [OF wf r] d(2)]
    by (simp add: succeeds_def bindE_Inr_run)
qed

lemma MseLoss_run:
  assumes wf: "wf_heap h" and p: "p < length (tensors h)" and t: "t < length (tensors h)"
  shows "MseLoss p t h = (if dims_of (tensor_at h p) = dims_of (tensor_at h t)
    then bindE (CpuValues p ''mse_loss'') (\<lambda>xs. bindE (CpuValues t ''mse_loss'') (\<lambda>ys.
      bindE (MakeScalar (mse_value xs ys)) (\<lambda>out.
      bindE (RecordBinary kMse p t out) (\<lambda>_. returnE out)))) h
    else (Inl (Failed (InvalidShape ''mse_loss: prediction and target shapes must match'')), h))"
  using layout_ok_ensure [OF wf_heap_layout [OF wf p]] layout_ok_ensure [OF wf_heap_layout [OF wf t]]
  by (simp add: MseLoss_def SameShape_iff)

lemma MseLoss_yields:
  assumes wf: "wf_heap h" and p: "p < length (tensors h)" and t: "t < length (tensors h)"
  shows "yields h [] [] [mse_value (logical_values h (tensor_at h p)) (logical_values h (tensor_at h t))]
    (record_meta h kMse [p, t]) (MseLoss p t h)"
  using yields_scalar_loss [OF wf p t, of kMse mse_value "''mse_loss''"] MseLoss_run [OF assms] wf
  by (simp add: two_parents_def yields_quiet_fault quiet.frame_refl)

lemma MseLoss_succeeds:
  assumes "wf_heap h" "alloc_plan h = []" "p < length (tensors h)" "t < length (tensors h)"
    "direct h p" "direct h t" "dims_of (tensor_at h p) = dims_of (tensor_at h t)"
  shows "succeeds (MseLoss p t) h"
  using scalar_loss_succeeds [OF assms(1-6)] MseLoss_run [OF assms(1,3,4)] assms(7)
  unfolding succeeds_def by simp

lemma CrossEntropyLoss_run:
  assumes wf: "wf_heap h" and l: "l < length (tensors h)" and t: "t < length (tensors h)"
  shows "CrossEntropyLoss L l t h =
    (if dims_of (tensor_at h l) \<noteq> dims_of (tensor_at h t)
     then (Inl (Failed (InvalidShape
       ''cross_entropy_loss: logits and one-hot target shapes must match'')), h)
     else if length (dims_of (tensor_at h l)) \<noteq> 2
     then (Inl (Failed (InvalidShape ''cross_entropy_loss: initial contract requires rank-2 tensors'')), h)
     else bindE (CpuValues l ''cross_entropy_loss'') (\<lambda>xs. bindE (CpuValues t ''cross_entropy_loss'') (\<lambda>ys.
       bindE (MakeScalar (cross_entropy_value L (nat (dims_of (tensor_at h l) ! 0))
         (nat (dims_of (tensor_at h l) ! 1)) xs ys)) (\<lambda>out.
       bindE (RecordBinary kCrossEntropy l t out) (\<lambda>_. returnE out)))) h)"
  using layout_ok_ensure [OF wf_heap_layout [OF wf l]] layout_ok_ensure [OF wf_heap_layout [OF wf t]]
  by (simp add: CrossEntropyLoss_def SameShape_iff)

lemma CrossEntropyLoss_yields:
  assumes wf: "wf_heap h" and l: "l < length (tensors h)" and t: "t < length (tensors h)"
  shows "yields h [] [] [cross_entropy_value L (nat (dims_of (tensor_at h l) ! 0))
      (nat (dims_of (tensor_at h l) ! 1)) (logical_values h (tensor_at h l))
      (logical_values h (tensor_at h t))]
    (record_meta h kCrossEntropy [l, t]) (CrossEntropyLoss L l t h)"
  using yields_scalar_loss [OF wf l t, of kCrossEntropy "cross_entropy_value L
      (nat (dims_of (tensor_at h l) ! 0)) (nat (dims_of (tensor_at h l) ! 1))" "''cross_entropy_loss''"]
    CrossEntropyLoss_run [OF assms] wf
  by (simp add: two_parents_def yields_quiet_fault quiet.frame_refl)

lemma CrossEntropyLoss_succeeds:
  assumes "wf_heap h" "alloc_plan h = []" "l < length (tensors h)" "t < length (tensors h)"
    "direct h l" "direct h t" "dims_of (tensor_at h l) = dims_of (tensor_at h t)"
    "length (dims_of (tensor_at h l)) = 2"
  shows "succeeds (CrossEntropyLoss L l t) h"
  using scalar_loss_succeeds [OF assms(1-6), of "''cross_entropy_loss''"
      "cross_entropy_value L (nat (dims_of (tensor_at h l) ! 0)) (nat (dims_of (tensor_at h l) ! 1))"
      kCrossEntropy]
    CrossEntropyLoss_run [OF assms(1,3,4)] assms(7,8)
  unfolding succeeds_def by simp

definition bias_result :: "heap \<Rightarrow> tensor_ref \<Rightarrow> tensor_ref \<Rightarrow> f32 list" where
  "bias_result h m b = add_bias_values (nat (dims_of (tensor_at h m) ! 0))
     (nat (dims_of (tensor_at h m) ! 1)) (logical_values h (tensor_at h m))
     (logical_values h (tensor_at h b))"

lemma AddBias_yields:
  assumes wf: "wf_heap h" and m: "m < length (tensors h)" and b: "b < length (tensors h)"
  shows "yields h [] (dims_of (tensor_at h m)) (bias_result h m b) (record_meta h kBiasAdd [m, b])
    (AddBias m b h)"
proof (cases "length (dims_of (tensor_at h m)) = 2 \<and> length (dims_of (tensor_at h b)) = 1 \<and>
    dims_of (tensor_at h b) ! 0 = dims_of (tensor_at h m) ! 1")
  case False
  then show ?thesis using wf by (auto simp: AddBias_def yields_quiet_fault quiet.frame_refl)
next
  case True
  then have bd: "dims_of (tensor_at h b) = [dims_of (tensor_at h m) ! 1]"
    by (cases "dims_of (tensor_at h b)") auto
  let ?sh = "t_shape (tensor_at h m)"
  have "yields h [] (dimensions ?sh) (bias_result h m b) (record_meta h kBiasAdd [m, b])
      (bindE (CpuValues m ''linear_forward'') (\<lambda>mv. bindE (CpuValues b ''linear_forward'') (\<lambda>bv.
       bindE (MakeCpuTensor ?sh (add_bias_values (nat (dimensions ?sh ! 0)) (nat (dimensions ?sh ! 1))
         mv bv)) (\<lambda>out. bindE (RecordBiasAdd m b out) (\<lambda>_. returnE out)))) h)"
  proof (rule yields_CpuValues [OF wf m], rule yields_CpuValues [OF wf b])
    show "yields h [] (dimensions ?sh) (bias_result h m b) (record_meta h kBiasAdd [m, b])
      (bindE (MakeCpuTensor ?sh (add_bias_values (nat (dimensions ?sh ! 0)) (nat (dimensions ?sh ! 1))
         (logical_values h (tensor_at h m)) (logical_values h (tensor_at h b))))
       (\<lambda>out. bindE (RecordBiasAdd m b out) (\<lambda>_. returnE out)) h)"
      unfolding bias_result_def [symmetric]
      using tensor_shape_facts [OF wf m] m b True bd
      by (intro yields_MakeCpuTensor [OF wf]) (auto simp: two_parents_def record_simps)
  qed
  then show ?thesis using True by (simp add: AddBias_def)
qed

lemma AddBias_succeeds:
  assumes wf: "wf_heap h" and al: "alloc_plan h = []" and m: "m < length (tensors h)"
    and b: "b < length (tensors h)" and d: "direct h m" "direct h b"
    and dims: "length (dims_of (tensor_at h m)) = 2" "dims_of (tensor_at h b) = [dims_of (tensor_at h m) ! 1]"
  shows "succeeds (AddBias m b) h"
proof -
  let ?sh = "t_shape (tensor_at h m)"
  have "succeeds (bindE (MakeCpuTensor ?sh (bias_result h m b))
      (\<lambda>out. bindE (RecordBiasAdd m b out) (\<lambda>_. returnE out))) h"
    using tensor_shape_facts [OF wf m] al
    by (intro finish_succeeds MakeCpuTensor_succeeds) (auto simp: record_simps bias_result_def)
  then show ?thesis
    using CpuValues_direct [OF wf_heap_layout [OF wf m] d(1)] CpuValues_direct [OF wf_heap_layout [OF wf b] d(2)]
      dims by (simp add: succeeds_def AddBias_def bindE_Inr_run bias_result_def)
qed

definition gated_dims :: "int list \<Rightarrow> int list" where
  "gated_dims d = butlast d @ [last d div 2]"

definition can_gate :: "int list \<Rightarrow> bool" where
  "can_gate d \<longleftrightarrow> d \<noteq> [] \<and> last d mod 2 = 0"

lemma gated_dims_valid:
  assumes valid: "valid_dims d" and gate: "can_gate d"
  shows "valid_dims (gated_dims d)" "dims_prod d div nat (last d) = dims_prod (butlast d)" "0 < last d"
    "dims_prod d = dims_prod (butlast d) * nat (last d)"
proof -
  have d: "d = butlast d @ [last d]" using gate by (simp add: can_gate_def)
  have pos: "0 < last d" "\<forall>x \<in> set (butlast d). 0 < x"
    using valid gate by (auto simp: valid_dims_def can_gate_def dest: in_set_butlastD)
  show "0 < last d" by (rule pos)
  show prod: "dims_prod d = dims_prod (butlast d) * nat (last d)"
    using arg_cong [OF d, of dims_prod] by simp
  then show "dims_prod d div nat (last d) = dims_prod (butlast d)" using pos by simp
  have "last d div 2 * 2 = last d" using gate by (auto simp: can_gate_def)
  then have half: "0 < last d div 2" using pos by linarith
  have "nat (last d div 2) \<le> nat (last d)" using pos(1) by linarith
  then have "dims_prod (gated_dims d) \<le> dims_prod d" using prod by (simp add: gated_dims_def)
  moreover have "length (gated_dims d) = length d"
    using gate by (cases d) (simp_all add: gated_dims_def can_gate_def)
  ultimately show "valid_dims (gated_dims d)"
    using valid pos half by (auto simp: valid_dims_def gated_dims_def)
qed

definition swiglu_result :: "libm \<Rightarrow> int list \<Rightarrow> f32 list \<Rightarrow> f32 list" where
  "swiglu_result L d vs = swiglu_values L (dims_prod (gated_dims d)) (dims_prod (butlast d))
     (nat (last d)) (nat (last d div 2)) vs"

text \<open>Each row keeps its first half, passed through silu and multiplied by the second half.\<close>

lemma swiglu_values_nth:
  assumes r: "r < rows" and c: "c < half"
  shows "swiglu_values L (rows * half) rows width half input ! (r * half + c) =
    f32_mul (SiluForward L (input ! (r * width + c))) (input ! (r * width + (half + c)))"
proof -
  let ?g = "\<lambda>row col. f32_mul (SiluForward L (input ! (row * width + col)))
    (input ! (row * width + (half + col)))"
  have "swiglu_values L (rows * half) rows width half input ! (r * half + c) =
      loop rows (\<lambda>row. loop half (\<lambda>col v. if row * half + col = r * half + c then ?g row col else v))
        (replicate (rows * half) f32_zero ! (r * half + c))"
    unfolding swiglu_values_def Let_def
    using matrix_index_less [OF r c] by (intro loop_nth) (simp_all add: length_loop update_nth)
  then show ?thesis using loop_matrix_once [OF r c, of "\<lambda>row col v. ?g row col"] by simp
qed

text \<open>The check of the final dimension, and the rest of the operation.\<close>

definition swiglu_finish :: "libm \<Rightarrow> tensor_ref \<Rightarrow> int list \<Rightarrow> f32 list \<Rightarrow> (heap, tensor_ref) run" where
  "swiglu_finish L r d input =
     bindE (MakeCpuTensor (canonical_shape (gated_dims d)) (swiglu_result L d input)) (\<lambda>out.
     bindE (RecordUnary kSwiGlu r out) (\<lambda>_. returnE out))"

lemma SwiGlu_run:
  assumes wf: "wf_heap h" and r: "r < length (tensors h)"
  shows "\<exists>m. SwiGlu L r h = (if can_gate (dims_of (tensor_at h r))
    then bindE (ReadLogicalCpuValues r ''tensor_swiglu'') (\<lambda>input.
      bindE (allocation_guard ''tensor_swiglu'' request_alloc) (\<lambda>_.
      swiglu_finish L r (dims_of (tensor_at h r)) input)) h
    else (Inl (Failed (InvalidShape m)), h))"
proof (cases "can_gate (dims_of (tensor_at h r))")
  case False
  then show ?thesis
    using ValidateCpuFloat32_ok [OF wf r] tensor_shape_facts(1) [OF wf r]
    by (auto simp: SwiGlu_def bindE_Inr_run can_gate_def valid_dims_def not_le)
next
  case True
  let ?d = "dims_of (tensor_at h r)"
  note g = gated_dims_valid [OF tensor_shape_facts(1) [OF wf r] True]
  have "dims_pointer (gated_dims ?d) = Some (gated_dims ?d)"
    by (simp add: dims_pointer_def gated_dims_def)
  then have v: "ValidateShape (Some (gated_dims ?d)) (length (gated_dims ?d)) =
      Inr (canonical_shape (gated_dims ?d))"
    using ValidateShape_pointer [OF g(1)] by simp
  have "length (gated_dims ?d) = Suc (length ?d - Suc 0)" by (simp add: gated_dims_def)
  then show ?thesis
    using True ValidateCpuFloat32_ok [OF wf r] g v [unfolded gated_dims_def] tensor_shape_facts(2) [OF wf r]
    by (simp add: SwiGlu_def bindE_Inr_run can_gate_def swiglu_finish_def swiglu_result_def
        gated_dims_def canonical_shape_def)
qed

lemma SwiGlu_yields:
  assumes wf: "wf_heap h" and r: "r < length (tensors h)"
  shows "yields h [] (gated_dims (dims_of (tensor_at h r)))
    (swiglu_result L (dims_of (tensor_at h r)) (logical_values h (tensor_at h r)))
    (record_meta h kSwiGlu [r]) (SwiGlu L r h)"
proof (cases "can_gate (dims_of (tensor_at h r))")
  case False
  then show ?thesis
    using SwiGlu_run [OF wf r, of L] wf by (auto simp: yields_quiet_fault quiet.frame_refl)
next
  case True
  let ?d = "dims_of (tensor_at h r)" and ?vs = "logical_values h (tensor_at h r)"
  note g = gated_dims_valid [OF tensor_shape_facts(1) [OF wf r] True]
  have "yields h [] (gated_dims ?d) (swiglu_result L ?d ?vs) (record_meta h kSwiGlu [r])
      (bindE (read_values EnsureCpuFloat32 r ''tensor_swiglu'') (\<lambda>input.
        bindE (allocation_guard ''tensor_swiglu'' request_alloc) (\<lambda>_. swiglu_finish L r ?d input)) h)"
  proof (rule yields_read [OF wf r], rule yields_guard_alloc)
    fix h1 h2 assume "quietly h h1" "quietly h1 h2" and wf2: "wf_heap h2"
    then have q: "quietly h h2" using quiet.frame_trans by blast
    then have t2: "tensors h2 = tensors h" by (simp add: quietly_def)
    have "record_meta h2 kSwiGlu [r] = record_meta h kSwiGlu [r]"
      using r by (intro record_meta_quiet [OF wf q]) simp
    moreover have "yields h2 [] (gated_dims ?d) (swiglu_result L ?d ?vs) (record_meta h2 kSwiGlu [r])
        (swiglu_finish L r ?d ?vs h2)"
      unfolding swiglu_finish_def using g True r t2
      by (intro yields_MakeCpuTensor [OF wf2])
        (auto simp: one_parent_def record_simps can_gate_def gated_dims_def)
    ultimately show "yields h2 [] (gated_dims ?d) (swiglu_result L ?d ?vs) (record_meta h kSwiGlu [r])
        (swiglu_finish L r ?d ?vs h2)" by simp
  qed
  then show ?thesis using SwiGlu_run [OF wf r, of L] True by (auto simp: ReadLogicalCpuValues_def)
qed

lemma SwiGlu_succeeds:
  assumes wf: "wf_heap h" and al: "alloc_plan h = []" and r: "r < length (tensors h)"
    and gate: "can_gate (dims_of (tensor_at h r))"
  shows "succeeds (SwiGlu L r) h"
proof -
  note g = gated_dims_valid [OF tensor_shape_facts(1) [OF wf r] gate]
  have "succeeds (swiglu_finish L r (dims_of (tensor_at h r)) vs) h" for vs
    unfolding swiglu_finish_def using g al
    by (intro finish_succeeds MakeCpuTensor_succeeds) (auto simp: record_simps swiglu_result_def)
  then show ?thesis
    using SwiGlu_run [OF wf r, of L] gate ReadLogical_ok [OF wf r al] guard_alloc_ok [OF al]
    by (auto simp: succeeds_def bindE_Inr_run)
qed

end
