(* ===== verification/Handle_Registry.thy ===== *)
theory Handle_Registry
  imports Status "HOL-Library.AList"
begin

text \<open>
  The process-wide table from opaque 64-bit handles to native objects:
  \<open>native/src/runtime/handle_registry.h\<close>, \<open>handle_registry.cc\<close> and
  \<open>handle_registry_internal.h\<close>.

  Every operation of the class holds the registry's mutex for its whole duration, so a
  concurrent history is a sequence of the operations below.  The hash map is an association
  list, reference counts and handles are 64-bit words, and a \<open>shared_ptr<void>\<close> is a value of the
  object type \<open>'o\<close> (\<open>None\<close>: a null pointer).
\<close>

datatype handle_type =
    kTensor
  | kRuntimeReserved
  | kModule
  | kOptimizer
  | kInferenceSession
  | kParameterOptimizer

type_synonym handle = "64 word"

record 'o entry =
  entry_type :: handle_type
  entry_refs :: "64 word"
  entry_object :: 'o

record 'o registry =
  entries :: "(handle \<times> 'o entry) list"
  next_handle :: "64 word"

definition empty_registry :: "'o registry" where
  "empty_registry = \<lparr>entries = [], next_handle = 1\<rparr>"

section \<open>Operations\<close>

definition ValidateNextHandle :: "64 word \<Rightarrow> status + unit" where
  "ValidateNextHandle next =
     (if next = 0 \<or> next = - 1
      then Inl (InternalError ''handle registry: handle identifier space exhausted'') else Inr ())"

definition ValidateInsertion :: "bool \<Rightarrow> status + unit" where
  "ValidateInsertion inserted =
     (if \<not> inserted then Inl (InternalError ''handle registry: duplicate handle identifier'')
      else Inr ())"

definition IncrementReferenceCount :: "64 word \<Rightarrow> status + 64 word" where
  "IncrementReferenceCount refs =
     (if refs = - 1 then Inl (InternalError ''handle registry: reference count overflow'')
      else Inr (refs + 1))"

definition DecrementReferenceCount :: "64 word \<Rightarrow> status + 64 word" where
  "DecrementReferenceCount refs =
     (if refs = 0 then Inl (InternalError ''handle registry: corrupted zero reference count'')
      else Inr (refs - 1))"

text \<open>\<open>unordered_map::emplace\<close>: no effect when the key is present.\<close>

definition emplace :: "handle \<Rightarrow> 'o entry \<Rightarrow> ('o registry, bool) run" where
  "emplace h e = (\<lambda>r. if map_of (entries r) h = None
     then (Inr True, r\<lparr>entries := (h, e) # entries r\<rparr>) else (Inr False, r))"

definition registry_insert :: "handle_type \<Rightarrow> 'o option \<Rightarrow> ('o registry, handle) run" where
  "registry_insert ty object =
     (case object of
        None \<Rightarrow> failE (InvalidArgument ''handle registry: cannot register null object'')
      | Some ob \<Rightarrow>
          bindE (getE next_handle) (\<lambda>handle.
          bindE (statusE (ValidateNextHandle handle)) (\<lambda>_.
          bindE (modifyE (\<lambda>r. r\<lparr>next_handle := handle + 1\<rparr>)) (\<lambda>_.
          bindE (emplace handle \<lparr>entry_type = ty, entry_refs = 1, entry_object = ob\<rparr>) (\<lambda>inserted.
          bindE (statusE (ValidateInsertion inserted)) (\<lambda>_.
          returnE handle))))))"

text \<open>The checks shared by the three operations on an existing handle.\<close>

definition find_entry :: "string \<Rightarrow> handle \<Rightarrow> handle_type \<Rightarrow> ('o registry, 'o entry) run" where
  "find_entry unknown_message handle expected_type =
     bindE (checkE (handle \<noteq> 0) (InvalidHandle ''handle registry: handle 0 is invalid'')) (\<lambda>_.
     bindE (getE (\<lambda>r. map_of (entries r) handle)) (\<lambda>it.
     case it of
       None \<Rightarrow> failE (InvalidHandle unknown_message)
     | Some e \<Rightarrow>
         bindE (checkE (entry_type e = expected_type)
           (InvalidHandle ''handle registry: handle type mismatch'')) (\<lambda>_.
         returnE e)))"

definition registry_retain :: "handle \<Rightarrow> handle_type \<Rightarrow> ('o registry, unit) run" where
  "registry_retain handle expected_type =
     bindE (find_entry ''handle registry: cannot retain unknown/released handle''
       handle expected_type) (\<lambda>e.
     bindE (statusE (IncrementReferenceCount (entry_refs e))) (\<lambda>refs.
     modifyE (\<lambda>r. r\<lparr>entries := AList.update handle (e\<lparr>entry_refs := refs\<rparr>) (entries r)\<rparr>)))"

definition registry_release :: "handle \<Rightarrow> handle_type \<Rightarrow> ('o registry, unit) run" where
  "registry_release handle expected_type =
     bindE (find_entry ''handle registry: cannot release unknown/released handle''
       handle expected_type) (\<lambda>e.
     bindE (statusE (DecrementReferenceCount (entry_refs e))) (\<lambda>refs.
     modifyE (\<lambda>r. r\<lparr>entries :=
       (if refs = 0 then AList.delete handle (entries r)
        else AList.update handle (e\<lparr>entry_refs := refs\<rparr>) (entries r))\<rparr>)))"

definition registry_lookup :: "handle \<Rightarrow> handle_type \<Rightarrow> ('o registry, 'o) run" where
  "registry_lookup handle expected_type =
     bindE (find_entry ''handle registry: unknown or released handle'' handle expected_type)
       (\<lambda>e. returnE (entry_object e))"

definition registry_count :: "handle_type \<Rightarrow> 'o registry \<Rightarrow> 64 word" where
  "registry_count ty r = of_nat (length (filter (\<lambda>(_, e). entry_type e = ty) (entries r)))"

section \<open>Invariant\<close>

definition registry_inv :: "'o registry \<Rightarrow> bool" where
  "registry_inv r \<longleftrightarrow> distinct (map fst (entries r)) \<and> next_handle r \<noteq> 0 \<and>
     (\<forall>(h, e) \<in> set (entries r). 0 < h \<and> h < next_handle r \<and> entry_refs e \<noteq> 0)"

abbreviation entry_of :: "'o registry \<Rightarrow> handle \<Rightarrow> 'o entry option" where
  "entry_of r h \<equiv> map_of (entries r) h"

lemma registry_inv_empty: "registry_inv empty_registry"
  by (simp add: registry_inv_def empty_registry_def)

lemma entry_of_inv:
  assumes "registry_inv r" and "entry_of r h = Some e"
  shows "0 < h" "h < next_handle r" "entry_refs e \<noteq> 0"
  using assms by (auto simp: registry_inv_def dest!: map_of_SomeD)

lemma next_handle_fresh: "registry_inv r \<Longrightarrow> entry_of r (next_handle r) = None"
  using entry_of_inv by (metis order.strict_implies_not_eq not_None_eq)

lemma unat_succ:
  fixes x :: "64 word"
  assumes "x \<noteq> - 1"
  shows "unat (x + 1) = Suc (unat x)"
proof -
  have "1 + x \<noteq> 0" using assms by (metis add.commute eq_neg_iff_add_eq_0)
  then show ?thesis by (metis unatSuc add.commute)
qed

lemma unat_all_ones: "unat (- 1 :: 64 word) = 2 ^ 64 - 1"
  by (simp add: unsigned_minus_1_eq_mask mask_eq_exp_minus_1)

lemma word_less_succ: "(x::64 word) \<noteq> - 1 \<Longrightarrow> x < x + 1"
  by (simp add: word_less_nat_alt unat_succ)

lemma word_less_succ_iff: "(x::64 word) \<noteq> - 1 \<Longrightarrow> y < x + 1 \<longleftrightarrow> y \<le> x"
  by (simp add: word_less_nat_alt word_le_nat_alt unat_succ less_Suc_eq_le)

lemma succ_nonzero: "(x::64 word) \<noteq> - 1 \<Longrightarrow> x + 1 \<noteq> 0"
  by (metis eq_neg_iff_add_eq_0)

lemma set_update_cases:
  "(k, x) \<in> set (AList.update h e xs) \<Longrightarrow> (k, x) = (h, e) \<or> (k, x) \<in> set xs"
  by (induction xs) (auto split: if_splits)

section \<open>One equation per branch\<close>

lemma find_entry_run:
  "find_entry m h ty r =
     (if h = 0 then (Inl (Failed (InvalidHandle ''handle registry: handle 0 is invalid'')), r)
      else case entry_of r h of
             None \<Rightarrow> (Inl (Failed (InvalidHandle m)), r)
           | Some e \<Rightarrow>
               (if entry_type e = ty then (Inr e, r)
                else (Inl (Failed (InvalidHandle ''handle registry: handle type mismatch'')), r)))"
  by (auto simp: find_entry_def exec_simps split: option.splits)

lemma registry_lookup_run:
  "registry_lookup h ty r =
     (case find_entry ''handle registry: unknown or released handle'' h ty r of
        (Inl f, _) \<Rightarrow> (Inl f, r) | (Inr e, _) \<Rightarrow> (Inr (entry_object e), r))"
  by (auto simp: registry_lookup_def find_entry_run bindE_def exec_simps split: option.splits)

lemma registry_lookup_Inr:
  "registry_lookup h ty r = (Inr ob, r') \<longleftrightarrow>
   r' = r \<and> h \<noteq> 0 \<and> (\<exists>e. entry_of r h = Some e \<and> entry_type e = ty \<and> entry_object e = ob)"
  by (auto simp: registry_lookup_run find_entry_run split: option.splits)

lemma registry_lookup_reads: "reads_only (registry_lookup h ty)"
  by (auto simp: keeps_def registry_lookup_run find_entry_run split: option.splits)

lemma registry_lookup_state [simp]: "snd (registry_lookup h ty r) = r"
  by (auto simp: registry_lookup_run find_entry_run split: option.splits)

lemma registry_lookup_Inl:
  assumes "registry_lookup h ty r = (Inl f, r')"
  obtains m where "f = Failed (InvalidHandle m)"
  using assms by (auto simp: registry_lookup_run find_entry_run split: option.splits if_splits)

lemma registry_insert_run:
  assumes "registry_inv r"
  shows "registry_insert ty object r =
    (case object of
       None \<Rightarrow>
         (Inl (Failed (InvalidArgument ''handle registry: cannot register null object'')), r)
     | Some ob \<Rightarrow>
         (if next_handle r = - 1
          then (Inl (Failed (InternalError ''handle registry: handle identifier space exhausted'')), r)
          else (Inr (next_handle r),
                \<lparr>entries = (next_handle r, \<lparr>entry_type = ty, entry_refs = 1, entry_object = ob\<rparr>)
                   # entries r, next_handle = next_handle r + 1\<rparr>)))"
  using assms next_handle_fresh [OF assms]
  by (auto simp: registry_insert_def registry_inv_def ValidateNextHandle_def emplace_def
      ValidateInsertion_def exec_simps bindE_def split: option.splits)

lemma registry_retain_run:
  "registry_retain h ty r =
     (case find_entry ''handle registry: cannot retain unknown/released handle'' h ty r of
        (Inl f, _) \<Rightarrow> (Inl f, r)
      | (Inr e, _) \<Rightarrow>
          (if entry_refs e = - 1
           then (Inl (Failed (InternalError ''handle registry: reference count overflow'')), r)
           else (Inr (), r\<lparr>entries :=
                  AList.update h (e\<lparr>entry_refs := entry_refs e + 1\<rparr>) (entries r)\<rparr>)))"
  by (auto simp: registry_retain_def find_entry_run IncrementReferenceCount_def bindE_def
      exec_simps split: option.splits)

lemma registry_release_run:
  "registry_release h ty r =
     (case find_entry ''handle registry: cannot release unknown/released handle'' h ty r of
        (Inl f, _) \<Rightarrow> (Inl f, r)
      | (Inr e, _) \<Rightarrow>
          (if entry_refs e = 0
           then (Inl (Failed (InternalError
                   ''handle registry: corrupted zero reference count'')), r)
           else if entry_refs e = 1
           then (Inr (), r\<lparr>entries := AList.delete h (entries r)\<rparr>)
           else (Inr (), r\<lparr>entries :=
                  AList.update h (e\<lparr>entry_refs := entry_refs e - 1\<rparr>) (entries r)\<rparr>)))"
  by (auto simp: registry_release_def find_entry_run DecrementReferenceCount_def bindE_def
      exec_simps split: option.splits)

lemmas registry_runs = find_entry_run registry_retain_run registry_release_run

section \<open>The invariant is kept\<close>

lemma registry_inv_insert:
  assumes "registry_inv r"
  shows "registry_inv (snd (registry_insert ty object r))"
  using assms next_handle_fresh [OF assms]
  by (auto simp: registry_insert_run registry_inv_def word_less_succ_iff word_less_succ
      succ_nonzero word_gt_0 map_of_eq_None_iff split: option.splits)

lemma update_entry_inv:
  assumes "registry_inv r" and "entry_of r h = Some e" and "entry_refs e' \<noteq> 0"
  shows "registry_inv (r\<lparr>entries := AList.update h e' (entries r)\<rparr>)"
proof -
  have "distinct (map fst (AList.update h e' (entries r)))"
    using assms(1) by (simp add: registry_inv_def distinct_update)
  moreover have "0 < h' \<and> h' < next_handle r \<and> entry_refs x \<noteq> 0"
    if "(h', x) \<in> set (AList.update h e' (entries r))" for h' x
  proof -
    from that have "(h', x) = (h, e') \<or> (h', x) \<in> set (entries r)"
      by (rule set_update_cases)
    then show ?thesis
      using assms entry_of_inv [OF assms(1,2)] by (auto simp: registry_inv_def)
  qed
  ultimately show ?thesis using assms(1) by (auto simp: registry_inv_def)
qed

lemma delete_entry_inv:
  "registry_inv r \<Longrightarrow> registry_inv (r\<lparr>entries := AList.delete h (entries r)\<rparr>)"
proof -
  assume inv: "registry_inv r"
  then have "distinct (map fst (AList.delete h (entries r)))"
    by (simp add: registry_inv_def distinct_delete)
  moreover have "set (AList.delete h (entries r)) \<subseteq> set (entries r)"
    by (auto simp: AList.delete_eq)
  ultimately show ?thesis using inv by (auto simp: registry_inv_def)
qed

lemma registry_inv_retain:
  assumes "registry_inv r"
  shows "registry_inv (snd (registry_retain h ty r))"
  using assms
  by (auto simp: registry_runs eq_neg_iff_add_eq_0 add.commute intro!: update_entry_inv
      split: option.splits)

lemma registry_inv_release:
  assumes "registry_inv r"
  shows "registry_inv (snd (registry_release h ty r))"
  using assms
  by (auto simp: registry_runs intro!: update_entry_inv delete_entry_inv split: option.splits)

section \<open>Effect on the entry table\<close>

lemma entry_of_insert:
  assumes "registry_inv r" and "registry_insert ty object r = (Inr h, r')"
  shows "h = next_handle r" "h \<noteq> - 1" "next_handle r' = h + 1" "entry_of r h = None"
    "\<exists>ob. object = Some ob \<and> entry_of r' =
       (entry_of r)(h \<mapsto> \<lparr>entry_type = ty, entry_refs = 1, entry_object = ob\<rparr>)"
  using assms(2) next_handle_fresh [OF assms(1)]
  by (auto simp: registry_insert_run [OF assms(1)] split: option.splits if_splits)

lemma registry_insert_Inl_state:
  assumes "registry_inv r" and "registry_insert ty object r = (Inl f, r')"
  shows "r' = r"
  using assms by (auto simp: registry_insert_run split: option.splits if_splits)

lemma entry_of_retain:
  "entry_of (snd (registry_retain h ty r)) =
     (case entry_of r h of
        Some e \<Rightarrow>
          (if h \<noteq> 0 \<and> entry_type e = ty \<and> entry_refs e \<noteq> - 1
           then (entry_of r)(h \<mapsto> e\<lparr>entry_refs := entry_refs e + 1\<rparr>) else entry_of r)
      | None \<Rightarrow> entry_of r)"
  by (auto simp: registry_runs update_conv' split: option.splits)

lemma entry_of_release:
  "entry_of (snd (registry_release h ty r)) =
     (case entry_of r h of
        Some e \<Rightarrow>
          (if h \<noteq> 0 \<and> entry_type e = ty \<and> entry_refs e \<noteq> 0
           then (if entry_refs e = 1 then (entry_of r)(h := None)
                 else (entry_of r)(h \<mapsto> e\<lparr>entry_refs := entry_refs e - 1\<rparr>))
           else entry_of r)
      | None \<Rightarrow> entry_of r)"
  by (auto simp: registry_runs update_conv' delete_conv' split: option.splits)

lemma next_handle_retain [simp]: "next_handle (snd (registry_retain h ty r)) = next_handle r"
  by (auto simp: registry_runs split: option.splits)

lemma next_handle_release [simp]: "next_handle (snd (registry_release h ty r)) = next_handle r"
  by (auto simp: registry_runs split: option.splits)

lemma next_handle_insert_mono:
  assumes "registry_inv r"
  shows "next_handle r \<le> next_handle (snd (registry_insert ty object r))"
  using assms
  by (auto simp: registry_insert_run intro: less_imp_le word_less_succ split: option.splits)

section \<open>Histories\<close>

datatype 'o registry_event =
    Insert handle_type "'o option"
  | Retain handle handle_type
  | Release handle handle_type
  | Lookup handle handle_type

fun registry_step :: "'o registry \<Rightarrow> 'o registry_event \<Rightarrow> 'o registry" where
  "registry_step r (Insert ty ob) = snd (registry_insert ty ob r)"
| "registry_step r (Retain h ty) = snd (registry_retain h ty r)"
| "registry_step r (Release h ty) = snd (registry_release h ty r)"
| "registry_step r (Lookup h ty) = snd (registry_lookup h ty r)"

definition registry_history :: "'o registry \<Rightarrow> 'o registry_event list \<Rightarrow> 'o registry" where
  "registry_history = foldl registry_step"

lemma registry_step_inv: "registry_inv r \<Longrightarrow> registry_inv (registry_step r ev)"
  by (cases ev) (auto intro: registry_inv_insert registry_inv_retain registry_inv_release)

lemma registry_step_next_mono: "registry_inv r \<Longrightarrow> next_handle r \<le> next_handle (registry_step r ev)"
  by (cases ev) (auto intro: next_handle_insert_mono)

lemma registry_history_inv: "registry_inv r \<Longrightarrow> registry_inv (registry_history r evs)"
  unfolding registry_history_def
  by (induction evs arbitrary: r) (simp_all add: registry_step_inv)

lemma registry_history_next_mono:
  "registry_inv r \<Longrightarrow> next_handle r \<le> next_handle (registry_history r evs)"
  unfolding registry_history_def
proof (induction evs arbitrary: r)
  case (Cons ev evs)
  then have "next_handle (registry_step r ev) \<le>
      next_handle (foldl registry_step (registry_step r ev) evs)"
    by (simp add: registry_step_inv)
  with registry_step_next_mono [OF Cons.prems, of ev] show ?case by simp
qed simp

text \<open>
  The abstract specification: every issued handle is an independent reference counter, and the
  registry is the product of these counters.  An entry reacts only to events that name its own
  handle with its own type; once dead it stays dead.
\<close>

fun counter_step :: "handle \<Rightarrow> 'o entry option \<Rightarrow> 'o registry_event \<Rightarrow> 'o entry option" where
  "counter_step h (Some e) (Retain h' ty) =
     (if h' = h \<and> ty = entry_type e \<and> entry_refs e \<noteq> - 1
      then Some (e\<lparr>entry_refs := entry_refs e + 1\<rparr>) else Some e)"
| "counter_step h (Some e) (Release h' ty) =
     (if h' = h \<and> ty = entry_type e
      then (if entry_refs e = 1 then None else Some (e\<lparr>entry_refs := entry_refs e - 1\<rparr>))
      else Some e)"
| "counter_step h v _ = v"

lemma counter_step_None [simp]: "counter_step h None ev = None"
  by (cases ev) simp_all

lemma counter_steps_None [simp]: "foldl (counter_step h) None evs = None"
  by (induction evs) simp_all

lemma entry_of_step:
  assumes "registry_inv r" and "0 < h" and "h < next_handle r"
  shows "entry_of (registry_step r ev) h = counter_step h (entry_of r h) ev"
proof (cases ev)
  case (Insert ty ob)
  show ?thesis
  proof (cases "registry_insert ty ob r")
    case (Pair res r')
    show ?thesis
    proof (cases res)
      case (Inl f)
      with Pair assms(1) have "r' = r" by (auto dest: registry_insert_Inl_state)
      with Insert Pair show ?thesis by (cases "entry_of r h") simp_all
    next
      case (Inr h')
      with Pair have run: "registry_insert ty ob r = (Inr h', r')" by simp
      note eff = entry_of_insert [OF assms(1) run]
      from eff(1) assms(3) have "h' \<noteq> h" by auto
      with eff(5) have "entry_of r' h = entry_of r h" by auto
      with Insert Pair show ?thesis by (cases "entry_of r h") simp_all
    qed
  qed
next
  case (Retain h' ty)
  with assms show ?thesis
    by (cases "entry_of r h"; cases "entry_of r h'") (auto simp: entry_of_retain)
next
  case (Release h' ty)
  with assms entry_of_inv(3) [OF assms(1), of h] show ?thesis
    by (cases "entry_of r h"; cases "entry_of r h'") (auto simp: entry_of_release)
next
  case (Lookup h' ty)
  then show ?thesis
    by (cases "entry_of r h") simp_all
qed

lemma entry_of_history:
  assumes "registry_inv r" and "0 < h" and "h < next_handle r"
  shows "entry_of (registry_history r evs) h = foldl (counter_step h) (entry_of r h) evs"
  using assms
proof (induction evs arbitrary: r)
  case Nil
  then show ?case by (simp add: registry_history_def)
next
  case (Cons ev evs)
  have "h < next_handle (registry_step r ev)"
    using Cons.prems registry_step_next_mono [OF Cons.prems(1), of ev] by simp
  with Cons have "entry_of (registry_history (registry_step r ev) evs) h =
      foldl (counter_step h) (entry_of (registry_step r ev) h) evs"
    by (intro Cons.IH) (simp_all add: registry_step_inv)
  then show ?case
    using Cons.prems by (simp add: registry_history_def entry_of_step)
qed

text \<open>How many references a history adds to and takes from one entry.\<close>

definition retains_of :: "handle \<Rightarrow> handle_type \<Rightarrow> 'o registry_event list \<Rightarrow> nat" where
  "retains_of h ty evs = length (filter (\<lambda>ev. ev = Retain h ty) evs)"

definition releases_of :: "handle \<Rightarrow> handle_type \<Rightarrow> 'o registry_event list \<Rightarrow> nat" where
  "releases_of h ty evs = length (filter (\<lambda>ev. ev = Release h ty) evs)"

lemma counter_step_other:
  "ev \<noteq> Retain h (entry_type e) \<Longrightarrow> ev \<noteq> Release h (entry_type e) \<Longrightarrow>
   counter_step h (Some e) ev = Some e"
  by (cases ev) auto

lemma counter_steps_balance:
  assumes "unat (entry_refs e) + retains_of h (entry_type e) evs < 2 ^ 64 - 1"
    and "0 < unat (entry_refs e)"
    and "\<And>n. releases_of h (entry_type e) (take n evs) <
            unat (entry_refs e) + retains_of h (entry_type e) (take n evs)"
  shows "\<exists>e'. foldl (counter_step h) (Some e) evs = Some e' \<and> entry_type e' = entry_type e \<and>
    entry_object e' = entry_object e \<and>
    unat (entry_refs e') + releases_of h (entry_type e) evs =
      unat (entry_refs e) + retains_of h (entry_type e) evs"
  using assms
proof (induction evs arbitrary: e)
  case Nil
  then show ?case by (simp add: retains_of_def releases_of_def)
next
  case (Cons ev evs)
  consider (retain) "ev = Retain h (entry_type e)" | (release) "ev = Release h (entry_type e)"
    | (other) "ev \<noteq> Retain h (entry_type e)" "ev \<noteq> Release h (entry_type e)" by blast
  then show ?case
  proof cases
    case retain
    let ?e = "e\<lparr>entry_refs := entry_refs e + 1\<rparr>"
    have "unat (entry_refs e) \<noteq> unat (- 1 :: 64 word)"
      using Cons.prems(1) by (simp add: unat_all_ones)
    then have ne: "entry_refs e \<noteq> - 1" by auto
    then have u: "unat (entry_refs e + 1) = Suc (unat (entry_refs e))" by (rule unat_succ)
    have "\<exists>e'. foldl (counter_step h) (Some ?e) evs = Some e' \<and> entry_type e' = entry_type ?e \<and>
        entry_object e' = entry_object ?e \<and>
        unat (entry_refs e') + releases_of h (entry_type ?e) evs =
          unat (entry_refs ?e) + retains_of h (entry_type ?e) evs"
    proof (rule Cons.IH)
      show "unat (entry_refs ?e) + retains_of h (entry_type ?e) evs < 2 ^ 64 - 1"
        using Cons.prems(1) retain u by (simp add: retains_of_def)
      show "0 < unat (entry_refs ?e)" using u by simp
      show "releases_of h (entry_type ?e) (take n evs) <
          unat (entry_refs ?e) + retains_of h (entry_type ?e) (take n evs)" for n
        using Cons.prems(3) [of "Suc n"] retain u by (simp add: retains_of_def releases_of_def)
    qed
    then show ?thesis using retain ne u by (simp add: retains_of_def releases_of_def)
  next
    case release
    let ?e = "e\<lparr>entry_refs := entry_refs e - 1\<rparr>"
    have one: "1 < unat (entry_refs e)"
      using Cons.prems(3) [of 1] release by (simp add: retains_of_def releases_of_def)
    then have ne: "entry_refs e \<noteq> 1" "entry_refs e \<noteq> 0" by auto
    then have u: "unat (entry_refs e - 1) = unat (entry_refs e) - 1"
      by (simp add: unat_minus_one)
    have "\<exists>e'. foldl (counter_step h) (Some ?e) evs = Some e' \<and> entry_type e' = entry_type ?e \<and>
        entry_object e' = entry_object ?e \<and>
        unat (entry_refs e') + releases_of h (entry_type ?e) evs =
          unat (entry_refs ?e) + retains_of h (entry_type ?e) evs"
    proof (rule Cons.IH)
      show "unat (entry_refs ?e) + retains_of h (entry_type ?e) evs < 2 ^ 64 - 1"
        using Cons.prems(1) release u by (simp add: retains_of_def)
      show "0 < unat (entry_refs ?e)" using u one by simp
      show "releases_of h (entry_type ?e) (take n evs) <
          unat (entry_refs ?e) + retains_of h (entry_type ?e) (take n evs)" for n
        using Cons.prems(3) [of "Suc n"] release u one
        by (simp add: retains_of_def releases_of_def)
    qed
    then show ?thesis using release ne u one by (auto simp: retains_of_def releases_of_def)
  next
    case other
    have "\<exists>e'. foldl (counter_step h) (Some e) evs = Some e' \<and> entry_type e' = entry_type e \<and>
        entry_object e' = entry_object e \<and>
        unat (entry_refs e') + releases_of h (entry_type e) evs =
          unat (entry_refs e) + retains_of h (entry_type e) evs"
    proof (rule Cons.IH)
      show "unat (entry_refs e) + retains_of h (entry_type e) evs < 2 ^ 64 - 1"
        using Cons.prems(1) other by (simp add: retains_of_def)
      show "0 < unat (entry_refs e)" by (fact Cons.prems(2))
      show "releases_of h (entry_type e) (take n evs) <
          unat (entry_refs e) + retains_of h (entry_type e) (take n evs)" for n
        using Cons.prems(3) [of "Suc n"] other by (simp add: retains_of_def releases_of_def)
    qed
    then show ?thesis using other
      by (simp add: counter_step_other retains_of_def releases_of_def)
  qed
qed

section \<open>The interface the C API relies on\<close>

text \<open>
  What a client of the handle table needs: a fresh nonzero handle per insertion, lookups that
  succeed exactly on live handles of the expected type, reference counting that never changes
  what a live handle denotes.
\<close>

locale handle_table =
  fixes insert :: "handle_type \<Rightarrow> 'o option \<Rightarrow> ('t, handle) run"
    and lookup :: "handle \<Rightarrow> handle_type \<Rightarrow> ('t, 'o) run"
    and retain :: "handle \<Rightarrow> handle_type \<Rightarrow> ('t, unit) run"
    and release :: "handle \<Rightarrow> handle_type \<Rightarrow> ('t, unit) run"
    and inv :: "'t \<Rightarrow> bool"
    and view :: "'t \<Rightarrow> handle \<Rightarrow> (handle_type \<times> 'o) option"
  assumes insert_ok: "inv t \<Longrightarrow> insert ty ob t = (Inr h, t') \<Longrightarrow>
      inv t' \<and> h \<noteq> 0 \<and> view t h = None \<and> (\<exists>x. ob = Some x \<and> view t' = (view t)(h \<mapsto> (ty, x)))"
    and insert_fail: "inv t \<Longrightarrow> insert ty ob t = (Inl f, t') \<Longrightarrow> t' = t"
    and lookup_iff: "lookup h ty t = (Inr x, t') \<longleftrightarrow> t' = t \<and> h \<noteq> 0 \<and> view t h = Some (ty, x)"
    and lookup_fail: "lookup h ty t = (Inl f, t') \<Longrightarrow> t' = t \<and> (\<exists>m. f = Failed (InvalidHandle m))"
    and retain_view: "inv t \<Longrightarrow> inv (snd (retain h ty t)) \<and> view (snd (retain h ty t)) = view t"
    and release_view: "inv t \<Longrightarrow> inv (snd (release h ty t)) \<and>
      (view (snd (release h ty t)) = view t \<or> view (snd (release h ty t)) = (view t)(h := None))"
begin

lemma lookup_after_insert:
  assumes "inv t" and "insert ty (Some x) t = (Inr h, t')"
  shows "lookup h ty t' = (Inr x, t')"
  using insert_ok [OF assms] by (simp add: lookup_iff)

lemma lookup_frame_insert:
  assumes "inv t" and "insert ty ob t = (Inr h, t')" and "lookup k ty' t = (Inr x, t)"
  shows "k \<noteq> h \<and> lookup k ty' t' = (Inr x, t')"
  using insert_ok [OF assms(1,2)] assms(3) by (auto simp: lookup_iff)

lemma lookup_one_type:
  assumes "lookup h ty t = (Inr x, t)" and "lookup h ty' t = (Inr y, t)"
  shows "ty = ty' \<and> x = y"
  using assms by (simp add: lookup_iff)

lemma lookup_frame_release:
  assumes "inv t" and "lookup k ty' t = (Inr x, t)" and "k \<noteq> h"
  shows "lookup k ty' (snd (release h ty t)) = (Inr x, snd (release h ty t))"
  using release_view [OF assms(1), of h ty] assms(2,3) by (auto simp: lookup_iff)

definition objects_satisfy :: "(handle_type \<Rightarrow> 'o \<Rightarrow> bool) \<Rightarrow> 't \<Rightarrow> bool" where
  "objects_satisfy P t \<longleftrightarrow> (\<forall>h ty x. view t h = Some (ty, x) \<longrightarrow> P ty x)"

lemma objects_satisfy_insert:
  assumes "inv t" and "objects_satisfy P t" and "\<And>x. ob = Some x \<Longrightarrow> P ty x"
  shows "objects_satisfy P (snd (insert ty ob t))"
proof (cases "insert ty ob t")
  case (Pair r t')
  then show ?thesis
    using insert_ok [OF assms(1), of ty ob _ t'] insert_fail [OF assms(1), of ty ob _ t'] assms(2,3)
    by (cases r) (auto simp: objects_satisfy_def split: if_splits)
qed

lemma objects_satisfy_retain:
  "inv t \<Longrightarrow> objects_satisfy P t \<Longrightarrow> objects_satisfy P (snd (retain h ty t))"
  by (simp add: objects_satisfy_def retain_view)

lemma objects_satisfy_release:
  "inv t \<Longrightarrow> objects_satisfy P t \<Longrightarrow> objects_satisfy P (snd (release h ty t))"
  using release_view [of t h ty] by (auto simp: objects_satisfy_def split: if_splits)

end

definition registry_view :: "'o registry \<Rightarrow> handle \<Rightarrow> (handle_type \<times> 'o) option" where
  "registry_view r h = map_option (\<lambda>e. (entry_type e, entry_object e)) (entry_of r h)"

interpretation reg: handle_table registry_insert registry_lookup registry_retain registry_release
    registry_inv registry_view
proof
  fix t :: "'o registry" and ty ob h t'
  assume inv: "registry_inv t" and run: "registry_insert ty ob t = (Inr h, t')"
  note eff = entry_of_insert [OF inv run]
  obtain x where x: "ob = Some x" and e: "entry_of t' =
      (entry_of t)(h \<mapsto> \<lparr>entry_type = ty, entry_refs = 1, entry_object = x\<rparr>)"
    using eff(5) by blast
  have "registry_inv t'" using registry_inv_insert [OF inv, of ty ob] run by simp
  moreover have "h \<noteq> 0" using eff(1) inv by (simp add: registry_inv_def)
  moreover have "registry_view t' = (registry_view t)(h \<mapsto> (ty, x))"
    by (simp add: registry_view_def fun_eq_iff e)
  ultimately show "registry_inv t' \<and> h \<noteq> 0 \<and> registry_view t h = None \<and>
      (\<exists>x. ob = Some x \<and> registry_view t' = (registry_view t)(h \<mapsto> (ty, x)))"
    using x eff(4) by (simp add: registry_view_def)
next
  fix t :: "'o registry" and h ty
  assume inv: "registry_inv t"
  show "registry_inv (snd (registry_retain h ty t)) \<and>
      registry_view (snd (registry_retain h ty t)) = registry_view t"
    using registry_inv_retain [OF inv]
    by (auto simp: registry_view_def entry_of_retain fun_eq_iff split: option.splits)
  show "registry_inv (snd (registry_release h ty t)) \<and>
      (registry_view (snd (registry_release h ty t)) = registry_view t \<or>
       registry_view (snd (registry_release h ty t)) = (registry_view t)(h := None))"
    using registry_inv_release [OF inv]
    by (auto simp: registry_view_def entry_of_release fun_eq_iff split: option.splits)
qed (auto simp: registry_lookup_Inr registry_view_def registry_insert_Inl_state
      elim: registry_lookup_Inl dest: reads_onlyD [OF registry_lookup_reads])

section \<open>A concrete registry\<close>

text \<open>One live tensor handle, 1, and one released handle, 2.\<close>

definition demo_entry :: "nat entry" where
  "demo_entry = \<lparr>entry_type = kTensor, entry_refs = 1, entry_object = 5\<rparr>"

definition demo_registry :: "nat registry" where
  "demo_registry = \<lparr>entries = [(1, demo_entry)], next_handle = 3\<rparr>"

lemma demo_registry_inv: "registry_inv demo_registry"
  by (simp add: demo_registry_def demo_entry_def registry_inv_def)

section \<open>Properties\<close>

text \<open>
  C37: The registry refines a product of independent reference counters: whatever the interleaving
  with operations on other handles, the entry of an issued handle after a history is the result
  of running that handle's own counter on the history.
\<close>

theorem registry_refines_counters:
  assumes "registry_inv r" and "0 < h" and "h < next_handle r"
  shows "entry_of (registry_history r evs) h = foldl (counter_step h) (entry_of r h) evs"
  by (rule entry_of_history [OF assms])

theorem registry_refines_counters_witness:
  "entry_of (registry_history demo_registry [Retain 1 kTensor, Release 2 kTensor]) 1 =
    Some (demo_entry\<lparr>entry_refs := 2\<rparr>)"
  using registry_refines_counters [OF demo_registry_inv, of 1 "[Retain 1 kTensor, Release 2 kTensor]"]
  by (simp add: demo_registry_def demo_entry_def)

text \<open>
  C38: No use after release and no reuse of identifiers: once an issued handle has died, every
  later history leaves it dead, and a lookup with any type is refused with \<open>InvalidHandle\<close> and
  changes nothing.
\<close>

theorem released_handle_stays_dead:
  assumes "registry_inv r" and "0 < h" and "h < next_handle r" and "entry_of r h = None"
  shows "registry_lookup h ty (registry_history r evs) =
    (Inl (Failed (InvalidHandle ''handle registry: unknown or released handle'')),
     registry_history r evs)"
  using entry_of_history [OF assms(1-3), of evs] assms(2,4)
  by (simp add: registry_lookup_run find_entry_run)

theorem released_handle_stays_dead_witness:
  "registry_lookup 2 kTensor (registry_history demo_registry [Insert kTensor (Some 8)]) =
    (Inl (Failed (InvalidHandle ''handle registry: unknown or released handle'')),
     registry_history demo_registry [Insert kTensor (Some 8)])"
  by (rule released_handle_stays_dead [OF demo_registry_inv]) (simp_all add: demo_registry_def)

text \<open>
  C39: Reference accounting: as long as no prefix of a history releases more references than the
  handle has (and the count cannot overflow), the handle stays alive with its type and object,
  and its count is the initial count plus the retains minus the releases of that handle.
\<close>

theorem reference_accounting:
  assumes "registry_inv r" and "entry_of r h = Some e"
    and "unat (entry_refs e) + retains_of h (entry_type e) evs < 2 ^ 64 - 1"
    and "\<And>n. releases_of h (entry_type e) (take n evs) <
            unat (entry_refs e) + retains_of h (entry_type e) (take n evs)"
  shows "\<exists>e'. entry_of (registry_history r evs) h = Some e' \<and>
    entry_type e' = entry_type e \<and> entry_object e' = entry_object e \<and>
    unat (entry_refs e') + releases_of h (entry_type e) evs =
      unat (entry_refs e) + retains_of h (entry_type e) evs"
proof -
  note bounds = entry_of_inv [OF assms(1,2)]
  have "0 < unat (entry_refs e)" using bounds(3) by (simp add: unat_gt_0)
  then show ?thesis
    using counter_steps_balance [OF assms(3) _ assms(4)] entry_of_history [OF assms(1) bounds(1,2)]
      assms(2) by simp
qed

theorem reference_accounting_witness:
  "\<exists>e'. entry_of (registry_history demo_registry [Retain 1 kTensor, Release 1 kTensor, Release 7 kModule]) 1 =
      Some e' \<and> entry_type e' = kTensor \<and> entry_object e' = (5 :: nat) \<and>
    unat (entry_refs e') + 1 = unat (entry_refs demo_entry) + 1"
proof -
  let ?evs = "[Retain 1 kTensor, Release 1 kTensor, Release 7 kModule] :: nat registry_event list"
  have "releases_of 1 kTensor (take n ?evs) < 1 + retains_of 1 kTensor (take n ?evs)" for n
    by (cases n; cases "n - 1"; cases "n - 2") (simp_all add: releases_of_def retains_of_def)
  then show ?thesis
    using reference_accounting [OF demo_registry_inv, of 1 demo_entry ?evs]
    by (simp add: demo_registry_def demo_entry_def releases_of_def retains_of_def)
qed

end
