(* ===== verification/Core_Api.thy ===== *)
theory Core_Api
  imports Heap_Invariant Handle_Registry
begin

text \<open>
  The exported functions of \<open>native/src/c_api.cc\<close>.

  The state of the library is a \<open>runtime\<close>: the heap of objects, the handle registry, whose entries
  for tensors are references into the heap, and the thread-local last-error message.  A function
  with an output parameter \<open>T* out\<close> runs on the caller's cell paired with the runtime; the cell is
  \<open>None\<close> when the pointer is null.  Records that extend \<open>runtime\<close> (training) use the same functions.
\<close>

section \<open>The runtime\<close>

record runtime =
  rt_heap :: heap
  rt_registry :: "nat registry"
  rt_last_error :: string

text \<open>Computations on the runtime, and on an output cell and the runtime.\<close>

type_synonym ('r, 'a) rt = "('r runtime_scheme, 'a) run"
type_synonym ('b, 'r) api = "('b option \<times> 'r runtime_scheme, unit) run"
type_synonym ('b, 'r) call = "'b option \<Rightarrow> 'r runtime_scheme \<Rightarrow>
    int option \<times> 'b option \<times> 'r runtime_scheme"

definition heapE :: "(heap, 'a) run \<Rightarrow> ('r, 'a) rt" where
  "heapE m = (\<lambda>s. case m (rt_heap s) of (r, h) \<Rightarrow> (r, s\<lparr>rt_heap := h\<rparr>))"

definition registryE :: "(nat registry, 'a) run \<Rightarrow> ('r, 'a) rt" where
  "registryE m = (\<lambda>s. case m (rt_registry s) of (r, g) \<Rightarrow> (r, s\<lparr>rt_registry := g\<rparr>))"

definition runtimeE :: "('r, 'a) rt \<Rightarrow> ('b option \<times> 'r runtime_scheme, 'a) run" where
  "runtimeE m = (\<lambda>(out, s). case m s of (r, s') \<Rightarrow> (r, (out, s')))"

text \<open>\<open>if (out == nullptr) return InvalidArgument(message);\<close> and \<open>*out = v;\<close>\<close>

definition check_out :: "string \<Rightarrow> ('b, 'r) api" where
  "check_out message = bindE (getE fst) (\<lambda>out. checkE (out \<noteq> None) (InvalidArgument message))"

definition set_out :: "'b \<Rightarrow> ('b, 'r) api" where
  "set_out v = modifyE (\<lambda>(out, s). (map_option (\<lambda>_. v) out, s))"

text \<open>An exported function: its body under \<open>AbiGuard\<close>, which also keeps the last error.\<close>

definition ts_function :: "string \<Rightarrow> ('b, 'r) api \<Rightarrow> ('b, 'r) call" where
  "ts_function operation body out s =
     (case abi_guard operation body (out, s\<lparr>rt_last_error := []\<rparr>) of
        ((code, message), (out', s')) \<Rightarrow> (code, out', s'\<lparr>rt_last_error := message\<rparr>))"

text \<open>A function without an output parameter.\<close>

type_synonym 'r plain_call = "'r runtime_scheme \<Rightarrow> int option \<times> 'r runtime_scheme"

definition ts_plain :: "string \<Rightarrow> ('r, unit) rt \<Rightarrow> 'r plain_call" where
  "ts_plain operation body s =
     (case abi_guard operation body (s\<lparr>rt_last_error := []\<rparr>) of
        ((code, message), s') \<Rightarrow> (code, s'\<lparr>rt_last_error := message\<rparr>))"

section \<open>Handles of tensors\<close>

definition LookupTensor :: "handle \<Rightarrow> ('r, tensor_ref) rt" where
  "LookupTensor handle = registryE (registry_lookup handle kTensor)"

definition InsertTensor :: "tensor_ref \<Rightarrow> (handle, 'r) api" where
  "InsertTensor tensor =
     bindE (set_out 0) (\<lambda>_.
     bindE (runtimeE (registryE (registry_insert kTensor (Some tensor)))) (\<lambda>handle.
     set_out handle))"

text \<open>
  The shape of every function that creates a tensor: the null check, \<open>*out_tensor = 0\<close>, the
  computation of a result, its registration.
\<close>

definition new_handle :: "string \<Rightarrow> ('r, tensor_ref) rt \<Rightarrow> (handle, 'r) api" where
  "new_handle null_message compute =
     bindE (check_out null_message) (\<lambda>_.
     bindE (set_out 0) (\<lambda>_.
     bindE (runtimeE compute) InsertTensor))"

definition tensorE :: "tensor_ref \<Rightarrow> ('r, tensor) rt" where
  "tensorE r = heapE (getE (\<lambda>h. tensor_at h r))"

definition BackendFor :: "tensor \<Rightarrow> ('r, backend) rt" where
  "BackendFor t = statusE (Dispatcher_ForTensor t)"

section \<open>Library information\<close>

definition TS_ABI_VERSION :: nat where "TS_ABI_VERSION = 5"

definition ts_abi_version :: nat where "ts_abi_version = TS_ABI_VERSION"

definition ts_last_error_message :: "'r runtime_scheme \<Rightarrow> string" where
  "ts_last_error_message s = rt_last_error s"

definition ts_noop :: "'r plain_call" where
  "ts_noop = ts_plain ''noop'' (returnE ())"

definition ts_runtime_device_count :: "nat \<Rightarrow> (nat, 'r) call" where
  "ts_runtime_device_count device = ts_function ''runtime_device_count''
     (bindE (check_out ''runtime_device_count: output pointer is null'') (\<lambda>_.
      bindE (set_out 0) (\<lambda>_.
      bindE (statusE (DeviceFromCode device)) (\<lambda>target.
      if target = kCpu then set_out 1 else returnE ()))))"

definition ts_runtime_cuda_device_count :: "(nat, 'r) call" where
  "ts_runtime_cuda_device_count = ts_runtime_device_count TS_DEVICE_CUDA"

section \<open>Creating tensors\<close>

definition ts_tensor_from_f32 ::
    "f32 list option \<Rightarrow> nat \<Rightarrow> int list option \<Rightarrow> nat \<Rightarrow> (handle, 'r) call" where
  "ts_tensor_from_f32 data data_length dims rank = ts_function ''tensor_from_f32''
     (new_handle ''tensor_from_f32: output handle pointer is null''
       (bindE (statusE (ValidateShape dims rank)) (\<lambda>shape.
        bindE (checkE (numel shape = data_length) (InvalidArgument
          ''tensor_from_f32: data length must equal validated shape element count'')) (\<lambda>_.
        bindE (checkE (\<not> (data_length > 0 \<and> data = None))
          (InvalidArgument ''tensor_from_f32: input data pointer is null'')) (\<lambda>_.
        bindE (statusE (Dispatcher_For kCpu)) (\<lambda>backend.
        heapE (be_FromData backend shape data)))))))"

definition ts_tensor_full_f32 :: "int list option \<Rightarrow> nat \<Rightarrow> f32 \<Rightarrow> (handle, 'r) call" where
  "ts_tensor_full_f32 dims rank value = ts_function ''tensor_full_f32''
     (new_handle ''tensor_full_f32: output handle pointer is null''
       (bindE (statusE (ValidateShape dims rank)) (\<lambda>shape.
        bindE (statusE (Dispatcher_For kCpu)) (\<lambda>backend.
        heapE (be_Full backend shape value)))))"

section \<open>Inspecting tensors\<close>

text \<open>A scalar property of a tensor: the cell is written only when the lookup succeeds.\<close>

definition query_tensor :: "string \<Rightarrow> (tensor \<Rightarrow> 'b) \<Rightarrow> handle \<Rightarrow> ('b, 'r) api" where
  "query_tensor null_message f tensor =
     bindE (check_out null_message) (\<lambda>_.
     bindE (runtimeE (LookupTensor tensor)) (\<lambda>r.
     bindE (runtimeE (tensorE r)) (\<lambda>object.
     set_out (f object))))"

definition ts_tensor_rank :: "handle \<Rightarrow> (nat, 'r) call" where
  "ts_tensor_rank tensor = ts_function ''tensor_rank''
     (query_tensor ''tensor_rank: output rank pointer is null'' (\<lambda>t. length (dims_of t)) tensor)"

fun dtype_code :: "dtype \<Rightarrow> nat" where
  "dtype_code kFloat32 = 1"
| "dtype_code (OtherDType n) = n"

fun device_code :: "device \<Rightarrow> nat" where
  "device_code kCpu = TS_DEVICE_CPU"
| "device_code kCuda = TS_DEVICE_CUDA"
| "device_code kMps = TS_DEVICE_MPS"
| "device_code kXpu = TS_DEVICE_XPU"
| "device_code kHip = TS_DEVICE_HIP"

definition ts_tensor_dtype :: "handle \<Rightarrow> (nat, 'r) call" where
  "ts_tensor_dtype tensor = ts_function ''tensor_dtype''
     (query_tensor ''tensor_dtype: output dtype pointer is null'' (\<lambda>t. dtype_code (t_dtype t)) tensor)"

definition ts_tensor_device :: "handle \<Rightarrow> (nat, 'r) call" where
  "ts_tensor_device tensor = ts_function ''tensor_device''
     (query_tensor ''tensor_device: output device pointer is null''
       (\<lambda>t. device_code (t_device t)) tensor)"

definition ts_tensor_device_index :: "handle \<Rightarrow> (int, 'r) call" where
  "ts_tensor_device_index tensor = ts_function ''tensor_device_index''
     (query_tensor ''tensor_device_index: output device index pointer is null'' t_device_index tensor)"

definition ts_tensor_numel :: "handle \<Rightarrow> (nat, 'r) call" where
  "ts_tensor_numel tensor = ts_function ''tensor_numel''
     (query_tensor ''tensor_numel: output numel pointer is null'' numel_of tensor)"

text \<open>
  Two output parameters: the cell is the pair of the buffer for the dimensions (\<open>None\<close>: null) and
  \<open>*out_rank\<close>.
\<close>

definition ts_tensor_shape :: "handle \<Rightarrow> nat \<Rightarrow> (int list option \<times> nat, 'r) call" where
  "ts_tensor_shape tensor capacity = ts_function ''tensor_shape''
     (bindE (check_out ''tensor_shape: output rank pointer is null'') (\<lambda>_.
      bindE (runtimeE (LookupTensor tensor)) (\<lambda>r.
      bindE (runtimeE (tensorE r)) (\<lambda>object.
      bindE (getE (\<lambda>(out, _). fst (the out))) (\<lambda>out_dims.
      bindE (set_out (out_dims, length (dims_of object))) (\<lambda>_.
      bindE (checkE (length (dims_of object) \<le> capacity) (InvalidArgument
        ''tensor_shape: output dimension capacity is smaller than rank'')) (\<lambda>_.
      bindE (checkE (\<not> (length (dims_of object) > 0 \<and> out_dims = None)) (InvalidArgument
        ''tensor_shape: output dimensions pointer is null'')) (\<lambda>_.
      set_out (map_option (\<lambda>buf. dims_of object @ drop (length (dims_of object)) buf) out_dims,
               length (dims_of object))))))))))"

text \<open>The cell is the caller's buffer (\<open>None\<close>: null) and \<open>*out_written\<close>.\<close>

definition ts_tensor_copy_to_host_f32 :: "handle \<Rightarrow> nat \<Rightarrow> (f32 list option \<times> nat, 'r) call" where
  "ts_tensor_copy_to_host_f32 tensor capacity = ts_function ''tensor_copy_to_host_f32''
     (bindE (check_out ''tensor_copy_to_host_f32: output count pointer is null'') (\<lambda>_.
      bindE (getE (\<lambda>(out, _). fst (the out))) (\<lambda>out_values.
      bindE (set_out (out_values, 0)) (\<lambda>_.
      bindE (runtimeE (LookupTensor tensor)) (\<lambda>r.
      bindE (runtimeE (tensorE r)) (\<lambda>object.
      bindE (checkE (numel_of object \<le> capacity) (InvalidArgument
        ''tensor_copy_to_host_f32: output capacity is smaller than tensor'')) (\<lambda>_.
      bindE (checkE (\<not> (numel_of object > 0 \<and> out_values = None)) (InvalidArgument
        ''tensor_copy_to_host_f32: output values pointer is null'')) (\<lambda>_.
      bindE (runtimeE (heapE (getE (\<lambda>h. tensor_copy_to_host h object out_values capacity))))
        (\<lambda>(result, buffer, written).
      bindE (set_out (buffer, written)) (\<lambda>_.
      statusE result))))))))))"

section \<open>Operations\<close>

text \<open>\<open>training::Transfer\<close> in the core-only build.\<close>

definition UnsupportedDevice :: "string \<Rightarrow> status" where
  "UnsupportedDevice operation = Unsupported
     (operation @ '': requested accelerator is not available in the core-only build'')"

definition Transfer :: "tensor_ref \<Rightarrow> device \<Rightarrow> int \<Rightarrow> (heap, tensor_ref) run" where
  "Transfer tensor device device_index =
     bindE (checkE (\<not> device_index < 0)
       (InvalidArgument ''tensor_to_device: device index must be non-negative'')) (\<lambda>_.
     bindE (checkE (device = kCpu) (UnsupportedDevice ''tensor_to_device'')) (\<lambda>_.
     bindE (checkE (device_index = 0)
       (InvalidArgument ''tensor_to_device: CPU device index must be zero'')) (\<lambda>_.
     bindE (CloneDetached tensor) (\<lambda>out.
     bindE (RecordUnary kIdentity tensor out) (\<lambda>_.
     returnE out)))))"

definition ts_tensor_to_device :: "handle \<Rightarrow> nat \<Rightarrow> int \<Rightarrow> (handle, 'r) call" where
  "ts_tensor_to_device tensor device device_index = ts_function ''tensor_to_device''
     (new_handle ''tensor_to_device: output handle pointer is null''
       (bindE (statusE (DeviceFromCode device)) (\<lambda>target.
        bindE (LookupTensor tensor) (\<lambda>r.
        heapE (Transfer r target device_index)))))"

definition ts_tensor_reshape :: "handle \<Rightarrow> int list option \<Rightarrow> nat \<Rightarrow> (handle, 'r) call" where
  "ts_tensor_reshape tensor dims rank = ts_function ''tensor_reshape''
     (new_handle ''tensor_reshape: output handle pointer is null''
       (bindE (statusE (ValidateShape dims rank)) (\<lambda>shape.
        bindE (LookupTensor tensor) (\<lambda>r.
        bindE (tensorE r) (\<lambda>object.
        bindE (BackendFor object) (\<lambda>backend.
        heapE (be_Reshape backend r shape)))))))"

definition ts_tensor_transpose2d :: "handle \<Rightarrow> (handle, 'r) call" where
  "ts_tensor_transpose2d tensor = ts_function ''tensor_transpose2d''
     (new_handle ''tensor_transpose2d: output handle pointer is null''
       (bindE (LookupTensor tensor) (\<lambda>r.
        bindE (tensorE r) (\<lambda>object.
        bindE (BackendFor object) (\<lambda>backend.
        heapE (be_Transpose2D backend r))))))"

definition ts_tensor_sum :: "handle \<Rightarrow> (handle, 'r) call" where
  "ts_tensor_sum tensor = ts_function ''tensor_sum''
     (new_handle ''tensor_sum: output handle pointer is null''
       (bindE (LookupTensor tensor) (\<lambda>r.
        bindE (tensorE r) (\<lambda>object.
        bindE (BackendFor object) (\<lambda>backend.
        heapE (be_Sum backend r))))))"

definition RunBinaryOperation :: "handle \<Rightarrow> handle \<Rightarrow> string \<Rightarrow>
    (backend \<Rightarrow> tensor_ref \<Rightarrow> tensor_ref \<Rightarrow> (heap, tensor_ref) run) \<Rightarrow> (handle, 'r) api" where
  "RunBinaryOperation left right operation function =
     new_handle (operation @ '': output handle pointer is null'')
       (bindE (LookupTensor left) (\<lambda>l.
        bindE (LookupTensor right) (\<lambda>r.
        bindE (tensorE l) (\<lambda>left_object.
        bindE (tensorE r) (\<lambda>right_object.
        bindE (statusE (Dispatcher_ForTensors left_object right_object)) (\<lambda>backend.
        heapE (function backend l r)))))))"

definition ts_tensor_add :: "handle \<Rightarrow> handle \<Rightarrow> (handle, 'r) call" where
  "ts_tensor_add left right = ts_function ''tensor_add''
     (RunBinaryOperation left right ''tensor_add'' be_Add)"

definition ts_tensor_multiply :: "handle \<Rightarrow> handle \<Rightarrow> (handle, 'r) call" where
  "ts_tensor_multiply left right = ts_function ''tensor_multiply''
     (RunBinaryOperation left right ''tensor_multiply'' be_Multiply)"

definition ts_tensor_matmul :: "handle \<Rightarrow> handle \<Rightarrow> (handle, 'r) call" where
  "ts_tensor_matmul left right = ts_function ''tensor_matmul''
     (RunBinaryOperation left right ''tensor_matmul'' be_Matmul)"

section \<open>References\<close>

definition ts_tensor_retain :: "handle \<Rightarrow> 'r plain_call" where
  "ts_tensor_retain tensor = ts_plain ''tensor_retain'' (registryE (registry_retain tensor kTensor))"

definition ts_tensor_release :: "handle \<Rightarrow> 'r plain_call" where
  "ts_tensor_release tensor =
     ts_plain ''tensor_release'' (registryE (registry_release tensor kTensor))"

definition ts_runtime_live_tensor_count :: "(64 word, 'r) call" where
  "ts_runtime_live_tensor_count = ts_function ''runtime_live_tensor_count''
     (bindE (check_out ''runtime_live_tensor_count: output pointer is null'') (\<lambda>_.
      bindE (runtimeE (registryE (getE (registry_count kTensor)))) (\<lambda>count.
      set_out count)))"

end
