(* ===== verification/Training_State.thy ===== *)
theory Training_State
  imports Training_Ops Core_Api
begin

text \<open>
  The state of the core-only training bridge: the random engine, linear modules, the two kinds of
  optimizers, and the files checkpoints are kept in
  (\<open>native/src/training/training_bridge_stub.cc\<close>, \<open>nn_v2_optimizer.h\<close>).

  The runtime of the core is extended by these objects.  A handle of type \<open>kModule\<close>, \<open>kOptimizer\<close> or
  \<open>kParameterOptimizer\<close> refers to a position of the corresponding list; a released object keeps its
  position, as every \<open>shared_ptr\<close> to it does.  Calls are sequential, so a lock is always free.
\<close>

section \<open>The random engine\<close>

text \<open>
  \<open>std::mt19937_64\<close> is its 312 words of state, seeded as the standard prescribes.  How
  \<open>std::uniform_real_distribution<float>\<close> draws from the engine is left to the implementation by the
  standard: a \<open>distribution\<close> (lower bound, upper bound, engine) is a parameter.
\<close>

type_synonym mt19937_64 = "64 word list"

type_synonym distribution = "f32 \<Rightarrow> f32 \<Rightarrow> mt19937_64 \<Rightarrow> f32 \<times> mt19937_64"

fun seed_words :: "nat \<Rightarrow> nat \<Rightarrow> 64 word \<Rightarrow> 64 word list" where
  "seed_words 0 i x = []"
| "seed_words (Suc n) i x =
     x # seed_words n (Suc i) (6364136223846793005 * (xor x (drop_bit 62 x)) + of_nat (Suc i))"

definition engine_seed :: "64 word \<Rightarrow> mt19937_64" where
  "engine_seed seed = seed_words 312 0 seed"

text \<open>\<open>for (float& value : values) value = distribution(Rng());\<close>\<close>

fun draw_values :: "(mt19937_64 \<Rightarrow> f32 \<times> mt19937_64) \<Rightarrow> nat \<Rightarrow> mt19937_64 \<Rightarrow> f32 list \<times> mt19937_64" where
  "draw_values next 0 engine = ([], engine)"
| "draw_values next (Suc n) engine =
     (case next engine of (x, engine1) \<Rightarrow>
        case draw_values next n engine1 of (xs, engine2) \<Rightarrow> (x # xs, engine2))"

lemma length_draw_values [simp]: "length (fst (draw_values next n engine)) = n"
  by (induction n arbitrary: engine) (auto split: prod.splits, metis fst_conv)

section \<open>Modules and optimizers\<close>

text \<open>\<open>LinearState\<close>; \<open>ls_bias\<close> is \<open>None\<close> for the null pointer.\<close>

record linear_state =
  in_features :: int
  out_features :: int
  use_bias :: bool
  ls_training :: bool
  ls_weight :: tensor_ref
  ls_bias :: "tensor_ref option"

datatype optimizer_kind = kSgd | kAdam | kAdamW

text \<open>The members \<open>OptimizerState\<close> and \<open>nn_v2_optimizer::State\<close> have in common.\<close>

record optimizer_core =
  oc_kind :: optimizer_kind
  oc_learning_rate :: f64
  oc_momentum :: f64
  oc_beta1 :: f64
  oc_beta2 :: f64
  oc_epsilon :: f64
  oc_weight_decay :: f64
  oc_step :: "64 word"
  oc_first_moment :: "f32 list list"
  oc_second_moment :: "f32 list list"

record optimizer_state = optimizer_core +
  os_module :: nat

record parameter_optimizer = optimizer_core +
  po_parameters :: "tensor_ref list"
  po_storage_kind :: storage_kind

text \<open>
  Files, and what the environment does to the stream operations to come: \<open>IoDenied\<close> refuses to open
  a file or to write, \<open>IoShort n\<close> fails after \<open>n\<close> bytes.  An empty plan lets everything succeed.
\<close>

type_synonym byte = "8 word"

datatype io_outcome = IoOk | IoDenied | IoShort nat

record training_runtime = runtime +
  rt_modules :: "linear_state list"
  rt_optimizers :: "optimizer_state list"
  rt_parameter_optimizers :: "parameter_optimizer list"
  rt_engine :: mt19937_64
  rt_files :: "string \<Rightarrow> byte list option"
  rt_io_plan :: "io_outcome list"

type_synonym ('r, 'a) trt = "('r training_runtime_scheme, 'a) run"
type_synonym ('b, 'r) tapi = "('b option \<times> 'r training_runtime_scheme, unit) run"
type_synonym ('b, 'r) tcall = "'b option \<Rightarrow> 'r training_runtime_scheme \<Rightarrow>
    int option \<times> 'b option \<times> 'r training_runtime_scheme"

section \<open>Handles\<close>

definition LookupModule :: "handle \<Rightarrow> ('r, nat) trt" where
  "LookupModule handle = registryE (registry_lookup handle kModule)"

definition LookupOptimizer :: "handle \<Rightarrow> ('r, nat) trt" where
  "LookupOptimizer handle = registryE (registry_lookup handle kOptimizer)"

definition LookupParameterOptimizer :: "handle \<Rightarrow> ('r, nat) trt" where
  "LookupParameterOptimizer handle = registryE (registry_lookup handle kParameterOptimizer)"

text \<open>\<open>HandleRegistry::Insert(type, object, out_handle)\<close>.\<close>

definition InsertObject :: "handle_type \<Rightarrow> nat \<Rightarrow> (handle, 'r) tapi" where
  "InsertObject ty object =
     bindE (set_out 0) (\<lambda>_.
     bindE (runtimeE (registryE (registry_insert ty (Some object)))) (\<lambda>handle.
     set_out handle))"

section \<open>Validation of hyperparameters\<close>

text \<open>\<open>value <= 0.0\<close>, \<open>value < 0.0\<close> and \<open>value >= 1.0\<close> for a finite value.\<close>

definition ValidatePositiveFinite :: "f64 \<Rightarrow> string \<Rightarrow> string \<Rightarrow> status + unit" where
  "ValidatePositiveFinite x name operation =
     (if \<not> f64_isfinite x \<or> \<not> f64_less f64_zero x
      then Inl (InvalidArgument (operation @ '': '' @ name @ '' must be finite and positive''))
      else Inr ())"

definition ValidateNonNegativeFinite :: "f64 \<Rightarrow> string \<Rightarrow> string \<Rightarrow> status + unit" where
  "ValidateNonNegativeFinite x name operation =
     (if \<not> f64_isfinite x \<or> f64_less x f64_zero
      then Inl (InvalidArgument (operation @ '': '' @ name @ '' must be finite and non-negative''))
      else Inr ())"

definition ValidateBeta :: "f64 \<Rightarrow> string \<Rightarrow> string \<Rightarrow> status + unit" where
  "ValidateBeta x name operation =
     (if \<not> f64_isfinite x \<or> f64_less x f64_zero \<or> \<not> f64_less x f64_one
      then Inl (InvalidArgument (operation @ '': '' @ name @ '' must be finite in [0, 1)''))
      else Inr ())"

text \<open>\<open>size_t\<close> and \<open>uint64_t\<close> have the same range.\<close>

definition ValidateModuleDimensions :: "int \<Rightarrow> int \<Rightarrow> status + unit" where
  "ValidateModuleDimensions inp outp =
     (if inp \<le> 0 \<or> outp \<le> 0
      then Inl (InvalidArgument ''linear_create: feature dimensions must be positive'')
      else if i64_to_u64 inp > u64_max div i64_to_u64 outp
      then Inl (InvalidArgument ''linear_create: parameter element count overflows'')
      else if mul64 (i64_to_u64 inp) (i64_to_u64 outp) > u64_max div 4
      then Inl (InvalidArgument ''linear_create: parameter allocation is too large'')
      else Inr ())"

section \<open>Modules in the runtime\<close>

definition module_at :: "'r training_runtime_scheme \<Rightarrow> nat \<Rightarrow> linear_state" where
  "module_at s i = rt_modules s ! i"

definition Parameters :: "linear_state \<Rightarrow> tensor_ref list" where
  "Parameters state = ls_weight state # (if use_bias state then [the (ls_bias state)] else [])"

text \<open>\<open>std::make_shared<State>(...)\<close>: a new object at the end of its list.\<close>

definition new_module :: "linear_state \<Rightarrow> ('r, nat) trt" where
  "new_module state = (\<lambda>s. (Inr (length (rt_modules s)), s\<lparr>rt_modules := rt_modules s @ [state]\<rparr>))"

definition update_module :: "nat \<Rightarrow> (linear_state \<Rightarrow> linear_state) \<Rightarrow> ('r, unit) trt" where
  "update_module i f = modifyE (\<lambda>s. s\<lparr>rt_modules := (rt_modules s)[i := f (rt_modules s ! i)]\<rparr>)"

definition new_optimizer :: "optimizer_state \<Rightarrow> ('r, nat) trt" where
  "new_optimizer state =
     (\<lambda>s. (Inr (length (rt_optimizers s)), s\<lparr>rt_optimizers := rt_optimizers s @ [state]\<rparr>))"

definition update_optimizer :: "nat \<Rightarrow> (optimizer_state \<Rightarrow> optimizer_state) \<Rightarrow> ('r, unit) trt" where
  "update_optimizer i f =
     modifyE (\<lambda>s. s\<lparr>rt_optimizers := (rt_optimizers s)[i := f (rt_optimizers s ! i)]\<rparr>)"

definition new_parameter_optimizer :: "parameter_optimizer \<Rightarrow> ('r, nat) trt" where
  "new_parameter_optimizer state = (\<lambda>s. (Inr (length (rt_parameter_optimizers s)),
     s\<lparr>rt_parameter_optimizers := rt_parameter_optimizers s @ [state]\<rparr>))"

definition update_parameter_optimizer ::
    "nat \<Rightarrow> (parameter_optimizer \<Rightarrow> parameter_optimizer) \<Rightarrow> ('r, unit) trt" where
  "update_parameter_optimizer i f = modifyE (\<lambda>s. s\<lparr>rt_parameter_optimizers :=
     (rt_parameter_optimizers s)[i := f (rt_parameter_optimizers s ! i)]\<rparr>)"

end
