(* ===== verification/Linear_Module.thy ===== *)
theory Linear_Module
  imports Training_State
begin

text \<open>
  Linear modules of the core-only training bridge
  (\<open>native/src/training/training_bridge_stub.cc\<close>): creation with random parameters, the forward
  computation, and access to the parameters.
\<close>

section \<open>Creation\<close>

definition leaf_meta :: autograd_meta where
  "leaf_meta = default_meta\<lparr>meta_requires_grad := True, meta_is_leaf := True\<rparr>"

definition MakeParameter :: "shape_info \<Rightarrow> f32 list \<Rightarrow> (heap, tensor_ref) run" where
  "MakeParameter shape values =
     bindE (MakeCpuTensor shape values) (\<lambda>out.
     bindE request_alloc (\<lambda>_.
     bindE (set_autograd_meta out leaf_meta) (\<lambda>_.
     returnE out)))"

text \<open>A vector of \<open>n\<close> values drawn from the engine; the vector is allocated first.\<close>

definition draw_vector :: "distribution \<Rightarrow> f32 \<Rightarrow> nat \<Rightarrow> ('r, f32 list) trt" where
  "draw_vector D bound n =
     bindE (heapE request_alloc) (\<lambda>_. \<lambda>s.
       case draw_values (D (f32_neg bound) bound) n (rt_engine s) of
         (xs, engine) \<Rightarrow> (Inr xs, s\<lparr>rt_engine := engine\<rparr>))"

definition linear_bound :: "int \<Rightarrow> f32" where
  "linear_bound inp = f32_div f32_one (f32_sqrt (f32_of_nat (nat inp)))"

text \<open>The body of \<open>LinearCreate\<close> under its allocation guard, up to the registration.\<close>

definition make_linear ::
    "distribution \<Rightarrow> int \<Rightarrow> int \<Rightarrow> bool \<Rightarrow> shape_info \<Rightarrow> ('r, nat) trt" where
  "make_linear D inp outp bias weight_shape =
     bindE (draw_vector D (linear_bound inp) (numel weight_shape)) (\<lambda>weight_values.
     bindE (if bias then draw_vector D (linear_bound inp) (nat outp) else returnE []) (\<lambda>bias_values.
     bindE (heapE request_alloc) (\<lambda>_.
     bindE (heapE (MakeParameter weight_shape weight_values)) (\<lambda>weight.
     bindE (if bias
            then bindE (statusE (ValidateShape (Some [outp]) 1)) (\<lambda>bias_shape.
                 bindE (heapE (MakeParameter bias_shape bias_values)) (\<lambda>b. returnE (Some b)))
            else returnE None) (\<lambda>b.
     new_module \<lparr>in_features = inp, out_features = outp, use_bias = bias, ls_training = True,
       ls_weight = weight, ls_bias = b\<rparr>)))))"

definition LinearCreate :: "distribution \<Rightarrow> int \<Rightarrow> int \<Rightarrow> bool \<Rightarrow> (handle, 'r) tapi" where
  "LinearCreate D inp outp bias =
     bindE (check_out ''linear_create: output handle pointer is null'') (\<lambda>_.
     bindE (set_out 0) (\<lambda>_.
     bindE (statusE (ValidateModuleDimensions inp outp)) (\<lambda>_.
     bindE (statusE (ValidateShape (Some [inp, outp]) 2)) (\<lambda>weight_shape.
     allocation_guard ''linear_create''
       (bindE (runtimeE (make_linear D inp outp bias weight_shape)) (InsertObject kModule))))))"

section \<open>The forward computation\<close>

definition ValidateModuleInput :: "linear_state \<Rightarrow> tensor_ref \<Rightarrow> (heap, unit) run" where
  "ValidateModuleInput state input =
     bindE (getE (\<lambda>h. tensor_at h input)) (\<lambda>t.
     bindE (statusE (EnsureCpuFloat32 t ''module_forward'')) (\<lambda>_.
     bindE (checkE (length (dims_of t) = 2)
       (InvalidShape ''module_forward: Linear currently requires rank-2 input'')) (\<lambda>_.
     checkE (dims_of t ! 1 = in_features state)
       (InvalidShape ''module_forward: input feature dimension does not match Linear''))))"

definition linear_forward :: "linear_state \<Rightarrow> tensor_ref \<Rightarrow> (heap, tensor_ref) run" where
  "linear_forward state input =
     bindE (ValidateModuleInput state input) (\<lambda>_.
     bindE (statusE (Dispatcher_For kCpu)) (\<lambda>backend.
     bindE (be_Matmul backend input (ls_weight state)) (\<lambda>linear.
     if \<not> use_bias state then returnE linear
     else AddBias linear (the (ls_bias state)))))"

definition ModuleForward :: "handle \<Rightarrow> tensor_ref \<Rightarrow> ('r, tensor_ref) trt" where
  "ModuleForward module input =
     bindE (LookupModule module) (\<lambda>m.
     bindE (getE (\<lambda>s. module_at s m)) (\<lambda>state.
     heapE (linear_forward state input)))"

section \<open>Access\<close>

definition ModuleSetTraining :: "handle \<Rightarrow> bool \<Rightarrow> ('r, unit) trt" where
  "ModuleSetTraining module training =
     bindE (LookupModule module) (\<lambda>m. update_module m (\<lambda>state. state\<lparr>ls_training := training\<rparr>))"

definition ModuleToDevice :: "handle \<Rightarrow> device \<Rightarrow> int \<Rightarrow> ('r, unit) trt" where
  "ModuleToDevice module device device_index =
     bindE (LookupModule module) (\<lambda>_.
     bindE (checkE (\<not> device_index < 0)
       (InvalidArgument ''module_to_device: device index must be non-negative'')) (\<lambda>_.
     if device = kCpu
     then checkE (device_index = 0)
       (InvalidArgument ''module_to_device: CPU device index must be zero'')
     else failE (UnsupportedDevice ''module_to_device'')))"

definition ModuleParameterCount :: "handle \<Rightarrow> (nat, 'r) tapi" where
  "ModuleParameterCount module =
     bindE (check_out ''module_parameter_count: output pointer is null'') (\<lambda>_.
     bindE (set_out 0) (\<lambda>_.
     bindE (runtimeE (LookupModule module)) (\<lambda>m.
     bindE (runtimeE (getE (\<lambda>s. module_at s m))) (\<lambda>state.
     set_out (if use_bias state then 2 else 1)))))"

definition ModuleParameterAt :: "handle \<Rightarrow> nat \<Rightarrow> ('r, tensor_ref) trt" where
  "ModuleParameterAt module index =
     bindE (LookupModule module) (\<lambda>m.
     bindE (getE (\<lambda>s. module_at s m)) (\<lambda>state.
     if index = 0 then returnE (ls_weight state)
     else if index = 1 \<and> use_bias state then returnE (the (ls_bias state))
     else failE (InvalidArgument ''module_parameter_at: parameter index is out of range'')))"

definition ModuleBufferCount :: "handle \<Rightarrow> (nat, 'r) tapi" where
  "ModuleBufferCount module =
     bindE (check_out ''module_buffer_count: output pointer is null'') (\<lambda>_.
     bindE (set_out 0) (\<lambda>_.
     bindE (runtimeE (LookupModule module)) (\<lambda>_. returnE ())))"

definition ModuleBufferAt :: "handle \<Rightarrow> nat \<Rightarrow> ('r, tensor_ref) trt" where
  "ModuleBufferAt module index =
     bindE (LookupModule module) (\<lambda>_.
     failE (InvalidArgument ''module_buffer_at: module has no buffers''))"

definition ModuleRelease :: "handle \<Rightarrow> ('r, unit) trt" where
  "ModuleRelease module = registryE (registry_release module kModule)"

end
