(* ===== verification/Checkpoint.thy ===== *)
theory Checkpoint
  imports Linear_Module
begin

text \<open>
  Saving a linear module to a file and loading it back
  (\<open>ModuleSave\<close> and \<open>ModuleLoad\<close> of \<open>native/src/training/training_bridge_stub.cc\<close>).

  The code copies the bytes of its variables; the host is little-endian.  A write goes to the file
  at once, since the code checks the stream after every write; a stream that can no longer deliver
  bytes, be it the end of the file or an input error, shows the code only a read that came short.
\<close>

section \<open>Bytes of scalars\<close>

fun le_bytes :: "nat \<Rightarrow> nat \<Rightarrow> byte list" where
  "le_bytes 0 v = []"
| "le_bytes (Suc n) v = of_nat (v mod 256) # le_bytes n (v div 256)"

fun le_value :: "byte list \<Rightarrow> nat" where
  "le_value [] = 0"
| "le_value (b # bs) = unat b + 256 * le_value bs"

text \<open>\<open>int64_t\<close> in two's complement.\<close>

definition u64_to_i64 :: "nat \<Rightarrow> int" where
  "u64_to_i64 n = (if n < 2 ^ 63 then int n else int n - 2 ^ 64)"

definition floats_bytes :: "f32 list \<Rightarrow> byte list" where
  "floats_bytes vs = concat (map (\<lambda>x. le_bytes 4 (unat x)) vs)"

fun bytes_floats :: "nat \<Rightarrow> byte list \<Rightarrow> f32 list" where
  "bytes_floats 0 bs = []"
| "bytes_floats (Suc n) bs = of_nat (le_value (take 4 bs)) # bytes_floats n (drop 4 bs)"

section \<open>Output streams\<close>

text \<open>The environment's decision about the next stream operation.\<close>

definition next_io :: "('r, io_outcome) trt" where
  "next_io = (\<lambda>s. case rt_io_plan s of [] \<Rightarrow> (Inr IoOk, s)
     | x # rest \<Rightarrow> (Inr x, s\<lparr>rt_io_plan := rest\<rparr>))"

definition write_file :: "string \<Rightarrow> byte list \<Rightarrow> ('r, unit) trt" where
  "write_file path bytes = modifyE (\<lambda>s. s\<lparr>rt_files := (rt_files s)(path \<mapsto> bytes)\<rparr>)"

text \<open>\<open>std::ofstream stream(path, binary | trunc); if (!stream.is_open()) return error;\<close>\<close>

definition open_output :: "string \<Rightarrow> status \<Rightarrow> ('r, unit) trt" where
  "open_output path st =
     bindE next_io (\<lambda>outcome.
     bindE (checkE (outcome = IoOk) st) (\<lambda>_. write_file path []))"

text \<open>\<open>stream.write(...); if (!stream.good()) return error;\<close>\<close>

definition stream_write :: "string \<Rightarrow> byte list \<Rightarrow> status \<Rightarrow> ('r, unit) trt" where
  "stream_write path bytes st =
     bindE next_io (\<lambda>outcome.
     bindE (getE (\<lambda>s. case rt_files s path of None \<Rightarrow> [] | Some old \<Rightarrow> old)) (\<lambda>old.
     case outcome of
       IoOk \<Rightarrow> write_file path (old @ bytes)
     | IoDenied \<Rightarrow> failE st
     | IoShort n \<Rightarrow> bindE (write_file path (take n (old @ bytes))) (\<lambda>_. failE st)))"

text \<open>\<open>stream.flush(); if (!stream.good()) return error;\<close>\<close>

definition stream_flush :: "string \<Rightarrow> status \<Rightarrow> ('r, unit) trt" where
  "stream_flush path st = stream_write path [] st"

definition kCheckpointMagic :: "byte list" where
  "kCheckpointMagic = [84, 83, 84, 82, 78, 86, 49, 0]"

definition kCheckpointVersion :: nat where "kCheckpointVersion = 1"

definition SaveTensor :: "string \<Rightarrow> tensor_ref \<Rightarrow> ('r, unit) trt" where
  "SaveTensor path r =
     bindE (tensorE r) (\<lambda>t.
     bindE (stream_write path (le_bytes 8 (length (dims_of t)))
       (InternalError ''module_save: failed to write tensor rank'')) (\<lambda>_.
     bindE (forE (dims_of t) (\<lambda>dimension.
       stream_write path (le_bytes 8 (i64_to_u64 dimension))
         (InternalError ''module_save: failed to write tensor shape''))) (\<lambda>_.
     bindE (stream_write path (le_bytes 8 (numel_of t))
       (InternalError ''module_save: failed to write tensor element count'')) (\<lambda>_.
     bindE (heapE (CpuValues r ''module_save'')) (\<lambda>values.
     if values = [] then returnE ()
     else stream_write path (floats_bytes values)
       (InternalError ''module_save: failed to write tensor payload''))))))"

definition ModuleSave :: "handle \<Rightarrow> string \<Rightarrow> ('r, unit) trt" where
  "ModuleSave module path =
     bindE (checkE (path \<noteq> []) (InvalidArgument ''module_save: path must not be empty'')) (\<lambda>_.
     bindE (LookupModule module) (\<lambda>m.
     bindE (getE (\<lambda>s. module_at s m)) (\<lambda>state.
     bindE (open_output path
       (InternalError ''module_save: could not open checkpoint for writing'')) (\<lambda>_.
     bindE (forE [kCheckpointMagic, le_bytes 4 kCheckpointVersion,
         le_bytes 8 (i64_to_u64 (in_features state)), le_bytes 8 (i64_to_u64 (out_features state)),
         le_bytes 1 (if use_bias state then 1 else 0)]
       (\<lambda>bytes. stream_write path bytes
         (InternalError ''module_save: failed to write checkpoint header''))) (\<lambda>_.
     bindE (SaveTensor path (ls_weight state)) (\<lambda>_.
     bindE (if use_bias state then SaveTensor path (the (ls_bias state)) else returnE ()) (\<lambda>_.
     stream_flush path (InternalError ''module_save: failed to finalize checkpoint''))))))))"

section \<open>Input streams\<close>

text \<open>
  A reader consumes the bytes of the file that the stream can still deliver.
\<close>

type_synonym 'a reader = "(byte list, 'a) run"

definition read_bytes :: "nat \<Rightarrow> status \<Rightarrow> byte list reader" where
  "read_bytes n st = (\<lambda>bs. if n \<le> length bs then (Inr (take n bs), drop n bs) else (Inl (Failed st), []))"

definition ReadScalar :: "nat \<Rightarrow> status \<Rightarrow> nat reader" where
  "ReadScalar width st = bindE (read_bytes width st) (\<lambda>bs. returnE (le_value bs))"

fun read_dimensions :: "nat \<Rightarrow> int list reader" where
  "read_dimensions 0 = returnE []"
| "read_dimensions (Suc n) =
     bindE (ReadScalar 8 (InternalError ''module_load: truncated tensor shape'')) (\<lambda>d.
     bindE (read_dimensions n) (\<lambda>ds. returnE (u64_to_i64 d # ds)))"

definition ReadTensorPayload :: "shape_info \<Rightarrow> f32 list reader" where
  "ReadTensorPayload expected_shape =
     bindE (ReadScalar 8 (InternalError ''module_load: invalid tensor rank'')) (\<lambda>rank.
     bindE (checkE (\<not> rank > 32) (InternalError ''module_load: invalid tensor rank'')) (\<lambda>_.
     bindE (read_dimensions rank) (\<lambda>dims.
     case ValidateShape (dims_pointer dims) (length dims) of
       Inl _ \<Rightarrow> failE (InternalError ''module_load: invalid tensor shape'')
     | Inr shape \<Rightarrow>
         bindE (checkE (SameShape shape expected_shape)
           (InternalError ''module_load: checkpoint tensor shape mismatch'')) (\<lambda>_.
         bindE (ReadScalar 8 (InternalError ''module_load: invalid tensor element count'')) (\<lambda>n.
         bindE (checkE (\<not> (n \<noteq> numel shape \<or> n > u64_max div 4))
           (InternalError ''module_load: invalid tensor element count'')) (\<lambda>_.
         bindE (read_bytes (4 * n) (InternalError ''module_load: truncated tensor payload''))
           (\<lambda>payload. returnE (bytes_floats n payload))))))))"

text \<open>Everything \<open>ModuleLoad\<close> reads: the header, the payloads, the end of the file.\<close>

definition read_header :: "linear_state \<Rightarrow> unit reader" where
  "read_header state =
     bindE (read_bytes 8 (InternalError ''module_load: invalid checkpoint magic'')) (\<lambda>magic.
     bindE (checkE (magic = kCheckpointMagic)
       (InternalError ''module_load: invalid checkpoint magic'')) (\<lambda>_.
     bindE (ReadScalar 4 (InternalError ''module_load: truncated checkpoint header'')) (\<lambda>version.
     bindE (ReadScalar 8 (InternalError ''module_load: truncated checkpoint header'')) (\<lambda>inp.
     bindE (ReadScalar 8 (InternalError ''module_load: truncated checkpoint header'')) (\<lambda>outp.
     bindE (ReadScalar 1 (InternalError ''module_load: truncated checkpoint header'')) (\<lambda>bias.
     checkE (\<not> (version \<noteq> kCheckpointVersion \<or> u64_to_i64 inp \<noteq> in_features state \<or>
         u64_to_i64 outp \<noteq> out_features state \<or> (bias \<noteq> 0) \<noteq> use_bias state))
       (InternalError ''module_load: checkpoint is incompatible with module'')))))))"

definition read_checkpoint :: "linear_state \<Rightarrow> shape_info \<Rightarrow> shape_info \<Rightarrow> (f32 list \<times> f32 list) reader" where
  "read_checkpoint state weight_shape bias_shape =
     bindE (read_header state) (\<lambda>_.
     bindE (ReadTensorPayload weight_shape) (\<lambda>weight_values.
     bindE (if use_bias state then ReadTensorPayload bias_shape else returnE []) (\<lambda>bias_values.
     bindE (getE (\<lambda>rest. rest = [])) (\<lambda>at_end.
     bindE (checkE at_end (InternalError ''module_load: checkpoint contains trailing data'')) (\<lambda>_.
     returnE (weight_values, bias_values))))))"

text \<open>\<open>std::ifstream stream(path, binary); if (!stream.is_open()) return error;\<close>\<close>

definition open_input :: "string \<Rightarrow> status \<Rightarrow> ('r, byte list) trt" where
  "open_input path st =
     bindE next_io (\<lambda>outcome.
     bindE (getE (\<lambda>s. rt_files s path)) (\<lambda>file.
     case file of
       None \<Rightarrow> failE st
     | Some bytes \<Rightarrow> (case outcome of
           IoOk \<Rightarrow> returnE bytes
         | IoDenied \<Rightarrow> failE st
         | IoShort n \<Rightarrow> returnE (take n bytes))))"

text \<open>\<open>*values = std::move(new_values); IncrementVersion(tensor); ClearGradient(tensor);\<close>\<close>

definition replace_values :: "tensor_ref \<Rightarrow> f32 list \<Rightarrow> (heap, unit) run" where
  "replace_values r values =
     bindE (MutableCpuValues r ''module_load'') (\<lambda>storage.
     bindE (write_values storage values) (\<lambda>_.
     bindE (increment_version r) (\<lambda>_.
     ClearGradient r)))"

definition ModuleLoad :: "handle \<Rightarrow> string \<Rightarrow> ('r, unit) trt" where
  "ModuleLoad module path =
     bindE (checkE (path \<noteq> []) (InvalidArgument ''module_load: path must not be empty'')) (\<lambda>_.
     bindE (LookupModule module) (\<lambda>m.
     bindE (getE (\<lambda>s. module_at s m)) (\<lambda>state.
     bindE (open_input path (InternalError ''module_load: could not open checkpoint'')) (\<lambda>bytes.
     bindE (tensorE (ls_weight state)) (\<lambda>weight.
     bindE (tensorE (the (ls_bias state))) (\<lambda>bias.
     bindE (liftE (fst (read_checkpoint state (t_shape weight) (t_shape bias) bytes)))
       (\<lambda>(weight_values, bias_values).
     bindE (heapE (replace_values (ls_weight state) weight_values)) (\<lambda>_.
     if use_bias state then heapE (replace_values (the (ls_bias state)) bias_values)
     else returnE ()))))))))"

end
