(* ===== verification/Optimizers.thy ===== *)
theory Optimizers
  imports Linear_Module
begin

text \<open>
  The two optimizers of the core-only build: over the parameters of a linear module
  (\<open>native/src/training/training_bridge_stub.cc\<close>) and over a list of tensors
  (\<open>native/src/training/nn_v2_optimizer.h\<close>).  They update parameters in place with stochastic
  gradient descent, Adam or AdamW, in double precision with single-precision moments.

  A step changes a parameter, its moments and its version one parameter at a time, so a step that
  fails leaves the earlier parameters updated.
\<close>

section \<open>The update of one value\<close>

text \<open>New value and new first moment.\<close>

definition sgd_element :: "'m optimizer_core_scheme \<Rightarrow> f32 \<Rightarrow> f32 \<Rightarrow> f32 \<Rightarrow> f32 \<times> f32" where
  "sgd_element c x gradient first =
     (let grad_value = f64_add (f32_to_f64 gradient) (f64_mul (oc_weight_decay c) (f32_to_f64 x))
      in if f64_less f64_zero (oc_momentum c)
         then (let first' = f64_to_f32 (f64_add (f64_mul (oc_momentum c) (f32_to_f64 first)) grad_value);
                   grad_value' = f32_to_f64 first'
               in (f64_to_f32 (f64_sub (f32_to_f64 x) (f64_mul (oc_learning_rate c) grad_value')),
                   first'))
         else (f64_to_f32 (f64_sub (f32_to_f64 x) (f64_mul (oc_learning_rate c) grad_value)), first))"

text \<open>New value, first and second moment; the powers of the betas are those of the current step.\<close>

definition adam_element :: "'m optimizer_core_scheme \<Rightarrow> f64 \<Rightarrow> f64 \<Rightarrow> f32 \<Rightarrow> f32 \<Rightarrow> f32 \<Rightarrow> f32 \<Rightarrow>
    f32 \<times> f32 \<times> f32" where
  "adam_element c beta1_power beta2_power x gradient first second =
     (let parameter_value0 = f32_to_f64 x; grad_value0 = f32_to_f64 gradient;
          grad_value = (if oc_kind c = kAdam
            then f64_add grad_value0 (f64_mul (oc_weight_decay c) parameter_value0) else grad_value0);
          parameter_value = (if oc_kind c \<noteq> kAdam \<and> f64_less f64_zero (oc_weight_decay c)
            then f64_mul parameter_value0
              (f64_sub f64_one (f64_mul (oc_learning_rate c) (oc_weight_decay c)))
            else parameter_value0);
          first_value = f64_add (f64_mul (oc_beta1 c) (f32_to_f64 first))
            (f64_mul (f64_sub f64_one (oc_beta1 c)) grad_value);
          second_value = f64_add (f64_mul (oc_beta2 c) (f32_to_f64 second))
            (f64_mul (f64_mul (f64_sub f64_one (oc_beta2 c)) grad_value) grad_value);
          first_hat = f64_div first_value (f64_sub f64_one beta1_power);
          second_hat = f64_div second_value (f64_sub f64_one beta2_power);
          parameter_value' = f64_sub parameter_value
            (f64_div (f64_mul (oc_learning_rate c) first_hat)
              (f64_add (f64_sqrt second_hat) (oc_epsilon c)))
      in (f64_to_f32 parameter_value', f64_to_f32 first_value, f64_to_f32 second_value))"

section \<open>The update of one parameter\<close>

text \<open>
  The loops over the values.  They write the value and the moments of one index at a time; the
  gradient is a vector of its own.
\<close>

definition sgd_loop :: "'m optimizer_core_scheme \<Rightarrow> f32 list \<Rightarrow> nat \<Rightarrow> f32 list \<times> f32 list \<Rightarrow>
    f32 list \<times> f32 list" where
  "sgd_loop c gradient n = loop n (\<lambda>index (values, first).
     case sgd_element c (values ! index) (gradient ! index) (first ! index) of
       (x, m) \<Rightarrow> (values[index := x], first[index := m]))"

definition adam_loop :: "libm \<Rightarrow> 'm optimizer_core_scheme \<Rightarrow> f32 list \<Rightarrow> nat \<Rightarrow>
    f32 list \<times> f32 list \<times> f32 list \<Rightarrow> f32 list \<times> f32 list \<times> f32 list" where
  "adam_loop L c gradient n =
     (let beta1_power = pow64 L (oc_beta1 c) (f64_of_nat (unat (oc_step c)));
          beta2_power = pow64 L (oc_beta2 c) (f64_of_nat (unat (oc_step c)))
      in loop n (\<lambda>index (values, first, second).
        case adam_element c beta1_power beta2_power (values ! index) (gradient ! index) (first ! index)
            (second ! index) of
          (x, m, v) \<Rightarrow> (values[index := x], first[index := m], second[index := v])))"

text \<open>New values and the optimizer with the moments of parameter \<open>i\<close> updated.\<close>

definition update_parameter :: "libm \<Rightarrow> 'm optimizer_core_scheme \<Rightarrow> nat \<Rightarrow> f32 list \<Rightarrow> f32 list \<Rightarrow>
    f32 list \<times> 'm optimizer_core_scheme" where
  "update_parameter L c i values gradient =
     (if oc_kind c = kSgd
      then (case sgd_loop c gradient (length values) (values, oc_first_moment c ! i) of
         (values', first) \<Rightarrow>
           (values', c\<lparr>oc_first_moment := (oc_first_moment c)[i := first]\<rparr>))
      else (case adam_loop L c gradient (length values)
          (values, oc_first_moment c ! i, oc_second_moment c ! i) of
         (values', first, second) \<Rightarrow>
           (values', c\<lparr>oc_first_moment := (oc_first_moment c)[i := first],
                       oc_second_moment := (oc_second_moment c)[i := second]\<rparr>)))"

section \<open>The optimizer of a module\<close>

definition optimizer_operation :: "optimizer_kind \<Rightarrow> string" where
  "optimizer_operation kind =
     (case kind of kSgd \<Rightarrow> ''sgd_create'' | kAdam \<Rightarrow> ''adam_create'' | kAdamW \<Rightarrow> ''adamw_create'')"

definition validate_hyperparameters :: "optimizer_kind \<Rightarrow> f64 \<Rightarrow> f64 \<Rightarrow> f64 \<Rightarrow> f64 \<Rightarrow> f64 \<Rightarrow> f64 \<Rightarrow>
    string \<Rightarrow> ('s, unit) run" where
  "validate_hyperparameters kind learning_rate momentum beta1 beta2 epsilon weight_decay operation =
     bindE (statusE (ValidatePositiveFinite learning_rate ''learning_rate'' operation)) (\<lambda>_.
     bindE (statusE (ValidateNonNegativeFinite weight_decay ''weight_decay'' operation)) (\<lambda>_.
     if kind = kSgd then statusE (ValidateNonNegativeFinite momentum ''momentum'' operation)
     else bindE (statusE (ValidateBeta beta1 ''beta1'' operation)) (\<lambda>_.
          bindE (statusE (ValidateBeta beta2 ''beta2'' operation)) (\<lambda>_.
          statusE (ValidatePositiveFinite epsilon ''epsilon'' operation)))))"

text \<open>
  The zero-filled moment vectors of the parameters, each allocated in turn; only the adaptive kinds
  have a second one.
\<close>

definition zero_moments :: "bool \<Rightarrow> nat list \<Rightarrow> (heap, f32 list list \<times> f32 list list) run" where
  "zero_moments two sizes =
     foldE sizes ([], []) (\<lambda>n (first, second).
       bindE request_alloc (\<lambda>_.
       bindE (if two then request_alloc else returnE ()) (\<lambda>_.
       returnE (first @ [replicate n f32_zero],
         if two then second @ [replicate n f32_zero] else second))))"

definition CreateOptimizer :: "handle \<Rightarrow> optimizer_kind \<Rightarrow> f64 \<Rightarrow> f64 \<Rightarrow> f64 \<Rightarrow> f64 \<Rightarrow> f64 \<Rightarrow> f64 \<Rightarrow>
    (handle, 'r) tapi" where
  "CreateOptimizer module kind learning_rate momentum beta1 beta2 epsilon weight_decay =
     bindE (check_out ''optimizer_create: output handle pointer is null'') (\<lambda>_.
     bindE (set_out 0) (\<lambda>_.
     bindE (validate_hyperparameters kind learning_rate momentum beta1 beta2 epsilon weight_decay
       (optimizer_operation kind)) (\<lambda>_.
     bindE (runtimeE (LookupModule module)) (\<lambda>m.
     allocation_guard (optimizer_operation kind)
       (bindE (runtimeE
          (bindE (heapE request_alloc) (\<lambda>_.
           bindE (getE (\<lambda>s. map (\<lambda>p. numel_of (tensor_at (rt_heap s) p)) (Parameters (module_at s m))))
             (\<lambda>sizes.
           bindE (heapE (zero_moments (kind \<noteq> kSgd) sizes)) (\<lambda>(first, second).
           new_optimizer \<lparr>oc_kind = kind, oc_learning_rate = learning_rate, oc_momentum = momentum,
             oc_beta1 = beta1, oc_beta2 = beta2, oc_epsilon = epsilon,
             oc_weight_decay = weight_decay, oc_step = 0, oc_first_moment = first,
             oc_second_moment = second, os_module = m\<rparr>)))))
        (InsertObject kOptimizer))))))"

definition SgdCreate :: "handle \<Rightarrow> f64 \<Rightarrow> f64 \<Rightarrow> f64 \<Rightarrow> (handle, 'r) tapi" where
  "SgdCreate module learning_rate momentum weight_decay =
     CreateOptimizer module kSgd learning_rate momentum f64_zero f64_zero f64_zero weight_decay"

definition AdamCreate :: "handle \<Rightarrow> f64 \<Rightarrow> f64 \<Rightarrow> f64 \<Rightarrow> f64 \<Rightarrow> f64 \<Rightarrow> (handle, 'r) tapi" where
  "AdamCreate module learning_rate beta1 beta2 epsilon weight_decay =
     CreateOptimizer module kAdam learning_rate f64_zero beta1 beta2 epsilon weight_decay"

definition AdamWCreate :: "handle \<Rightarrow> f64 \<Rightarrow> f64 \<Rightarrow> f64 \<Rightarrow> f64 \<Rightarrow> f64 \<Rightarrow> (handle, 'r) tapi" where
  "AdamWCreate module learning_rate beta1 beta2 epsilon weight_decay =
     CreateOptimizer module kAdamW learning_rate f64_zero beta1 beta2 epsilon weight_decay"

definition OptimizerZeroGrad :: "handle \<Rightarrow> ('r, unit) trt" where
  "OptimizerZeroGrad optimizer =
     bindE (LookupOptimizer optimizer) (\<lambda>k.
     bindE (getE (\<lambda>s. Parameters (module_at s (os_module (rt_optimizers s ! k))))) (\<lambda>parameters.
     forE parameters (\<lambda>parameter. heapE (ClearGradient parameter))))"

text \<open>
  The body of the loop over the parameters; \<open>meta\<close> or its gradient missing means \<open>continue\<close>.
\<close>

definition optimizer_step_parameter :: "libm \<Rightarrow> nat \<Rightarrow> nat \<Rightarrow> tensor_ref \<Rightarrow> ('r, unit) trt" where
  "optimizer_step_parameter L k i parameter =
     bindE (heapE (getE (\<lambda>h. gradient_of h parameter))) (\<lambda>meta_gradient.
     case meta_gradient of
       None \<Rightarrow> returnE ()
     | Some gradient \<Rightarrow>
         bindE (heapE (MutableCpuValues parameter ''optimizer_step'')) (\<lambda>storage.
         bindE (heapE (CpuValues gradient ''optimizer_step'')) (\<lambda>gradient_values.
         bindE (heapE (getE (\<lambda>h. cpu_values (storages h ! storage)))) (\<lambda>values.
         bindE (checkE (length values = length gradient_values)
           (InternalError ''optimizer_step: gradient size mismatch'')) (\<lambda>_.
         bindE (getE (\<lambda>s. update_parameter L (rt_optimizers s ! k) i values gradient_values))
           (\<lambda>(values', state').
         bindE (heapE (write_values storage values')) (\<lambda>_.
         bindE (update_optimizer k (\<lambda>_. state')) (\<lambda>_.
         heapE (increment_version parameter)))))))))"

definition OptimizerStep :: "libm \<Rightarrow> handle \<Rightarrow> ('r, unit) trt" where
  "OptimizerStep L optimizer =
     bindE (LookupOptimizer optimizer) (\<lambda>k.
     bindE (getE (\<lambda>s. Parameters (module_at s (os_module (rt_optimizers s ! k))))) (\<lambda>parameters.
     bindE (update_optimizer k (\<lambda>state. state\<lparr>oc_step := oc_step state + 1\<rparr>)) (\<lambda>_.
     forE (enumerate 0 parameters)
       (\<lambda>(parameter_index, parameter). optimizer_step_parameter L k parameter_index parameter))))"

definition OptimizerRelease :: "handle \<Rightarrow> ('r, unit) trt" where
  "OptimizerRelease optimizer = registryE (registry_release optimizer kOptimizer)"

end
