(* ===== verification/Parameter_Optimizer.thy ===== *)
theory Parameter_Optimizer
  imports Optimizers
begin

text \<open>
  The optimizer over a list of tensors, \<open>native/src/training/nn_v2_optimizer.h\<close> in the core-only
  build.  It differs from the optimizer of a module in how it finds its parameters, in its messages,
  and in reading gradients through their logical values.
\<close>

section \<open>Validation\<close>

definition ValidateLearningRate :: "f64 \<Rightarrow> string \<Rightarrow> status + unit" where
  "ValidateLearningRate x operation =
     (if \<not> f64_isfinite x \<or> \<not> f64_less f64_zero x
      then Inl (InvalidArgument (operation @ '': learning rate must be finite and positive''))
      else Inr ())"

definition ValidateWeightDecay :: "f64 \<Rightarrow> string \<Rightarrow> status + unit" where
  "ValidateWeightDecay x operation =
     (if \<not> f64_isfinite x \<or> f64_less x f64_zero
      then Inl (InvalidArgument (operation @ '': weight decay must be finite and non-negative''))
      else Inr ())"

definition ValidateMomentum :: "f64 \<Rightarrow> string \<Rightarrow> status + unit" where
  "ValidateMomentum x operation =
     (if \<not> f64_isfinite x \<or> f64_less x f64_zero
      then Inl (InvalidArgument (operation @ '': momentum must be finite and non-negative''))
      else Inr ())"

definition ValidateBetas :: "f64 \<Rightarrow> f64 \<Rightarrow> string \<Rightarrow> status + unit" where
  "ValidateBetas beta1 beta2 operation =
     (if \<not> f64_isfinite beta1 \<or> f64_less beta1 f64_zero \<or> \<not> f64_less beta1 f64_one \<or>
         \<not> f64_isfinite beta2 \<or> f64_less beta2 f64_zero \<or> \<not> f64_less beta2 f64_one
      then Inl (InvalidArgument (operation @ '': beta values must be finite in [0, 1)''))
      else Inr ())"

definition ValidateEpsilon :: "f64 \<Rightarrow> string \<Rightarrow> status + unit" where
  "ValidateEpsilon x operation =
     (if \<not> f64_isfinite x \<or> \<not> f64_less f64_zero x
      then Inl (InvalidArgument (operation @ '': epsilon must be finite and positive''))
      else Inr ())"

section \<open>Creation\<close>

text \<open>
  The loop of \<open>CollectParameters\<close> carries the tensors seen so far, the common storage kind
  (\<open>None\<close> until the first trainable parameter) and the trainable parameters.
\<close>

definition collect_parameter :: "string \<Rightarrow> handle \<Rightarrow>
    tensor_ref list \<times> storage_kind option \<times> tensor_ref list \<Rightarrow>
    ('r, tensor_ref list \<times> storage_kind option \<times> tensor_ref list) rt" where
  "collect_parameter operation handle = (\<lambda>(seen, kind, out).
     bindE (LookupTensor handle) (\<lambda>parameter.
     bindE (checkE (parameter \<notin> set seen)
       (InvalidArgument (operation @ '': duplicate parameter tensor''))) (\<lambda>_.
     bindE (heapE (getE (\<lambda>h. RequiresGrad h parameter))) (\<lambda>requires_grad.
     if \<not> requires_grad then returnE (parameter # seen, kind, out)
     else
       bindE (heapE (getE (\<lambda>h. storage_kind_of (storage_of h (tensor_at h parameter)))))
         (\<lambda>parameter_kind.
       bindE (checkE (kind = None \<or> kind = Some parameter_kind)
         (InvalidArgument (operation @ '': all trainable parameters must use one backend''))) (\<lambda>_.
       returnE (parameter # seen, Some parameter_kind, out @ [parameter])))))))"

definition CollectParameters :: "handle list option \<Rightarrow> nat \<Rightarrow> string \<Rightarrow>
    ('r, tensor_ref list \<times> storage_kind) rt" where
  "CollectParameters handles count operation =
     bindE (checkE (handles \<noteq> None \<and> count \<noteq> 0)
       (InvalidArgument (operation @ '': parameter collection must not be empty''))) (\<lambda>_.
     bindE (foldE (take count (the handles)) ([], None, []) (collect_parameter operation))
       (\<lambda>(_, kind, out).
     bindE (checkE (out \<noteq> [])
       (InvalidArgument (operation @ '': no trainable parameters remain after filtering''))) (\<lambda>_.
     returnE (out, the kind))))"

definition InitializeCpuMoments :: "tensor_ref list \<Rightarrow> string \<Rightarrow>
    (heap, f32 list list \<times> f32 list list) run" where
  "InitializeCpuMoments parameters operation =
     allocation_guard operation
       (foldE parameters ([], []) (\<lambda>parameter (first, second).
          bindE (MutableCpuValues parameter operation) (\<lambda>storage.
          bindE (getE (\<lambda>h. length (cpu_values (storages h ! storage)))) (\<lambda>n.
          bindE request_alloc (\<lambda>_.
          bindE request_alloc (\<lambda>_.
          returnE (first @ [replicate n f32_zero], second @ [replicate n f32_zero])))))))"

definition Create :: "handle list option \<Rightarrow> nat \<Rightarrow> optimizer_kind \<Rightarrow> f64 \<Rightarrow> f64 \<Rightarrow> f64 \<Rightarrow> f64 \<Rightarrow> f64 \<Rightarrow>
    f64 \<Rightarrow> string \<Rightarrow> (handle, 'r) tapi" where
  "Create handles count kind learning_rate momentum beta1 beta2 epsilon weight_decay operation =
     bindE (check_out (operation @ '': output handle pointer is null'')) (\<lambda>_.
     bindE (set_out 0) (\<lambda>_.
     bindE (statusE (ValidateLearningRate learning_rate operation)) (\<lambda>_.
     bindE (statusE (ValidateWeightDecay weight_decay operation)) (\<lambda>_.
     bindE (if kind = kSgd then statusE (ValidateMomentum momentum operation)
            else bindE (statusE (ValidateBetas beta1 beta2 operation)) (\<lambda>_.
                 statusE (ValidateEpsilon epsilon operation))) (\<lambda>_.
     bindE (runtimeE (CollectParameters handles count operation)) (\<lambda>(parameters, storage_kind).
     bindE (runtimeE (heapE (allocation_guard operation request_alloc))) (\<lambda>_.
     bindE (checkE (storage_kind = StorageKindCpu)
       (Unsupported (operation @ '': parameter storage backend is unsupported''))) (\<lambda>_.
     bindE (runtimeE (heapE (InitializeCpuMoments parameters operation))) (\<lambda>(first, second).
     bindE (runtimeE (new_parameter_optimizer \<lparr>oc_kind = kind, oc_learning_rate = learning_rate,
       oc_momentum = momentum, oc_beta1 = beta1, oc_beta2 = beta2, oc_epsilon = epsilon,
       oc_weight_decay = weight_decay, oc_step = 0, oc_first_moment = first,
       oc_second_moment = second, po_parameters = parameters, po_storage_kind = storage_kind\<rparr>))
       (InsertObject kParameterOptimizer))))))))))"

definition v2_SgdCreate :: "handle list option \<Rightarrow> nat \<Rightarrow> f64 \<Rightarrow> f64 \<Rightarrow> f64 \<Rightarrow> (handle, 'r) tapi" where
  "v2_SgdCreate handles count learning_rate momentum weight_decay =
     Create handles count kSgd learning_rate momentum f64_zero f64_zero f64_zero weight_decay
       ''sgd_create_for_tensors''"

definition v2_AdamCreate ::
    "handle list option \<Rightarrow> nat \<Rightarrow> f64 \<Rightarrow> f64 \<Rightarrow> f64 \<Rightarrow> f64 \<Rightarrow> f64 \<Rightarrow> (handle, 'r) tapi" where
  "v2_AdamCreate handles count learning_rate beta1 beta2 epsilon weight_decay =
     Create handles count kAdam learning_rate f64_zero beta1 beta2 epsilon weight_decay
       ''adam_create_for_tensors''"

definition v2_AdamWCreate ::
    "handle list option \<Rightarrow> nat \<Rightarrow> f64 \<Rightarrow> f64 \<Rightarrow> f64 \<Rightarrow> f64 \<Rightarrow> f64 \<Rightarrow> (handle, 'r) tapi" where
  "v2_AdamWCreate handles count learning_rate beta1 beta2 epsilon weight_decay =
     Create handles count kAdamW learning_rate f64_zero beta1 beta2 epsilon weight_decay
       ''adamw_create_for_tensors''"

section \<open>Use\<close>

definition ZeroGrad :: "handle \<Rightarrow> ('r, unit) trt" where
  "ZeroGrad optimizer =
     bindE (LookupParameterOptimizer optimizer) (\<lambda>k.
     bindE (getE (\<lambda>s. po_parameters (rt_parameter_optimizers s ! k))) (\<lambda>parameters.
     forE parameters (\<lambda>parameter. heapE (ClearGradient parameter))))"

definition cpu_step_parameter :: "libm \<Rightarrow> nat \<Rightarrow> nat \<Rightarrow> tensor_ref \<Rightarrow> ('r, unit) trt" where
  "cpu_step_parameter L k i parameter =
     bindE (heapE (getE (\<lambda>h. gradient_of h parameter))) (\<lambda>meta_gradient.
     case meta_gradient of
       None \<Rightarrow> returnE ()
     | Some gradient \<Rightarrow>
         bindE (heapE (MutableCpuValues parameter ''parameter_optimizer_step'')) (\<lambda>storage.
         bindE (heapE (ReadLogicalCpuValues gradient ''parameter_optimizer_step'')) (\<lambda>gradient_values.
         bindE (heapE (getE (\<lambda>h. cpu_values (storages h ! storage)))) (\<lambda>values.
         bindE (checkE (length values = length gradient_values)
           (InternalError ''parameter_optimizer_step: gradient size mismatch'')) (\<lambda>_.
         bindE (getE (\<lambda>s. update_parameter L (rt_parameter_optimizers s ! k) i values gradient_values))
           (\<lambda>(values', state').
         bindE (heapE (write_values storage values')) (\<lambda>_.
         bindE (update_parameter_optimizer k (\<lambda>_. state')) (\<lambda>_.
         heapE (increment_version parameter)))))))))"

definition CpuStep :: "libm \<Rightarrow> nat \<Rightarrow> ('r, unit) trt" where
  "CpuStep L k =
     bindE (update_parameter_optimizer k (\<lambda>state. state\<lparr>oc_step := oc_step state + 1\<rparr>)) (\<lambda>_.
     bindE (getE (\<lambda>s. po_parameters (rt_parameter_optimizers s ! k))) (\<lambda>parameters.
     forE (enumerate 0 parameters)
       (\<lambda>(parameter_index, parameter). cpu_step_parameter L k parameter_index parameter)))"

definition v2_Step :: "libm \<Rightarrow> handle \<Rightarrow> ('r, unit) trt" where
  "v2_Step L optimizer = bindE (LookupParameterOptimizer optimizer) (CpuStep L)"

definition v2_Release :: "handle \<Rightarrow> ('r, unit) trt" where
  "v2_Release optimizer = registryE (registry_release optimizer kParameterOptimizer)"

end
