(* ===== verification/Tensor_State.thy ===== *)
theory Tensor_State
  imports Training_State
begin

text \<open>
  State transfer between tensors: identities, detached copies, the simultaneous assignment of many
  tensors (\<open>native/src/training/nn_v2_state.h\<close>), and the switch of a leaf between trainable and
  frozen (\<open>nn_v2_parameter_control.h\<close>), in the core-only build.
\<close>

definition ValidatePair :: "heap \<Rightarrow> tensor \<Rightarrow> tensor \<Rightarrow> string \<Rightarrow> status + unit" where
  "ValidatePair h target source operation =
     (if \<not> SameShape (t_shape target) (t_shape source)
      then Inl (InvalidShape (operation @ '': tensor shape mismatch''))
      else if t_dtype target \<noteq> t_dtype source
      then Inl (InvalidArgument (operation @ '': tensor dtype mismatch''))
      else if t_device target \<noteq> t_device source \<or> t_device_index target \<noteq> t_device_index source
      then Inl (InvalidArgument (operation @ '': tensor device mismatch''))
      else if storage_kind_of (storage_of h target) \<noteq> storage_kind_of (storage_of h source)
      then Inl (InvalidArgument (operation @ '': tensor storage backend mismatch''))
      else Inr ())"

definition TensorIdentity :: "tensor_ref \<Rightarrow> (heap, 64 word) run" where
  "TensorIdentity tensor =
     bindE (getE (\<lambda>h. tensor_identity h tensor)) (\<lambda>ident.
     bindE (checkE (ident \<noteq> 0) (InternalError ''tensor_identity: opaque identity is zero'')) (\<lambda>_.
     returnE ident))"

text \<open>The first loop of \<open>AssignMany\<close>: looking up and validating the pairs.\<close>

record assign_batch =
  ab_identities :: "64 word list"
  ab_kind :: "storage_kind option"
  ab_targets :: "tensor_ref list"
  ab_sources :: "tensor_ref list"

definition empty_batch :: assign_batch where
  "empty_batch = \<lparr>ab_identities = [], ab_kind = None, ab_targets = [], ab_sources = []\<rparr>"

definition assign_pair :: "handle \<times> handle \<Rightarrow> assign_batch \<Rightarrow> ('r, assign_batch) rt" where
  "assign_pair = (\<lambda>(target_handle, source_handle) batch.
     bindE (LookupTensor target_handle) (\<lambda>target.
     bindE (LookupTensor source_handle) (\<lambda>source.
     bindE (getE rt_heap) (\<lambda>h.
     bindE (statusE (ValidatePair h (tensor_at h target) (tensor_at h source) ''tensor_assign_many''))
       (\<lambda>_.
     bindE (heapE (TensorIdentity target)) (\<lambda>target_identity.
     bindE (heapE (allocation_guard ''tensor_assign_many'' request_alloc)) (\<lambda>_.
     bindE (checkE (target_identity \<notin> set (ab_identities batch))
       (InvalidArgument ''tensor_assign_many: duplicate target tensor'')) (\<lambda>_.
     bindE (returnE (storage_kind_of (storage_of h (tensor_at h target)))) (\<lambda>kind.
     bindE (checkE (ab_kind batch = None \<or> ab_kind batch = Some kind)
       (InvalidArgument ''tensor_assign_many: one transaction cannot span storage backends'')) (\<lambda>_.
     returnE \<lparr>ab_identities = target_identity # ab_identities batch, ab_kind = Some kind,
       ab_targets = ab_targets batch @ [target], ab_sources = ab_sources batch @ [source]\<rparr>))))))))))"

text \<open>The second loop: staging the values of a source and the storage of a target.\<close>

definition stage_pair :: "tensor_ref \<times> tensor_ref \<Rightarrow> (f32 list \<times> nat) list \<Rightarrow>
    (heap, (f32 list \<times> nat) list) run" where
  "stage_pair = (\<lambda>(target, source) staged.
     bindE (ReadLogicalCpuValues source ''tensor_assign_many'') (\<lambda>values.
     bindE (MutableCpuValues target ''tensor_assign_many'') (\<lambda>storage.
     returnE (staged @ [(values, storage)]))))"

text \<open>The third loop: \<open>std::copy\<close> over the front of the target's vector, the version, the gradient.\<close>

definition commit_pair :: "tensor_ref \<times> (f32 list \<times> nat) \<Rightarrow> (heap, unit) run" where
  "commit_pair = (\<lambda>(target, (values, storage)).
     bindE (getE (\<lambda>h. cpu_values (storages h ! storage))) (\<lambda>old.
     bindE (write_values storage (values @ drop (length values) old)) (\<lambda>_.
     bindE (increment_version target) (\<lambda>_.
     ClearGradient target))))"

definition assign_cpu :: "tensor_ref list \<Rightarrow> tensor_ref list \<Rightarrow> (heap, unit) run" where
  "assign_cpu targets sources =
     bindE (allocation_guard ''tensor_assign_many'' (bindE request_alloc (\<lambda>_. request_alloc))) (\<lambda>_.
     bindE (foldE (zip targets sources) [] stage_pair) (\<lambda>staged.
     forE (zip targets staged) commit_pair))"

definition AssignMany :: "handle list option \<Rightarrow> handle list option \<Rightarrow> nat \<Rightarrow> ('r, unit) rt" where
  "AssignMany target_handles source_handles count =
     (if count = 0 then returnE ()
      else
        bindE (checkE (target_handles \<noteq> None \<and> source_handles \<noteq> None)
          (InvalidArgument ''tensor_assign_many: tensor arrays are null'')) (\<lambda>_.
        bindE (heapE (allocation_guard ''tensor_assign_many'' (bindE request_alloc (\<lambda>_. request_alloc))))
          (\<lambda>_.
        bindE (foldE (zip (take count (the target_handles)) (take count (the source_handles)))
          empty_batch assign_pair) (\<lambda>batch.
        if ab_kind batch = Some StorageKindCpu
        then heapE (assign_cpu (ab_targets batch) (ab_sources batch))
        else failE (Unsupported ''tensor_assign_many: storage backend is unsupported'')))))"

definition SetCoreRequiresGrad :: "tensor_ref \<Rightarrow> bool \<Rightarrow> (heap, unit) run" where
  "SetCoreRequiresGrad tensor requires_grad =
     bindE (getE (\<lambda>h. t_meta (tensor_at h tensor))) (\<lambda>meta.
     case meta of
       None \<Rightarrow>
         if \<not> requires_grad then returnE ()
         else allocation_guard ''tensor_set_requires_grad''
           (bindE request_alloc (\<lambda>_. set_autograd_meta tensor
              (default_meta\<lparr>meta_requires_grad := True, meta_is_leaf := True\<rparr>)))
     | Some m \<Rightarrow>
         bindE (checkE (meta_is_leaf m) (InvalidArgument
           ''tensor_set_requires_grad: only leaf tensors may change requiresGrad'')) (\<lambda>_.
         set_autograd_meta tensor (m\<lparr>meta_requires_grad := requires_grad,
           meta_gradient := (if \<not> requires_grad then None else meta_gradient m)\<rparr>)))"

definition SetRequiresGrad :: "tensor_ref \<Rightarrow> bool \<Rightarrow> (heap, unit) run" where
  "SetRequiresGrad = SetCoreRequiresGrad"

end
