(* ===== verification/Training_Api.thy ===== *)
theory Training_Api
  imports Checkpoint Parameter_Optimizer Tensor_State
begin

text \<open>
  The remaining functions of \<open>native/src/training/training_bridge_stub.cc\<close> and the exported functions
  of \<open>native/src/training/training_c_api.cc\<close>.
\<close>

section \<open>The rest of the bridge\<close>

definition IsAvailable :: "(nat, 'r) api" where
  "IsAvailable =
     bindE (check_out ''training_available: output pointer is null'') (\<lambda>_. set_out 1)"

definition DeviceCount :: "device \<Rightarrow> (nat, 'r) api" where
  "DeviceCount device =
     bindE (check_out ''device_count: output pointer is null'') (\<lambda>_.
     set_out (if device = kCpu then 1 else 0))"

definition CudaDeviceCount :: "(nat, 'r) api" where
  "CudaDeviceCount = DeviceCount kCuda"

definition ManualSeed :: "64 word \<Rightarrow> ('r, unit) trt" where
  "ManualSeed seed = modifyE (\<lambda>s. s\<lparr>rt_engine := engine_seed seed\<rparr>)"

definition WithRequiresGrad :: "tensor_ref \<Rightarrow> bool \<Rightarrow> (heap, tensor_ref) run" where
  "WithRequiresGrad = CloneAsLeaf"

definition bridge_Gradient :: "tensor_ref \<Rightarrow> (heap, tensor_ref) run" where
  "bridge_Gradient = GradientSnapshot"

definition LiveStorageBytes :: nat where "LiveStorageBytes = 0"

section \<open>Tensors\<close>

definition RunTrainingUnary :: "handle \<Rightarrow> (tensor_ref \<Rightarrow> (heap, tensor_ref) run) \<Rightarrow> (handle, 'r) api" where
  "RunTrainingUnary tensor operation =
     new_handle ''training unary: output handle pointer is null''
       (bindE (LookupTensor tensor) (\<lambda>object. heapE (operation object)))"

definition RunTrainingBinary :: "handle \<Rightarrow> handle \<Rightarrow>
    (tensor_ref \<Rightarrow> tensor_ref \<Rightarrow> (heap, tensor_ref) run) \<Rightarrow> (handle, 'r) api" where
  "RunTrainingBinary left right operation =
     new_handle ''training binary: output handle pointer is null''
       (bindE (LookupTensor left) (\<lambda>left_object.
        bindE (LookupTensor right) (\<lambda>right_object.
        heapE (operation left_object right_object))))"

definition FetchAndInsertTrainingTensor :: "string \<Rightarrow> ('r, tensor_ref) rt \<Rightarrow> (handle, 'r) api" where
  "FetchAndInsertTrainingTensor operation fetch =
     new_handle (operation @ '': output handle pointer is null'') fetch"

definition ts_training_available :: "(nat, 'r) call" where
  "ts_training_available = ts_function ''training_available'' IsAvailable"

definition ts_manual_seed :: "64 word \<Rightarrow> 'r training_runtime_scheme \<Rightarrow>
    int option \<times> 'r training_runtime_scheme" where
  "ts_manual_seed seed = ts_plain ''manual_seed'' (ManualSeed seed)"

definition ts_tensor_identity :: "handle \<Rightarrow> (64 word, 'r) call" where
  "ts_tensor_identity tensor = ts_function ''tensor_identity''
     (bindE (check_out ''tensor_identity: output identity pointer is null'') (\<lambda>_.
      bindE (set_out 0) (\<lambda>_.
      bindE (runtimeE (LookupTensor tensor)) (\<lambda>object.
      bindE (runtimeE (heapE (TensorIdentity object))) set_out))))"

definition ts_tensor_clone_detached :: "handle \<Rightarrow> (handle, 'r) call" where
  "ts_tensor_clone_detached tensor =
     ts_function ''tensor_clone_detached'' (RunTrainingUnary tensor CloneDetached)"

definition ts_tensor_assign_many ::
    "handle list option \<Rightarrow> handle list option \<Rightarrow> nat \<Rightarrow> 'r plain_call" where
  "ts_tensor_assign_many targets sources count =
     ts_plain ''tensor_assign_many'' (AssignMany targets sources count)"

definition ts_tensor_with_requires_grad :: "handle \<Rightarrow> nat \<Rightarrow> (handle, 'r) call" where
  "ts_tensor_with_requires_grad tensor requires_grad = ts_function ''tensor_with_requires_grad''
     (RunTrainingUnary tensor (\<lambda>x. WithRequiresGrad x (requires_grad \<noteq> 0)))"

definition ts_tensor_requires_grad :: "handle \<Rightarrow> (nat, 'r) call" where
  "ts_tensor_requires_grad tensor = ts_function ''tensor_requires_grad''
     (bindE (check_out ''tensor_requires_grad: output pointer is null'') (\<lambda>_.
      bindE (set_out 0) (\<lambda>_.
      bindE (runtimeE (LookupTensor tensor)) (\<lambda>object.
      bindE (runtimeE (heapE (getE (\<lambda>h. RequiresGrad h object)))) (\<lambda>rg.
      set_out (if rg then 1 else 0))))))"

definition ts_tensor_set_requires_grad :: "handle \<Rightarrow> nat \<Rightarrow> 'r plain_call" where
  "ts_tensor_set_requires_grad tensor requires_grad = ts_plain ''tensor_set_requires_grad''
     (bindE (LookupTensor tensor) (\<lambda>object. heapE (SetRequiresGrad object (requires_grad \<noteq> 0))))"

definition ts_tensor_backward :: "libm \<Rightarrow> handle \<Rightarrow> 'r plain_call" where
  "ts_tensor_backward L tensor = ts_plain ''tensor_backward''
     (bindE (LookupTensor tensor) (\<lambda>object. heapE (Backward L object)))"

definition ts_tensor_grad :: "handle \<Rightarrow> (handle, 'r) call" where
  "ts_tensor_grad tensor = ts_function ''tensor_grad'' (RunTrainingUnary tensor bridge_Gradient)"

definition ts_tensor_relu :: "libm \<Rightarrow> handle \<Rightarrow> (handle, 'r) call" where
  "ts_tensor_relu L tensor = ts_function ''tensor_relu'' (RunTrainingUnary tensor (Relu L))"

definition ts_tensor_sigmoid :: "libm \<Rightarrow> handle \<Rightarrow> (handle, 'r) call" where
  "ts_tensor_sigmoid L tensor = ts_function ''tensor_sigmoid'' (RunTrainingUnary tensor (Sigmoid L))"

definition ts_tensor_tanh :: "libm \<Rightarrow> handle \<Rightarrow> (handle, 'r) call" where
  "ts_tensor_tanh L tensor = ts_function ''tensor_tanh'' (RunTrainingUnary tensor (Tanh L))"

definition ts_tensor_gelu :: "libm \<Rightarrow> handle \<Rightarrow> (handle, 'r) call" where
  "ts_tensor_gelu L tensor = ts_function ''tensor_gelu'' (RunTrainingUnary tensor (Gelu L))"

definition ts_tensor_silu :: "libm \<Rightarrow> handle \<Rightarrow> (handle, 'r) call" where
  "ts_tensor_silu L tensor = ts_function ''tensor_silu'' (RunTrainingUnary tensor (Silu L))"

definition ts_tensor_swiglu :: "libm \<Rightarrow> handle \<Rightarrow> (handle, 'r) call" where
  "ts_tensor_swiglu L tensor = ts_function ''tensor_swiglu'' (RunTrainingUnary tensor (SwiGlu L))"

definition ts_mse_loss :: "handle \<Rightarrow> handle \<Rightarrow> (handle, 'r) call" where
  "ts_mse_loss prediction target =
     ts_function ''mse_loss'' (RunTrainingBinary prediction target MseLoss)"

definition ts_cross_entropy_loss :: "libm \<Rightarrow> handle \<Rightarrow> handle \<Rightarrow> (handle, 'r) call" where
  "ts_cross_entropy_loss L logits one_hot_target =
     ts_function ''cross_entropy_loss'' (RunTrainingBinary logits one_hot_target (CrossEntropyLoss L))"

section \<open>Modules\<close>

definition ts_linear_create :: "distribution \<Rightarrow> int \<Rightarrow> int \<Rightarrow> nat \<Rightarrow> (handle, 'r) tcall" where
  "ts_linear_create D inp outp bias = ts_function ''linear_create''
     (bindE (check_out ''linear_create: output handle pointer is null'') (\<lambda>_.
      bindE (set_out 0) (\<lambda>_.
      LinearCreate D inp outp (bias \<noteq> 0))))"

definition ts_module_forward :: "handle \<Rightarrow> handle \<Rightarrow> (handle, 'r) tcall" where
  "ts_module_forward module input = ts_function ''module_forward''
     (new_handle ''module_forward: output handle pointer is null''
       (bindE (LookupTensor input) (\<lambda>input_object. ModuleForward module input_object)))"

type_synonym 'r training_plain_call = "'r training_runtime_scheme \<Rightarrow>
    int option \<times> 'r training_runtime_scheme"

definition ts_module_set_training :: "handle \<Rightarrow> nat \<Rightarrow> 'r training_plain_call" where
  "ts_module_set_training module training =
     ts_plain ''module_set_training'' (ModuleSetTraining module (training \<noteq> 0))"

definition ts_module_to_device :: "handle \<Rightarrow> nat \<Rightarrow> int \<Rightarrow> 'r training_plain_call" where
  "ts_module_to_device module device device_index = ts_plain ''module_to_device''
     (bindE (statusE (DeviceFromCode device)) (\<lambda>target. ModuleToDevice module target device_index))"

definition ts_module_parameter_count :: "handle \<Rightarrow> (nat, 'r) tcall" where
  "ts_module_parameter_count module =
     ts_function ''module_parameter_count'' (ModuleParameterCount module)"

definition ts_module_parameter_at :: "handle \<Rightarrow> nat \<Rightarrow> (handle, 'r) tcall" where
  "ts_module_parameter_at module index = ts_function ''module_parameter_at''
     (FetchAndInsertTrainingTensor ''module_parameter_at'' (ModuleParameterAt module index))"

definition ts_module_buffer_count :: "handle \<Rightarrow> (nat, 'r) tcall" where
  "ts_module_buffer_count module =
     ts_function ''module_buffer_count'' (ModuleBufferCount module)"

definition ts_module_buffer_at :: "handle \<Rightarrow> nat \<Rightarrow> (handle, 'r) tcall" where
  "ts_module_buffer_at module index = ts_function ''module_buffer_at''
     (FetchAndInsertTrainingTensor ''module_buffer_at'' (ModuleBufferAt module index))"

definition ts_module_save :: "handle \<Rightarrow> string option \<Rightarrow> 'r training_plain_call" where
  "ts_module_save module path = ts_plain ''module_save''
     (bindE (checkE (path \<noteq> None) (InvalidArgument ''module_save: path pointer is null'')) (\<lambda>_.
      ModuleSave module (the path)))"

definition ts_module_load :: "handle \<Rightarrow> string option \<Rightarrow> 'r training_plain_call" where
  "ts_module_load module path = ts_plain ''module_load''
     (bindE (checkE (path \<noteq> None) (InvalidArgument ''module_load: path pointer is null'')) (\<lambda>_.
      ModuleLoad module (the path)))"

definition ts_module_release :: "handle \<Rightarrow> 'r training_plain_call" where
  "ts_module_release module = ts_plain ''module_release'' (ModuleRelease module)"

section \<open>Optimizers\<close>

definition ts_sgd_create :: "handle \<Rightarrow> f64 \<Rightarrow> f64 \<Rightarrow> f64 \<Rightarrow> (handle, 'r) tcall" where
  "ts_sgd_create module learning_rate momentum weight_decay =
     ts_function ''sgd_create'' (SgdCreate module learning_rate momentum weight_decay)"

definition ts_adam_create :: "handle \<Rightarrow> f64 \<Rightarrow> f64 \<Rightarrow> f64 \<Rightarrow> f64 \<Rightarrow> f64 \<Rightarrow> (handle, 'r) tcall" where
  "ts_adam_create module learning_rate beta1 beta2 epsilon weight_decay =
     ts_function ''adam_create'' (AdamCreate module learning_rate beta1 beta2 epsilon weight_decay)"

definition ts_adamw_create :: "handle \<Rightarrow> f64 \<Rightarrow> f64 \<Rightarrow> f64 \<Rightarrow> f64 \<Rightarrow> f64 \<Rightarrow> (handle, 'r) tcall" where
  "ts_adamw_create module learning_rate beta1 beta2 epsilon weight_decay =
     ts_function ''adamw_create'' (AdamWCreate module learning_rate beta1 beta2 epsilon weight_decay)"

definition ts_optimizer_zero_grad :: "handle \<Rightarrow> 'r training_plain_call" where
  "ts_optimizer_zero_grad optimizer =
     ts_plain ''optimizer_zero_grad'' (OptimizerZeroGrad optimizer)"

definition ts_optimizer_step :: "libm \<Rightarrow> handle \<Rightarrow> 'r training_plain_call" where
  "ts_optimizer_step L optimizer = ts_plain ''optimizer_step'' (OptimizerStep L optimizer)"

definition ts_optimizer_release :: "handle \<Rightarrow> 'r training_plain_call" where
  "ts_optimizer_release optimizer = ts_plain ''optimizer_release'' (OptimizerRelease optimizer)"

definition ts_sgd_create_for_tensors ::
    "handle list option \<Rightarrow> nat \<Rightarrow> f64 \<Rightarrow> f64 \<Rightarrow> f64 \<Rightarrow> (handle, 'r) tcall" where
  "ts_sgd_create_for_tensors parameters count learning_rate momentum weight_decay =
     ts_function ''sgd_create_for_tensors''
       (v2_SgdCreate parameters count learning_rate momentum weight_decay)"

definition ts_adam_create_for_tensors ::
    "handle list option \<Rightarrow> nat \<Rightarrow> f64 \<Rightarrow> f64 \<Rightarrow> f64 \<Rightarrow> f64 \<Rightarrow> f64 \<Rightarrow> (handle, 'r) tcall" where
  "ts_adam_create_for_tensors parameters count learning_rate beta1 beta2 epsilon weight_decay =
     ts_function ''adam_create_for_tensors''
       (v2_AdamCreate parameters count learning_rate beta1 beta2 epsilon weight_decay)"

definition ts_adamw_create_for_tensors ::
    "handle list option \<Rightarrow> nat \<Rightarrow> f64 \<Rightarrow> f64 \<Rightarrow> f64 \<Rightarrow> f64 \<Rightarrow> f64 \<Rightarrow> (handle, 'r) tcall" where
  "ts_adamw_create_for_tensors parameters count learning_rate beta1 beta2 epsilon weight_decay =
     ts_function ''adamw_create_for_tensors''
       (v2_AdamWCreate parameters count learning_rate beta1 beta2 epsilon weight_decay)"

definition ts_parameter_optimizer_zero_grad :: "handle \<Rightarrow> 'r training_plain_call" where
  "ts_parameter_optimizer_zero_grad optimizer =
     ts_plain ''parameter_optimizer_zero_grad'' (ZeroGrad optimizer)"

definition ts_parameter_optimizer_step :: "libm \<Rightarrow> handle \<Rightarrow> 'r training_plain_call" where
  "ts_parameter_optimizer_step L optimizer =
     ts_plain ''parameter_optimizer_step'' (v2_Step L optimizer)"

definition ts_parameter_optimizer_release :: "handle \<Rightarrow> 'r training_plain_call" where
  "ts_parameter_optimizer_release optimizer =
     ts_plain ''parameter_optimizer_release'' (v2_Release optimizer)"

section \<open>Counters\<close>

definition ts_runtime_live_module_count :: "(64 word, 'r) call" where
  "ts_runtime_live_module_count = ts_function ''runtime_live_module_count''
     (bindE (check_out ''runtime_live_module_count: output pointer is null'') (\<lambda>_.
      bindE (runtimeE (registryE (getE (registry_count kModule)))) set_out))"

definition ts_runtime_live_optimizer_count :: "(64 word, 'r) call" where
  "ts_runtime_live_optimizer_count = ts_function ''runtime_live_optimizer_count''
     (bindE (check_out ''runtime_live_optimizer_count: output pointer is null'') (\<lambda>_.
      bindE (runtimeE (registryE (getE (\<lambda>g.
        registry_count kOptimizer g + registry_count kParameterOptimizer g)))) set_out))"

end
