(* ===== verification/Core_Api_Spec.thy ===== *)
theory Core_Api_Spec
  imports Core_Api
begin

text \<open>
  What the exported functions of the core promise, in terms of what a client can see: a client's
  view of the library is a map from live tensor handles to arrays (dimensions and values in logical
  order).  Every function that makes a tensor implements one operation \<open>core_op\<close> of an abstract array
  machine: it either registers a new handle for the array the machine computes, or changes nothing
  the client can see, zeroes the output handle and sets the last error.
\<close>

section \<open>The abstract array machine\<close>

type_synonym array = "int list \<times> f32 list"
type_synonym array_store = "handle \<Rightarrow> array option"

datatype core_op =
    OpFromF32 "f32 list" "int list"
  | OpFull "int list" f32
  | OpToDevice handle nat int
  | OpReshape handle "int list"
  | OpTranspose2D handle
  | OpAdd handle handle
  | OpMultiply handle handle
  | OpSum handle
  | OpMatmul handle handle

definition elementwise :: "(f32 \<Rightarrow> f32 \<Rightarrow> f32) \<Rightarrow> array option \<Rightarrow> array option \<Rightarrow> array option" where
  "elementwise f a b = (case (a, b) of
       (Some (d, x), Some (e, y)) \<Rightarrow> if d = e then Some (d, map2 f x y) else None
     | _ \<Rightarrow> None)"

fun array_op :: "core_op \<Rightarrow> array_store \<Rightarrow> array option" where
  "array_op (OpFromF32 data d) A =
     (if valid_dims d \<and> length data = dims_prod d then Some (d, data) else None)"
| "array_op (OpFull d v) A = (if valid_dims d then Some (d, replicate (dims_prod d) v) else None)"
| "array_op (OpToDevice h code index) A =
     (if code = TS_DEVICE_CPU \<and> index = 0 then A h else None)"
| "array_op (OpReshape h d) A = (case A h of
       Some (e, x) \<Rightarrow> if valid_dims d \<and> dims_prod d = dims_prod e then Some (d, x) else None
     | None \<Rightarrow> None)"
| "array_op (OpTranspose2D h) A = (case A h of
       Some (d, x) \<Rightarrow>
         (if length d = 2
          then Some ([d ! 1, d ! 0], transpose_values (nat (d ! 0)) (nat (d ! 1)) x) else None)
     | None \<Rightarrow> None)"
| "array_op (OpAdd a b) A = elementwise f32_add (A a) (A b)"
| "array_op (OpMultiply a b) A = elementwise f32_mul (A a) (A b)"
| "array_op (OpSum h) A = map_option (\<lambda>(d, x). ([], [sum_left x])) (A h)"
| "array_op (OpMatmul a b) A = (case (A a, A b) of
       (Some (d, x), Some (e, y)) \<Rightarrow>
         (if length d = 2 \<and> length e = 2 \<and> d ! 1 = e ! 0 \<and> valid_dims [d ! 0, e ! 1]
          then Some ([d ! 0, e ! 1],
            matmul_values (nat (d ! 0)) (nat (d ! 1)) (nat (e ! 1)) x y) else None)
     | _ \<Rightarrow> None)"

text \<open>The exported function that implements an operation.\<close>

fun run_core :: "core_op \<Rightarrow> (handle, 'r) call" where
  "run_core (OpFromF32 data d) = ts_tensor_from_f32 (Some data) (length data) (dims_pointer d) (length d)"
| "run_core (OpFull d v) = ts_tensor_full_f32 (dims_pointer d) (length d) v"
| "run_core (OpToDevice h code index) = ts_tensor_to_device h code index"
| "run_core (OpReshape h d) = ts_tensor_reshape h (dims_pointer d) (length d)"
| "run_core (OpTranspose2D h) = ts_tensor_transpose2d h"
| "run_core (OpAdd a b) = ts_tensor_add a b"
| "run_core (OpMultiply a b) = ts_tensor_multiply a b"
| "run_core (OpSum h) = ts_tensor_sum h"
| "run_core (OpMatmul a b) = ts_tensor_matmul a b"

text \<open>The dimensions a caller can pass are \<open>int64_t\<close> values.\<close>

fun op_args_ok :: "core_op \<Rightarrow> bool" where
  "op_args_ok (OpFromF32 data d) = i64_array d"
| "op_args_ok (OpFull d v) = i64_array d"
| "op_args_ok (OpReshape h d) = i64_array d"
| "op_args_ok _ = True"

section \<open>What a client sees\<close>

definition array_of :: "heap \<Rightarrow> tensor_ref \<Rightarrow> array" where
  "array_of h r = (dims_of (tensor_at h r), logical_values h (tensor_at h r))"

definition tensor_handle :: "'r runtime_scheme \<Rightarrow> handle \<Rightarrow> tensor_ref option" where
  "tensor_handle s h = (case entry_of (rt_registry s) h of
       None \<Rightarrow> None
     | Some e \<Rightarrow> if entry_type e = kTensor then Some (entry_object e) else None)"

definition tensor_view :: "'r runtime_scheme \<Rightarrow> array_store" where
  "tensor_view s h = map_option (array_of (rt_heap s)) (tensor_handle s h)"

definition core_inv :: "'r runtime_scheme \<Rightarrow> bool" where
  "core_inv s \<longleftrightarrow> heap_inv (rt_heap s) \<and> registry_inv (rt_registry s) \<and>
     (\<forall>h r. tensor_handle s h = Some r \<longrightarrow> public (rt_heap s) r)"

lemma core_invD:
  assumes "core_inv s"
  shows "heap_inv (rt_heap s)" "registry_inv (rt_registry s)"
    "tensor_handle s h = Some r \<Longrightarrow> public (rt_heap s) r" "wf_heap (rt_heap s)"
  using assms by (auto simp: core_inv_def heap_inv_def)

lemma core_inv_error [simp]:
  "core_inv (s\<lparr>rt_last_error := m\<rparr>) = core_inv s"
  "tensor_view (s\<lparr>rt_last_error := m\<rparr>) = tensor_view s"
  "tensor_handle (s\<lparr>rt_last_error := m\<rparr>) = tensor_handle s"
  by (simp_all add: core_inv_def tensor_handle_def tensor_view_def fun_eq_iff)

text \<open>A step that only extends the heap.\<close>

definition extends_runtime :: "'r runtime_scheme \<Rightarrow> 'r runtime_scheme \<Rightarrow> bool" where
  "extends_runtime s s' \<longleftrightarrow> (\<exists>h'. s' = s\<lparr>rt_heap := h'\<rparr> \<and> heap_inv h' \<and>
     heap_extends (rt_heap s) h' \<and> (\<forall>p. public (rt_heap s) p \<longrightarrow> public h' p))"

lemma array_of_extends:
  assumes "wf_heap h" and "heap_extends h h'" and "r < length (tensors h)"
  shows "array_of h' r = array_of h r"
  using logical_values_ext [OF _ assms(2), of "tensor_at h r"] wf_heap_layout [OF assms(1,3)]
    heap_extends_nth(3) [OF assms(2,3)]
  by (simp add: array_of_def layout_ok_def)

lemma extends_runtime_view:
  assumes inv: "core_inv s" and e: "extends_runtime s s'"
  shows "core_inv s'" "tensor_view s' = tensor_view s" "rt_registry s' = rt_registry s"
    "tensor_handle s' = tensor_handle s"
proof -
  obtain h' where s': "s' = s\<lparr>rt_heap := h'\<rparr>" and h': "heap_inv h'" "heap_extends (rt_heap s) h'"
    "\<And>p. public (rt_heap s) p \<Longrightarrow> public h' p" using e unfolding extends_runtime_def by blast
  show th: "tensor_handle s' = tensor_handle s" and "rt_registry s' = rt_registry s"
    using s' by (simp_all add: tensor_handle_def fun_eq_iff)
  show "core_inv s'" using inv s' h' th by (auto simp: core_inv_def)
  have "array_of h' r = array_of (rt_heap s) r" if "tensor_handle s h = Some r" for h r
    using array_of_extends [OF core_invD(4) [OF inv] h'(2)] core_invD(3) [OF inv that]
    by (simp add: public_def)
  then show "tensor_view s' = tensor_view s"
    using th s' by (auto simp: tensor_view_def fun_eq_iff intro!: option.map_cong)
qed

lemma LookupTensor_cases:
  assumes "core_inv s"
  obtains (missing) m where "LookupTensor h s = (Inl (Failed (InvalidHandle m)), s)"
      "tensor_view s h = None" "tensor_handle s h = None"
  | (found) r where "LookupTensor h s = (Inr r, s)" "tensor_handle s h = Some r"
      "public (rt_heap s) r" "tensor_view s h = Some (array_of (rt_heap s) r)"
proof -
  obtain res g where run: "registry_lookup h kTensor (rt_registry s) = (res, g)" by force
  then have g: "g = rt_registry s" using registry_lookup_state [of h kTensor "rt_registry s"] by simp
  show thesis
  proof (cases res)
    case (Inl f)
    then obtain m where "f = Failed (InvalidHandle m)" using registry_lookup_Inl run by blast
    moreover have "tensor_handle s h = None"
    proof (cases "entry_of (rt_registry s) h")
      case (Some e)
      then have "0 < h" using entry_of_inv [OF core_invD(2) [OF assms]] by blast
      then have "h \<noteq> 0" by auto
      then show ?thesis
        using run Inl Some by (auto simp: tensor_handle_def registry_lookup_run find_entry_run)
    qed (simp add: tensor_handle_def)
    ultimately show thesis
      using run Inl g missing by (simp add: LookupTensor_def registryE_def tensor_view_def)
  next
    case (Inr r)
    then have "tensor_handle s h = Some r"
      using registry_lookup_Inr [of h kTensor "rt_registry s" r g] run by (auto simp: tensor_handle_def)
    then show thesis
      using run Inr g found core_invD(3) [OF assms]
      by (simp add: LookupTensor_def registryE_def tensor_view_def)
  qed
qed

section \<open>Computations of a result\<close>

text \<open>A computation that implements \<open>spec\<close>, the array it should produce (\<open>None\<close>: it must fail).\<close>

definition implements :: "'r runtime_scheme \<Rightarrow> array option \<Rightarrow>
    (fault + tensor_ref) \<times> 'r runtime_scheme \<Rightarrow> bool" where
  "implements s spec x \<longleftrightarrow> extends_runtime s (snd x) \<and>
     (\<forall>r. fst x = Inr r \<longrightarrow> public (rt_heap (snd x)) r \<and> spec = Some (array_of (rt_heap (snd x)) r)) \<and>
     (alloc_plan (rt_heap s) = [] \<longrightarrow> spec \<noteq> None \<longrightarrow> (\<exists>r. fst x = Inr r))"

lemma extends_runtime_refl: "heap_inv (rt_heap s) \<Longrightarrow> extends_runtime s s"
  unfolding extends_runtime_def by (intro exI [of _ "rt_heap s"]) (simp add: ext.frame_refl)

lemma implements_fails: "core_inv s \<Longrightarrow> implements s None (Inl f, s)"
  using extends_runtime_refl [OF core_invD(1)] by (simp add: implements_def)

text \<open>A computation on the heap, wherever it stops.\<close>

lemma heap_sound:
  assumes inv: "core_inv s" and y: "yields (rt_heap s) srcs d vs meta (res, h')"
    and srcs: "\<forall>p \<in> set srcs. public (rt_heap s) p" and clean: "clean_meta (rt_heap s) meta"
  shows "extends_runtime s (s\<lparr>rt_heap := h'\<rparr>)"
    "res = Inr r \<Longrightarrow> public h' r \<and> array_of h' r = (d, vs) \<and> valid_dims d"
proof -
  note safe = yields_safe [OF core_invD(1) [OF inv] y srcs clean]
  show "extends_runtime s (s\<lparr>rt_heap := h'\<rparr>)"
    using safe(1) yieldsD(2) [OF y] unfolding extends_runtime_def safe_def
    by (intro exI [of _ h']) simp
  show "public h' r \<and> array_of h' r = (d, vs) \<and> valid_dims d" if "res = Inr r"
  proof -
    have r: "r = length (tensors (rt_heap s))" and mk: "makes_tensor (rt_heap s) srcs d vs meta h'"
      using yieldsD(4,5) [OF y that] by blast+
    have a: "array_of h' r = (d, vs)" using mk r by (simp add: makes_tensorD(1,2) array_of_def)
    have "wf_heap h'" using yieldsD(1) [OF y] .
    moreover have "public h' r" using safe(2) that by simp
    ultimately show ?thesis
      using a layout_ok_valid [OF wf_heap_layout, of h' r] by (simp add: public_def array_of_def)
  qed
qed

lemma implements_heap:
  assumes inv: "core_inv s" and y: "yields (rt_heap s) srcs d vs meta (m (rt_heap s))"
    and srcs: "\<forall>p \<in> set srcs. public (rt_heap s) p" and clean: "clean_meta (rt_heap s) meta"
    and spec: "\<And>r h'. m (rt_heap s) = (Inr r, h') \<Longrightarrow> valid_dims d \<Longrightarrow> spec = Some (d, vs)"
    and ok: "alloc_plan (rt_heap s) = [] \<Longrightarrow> spec \<noteq> None \<Longrightarrow> succeeds m (rt_heap s)"
  shows "implements s spec (heapE m s)"
proof -
  obtain res h' where run: "m (rt_heap s) = (res, h')" by force
  note sound = heap_sound [OF inv y [unfolded run] srcs clean]
  have "public h' r \<and> spec = Some (array_of h' r)" if "res = Inr r" for r
    using sound(2) [OF that] spec run that by simp
  moreover have "\<exists>r. res = Inr r" if "alloc_plan (rt_heap s) = []" "spec \<noteq> None"
    using ok [OF that] run by (auto simp: succeeds_def)
  ultimately show ?thesis using run sound(1) by (simp add: implements_def heapE_def)
qed

lemma implements_lookup:
  assumes inv: "core_inv s"
    and none: "tensor_view s h = None \<Longrightarrow> spec = None"
    and some: "\<And>r. public (rt_heap s) r \<Longrightarrow> tensor_view s h = Some (array_of (rt_heap s) r) \<Longrightarrow>
      implements s spec (f r s)"
  shows "implements s spec (bindE (LookupTensor h) f s)"
  using inv
proof (cases rule: LookupTensor_cases [where h = h])
  case (missing m)
  then show ?thesis using none implements_fails [OF inv] by (simp add: bindE_Inl_run)
next
  case (found r)
  then show ?thesis using some by (simp add: bindE_Inr_run)
qed

lemma implements_tensor:
  "implements s spec (f (tensor_at (rt_heap s) r) s) \<Longrightarrow> implements s spec (bindE (tensorE r) f s)"
  by (simp add: tensorE_def heapE_def bindE_def)

lemma implements_backend:
  assumes "core_inv s" and "public (rt_heap s) r"
    and "implements s spec (f CpuBackend s)"
  shows "implements s spec (bindE (BackendFor (tensor_at (rt_heap s) r)) f s)"
  using assms(3) Dispatcher_layout_ok(1) [OF wf_heap_layout [OF core_invD(4) [OF assms(1)]
    publicD(1) [OF assms(2)]]]
  by (simp add: BackendFor_def)


definition binary_core :: "(backend \<Rightarrow> tensor_ref \<Rightarrow> tensor_ref \<Rightarrow> (heap, tensor_ref) run) \<Rightarrow>
    handle \<Rightarrow> handle \<Rightarrow> ('r, tensor_ref) rt" where
  "binary_core function left right =
     bindE (LookupTensor left) (\<lambda>l.
     bindE (LookupTensor right) (\<lambda>r.
     bindE (tensorE l) (\<lambda>left_object.
     bindE (tensorE r) (\<lambda>right_object.
     bindE (statusE (Dispatcher_ForTensors left_object right_object)) (\<lambda>backend.
     heapE (function backend l r))))))"

text \<open>The computations of the functions above, between the null check and the registration.\<close>

fun compute_core :: "core_op \<Rightarrow> ('r, tensor_ref) rt" where
  "compute_core (OpFromF32 data d) =
     bindE (statusE (ValidateShape (dims_pointer d) (length d))) (\<lambda>shape.
     bindE (checkE (numel shape = length data) (InvalidArgument
       ''tensor_from_f32: data length must equal validated shape element count'')) (\<lambda>_.
     bindE (checkE (\<not> (length data > 0 \<and> Some data = None))
       (InvalidArgument ''tensor_from_f32: input data pointer is null'')) (\<lambda>_.
     bindE (statusE (Dispatcher_For kCpu)) (\<lambda>backend.
     heapE (be_FromData backend shape (Some data))))))"
| "compute_core (OpFull d v) =
     bindE (statusE (ValidateShape (dims_pointer d) (length d))) (\<lambda>shape.
     bindE (statusE (Dispatcher_For kCpu)) (\<lambda>backend.
     heapE (be_Full backend shape v)))"
| "compute_core (OpToDevice h code index) =
     bindE (statusE (DeviceFromCode code)) (\<lambda>target.
     bindE (LookupTensor h) (\<lambda>r. heapE (Transfer r target index)))"
| "compute_core (OpReshape h d) =
     bindE (statusE (ValidateShape (dims_pointer d) (length d))) (\<lambda>shape.
     bindE (LookupTensor h) (\<lambda>r.
     bindE (tensorE r) (\<lambda>object.
     bindE (BackendFor object) (\<lambda>backend. heapE (be_Reshape backend r shape)))))"
| "compute_core (OpTranspose2D h) =
     bindE (LookupTensor h) (\<lambda>r.
     bindE (tensorE r) (\<lambda>object.
     bindE (BackendFor object) (\<lambda>backend. heapE (be_Transpose2D backend r))))"
| "compute_core (OpSum h) =
     bindE (LookupTensor h) (\<lambda>r.
     bindE (tensorE r) (\<lambda>object.
     bindE (BackendFor object) (\<lambda>backend. heapE (be_Sum backend r))))"
| "compute_core (OpAdd a b) = binary_core be_Add a b"
| "compute_core (OpMultiply a b) = binary_core be_Multiply a b"
| "compute_core (OpMatmul a b) = binary_core be_Matmul a b"


lemma run_core_compute:
  "\<exists>name message. \<forall>out s. run_core op out s =
     ts_function name (new_handle message (compute_core op)) out s"
  by (cases op) (auto simp: ts_tensor_from_f32_def ts_tensor_full_f32_def ts_tensor_to_device_def
      ts_tensor_reshape_def ts_tensor_transpose2d_def ts_tensor_sum_def ts_tensor_add_def
      ts_tensor_multiply_def ts_tensor_matmul_def RunBinaryOperation_def binary_core_def)

text \<open>Calls that must fail do.\<close>

lemma Add_fails:
  "wf_heap h \<Longrightarrow> l < length (tensors h) \<Longrightarrow> r < length (tensors h) \<Longrightarrow>
   CpuBackend_Add l r h = (Inr x, h') \<Longrightarrow> dims_of (tensor_at h l) = dims_of (tensor_at h r)"
  by (cases "dims_of (tensor_at h l) = dims_of (tensor_at h r)")
    (simp_all add: CpuBackend_Add_def bindE_Inr_run ensure_ref_ok SameShape_iff)

lemma Multiply_fails:
  "wf_heap h \<Longrightarrow> l < length (tensors h) \<Longrightarrow> r < length (tensors h) \<Longrightarrow>
   CpuBackend_Multiply l r h = (Inr x, h') \<Longrightarrow> dims_of (tensor_at h l) = dims_of (tensor_at h r)"
  by (cases "dims_of (tensor_at h l) = dims_of (tensor_at h r)")
    (simp_all add: CpuBackend_Multiply_def bindE_Inr_run ensure_ref_ok SameShape_iff)

lemma Matmul_fails:
  assumes "wf_heap h" "l < length (tensors h)" "r < length (tensors h)"
    "CpuBackend_Matmul l r h = (Inr x, h')"
  shows "length (dims_of (tensor_at h l)) = 2 \<and> length (dims_of (tensor_at h r)) = 2 \<and>
    dims_of (tensor_at h l) ! 1 = dims_of (tensor_at h r) ! 0"
  using assms
  by (auto simp: CpuBackend_Matmul_def bindE_Inr_run ensure_ref_ok split: if_splits)

lemma Reshape_fails:
  "wf_heap h \<Longrightarrow> r < length (tensors h) \<Longrightarrow> CpuBackend_Reshape r sh h = (Inr x, h') \<Longrightarrow>
   numel_of (tensor_at h r) = numel sh"
  by (cases "numel_of (tensor_at h r) = numel sh")
    (simp_all add: CpuBackend_Reshape_def bindE_Inr_run ensure_ref_ok)

lemma Transpose2D_fails:
  "wf_heap h \<Longrightarrow> r < length (tensors h) \<Longrightarrow> CpuBackend_Transpose2D r h = (Inr x, h') \<Longrightarrow>
   length (dims_of (tensor_at h r)) = 2"
  by (cases "length (dims_of (tensor_at h r)) = 2")
    (simp_all add: CpuBackend_Transpose2D_def bindE_Inr_run ensure_ref_ok)

text \<open>A detached copy with a node.\<close>

lemma Transfer_yields:
  assumes wf: "wf_heap h" and r: "r < length (tensors h)"
  shows "yields h [] (dims_of (tensor_at h r)) (logical_values h (tensor_at h r))
    (record_meta h kIdentity [r]) (Transfer r d i h)"
proof (cases "\<not> i < 0 \<and> d = kCpu \<and> i = 0")
  case False
  then show ?thesis
    using wf by (auto simp: Transfer_def yields_quiet_fault quiet.frame_refl)
next
  case True
  note lay = wf_heap_layout [OF wf r]
  obtain res h1 where run: "CloneDetached r h = (res, h1)" by force
  from run lay show ?thesis
  proof (cases rule: CloneDetached_cases)
    case (failed f)
    then show ?thesis using run True wf by (simp add: Transfer_def bindE_Inl_run yields_quiet_fault)
  next
    case made
    have "yields h [] (dims_of (tensor_at h r)) (logical_values h (tensor_at h r))
        (record_meta h kIdentity [r])
        (bindE (AttachNode (length (tensors h)) kIdentity [r]) (\<lambda>_. returnE (length (tensors h))) h1)"
      using made layout_ok_valid [OF lay] r layout_ok_numel [OF lay]
      by (intro yields_made [OF wf]) (simp_all add: one_parent_def)
    then show ?thesis
      using run True made by (simp add: Transfer_def bindE_Inr_run record_simps)
  qed
qed

lemma Transfer_succeeds:
  assumes "wf_heap h" "alloc_plan h = []" "r < length (tensors h)"
  shows "succeeds (Transfer r kCpu 0) h"
proof -
  obtain h1 where c: "CloneDetached r h = (Inr (length (tensors h)), h1)" "alloc_plan h1 = []"
    using CloneDetached_ok [OF assms(2) wf_heap_layout [OF assms(1,3)]] by blast
  obtain u h2 where "AttachNode (length (tensors h)) kIdentity [r] h1 = (Inr u, h2)" "alloc_plan h2 = []"
    using AttachNode_succeeds [OF c(2)] unfolding succeeds_def by blast
  then show ?thesis
    using c by (simp add: succeeds_def Transfer_def bindE_Inr_run record_simps returnE_run)
qed


lemma implements_validate:
  assumes inv: "core_inv s" and i64: "i64_array d"
    and bad: "\<not> valid_dims d \<Longrightarrow> spec = None"
    and good: "valid_dims d \<Longrightarrow> implements s spec (f (canonical_shape d) s)"
  shows "implements s spec (bindE (statusE (ValidateShape (dims_pointer d) (length d))) f s)"
proof (cases "ValidateShape (dims_pointer d) (length d)")
  case (Inl e)
  then have "\<not> valid_dims d" using ValidateShape_pointer by fastforce
  then show ?thesis
    using Inl bad implements_fails [OF inv] by (simp add: statusE_def bindE_def liftE_run)
next
  case (Inr info)
  then show ?thesis using good ValidateShape_pointer_Inr [OF Inr i64] by simp
qed

lemma implements_binary:
  assumes inv: "core_inv s"
    and none: "tensor_view s a = None \<or> tensor_view s b = None \<Longrightarrow> spec = None"
    and some: "\<And>l r. public (rt_heap s) l \<Longrightarrow> public (rt_heap s) r \<Longrightarrow>
      tensor_view s a = Some (array_of (rt_heap s) l) \<Longrightarrow>
      tensor_view s b = Some (array_of (rt_heap s) r) \<Longrightarrow>
      implements s spec (heapE (f CpuBackend l r) s)"
  shows "implements s spec (binary_core f a b s)"
  unfolding binary_core_def
proof (rule implements_lookup [OF inv])
  show "tensor_view s a = None \<Longrightarrow> spec = None" using none by blast
next
  fix l assume l: "public (rt_heap s) l" "tensor_view s a = Some (array_of (rt_heap s) l)"
  show "implements s spec (bindE (LookupTensor b) (\<lambda>r. bindE (tensorE l) (\<lambda>left_object.
      bindE (tensorE r) (\<lambda>right_object.
      bindE (statusE (Dispatcher_ForTensors left_object right_object)) (\<lambda>backend.
      heapE (f backend l r))))) s)"
  proof (rule implements_lookup [OF inv])
    show "tensor_view s b = None \<Longrightarrow> spec = None" using none by blast
  next
    fix r assume r: "public (rt_heap s) r" "tensor_view s b = Some (array_of (rt_heap s) r)"
    have "Dispatcher_ForTensors (tensor_at (rt_heap s) l) (tensor_at (rt_heap s) r) = Inr CpuBackend"
      using Dispatcher_layout_ok(2) [OF wf_heap_layout [OF core_invD(4) [OF inv] publicD(1) [OF l(1)]]
        wf_heap_layout [OF core_invD(4) [OF inv] publicD(1) [OF r(1)]]] .
    then show "implements s spec (bindE (tensorE l) (\<lambda>left_object. bindE (tensorE r)
        (\<lambda>right_object. bindE (statusE (Dispatcher_ForTensors left_object right_object)) (\<lambda>backend.
        heapE (f backend l r)))) s)"
      using some [OF l(1) r(1) l(2) r(2)] by (intro implements_tensor) simp
  qed
qed

lemma core_implements_create:
  assumes inv: "core_inv s" and "i64_array d"
  shows "implements s (array_op (OpFromF32 data d) A) (compute_core (OpFromF32 data d) s)"
    "implements s (array_op (OpFull d v) A) (compute_core (OpFull d v) s)"
proof -
  note wf = core_invD(4) [OF inv]
  show "implements s (array_op (OpFromF32 data d) A) (compute_core (OpFromF32 data d) s)"
    unfolding compute_core.simps
  proof (rule implements_validate [OF assms])
    assume valid: "valid_dims d"
    show "implements s (array_op (OpFromF32 data d) A)
        (bindE (checkE (numel (canonical_shape d) = length data) (InvalidArgument
          ''tensor_from_f32: data length must equal validated shape element count'')) (\<lambda>_.
         bindE (checkE (\<not> (length data > 0 \<and> Some data = None))
          (InvalidArgument ''tensor_from_f32: input data pointer is null'')) (\<lambda>_.
         bindE (statusE (Dispatcher_For kCpu)) (\<lambda>backend.
         heapE (be_FromData backend (canonical_shape d) (Some data))))) s)"
    proof (cases "length data = dims_prod d")
      case True
      have "implements s (array_op (OpFromF32 data d) A)
          (heapE (CpuBackend_FromData (canonical_shape d) (Some data)) s)"
        using True valid cpu.from_data_ok [of "rt_heap s" d data]
        by (intro implements_heap [where m = "CpuBackend_FromData (canonical_shape d) (Some data)", OF inv
        FromData_yields [OF wf valid True]])
          (simp_all add: clean_None)
      then show ?thesis using True by (simp add: Dispatcher_For_def)
    next
      case False
      then show ?thesis using implements_fails [OF inv] by simp
    qed
  qed simp
  show "implements s (array_op (OpFull d v) A) (compute_core (OpFull d v) s)"
    unfolding compute_core.simps
  proof (rule implements_validate [OF assms])
    assume valid: "valid_dims d"
    have "implements s (array_op (OpFull d v) A) (heapE (CpuBackend_Full (canonical_shape d) v) s)"
      using valid cpu.full_ok [of "rt_heap s" d v]
      by (intro implements_heap [where m = "CpuBackend_Full (canonical_shape d) v", OF inv
        Full_yields [OF wf valid]]) (simp_all add: clean_None)
    then show "implements s (array_op (OpFull d v) A) (bindE (statusE (Dispatcher_For kCpu)) (\<lambda>backend.
        heapE (be_Full backend (canonical_shape d) v)) s)"
      by (simp add: Dispatcher_For_def)
  qed simp
qed

lemma core_implements_unary:
  assumes inv: "core_inv s"
  shows "implements s (array_op (OpToDevice h code index) (tensor_view s))
      (compute_core (OpToDevice h code index) s)"
    "implements s (array_op (OpTranspose2D h) (tensor_view s)) (compute_core (OpTranspose2D h) s)"
    "implements s (array_op (OpSum h) (tensor_view s)) (compute_core (OpSum h) s)"
proof -
  note wf = core_invD(4) [OF inv]
  show "implements s (array_op (OpToDevice h code index) (tensor_view s))
      (compute_core (OpToDevice h code index) s)"
  proof (cases "DeviceFromCode code")
    case (Inl e)
    then have "code \<noteq> TS_DEVICE_CPU" by (auto simp: DeviceFromCode_def)
    then show ?thesis
      using Inl implements_fails [OF inv] by (simp add: statusE_def bindE_def liftE_run)
  next
    case (Inr target)
    have target: "target = kCpu \<longleftrightarrow> code = TS_DEVICE_CPU"
      using Inr by (auto simp: DeviceFromCode_def device_codes split: if_splits)
    have "implements s (array_op (OpToDevice h code index) (tensor_view s))
        (bindE (LookupTensor h) (\<lambda>r. heapE (Transfer r target index)) s)"
    proof (rule implements_lookup [OF inv])
      fix r assume r: "public (rt_heap s) r" "tensor_view s h = Some (array_of (rt_heap s) r)"
      then have r': "r < length (tensors (rt_heap s))" by (simp add: public_def)
      show "implements s (array_op (OpToDevice h code index) (tensor_view s))
          (heapE (Transfer r target index) s)"
      proof (rule implements_heap [where m = "Transfer r target index", OF inv
        Transfer_yields [OF wf r']])
        fix r2 h' assume "Transfer r target index (rt_heap s) = (Inr r2, h')"
        then show "array_op (OpToDevice h code index) (tensor_view s) =
            Some (dims_of (tensor_at (rt_heap s) r), logical_values (rt_heap s) (tensor_at (rt_heap s) r))"
          using r target by (auto simp: Transfer_def array_of_def split: if_splits)
      next
        assume "alloc_plan (rt_heap s) = []" "array_op (OpToDevice h code index) (tensor_view s) \<noteq> None"
        then show "succeeds (Transfer r target index) (rt_heap s)"
          using target Transfer_succeeds [OF wf _ r'] by (simp split: if_splits)
      qed (use clean_record r in simp_all)
    qed simp
    then show ?thesis using Inr by simp
  qed
  show "implements s (array_op (OpTranspose2D h) (tensor_view s)) (compute_core (OpTranspose2D h) s)"
    unfolding compute_core.simps
  proof (rule implements_lookup [OF inv])
    fix r assume r: "public (rt_heap s) r" "tensor_view s h = Some (array_of (rt_heap s) r)"
    then have r': "r < length (tensors (rt_heap s))" by (simp add: public_def)
    have "implements s (array_op (OpTranspose2D h) (tensor_view s))
        (heapE (CpuBackend_Transpose2D r) s)"
    proof (rule implements_heap [where m = "CpuBackend_Transpose2D r", OF inv
        Transpose2D_yields [OF wf r']])
      fix x h' assume "CpuBackend_Transpose2D r (rt_heap s) = (Inr x, h')"
      then have "length (dims_of (tensor_at (rt_heap s) r)) = 2" by (rule Transpose2D_fails [OF wf r'])
      then show "array_op (OpTranspose2D h) (tensor_view s) =
          Some (swap01 (dims_of (tensor_at (rt_heap s) r)), transpose_result (rt_heap s) r)"
        using r(2) by (auto simp: array_of_def transpose_result_def swap01_def length_Suc_conv
            numeral_2_eq_2)
    next
      assume "alloc_plan (rt_heap s) = []" "array_op (OpTranspose2D h) (tensor_view s) \<noteq> None"
      then show "succeeds (CpuBackend_Transpose2D r) (rt_heap s)"
        using r(2) cpu.transpose_ok [OF wf _ r'] by (simp add: array_of_def split: if_splits)
    qed (use clean_record r in simp_all)
    then show "implements s (array_op (OpTranspose2D h) (tensor_view s)) (bindE (tensorE r) (\<lambda>object.
        bindE (BackendFor object) (\<lambda>backend. heapE (be_Transpose2D backend r))) s)"
      by (intro implements_tensor implements_backend [OF inv r(1)]) simp
  qed simp
  show "implements s (array_op (OpSum h) (tensor_view s)) (compute_core (OpSum h) s)"
    unfolding compute_core.simps
  proof (rule implements_lookup [OF inv])
    fix r assume r: "public (rt_heap s) r" "tensor_view s h = Some (array_of (rt_heap s) r)"
    then have r': "r < length (tensors (rt_heap s))" by (simp add: public_def)
    have "implements s (array_op (OpSum h) (tensor_view s)) (heapE (CpuBackend_Sum r) s)"
    proof (rule implements_heap [where m = "CpuBackend_Sum r", OF inv
        Sum_yields [OF wf r']])
      show "alloc_plan (rt_heap s) = [] \<Longrightarrow> succeeds (CpuBackend_Sum r) (rt_heap s)"
        using cpu.sum_ok [OF wf _ r'] by simp
    qed (use clean_record r in \<open>simp_all add: array_of_def\<close>)
    then show "implements s (array_op (OpSum h) (tensor_view s)) (bindE (tensorE r) (\<lambda>object.
        bindE (BackendFor object) (\<lambda>backend. heapE (be_Sum backend r))) s)"
      by (intro implements_tensor implements_backend [OF inv r(1)]) simp
  qed simp
qed


lemma core_implements_reshape:
  assumes inv: "core_inv s" and "i64_array d"
  shows "implements s (array_op (OpReshape h d) (tensor_view s)) (compute_core (OpReshape h d) s)"
  unfolding compute_core.simps
proof (rule implements_validate [OF assms])
  assume valid: "valid_dims d"
  note wf = core_invD(4) [OF inv]
  show "implements s (array_op (OpReshape h d) (tensor_view s)) (bindE (LookupTensor h) (\<lambda>r.
      bindE (tensorE r) (\<lambda>object.
      bindE (BackendFor object) (\<lambda>backend. heapE (be_Reshape backend r (canonical_shape d))))) s)"
  proof (rule implements_lookup [OF inv])
    fix r assume r: "public (rt_heap s) r" "tensor_view s h = Some (array_of (rt_heap s) r)"
    then have r': "r < length (tensors (rt_heap s))" by (simp add: public_def)
    have num: "numel_of (tensor_at (rt_heap s) r) = dims_prod (dims_of (tensor_at (rt_heap s) r))"
      using layout_ok_numel [OF wf_heap_layout [OF wf r']] .
    have "implements s (array_op (OpReshape h d) (tensor_view s))
        (heapE (CpuBackend_Reshape r (canonical_shape d)) s)"
    proof (rule implements_heap [where m = "CpuBackend_Reshape r (canonical_shape d)", OF inv
        Reshape_yields [OF wf r' valid]])
      fix x h' assume "CpuBackend_Reshape r (canonical_shape d) (rt_heap s) = (Inr x, h')"
      then have "numel_of (tensor_at (rt_heap s) r) = numel (canonical_shape d)"
        by (rule Reshape_fails [OF wf r'])
      then show "array_op (OpReshape h d) (tensor_view s) =
          Some (d, logical_values (rt_heap s) (tensor_at (rt_heap s) r))"
        using r(2) num valid by (simp add: array_of_def)
    next
      assume "alloc_plan (rt_heap s) = []" "array_op (OpReshape h d) (tensor_view s) \<noteq> None"
      then show "succeeds (CpuBackend_Reshape r (canonical_shape d)) (rt_heap s)"
        using r(2) num cpu.reshape_ok [OF wf _ r' valid] by (simp add: array_of_def split: if_splits)
    qed (use clean_record r in simp_all)
    then show "implements s (array_op (OpReshape h d) (tensor_view s)) (bindE (tensorE r) (\<lambda>object.
        bindE (BackendFor object) (\<lambda>backend. heapE (be_Reshape backend r (canonical_shape d)))) s)"
      by (intro implements_tensor implements_backend [OF inv r(1)]) simp
  qed simp
qed (auto split: option.splits)

lemma core_implements_add:
  assumes inv: "core_inv s"
  shows "implements s (array_op (OpAdd a b) (tensor_view s)) (compute_core (OpAdd a b) s)"
  unfolding compute_core.simps
proof (rule implements_binary [OF inv])
  show "tensor_view s a = None \<or> tensor_view s b = None \<Longrightarrow> array_op (OpAdd a b) (tensor_view s) = None"
    by (auto simp: elementwise_def split: option.splits)
next
  fix l r assume p: "public (rt_heap s) l" "public (rt_heap s) r"
    and v: "tensor_view s a = Some (array_of (rt_heap s) l)"
      "tensor_view s b = Some (array_of (rt_heap s) r)"
  note wf = core_invD(4) [OF inv] and l = publicD(1) [OF p(1)] and r = publicD(1) [OF p(2)]
  show "implements s (array_op (OpAdd a b) (tensor_view s)) (heapE (be_Add CpuBackend l r) s)"
    unfolding CpuBackend_simps
  proof (rule implements_heap [where m = "CpuBackend_Add l r", OF inv Add_yields [OF wf l r]])
    fix x h' assume "CpuBackend_Add l r (rt_heap s) = (Inr x, h')"
    from Add_fails [OF wf l r this]
    show "array_op (OpAdd a b) (tensor_view s) = Some (dims_of (tensor_at (rt_heap s) l),
        map2 f32_add (logical_values (rt_heap s) (tensor_at (rt_heap s) l))
          (logical_values (rt_heap s) (tensor_at (rt_heap s) r)))"
      using v by (simp add: array_of_def elementwise_def)
  next
    assume "alloc_plan (rt_heap s) = []" "array_op (OpAdd a b) (tensor_view s) \<noteq> None"
    then show "succeeds (CpuBackend_Add l r) (rt_heap s)"
      using v cpu.add_ok [OF wf _ l r] by (simp add: array_of_def elementwise_def split: if_splits)
  qed (use clean_record p in simp_all)
qed

lemma core_implements_multiply:
  assumes inv: "core_inv s"
  shows "implements s (array_op (OpMultiply a b) (tensor_view s)) (compute_core (OpMultiply a b) s)"
  unfolding compute_core.simps
proof (rule implements_binary [OF inv])
  show "tensor_view s a = None \<or> tensor_view s b = None \<Longrightarrow>
      array_op (OpMultiply a b) (tensor_view s) = None"
    by (auto simp: elementwise_def split: option.splits)
next
  fix l r assume p: "public (rt_heap s) l" "public (rt_heap s) r"
    and v: "tensor_view s a = Some (array_of (rt_heap s) l)"
      "tensor_view s b = Some (array_of (rt_heap s) r)"
  note wf = core_invD(4) [OF inv] and l = publicD(1) [OF p(1)] and r = publicD(1) [OF p(2)]
  show "implements s (array_op (OpMultiply a b) (tensor_view s)) (heapE (be_Multiply CpuBackend l r) s)"
    unfolding CpuBackend_simps
  proof (rule implements_heap [where m = "CpuBackend_Multiply l r", OF inv Multiply_yields [OF wf l r]])
    fix x h' assume "CpuBackend_Multiply l r (rt_heap s) = (Inr x, h')"
    from Multiply_fails [OF wf l r this]
    show "array_op (OpMultiply a b) (tensor_view s) = Some (dims_of (tensor_at (rt_heap s) l),
        map2 f32_mul (logical_values (rt_heap s) (tensor_at (rt_heap s) l))
          (logical_values (rt_heap s) (tensor_at (rt_heap s) r)))"
      using v by (simp add: array_of_def elementwise_def)
  next
    assume "alloc_plan (rt_heap s) = []" "array_op (OpMultiply a b) (tensor_view s) \<noteq> None"
    then show "succeeds (CpuBackend_Multiply l r) (rt_heap s)"
      using v cpu.multiply_ok [OF wf _ l r] by (simp add: array_of_def elementwise_def split: if_splits)
  qed (use clean_record p in simp_all)
qed

lemma core_implements_matmul:
  assumes inv: "core_inv s"
  shows "implements s (array_op (OpMatmul a b) (tensor_view s)) (compute_core (OpMatmul a b) s)"
  unfolding compute_core.simps
proof (rule implements_binary [OF inv])
  show "tensor_view s a = None \<or> tensor_view s b = None \<Longrightarrow>
      array_op (OpMatmul a b) (tensor_view s) = None"
    by (auto split: option.splits)
next
  fix l r assume p: "public (rt_heap s) l" "public (rt_heap s) r"
    and v: "tensor_view s a = Some (array_of (rt_heap s) l)"
      "tensor_view s b = Some (array_of (rt_heap s) r)"
  note wf = core_invD(4) [OF inv] and l = publicD(1) [OF p(1)] and r = publicD(1) [OF p(2)]
  let ?ld = "dims_of (tensor_at (rt_heap s) l)" and ?rd = "dims_of (tensor_at (rt_heap s) r)"
  show "implements s (array_op (OpMatmul a b) (tensor_view s)) (heapE (be_Matmul CpuBackend l r) s)"
    unfolding CpuBackend_simps
  proof (rule implements_heap [where m = "CpuBackend_Matmul l r", OF inv Matmul_yields [OF wf l r]])
    fix x h' assume "CpuBackend_Matmul l r (rt_heap s) = (Inr x, h')" and valid: "valid_dims [?ld ! 0, ?rd ! 1]"
    from Matmul_fails [OF wf l r this(1)] valid
    show "array_op (OpMatmul a b) (tensor_view s) =
        Some ([?ld ! 0, ?rd ! 1], matmul_result (rt_heap s) l r)"
      using v by (simp add: array_of_def matmul_result_def)
  next
    assume plan: "alloc_plan (rt_heap s) = []" and some: "array_op (OpMatmul a b) (tensor_view s) \<noteq> None"
    then have d: "length ?ld = 2" "length ?rd = 2" "?ld ! 1 = ?rd ! 0" "valid_dims [?ld ! 0, ?rd ! 1]"
      using v by (simp_all add: array_of_def split: if_splits)
    have "?ld = [?ld ! 0, ?ld ! 1]" "?rd = [?ld ! 1, ?rd ! 1]"
      using d by (auto simp: length_Suc_conv numeral_2_eq_2)
    then show "succeeds (CpuBackend_Matmul l r) (rt_heap s)"
      using cpu.matmul_ok [OF wf plan l r, of "?ld ! 0" "?ld ! 1" "?rd ! 1"] d(4) by simp
  qed (use clean_record p in simp_all)
qed

lemma compute_core_implements:
  assumes "core_inv s" and "op_args_ok op"
  shows "implements s (array_op op (tensor_view s)) (compute_core op s)"
  using assms
  by (cases op) (simp_all only: op_args_ok.simps core_implements_create core_implements_unary
      core_implements_reshape core_implements_add core_implements_multiply core_implements_matmul)

section \<open>Registration and the boundary\<close>

lemma ts_function_run:
  "ts_function name body out s = (case body (out, s\<lparr>rt_last_error := []\<rparr>) of
     (r, (out', s')) \<Rightarrow> (fst (abi_result name r), out', s'\<lparr>rt_last_error := snd (abi_result name r)\<rparr>))"
  by (auto simp: ts_function_def abi_guard_def split: prod.splits)

lemma ts_plain_run:
  "ts_plain name body s = (case body (s\<lparr>rt_last_error := []\<rparr>) of
     (r, s') \<Rightarrow> (fst (abi_result name r), s'\<lparr>rt_last_error := snd (abi_result name r)\<rparr>))"
  by (auto simp: ts_plain_def abi_guard_def split: prod.splits)

lemma InsertTensor_run:
  "InsertTensor r (out, s) = (case registry_insert kTensor (Some r) (rt_registry s) of
     (Inl f, g) \<Rightarrow> (Inl f, (map_option (\<lambda>_. 0) out, s\<lparr>rt_registry := g\<rparr>))
   | (Inr h, g) \<Rightarrow> (Inr (), (map_option (\<lambda>_. h) out, s\<lparr>rt_registry := g\<rparr>)))"
  by (cases out) (auto simp: InsertTensor_def set_out_def runtimeE_def registryE_def bindE_def
      split: prod.splits sum.splits)

lemma new_handle_run:
  "new_handle message compute (out, s) = (case out of
     None \<Rightarrow> (Inl (Failed (InvalidArgument message)), (None, s))
   | Some _ \<Rightarrow> (case compute s of
       (Inl f, s') \<Rightarrow> (Inl f, (Some 0, s'))
     | (Inr r, s') \<Rightarrow> InsertTensor r (Some 0, s')))"
  by (auto simp: new_handle_def check_out_def set_out_def runtimeE_def bindE_def checkE_run
      split: option.splits prod.splits sum.splits)

text \<open>What a call that creates a tensor may do, relative to the array the machine computes.\<close>

definition handle_post :: "'r runtime_scheme \<Rightarrow> array option \<Rightarrow>
    int option \<times> handle option \<times> 'r runtime_scheme \<Rightarrow> bool" where
  "handle_post s spec x = (case x of (code, out', s') \<Rightarrow>
     core_inv s' \<and> heap_extends (rt_heap s) (rt_heap s') \<and>
     (if code = Some TS_OK
      then rt_last_error s' = [] \<and> (\<exists>h a. out' = Some h \<and> h \<noteq> 0 \<and> tensor_handle s h = None \<and>
             spec = Some a \<and> tensor_view s' = (tensor_view s)(h \<mapsto> a))
      else out' = Some 0 \<and> tensor_view s' = tensor_view s \<and> rt_registry s' = rt_registry s \<and>
           (code \<noteq> None \<longrightarrow> rt_last_error s' \<noteq> [])))"

lemma new_handle_post:
  assumes inv: "core_inv s"
    and imp: "implements (s\<lparr>rt_last_error := []\<rparr>) spec (compute (s\<lparr>rt_last_error := []\<rparr>))"
  shows "handle_post s spec (ts_function name (new_handle message compute) (Some v) s)"
proof -
  let ?s0 = "s\<lparr>rt_last_error := []\<rparr>"
  have inv0: "core_inv ?s0" using inv by simp
  obtain res s1 where run: "compute ?s0 = (res, s1)" by force
  have e: "extends_runtime ?s0 s1" using imp run by (simp add: implements_def)
  note ev' = extends_runtime_view [OF inv0 e]
  have ev: "core_inv s1" "tensor_view s1 = tensor_view s" "rt_registry s1 = rt_registry s"
    "tensor_handle s1 = tensor_handle s" using ev' by simp_all
  have ext: "heap_extends (rt_heap s) (rt_heap s1)" and no: "rt_last_error s1 = []"
    using e by (auto simp: extends_runtime_def)
  show ?thesis
  proof (cases res)
    case (Inl f)
    then have r: "ts_function name (new_handle message compute) (Some v) s =
        (fst (abi_result name (Inl f)), Some 0, s1\<lparr>rt_last_error := snd (abi_result name (Inl f))\<rparr>)"
      using run by (simp add: ts_function_run new_handle_run)
    have "fst (abi_result name (Inl f)) \<noteq> Some TS_OK" using abi_result_ok_iff by simp
    then show ?thesis
      using ev ext abi_result_message_iff [of name "Inl f"] unfolding r by (simp add: handle_post_def)
  next
    case (Inr r)
    obtain a where a: "spec = Some a" "public (rt_heap s1) r" "a = array_of (rt_heap s1) r"
      using imp run Inr by (auto simp: implements_def)
    note inv1 = core_invD(2) [OF ev(1)]
    obtain ri g where ins: "registry_insert kTensor (Some r) (rt_registry s1) = (ri, g)" by force
    show ?thesis
    proof (cases ri)
      case (Inl f)
      then have g: "g = rt_registry s1" using registry_insert_Inl_state [OF inv1] ins by blast
      then have r: "ts_function name (new_handle message compute) (Some v) s =
          (fst (abi_result name (Inl f)), Some 0, s1\<lparr>rt_last_error := snd (abi_result name (Inl f))\<rparr>)"
        using run Inr Inl ins by (simp add: ts_function_run new_handle_run InsertTensor_run)
      have "fst (abi_result name (Inl f)) \<noteq> Some TS_OK" using abi_result_ok_iff by simp
      then show ?thesis
        using ev ext abi_result_message_iff [of name "Inl f"] unfolding r by (simp add: handle_post_def)
    next
      case (Inr h)
      note ent = entry_of_insert [OF inv1 ins [unfolded Inr]]
      have eo: "entry_of g = (entry_of (rt_registry s1))
          (h \<mapsto> \<lparr>entry_type = kTensor, entry_refs = 1, entry_object = r\<rparr>)" using ent(5) by auto
      let ?s2 = "s1\<lparr>rt_registry := g, rt_last_error := []\<rparr>"
      have run2: "ts_function name (new_handle message compute) (Some v) s = (Some TS_OK, Some h, ?s2)"
        using run \<open>res = Inr r\<close> Inr ins by (simp add: ts_function_run new_handle_run InsertTensor_run)
      have th: "tensor_handle ?s2 = (tensor_handle s1)(h \<mapsto> r)"
        using eo by (simp add: tensor_handle_def fun_eq_iff)
      have "registry_inv g" using registry_inv_insert [OF inv1, of kTensor "Some r"] ins by simp
      then have "core_inv ?s2" using ev(1) th a(2) by (auto simp: core_inv_def)
      moreover have "tensor_view ?s2 = (tensor_view s)(h \<mapsto> a)"
        using th a(3) ev(2) by (auto simp: tensor_view_def fun_eq_iff)
      moreover have "h \<noteq> 0" using ent(1) inv1 by (simp add: registry_inv_def)
      moreover have "tensor_handle s h = None"
        using ent(4) ev(3) by (simp add: tensor_handle_def)
      ultimately show ?thesis using a(1) ext unfolding run2 by (simp add: handle_post_def)
    qed
  qed
qed


lemma run_core_post:
  assumes "core_inv s" and "op_args_ok op"
  shows "handle_post s (array_op op (tensor_view s)) (run_core op (Some v) s)"
proof -
  obtain name message where run: "\<And>out s. run_core op out s =
      ts_function name (new_handle message (compute_core op)) out (s :: 'a runtime_scheme)"
    using run_core_compute by meson
  have "implements (s\<lparr>rt_last_error := []\<rparr>) (array_op op (tensor_view s))
      (compute_core op (s\<lparr>rt_last_error := []\<rparr>))"
    using compute_core_implements [of "s\<lparr>rt_last_error := []\<rparr>" op] assms by simp
  then show ?thesis unfolding run by (rule new_handle_post [OF assms(1)])
qed

lemma new_handle_ok:
  assumes inv: "core_inv s" and spec: "spec \<noteq> None" and plan: "alloc_plan (rt_heap s) = []"
    and imp: "implements (s\<lparr>rt_last_error := []\<rparr>) spec (compute (s\<lparr>rt_last_error := []\<rparr>))"
    and room: "next_handle (rt_registry s) \<noteq> - 1"
  shows "fst (ts_function name (new_handle message compute) (Some v) s) = Some TS_OK"
proof -
  let ?s0 = "s\<lparr>rt_last_error := []\<rparr>"
  obtain r s1 where run: "compute ?s0 = (Inr r, s1)"
    using imp spec plan by (auto simp: implements_def prod_eq_iff)
  have e: "extends_runtime ?s0 s1" using imp run by (simp add: implements_def)
  have inv0: "core_inv ?s0" using inv by simp
  have reg: "rt_registry s1 = rt_registry s" using extends_runtime_view(3) [OF inv0 e] by simp
  obtain h g where "registry_insert kTensor (Some r) (rt_registry s) = (Inr h, g)"
    using registry_insert_run [OF core_invD(2) [OF inv], of kTensor "Some r"] room by simp
  then show ?thesis using run reg by (simp add: ts_function_run new_handle_run InsertTensor_run)
qed

section \<open>A concrete runtime\<close>

text \<open>The 2 x 3 and the 3 x 2 tensor of \<open>demo_heap\<close>, with the handles 1 and 2.\<close>

definition demo_runtime :: runtime where
  "demo_runtime = \<lparr>rt_heap = demo_heap,
     rt_registry = \<lparr>entries = [
         (1, \<lparr>entry_type = kTensor, entry_refs = 1, entry_object = 0\<rparr>),
         (2, \<lparr>entry_type = kTensor, entry_refs = 1, entry_object = 1\<rparr>)],
       next_handle = 3\<rparr>,
     rt_last_error = []\<rparr>"

lemma demo_heap_inv: "heap_inv demo_heap"
proof -
  have m: "t_meta (tensor_at demo_heap i) = None" if "i < 2" for i
    using that by (auto simp: less_2_cases_iff)
  then have g: "gradient_of demo_heap i = None" "parents_of demo_heap i = []" if "i < 2" for i
    using no_meta that by blast+
  have "one_counter demo_heap"
    by (auto simp: one_counter_def less_2_cases_iff)
  then show ?thesis
    using demo_heap_wf g by (simp add: heap_inv_def grads_owned_def)
qed

lemma demo_heap_public: "i < 2 \<Longrightarrow> public demo_heap i"
proof -
  assume "i < 2"
  moreover have "gradient_of demo_heap j = None" if "j < 2" for j
    using that no_meta [of demo_heap j] by (auto simp: less_2_cases_iff)
  ultimately show ?thesis by (simp add: public_def is_grad_def)
qed

lemma demo_runtime_heap [simp]: "rt_heap demo_runtime = demo_heap"
  by (simp add: demo_runtime_def)

lemma demo_handles: "tensor_handle demo_runtime h =
    (if h = 1 then Some 0 else if h = 2 then Some 1 else None)"
  by (simp add: tensor_handle_def demo_runtime_def)

lemma demo_core_inv: "core_inv demo_runtime"
  unfolding core_inv_def
proof (intro conjI allI impI)
  show "heap_inv (rt_heap demo_runtime)" using demo_heap_inv by simp
  show "registry_inv (rt_registry demo_runtime)" by (simp add: registry_inv_def demo_runtime_def)
  fix h r assume "tensor_handle demo_runtime h = Some r"
  then show "public (rt_heap demo_runtime) r"
    using demo_heap_public by (auto simp: demo_handles split: if_splits)
qed

lemma demo_view: "tensor_view demo_runtime 1 = Some ([2, 3], logical_values demo_heap (tensor_at demo_heap 0))"
    "tensor_view demo_runtime 2 = Some ([3, 2], logical_values demo_heap (tensor_at demo_heap 1))"
  by (simp_all add: tensor_view_def demo_handles array_of_def)

lemma copy_view:
  assumes inv: "core_inv s" and v: "tensor_view s h = Some (d, vs)"
    and cap: "length vs \<le> capacity" "capacity \<le> length buf"
  shows "ts_tensor_copy_to_host_f32 h capacity (Some (Some buf, n)) s =
    (Some TS_OK, Some (Some (vs @ drop (length vs) buf), length vs), s\<lparr>rt_last_error := []\<rparr>)"
proof -
  let ?s0 = "s\<lparr>rt_last_error := []\<rparr>"
  have inv0: "core_inv ?s0" using inv by simp
  from inv0 show ?thesis
  proof (cases rule: LookupTensor_cases [where h = h])
    case (missing m)
    then show ?thesis using v by simp
  next
    case (found r)
    have r: "r < length (tensors (rt_heap s))" using found(3) by (simp add: public_def)
    have a: "d = dims_of (tensor_at (rt_heap s) r)" "vs = logical_values (rt_heap s) (tensor_at (rt_heap s) r)"
      using found(4) v by (simp_all add: array_of_def)
    note lay = wf_heap_layout [OF core_invD(4) [OF inv] r]
    have "tensor_copy_to_host (rt_heap s) (tensor_at (rt_heap s) r) (Some buf) capacity =
        (Inr (), Some (vs @ drop (length vs) buf), length vs)"
      using tensor_copy_to_host_ok [OF lay, of capacity buf] cap a by simp
    moreover have "numel_of (tensor_at (rt_heap s) r) = length vs" using a by simp
    ultimately show ?thesis
      using found(1) cap
      by (simp add: ts_tensor_copy_to_host_f32_def ts_function_run check_out_def set_out_def runtimeE_def
          tensorE_def heapE_def bindE_def checkE_run statusE_run)
  qed
qed

section \<open>Properties\<close>

text \<open>C3: The exported functions that create tensors implement an abstract array machine.  Seen
  through the handles a client holds, a call that returns OK has registered one new, non-zero
  handle for exactly the array the machine computes from the arrays of the operands, every other
  handle showing what it showed before; a call that returns anything else has changed no handle and
  no array, has zeroed the output handle, and has left a message for every error code.\<close>

theorem core_api_refines_array_machine:
  assumes "core_inv s" and "op_args_ok op" and "run_core op (Some v) s = (code, out', s')"
  shows "core_inv s' \<and> heap_extends (rt_heap s) (rt_heap s') \<and>
    (if code = Some TS_OK
     then rt_last_error s' = [] \<and> (\<exists>h a. out' = Some h \<and> h \<noteq> 0 \<and> tensor_handle s h = None \<and>
       array_op op (tensor_view s) = Some a \<and> tensor_view s' = (tensor_view s)(h \<mapsto> a))
     else out' = Some 0 \<and> tensor_view s' = tensor_view s \<and> rt_registry s' = rt_registry s \<and>
       (code \<noteq> None \<longrightarrow> rt_last_error s' \<noteq> []))"
  using run_core_post [OF assms(1,2), of v] unfolding assms(3) handle_post_def prod.case .

theorem core_api_refines_array_machine_witness:
  "\<exists>code out' s'. run_core (OpMatmul 1 2) (Some 7) demo_runtime = (code, out', s') \<and> core_inv s' \<and>
    heap_extends demo_heap (rt_heap s')"
proof -
  obtain code out' s' where run: "run_core (OpMatmul 1 2) (Some 7) demo_runtime = (code, out', s')"
    by (metis prod.exhaust)
  have ok: "op_args_ok (OpMatmul 1 2)" by simp
  show ?thesis
    using core_api_refines_array_machine [OF demo_core_inv ok run] run by simp
qed

text \<open>C21: The functions that create tensors are complete for the abstract array machine: when the
  machine defines a result, no allocation fails and the space of handles is not exhausted, the call
  returns OK.\<close>

theorem core_api_complete:
  assumes "core_inv s" and "op_args_ok op" and "array_op op (tensor_view s) \<noteq> None"
    and "alloc_plan (rt_heap s) = []" and "next_handle (rt_registry s) \<noteq> - 1"
  shows "fst (run_core op (Some v) s) = Some TS_OK"
proof -
  obtain name message where run: "\<And>out s. run_core op out s =
      ts_function name (new_handle message (compute_core op)) out (s :: 'a runtime_scheme)"
    using run_core_compute by meson
  have "implements (s\<lparr>rt_last_error := []\<rparr>) (array_op op (tensor_view s))
      (compute_core op (s\<lparr>rt_last_error := []\<rparr>))"
    using compute_core_implements [of "s\<lparr>rt_last_error := []\<rparr>" op] assms by simp
  then show ?thesis unfolding run using assms by (intro new_handle_ok) auto
qed

theorem core_api_complete_witness:
  "fst (run_core (OpMatmul 1 2) (Some 7) demo_runtime) = Some TS_OK"
proof (rule core_api_complete [OF demo_core_inv])
  show "array_op (OpMatmul 1 2) (tensor_view demo_runtime) \<noteq> None"
    using demo_valid_dims(3) by (simp add: demo_view)
qed (simp_all add: demo_runtime_def)

text \<open>C22: Data survives the trip through a handle: the values given to \<open>ts_tensor_from_f32\<close> with
  valid dimensions are what \<open>ts_tensor_copy_to_host_f32\<close> writes to the front of a large enough
  buffer for the returned handle, together with their number.\<close>

theorem from_f32_copy_round_trip:
  assumes "core_inv s" and "valid_dims d" and "length data = dims_prod d"
    and "ts_tensor_from_f32 (Some data) (length data) (dims_pointer d) (length d) (Some v) s =
      (Some TS_OK, Some h, s')"
    and "length data \<le> capacity" and "capacity \<le> length buf"
  shows "ts_tensor_copy_to_host_f32 h capacity (Some (Some buf, n)) s' =
    (Some TS_OK, Some (Some (data @ drop (length data) buf), length data), s')"
proof -
  have "handle_post s (array_op (OpFromF32 data d) (tensor_view s))
      (run_core (OpFromF32 data d) (Some v) s)"
    using valid_dims_i64 [OF assms(2)] by (intro run_core_post [OF assms(1)]) simp
  then have post: "core_inv s'" "rt_last_error s' = []" "tensor_view s' h = Some (d, data)"
    using assms(2-4) by (auto simp: handle_post_def)
  then have "s'\<lparr>rt_last_error := []\<rparr> = s'" by simp
  then show ?thesis using copy_view [OF post(1,3) assms(5,6)] by simp
qed

theorem from_f32_copy_round_trip_witness:
  "\<exists>h s'. ts_tensor_from_f32 (Some [1, 2, 3, 4, 5, 6]) 6 (Some [6]) 1 (Some 9) demo_runtime =
      (Some TS_OK, Some h, s') \<and>
    ts_tensor_copy_to_host_f32 h 7 (Some (Some [0, 0, 0, 0, 0, 0, 8], 0)) s' =
      (Some TS_OK, Some (Some [1, 2, 3, 4, 5, 6, 8], 6), s')"
proof -
  let ?data = "[1, 2, 3, 4, 5, 6] :: f32 list"
  have v: "valid_dims [6]" by (rule demo_valid_dims)
  have d: "dims_pointer [6] = Some [6]" by (simp add: dims_pointer_def)
  have i64: "op_args_ok (OpFromF32 ?data [6])" using valid_dims_i64 [OF v] by simp
  have post: "handle_post demo_runtime (array_op (OpFromF32 ?data [6]) (tensor_view demo_runtime))
      (run_core (OpFromF32 ?data [6]) (Some 9) demo_runtime)"
    by (rule run_core_post [OF demo_core_inv i64])
  obtain name message where rc: "\<And>out s. run_core (OpFromF32 ?data [6]) out s =
      ts_function name (new_handle message (compute_core (OpFromF32 ?data [6]))) out (s :: runtime)"
    using run_core_compute by meson
  have "implements (demo_runtime\<lparr>rt_last_error := []\<rparr>) (array_op (OpFromF32 ?data [6]) (tensor_view demo_runtime))
      (compute_core (OpFromF32 ?data [6]) (demo_runtime\<lparr>rt_last_error := []\<rparr>))"
    using compute_core_implements [OF _ i64, of "demo_runtime\<lparr>rt_last_error := []\<rparr>"] demo_core_inv by simp
  then have "fst (run_core (OpFromF32 ?data [6]) (Some 9) demo_runtime) = Some TS_OK"
    unfolding rc using v by (intro new_handle_ok [OF demo_core_inv]) (auto simp: demo_runtime_def)
  then obtain h s' where run: "ts_tensor_from_f32 (Some ?data) (length ?data) (dims_pointer [6]) (length [6::int])
      (Some 9) demo_runtime = (Some TS_OK, Some h, s')"
    using post by (cases "run_core (OpFromF32 ?data [6]) (Some 9) demo_runtime")
      (auto simp: handle_post_def)
  have "ts_tensor_copy_to_host_f32 h 7 (Some (Some [0, 0, 0, 0, 0, 0, 8], 0)) s' =
      (Some TS_OK, Some (Some [1, 2, 3, 4, 5, 6, 8], 6), s')"
    using from_f32_copy_round_trip [OF demo_core_inv v _ run, of 7 "[0, 0, 0, 0, 0, 0, 8]" 0] by simp
  moreover have "length ?data = 6" "length [6::int] = 1" by simp_all
  ultimately show ?thesis using run unfolding d by (intro exI [of _ h] exI [of _ s']) presburger
qed

end
