(* ===== verification/Heap_Writes.thy ===== *)
theory Heap_Writes
  imports Training_Ops
begin

text \<open>
  In-place changes of the heap: the values of a storage, a version, the metadata of a public tensor.
  An \<open>update\<close> changes nothing else, and keeps the invariant of the heap.  On top of it: what the
  writing helpers of \<open>native/src/autograd/autograd.h\<close> do.
\<close>

section \<open>Updates\<close>

definition skeleton :: "tensor \<Rightarrow> tensor" where
  "skeleton t = t\<lparr>t_meta := None\<rparr>"

lemma skeleton_eqD:
  assumes "skeleton t' = skeleton t"
  shows "t_shape t' = t_shape t" "t_storage t' = t_storage t" "t_version_counter t' = t_version_counter t"
    "t_offset t' = t_offset t" "t_dtype t' = t_dtype t" "t_device t' = t_device t"
    "t_device_index t' = t_device_index t"
proof -
  have "t_shape (skeleton t') = t_shape (skeleton t)" "t_storage (skeleton t') = t_storage (skeleton t)"
    "t_version_counter (skeleton t') = t_version_counter (skeleton t)"
    "t_offset (skeleton t') = t_offset (skeleton t)" "t_dtype (skeleton t') = t_dtype (skeleton t)"
    "t_device (skeleton t') = t_device (skeleton t)"
    "t_device_index (skeleton t') = t_device_index (skeleton t)" using assms by simp_all
  then show "t_shape t' = t_shape t" "t_storage t' = t_storage t" "t_version_counter t' = t_version_counter t"
    "t_offset t' = t_offset t" "t_dtype t' = t_dtype t" "t_device t' = t_device t"
    "t_device_index t' = t_device_index t"
    by (simp_all add: skeleton_def)
qed

definition same_frame :: "heap \<Rightarrow> heap \<Rightarrow> bool" where
  "same_frame h h' \<longleftrightarrow> length (tensors h') = length (tensors h) \<and>
     (\<forall>i < length (tensors h). skeleton (tensor_at h' i) = skeleton (tensor_at h i)) \<and>
     length (counters h') = length (counters h) \<and> length (storages h') = length (storages h) \<and>
     (\<forall>s < length (storages h). \<forall>vs. storages h ! s = CpuStorage vs \<longrightarrow>
        (\<exists>vs'. storages h' ! s = CpuStorage vs' \<and> length vs' = length vs))"

text \<open>The metadata a public tensor may change to.\<close>

definition meta_step :: "heap \<Rightarrow> nat \<Rightarrow> autograd_meta \<Rightarrow> bool" where
  "meta_step h i m \<longleftrightarrow> public h i \<and> meta_grad_fn m = grad_fn_of h i \<and>
     (meta_gradient m = None \<or> meta_gradient m = gradient_of h i) \<and>
     (if meta_grad_fn m = None then meta_is_leaf m else meta_requires_grad m \<and> \<not> meta_is_leaf m)"

definition updates :: "heap \<Rightarrow> heap \<Rightarrow> bool" where
  "updates h h' \<longleftrightarrow> same_frame h h' \<and> (\<forall>i < length (tensors h).
     t_meta (tensor_at h' i) = t_meta (tensor_at h i) \<or>
     (\<exists>m. t_meta (tensor_at h' i) = Some m \<and> meta_step h i m))"

lemma same_frameD:
  assumes "same_frame h h'"
  shows "length (tensors h') = length (tensors h)" "length (counters h') = length (counters h)"
    "length (storages h') = length (storages h)"
    "i < length (tensors h) \<Longrightarrow> skeleton (tensor_at h' i) = skeleton (tensor_at h i)"
    "i < length (tensors h) \<Longrightarrow> dims_of (tensor_at h' i) = dims_of (tensor_at h i)"
proof -
  show "length (tensors h') = length (tensors h)" "length (counters h') = length (counters h)"
    "length (storages h') = length (storages h)"
    and sk: "i < length (tensors h) \<Longrightarrow> skeleton (tensor_at h' i) = skeleton (tensor_at h i)"
    using assms by (simp_all add: same_frame_def)
  show "i < length (tensors h) \<Longrightarrow> dims_of (tensor_at h' i) = dims_of (tensor_at h i)"
    using skeleton_eqD(1) [OF sk] by simp
qed

lemma same_frame_storage:
  assumes "same_frame h h'" and "s < length (storages h)" and "storages h ! s = CpuStorage vs"
  obtains vs' where "storages h' ! s = CpuStorage vs'" "length vs' = length vs"
  using assms unfolding same_frame_def by blast

lemma updatesD:
  assumes "updates h h'"
  shows "same_frame h h'" "i < length (tensors h) \<Longrightarrow> t_meta (tensor_at h' i) = t_meta (tensor_at h i) \<or>
     (\<exists>m. t_meta (tensor_at h' i) = Some m \<and> meta_step h i m)"
  using assms by (auto simp: updates_def)

lemma same_frame_layout:
  assumes f: "same_frame h h'" and i: "i < length (tensors h)" and lay: "layout_ok h (tensor_at h i)"
  shows "layout_ok h' (tensor_at h' i)"
proof -
  note sk = skeleton_eqD [OF same_frameD(4) [OF f i]]
  obtain vs where vs: "storages h ! t_storage (tensor_at h i) = CpuStorage vs" "length vs \<le> max_numel"
    "t_offset (tensor_at h i) + extent (dims_of (tensor_at h i)) (strides (t_shape (tensor_at h i)))
      (length (dims_of (tensor_at h i))) < length vs" and s: "t_storage (tensor_at h i) < length (storages h)"
    using lay by (auto simp: layout_ok_def)
  obtain vs' where "storages h' ! t_storage (tensor_at h i) = CpuStorage vs'" "length vs' = length vs"
    using same_frame_storage [OF f s vs(1)] .
  then show ?thesis
    using lay vs s same_frameD(2,3) [OF f] sk by (simp add: layout_ok_def)
qed

lemma updates_gradient:
  assumes u: "updates h h'" and i: "i < length (tensors h)"
  shows "grad_fn_of h' i = grad_fn_of h i" "parents_of h' i = parents_of h i"
    "gradient_of h' i = Some g \<Longrightarrow> gradient_of h i = Some g"
proof -
  have all: "grad_fn_of h' i = grad_fn_of h i \<and> (gradient_of h' i = Some g \<longrightarrow> gradient_of h i = Some g)"
    using updatesD(2) [OF u i] by (auto simp: grad_fn_of_def gradient_of_def meta_step_def split: option.splits)
  then show g: "grad_fn_of h' i = grad_fn_of h i" by blast
  then show "parents_of h' i = parents_of h i" by (simp add: parents_of_def)
  show "gradient_of h' i = Some g \<Longrightarrow> gradient_of h i = Some g" using all by blast
qed

lemma updates_grad_meta:
  assumes u: "updates h h'" and g: "g < length (tensors h)" "is_grad h g"
  shows "t_meta (tensor_at h' g) = t_meta (tensor_at h g)"
  using updatesD(2) [OF u g(1)] g(2) by (auto simp: meta_step_def public_def)

lemma updates_wf:
  assumes wf: "wf_heap h" and u: "updates h h'"
  shows "wf_heap h'"
  unfolding wf_heap_def
proof (intro allI impI conjI)
  fix i assume "i < length (tensors h')"
  note f = updatesD(1) [OF u]
  then have i: "i < length (tensors h)" using \<open>i < length (tensors h')\<close> same_frameD(1) by simp
  show "layout_ok h' (tensor_at h' i)" using same_frame_layout [OF f i wf_heap_layout [OF wf i]] .
  have ok: "meta_ok h i" using wf i by (simp add: wf_heap_def)
  have node: "node_ok h' i n" if "node_ok h i n" for n
  proof -
    have "map (\<lambda>p. dims_of (tensor_at h' p)) (node_parents n) = map (\<lambda>p. dims_of (tensor_at h p)) (node_parents n)"
      using that i same_frameD(5) [OF f] by (auto simp: node_ok_def)
    then show ?thesis using that same_frameD(5) [OF f i] unfolding node_ok_def by presburger
  qed
  have buf: "buffer_ok h' (dims_of (tensor_at h i)) g"
    if g: "gradient_of h i = Some g" for g
  proof -
    have b: "buffer_ok h (dims_of (tensor_at h i)) g" using wf_gradient_buffer [OF wf i g] .
    then have gl: "g < length (tensors h)" by (simp add: buffer_ok_def)
    have "is_grad h g" using g i by (auto simp: is_grad_def)
    then have gm: "t_meta (tensor_at h' g) = None"
      using updates_grad_meta [OF u gl] b by (simp add: buffer_ok_def)
    note lay = wf_heap_layout [OF wf gl]
    then obtain vs where vs: "storages h ! t_storage (tensor_at h g) = CpuStorage vs"
      "t_storage (tensor_at h g) < length (storages h)" by (auto simp: layout_ok_def)
    obtain vs' where "storages h' ! t_storage (tensor_at h g) = CpuStorage vs'" "length vs' = length vs"
      using same_frame_storage [OF f vs(2,1)] .
    then show ?thesis
      using b gm gl vs same_frameD(1) [OF f] skeleton_eqD [OF same_frameD(4) [OF f gl]]
      by (simp add: buffer_ok_def)
  qed
  have dims: "dims_of (tensor_at h' i) = dims_of (tensor_at h i)" using same_frameD(5) [OF f i] .
  consider "t_meta (tensor_at h' i) = t_meta (tensor_at h i)"
    | m where "t_meta (tensor_at h' i) = Some m" "meta_step h i m" using updatesD(2) [OF u i] by blast
  then show "meta_ok h' i"
  proof cases
    case 1
    then show ?thesis
      using ok node buf by (cases "t_meta (tensor_at h i)")
        (auto simp: meta_ok_def dims gradient_of_def split: option.splits)
  next
    case 2
    have "node_ok h i n" if "meta_grad_fn m = Some n" for n
      using wf_heap_node [OF wf i] that 2(2) by (simp add: meta_step_def)
    moreover have "buffer_ok h' (dims_of (tensor_at h i)) g" if "meta_gradient m = Some g" for g
      using buf that 2(2) by (auto simp: meta_step_def)
    ultimately show ?thesis
      using 2 node by (auto simp: meta_ok_def meta_step_def dims split: option.splits if_splits)
  qed
qed

lemma updates_inv:
  assumes inv: "heap_inv h" and u: "updates h h'"
  shows "heap_inv h'" "public h p \<Longrightarrow> public h' p"
proof -
  note wf = heap_invD(1) [OF inv] and go = heap_invD(2) [OF inv] and oc = heap_invD(3) [OF inv]
  note f = updatesD(1) [OF u] and len = same_frameD(1) [OF updatesD(1) [OF u]]
  have sk: "t_storage (tensor_at h' i) = t_storage (tensor_at h i)"
    "t_version_counter (tensor_at h' i) = t_version_counter (tensor_at h i)" if "i < length (tensors h)" for i
    using skeleton_eqD [OF same_frameD(4) [OF f that]] by simp_all
  have ig: "is_grad h g" if "is_grad h' g" for g
    using that updates_gradient(3) [OF u] len unfolding is_grad_def by auto
  have own: "owned h' g" if "owned h g" for g
    using that sk len by (auto simp: owned_def)
  have "grads_owned h'"
  proof (rule grads_ownedI)
    fix i g assume i: "i < length (tensors h')" and g: "gradient_of h' i = Some g"
    then have i': "i < length (tensors h)" "gradient_of h i = Some g"
      using len updates_gradient(3) [OF u] by simp_all
    show "owned h' g" using own grads_ownedD(1) [OF go i'] .
    fix j assume "j < length (tensors h')" "gradient_of h' j = Some g"
    then show "j = i" using grads_ownedD(2) [OF go i'] len updates_gradient(3) [OF u] by simp
  next
    fix i p assume i: "i < length (tensors h')" and p: "p \<in> set (parents_of h' i)"
    then have "\<not> is_grad h p" using grads_ownedD(3) [OF go, of i] len updates_gradient(2) [OF u] by simp
    then show "\<not> is_grad h' p" using ig by blast
  qed
  moreover have "one_counter h'"
    unfolding one_counter_def
  proof (intro allI impI)
    fix i j assume "i < length (tensors h')" "j < length (tensors h')"
      and eq: "t_storage (tensor_at h' i) = t_storage (tensor_at h' j)"
    then have ij: "i < length (tensors h)" "j < length (tensors h)" using len by simp_all
    show "t_version_counter (tensor_at h' i) = t_version_counter (tensor_at h' j)"
      using one_counterD [OF oc ij] eq sk [OF ij(1)] sk [OF ij(2)] by simp
  qed
  ultimately show "heap_inv h'" using updates_wf [OF wf u] by (simp add: heap_inv_def)
  show "public h p \<Longrightarrow> public h' p" using ig len by (auto simp: public_def)
qed

lemma updates_safe: "heap_inv h \<Longrightarrow> updates h h' \<Longrightarrow> safe h (r, h')"
  using updates_inv by (simp add: safe_def)

section \<open>The writing helpers\<close>

lemma updates_write:
  assumes "s < length (storages h)" and "storages h ! s = CpuStorage old" and "length vs = length old"
  shows "updates h (h\<lparr>storages := (storages h)[s := CpuStorage vs]\<rparr>)"
  using assms by (auto simp: updates_def same_frame_def nth_list_update)

lemma updates_version: "updates h (snd (increment_version r h))"
  by (auto simp: updates_def same_frame_def increment_version_def Let_def)

lemma updates_meta:
  assumes "meta_step h r m"
  shows "updates h (snd (set_autograd_meta r m h))"
proof -
  have "r < length (tensors h)" using assms by (simp add: meta_step_def public_def)
  then show ?thesis
    using assms by (auto simp: updates_def same_frame_def set_autograd_meta_def skeleton_def nth_list_update)
qed

lemma updates_refl: "updates h h"
  by (auto simp: updates_def same_frame_def)

lemma public_meta_ok:
  assumes "wf_heap h" and "r < length (tensors h)" and "t_meta (tensor_at h r) = Some m"
  shows "if meta_grad_fn m = None then meta_is_leaf m else meta_requires_grad m \<and> \<not> meta_is_leaf m"
proof -
  have "meta_ok h r" using assms(1,2) by (simp add: wf_heap_def)
  then show ?thesis using assms(3) by (auto simp: meta_ok_def split: option.splits)
qed

lemma updates_ClearGradient:
  assumes inv: "heap_inv h" and r: "public h r"
  shows "updates h (snd (ClearGradient r h))"
proof (cases "t_meta (tensor_at h r)")
  case None
  then show ?thesis by (simp add: ClearGradient_def returnE_run updates_refl)
next
  case (Some m)
  have "meta_step h r (m\<lparr>meta_gradient := None\<rparr>)"
    using public_meta_ok [OF heap_invD(1) [OF inv] publicD(1) [OF r] Some] r Some
    by (simp add: meta_step_def grad_fn_of_def)
  from updates_meta [OF this] show ?thesis using Some by (simp add: ClearGradient_def)
qed

lemma ClearGradient_run:
  "ClearGradient r h = (Inr (), h\<lparr>tensors := (tensors h)[r := (tensor_at h r)\<lparr>t_meta :=
     map_option (\<lambda>m. m\<lparr>meta_gradient := None\<rparr>) (t_meta (tensor_at h r))\<rparr>]\<rparr>)"
proof (cases "t_meta (tensor_at h r)")
  case None
  then have same: "(tensor_at h r)\<lparr>t_meta := None\<rparr> = tensor_at h r" by (cases "tensor_at h r") simp
  have "h\<lparr>tensors := (tensors h)[r := (tensor_at h r)\<lparr>t_meta := None\<rparr>]\<rparr> = h" unfolding same by simp
  then show ?thesis using None by (simp add: ClearGradient_def returnE_run)
qed (simp add: ClearGradient_def set_autograd_meta_def)

lemma ClearGradient_safe: "heap_inv h \<Longrightarrow> public h r \<Longrightarrow> safe h (ClearGradient r h)"
  using updates_safe [OF _ updates_ClearGradient, of h r "fst (ClearGradient r h)"]
  by simp

lemma increment_version_safe: "heap_inv h \<Longrightarrow> safe h (increment_version r h)"
  using updates_safe [OF _ updates_version, of h "fst (increment_version r h)" r] by simp

section \<open>What every computation leaves in place\<close>

text \<open>
  No computation changes the layout of an existing tensor or the length of an existing storage.
\<close>

definition persists :: "heap \<Rightarrow> heap \<Rightarrow> bool" where
  "persists h h' \<longleftrightarrow> length (tensors h) \<le> length (tensors h') \<and>
     (\<forall>i < length (tensors h). skeleton (tensor_at h' i) = skeleton (tensor_at h i)) \<and>
     length (storages h) \<le> length (storages h') \<and>
     (\<forall>s < length (storages h). \<forall>vs. storages h ! s = CpuStorage vs \<longrightarrow>
        (\<exists>vs'. storages h' ! s = CpuStorage vs' \<and> length vs' = length vs))"

lemma persistsD:
  assumes "persists h h'"
  shows "length (tensors h) \<le> length (tensors h')" "length (storages h) \<le> length (storages h')"
    "i < length (tensors h) \<Longrightarrow> skeleton (tensor_at h' i) = skeleton (tensor_at h i)"
  using assms by (simp_all add: persists_def)

lemma persists_storage:
  assumes "persists h h'" and "s < length (storages h)" and "storages h ! s = CpuStorage vs"
  obtains vs' where "storages h' ! s = CpuStorage vs'" "length vs' = length vs"
  using assms unfolding persists_def by blast

interpretation pers: frame_relation persists
proof
  fix h h1 h2 :: heap
  show "persists h h" by (simp add: persists_def)
  assume a: "persists h h1" and b: "persists h1 h2"
  note la = persistsD [OF a] and lb = persistsD [OF b]
  have "\<exists>vs'. storages h2 ! s = CpuStorage vs' \<and> length vs' = length vs"
    if s: "s < length (storages h)" "storages h ! s = CpuStorage vs" for s vs
  proof -
    obtain v1 where v1: "storages h1 ! s = CpuStorage v1" "length v1 = length vs"
      using persists_storage [OF a s] .
    have "s < length (storages h1)" using la(2) s(1) by simp
    then obtain v2 where "storages h2 ! s = CpuStorage v2" "length v2 = length v1"
      using persists_storage [OF b _ v1(1)] by blast
    then show ?thesis using v1(2) by simp
  qed
  moreover have "skeleton (tensor_at h2 i) = skeleton (tensor_at h i)" if "i < length (tensors h)" for i
    using la(1) la(3) [OF that] lb(3) [of i] that by simp
  ultimately show "persists h h2"
    using la(1,2) lb(1,2) unfolding persists_def by (meson order_trans)
qed

lemma persists_extends: "heap_extends h h' \<Longrightarrow> persists h h'"
  using heap_extends_lengths [of h h'] heap_extends_nth [of h h'] by (simp add: persists_def)

lemma persists_updates: "updates h h' \<Longrightarrow> persists h h'"
  by (simp add: updates_def same_frame_def persists_def)

lemma persists_keeps: "keeps heap_extends m \<Longrightarrow> keeps persists m"
  by (simp add: keeps_def persists_extends)

lemma persists_quiet: "keeps quietly m \<Longrightarrow> keeps persists m"
  by (simp add: keeps_def persists_extends quietly_def)

lemma persists_set_meta: "keeps persists (set_autograd_meta r m)"
  by (auto simp: keeps_def persists_def set_autograd_meta_def skeleton_def update_nth)

lemma persists_version: "keeps persists (increment_version r)"
  using persists_updates [OF updates_version] by (simp add: keeps_def)

lemma persists_ClearGradient: "keeps persists (ClearGradient r)"
  unfolding ClearGradient_def
  by (intro pers.keeps_bind pers.keeps_get) (auto intro: pers.keeps_return persists_set_meta split: option.splits)

lemma persists_direct_storage: "keeps persists (direct_storage m e r op)"
  using reads_direct_storage [of m e r op] by (simp add: keeps_def pers.frame_refl)

lemma persists_new_cpu: "keeps persists (allocation_guard op (new_cpu_tensor sh st))"
  by (intro keeps_allocation_guard persists_keeps keeps_new_cpu_tensor)

lemma persists_request: "keeps persists request_alloc"
  by (intro persists_keeps keeps_request_alloc)

lemma persists_if: "keeps persists a \<Longrightarrow> keeps persists b \<Longrightarrow> keeps persists (if c then a else b)"
  by simp

lemmas persists_basic = pers.keeps_all persists_if persists_set_meta persists_version persists_ClearGradient
  persists_direct_storage persists_new_cpu persists_request persists_quiet [OF quiet_read_values]
  persists_quiet [OF quiet_ReadLogicalCpuValues] persists_quiet [OF quiet_FromData]
  persists_quiet [OF quiet_Filled] persists_quiet [OF quiet_reads_only [OF reads_CpuValues]]
  keeps_allocation_guard

lemma persists_MakeCpuTensor: "keeps persists (MakeCpuTensor sh vs)"
  unfolding MakeCpuTensor_def by (auto intro!: persists_basic split: sum.splits)

lemma persists_MakeCpuFull: "keeps persists (MakeCpuFull sh x)"
  unfolding MakeCpuFull_def by (intro persists_basic)

lemma persists_CloneDetached: "keeps persists (CloneDetached r)"
  unfolding CloneDetached_def by (intro persists_basic persists_MakeCpuTensor)

text \<open>Differentiation.\<close>

lemma persists_AddInPlace: "keeps persists (AddInPlace d s)"
proof -
  have w: "persists h (h\<lparr>storages := (storages h)[i := CpuStorage (add_values (cpu_values (storages h ! i)) ys
      (length (cpu_values (storages h ! i))))]\<rparr>)" for h :: heap and i ys
    by (auto simp: persists_def update_nth)
  have finish: "keeps persists (bindE (getE (\<lambda>h. cpu_values (storages h ! i))) (\<lambda>vs.
      write_values i (add_values vs ys (length vs))))" for i ys
    using w by (simp add: keeps_def write_values_def)
  have body: "keeps persists (bindE (MutableCpuValues d op) (\<lambda>storage.
      bindE (ReadLogicalCpuValues s op) (\<lambda>source_values.
      bindE (getE (\<lambda>h. cpu_values (storages h ! storage))) (\<lambda>destination_values.
      write_values storage (add_values destination_values source_values (length destination_values))))))"
    for op
    unfolding MutableCpuValues_def
    by (rule pers.keeps_bind [OF persists_direct_storage],
        rule pers.keeps_bind [OF persists_quiet [OF quiet_ReadLogicalCpuValues]], rule finish)
  show ?thesis
    unfolding AddInPlace_def
    by (intro pers.keeps_bind pers.keeps_get pers.keeps_check body)
qed

lemma persists_Accumulate: "keeps persists (Accumulate d c)"
  unfolding Accumulate_def CopyGradient_def
  by (cases d) (auto intro!: persists_basic persists_CloneDetached persists_AddInPlace)

lemma persists_AccumulateLeaf: "keeps persists (AccumulateLeaf r g)"
  unfolding AccumulateLeaf_def
  by (intro persists_basic persists_Accumulate)
    (auto intro!: persists_basic persists_Accumulate split: option.splits)

lemma persists_emit: "keeps persists (emit p c)"
  unfolding emit_def by (intro persists_basic)

lemma persists_contribute: "keeps persists (contribute p vs)"
  unfolding contribute_def by (auto intro!: persists_basic persists_MakeCpuTensor persists_emit)

lemma persists_first_parent: "keeps persists (first_parent n)"
  unfolding first_parent_def by (auto intro!: persists_basic split: list.splits)

lemmas persists_apply = persists_basic persists_MakeCpuTensor persists_MakeCpuFull
  persists_CloneDetached persists_emit persists_contribute persists_first_parent

lemma persists_unary:
  "keeps persists (apply_identity n u)" "keeps persists (apply_reshape n u)"
  "keeps persists (apply_transpose n u)" "keeps persists (apply_add n u)"
  "keeps persists (apply_sum n g)" "keeps persists (apply_activation L n g)"
  unfolding apply_identity_def apply_reshape_def apply_transpose_def apply_add_def apply_sum_def
    apply_activation_def CopyGradient_def CloneWithShape_def TransposeGradient_def
  by (auto intro!: persists_apply)

lemma persists_swiglu: "keeps persists (apply_swiglu L n g)"
  unfolding apply_swiglu_def case_prod_unfold by (intro persists_apply)

lemma persists_binary:
  "keeps persists (apply_multiply n g)" "keeps persists (apply_matmul n u g)"
  "keeps persists (apply_mse n g)" "keeps persists (apply_cross_entropy L n g)"
  "keeps persists (apply_bias_add n u g)"
  unfolding apply_multiply_def apply_matmul_def apply_mse_def apply_cross_entropy_def
    apply_bias_add_def CopyGradient_def case_prod_unfold
  by (intro persists_apply)+

lemma persists_ValidateSavedVersions: "keeps persists (ValidateSavedVersions n)"
  unfolding ValidateSavedVersions_def by (auto intro!: persists_basic split: prod.splits)

lemma persists_ApplyNode: "keeps persists (ApplyNode L n u)"
  unfolding ApplyNode_def apply_operation_def
  by (intro persists_basic persists_ValidateSavedVersions)
    (auto intro!: persists_unary persists_swiglu persists_binary split: operation.splits)

lemma persists_backward_step: "keeps persists (backward_step L r gs)"
  unfolding backward_step_def accumulate_contributions_def
  by (auto intro!: persists_basic persists_ApplyNode persists_AccumulateLeaf persists_Accumulate
      split: option.splits prod.splits)

lemma persists_Backward: "keeps persists (Backward L root)"
  unfolding Backward_def validate_topology_def
  by (auto intro!: persists_basic persists_backward_step persists_MakeCpuFull
      persists_ValidateSavedVersions split: option.splits prod.splits)

end
