(* ===== verification/Training_Invariant.thy ===== *)
theory Training_Invariant
  imports Training_Api Core_Api_Spec Heap_Writes
begin

text \<open>
  The invariant of the whole library with training: the invariant of the core, and that every handle
  refers to an object of its type, every module owns a weight and, if it has one, a bias of the right
  dimensions that can be written directly, and every optimizer has moment vectors of exactly the
  sizes of its parameters.  \<open>evolves\<close> is what every call leaves in place: objects are never removed, and
  the dimensions and parameters of a module never change.
\<close>

section \<open>The invariant\<close>

definition parameter_ok :: "heap \<Rightarrow> tensor_ref \<Rightarrow> int list \<Rightarrow> bool" where
  "parameter_ok h r d \<longleftrightarrow> public h r \<and> dims_of (tensor_at h r) = d \<and> direct h r"

definition module_ok :: "heap \<Rightarrow> linear_state \<Rightarrow> bool" where
  "module_ok h m \<longleftrightarrow> parameter_ok h (ls_weight m) [in_features m, out_features m] \<and>
     (case ls_bias m of
        None \<Rightarrow> \<not> use_bias m
      | Some b \<Rightarrow> use_bias m \<and> parameter_ok h b [out_features m] \<and>
          t_storage (tensor_at h b) \<noteq> t_storage (tensor_at h (ls_weight m)))"

definition sizes_of :: "heap \<Rightarrow> tensor_ref list \<Rightarrow> nat list" where
  "sizes_of h ps = map (\<lambda>p. numel_of (tensor_at h p)) ps"

definition moments_ok :: "nat list \<Rightarrow> bool \<Rightarrow> 'm optimizer_core_scheme \<Rightarrow> bool" where
  "moments_ok sizes two c \<longleftrightarrow> map length (oc_first_moment c) = sizes \<and>
     (two \<longrightarrow> map length (oc_second_moment c) = sizes)"

definition optimizer_ok :: "heap \<Rightarrow> linear_state list \<Rightarrow> optimizer_state \<Rightarrow> bool" where
  "optimizer_ok h ms k \<longleftrightarrow> os_module k < length ms \<and>
     moments_ok (sizes_of h (Parameters (ms ! os_module k))) (oc_kind k \<noteq> kSgd) k"

definition parameter_optimizer_ok :: "heap \<Rightarrow> parameter_optimizer \<Rightarrow> bool" where
  "parameter_optimizer_ok h k \<longleftrightarrow> (\<forall>p \<in> set (po_parameters k). public h p \<and> direct h p) \<and>
     moments_ok (sizes_of h (po_parameters k)) True k"

definition object_ok :: "'r training_runtime_scheme \<Rightarrow> handle_type \<Rightarrow> nat \<Rightarrow> bool" where
  "object_ok s ty i = (case ty of
       kTensor \<Rightarrow> public (rt_heap s) i
     | kModule \<Rightarrow> i < length (rt_modules s)
     | kOptimizer \<Rightarrow> i < length (rt_optimizers s)
     | kParameterOptimizer \<Rightarrow> i < length (rt_parameter_optimizers s)
     | _ \<Rightarrow> False)"

definition objects_ok :: "'r training_runtime_scheme \<Rightarrow> bool" where
  "objects_ok s \<longleftrightarrow> (\<forall>m \<in> set (rt_modules s). module_ok (rt_heap s) m) \<and>
     (\<forall>k \<in> set (rt_optimizers s). optimizer_ok (rt_heap s) (rt_modules s) k) \<and>
     (\<forall>k \<in> set (rt_parameter_optimizers s). parameter_optimizer_ok (rt_heap s) k)"

definition train_inv :: "'r training_runtime_scheme \<Rightarrow> bool" where
  "train_inv s \<longleftrightarrow> heap_inv (rt_heap s) \<and> registry_inv (rt_registry s) \<and>
     (\<forall>h e. entry_of (rt_registry s) h = Some e \<longrightarrow> object_ok s (entry_type e) (entry_object e)) \<and>
     objects_ok s"

text \<open>The constant part of a module.\<close>

definition module_core :: "linear_state \<Rightarrow> linear_state" where
  "module_core m = m\<lparr>ls_training := True\<rparr>"

definition evolves :: "'r training_runtime_scheme \<Rightarrow> 'r training_runtime_scheme \<Rightarrow> bool" where
  "evolves s s' \<longleftrightarrow> persists (rt_heap s) (rt_heap s') \<and>
     (\<forall>p. public (rt_heap s) p \<longrightarrow> public (rt_heap s') p) \<and>
     prefix (map module_core (rt_modules s)) (map module_core (rt_modules s')) \<and>
     prefix (map os_module (rt_optimizers s)) (map os_module (rt_optimizers s')) \<and>
     prefix (map po_parameters (rt_parameter_optimizers s)) (map po_parameters (rt_parameter_optimizers s'))"

lemma train_invD:
  assumes "train_inv s"
  shows "heap_inv (rt_heap s)" "registry_inv (rt_registry s)" "wf_heap (rt_heap s)"
    "entry_of (rt_registry s) h = Some e \<Longrightarrow> object_ok s (entry_type e) (entry_object e)" "objects_ok s"
  using assms heap_invD(1) by (auto simp: train_inv_def)

lemma objects_okD:
  assumes "objects_ok s"
  shows "i < length (rt_modules s) \<Longrightarrow> module_ok (rt_heap s) (rt_modules s ! i)"
    "k < length (rt_optimizers s) \<Longrightarrow> optimizer_ok (rt_heap s) (rt_modules s) (rt_optimizers s ! k)"
    "j < length (rt_parameter_optimizers s) \<Longrightarrow>
      parameter_optimizer_ok (rt_heap s) (rt_parameter_optimizers s ! j)"
  using assms by (auto simp: objects_ok_def)

lemma train_core_inv:
  assumes inv: "train_inv s"
  shows "core_inv s"
proof -
  have "public (rt_heap s) r" if r: "tensor_handle s h = Some r" for h r
  proof -
    obtain e where e: "entry_of (rt_registry s) h = Some e" "entry_type e = kTensor" "entry_object e = r"
      using r by (auto simp: tensor_handle_def split: option.splits if_splits)
    then show ?thesis using train_invD(4) [OF inv e(1)] by (simp add: object_ok_def)
  qed
  then show ?thesis using train_invD(1,2) [OF inv] by (simp add: core_inv_def)
qed

lemma train_inv_error [simp]: "train_inv (s\<lparr>rt_last_error := m\<rparr>) = train_inv s"
  by (simp add: train_inv_def object_ok_def objects_ok_def cong: handle_type.case_cong)

lemma evolves_error [simp]:
  "evolves (s\<lparr>rt_last_error := m\<rparr>) s' = evolves s s'" "evolves s (s'\<lparr>rt_last_error := m\<rparr>) = evolves s s'"
  by (simp_all add: evolves_def)

lemma evolves_refl: "evolves s s"
  by (simp add: evolves_def pers.frame_refl)

lemma evolves_trans: "evolves s t \<Longrightarrow> evolves t u \<Longrightarrow> evolves s u"
  unfolding evolves_def by (meson pers.frame_trans prefix_order.trans)

lemma prefix_map_nth:
  assumes "prefix (map f xs) (map g ys)" and "i < length xs"
  shows "i < length ys" "g (ys ! i) = f (xs ! i)"
proof -
  have le: "length xs \<le> length ys" using prefix_length_le [OF assms(1)] by simp
  then show "i < length ys" using assms(2) by simp
  then show "g (ys ! i) = f (xs ! i)"
    using prefix_nth [OF assms(1), of i] assms(2) le by simp
qed

lemma evolvesD:
  assumes "evolves s s'"
  shows "persists (rt_heap s) (rt_heap s')" "public (rt_heap s) p \<Longrightarrow> public (rt_heap s') p"
    "i < length (rt_modules s) \<Longrightarrow> i < length (rt_modules s') \<and>
      module_core (rt_modules s' ! i) = module_core (rt_modules s ! i)"
    "k < length (rt_optimizers s) \<Longrightarrow> k < length (rt_optimizers s') \<and>
      os_module (rt_optimizers s' ! k) = os_module (rt_optimizers s ! k)"
    "j < length (rt_parameter_optimizers s) \<Longrightarrow> j < length (rt_parameter_optimizers s') \<and>
      po_parameters (rt_parameter_optimizers s' ! j) = po_parameters (rt_parameter_optimizers s ! j)"
  using assms prefix_map_nth unfolding evolves_def by blast+

lemma module_core_eqD:
  assumes "module_core m' = module_core m"
  shows "in_features m' = in_features m" "out_features m' = out_features m" "use_bias m' = use_bias m"
    "ls_weight m' = ls_weight m" "ls_bias m' = ls_bias m" "Parameters m' = Parameters m"
proof -
  have "in_features (module_core m') = in_features (module_core m)"
    "out_features (module_core m') = out_features (module_core m)"
    "use_bias (module_core m') = use_bias (module_core m)"
    "ls_weight (module_core m') = ls_weight (module_core m)"
    "ls_bias (module_core m') = ls_bias (module_core m)" using assms by simp_all
  then show "in_features m' = in_features m" "out_features m' = out_features m" "use_bias m' = use_bias m"
    "ls_weight m' = ls_weight m" "ls_bias m' = ls_bias m" "Parameters m' = Parameters m"
    by (simp_all add: module_core_def Parameters_def)
qed

lemma module_ok_cong: "module_core m' = module_core m \<Longrightarrow> module_ok h m' = module_ok h m"
  using module_core_eqD [of m' m] by (auto simp: module_ok_def split: option.splits)

section \<open>What persists\<close>

lemma persists_direct:
  assumes p: "persists h h'" and r: "r < length (tensors h)" and lay: "layout_ok h (tensor_at h r)"
    and d: "direct h r"
  shows "direct h' r"
proof -
  note sk = skeleton_eqD [OF persistsD(3) [OF p r]]
  obtain vs where vs: "storages h ! t_storage (tensor_at h r) = CpuStorage vs"
    "t_storage (tensor_at h r) < length (storages h)" using lay by (auto simp: layout_ok_def)
  obtain vs' where "storages h' ! t_storage (tensor_at h r) = CpuStorage vs'" "length vs' = length vs"
    using persists_storage [OF p vs(2,1)] .
  then show ?thesis using d vs sk by (simp add: direct_def is_contiguous_def)
qed

lemma persists_parameter:
  assumes p: "persists h h'" and wf: "wf_heap h" and pub: "\<And>r. public h r \<Longrightarrow> public h' r"
  shows "parameter_ok h r d \<Longrightarrow> parameter_ok h' r d"
  using persists_direct [OF p _ wf_heap_layout [OF wf]] pub publicD(1) [of h r]
    skeleton_eqD(1) [OF persistsD(3) [OF p]]
  by (simp add: parameter_ok_def)

lemma persists_module:
  assumes p: "persists h h'" and wf: "wf_heap h" and pub: "\<And>r. public h r \<Longrightarrow> public h' r"
    and ok: "module_ok h m"
  shows "module_ok h' m"
proof -
  have st: "t_storage (tensor_at h' r) = t_storage (tensor_at h r)" if "parameter_ok h r d" for r d
    using skeleton_eqD(2) [OF persistsD(3) [OF p]] that by (simp add: parameter_ok_def public_def)
  show ?thesis
    using ok persists_parameter [OF p wf pub] st by (auto simp: module_ok_def split: option.splits)
qed

lemma module_parameters:
  assumes "module_ok h m" and "p \<in> set (Parameters m)"
  shows "public h p" "direct h p"
  using assms by (auto simp: module_ok_def Parameters_def parameter_ok_def split: option.splits if_splits)

lemma persists_sizes:
  assumes "persists h h'" and "\<And>p. p \<in> set ps \<Longrightarrow> p < length (tensors h)"
  shows "sizes_of h' ps = sizes_of h ps"
  using skeleton_eqD(1) [OF persistsD(3) [OF assms(1)]] assms(2) by (simp add: sizes_of_def)

lemma persists_objects:
  assumes inv: "objects_ok s" and p: "persists (rt_heap s) h'" and wf: "wf_heap (rt_heap s)"
    and pub: "\<And>r. public (rt_heap s) r \<Longrightarrow> public h' r"
  shows "objects_ok (s\<lparr>rt_heap := h'\<rparr>)"
proof -
  have "optimizer_ok h' (rt_modules s) k" if "k \<in> set (rt_optimizers s)" for k
  proof -
    have ok: "optimizer_ok (rt_heap s) (rt_modules s) k" using inv that by (simp add: objects_ok_def)
    then have "module_ok (rt_heap s) (rt_modules s ! os_module k)"
      using objects_okD(1) [OF inv] by (simp add: optimizer_ok_def)
    then have "sizes_of h' (Parameters (rt_modules s ! os_module k)) =
        sizes_of (rt_heap s) (Parameters (rt_modules s ! os_module k))"
      using module_parameters(1) publicD(1) by (intro persists_sizes [OF p]) blast
    then show ?thesis using ok by (simp add: optimizer_ok_def)
  qed
  moreover have "parameter_optimizer_ok h' k" if "k \<in> set (rt_parameter_optimizers s)" for k
  proof -
    have ok: "parameter_optimizer_ok (rt_heap s) k" using inv that by (simp add: objects_ok_def)
    have ps: "public (rt_heap s) r" "direct (rt_heap s) r" if "r \<in> set (po_parameters k)" for r
      using ok that by (simp_all add: parameter_optimizer_ok_def)
    then have "sizes_of h' (po_parameters k) = sizes_of (rt_heap s) (po_parameters k)"
      using publicD(1) by (intro persists_sizes [OF p]) blast
    then show ?thesis
      using ok ps pub persists_direct [OF p _ wf_heap_layout [OF wf]] publicD(1)
      unfolding parameter_optimizer_ok_def by metis
  qed
  ultimately show ?thesis
    using inv persists_module [OF p wf pub] by (simp add: objects_ok_def)
qed

section \<open>Computations that keep the invariant\<close>

definition good :: "'r training_runtime_scheme \<Rightarrow> 'a \<times> 'r training_runtime_scheme \<Rightarrow> bool" where
  "good s x \<longleftrightarrow> train_inv (snd x) \<and> evolves s (snd x)"

lemma good_same: "train_inv s \<Longrightarrow> good s (r, s)"
  by (simp add: good_def evolves_refl)

lemma good_bind:
  assumes "good s (m s)"
    and "\<And>a s1. m s = (Inr a, s1) \<Longrightarrow> train_inv s1 \<Longrightarrow> evolves s s1 \<Longrightarrow> good s1 (f a s1)"
  shows "good s (bindE m f s)"
proof -
  obtain r s1 where m: "m s = (r, s1)" by force
  then have s1: "train_inv s1" "evolves s s1" using assms(1) by (simp_all add: good_def)
  show ?thesis
  proof (cases r)
    case (Inl e)
    then show ?thesis using m s1 by (simp add: bindE_def good_def)
  next
    case (Inr a)
    then have "good s1 (f a s1)" using assms(2) m s1 by blast
    then show ?thesis using m Inr s1(2) evolves_trans by (auto simp: bindE_def good_def)
  qed
qed

lemma good_heap:
  assumes inv: "train_inv s" and safe: "safe (rt_heap s) (m (rt_heap s))"
    and p: "persists (rt_heap s) (snd (m (rt_heap s)))"
  shows "good s (heapE m s)"
proof -
  obtain r h' where m: "m (rt_heap s) = (r, h')" by force
  note sf = safeD [OF safe [unfolded m]]
  have p': "persists (rt_heap s) h'" using p m by simp
  have ob: "object_ok (s\<lparr>rt_heap := h'\<rparr>) ty i" if "object_ok s ty i" for ty i
    using that sf(2) by (cases ty) (simp_all add: object_ok_def)
  have "train_inv (s\<lparr>rt_heap := h'\<rparr>)"
    using train_invD [OF inv] sf(1) ob persists_objects [OF train_invD(5) [OF inv] p' train_invD(3) [OF inv] sf(2)]
    by (simp add: train_inv_def)
  then show ?thesis
    using m p' sf(2) by (simp add: good_def heapE_def evolves_def)
qed

lemma good_status: "train_inv s \<Longrightarrow> good s (statusE r s)"
  by (cases r) (simp_all add: statusE_run good_same)

lemma good_check: "train_inv s \<Longrightarrow> good s (checkE b st s)"
  by (simp add: checkE_run good_same)

lemma good_guard: "good s (m s) \<Longrightarrow> good s (allocation_guard op m s)"
  by (simp add: good_def)

lemma good_for:
  assumes "train_inv s"
    and "\<And>x t. x \<in> set xs \<Longrightarrow> train_inv t \<Longrightarrow> evolves s t \<Longrightarrow> good t (f x t)"
  shows "good s (forE xs f s)"
  using assms
proof (induction xs arbitrary: s)
  case Nil
  then show ?case by (simp add: returnE_run good_same)
next
  case (Cons x xs)
  show ?case
    unfolding forE.simps
  proof (rule good_bind)
    show "good s (f x s)" using Cons.prems(1) evolves_refl by (intro Cons.prems(2)) simp_all
    fix a s1 assume s1: "train_inv s1" "evolves s s1"
    show "good s1 (forE xs f s1)"
    proof (rule Cons.IH [OF s1(1)])
      fix y t assume "y \<in> set xs" "train_inv t" "evolves s1 t"
      then show "good t (f y t)" using evolves_trans [OF s1(2)] by (intro Cons.prems(2)) simp_all
    qed
  qed
qed

text \<open>Changes of the registry.\<close>

lemma good_registry:
  assumes inv: "train_inv s" and "registry_inv (snd (m (rt_registry s)))"
    and "\<And>h e. entry_of (snd (m (rt_registry s))) h = Some e \<Longrightarrow> object_ok s (entry_type e) (entry_object e)"
  shows "good s (registryE m s)"
proof -
  obtain r g where m: "m (rt_registry s) = (r, g)" by force
  have ob: "object_ok (s\<lparr>rt_registry := g\<rparr>) ty i = object_ok s ty i" for ty i
    by (cases ty) (simp_all add: object_ok_def)
  have "train_inv (s\<lparr>rt_registry := g\<rparr>)"
    using assms m train_invD(1,5) [OF inv] ob by (auto simp: train_inv_def objects_ok_def)
  then show ?thesis by (simp add: good_def registryE_def m evolves_def pers.frame_refl)
qed

lemma good_lookup: "train_inv s \<Longrightarrow> good s (registryE (registry_lookup h ty) s)"
  using registry_lookup_state by (intro good_registry) (simp_all add: train_invD)

lemma good_insert:
  assumes inv: "train_inv s" and ob: "object_ok s ty i"
  shows "good s (registryE (registry_insert ty (Some i)) s)"
proof (rule good_registry [OF inv])
  show "registry_inv (snd (registry_insert ty (Some i) (rt_registry s)))"
    by (rule registry_inv_insert [OF train_invD(2) [OF inv]])
next
  fix h e assume e: "entry_of (snd (registry_insert ty (Some i) (rt_registry s))) h = Some e"
  obtain r g where run: "registry_insert ty (Some i) (rt_registry s) = (r, g)" by force
  show "object_ok s (entry_type e) (entry_object e)"
  proof (cases r)
    case (Inl f)
    then show ?thesis
      using registry_insert_Inl_state [OF train_invD(2) [OF inv]] run e train_invD(4) [OF inv] by fastforce
  next
    case (Inr x)
    then show ?thesis
      using entry_of_insert(5) [OF train_invD(2) [OF inv] run [unfolded Inr]] run e train_invD(4) [OF inv] ob
      by (auto split: if_splits)
  qed
qed

lemma good_retain:
  assumes inv: "train_inv s"
  shows "good s (registryE (registry_retain h ty) s)"
  using train_invD(4) [OF inv] registry_inv_retain [OF train_invD(2) [OF inv]]
  by (intro good_registry [OF inv])
    (auto simp: entry_of_retain split: option.splits if_splits)

lemma good_release:
  assumes inv: "train_inv s"
  shows "good s (registryE (registry_release h ty) s)"
  using train_invD(4) [OF inv] registry_inv_release [OF train_invD(2) [OF inv]]
  by (intro good_registry [OF inv])
    (auto simp: entry_of_release split: option.splits if_splits)

text \<open>A handle that is found.\<close>

lemma lookup_ok:
  assumes inv: "train_inv s" and run: "registryE (registry_lookup h ty) s = (Inr i, s1)"
  shows "s1 = s" "object_ok s ty i"
proof -
  obtain g where "registry_lookup h ty (rt_registry s) = (Inr i, g)" "s1 = s\<lparr>rt_registry := g\<rparr>"
    using run by (auto simp: registryE_def split: prod.splits)
  moreover then have "g = rt_registry s" using registry_lookup_state [of h ty "rt_registry s"] by simp
  ultimately show "s1 = s" "object_ok s ty i"
    using registry_lookup_Inr [of h ty "rt_registry s" i g] train_invD(4) [OF inv] by auto
qed

lemmas lookup_defs = LookupTensor_def LookupModule_def LookupOptimizer_def LookupParameterOptimizer_def

end
