(* ===== verification/Training_Steps.thy ===== *)
theory Training_Steps
  imports Training_Invariant
begin

text \<open>
  Every operation of the training bridge keeps the invariant of the library.
\<close>

section \<open>Computations on the heap\<close>

text \<open>\<open>sound\<close>: the invariant and everything a handle or a module can rely on is kept.\<close>

definition sound :: "heap \<Rightarrow> 'a \<times> heap \<Rightarrow> bool" where
  "sound h x \<longleftrightarrow> safe h x \<and> persists h (snd x)"

lemma sound_same: "heap_inv h \<Longrightarrow> sound h (r, h)"
  by (simp add: sound_def safe_same pers.frame_refl)

lemma soundD:
  assumes "sound h (r, h')"
  shows "heap_inv h'" "persists h h'" "public h p \<Longrightarrow> public h' p"
  using assms by (simp_all add: sound_def safe_def)

lemma sound_trans:
  assumes "heap_inv h1" "persists h h1" "\<And>p. public h p \<Longrightarrow> public h1 p" "sound h1 x"
  shows "sound h x"
  using assms pers.frame_trans by (auto simp: sound_def safe_def)

lemma sound_step:
  assumes a: "sound h (r, h1)" and b: "sound h1 x"
  shows "sound h x"
  using sound_trans [OF soundD(1,2) [OF a] _ b] soundD(3) [OF a] by simp

lemma sound_bind:
  assumes "sound h (m h)"
    and "\<And>a h1. m h = (Inr a, h1) \<Longrightarrow> heap_inv h1 \<Longrightarrow> persists h h1 \<Longrightarrow>
      (\<And>p. public h p \<Longrightarrow> public h1 p) \<Longrightarrow> sound h1 (f a h1)"
  shows "sound h (bindE m f h)"
proof -
  obtain r h1 where m: "m h = (r, h1)" by force
  note s = soundD [OF assms(1) [unfolded m]]
  show ?thesis
  proof (cases r)
    case (Inl e)
    then show ?thesis using m s by (simp add: bindE_def sound_def safe_def)
  next
    case (Inr a)
    have "sound h1 (f a h1)" using assms(2) m s Inr by blast
    then show ?thesis using sound_trans [OF s, of "f a h1"] m Inr by (simp add: bindE_def)
  qed
qed

lemma sound_for:
  assumes "heap_inv h"
    and "\<And>x h1. x \<in> set xs \<Longrightarrow> heap_inv h1 \<Longrightarrow> persists h h1 \<Longrightarrow>
      (\<And>p. public h p \<Longrightarrow> public h1 p) \<Longrightarrow> sound h1 (f x h1)"
  shows "sound h (forE xs f h)"
  using assms
proof (induction xs arbitrary: h)
  case Nil
  then show ?case by (simp add: returnE_run sound_same)
next
  case (Cons x xs)
  show ?case
    unfolding forE.simps
  proof (rule sound_bind)
    show "sound h (f x h)" using Cons.prems(1) by (intro Cons.prems(2)) (simp_all add: pers.frame_refl)
    fix a h1 assume h1: "heap_inv h1" "persists h h1" "\<And>p. public h p \<Longrightarrow> public h1 p"
    show "sound h1 (forE xs f h1)"
    proof (rule Cons.IH [OF h1(1)])
      fix y h2 assume "y \<in> set xs" "heap_inv h2" "persists h1 h2" "\<And>p. public h1 p \<Longrightarrow> public h2 p"
      then show "sound h2 (f y h2)"
        using pers.frame_trans [OF h1(2)] h1(3) by (intro Cons.prems(2)) simp_all
    qed
  qed
qed

lemma sound_quiet:
  assumes "heap_inv h" and "keeps quietly m"
  shows "sound h (m h)"
proof -
  obtain r h' where run: "m h = (r, h')" by force
  then have q: "quietly h h'" using keepsD [OF assms(2)] by blast
  then show ?thesis
    using quietly_safe [OF assms(1) q, of r] run by (simp add: sound_def quietly_def persists_extends)
qed

lemma sound_guard: "sound h (m h) \<Longrightarrow> sound h (allocation_guard op m h)"
  by (simp add: sound_def safe_def)

lemma sound_updates:
  assumes "heap_inv h" and "updates h (snd x)"
  shows "sound h x"
  using updates_safe [OF assms, of "fst x"] persists_updates [OF assms(2)] by (simp add: sound_def)

section \<open>Computations of a tensor\<close>

definition makes :: "heap \<Rightarrow> (fault + tensor_ref) \<times> heap \<Rightarrow> bool" where
  "makes h x \<longleftrightarrow> sound h x \<and> (\<forall>r. fst x = Inr r \<longrightarrow> public (snd x) r)"

lemma makes_fault: "heap_inv h \<Longrightarrow> makes h (Inl f, h)"
  by (simp add: makes_def sound_same)

lemma makes_return: "heap_inv h \<Longrightarrow> public h r \<Longrightarrow> makes h (Inr r, h)"
  by (simp add: makes_def sound_same)

lemma makes_yields:
  assumes "heap_inv h" and "yields h srcs d vs meta x"
    and "\<forall>p \<in> set srcs. public h p" and "clean_meta h meta"
  shows "makes h x"
proof -
  have "persists h (snd x)"
    using yieldsD(2) [of h srcs d vs meta "fst x" "snd x"] assms(2) by (simp add: persists_extends)
  then show ?thesis using yields_safe [OF assms] by (simp add: makes_def sound_def)
qed

text \<open>A step before the computation of a tensor.\<close>

lemma makes_after:
  assumes "sound h (m h)"
    and "\<And>a h1. m h = (Inr a, h1) \<Longrightarrow> heap_inv h1 \<Longrightarrow> (\<And>p. public h p \<Longrightarrow> public h1 p) \<Longrightarrow>
      makes h1 (f a h1)"
  shows "makes h (bindE m f h)"
proof -
  obtain r h1 where m: "m h = (r, h1)" by force
  note s = soundD [OF assms(1) [unfolded m]]
  show ?thesis
  proof (cases r)
    case (Inl e)
    then show ?thesis using m assms(1) by (simp add: bindE_def makes_def sound_def safe_def)
  next
    case (Inr a)
    have "makes h1 (f a h1)" using assms(2) m s Inr by blast
    then show ?thesis using m Inr sound_trans [OF s, of "f a h1"] by (simp add: bindE_def makes_def)
  qed
qed

lemma makes_bind:
  assumes "makes h (m h)"
    and "\<And>r h1. m h = (Inr r, h1) \<Longrightarrow> heap_inv h1 \<Longrightarrow> public h1 r \<Longrightarrow>
      (\<And>p. public h p \<Longrightarrow> public h1 p) \<Longrightarrow> makes h1 (f r h1)"
  shows "makes h (bindE m f h)"
proof (rule makes_after)
  show "sound h (m h)" using assms(1) by (simp add: makes_def)
  fix r h1 assume run: "m h = (Inr r, h1)" "heap_inv h1" "\<And>p. public h p \<Longrightarrow> public h1 p"
  moreover have "public h1 r" using assms(1) run(1) by (simp add: makes_def)
  ultimately show "makes h1 (f r h1)" using assms(2) by blast
qed

lemma CloneDetached_yields:
  assumes wf: "wf_heap h" and r: "r < length (tensors h)"
  shows "yields h [] (dims_of (tensor_at h r)) (logical_values h (tensor_at h r)) None (CloneDetached r h)"
proof -
  note lay = wf_heap_layout [OF wf r]
  obtain res h1 where run: "CloneDetached r h = (res, h1)" by force
  from run lay show ?thesis
  proof (cases rule: CloneDetached_cases)
    case (failed f)
    then show ?thesis using run wf by (simp add: yields_quiet_fault)
  next
    case made
    then show ?thesis
      using run tensor_shape_facts [OF wf r] by (simp add: yields_made_plain [OF wf made(2)])
  qed
qed

text \<open>A new leaf: its metadata is set after it has been made.\<close>

lemma leaf_step:
  assumes "heap_inv h" and "public h r" and "t_meta (tensor_at h r) = None"
    and "meta_grad_fn m = None" "meta_gradient m = None" "meta_is_leaf m"
  shows "meta_step h r m"
  using assms by (simp add: meta_step_def grad_fn_of_def)

lemma makes_leaf:
  assumes inv: "heap_inv h" and y: "yields h [] d vs None (mk h)"
    and m: "meta_grad_fn m = None" "meta_gradient m = None" "meta_is_leaf m"
  shows "makes h (bindE mk (\<lambda>out. bindE request_alloc (\<lambda>_. bindE (set_autograd_meta out m)
    (\<lambda>_. returnE out))) h)"
proof (rule makes_bind [where m = mk])
  show "makes h (mk h)" using makes_yields [OF inv y] by (simp add: clean_None)
next
  fix r h1 assume run: "mk h = (Inr r, h1)" and h1: "heap_inv h1" and r: "public h1 r"
  have none: "t_meta (tensor_at h1 r) = None"
    using yieldsD(4,5) [OF y [unfolded run]] by (auto simp: makes_tensor_def new_tensor_at_def)
  show "makes h1 (bindE request_alloc (\<lambda>_. bindE (set_autograd_meta r m) (\<lambda>_. returnE r)) h1)"
  proof (rule makes_after [where m = request_alloc, OF sound_quiet [OF h1 quiet_request_alloc]])
    fix a h2 assume al: "request_alloc h1 = (Inr a, h2)" and h2: "heap_inv h2"
      and pub: "\<And>p. public h1 p \<Longrightarrow> public h2 p"
    have none2: "t_meta (tensor_at h2 r) = None"
      using request_alloc_keeps_objects [of h1] al none by simp
    show "makes h2 (bindE (set_autograd_meta r m) (\<lambda>_. returnE r) h2)"
    proof (rule makes_after [where m = "set_autograd_meta r m",
        OF sound_updates [OF h2 updates_meta [OF leaf_step [OF h2 pub [OF r] none2 m]]]])
      fix b h3 assume "set_autograd_meta r m h2 = (Inr b, h3)" "heap_inv h3"
        "\<And>p. public h2 p \<Longrightarrow> public h3 p"
      then show "makes h3 (returnE r h3)" using pub [OF r] by (simp add: returnE_run makes_return)
    qed
  qed
qed

section \<open>The operations on tensors\<close>

lemma makes_training_ops:
  assumes inv: "heap_inv h" and r: "public h r"
  shows "makes h (CloneDetached r h)" "makes h (WithRequiresGrad r b h)" "makes h (Relu L r h)"
    "makes h (Sigmoid L r h)" "makes h (Tanh L r h)" "makes h (Gelu L r h)" "makes h (Silu L r h)"
    "makes h (SwiGlu L r h)"
proof -
  note wf = heap_invD(1) [OF inv] and rl = publicD(1) [OF r]
  note cl = clean_record [of "[r]" h]
  show "makes h (CloneDetached r h)"
    using makes_yields [OF inv CloneDetached_yields [OF wf rl]] by (simp add: clean_None)
  show "makes h (WithRequiresGrad r b h)"
    unfolding WithRequiresGrad_def CloneAsLeaf_def
    by (rule makes_leaf [where mk = "CloneDetached r", OF inv CloneDetached_yields [OF wf rl]])
      (simp_all add: default_meta_def)
  show "makes h (Relu L r h)" "makes h (Sigmoid L r h)" "makes h (Tanh L r h)"
    unfolding Relu_def Sigmoid_def Tanh_def
    by (rule makes_yields [OF inv MakeActivation_yields [OF wf rl]]; simp add: cl r)+
  show "makes h (Gelu L r h)" "makes h (Silu L r h)"
    unfolding Gelu_def Silu_def
    by (rule makes_yields [OF inv CpuUnary_yields [OF wf rl]]; simp add: cl r)+
  show "makes h (SwiGlu L r h)"
    by (rule makes_yields [OF inv SwiGlu_yields [OF wf rl]]) (simp_all add: cl r)
qed

lemma makes_losses:
  assumes inv: "heap_inv h" and p: "public h p" and t: "public h t"
  shows "makes h (MseLoss p t h)" "makes h (CrossEntropyLoss L p t h)"
proof -
  note wf = heap_invD(1) [OF inv] and pl = publicD(1) [OF p] and tl = publicD(1) [OF t]
  note cl = clean_record [of "[p, t]" h]
  show "makes h (MseLoss p t h)"
    by (rule makes_yields [OF inv MseLoss_yields [OF wf pl tl]]) (simp_all add: cl p t)
  show "makes h (CrossEntropyLoss L p t h)"
    by (rule makes_yields [OF inv CrossEntropyLoss_yields [OF wf pl tl]]) (simp_all add: cl p t)
qed

lemma makes_Gradient:
  assumes inv: "heap_inv h" and r: "public h r"
  shows "makes h (bridge_Gradient r h)"
proof -
  note wf = heap_invD(1) [OF inv] and rl = publicD(1) [OF r]
  have "case gradient_of h r of None \<Rightarrow> \<exists>f. bridge_Gradient r h = (Inl f, h)
      | Some g \<Rightarrow> bridge_Gradient r h = CloneDetached g h"
    by (simp add: bridge_Gradient_def GradientSnapshot_def CopyGradient_def gradient_of_def failE_def
        throwE_run split: option.split)
  then consider (none) f where "bridge_Gradient r h = (Inl f, h)"
    | (some) g where "gradient_of h r = Some g" "bridge_Gradient r h = CloneDetached g h"
    by (cases "gradient_of h r") auto
  then show ?thesis
  proof cases
    case none
    then show ?thesis using inv makes_fault by auto
  next
    case (some g)
    have "g < length (tensors h)"
      using wf_gradient_buffer [OF wf rl some(1)] by (simp add: buffer_ok_def)
    then show ?thesis
      using some(2) makes_yields [OF inv CloneDetached_yields [OF wf]] by (simp add: clean_None)
  qed
qed

lemma makes_linear:
  assumes inv: "heap_inv h" and m: "module_ok h m" and r: "public h r"
  shows "makes h (linear_forward m r h)"
proof -
  have w: "public h (ls_weight m)" using m by (simp add: module_ok_def parameter_ok_def)
  note wf = heap_invD(1) [OF inv] and rl = publicD(1) [OF r] and wl = publicD(1) [OF w]
  show ?thesis
  proof (cases "ValidateModuleInput m r h")
    case (Pair v h0)
    have h0: "h0 = h" using Pair wf_heap_layout [OF wf rl] layout_ok_ensure
      by (auto simp: ValidateModuleInput_def bindE_def statusE_run checkE_run split: if_splits)
    show ?thesis
    proof (cases v)
      case (Inl f)
      then show ?thesis
        using Pair h0 inv by (simp add: linear_forward_def bindE_Inl_run makes_fault)
    next
      case (Inr u)
      have "makes h (bindE (CpuBackend_Matmul r (ls_weight m)) (\<lambda>linear.
          if \<not> use_bias m then returnE linear else AddBias linear (the (ls_bias m))) h)"
      proof (rule makes_bind)
        show "makes h (CpuBackend_Matmul r (ls_weight m) h)"
          by (rule makes_yields [OF inv Matmul_yields [OF wf rl wl]])
            (simp_all add: clean_record [of "[r, ls_weight m]"] r w)
        fix x h1 assume h1: "heap_inv h1" and x: "public h1 x" and pub: "\<And>p. public h p \<Longrightarrow> public h1 p"
        show "makes h1 ((if \<not> use_bias m then returnE x else AddBias x (the (ls_bias m))) h1)"
        proof (cases "use_bias m")
          case True
          then obtain b where b: "ls_bias m = Some b" "public h1 b"
            using m pub by (auto simp: module_ok_def parameter_ok_def split: option.splits)
          have "makes h1 (AddBias x b h1)"
            by (rule makes_yields [OF h1 AddBias_yields [OF heap_invD(1) [OF h1] publicD(1) [OF x]
                publicD(1) [OF b(2)]]]) (simp_all add: clean_record [of "[x, b]"] x b)
          then show ?thesis using True b by simp
        qed (use h1 x in \<open>simp add: returnE_run makes_return\<close>)
      qed
      then show ?thesis
        using Pair h0 Inr by (simp add: linear_forward_def bindE_Inr_run Dispatcher_For_def)
    qed
  qed
qed

section \<open>Writes\<close>

lemma MutableCpuValues_run:
  assumes "layout_ok h (tensor_at h r)"
  shows "\<exists>m. MutableCpuValues r op h =
    (if direct h r then (Inr (t_storage (tensor_at h r)), h)
     else (Inl (Failed (InvalidArgument m)), h))"
  unfolding MutableCpuValues_def by (rule direct_storage_run [OF assms])

lemma direct_vector:
  assumes "wf_heap h" and "r < length (tensors h)" and "direct h r"
  obtains vs where "storages h ! t_storage (tensor_at h r) = CpuStorage vs"
    "length vs = numel_of (tensor_at h r)" "t_storage (tensor_at h r) < length (storages h)"
proof -
  obtain vs where "storages h ! t_storage (tensor_at h r) = CpuStorage vs"
    "t_storage (tensor_at h r) < length (storages h)"
    using wf_heap_layout [OF assms(1,2)] by (auto simp: layout_ok_def)
  then show thesis using assms(3) that by (simp add: direct_def)
qed

lemma sound_write:
  assumes "heap_inv h" and "r < length (tensors h)" and "direct h r"
    and "length vs = length (cpu_values (storages h ! t_storage (tensor_at h r)))"
  shows "sound h (write_values (t_storage (tensor_at h r)) vs h)"
proof -
  obtain old where "storages h ! t_storage (tensor_at h r) = CpuStorage old"
    "t_storage (tensor_at h r) < length (storages h)"
    using direct_vector [OF heap_invD(1) [OF assms(1)] assms(2,3)] .
  then show ?thesis
    using updates_write [of "t_storage (tensor_at h r)" h old vs] assms(4)
    by (intro sound_updates [OF assms(1)]) (simp add: write_values_def)
qed

lemma sound_version: "heap_inv h \<Longrightarrow> sound h (increment_version r h)"
  using sound_updates updates_version by blast

lemma sound_ClearGradient: "heap_inv h \<Longrightarrow> public h r \<Longrightarrow> sound h (ClearGradient r h)"
  using sound_updates updates_ClearGradient by blast

lemma sound_Backward: "heap_inv h \<Longrightarrow> public h r \<Longrightarrow> sound h (Backward L r h)"
  using Backward_safe publicD(1) persists_Backward by (simp add: sound_def keeps_def)

lemma sound_check: "heap_inv h \<Longrightarrow> sound h (checkE b st h)"
  by (simp add: checkE_run sound_same)

lemma sound_replace_values:
  assumes inv: "heap_inv h" and r: "public h r" and len: "length vs = numel_of (tensor_at h r)"
  shows "sound h (replace_values r vs h)"
proof -
  note rl = publicD(1) [OF r] and wf = heap_invD(1) [OF inv]
  obtain m where run: "MutableCpuValues r ''module_load'' h =
    (if direct h r then (Inr (t_storage (tensor_at h r)), h) else (Inl (Failed (InvalidArgument m)), h))"
    using MutableCpuValues_run [OF wf_heap_layout [OF wf rl]] by blast
  show ?thesis
  proof (cases "direct h r")
    case True
    obtain old where old: "storages h ! t_storage (tensor_at h r) = CpuStorage old"
      "length old = numel_of (tensor_at h r)" using direct_vector [OF wf rl True] by metis
    have "sound h (bindE (write_values (t_storage (tensor_at h r)) vs) (\<lambda>_.
        bindE (increment_version r) (\<lambda>_. ClearGradient r)) h)"
    proof (rule sound_bind [where m = "write_values (t_storage (tensor_at h r)) vs",
          OF sound_write [OF inv rl True]])
      fix a h1 assume "heap_inv h1" "\<And>p. public h p \<Longrightarrow> public h1 p"
      then show "sound h1 (bindE (increment_version r) (\<lambda>_. ClearGradient r) h1)"
        using r by (intro sound_bind [OF sound_version]) (simp_all add: sound_ClearGradient)
    qed (use len old in simp)
    then show ?thesis using run True by (simp add: replace_values_def bindE_Inr_run)
  next
    case False
    then show ?thesis using run inv by (simp add: replace_values_def bindE_Inl_run sound_same)
  qed
qed

lemma sound_SetRequiresGrad:
  assumes inv: "heap_inv h" and r: "public h r"
  shows "sound h (SetRequiresGrad r b h)"
proof (cases "t_meta (tensor_at h r)")
  case None
  have "sound h (bindE request_alloc (\<lambda>_. set_autograd_meta r
      (default_meta\<lparr>meta_requires_grad := True, meta_is_leaf := True\<rparr>)) h)"
  proof (rule sound_bind [where m = request_alloc, OF sound_quiet [OF inv quiet_request_alloc]])
    fix a h1 assume al: "request_alloc h = (Inr a, h1)" and h1: "heap_inv h1" and pub: "\<And>p. public h p \<Longrightarrow> public h1 p"
    have "t_meta (tensor_at h1 r) = None" using request_alloc_keeps_objects [of h] al None by simp
    then show "sound h1 (set_autograd_meta r
        (default_meta\<lparr>meta_requires_grad := True, meta_is_leaf := True\<rparr>) h1)"
      using leaf_step [OF h1 pub [OF r]]
      by (intro sound_updates [OF h1] updates_meta) (simp add: default_meta_def)
  qed
  then show ?thesis
    using None inv by (simp add: SetRequiresGrad_def SetCoreRequiresGrad_def returnE_run sound_same sound_guard)
next
  case (Some m)
  have "meta_step h r (m\<lparr>meta_requires_grad := b, meta_gradient := if \<not> b then None else meta_gradient m\<rparr>)"
    if "meta_is_leaf m"
    using public_meta_ok [OF heap_invD(1) [OF inv] publicD(1) [OF r] Some] that r Some
    by (auto simp: meta_step_def grad_fn_of_def gradient_of_def split: if_splits)
  from sound_updates [OF inv updates_meta [OF this]] show ?thesis
    using Some inv by (auto simp: SetRequiresGrad_def SetCoreRequiresGrad_def sound_same)
qed

end
