(* ===== verification/Tensor_State_Spec.thy ===== *)
theory Tensor_State_Spec
  imports Training_Steps
begin

text \<open>
  What the assignment of many tensors does (\<open>native/src/training/nn_v2_state.h\<close>): its three loops look up
  and validate the pairs, stage the values of the sources, and commit them.  Everything that can fail
  happens before the first write.
\<close>

section \<open>Looking up the pairs\<close>

text \<open>A change of the runtime that leaves tensors, storages and handles as they are.\<close>

definition idle :: "'r runtime_scheme \<Rightarrow> 'r runtime_scheme \<Rightarrow> bool" where
  "idle s s' \<longleftrightarrow> quietly (rt_heap s) (rt_heap s') \<and> s' = s\<lparr>rt_heap := rt_heap s'\<rparr>"

lemma idle_refl: "idle s s"
  by (simp add: idle_def quiet.frame_refl)

lemma idle_trans:
  assumes "idle s t" and "idle t u"
  shows "idle s u"
proof -
  have t: "t = s\<lparr>rt_heap := rt_heap t\<rparr>" and u: "u = t\<lparr>rt_heap := rt_heap u\<rparr>"
    using assms by (simp_all add: idle_def)
  have "u = s\<lparr>rt_heap := rt_heap u\<rparr>" by (subst u, subst t) simp
  moreover have "quietly (rt_heap s) (rt_heap u)"
    using assms quiet.frame_trans [of "rt_heap s" "rt_heap t" "rt_heap u"] by (simp add: idle_def)
  ultimately show ?thesis unfolding idle_def by blast
qed

interpretation idle: frame_relation idle
  by unfold_locales (auto intro: idle_refl idle_trans)

lemma idle_LookupTensor: "keeps idle (LookupTensor h)"
proof -
  have "snd (LookupTensor h s) = s" for s :: "'a runtime_scheme"
    using registry_lookup_state [of h kTensor "rt_registry s"]
    by (cases "registry_lookup h kTensor (rt_registry s)") (simp add: LookupTensor_def registryE_def)
  then show ?thesis by (simp add: keeps_def idle_refl)
qed

lemma idle_status: "keeps idle (statusE r)"
  by (simp add: keeps_def statusE_run idle_refl)

lemma idle_check: "keeps idle (checkE b st)"
  by (simp add: keeps_def checkE_run idle_refl)

lemma idle_heapE:
  assumes "keeps quietly m"
  shows "keeps idle (heapE m)"
proof -
  have "idle s (snd (heapE m s))" for s :: "'b runtime_scheme"
  proof -
    obtain r h' where "m (rt_heap s) = (r, h')" by force
    then show ?thesis using keepsD [OF assms] by (simp add: idle_def heapE_def)
  qed
  then show ?thesis by (simp add: keeps_def)
qed

lemma quiet_TensorIdentity: "keeps quietly (TensorIdentity r)"
  unfolding TensorIdentity_def by (intro quiet.keeps_all)

lemma quiet_guard_request: "keeps quietly (allocation_guard op request_alloc)"
  by (intro keeps_allocation_guard quiet_request_alloc)

lemma idle_assign_pair: "keeps idle (assign_pair p batch)"
  unfolding assign_pair_def
  case_prod_unfold
  by (intro idle.keeps_basic idle_LookupTensor idle_status idle_check idle_heapE
      quiet_TensorIdentity quiet_guard_request)

lemma idleD:
  assumes "idle s s'"
  shows "quietly (rt_heap s) (rt_heap s')" "rt_registry s' = rt_registry s" "tensor_handle s' = tensor_handle s"
proof -
  show "quietly (rt_heap s) (rt_heap s')" using assms by (simp add: idle_def)
  have "s' = s\<lparr>rt_heap := rt_heap s'\<rparr>" using assms by (simp add: idle_def)
  from arg_cong [OF this, of rt_registry] show "rt_registry s' = rt_registry s" by simp
  then show "tensor_handle s' = tensor_handle s" by (simp add: tensor_handle_def fun_eq_iff)
qed

text \<open>What the loop has collected from the pairs it has accepted.\<close>

definition collected :: "'r runtime_scheme \<Rightarrow> (handle \<times> handle) list \<Rightarrow> assign_batch \<Rightarrow> bool" where
  "collected s pairs b \<longleftrightarrow>
     map (\<lambda>p. tensor_handle s (fst p)) pairs = map Some (ab_targets b) \<and>
     map (\<lambda>p. tensor_handle s (snd p)) pairs = map Some (ab_sources b) \<and>
     ab_identities b = rev (map (tensor_identity (rt_heap s)) (ab_targets b)) \<and>
     distinct (map (tensor_identity (rt_heap s)) (ab_targets b)) \<and>
     list_all2 (\<lambda>t u. dims_of (tensor_at (rt_heap s) t) = dims_of (tensor_at (rt_heap s) u))
       (ab_targets b) (ab_sources b)"

lemma collected_empty: "collected s [] empty_batch"
  by (simp add: collected_def empty_batch_def)

lemma LookupTensor_Inr:
  assumes "LookupTensor h s = (Inr r, s')"
  shows "s' = s" "tensor_handle s h = Some r"
proof -
  obtain g where "registry_lookup h kTensor (rt_registry s) = (Inr r, g)" "s' = s\<lparr>rt_registry := g\<rparr>"
    using assms by (auto simp: LookupTensor_def registryE_def split: prod.splits)
  then show "s' = s" "tensor_handle s h = Some r"
    using registry_lookup_Inr [of h kTensor "rt_registry s" r g] by (auto simp: tensor_handle_def)
qed

lemma LookupTensor_InrD: "LookupTensor h s = (Inr r, s') \<Longrightarrow> s' = s \<and> tensor_handle s h = Some r"
  using LookupTensor_Inr by blast

lemma map_sum_Inr_iff: "map_sum f id x = Inr y \<longleftrightarrow> x = Inr y"
  by (cases x) simp_all

lemma ValidatePair_Inr: "ValidatePair h t u op = Inr x \<Longrightarrow> dims_of t = dims_of u"
  by (simp add: ValidatePair_def SameShape_iff split: if_splits)

lemma quiet_identity:
  assumes "quietly h h'" and "wf_heap h" and "r < length (tensors h)"
  shows "tensor_identity h' r = tensor_identity h r" "tensor_version h' r = tensor_version h r"
proof -
  have "t_version_counter (tensor_at h r) < length (counters h)"
    using wf_heap_layout [OF assms(2,3)] by (simp add: layout_ok_def)
  then show "tensor_identity h' r = tensor_identity h r" "tensor_version h' r = tensor_version h r"
    using assms(1) heap_extends_nth(2) [of h h']
    by (simp_all add: tensor_identity_def tensor_version_def quietly_def)
qed

lemma assign_pair_collects:
  assumes inv: "core_inv s0" and col: "collected s0 pre batch" and idle: "idle s0 s"
    and run: "assign_pair (th, uh) batch s = (Inr batch', s')"
  shows "collected s0 (pre @ [(th, uh)]) batch'"
    "ab_kind batch' = Some (storage_kind_of (storage_of (rt_heap s) (tensor_at (rt_heap s) (last (ab_targets batch')))))"
proof -
  obtain t u ident s1 s2 where t: "tensor_handle s th = Some t" and u: "tensor_handle s uh = Some u"
    and pair: "ValidatePair (rt_heap s) (tensor_at (rt_heap s) t) (tensor_at (rt_heap s) u)
      ''tensor_assign_many'' = Inr ()"
    and ident: "heapE (TensorIdentity t) s = (Inr ident, s1)"
    and fresh: "ident \<notin> set (ab_identities batch)"
    and batch': "batch' = \<lparr>ab_identities = ident # ab_identities batch,
      ab_kind = Some (storage_kind_of (storage_of (rt_heap s) (tensor_at (rt_heap s) t))),
      ab_targets = ab_targets batch @ [t], ab_sources = ab_sources batch @ [u]\<rparr>"
    using run unfolding assign_pair_def
    by (auto simp: checkE_run statusE_run returnE_run map_sum_Inr_iff elim!: bindE_InrE
        dest!: LookupTensor_InrD split: if_splits)
  note i = idleD [OF idle]
  have th: "tensor_handle s0 th = Some t" "tensor_handle s0 uh = Some u" using t u i(3) by simp_all
  have tl: "t < length (tensors (rt_heap s0))" using core_invD(3) [OF inv th(1)] by (simp add: public_def)
  have "ident = tensor_identity (rt_heap s) t"
    using ident by (auto simp: heapE_def TensorIdentity_def checkE_run bindE_def returnE_run split: if_splits)
  then have id0: "ident = tensor_identity (rt_heap s0) t"
    using quiet_identity(1) [OF i(1) core_invD(4) [OF inv] tl] by simp
  have dims: "dims_of (tensor_at (rt_heap s0) t) = dims_of (tensor_at (rt_heap s0) u)"
    using ValidatePair_Inr [OF pair] i(1) by (simp add: quietly_def)
  have "ident \<notin> set (ab_identities batch)" using fresh .
  then show "collected s0 (pre @ [(th, uh)]) batch'"
    using col th id0 dims batch' by (simp add: collected_def list_all2_appendI)
  show "ab_kind batch' = Some (storage_kind_of (storage_of (rt_heap s)
      (tensor_at (rt_heap s) (last (ab_targets batch')))))" using batch' by simp
qed

lemma collect_loop:
  assumes inv: "core_inv s0"
  shows "triple (\<lambda>s. idle s0 s \<and> collected s0 [] empty_batch) (foldE pairs empty_batch assign_pair)
    (\<lambda>b s. idle s0 s \<and> collected s0 pairs b) (\<lambda>_ s. idle s0 s)"
proof (rule triple_fold_prefix)
  fix pre x post batch
  show "triple (\<lambda>s. idle s0 s \<and> collected s0 pre batch) (assign_pair x batch)
      (\<lambda>b s. idle s0 s \<and> collected s0 (pre @ [x]) b) (\<lambda>_ s. idle s0 s)"
  proof (rule tripleI)
    fix s a s' assume p: "idle s0 s \<and> collected s0 pre batch" and run: "assign_pair x batch s = (Inr a, s')"
    have "idle s s'" using keepsD [OF idle_assign_pair run] .
    then show "idle s0 s' \<and> collected s0 (pre @ [x]) a"
      using p assign_pair_collects(1) [OF inv, of pre batch s "fst x" "snd x" a s'] run idle_trans by auto
  next
    fix s e s' assume p: "idle s0 s \<and> collected s0 pre batch" and run: "assign_pair x batch s = (Inl e, s')"
    have "idle s s'" using keepsD [OF idle_assign_pair run] .
    then show "idle s0 s'" using p idle_trans by blast
  qed
qed

section \<open>Staging\<close>

definition staged_for :: "heap \<Rightarrow> (tensor_ref \<times> tensor_ref) list \<Rightarrow> (f32 list \<times> nat) list" where
  "staged_for h pairs = map (\<lambda>(t, u). (logical_values h (tensor_at h u), t_storage (tensor_at h t))) pairs"

lemma quiet_MutableCpuValues: "keeps quietly (MutableCpuValues r op)"
  unfolding MutableCpuValues_def by (rule quiet_reads_only [OF reads_direct_storage])

lemma quiet_stage_pair: "keeps quietly (stage_pair p staged)"
  unfolding stage_pair_def case_prod_unfold
  by (intro quiet.keeps_basic quiet_ReadLogicalCpuValues quiet_MutableCpuValues)

lemma stage_pair_run:
  assumes wf: "wf_heap h0" and q: "quietly h0 h" and t: "t < length (tensors h0)" and u: "u < length (tensors h0)"
    and run: "stage_pair (t, u) staged h = (Inr staged', h')"
  shows "staged' = staged @ [(logical_values h0 (tensor_at h0 u), t_storage (tensor_at h0 t))]" "direct h0 t"
proof -
  have same: "tensors h = tensors h0" using q by (simp add: quietly_def)
  note wf1 = wf_heap_quietly [OF wf q]
  obtain vs h1 st where rd: "ReadLogicalCpuValues u ''tensor_assign_many'' h = (Inr vs, h1)"
    and mu: "MutableCpuValues t ''tensor_assign_many'' h1 = (Inr st, h')"
    and st: "staged' = staged @ [(vs, st)]"
    using run by (auto simp: stage_pair_def returnE_run elim!: bindE_InrE)
  have lay: "layout_ok h (tensor_at h u)" using wf_heap_layout [OF wf1] u same by simp
  note rv = read_values_Inr [OF lay rd [unfolded ReadLogicalCpuValues_def]]
  have vs: "vs = logical_values h0 (tensor_at h0 u)"
    using rv(1) quiet_logical_values [OF wf q u] by simp
  have q1: "quietly h0 h1"
    using quiet.frame_trans [OF q] keepsD [OF quiet_ReadLogicalCpuValues rd] by blast
  note wf2 = wf_heap_quietly [OF wf q1]
  have t1: "tensor_at h1 t = tensor_at h0 t" "t < length (tensors h1)" using q1 t by (simp_all add: quietly_def)
  obtain m where "MutableCpuValues t ''tensor_assign_many'' h1 =
    (if direct h1 t then (Inr (t_storage (tensor_at h1 t)), h1) else (Inl (Failed (InvalidArgument m)), h1))"
    using MutableCpuValues_run [OF wf_heap_layout [OF wf2 t1(2)]] by blast
  then have d: "direct h1 t" "st = t_storage (tensor_at h0 t)" using mu t1 by (auto split: if_splits)
  then show "staged' = staged @ [(logical_values h0 (tensor_at h0 u), t_storage (tensor_at h0 t))]"
    using st vs by simp
  have "t_storage (tensor_at h0 t) < length (storages h0)"
    using wf_heap_layout [OF wf t] by (simp add: layout_ok_def)
  then show "direct h0 t"
    using d(1) t1(1) q1 heap_extends_nth(1) [of h0 h1] by (simp add: direct_def quietly_def)
qed

definition staging :: "heap \<Rightarrow> (tensor_ref \<times> tensor_ref) list \<Rightarrow> (f32 list \<times> nat) list \<Rightarrow> heap \<Rightarrow> bool" where
  "staging h0 pairs staged h \<longleftrightarrow> quietly h0 h \<and> staged = staged_for h0 pairs \<and>
     (\<forall>p \<in> set pairs. direct h0 (fst p))"

lemma staging_Nil: "staging h [] [] h"
  by (simp add: staging_def staged_for_def quiet.frame_refl)

lemma stage_loop:
  assumes wf: "wf_heap h0" and pairs: "\<forall>(t, u) \<in> set pairs. t < length (tensors h0) \<and> u < length (tensors h0)"
  shows "triple (staging h0 [] []) (foldE pairs [] stage_pair) (staging h0 pairs) (\<lambda>_ h. quietly h0 h)"
proof (rule triple_fold_prefix)
  fix pre x post staged assume split: "pairs = pre @ x # post"
  obtain t u where x: "x = (t, u)" by force
  have l: "t < length (tensors h0)" "u < length (tensors h0)" using pairs split x by auto
  show "triple (staging h0 pre staged) (stage_pair x staged) (staging h0 (pre @ [x])) (\<lambda>_ h. quietly h0 h)"
  proof (rule tripleI)
    fix h a h' assume p: "staging h0 pre staged h" and run: "stage_pair x staged h = (Inr a, h')"
    have q: "quietly h0 h" using p by (simp add: staging_def)
    have "quietly h0 h'" using quiet.frame_trans [OF q keepsD [OF quiet_stage_pair run]] .
    then show "staging h0 (pre @ [x]) a h'"
      using p stage_pair_run [OF wf q l run [unfolded x]] x by (simp add: staging_def staged_for_def)
  next
    fix h e h' assume p: "staging h0 pre staged h" and run: "stage_pair x staged h = (Inl e, h')"
    then show "quietly h0 h'"
      using quiet.frame_trans [OF _ keepsD [OF quiet_stage_pair run]] by (simp add: staging_def)
  qed
qed

section \<open>Committing\<close>

text \<open>A staged target: its storage is written as a whole.\<close>

definition target_ok :: "heap \<Rightarrow> tensor_ref \<times> (f32 list \<times> nat) \<Rightarrow> bool" where
  "target_ok h = (\<lambda>(t, (vs, st)). public h t \<and> direct h t \<and> st = t_storage (tensor_at h t) \<and>
     length vs = numel_of (tensor_at h t))"

abbreviation counter_of :: "heap \<Rightarrow> tensor_ref \<Rightarrow> nat" where
  "counter_of h t \<equiv> t_version_counter (tensor_at h t)"

definition committed :: "heap \<Rightarrow> (tensor_ref \<times> (f32 list \<times> nat)) list \<Rightarrow> heap \<Rightarrow> bool" where
  "committed h0 pre h \<longleftrightarrow> sound h0 ((), h) \<and> length (counters h) = length (counters h0) \<and>
     (\<forall>s < length (storages h0). storages h ! s =
        (case map_of (map (\<lambda>(t, (vs, st)). (st, vs)) pre) s of
           None \<Rightarrow> storages h0 ! s | Some vs \<Rightarrow> CpuStorage vs)) \<and>
     (\<forall>c < length (counters h0). vc_value (counters h ! c) =
        vc_value (counters h0 ! c) + (if c \<in> counter_of h0 ` fst ` set pre then 1 else 0)) \<and>
     (\<forall>r < length (tensors h0). gradient_of h r =
        (if r \<in> fst ` set pre then None else gradient_of h0 r))"

lemma committed_Nil: "heap_inv h \<Longrightarrow> committed h [] h"
  by (simp add: committed_def sound_same)

lemma commit_pair_run:
  assumes "length vs = length (cpu_values (storages h ! st))"
  shows "commit_pair (t, (vs, st)) h = (Inr (), h
    \<lparr>storages := (storages h)[st := CpuStorage vs],
     counters := (counters h)[counter_of h t := (counters h ! counter_of h t)
       \<lparr>vc_value := vc_value (counters h ! counter_of h t) + 1\<rparr>],
     tensors := (tensors h)[t := (tensor_at h t)\<lparr>t_meta :=
       map_option (\<lambda>m. m\<lparr>meta_gradient := None\<rparr>) (t_meta (tensor_at h t))\<rparr>]\<rparr>)"
  using assms
  by (simp add: commit_pair_def write_values_def increment_version_def ClearGradient_run Let_def)

lemma commit_pair_sound:
  assumes inv: "heap_inv h" and ok: "target_ok h p"
  shows "sound h (commit_pair p h)"
proof -
  obtain t vs st where p: "p = (t, (vs, st))" by (cases p) auto
  have t: "public h t" "direct h t" "st = t_storage (tensor_at h t)" "length vs = numel_of (tensor_at h t)"
    using ok p by (simp_all add: target_ok_def)
  obtain old where old: "storages h ! st = CpuStorage old" "length old = length vs"
    using direct_vector [OF heap_invD(1) [OF inv] publicD(1) [OF t(1)] t(2)] t(3,4) by metis
  have "sound h (bindE (write_values st vs) (\<lambda>_. bindE (increment_version t) (\<lambda>_. ClearGradient t)) h)"
  proof (rule sound_bind [where m = "write_values st vs"])
    show "sound h (write_values st vs h)"
      using sound_write [OF inv publicD(1) [OF t(1)] t(2), of vs] t(3) old by simp
    fix a h1 assume "heap_inv h1" "\<And>p. public h p \<Longrightarrow> public h1 p"
    then show "sound h1 (bindE (increment_version t) (\<lambda>_. ClearGradient t) h1)"
      using t(1) by (intro sound_bind [OF sound_version]) (simp_all add: sound_ClearGradient)
  qed
  then show ?thesis using old p by (simp add: commit_pair_def)
qed

lemma sound_target_ok:
  assumes s: "sound h0 ((), h)" and wf: "wf_heap h0" and ok: "target_ok h0 p"
  shows "target_ok h p" "counter_of h (fst p) = counter_of h0 (fst p)"
proof -
  obtain t vs st where p: "p = (t, (vs, st))" by (cases p) auto
  have t: "public h0 t" "direct h0 t" using ok p by (simp_all add: target_ok_def)
  note sd = soundD [OF s]
  note sk = skeleton_eqD [OF persistsD(3) [OF sd(2) publicD(1) [OF t(1)]]]
  show "target_ok h p" "counter_of h (fst p) = counter_of h0 (fst p)"
    using ok p sk sd(3) persists_direct [OF sd(2) publicD(1) [OF t(1)] wf_heap_layout [OF wf publicD(1) [OF t(1)]] t(2)]
    by (simp_all add: target_ok_def)
qed

lemma commit_step:
  assumes inv: "heap_inv h0" and ok: "target_ok h0 (t, (vs, st))" and c: "committed h0 pre h"
    and fresh: "st \<notin> (\<lambda>p. snd (snd p)) ` set pre" "counter_of h0 t \<notin> counter_of h0 ` fst ` set pre"
  shows "committed h0 (pre @ [(t, (vs, st))]) (snd (commit_pair (t, (vs, st)) h))"
    "fst (commit_pair (t, (vs, st)) h) = Inr ()"
proof -
  note wf = heap_invD(1) [OF inv]
  have s0: "sound h0 ((), h)" using c by (simp add: committed_def)
  note sd = soundD [OF s0]
  note ok' = sound_target_ok [OF s0 wf ok]
  have t0: "t < length (tensors h0)" and st0: "st = t_storage (tensor_at h0 t)"
    and pub: "public h t" "direct h t" and len: "length vs = numel_of (tensor_at h t)" "st = t_storage (tensor_at h t)"
    using ok ok'(1) by (simp_all add: target_ok_def public_def)
  have co: "counter_of h t = counter_of h0 t" using ok'(2) by simp
  have c0: "counter_of h0 t < length (counters h0)" "st < length (storages h0)"
    using wf_heap_layout [OF wf t0] st0 by (simp_all add: layout_ok_def)
  have lens: "length (storages h0) \<le> length (storages h)" "length (tensors h0) \<le> length (tensors h)"
    using persistsD(1,2) [OF sd(2)] by simp_all
  obtain old where "storages h ! st = CpuStorage old" "length old = length vs"
    using direct_vector [OF heap_invD(1) [OF sd(1)] publicD(1) [OF pub(1)] pub(2)] len by metis
  then have run: "commit_pair (t, (vs, st)) h = (Inr (), h
    \<lparr>storages := (storages h)[st := CpuStorage vs],
     counters := (counters h)[counter_of h t := (counters h ! counter_of h t)
       \<lparr>vc_value := vc_value (counters h ! counter_of h t) + 1\<rparr>],
     tensors := (tensors h)[t := (tensor_at h t)\<lparr>t_meta :=
       map_option (\<lambda>m. m\<lparr>meta_gradient := None\<rparr>) (t_meta (tensor_at h t))\<rparr>]\<rparr>)" (is "_ = (_, ?h')")
    by (intro commit_pair_run) simp
  show "fst (commit_pair (t, (vs, st)) h) = Inr ()" using run by simp
  have "sound h ((), ?h')"
    using commit_pair_sound [OF sd(1) ok'(1)] unfolding run sound_def safe_def by simp
  then have "sound h0 ((), ?h')" using sound_trans [OF sd] by blast
  moreover have "storages ?h' ! i = (case map_of (map (\<lambda>(t, (vs, st)). (st, vs)) (pre @ [(t, (vs, st))])) i of
      None \<Rightarrow> storages h0 ! i | Some vs \<Rightarrow> CpuStorage vs)" if "i < length (storages h0)" for i
  proof -
    have n: "map_of (map (\<lambda>(t, (vs, st)). (st, vs)) pre) st = None"
      using fresh(1) by (force simp: map_of_eq_None_iff)
    have "storages h ! i = (case map_of (map (\<lambda>(t, (vs, st)). (st, vs)) pre) i of
      None \<Rightarrow> storages h0 ! i | Some vs \<Rightarrow> CpuStorage vs)" using c that by (simp add: committed_def)
    then show ?thesis
      using n that lens c0 by (cases "i = st") (simp_all add: map_add_def split: option.split)
  qed
  moreover have "vc_value (counters ?h' ! i) = vc_value (counters h0 ! i) +
      (if i \<in> counter_of h0 ` fst ` set (pre @ [(t, (vs, st))]) then 1 else 0)"
    if "i < length (counters h0)" for i
  proof -
    have "vc_value (counters h ! i) = vc_value (counters h0 ! i) +
      (if i \<in> counter_of h0 ` fst ` set pre then 1 else 0)" "length (counters h) = length (counters h0)"
      using c that by (simp_all add: committed_def)
    then show ?thesis using fresh(2) that co by (cases "i = counter_of h0 t") (simp_all add: update_nth)
  qed
  moreover have "gradient_of ?h' i = (if i \<in> fst ` set (pre @ [(t, (vs, st))]) then None else gradient_of h0 i)"
    if "i < length (tensors h0)" for i
  proof -
    have "gradient_of h i = (if i \<in> fst ` set pre then None else gradient_of h0 i)"
      using c that by (simp add: committed_def)
    then show ?thesis
      using that lens(2) by (cases "i = t") (simp_all add: gradient_of_def update_nth split: option.split)
  qed
  ultimately show "committed h0 (pre @ [(t, (vs, st))]) (snd (commit_pair (t, (vs, st)) h))"
    using c unfolding run committed_def by simp
qed

lemma commit_loop:
  assumes inv: "heap_inv h0" and ok: "\<forall>p \<in> set items. target_ok h0 p"
    and ds: "distinct (map (\<lambda>p. snd (snd p)) items)" and dc: "distinct (map (\<lambda>p. counter_of h0 (fst p)) items)"
  shows "triple (committed h0 []) (forE items commit_pair) (\<lambda>_. committed h0 items) (\<lambda>_ _. False)"
proof (rule triple_for_prefix)
  fix pre x post assume split: "items = pre @ x # post"
  obtain t vs st where x: "x = (t, (vs, st))" by (cases x) auto
  have o: "target_ok h0 (t, (vs, st))" using ok split x by simp
  have f: "st \<notin> (\<lambda>p. snd (snd p)) ` set pre" "counter_of h0 t \<notin> counter_of h0 ` fst ` set pre"
    using ds dc split x by (auto simp: image_iff)
  show "triple (committed h0 pre) (commit_pair x) (\<lambda>_. committed h0 (pre @ [x])) (\<lambda>_ _. False)"
    using commit_step [OF inv o _ f] x by (auto intro!: tripleI dest: sym) (metis snd_conv fst_conv Inl_Inr_False)+
qed

section \<open>The whole assignment\<close>

text \<open>
  Every target has the values its source had before the call, one version more and no gradient; a
  tensor that is no target and shares no identity with one is as before.
\<close>

definition transferred :: "heap \<Rightarrow> tensor_ref list \<Rightarrow> tensor_ref list \<Rightarrow> heap \<Rightarrow> bool" where
  "transferred h ts us h' \<longleftrightarrow>
     (\<forall>i < length ts. logical_values h' (tensor_at h' (ts ! i)) = logical_values h (tensor_at h (us ! i)) \<and>
        tensor_version h' (ts ! i) = tensor_version h (ts ! i) + 1 \<and> gradient_of h' (ts ! i) = None) \<and>
     (\<forall>r < length (tensors h). tensor_identity h r \<notin> tensor_identity h ` set ts \<longrightarrow>
        logical_values h' (tensor_at h' r) = logical_values h (tensor_at h r) \<and>
        tensor_version h' r = tensor_version h r) \<and>
     (\<forall>r < length (tensors h). dims_of (tensor_at h' r) = dims_of (tensor_at h r)) \<and>
     (\<forall>r < length (tensors h). r \<notin> set ts \<longrightarrow> gradient_of h' r = gradient_of h r)"

lemma distinct_identities:
  assumes oc: "one_counter h" and d: "distinct (map (tensor_identity h) ts)"
    and l: "\<forall>t \<in> set ts. t < length (tensors h)"
  shows "distinct (map (counter_of h) ts)" "distinct (map (\<lambda>t. t_storage (tensor_at h t)) ts)"
proof -
  have same: "tensor_identity h t = tensor_identity h u" if "counter_of h t = counter_of h u" for t u
    using that by (simp add: tensor_identity_def)
  then show "distinct (map (counter_of h) ts)" using d unfolding distinct_map inj_on_def by metis
  have "tensor_identity h t = tensor_identity h u"
    if "t \<in> set ts" "u \<in> set ts" "t_storage (tensor_at h t) = t_storage (tensor_at h u)" for t u
    using same one_counterD [OF oc] l that by blast
  then show "distinct (map (\<lambda>t. t_storage (tensor_at h t)) ts)"
    using d unfolding distinct_map inj_on_def by metis
qed

lemma committed_transferred:
  assumes inv: "heap_inv h" and len: "length us = length ts"
    and l: "\<forall>t \<in> set ts. t < length (tensors h)" and dir: "\<forall>t \<in> set ts. direct h t"
    and d: "distinct (map (tensor_identity h) ts)"
    and dims: "list_all2 (\<lambda>t u. dims_of (tensor_at h t) = dims_of (tensor_at h u)) ts us"
    and c: "committed h (zip ts (staged_for h (zip ts us))) h'"
  shows "transferred h ts us h'"
proof -
  note wf = heap_invD(1) [OF inv] and oc = heap_invD(3) [OF inv]
  have zs: "zip ts (staged_for h (zip ts us)) =
      map (\<lambda>(t, u). (t, (logical_values h (tensor_at h u), t_storage (tensor_at h t)))) (zip ts us)"
    using len by (intro nth_equalityI) (simp_all add: staged_for_def)
  have fsts: "fst ` set (zip ts (staged_for h (zip ts us))) = set ts"
    using len by (simp add: staged_for_def flip: set_map)
  have sd: "heap_inv h'" "persists h h'" "\<And>p. public h p \<Longrightarrow> public h' p"
    using c soundD [of h "()" h'] by (simp_all add: committed_def)
  note sk = skeleton_eqD [OF persistsD(3) [OF sd(2)]]
  have keys: "map fst (map (\<lambda>(t, (vs, st)). (st, vs)) (zip ts (staged_for h (zip ts us)))) =
      map (\<lambda>t. t_storage (tensor_at h t)) ts"
    using len unfolding zs by (intro nth_equalityI) simp_all
  have st: "storages h' ! s = (case map_of (map (\<lambda>(t, (vs, st)). (st, vs)) (zip ts (staged_for h (zip ts us)))) s of
      None \<Rightarrow> storages h ! s | Some vs \<Rightarrow> CpuStorage vs)" if "s < length (storages h)" for s
    using c that unfolding committed_def by blast
  have sl: "t_storage (tensor_at h r) < length (storages h)" "counter_of h r < length (counters h)"
    if "r < length (tensors h)" for r using wf_heap_layout [OF wf that] by (simp_all add: layout_ok_def)
  have ver: "tensor_version h' r = tensor_version h r + (if counter_of h r \<in> counter_of h ` set ts then 1 else 0)"
    if "r < length (tensors h)" for r
    using c sk(3) [OF that] sl(2) [OF that] fsts unfolding committed_def tensor_version_def by simp
  have grad: "gradient_of h' r = (if r \<in> set ts then None else gradient_of h r)"
    if "r < length (tensors h)" for r
    using c that fsts unfolding committed_def by simp
  have target: "logical_values h' (tensor_at h' (ts ! i)) = logical_values h (tensor_at h (us ! i))"
    if i: "i < length ts" for i
  proof -
    let ?t = "ts ! i" and ?vs = "logical_values h (tensor_at h (us ! i))"
    have t: "?t < length (tensors h)" "direct h ?t" using i l dir by simp_all
    have "map_of (map (\<lambda>(t, (vs, st)). (st, vs)) (zip ts (staged_for h (zip ts us))))
        (t_storage (tensor_at h ?t)) = Some ?vs"
    proof (rule map_of_is_SomeI)
      show "distinct (map fst (map (\<lambda>(t, (vs, st)). (st, vs)) (zip ts (staged_for h (zip ts us)))))"
        unfolding keys by (rule distinct_identities(2) [OF oc d l])
      have "(?t, us ! i) \<in> set (zip ts us)" using i len by (auto simp: set_zip)
      then show "(t_storage (tensor_at h ?t), ?vs) \<in>
          set (map (\<lambda>(t, (vs, st)). (st, vs)) (zip ts (staged_for h (zip ts us))))"
        unfolding zs by force
    qed
    then have "storage_of h' (tensor_at h' ?t) = CpuStorage ?vs" using st [OF sl(1) [OF t(1)]] sk(2) [OF t(1)] by simp
    moreover have "t_offset (tensor_at h' ?t) = 0" "is_contiguous (tensor_at h' ?t)"
      using t(2) sk(1,4) [OF t(1)] by (simp_all add: direct_def is_contiguous_def)
    moreover have "numel_of (tensor_at h' ?t) = length ?vs"
    proof -
      have "direct h' ?t"
        by (rule persists_direct [OF sd(2) t(1) wf_heap_layout [OF wf t(1)] t(2)])
      then show ?thesis using calculation(1) by (simp add: direct_def)
    qed
    moreover have "layout_ok h' (tensor_at h' ?t)"
      using wf_heap_layout [OF heap_invD(1) [OF sd(1)], of ?t] persistsD(1) [OF sd(2)] t(1) by simp
    ultimately show ?thesis using contiguous_logical_values [of h' "tensor_at h' ?t" ?vs] by simp
  qed
  have other: "logical_values h' (tensor_at h' r) = logical_values h (tensor_at h r) \<and>
      tensor_version h' r = tensor_version h r"
    if r: "r < length (tensors h)" and no: "tensor_identity h r \<notin> tensor_identity h ` set ts" for r
  proof -
    have nc: "counter_of h r \<notin> counter_of h ` set ts" using no by (auto simp: tensor_identity_def)
    then have "t_storage (tensor_at h r) \<notin> set (map (\<lambda>t. t_storage (tensor_at h t)) ts)"
      using one_counterD [OF oc r] l by force
    then have "map_of (map (\<lambda>(t, (vs, st)). (st, vs)) (zip ts (staged_for h (zip ts us))))
        (t_storage (tensor_at h r)) = None"
      unfolding keys [symmetric] map_of_eq_None_iff set_map .
    then have "storage_of h' (tensor_at h' r) = storage_of h (tensor_at h r)"
      using st [OF sl(1) [OF r]] sk(2) [OF r] by simp
    then show ?thesis
      using ver [OF r] nc sk [OF r] by (simp add: logical_values_def logical_storage_index_def)
  qed
  have "tensor_version h' (ts ! i) = tensor_version h (ts ! i) + 1 \<and> gradient_of h' (ts ! i) = None"
    if "i < length ts" for i
    using ver [of "ts ! i"] grad [of "ts ! i"] l that by simp
  then show ?thesis
    using target other grad sk(1) unfolding transferred_def by simp
qed

lemma sound_quietly:
  assumes "heap_inv h" and "quietly h h'"
  shows "sound h (r, h')"
  using quietly_safe [OF assms, of r] assms(2) by (simp add: sound_def quietly_def persists_extends)

lemma transferred_quietly:
  assumes q: "quietly h h1" and wf: "wf_heap h" and tr: "transferred h1 ts us h2"
    and l: "\<forall>t \<in> set ts \<union> set us. t < length (tensors h)" and len: "length us = length ts"
  shows "transferred h ts us h2"
proof -
  have t: "tensors h1 = tensors h" using q by (simp add: quietly_def)
  have v: "logical_values h1 (tensor_at h1 r) = logical_values h (tensor_at h r)"
    "tensor_version h1 r = tensor_version h r" "tensor_identity h1 r = tensor_identity h r"
    if "r < length (tensors h)" for r
    using quiet_logical_values [OF wf q that] quiet_identity [OF q wf that] by simp_all
  have g: "gradient_of h1 = gradient_of h" using t by (simp add: gradient_of_def fun_eq_iff)
  have img: "tensor_identity h1 ` set ts = tensor_identity h ` set ts"
    using v(3) l by (intro image_cong) simp_all
  show ?thesis
    using tr v l len img unfolding transferred_def t g by (auto simp: t)
qed

text \<open>The targets and sources that were found, and what the loops need to know of them.\<close>

definition batch_ok :: "heap \<Rightarrow> tensor_ref list \<Rightarrow> tensor_ref list \<Rightarrow> bool" where
  "batch_ok h ts us \<longleftrightarrow> length us = length ts \<and> (\<forall>t \<in> set ts. public h t) \<and>
     (\<forall>u \<in> set us. u < length (tensors h)) \<and> distinct (map (tensor_identity h) ts) \<and>
     list_all2 (\<lambda>t u. dims_of (tensor_at h t) = dims_of (tensor_at h u)) ts us"

lemma batch_okD:
  assumes "batch_ok h ts us"
  shows "length us = length ts" "t \<in> set ts \<Longrightarrow> public h t" "u \<in> set us \<Longrightarrow> u < length (tensors h)"
    "t \<in> set ts \<Longrightarrow> t < length (tensors h)" "distinct (map (tensor_identity h) ts)"
    "list_all2 (\<lambda>t u. dims_of (tensor_at h t) = dims_of (tensor_at h u)) ts us"
    "(t, u) \<in> set (zip ts us) \<Longrightarrow> t \<in> set ts \<and> u \<in> set us \<and> dims_of (tensor_at h t) = dims_of (tensor_at h u)"
proof -
  show "length us = length ts" "t \<in> set ts \<Longrightarrow> public h t" "u \<in> set us \<Longrightarrow> u < length (tensors h)"
    "distinct (map (tensor_identity h) ts)"
    "list_all2 (\<lambda>t u. dims_of (tensor_at h t) = dims_of (tensor_at h u)) ts us"
    using assms by (simp_all add: batch_ok_def)
  then show "(t, u) \<in> set (zip ts us) \<Longrightarrow>
      t \<in> set ts \<and> u \<in> set us \<and> dims_of (tensor_at h t) = dims_of (tensor_at h u)"
    by (auto simp: list_all2_iff dest: set_zip_leftD set_zip_rightD)
  show "t \<in> set ts \<Longrightarrow> t < length (tensors h)"
    using assms publicD(1) by (simp add: batch_ok_def)
qed

lemma batch_ok_quietly:
  assumes q: "quietly h h'" and inv: "heap_inv h" and ok: "batch_ok h ts us"
  shows "batch_ok h' ts us"
proof -
  have t: "tensors h' = tensors h" using q by (simp add: quietly_def)
  have "map (tensor_identity h') ts = map (tensor_identity h) ts"
    using quiet_identity(1) [OF q heap_invD(1) [OF inv]] batch_okD(4) [OF ok] by simp
  then have "distinct (map (tensor_identity h') ts)" using batch_okD(5) [OF ok] by presburger
  moreover have "public h' r" if "public h r" for r
    using soundD(3) [OF sound_quietly [OF inv q]] that .
  ultimately show ?thesis using ok t by (simp add: batch_ok_def)
qed

lemma commit_all:
  assumes inv: "heap_inv h" and ok: "batch_ok h ts us" and dir: "\<forall>t \<in> set ts. direct h t"
    and run: "forE (zip ts (staged_for h (zip ts us))) commit_pair h = (res, h')"
  shows "res = Inr ()" "sound h (res, h')" "transferred h ts us h'"
proof -
  note b = batch_okD [OF ok] and wf = heap_invD(1) [OF inv]
  let ?items = "zip ts (staged_for h (zip ts us))"
  have items: "?items = map (\<lambda>(t, u). (t, (logical_values h (tensor_at h u), t_storage (tensor_at h t)))) (zip ts us)"
    using b(1) by (intro nth_equalityI) (simp_all add: staged_for_def)
  have tok: "\<forall>p \<in> set ?items. target_ok h p"
  proof
    fix p assume "p \<in> set ?items"
    then obtain t u where p: "(t, u) \<in> set (zip ts us)"
      "p = (t, (logical_values h (tensor_at h u), t_storage (tensor_at h t)))"
      unfolding items by auto
    note tu = b(7) [OF p(1)]
    have "numel_of (tensor_at h u) = numel_of (tensor_at h t)"
      using tensor_shape_facts(2) [OF wf] tu b(3,4) by simp
    then show "target_ok h p" using p(2) b(2) dir tu by (simp add: target_ok_def)
  qed
  have tl: "\<forall>t \<in> set ts. t < length (tensors h)" using b(4) by blast
  note dd = distinct_identities [OF heap_invD(3) [OF inv] b(5) tl]
  have m: "map (\<lambda>p. snd (snd p)) ?items = map (\<lambda>t. t_storage (tensor_at h t)) ts"
    "map (\<lambda>p. counter_of h (fst p)) ?items = map (counter_of h) ts"
    unfolding items using b(1) by (intro nth_equalityI; simp)+
  have ds: "distinct (map (\<lambda>p. snd (snd p)) ?items)" using dd(2) unfolding m .
  have dc: "distinct (map (\<lambda>p. counter_of h (fst p)) ?items)" using dd(1) unfolding m .
  note loop = commit_loop [OF inv tok ds dc]
  show r: "res = Inr ()" using triple_InlD [OF loop committed_Nil [OF inv]] run by (cases res) auto
  have co: "committed h ?items h'"
    using triple_InrD [OF loop committed_Nil [OF inv]] run r by simp
  then show "sound h (res, h')" using r by (simp add: committed_def sound_def safe_def)
  show "transferred h ts us h'"
    by (rule committed_transferred [OF inv b(1) tl dir b(5,6) co])
qed

lemma stage_all:
  assumes inv: "heap_inv h" and ok: "batch_ok h ts us"
    and run: "foldE (zip ts us) [] stage_pair h = (res, h')"
  shows "quietly h h'" "res = Inr staged \<Longrightarrow> staged = staged_for h' (zip ts us)"
    "res = Inr staged \<Longrightarrow> t \<in> set ts \<Longrightarrow> direct h' t"
proof -
  note b = batch_okD [OF ok] and wf = heap_invD(1) [OF inv]
  have pairs: "\<forall>(t, u) \<in> set (zip ts us). t < length (tensors h) \<and> u < length (tensors h)"
    using b(3,4,7) by blast
  note loop = stage_loop [OF wf pairs]
  have inr: "staging h (zip ts us) st h'" if "res = Inr st" for st
    using triple_InrD [OF loop staging_Nil] run that by simp
  show q: "quietly h h'"
    using inr triple_InlD [OF loop staging_Nil] run by (cases res) (auto simp: staging_def)
  have vals: "logical_values h' (tensor_at h' u) = logical_values h (tensor_at h u)"
    if "u < length (tensors h)" for u by (rule quiet_logical_values [OF wf q that])
  have t: "tensors h' = tensors h" using q by (simp add: quietly_def)
  show "staged = staged_for h' (zip ts us)" if "res = Inr staged"
    using inr [OF that] vals b(3,7) t unfolding staging_def staged_for_def by (auto simp: t)
  show "direct h' t" if r: "res = Inr staged" and t: "t \<in> set ts"
  proof -
    obtain u where "(t, u) \<in> set (zip ts us)" using t b(1) by (metis in_set_impl_in_set_zip1)
    then have "direct h t" using inr [OF r] by (auto simp: staging_def)
    moreover have "persists h h'" using q by (simp add: quietly_def persists_extends)
    ultimately show ?thesis
      using persists_direct [OF _ b(4) [OF t] wf_heap_layout [OF wf b(4) [OF t]]] by blast
  qed
qed

text \<open>The loops over the tensors that were found.\<close>

lemma assign_cpu_run:
  assumes inv: "heap_inv h" and ok: "batch_ok h ts us" and run: "assign_cpu ts us h = (res, h')"
  shows "sound h (res, h')" "case res of Inl f \<Rightarrow> quietly h h' | Inr x \<Rightarrow> transferred h ts us h'"
proof -
  note b = batch_okD [OF ok] and wf = heap_invD(1) [OF inv]
  let ?alloc = "allocation_guard ''tensor_assign_many'' (bindE request_alloc (\<lambda>_. request_alloc))"
  obtain r1 h1 where a: "?alloc h = (r1, h1)" by force
  have q1: "quietly h h1"
    using keepsD [OF keeps_allocation_guard [OF quiet.keeps_bind [OF quiet_request_alloc quiet_request_alloc]] a] .
  obtain r2 h2 where st: "foldE (zip ts us) [] stage_pair h1 = (r2, h2)" by force
  note s1 = soundD [OF sound_quietly [OF inv q1, of "()"]]
  note stg = stage_all [OF s1(1) batch_ok_quietly [OF q1 inv ok] st]
  have q2: "quietly h h2" using quiet.frame_trans [OF q1 stg(1)] .
  note s2 = soundD [OF sound_quietly [OF inv q2, of "()"]]
  consider (failed) f where "res = Inl f" "quietly h h'"
    | (finished) x staged where "r1 = Inr x" "r2 = Inr staged" "forE (zip ts staged) commit_pair h2 = (res, h')"
    using run a st q1 q2 by (cases r1; cases r2) (auto simp: assign_cpu_def exec_simps)
  then have "sound h (res, h') \<and> (case res of Inl f \<Rightarrow> quietly h h' | Inr x \<Rightarrow> transferred h ts us h')"
  proof cases
    case failed
    then show ?thesis using sound_quietly [OF inv] by simp
  next
    case (finished x staged)
    have "forE (zip ts (staged_for h2 (zip ts us))) commit_pair h2 = (res, h')"
      using finished(3) stg(2) [OF finished(2)] by simp
    note c = commit_all [OF s2(1) batch_ok_quietly [OF q2 inv ok] _ this]
    have dir: "\<forall>t \<in> set ts. direct h2 t" using stg(3) [OF finished(2)] by blast
    have "transferred h ts us h'"
      using transferred_quietly [OF q2 wf c(3) [OF dir]] b(1,3,4) by blast
    then show ?thesis using c(1,2) [OF dir] sound_trans [OF s2, of "(res, h')"] by simp
  qed
  then show "sound h (res, h')" "case res of Inl f \<Rightarrow> quietly h h' | Inr x \<Rightarrow> transferred h ts us h'"
    by blast+
qed

lemma idle_sound: "heap_inv (rt_heap s) \<Longrightarrow> idle s s' \<Longrightarrow> sound (rt_heap s) (r, rt_heap s')"
  by (rule sound_quietly [OF _ idleD(1)])

lemma map_Some_mem:
  assumes "map f xs = map Some ys" and "y \<in> set ys"
  obtains x where "f x = Some y"
proof -
  have "f ` set xs = Some ` set ys" using arg_cong [OF assms(1), of set] by simp
  moreover have "Some y \<in> Some ` set ys" using assms(2) by (rule imageI)
  ultimately have "Some y \<in> f ` set xs" by (simp only:)
  then obtain x where "Some y = f x" by (rule imageE)
  then show thesis using that [of x] by simp
qed

lemma collected_batch:
  assumes inv: "core_inv s" and c: "collected s pairs b"
  shows "batch_ok (rt_heap s) (ab_targets b) (ab_sources b)"
proof -
  note ci = core_invD(3) [OF inv]
  have m: "map (\<lambda>p. tensor_handle s (fst p)) pairs = map Some (ab_targets b)"
    "map (\<lambda>p. tensor_handle s (snd p)) pairs = map Some (ab_sources b)"
    and rest: "distinct (map (tensor_identity (rt_heap s)) (ab_targets b))"
      "list_all2 (\<lambda>t u. dims_of (tensor_at (rt_heap s) t) = dims_of (tensor_at (rt_heap s) u))
         (ab_targets b) (ab_sources b)"
    using c by (simp_all add: collected_def)
  have "public (rt_heap s) t" if "t \<in> set (ab_targets b)" for t
    by (rule map_Some_mem [OF m(1) that]) (rule ci)
  moreover have "u < length (tensors (rt_heap s))" if "u \<in> set (ab_sources b)" for u
    by (rule map_Some_mem [OF m(2) that]) (rule publicD(1) [OF ci])
  ultimately show ?thesis
    using rest list_all2_lengthD [OF rest(2)] by (simp add: batch_ok_def)
qed

lemma AssignMany_run:
  assumes inv: "core_inv s" and run: "AssignMany targets sources n s = (res, s')"
  shows "s' = s\<lparr>rt_heap := rt_heap s'\<rparr>" "sound (rt_heap s) (res, rt_heap s')"
    "res = Inl f \<Longrightarrow> quietly (rt_heap s) (rt_heap s')"
    "res = Inr x \<Longrightarrow> 0 < n \<Longrightarrow> \<exists>ts us a b. targets = Some a \<and> sources = Some b \<and>
       map (\<lambda>p. tensor_handle s (fst p)) (zip (take n a) (take n b)) = map Some ts \<and>
       map (\<lambda>p. tensor_handle s (snd p)) (zip (take n a) (take n b)) = map Some us \<and>
       transferred (rt_heap s) ts us (rt_heap s')"
proof -
  let ?alloc = "heapE (allocation_guard ''tensor_assign_many'' (bindE request_alloc (\<lambda>_. request_alloc)))"
  let ?pairs = "zip (take n (the targets)) (take n (the sources))"
  note hinv = core_invD(1) [OF inv]
  have al: "keeps idle ?alloc"
    by (intro idle_heapE keeps_allocation_guard quiet.keeps_bind quiet_request_alloc)
  define spec where "spec = (\<lambda>ts us h'. map (\<lambda>p. tensor_handle s (fst p)) ?pairs = map Some ts \<and>
       map (\<lambda>p. tensor_handle s (snd p)) ?pairs = map Some us \<and> transferred (rt_heap s) ts us h')"
  have "s' = s\<lparr>rt_heap := rt_heap s'\<rparr> \<and> sound (rt_heap s) (res, rt_heap s') \<and>
      (case res of Inl f \<Rightarrow> quietly (rt_heap s) (rt_heap s')
       | Inr x \<Rightarrow> 0 < n \<longrightarrow> targets \<noteq> None \<and> sources \<noteq> None \<and> (\<exists>ts us. spec ts us (rt_heap s')))"
  proof (cases "n = 0 \<or> targets = None \<or> sources = None")
    case True
    then show ?thesis
      using run hinv quiet.frame_refl [of "rt_heap s"]
      by (auto simp: AssignMany_def returnE_run checkE_run sound_same split: if_splits)
  next
    case False
    obtain r1 s1 where a: "?alloc s = (r1, s1)" by force
    have i1: "idle s s1" using keepsD [OF al a] .
    obtain r2 s2 where l: "foldE ?pairs empty_batch assign_pair s1 = (r2, s2)" by force
    have pre: "idle s s1 \<and> collected s [] empty_batch" using i1 collected_empty by blast
    have i2: "idle s s2"
      using triple_InlD [OF collect_loop [OF inv] pre] triple_InrD [OF collect_loop [OF inv] pre] l
      by (cases r2) blast+
    have quiet: "s' = s\<lparr>rt_heap := rt_heap s'\<rparr> \<and> sound (rt_heap s) (res, rt_heap s') \<and>
        quietly (rt_heap s) (rt_heap s')" if "idle s s'"
      using that idle_sound [OF hinv that] by (simp add: idle_def)
    consider (failed) f where "res = Inl f" "idle s s'"
      | (cpu) x b where "r1 = Inr x" "r2 = Inr b" "heapE (assign_cpu (ab_targets b) (ab_sources b)) s2 = (res, s')"
      using run a l False i1 i2
      by (cases r1; cases r2) (auto simp: AssignMany_def exec_simps split: if_splits)
    then show ?thesis
    proof cases
      case failed
      then show ?thesis using quiet by simp
    next
      case (cpu x b)
      have col: "collected s ?pairs b" using triple_InrD [OF collect_loop [OF inv] pre] l cpu(2) by blast
      note bo = collected_batch [OF inv col] and q2 = idleD(1) [OF i2]
      obtain h' where h': "assign_cpu (ab_targets b) (ab_sources b) (rt_heap s2) = (res, h')"
        "s' = s2\<lparr>rt_heap := h'\<rparr>" using cpu(3) by (auto simp: heapE_def split: prod.splits)
      note s2 = soundD [OF sound_quietly [OF hinv q2, of "()"]]
      note run2 = assign_cpu_run [OF s2(1) batch_ok_quietly [OF q2 hinv bo] h'(1)]
      have "s2 = s\<lparr>rt_heap := rt_heap s2\<rparr>" using i2 by (simp add: idle_def)
      then have "s' = s\<lparr>rt_heap := h'\<rparr>" using h'(2) by (metis (no_types) runtime.surjective runtime.update_convs(1))
      moreover have "sound (rt_heap s) (res, h')" using sound_trans [OF s2 run2(1)] .
      moreover have "quietly (rt_heap s) h'" if "res = Inl f" for f
        using run2(2) that quiet.frame_trans [OF q2] by simp
      moreover have "spec (ab_targets b) (ab_sources b) h'" if "res = Inr y" for y
      proof -
        have "\<forall>t \<in> set (ab_targets b) \<union> set (ab_sources b). t < length (tensors (rt_heap s))"
          using batch_okD(3,4) [OF bo] by blast
        then have "transferred (rt_heap s) (ab_targets b) (ab_sources b) h'"
          using run2(2) that transferred_quietly [OF q2 heap_invD(1) [OF hinv] _ _ batch_okD(1) [OF bo]]
          by simp
        then show ?thesis using col by (simp add: spec_def collected_def)
      qed
      ultimately show ?thesis using False h'(2) by (auto split: sum.splits)
    qed
  qed
  then show "s' = s\<lparr>rt_heap := rt_heap s'\<rparr>" "sound (rt_heap s) (res, rt_heap s')"
    "res = Inl f \<Longrightarrow> quietly (rt_heap s) (rt_heap s')"
    "res = Inr x \<Longrightarrow> 0 < n \<Longrightarrow> \<exists>ts us a b. targets = Some a \<and> sources = Some b \<and>
       map (\<lambda>p. tensor_handle s (fst p)) (zip (take n a) (take n b)) = map Some ts \<and>
       map (\<lambda>p. tensor_handle s (snd p)) (zip (take n a) (take n b)) = map Some us \<and>
       transferred (rt_heap s) ts us (rt_heap s')"
    by (auto simp: spec_def)
qed

end
