(* ===== verification/Optimizer_Spec.thy ===== *)
theory Optimizer_Spec
  imports Tensor_State_Spec
begin

text \<open>
  What a step of an optimizer computes.  \<open>reference_step\<close> is one pass over the parameters as a pure
  function of the optimizer's core and the heap; the optimizers of modules and of tensor lists both
  implement it.  The loops over the elements of a parameter are the elementwise formulas of
  stochastic gradient descent and of Adam.
\<close>

section \<open>The loops over the elements\<close>

definition sgd_map :: "'m optimizer_core_scheme \<Rightarrow> f32 list \<Rightarrow> f32 list \<Rightarrow> f32 list \<Rightarrow> f32 list \<times> f32 list" where
  "sgd_map c values gradient first =
     (map (\<lambda>i. fst (sgd_element c (values ! i) (gradient ! i) (first ! i))) [0..<length values],
      map (\<lambda>i. snd (sgd_element c (values ! i) (gradient ! i) (first ! i))) [0..<length values])"

lemma sgd_loop_prefix:
  assumes "n \<le> length values" and "length first = length values"
  shows "sgd_loop c gradient n (values, first) =
    (take n (fst (sgd_map c values gradient first)) @ drop n values,
     take n (snd (sgd_map c values gradient first)) @ drop n first)"
  using assms
proof (induction n)
  case 0
  then show ?case by (simp add: sgd_loop_def)
next
  case (Suc n)
  let ?A = "fst (sgd_map c values gradient first)" and ?B = "snd (sgd_map c values gradient first)"
  have len: "length ?A = length values" "length ?B = length values" by (simp_all add: sgd_map_def)
  have IH: "sgd_loop c gradient n (values, first) = (take n ?A @ drop n values, take n ?B @ drop n first)"
    using Suc by simp
  have v: "(take n ?A @ drop n values) ! n = values ! n" "(take n ?B @ drop n first) ! n = first ! n"
    using Suc.prems len by (simp_all add: nth_append)
  have upd: "(take n xs @ drop n ys)[n := xs ! n] = take (Suc n) xs @ drop (Suc n) ys"
    if "n < length ys" "length xs = length ys" for xs ys :: "f32 list"
    using that by (simp add: list_update_append take_Suc_conv_app_nth Cons_nth_drop_Suc [symmetric])
  have e: "sgd_element c (values ! n) (gradient ! n) (first ! n) = (?A ! n, ?B ! n)"
    using Suc.prems by (simp add: sgd_map_def)
  have "sgd_loop c gradient (Suc n) (values, first) =
      (case sgd_loop c gradient n (values, first) of (vs, ms) \<Rightarrow>
         case sgd_element c (vs ! n) (gradient ! n) (ms ! n) of (x, m) \<Rightarrow> (vs[n := x], ms[n := m]))"
    by (simp add: sgd_loop_def)
  then show ?case
    using IH v e upd [of "values" ?A] upd [of first ?B] Suc.prems len by simp
qed

lemma sgd_loop_map:
  assumes "length first = length values"
  shows "sgd_loop c gradient (length values) (values, first) = sgd_map c values gradient first"
  using sgd_loop_prefix [OF order_refl assms, of c gradient] assms
  by (simp add: sgd_map_def)

definition adam_map :: "libm \<Rightarrow> 'm optimizer_core_scheme \<Rightarrow> f32 list \<Rightarrow> f32 list \<Rightarrow> f32 list \<Rightarrow> f32 list \<Rightarrow>
    f32 list \<times> f32 list \<times> f32 list" where
  "adam_map L c values gradient first second =
     (let element = (\<lambda>i. adam_element c (pow64 L (oc_beta1 c) (f64_of_nat (unat (oc_step c))))
            (pow64 L (oc_beta2 c) (f64_of_nat (unat (oc_step c))))
            (values ! i) (gradient ! i) (first ! i) (second ! i))
      in (map (\<lambda>i. fst (element i)) [0..<length values],
          map (\<lambda>i. fst (snd (element i))) [0..<length values],
          map (\<lambda>i. snd (snd (element i))) [0..<length values]))"

lemma adam_loop_prefix:
  assumes "n \<le> length values" and "length first = length values" and "length second = length values"
  shows "adam_loop L c gradient n (values, first, second) =
    (case adam_map L c values gradient first second of (A, B, C) \<Rightarrow>
       (take n A @ drop n values, take n B @ drop n first, take n C @ drop n second))"
  using assms
proof (induction n)
  case 0
  then show ?case by (simp add: adam_loop_def adam_map_def Let_def)
next
  case (Suc n)
  obtain A B C where m: "adam_map L c values gradient first second = (A, B, C)" by (metis prod_cases3)
  then have len: "length A = length values" "length B = length values" "length C = length values"
    by (auto simp: adam_map_def Let_def)
  let ?e = "\<lambda>i. adam_element c (pow64 L (oc_beta1 c) (f64_of_nat (unat (oc_step c))))
    (pow64 L (oc_beta2 c) (f64_of_nat (unat (oc_step c)))) (values ! i) (gradient ! i) (first ! i) (second ! i)"
  have e: "?e n = (A ! n, B ! n, C ! n)"
    using m Suc.prems by (auto simp: adam_map_def Let_def)
  have IH: "adam_loop L c gradient n (values, first, second) =
      (take n A @ drop n values, take n B @ drop n first, take n C @ drop n second)"
    using Suc m by simp
  have v: "(take n A @ drop n values) ! n = values ! n" "(take n B @ drop n first) ! n = first ! n"
    "(take n C @ drop n second) ! n = second ! n"
    using Suc.prems len by (simp_all add: nth_append)
  have upd: "(take n xs @ drop n ys)[n := xs ! n] = take (Suc n) xs @ drop (Suc n) ys"
    if "n < length ys" "length xs = length ys" for xs ys :: "f32 list"
    using that by (simp add: list_update_append take_Suc_conv_app_nth Cons_nth_drop_Suc [symmetric])
  have "adam_loop L c gradient (Suc n) (values, first, second) =
      (case adam_loop L c gradient n (values, first, second) of (vs, ms, ss) \<Rightarrow>
         case adam_element c (pow64 L (oc_beta1 c) (f64_of_nat (unat (oc_step c))))
            (pow64 L (oc_beta2 c) (f64_of_nat (unat (oc_step c)))) (vs ! n) (gradient ! n) (ms ! n) (ss ! n) of
           (x, m, v) \<Rightarrow> (vs[n := x], ms[n := m], ss[n := v]))"
    by (simp add: adam_loop_def Let_def)
  then show ?case
    using IH v e m upd [of "values" A] upd [of first B] upd [of second C] Suc.prems len by simp
qed

lemma adam_loop_map:
  assumes "length first = length values" and "length second = length values"
  shows "adam_loop L c gradient (length values) (values, first, second) =
    adam_map L c values gradient first second"
  using adam_loop_prefix [OF order_refl assms, of L c gradient] assms
  by (auto simp: adam_map_def Let_def)

section \<open>The update of one parameter\<close>

lemma truncate_core [simp]:
  "oc_kind (optimizer_core.truncate c) = oc_kind c"
  "oc_learning_rate (optimizer_core.truncate c) = oc_learning_rate c"
  "oc_momentum (optimizer_core.truncate c) = oc_momentum c"
  "oc_beta1 (optimizer_core.truncate c) = oc_beta1 c"
  "oc_beta2 (optimizer_core.truncate c) = oc_beta2 c"
  "oc_epsilon (optimizer_core.truncate c) = oc_epsilon c"
  "oc_weight_decay (optimizer_core.truncate c) = oc_weight_decay c"
  "oc_step (optimizer_core.truncate c) = oc_step c"
  "oc_first_moment (optimizer_core.truncate c) = oc_first_moment c"
  "oc_second_moment (optimizer_core.truncate c) = oc_second_moment c"
  by (simp_all add: optimizer_core.truncate_def)

lemma truncate_updates:
  "optimizer_core.truncate (c\<lparr>oc_first_moment := x\<rparr>) = (optimizer_core.truncate c)\<lparr>oc_first_moment := x\<rparr>"
  "optimizer_core.truncate (c\<lparr>oc_second_moment := y\<rparr>) = (optimizer_core.truncate c)\<lparr>oc_second_moment := y\<rparr>"
  "optimizer_core.truncate (c\<lparr>oc_step := z\<rparr>) = (optimizer_core.truncate c)\<lparr>oc_step := z\<rparr>"
  by (simp_all add: optimizer_core.truncate_def)

lemma truncate_elements:
  "sgd_element (optimizer_core.truncate c) = sgd_element c"
  "adam_element (optimizer_core.truncate c) = adam_element c"
  by (simp_all add: fun_eq_iff sgd_element_def adam_element_def Let_def cong: if_cong)

lemma update_parameter_core:
  "fst (update_parameter L (optimizer_core.truncate c) i vs g) = fst (update_parameter L c i vs g)"
  "snd (update_parameter L (optimizer_core.truncate c) i vs g) =
     optimizer_core.truncate (snd (update_parameter L c i vs g))"
  by (simp_all add: update_parameter_def sgd_loop_def adam_loop_def truncate_elements truncate_updates
      split: prod.split)

lemma update_parameter_frame:
  "oc_kind (snd (update_parameter L c i vs g)) = oc_kind c"
  "oc_step (snd (update_parameter L c i vs g)) = oc_step c"
  "optimizer_core.more (snd (update_parameter L c i vs g)) = optimizer_core.more c"
  by (simp_all add: update_parameter_def split: prod.split)

lemma map_length_update:
  assumes "length ys = length (xss ! i)"
  shows "map length (xss[i := ys]) = map length xss"
proof (cases "i < length xss")
  case True
  then have "(map length xss)[i := length ys] = map length xss"
    using assms by (simp add: list_update_same_conv)
  then show ?thesis by (simp add: map_update)
qed (simp add: list_update_beyond)

lemma update_parameter_lengths:
  "length (fst (update_parameter L c i vs g)) = length vs"
  "map length (oc_first_moment (snd (update_parameter L c i vs g))) = map length (oc_first_moment c)"
  "map length (oc_second_moment (snd (update_parameter L c i vs g))) = map length (oc_second_moment c)"
proof -
  have s: "length (fst x) = length vs \<and> length (snd x) = length ms"
    if "x = sgd_loop c g n (vs, ms)" for x n and ms :: "f32 list"
    unfolding that sgd_loop_def by (rule loop_preserves) (auto split: prod.splits)
  have a: "length (fst x) = length vs \<and> length (fst (snd x)) = length ms \<and> length (snd (snd x)) = length ss"
    if "x = adam_loop L c g n (vs, ms, ss)" for x n and ms ss :: "f32 list"
    unfolding that adam_loop_def Let_def by (rule loop_preserves) (auto split: prod.splits)
  note s' = s [OF refl, of "length vs" "oc_first_moment c ! i"]
  note a' = a [OF refl, of "length vs" "oc_first_moment c ! i" "oc_second_moment c ! i"]
  show "length (fst (update_parameter L c i vs g)) = length vs"
    "map length (oc_first_moment (snd (update_parameter L c i vs g))) = map length (oc_first_moment c)"
    "map length (oc_second_moment (snd (update_parameter L c i vs g))) = map length (oc_second_moment c)"
    using s' a' by (simp_all add: update_parameter_def case_prod_unfold map_length_update)
qed

section \<open>One pass over the parameters\<close>

definition put_values :: "heap \<Rightarrow> tensor_ref \<Rightarrow> f32 list \<Rightarrow> heap" where
  "put_values h p vs = snd (increment_version p
     (h\<lparr>storages := (storages h)[t_storage (tensor_at h p) := CpuStorage vs]\<rparr>))"

definition reference_parameter :: "libm \<Rightarrow> nat \<times> tensor_ref \<Rightarrow> optimizer_core \<times> heap \<Rightarrow> optimizer_core \<times> heap" where
  "reference_parameter L = (\<lambda>(i, p) (c, h). case gradient_of h p of
       None \<Rightarrow> (c, h)
     | Some g \<Rightarrow> (case update_parameter L c i (logical_values h (tensor_at h p))
           (logical_values h (tensor_at h g)) of (vs, c') \<Rightarrow> (c', put_values h p vs)))"

definition reference_step :: "libm \<Rightarrow> tensor_ref list \<Rightarrow> optimizer_core \<times> heap \<Rightarrow> optimizer_core \<times> heap" where
  "reference_step L ps = (\<lambda>(c, h).
     fold (reference_parameter L) (enumerate 0 ps) (c\<lparr>oc_step := oc_step c + 1\<rparr>, h))"

definition steppable :: "heap \<Rightarrow> tensor_ref \<Rightarrow> bool" where
  "steppable h p \<longleftrightarrow> heap_inv h \<and> public h p \<and> direct h p"

lemma steppable_gradient:
  assumes st: "steppable h p" and g: "gradient_of h p = Some g"
  shows "g < length (tensors h)" "direct h g" "numel_of (tensor_at h g) = numel_of (tensor_at h p)"
proof -
  have wf: "wf_heap h" and p: "p < length (tensors h)"
    using st heap_invD(1) publicD(1) by (simp_all add: steppable_def)
  note b = wf_gradient_buffer [OF wf p g] and f = tensor_shape_facts [OF wf p]
  show "g < length (tensors h)" "numel_of (tensor_at h g) = numel_of (tensor_at h p)"
    using b f(2) by (simp_all add: buffer_ok_def)
  show "direct h g"
    using b buffer_contiguous [OF b f(1)] by (simp add: direct_def buffer_ok_def)
qed

lemma put_values_sound:
  assumes st: "steppable h p" and len: "length vs = numel_of (tensor_at h p)"
  shows "sound h ((), put_values h p vs)"
proof -
  have inv: "heap_inv h" and p: "p < length (tensors h)" "direct h p"
    using st publicD(1) by (simp_all add: steppable_def)
  obtain old where old: "storages h ! t_storage (tensor_at h p) = CpuStorage old"
    "length old = numel_of (tensor_at h p)" using direct_vector [OF heap_invD(1) [OF inv] p] by metis
  have w: "sound h ((), h\<lparr>storages := (storages h)[t_storage (tensor_at h p) := CpuStorage vs]\<rparr>)"
    using sound_write [OF inv p, of vs] old len by (simp add: write_values_def sound_def safe_def)
  note s1 = soundD [OF w]
  have "sound (h\<lparr>storages := (storages h)[t_storage (tensor_at h p) := CpuStorage vs]\<rparr>) ((), put_values h p vs)"
    using sound_version [OF s1(1), of p] by (simp add: put_values_def sound_def safe_def)
  then show ?thesis by (rule sound_step [OF w])
qed

lemma reference_parameter_sound:
  assumes st: "steppable h p" and run: "reference_parameter L (i, p) (c, h) = (c', h')"
  shows "sound h ((), h')" "alloc_plan h' = alloc_plan h"
    "map length (oc_first_moment c') = map length (oc_first_moment c)"
    "map length (oc_second_moment c') = map length (oc_second_moment c)" "oc_kind c' = oc_kind c"
proof -
  have "sound h ((), h') \<and> alloc_plan h' = alloc_plan h \<and>
    map length (oc_first_moment c') = map length (oc_first_moment c) \<and>
    map length (oc_second_moment c') = map length (oc_second_moment c) \<and> oc_kind c' = oc_kind c"
  proof (cases "gradient_of h p")
    case None
    then show ?thesis using run st by (simp add: reference_parameter_def steppable_def sound_same)
  next
    case (Some g)
    let ?u = "update_parameter L c i (logical_values h (tensor_at h p)) (logical_values h (tensor_at h g))"
    have r: "c' = snd ?u" "h' = put_values h p (fst ?u)"
      using run Some by (simp_all add: reference_parameter_def split: prod.splits)
    have "sound h ((), h')"
      unfolding r by (rule put_values_sound [OF st]) (simp add: update_parameter_lengths)
    then show ?thesis
      unfolding r by (simp add: update_parameter_lengths update_parameter_frame put_values_def
          increment_version_def Let_def)
  qed
  then show "sound h ((), h')" "alloc_plan h' = alloc_plan h"
    "map length (oc_first_moment c') = map length (oc_first_moment c)"
    "map length (oc_second_moment c') = map length (oc_second_moment c)" "oc_kind c' = oc_kind c"
    by blast+
qed

lemma sound_steppable:
  assumes "sound h ((), h')" and "steppable h p"
  shows "steppable h' p"
proof -
  note sd = soundD [OF assms(1)]
  have p: "heap_inv h" "public h p" "direct h p" using assms(2) by (simp_all add: steppable_def)
  note l = publicD(1) [OF p(2)]
  have "direct h' p"
    by (rule persists_direct [OF sd(2) l wf_heap_layout [OF heap_invD(1) [OF p(1)] l] p(3)])
  then show ?thesis using sd(1) sd(3) [OF p(2)] by (simp add: steppable_def)
qed

lemma reference_loop_sound:
  assumes "heap_inv h" and "\<forall>(i, p) \<in> set ips. steppable h p"
    and "fold (reference_parameter L) ips (c, h) = (c', h')"
  shows "sound h ((), h')" "map length (oc_first_moment c') = map length (oc_first_moment c)"
    "map length (oc_second_moment c') = map length (oc_second_moment c)" "oc_kind c' = oc_kind c"
proof -
  have "sound h ((), h') \<and> map length (oc_first_moment c') = map length (oc_first_moment c) \<and>
    map length (oc_second_moment c') = map length (oc_second_moment c) \<and> oc_kind c' = oc_kind c"
    using assms
  proof (induction ips arbitrary: c h)
    case Nil
    then show ?case by (simp add: sound_same)
  next
    case (Cons ip ips)
    obtain i p where ip: "ip = (i, p)" by force
    obtain c1 h1 where r: "reference_parameter L (i, p) (c, h) = (c1, h1)" by force
    have st: "steppable h p" using Cons.prems(2) ip by simp
    note f = reference_parameter_sound [OF st r]
    note s1 = soundD [OF f(1)]
    have "\<forall>(i, p) \<in> set ips. steppable h1 p"
      using Cons.prems(2) sound_steppable [OF f(1)] by auto
    from Cons.IH [OF s1(1) this] Cons.prems(3) ip r
    show ?case using f sound_step [OF f(1), of "((), h')"] by simp
  qed
  then show "sound h ((), h')" "map length (oc_first_moment c') = map length (oc_first_moment c)"
    "map length (oc_second_moment c') = map length (oc_second_moment c)" "oc_kind c' = oc_kind c"
    by blast+
qed

section \<open>Two optimizers with one contract\<close>

text \<open>
  The contract of the body of a step's loop: on optimizer \<open>k\<close> and a parameter that can be written, it
  does what \<open>reference_parameter\<close> says.  \<open>core\<close> and \<open>store\<close> read and write the core of an optimizer in
  the runtime; \<open>able\<close> says that no read of a gradient can fail.
\<close>

locale parameter_stepper =
  fixes body :: "libm \<Rightarrow> nat \<Rightarrow> nat \<Rightarrow> tensor_ref \<Rightarrow> ('r training_runtime_scheme, unit) run"
    and core :: "'r training_runtime_scheme \<Rightarrow> nat \<Rightarrow> optimizer_core"
    and store :: "nat \<Rightarrow> optimizer_core \<Rightarrow> 'r training_runtime_scheme \<Rightarrow> 'r training_runtime_scheme"
    and valid :: "'r training_runtime_scheme \<Rightarrow> nat \<Rightarrow> bool"
    and able :: "heap \<Rightarrow> bool"
  assumes store_core: "store k (core s k) s = s"
    and core_store: "valid s k \<Longrightarrow> core (store k c (s\<lparr>rt_heap := h\<rparr>)) k = c"
    and store_store: "store k c ((store k c' (s\<lparr>rt_heap := h'\<rparr>))\<lparr>rt_heap := h\<rparr>) = store k c (s\<lparr>rt_heap := h\<rparr>)"
    and heap_store: "rt_heap (store k c s) = rt_heap s"
    and valid_store: "valid (store k c (s\<lparr>rt_heap := h\<rparr>)) k = valid s k"
    and able_plan: "alloc_plan h' = alloc_plan h \<Longrightarrow> able h' = able h"
    and body_reference: "valid s k \<Longrightarrow> able (rt_heap s) \<Longrightarrow> steppable (rt_heap s) p \<Longrightarrow>
      reference_parameter L (i, p) (core s k, rt_heap s) = (c, h) \<Longrightarrow>
      body L k i p s = (Inr (), store k c (s\<lparr>rt_heap := h\<rparr>))"
begin

lemma loop_reference:
  assumes "valid s k" and "able (rt_heap s)" and "\<forall>(i, p) \<in> set ips. steppable (rt_heap s) p"
    and "fold (reference_parameter L) ips (core s k, rt_heap s) = (c, h)"
  shows "forE ips (\<lambda>(i, p). body L k i p) s = (Inr (), store k c (s\<lparr>rt_heap := h\<rparr>))"
  using assms
proof (induction ips arbitrary: s)
  case Nil
  then have ch: "c = core s k" "h = rt_heap s" by simp_all
  have "s\<lparr>rt_heap := rt_heap s\<rparr> = s" by simp
  then show ?case unfolding ch by (simp add: store_core returnE_run)
next
  case (Cons ip ips)
  obtain i p where ip: "ip = (i, p)" by force
  obtain c1 h1 where r: "reference_parameter L (i, p) (core s k, rt_heap s) = (c1, h1)" by force
  let ?s1 = "store k c1 (s\<lparr>rt_heap := h1\<rparr>)"
  have st: "steppable (rt_heap s) p" using Cons.prems(3) ip by simp
  have b: "body L k i p s = (Inr (), ?s1)" using body_reference [OF Cons.prems(1,2) st r] .
  note f = reference_parameter_sound [OF st r]
  have "forE ips (\<lambda>(i, p). body L k i p) ?s1 = (Inr (), store k c (?s1\<lparr>rt_heap := h\<rparr>))"
  proof (rule Cons.IH)
    show "valid ?s1 k" using valid_store Cons.prems(1) by simp
    show "able (rt_heap ?s1)" using able_plan [OF f(2)] Cons.prems(2) heap_store by simp
    show "\<forall>(i, p) \<in> set ips. steppable (rt_heap ?s1) p"
      using Cons.prems(3) sound_steppable [OF f(1)] heap_store by auto
    show "fold (reference_parameter L) ips (core ?s1 k, rt_heap ?s1) = (c, h)"
      using Cons.prems(1,4) ip r core_store heap_store by simp
  qed
  then show ?case using b ip store_store by (simp add: bindE_Inr_run)
qed

end

text \<open>Writing the core of an optimizer back into its list.\<close>

definition put_core :: "optimizer_core \<Rightarrow> 'm optimizer_core_scheme \<Rightarrow> 'm optimizer_core_scheme" where
  "put_core c k = optimizer_core.extend c (optimizer_core.more k)"

lemma put_core_simps [simp]:
  "optimizer_core.truncate (put_core c k) = c" "put_core (optimizer_core.truncate k) k = k"
  "put_core c (put_core c' k) = put_core c k" "oc_first_moment (put_core c k) = oc_first_moment c"
  "oc_second_moment (put_core c k) = oc_second_moment c" "oc_kind (put_core c k) = oc_kind c"
  "oc_step (put_core c k) = oc_step c"
  by (simp_all add: put_core_def optimizer_core.extend_def optimizer_core.truncate_def)

lemma put_core_step: "put_core ((optimizer_core.truncate k)\<lparr>oc_step := x\<rparr>) k = k\<lparr>oc_step := x\<rparr>"
  by (cases k rule: optimizer_core.cases_scheme)
    (simp add: put_core_def optimizer_core.extend_def optimizer_core.truncate_def)

lemma put_core_more [simp]:
  fixes k :: optimizer_state and j :: parameter_optimizer
  shows "os_module (put_core c k) = os_module k" "po_parameters (put_core c j) = po_parameters j"
    "po_storage_kind (put_core c j) = po_storage_kind j"
  by (cases k; simp add: put_core_def optimizer_core.extend_def)
    (cases j; simp add: put_core_def optimizer_core.extend_def)+

definition store_optimizer ::
    "nat \<Rightarrow> optimizer_core \<Rightarrow> 'r training_runtime_scheme \<Rightarrow> 'r training_runtime_scheme" where
  "store_optimizer k c s =
     s\<lparr>rt_optimizers := (rt_optimizers s)[k := put_core c (rt_optimizers s ! k)]\<rparr>"

definition store_parameter_optimizer ::
    "nat \<Rightarrow> optimizer_core \<Rightarrow> 'r training_runtime_scheme \<Rightarrow> 'r training_runtime_scheme" where
  "store_parameter_optimizer k c s = s\<lparr>rt_parameter_optimizers :=
     (rt_parameter_optimizers s)[k := put_core c (rt_parameter_optimizers s ! k)]\<rparr>"

text \<open>Reading and writing a parameter and its gradient.\<close>

lemma steppable_reads:
  assumes st: "steppable h p"
  shows "MutableCpuValues p op h = (Inr (t_storage (tensor_at h p)), h)"
    "cpu_values (storages h ! t_storage (tensor_at h p)) = logical_values h (tensor_at h p)"
    "gradient_of h p = Some g \<Longrightarrow> CpuValues g op h = (Inr (logical_values h (tensor_at h g)), h)"
    "gradient_of h p = Some g \<Longrightarrow> alloc_plan h = [] \<Longrightarrow>
      ReadLogicalCpuValues g op h = (Inr (logical_values h (tensor_at h g)), h)"
proof -
  have wf: "wf_heap h" and p: "p < length (tensors h)" "direct h p"
    using st heap_invD(1) publicD(1) by (simp_all add: steppable_def)
  note lay = wf_heap_layout [OF wf p(1)]
  show "MutableCpuValues p op h = (Inr (t_storage (tensor_at h p)), h)"
    using MutableCpuValues_run [OF lay, of op] p(2) by auto
  show "cpu_values (storages h ! t_storage (tensor_at h p)) = logical_values h (tensor_at h p)"
    by (rule direct_values [OF lay p(2)])
  show "CpuValues g op h = (Inr (logical_values h (tensor_at h g)), h)" if g: "gradient_of h p = Some g"
    using CpuValues_direct [OF wf_heap_layout [OF wf steppable_gradient(1) [OF st g]] steppable_gradient(2) [OF st g]] .
  show "ReadLogicalCpuValues g op h = (Inr (logical_values h (tensor_at h g)), h)"
    if g: "gradient_of h p = Some g" and "alloc_plan h = []"
    by (rule ReadLogical_ok [OF wf steppable_gradient(1) [OF st g] that(2)])
qed

lemma update_parameter_put:
  "put_core (snd (update_parameter L (optimizer_core.truncate k) i vs g)) k = snd (update_parameter L k i vs g)"
proof -
  have "put_core (optimizer_core.truncate k') k = k'" if "optimizer_core.more k' = optimizer_core.more k" for k'
    using put_core_simps(2) [of k'] that by (simp add: put_core_def)
  then show ?thesis using update_parameter_frame(3) [of L k i vs g] by (simp add: update_parameter_core)
qed

lemma optimizer_step_parameter_reference:
  assumes st: "steppable (rt_heap s) p"
    and r: "reference_parameter L (i, p) (optimizer_core.truncate (rt_optimizers s ! k), rt_heap s) = (c, h)"
  shows "optimizer_step_parameter L k i p s = (Inr (), store_optimizer k c (s\<lparr>rt_heap := h\<rparr>))"
proof (cases "gradient_of (rt_heap s) p")
  case None
  then have ch: "c = optimizer_core.truncate (rt_optimizers s ! k)" "h = rt_heap s"
    using r by (simp_all add: reference_parameter_def)
  have "s\<lparr>rt_heap := rt_heap s\<rparr> = s" by simp
  then show ?thesis
    unfolding ch using None
    by (simp add: optimizer_step_parameter_def store_optimizer_def heapE_def bindE_def returnE_run)
next
  case (Some g)
  note rd = steppable_reads [OF st]
  let ?v = "logical_values (rt_heap s) (tensor_at (rt_heap s) p)" and ?g = "logical_values (rt_heap s) (tensor_at (rt_heap s) g)"
  let ?u = "update_parameter L (optimizer_core.truncate (rt_optimizers s ! k)) i ?v ?g"
  have u: "c = snd ?u" "h = put_values (rt_heap s) p (fst ?u)"
    using r Some by (simp_all add: reference_parameter_def case_prod_unfold)
  have ch: "c = snd ?u" "h = put_values (rt_heap s) p (fst (update_parameter L (rt_optimizers s ! k) i ?v ?g))"
    using u(1) u(2) [unfolded update_parameter_core(1)] .
  show ?thesis
    unfolding ch store_optimizer_def update_parameter_put
    using Some rd(1,2) rd(3) [OF Some] steppable_gradient(3) [OF st Some]
    by (simp add: optimizer_step_parameter_def heapE_def bindE_def checkE_run write_values_def
        update_optimizer_def increment_version_def put_values_def Let_def update_parameter_put
        split: prod.split)
qed

lemma cpu_step_parameter_reference:
  assumes st: "steppable (rt_heap s) p" and plan: "alloc_plan (rt_heap s) = []"
    and r: "reference_parameter L (i, p) (optimizer_core.truncate (rt_parameter_optimizers s ! k), rt_heap s) = (c, h)"
  shows "cpu_step_parameter L k i p s = (Inr (), store_parameter_optimizer k c (s\<lparr>rt_heap := h\<rparr>))"
proof (cases "gradient_of (rt_heap s) p")
  case None
  then have ch: "c = optimizer_core.truncate (rt_parameter_optimizers s ! k)" "h = rt_heap s"
    using r by (simp_all add: reference_parameter_def)
  have "s\<lparr>rt_heap := rt_heap s\<rparr> = s" by simp
  then show ?thesis
    unfolding ch using None
    by (simp add: cpu_step_parameter_def store_parameter_optimizer_def heapE_def bindE_def returnE_run)
next
  case (Some g)
  note rd = steppable_reads [OF st]
  let ?v = "logical_values (rt_heap s) (tensor_at (rt_heap s) p)" and ?g = "logical_values (rt_heap s) (tensor_at (rt_heap s) g)"
  let ?u = "update_parameter L (optimizer_core.truncate (rt_parameter_optimizers s ! k)) i ?v ?g"
  have u: "c = snd ?u" "h = put_values (rt_heap s) p (fst ?u)"
    using r Some by (simp_all add: reference_parameter_def case_prod_unfold)
  have ch: "c = snd ?u" "h = put_values (rt_heap s) p (fst (update_parameter L (rt_parameter_optimizers s ! k) i ?v ?g))"
    using u(1) u(2) [unfolded update_parameter_core(1)] .
  show ?thesis
    unfolding ch store_parameter_optimizer_def update_parameter_put
    using Some rd(1,2) rd(4) [OF Some plan] steppable_gradient(3) [OF st Some]
    by (simp add: cpu_step_parameter_def heapE_def bindE_def checkE_run write_values_def
        update_parameter_optimizer_def increment_version_def put_values_def Let_def update_parameter_put
        split: prod.split)
qed

lemma put_core_twice:
  "xs[k := put_core c (xs[k := put_core c' (xs ! k)] ! k)] = xs[k := put_core c (xs ! k)]"
  by (cases "k < length xs") (simp_all add: list_update_beyond)

interpretation module_stepper: parameter_stepper optimizer_step_parameter
  "\<lambda>s k. optimizer_core.truncate (rt_optimizers s ! k)" store_optimizer
  "\<lambda>s k. k < length (rt_optimizers s)" "\<lambda>h. True"
  by unfold_locales (simp_all add: store_optimizer_def put_core_twice optimizer_step_parameter_reference [unfolded store_optimizer_def])

interpretation tensor_stepper: parameter_stepper cpu_step_parameter
  "\<lambda>s k. optimizer_core.truncate (rt_parameter_optimizers s ! k)" store_parameter_optimizer
  "\<lambda>s k. k < length (rt_parameter_optimizers s)" "\<lambda>h. alloc_plan h = []"
  by unfold_locales (simp_all add: store_parameter_optimizer_def put_core_twice
      cpu_step_parameter_reference [unfolded store_parameter_optimizer_def])

section \<open>Steps of live optimizers\<close>

definition module_parameters_of :: "'r training_runtime_scheme \<Rightarrow> nat \<Rightarrow> tensor_ref list" where
  "module_parameters_of s k = Parameters (module_at s (os_module (rt_optimizers s ! k)))"

lemma fold_enumerate_steppable:
  "(\<And>p. p \<in> set ps \<Longrightarrow> steppable h p) \<Longrightarrow> \<forall>(i, p) \<in> set (enumerate n ps). steppable h p"
  by (auto simp: in_set_enumerate_eq)

lemma module_steppable:
  assumes inv: "train_inv s" and k: "k < length (rt_optimizers s)" and p: "p \<in> set (module_parameters_of s k)"
  shows "steppable (rt_heap s) p"
proof -
  have "optimizer_ok (rt_heap s) (rt_modules s) (rt_optimizers s ! k)"
    using objects_okD(2) [OF train_invD(5) [OF inv] k] .
  then have "module_ok (rt_heap s) (rt_modules s ! os_module (rt_optimizers s ! k))"
    using objects_okD(1) [OF train_invD(5) [OF inv]] by (simp add: optimizer_ok_def)
  from module_parameters [OF this] show ?thesis
    using p train_invD(1) [OF inv] by (simp add: steppable_def module_parameters_of_def module_at_def)
qed

lemma tensor_steppable:
  assumes inv: "train_inv s" and k: "k < length (rt_parameter_optimizers s)"
    and p: "p \<in> set (po_parameters (rt_parameter_optimizers s ! k))"
  shows "steppable (rt_heap s) p"
  using objects_okD(3) [OF train_invD(5) [OF inv] k] p train_invD(1) [OF inv]
  by (simp add: parameter_optimizer_ok_def steppable_def)

lemma OptimizerStep_reference:
  assumes inv: "train_inv s" and live: "LookupOptimizer handle s = (Inr k, s)"
    and r: "reference_step L (module_parameters_of s k)
      (optimizer_core.truncate (rt_optimizers s ! k), rt_heap s) = (c, h)"
  shows "OptimizerStep L handle s = (Inr (), store_optimizer k c (s\<lparr>rt_heap := h\<rparr>))"
proof -
  have k: "k < length (rt_optimizers s)"
    using lookup_ok(2) [OF inv live [unfolded lookup_defs]] by (simp add: object_ok_def)
  let ?c1 = "(optimizer_core.truncate (rt_optimizers s ! k))\<lparr>oc_step := oc_step (rt_optimizers s ! k) + 1\<rparr>"
  let ?s1 = "store_optimizer k ?c1 s"
  have u: "update_optimizer k (\<lambda>state. state\<lparr>oc_step := oc_step state + 1\<rparr>) s = (Inr (), ?s1)"
    by (simp add: update_optimizer_def store_optimizer_def put_core_step)
  have f: "fold (reference_parameter L) (enumerate 0 (module_parameters_of s k))
      (optimizer_core.truncate (rt_optimizers ?s1 ! k), rt_heap ?s1) = (c, h)"
    using r k by (simp add: reference_step_def store_optimizer_def)
  have "forE (enumerate 0 (module_parameters_of s k)) (\<lambda>(i, p). optimizer_step_parameter L k i p) ?s1 =
      (Inr (), store_optimizer k c (?s1\<lparr>rt_heap := h\<rparr>))"
    using k fold_enumerate_steppable [OF module_steppable [OF inv k], of _ 0]
    by (intro module_stepper.loop_reference f) (simp_all add: store_optimizer_def)
  moreover have "store_optimizer k c (?s1\<lparr>rt_heap := h\<rparr>) = store_optimizer k c (s\<lparr>rt_heap := h\<rparr>)"
    using module_stepper.store_store [where k = k and c = c and c' = ?c1 and s = s and h' = "rt_heap s" and h = h] by simp
  ultimately show ?thesis
    using live u by (simp add: OptimizerStep_def bindE_Inr_run module_parameters_of_def)
qed

lemma v2_Step_reference:
  assumes inv: "train_inv s" and live: "LookupParameterOptimizer handle s = (Inr k, s)"
    and plan: "alloc_plan (rt_heap s) = []"
    and r: "reference_step L (po_parameters (rt_parameter_optimizers s ! k))
      (optimizer_core.truncate (rt_parameter_optimizers s ! k), rt_heap s) = (c, h)"
  shows "v2_Step L handle s = (Inr (), store_parameter_optimizer k c (s\<lparr>rt_heap := h\<rparr>))"
proof -
  have k: "k < length (rt_parameter_optimizers s)"
    using lookup_ok(2) [OF inv live [unfolded lookup_defs]] by (simp add: object_ok_def)
  let ?c1 = "(optimizer_core.truncate (rt_parameter_optimizers s ! k))
    \<lparr>oc_step := oc_step (rt_parameter_optimizers s ! k) + 1\<rparr>"
  let ?s1 = "store_parameter_optimizer k ?c1 s"
  have u: "update_parameter_optimizer k (\<lambda>state. state\<lparr>oc_step := oc_step state + 1\<rparr>) s = (Inr (), ?s1)"
    by (simp add: update_parameter_optimizer_def store_parameter_optimizer_def put_core_step)
  have ps: "po_parameters (rt_parameter_optimizers ?s1 ! k) = po_parameters (rt_parameter_optimizers s ! k)"
    using k by (simp add: store_parameter_optimizer_def)
  have f: "fold (reference_parameter L) (enumerate 0 (po_parameters (rt_parameter_optimizers s ! k)))
      (optimizer_core.truncate (rt_parameter_optimizers ?s1 ! k), rt_heap ?s1) = (c, h)"
    using r k by (simp add: reference_step_def store_parameter_optimizer_def)
  have "forE (enumerate 0 (po_parameters (rt_parameter_optimizers s ! k)))
      (\<lambda>(i, p). cpu_step_parameter L k i p) ?s1 =
      (Inr (), store_parameter_optimizer k c (?s1\<lparr>rt_heap := h\<rparr>))"
    using k plan fold_enumerate_steppable [OF tensor_steppable [OF inv k], of _ 0]
    by (intro tensor_stepper.loop_reference f) (simp_all add: store_parameter_optimizer_def)
  moreover have "store_parameter_optimizer k c (?s1\<lparr>rt_heap := h\<rparr>) =
      store_parameter_optimizer k c (s\<lparr>rt_heap := h\<rparr>)"
    using tensor_stepper.store_store [where k = k and c = c and c' = ?c1 and s = s and h' = "rt_heap s" and h = h] by simp
  ultimately show ?thesis
    using live u ps by (simp add: v2_Step_def CpuStep_def bindE_Inr_run)
qed

section \<open>What a pass computes for each parameter\<close>

text \<open>The new values and moments of a parameter, from those before and its gradient.\<close>

definition parameter_result :: "libm \<Rightarrow> optimizer_core \<Rightarrow> f32 list \<Rightarrow> f32 list \<Rightarrow> f32 list \<Rightarrow> f32 list \<Rightarrow>
    f32 list \<times> f32 list \<times> f32 list" where
  "parameter_result L c vs g first second =
     (if oc_kind c = kSgd
      then (case sgd_map c vs g first of (xs, ms) \<Rightarrow> (xs, ms, second))
      else adam_map L c vs g first second)"

text \<open>The hyperparameters and the step count.\<close>

definition core_constants :: "optimizer_core \<Rightarrow> optimizer_core" where
  "core_constants c = c\<lparr>oc_first_moment := [], oc_second_moment := []\<rparr>"

lemma core_constantsD:
  assumes "core_constants c' = core_constants c"
  shows "oc_kind c' = oc_kind c" "sgd_element c' = sgd_element c" "adam_element c' = adam_element c"
    "oc_beta1 c' = oc_beta1 c" "oc_beta2 c' = oc_beta2 c" "oc_step c' = oc_step c"
proof -
  have e: "oc_kind c' = oc_kind c" "oc_learning_rate c' = oc_learning_rate c" "oc_momentum c' = oc_momentum c"
    "oc_beta1 c' = oc_beta1 c" "oc_beta2 c' = oc_beta2 c" "oc_epsilon c' = oc_epsilon c"
    "oc_weight_decay c' = oc_weight_decay c" "oc_step c' = oc_step c"
    using assms by (cases c; cases c'; simp add: core_constants_def)+
  then show "oc_kind c' = oc_kind c" "oc_beta1 c' = oc_beta1 c" "oc_beta2 c' = oc_beta2 c"
    "oc_step c' = oc_step c" by simp_all
  show "sgd_element c' = sgd_element c" "adam_element c' = adam_element c"
    by (simp_all add: fun_eq_iff sgd_element_def adam_element_def Let_def e cong: if_cong)
qed

lemma parameter_result_cong:
  "core_constants c' = core_constants c \<Longrightarrow> parameter_result L c' = parameter_result L c"
  using core_constantsD [of c' c]
  by (simp add: fun_eq_iff parameter_result_def sgd_map_def adam_map_def)

text \<open>Each parameter has its moments.\<close>

definition moments_at :: "heap \<Rightarrow> optimizer_core \<Rightarrow> nat \<times> tensor_ref \<Rightarrow> bool" where
  "moments_at h c = (\<lambda>(i, p). i < length (oc_first_moment c) \<and>
     length (oc_first_moment c ! i) = numel_of (tensor_at h p) \<and>
     (oc_kind c \<noteq> kSgd \<longrightarrow> i < length (oc_second_moment c) \<and>
        length (oc_second_moment c ! i) = numel_of (tensor_at h p)))"

lemma update_parameter_result:
  assumes i: "i < length (oc_first_moment c)" "length (oc_first_moment c ! i) = length vs"
    "oc_kind c \<noteq> kSgd \<Longrightarrow> i < length (oc_second_moment c) \<and> length (oc_second_moment c ! i) = length vs"
    and r: "update_parameter L c i vs g = (vs', c')"
  shows "(vs', oc_first_moment c' ! i, oc_second_moment c' ! i) =
      parameter_result L c vs g (oc_first_moment c ! i) (oc_second_moment c ! i)"
    "j \<noteq> i \<Longrightarrow> oc_first_moment c' ! j = oc_first_moment c ! j"
    "j \<noteq> i \<Longrightarrow> oc_second_moment c' ! j = oc_second_moment c ! j"
    "core_constants c' = core_constants c"
  using r i
  by (auto simp: update_parameter_def parameter_result_def sgd_loop_map adam_loop_map core_constants_def
      split: if_splits prod.splits)

lemma put_values_view:
  assumes st: "steppable h p" and len: "length vs = numel_of (tensor_at h p)"
  shows "tensors (put_values h p vs) = tensors h"
    "logical_values (put_values h p vs) (tensor_at h p) = vs"
    "t_storage (tensor_at h r) \<noteq> t_storage (tensor_at h p) \<Longrightarrow>
       logical_values (put_values h p vs) (tensor_at h r) = logical_values h (tensor_at h r)"
proof -
  have inv: "heap_inv h" and p: "p < length (tensors h)" "direct h p"
    using st publicD(1) by (simp_all add: steppable_def)
  note lay = wf_heap_layout [OF heap_invD(1) [OF inv] p(1)]
  show t: "tensors (put_values h p vs) = tensors h"
    by (simp add: put_values_def increment_version_def Let_def)
  have s: "storages (put_values h p vs) = (storages h)[t_storage (tensor_at h p) := CpuStorage vs]"
    by (simp add: put_values_def increment_version_def Let_def)
  show "t_storage (tensor_at h r) \<noteq> t_storage (tensor_at h p) \<Longrightarrow>
       logical_values (put_values h p vs) (tensor_at h r) = logical_values h (tensor_at h r)"
    using s by (simp add: logical_values_def)
  note sd = soundD [OF put_values_sound [OF st len]]
  have "layout_ok (put_values h p vs) (tensor_at h p)"
    using wf_heap_layout [OF heap_invD(1) [OF sd(1)], of p] p(1) t by simp
  moreover have "storage_of (put_values h p vs) (tensor_at h p) = CpuStorage vs"
    using s lay by (simp add: layout_ok_def)
  ultimately show "logical_values (put_values h p vs) (tensor_at h p) = vs"
    using contiguous_logical_values [of "put_values h p vs" "tensor_at h p" vs] p(2) len
    by (simp add: direct_def)
qed

text \<open>What one step of the pass does to the parameter, and what it leaves alone.\<close>

definition parameter_view :: "optimizer_core \<times> heap \<Rightarrow> nat \<times> tensor_ref \<Rightarrow> f32 list \<times> f32 list \<times> f32 list" where
  "parameter_view = (\<lambda>(c, h) (i, p).
     (logical_values h (tensor_at h p), oc_first_moment c ! i, oc_second_moment c ! i))"

definition stepped_view :: "libm \<Rightarrow> optimizer_core \<times> heap \<Rightarrow> nat \<times> tensor_ref \<Rightarrow> f32 list \<times> f32 list \<times> f32 list" where
  "stepped_view L = (\<lambda>(c, h) (i, p). case gradient_of h p of
       None \<Rightarrow> parameter_view (c, h) (i, p)
     | Some g \<Rightarrow> parameter_result L c (logical_values h (tensor_at h p)) (logical_values h (tensor_at h g))
         (oc_first_moment c ! i) (oc_second_moment c ! i))"

lemma reference_parameter_view:
  assumes st: "steppable h p" and m: "moments_at h c (i, p)"
    and r: "reference_parameter L (i, p) (c, h) = (c', h')"
  shows "parameter_view (c', h') (i, p) = stepped_view L (c, h) (i, p)" "tensors h' = tensors h"
    "t_storage (tensor_at h q) \<noteq> t_storage (tensor_at h p) \<Longrightarrow>
       logical_values h' (tensor_at h q) = logical_values h (tensor_at h q)"
    "j \<noteq> i \<Longrightarrow> oc_first_moment c' ! j = oc_first_moment c ! j"
    "j \<noteq> i \<Longrightarrow> oc_second_moment c' ! j = oc_second_moment c ! j"
    "core_constants c' = core_constants c"
proof -
  have "parameter_view (c', h') (i, p) = stepped_view L (c, h) (i, p) \<and> tensors h' = tensors h \<and>
    (t_storage (tensor_at h q) \<noteq> t_storage (tensor_at h p) \<longrightarrow>
       logical_values h' (tensor_at h q) = logical_values h (tensor_at h q)) \<and>
    (j \<noteq> i \<longrightarrow> oc_first_moment c' ! j = oc_first_moment c ! j \<and>
       oc_second_moment c' ! j = oc_second_moment c ! j) \<and> core_constants c' = core_constants c"
  proof (cases "gradient_of h p")
    case None
    then show ?thesis using r by (auto simp: reference_parameter_def stepped_view_def)
  next
    case (Some g)
    obtain vs c1 where u: "update_parameter L c i (logical_values h (tensor_at h p))
        (logical_values h (tensor_at h g)) = (vs, c1)" by force
    then have r': "c' = c1" "h' = put_values h p vs"
      using r Some by (simp_all add: reference_parameter_def)
    have len: "length vs = numel_of (tensor_at h p)"
      using update_parameter_lengths(1) [of L c i] u by (metis fst_conv length_logical_values)
    note pv = put_values_view [OF st len]
    have "i < length (oc_first_moment c)" "length (oc_first_moment c ! i) = length (logical_values h (tensor_at h p))"
      "oc_kind c \<noteq> kSgd \<Longrightarrow> i < length (oc_second_moment c) \<and>
        length (oc_second_moment c ! i) = length (logical_values h (tensor_at h p))"
      using m by (simp_all add: moments_at_def)
    note ur = update_parameter_result [OF this u]
    show ?thesis
      using pv ur Some r' by (simp add: parameter_view_def stepped_view_def)
  qed
  then show "parameter_view (c', h') (i, p) = stepped_view L (c, h) (i, p)" "tensors h' = tensors h"
    "t_storage (tensor_at h q) \<noteq> t_storage (tensor_at h p) \<Longrightarrow>
       logical_values h' (tensor_at h q) = logical_values h (tensor_at h q)"
    "j \<noteq> i \<Longrightarrow> oc_first_moment c' ! j = oc_first_moment c ! j"
    "j \<noteq> i \<Longrightarrow> oc_second_moment c' ! j = oc_second_moment c ! j"
    "core_constants c' = core_constants c" by blast+
qed

lemma gradient_storage:
  assumes st: "steppable h q" and g: "gradient_of h q = Some g" and p: "public h p"
  shows "t_storage (tensor_at h g) \<noteq> t_storage (tensor_at h p)"
proof -
  have q: "q < length (tensors h)" and inv: "heap_inv h"
    using st publicD(1) by (simp_all add: steppable_def)
  have "owned h g" using grads_ownedD(1) [OF heap_invD(2) [OF inv] q g] .
  moreover have "p \<noteq> g" using p q g by (auto simp: public_def is_grad_def)
  ultimately show ?thesis using publicD(1) [OF p] by (auto simp: owned_def)
qed

lemma stepped_view_step:
  assumes st: "steppable h p" "steppable h q" and m: "moments_at h c (i, p)"
    and r: "reference_parameter L (i, p) (c, h) = (c1, h1)"
    and d: "j \<noteq> i" "t_storage (tensor_at h q) \<noteq> t_storage (tensor_at h p)"
  shows "stepped_view L (c1, h1) (j, q) = stepped_view L (c, h) (j, q)"
    "moments_at h c (j, q) \<Longrightarrow> moments_at h1 c1 (j, q)"
proof -
  note rp = reference_parameter_view [OF st(1) m r]
  have g: "gradient_of h1 q = gradient_of h q" using rp(2) by (simp add: gradient_of_def)
  have pr: "parameter_result L c1 = parameter_result L c" using parameter_result_cong [OF rp(6)] .
  have gv: "logical_values h1 (tensor_at h1 g) = logical_values h (tensor_at h g)"
    if "gradient_of h q = Some g" for g
    using rp(3) [OF gradient_storage [OF st(2) that]] st(1) rp(2) by (simp add: steppable_def)
  show "stepped_view L (c1, h1) (j, q) = stepped_view L (c, h) (j, q)"
    using g gv rp(2) rp(3) [OF d(2)] rp(4,5) [OF d(1)] pr
    by (simp add: stepped_view_def parameter_view_def split: option.split)
  show "moments_at h c (j, q) \<Longrightarrow> moments_at h1 c1 (j, q)"
    using rp(2) rp(4,5) [OF d(1)] reference_parameter_sound(3-5) [OF st(1) r]
    by (auto simp: moments_at_def dest: arg_cong [where f = length])
qed

lemma reference_loop_view:
  assumes "\<forall>(i, p) \<in> set ips. steppable h p \<and> moments_at h c (i, p)"
    and "distinct (map fst ips)" and "distinct (map (\<lambda>(i, p). t_storage (tensor_at h p)) ips)"
    and "fold (reference_parameter L) ips (c, h) = (c', h')"
  shows "\<forall>ip \<in> set ips. parameter_view (c', h') ip = stepped_view L (c, h) ip" "tensors h' = tensors h"
    "\<forall>q. t_storage (tensor_at h q) \<notin> (\<lambda>(i, p). t_storage (tensor_at h p)) ` set ips \<longrightarrow>
       logical_values h' (tensor_at h q) = logical_values h (tensor_at h q)"
    "\<forall>j. j \<notin> fst ` set ips \<longrightarrow> oc_first_moment c' ! j = oc_first_moment c ! j \<and>
       oc_second_moment c' ! j = oc_second_moment c ! j"
    "core_constants c' = core_constants c"
proof -
  have "(\<forall>ip \<in> set ips. parameter_view (c', h') ip = stepped_view L (c, h) ip) \<and> tensors h' = tensors h \<and>
    (\<forall>q. t_storage (tensor_at h q) \<notin> (\<lambda>(i, p). t_storage (tensor_at h p)) ` set ips \<longrightarrow>
       logical_values h' (tensor_at h q) = logical_values h (tensor_at h q)) \<and>
    (\<forall>j. j \<notin> fst ` set ips \<longrightarrow> oc_first_moment c' ! j = oc_first_moment c ! j \<and>
       oc_second_moment c' ! j = oc_second_moment c ! j) \<and> core_constants c' = core_constants c"
    using assms
  proof (induction ips arbitrary: c h)
    case Nil
    then show ?case by simp
  next
    case (Cons ip ips)
    obtain i p where ip: "ip = (i, p)" by force
    obtain c1 h1 where r: "reference_parameter L (i, p) (c, h) = (c1, h1)" by force
    have st: "steppable h p" and m: "moments_at h c (i, p)" using Cons.prems(1) ip by simp_all
    note rp = reference_parameter_view [OF st m r]
    have di: "j \<noteq> i \<and> t_storage (tensor_at h q) \<noteq> t_storage (tensor_at h p)" if "(j, q) \<in> set ips" for j q
      using Cons.prems(2,3) that ip by force
    have stq: "steppable h q" "moments_at h c (j, q)" if "(j, q) \<in> set ips" for j q
      using Cons.prems(1) that by auto
    have sv: "stepped_view L (c1, h1) x = stepped_view L (c, h) x" if x: "x \<in> set ips" for x
    proof (cases x)
      case (Pair j q)
      then have jq: "(j, q) \<in> set ips" using x by simp
      from stepped_view_step(1) [OF st stq(1) [OF jq] m r] di [OF jq] show ?thesis unfolding Pair by blast
    qed
    have pre: "\<forall>(j, q) \<in> set ips. steppable h1 q \<and> moments_at h1 c1 (j, q)"
      using sound_steppable [OF reference_parameter_sound(1) [OF st r] stq(1)]
        stepped_view_step(2) [OF st stq(1) m r] di stq(2) by blast
    have f: "fold (reference_parameter L) ips (c1, h1) = (c', h')" using Cons.prems(4) ip r by simp
    have dd: "distinct (map fst ips)" "distinct (map (\<lambda>(i, p). t_storage (tensor_at h1 p)) ips)"
      using Cons.prems(2,3) rp(2) by simp_all
    note IH = Cons.IH [OF pre dd f]
    have p: "t_storage (tensor_at h1 p) \<notin> (\<lambda>(i, p). t_storage (tensor_at h1 p)) ` set ips" "i \<notin> fst ` set ips"
      using Cons.prems(2,3) rp(2) ip by auto
    have "parameter_view (c', h') (i, p) = parameter_view (c1, h1) (i, p)"
      using IH p by (simp add: parameter_view_def)
    then show ?case
      using IH sv rp ip by (auto simp: image_iff)
  qed
  then show "\<forall>ip \<in> set ips. parameter_view (c', h') ip = stepped_view L (c, h) ip" "tensors h' = tensors h"
    "\<forall>q. t_storage (tensor_at h q) \<notin> (\<lambda>(i, p). t_storage (tensor_at h p)) ` set ips \<longrightarrow>
       logical_values h' (tensor_at h q) = logical_values h (tensor_at h q)"
    "\<forall>j. j \<notin> fst ` set ips \<longrightarrow> oc_first_moment c' ! j = oc_first_moment c ! j \<and>
       oc_second_moment c' ! j = oc_second_moment c ! j"
    "core_constants c' = core_constants c" by blast+
qed

end
