(* ===== verification/Training_Demo.thy ===== *)
theory Training_Demo
  imports Optimizer_Spec
begin

text \<open>
  A small concrete state of the library: a linear module with one input and two outputs, whose
  weight has a gradient, two more tensors, and two optimizers over the parameters of the module.
\<close>

definition demo_leaf :: "tensor_ref option \<Rightarrow> autograd_meta" where
  "demo_leaf g = default_meta\<lparr>meta_requires_grad := True, meta_gradient := g\<rparr>"

definition demo_training_heap :: heap where
  "demo_training_heap = \<lparr>storages = [CpuStorage [0x3F800000, 0x40000000], CpuStorage [0x3F000000, 0x3F800000],
       CpuStorage [0x3F800000, 0x3F800000], CpuStorage [0x3F800000], CpuStorage [0x40400000, 0x40800000]],
     counters = map (\<lambda>i. \<lparr>vc_value = 0, vc_identity = i\<rparr>) [1, 2, 3, 4, 5],
     tensors = [(fresh_tensor (canonical_shape [1, 2]) 0 0)\<lparr>t_meta := Some (demo_leaf (Some 2))\<rparr>,
       (fresh_tensor (canonical_shape [2]) 1 1)\<lparr>t_meta := Some (demo_leaf None)\<rparr>,
       fresh_tensor (canonical_shape [1, 2]) 2 2, fresh_tensor (canonical_shape [1, 1]) 3 3,
       fresh_tensor (canonical_shape [2]) 4 4],
     next_identity = 6, alloc_plan = []\<rparr>"

definition demo_core :: optimizer_core where
  "demo_core = \<lparr>oc_kind = kSgd, oc_learning_rate = f64_one, oc_momentum = f64_zero, oc_beta1 = f64_zero,
     oc_beta2 = f64_zero, oc_epsilon = f64_zero, oc_weight_decay = f64_zero, oc_step = 0,
     oc_first_moment = [[0, 0], [0, 0]], oc_second_moment = [[0, 0], [0, 0]]\<rparr>"

definition demo_training :: training_runtime where
  "demo_training = \<lparr>rt_heap = demo_training_heap,
     rt_registry = \<lparr>entries = map (\<lambda>(h, ty, i). (h, \<lparr>entry_type = ty, entry_refs = 1, entry_object = i\<rparr>))
         [(1, kModule, 0), (2, kTensor, 0), (3, kTensor, 1), (4, kTensor, 3), (5, kTensor, 4),
          (6, kOptimizer, 0), (7, kParameterOptimizer, 0)],
       next_handle = 8\<rparr>,
     rt_last_error = [],
     rt_modules = [\<lparr>in_features = 1, out_features = 2, use_bias = True, ls_training = True,
       ls_weight = 0, ls_bias = Some 1\<rparr>],
     rt_optimizers = [optimizer_core.extend demo_core \<lparr>os_module = 0\<rparr>],
     rt_parameter_optimizers = [optimizer_core.extend demo_core
       \<lparr>po_parameters = [0, 1], po_storage_kind = StorageKindCpu\<rparr>],
     rt_engine = engine_seed 0, rt_files = (\<lambda>_. None), rt_io_plan = []\<rparr>"

lemma demo_training_dims: "valid_dims [1, 2]" "valid_dims [2]" "valid_dims [1, 1]"
  by (simp_all add: valid_dims_def kMaxTensorRank_def max_numel_def)

lemma demo_training_simps [simp]:
  "length (tensors demo_training_heap) = 5" "alloc_plan demo_training_heap = []"
  "length (counters demo_training_heap) = 5"
  "tensor_at demo_training_heap 0 = (fresh_tensor (canonical_shape [1, 2]) 0 0)\<lparr>t_meta := Some (demo_leaf (Some 2))\<rparr>"
  "tensor_at demo_training_heap (Suc 0) = (fresh_tensor (canonical_shape [2]) 1 1)\<lparr>t_meta := Some (demo_leaf None)\<rparr>"
  "tensor_at demo_training_heap 2 = fresh_tensor (canonical_shape [1, 2]) 2 2"
  "tensor_at demo_training_heap 3 = fresh_tensor (canonical_shape [1, 1]) 3 3"
  "tensor_at demo_training_heap 4 = fresh_tensor (canonical_shape [2]) 4 4"
  "storages demo_training_heap = [CpuStorage [0x3F800000, 0x40000000], CpuStorage [0x3F000000, 0x3F800000],
       CpuStorage [0x3F800000, 0x3F800000], CpuStorage [0x3F800000], CpuStorage [0x40400000, 0x40800000]]"
  by (simp_all add: demo_training_heap_def)

lemma demo_training_cases:
  assumes "i < 5"
  obtains "i = (0::nat)" | "i = Suc 0" | "i = 2" | "i = 3" | "i = 4"
  using assms by linarith

lemma demo_training_wf: "wf_heap demo_training_heap"
proof -
  note dims = demo_training_dims
  have "layout_ok demo_training_heap (tensor_at demo_training_heap i) \<and> meta_ok demo_training_heap i"
    if i: "i < 5" for i
    using i
  proof (cases rule: demo_training_cases)
    case 1
    then show ?thesis
      using shape_ok_canonical [OF dims(1)] canonical_extent [OF dims(1)]
      by (simp add: layout_ok_def meta_ok_def max_numel_def demo_leaf_def default_meta_def buffer_ok_def)
  next
    case 2
    then show ?thesis
      using shape_ok_canonical [OF dims(2)] canonical_extent [OF dims(2)]
      by (simp add: layout_ok_def meta_ok_def max_numel_def demo_leaf_def default_meta_def)
  next
    case 3
    then show ?thesis
      using shape_ok_canonical [OF dims(1)] canonical_extent [OF dims(1)]
      by (simp add: layout_ok_def meta_ok_def max_numel_def)
  next
    case 4
    then show ?thesis
      using shape_ok_canonical [OF dims(3)] canonical_extent [OF dims(3)]
      by (simp add: layout_ok_def meta_ok_def max_numel_def)
  next
    case 5
    then show ?thesis
      using shape_ok_canonical [OF dims(2)] canonical_extent [OF dims(2)]
      by (simp add: layout_ok_def meta_ok_def max_numel_def)
  qed
  then show ?thesis by (simp add: wf_heap_def)
qed

lemma demo_training_gradients:
  assumes "i < 5"
  shows "gradient_of demo_training_heap i = (if i = 0 then Some 2 else None)"
    "parents_of demo_training_heap i = []"
    "t_storage (tensor_at demo_training_heap i) = i" "t_version_counter (tensor_at demo_training_heap i) = i"
  using assms
  by (cases rule: demo_training_cases;
      simp add: gradient_of_def parents_of_def grad_fn_of_def demo_leaf_def default_meta_def)+

lemma demo_training_is_grad: "is_grad demo_training_heap g \<longleftrightarrow> g = 2"
proof -
  have "gradient_of demo_training_heap 0 = Some 2" using demo_training_gradients(1) [of 0] by simp
  moreover have "g = 2" if "i < 5" "gradient_of demo_training_heap i = Some g" for i
    using demo_training_gradients(1) [OF that(1)] that(2) by (simp split: if_splits)
  ultimately show ?thesis
    unfolding is_grad_def by (metis demo_training_simps(1) zero_less_numeral)
qed

lemma demo_training_heap_inv: "heap_inv demo_training_heap"
proof -
  note g = demo_training_gradients
  have "grads_owned demo_training_heap"
  proof (rule grads_ownedI)
    fix i g assume i: "i < length (tensors demo_training_heap)" "gradient_of demo_training_heap i = Some g"
    then have "i = 0" "g = 2" using g(1) [of i] by (auto split: if_splits)
    then show "owned demo_training_heap g" using g(3) by (simp add: owned_def)
    fix j assume "j < length (tensors demo_training_heap)" "gradient_of demo_training_heap j = Some g"
    then show "j = i" using \<open>i = 0\<close> demo_training_gradients(1) [of j] by (auto split: if_splits)
  qed (use g(2) in simp)
  moreover have "one_counter demo_training_heap" using g(3,4) by (simp add: one_counter_def)
  ultimately show ?thesis using demo_training_wf by (simp add: heap_inv_def)
qed

lemma demo_training_public: "public demo_training_heap i \<longleftrightarrow> i < 5 \<and> i \<noteq> 2"
  by (simp add: public_def demo_training_is_grad)

lemma demo_training_direct:
  assumes "i < 5"
  shows "direct demo_training_heap i"
  using assms
  by (cases rule: demo_training_cases) (simp_all add: direct_def is_contiguous_def row_major_def)

lemma demo_training_parts [simp]:
  "rt_heap demo_training = demo_training_heap" "rt_last_error demo_training = []"
  "rt_modules demo_training = [\<lparr>in_features = 1, out_features = 2, use_bias = True, ls_training = True,
       ls_weight = 0, ls_bias = Some 1\<rparr>]"
  by (simp_all add: demo_training_def)

lemma demo_training_registry: "registry_inv (rt_registry demo_training)"
  by (simp add: registry_inv_def demo_training_def)

lemma demo_training_entries:
  "entry_of (rt_registry demo_training) h = Some e \<Longrightarrow>
    (h, entry_type e, entry_object e) \<in> {(1, kModule, 0), (2, kTensor, 0), (3, kTensor, 1), (4, kTensor, 3),
       (5, kTensor, 4), (6, kOptimizer, 0), (7, kParameterOptimizer, 0)}"
  by (auto simp: demo_training_def split: if_splits)

lemma demo_training_inv: "train_inv demo_training"
proof -
  have "objects_ok demo_training"
    by (simp add: objects_ok_def demo_training_def module_ok_def parameter_ok_def demo_training_public
        demo_training_direct optimizer_ok_def parameter_optimizer_ok_def moments_ok_def sizes_of_def
        Parameters_def demo_core_def optimizer_core.extend_def)
  moreover have "object_ok demo_training (entry_type e) (entry_object e)"
    if "entry_of (rt_registry demo_training) h = Some e" for h e
    using demo_training_entries [OF that]
    by (auto simp: object_ok_def demo_training_public demo_training_def)
  ultimately show ?thesis
    using demo_training_heap_inv demo_training_registry by (simp add: train_inv_def)
qed

end
