(* ===== verification/Training_Properties.thy ===== *)
theory Training_Properties
  imports Training_Demo
begin

text \<open>
  The properties of the optimizers and of the assignment of tensors, with their witnesses.
\<close>

section \<open>Live handles\<close>

definition live :: "'r runtime_scheme \<Rightarrow> handle_type \<Rightarrow> handle \<Rightarrow> nat \<Rightarrow> bool" where
  "live s ty h i \<longleftrightarrow>
     (case entry_of (rt_registry s) h of
        None \<Rightarrow> False
      | Some e \<Rightarrow> entry_type e = ty \<and> entry_object e = i)"

lemma live_object:
  assumes "train_inv s" and "live s ty h i"
  shows "object_ok s ty i"
proof -
  obtain e where "entry_of (rt_registry s) h = Some e" "entry_type e = ty" "entry_object e = i"
    using assms(2) by (auto simp: live_def split: option.splits)
  then show ?thesis using train_invD(4) [OF assms(1)] by blast
qed

lemma live_module:
  assumes "train_inv s" and "live s kModule a m"
  shows "module_ok (rt_heap s) (module_at s m)"
  using objects_okD(1) [OF train_invD(5) [OF assms(1)]] live_object [OF assms]
  by (simp add: object_ok_def module_at_def)

lemma module_dims:
  assumes "module_ok h m"
  shows "dims_of (tensor_at h (ls_weight m)) = [in_features m, out_features m]"
    "use_bias m \<Longrightarrow> dims_of (tensor_at h (the (ls_bias m))) = [out_features m]"
  using assms by (auto simp: module_ok_def parameter_ok_def split: option.splits)

lemma live_lookup:
  assumes inv: "registry_inv (rt_registry s)" and live: "live s ty h i"
  shows "registryE (registry_lookup h ty) s = (Inr i, s)"
proof -
  obtain e where e: "entry_of (rt_registry s) h = Some e" "entry_type e = ty" "entry_object e = i"
    using live by (auto simp: live_def split: option.splits)
  then have "0 < h" using entry_of_inv [OF inv] by blast
  then have "registry_lookup h ty (rt_registry s) = (Inr i, rt_registry s)"
    using e registry_lookup_Inr [of h ty "rt_registry s" i "rt_registry s"] by auto
  then show ?thesis by (simp add: registryE_def)
qed

lemma live_error [simp]: "live (s\<lparr>rt_last_error := m\<rparr>) = live s"
  by (simp add: live_def fun_eq_iff)

lemma demo_live:
  "live demo_training kModule 1 0" "live demo_training kTensor 2 0" "live demo_training kTensor 3 1"
  "live demo_training kTensor 4 3" "live demo_training kTensor 5 4" "live demo_training kOptimizer 6 0"
  "live demo_training kParameterOptimizer 7 0"
  by (simp_all add: live_def demo_training_def)

section \<open>Optimizers\<close>

text \<open>The core of an optimizer with the step count of the step being taken.\<close>

definition next_core :: "'m optimizer_core_scheme \<Rightarrow> optimizer_core" where
  "next_core k = (optimizer_core.truncate k)\<lparr>oc_step := oc_step k + 1\<rparr>"

lemma map_enumerate_snd: "map (\<lambda>(i, p). f p) (enumerate n ps) = map f ps"
  by (induction ps arbitrary: n) simp_all

lemma image_enumerate_snd: "(\<lambda>(i, p). f p) ` set (enumerate n ps) = f ` set ps"
  using arg_cong [OF map_enumerate_snd [of f n ps], of set] by (simp only: set_map)

lemma module_parameters_distinct:
  assumes "module_ok h m"
  shows "distinct (map (\<lambda>p. t_storage (tensor_at h p)) (Parameters m))"
  using assms by (auto simp: module_ok_def Parameters_def split: option.splits)

lemma optimizer_facts:
  assumes inv: "train_inv s" and live: "live s kOptimizer handle k"
  shows "k < length (rt_optimizers s)" "LookupOptimizer handle s = (Inr k, s)"
    "distinct (map (\<lambda>p. t_storage (tensor_at (rt_heap s) p)) (module_parameters_of s k))"
    "(i, p) \<in> set (enumerate 0 (module_parameters_of s k)) \<Longrightarrow>
       steppable (rt_heap s) p \<and> moments_at (rt_heap s) (next_core (rt_optimizers s ! k)) (i, p)"
proof -
  show lk: "LookupOptimizer handle s = (Inr k, s)"
    unfolding LookupOptimizer_def by (rule live_lookup [OF train_invD(2) [OF inv] live])
  show k: "k < length (rt_optimizers s)"
    using lookup_ok(2) [OF inv lk [unfolded lookup_defs]] by (simp add: object_ok_def)
  have ok: "optimizer_ok (rt_heap s) (rt_modules s) (rt_optimizers s ! k)"
    using objects_okD(2) [OF train_invD(5) [OF inv] k] .
  then have "module_ok (rt_heap s) (rt_modules s ! os_module (rt_optimizers s ! k))"
    using objects_okD(1) [OF train_invD(5) [OF inv]] by (simp add: optimizer_ok_def)
  then show "distinct (map (\<lambda>p. t_storage (tensor_at (rt_heap s) p)) (module_parameters_of s k))"
    by (simp add: module_parameters_of_def module_at_def module_parameters_distinct)
  show "steppable (rt_heap s) p \<and> moments_at (rt_heap s) (next_core (rt_optimizers s ! k)) (i, p)"
    if ip: "(i, p) \<in> set (enumerate 0 (module_parameters_of s k))"
  proof
    have i: "i < length (module_parameters_of s k)" "p = module_parameters_of s k ! i"
      using ip by (auto simp: in_set_enumerate_eq)
    then show "steppable (rt_heap s) p" using module_steppable [OF inv k] by simp
    have m: "moments_ok (sizes_of (rt_heap s) (module_parameters_of s k)) (oc_kind (rt_optimizers s ! k) \<noteq> kSgd)
        (rt_optimizers s ! k)"
      using ok by (simp add: optimizer_ok_def module_parameters_of_def module_at_def)
    have nth: "i < length xss \<and> length (xss ! i) = numel_of (tensor_at (rt_heap s) p)"
      if "map length xss = sizes_of (rt_heap s) (module_parameters_of s k)" for xss :: "f32 list list"
    proof -
      have "length xss = length (module_parameters_of s k)"
        using arg_cong [OF that, of length] by (simp add: sizes_of_def)
      moreover have "map length xss ! i = sizes_of (rt_heap s) (module_parameters_of s k) ! i"
        using that by simp
      ultimately show ?thesis using i by (simp add: sizes_of_def)
    qed
    show "moments_at (rt_heap s) (next_core (rt_optimizers s ! k)) (i, p)"
      using m nth by (auto simp: moments_at_def next_core_def moments_ok_def)
  qed
qed

lemma ts_optimizer_step_run:
  assumes inv: "train_inv s" and live: "live s kOptimizer handle k"
    and r: "reference_step L (module_parameters_of s k)
      (optimizer_core.truncate (rt_optimizers s ! k), rt_heap s) = (c, h)"
  shows "ts_optimizer_step L handle s =
    (Some TS_OK, store_optimizer k c (s\<lparr>rt_heap := h, rt_last_error := []\<rparr>))"
proof -
  let ?s0 = "s\<lparr>rt_last_error := []\<rparr>"
  have "OptimizerStep L handle ?s0 = (Inr (), store_optimizer k c (?s0\<lparr>rt_heap := h\<rparr>))"
    using OptimizerStep_reference [of ?s0 handle k L c h] optimizer_facts(2) [of ?s0 handle k] assms
    by (simp add: module_parameters_of_def module_at_def)
  then show ?thesis
    by (simp add: ts_optimizer_step_def ts_plain_run store_optimizer_def)
qed

lemma optimizer_step_result:
  assumes "train_inv s" and "live s kOptimizer handle k"
  shows "\<exists>s'. ts_optimizer_step L handle s = (Some TS_OK, s') \<and>
    (\<forall>i < length (module_parameters_of s k).
       parameter_view (optimizer_core.truncate (rt_optimizers s' ! k), rt_heap s') (i, module_parameters_of s k ! i) =
       stepped_view L (next_core (rt_optimizers s ! k), rt_heap s) (i, module_parameters_of s k ! i)) \<and>
    oc_step (rt_optimizers s' ! k) = oc_step (rt_optimizers s ! k) + 1 \<and>
    tensors (rt_heap s') = tensors (rt_heap s) \<and>
    (\<forall>q. t_storage (tensor_at (rt_heap s) q) \<notin>
         (\<lambda>p. t_storage (tensor_at (rt_heap s) p)) ` set (module_parameters_of s k) \<longrightarrow>
       logical_values (rt_heap s') (tensor_at (rt_heap s) q) = logical_values (rt_heap s) (tensor_at (rt_heap s) q))"
proof -
  note f = optimizer_facts [OF assms]
  let ?ps = "module_parameters_of s k"
  obtain c h where r: "reference_step L ?ps (optimizer_core.truncate (rt_optimizers s ! k), rt_heap s) = (c, h)"
    by force
  then have fold: "fold (reference_parameter L) (enumerate 0 ?ps) (next_core (rt_optimizers s ! k), rt_heap s) = (c, h)"
    by (simp add: reference_step_def next_core_def)
  have pre: "\<forall>(i, p) \<in> set (enumerate 0 ?ps). steppable (rt_heap s) p \<and>
      moments_at (rt_heap s) (next_core (rt_optimizers s ! k)) (i, p)" using f(4) by blast
  have d: "distinct (map (\<lambda>(i, p). t_storage (tensor_at (rt_heap s) p)) (enumerate 0 ?ps))"
    using f(3) unfolding map_enumerate_snd .
  have di: "distinct (map fst (enumerate 0 ?ps))" by simp
  note v = reference_loop_view [OF pre di d fold]
  have "(i, ?ps ! i) \<in> set (enumerate 0 ?ps)" if "i < length ?ps" for i
    using that by (simp add: in_set_enumerate_eq)
  moreover have "(\<lambda>(i, p). t_storage (tensor_at (rt_heap s) p)) ` set (enumerate 0 ?ps) =
      (\<lambda>p. t_storage (tensor_at (rt_heap s) p)) ` set ?ps" by (rule image_enumerate_snd)
  moreover have "oc_step c = oc_step (rt_optimizers s ! k) + 1"
    using core_constantsD(6) [OF v(5)] by (simp add: next_core_def)
  ultimately show ?thesis
    using ts_optimizer_step_run [OF assms r] v(1-3) f(1) by (simp add: store_optimizer_def)
qed

lemma parameter_optimizer_live:
  assumes inv: "train_inv s" and live: "live s kParameterOptimizer handle j"
  shows "j < length (rt_parameter_optimizers s)" "LookupParameterOptimizer handle s = (Inr j, s)"
proof -
  show lk: "LookupParameterOptimizer handle s = (Inr j, s)"
    unfolding LookupParameterOptimizer_def by (rule live_lookup [OF train_invD(2) [OF inv] live])
  show "j < length (rt_parameter_optimizers s)"
    using lookup_ok(2) [OF inv lk [unfolded lookup_defs]] by (simp add: object_ok_def)
qed

lemma ts_parameter_optimizer_step_run:
  assumes inv: "train_inv s" and live: "live s kParameterOptimizer handle j" and plan: "alloc_plan (rt_heap s) = []"
    and r: "reference_step L (po_parameters (rt_parameter_optimizers s ! j))
      (optimizer_core.truncate (rt_parameter_optimizers s ! j), rt_heap s) = (c, h)"
  shows "ts_parameter_optimizer_step L handle s =
    (Some TS_OK, store_parameter_optimizer j c (s\<lparr>rt_heap := h, rt_last_error := []\<rparr>))"
proof -
  let ?s0 = "s\<lparr>rt_last_error := []\<rparr>"
  have "v2_Step L handle ?s0 = (Inr (), store_parameter_optimizer j c (?s0\<lparr>rt_heap := h\<rparr>))"
    using v2_Step_reference [of ?s0 handle j L c h] parameter_optimizer_live(2) [of ?s0 handle j] assms
    by simp
  then show ?thesis
    by (simp add: ts_parameter_optimizer_step_def ts_plain_run store_parameter_optimizer_def)
qed

text \<open>Stochastic gradient descent has no use for second moments.\<close>

definition active_core :: "optimizer_core \<Rightarrow> optimizer_core" where
  "active_core c = (if oc_kind c = kSgd then c\<lparr>oc_second_moment := []\<rparr> else c)"

lemma update_parameter_active:
  "update_parameter L (active_core c) i vs g = map_prod id active_core (update_parameter L c i vs g)"
proof (cases "oc_kind c = kSgd")
  case True
  have "sgd_element (active_core c) = sgd_element c"
    by (simp add: fun_eq_iff active_core_def sgd_element_def Let_def cong: if_cong)
  then have "sgd_loop (active_core c) = sgd_loop c" by (simp add: fun_eq_iff sgd_loop_def)
  then show ?thesis
    using True by (simp add: update_parameter_def active_core_def case_prod_unfold)
next
  case False
  then have "active_core (snd (update_parameter L c i vs g)) = snd (update_parameter L c i vs g)"
    by (simp add: active_core_def update_parameter_frame)
  then show ?thesis using False by (simp add: active_core_def map_prod_def case_prod_unfold)
qed

lemma reference_parameter_active:
  "reference_parameter L ip (active_core c, h) = map_prod active_core id (reference_parameter L ip (c, h))"
  by (cases ip) (simp add: reference_parameter_def update_parameter_active map_prod_def case_prod_unfold
      split: option.split)

lemma reference_step_active:
  "reference_step L ps (active_core c, h) = map_prod active_core id (reference_step L ps (c, h))"
proof -
  have "fold (reference_parameter L) ips (active_core c, h) =
      map_prod active_core id (fold (reference_parameter L) ips (c, h))" for ips c h
    by (induction ips arbitrary: c h) (simp_all add: reference_parameter_active map_prod_def split: prod.split)
  moreover have "(active_core c)\<lparr>oc_step := oc_step (active_core c) + 1\<rparr> = active_core (c\<lparr>oc_step := oc_step c + 1\<rparr>)"
    by (simp add: active_core_def)
  ultimately show ?thesis by (simp add: reference_step_def)
qed

section \<open>Swapping two tensors of the concrete state\<close>

lemma demo_training_handles:
  "tensor_handle demo_training 3 = Some 1" "tensor_handle demo_training 5 = Some 4"
  by (simp_all add: tensor_handle_def demo_training_def)

lemma demo_training_values:
  "logical_values demo_training_heap (tensor_at demo_training_heap 1) = [0x3F000000, 0x3F800000]"
  "logical_values demo_training_heap (tensor_at demo_training_heap 4) = [0x40400000, 0x40800000]"
  by (simp_all add: logical_values_def logical_storage_index_def row_major_def numeral_2_eq_2 add64_def mul64_def)

lemma demo_stage:
  assumes "i < 5" and "j < 5"
  shows "stage_pair (i, j) staged demo_training_heap = (Inr (staged @
    [(logical_values demo_training_heap (tensor_at demo_training_heap j), i)]), demo_training_heap)"
proof -
  obtain m where "MutableCpuValues i ''tensor_assign_many'' demo_training_heap =
    (if direct demo_training_heap i then (Inr (t_storage (tensor_at demo_training_heap i)), demo_training_heap)
     else (Inl (Failed (InvalidArgument m)), demo_training_heap))"
    using MutableCpuValues_run [OF wf_heap_layout [OF demo_training_wf]] assms by fastforce
  then show ?thesis
    using assms ReadLogical_ok [OF demo_training_wf, of j] demo_training_direct demo_training_gradients(3)
    by (simp add: stage_pair_def bindE_Inr_run returnE_run)
qed

lemma demo_assign_cpu: "\<exists>h'. assign_cpu [1, 4] [4, 1] demo_training_heap = (Inr (), h')"
proof -
  let ?h = demo_training_heap
  let ?staged = "[(logical_values ?h (tensor_at ?h 4), 1), (logical_values ?h (tensor_at ?h 1), 4)]"
  have ids: "tensor_identity ?h 1 = 2" "tensor_identity ?h 4 = 5"
    by (simp_all add: tensor_identity_def demo_training_heap_def)
  have ok: "batch_ok ?h [1, 4] [4, 1]"
    using ids by (simp add: batch_ok_def demo_training_public)
  have dir: "\<forall>t \<in> set [1, 4]. direct ?h t" using demo_training_direct by simp
  have st: "staged_for ?h (zip [1, 4] [4, 1]) = ?staged"
    using demo_training_gradients(3) by (simp add: staged_for_def)
  obtain r h' where run: "forE (zip [1, 4] ?staged) commit_pair ?h = (r, h')" by force
  have "r = Inr ()" using commit_all(1) [OF demo_training_heap_inv ok dir] run st by metis
  then show ?thesis
    using run demo_stage by (simp add: assign_cpu_def bindE_Inr_run guard_alloc_ok allocation_guard_def bindE_def
        returnE_run)
qed

lemma demo_assign_succeeds:
  "\<exists>s'. ts_tensor_assign_many (Some [3, 5]) (Some [5, 3]) 2 demo_training = (Some TS_OK, s')"
proof -
  let ?s = "demo_training\<lparr>rt_last_error := []\<rparr>"
  have s: "?s = demo_training" by (simp add: demo_training_def)
  note reg = train_invD(2) [OF demo_training_inv]
  have lk: "LookupTensor 3 demo_training = (Inr 1, demo_training)" "LookupTensor 5 demo_training = (Inr 4, demo_training)"
    unfolding LookupTensor_def by (rule live_lookup [OF reg demo_live(3)], rule live_lookup [OF reg demo_live(5)])
  obtain h' where h': "assign_cpu [1, 4] [4, 1] demo_training_heap = (Inr (), h')" using demo_assign_cpu by blast
  have pair: "ValidatePair demo_training_heap (tensor_at demo_training_heap i) (tensor_at demo_training_heap j)
      ''tensor_assign_many'' = Inr ()" if "(i, j) \<in> {(1, 4), (4, 1)}" for i j
    using that by (auto simp: ValidatePair_def SameShape_def)
  have ids: "heapE (TensorIdentity 1) demo_training = (Inr 2, demo_training)"
    "heapE (TensorIdentity 4) demo_training = (Inr 5, demo_training)"
    by (simp_all add: heapE_def TensorIdentity_def tensor_identity_def checkE_run returnE_run bindE_def)
      (simp_all add: demo_training_heap_def demo_training_def)
  have guard: "heapE (allocation_guard op request_alloc) demo_training = (Inr (), demo_training)"
    "heapE (allocation_guard op (bindE request_alloc (\<lambda>_. request_alloc))) demo_training = (Inr (), demo_training)" for op
    by (simp_all add: heapE_def allocation_guard_def bindE_def)
  have kind: "storage_kind_of (storage_of demo_training_heap (tensor_at demo_training_heap i)) = StorageKindCpu"
    if "i \<in> {1, 4}" for i using that by auto
  have p1: "assign_pair (3, 5) empty_batch demo_training = (Inr \<lparr>ab_identities = [2], ab_kind = Some StorageKindCpu,
      ab_targets = [1], ab_sources = [4]\<rparr>, demo_training)"
    using lk pair [of 1 4] ids guard kind [of 1]
    by (simp add: assign_pair_def empty_batch_def bindE_Inr_run returnE_run)
  have p2: "assign_pair (5, 3) \<lparr>ab_identities = [2], ab_kind = Some StorageKindCpu,
      ab_targets = [1], ab_sources = [4]\<rparr> demo_training = (Inr \<lparr>ab_identities = [5, 2],
      ab_kind = Some StorageKindCpu, ab_targets = [1, 4], ab_sources = [4, 1]\<rparr>, demo_training)"
    using lk pair [of 4 1] ids guard kind [of 4]
    by (simp add: assign_pair_def bindE_Inr_run returnE_run)
  have "AssignMany (Some [3, 5]) (Some [5, 3]) 2 demo_training = (Inr (), demo_training\<lparr>rt_heap := h'\<rparr>)"
    using guard p1 p2 h' by (simp add: AssignMany_def bindE_Inr_run returnE_run numeral_2_eq_2 heapE_def)
  then show ?thesis unfolding ts_tensor_assign_many_def ts_plain_run s by simp
qed

section \<open>Properties\<close>





text \<open>C9: \<open>ts_tensor_assign_many\<close> is a transaction over distinct tensors.  When it does not return OK,
  every tensor, storage and version is as it was; when it returns OK, every target has the values
  its source had before the call, as if all pairs were assigned at the same time, exactly one version
  more and no gradient, and every tensor that does not share the identity of a target keeps its
  values and version.  In both cases handles, modules and optimizers are as before.\<close>

theorem assign_many_transaction:
  assumes "train_inv s" and "0 < n" and "ts_tensor_assign_many targets sources n s = (code, s')"
  shows "s' = s\<lparr>rt_heap := rt_heap s', rt_last_error := rt_last_error s'\<rparr> \<and>
    (if code = Some TS_OK
     then \<exists>ts us a b. targets = Some a \<and> sources = Some b \<and>
       map (\<lambda>p. tensor_handle s (fst p)) (zip (take n a) (take n b)) = map Some ts \<and>
       map (\<lambda>p. tensor_handle s (snd p)) (zip (take n a) (take n b)) = map Some us \<and>
       transferred (rt_heap s) ts us (rt_heap s')
     else tensors (rt_heap s') = tensors (rt_heap s) \<and> heap_extends (rt_heap s) (rt_heap s'))"
proof -
  let ?s0 = "s\<lparr>rt_last_error := []\<rparr>"
  obtain res s1 where run: "AssignMany targets sources n ?s0 = (res, s1)" by force
  have inv: "core_inv ?s0" using train_core_inv [OF assms(1)] by simp
  note r = AssignMany_run [OF inv run]
  have s': "s' = s1\<lparr>rt_last_error := snd (abi_result ''tensor_assign_many'' res)\<rparr>"
    "code = fst (abi_result ''tensor_assign_many'' res)"
    using assms(3) run by (simp_all add: ts_tensor_assign_many_def ts_plain_run)
  have "s1\<lparr>rt_last_error := x\<rparr> = s\<lparr>rt_heap := rt_heap s1, rt_last_error := x\<rparr>" for x
    by (subst r(1)) simp
  then have A: "s' = s\<lparr>rt_heap := rt_heap s', rt_last_error := rt_last_error s'\<rparr>" using s'(1) by simp
  have h: "rt_heap s' = rt_heap s1" using s'(1) by simp
  have ok: "code = Some TS_OK \<longleftrightarrow> res = Inr ()" unfolding s'(2) by (rule abi_result_ok_iff)
  have B: "tensors (rt_heap s1) = tensors (rt_heap s) \<and> heap_extends (rt_heap s) (rt_heap s1)"
    if "res \<noteq> Inr ()" using r(3) that by (cases res) (simp_all add: quietly_def)
  have C: "\<exists>ts us a b. targets = Some a \<and> sources = Some b \<and>
       map (\<lambda>p. tensor_handle s (fst p)) (zip (take n a) (take n b)) = map Some ts \<and>
       map (\<lambda>p. tensor_handle s (snd p)) (zip (take n a) (take n b)) = map Some us \<and>
       transferred (rt_heap s) ts us (rt_heap s1)" if "res = Inr ()"
    using r(4) [OF that assms(2)] by simp
  show ?thesis
    unfolding ok using B C by (intro conjI A) (simp add: h)
qed

theorem assign_many_transaction_witness:
  "\<exists>s'. ts_tensor_assign_many (Some [3, 5]) (Some [5, 3]) 2 demo_training = (Some TS_OK, s') \<and>
    logical_values (rt_heap s') (tensor_at (rt_heap s') 1) = [0x40400000, 0x40800000] \<and>
    logical_values (rt_heap s') (tensor_at (rt_heap s') 4) = [0x3F000000, 0x3F800000]"
proof -
  obtain s' where run: "ts_tensor_assign_many (Some [3, 5]) (Some [5, 3]) 2 demo_training = (Some TS_OK, s')"
    using demo_assign_succeeds by blast
  have "transferred demo_training_heap [1, 4] [4, 1] (rt_heap s')"
    using assign_many_transaction [OF demo_training_inv _ run]
    by (auto simp: demo_training_handles map_eq_Cons_conv)
  then have "logical_values (rt_heap s') (tensor_at (rt_heap s') 1) = logical_values demo_training_heap (tensor_at demo_training_heap 4)"
    "logical_values (rt_heap s') (tensor_at (rt_heap s') 4) = logical_values demo_training_heap (tensor_at demo_training_heap 1)"
    by (auto simp: transferred_def less_Suc_eq numeral_2_eq_2)
  then show ?thesis using run demo_training_values by simp
qed

end
