(* ===== verification/Training_Safety.thy ===== *)
theory Training_Safety
  imports Training_Properties
begin

text \<open>
  The operations of the bridge that create or update modules, optimizers and checkpoints keep the
  invariant of the library, on every exit.
\<close>

section \<open>Parts of the runtime outside the invariant\<close>

lemma train_inv_other [simp]:
  "train_inv (s\<lparr>rt_engine := e\<rparr>) = train_inv s" "train_inv (s\<lparr>rt_files := f\<rparr>) = train_inv s"
  "train_inv (s\<lparr>rt_io_plan := p\<rparr>) = train_inv s"
  by (simp_all add: train_inv_def object_ok_def objects_ok_def cong: handle_type.case_cong)

lemma evolves_other [simp]:
  "evolves s (s'\<lparr>rt_engine := e\<rparr>) = evolves s s'" "evolves s (s'\<lparr>rt_files := f\<rparr>) = evolves s s'"
  "evolves s (s'\<lparr>rt_io_plan := p\<rparr>) = evolves s s'"
  by (simp_all add: evolves_def)

lemma good_sound:
  assumes inv: "train_inv s" and so: "sound (rt_heap s) (r, h')"
  shows "train_inv (s\<lparr>rt_heap := h'\<rparr>)" "evolves s (s\<lparr>rt_heap := h'\<rparr>)"
proof -
  have "good s (heapE (\<lambda>_. (Inr () :: fault + unit, h')) s)"
    using so by (intro good_heap [OF inv]) (simp_all add: sound_def safe_def)
  then show "train_inv (s\<lparr>rt_heap := h'\<rparr>)" "evolves s (s\<lparr>rt_heap := h'\<rparr>)"
    by (simp_all add: good_def heapE_def)
qed

lemma good_heapE: "train_inv s \<Longrightarrow> sound (rt_heap s) (m (rt_heap s)) \<Longrightarrow> good s (heapE m s)"
  by (rule good_heap) (simp_all add: sound_def)

lemma good_quiet: "train_inv s \<Longrightarrow> keeps quietly m \<Longrightarrow> good s (heapE m s)"
  by (intro good_heapE sound_quiet) (simp_all add: train_invD)

lemma good_get: "train_inv s \<Longrightarrow> good s (getE f s)"
  by (simp add: good_same)

lemma good_return: "train_inv s \<Longrightarrow> good s (returnE a s)"
  by (simp add: good_same returnE_run)

lemma good_fail: "train_inv s \<Longrightarrow> good s (failE st s)"
  by (simp add: good_same failE_run)

lemma good_tensor: "train_inv s \<Longrightarrow> good s (tensorE r s)"
  unfolding tensorE_def by (rule good_quiet) (simp_all add: quiet.keeps_get)

lemma heapE_state: "snd (heapE m s) = s\<lparr>rt_heap := snd (m (rt_heap s))\<rparr>"
  by (simp add: heapE_def split: prod.split)

section \<open>Optimizer steps\<close>

lemma nth_update_set: "x \<in> set (xs[k := y]) \<Longrightarrow> x = y \<or> x \<in> set xs"
  using set_update_subset_insert [of xs k y] by blast

lemma good_store_optimizer:
  assumes inv: "train_inv s" and k: "k < length (rt_optimizers s)"
    and m: "map length (oc_first_moment c) = map length (oc_first_moment (rt_optimizers s ! k))"
      "map length (oc_second_moment c) = map length (oc_second_moment (rt_optimizers s ! k))"
      "oc_kind c = oc_kind (rt_optimizers s ! k)"
  shows "train_inv (store_optimizer k c s)" "evolves s (store_optimizer k c s)"
proof -
  let ?s2 = "store_optimizer k c s"
  have "optimizer_ok (rt_heap s) (rt_modules s) (put_core c (rt_optimizers s ! k))"
    using objects_okD(2) [OF train_invD(5) [OF inv] k] m by (simp add: optimizer_ok_def moments_ok_def)
  then have "objects_ok ?s2"
    using train_invD(5) [OF inv] by (auto simp: objects_ok_def store_optimizer_def dest!: nth_update_set)
  moreover have "object_ok ?s2 = object_ok s"
    by (auto simp: object_ok_def store_optimizer_def fun_eq_iff split: handle_type.split)
  ultimately show "train_inv ?s2"
    using train_invD(1,2,4) [OF inv] by (auto simp: train_inv_def store_optimizer_def)
  have "map os_module (rt_optimizers ?s2) = map os_module (rt_optimizers s)"
    using k by (simp add: store_optimizer_def map_update list_update_same_conv)
  then show "evolves s ?s2"
    by (simp add: evolves_def pers.frame_refl) (simp add: store_optimizer_def pers.frame_refl)
qed

lemma good_store_parameter_optimizer:
  assumes inv: "train_inv s" and k: "k < length (rt_parameter_optimizers s)"
    and m: "map length (oc_first_moment c) = map length (oc_first_moment (rt_parameter_optimizers s ! k))"
      "map length (oc_second_moment c) = map length (oc_second_moment (rt_parameter_optimizers s ! k))"
  shows "train_inv (store_parameter_optimizer k c s)" "evolves s (store_parameter_optimizer k c s)"
proof -
  let ?s2 = "store_parameter_optimizer k c s"
  have "parameter_optimizer_ok (rt_heap s) (put_core c (rt_parameter_optimizers s ! k))"
    using objects_okD(3) [OF train_invD(5) [OF inv] k] m
    by (simp add: parameter_optimizer_ok_def moments_ok_def)
  then have "objects_ok ?s2"
    using train_invD(5) [OF inv]
    by (auto simp: objects_ok_def store_parameter_optimizer_def dest!: nth_update_set)
  moreover have "object_ok ?s2 = object_ok s"
    by (auto simp: object_ok_def store_parameter_optimizer_def fun_eq_iff split: handle_type.split)
  ultimately show "train_inv ?s2"
    using train_invD(1,2,4) [OF inv] by (auto simp: train_inv_def store_parameter_optimizer_def)
  have "map po_parameters (rt_parameter_optimizers ?s2) = map po_parameters (rt_parameter_optimizers s)"
    using k by (simp add: store_parameter_optimizer_def map_update list_update_same_conv)
  then show "evolves s ?s2"
    by (simp add: evolves_def pers.frame_refl) (simp add: store_parameter_optimizer_def pers.frame_refl)
qed

lemma good_trans: "evolves s t \<Longrightarrow> good t x \<Longrightarrow> good s x"
  using evolves_trans by (auto simp: good_def)

lemma good_OptimizerStep:
  assumes inv: "train_inv s"
  shows "good s (OptimizerStep L handle s)"
proof (cases "LookupOptimizer handle s")
  case (Pair r s1)
  show ?thesis
  proof (cases r)
    case (Inl f)
    then show ?thesis
      using Pair good_lookup [OF inv, of handle kOptimizer]
      by (simp add: OptimizerStep_def bindE_Inl_run lookup_defs good_def)
  next
    case (Inr k)
    note lk = lookup_ok [OF inv Pair [unfolded Inr lookup_defs]]
    have live: "LookupOptimizer handle s = (Inr k, s)" using Pair Inr lk(1) by simp
    have k: "k < length (rt_optimizers s)" using lk(2) by (simp add: object_ok_def)
    obtain c h where r: "reference_step L (module_parameters_of s k)
      (optimizer_core.truncate (rt_optimizers s ! k), rt_heap s) = (c, h)" by force
    have st: "\<forall>(i, p) \<in> set (enumerate 0 (module_parameters_of s k)). steppable (rt_heap s) p"
      by (rule fold_enumerate_steppable [OF module_steppable [OF inv k]])
    note f = reference_loop_sound [OF train_invD(1) [OF inv] st r [unfolded reference_step_def prod.case]]
    note s1 = good_sound [OF inv f(1)]
    have "good (s\<lparr>rt_heap := h\<rparr>) (Inr (), store_optimizer k c (s\<lparr>rt_heap := h\<rparr>))"
      using good_store_optimizer [OF s1(1), of k c] k f(2-4) by (simp add: good_def optimizer_core.truncate_def)
    then show ?thesis
      unfolding OptimizerStep_reference [OF inv live r] by (rule good_trans [OF s1(2)])
  qed
qed

section \<open>Rules for the bridge\<close>

lemma heapE_InrD: "heapE m s = (r, s1) \<Longrightarrow> s1 = s\<lparr>rt_heap := rt_heap s1\<rparr> \<and> m (rt_heap s) = (r, rt_heap s1)"
  by (auto simp: heapE_def split: prod.splits)

lemma good_find:
  assumes inv: "train_inv s" and "\<And>i. object_ok s ty i \<Longrightarrow> good s (f i s)"
  shows "good s (bindE (registryE (registry_lookup h ty)) f s)"
proof (rule good_bind)
  show "good s (registryE (registry_lookup h ty) s)" by (rule good_lookup [OF inv])
  fix i s1 assume "registryE (registry_lookup h ty) s = (Inr i, s1)"
  from lookup_ok [OF inv this] show "good s1 (f i s1)" using assms(2) by simp
qed

lemma good_ClearGradients:
  assumes inv: "train_inv s" and "\<And>p. p \<in> set ps \<Longrightarrow> public (rt_heap s) p"
  shows "good s (forE ps (\<lambda>p. heapE (ClearGradient p)) s)"
proof (rule good_for [OF inv])
  fix p t assume "p \<in> set ps" "train_inv t" "evolves s t"
  then show "good t (heapE (ClearGradient p) t)"
    using assms(2) evolvesD(2) by (intro good_heapE sound_ClearGradient) (auto simp: train_invD)
qed

lemma good_OptimizerZeroGrad:
  assumes inv: "train_inv s"
  shows "good s (OptimizerZeroGrad handle s)"
  unfolding OptimizerZeroGrad_def lookup_defs
proof (rule good_find [OF inv])
  fix k assume "object_ok s kOptimizer k"
  then have "k < length (rt_optimizers s)" by (simp add: object_ok_def)
  from module_steppable [OF inv this]
  show "good s (bindE (getE (\<lambda>s. Parameters (module_at s (os_module (rt_optimizers s ! k)))))
      (\<lambda>ps. forE ps (\<lambda>p. heapE (ClearGradient p))) s)"
    by (simp add: good_ClearGradients [OF inv] steppable_def module_parameters_of_def)
qed

lemma good_ZeroGrad:
  assumes inv: "train_inv s"
  shows "good s (ZeroGrad handle s)"
  unfolding ZeroGrad_def lookup_defs
proof (rule good_find [OF inv])
  fix k assume "object_ok s kParameterOptimizer k"
  then have "k < length (rt_parameter_optimizers s)" by (simp add: object_ok_def)
  from tensor_steppable [OF inv this]
  show "good s (bindE (getE (\<lambda>s. po_parameters (rt_parameter_optimizers s ! k)))
      (\<lambda>ps. forE ps (\<lambda>p. heapE (ClearGradient p))) s)"
    by (simp add: good_ClearGradients [OF inv] steppable_def)
qed

lemma good_AssignMany:
  assumes inv: "train_inv s"
  shows "good s (AssignMany targets sources n s)"
proof -
  obtain r s' where run: "AssignMany targets sources n s = (r, s')" by force
  note a = AssignMany_run(1,2) [OF train_core_inv [OF inv] run]
  have "good s (r, s\<lparr>rt_heap := rt_heap s'\<rparr>)" using good_sound [OF inv a(2)] by (simp add: good_def)
  then show ?thesis using run a(1) by simp
qed

section \<open>The optimizer of a list of tensors\<close>

lemma store_parameter_put:
  "update_parameter_optimizer k (\<lambda>_. snd (update_parameter L (rt_parameter_optimizers t ! k) i vs g)) s =
    (Inr (), store_parameter_optimizer k
      (snd (update_parameter L (optimizer_core.truncate (rt_parameter_optimizers s ! k)) i vs g)) s)"
  if "rt_parameter_optimizers t = rt_parameter_optimizers s"
  using that by (simp add: update_parameter_optimizer_def store_parameter_optimizer_def update_parameter_put)

lemma good_cpu_step_write:
  assumes inv: "train_inv s" and k: "k < length (rt_parameter_optimizers s)"
    and p: "p \<in> set (po_parameters (rt_parameter_optimizers s ! k))"
  shows "good s (bindE (getE (\<lambda>s. update_parameter L (rt_parameter_optimizers s ! k) i
          (cpu_values (storages (rt_heap s) ! t_storage (tensor_at (rt_heap s) p))) g))
      (\<lambda>(values', state').
         bindE (heapE (write_values (t_storage (tensor_at (rt_heap s) p)) values')) (\<lambda>_.
         bindE (update_parameter_optimizer k (\<lambda>_. state')) (\<lambda>_.
         heapE (increment_version p)))) s)"
proof -
  note st = tensor_steppable [OF inv k p]
  let ?vs = "cpu_values (storages (rt_heap s) ! t_storage (tensor_at (rt_heap s) p))"
  let ?u = "update_parameter L (rt_parameter_optimizers s ! k) i ?vs g"
  let ?w = "heapE (write_values (t_storage (tensor_at (rt_heap s) p)) (fst ?u))"
  have "good s (bindE ?w (\<lambda>_. bindE (update_parameter_optimizer k (\<lambda>_. snd ?u)) (\<lambda>_.
      heapE (increment_version p))) s)"
  proof (rule good_bind [where m = ?w])
    show "good s (?w s)"
      using st publicD(1) by (intro good_heapE [OF inv] sound_write)
        (auto simp: steppable_def update_parameter_lengths)
    fix x s1 assume run: "?w s = (Inr x, s1)" and s1: "train_inv s1"
    have same: "rt_parameter_optimizers s1 = rt_parameter_optimizers s"
      using heapE_InrD [OF run] by (metis training_runtime.simps(3) training_runtime.select_convs(3)
          training_runtime.surjective runtime.update_convs(1) runtime.surjective)
    let ?c = "snd (update_parameter L (optimizer_core.truncate (rt_parameter_optimizers s1 ! k)) i ?vs g)"
    have g: "train_inv (store_parameter_optimizer k ?c s1)" "evolves s1 (store_parameter_optimizer k ?c s1)"
      using k same by (intro good_store_parameter_optimizer [OF s1];
        simp add: update_parameter_lengths optimizer_core.truncate_def)+
    have u: "update_parameter_optimizer k (\<lambda>_. snd ?u) s1 = (Inr (), store_parameter_optimizer k ?c s1)"
      by (rule store_parameter_put [OF same [symmetric]])
    show "good s1 (bindE (update_parameter_optimizer k (\<lambda>_. snd ?u)) (\<lambda>_. heapE (increment_version p)) s1)"
      unfolding bindE_Inr_run [where m = "update_parameter_optimizer k (\<lambda>_. snd ?u)", OF u]
      by (rule good_trans [OF g(2)]) (intro good_heapE [OF g(1)] sound_version train_invD(1) [OF g(1)])
  qed
  then show ?thesis by (simp add: case_prod_unfold)
qed

lemma good_cpu_step_parameter:
  assumes inv: "train_inv s" and k: "k < length (rt_parameter_optimizers s)"
    and p: "p \<in> set (po_parameters (rt_parameter_optimizers s ! k))"
  shows "good s (cpu_step_parameter L k i p s)"
proof (cases "gradient_of (rt_heap s) p")
  case None
  then show ?thesis using inv by (simp add: cpu_step_parameter_def heapE_def bindE_def good_return good_same)
next
  case (Some g)
  note st = tensor_steppable [OF inv k p]
  let ?op = "''parameter_optimizer_step''"
  let ?read = "heapE (ReadLogicalCpuValues g ?op)"
  let ?storage = "t_storage (tensor_at (rt_heap s) p)"
  let ?rest = "\<lambda>gradient_values. bindE (heapE (getE (\<lambda>h. cpu_values (storages h ! ?storage)))) (\<lambda>values.
         bindE (checkE (length values = length gradient_values)
           (InternalError ''parameter_optimizer_step: gradient size mismatch'')) (\<lambda>_.
         bindE (getE (\<lambda>s. update_parameter L (rt_parameter_optimizers s ! k) i values gradient_values))
           (\<lambda>(values', state').
         bindE (heapE (write_values ?storage values')) (\<lambda>_.
         bindE (update_parameter_optimizer k (\<lambda>_. state')) (\<lambda>_.
         heapE (increment_version p))))))"
  have run: "cpu_step_parameter L k i p s = bindE ?read ?rest s"
    using Some steppable_reads(1) [OF st, of ?op]
    by (simp add: cpu_step_parameter_def bindE_def heapE_def)
  show ?thesis
    unfolding run
  proof (rule good_bind [where m = ?read])
    show "good s (?read s)" by (rule good_quiet [OF inv quiet_ReadLogicalCpuValues])
    fix gv s1 assume rd: "?read s = (Inr gv, s1)" and s1: "train_inv s1" "evolves s s1"
    have h: "rt_parameter_optimizers s1 = rt_parameter_optimizers s"
      using rd by (auto simp: heapE_def split: prod.splits)
    have q: "quietly (rt_heap s) (rt_heap s1)"
      using keepsD [OF quiet_ReadLogicalCpuValues] heapE_InrD [OF rd] by blast
    have same: "?storage = t_storage (tensor_at (rt_heap s1) p)"
      using q st by (simp add: quietly_def)
    show "good s1 (?rest gv s1)"
      unfolding same
      using good_cpu_step_write [OF s1(1), of k p L i gv] k p h
      by (simp add: heapE_def bindE_def good_same [OF s1(1)] checkE_run)
  qed
qed

lemma good_v2_Step:
  assumes inv: "train_inv s"
  shows "good s (v2_Step L handle s)"
  unfolding v2_Step_def lookup_defs
proof (rule good_find [OF inv])
  fix k assume "object_ok s kParameterOptimizer k"
  then have k: "k < length (rt_parameter_optimizers s)" by (simp add: object_ok_def)
  let ?c = "(optimizer_core.truncate (rt_parameter_optimizers s ! k))
    \<lparr>oc_step := oc_step (rt_parameter_optimizers s ! k) + 1\<rparr>"
  let ?s1 = "store_parameter_optimizer k ?c s" and ?ps = "po_parameters (rt_parameter_optimizers s ! k)"
  have u: "update_parameter_optimizer k (\<lambda>state. state\<lparr>oc_step := oc_step state + 1\<rparr>) s = (Inr (), ?s1)"
    by (simp add: update_parameter_optimizer_def store_parameter_optimizer_def put_core_step)
  have g: "train_inv ?s1" "evolves s ?s1"
    by (intro good_store_parameter_optimizer [OF inv k]; simp add: optimizer_core.truncate_def)+
  have k1: "k < length (rt_parameter_optimizers ?s1)" "po_parameters (rt_parameter_optimizers ?s1 ! k) = ?ps"
    using k by (simp_all add: store_parameter_optimizer_def)
  have "good ?s1 (forE (enumerate 0 ?ps) (\<lambda>(i, p). cpu_step_parameter L k i p) ?s1)"
  proof (rule good_for [OF g(1)])
    fix x t assume x: "x \<in> set (enumerate 0 ?ps)" and t: "train_inv t" "evolves ?s1 t"
    obtain i p where ip: "x = (i, p)" by force
    moreover have "p \<in> set ?ps" using x [unfolded ip in_set_enumerate_eq] by auto
    ultimately show "good t ((case x of (i, p) \<Rightarrow> cpu_step_parameter L k i p) t)"
      using good_cpu_step_parameter [OF t(1), of k p] evolvesD(5) [OF t(2) k1(1)] k1(2) by simp
  qed
  then show "good s (CpuStep L k s)"
    using u k1(2) good_trans [OF g(2)] by (simp add: CpuStep_def bindE_Inr_run)
qed

end
