(* ===== verification/Training_Create.thy ===== *)
theory Training_Create
  imports Training_Safety
begin

text \<open>
  The operations of the bridge that create modules and optimizers keep the invariant of the library,
  and what they create satisfies it.
\<close>

section \<open>Computations with a result\<close>

definition delivers :: "'r training_runtime_scheme \<Rightarrow> ('a \<Rightarrow> 'r training_runtime_scheme \<Rightarrow> bool) \<Rightarrow>
    (fault + 'a) \<times> 'r training_runtime_scheme \<Rightarrow> bool" where
  "delivers s P x \<longleftrightarrow> good s x \<and> (\<forall>a. fst x = Inr a \<longrightarrow> P a (snd x))"

lemma deliversD:
  assumes "delivers s P (r, s1)"
  shows "train_inv s1" "evolves s s1" "r = Inr a \<Longrightarrow> P a s1"
  using assms by (simp_all add: delivers_def good_def)

lemma delivers_good: "delivers s P x \<Longrightarrow> good s x"
  by (simp add: delivers_def)

lemma good_delivers: "good s x \<Longrightarrow> delivers s (\<lambda>_ _. True) x"
  by (simp add: delivers_def)

lemma delivers_return: "train_inv s \<Longrightarrow> P a s \<Longrightarrow> delivers s P (returnE a s)"
  by (simp add: delivers_def good_same returnE_run)

lemma delivers_fault: "train_inv s \<Longrightarrow> delivers s P (Inl f, s)"
  by (simp add: delivers_def good_same)

lemma delivers_bind:
  assumes "delivers s P (m s)"
    and "\<And>a s1. m s = (Inr a, s1) \<Longrightarrow> train_inv s1 \<Longrightarrow> evolves s s1 \<Longrightarrow> P a s1 \<Longrightarrow> delivers s1 Q (f a s1)"
  shows "delivers s Q (bindE m f s)"
proof -
  obtain r s1 where m: "m s = (r, s1)" by force
  note d = deliversD [OF assms(1) [unfolded m]]
  show ?thesis
  proof (cases r)
    case (Inl e)
    then show ?thesis using m d by (simp add: bindE_def delivers_def good_def)
  next
    case (Inr a)
    then have "delivers s1 Q (f a s1)" using assms(2) m d by blast
    then show ?thesis using m Inr d(2) evolves_trans by (auto simp: bindE_def delivers_def good_def)
  qed
qed

lemma delivers_after:
  assumes "good s (m s)"
    and "\<And>a s1. m s = (Inr a, s1) \<Longrightarrow> train_inv s1 \<Longrightarrow> evolves s s1 \<Longrightarrow> delivers s1 Q (f a s1)"
  shows "delivers s Q (bindE m f s)"
  using assms by (intro delivers_bind [OF good_delivers]) simp_all

lemma delivers_find:
  assumes inv: "train_inv s" and "\<And>i. object_ok s ty i \<Longrightarrow> delivers s P (f i s)"
  shows "delivers s P (bindE (registryE (registry_lookup h ty)) f s)"
proof (rule delivers_after)
  show "good s (registryE (registry_lookup h ty) s)" by (rule good_lookup [OF inv])
  fix i s1 assume "registryE (registry_lookup h ty) s = (Inr i, s1)"
  from lookup_ok [OF inv this] show "delivers s1 P (f i s1)" using assms(2) by simp
qed

lemma delivers_status:
  assumes "train_inv s" and "\<And>a. r = Inr a \<Longrightarrow> delivers s P (f a s)"
  shows "delivers s P (bindE (statusE r) f s)"
  using assms by (cases r) (simp_all add: statusE_def delivers_fault throwE_run)

lemma delivers_weaken:
  "delivers s P x \<Longrightarrow> (\<And>a t. fst x = Inr a \<Longrightarrow> t = snd x \<Longrightarrow> train_inv t \<Longrightarrow> P a t \<Longrightarrow> Q a t) \<Longrightarrow> delivers s Q x"
  by (simp add: delivers_def good_def)

abbreviation public_tensor :: "tensor_ref \<Rightarrow> 'r training_runtime_scheme \<Rightarrow> bool" where
  "public_tensor r t \<equiv> public (rt_heap t) r"

lemma delivers_makes:
  assumes inv: "train_inv s" and mk: "makes (rt_heap s) (m (rt_heap s))"
  shows "delivers s public_tensor (heapE m s)"
  using good_heapE [OF inv, of m] mk by (auto simp: delivers_def makes_def heapE_def split: prod.split)

section \<open>Parameters\<close>

lemma MakeCpuTensor_yields:
  assumes wf: "wf_heap h" and i64: "i64_array (dimensions sh)"
  shows "yields h [] (dimensions sh) vs None (MakeCpuTensor sh vs h)"
proof -
  obtain res h1 where run: "MakeCpuTensor sh vs h = (res, h1)" by force
  from run i64 show ?thesis
  proof (cases rule: MakeCpuTensor_cases)
    case (failed f)
    then show ?thesis using run wf by (simp add: yields_quiet_fault)
  next
    case made
    then show ?thesis using run yields_made_plain [OF wf made(5,2)] by simp
  qed
qed

definition fresh_parameter :: "heap \<Rightarrow> heap \<Rightarrow> tensor_ref \<Rightarrow> int list \<Rightarrow> f32 list \<Rightarrow> bool" where
  "fresh_parameter h h' r d vs \<longleftrightarrow> parameter_ok h' r d \<and> length (storages h) \<le> t_storage (tensor_at h' r) \<and>
     logical_values h' (tensor_at h' r) = vs \<and> t_meta (tensor_at h' r) = Some leaf_meta"

lemma makes_parameter:
  assumes "heap_inv h" and "i64_array (dimensions sh)"
  shows "makes h (MakeParameter sh vs h)"
  unfolding MakeParameter_def
  by (rule makes_leaf [where mk = "MakeCpuTensor sh vs", OF assms(1)
      MakeCpuTensor_yields [OF heap_invD(1) [OF assms(1)] assms(2)]])
    (simp_all add: leaf_meta_def default_meta_def)

lemma MakeParameter_fresh:
  assumes inv: "heap_inv h" and i64: "i64_array (dimensions sh)"
    and run: "MakeParameter sh vs h = (Inr r, h')"
  shows "fresh_parameter h h' r (dimensions sh) vs"
proof -
  have pub: "public h' r" using makes_parameter [OF inv i64, of vs] run by (simp add: makes_def)
  obtain h1 h2 where mk: "MakeCpuTensor sh vs h = (Inr r, h1)" and al: "request_alloc h1 = (Inr (), h2)"
    and h': "h' = snd (set_autograd_meta r leaf_meta h2)"
    using run by (auto simp: MakeParameter_def exec_simps elim!: bindE_InrE)
  note same = request_alloc_keeps_objects [of h1, unfolded al snd_conv]
  from mk i64 show ?thesis
  proof (cases rule: MakeCpuTensor_cases)
    case made
    note f = adds_tensor_facts [OF made(5)]
    have v: "logical_values h1 (tensor_at h1 r) = vs"
      using adds_tensor_values [OF made(5,2)] made(1,3,4) by simp
    have t: "tensor_at h' r = (tensor_at h1 r)\<lparr>t_meta := Some leaf_meta\<rparr>" "storages h' = storages h1"
      using h' same made(1) f(5) by (simp_all add: set_autograd_meta_def)
    have "logical_values h' (tensor_at h' r) = vs"
      using v t by (simp add: logical_values_def logical_storage_index_def)
    moreover have "direct h' r"
      using t f made by (simp add: direct_def is_contiguous_def row_major_is_contiguous del: One_nat_def)
    ultimately show ?thesis
      using pub t f made(1) by (simp add: fresh_parameter_def parameter_ok_def)
  qed simp
qed

lemma delivers_parameter:
  assumes inv: "train_inv s" and i64: "i64_array (dimensions sh)"
  shows "delivers s (\<lambda>r t. fresh_parameter (rt_heap s) (rt_heap t) r (dimensions sh) vs)
    (heapE (MakeParameter sh vs) s)"
proof -
  have "delivers s public_tensor (heapE (MakeParameter sh vs) s)"
    by (rule delivers_makes [where m = "MakeParameter sh vs", OF inv makes_parameter [OF train_invD(1) [OF inv] i64]])
  then show ?thesis
    using MakeParameter_fresh [OF train_invD(1) [OF inv] i64]
    by (auto simp: delivers_def heapE_def split: prod.splits)
qed

section \<open>New objects\<close>

lemma delivers_new_module:
  assumes inv: "train_inv s" and ok: "module_ok (rt_heap s) m"
  shows "delivers s (\<lambda>i t. object_ok t kModule i) (new_module m s)"
proof -
  let ?t = "s\<lparr>rt_modules := rt_modules s @ [m]\<rparr>"
  have "objects_ok ?t"
    using train_invD(5) [OF inv] ok by (auto simp: objects_ok_def optimizer_ok_def nth_append)
  moreover have "object_ok ?t ty i" if "object_ok s ty i" for ty i
    using that by (cases ty) (simp_all add: object_ok_def)
  ultimately have "train_inv ?t" using train_invD(1,2,4) [OF inv] by (simp add: train_inv_def)
  then show ?thesis
    by (simp add: delivers_def good_def new_module_def evolves_def pers.frame_refl object_ok_def)
qed

lemma delivers_new_optimizer:
  assumes inv: "train_inv s" and ok: "optimizer_ok (rt_heap s) (rt_modules s) k"
  shows "delivers s (\<lambda>i t. object_ok t kOptimizer i) (new_optimizer k s)"
proof -
  let ?t = "s\<lparr>rt_optimizers := rt_optimizers s @ [k]\<rparr>"
  have "objects_ok ?t" using train_invD(5) [OF inv] ok by (auto simp: objects_ok_def)
  moreover have "object_ok ?t ty i" if "object_ok s ty i" for ty i
    using that by (cases ty) (simp_all add: object_ok_def)
  ultimately have "train_inv ?t" using train_invD(1,2,4) [OF inv] by (simp add: train_inv_def)
  then show ?thesis
    by (simp add: delivers_def good_def new_optimizer_def evolves_def pers.frame_refl object_ok_def)
qed

lemma delivers_new_parameter_optimizer:
  assumes inv: "train_inv s" and ok: "parameter_optimizer_ok (rt_heap s) k"
  shows "delivers s (\<lambda>i t. object_ok t kParameterOptimizer i) (new_parameter_optimizer k s)"
proof -
  let ?t = "s\<lparr>rt_parameter_optimizers := rt_parameter_optimizers s @ [k]\<rparr>"
  have "objects_ok ?t" using train_invD(5) [OF inv] ok by (auto simp: objects_ok_def)
  moreover have "object_ok ?t ty i" if "object_ok s ty i" for ty i
    using that by (cases ty) (simp_all add: object_ok_def)
  ultimately have "train_inv ?t" using train_invD(1,2,4) [OF inv] by (simp add: train_inv_def)
  then show ?thesis
    by (simp add: delivers_def good_def new_parameter_optimizer_def evolves_def pers.frame_refl object_ok_def)
qed

lemma good_update_module:
  assumes inv: "train_inv s" and same: "module_core (f (rt_modules s ! i)) = module_core (rt_modules s ! i)"
  shows "good s (update_module i f s)"
proof (cases "i < length (rt_modules s)")
  case True
  let ?t = "s\<lparr>rt_modules := (rt_modules s)[i := f (rt_modules s ! i)]\<rparr>"
  have "module_ok (rt_heap s) (f (rt_modules s ! i))"
    using module_ok_cong [OF same] objects_okD(1) [OF train_invD(5) [OF inv] True] by simp
  moreover have ps: "Parameters (rt_modules ?t ! j) = Parameters (rt_modules s ! j)" for j
    using module_core_eqD(6) [OF same] True by (cases "i = j") simp_all
  ultimately have "objects_ok ?t"
    using train_invD(5) [OF inv] ps by (auto simp: objects_ok_def optimizer_ok_def dest!: nth_update_set)
  moreover have "object_ok ?t ty i = object_ok s ty i" for ty i
    by (cases ty) (simp_all add: object_ok_def)
  ultimately have "train_inv ?t" using train_invD(1,2,4) [OF inv] by (simp add: train_inv_def)
  moreover have "map module_core (rt_modules ?t) = map module_core (rt_modules s)"
    using True same by (simp add: map_update list_update_same_conv)
  ultimately show ?thesis
    by (simp add: good_def update_module_def evolves_def pers.frame_refl)
next
  case False
  then have "(rt_modules s)[i := x] = rt_modules s" for x by (simp add: list_update_beyond)
  then show ?thesis using inv by (simp add: update_module_def good_same)
qed

section \<open>Linear modules\<close>

lemma good_draw_vector:
  assumes inv: "train_inv s"
  shows "good s (draw_vector D bound n s)"
  unfolding draw_vector_def
proof (rule good_bind [where m = "heapE request_alloc", OF good_quiet [OF inv quiet_request_alloc]])
  fix a s1 assume "train_inv s1"
  then show "good s1 (case draw_values (D (f32_neg bound) bound) n (rt_engine s1) of
      (xs, engine) \<Rightarrow> (Inr xs, s1\<lparr>rt_engine := engine\<rparr>))"
    using evolves_refl [of s1] by (simp add: good_def case_prod_unfold)
qed

lemma ValidateShape_list:
  assumes "ValidateShape (Some d) (length d) = Inr sh" and "i64_array d"
  shows "sh = canonical_shape d"
  using assms ValidateShape_cases [of "length d" d sh] by simp

lemma evolves_parameter:
  assumes inv: "train_inv s" and e: "evolves s t"
  shows "parameter_ok (rt_heap s) r d \<Longrightarrow> parameter_ok (rt_heap t) r d"
    "parameter_ok (rt_heap s) r d \<Longrightarrow> t_storage (tensor_at (rt_heap t) r) = t_storage (tensor_at (rt_heap s) r)"
  using persists_parameter [OF evolvesD(1) [OF e] train_invD(3) [OF inv] evolvesD(2) [OF e]]
    skeleton_eqD(2) [OF persistsD(3) [OF evolvesD(1) [OF e]]]
  by (auto simp: parameter_ok_def public_def)

lemma fresh_distinct:
  assumes inv: "train_inv s" and w: "parameter_ok (rt_heap s) w d" and f: "fresh_parameter (rt_heap s) h b e vs"
    and keep: "t_storage (tensor_at h w) = t_storage (tensor_at (rt_heap s) w)"
  shows "t_storage (tensor_at h b) \<noteq> t_storage (tensor_at h w)"
proof -
  have "w < length (tensors (rt_heap s))" using w by (simp add: parameter_ok_def public_def)
  then have "t_storage (tensor_at (rt_heap s) w) < length (storages (rt_heap s))"
    using wf_heap_layout [OF train_invD(3) [OF inv]] by (simp add: layout_ok_def)
  then show ?thesis using f keep by (simp add: fresh_parameter_def)
qed

lemma delivers_bias:
  assumes inv: "train_inv s" and w: "parameter_ok (rt_heap s) w [inp, outp]" and i64: "i64_array [outp]"
  shows "delivers s (\<lambda>b t. module_ok (rt_heap t) \<lparr>in_features = inp, out_features = outp, use_bias = bias,
      ls_training = True, ls_weight = w, ls_bias = b\<rparr>)
    ((if bias then bindE (statusE (ValidateShape (Some [outp]) 1)) (\<lambda>sh.
      bindE (heapE (MakeParameter sh bv)) (\<lambda>b. returnE (Some b))) else returnE None) s)"
proof (cases bias)
  case False
  then show ?thesis using inv w by (simp add: delivers_return module_ok_def)
next
  case True
  let ?P = "\<lambda>b t. module_ok (rt_heap t) \<lparr>in_features = inp, out_features = outp, use_bias = bias,
      ls_training = True, ls_weight = w, ls_bias = b\<rparr>"
  have "delivers s ?P (bindE (heapE (MakeParameter sh bv)) (\<lambda>b. returnE (Some b)) s)"
    if sh: "sh = canonical_shape [outp]" for sh
  proof (rule delivers_bind [where m = "heapE (MakeParameter sh bv)", OF delivers_parameter [OF inv]])
    show "i64_array (dimensions sh)" using sh i64 by simp
    fix b t assume t: "train_inv t" "evolves s t"
      and f: "fresh_parameter (rt_heap s) (rt_heap t) b (dimensions sh) bv"
    have "module_ok (rt_heap t) \<lparr>in_features = inp, out_features = outp, use_bias = bias,
        ls_training = True, ls_weight = w, ls_bias = Some b\<rparr>"
      using f sh True evolves_parameter(1) [OF inv t(2) w]
        fresh_distinct [OF inv w f evolves_parameter(2) [OF inv t(2) w]]
      by (simp add: module_ok_def fresh_parameter_def)
    then show "delivers t ?P (returnE (Some b) t)" using t(1) by (intro delivers_return) simp_all
  qed
  moreover have "ValidateShape (Some [outp]) 1 = Inr sh \<Longrightarrow> sh = canonical_shape [outp]" for sh
    using ValidateShape_list [of "[outp]" sh] i64 by simp
  ultimately have "delivers s ?P (bindE (statusE (ValidateShape (Some [outp]) 1)) (\<lambda>sh.
      bindE (heapE (MakeParameter sh bv)) (\<lambda>b. returnE (Some b))) s)"
    by (intro delivers_status [OF inv]) blast
  then show ?thesis using True by simp
qed

lemma delivers_make_linear:
  assumes inv: "train_inv s" and i64: "i64_array [inp, outp]"
  shows "delivers s (\<lambda>i t. object_ok t kModule i) (make_linear D inp outp bias (canonical_shape [inp, outp]) s)"
  unfolding make_linear_def
proof (rule delivers_after [where m = "draw_vector D (linear_bound inp) (numel (canonical_shape [inp, outp]))",
    OF good_draw_vector [OF inv]])
  fix wv s1 assume s1: "train_inv s1"
  let ?draw = "if bias then draw_vector D (linear_bound inp) (nat outp) else returnE []"
  let ?module = "\<lambda>w b. \<lparr>in_features = inp, out_features = outp, use_bias = bias, ls_training = True,
    ls_weight = w, ls_bias = b\<rparr>"
  let ?bias = "\<lambda>bv. if bias then bindE (statusE (ValidateShape (Some [outp]) 1)) (\<lambda>sh.
      bindE (heapE (MakeParameter sh bv)) (\<lambda>b. returnE (Some b))) else returnE None"
  show "delivers s1 (\<lambda>i t. object_ok t kModule i) (bindE ?draw (\<lambda>bv.
      bindE (heapE request_alloc) (\<lambda>_.
      bindE (heapE (MakeParameter (canonical_shape [inp, outp]) wv)) (\<lambda>w.
      bindE (?bias bv) (\<lambda>b. new_module (?module w b))))) s1)"
  proof (rule delivers_after [where m = ?draw])
    show "good s1 (?draw s1)" using good_draw_vector [OF s1] by (simp add: returnE_run good_same [OF s1])
    fix bv s2 assume s2: "train_inv s2"
    show "delivers s2 (\<lambda>i t. object_ok t kModule i) (bindE (heapE request_alloc) (\<lambda>_.
        bindE (heapE (MakeParameter (canonical_shape [inp, outp]) wv)) (\<lambda>w.
        bindE (?bias bv) (\<lambda>b. new_module (?module w b)))) s2)"
    proof (rule delivers_after [where m = "heapE request_alloc", OF good_quiet [OF s2 quiet_request_alloc]])
      fix u s3 assume s3: "train_inv s3"
      show "delivers s3 (\<lambda>i t. object_ok t kModule i)
          (bindE (heapE (MakeParameter (canonical_shape [inp, outp]) wv)) (\<lambda>w.
           bindE (?bias bv) (\<lambda>b. new_module (?module w b))) s3)"
      proof (rule delivers_bind [where m = "heapE (MakeParameter (canonical_shape [inp, outp]) wv)",
          OF delivers_parameter [OF s3]])
        show "i64_array (dimensions (canonical_shape [inp, outp]))" using i64 by simp
        fix w s4 assume s4: "train_inv s4"
          and "fresh_parameter (rt_heap s3) (rt_heap s4) w (dimensions (canonical_shape [inp, outp])) wv"
        then have w: "parameter_ok (rt_heap s4) w [inp, outp]" by (simp add: fresh_parameter_def)
        show "delivers s4 (\<lambda>i t. object_ok t kModule i) (bindE (?bias bv) (\<lambda>b. new_module (?module w b)) s4)"
        proof (rule delivers_bind [where m = "?bias bv"])
          show "delivers s4 (\<lambda>b t. module_ok (rt_heap t) (?module w b)) (?bias bv s4)"
            using delivers_bias [OF s4 w, of bias bv] i64 by (simp add: i64_array_def)
        qed (rule delivers_new_module)
      qed
    qed
  qed
qed

section \<open>Optimizers\<close>

lemma quiet_zero_moments: "keeps quietly (zero_moments two sizes)"
  unfolding zero_moments_def
  by (auto intro!: quiet.keeps_fold quiet.keeps_bind quiet_request_alloc quiet.keeps_return split: prod.splits)

lemma zero_moments_sizes:
  assumes "zero_moments two sizes h = (Inr (first, second), h')"
  shows "map length first = sizes" "two \<Longrightarrow> map length second = sizes"
proof -
  let ?I = "\<lambda>pre (ab :: f32 list list \<times> f32 list list) (h :: heap).
    map length (fst ab) = pre \<and> (two \<longrightarrow> map length (snd ab) = pre)"
  have "triple (?I [] ([], [])) (zero_moments two sizes) (\<lambda>ab. ?I sizes ab) (\<lambda>_ _. True)"
    unfolding zero_moments_def
  proof (rule triple_fold_prefix)
    fix pre x post and ab :: "f32 list list \<times> f32 list list"
    show "triple (?I pre ab) (case ab of (first, second) \<Rightarrow>
        bindE request_alloc (\<lambda>_. bindE (if two then request_alloc else returnE ()) (\<lambda>_.
        returnE (first @ [replicate x f32_zero],
          if two then second @ [replicate x f32_zero] else second)))) (\<lambda>ab. ?I (pre @ [x]) ab) (\<lambda>_ _. True)"
      by (rule tripleI) (auto simp: returnE_run elim!: bindE_InrE split: prod.splits if_splits)
  qed
  from triple_InrD [OF this _ assms] show "map length first = sizes" "two \<Longrightarrow> map length second = sizes"
    by simp_all
qed

lemma quiet_InitializeCpuMoments: "keeps quietly (InitializeCpuMoments ps op)"
  unfolding InitializeCpuMoments_def
  by (auto intro!: keeps_allocation_guard quiet.keeps_fold quiet.keeps_bind quiet_request_alloc
      quiet.keeps_return quiet.keeps_get quiet_MutableCpuValues split: prod.splits)

text \<open>The moments have the sizes of the parameters, which can all be written.\<close>

lemma initialize_parameter:
  assumes wf: "wf_heap h" and r: "r < length (tensors h)"
    and run: "bindE (MutableCpuValues r op) (\<lambda>storage.
          bindE (getE (\<lambda>h. length (cpu_values (storages h ! storage)))) (\<lambda>n.
          bindE request_alloc (\<lambda>_. bindE request_alloc (\<lambda>_. returnE (f n))))) h = (Inr x, h')"
  shows "direct h r" "x = f (numel_of (tensor_at h r))" "quietly h h'"
proof -
  obtain m where m: "MutableCpuValues r op h = (if direct h r then (Inr (t_storage (tensor_at h r)), h)
      else (Inl (Failed (InvalidArgument m)), h))"
    using MutableCpuValues_run [OF wf_heap_layout [OF wf r], of op] by blast
  then show d: "direct h r" using run by (auto simp: bindE_def split: if_splits)
  have len: "length (cpu_values (storages h ! t_storage (tensor_at h r))) = numel_of (tensor_at h r)"
    using d by (simp add: direct_def)
  have run2: "bindE request_alloc (\<lambda>_. bindE request_alloc (\<lambda>_. returnE (f (numel_of (tensor_at h r))))) h =
      (Inr x, h')" using run m d len by (simp add: bindE_Inr_run)
  then obtain h2 where "returnE (f (numel_of (tensor_at h r))) h2 = (Inr x :: fault + _, h')"
    by (elim bindE_InrE) blast
  then show "x = f (numel_of (tensor_at h r))" by (simp add: returnE_run)
  have "keeps quietly (bindE request_alloc (\<lambda>_. bindE request_alloc (\<lambda>_.
      returnE (f (numel_of (tensor_at h r))))))"
    by (intro quiet.keeps_bind quiet_request_alloc quiet.keeps_return)
  from keepsD [OF this run2] show "quietly h h'" .
qed

lemma quietly_direct:
  assumes "quietly h h1" and "wf_heap h" and "r < length (tensors h)"
  shows "direct h1 r = direct h r"
proof -
  have "t_storage (tensor_at h r) < length (storages h)"
    using wf_heap_layout [OF assms(2,3)] by (simp add: layout_ok_def)
  then have "storages h1 ! t_storage (tensor_at h r) = storages h ! t_storage (tensor_at h r)"
    using assms(1) heap_extends_nth(1) by (auto simp: quietly_def)
  then show ?thesis using assms(1) by (simp add: direct_def quietly_def)
qed

lemma InitializeCpuMoments_result:
  assumes wf: "wf_heap h" and ps: "\<forall>p \<in> set ps. p < length (tensors h)"
    and run: "InitializeCpuMoments ps op h = (Inr (first, second), h')"
  shows "map length first = sizes_of h ps" "map length second = sizes_of h ps" "\<forall>p \<in> set ps. direct h p"
proof -
  let ?I = "\<lambda>pre (ab :: f32 list list \<times> f32 list list) h1. quietly h h1 \<and>
    map length (fst ab) = sizes_of h pre \<and> map length (snd ab) = sizes_of h pre \<and> (\<forall>p \<in> set pre. direct h p)"
  let ?body = "\<lambda>p (first, second). bindE (MutableCpuValues p op) (\<lambda>storage.
          bindE (getE (\<lambda>h. length (cpu_values (storages h ! storage)))) (\<lambda>n.
          bindE request_alloc (\<lambda>_. bindE request_alloc (\<lambda>_.
          returnE (first @ [replicate n f32_zero], second @ [replicate n f32_zero])))))"
  have loop: "triple (?I [] ([], [])) (foldE ps ([], []) ?body) (\<lambda>ab. ?I ps ab) (\<lambda>_ _. True)"
  proof (rule triple_fold_prefix, rule tripleI)
    fix pre p post ab h1 x h2
    assume split: "ps = pre @ p # post" and I: "?I pre ab h1" and r: "?body p ab h1 = (Inr x, h2)"
    obtain a b where ab: "ab = (a, b)" by force
    have p: "p < length (tensors h)" using ps split by simp
    then have p1: "wf_heap h1" "p < length (tensors h1)" "tensor_at h1 p = tensor_at h p"
      using I wf_heap_quietly [OF wf] by (auto simp: quietly_def)
    note i = initialize_parameter [where f = "\<lambda>n. (a @ [replicate n f32_zero], b @ [replicate n f32_zero])",
        OF p1(1,2) r [unfolded ab prod.case]]
    show "?I (pre @ [p]) x h2"
      using I i quietly_direct [OF _ wf p, of h1] quiet.frame_trans [of h h1 h2] ab p1(3)
      by (simp add: sizes_of_def)
  qed simp
  have eq: "foldE ps ([], []) ?body h = (Inr (first, second), h')"
    using run unfolding InitializeCpuMoments_def allocation_guard_Inr .
  have pre: "?I [] ([], []) h" by (simp add: sizes_of_def quiet.frame_refl)
  from triple_InrD [OF loop pre eq] show "map length first = sizes_of h ps" "map length second = sizes_of h ps" "\<forall>p \<in> set ps. direct h p"
    by simp_all
qed

lemma CollectParameters_result:
  assumes inv: "train_inv s" and run: "CollectParameters handles n op s = (r, s1)"
  shows "s1 = s" "r = Inr (out, kind) \<Longrightarrow> p \<in> set out \<Longrightarrow> public (rt_heap s) p"
proof -
  let ?I = "\<lambda>(acc :: tensor_ref list \<times> storage_kind option \<times> tensor_ref list) s1. s1 = s \<and> (\<forall>p \<in> set (snd (snd acc)). public (rt_heap s) p)"
  have step: "triple (?I acc) (collect_parameter op h acc) ?I (\<lambda>_ s1. s1 = s)" for h acc
  proof -
    obtain seen kind out where acc: "acc = (seen, kind, out)" by (cases acc) auto
    show ?thesis
    proof (cases "LookupTensor h s")
      case (Pair r1 s2)
      have s2: "s2 = s" using Pair by (auto simp: lookup_defs registryE_def registry_lookup_state split: prod.splits
          dest: arg_cong [where f = snd])
      have "public (rt_heap s) q" if "r1 = Inr q" for q
        using lookup_ok(2) [OF inv, of h kTensor q s2] Pair that by (simp add: lookup_defs object_ok_def)
      then show ?thesis
        using Pair s2 unfolding acc
        by (auto simp: triple_def collect_parameter_def bindE_def heapE_def checkE_run returnE_run
            split: sum.splits)
    qed
  qed
  have loop: "triple (?I ([], None, [])) (foldE (take n (the handles)) ([], None, []) (collect_parameter op)) ?I
      (\<lambda>_ s1. s1 = s)"
    by (rule triple_fold_prefix [where I = "\<lambda>_. ?I"]) (rule step)
  have "triple (\<lambda>t. t = s) (CollectParameters handles n op)
      (\<lambda>ok s1. s1 = s \<and> (\<forall>p \<in> set (fst ok). public (rt_heap s) p)) (\<lambda>_ s1. s1 = s)"
    unfolding CollectParameters_def
  proof (rule triple_bind [OF triple_check [where Q = "\<lambda>_ t. ?I ([], None, []) t"]])
    fix u
    show "triple (?I ([], None, [])) (bindE (foldE (take n (the handles)) ([], None, []) (collect_parameter op))
       (\<lambda>(_, kind, out). bindE (checkE (out \<noteq> [])
       (InvalidArgument (op @ '': no trainable parameters remain after filtering''))) (\<lambda>_.
       returnE (out, the kind)))) (\<lambda>ok s1. s1 = s \<and> (\<forall>p \<in> set (fst ok). public (rt_heap s) p)) (\<lambda>_ s1. s1 = s)"
      by (rule triple_bind [OF loop]) (auto simp: triple_def checkE_run bindE_def returnE_run split: prod.splits)
  qed simp_all
  from triple_InlD [OF this refl] triple_InrD [OF this refl] run
  show "s1 = s" "r = Inr (out, kind) \<Longrightarrow> p \<in> set out \<Longrightarrow> public (rt_heap s) p"
    by (cases r; force)+
qed

end
