(* ===== verification/Training_Laws.thy ===== *)
theory Training_Laws
  imports Training_Create
begin

text \<open>
  Every exported function keeps the invariant of the library, on every exit and for every argument
  the C types allow.
\<close>

section \<open>Lawful computations\<close>

definition lawful :: "'r training_runtime_scheme \<Rightarrow> 'r training_runtime_scheme \<Rightarrow> bool" where
  "lawful s s' \<longleftrightarrow> (train_inv s \<longrightarrow> train_inv s' \<and> evolves s s')"

definition lawful_cell :: "'b option \<times> 'r training_runtime_scheme \<Rightarrow> 'b option \<times> 'r training_runtime_scheme \<Rightarrow> bool" where
  "lawful_cell x y \<longleftrightarrow> lawful (snd x) (snd y)"

interpretation law: frame_relation lawful
  by unfold_locales (auto simp: lawful_def evolves_refl intro: evolves_trans)

interpretation cell: frame_relation lawful_cell
  by unfold_locales (auto simp: lawful_cell_def law.frame_refl intro: law.frame_trans)

lemma lawfulI: "(\<And>s. train_inv s \<Longrightarrow> good s (m s)) \<Longrightarrow> keeps lawful m"
  by (simp add: keeps_def lawful_def good_def)

lemma lawful_good: "keeps lawful m \<Longrightarrow> train_inv s \<Longrightarrow> good s (m s)"
  by (simp add: keeps_def lawful_def good_def)

lemma lawful_quiet: "keeps quietly m \<Longrightarrow> keeps lawful (heapE m)"
  by (intro lawfulI good_quiet)

lemma lawful_lookup: "keeps lawful (LookupTensor h)" "keeps lawful (LookupModule h)"
    "keeps lawful (LookupOptimizer h)" "keeps lawful (LookupParameterOptimizer h)"
  unfolding lookup_defs by (rule lawfulI, rule good_lookup, assumption)+

lemma lawful_registry: "keeps lawful (registryE (registry_retain h ty))" "keeps lawful (registryE (registry_release h ty))"
    "keeps lawful (registryE (getE f))"
  by (intro lawfulI good_retain good_release; assumption)+
    (simp add: keeps_def registryE_def law.frame_refl)

lemma lawful_tensor: "keeps lawful (tensorE r)"
  by (rule lawfulI) (rule good_tensor)

lemma lawful_engine: "keeps lawful (modifyE (\<lambda>s. s\<lparr>rt_engine := e s\<rparr>))"
  by (simp add: keeps_def lawful_def evolves_refl)

lemma lawful_io: "keeps lawful next_io" "keeps lawful (write_file path bs)"
  by (simp_all add: keeps_def lawful_def next_io_def write_file_def evolves_refl split: list.split)

text \<open>On the caller's cell.\<close>

lemma cell_runtime: "keeps lawful m \<Longrightarrow> keeps lawful_cell (runtimeE m)"
  by (simp add: keeps_def lawful_cell_def runtimeE_def case_prod_unfold)

lemma cell_out: "keeps lawful_cell (set_out v)" "keeps lawful_cell (check_out m)"
  by (simp_all add: keeps_def lawful_cell_def set_out_def check_out_def checkE_run law.frame_refl case_prod_unfold)

lemma InsertTensor_object: "InsertTensor r = InsertObject kTensor r"
  by (simp add: InsertTensor_def InsertObject_def)

text \<open>The registration of a new object.\<close>

lemma cell_new:
  assumes "\<And>s. train_inv s \<Longrightarrow> delivers s (\<lambda>i t. object_ok t ty i) (m s)"
  shows "keeps lawful_cell (bindE (runtimeE m) (InsertObject ty))"
proof -
  have "lawful_cell (out, s) (snd (bindE (runtimeE m) (InsertObject ty) (out, s)))"
    for out :: "64 word option" and s :: "'a training_runtime_scheme"
  proof (cases "train_inv s")
    case inv: True
    obtain r s1 where m: "m s = (r, s1)" by force
    note d = deliversD [OF assms [OF inv, unfolded m]]
    show ?thesis
    proof (cases r)
      case (Inl f)
      then show ?thesis using m d by (simp add: lawful_cell_def lawful_def runtimeE_def bindE_def)
    next
      case (Inr i)
      have "good s1 (registryE (registry_insert ty (Some i)) s1)" by (rule good_insert [OF d(1) d(3) [OF Inr]])
      then show ?thesis
        using m d(2) Inr evolves_trans [of s s1]
        by (auto simp: lawful_cell_def lawful_def runtimeE_def bindE_def InsertObject_def set_out_def good_def
            split: prod.splits sum.splits)
    qed
  qed (simp add: lawful_cell_def lawful_def)
  then show ?thesis by (simp add: keeps_def split_paired_all)
qed

lemma cell_new_handle:
  assumes "\<And>s. train_inv s \<Longrightarrow> delivers s public_tensor (compute s)"
  shows "keeps lawful_cell (new_handle message compute)"
proof -
  have "keeps lawful_cell (bindE (runtimeE compute) (InsertObject kTensor))"
    using assms by (intro cell_new) (simp add: object_ok_def)
  then have "keeps lawful_cell (bindE (runtimeE compute) InsertTensor)"
    unfolding InsertTensor_object [abs_def] by simp
  then show ?thesis
    unfolding new_handle_def
    by (rule cell.keeps_bind [OF cell_out(2) cell.keeps_bind [OF cell_out(1)]])
qed

lemmas lawful_rules = law.keeps_all lawful_lookup lawful_registry lawful_tensor lawful_engine lawful_io

lemmas cell_rules = cell.keeps_all cell_out cell_runtime keeps_allocation_guard

section \<open>Exported functions\<close>

definition lawful_call :: "('b, 'r) tcall \<Rightarrow> bool" where
  "lawful_call f \<longleftrightarrow> (\<forall>out s. lawful s (snd (snd (f out s))))"

definition lawful_plain :: "'r training_plain_call \<Rightarrow> bool" where
  "lawful_plain f \<longleftrightarrow> (\<forall>s. lawful s (snd (f s)))"

lemma lawful_error: "lawful (s\<lparr>rt_last_error := m\<rparr>) s' = lawful s s'" "lawful s (s'\<lparr>rt_last_error := m\<rparr>) = lawful s s'"
  by (simp_all add: lawful_def)

lemma lawful_function: "keeps lawful_cell body \<Longrightarrow> lawful_call (ts_function name body)"
  unfolding lawful_call_def
proof (intro allI)
  fix out and s :: "'b training_runtime_scheme"
  assume "keeps lawful_cell body"
  then have "lawful (s\<lparr>rt_last_error := []\<rparr>) (snd (snd (body (out, s\<lparr>rt_last_error := []\<rparr>))))"
    unfolding keeps_def lawful_cell_def by (metis snd_conv)
  then show "lawful s (snd (snd (ts_function name body out s)))"
    by (simp add: ts_function_run lawful_error case_prod_unfold)
qed

lemma lawful_plainI: "keeps lawful body \<Longrightarrow> lawful_plain (ts_plain name body)"
proof -
  assume k: "keeps lawful body"
  have "lawful s (snd (ts_plain name body s))" for s
  proof -
    have "lawful (s\<lparr>rt_last_error := []\<rparr>) (snd (body (s\<lparr>rt_last_error := []\<rparr>)))"
      using k by (simp add: keeps_def)
    then show ?thesis by (simp add: ts_plain_run lawful_error case_prod_unfold)
  qed
  then show ?thesis by (simp add: lawful_plain_def)
qed

section \<open>The core\<close>

text \<open>The arrays of a caller hold as many values as the call says.\<close>

definition dims_argument :: "int list option \<Rightarrow> nat \<Rightarrow> bool" where
  "dims_argument dims rank \<longleftrightarrow> (\<forall>d. dims = Some d \<longrightarrow> length d = rank \<and> i64_array d)"

definition data_argument :: "f32 list option \<Rightarrow> nat \<Rightarrow> bool" where
  "data_argument data n \<longleftrightarrow> (\<forall>vs. data = Some vs \<longrightarrow> length vs = n)"

lemma ValidateShape_argument:
  assumes "ValidateShape dims rank = Inr sh" and "dims_argument dims rank"
  obtains d where "valid_dims d" "sh = canonical_shape d"
proof (cases dims)
  case None
  then have "rank = 0" using assms(1) by (auto simp: ValidateShape_def split: if_splits)
  then show thesis
    using that [of "[]"] assms(1) None ValidateShape_scalar
    by (simp add: valid_dims_def kMaxTensorRank_def max_numel_def)
next
  case (Some d)
  then show thesis
    using that assms ValidateShape_cases [of rank d sh] by (auto simp: dims_argument_def)
qed

lemma makes_core:
  assumes inv: "heap_inv h" and l: "public h l" and r: "public h r"
  shows "makes h (Transfer l dev i h)" "makes h (CpuBackend_Transpose2D l h)" "makes h (CpuBackend_Sum l h)"
    "makes h (CpuBackend_Add l r h)" "makes h (CpuBackend_Multiply l r h)" "makes h (CpuBackend_Matmul l r h)"
    "valid_dims d \<Longrightarrow> makes h (CpuBackend_Reshape l (canonical_shape d) h)"
proof -
  note wf = heap_invD(1) [OF inv] and ll = publicD(1) [OF l] and rl = publicD(1) [OF r]
  note u = clean_record [of "[l]" h] and b = clean_record [of "[l, r]" h]
  show "makes h (Transfer l dev i h)" by (rule makes_yields [OF inv Transfer_yields [OF wf ll]]) (simp_all add: u l)
  show "makes h (CpuBackend_Transpose2D l h)"
    by (rule makes_yields [OF inv Transpose2D_yields [OF wf ll]]) (simp_all add: u l)
  show "makes h (CpuBackend_Sum l h)" by (rule makes_yields [OF inv Sum_yields [OF wf ll]]) (simp_all add: u l)
  show "makes h (CpuBackend_Add l r h)" by (rule makes_yields [OF inv Add_yields [OF wf ll rl]]) (simp_all add: b l r)
  show "makes h (CpuBackend_Multiply l r h)"
    by (rule makes_yields [OF inv Multiply_yields [OF wf ll rl]]) (simp_all add: b l r)
  show "makes h (CpuBackend_Matmul l r h)"
    by (rule makes_yields [OF inv Matmul_yields [OF wf ll rl]]) (simp_all add: b l r)
  show "makes h (CpuBackend_Reshape l (canonical_shape d) h)" if "valid_dims d"
    by (rule makes_yields [OF inv Reshape_yields [OF wf ll that]]) (simp_all add: u l)
qed

lemma makes_created:
  assumes inv: "heap_inv h" and d: "valid_dims d"
  shows "makes h (CpuBackend_Full (canonical_shape d) x h)"
    "length vs = dims_prod d \<Longrightarrow> makes h (CpuBackend_FromData (canonical_shape d) (Some vs) h)"
proof -
  note wf = heap_invD(1) [OF inv]
  show "makes h (CpuBackend_Full (canonical_shape d) x h)"
    by (rule makes_yields [OF inv Full_yields [OF wf d]]) (simp_all add: clean_None)
  show "makes h (CpuBackend_FromData (canonical_shape d) (Some vs) h)" if "length vs = dims_prod d"
    by (rule makes_yields [OF inv FromData_yields [OF wf d that]]) (simp_all add: clean_None)
qed

lemma delivers_tensor:
  assumes inv: "train_inv s" and "\<And>r. public (rt_heap s) r \<Longrightarrow> delivers s P (f r s)"
  shows "delivers s P (bindE (LookupTensor h) f s)"
  unfolding lookup_defs by (rule delivers_find [OF inv]) (simp add: object_ok_def assms(2))

lemma delivers_dispatch:
  assumes inv: "train_inv s" and r: "public (rt_heap s) r" and d: "delivers s P (f CpuBackend s)"
  shows "delivers s P (bindE (tensorE r) (\<lambda>object. bindE (BackendFor object) f) s)"
  using d Dispatcher_layout_ok(1) [OF wf_heap_layout [OF train_invD(3) [OF inv] publicD(1) [OF r]]]
  by (simp add: tensorE_def heapE_def bindE_def BackendFor_def statusE_run)

lemma lawful_from_f32:
  assumes "dims_argument dims rank" and "data_argument data n"
  shows "lawful_call (ts_tensor_from_f32 data n dims rank)"
  unfolding ts_tensor_from_f32_def
proof (intro lawful_function cell_new_handle delivers_status)
  fix s :: "'a training_runtime_scheme" and sh
  assume inv: "train_inv s" and sh: "ValidateShape dims rank = Inr sh"
  obtain d where d: "valid_dims d" "sh = canonical_shape d" using ValidateShape_argument [OF sh assms(1)] .
  let ?body = "\<lambda>_. bindE (statusE (Dispatcher_For kCpu)) (\<lambda>backend. heapE (be_FromData backend sh data))"
  have "delivers s public_tensor (heapE (CpuBackend_FromData sh data) s)"
    if num: "numel sh = n" and ptr: "n = 0 \<or> data \<noteq> None"
  proof -
    have "0 < dims_prod d" using d(1) prod_list_pos [of "map nat d"] by (auto simp: valid_dims_def dims_prod_def)
    then obtain vs where "data = Some vs" using num ptr d(2) by auto
    moreover have n: "n = dims_prod d" using num d(2) by simp
    ultimately have vs: "data = Some vs" "length vs = dims_prod d"
      using assms(2) by (auto simp: data_argument_def)
    then show ?thesis
      using makes_created(2) [OF train_invD(1) [OF inv] d(1)] d(2) vs
      by (intro delivers_makes [OF inv]) simp
  qed
  then show "delivers s public_tensor
        (bindE (checkE (numel sh = n) (InvalidArgument
          ''tensor_from_f32: data length must equal validated shape element count'')) (\<lambda>_.
        bindE (checkE (\<not> (n > 0 \<and> data = None))
          (InvalidArgument ''tensor_from_f32: input data pointer is null'')) ?body) s)"
    using inv by (simp add: Dispatcher_For_def delivers_fault)
qed

lemma lawful_full_f32:
  assumes "dims_argument dims rank"
  shows "lawful_call (ts_tensor_full_f32 dims rank x)"
  unfolding ts_tensor_full_f32_def
proof (intro lawful_function cell_new_handle delivers_status)
  fix s :: "'a training_runtime_scheme" and sh b
  assume inv: "train_inv s" and sh: "ValidateShape dims rank = Inr sh" and b: "Dispatcher_For kCpu = Inr b"
  obtain d where "valid_dims d" "sh = canonical_shape d" using ValidateShape_argument [OF sh assms] .
  then show "delivers s public_tensor (heapE (be_Full b sh x) s)"
    using makes_created(1) [OF train_invD(1) [OF inv]] b
    by (intro delivers_makes [OF inv]) (auto simp: Dispatcher_For_def)
qed

lemma lawful_core_unary:
  "lawful_call (ts_tensor_to_device h dev i)" "lawful_call (ts_tensor_transpose2d h)" "lawful_call (ts_tensor_sum h)"
proof -
  show "lawful_call (ts_tensor_to_device h dev i)"
    unfolding ts_tensor_to_device_def
    by (intro lawful_function cell_new_handle delivers_status delivers_tensor delivers_makes makes_core)
      (simp_all add: train_invD)
  show "lawful_call (ts_tensor_transpose2d h)"
    unfolding ts_tensor_transpose2d_def
    by (intro lawful_function cell_new_handle delivers_tensor delivers_dispatch, assumption+)
      (simp, rule delivers_makes, assumption, rule makes_core, simp_all add: train_invD)
  show "lawful_call (ts_tensor_sum h)"
    unfolding ts_tensor_sum_def
    by (intro lawful_function cell_new_handle delivers_tensor delivers_dispatch, assumption+)
      (simp, rule delivers_makes, assumption, rule makes_core, simp_all add: train_invD)
qed

lemma lawful_reshape:
  assumes "dims_argument dims rank"
  shows "lawful_call (ts_tensor_reshape h dims rank)"
  unfolding ts_tensor_reshape_def
proof (intro lawful_function cell_new_handle delivers_status delivers_tensor)
  fix s :: "'a training_runtime_scheme" and sh r
  assume inv: "train_inv s" and sh: "ValidateShape dims rank = Inr sh" and r: "public (rt_heap s) r"
  obtain d where d: "valid_dims d" "sh = canonical_shape d" using ValidateShape_argument [OF sh assms] .
  have "delivers s public_tensor (heapE (CpuBackend_Reshape r sh) s)"
    using makes_core(7) [OF train_invD(1) [OF inv] r r d(1)] d(2) by (intro delivers_makes [OF inv]) simp
  then show "delivers s public_tensor (bindE (tensorE r) (\<lambda>object. bindE (BackendFor object)
      (\<lambda>backend. heapE (be_Reshape backend r sh))) s)"
    by (intro delivers_dispatch [OF inv r]) simp
qed

lemma lawful_binary:
  assumes "\<And>h l r. heap_inv h \<Longrightarrow> public h l \<Longrightarrow> public h r \<Longrightarrow> makes h (f CpuBackend l r h)"
  shows "keeps lawful_cell (RunBinaryOperation a b name f)"
  unfolding RunBinaryOperation_def
proof (intro cell_new_handle delivers_tensor)
  fix s :: "'a training_runtime_scheme" and l r
  assume inv: "train_inv s" and p: "public (rt_heap s) l" "public (rt_heap s) r"
  have "Dispatcher_ForTensors (tensor_at (rt_heap s) l) (tensor_at (rt_heap s) r) = Inr CpuBackend"
    using Dispatcher_layout_ok(2) [OF wf_heap_layout [OF train_invD(3) [OF inv] publicD(1) [OF p(1)]]
      wf_heap_layout [OF train_invD(3) [OF inv] publicD(1) [OF p(2)]]] .
  moreover have "delivers s public_tensor (heapE (f CpuBackend l r) s)"
    using assms [OF train_invD(1) [OF inv] p] by (rule delivers_makes [OF inv])
  ultimately show "delivers s public_tensor (bindE (tensorE l) (\<lambda>x. bindE (tensorE r) (\<lambda>y.
      bindE (statusE (Dispatcher_ForTensors x y)) (\<lambda>backend. heapE (f backend l r)))) s)"
    by (simp add: tensorE_def heapE_def bindE_def statusE_run)
qed

lemma lawful_core_binary:
  "lawful_call (ts_tensor_add a b)" "lawful_call (ts_tensor_multiply a b)" "lawful_call (ts_tensor_matmul a b)"
  unfolding ts_tensor_add_def ts_tensor_multiply_def ts_tensor_matmul_def
  by (rule lawful_function, rule lawful_binary, simp add: makes_core)+

lemma lawful_query: "keeps lawful_cell (query_tensor m f h)"
  unfolding query_tensor_def by (intro cell_rules lawful_rules)

lemma lawful_core_queries:
  "lawful_call (ts_tensor_rank h)" "lawful_call (ts_tensor_dtype h)" "lawful_call (ts_tensor_device h)"
  "lawful_call (ts_tensor_device_index h)" "lawful_call (ts_tensor_numel h)" "lawful_call (ts_tensor_shape h n)"
  "lawful_call (ts_tensor_copy_to_host_f32 h n)" "lawful_call ts_runtime_live_tensor_count"
  "lawful_call (ts_runtime_device_count dev)" "lawful_call ts_runtime_cuda_device_count"
  unfolding ts_tensor_rank_def ts_tensor_dtype_def ts_tensor_device_def ts_tensor_device_index_def
    ts_tensor_numel_def ts_tensor_shape_def ts_tensor_copy_to_host_f32_def ts_runtime_live_tensor_count_def
    ts_runtime_device_count_def ts_runtime_cuda_device_count_def case_prod_unfold
  by (rule lawful_function, (intro cell_rules lawful_rules lawful_query lawful_quiet quiet.keeps_get
      | simp only: split: if_split | intro conjI impI)+)+

lemma lawful_core_plain:
  "lawful_plain ts_noop" "lawful_plain (ts_tensor_retain h)" "lawful_plain (ts_tensor_release h)"
  unfolding ts_noop_def ts_tensor_retain_def ts_tensor_release_def
  by (rule lawful_plainI, intro lawful_rules)+

section \<open>Tensors of the training bridge\<close>

lemma lawful_training_unary:
  assumes "\<And>h r. heap_inv h \<Longrightarrow> public h r \<Longrightarrow> makes h (f r h)"
  shows "keeps lawful_cell (RunTrainingUnary t f)"
  unfolding RunTrainingUnary_def
  using assms by (intro cell_new_handle delivers_tensor delivers_makes) (simp_all add: train_invD)

lemma lawful_training_binary:
  assumes "\<And>h l r. heap_inv h \<Longrightarrow> public h l \<Longrightarrow> public h r \<Longrightarrow> makes h (f l r h)"
  shows "keeps lawful_cell (RunTrainingBinary a b f)"
  unfolding RunTrainingBinary_def
  using assms by (intro cell_new_handle delivers_tensor delivers_makes) (simp_all add: train_invD)

lemma lawful_training_tensors:
  "lawful_call (ts_tensor_clone_detached t)" "lawful_call (ts_tensor_with_requires_grad t rg)"
  "lawful_call (ts_tensor_grad t)" "lawful_call (ts_tensor_relu L t)" "lawful_call (ts_tensor_sigmoid L t)"
  "lawful_call (ts_tensor_tanh L t)" "lawful_call (ts_tensor_gelu L t)" "lawful_call (ts_tensor_silu L t)"
  "lawful_call (ts_tensor_swiglu L t)" "lawful_call (ts_mse_loss a b)" "lawful_call (ts_cross_entropy_loss L a b)"
  unfolding ts_tensor_clone_detached_def ts_tensor_with_requires_grad_def ts_tensor_grad_def ts_tensor_relu_def
    ts_tensor_sigmoid_def ts_tensor_tanh_def ts_tensor_gelu_def ts_tensor_silu_def ts_tensor_swiglu_def
    ts_mse_loss_def ts_cross_entropy_loss_def
  by (rule lawful_function, (rule lawful_training_unary | rule lawful_training_binary),
      simp add: makes_training_ops makes_losses makes_Gradient)+

lemma lawful_on_tensor:
  assumes "\<And>h r. heap_inv h \<Longrightarrow> public h r \<Longrightarrow> sound h (f r h)"
  shows "keeps lawful (bindE (LookupTensor t) (\<lambda>r. heapE (f r)))"
proof (rule lawfulI)
  fix s :: "'b training_runtime_scheme" assume inv: "train_inv s"
  show "good s (bindE (LookupTensor t) (\<lambda>r. heapE (f r)) s)"
    unfolding lookup_defs
    by (rule good_find [OF inv]) (use assms inv in \<open>simp add: good_heapE train_invD object_ok_def\<close>)
qed

lemma lawful_training_state:
  "lawful_plain (ts_manual_seed seed)" "lawful_plain (ts_tensor_assign_many targets sources n)"
  "lawful_plain (ts_tensor_set_requires_grad t rg)" "lawful_plain (ts_tensor_backward L t)"
  unfolding ts_manual_seed_def ManualSeed_def ts_tensor_assign_many_def ts_tensor_set_requires_grad_def
    ts_tensor_backward_def
proof -
  show "lawful_plain (ts_plain ''manual_seed'' (modifyE (\<lambda>s. s\<lparr>rt_engine := engine_seed seed\<rparr>)))"
    by (rule lawful_plainI, rule lawful_engine)
  show "lawful_plain (ts_plain ''tensor_assign_many'' (AssignMany targets sources n))"
    by (rule lawful_plainI, rule lawfulI, rule good_AssignMany)
  show "lawful_plain (ts_plain ''tensor_set_requires_grad''
      (bindE (LookupTensor t) (\<lambda>object. heapE (SetRequiresGrad object (rg \<noteq> 0)))))"
    by (rule lawful_plainI, rule lawful_on_tensor, rule sound_SetRequiresGrad)
  show "lawful_plain (ts_plain ''tensor_backward'' (bindE (LookupTensor t) (\<lambda>object. heapE (Backward L object))))"
    by (rule lawful_plainI, rule lawful_on_tensor, rule sound_Backward)
qed

lemma lawful_training_queries:
  "lawful_call ts_training_available" "lawful_call (ts_tensor_identity t)" "lawful_call (ts_tensor_requires_grad t)"
  "lawful_call ts_runtime_live_module_count" "lawful_call ts_runtime_live_optimizer_count"
  "lawful_call (ts_module_parameter_count m)" "lawful_call (ts_module_buffer_count m)"
  unfolding ts_training_available_def IsAvailable_def ts_tensor_identity_def ts_tensor_requires_grad_def
    ts_runtime_live_module_count_def ts_runtime_live_optimizer_count_def ts_module_parameter_count_def
    ModuleParameterCount_def ts_module_buffer_count_def ModuleBufferCount_def
  by (rule lawful_function, (intro cell_rules lawful_rules lawful_quiet quiet_TensorIdentity quiet.keeps_get)+)+

section \<open>Modules\<close>

lemma cell_linear:
  assumes "i64_array [inp, outp]"
  shows "keeps lawful_cell (bindE (statusE (ValidateShape (Some [inp, outp]) 2)) (\<lambda>sh.
      allocation_guard op (bindE (runtimeE (make_linear D inp outp b sh)) (InsertObject kModule))))"
proof (cases "ValidateShape (Some [inp, outp]) 2")
  case (Inr sh)
  then have "sh = canonical_shape [inp, outp]"
    using ValidateShape_list [of "[inp, outp]" sh] assms by (simp add: numeral_2_eq_2)
  then show ?thesis
    unfolding Inr bindE_status_Inr
    by (intro keeps_allocation_guard cell_new) (simp add: delivers_make_linear [OF _ assms])
qed (simp add: statusE_def cell.keeps_throw)

lemma lawful_linear_create:
  "i64_array [inp, outp] \<Longrightarrow> lawful_call (ts_linear_create D inp outp bias)"
  unfolding ts_linear_create_def LinearCreate_def
  by (intro lawful_function cell.keeps_bind [OF cell_out(1)] cell.keeps_bind [OF cell_out(2)]
      cell.keeps_bind [OF cell.keeps_status] cell_linear)

lemma delivers_module:
  assumes inv: "train_inv s" and "\<And>m. m < length (rt_modules s) \<Longrightarrow> module_ok (rt_heap s) (module_at s m) \<Longrightarrow>
    delivers s P (f m s)"
  shows "delivers s P (bindE (LookupModule h) f s)"
  unfolding lookup_defs
  by (rule delivers_find [OF inv])
    (use assms(2) objects_okD(1) [OF train_invD(5) [OF inv]] in \<open>simp add: object_ok_def module_at_def\<close>)

lemma lawful_module_forward: "lawful_call (ts_module_forward m t)"
  unfolding ts_module_forward_def ModuleForward_def
proof (intro lawful_function cell_new_handle delivers_tensor delivers_module)
  fix s :: "'a training_runtime_scheme" and r k
  assume "train_inv s" "public (rt_heap s) r" "module_ok (rt_heap s) (module_at s k)"
  then show "delivers s public_tensor (bindE (getE (\<lambda>s. module_at s k)) (\<lambda>state. heapE (linear_forward state r)) s)"
    by (simp add: delivers_makes makes_linear train_invD)
qed

lemma lawful_module_parameter_at: "lawful_call (ts_module_parameter_at m i)"
  unfolding ts_module_parameter_at_def FetchAndInsertTrainingTensor_def ModuleParameterAt_def
proof (intro lawful_function cell_new_handle delivers_module)
  fix s :: "'a training_runtime_scheme" and k
  assume inv: "train_inv s" and ok: "module_ok (rt_heap s) (module_at s k)"
  then show "delivers s public_tensor (bindE (getE (\<lambda>s. module_at s k)) (\<lambda>state.
      if i = 0 then returnE (ls_weight state)
      else if i = 1 \<and> use_bias state then returnE (the (ls_bias state))
      else failE (InvalidArgument ''module_parameter_at: parameter index is out of range'')) s)"
    by (auto simp: delivers_return delivers_fault failE_run module_ok_def parameter_ok_def split: option.splits)
qed

lemma lawful_module_buffer_at: "lawful_call (ts_module_buffer_at m i)"
  unfolding ts_module_buffer_at_def FetchAndInsertTrainingTensor_def ModuleBufferAt_def
  by (intro lawful_function cell_new_handle delivers_module) (simp_all add: delivers_fault failE_run)

lemma lawful_SetTraining: "keeps lawful (ModuleSetTraining m b)"
  unfolding ModuleSetTraining_def lookup_defs
proof (rule lawfulI)
  fix s :: "'a training_runtime_scheme" assume inv: "train_inv s"
  show "good s (bindE (registryE (registry_lookup m kModule))
      (\<lambda>m. update_module m (\<lambda>state. state\<lparr>ls_training := b\<rparr>)) s)"
    by (rule good_find [OF inv], rule good_update_module [OF inv]) (simp add: module_core_def)
qed

lemma lawful_stream: "keeps lawful (stream_write path bs st)" "keeps lawful (stream_flush path st)"
    "keeps lawful (open_output path st)" "keeps lawful (open_input path st)"
  unfolding stream_flush_def stream_write_def open_output_def open_input_def
  by (auto intro!: lawful_rules split: io_outcome.split option.split)

lemma lawful_SaveTensor: "keeps lawful (SaveTensor path r)"
  unfolding SaveTensor_def
  by (auto intro!: lawful_rules lawful_stream lawful_quiet quiet_reads_only [OF reads_CpuValues])

lemma lawful_ModuleSave: "keeps lawful (ModuleSave m path)"
  unfolding ModuleSave_def
  by (auto intro!: lawful_rules lawful_stream lawful_SaveTensor simp del: forE.simps)

lemma length_bytes_floats [simp]: "length (bytes_floats n bs) = n"
  by (induction n arbitrary: bs) simp_all

lemma le_value_bound: "le_value bs < 256 ^ length bs"
proof (induction bs)
  case (Cons b bs)
  have "unat b < 256" using unsigned_less [where 'a = nat, of b] by simp
  then show ?case using Cons by simp
qed simp

lemma read_bytes_Inr: "read_bytes n st bs = (Inr x, rest) \<longleftrightarrow> n \<le> length bs \<and> x = take n bs \<and> rest = drop n bs"
  by (auto simp: read_bytes_def)

lemma ReadScalar_Inr: "ReadScalar n st bs = (Inr v, rest) \<longleftrightarrow>
    n \<le> length bs \<and> v = le_value (take n bs) \<and> rest = drop n bs"
  by (auto simp: ReadScalar_def returnE_run read_bytes_def bindE_def)

lemma read_dimensions_i64:
  "read_dimensions n bs = (Inr ds, rest) \<Longrightarrow> i64_array ds"
proof (induction n arbitrary: bs ds rest)
  case (Suc n)
  then obtain d bs1 es where d: "ReadScalar 8 (InternalError ''module_load: truncated tensor shape'') bs = (Inr d, bs1)"
    and es: "read_dimensions n bs1 = (Inr es, rest)" "ds = u64_to_i64 d # es"
    by (auto simp: returnE_run elim!: bindE_InrE)
  have "d < 256 ^ 8" using d le_value_bound [of "take 8 bs"] by (auto simp: ReadScalar_Inr)
  then have "- (2 ^ 63) \<le> u64_to_i64 d \<and> u64_to_i64 d < 2 ^ 63" by (simp add: u64_to_i64_def)
  then show ?case using Suc.IH [OF es(1)] es(2) by (simp add: i64_array_def)
qed (simp add: returnE_run i64_array_def)

lemma ReadTensorPayload_length:
  assumes run: "ReadTensorPayload sh bs = (Inr vs, rest)" and ok: "shape_ok sh"
  shows "length vs = numel sh"
proof -
  obtain rank bs1 dims bs2 where dims: "read_dimensions rank bs1 = (Inr dims, bs2)"
    and rest: "(case ValidateShape (dims_pointer dims) (length dims) of
       Inl _ \<Rightarrow> failE (InternalError ''module_load: invalid tensor shape'')
     | Inr shape \<Rightarrow>
         bindE (checkE (SameShape shape sh)
           (InternalError ''module_load: checkpoint tensor shape mismatch'')) (\<lambda>_.
         bindE (ReadScalar 8 (InternalError ''module_load: invalid tensor element count'')) (\<lambda>n.
         bindE (checkE (\<not> (n \<noteq> numel shape \<or> n > u64_max div 4))
           (InternalError ''module_load: invalid tensor element count'')) (\<lambda>_.
         bindE (read_bytes (4 * n) (InternalError ''module_load: truncated tensor payload''))
           (\<lambda>payload. returnE (bytes_floats n payload)))))) bs2 = (Inr vs, rest)"
    using run unfolding ReadTensorPayload_def by (elim bindE_InrE) (simp add: checkE_run split: if_splits)
  then obtain shape where v: "ValidateShape (dims_pointer dims) (length dims) = Inr shape"
    by (auto simp: failE_run split: sum.splits)
  have "SameShape shape sh" "length vs = numel shape"
    using rest unfolding v by (auto simp: returnE_run checkE_run elim!: bindE_InrE split: if_splits)
  moreover have "numel shape = dims_prod (dimensions shape)"
    using ValidateShape_pointer_Inr [OF v read_dimensions_i64 [OF dims]] by simp
  ultimately show ?thesis using ok by (simp add: SameShape_def shape_ok_def)
qed

lemma read_checkpoint_lengths:
  assumes "fst (read_checkpoint state w b bs) = Inr (ws, vs)" and "shape_ok w"
  shows "length ws = numel w" "use_bias state \<Longrightarrow> shape_ok b \<Longrightarrow> length vs = numel b"
proof -
  obtain rest where run: "read_checkpoint state w b bs = (Inr (ws, vs), rest)"
    using assms(1) by (cases "read_checkpoint state w b bs") simp
  obtain bs1 bs2 bs3 where w: "ReadTensorPayload w bs1 = (Inr ws, bs2)"
    and b: "(if use_bias state then ReadTensorPayload b else returnE []) bs2 = (Inr vs, bs3)"
    using run unfolding read_checkpoint_def
    by (elim bindE_InrE) (auto simp: returnE_run checkE_run split: if_splits)
  show "length ws = numel w" using ReadTensorPayload_length [OF w assms(2)] .
  show "length vs = numel b" if "use_bias state" "shape_ok b"
    using ReadTensorPayload_length [of b bs2 vs bs3] b that by simp
qed

lemma parameter_shape:
  assumes "train_inv s" and "parameter_ok (rt_heap s) r d"
  shows "shape_ok (t_shape (tensor_at (rt_heap s) r))" "public (rt_heap s) r"
  using assms wf_heap_layout [OF train_invD(3) [OF assms(1)]] publicD(1)
  by (simp_all add: parameter_ok_def layout_ok_def)

lemma good_replace:
  assumes "train_inv s" and "public (rt_heap s) r" and "length vs = numel_of (tensor_at (rt_heap s) r)"
  shows "good s (heapE (replace_values r vs) s)"
  by (rule good_heapE [OF assms(1)]) (rule sound_replace_values [OF train_invD(1) [OF assms(1)] assms(2,3)])

lemma good_load_values:
  assumes inv: "train_inv s" and m: "module_ok (rt_heap s) m"
    and w: "length ws = numel_of (tensor_at (rt_heap s) (ls_weight m))"
    and b: "use_bias m \<Longrightarrow> length vs = numel_of (tensor_at (rt_heap s) (the (ls_bias m)))"
  shows "good s (bindE (heapE (replace_values (ls_weight m) ws)) (\<lambda>_.
     if use_bias m then heapE (replace_values (the (ls_bias m)) vs) else returnE ()) s)"
proof (rule good_bind [where m = "heapE (replace_values (ls_weight m) ws)"])
  show "good s (heapE (replace_values (ls_weight m) ws) s)"
    using m w by (intro good_replace [OF inv]) (simp_all add: module_ok_def parameter_ok_def)
  fix x t assume t: "train_inv t" "evolves s t"
  show "good t ((if use_bias m then heapE (replace_values (the (ls_bias m)) vs) else returnE ()) t)"
  proof (cases "use_bias m")
    case True
    then obtain r where r: "ls_bias m = Some r" "public (rt_heap s) r"
      using m by (auto simp: module_ok_def parameter_ok_def split: option.splits)
    have "length vs = numel_of (tensor_at (rt_heap t) r)"
      using b [OF True] r skeleton_eqD(1) [OF persistsD(3) [OF evolvesD(1) [OF t(2)] publicD(1) [OF r(2)]]] by simp
    then show ?thesis
      using good_replace [OF t(1) evolvesD(2) [OF t(2) r(2)]] True r(1) by simp
  qed (simp add: good_return t(1))
qed

lemma good_checkpoint:
  assumes inv: "train_inv s" and ok: "module_ok (rt_heap s) m"
  shows "good s (bindE (tensorE (ls_weight m)) (\<lambda>weight.
     bindE (tensorE (the (ls_bias m))) (\<lambda>bias.
     bindE (liftE (fst (read_checkpoint m (t_shape weight) (t_shape bias) bytes)))
       (\<lambda>(weight_values, bias_values).
     bindE (heapE (replace_values (ls_weight m) weight_values)) (\<lambda>_.
     if use_bias m then heapE (replace_values (the (ls_bias m)) bias_values) else returnE ())))) s)"
proof -
  let ?w = "t_shape (tensor_at (rt_heap s) (ls_weight m))" and ?b = "t_shape (tensor_at (rt_heap s) (the (ls_bias m)))"
  have sw: "shape_ok ?w" using parameter_shape [OF inv] ok by (auto simp: module_ok_def)
  have sb: "shape_ok ?b" if "use_bias m"
    using parameter_shape [OF inv] ok that by (auto simp: module_ok_def split: option.splits)
  show ?thesis
  proof (cases "fst (read_checkpoint m ?w ?b bytes)")
    case (Inl f)
    then show ?thesis by (simp add: tensorE_def heapE_def bindE_def liftE_run good_same inv)
  next
    case (Inr x)
    obtain ws vs where x: "x = (ws, vs)" by force
    note len = read_checkpoint_lengths [OF Inr [unfolded x] sw]
    have "bindE (tensorE (ls_weight m)) (\<lambda>weight. bindE (tensorE (the (ls_bias m))) (\<lambda>bias.
       bindE (liftE (fst (read_checkpoint m (t_shape weight) (t_shape bias) bytes)))
       (\<lambda>(weight_values, bias_values).
       bindE (heapE (replace_values (ls_weight m) weight_values)) (\<lambda>_.
       if use_bias m then heapE (replace_values (the (ls_bias m)) bias_values) else returnE ())))) s =
      bindE (heapE (replace_values (ls_weight m) ws)) (\<lambda>_.
       if use_bias m then heapE (replace_values (the (ls_bias m)) vs) else returnE ()) s"
      using Inr x by (simp add: tensorE_def heapE_def bindE_def liftE_run)
    then show ?thesis using good_load_values [OF inv ok len(1)] len(2) sb by simp
  qed
qed

lemma good_ModuleLoad:
  assumes inv: "train_inv s"
  shows "good s (ModuleLoad handle path s)"
  unfolding ModuleLoad_def
proof (rule good_bind [where m = "checkE (path \<noteq> []) (InvalidArgument ''module_load: path must not be empty'')",
    OF good_check [OF inv]])
  fix u s1 assume inv1: "train_inv s1"
  let ?open = "open_input path (InternalError ''module_load: could not open checkpoint'')"
  let ?rest = "\<lambda>state bytes. bindE (tensorE (ls_weight state)) (\<lambda>weight.
     bindE (tensorE (the (ls_bias state))) (\<lambda>bias.
     bindE (liftE (fst (read_checkpoint state (t_shape weight) (t_shape bias) bytes)))
       (\<lambda>(weight_values, bias_values).
     bindE (heapE (replace_values (ls_weight state) weight_values)) (\<lambda>_.
     if use_bias state then heapE (replace_values (the (ls_bias state)) bias_values) else returnE ()))))"
  show "good s1 (bindE (LookupModule handle) (\<lambda>m. bindE (getE (\<lambda>s. module_at s m)) (\<lambda>state.
      bindE ?open (?rest state))) s1)"
    unfolding lookup_defs
  proof (rule good_find [OF inv1])
    fix m assume "object_ok s1 kModule m"
    then have ok: "module_ok (rt_heap s1) (module_at s1 m)"
      using objects_okD(1) [OF train_invD(5) [OF inv1]] by (simp add: object_ok_def module_at_def)
    have "good s1 (bindE ?open (?rest (module_at s1 m)) s1)"
    proof (rule good_bind [where m = ?open])
      show "good s1 (?open s1)" by (rule lawful_good [OF lawful_stream(4) inv1])
      fix bytes t assume t: "train_inv t" "evolves s1 t"
      have ok: "module_ok (rt_heap t) (module_at s1 m)"
        using persists_module [OF evolvesD(1) [OF t(2)] train_invD(3) [OF inv1] evolvesD(2) [OF t(2)] ok] .
      show "good t (?rest (module_at s1 m) bytes t)"
        using good_checkpoint [OF t(1) ok] .
    qed
    then show "good s1 (bindE (getE (\<lambda>s. module_at s m)) (\<lambda>state. bindE ?open (?rest state)) s1)" by simp
  qed
qed

lemma lawful_module_plain:
  "lawful_plain (ts_module_set_training m training)" "lawful_plain (ts_module_to_device m device device_index)"
  "lawful_plain (ts_module_save m file)" "lawful_plain (ts_module_load m file)" "lawful_plain (ts_module_release m)"
  unfolding ts_module_set_training_def ts_module_to_device_def ModuleToDevice_def ts_module_save_def ts_module_load_def
    ts_module_release_def ModuleRelease_def
  by (rule lawful_plainI, (intro lawful_rules lawful_SetTraining lawful_ModuleSave lawfulI [OF good_ModuleLoad]
      | simp only: split: if_split | intro conjI impI | assumption)+)+

section \<open>Optimizers\<close>

lemma delivers_optimizer_state:
  assumes inv: "train_inv s" and m: "m < length (rt_modules s)"
  shows "delivers s (\<lambda>i t. object_ok t kOptimizer i) (bindE (heapE request_alloc) (\<lambda>_.
      bindE (getE (\<lambda>s. map (\<lambda>p. numel_of (tensor_at (rt_heap s) p)) (Parameters (module_at s m)))) (\<lambda>sizes.
      bindE (heapE (zero_moments (kind \<noteq> kSgd) sizes)) (\<lambda>(first, second).
      new_optimizer \<lparr>oc_kind = kind, oc_learning_rate = learning_rate,
             oc_momentum = momentum, oc_beta1 = beta1, oc_beta2 = beta2, oc_epsilon = epsilon,
             oc_weight_decay = weight_decay, oc_step = 0, oc_first_moment = first,
             oc_second_moment = second, os_module = m\<rparr>))) s)"
proof (rule delivers_after [where m = "heapE request_alloc", OF good_quiet [OF inv quiet_request_alloc]])
  fix u s1 assume run: "heapE request_alloc s = (Inr u, s1)" and s1: "train_inv s1" "evolves s s1"
  let ?ps = "Parameters (module_at s1 m)"
  let ?zero = "heapE (zero_moments (kind \<noteq> kSgd) (sizes_of (rt_heap s1) ?ps))"
  let ?new = "\<lambda>(first, second). new_optimizer \<lparr>oc_kind = kind, oc_learning_rate = learning_rate,
             oc_momentum = momentum, oc_beta1 = beta1, oc_beta2 = beta2, oc_epsilon = epsilon,
             oc_weight_decay = weight_decay, oc_step = 0, oc_first_moment = first,
             oc_second_moment = second, os_module = m\<rparr>"
  have m1: "m < length (rt_modules s1)" using evolvesD(3) [OF s1(2) m] by simp
  have "delivers s1 (\<lambda>i t. object_ok t kOptimizer i) (bindE ?zero ?new s1)"
  proof (rule delivers_after [where m = ?zero, OF good_quiet [OF s1(1) quiet_zero_moments]])
    fix x t assume z: "?zero s1 = (Inr x, t)" and t: "train_inv t" "evolves s1 t"
    obtain first second where x: "x = (first, second)" by force
    note zz = heapE_InrD [OF z [unfolded x]]
    note sz = zero_moments_sizes [OF zz [THEN conjunct2]]
    have ms: "rt_modules t = rt_modules s1"
      using z by (auto simp: heapE_def split: prod.splits)
    have "sizes_of (rt_heap t) ?ps = sizes_of (rt_heap s1) ?ps"
      using module_parameters(1) [OF objects_okD(1) [OF train_invD(5) [OF s1(1)] m1]] publicD(1)
      by (intro persists_sizes [OF evolvesD(1) [OF t(2)]]) (auto simp: module_at_def)
    then show "delivers t (\<lambda>i t. object_ok t kOptimizer i) (?new x t)"
      unfolding x prod.case using sz m1 ms
      by (intro delivers_new_optimizer [OF t(1)]) (simp add: optimizer_ok_def moments_ok_def module_at_def)
  qed
  then show "delivers s1 (\<lambda>i t. object_ok t kOptimizer i)
      (bindE (getE (\<lambda>s. map (\<lambda>p. numel_of (tensor_at (rt_heap s) p)) (Parameters (module_at s m)))) (\<lambda>sizes.
       bindE (heapE (zero_moments (kind \<noteq> kSgd) sizes)) ?new) s1)"
    by (simp add: sizes_of_def)
qed

lemma keeps_guarded: "keeps R (bindE m (\<lambda>a. allocation_guard op (f a))) = keeps R (bindE m f)"
proof -
  have "snd (bindE m (\<lambda>a. allocation_guard op (f a)) s) = snd (bindE m f s)" for s
    by (simp add: bindE_def split: prod.split sum.split)
  then show ?thesis by (simp add: keeps_def)
qed

lemma runtimeE_bind: "bindE (runtimeE m) (\<lambda>a. runtimeE (f a)) = runtimeE (bindE m f)"
  by (auto simp: fun_eq_iff runtimeE_def bindE_def split: prod.splits sum.splits)

lemma runtimeE_check: "checkE b st = runtimeE (checkE b st)"
  by (auto simp: fun_eq_iff runtimeE_def checkE_run)

lemma runtimeE_bind_after:
  "bindE (runtimeE m) (\<lambda>a. bindE (runtimeE (f a)) g) = bindE (runtimeE (bindE m f)) g"
  by (auto simp: fun_eq_iff runtimeE_def bindE_def split: prod.splits sum.splits)

text \<open>What \<open>Create\<close> does between the validation of its arguments and the registration.\<close>

definition create_state :: "handle list option \<Rightarrow> nat \<Rightarrow> optimizer_core \<Rightarrow> string \<Rightarrow> ('r, nat) trt" where
  "create_state handles n c op =
     bindE (CollectParameters handles n op) (\<lambda>x.
     bindE (heapE (allocation_guard op request_alloc)) (\<lambda>_.
     bindE (checkE (snd x = StorageKindCpu)
       (Unsupported (op @ '': parameter storage backend is unsupported''))) (\<lambda>_.
     bindE (heapE (InitializeCpuMoments (fst x) op)) (\<lambda>y.
     new_parameter_optimizer (optimizer_core.extend
       (c\<lparr>oc_first_moment := fst y, oc_second_moment := snd y\<rparr>)
       \<lparr>po_parameters = fst x, po_storage_kind = snd x\<rparr>)))))"

lemma delivers_create_state:
  assumes inv: "train_inv s"
  shows "delivers s (\<lambda>i t. object_ok t kParameterOptimizer i) (create_state handles n c op s)"
  unfolding create_state_def
proof (rule delivers_after [where m = "CollectParameters handles n op"])
  obtain r s1 where "CollectParameters handles n op s = (r, s1)" by force
  then show "good s (CollectParameters handles n op s)"
    using CollectParameters_result(1) [OF inv] good_same [OF inv] by metis
  fix x s1 assume run: "CollectParameters handles n op s = (Inr x, s1)" and s1: "train_inv s1"
  let ?ps = "fst x" and ?alloc = "heapE (allocation_guard op request_alloc)" and ?init = "heapE (InitializeCpuMoments (fst x) op)"
  let ?new = "\<lambda>y. new_parameter_optimizer (optimizer_core.extend
       (c\<lparr>oc_first_moment := fst y, oc_second_moment := snd y\<rparr>) \<lparr>po_parameters = fst x, po_storage_kind = snd x\<rparr>)"
  have pub1: "public (rt_heap s1) p" if "p \<in> set ?ps" for p
    using CollectParameters_result(1) [OF inv run] CollectParameters_result(2) [OF inv run, of ?ps "snd x" p] that
    by simp
  show "delivers s1 (\<lambda>i t. object_ok t kParameterOptimizer i) (bindE ?alloc (\<lambda>_. bindE (checkE (snd x = StorageKindCpu)
       (Unsupported (op @ '': parameter storage backend is unsupported''))) (\<lambda>_. bindE ?init ?new)) s1)"
  proof (rule delivers_after [where m = ?alloc, OF good_quiet [OF s1 quiet_guard_request]])
    fix u s2 assume s2: "train_inv s2" "evolves s1 s2"
    have pub2: "public (rt_heap s2) p" if "p \<in> set ?ps" for p using evolvesD(2) [OF s2(2) pub1 [OF that]] .
    have "delivers s2 (\<lambda>i t. object_ok t kParameterOptimizer i) (bindE ?init ?new s2)"
    proof (rule delivers_after [where m = ?init, OF good_quiet [OF s2(1) quiet_InitializeCpuMoments]])
      fix y t assume z: "?init s2 = (Inr y, t)" and t: "train_inv t" "evolves s2 t"
      have ini: "InitializeCpuMoments ?ps op (rt_heap s2) = (Inr (fst y, snd y), rt_heap t)"
        using heapE_InrD [OF z] by simp
      have "\<forall>p \<in> set ?ps. p < length (tensors (rt_heap s2))" using pub2 publicD(1) by blast
      note i = InitializeCpuMoments_result [OF train_invD(3) [OF s2(1)] this ini]
      have q: "quietly (rt_heap s2) (rt_heap t)" using keepsD [OF quiet_InitializeCpuMoments ini] .
      have "public (rt_heap t) p \<and> direct (rt_heap t) p" if "p \<in> set ?ps" for p
        using that i(3) quietly_direct [OF q train_invD(3) [OF s2(1)] publicD(1) [OF pub2]]
          evolvesD(2) [OF t(2) pub2] by blast
      moreover have "sizes_of (rt_heap t) ?ps = sizes_of (rt_heap s2) ?ps"
        using q by (simp add: sizes_of_def quietly_def)
      ultimately show "delivers t (\<lambda>i t. object_ok t kParameterOptimizer i) (?new y t)"
        using i(1,2)
        by (intro delivers_new_parameter_optimizer [OF t(1)])
          (simp add: parameter_optimizer_ok_def moments_ok_def optimizer_core.extend_def)
    qed
    then show "delivers s2 (\<lambda>i t. object_ok t kParameterOptimizer i) (bindE (checkE (snd x = StorageKindCpu)
       (Unsupported (op @ '': parameter storage backend is unsupported''))) (\<lambda>_. bindE ?init ?new) s2)"
      by (cases "snd x = StorageKindCpu") (simp_all add: delivers_fault [OF s2(1)])
  qed
qed

lemma Create_state:
  "Create handles n kind learning_rate momentum beta1 beta2 epsilon weight_decay op =
     bindE (check_out (op @ '': output handle pointer is null'')) (\<lambda>_.
     bindE (set_out 0) (\<lambda>_.
     bindE (statusE (ValidateLearningRate learning_rate op)) (\<lambda>_.
     bindE (statusE (ValidateWeightDecay weight_decay op)) (\<lambda>_.
     bindE (if kind = kSgd then statusE (ValidateMomentum momentum op)
            else bindE (statusE (ValidateBetas beta1 beta2 op)) (\<lambda>_.
                 statusE (ValidateEpsilon epsilon op))) (\<lambda>_.
     bindE (runtimeE (create_state handles n \<lparr>oc_kind = kind, oc_learning_rate = learning_rate,
       oc_momentum = momentum, oc_beta1 = beta1, oc_beta2 = beta2, oc_epsilon = epsilon,
       oc_weight_decay = weight_decay, oc_step = 0, oc_first_moment = [], oc_second_moment = []\<rparr> op))
       (InsertObject kParameterOptimizer))))))"
  unfolding Create_def create_state_def case_prod_unfold runtimeE_check
    runtimeE_bind_after optimizer_core.extend_def
  by simp

lemma lawful_create:
  "keeps lawful_cell (Create handles n kind learning_rate momentum beta1 beta2 epsilon weight_decay op)"
  unfolding Create_state
  by (intro cell.keeps_bind [OF cell_out(1)] cell.keeps_bind [OF cell_out(2)] cell.keeps_bind [OF cell.keeps_status]
      cell.keeps_bind [OF if_split [THEN iffD2]] cell_new delivers_create_state)
    (auto intro!: cell.keeps_bind cell.keeps_status)

lemma cell_found_new:
  assumes "\<And>s. train_inv s \<Longrightarrow> delivers s (\<lambda>i t. object_ok t ty i) (bindE m f s)"
  shows "keeps lawful_cell (bindE (runtimeE m) (\<lambda>a. allocation_guard op (bindE (runtimeE (f a)) (InsertObject ty))))"
  unfolding keeps_guarded runtimeE_bind_after using assms by (rule cell_new)

lemma cell_validated: "keeps lawful_cell (validate_hyperparameters kind lr m b1 b2 eps wd op)"
  unfolding validate_hyperparameters_def by (auto intro!: cell.keeps_bind cell.keeps_status)

lemma lawful_create_optimizer:
  "keeps lawful_cell (CreateOptimizer m kind learning_rate momentum beta1 beta2 epsilon weight_decay)"
  unfolding CreateOptimizer_def
  by (rule cell.keeps_bind [OF cell_out(2)], rule cell.keeps_bind [OF cell_out(1)], rule cell.keeps_bind [OF cell_validated],
      rule cell_found_new, rule delivers_module, assumption, rule delivers_optimizer_state)

lemma lawful_optimizers:
  "lawful_call (ts_sgd_create m lr mom wd)" "lawful_call (ts_adam_create m lr b1 b2 eps wd)"
  "lawful_call (ts_adamw_create m lr b1 b2 eps wd)" "lawful_call (ts_sgd_create_for_tensors hs n lr mom wd)"
  "lawful_call (ts_adam_create_for_tensors hs n lr b1 b2 eps wd)"
  "lawful_call (ts_adamw_create_for_tensors hs n lr b1 b2 eps wd)"
  unfolding ts_sgd_create_def ts_adam_create_def ts_adamw_create_def ts_sgd_create_for_tensors_def
    ts_adam_create_for_tensors_def ts_adamw_create_for_tensors_def SgdCreate_def AdamCreate_def AdamWCreate_def
    v2_SgdCreate_def v2_AdamCreate_def v2_AdamWCreate_def
  by (rule lawful_function, rule lawful_create_optimizer lawful_create)+

lemma lawful_optimizer_plain:
  "lawful_plain (ts_optimizer_zero_grad k)" "lawful_plain (ts_optimizer_step L k)" "lawful_plain (ts_optimizer_release k)"
  "lawful_plain (ts_parameter_optimizer_zero_grad k)" "lawful_plain (ts_parameter_optimizer_step L k)"
  "lawful_plain (ts_parameter_optimizer_release k)"
  unfolding ts_optimizer_zero_grad_def ts_optimizer_step_def ts_optimizer_release_def OptimizerRelease_def
    ts_parameter_optimizer_zero_grad_def ts_parameter_optimizer_step_def ts_parameter_optimizer_release_def v2_Release_def
  by (rule lawful_plainI, (rule lawful_registry | rule lawfulI, (rule good_OptimizerZeroGrad good_OptimizerStep
      good_ZeroGrad good_v2_Step, assumption)))+

end
