(* ===== verification/Training_Faults.thy ===== *)
theory Training_Faults
  imports Training_Laws
begin

text \<open>
  Which faults a computation can end in.  An exception that leaves a body under \<open>AllocationGuard\<close>
  other than \<open>std::bad_alloc\<close> and \<open>std::length_error\<close> terminates the process, as an exception that
  leaves a \<open>noexcept\<close> function does; no exported function does that.
\<close>

section \<open>Classes of faults\<close>

definition faults_in :: "(fault \<Rightarrow> bool) \<Rightarrow> ('s, 'a) run \<Rightarrow> bool" where
  "faults_in P m \<longleftrightarrow> (\<forall>s f. fst (m s) = Inl f \<longrightarrow> P f)"

text \<open>What \<open>AllocationGuard\<close> turns into a status.\<close>

fun mild :: "fault \<Rightarrow> bool" where
  "mild (Failed _) = True"
| "mild (Raised BadAlloc) = True"
| "mild (Raised (LengthError _)) = True"
| "mild (Raised _) = False"

text \<open>Everything but the end of the process.\<close>

definition alive :: "fault \<Rightarrow> bool" where
  "alive f \<longleftrightarrow> f \<noteq> Raised Terminated"

lemma faults_inD: "faults_in P m \<Longrightarrow> m s = (Inl f, s') \<Longrightarrow> P f"
  by (metis faults_in_def fst_conv)

text \<open>The contract of a class that the code's own checks and allocations respect.\<close>

locale fault_class =
  fixes P :: "fault \<Rightarrow> bool"
  assumes status_allowed: "P (Failed st)"
    and bad_alloc_allowed: "P (Raised BadAlloc)"
    and length_error_allowed: "P (Raised (LengthError what))"
begin

lemma mild_allowed: "mild f \<Longrightarrow> P f"
  by (cases f rule: mild.cases) (simp_all add: status_allowed bad_alloc_allowed length_error_allowed)

lemma only_return: "faults_in P (returnE a)"
  by (simp add: faults_in_def returnE_run)

lemma only_get: "faults_in P (getE f)"
  by (simp add: faults_in_def)

lemma only_modify: "faults_in P (modifyE f)"
  by (simp add: faults_in_def)

lemma only_check: "faults_in P (checkE b st)"
  by (simp add: faults_in_def checkE_run status_allowed)

lemma only_fail: "faults_in P (failE st)"
  by (simp add: faults_in_def failE_run status_allowed)

lemma only_status: "faults_in P (statusE r)"
  by (cases r) (simp_all add: faults_in_def statusE_run status_allowed)

lemma only_bind: "faults_in P m \<Longrightarrow> (\<And>a. faults_in P (f a)) \<Longrightarrow> faults_in P (bindE m f)"
  by (auto simp: faults_in_def bindE_def split: prod.split sum.split) (metis fst_conv)+

lemma only_if: "faults_in P m \<Longrightarrow> faults_in P n \<Longrightarrow> faults_in P (if b then m else n)"
  by simp

lemma only_for: "(\<And>x. faults_in P (f x)) \<Longrightarrow> faults_in P (forE xs f)"
  by (induction xs) (simp_all add: only_return only_bind)

lemma only_fold: "(\<And>x acc. faults_in P (f x acc)) \<Longrightarrow> faults_in P (foldE xs acc f)"
  by (induction xs arbitrary: acc) (simp_all add: only_return only_bind)

lemma only_guard:
  assumes "faults_in mild m"
  shows "faults_in P (allocation_guard op m)"
proof -
  have "P f" if "fst (allocation_guard op m s) = Inl f" for s f
  proof -
    have "mild e" if "fst (m s) = Inl e" for e using assms that by (simp add: faults_in_def)
    then show ?thesis
      using that status_allowed
      by (auto simp: allocation_guard_def split: prod.splits sum.splits fault.splits cxx_exception.splits)
  qed
  then show ?thesis by (simp add: faults_in_def)
qed

lemma only_heapE: "faults_in P m \<Longrightarrow> faults_in P (heapE m)"
  by (auto simp: faults_in_def heapE_def case_prod_unfold)

lemma only_registryE: "faults_in P m \<Longrightarrow> faults_in P (registryE m)"
  by (auto simp: faults_in_def registryE_def case_prod_unfold)

lemma only_runtimeE: "faults_in P m \<Longrightarrow> faults_in P (runtimeE m)"
  by (auto simp: faults_in_def runtimeE_def case_prod_unfold)

lemma only_request: "faults_in P request_alloc"
  using request_alloc_Inl bad_alloc_allowed length_error_allowed
  by (fastforce simp: faults_in_def request_alloc_def split: list.splits alloc_outcome.splits)

lemma only_new_storage: "faults_in P (new_storage st)"
  by (simp add: faults_in_def new_storage_def)

lemmas only_basic = only_return only_get only_modify only_check only_fail only_status only_bind only_if
  only_for only_fold only_heapE only_registryE only_runtimeE only_request only_new_storage

lemma only_new_tensor: "faults_in P (new_tensor sh st dt dv ix off vc)"
  unfolding new_tensor_def NewVersionCounter_def NewTensorIdentityAnchor_def
  by (auto intro!: only_bind only_request only_return split: option.split) (simp_all add: faults_in_def)

lemma only_updates: "faults_in P (write_values i vs)" "faults_in P (increment_version r)"
    "faults_in P (set_autograd_meta r m)" "faults_in P (set_out v)" "faults_in P (check_out msg)"
    "faults_in P (update_module k g)" "faults_in P (update_optimizer k go)"
    "faults_in P (update_parameter_optimizer k gp)"
  unfolding write_values_def increment_version_def set_autograd_meta_def set_out_def check_out_def
    update_module_def update_optimizer_def update_parameter_optimizer_def
  by (intro only_basic)+

lemma only_new_objects: "faults_in P (new_module m)" "faults_in P (new_optimizer k)"
    "faults_in P (new_parameter_optimizer j)" "faults_in P next_io" "faults_in P (write_file path bs)"
  by (simp_all add: faults_in_def new_module_def new_optimizer_def new_parameter_optimizer_def next_io_def
      write_file_def split: list.split)

end

interpretation mild: fault_class mild
  by unfold_locales simp_all

interpretation alive: fault_class alive
  by unfold_locales (simp_all add: alive_def)

lemma mild_new_cpu_tensor: "faults_in mild (new_cpu_tensor sh st)"
  unfolding new_cpu_tensor_def by (rule mild.only_new_tensor)

context fault_class
begin

lemma only_storages: "faults_in P (CpuStorage_Filled n x)" "faults_in P (CpuStorage_FromData d n)"
  unfolding CpuStorage_Filled_def CpuStorage_FromData_def
  by (intro only_basic only_guard mild.only_basic)+

lemma only_reads: "faults_in P (read_values ens r op)" "faults_in P (ReadLogicalCpuValues r op)"
    "faults_in P (LogicalValues r op)" "faults_in P (direct_storage m e r op)" "faults_in P (CpuValues r op)"
    "faults_in P (MutableCpuValues r op)"
  unfolding ReadLogicalCpuValues_def LogicalValues_def CpuValues_def MutableCpuValues_def read_values_def
    direct_storage_def case_prod_unfold
  by (intro only_basic only_guard mild.only_basic | simp add: only_basic split: storage.split)+

lemma only_tensors: "faults_in P (MakeCpuTensor sh vs)" "faults_in P (MakeCpuFull sh x)" "faults_in P (MakeTensor sh st)"
    "faults_in P (MakeView sh r)"
  unfolding MakeCpuTensor_def MakeCpuFull_def MakeTensor_def MakeView_def
  by (intro only_basic only_guard only_storages mild_new_cpu_tensor mild.only_new_tensor
      | auto intro!: only_basic only_guard only_storages mild_new_cpu_tensor split: sum.split)+

lemmas only_heap = only_basic only_guard mild.only_basic only_updates only_new_tensor mild.only_new_tensor
  mild_new_cpu_tensor only_storages only_reads only_tensors

lemma only_AttachNode: "faults_in P (AttachNode r op ps)"
  unfolding AttachNode_def by (intro only_heap)

lemma only_records: "faults_in P (RecordUnary op r out)" "faults_in P (RecordBinary op l r out)"
    "faults_in P (RecordBiasAdd l r out)"
  unfolding RecordUnary_def RecordBinary_def RecordBiasAdd_def by (intro only_heap only_AttachNode)+

lemma only_copies: "faults_in P (CloneDetached r)" "faults_in P (CopyGradient r)" "faults_in P (CloneAsLeaf r b)"
    "faults_in P (WithRequiresGrad r b)"
  unfolding CopyGradient_def WithRequiresGrad_def CloneAsLeaf_def CloneDetached_def by (intro only_heap)+

lemma only_metadata: "faults_in P (ClearGradient r)" "faults_in P (bridge_Gradient r)"
    "faults_in P (SetRequiresGrad r b)" "faults_in P (TensorIdentity r)"
  unfolding ClearGradient_def bridge_Gradient_def GradientSnapshot_def SetRequiresGrad_def SetCoreRequiresGrad_def
    TensorIdentity_def
  by (auto intro!: only_heap only_copies mild.only_updates split: option.split)

lemma only_backend: "faults_in P (CpuBackend_FromData sh d)" "faults_in P (CpuBackend_Full sh x)"
    "faults_in P (CpuBackend_Reshape r sh)" "faults_in P (CpuBackend_Transpose2D r)" "faults_in P (CpuBackend_Sum r)"
    "faults_in P (CpuBackend_Add l r)" "faults_in P (CpuBackend_Multiply l r)" "faults_in P (CpuBackend_Matmul l r)"
    "faults_in P (Transfer r dev i)"
  unfolding CpuBackend_FromData_def CpuBackend_Full_def CpuBackend_Reshape_def CpuBackend_Transpose2D_def
    CpuBackend_Sum_def CpuBackend_Add_def CpuBackend_Multiply_def CpuBackend_Matmul_def Transfer_def ensure_ref_def
    store_result_def case_prod_unfold
  by (intro only_heap only_records only_copies)+

lemma only_training: "faults_in P (MakeActivation L r op)" "faults_in P (CpuUnary r op name f)" "faults_in P (SwiGlu L r)"
    "faults_in P (MakeScalar x)" "faults_in P (AddBias r b)"
  unfolding MakeActivation_def CpuUnary_def SwiGlu_def MakeScalar_def AddBias_def ValidateCpuFloat32_def case_prod_unfold
  by (intro only_heap only_records)+

lemma only_bridge: "faults_in P (Relu L r)" "faults_in P (Sigmoid L r)" "faults_in P (Tanh L r)" "faults_in P (Gelu L r)"
    "faults_in P (Silu L r)" "faults_in P (MseLoss l r)" "faults_in P (CrossEntropyLoss L l r)"
    "faults_in P (linear_forward m r)"
  unfolding Relu_def Sigmoid_def Tanh_def Gelu_def Silu_def MseLoss_def CrossEntropyLoss_def linear_forward_def
    ValidateModuleInput_def case_prod_unfold Dispatcher_For_def
  by (auto intro!: only_heap only_records only_training only_backend)

lemma only_MakeParameter: "faults_in P (MakeParameter sh vs)"
  unfolding MakeParameter_def by (intro only_heap)

lemma only_moments: "faults_in P (zero_moments two sizes)" "faults_in P (InitializeCpuMoments ps op)"
  unfolding zero_moments_def InitializeCpuMoments_def case_prod_unfold
  by (intro only_heap mild.only_reads mild.only_guard)+

lemma only_assign: "faults_in P (stage_pair x staged)" "faults_in P (commit_pair y)" "faults_in P (assign_cpu ts us)"
  unfolding stage_pair_def commit_pair_def assign_cpu_def case_prod_unfold
  by (intro only_heap only_metadata | simp only: case_prod_unfold)+

lemma only_registry: "faults_in P (registry_insert ty ob)" "faults_in P (registry_retain h ty)"
    "faults_in P (registry_release h ty)" "faults_in P (registry_lookup h ty)"
  unfolding registry_insert_def registry_retain_def registry_release_def registry_lookup_def find_entry_def
  by (auto intro!: only_basic split: option.split) (simp_all add: faults_in_def emplace_def)

lemma only_handles: "faults_in P (LookupTensor h)" "faults_in P (LookupModule h)" "faults_in P (LookupOptimizer h)"
    "faults_in P (LookupParameterOptimizer h)" "faults_in P (InsertTensor r)" "faults_in P (InsertObject ty i)"
    "faults_in P (tensorE r)"
  unfolding lookup_defs InsertTensor_def InsertObject_def tensorE_def
  by (intro only_basic only_registry only_updates)+

lemmas only_api = only_heap only_registry only_handles only_new_objects

lemma only_new_handle: "faults_in P c \<Longrightarrow> faults_in P (new_handle msg c)"
  unfolding new_handle_def by (intro only_api)

lemma only_collect: "faults_in P (CollectParameters hs n op)"
  unfolding CollectParameters_def collect_parameter_def case_prod_unfold by (intro only_api)

lemma only_assign_many: "faults_in P (AssignMany ts us n)"
  unfolding AssignMany_def assign_pair_def case_prod_unfold by (intro only_api only_assign only_metadata)

lemma only_draw: "faults_in P (draw_vector D b n)"
  unfolding draw_vector_def by (intro only_api) (simp add: faults_in_def case_prod_unfold)

lemma only_make_linear: "faults_in P (make_linear D inp outp bias sh)"
  unfolding make_linear_def by (intro only_api only_draw only_MakeParameter)

lemma only_create_state: "faults_in P (create_state hs n c op)"
  unfolding create_state_def by (intro only_api only_collect only_moments)

lemma only_streams: "faults_in P (open_output path st)" "faults_in P (stream_write path bs st)"
    "faults_in P (stream_flush path st)" "faults_in P (open_input path st)"
  unfolding open_output_def stream_flush_def stream_write_def open_input_def
  by (auto intro!: only_api split: io_outcome.split option.split)

lemma only_save: "faults_in P (SaveTensor path r)" "faults_in P (ModuleSave m path)"
  unfolding ModuleSave_def SaveTensor_def
  by (auto intro!: only_api only_streams simp del: forE.simps)

lemma only_read_bytes: "faults_in P (read_bytes n st)"
  by (simp add: faults_in_def read_bytes_def status_allowed)

lemma only_ReadScalar: "faults_in P (ReadScalar n st)"
  unfolding ReadScalar_def by (intro only_basic only_read_bytes)

lemma only_read_dimensions: "faults_in P (read_dimensions n)"
  by (induction n) (auto intro!: only_basic only_ReadScalar)

lemma only_payload: "faults_in P (ReadTensorPayload sh)"
  unfolding ReadTensorPayload_def
  by (auto intro!: only_basic only_ReadScalar only_read_dimensions only_read_bytes split: sum.split)

lemma only_checkpoint: "faults_in P (read_checkpoint m w b)"
  unfolding read_checkpoint_def read_header_def by (intro only_basic only_ReadScalar only_payload only_read_bytes)

lemma only_replace: "faults_in P (replace_values r vs)"
  unfolding replace_values_def by (intro only_heap only_metadata)

lemma only_load: "faults_in P (ModuleLoad m path)"
proof -
  have "faults_in P (liftE (fst (read_checkpoint st w b bs)))" for st w b bs
    using only_checkpoint [of st w b] by (auto simp: faults_in_def liftE_run)
  then show ?thesis
    unfolding ModuleLoad_def case_prod_unfold by (intro only_api only_streams only_replace)
qed

lemma only_steps: "faults_in P (OptimizerZeroGrad k)" "faults_in P (ZeroGrad k)" "faults_in P (OptimizerStep L k)"
    "faults_in P (v2_Step L k)"
  unfolding OptimizerZeroGrad_def ZeroGrad_def OptimizerStep_def v2_Step_def CpuStep_def optimizer_step_parameter_def
    cpu_step_parameter_def case_prod_unfold
  by (auto intro!: only_api only_metadata split: option.split)

end

end
