(* ===== verification/Training_System.thy ===== *)
theory Training_System
  imports Training_Faults
begin

text \<open>
  The library as a state machine: its steps are the calls of its exported functions, with any
  arguments the C types allow, and changes of the environment.  The reachable states satisfy the
  invariant of the library, what a call leaves in place stays for ever, and every call comes back
  with a documented status.
\<close>

section \<open>Calls that come back\<close>

definition settled_call :: "('b, 'r) tcall \<Rightarrow> bool" where
  "settled_call f \<longleftrightarrow> (\<forall>out s. train_inv s \<longrightarrow> (\<exists>name r. fst (f out s) = fst (abi_result name r) \<and>
     rt_last_error (snd (snd (f out s))) = snd (abi_result name r) \<and> r \<noteq> Inl (Raised Terminated)))"

definition settled_plain :: "'r training_plain_call \<Rightarrow> bool" where
  "settled_plain f \<longleftrightarrow> (\<forall>s. train_inv s \<longrightarrow> (\<exists>name r. fst (f s) = fst (abi_result name r) \<and>
     rt_last_error (snd (f s)) = snd (abi_result name r) \<and> r \<noteq> Inl (Raised Terminated)))"

lemma settled_function:
  assumes "faults_in alive body"
  shows "settled_call (ts_function name body)"
  unfolding settled_call_def
proof (intro allI impI)
  fix out and s :: "'b training_runtime_scheme"
  let ?x = "body (out, s\<lparr>rt_last_error := []\<rparr>)"
  have "fst ?x \<noteq> Inl (Raised Terminated)" using assms by (auto simp: faults_in_def alive_def)
  then show "\<exists>n r. fst (ts_function name body out s) = fst (abi_result n r) \<and>
      rt_last_error (snd (snd (ts_function name body out s))) = snd (abi_result n r) \<and> r \<noteq> Inl (Raised Terminated)"
    by (intro exI [of _ name] exI [of _ "fst ?x"]) (simp add: ts_function_run case_prod_unfold)
qed

lemma settled_plainI:
  assumes "\<And>s. train_inv s \<Longrightarrow> fst (body s) \<noteq> Inl (Raised Terminated)"
  shows "settled_plain (ts_plain name body)"
  unfolding settled_plain_def
proof (intro allI impI)
  fix s :: "'a training_runtime_scheme" assume "train_inv s"
  then have "fst (body (s\<lparr>rt_last_error := []\<rparr>)) \<noteq> Inl (Raised Terminated)" by (intro assms) simp
  then show "\<exists>n r. fst (ts_plain name body s) = fst (abi_result n r) \<and>
      rt_last_error (snd (ts_plain name body s)) = snd (abi_result n r) \<and> r \<noteq> Inl (Raised Terminated)"
    by (intro exI [of _ name] exI [of _ "fst (body (s\<lparr>rt_last_error := []\<rparr>))"])
      (simp add: ts_plain_run case_prod_unfold)
qed

lemma settled_plain_alive: "faults_in alive body \<Longrightarrow> settled_plain (ts_plain name body)"
  by (intro settled_plainI) (auto simp: faults_in_def alive_def)

text \<open>Differentiation: the traversal ends, and no allocation guard surrounds the reads of a node's parents.\<close>

lemma alive_ApplyNode: "faults_in alive (ApplyNode L node g)"
proof -
  have p: "faults_in alive (first_parent node)"
    by (auto simp: faults_in_def first_parent_def throwE_run returnE_run alive_def split: list.splits)
  have e: "faults_in alive (emit r c)" "faults_in alive (contribute r vs)" for r c vs
    unfolding emit_def contribute_def by (intro alive.only_heap)+
  note rules = alive.only_heap alive.only_copies p e
  have ops: "faults_in alive (apply_identity node g)" "faults_in alive (apply_reshape node g)"
    "faults_in alive (apply_transpose node g)" "faults_in alive (apply_add node g)" "faults_in alive (apply_multiply node vs)"
    "faults_in alive (apply_sum node vs)" "faults_in alive (apply_matmul node g vs)"
    "faults_in alive (apply_activation L node vs)" "faults_in alive (apply_swiglu L node vs)"
    "faults_in alive (apply_mse node vs)" "faults_in alive (apply_cross_entropy L node vs)"
    "faults_in alive (apply_bias_add node g vs)" for vs
    unfolding apply_identity_def apply_reshape_def apply_transpose_def apply_add_def apply_multiply_def apply_sum_def
      apply_matmul_def apply_activation_def apply_swiglu_def apply_mse_def apply_cross_entropy_def apply_bias_add_def
      CloneWithShape_def TransposeGradient_def case_prod_unfold
    by (intro rules)+
  show ?thesis
    unfolding ApplyNode_def apply_operation_def ValidateSavedVersions_def case_prod_unfold
    by (intro rules) (auto intro: ops split: operation.split)
qed

lemma alive_Backward:
  assumes inv: "heap_inv h" and r: "public h r"
  shows "fst (Backward L r h) \<noteq> Inl (Raised Terminated)"
proof -
  have acc: "faults_in alive (Accumulate d c)" "faults_in alive (AccumulateLeaf r c)" for d c r
    unfolding AccumulateLeaf_def Accumulate_def AddInPlace_def
    by (auto intro!: alive.only_heap alive.only_copies split: option.split)
  have step: "faults_in alive (backward_step L x gs)" for x gs
    unfolding backward_step_def accumulate_contributions_def
    by (auto intro!: alive.only_heap acc alive_ApplyNode split: option.split)
  have val: "faults_in alive (validate_topology ts)" for ts
    unfolding validate_topology_def ValidateSavedVersions_def case_prod_unfold
    by (auto intro!: alive.only_heap split: option.split)
  obtain vis ts where t: "BuildTopology (length (tensors h)) h r ([], []) = Some (vis, ts)"
    using BuildTopology_total [OF heap_invD(1) [OF inv] publicD(1) [OF r]] by metis
  have "faults_in alive (bindE (validate_topology ts) (\<lambda>_. bindE (getE (\<lambda>h. t_shape (tensor_at h r))) (\<lambda>shape.
      bindE (MakeCpuFull shape f32_one) (\<lambda>g. bindE (foldE (rev ts) [(r, g)] (backward_step L)) (\<lambda>_. returnE ())))))"
    by (intro alive.only_heap val step)
  then show ?thesis
    using t by (auto simp: Backward_def faults_in_def alive_def)
qed

section \<open>The steps\<close>

text \<open>A call that returns \<open>code\<close>, with any content of its output cell.\<close>

inductive api_call :: "libm \<Rightarrow> distribution \<Rightarrow> training_runtime \<Rightarrow> int option \<Rightarrow> training_runtime \<Rightarrow> bool"
  for L D s where
  call_noop: "ts_noop s = (code, s') \<Longrightarrow> api_call L D s code s'"
| call_runtime_device_count: "ts_runtime_device_count dev out s = (code, out', s') \<Longrightarrow> api_call L D s code s'"
| call_runtime_cuda_device_count: "ts_runtime_cuda_device_count out s = (code, out', s') \<Longrightarrow> api_call L D s code s'"
| call_runtime_live_tensor_count: "ts_runtime_live_tensor_count out s = (code, out', s') \<Longrightarrow> api_call L D s code s'"
| call_runtime_live_module_count: "ts_runtime_live_module_count out s = (code, out', s') \<Longrightarrow> api_call L D s code s'"
| call_runtime_live_optimizer_count: "ts_runtime_live_optimizer_count out s = (code, out', s') \<Longrightarrow> api_call L D s code s'"
| call_tensor_from_f32: "dims_argument dims rank \<Longrightarrow> data_argument data n \<Longrightarrow>
     ts_tensor_from_f32 data n dims rank out s = (code, out', s') \<Longrightarrow> api_call L D s code s'"
| call_tensor_full_f32: "dims_argument dims rank \<Longrightarrow>
     ts_tensor_full_f32 dims rank x out s = (code, out', s') \<Longrightarrow> api_call L D s code s'"
| call_tensor_retain: "ts_tensor_retain t s = (code, s') \<Longrightarrow> api_call L D s code s'"
| call_tensor_release: "ts_tensor_release t s = (code, s') \<Longrightarrow> api_call L D s code s'"
| call_tensor_rank: "ts_tensor_rank t out s = (code, out', s') \<Longrightarrow> api_call L D s code s'"
| call_tensor_shape: "ts_tensor_shape t n out s = (code, out', s') \<Longrightarrow> api_call L D s code s'"
| call_tensor_dtype: "ts_tensor_dtype t out s = (code, out', s') \<Longrightarrow> api_call L D s code s'"
| call_tensor_device: "ts_tensor_device t out s = (code, out', s') \<Longrightarrow> api_call L D s code s'"
| call_tensor_device_index: "ts_tensor_device_index t out s = (code, out', s') \<Longrightarrow> api_call L D s code s'"
| call_tensor_numel: "ts_tensor_numel t out s = (code, out', s') \<Longrightarrow> api_call L D s code s'"
| call_tensor_copy_to_host_f32: "ts_tensor_copy_to_host_f32 t n out s = (code, out', s') \<Longrightarrow> api_call L D s code s'"
| call_tensor_to_device: "ts_tensor_to_device t dev i out s = (code, out', s') \<Longrightarrow> api_call L D s code s'"
| call_tensor_reshape: "dims_argument dims rank \<Longrightarrow>
     ts_tensor_reshape t dims rank out s = (code, out', s') \<Longrightarrow> api_call L D s code s'"
| call_tensor_transpose2d: "ts_tensor_transpose2d t out s = (code, out', s') \<Longrightarrow> api_call L D s code s'"
| call_tensor_add: "ts_tensor_add a b out s = (code, out', s') \<Longrightarrow> api_call L D s code s'"
| call_tensor_multiply: "ts_tensor_multiply a b out s = (code, out', s') \<Longrightarrow> api_call L D s code s'"
| call_tensor_sum: "ts_tensor_sum t out s = (code, out', s') \<Longrightarrow> api_call L D s code s'"
| call_tensor_matmul: "ts_tensor_matmul a b out s = (code, out', s') \<Longrightarrow> api_call L D s code s'"
| call_training_available: "ts_training_available out s = (code, out', s') \<Longrightarrow> api_call L D s code s'"
| call_manual_seed: "ts_manual_seed seed s = (code, s') \<Longrightarrow> api_call L D s code s'"
| call_tensor_identity: "ts_tensor_identity t out s = (code, out', s') \<Longrightarrow> api_call L D s code s'"
| call_tensor_clone_detached: "ts_tensor_clone_detached t out s = (code, out', s') \<Longrightarrow> api_call L D s code s'"
| call_tensor_assign_many: "ts_tensor_assign_many targets sources n s = (code, s') \<Longrightarrow> api_call L D s code s'"
| call_tensor_with_requires_grad: "ts_tensor_with_requires_grad t rg out s = (code, out', s') \<Longrightarrow> api_call L D s code s'"
| call_tensor_requires_grad: "ts_tensor_requires_grad t out s = (code, out', s') \<Longrightarrow> api_call L D s code s'"
| call_tensor_set_requires_grad: "ts_tensor_set_requires_grad t rg s = (code, s') \<Longrightarrow> api_call L D s code s'"
| call_tensor_backward: "ts_tensor_backward L t s = (code, s') \<Longrightarrow> api_call L D s code s'"
| call_tensor_grad: "ts_tensor_grad t out s = (code, out', s') \<Longrightarrow> api_call L D s code s'"
| call_tensor_relu: "ts_tensor_relu L t out s = (code, out', s') \<Longrightarrow> api_call L D s code s'"
| call_tensor_sigmoid: "ts_tensor_sigmoid L t out s = (code, out', s') \<Longrightarrow> api_call L D s code s'"
| call_tensor_tanh: "ts_tensor_tanh L t out s = (code, out', s') \<Longrightarrow> api_call L D s code s'"
| call_tensor_gelu: "ts_tensor_gelu L t out s = (code, out', s') \<Longrightarrow> api_call L D s code s'"
| call_tensor_silu: "ts_tensor_silu L t out s = (code, out', s') \<Longrightarrow> api_call L D s code s'"
| call_tensor_swiglu: "ts_tensor_swiglu L t out s = (code, out', s') \<Longrightarrow> api_call L D s code s'"
| call_mse_loss: "ts_mse_loss a b out s = (code, out', s') \<Longrightarrow> api_call L D s code s'"
| call_cross_entropy_loss: "ts_cross_entropy_loss L a b out s = (code, out', s') \<Longrightarrow> api_call L D s code s'"
| call_linear_create: "i64_array [inp, outp] \<Longrightarrow>
     ts_linear_create D inp outp bias out s = (code, out', s') \<Longrightarrow> api_call L D s code s'"
| call_module_forward: "ts_module_forward m t out s = (code, out', s') \<Longrightarrow> api_call L D s code s'"
| call_module_set_training: "ts_module_set_training m training s = (code, s') \<Longrightarrow> api_call L D s code s'"
| call_module_to_device: "ts_module_to_device m dev i s = (code, s') \<Longrightarrow> api_call L D s code s'"
| call_module_parameter_count: "ts_module_parameter_count m out s = (code, out', s') \<Longrightarrow> api_call L D s code s'"
| call_module_parameter_at: "ts_module_parameter_at m n out s = (code, out', s') \<Longrightarrow> api_call L D s code s'"
| call_module_buffer_count: "ts_module_buffer_count m out s = (code, out', s') \<Longrightarrow> api_call L D s code s'"
| call_module_buffer_at: "ts_module_buffer_at m n out s = (code, out', s') \<Longrightarrow> api_call L D s code s'"
| call_module_save: "ts_module_save m file s = (code, s') \<Longrightarrow> api_call L D s code s'"
| call_module_load: "ts_module_load m file s = (code, s') \<Longrightarrow> api_call L D s code s'"
| call_module_release: "ts_module_release m s = (code, s') \<Longrightarrow> api_call L D s code s'"
| call_sgd_create: "ts_sgd_create m lr mom wd out s = (code, out', s') \<Longrightarrow> api_call L D s code s'"
| call_adam_create: "ts_adam_create m lr b1 b2 eps wd out s = (code, out', s') \<Longrightarrow> api_call L D s code s'"
| call_adamw_create: "ts_adamw_create m lr b1 b2 eps wd out s = (code, out', s') \<Longrightarrow> api_call L D s code s'"
| call_optimizer_zero_grad: "ts_optimizer_zero_grad k s = (code, s') \<Longrightarrow> api_call L D s code s'"
| call_optimizer_step: "ts_optimizer_step L k s = (code, s') \<Longrightarrow> api_call L D s code s'"
| call_optimizer_release: "ts_optimizer_release k s = (code, s') \<Longrightarrow> api_call L D s code s'"
| call_sgd_create_for_tensors: "ts_sgd_create_for_tensors hs n lr mom wd out s = (code, out', s') \<Longrightarrow> api_call L D s code s'"
| call_adam_create_for_tensors: "ts_adam_create_for_tensors hs n lr b1 b2 eps wd out s = (code, out', s') \<Longrightarrow> api_call L D s code s'"
| call_adamw_create_for_tensors: "ts_adamw_create_for_tensors hs n lr b1 b2 eps wd out s = (code, out', s') \<Longrightarrow> api_call L D s code s'"
| call_parameter_optimizer_zero_grad: "ts_parameter_optimizer_zero_grad k s = (code, s') \<Longrightarrow> api_call L D s code s'"
| call_parameter_optimizer_step: "ts_parameter_optimizer_step L k s = (code, s') \<Longrightarrow> api_call L D s code s'"
| call_parameter_optimizer_release: "ts_parameter_optimizer_release k s = (code, s') \<Longrightarrow> api_call L D s code s'"

section \<open>Every step keeps the invariant\<close>

lemma lawful_callD: "f out s = (code, out', s') \<Longrightarrow> lawful_call f \<Longrightarrow> lawful s s'"
  by (auto simp: lawful_call_def) (metis snd_conv)

lemma lawful_plainD: "f s = (code, s') \<Longrightarrow> lawful_plain f \<Longrightarrow> lawful s s'"
  by (auto simp: lawful_plain_def) (metis snd_conv)

lemmas lawful_exports = lawful_core_plain lawful_core_queries lawful_from_f32 lawful_full_f32 lawful_core_unary
  lawful_reshape lawful_core_binary lawful_training_tensors lawful_training_state lawful_training_queries
  lawful_linear_create lawful_module_forward lawful_module_parameter_at lawful_module_buffer_at lawful_module_plain
  lawful_optimizers lawful_optimizer_plain

lemma call_lawful: "api_call L D s code s' \<Longrightarrow> lawful s s'"
  by (erule api_call.cases; simp only:;
      (erule lawful_callD lawful_plainD, rule lawful_exports; assumption))

section \<open>Every step comes back\<close>

definition came_back :: "int option \<Rightarrow> 'r training_runtime_scheme \<Rightarrow> bool" where
  "came_back code s \<longleftrightarrow> (\<exists>name r. code = fst (abi_result name r) \<and> rt_last_error s = snd (abi_result name r) \<and>
     r \<noteq> Inl (Raised Terminated))"

lemma settled_callD: "f out s = (code, out', s') \<Longrightarrow> settled_call f \<Longrightarrow> train_inv s \<Longrightarrow> came_back code s'"
  unfolding settled_call_def came_back_def by (metis fst_conv snd_conv)

lemma settled_plainD: "f s = (code, s') \<Longrightarrow> settled_plain f \<Longrightarrow> train_inv s \<Longrightarrow> came_back code s'"
  unfolding settled_plain_def came_back_def by (metis fst_conv snd_conv)

lemma settled_core:
  "settled_plain ts_noop" "settled_plain (ts_tensor_retain t)" "settled_plain (ts_tensor_release t)"
  "settled_call (ts_runtime_device_count dev)" "settled_call ts_runtime_cuda_device_count"
  "settled_call ts_runtime_live_tensor_count" "settled_call ts_runtime_live_module_count"
  "settled_call ts_runtime_live_optimizer_count" "settled_call (ts_tensor_rank t)" "settled_call (ts_tensor_dtype t)"
  "settled_call (ts_tensor_device t)" "settled_call (ts_tensor_device_index t)" "settled_call (ts_tensor_numel t)"
  "settled_call (ts_tensor_shape t n)" "settled_call (ts_tensor_copy_to_host_f32 t n)"
  unfolding ts_noop_def ts_tensor_retain_def ts_tensor_release_def ts_runtime_device_count_def
    ts_runtime_cuda_device_count_def ts_runtime_live_tensor_count_def ts_runtime_live_module_count_def
    ts_runtime_live_optimizer_count_def ts_tensor_rank_def ts_tensor_dtype_def ts_tensor_device_def
    ts_tensor_device_index_def ts_tensor_numel_def ts_tensor_shape_def ts_tensor_copy_to_host_f32_def query_tensor_def
    case_prod_unfold
  by ((rule settled_function settled_plain_alive), intro alive.only_api)+

lemma alive_dispatched:
  assumes "faults_in alive (f CpuBackend)"
  shows "faults_in alive (bindE (statusE (Dispatcher_For d)) f)"
    "faults_in alive (bindE (statusE (Dispatcher_ForTensor t)) f)"
    "faults_in alive (bindE (statusE (Dispatcher_ForTensors t u)) f)"
proof -
  have st: "faults_in alive (bindE (statusE r) f)" if "\<And>b. r = Inr b \<Longrightarrow> b = CpuBackend" for r
    using assms that by (cases r) (auto simp: faults_in_def alive_def statusE_def throwE_run)
  show "faults_in alive (bindE (statusE (Dispatcher_For d)) f)"
    by (rule st) (simp add: Dispatcher_For_Inr)
  show "faults_in alive (bindE (statusE (Dispatcher_ForTensor t)) f)"
    by (rule st) (simp add: Dispatcher_ForTensor_def Dispatcher_For_Inr)
  show "faults_in alive (bindE (statusE (Dispatcher_ForTensors t u)) f)"
    by (rule st) (simp add: Dispatcher_ForTensors_def Dispatcher_For_Inr split: if_splits)
qed

lemma settled_core_tensors:
  "settled_call (ts_tensor_from_f32 data n dims rank)" "settled_call (ts_tensor_full_f32 dims rank x)"
  "settled_call (ts_tensor_to_device t dev i)" "settled_call (ts_tensor_reshape t dims rank)"
  "settled_call (ts_tensor_transpose2d t)" "settled_call (ts_tensor_sum t)" "settled_call (ts_tensor_add a b)"
  "settled_call (ts_tensor_multiply a b)" "settled_call (ts_tensor_matmul a b)"
  unfolding ts_tensor_from_f32_def ts_tensor_full_f32_def ts_tensor_to_device_def ts_tensor_reshape_def
    ts_tensor_transpose2d_def ts_tensor_sum_def ts_tensor_add_def ts_tensor_multiply_def ts_tensor_matmul_def
    RunBinaryOperation_def BackendFor_def
  by (rule settled_function, (intro alive.only_new_handle alive_dispatched alive.only_api alive.only_backend
      | simp only: CpuBackend_simps)+)+

lemma settled_training_tensors:
  "settled_call (ts_tensor_clone_detached t)" "settled_call (ts_tensor_with_requires_grad t rg)"
  "settled_call (ts_tensor_grad t)" "settled_call (ts_tensor_relu L t)" "settled_call (ts_tensor_sigmoid L t)"
  "settled_call (ts_tensor_tanh L t)" "settled_call (ts_tensor_gelu L t)" "settled_call (ts_tensor_silu L t)"
  "settled_call (ts_tensor_swiglu L t)" "settled_call (ts_mse_loss a b)" "settled_call (ts_cross_entropy_loss L a b)"
  "settled_call ts_training_available" "settled_call (ts_tensor_identity t)" "settled_call (ts_tensor_requires_grad t)"
  unfolding ts_tensor_clone_detached_def ts_tensor_with_requires_grad_def ts_tensor_grad_def ts_tensor_relu_def
    ts_tensor_sigmoid_def ts_tensor_tanh_def ts_tensor_gelu_def ts_tensor_silu_def ts_tensor_swiglu_def
    ts_mse_loss_def ts_cross_entropy_loss_def RunTrainingUnary_def RunTrainingBinary_def ts_training_available_def
    IsAvailable_def ts_tensor_identity_def ts_tensor_requires_grad_def
  by (rule settled_function, intro alive.only_new_handle alive.only_api alive.only_copies alive.only_metadata
      alive.only_training alive.only_bridge)+

lemma settled_backward: "settled_plain (ts_tensor_backward L t)"
  unfolding ts_tensor_backward_def
proof (rule settled_plainI)
  fix s :: "'a training_runtime_scheme" assume inv: "train_inv s"
  show "fst (bindE (LookupTensor t) (\<lambda>object. heapE (Backward L object)) s) \<noteq> Inl (Raised Terminated)"
  proof (cases "LookupTensor t s")
    case (Pair r s1)
    show ?thesis
    proof (cases r)
      case (Inl f)
      then show ?thesis
        using Pair faults_inD [OF alive.only_handles(1) Pair [unfolded Inl]] by (auto simp: bindE_Inl_run alive_def)
    next
      case (Inr i)
      note lk = lookup_ok [OF inv Pair [unfolded Inr lookup_defs]]
      then have "public (rt_heap s1) i" by (simp add: object_ok_def)
      then show ?thesis
        using Pair Inr alive_Backward [OF train_invD(1) [OF inv], of i L] lk(1)
        by (simp add: bindE_Inr_run heapE_def case_prod_unfold)
    qed
  qed
qed

lemma settled_training_state:
  "settled_plain (ts_manual_seed seed)" "settled_plain (ts_tensor_assign_many targets sources n)"
  "settled_plain (ts_tensor_set_requires_grad t rg)"
  unfolding ts_manual_seed_def ManualSeed_def ts_tensor_assign_many_def ts_tensor_set_requires_grad_def
  by (rule settled_plain_alive, intro alive.only_api alive.only_assign_many alive.only_metadata)+

lemma settled_modules:
  "settled_call (ts_linear_create D inp outp bias)" "settled_call (ts_module_forward m t)"
  "settled_call (ts_module_parameter_count m)" "settled_call (ts_module_parameter_at m n)"
  "settled_call (ts_module_buffer_count m)" "settled_call (ts_module_buffer_at m n)"
  unfolding ts_linear_create_def LinearCreate_def ts_module_forward_def ModuleForward_def ts_module_parameter_count_def
    ModuleParameterCount_def ts_module_parameter_at_def ModuleParameterAt_def FetchAndInsertTrainingTensor_def
    ts_module_buffer_count_def ModuleBufferCount_def ts_module_buffer_at_def ModuleBufferAt_def
  by (rule settled_function, intro alive.only_new_handle alive.only_guard mild.only_api mild.only_make_linear
      alive.only_api alive.only_bridge)+

lemma settled_module_plain:
  "settled_plain (ts_module_set_training m training)" "settled_plain (ts_module_to_device m device i)"
  "settled_plain (ts_module_save m file)" "settled_plain (ts_module_load m file)" "settled_plain (ts_module_release m)"
  unfolding ts_module_set_training_def ModuleSetTraining_def ts_module_to_device_def ModuleToDevice_def
    ts_module_save_def ts_module_load_def ts_module_release_def ModuleRelease_def
  by (rule settled_plain_alive, intro alive.only_api alive.only_save alive.only_load)+

lemma alive_create: "faults_in alive (Create hs n kind lr mom b1 b2 eps wd op)"
  unfolding Create_state by (intro alive.only_api alive.only_create_state)

lemma alive_create_optimizer: "faults_in alive (CreateOptimizer m kind lr mom b1 b2 eps wd)"
  unfolding CreateOptimizer_def validate_hyperparameters_def case_prod_unfold
  by (intro alive.only_basic alive.only_updates alive.only_handles alive.only_guard mild.only_basic mild.only_moments
      mild.only_new_objects mild.only_handles)

lemma settled_optimizers:
  "settled_call (ts_sgd_create m lr mom wd)" "settled_call (ts_adam_create m lr b1 b2 eps wd)"
  "settled_call (ts_adamw_create m lr b1 b2 eps wd)" "settled_call (ts_sgd_create_for_tensors hs n lr mom wd)"
  "settled_call (ts_adam_create_for_tensors hs n lr b1 b2 eps wd)"
  "settled_call (ts_adamw_create_for_tensors hs n lr b1 b2 eps wd)"
  unfolding ts_sgd_create_def ts_adam_create_def ts_adamw_create_def ts_sgd_create_for_tensors_def
    ts_adam_create_for_tensors_def ts_adamw_create_for_tensors_def SgdCreate_def AdamCreate_def AdamWCreate_def
    v2_SgdCreate_def v2_AdamCreate_def v2_AdamWCreate_def
  by (rule settled_function, rule alive_create_optimizer alive_create)+

lemma settled_optimizer_plain:
  "settled_plain (ts_optimizer_zero_grad k)" "settled_plain (ts_optimizer_step L k)" "settled_plain (ts_optimizer_release k)"
  "settled_plain (ts_parameter_optimizer_zero_grad k)" "settled_plain (ts_parameter_optimizer_step L k)"
  "settled_plain (ts_parameter_optimizer_release k)"
  unfolding ts_optimizer_zero_grad_def ts_optimizer_step_def ts_optimizer_release_def OptimizerRelease_def
    ts_parameter_optimizer_zero_grad_def ts_parameter_optimizer_step_def ts_parameter_optimizer_release_def v2_Release_def
  by (rule settled_plain_alive, rule alive.only_steps alive.only_registryE [OF alive.only_registry(3)])+

lemmas settled_exports = settled_core settled_core_tensors settled_training_tensors settled_backward
  settled_training_state settled_modules settled_module_plain settled_optimizers settled_optimizer_plain

lemma call_settled: "api_call L D s code s' \<Longrightarrow> train_inv s \<Longrightarrow> came_back code s'"
  by (erule api_call.cases; simp only:;
      (erule settled_callD settled_plainD, rule settled_exports; assumption))

section \<open>Reachable states\<close>

text \<open>The library when the process starts; \<open>Rng()\<close> is an engine seeded with 0.\<close>

definition initial_training :: training_runtime where
  "initial_training = \<lparr>rt_heap = empty_heap, rt_registry = empty_registry, rt_last_error = [], rt_modules = [],
     rt_optimizers = [], rt_parameter_optimizers = [], rt_engine = engine_seed 0, rt_files = Map.empty,
     rt_io_plan = []\<rparr>"

text \<open>
  Between two calls the environment decides which allocations and stream operations will fail, and
  other processes change files.
\<close>

definition environment :: "alloc_outcome list \<Rightarrow> io_outcome list \<Rightarrow> (string \<Rightarrow> byte list option) \<Rightarrow>
    training_runtime \<Rightarrow> training_runtime" where
  "environment allocs ios files s =
     s\<lparr>rt_heap := (rt_heap s)\<lparr>alloc_plan := allocs\<rparr>, rt_io_plan := ios, rt_files := files\<rparr>"

inductive reachable :: "libm \<Rightarrow> distribution \<Rightarrow> training_runtime \<Rightarrow> bool" for L D where
  reachable_start: "reachable L D initial_training"
| reachable_call: "reachable L D s \<Longrightarrow> api_call L D s code s' \<Longrightarrow> reachable L D s'"
| reachable_environment: "reachable L D s \<Longrightarrow> reachable L D (environment allocs ios files s)"

text \<open>The states that can follow a state.\<close>

inductive later :: "libm \<Rightarrow> distribution \<Rightarrow> training_runtime \<Rightarrow> training_runtime \<Rightarrow> bool" for L D s where
  later_same: "later L D s s"
| later_call: "later L D s t \<Longrightarrow> api_call L D t code u \<Longrightarrow> later L D s u"
| later_environment: "later L D s t \<Longrightarrow> later L D s (environment allocs ios files t)"

inductive_cases laterE: "later L D s t"

lemma initial_inv: "train_inv initial_training"
proof -
  have "heap_inv empty_heap"
    by (simp add: heap_inv_def grads_owned_def one_counter_def empty_heap_def wf_heap_def)
  moreover have "registry_inv empty_registry" by (simp add: registry_inv_def empty_registry_def)
  ultimately show ?thesis
    by (simp add: train_inv_def initial_training_def objects_ok_def empty_registry_def)
qed

lemma environment_lawful: "lawful s (environment allocs ios files s)"
  unfolding lawful_def
proof (intro impI conjI)
  assume inv: "train_inv s"
  have "quietly (rt_heap s) ((rt_heap s)\<lparr>alloc_plan := allocs\<rparr>)" by (simp add: quietly_def heap_extends_def)
  note g = good_sound [OF inv sound_quietly [OF train_invD(1) [OF inv] this]]
  show "train_inv (environment allocs ios files s)" using g(1) by (simp add: environment_def)
  show "evolves s (environment allocs ios files s)" using g(2) by (simp add: environment_def)
qed

lemma reachable_inv: "reachable L D s \<Longrightarrow> train_inv s"
  by (induction rule: reachable.induct) (use initial_inv call_lawful environment_lawful in \<open>auto simp: lawful_def\<close>)

lemma later_lawful: "later L D s t \<Longrightarrow> lawful s t"
  by (induction rule: later.induct) (blast intro: law.frame_refl law.frame_trans call_lawful environment_lawful)+

end
