(* ===== verification/System_Properties.thy ===== *)
theory System_Properties
  imports Training_System
begin

text \<open>
  The properties of the whole library as a state machine, and of a training step as the composition of
  differentiation and an optimizer.
\<close>

section \<open>A reachable state with a tensor\<close>

lemma initial_parts [simp]:
  "alloc_plan (rt_heap initial_training) = []" "next_handle (rt_registry initial_training) = 1"
  by (simp_all add: initial_training_def empty_heap_def empty_registry_def)

lemma first_tensor:
  "\<exists>s h r. api_call L D initial_training (Some TS_OK) s \<and> reachable L D s \<and> live s kTensor h r \<and>
    array_of (rt_heap s) r = ([2], [1, 2])"
proof -
  let ?op = "OpFromF32 [1, 2] [2]"
  note inv = train_core_inv [OF initial_inv]
  have v: "valid_dims [2]" by (simp add: valid_dims_def kMaxTensorRank_def max_numel_def)
  have ok: "op_args_ok ?op" using valid_dims_i64 [OF v] by simp
  have post: "handle_post initial_training (array_op ?op (tensor_view initial_training))
      (run_core ?op (Some 0) initial_training)" by (rule run_core_post [OF inv ok])
  obtain name message where rc: "\<And>out s. run_core ?op out s =
      ts_function name (new_handle message (compute_core ?op)) out (s :: training_runtime)"
    using run_core_compute by meson
  have "implements (initial_training\<lparr>rt_last_error := []\<rparr>) (array_op ?op (tensor_view initial_training))
      (compute_core ?op (initial_training\<lparr>rt_last_error := []\<rparr>))"
    using compute_core_implements [OF _ ok, of "initial_training\<lparr>rt_last_error := []\<rparr>"] inv by simp
  then have "fst (run_core ?op (Some 0) initial_training) = Some TS_OK"
    unfolding rc using v by (intro new_handle_ok [OF inv]) auto
  then obtain h s where run: "run_core ?op (Some 0) initial_training = (Some TS_OK, Some h, s)"
    and view: "tensor_view s h = Some ([2], [1, 2])"
    using post v by (cases "run_core ?op (Some 0) initial_training") (auto simp: handle_post_def)
  have call: "api_call L D initial_training (Some TS_OK) s"
    using run valid_dims_i64 [OF v]
    by (intro call_tensor_from_f32 [of "dims_pointer [2]" 1 "Some [1, 2]" 2])
      (auto simp: dims_argument_def data_argument_def dims_pointer_def numeral_2_eq_2)
  obtain r where "tensor_handle s h = Some r" "array_of (rt_heap s) r = ([2], [1, 2])"
    using view by (auto simp: tensor_view_def)
  then have "live s kTensor h r"
    by (auto simp: tensor_handle_def live_def split: option.splits if_splits)
  then show ?thesis using call reachable_call [OF reachable_start call] \<open>array_of _ _ = _\<close> by blast
qed

definition demo_distribution :: distribution where
  "demo_distribution = (\<lambda>low high engine. (low, engine))"

section \<open>A training step\<close>

text \<open>The result of a step for a parameter, when \<open>F\<close> are the gradients.\<close>

definition trained_view :: "libm \<Rightarrow> optimizer_core \<Rightarrow> heap \<Rightarrow> gradient_map \<Rightarrow> nat \<times> tensor_ref \<Rightarrow>
    f32 list \<times> f32 list \<times> f32 list" where
  "trained_view L c h F = (\<lambda>(i, p). case F p of
       None \<Rightarrow> parameter_view (c, h) (i, p)
     | Some g \<Rightarrow> parameter_result L c (logical_values h (tensor_at h p)) g
         (oc_first_moment c ! i) (oc_second_moment c ! i))"

lemma stepped_trained:
  assumes "p < length (tensors h)"
  shows "stepped_view L (c, h) (i, p) = trained_view L c h (leaf_gradients h) (i, p)"
  using assms by (simp add: stepped_view_def trained_view_def leaf_gradients_def split: option.split)

lemma Backward_trained:
  assumes inv: "heap_inv h" and loss: "is_loss h root" and run: "Backward L root h = (Inr (), h')"
    and p: "public h p" and G: "\<forall>x < length (tensors h). leaf_gradients h' x = published h G x"
  shows "stepped_view L (c, h') (i, p) = trained_view L c h (published h G) (i, p)"
proof -
  note p' = publicD [OF p]
  have "base_inv h h'"
    using Backward_base_inv [OF heap_invD(4) [OF inv] _ run] loss by (simp add: is_loss_def)
  note b = base_invD [OF this]
  have vals: "logical_values h' (tensor_at h' p) = logical_values h (tensor_at h p)"
    using b(7) [OF p'(1)] p'(2) by simp
  have "stepped_view L (c, h') (i, p) = trained_view L c h' (leaf_gradients h') (i, p)"
    using p'(1) b(4) by (intro stepped_trained) simp
  also have "\<dots> = trained_view L c h (published h G) (i, p)"
    using vals G p'(1) by (simp add: trained_view_def parameter_view_def cong: option.case_cong)
  finally show ?thesis .
qed

lemma ts_tensor_backward_run:
  assumes inv: "train_inv s" and live: "live s kTensor loss root" and root: "is_loss (rt_heap s) root"
    and fresh: "fresh_below (rt_heap s) root" and plan: "alloc_plan (rt_heap s) = []"
  obtains h' where "Backward L root (rt_heap s) = (Inr (), h')"
    "ts_tensor_backward L loss s = (Some TS_OK, s\<lparr>rt_heap := h', rt_last_error := []\<rparr>)"
proof -
  obtain h' where h': "Backward L root (rt_heap s) = (Inr (), h')"
    using Backward_decided [OF heap_invD(4) [OF train_invD(1) [OF inv]] root plan] fresh by auto
  have "LookupTensor loss (s\<lparr>rt_last_error := []\<rparr>) = (Inr root, s\<lparr>rt_last_error := []\<rparr>)"
    unfolding LookupTensor_def by (rule live_lookup) (use live train_invD(2) [OF inv] in simp_all)
  then have "ts_tensor_backward L loss s = (Some TS_OK, s\<lparr>rt_heap := h', rt_last_error := []\<rparr>)"
    using h' by (simp add: ts_tensor_backward_def ts_plain_run bindE_Inr_run heapE_def)
  then show ?thesis using that h' by blast
qed

section \<open>A concrete training step\<close>

text \<open>A module whose weight is the leaf of the concrete graph, and an optimizer over it.\<close>

definition demo_step :: training_runtime where
  "demo_step = demo_training\<lparr>rt_heap := demo_graph,
     rt_registry := \<lparr>entries = map (\<lambda>(h, ty, i). (h, \<lparr>entry_type = ty, entry_refs = 1, entry_object = i\<rparr>))
         [(1, kModule, 0), (2, kTensor, 2), (3, kOptimizer, 0)], next_handle = 4\<rparr>,
     rt_modules := [\<lparr>in_features = 1, out_features = 2, use_bias = False, ls_training = True,
       ls_weight = 0, ls_bias = None\<rparr>],
     rt_optimizers := [optimizer_core.extend (demo_core\<lparr>oc_first_moment := [[0, 0]],
       oc_second_moment := [[0, 0]]\<rparr>) \<lparr>os_module = 0\<rparr>],
     rt_parameter_optimizers := []\<rparr>"

lemma demo_graph_heap_inv: "heap_inv demo_graph"
proof -
  have "one_counter demo_graph"
    by (auto simp: one_counter_def elim!: demo_graph_cases)
  then show ?thesis using demo_graph_diff by (simp add: heap_inv_def diff_heap_def)
qed

lemma demo_graph_public: "public demo_graph i \<longleftrightarrow> i < 3"
  by (auto simp: public_def is_grad_def demo_graph_gradients)

lemma demo_graph_direct: "direct demo_graph 0"
  by (simp add: direct_def is_contiguous_def row_major_def)

lemma demo_step_entries:
  "entry_of (rt_registry demo_step) h = Some e \<Longrightarrow>
    (h, entry_type e, entry_object e) \<in> {(1, kModule, 0), (2, kTensor, 2), (3, kOptimizer, 0)}"
  by (auto simp: demo_step_def split: if_splits)

lemma demo_step_inv: "train_inv demo_step"
proof -
  have "objects_ok demo_step"
    by (simp add: objects_ok_def demo_step_def module_ok_def parameter_ok_def demo_graph_public
        demo_graph_direct optimizer_ok_def moments_ok_def sizes_of_def
        Parameters_def demo_core_def optimizer_core.extend_def)
  moreover have "object_ok demo_step (entry_type e) (entry_object e)"
    if "entry_of (rt_registry demo_step) h = Some e" for h e
    using demo_step_entries [OF that]
    by (auto simp: object_ok_def demo_step_def demo_graph_public)
  moreover have "registry_inv (rt_registry demo_step)"
    by (simp add: registry_inv_def demo_step_def)
  ultimately show ?thesis
    using demo_graph_heap_inv by (simp add: train_inv_def demo_step_def)
qed

lemma demo_step_live: "live demo_step kTensor 2 2" "live demo_step kOptimizer 3 0"
  by (simp_all add: live_def demo_step_def)

section \<open>Properties\<close>

text \<open>C1: Differentiation and an optimizer step compose to a training step.  When the loss is a scalar
  that requires gradients, no value its graph saved has been overwritten and no allocation fails,
  \<open>ts_tensor_backward\<close> followed by \<open>ts_optimizer_step\<close> returns OK twice, and every parameter of the
  optimizer's module has exactly the values the update rule computes from its old values, its old
  moments and its old gradient plus the gradient the chain rule gives it; tensors that share no
  storage with a parameter keep their values.\<close>

theorem training_step_correct:
  assumes "train_inv s" and "live s kTensor loss root" and "live s kOptimizer opt k"
    and "is_loss (rt_heap s) root" and "fresh_below (rt_heap s) root" and "alloc_plan (rt_heap s) = []"
  shows "\<exists>s1 s2 G ys. ts_tensor_backward L loss s = (Some TS_OK, s1) \<and>
    ts_optimizer_step L opt s1 = (Some TS_OK, s2) \<and> chain_rule L (rt_heap s) root G ys \<and>
    (\<forall>i < length (module_parameters_of s k).
       parameter_view (optimizer_core.truncate (rt_optimizers s2 ! k), rt_heap s2) (i, module_parameters_of s k ! i) =
       trained_view L (next_core (rt_optimizers s ! k)) (rt_heap s) (published (rt_heap s) G)
         (i, module_parameters_of s k ! i)) \<and>
    (\<forall>q. public (rt_heap s) q \<and> t_storage (tensor_at (rt_heap s) q) \<notin>
         (\<lambda>p. t_storage (tensor_at (rt_heap s) p)) ` set (module_parameters_of s k) \<longrightarrow>
       logical_values (rt_heap s2) (tensor_at (rt_heap s2) q) = logical_values (rt_heap s) (tensor_at (rt_heap s) q))"
proof -
  let ?h = "rt_heap s" and ?ps = "module_parameters_of s k"
  obtain h' where run: "Backward L root ?h = (Inr (), h')"
    and bw: "ts_tensor_backward L loss s = (Some TS_OK, s\<lparr>rt_heap := h', rt_last_error := []\<rparr>)"
    by (rule ts_tensor_backward_run [OF assms(1,2,4-6)])
  note hinv = train_invD(1) [OF assms(1)]
  obtain G ys where G: "chain_rule L ?h root G ys" "\<forall>x < length (tensors ?h). leaf_gradients h' x = published ?h G x"
    using Backward_solves [OF heap_invD(4) [OF hinv] assms(4) run] by blast
  let ?s1 = "s\<lparr>rt_heap := h', rt_last_error := []\<rparr>"
  have inv1: "train_inv ?s1"
    using lawful_training_state(4) assms(1) bw unfolding lawful_plain_def lawful_def by (metis snd_conv)
  have live1: "live ?s1 kOptimizer opt k" using assms(3) by (simp add: live_def)
  have same: "module_parameters_of ?s1 k = ?ps" "rt_optimizers ?s1 = rt_optimizers s" "rt_heap ?s1 = h'"
    by (simp_all add: module_parameters_of_def module_at_def)
  have pub: "public ?h p" if "p \<in> set ?ps" for p
    using module_steppable [OF assms(1) optimizer_facts(1) [OF assms(1,3)] that] by (simp add: steppable_def)
  have b: "base_inv ?h h'"
    using Backward_base_inv [OF heap_invD(4) [OF hinv] _ run] assms(4) by (simp add: is_loss_def)
  have st: "t_storage (tensor_at h' q) = t_storage (tensor_at ?h q)" if "public ?h q" for q
    using core_eqD(2) [OF base_invD(5) [OF b]] publicD(1) [OF that] by simp
  then have img: "(\<lambda>p. t_storage (tensor_at h' p)) ` set ?ps = (\<lambda>p. t_storage (tensor_at ?h p)) ` set ?ps"
    using pub by (intro image_cong) auto
  obtain s2 where s2: "ts_optimizer_step L opt ?s1 = (Some TS_OK, s2)"
    "\<forall>i < length ?ps. parameter_view (optimizer_core.truncate (rt_optimizers s2 ! k), rt_heap s2) (i, ?ps ! i) =
       stepped_view L (next_core (rt_optimizers s ! k), h') (i, ?ps ! i)"
    "tensors (rt_heap s2) = tensors h'"
    "\<forall>q. t_storage (tensor_at h' q) \<notin> (\<lambda>p. t_storage (tensor_at ?h p)) ` set ?ps \<longrightarrow>
       logical_values (rt_heap s2) (tensor_at h' q) = logical_values h' (tensor_at h' q)"
    using optimizer_step_result [OF inv1 live1, of L, unfolded same img] by blast
  have "parameter_view (optimizer_core.truncate (rt_optimizers s2 ! k), rt_heap s2) (i, ?ps ! i) =
      trained_view L (next_core (rt_optimizers s ! k)) ?h (published ?h G) (i, ?ps ! i)" if "i < length ?ps" for i
    using s2(2) that Backward_trained [OF hinv assms(4) run pub G(2)] by simp
  moreover have "logical_values (rt_heap s2) (tensor_at (rt_heap s2) q) = logical_values ?h (tensor_at ?h q)"
    if "public ?h q" "t_storage (tensor_at ?h q) \<notin> (\<lambda>p. t_storage (tensor_at ?h p)) ` set ?ps" for q
    using s2(3,4) st [OF that(1)] that(2) base_invD(7) [OF b] publicD [OF that(1)] by simp
  ultimately show ?thesis using bw s2(1) G(1) by blast
qed

theorem training_step_correct_witness:
  "\<exists>s1 s2 G. ts_tensor_backward demo_libm 2 demo_step = (Some TS_OK, s1) \<and>
    ts_optimizer_step demo_libm 3 s1 = (Some TS_OK, s2) \<and> G 2 = Some [f32_one] \<and>
    parameter_view (optimizer_core.truncate (rt_optimizers s2 ! 0), rt_heap s2) (0, 0) =
      trained_view demo_libm (next_core (rt_optimizers demo_step ! 0)) demo_graph (published demo_graph G) (0, 0)"
proof -
  have ps: "module_parameters_of demo_step 0 = [0]" and h: "rt_heap demo_step = demo_graph"
    by (simp_all add: module_parameters_of_def module_at_def Parameters_def demo_step_def optimizer_core.extend_def)
  show ?thesis
    using training_step_correct [OF demo_step_inv demo_step_live, of demo_libm] demo_graph_loss demo_graph_fresh
    unfolding ps h chain_rule_def by fastforce
qed



text \<open>C16: No tensor of a reachable state reads outside its storage: for every logical index, the
  index computed with wrap-around from shape, strides and offset lies inside the storage, which has
  at most the maximal number of elements, and the element count is the product of the dimensions.\<close>

theorem reads_stay_in_bounds:
  assumes "reachable L D s" and "r < length (tensors (rt_heap s))"
  shows "logical_storage_index (tensor_at (rt_heap s) r) i <
      length (cpu_values (storage_of (rt_heap s) (tensor_at (rt_heap s) r))) \<and>
    length (cpu_values (storage_of (rt_heap s) (tensor_at (rt_heap s) r))) \<le> max_numel \<and>
    numel_of (tensor_at (rt_heap s) r) = dims_prod (dims_of (tensor_at (rt_heap s) r)) \<and>
    0 < numel_of (tensor_at (rt_heap s) r)"
proof -
  note lay = wf_heap_layout [OF train_invD(3) [OF reachable_inv [OF assms(1)]] assms(2)]
  then show ?thesis
    using layout_ok_index_less [OF lay, of i] layout_ok_numel [OF lay] layout_ok_numel_pos [OF lay]
    by (auto simp: layout_ok_def)
qed

theorem reads_stay_in_bounds_witness:
  "\<exists>s h r. reachable demo_libm demo_distribution s \<and> live s kTensor h r \<and>
    logical_storage_index (tensor_at (rt_heap s) r) 1 < length (cpu_values (storage_of (rt_heap s) (tensor_at (rt_heap s) r)))"
proof -
  obtain s h r where s: "reachable demo_libm demo_distribution s" "live s kTensor h r"
    using first_tensor [of demo_libm demo_distribution] by blast
  then have "object_ok s kTensor r" using live_object [OF reachable_inv] by blast
  then have "r < length (tensors (rt_heap s))" by (simp add: object_ok_def public_def)
  then show ?thesis using reads_stay_in_bounds [OF s(1)] s by blast
qed

text \<open>C17: What a state holds stays: in every later state every tensor has its shape, storage, offset
  and version counter, no tensor a client can hold has become a gradient buffer, every module has its
  dimensions and parameters, and every optimizer the module or tensors it was created for.\<close>

theorem objects_are_stable:
  assumes "reachable L D s" and "later L D s t"
  shows "(\<forall>r < length (tensors (rt_heap s)). r < length (tensors (rt_heap t)) \<and>
      skeleton (tensor_at (rt_heap t) r) = skeleton (tensor_at (rt_heap s) r)) \<and>
    (\<forall>r. public (rt_heap s) r \<longrightarrow> public (rt_heap t) r) \<and>
    (\<forall>i < length (rt_modules s). i < length (rt_modules t) \<and>
      module_core (rt_modules t ! i) = module_core (rt_modules s ! i)) \<and>
    (\<forall>k < length (rt_optimizers s). k < length (rt_optimizers t) \<and>
      os_module (rt_optimizers t ! k) = os_module (rt_optimizers s ! k)) \<and>
    (\<forall>j < length (rt_parameter_optimizers s). j < length (rt_parameter_optimizers t) \<and>
      po_parameters (rt_parameter_optimizers t ! j) = po_parameters (rt_parameter_optimizers s ! j))"
proof -
  have e: "evolves s t"
    using later_lawful [OF assms(2)] reachable_inv [OF assms(1)] by (simp add: lawful_def)
  show ?thesis
    using evolvesD(2-5) [OF e] persistsD(1,3) [OF evolvesD(1) [OF e]] by (simp add: order.strict_trans2)
qed

theorem objects_are_stable_witness:
  "\<exists>s h r t. reachable demo_libm demo_distribution s \<and> live s kTensor h r \<and>
    api_call demo_libm demo_distribution s (Some TS_OK) t \<and> public (rt_heap t) r"
proof -
  obtain s h r where s: "reachable demo_libm demo_distribution s" "live s kTensor h r"
    using first_tensor [of demo_libm demo_distribution] by blast
  obtain code t where "ts_manual_seed 7 s = (code, t)" by force
  then have call: "ts_manual_seed 7 s = (Some TS_OK, t)"
    by (simp add: ts_manual_seed_def ManualSeed_def ts_plain_run modifyE_def)
  then have c: "api_call demo_libm demo_distribution s (Some TS_OK) t" by (rule call_manual_seed)
  have "public (rt_heap s) r"
    using live_object [OF reachable_inv [OF s(1)] s(2)] by (simp add: object_ok_def)
  then show ?thesis
    using objects_are_stable [OF s(1) later_call [OF later_same c]] s c by blast
qed



end
