(* ===== verification/Inference_State.thy ===== *)
theory Inference_State
  imports Training_State Core_Api_Spec
begin

text \<open>
  The state and the environment of inference (\<open>native/src/inference/inference_bridge_onnx.cc\<close>,
  \<open>onnx_policy.h\<close>), and the choice of an execution provider.

  ONNX Runtime is not part of the repository: what the code calls of it is the record \<open>ort_runtime\<close>,
  a parameter.  A session of it is a value of an arbitrary type \<open>'m\<close> which running the session and
  ending its profile may change; an \<open>Ort::Exception\<close> is the left case of a sum.  \<open>std::filesystem\<close> paths
  are strings.
\<close>

section \<open>ONNX Runtime\<close>

datatype ort_error_code =
    ORT_NO_SUCHFILE
  | ORT_INVALID_GRAPH
  | ORT_INVALID_PROTOBUF
  | ORT_MODEL_LOADED
  | ORT_INVALID_ARGUMENT
  | ORT_NOT_IMPLEMENTED
  | OtherOrtError nat

record ort_exception =
  ort_code :: ort_error_code
  ort_what :: string

definition ort_throw :: "string \<Rightarrow> ort_error_code \<Rightarrow> ort_exception + 'a" where
  "ort_throw what code = Inl \<lparr>ort_code = code, ort_what = what\<rparr>"

datatype onnx_type = ONNX_TENSOR_ELEMENT_DATA_TYPE_FLOAT | OtherOnnxType nat

text \<open>
  An \<open>Ort::Value\<close> that a run returned: not a tensor; a tensor whose description throws; or a tensor with
  element type, shape, element count and memory.
\<close>

datatype ort_value =
    NotATensor
  | TensorInfoThrows ort_exception
  | OrtTensor onnx_type "64 word list" "64 word" "nat \<Rightarrow> f32"

text \<open>A named input: its shape and the host values it was created from.\<close>

type_synonym ort_input = "string \<times> int list \<times> f32 list"

record 'm ort_runtime =
  ort_GetAvailableProviders :: "ort_exception + string list"
  ort_AppendExecutionProvider :: "string \<Rightarrow> ort_exception + unit"
  ort_Session :: "string \<Rightarrow> string \<Rightarrow> string option \<Rightarrow> ort_exception + 'm"
  ort_GetInputCount :: "'m \<Rightarrow> ort_exception + nat"
  ort_Input :: "'m \<Rightarrow> nat \<Rightarrow> ort_exception + string \<times> onnx_type"
  ort_GetOutputCount :: "'m \<Rightarrow> ort_exception + nat"
  ort_Output :: "'m \<Rightarrow> nat \<Rightarrow> ort_exception + string \<times> onnx_type"
  ort_CreateTensor :: "f32 list \<Rightarrow> int list \<Rightarrow> ort_exception + unit"
  ort_Run :: "'m \<Rightarrow> ort_input list \<Rightarrow> string list \<Rightarrow> (ort_exception + ort_value list) \<times> 'm"
  ort_EndProfiling :: "'m \<Rightarrow> (ort_exception + string) \<times> 'm"

text \<open>The preprocessor symbols the bridge depends on.\<close>

datatype platform = WindowsPlatform | ApplePlatform | OtherPlatform

record onnx_build =
  ob_platform :: platform
  ob_with_dml :: bool
  ob_with_coreml :: bool

section \<open>Execution providers\<close>

definition kAutoProvider :: string where "kAutoProvider = ''auto''"
definition kCpuProvider :: string where "kCpuProvider = ''CPUExecutionProvider''"
definition kCudaProvider :: string where "kCudaProvider = ''CUDAExecutionProvider''"
definition kDmlProvider :: string where "kDmlProvider = ''DmlExecutionProvider''"
definition kCoreMlProvider :: string where "kCoreMlProvider = ''CoreMLExecutionProvider''"
definition kOpenVinoProvider :: string where "kOpenVinoProvider = ''OpenVINOExecutionProvider''"
definition kMiGraphXProvider :: string where "kMiGraphXProvider = ''MIGraphXExecutionProvider''"

lemmas provider_names = kAutoProvider_def kCpuProvider_def kCudaProvider_def kDmlProvider_def
  kCoreMlProvider_def kOpenVinoProvider_def kMiGraphXProvider_def

definition IsKnownProvider :: "string \<Rightarrow> bool" where
  "IsKnownProvider provider \<longleftrightarrow> provider = kAutoProvider \<or> provider = kCpuProvider \<or>
     provider = kCudaProvider \<or> provider = kDmlProvider \<or> provider = kCoreMlProvider \<or>
     provider = kOpenVinoProvider \<or> provider = kMiGraphXProvider"

definition IsProviderAvailable :: "string list \<Rightarrow> string \<Rightarrow> bool" where
  "IsProviderAvailable available provider \<longleftrightarrow> List.member available provider"

definition CanConfigureProvider :: "onnx_build \<Rightarrow> string \<Rightarrow> bool" where
  "CanConfigureProvider build provider =
     (if provider = kCpuProvider \<or> provider = kCudaProvider \<or> provider = kOpenVinoProvider \<or>
         provider = kMiGraphXProvider then True
      else if ob_with_dml build \<and> provider = kDmlProvider then True
      else if ob_with_coreml build \<and> provider = kCoreMlProvider then True
      else False)"

fun auto_candidates :: "platform \<Rightarrow> string list" where
  "auto_candidates WindowsPlatform =
     [kCudaProvider, kOpenVinoProvider, kDmlProvider, kMiGraphXProvider, kCpuProvider]"
| "auto_candidates ApplePlatform = [kCoreMlProvider, kCpuProvider]"
| "auto_candidates OtherPlatform =
     [kCudaProvider, kMiGraphXProvider, kOpenVinoProvider, kCpuProvider]"

fun ResolveAutoProvider_loop :: "onnx_build \<Rightarrow> string list \<Rightarrow> string list \<Rightarrow> ort_exception + string" where
  "ResolveAutoProvider_loop build available [] =
     ort_throw ''No supported ONNX execution provider is available'' ORT_NOT_IMPLEMENTED"
| "ResolveAutoProvider_loop build available (candidate # candidates) =
     (if IsProviderAvailable available candidate \<and> CanConfigureProvider build candidate
      then Inr candidate else ResolveAutoProvider_loop build available candidates)"

definition ResolveAutoProvider :: "onnx_build \<Rightarrow> string list \<Rightarrow> ort_exception + string" where
  "ResolveAutoProvider build available =
     ResolveAutoProvider_loop build available (auto_candidates (ob_platform build))"

definition ResolveProvider :: "'m ort_runtime \<Rightarrow> onnx_build \<Rightarrow> string \<Rightarrow> ort_exception + string" where
  "ResolveProvider ort build requested_provider =
     (if \<not> IsKnownProvider requested_provider
      then ort_throw ''Unknown ONNX execution provider'' ORT_INVALID_ARGUMENT
      else case ort_GetAvailableProviders ort of
        Inl e \<Rightarrow> Inl e
      | Inr available \<Rightarrow>
          (if requested_provider = kAutoProvider then ResolveAutoProvider build available
           else if \<not> IsProviderAvailable available requested_provider
           then ort_throw ''Requested ONNX execution provider is not available'' ORT_NOT_IMPLEMENTED
           else if \<not> CanConfigureProvider build requested_provider
           then ort_throw ''Requested ONNX execution provider is not enabled in this Tensora build''
             ORT_NOT_IMPLEMENTED
           else Inr requested_provider))"

definition AppendProvider :: "'m ort_runtime \<Rightarrow> onnx_build \<Rightarrow> string \<Rightarrow> ort_exception + unit" where
  "AppendProvider ort build provider =
     (if provider = kCpuProvider then Inr ()
      else if provider = kCudaProvider \<or> provider = kOpenVinoProvider \<or> provider = kMiGraphXProvider
      then ort_AppendExecutionProvider ort provider
      else if ob_with_dml build \<and> provider = kDmlProvider then ort_AppendExecutionProvider ort provider
      else if ob_with_coreml build \<and> provider = kCoreMlProvider
      then ort_AppendExecutionProvider ort provider
      else ort_throw ''ONNX execution provider cannot be configured'' ORT_NOT_IMPLEMENTED)"

text \<open>
  \<open>onnx_policy.h\<close> states the same choice over snapshots of the available, the configurable and the
  automatically tried providers.
\<close>

definition ContainsProvider :: "string list \<Rightarrow> string \<Rightarrow> bool" where
  "ContainsProvider providers provider \<longleftrightarrow> List.member providers provider"

definition policy_IsKnownProvider :: "string \<Rightarrow> bool" where
  "policy_IsKnownProvider provider \<longleftrightarrow> provider = ''auto'' \<or> provider = ''CPUExecutionProvider'' \<or>
     provider = ''CUDAExecutionProvider'' \<or> provider = ''DmlExecutionProvider'' \<or>
     provider = ''CoreMLExecutionProvider'' \<or> provider = ''OpenVINOExecutionProvider'' \<or>
     provider = ''MIGraphXExecutionProvider''"

fun resolve_candidates :: "string list \<Rightarrow> string list \<Rightarrow> string list \<Rightarrow> status + string" where
  "resolve_candidates available configurable [] =
     Inl (Unsupported ''onnx provider: no supported execution provider is available'')"
| "resolve_candidates available configurable (candidate # candidates) =
     (if ContainsProvider available candidate \<and> ContainsProvider configurable candidate
      then Inr candidate else resolve_candidates available configurable candidates)"

definition ResolveProviderFromSnapshot ::
    "string \<Rightarrow> string list \<Rightarrow> string list \<Rightarrow> string list \<Rightarrow> status + string" where
  "ResolveProviderFromSnapshot requested_provider available configurable candidates =
     (if \<not> policy_IsKnownProvider requested_provider
      then Inl (InvalidArgument ''onnx provider: unknown execution provider'')
      else if requested_provider = ''auto'' then resolve_candidates available configurable candidates
      else if \<not> ContainsProvider available requested_provider
      then Inl (Unsupported ''onnx provider: requested execution provider is not available'')
      else if \<not> ContainsProvider configurable requested_provider
      then Inl (Unsupported
        ''onnx provider: requested execution provider is not enabled in this Tensora build'')
      else Inr requested_provider)"

section \<open>Errors of ONNX Runtime\<close>

definition OrtFailure :: "string \<Rightarrow> ort_exception \<Rightarrow> status" where
  "OrtFailure operation error =
     (let message = operation @ '': '' @ ort_what error
      in case ort_code error of
           ORT_INVALID_ARGUMENT \<Rightarrow> InvalidArgument message
         | ORT_NOT_IMPLEMENTED \<Rightarrow> Unsupported message
         | _ \<Rightarrow> ModelError message)"

text \<open>The remaining helpers of \<open>onnx_policy.h\<close>.\<close>

definition policy_OrtFailure :: "string \<Rightarrow> ort_exception \<Rightarrow> status" where
  "policy_OrtFailure operation error =
     (if ort_code error \<in> {ORT_NO_SUCHFILE, ORT_INVALID_GRAPH, ORT_INVALID_PROTOBUF, ORT_MODEL_LOADED}
      then ModelError (operation @ '': '' @ ort_what error)
      else if ort_code error = ORT_INVALID_ARGUMENT then InvalidArgument (operation @ '': '' @ ort_what error)
      else if ort_code error = ORT_NOT_IMPLEMENTED then Unsupported (operation @ '': '' @ ort_what error)
      else ModelError (operation @ '': '' @ ort_what error))"

definition ValidateFloatTensorType :: "onnx_type \<Rightarrow> string \<Rightarrow> status + unit" where
  "ValidateFloatTensorType element_type operation =
     (if element_type \<noteq> ONNX_TENSOR_ELEMENT_DATA_TYPE_FLOAT
      then Inl (Unsupported (operation @ '': only float32 tensors are supported'')) else Inr ())"

definition ValidateTensorElementCount :: "64 word \<Rightarrow> 64 word \<Rightarrow> string \<Rightarrow> status + unit" where
  "ValidateTensorElementCount expected actual operation =
     (if expected \<noteq> actual
      then Inl (ModelError (operation @ '': shape and element count are inconsistent'')) else Inr ())"

definition GuardOrt :: "string \<Rightarrow> ort_exception + (status + 'a) \<Rightarrow> status + 'a" where
  "GuardOrt operation body = (case body of Inl error \<Rightarrow> Inl (policy_OrtFailure operation error) | Inr result \<Rightarrow> result)"

text \<open>A call inside \<open>try { ... } catch (const Ort::Exception& error) { return OrtFailure(...); }\<close>.\<close>

definition ortE :: "string \<Rightarrow> (ort_exception + 'a) \<Rightarrow> ('s, 'a) run" where
  "ortE operation r = statusE (map_sum (OrtFailure operation) id r)"

text \<open>\<open>catch (const std::bad_alloc&) { return OutOfMemory(message); }\<close>.\<close>

definition catch_bad_alloc :: "string \<Rightarrow> ('s, 'a) run \<Rightarrow> ('s, 'a) run" where
  "catch_bad_alloc message body = (\<lambda>s. case body s of
       (Inl (Raised BadAlloc), s') \<Rightarrow> (Inl (Failed (OutOfMemory message)), s')
     | x \<Rightarrow> x)"

section \<open>Sessions\<close>

record 'm session_state =
  selected_provider :: string
  ss_session :: 'm
  ss_input_names :: "string list"
  ss_output_names :: "string list"
  profiling_enabled :: bool
  profiling_ended :: bool
  profiling_path :: string

record 'm inference_runtime = training_runtime +
  rt_sessions :: "'m session_state list"

type_synonym ('m, 'a) irt = "('m inference_runtime, 'a) run"
type_synonym ('b, 'm) iapi = "('b option \<times> 'm inference_runtime, unit) run"

definition LookupSession :: "handle \<Rightarrow> ('m, nat) irt" where
  "LookupSession handle = registryE (registry_lookup handle kInferenceSession)"

definition session_at :: "nat \<Rightarrow> ('m, 'm session_state) irt" where
  "session_at i = getE (\<lambda>s. rt_sessions s ! i)"

definition new_session :: "'m session_state \<Rightarrow> ('m, nat) irt" where
  "new_session state = (\<lambda>s. (Inr (length (rt_sessions s)), s\<lparr>rt_sessions := rt_sessions s @ [state]\<rparr>))"

definition update_session :: "nat \<Rightarrow> ('m session_state \<Rightarrow> 'm session_state) \<Rightarrow> ('m, unit) irt" where
  "update_session i f = modifyE (\<lambda>s. s\<lparr>rt_sessions := (rt_sessions s)[i := f (rt_sessions s ! i)]\<rparr>)"

text \<open>\<open>inference_bridge.h\<close>: what the exported functions need from a bridge.\<close>

record 'm bridge =
  br_IsAvailable :: "(nat, 'm) iapi"
  br_ProviderCount :: "(nat, 'm) iapi"
  br_ProviderName :: "nat \<Rightarrow> ('m, string) irt"
  br_SessionCreate :: "string \<Rightarrow> string \<Rightarrow> bool \<Rightarrow> string \<Rightarrow> (handle, 'm) iapi"
  br_SessionProvider :: "handle \<Rightarrow> ('m, string) irt"
  br_SessionInputCount :: "handle \<Rightarrow> (nat, 'm) iapi"
  br_SessionOutputCount :: "handle \<Rightarrow> (nat, 'm) iapi"
  br_SessionInputName :: "handle \<Rightarrow> nat \<Rightarrow> ('m, string) irt"
  br_SessionOutputName :: "handle \<Rightarrow> nat \<Rightarrow> ('m, string) irt"
  br_SessionRun :: "handle \<Rightarrow> string list \<Rightarrow> tensor_ref list \<Rightarrow> string list \<Rightarrow> ('m, tensor_ref list) irt"
  br_SessionEndProfiling :: "handle \<Rightarrow> ('m, string) irt"
  br_SessionRelease :: "handle \<Rightarrow> ('m, unit) irt"

end
