(* ===== verification/Inference_Bridge.thy ===== *)
theory Inference_Bridge
  imports Inference_State
begin

text \<open>
  The two bridges: the ONNX Runtime bridge of \<open>native/src/inference/inference_bridge_onnx.cc\<close>, and the
  bridge of a build without ONNX Runtime, \<open>inference_bridge_stub.cc\<close>.

  Output strings and vectors are locals of the exported functions, never null; they are results here.
  The host vectors of a run are requested from the environment together, before the first input is
  read; each copy of an input and each shape of an output is requested on its own.
\<close>

section \<open>Creating a session\<close>

fun collect_names :: "(nat \<Rightarrow> ort_exception + string \<times> onnx_type) \<Rightarrow> string \<Rightarrow> nat list \<Rightarrow>
    ort_exception + string list" where
  "collect_names describe message [] = Inr []"
| "collect_names describe message (index # indices) =
     (case describe index of
        Inl e \<Rightarrow> Inl e
      | Inr (name, element_type) \<Rightarrow>
          (if element_type \<noteq> ONNX_TENSOR_ELEMENT_DATA_TYPE_FLOAT
           then ort_throw message ORT_NOT_IMPLEMENTED
           else map_sum id (\<lambda>names. name # names) (collect_names describe message indices)))"

definition MakeOptions :: "'m ort_runtime \<Rightarrow> onnx_build \<Rightarrow> string \<Rightarrow> bool \<Rightarrow> string \<Rightarrow>
    ort_exception + string option" where
  "MakeOptions ort build provider enable_profiling log_prefix =
     (case AppendProvider ort build provider of
        Inl e \<Rightarrow> Inl e
      | Inr _ \<Rightarrow> Inr (if enable_profiling
          then Some (if log_prefix = [] then ''tensora-profile'' else log_prefix) else None))"

definition open_session :: "'m ort_runtime \<Rightarrow> onnx_build \<Rightarrow> string \<Rightarrow> string \<Rightarrow> bool \<Rightarrow> string \<Rightarrow>
    ort_exception + string \<times> 'm" where
  "open_session ort build model_path requested_provider enable_profiling log_prefix =
     (case ResolveProvider ort build requested_provider of
        Inl e \<Rightarrow> Inl e
      | Inr provider \<Rightarrow>
          (case MakeOptions ort build provider enable_profiling log_prefix of
             Inl e \<Rightarrow> Inl e
           | Inr profile \<Rightarrow> map_sum id (\<lambda>session. (provider, session)) (ort_Session ort model_path provider profile)))"

definition SessionState :: "'m ort_runtime \<Rightarrow> onnx_build \<Rightarrow> string \<Rightarrow> string \<Rightarrow> bool \<Rightarrow> string \<Rightarrow>
    ort_exception + 'm session_state" where
  "SessionState ort build model_path requested_provider enable_profiling log_prefix =
     (case open_session ort build model_path requested_provider enable_profiling log_prefix of
        Inl e \<Rightarrow> Inl e
      | Inr (provider, session) \<Rightarrow>
          (case ort_GetInputCount ort session of
             Inl e \<Rightarrow> Inl e
           | Inr input_count \<Rightarrow>
               (case collect_names (ort_Input ort session) ''Tensora currently supports float32 ONNX inputs''
                    [0..<input_count] of
                  Inl e \<Rightarrow> Inl e
                | Inr input_names \<Rightarrow>
                    (case ort_GetOutputCount ort session of
                       Inl e \<Rightarrow> Inl e
                     | Inr output_count \<Rightarrow>
                         map_sum id (\<lambda>output_names. \<lparr>selected_provider = provider, ss_session = session,
                             ss_input_names = input_names, ss_output_names = output_names,
                             profiling_enabled = enable_profiling, profiling_ended = False,
                             profiling_path = []\<rparr>)
                           (collect_names (ort_Output ort session)
                             ''Tensora currently supports float32 ONNX outputs'' [0..<output_count])))))"

definition onnx_SessionCreate :: "'m ort_runtime \<Rightarrow> onnx_build \<Rightarrow> string \<Rightarrow> string \<Rightarrow> bool \<Rightarrow> string \<Rightarrow>
    (handle, 'm) iapi" where
  "onnx_SessionCreate ort build model_path provider enable_profiling profiling_prefix =
     bindE (check_out ''onnx_session_create: output handle pointer is null'') (\<lambda>_.
     bindE (set_out 0) (\<lambda>_.
     bindE (checkE (model_path \<noteq> []) (InvalidArgument ''onnx_session_create: model path is empty'')) (\<lambda>_.
     catch_bad_alloc ''onnx_session_create: allocation failed''
       (bindE (runtimeE (heapE request_alloc)) (\<lambda>_.
        bindE (ortE ''onnx_session_create''
          (SessionState ort build model_path provider enable_profiling profiling_prefix)) (\<lambda>state.
        bindE (runtimeE (new_session state)) (\<lambda>object.
        InsertObject kInferenceSession object)))))))"

section \<open>Inspecting ONNX Runtime and sessions\<close>

definition onnx_IsAvailable :: "(nat, 'm) iapi" where
  "onnx_IsAvailable = bindE (check_out ''onnx_available: output pointer is null'') (\<lambda>_. set_out 1)"

definition onnx_ProviderCount :: "'m ort_runtime \<Rightarrow> (nat, 'm) iapi" where
  "onnx_ProviderCount ort =
     bindE (check_out ''onnx_provider_count: output pointer is null'') (\<lambda>_.
     bindE (set_out 0) (\<lambda>_.
     bindE (ortE ''onnx_provider_count'' (ort_GetAvailableProviders ort)) (\<lambda>providers.
     set_out (length providers))))"

definition onnx_ProviderName :: "'m ort_runtime \<Rightarrow> nat \<Rightarrow> ('m, string) irt" where
  "onnx_ProviderName ort index =
     bindE (ortE ''onnx_provider_name'' (ort_GetAvailableProviders ort)) (\<lambda>providers.
     bindE (checkE (index < length providers)
       (InvalidArgument ''onnx_provider_name: index is out of range'')) (\<lambda>_.
     returnE (providers ! index)))"

definition onnx_SessionProvider :: "handle \<Rightarrow> ('m, string) irt" where
  "onnx_SessionProvider session =
     bindE (LookupSession session) (\<lambda>i.
     bindE (session_at i) (\<lambda>state. returnE (selected_provider state)))"

definition onnx_SessionInputCount :: "handle \<Rightarrow> (nat, 'm) iapi" where
  "onnx_SessionInputCount session =
     bindE (check_out ''onnx_session_input_count: output pointer is null'') (\<lambda>_.
     bindE (set_out 0) (\<lambda>_.
     bindE (runtimeE (bindE (LookupSession session) session_at)) (\<lambda>state.
     set_out (length (ss_input_names state)))))"

definition onnx_SessionOutputCount :: "handle \<Rightarrow> (nat, 'm) iapi" where
  "onnx_SessionOutputCount session =
     bindE (check_out ''onnx_session_output_count: output pointer is null'') (\<lambda>_.
     bindE (set_out 0) (\<lambda>_.
     bindE (runtimeE (bindE (LookupSession session) session_at)) (\<lambda>state.
     set_out (length (ss_output_names state)))))"

definition onnx_SessionInputName :: "handle \<Rightarrow> nat \<Rightarrow> ('m, string) irt" where
  "onnx_SessionInputName session index =
     bindE (LookupSession session) (\<lambda>i.
     bindE (session_at i) (\<lambda>state.
     bindE (checkE (index < length (ss_input_names state))
       (InvalidArgument ''onnx_session_input_name: index is out of range'')) (\<lambda>_.
     returnE (ss_input_names state ! index))))"

definition onnx_SessionOutputName :: "handle \<Rightarrow> nat \<Rightarrow> ('m, string) irt" where
  "onnx_SessionOutputName session index =
     bindE (LookupSession session) (\<lambda>i.
     bindE (session_at i) (\<lambda>state.
     bindE (checkE (index < length (ss_output_names state))
       (InvalidArgument ''onnx_session_output_name: index is out of range'')) (\<lambda>_.
     returnE (ss_output_names state ! index))))"

section \<open>Running a session\<close>

text \<open>The values of the storage, in the order of the storage, with the dimensions of the tensor.\<close>

definition TensorToHost :: "tensor_ref \<Rightarrow> (heap, f32 list \<times> int list) run" where
  "TensorToHost r =
     bindE (getE (\<lambda>h. tensor_at h r)) (\<lambda>t.
     bindE (checkE (t_dtype t = kFloat32)
       (Unsupported ''onnx input: only float32 tensors are supported'')) (\<lambda>_.
     bindE request_alloc (\<lambda>_.
     bindE (getE (\<lambda>h. storage_copy_to_host (storage_of h t) (Some (replicate (numel_of t) f32_zero))
       (numel_of t))) (\<lambda>(res, out_values, written).
     bindE (statusE res) (\<lambda>_.
     bindE (checkE (written = numel_of t)
       (InternalError ''onnx input: storage returned an inconsistent size'')) (\<lambda>_.
     returnE (the out_values, dims_of t)))))))"

definition OrtValueToTensor :: "ort_value \<Rightarrow> (heap, tensor_ref) run" where
  "OrtValueToTensor v =
     (case v of
        NotATensor \<Rightarrow> failE (Unsupported ''onnx output: only tensor outputs are supported'')
      | TensorInfoThrows e \<Rightarrow> failE (OrtFailure ''onnx output'' e)
      | OrtTensor element_type shape count values \<Rightarrow>
          bindE (checkE (element_type = ONNX_TENSOR_ELEMENT_DATA_TYPE_FLOAT)
            (Unsupported ''onnx output: only float32 outputs are supported'')) (\<lambda>_.
          bindE request_alloc (\<lambda>_.
          bindE (statusE (ValidateShape (dims_pointer (map sint shape)) (length (map sint shape)))) (\<lambda>info.
          bindE (checkE (numel info = unat count)
            (ModelError ''onnx output: shape and element count are inconsistent'')) (\<lambda>_.
          bindE (CpuStorage_FromData (Some (map values [0..<unat count])) (numel info)) (\<lambda>storage.
          catch_bad_alloc ''onnx output: Tensor allocation failed'' (new_cpu_tensor info storage)))))))"

fun host_inputs :: "'m ort_runtime \<Rightarrow> (tensor_ref \<times> string) list \<Rightarrow> ort_input list \<Rightarrow>
    (heap, ort_input list) run" where
  "host_inputs ort [] ort_inputs = returnE ort_inputs"
| "host_inputs ort ((tensor, name) # inputs) ort_inputs =
     bindE (TensorToHost tensor) (\<lambda>(values, shape).
     bindE (ortE ''onnx_session_run'' (ort_CreateTensor ort values shape)) (\<lambda>_.
     host_inputs ort inputs (ort_inputs @ [(name, shape, values)])))"

definition session_Run :: "'m ort_runtime \<Rightarrow> nat \<Rightarrow> ort_input list \<Rightarrow> string list \<Rightarrow>
    ('m, ort_value list) irt" where
  "session_Run ort i inputs output_names =
     bindE (session_at i) (\<lambda>state.
     case ort_Run ort (ss_session state) inputs output_names of
       (result, session) \<Rightarrow>
         bindE (update_session i (\<lambda>st. st\<lparr>ss_session := session\<rparr>)) (\<lambda>_.
         ortE ''onnx_session_run'' result))"

fun convert_outputs :: "ort_value list \<Rightarrow> tensor_ref list \<Rightarrow> (heap, tensor_ref list) run" where
  "convert_outputs [] converted = returnE converted"
| "convert_outputs (v # vs) converted =
     bindE (OrtValueToTensor v) (\<lambda>tensor. convert_outputs vs (converted @ [tensor]))"

definition run_validated :: "'m ort_runtime \<Rightarrow> nat \<Rightarrow> string list \<Rightarrow> tensor_ref list \<Rightarrow> string list \<Rightarrow>
    ('m, tensor_ref list) irt" where
  "run_validated ort i input_names inputs output_names =
     catch_bad_alloc ''onnx_session_run: allocation failed''
       (bindE (heapE request_alloc) (\<lambda>_.
        bindE (heapE (host_inputs ort (zip inputs input_names) [])) (\<lambda>ort_inputs.
        bindE (session_Run ort i ort_inputs output_names) (\<lambda>outputs.
        bindE (checkE (length outputs = length output_names)
          (ModelError ''onnx_session_run: runtime returned unexpected output count'')) (\<lambda>_.
        heapE (convert_outputs outputs []))))))"

definition onnx_SessionRun :: "'m ort_runtime \<Rightarrow> handle \<Rightarrow> string list \<Rightarrow> tensor_ref list \<Rightarrow> string list \<Rightarrow>
    ('m, tensor_ref list) irt" where
  "onnx_SessionRun ort session input_names inputs output_names =
     bindE (checkE (length input_names = length inputs)
       (InvalidArgument ''onnx_session_run: input name/tensor counts differ'')) (\<lambda>_.
     bindE (LookupSession session) (\<lambda>i.
     bindE (session_at i) (\<lambda>state.
     bindE (checkE (length input_names = length (ss_input_names state))
       (InvalidArgument ''onnx_session_run: input count does not match model'')) (\<lambda>_.
     bindE (checkE (\<not> (output_names = [] \<or> length output_names > length (ss_output_names state)))
       (InvalidArgument ''onnx_session_run: invalid output count'')) (\<lambda>_.
     run_validated ort i input_names inputs output_names)))))"

section \<open>Profiles, release\<close>

definition onnx_SessionEndProfiling :: "'m ort_runtime \<Rightarrow> handle \<Rightarrow> ('m, string) irt" where
  "onnx_SessionEndProfiling ort session =
     bindE (LookupSession session) (\<lambda>i.
     bindE (session_at i) (\<lambda>state.
     bindE (checkE (profiling_enabled state)
       (InvalidArgument ''onnx_session_end_profiling: profiling is not enabled'')) (\<lambda>_.
     if profiling_ended state then returnE (profiling_path state)
     else case ort_EndProfiling ort (ss_session state) of
       (result, ended) \<Rightarrow>
         bindE (update_session i (\<lambda>st. st\<lparr>ss_session := ended\<rparr>)) (\<lambda>_.
         bindE (ortE ''onnx_session_end_profiling'' result) (\<lambda>path.
         bindE (update_session i (\<lambda>st. st\<lparr>profiling_path := path, profiling_ended := True\<rparr>)) (\<lambda>_.
         returnE path))))))"

definition onnx_SessionRelease :: "handle \<Rightarrow> ('m, unit) irt" where
  "onnx_SessionRelease session = registryE (registry_release session kInferenceSession)"

definition onnx_bridge :: "'m ort_runtime \<Rightarrow> onnx_build \<Rightarrow> 'm bridge" where
  "onnx_bridge ort build = \<lparr>br_IsAvailable = onnx_IsAvailable, br_ProviderCount = onnx_ProviderCount ort,
     br_ProviderName = onnx_ProviderName ort, br_SessionCreate = onnx_SessionCreate ort build,
     br_SessionProvider = onnx_SessionProvider, br_SessionInputCount = onnx_SessionInputCount,
     br_SessionOutputCount = onnx_SessionOutputCount, br_SessionInputName = onnx_SessionInputName,
     br_SessionOutputName = onnx_SessionOutputName, br_SessionRun = onnx_SessionRun ort,
     br_SessionEndProfiling = onnx_SessionEndProfiling ort, br_SessionRelease = onnx_SessionRelease\<rparr>"

section \<open>The bridge without ONNX Runtime\<close>

definition Disabled :: "string \<Rightarrow> status" where
  "Disabled operation = Unsupported (operation @ '': ONNX Runtime backend is not enabled'')"

definition stub_IsAvailable :: "(nat, 'm) iapi" where
  "stub_IsAvailable = bindE (check_out ''onnx_available: output pointer is null'') (\<lambda>_. set_out 0)"

definition stub_ProviderCount :: "(nat, 'm) iapi" where
  "stub_ProviderCount = bindE (check_out ''onnx_provider_count: output pointer is null'') (\<lambda>_. set_out 0)"

definition stub_ProviderName :: "nat \<Rightarrow> ('m, string) irt" where
  "stub_ProviderName index = failE (Disabled ''onnx_provider_name'')"

definition stub_SessionCreate :: "string \<Rightarrow> string \<Rightarrow> bool \<Rightarrow> string \<Rightarrow> (handle, 'm) iapi" where
  "stub_SessionCreate model_path provider enable_profiling profiling_prefix =
     bindE (check_out ''onnx_session_create: output handle pointer is null'') (\<lambda>_.
     bindE (set_out 0) (\<lambda>_. failE (Disabled ''onnx_session_create'')))"

definition stub_SessionProvider :: "handle \<Rightarrow> ('m, string) irt" where
  "stub_SessionProvider session = failE (Disabled ''onnx_session_provider'')"

definition stub_SessionInputCount :: "handle \<Rightarrow> (nat, 'm) iapi" where
  "stub_SessionInputCount session =
     bindE (check_out ''onnx_session_input_count: output pointer is null'') (\<lambda>_.
     bindE (set_out 0) (\<lambda>_. failE (Disabled ''onnx_session_input_count'')))"

definition stub_SessionOutputCount :: "handle \<Rightarrow> (nat, 'm) iapi" where
  "stub_SessionOutputCount session =
     bindE (check_out ''onnx_session_output_count: output pointer is null'') (\<lambda>_.
     bindE (set_out 0) (\<lambda>_. failE (Disabled ''onnx_session_output_count'')))"

definition stub_SessionInputName :: "handle \<Rightarrow> nat \<Rightarrow> ('m, string) irt" where
  "stub_SessionInputName session index = failE (Disabled ''onnx_session_input_name'')"

definition stub_SessionOutputName :: "handle \<Rightarrow> nat \<Rightarrow> ('m, string) irt" where
  "stub_SessionOutputName session index = failE (Disabled ''onnx_session_output_name'')"

definition stub_SessionRun :: "handle \<Rightarrow> string list \<Rightarrow> tensor_ref list \<Rightarrow> string list \<Rightarrow>
    ('m, tensor_ref list) irt" where
  "stub_SessionRun session input_names inputs output_names = failE (Disabled ''onnx_session_run'')"

definition stub_SessionEndProfiling :: "handle \<Rightarrow> ('m, string) irt" where
  "stub_SessionEndProfiling session = failE (Disabled ''onnx_session_end_profiling'')"

definition stub_SessionRelease :: "handle \<Rightarrow> ('m, unit) irt" where
  "stub_SessionRelease session = failE (Disabled ''onnx_session_release'')"

definition stub_bridge :: "'m bridge" where
  "stub_bridge = \<lparr>br_IsAvailable = stub_IsAvailable, br_ProviderCount = stub_ProviderCount,
     br_ProviderName = stub_ProviderName, br_SessionCreate = stub_SessionCreate,
     br_SessionProvider = stub_SessionProvider, br_SessionInputCount = stub_SessionInputCount,
     br_SessionOutputCount = stub_SessionOutputCount, br_SessionInputName = stub_SessionInputName,
     br_SessionOutputName = stub_SessionOutputName, br_SessionRun = stub_SessionRun,
     br_SessionEndProfiling = stub_SessionEndProfiling, br_SessionRelease = stub_SessionRelease\<rparr>"

end
