(* ===== verification/Inference_Api.thy ===== *)
theory Inference_Api
  imports Inference_Bridge
begin

text \<open>
  The exported functions of \<open>native/src/inference/inference_c_api.cc\<close>, over any bridge.

  Functions with two output pointers that may be null independently run on a cell that holds both:
  \<open>Some (buffer, count)\<close>, each \<open>None\<close> for a null pointer.  A C string is the list of its characters;
  an array of \<open>count\<close> C strings is a list of options.
\<close>

type_synonym 'm icall = "'m inference_runtime \<Rightarrow> int option \<times> 'm inference_runtime"

section \<open>Strings\<close>

definition NUL :: char where "NUL = CHR 0x00"

definition CopyUtf8String :: "string \<Rightarrow> nat \<Rightarrow> string \<Rightarrow> (string option \<times> nat option, 'm) iapi" where
  "CopyUtf8String text capacity operation =
     bindE (getE (\<lambda>(out, _). the out)) (\<lambda>(out_value, out_required).
     bindE (checkE (out_required \<noteq> None)
       (InvalidArgument (operation @ '': output required-size pointer is null''))) (\<lambda>_.
     let required = length text + 1 in
     bindE (set_out (out_value, Some required)) (\<lambda>_.
     if capacity = 0 then returnE ()
     else
       bindE (checkE (out_value \<noteq> None)
         (InvalidArgument (operation @ '': output buffer pointer is null''))) (\<lambda>_.
       bindE (checkE (\<not> capacity < required)
         (InvalidArgument (operation @ '': output buffer capacity is too small''))) (\<lambda>_.
       set_out (map_option (\<lambda>buffer. (text @ [NUL]) @ drop required buffer) out_value, Some required))))))"

text \<open>The functions that answer with a string.\<close>

definition string_function :: "string \<Rightarrow> ('m, string) irt \<Rightarrow> nat \<Rightarrow>
    (string option \<times> nat option) option \<Rightarrow> 'm inference_runtime \<Rightarrow>
    int option \<times> (string option \<times> nat option) option \<times> 'm inference_runtime" where
  "string_function operation fetch capacity =
     ts_function operation (bindE (runtimeE fetch) (\<lambda>text. CopyUtf8String text capacity operation))"

section \<open>Tensors of a run\<close>

definition InsertInferenceTensor :: "tensor_ref \<Rightarrow> ('m, handle) irt" where
  "InsertInferenceTensor tensor = registryE (registry_insert kTensor (Some tensor))"

definition ReleaseInsertedOutputs :: "handle list \<Rightarrow> 'm inference_runtime \<Rightarrow> 'm inference_runtime" where
  "ReleaseInsertedOutputs handles s = fold (\<lambda>handle s.
     if handle \<noteq> 0 then snd (registryE (registry_release handle kTensor) s) else s) handles s"

text \<open>The loop that registers the results, and gives back the registered ones when one fails.\<close>

fun insert_outputs :: "tensor_ref list \<Rightarrow> handle list \<Rightarrow> ('m, handle list) irt" where
  "insert_outputs [] inserted = returnE inserted"
| "insert_outputs (object # objects) inserted = (\<lambda>s.
     case InsertInferenceTensor object s of
       (Inr handle, s') \<Rightarrow> insert_outputs objects (inserted @ [handle]) s'
     | (Inl (Failed st), s') \<Rightarrow> (Inl (Failed st), ReleaseInsertedOutputs inserted s')
     | (Inl f, s') \<Rightarrow> (Inl f, s'))"

definition collect_input :: "string option \<times> handle \<Rightarrow> string list \<times> tensor_ref list \<Rightarrow>
    ('m, string list \<times> tensor_ref list) irt" where
  "collect_input = (\<lambda>(name, handle) (names, inputs).
     bindE (checkE (name \<noteq> None) (InvalidArgument ''onnx_session_run: an input name pointer is null'')) (\<lambda>_.
     bindE (LookupTensor handle) (\<lambda>tensor.
     returnE (names @ [the name], inputs @ [tensor]))))"

definition collect_output_name :: "string option \<Rightarrow> string list \<Rightarrow> ('m, string list) irt" where
  "collect_output_name = (\<lambda>name names.
     bindE (checkE (name \<noteq> None) (InvalidArgument ''onnx_session_run: an output name pointer is null'')) (\<lambda>_.
     returnE (names @ [the name])))"

definition run_outputs :: "'m bridge \<Rightarrow> handle \<Rightarrow> (string option \<times> handle) list \<Rightarrow> string option list \<Rightarrow>
    ('m, handle list) irt" where
  "run_outputs bridge session inputs output_names =
     bindE (foldE inputs ([], []) collect_input) (\<lambda>(input_name_values, inputs).
     bindE (foldE output_names [] collect_output_name) (\<lambda>output_name_values.
     bindE (br_SessionRun bridge session input_name_values inputs output_name_values) (\<lambda>results.
     bindE (checkE (length results = length output_names)
       (InternalError ''onnx_session_run: bridge returned unexpected output count'')) (\<lambda>_.
     insert_outputs results []))))"

section \<open>The exported functions\<close>

definition ts_onnx_available :: "'m bridge \<Rightarrow> nat option \<Rightarrow> 'm inference_runtime \<Rightarrow>
    int option \<times> nat option \<times> 'm inference_runtime" where
  "ts_onnx_available bridge = ts_function ''onnx_available'' (br_IsAvailable bridge)"

definition ts_onnx_provider_count :: "'m bridge \<Rightarrow> nat option \<Rightarrow> 'm inference_runtime \<Rightarrow>
    int option \<times> nat option \<times> 'm inference_runtime" where
  "ts_onnx_provider_count bridge = ts_function ''onnx_provider_count'' (br_ProviderCount bridge)"

definition ts_onnx_provider_name :: "'m bridge \<Rightarrow> nat \<Rightarrow> nat \<Rightarrow> (string option \<times> nat option) option \<Rightarrow>
    'm inference_runtime \<Rightarrow> int option \<times> (string option \<times> nat option) option \<times> 'm inference_runtime" where
  "ts_onnx_provider_name bridge index =
     string_function ''onnx_provider_name'' (br_ProviderName bridge index)"

definition ts_onnx_session_create_with_provider :: "'m bridge \<Rightarrow> string option \<Rightarrow> string option \<Rightarrow> nat \<Rightarrow>
    string option \<Rightarrow> handle option \<Rightarrow> 'm inference_runtime \<Rightarrow>
    int option \<times> handle option \<times> 'm inference_runtime" where
  "ts_onnx_session_create_with_provider bridge model_path requested_provider enable_profiling
      profiling_prefix = ts_function ''onnx_session_create_with_provider''
     (bindE (check_out ''onnx_session_create_with_provider: output handle pointer is null'') (\<lambda>_.
      bindE (set_out 0) (\<lambda>_.
      bindE (checkE (model_path \<noteq> None) (InvalidArgument
        ''onnx_session_create_with_provider: model path pointer is null'')) (\<lambda>_.
      bindE (checkE (requested_provider \<noteq> None) (InvalidArgument
        ''onnx_session_create_with_provider: provider pointer is null'')) (\<lambda>_.
      br_SessionCreate bridge (the model_path) (the requested_provider) (enable_profiling \<noteq> 0)
        (case profiling_prefix of None \<Rightarrow> [] | Some p \<Rightarrow> p))))))"

definition ts_onnx_session_create :: "'m bridge \<Rightarrow> string option \<Rightarrow> nat \<Rightarrow> string option \<Rightarrow> handle option \<Rightarrow>
    'm inference_runtime \<Rightarrow> int option \<times> handle option \<times> 'm inference_runtime" where
  "ts_onnx_session_create bridge model_path enable_profiling profiling_prefix =
     ts_onnx_session_create_with_provider bridge model_path (Some ''auto'') enable_profiling profiling_prefix"

definition ts_onnx_session_provider :: "'m bridge \<Rightarrow> handle \<Rightarrow> nat \<Rightarrow> (string option \<times> nat option) option \<Rightarrow>
    'm inference_runtime \<Rightarrow> int option \<times> (string option \<times> nat option) option \<times> 'm inference_runtime" where
  "ts_onnx_session_provider bridge session =
     string_function ''onnx_session_provider'' (br_SessionProvider bridge session)"

definition ts_onnx_session_input_count :: "'m bridge \<Rightarrow> handle \<Rightarrow> nat option \<Rightarrow> 'm inference_runtime \<Rightarrow>
    int option \<times> nat option \<times> 'm inference_runtime" where
  "ts_onnx_session_input_count bridge session =
     ts_function ''onnx_session_input_count'' (br_SessionInputCount bridge session)"

definition ts_onnx_session_output_count :: "'m bridge \<Rightarrow> handle \<Rightarrow> nat option \<Rightarrow> 'm inference_runtime \<Rightarrow>
    int option \<times> nat option \<times> 'm inference_runtime" where
  "ts_onnx_session_output_count bridge session =
     ts_function ''onnx_session_output_count'' (br_SessionOutputCount bridge session)"

definition ts_onnx_session_input_name :: "'m bridge \<Rightarrow> handle \<Rightarrow> nat \<Rightarrow> nat \<Rightarrow>
    (string option \<times> nat option) option \<Rightarrow> 'm inference_runtime \<Rightarrow>
    int option \<times> (string option \<times> nat option) option \<times> 'm inference_runtime" where
  "ts_onnx_session_input_name bridge session index =
     string_function ''onnx_session_input_name'' (br_SessionInputName bridge session index)"

definition ts_onnx_session_output_name :: "'m bridge \<Rightarrow> handle \<Rightarrow> nat \<Rightarrow> nat \<Rightarrow>
    (string option \<times> nat option) option \<Rightarrow> 'm inference_runtime \<Rightarrow>
    int option \<times> (string option \<times> nat option) option \<times> 'm inference_runtime" where
  "ts_onnx_session_output_name bridge session index =
     string_function ''onnx_session_output_name'' (br_SessionOutputName bridge session index)"

text \<open>The cell holds the array of output handles and \<open>*out_written\<close>.\<close>

definition ts_onnx_session_run :: "'m bridge \<Rightarrow> handle \<Rightarrow> string option list option \<Rightarrow> handle list option \<Rightarrow>
    nat \<Rightarrow> string option list option \<Rightarrow> nat \<Rightarrow> nat \<Rightarrow> (handle list option \<times> nat option) option \<Rightarrow>
    'm inference_runtime \<Rightarrow> int option \<times> (handle list option \<times> nat option) option \<times> 'm inference_runtime" where
  "ts_onnx_session_run bridge session input_names input_tensors input_count output_names output_count
      out_capacity = ts_function ''onnx_session_run''
     (bindE (getE (\<lambda>(out, _). the out)) (\<lambda>(out_tensors, out_written).
      bindE (checkE (out_written \<noteq> None)
        (InvalidArgument ''onnx_session_run: output count pointer is null'')) (\<lambda>_.
      bindE (set_out (out_tensors, Some 0)) (\<lambda>_.
      bindE (checkE (\<not> (input_count > 0 \<and> (input_names = None \<or> input_tensors = None)))
        (InvalidArgument ''onnx_session_run: input arrays are null'')) (\<lambda>_.
      bindE (checkE (\<not> (output_count = 0 \<or> output_names = None))
        (InvalidArgument ''onnx_session_run: output names are null or empty'')) (\<lambda>_.
      bindE (checkE (\<not> out_capacity < output_count)
        (InvalidArgument ''onnx_session_run: output handle capacity is too small'')) (\<lambda>_.
      bindE (checkE (out_tensors \<noteq> None)
        (InvalidArgument ''onnx_session_run: output handle array is null'')) (\<lambda>_.
      bindE (set_out (map_option (\<lambda>hs. replicate output_count 0 @ drop output_count hs) out_tensors, Some 0)) (\<lambda>_.
      bindE (runtimeE (run_outputs bridge session
        (if input_count = 0 then [] else zip (take input_count (the input_names)) (take input_count (the input_tensors)))
        (take output_count (the output_names)))) (\<lambda>inserted.
      set_out (map_option (\<lambda>hs. inserted @ drop output_count hs) out_tensors, Some (length inserted))))))))))))"

definition ts_onnx_session_end_profiling :: "'m bridge \<Rightarrow> handle \<Rightarrow> nat \<Rightarrow> (string option \<times> nat option) option \<Rightarrow>
    'm inference_runtime \<Rightarrow> int option \<times> (string option \<times> nat option) option \<times> 'm inference_runtime" where
  "ts_onnx_session_end_profiling bridge session =
     string_function ''onnx_session_end_profiling'' (br_SessionEndProfiling bridge session)"

definition ts_onnx_session_release :: "'m bridge \<Rightarrow> handle \<Rightarrow> 'm icall" where
  "ts_onnx_session_release bridge session = ts_plain ''onnx_session_release'' (br_SessionRelease bridge session)"

definition ts_runtime_live_onnx_session_count :: "64 word option \<Rightarrow> 'm inference_runtime \<Rightarrow>
    int option \<times> 64 word option \<times> 'm inference_runtime" where
  "ts_runtime_live_onnx_session_count = ts_function ''runtime_live_onnx_session_count''
     (bindE (check_out ''runtime_live_onnx_session_count: output pointer is null'') (\<lambda>_.
      bindE (runtimeE (registryE (getE (registry_count kInferenceSession)))) (\<lambda>count.
      set_out count)))"

end
