(* ===== verification/Inference_Spec.thy ===== *)
theory Inference_Spec
  imports Inference_Api
begin

text \<open>
  The contract between the exported functions of inference and a bridge, as a locale that both bridges
  satisfy, and what the exported functions do over any bridge with that contract: a run registers all
  its outputs or none.
\<close>

section \<open>Heaps that grow\<close>

definition enlarges :: "heap \<Rightarrow> heap \<Rightarrow> bool" where
  "enlarges h h' \<longleftrightarrow> (heap_inv h \<longrightarrow> heap_inv h' \<and> heap_extends h h' \<and> (\<forall>p. public h p \<longrightarrow> public h' p))"

interpretation grow: frame_relation enlarges
  by unfold_locales (auto simp: enlarges_def ext.frame_refl intro: ext.frame_trans)

lemma quietly_grows: "quietly h h' \<Longrightarrow> enlarges h h'"
  using quietly_safe [of h h' "()"] by (simp add: enlarges_def safe_def quietly_def)

lemma keeps_grows: "keeps quietly m \<Longrightarrow> keeps enlarges m"
  by (simp add: keeps_def quietly_grows)

lemma yields_grows:
  assumes "heap_inv h" and "yields h [] d vs None x"
  shows "enlarges h (snd x)" "fst x = Inr r \<Longrightarrow> public (snd x) r"
proof -
  have c: "\<forall>p \<in> set []. public h p" by simp
  note s = yields_safe [OF assms c clean_None]
  show "enlarges h (snd x)"
    using s(1) yieldsD(2) [of h "[]" d vs None "fst x" "snd x"] assms(2) by (simp add: enlarges_def safe_def)
  show "fst x = Inr r \<Longrightarrow> public (snd x) r" by (rule s(2))
qed

lemma catch_bad_alloc_state [simp]: "snd (catch_bad_alloc m body s) = snd (body s)"
  by (auto simp: catch_bad_alloc_def split: prod.splits sum.splits fault.splits cxx_exception.splits)

lemma catch_bad_alloc_Inr [simp]: "catch_bad_alloc m body s = (Inr a, s') \<longleftrightarrow> body s = (Inr a, s')"
  by (auto simp: catch_bad_alloc_def split: prod.splits sum.splits fault.splits cxx_exception.splits)

lemma keeps_catch_bad_alloc: "keeps R m \<Longrightarrow> keeps R (catch_bad_alloc message m)"
  by (simp add: keeps_def)


context frame_relation
begin

lemma keeps_ort: "keeps R (ortE operation r)"
  by (simp add: ortE_def keeps_status)

end

section \<open>Outputs become tensors\<close>

lemma quiet_fail_bind:
  assumes "bindE m f h = (Inl e, h')" and "keeps quietly m"
    and "\<And>a h1. m h = (Inr a, h1) \<Longrightarrow> f a h1 = (Inl e, h') \<Longrightarrow> quietly h1 h'"
  shows "quietly h h'"
  using assms(1)
proof (cases rule: bindE_InlE)
  case 1
  then show ?thesis using keepsD [OF assms(2)] by blast
next
  case (2 a h1)
  then show ?thesis using keepsD [OF assms(2)] assms(3) quiet.frame_trans by blast
qed

lemma i64_sint: "i64_array (map sint (shape :: 64 word list))"
proof -
  have "- (2 ^ 63) \<le> sint d \<and> sint d < 2 ^ 63" for d :: "64 word"
    using sint_greater_eq [of d] sint_less [of d] by simp
  then show ?thesis by (simp add: i64_array_def)
qed

lemma OrtTensor_fails:
  assumes "OrtValueToTensor (OrtTensor element_type shape count memory) h = (Inl f, h')"
  shows "quietly h h'"
  using assms unfolding OrtValueToTensor_def ort_value.case
proof (elim quiet_fail_bind)
  fix info storage h1 message assume "catch_bad_alloc message (new_cpu_tensor info storage) h1 = (Inl f, h')"
  then obtain g where "new_cpu_tensor info storage h1 = (Inl g, h')"
    by (auto simp: catch_bad_alloc_def split: prod.splits sum.splits fault.splits cxx_exception.splits)
  then show "quietly h1 h'" unfolding new_cpu_tensor_def by (rule new_tensor_Inl)
qed (intro quiet.keeps_all quiet_request_alloc quiet_FromData)+

lemma OrtTensor_succeeds:
  assumes "OrtValueToTensor (OrtTensor element_type shape count memory) h = (Inr r, h')"
  shows "r = length (tensors h)" "valid_dims (map sint shape)" "unat count = dims_prod (map sint shape)"
    "adds_tensor h h' (canonical_shape (map sint shape)) (map memory [0..<unat count]) None"
proof -
  obtain h1 info storage h2 where al: "request_alloc h = (Inr (), h1)"
    and info: "ValidateShape (dims_pointer (map sint shape)) (length (map sint shape)) = Inr info"
    and n: "numel info = unat count"
    and fd: "CpuStorage_FromData (Some (map memory [0..<unat count])) (numel info) h1 = (Inr storage, h2)"
    and new: "new_cpu_tensor info storage h2 = (Inr r, h')"
    using assms unfolding OrtValueToTensor_def ort_value.case
    by (auto simp: checkE_run statusE_run map_sum_def elim!: bindE_InrE split: if_splits sum.splits)
  note c = ValidateShape_pointer_Inr [OF info i64_sint]
  then show "valid_dims (map sint shape)" "unat count = dims_prod (map sint shape)" using n by simp_all
  note q = request_alloc_keeps_objects [of h, unfolded al snd_conv]
  note s = CpuStorage_FromData_Inr [OF fd]
  have "new_cpu_tensor info (length (storages h)) h2 = (Inr r, h')"
    "storages h2 = storages h @ [CpuStorage (map memory [0..<unat count])]" "counters h2 = counters h"
    "tensors h2 = tensors h" using new s q n by simp_all
  from new_cpu_tensor_adds [OF this] c(2) show "r = length (tensors h)"
    "adds_tensor h h' (canonical_shape (map sint shape)) (map memory [0..<unat count]) None" by simp_all
qed

text \<open>The dimensions and values of a tensor that ONNX Runtime returned.\<close>

fun ort_array :: "ort_value \<Rightarrow> array option" where
  "ort_array (OrtTensor element_type shape count memory) = Some (map sint shape, map memory [0..<unat count])"
| "ort_array v = None"

lemma OrtValueToTensor_grows:
  assumes inv: "heap_inv h" and run: "OrtValueToTensor v h = (res, h')"
  shows "enlarges h h'" "res = Inr r \<Longrightarrow> public h' r \<and> ort_array v = Some (array_of h' r)"
proof -
  have "enlarges h h' \<and> (res = Inr r \<longrightarrow> public h' r \<and> ort_array v = Some (array_of h' r))"
  proof (cases v)
    case (OrtTensor element_type shape count memory)
    note run' = run [unfolded OrtTensor]
    show ?thesis
    proof (cases res)
      case (Inl f)
      then show ?thesis using OrtTensor_fails run' quietly_grows by blast
    next
      case (Inr r')
      note m = OrtTensor_succeeds [OF run' [unfolded Inr]]
      have len: "length (map memory [0..<unat count]) = dims_prod (map sint shape)" using m(3) by simp
      have y: "yields h [] (map sint shape) (map memory [0..<unat count]) None (Inr (length (tensors h)), h')"
        by (rule yields_made_plain [OF heap_invD(1) [OF inv] m(4,2) len])
      have "array_of h' r' = (map sint shape, map memory [0..<unat count])"
        using adds_tensor_values [OF m(4,2) len] adds_tensor_facts(1) [OF m(4)] m(1) by (simp add: array_of_def)
      then show ?thesis using yields_grows [OF inv y] m(1) Inr OrtTensor by auto
    qed
  qed (use run grow.frame_refl in \<open>auto simp: OrtValueToTensor_def failE_run\<close>)
  then show "enlarges h h'" "res = Inr r \<Longrightarrow> public h' r \<and> ort_array v = Some (array_of h' r)" by blast+
qed

lemma convert_outputs_grows:
  assumes "heap_inv h" and "convert_outputs vs done_refs h = (res, h')" and "\<forall>r \<in> set done_refs. public h r"
  shows "enlarges h h' \<and> (\<forall>rs. res = Inr rs \<longrightarrow> (\<forall>r \<in> set rs. public h' r) \<and>
    (\<exists>new. rs = done_refs @ new \<and> map ort_array vs = map (\<lambda>r. Some (array_of h' r)) new))"
  using assms
proof (induction vs arbitrary: done_refs h)
  case Nil
  then show ?case using grow.frame_refl by (auto simp: returnE_run)
next
  case (Cons v vs)
  obtain r1 h1 where v: "OrtValueToTensor v h = (r1, h1)" by force
  note g = OrtValueToTensor_grows [OF Cons.prems(1) v]
  have h1: "heap_inv h1" "heap_extends h h1" "\<And>p. public h p \<Longrightarrow> public h1 p"
    using g(1) Cons.prems(1) by (simp_all add: enlarges_def)
  show ?case
  proof (cases r1)
    case (Inl f)
    then show ?thesis using Cons.prems(2) v g(1) by (auto simp: bindE_Inl_run)
  next
    case (Inr r)
    have pub: "\<forall>x \<in> set (done_refs @ [r]). public h1 x" using Cons.prems(3) h1(3) g(2) [OF Inr] by auto
    have rest: "convert_outputs vs (done_refs @ [r]) h1 = (res, h')"
      using Cons.prems(2) v Inr by (simp add: bindE_Inr_run)
    note IH = Cons.IH [OF h1(1) rest pub]
    have h': "heap_extends h1 h'" using IH h1(1) by (simp add: enlarges_def)
    have same: "array_of h' r = array_of h1 r"
      using array_of_extends [OF heap_invD(1) [OF h1(1)] h'] publicD(1) g(2) [OF Inr] by blast
    have "\<exists>new. rs = done_refs @ new \<and> map ort_array (v # vs) = map (\<lambda>r. Some (array_of h' r)) new"
      if rs: "res = Inr rs" for rs
    proof -
      obtain new where "rs = (done_refs @ [r]) @ new" "map ort_array vs = map (\<lambda>r. Some (array_of h' r)) new"
        using IH rs by blast
      then show ?thesis using same g(2) [OF Inr] by (intro exI [of _ "r # new"]) simp
    qed
    then show ?thesis using IH g(1) grow.frame_trans by blast
  qed
qed

section \<open>The state of inference\<close>

definition inference_inv :: "'m inference_runtime \<Rightarrow> bool" where
  "inference_inv s \<longleftrightarrow> core_inv s \<and> (\<forall>h e. entry_of (rt_registry s) h = Some e \<longrightarrow>
     entry_type e = kInferenceSession \<longrightarrow> entry_object e < length (rt_sessions s))"

text \<open>What never changes of a session.\<close>

definition session_core :: "'m session_state \<Rightarrow> string \<times> string list \<times> string list \<times> bool" where
  "session_core st = (selected_provider st, ss_input_names st, ss_output_names st, profiling_enabled st)"

text \<open>Everything but the heap, which grows, and the mutable parts of sessions is as before.\<close>

definition computes :: "'m inference_runtime \<Rightarrow> 'm inference_runtime \<Rightarrow> bool" where
  "computes s s' \<longleftrightarrow> (\<exists>h ss. s' = s\<lparr>rt_heap := h, rt_sessions := ss\<rparr> \<and> enlarges (rt_heap s) h \<and>
     map session_core ss = map session_core (rt_sessions s))"

definition computes_cell :: "'b \<times> 'm inference_runtime \<Rightarrow> 'b \<times> 'm inference_runtime \<Rightarrow> bool" where
  "computes_cell x y \<longleftrightarrow> computes (snd x) (snd y)"

lemma computes_refl: "computes s s"
  unfolding computes_def by (intro exI [of _ "rt_heap s"] exI [of _ "rt_sessions s"]) (simp add: grow.frame_refl)

lemma computes_trans:
  assumes "computes s t" and "computes t u"
  shows "computes s u"
proof -
  obtain h ss where t: "t = s\<lparr>rt_heap := h, rt_sessions := ss\<rparr>" "enlarges (rt_heap s) h"
    "map session_core ss = map session_core (rt_sessions s)" using assms(1) by (auto simp: computes_def)
  obtain k us where u: "u = t\<lparr>rt_heap := k, rt_sessions := us\<rparr>" "enlarges (rt_heap t) k"
    "map session_core us = map session_core (rt_sessions t)" using assms(2) by (auto simp: computes_def)
  have "enlarges (rt_heap s) k" using t(1,2) u(2) grow.frame_trans by simp
  then show ?thesis
    unfolding computes_def using t(1,3) u(1,3) by (intro exI [of _ k] exI [of _ us]) simp
qed

interpretation compute: frame_relation computes
  by unfold_locales (auto intro: computes_refl computes_trans)

interpretation compute_cell: frame_relation computes_cell
  by unfold_locales (auto simp: computes_cell_def intro: computes_refl computes_trans)

lemma computesD:
  assumes inv: "inference_inv s" and c: "computes s s'"
  shows "inference_inv s'" "tensor_view s' = tensor_view s" "tensor_handle s' = tensor_handle s"
    "rt_registry s' = rt_registry s" "heap_extends (rt_heap s) (rt_heap s')"
    "public (rt_heap s) p \<Longrightarrow> public (rt_heap s') p"
    "map session_core (rt_sessions s') = map session_core (rt_sessions s)"
    "rt_modules s' = rt_modules s" "rt_optimizers s' = rt_optimizers s"
    "rt_parameter_optimizers s' = rt_parameter_optimizers s"
proof -
  obtain h ss where s': "s' = s\<lparr>rt_heap := h, rt_sessions := ss\<rparr>" and e: "enlarges (rt_heap s) h"
    and ss: "map session_core ss = map session_core (rt_sessions s)" using c by (auto simp: computes_def)
  have core: "core_inv s" using inv by (simp add: inference_inv_def)
  note h = e [unfolded enlarges_def, rule_format, OF core_invD(1) [OF core]]
  have "extends_runtime s (s\<lparr>rt_heap := h\<rparr>)"
    using h unfolding extends_runtime_def by (intro exI [of _ h]) simp
  note v = extends_runtime_view [OF core this]
  show th: "tensor_handle s' = tensor_handle s" using s' by (simp add: tensor_handle_def fun_eq_iff)
  show "tensor_view s' = tensor_view s"
    using v(2) s' by (simp add: tensor_view_def tensor_handle_def fun_eq_iff)
  have "core_inv s'" using v(1) s' by (simp add: core_inv_def tensor_handle_def)
  then show "inference_inv s'"
    using inv s' arg_cong [OF ss, of length] by (simp add: inference_inv_def)
  show "rt_registry s' = rt_registry s" "heap_extends (rt_heap s) (rt_heap s')"
    "public (rt_heap s) p \<Longrightarrow> public (rt_heap s') p"
    "map session_core (rt_sessions s') = map session_core (rt_sessions s)"
    "rt_modules s' = rt_modules s" "rt_optimizers s' = rt_optimizers s"
    "rt_parameter_optimizers s' = rt_parameter_optimizers s" using s' h ss by simp_all
qed

lemma inference_invD:
  assumes "inference_inv s"
  shows "core_inv s" "registry_inv (rt_registry s)"
    "entry_of (rt_registry s) h = Some e \<Longrightarrow> entry_type e = kInferenceSession \<Longrightarrow>
      entry_object e < length (rt_sessions s)"
  using assms core_invD(2) by (auto simp: inference_inv_def)

lemma inference_invI:
  assumes "core_inv s" and "\<And>h e. entry_of (rt_registry s) h = Some e \<Longrightarrow> entry_type e = kInferenceSession \<Longrightarrow>
      entry_object e < length (rt_sessions s)"
  shows "inference_inv s"
  using assms by (simp add: inference_inv_def)

lemma core_inv_sessions [simp]:
  "core_inv (s\<lparr>rt_sessions := ss\<rparr>) = core_inv s" "tensor_view (s\<lparr>rt_sessions := ss\<rparr>) = tensor_view s"
  "tensor_handle (s\<lparr>rt_sessions := ss\<rparr>) = tensor_handle s"
  by (simp_all add: core_inv_def tensor_view_def tensor_handle_def fun_eq_iff)

lemma inference_inv_error [simp]: "inference_inv (s\<lparr>rt_last_error := m\<rparr>) = inference_inv s"
  by (simp add: inference_inv_def)

lemma computes_heap: "keeps enlarges m \<Longrightarrow> keeps computes (heapE m)"
  unfolding keeps_def computes_def
proof
  fix s :: "'m inference_runtime" assume m: "\<forall>h. enlarges h (snd (m h))"
  show "\<exists>h ss. snd (heapE m s) = s\<lparr>rt_heap := h, rt_sessions := ss\<rparr> \<and> enlarges (rt_heap s) h \<and>
      map session_core ss = map session_core (rt_sessions s)"
    using m by (intro exI [of _ "snd (m (rt_heap s))"] exI [of _ "rt_sessions s"])
      (simp add: heapE_def split: prod.split)
qed

lemma computes_lookup: "keeps computes (LookupSession h)" "keeps computes (LookupTensor h)"
  unfolding LookupSession_def LookupTensor_def
  by (simp_all add: keeps_def registryE_def compute.frame_refl split: prod.split)
    (metis registry_lookup_state snd_conv compute.frame_refl runtime.surjective runtime.update_convs(2))+

lemma computes_session: "keeps computes (session_at i)"
  unfolding session_at_def by (rule compute.keeps_get)

lemma computes_update:
  assumes "\<And>st. session_core (f st) = session_core st"
  shows "keeps computes (update_session i f)"
  unfolding keeps_def update_session_def computes_def
proof
  fix s :: "'a inference_runtime"
  have "map session_core ((rt_sessions s)[i := f (rt_sessions s ! i)]) = map session_core (rt_sessions s)"
    by (cases "i < length (rt_sessions s)") (auto simp: nth_list_update assms list_update_beyond intro!: nth_equalityI)
  then show "\<exists>h ss. snd (modifyE (\<lambda>s. s\<lparr>rt_sessions := (rt_sessions s)[i := f (rt_sessions s ! i)]\<rparr>) s) =
      s\<lparr>rt_heap := h, rt_sessions := ss\<rparr> \<and> enlarges (rt_heap s) h \<and> map session_core ss = map session_core (rt_sessions s)"
    by (intro exI [of _ "rt_heap s"] exI [of _ "(rt_sessions s)[i := f (rt_sessions s ! i)]"])
      (simp add: grow.frame_refl)
qed

lemma cell_runtime_computes: "keeps computes m \<Longrightarrow> keeps computes_cell (runtimeE m)"
  by (auto simp: keeps_def computes_cell_def runtimeE_def split: prod.splits) (metis snd_conv)

lemma cell_out_computes: "keeps computes_cell (set_out v)" "keeps computes_cell (check_out m)"
  unfolding set_out_def check_out_def
  by (auto simp: keeps_def computes_cell_def compute.frame_refl bindE_def checkE_run)

lemmas computes_rules = compute.keeps_all compute.keeps_ort computes_heap computes_lookup computes_session
  keeps_catch_bad_alloc

lemmas computes_cell_rules = compute_cell.keeps_all compute_cell.keeps_ort cell_runtime_computes cell_out_computes

section \<open>The contract of a bridge\<close>

text \<open>What creating a session may do: register one new session, or nothing.\<close>

definition creates_session :: "'m inference_runtime \<Rightarrow>
    (fault + unit) \<times> handle option \<times> 'm inference_runtime \<Rightarrow> bool" where
  "creates_session s x = (case x of (r, out, s') \<Rightarrow>
     inference_inv s' \<and> tensor_view s' = tensor_view s \<and> heap_extends (rt_heap s) (rt_heap s') \<and>
     (case r of
        Inl f \<Rightarrow> out = Some 0 \<and> rt_registry s' = rt_registry s
      | Inr _ \<Rightarrow> \<exists>h i. out = Some h \<and> h \<noteq> 0 \<and> entry_of (rt_registry s) h = None \<and>
          entry_of (rt_registry s') = (entry_of (rt_registry s))
            (h \<mapsto> \<lparr>entry_type = kInferenceSession, entry_refs = 1, entry_object = i\<rparr>)))"

locale inference_bridge =
  fixes B :: "'m bridge"
  assumes cells: "keeps computes_cell (br_IsAvailable B)" "keeps computes_cell (br_ProviderCount B)"
      "keeps computes_cell (br_SessionInputCount B session)" "keeps computes_cell (br_SessionOutputCount B session)"
    and strings: "keeps computes (br_ProviderName B index)" "keeps computes (br_SessionProvider B session)"
      "keeps computes (br_SessionInputName B session index)" "keeps computes (br_SessionOutputName B session index)"
      "keeps computes (br_SessionEndProfiling B session)"
    and runs: "keeps computes (br_SessionRun B session input_names inputs output_names)"
    and results: "inference_inv s \<Longrightarrow> br_SessionRun B session input_names inputs output_names s = (Inr rs, s') \<Longrightarrow>
      \<forall>r \<in> set rs. public (rt_heap s') r"
    and creates: "inference_inv s \<Longrightarrow> creates_session s (br_SessionCreate B path provider prof log_prefix (Some v, s))"
    and releases: "inference_inv s \<Longrightarrow> inference_inv (snd (br_SessionRelease B session s)) \<and>
      tensor_view (snd (br_SessionRelease B session s)) = tensor_view s"

section \<open>Both bridges satisfy the contract\<close>

lemma out_prologue:
  "bindE (check_out m) (\<lambda>_. bindE (set_out v) (\<lambda>_. body)) (Some x, s) = body (Some v, s)"
  by (simp add: check_out_def set_out_def bindE_def checkE_run)

lemma creates_failed:
  assumes "inference_inv s" and "computes s s'"
  shows "creates_session s (Inl f, Some 0, s')"
  using computesD [OF assms] by (simp add: creates_session_def)

interpretation stub: inference_bridge stub_bridge
proof
  fix s :: "'a inference_runtime" and path provider prof log_prefix v
  assume inv: "inference_inv s"
  show "creates_session s (br_SessionCreate stub_bridge path provider prof log_prefix (Some v, s))"
    using creates_failed [OF inv computes_refl]
    by (simp add: stub_bridge_def stub_SessionCreate_def out_prologue failE_run)
qed (simp_all add: stub_bridge_def stub_IsAvailable_def stub_ProviderCount_def stub_SessionInputCount_def
    stub_SessionOutputCount_def stub_ProviderName_def stub_SessionProvider_def stub_SessionInputName_def
    stub_SessionOutputName_def stub_SessionEndProfiling_def stub_SessionRun_def stub_SessionRelease_def failE_run
    compute.keeps_fail compute_cell.keeps_bind compute_cell.keeps_fail cell_out_computes)

lemma keeps_host_inputs: "keeps enlarges (host_inputs ort inputs acc)"
proof (induction inputs arbitrary: acc)
  case Nil
  show ?case by (simp add: grow.keeps_return)
next
  case (Cons x xs)
  have "keeps quietly (TensorToHost r)" for r
    unfolding TensorToHost_def
    by (auto intro!: quiet.keeps_all quiet_request_alloc split: prod.splits)
  then have "keeps enlarges (TensorToHost r)" for r by (rule keeps_grows)
  then show ?case
    by (cases x) (auto intro!: grow.keeps_bind grow.keeps_ort Cons.IH split: prod.splits)
qed

lemma convert_outputs_enlarges: "keeps enlarges (convert_outputs vs [])"
  unfolding keeps_def
proof
  fix h
  obtain res h' where run: "convert_outputs vs [] h = (res, h')" by force
  show "enlarges h (snd (convert_outputs vs [] h))"
  proof (cases "heap_inv h")
    case True
    then show ?thesis using convert_outputs_grows [OF True run] run by simp
  qed (simp add: enlarges_def)
qed

lemma keeps_session_Run: "keeps computes (session_Run ort i inputs names)"
  unfolding session_Run_def
  by (auto intro!: computes_rules computes_update split: prod.splits simp: session_core_def)

lemma enlarges_request: "keeps enlarges request_alloc"
  by (rule keeps_grows [OF quiet_request_alloc])

lemma keeps_run_validated: "keeps computes (run_validated ort i names inputs outs)"
  unfolding run_validated_def
  by (intro keeps_catch_bad_alloc compute.keeps_bind computes_heap enlarges_request keeps_host_inputs
      keeps_session_Run compute.keeps_check convert_outputs_enlarges)

lemma keeps_onnx_SessionRun: "keeps computes (onnx_SessionRun ort session names inputs outs)"
  unfolding onnx_SessionRun_def by (intro computes_rules keeps_run_validated)

text \<open>The tensors of a run are the arrays ONNX Runtime returned.\<close>

lemma run_validated_results:
  assumes inv: "inference_inv s" and run: "run_validated ort i names inputs outs s = (Inr rs, s')"
  shows "\<forall>r \<in> set rs. public (rt_heap s') r" "length rs = length outs"
proof -
  obtain s1 ins s2 vs s3 where 1: "heapE request_alloc s = (Inr (), s1)"
    and 2: "heapE (host_inputs ort (zip inputs names) []) s1 = (Inr ins, s2)"
    and 3: "session_Run ort i ins outs s2 = (Inr vs, s3)" and len: "length vs = length outs"
    and 4: "heapE (convert_outputs vs []) s3 = (Inr rs, s')"
    using run unfolding run_validated_def by (auto simp: checkE_run elim!: bindE_InrE split: if_splits)
  have "inference_inv s3"
    using inv keepsD [OF computes_heap [OF enlarges_request] 1] keepsD [OF computes_heap [OF keeps_host_inputs] 2]
      keepsD [OF keeps_session_Run 3] computesD(1) by blast
  then have hinv: "heap_inv (rt_heap s3)" by (simp add: inference_inv_def core_inv_def)
  obtain h' where h': "convert_outputs vs [] (rt_heap s3) = (Inr rs, h')" "rt_heap s' = h'"
    using 4 by (auto simp: heapE_def split: prod.splits)
  note c = convert_outputs_grows [OF hinv h'(1)]
  show "\<forall>r \<in> set rs. public (rt_heap s') r" using c h'(2) by simp
  obtain new where "rs = [] @ new" "map ort_array vs = map (\<lambda>r. Some (array_of h' r)) new" using c by auto
  then show "length rs = length outs" using len by (metis append_Nil length_map)
qed

lemma onnx_results:
  assumes inv: "inference_inv s" and run: "onnx_SessionRun ort session names inputs outs s = (Inr rs, s')"
  shows "\<forall>r \<in> set rs. public (rt_heap s') r"
proof -
  obtain i s1 where 1: "LookupSession session s = (Inr i, s1)" and 2: "run_validated ort i names inputs outs s1 = (Inr rs, s')"
    using run unfolding onnx_SessionRun_def session_at_def
    by (auto simp: checkE_run elim!: bindE_InrE split: if_splits)
  have "inference_inv s1" using computesD(1) [OF inv] keepsD [OF computes_lookup(1) 1] by blast
  then show ?thesis using run_validated_results(1) 2 by blast
qed

lemma InsertObject_run:
  "InsertObject ty i (Some v, s) = (case registry_insert ty (Some i) (rt_registry s) of
     (Inl f, g) \<Rightarrow> (Inl f, (Some 0, s\<lparr>rt_registry := g\<rparr>))
   | (Inr h, g) \<Rightarrow> (Inr (), (Some h, s\<lparr>rt_registry := g\<rparr>)))"
  by (auto simp: InsertObject_def set_out_def runtimeE_def registryE_def bindE_def
      split: prod.splits sum.splits)

lemma creates_insert:
  fixes s :: "'m inference_runtime"
  assumes inv: "inference_inv s"
  shows "creates_session s (InsertObject kInferenceSession (length (rt_sessions s))
    (Some v, s\<lparr>rt_sessions := rt_sessions s @ [st]\<rparr>))"
proof -
  let ?s = "s\<lparr>rt_sessions := rt_sessions s @ [st]\<rparr>" and ?i = "length (rt_sessions s)"
  have core: "core_inv s" using inv by (simp add: inference_inv_def)
  have inv': "inference_inv ?s"
    using core by (rule inference_invI [of ?s, simplified]) (metis inference_invD(3) [OF inv] less_SucI)
  have view: "tensor_view ?s = tensor_view s" by simp
  obtain r g where ins: "registry_insert kInferenceSession (Some ?i) (rt_registry s) = (r, g)" by force
  show ?thesis
  proof (cases r)
    case (Inl f)
    then have "g = rt_registry s" using registry_insert_Inl_state [OF core_invD(2) [OF core]] ins by blast
    then show ?thesis
      using ins Inl inv' view by (simp add: InsertObject_run creates_session_def ext.frame_refl)
  next
    case (Inr h)
    note ent = entry_of_insert [OF core_invD(2) [OF core] ins [unfolded Inr]]
    have eo: "entry_of g = (entry_of (rt_registry s))
        (h \<mapsto> \<lparr>entry_type = kInferenceSession, entry_refs = 1, entry_object = ?i\<rparr>)" using ent(5) by auto
    let ?t = "?s\<lparr>rt_registry := g\<rparr>"
    have th: "tensor_handle ?t = tensor_handle s"
      using eo ent(4) by (auto simp: tensor_handle_def fun_eq_iff)
    have "registry_inv g"
      using registry_inv_insert [OF core_invD(2) [OF core], of kInferenceSession "Some ?i"] ins by simp
    then have "core_inv ?t" using core th by (simp add: core_inv_def)
    then have "inference_inv ?t"
      using eo inference_invD(3) [OF inv'] by (intro inference_invI) (auto split: if_splits)
    moreover have "tensor_view ?t = tensor_view s" using th by (simp add: tensor_view_def fun_eq_iff)
    moreover have "h \<noteq> 0" using ent(1) core_invD(2) [OF core] by (simp add: registry_inv_def)
    ultimately show ?thesis
      using ins Inr ent(4) eo by (simp add: InsertObject_run creates_session_def ext.frame_refl) blast
  qed
qed

lemma creates_after:
  assumes "inference_inv s" and "computes s t" and "creates_session t x"
  shows "creates_session s x"
  using assms(3) computesD [OF assms(1,2)] ext.frame_trans [of "rt_heap s" "rt_heap t"]
  by (auto simp: creates_session_def split: prod.splits sum.splits)

lemma creates_catch:
  assumes "creates_session s x" and "body c = x"
  shows "creates_session s (catch_bad_alloc message body c)"
  using assms
  by (auto simp: creates_session_def catch_bad_alloc_def split: prod.splits sum.splits fault.splits cxx_exception.splits)

lemma onnx_creates:
  assumes inv: "inference_inv s"
  shows "creates_session s (onnx_SessionCreate ort build path provider prof log_prefix (Some v, s))"
proof (cases "path = []")
  case True
  then show ?thesis
    using creates_failed [OF inv computes_refl] by (simp add: onnx_SessionCreate_def out_prologue)
next
  case False
  let ?S = "SessionState ort build path provider prof log_prefix"
  let ?body = "bindE (runtimeE (heapE request_alloc)) (\<lambda>_.
        bindE (ortE ''onnx_session_create'' ?S) (\<lambda>state.
        bindE (runtimeE (new_session state)) (\<lambda>object. InsertObject kInferenceSession object)))"
  obtain r s1 where al: "heapE request_alloc s = (r, s1)" by force
  have c: "computes s s1" using keepsD [OF computes_heap [OF enlarges_request] al] .
  have inv1: "inference_inv s1" using computesD(1) [OF inv c] .
  have "creates_session s (?body (Some 0, s))"
  proof (cases r)
    case (Inl f)
    then show ?thesis using creates_failed [OF inv c] al by (simp add: runtimeE_def bindE_def)
  next
    case (Inr u)
    show ?thesis
    proof (cases ?S)
      case (Inl e)
      then show ?thesis using creates_failed [OF inv c] al Inr by (simp add: runtimeE_def bindE_def ortE_def statusE_run)
    next
      case (Inr st)
      then show ?thesis
        using creates_after [OF inv c creates_insert [OF inv1, of 0 st]] al \<open>r = Inr u\<close>
        by (simp add: runtimeE_def bindE_def ortE_def statusE_run new_session_def)
    qed
  qed
  then show ?thesis
    using False creates_catch [OF _ refl] by (simp add: onnx_SessionCreate_def out_prologue bindE_check)
qed

lemma release_inference:
  assumes inv: "inference_inv s"
  shows "inference_inv (snd (registryE (registry_release h ty) s))"
    "ty \<noteq> kTensor \<Longrightarrow> tensor_view (snd (registryE (registry_release h ty) s)) = tensor_view s"
proof -
  let ?g = "snd (registry_release h ty (rt_registry s))" and ?t = "snd (registryE (registry_release h ty) s)"
  have t: "?t = s\<lparr>rt_registry := ?g\<rparr>" by (simp add: registryE_def split: prod.split)
  have core: "core_inv s" using inv by (simp add: inference_inv_def)
  have e: "entry_of ?g k = Some e \<Longrightarrow> \<exists>e'. entry_of (rt_registry s) k = Some e' \<and>
      entry_type e' = entry_type e \<and> entry_object e' = entry_object e" for k e
    by (auto simp: entry_of_release split: option.splits if_splits)
  have "tensor_handle s k = Some x" if th: "tensor_handle ?t k = Some x" for k x
  proof -
    obtain e1 where e1: "entry_of ?g k = Some e1" "entry_type e1 = kTensor" "entry_object e1 = x"
      using th t by (auto simp: tensor_handle_def split: option.splits if_splits)
    from e [OF e1(1)] e1 show ?thesis by (auto simp: tensor_handle_def)
  qed
  moreover have "registry_inv ?g" using registry_inv_release [OF core_invD(2) [OF core]] .
  ultimately have "core_inv ?t" using core t by (auto simp: core_inv_def)
  moreover have "entry_object e1 < length (rt_sessions s)"
    if "entry_of ?g k = Some e1" "entry_type e1 = kInferenceSession" for k e1
    using e [OF that(1)] that(2) inference_invD(3) [OF inv] by metis
  ultimately show "inference_inv ?t" using t by (auto simp: inference_inv_def)
  assume ty: "ty \<noteq> kTensor"
  have "tensor_handle ?t = tensor_handle s"
    unfolding t by (auto simp: tensor_handle_def fun_eq_iff entry_of_release ty split: option.splits)
  then show "tensor_view ?t = tensor_view s" using t by (simp add: tensor_view_def fun_eq_iff)
qed

lemma onnx_strings:
  "keeps computes (onnx_ProviderName ort index)" "keeps computes (onnx_SessionProvider session)"
  "keeps computes (onnx_SessionInputName session index)" "keeps computes (onnx_SessionOutputName session index)"
  unfolding onnx_ProviderName_def onnx_SessionProvider_def onnx_SessionInputName_def onnx_SessionOutputName_def
  by (intro computes_rules)+

lemma onnx_end_profiling: "keeps computes (onnx_SessionEndProfiling ort session)"
  unfolding onnx_SessionEndProfiling_def
  by (auto intro!: computes_rules computes_update split: prod.splits simp: session_core_def)

interpretation onnx: inference_bridge "onnx_bridge ort build" for ort build
proof
  show "keeps computes_cell (br_IsAvailable (onnx_bridge ort build))"
    "keeps computes_cell (br_ProviderCount (onnx_bridge ort build))"
    "keeps computes_cell (br_SessionInputCount (onnx_bridge ort build) session)"
    "keeps computes_cell (br_SessionOutputCount (onnx_bridge ort build) session)" for session
    unfolding onnx_bridge_def bridge.simps onnx_IsAvailable_def onnx_ProviderCount_def
      onnx_SessionInputCount_def onnx_SessionOutputCount_def
    by (intro computes_cell_rules computes_rules)+
qed (simp_all add: onnx_bridge_def onnx_strings onnx_end_profiling keeps_onnx_SessionRun onnx_results onnx_creates
    onnx_SessionRelease_def release_inference)

end
