(* ===== verification/Inference_Run.thy ===== *)
theory Inference_Run
  imports Inference_Spec
begin

text \<open>
  What \<open>ts_onnx_session_run\<close> does over any bridge that keeps its contract: the results are registered
  one after the other, and given back when one cannot be registered.
\<close>

section \<open>Registering results\<close>

text \<open>\<open>g\<close> has, beyond the entries of \<open>g0\<close>, one new handle \<open>hs\<close> with one reference for each object \<open>rs\<close>.\<close>

definition registered :: "nat registry \<Rightarrow> nat registry \<Rightarrow> handle list \<Rightarrow> tensor_ref list \<Rightarrow> bool" where
  "registered g0 g hs rs \<longleftrightarrow> registry_inv g \<and> length hs = length rs \<and> distinct hs \<and> 0 \<notin> set hs \<and>
     (\<forall>h \<in> set hs. entry_of g0 h = None) \<and>
     entry_of g = (\<lambda>h. case map_of (zip hs rs) h of
       None \<Rightarrow> entry_of g0 h
     | Some r \<Rightarrow> Some \<lparr>entry_type = kTensor, entry_refs = 1, entry_object = r\<rparr>)"

lemma registered_Nil: "registry_inv g \<Longrightarrow> registered g g [] []"
  by (simp add: registered_def)

lemma registered_insert:
  assumes reg: "registered g0 g hs rs" and ins: "registry_insert kTensor (Some r) g = (Inr h, g')"
  shows "registered g0 g' (hs @ [h]) (rs @ [r])"
proof -
  have inv: "registry_inv g" and len: "length hs = length rs" and d: "distinct hs" and z: "0 \<notin> set hs"
    and new: "\<forall>h \<in> set hs. entry_of g0 h = None"
    and eo: "entry_of g = (\<lambda>h. case map_of (zip hs rs) h of None \<Rightarrow> entry_of g0 h
      | Some r \<Rightarrow> Some \<lparr>entry_type = kTensor, entry_refs = 1, entry_object = r\<rparr>)"
    using reg by (simp_all add: registered_def)
  note ent = entry_of_insert [OF inv ins]
  have none: "map_of (zip hs rs) h = None" "entry_of g0 h = None"
    using ent(4) eo by (auto simp: fun_eq_iff split: option.splits)
  then have h: "h \<notin> set hs" using len by (simp add: map_of_zip_is_None)
  have "entry_of g' = (entry_of g)(h \<mapsto> \<lparr>entry_type = kTensor, entry_refs = 1, entry_object = r\<rparr>)"
    using ent(5) by auto
  moreover have "zip (hs @ [h]) (rs @ [r]) = zip hs rs @ [(h, r)]" using len by simp
  moreover have "map_of (zip hs rs @ [(h, r)]) k = (if k = h then Some r else map_of (zip hs rs) k)" for k
    using none(1) by (simp add: map_add_def split: option.split)
  ultimately have "entry_of g' = (\<lambda>k. case map_of (zip (hs @ [h]) (rs @ [r])) k of None \<Rightarrow> entry_of g0 k
      | Some r \<Rightarrow> Some \<lparr>entry_type = kTensor, entry_refs = 1, entry_object = r\<rparr>)"
    using eo by (simp add: fun_eq_iff)
  moreover have "registry_inv g'" using registry_inv_insert [OF inv, of kTensor "Some r"] ins by simp
  moreover have "h \<noteq> 0" using ent(1) inv by (simp add: registry_inv_def)
  ultimately show ?thesis using len d z new h none(2) by (simp add: registered_def)
qed

lemma registered_release:
  assumes reg: "registered g0 g (h # hs) (r # rs)"
  shows "registered g0 (snd (registry_release h kTensor g)) hs rs"
proof -
  let ?e = "\<lparr>entry_type = kTensor, entry_refs = 1, entry_object = r\<rparr>"
  have inv: "registry_inv g" and len: "length hs = length rs" and d: "distinct (h # hs)" and z: "0 \<notin> set (h # hs)"
    and new: "\<forall>k \<in> set (h # hs). entry_of g0 k = None"
    and eo: "entry_of g = (\<lambda>k. case map_of (zip (h # hs) (r # rs)) k of None \<Rightarrow> entry_of g0 k
      | Some r \<Rightarrow> Some \<lparr>entry_type = kTensor, entry_refs = 1, entry_object = r\<rparr>)"
    using reg by (simp_all add: registered_def)
  have "entry_of g h = Some ?e" using eo by simp
  then have "entry_of (snd (registry_release h kTensor g)) = (entry_of g)(h := None)"
    using z by (simp add: entry_of_release fun_upd_def)
  moreover have "map_of (zip hs rs) h = None" using d len by (simp add: map_of_zip_is_None)
  ultimately have "entry_of (snd (registry_release h kTensor g)) = (\<lambda>k. case map_of (zip hs rs) k of
      None \<Rightarrow> entry_of g0 k | Some r \<Rightarrow> Some \<lparr>entry_type = kTensor, entry_refs = 1, entry_object = r\<rparr>)"
    using eo new by (auto simp: fun_eq_iff)
  then show ?thesis using registry_inv_release [OF inv] len d z new by (simp add: registered_def)
qed

lemma ReleaseInsertedOutputs_registered:
  assumes "registered g0 (rt_registry s) hs rs"
  shows "\<exists>g. ReleaseInsertedOutputs hs s = s\<lparr>rt_registry := g\<rparr> \<and> registry_inv g \<and> entry_of g = entry_of g0"
  using assms
proof (induction hs arbitrary: rs s)
  case Nil
  then show ?case
    by (intro exI [of _ "rt_registry s"]) (auto simp: ReleaseInsertedOutputs_def registered_def)
next
  case (Cons h hs)
  obtain r rs' where rs: "rs = r # rs'" using Cons.prems by (cases rs) (auto simp: registered_def)
  let ?s = "s\<lparr>rt_registry := snd (registry_release h kTensor (rt_registry s))\<rparr>"
  have "registered g0 (rt_registry ?s) hs rs'" using registered_release [OF Cons.prems [unfolded rs]] by simp
  then obtain g where g: "ReleaseInsertedOutputs hs ?s = ?s\<lparr>rt_registry := g\<rparr>" "registry_inv g"
    "entry_of g = entry_of g0" using Cons.IH by blast
  have "h \<noteq> 0" using Cons.prems by (auto simp: registered_def)
  then have "ReleaseInsertedOutputs (h # hs) s = ReleaseInsertedOutputs hs ?s"
    by (simp add: ReleaseInsertedOutputs_def registryE_def split: prod.split)
  then show ?case using g by (intro exI [of _ g]) simp
qed

lemma insert_outputs_post:
  assumes "registered g0 (rt_registry s) hs rs0" and "insert_outputs rs hs s = (res, s')"
  shows "\<exists>g. s' = s\<lparr>rt_registry := g\<rparr> \<and> registry_inv g \<and> (case res of
      Inr ins \<Rightarrow> registered g0 g ins (rs0 @ rs)
    | Inl f \<Rightarrow> entry_of g = entry_of g0)"
  using assms
proof (induction rs arbitrary: hs rs0 s)
  case Nil
  then show ?case
    by (intro exI [of _ "rt_registry s"]) (auto simp: returnE_run registered_def)
next
  case (Cons r rs)
  have inv: "registry_inv (rt_registry s)" using Cons.prems(1) by (simp add: registered_def)
  obtain x g1 where ins: "registry_insert kTensor (Some r) (rt_registry s) = (x, g1)" by force
  show ?case
  proof (cases x)
    case (Inl f)
    have f: "\<exists>st. f = Failed st" using ins Inl by (auto simp: registry_insert_run [OF inv] split: if_splits)
    have g1: "g1 = rt_registry s" using registry_insert_Inl_state [OF inv] ins Inl by blast
    then have "InsertInferenceTensor r s = (Inl f, s)"
      using ins Inl by (simp add: InsertInferenceTensor_def registryE_def)
    then have "res = Inl f" "s' = ReleaseInsertedOutputs hs s" using Cons.prems(2) f by auto
    then show ?thesis using ReleaseInsertedOutputs_registered [OF Cons.prems(1)] by simp
  next
    case (Inr h)
    have "registered g0 (rt_registry (s\<lparr>rt_registry := g1\<rparr>)) (hs @ [h]) (rs0 @ [r])"
      using registered_insert [OF Cons.prems(1)] ins Inr by simp
    moreover have "insert_outputs rs (hs @ [h]) (s\<lparr>rt_registry := g1\<rparr>) = (res, s')"
      using Cons.prems(2) ins Inr by (simp add: InsertInferenceTensor_def registryE_def)
    ultimately obtain g where "s' = s\<lparr>rt_registry := g1, rt_registry := g\<rparr>" "registry_inv g"
      "case res of Inr ins \<Rightarrow> registered g0 g ins ((rs0 @ [r]) @ rs) | Inl f \<Rightarrow> entry_of g = entry_of g0"
      using Cons.IH by blast
    then show ?thesis by (intro exI [of _ g]) (cases res; simp)
  qed
qed

section \<open>A run registers all its outputs or none\<close>

text \<open>The state after a run that registered the handles \<open>ins\<close>.\<close>

definition outputs_added :: "'m inference_runtime \<Rightarrow> 'm inference_runtime \<Rightarrow> handle list \<Rightarrow> bool" where
  "outputs_added s s' ins \<longleftrightarrow> distinct ins \<and>
     (\<forall>h \<in> set ins. h \<noteq> 0 \<and> entry_of (rt_registry s) h = None \<and> tensor_view s' h \<noteq> None) \<and>
     (\<forall>h. h \<notin> set ins \<longrightarrow> entry_of (rt_registry s') h = entry_of (rt_registry s) h \<and>
       tensor_view s' h = tensor_view s h)"

text \<open>A state that shows a client the same handles.\<close>

definition same_handles :: "'m inference_runtime \<Rightarrow> 'm inference_runtime \<Rightarrow> bool" where
  "same_handles s s' \<longleftrightarrow> entry_of (rt_registry s') = entry_of (rt_registry s) \<and> tensor_view s' = tensor_view s"

definition keeps_objects :: "'m inference_runtime \<Rightarrow> 'm inference_runtime \<Rightarrow> bool" where
  "keeps_objects s s' \<longleftrightarrow> heap_extends (rt_heap s) (rt_heap s') \<and> rt_modules s' = rt_modules s \<and>
     rt_optimizers s' = rt_optimizers s \<and> rt_parameter_optimizers s' = rt_parameter_optimizers s \<and>
     map session_core (rt_sessions s') = map session_core (rt_sessions s)"

lemma registered_handles:
  assumes inv: "inference_inv s" and c: "computes s s1" and reg: "registered (rt_registry s) g ins rs"
    and pub: "\<forall>r \<in> set rs. public (rt_heap s1) r"
  shows "inference_inv (s1\<lparr>rt_registry := g\<rparr>)" "outputs_added s (s1\<lparr>rt_registry := g\<rparr>) ins"
proof -
  let ?s = "s1\<lparr>rt_registry := g\<rparr>"
  note d = computesD [OF inv c]
  note i1 = inference_invD [OF d(1)]
  have len: "length ins = length rs" and new: "\<forall>h \<in> set ins. entry_of (rt_registry s) h = None"
    and eo: "entry_of g = (\<lambda>h. case map_of (zip ins rs) h of None \<Rightarrow> entry_of (rt_registry s) h
      | Some r \<Rightarrow> Some \<lparr>entry_type = kTensor, entry_refs = 1, entry_object = r\<rparr>)"
    and g: "registry_inv g" using reg by (simp_all add: registered_def)
  have th: "tensor_handle ?s h = (case map_of (zip ins rs) h of None \<Rightarrow> tensor_handle s h | Some r \<Rightarrow> Some r)" for h
    using eo d(4) by (auto simp: tensor_handle_def split: option.splits)
  have r: "public (rt_heap s1) r" if "map_of (zip ins rs) h = Some r" for h r
    using map_of_SomeD [OF that] pub by (auto dest: set_zip_rightD)
  have "public (rt_heap s1) r" if "tensor_handle ?s h = Some r" for h r
    using that th [of h] r core_invD(3) [OF i1(1), of h] d(3) by (auto split: option.splits)
  then have "core_inv ?s" using g core_invD(1) [OF i1(1)] by (simp add: core_inv_def)
  then show "inference_inv ?s"
    using eo i1(3) d(4) by (intro inference_invI) (auto split: option.splits)
  have inside: "\<exists>r. map_of (zip ins rs) h = Some r" if "h \<in> set ins" for h
    using that len map_of_zip_is_None [of ins rs h] by (cases "map_of (zip ins rs) h") auto
  have outside: "map_of (zip ins rs) h = None" if "h \<notin> set ins" for h
    using that len by (simp add: map_of_zip_is_None)
  have "tensor_view ?s h = tensor_view s h" if "h \<notin> set ins" for h
    using th [of h] outside [OF that] fun_cong [OF d(2), of h] fun_cong [OF d(3), of h] by (simp add: tensor_view_def)
  moreover have "tensor_view ?s h \<noteq> None" if "h \<in> set ins" for h
    using th [of h] inside [OF that] by (auto simp: tensor_view_def)
  moreover have "entry_of g h = entry_of (rt_registry s) h" if "h \<notin> set ins" for h
    using eo outside [OF that] by simp
  ultimately show "outputs_added s ?s ins"
    using reg new by (auto simp: outputs_added_def registered_def)
qed

lemma unregistered_handles:
  assumes inv: "inference_inv s" and c: "computes s s1" and g: "registry_inv g" "entry_of g = entry_of (rt_registry s)"
  shows "inference_inv (s1\<lparr>rt_registry := g\<rparr>)" "same_handles s (s1\<lparr>rt_registry := g\<rparr>)"
proof -
  let ?s = "s1\<lparr>rt_registry := g\<rparr>"
  note d = computesD [OF inv c]
  note i1 = inference_invD [OF d(1)]
  have th: "tensor_handle ?s = tensor_handle s1" using g(2) d(4) by (simp add: tensor_handle_def fun_eq_iff)
  then have "core_inv ?s" using i1(1) g(1) by (simp add: core_inv_def)
  then show "inference_inv ?s" using g(2) d(4) i1(3) by (intro inference_invI) auto
  show "same_handles s ?s" using th g(2) d(2) by (simp add: same_handles_def tensor_view_def fun_eq_iff)
qed

lemma keeps_collect: "keeps computes (foldE xs acc collect_input)" "keeps computes (foldE ys acc' collect_output_name)"
  unfolding collect_input_def collect_output_name_def case_prod_unfold
  by (intro compute.keeps_fold computes_rules)+

context inference_bridge
begin

text \<open>Before the results are registered, nothing a client can name has changed.\<close>

lemma run_outputs_post:
  assumes inv: "inference_inv s" and run: "run_outputs B session ins outs s = (res, s')"
  shows "inference_inv s' \<and> keeps_objects s s' \<and> (case res of
      Inr handles \<Rightarrow> length handles = length outs \<and> outputs_added s s' handles
    | Inl f \<Rightarrow> same_handles s s')"
proof -
  let ?body = "\<lambda>names inputs out_names. br_SessionRun B session names inputs out_names"
  define m where "m = bindE (foldE ins ([], []) collect_input) (\<lambda>(names, inputs).
      bindE (foldE outs [] collect_output_name) (\<lambda>out_names. ?body names inputs out_names))"
  have split: "run_outputs B session ins outs = bindE m (\<lambda>results.
      bindE (checkE (length results = length outs)
        (InternalError ''onnx_session_run: bridge returned unexpected output count'')) (\<lambda>_.
      insert_outputs results []))"
    by (simp add: run_outputs_def m_def bindE_assoc case_prod_unfold)
  have km: "keeps computes m"
    unfolding m_def case_prod_unfold by (intro compute.keeps_bind keeps_collect runs)
  obtain r1 s1 where m: "m s = (r1, s1)" by force
  have c: "computes s s1" using keepsD [OF km m] .
  note d = computesD [OF inv c]
  have objs: "keeps_objects s (s1\<lparr>rt_registry := g\<rparr>)" for g using d by (simp add: keeps_objects_def)
  have reg: "s1\<lparr>rt_registry := rt_registry s\<rparr> = s1" using d(4) by simp
  note quiet = unregistered_handles [OF inv c inference_invD(2) [OF inv] refl, unfolded reg]
  show ?thesis
  proof (cases "\<exists>rs. r1 = Inr rs \<and> length rs = length outs")
    case False
    then have "s' = s1" "\<exists>f. res = Inl f"
      using run m unfolding split by (auto simp: bindE_def checkE_run split: sum.splits if_splits)
    then show ?thesis using quiet objs [of "rt_registry s"] reg by auto
  next
    case True
    then obtain rs where r1: "r1 = Inr rs" "length rs = length outs" by blast
    then have ins: "insert_outputs rs [] s1 = (res, s')" using run m unfolding split by (simp add: bindE_Inr_run)
    obtain s2 names inputs out_names where s2: "computes s s2" "?body names inputs out_names s2 = (Inr rs, s1)"
    proof -
      from m have "bindE (foldE ins ([], []) collect_input) (\<lambda>p. bindE (foldE outs [] collect_output_name)
          (br_SessionRun B session (fst p) (snd p))) s = (Inr rs, s1)" by (simp add: m_def case_prod_unfold r1(1))
      then obtain p t where 1: "foldE ins ([], []) collect_input s = (Inr p, t)"
        and "bindE (foldE outs [] collect_output_name) (br_SessionRun B session (fst p) (snd p)) t = (Inr rs, s1)"
        by (rule bindE_InrE)
      from this(2) obtain out_names u where 2: "foldE outs [] collect_output_name t = (Inr out_names, u)"
        and "br_SessionRun B session (fst p) (snd p) out_names u = (Inr rs, s1)" by (rule bindE_InrE)
      moreover have "computes s u"
        using computes_trans [OF keepsD [OF keeps_collect(1) 1] keepsD [OF keeps_collect(2) 2]] .
      ultimately show ?thesis using that by blast
    qed
    have pub: "\<forall>r \<in> set rs. public (rt_heap s1) r" using results computesD(1) [OF inv s2(1)] s2(2) by blast
    have "registered (rt_registry s) (rt_registry s1) [] []"
      using registered_Nil [OF inference_invD(2) [OF inv]] d(4) by simp
    from insert_outputs_post [OF this ins, unfolded append_Nil] obtain g where g: "s' = s1\<lparr>rt_registry := g\<rparr>" "registry_inv g"
      "case res of Inr handles \<Rightarrow> registered (rt_registry s) g handles rs | Inl f \<Rightarrow> entry_of g = entry_of (rt_registry s)"
      by blast
    show ?thesis
    proof (cases res)
      case (Inl f)
      then show ?thesis using unregistered_handles [OF inv c g(2)] g objs by simp
    next
      case (Inr handles)
      have gr: "registered (rt_registry s) g handles rs" using g(3) Inr by simp
      then have "length handles = length outs" using r1(2) by (simp add: registered_def)
      then show ?thesis using registered_handles [OF inv c gr pub] Inr g(1) objs by simp
    qed
  qed
qed

lemma session_run_post:
  assumes inv: "inference_inv s" and names: "\<And>ns. output_names = Some ns \<Longrightarrow> output_count \<le> length ns"
    and run: "ts_onnx_session_run B session input_names input_tensors input_count output_names output_count
      out_capacity (Some (Some hs, Some w)) s = (code, out', s')"
  shows "inference_inv s' \<and> keeps_objects s s' \<and>
    (if code = Some TS_OK
     then \<exists>ins. length ins = output_count \<and> out' = Some (Some (ins @ drop output_count hs), Some output_count) \<and>
       outputs_added s s' ins
     else same_handles s s' \<and> (\<exists>hs'. out' = Some (Some hs', Some 0)))"
proof -
  let ?s0 = "s\<lparr>rt_last_error := []\<rparr>"
  let ?checks = "\<not> (input_count > 0 \<and> (input_names = None \<or> input_tensors = None)) \<and>
      \<not> (output_count = 0 \<or> output_names = None) \<and> \<not> out_capacity < output_count"
  let ?ins = "if input_count = 0 then []
        else zip (take input_count (the input_names)) (take input_count (the input_tensors))"
  let ?zeroed = "replicate output_count 0 @ drop output_count hs"
  have same0: "keeps_objects s (t\<lparr>rt_last_error := m\<rparr>) = keeps_objects ?s0 t"
    "same_handles s (t\<lparr>rt_last_error := m\<rparr>) = same_handles ?s0 t"
    "outputs_added s (t\<lparr>rt_last_error := m\<rparr>) = outputs_added ?s0 t" for t m
    by (simp_all add: keeps_objects_def same_handles_def outputs_added_def fun_eq_iff)
  have refl0: "keeps_objects ?s0 s" "same_handles ?s0 s"
    by (simp_all add: keeps_objects_def same_handles_def ext.frame_refl)
  show ?thesis
  proof (cases ?checks)
    case False
    then have "code \<noteq> Some TS_OK" "out' = Some (Some hs, Some 0)" "\<exists>m. s' = ?s0\<lparr>rt_last_error := m\<rparr>"
      using run unfolding ts_onnx_session_run_def ts_function_run set_out_def
      by (auto split: if_splits simp: ts_codes)
    then show ?thesis using inv refl0 same0 by auto
  next
    case True
    obtain ns where ns: "output_names = Some ns" using True by auto
    have len: "length (take output_count (the output_names)) = output_count" using names [OF ns] ns by simp
    obtain res s1 where r: "run_outputs B session ?ins (take output_count (the output_names)) ?s0 = (res, s1)" by force
    have inv0: "inference_inv ?s0" using inv by simp
    note post = run_outputs_post [OF inv0 r, unfolded len]
    show ?thesis
    proof (cases res)
      case (Inl f)
      have "code \<noteq> Some TS_OK" "out' = Some (Some ?zeroed, Some 0)" "\<exists>m. s' = s1\<lparr>rt_last_error := m\<rparr>"
        using run True r Inl abi_result_ok_iff [of _ "Inl f"] unfolding ts_onnx_session_run_def ts_function_run set_out_def
        by (auto simp: runtimeE_def bindE_Inl_run)
      then show ?thesis using post Inl same0 by auto
    next
      case (Inr handles)
      have "code = Some TS_OK" "out' = Some (Some (handles @ drop output_count hs), Some (length handles))"
        "s' = s1\<lparr>rt_last_error := []\<rparr>"
        using run True r Inr unfolding ts_onnx_session_run_def ts_function_run set_out_def
        by (auto simp: runtimeE_def bindE_Inr_run)
      then show ?thesis using post Inr same0 by auto
    qed
  qed
qed

end

end
