(* ===== verification/Inference_Properties.thy ===== *)
theory Inference_Properties
  imports Inference_Run
begin

text \<open>
  The properties of inference, with their witnesses on a small runtime and a small ONNX Runtime.
\<close>

section \<open>Inputs of a run\<close>

lemma TensorToHost_run:
  assumes wf: "wf_heap h" and r: "r < length (tensors h)" and plan: "alloc_plan h = []"
    and len: "length (cpu_values (storage_of h (tensor_at h r))) = numel_of (tensor_at h r)"
  shows "TensorToHost r h =
    (Inr (cpu_values (storage_of h (tensor_at h r)), dims_of (tensor_at h r)), h)"
proof -
  note lay = wf_heap_layout [OF wf r]
  then obtain vs where vs: "storage_of h (tensor_at h r) = CpuStorage vs" and dt: "t_dtype (tensor_at h r) = kFloat32"
    by (auto simp: layout_ok_def)
  then show ?thesis
    using plan len by (simp add: TensorToHost_def bindE_Inr_run write_prefix_def returnE_run)
qed

lemma Transpose2D_shares:
  assumes "CpuBackend_Transpose2D r h = (Inr t, h1)"
  shows "storages h1 = storages h" "t_storage (tensor_at h1 t) = t_storage (tensor_at h r)"
proof -
  obtain sh h2 h3 where view: "MakeView sh r h = (Inr t, h2)" and rec: "RecordUnary kTranspose2D r t h2 = (Inr (), h1)"
    using assms unfolding CpuBackend_Transpose2D_def ensure_ref_def
    by (auto simp: checkE_run statusE_run returnE_run elim!: bindE_InrE split: if_splits)
  note v = MakeView_cases [OF view]
  have t: "t = length (tensors h)" and ap: "appends h h2 ((tensor_at h r)\<lparr>t_shape := sh, t_meta := None\<rparr>) [] []"
    using v by auto
  have "storages h1 = storages h2 \<and> t_storage (tensor_at h1 t) = t_storage (tensor_at h2 t)"
  proof (cases "RequiresGrad h2 r")
    case False
    then show ?thesis using rec by (simp add: RecordUnary_def returnE_run)
  next
    case True
    then have "AttachNode t kTranspose2D [r] h2 = (Inr (), h1)" using rec by (simp add: RecordUnary_def)
    then show ?thesis
    proof (cases rule: AttachNode_cases)
      case attached
      then show ?thesis by (cases "t < length (tensors h2)") (auto simp: list_update_beyond split: option.splits)
    qed simp
  qed
  then show "storages h1 = storages h" "t_storage (tensor_at h1 t) = t_storage (tensor_at h r)"
    using ap t by (simp_all add: appends_def)
qed

section \<open>A concrete runtime\<close>

text \<open>Two tensors with handles 1 and 2, and a session with the handle 3 that has one input and two outputs.\<close>

definition demo_session :: "unit session_state" where
  "demo_session = \<lparr>selected_provider = kCpuProvider, ss_session = (), ss_input_names = [''x''],
     ss_output_names = [''y'', ''z''], profiling_enabled = True, profiling_ended = False, profiling_path = []\<rparr>"

definition demo_inference :: "unit inference_runtime" where
  "demo_inference = \<lparr>rt_heap = demo_heap,
     rt_registry = \<lparr>entries = [
         (1, \<lparr>entry_type = kTensor, entry_refs = 1, entry_object = 0\<rparr>),
         (2, \<lparr>entry_type = kTensor, entry_refs = 1, entry_object = 1\<rparr>),
         (3, \<lparr>entry_type = kInferenceSession, entry_refs = 1, entry_object = 0\<rparr>)], next_handle = 4\<rparr>,
     rt_last_error = [], rt_modules = [], rt_optimizers = [], rt_parameter_optimizers = [],
     rt_engine = engine_seed 0, rt_files = (\<lambda>_. None), rt_io_plan = [], rt_sessions = [demo_session]\<rparr>"

text \<open>A runtime whose model returns two scalars, and ends a profile at a fixed path.\<close>

definition demo_ort :: "unit ort_runtime" where
  "demo_ort = \<lparr>ort_GetAvailableProviders = Inr [kCudaProvider, kCpuProvider],
     ort_AppendExecutionProvider = (\<lambda>_. Inr ()), ort_Session = (\<lambda>_ _ _. Inr ()),
     ort_GetInputCount = (\<lambda>_. Inr 1), ort_Input = (\<lambda>_ _. Inr (''x'', ONNX_TENSOR_ELEMENT_DATA_TYPE_FLOAT)),
     ort_GetOutputCount = (\<lambda>_. Inr 1), ort_Output = (\<lambda>_ _. Inr (''y'', ONNX_TENSOR_ELEMENT_DATA_TYPE_FLOAT)),
     ort_CreateTensor = (\<lambda>_ _. Inr ()),
     ort_Run = (\<lambda>m _ names. (Inr (map (\<lambda>_. OrtTensor ONNX_TENSOR_ELEMENT_DATA_TYPE_FLOAT [] 1 (\<lambda>_. f32_one)) names), m)),
     ort_EndProfiling = (\<lambda>m. (Inr ''profile.json'', m))\<rparr>"

definition demo_build :: onnx_build where
  "demo_build = \<lparr>ob_platform = OtherPlatform, ob_with_dml = False, ob_with_coreml = False\<rparr>"

lemma demo_inference_handles: "tensor_handle demo_inference h =
    (if h = 1 then Some 0 else if h = 2 then Some 1 else None)"
  by (simp add: tensor_handle_def demo_inference_def)

lemma demo_inference_inv: "inference_inv demo_inference"
proof (rule inference_invI)
  have "registry_inv (rt_registry demo_inference)" by (simp add: registry_inv_def demo_inference_def)
  moreover have "rt_heap demo_inference = demo_heap" by (simp add: demo_inference_def)
  ultimately show "core_inv demo_inference"
    using demo_heap_inv demo_heap_public by (auto simp: core_inv_def demo_inference_handles split: if_splits)
  show "entry_object e < length (rt_sessions demo_inference)"
    if "entry_of (rt_registry demo_inference) h = Some e" "entry_type e = kInferenceSession" for h e
    using that by (auto simp: demo_inference_def split: if_splits)
qed

lemma LookupSession_run:
  assumes "inference_inv s" and "entry_of (rt_registry s) session = Some e" and "entry_type e = kInferenceSession"
  shows "LookupSession session s = (Inr (entry_object e), s)"
proof -
  have "0 < session" using entry_of_inv [OF inference_invD(2) [OF assms(1)] assms(2)] by simp
  then have "registry_lookup session kInferenceSession (rt_registry s) = (Inr (entry_object e), rt_registry s)"
    using assms registry_lookup_Inr [of session kInferenceSession "rt_registry s" "entry_object e" "rt_registry s"]
    by auto
  then show ?thesis by (simp add: LookupSession_def registryE_def)
qed

lemma onnx_fields [simp]:
  "br_SessionProvider (onnx_bridge ort build) = onnx_SessionProvider"
  "br_SessionEndProfiling (onnx_bridge ort build) = onnx_SessionEndProfiling ort"
  "br_SessionRun (onnx_bridge ort build) = onnx_SessionRun ort"
  by (simp_all add: onnx_bridge_def)

lemma string_function_run:
  assumes "fetch (s\<lparr>rt_last_error := []\<rparr>) = (Inr text, t)" and "rt_last_error t = []"
  shows "string_function operation fetch 0 (Some (buffer, Some n)) s =
      (Some TS_OK, Some (buffer, Some (length text + 1)), t)"
    "length text < capacity \<Longrightarrow> string_function operation fetch capacity (Some (Some buf, Some n)) s =
      (Some TS_OK, Some (Some (text @ NUL # drop (length text + 1) buf), Some (length text + 1)), t)"
proof -
  have t: "t\<lparr>rt_last_error := []\<rparr> = t" using assms(2) by simp
  note defs = string_function_def ts_function_run CopyUtf8String_def Let_def runtimeE_def bindE_Inr_run assms(1)
    set_out_def returnE_run t
  show "string_function operation fetch 0 (Some (buffer, Some n)) s =
      (Some TS_OK, Some (buffer, Some (length text + 1)), t)" by (simp add: defs)
  show "string_function operation fetch capacity (Some (Some buf, Some n)) s =
      (Some TS_OK, Some (Some (text @ NUL # drop (length text + 1) buf), Some (length text + 1)), t)"
    if "length text < capacity" using that by (simp add: defs)
qed

lemma LookupSession_found:
  assumes inv: "inference_inv s" and lk: "LookupSession session s = (Inr i, t)"
  shows "t = s" "i < length (rt_sessions s)"
    "LookupSession session (s\<lparr>rt_sessions := ss\<rparr>) = (Inr i, s\<lparr>rt_sessions := ss\<rparr>)"
proof -
  obtain g where g: "registry_lookup session kInferenceSession (rt_registry s) = (Inr i, g)" "t = s\<lparr>rt_registry := g\<rparr>"
    using lk by (auto simp: LookupSession_def registryE_def split: prod.splits)
  have e: "g = rt_registry s" using registry_lookup_state [of session kInferenceSession "rt_registry s"] g(1) by simp
  then show "t = s" using g(2) by simp
  show "LookupSession session (s\<lparr>rt_sessions := ss\<rparr>) = (Inr i, s\<lparr>rt_sessions := ss\<rparr>)"
    using g(1) e by (simp add: LookupSession_def registryE_def)
  show "i < length (rt_sessions s)"
    using g(1) inference_invD(3) [OF inv] registry_lookup_Inr [of session kInferenceSession "rt_registry s" i g] by auto
qed

lemma resolve_candidates_agree:
  assumes "\<forall>p. List.member configurable p = CanConfigureProvider build p"
  shows "case ResolveAutoProvider_loop build available candidates of
      Inr p \<Rightarrow> resolve_candidates available configurable candidates = Inr p
    | Inl e \<Rightarrow> \<exists>st. resolve_candidates available configurable candidates = Inl st \<and>
        status_code st = status_code (OrtFailure operation e)"
  using assms
  by (induction candidates) (auto simp: ort_throw_def OrtFailure_def Let_def ContainsProvider_def
      IsProviderAvailable_def split: sum.splits)

lemma demo_parts:
  "rt_sessions demo_inference ! 0 = demo_session" "rt_heap demo_inference = demo_heap"
  by (simp_all add: demo_inference_def)

lemma OrtTensor_ok:
  assumes "alloc_plan h = []" and "valid_dims (map sint shape)" and "unat count = dims_prod (map sint shape)"
  shows "\<exists>r h'. OrtValueToTensor (OrtTensor ONNX_TENSOR_ELEMENT_DATA_TYPE_FLOAT shape count memory) h = (Inr r, h') \<and>
    alloc_plan h' = []"
proof -
  let ?vs = "map memory [0..<unat count]"
  have fd: "CpuStorage_FromData (Some ?vs) (unat count) h =
      (Inr (length (storages h)), h\<lparr>storages := storages h @ [CpuStorage ?vs]\<rparr>)"
    using CpuStorage_FromData_ok [OF assms(1), of "?vs" "unat count"] by simp
  have "alloc_plan (h\<lparr>storages := storages h @ [CpuStorage ?vs]\<rparr>) = []" using assms(1) by simp
  then obtain r h' where new: "new_cpu_tensor (canonical_shape (map sint shape)) (length (storages h))
      (h\<lparr>storages := storages h @ [CpuStorage ?vs]\<rparr>) = (Inr r, h')" "alloc_plan h' = []"
    unfolding new_cpu_tensor_def using new_tensor_ok by blast
  have "ValidateShape (dims_pointer (map sint shape)) (length shape) = Inr (canonical_shape (map sint shape))"
    using ValidateShape_pointer [OF assms(2)] by simp
  then show ?thesis
    using assms(1,3) fd new by (simp add: OrtValueToTensor_def bindE_Inr_run)
qed

lemma demo_run_ok:
  "fst (ts_onnx_session_run (onnx_bridge demo_ort demo_build) 3 (Some [Some ''x'']) (Some [1]) 1
      (Some [Some ''y'', Some ''z'']) 2 2 (Some (Some [7, 7, 7], Some 9)) demo_inference) = Some TS_OK"
proof -
  let ?s = demo_inference and ?v = "OrtTensor ONNX_TENSOR_ELEMENT_DATA_TYPE_FLOAT [] 1 (\<lambda>_. f32_one)"
  have s: "?s\<lparr>rt_last_error := []\<rparr> = ?s" by (simp add: demo_inference_def)
  have e: "entry_of (rt_registry ?s) 3 = Some \<lparr>entry_type = kInferenceSession, entry_refs = 1, entry_object = 0\<rparr>"
    by (simp add: demo_inference_def)
  have lt: "LookupTensor 1 ?s = (Inr 0, ?s)"
    by (simp add: LookupTensor_def registryE_def registry_lookup_run find_entry_run demo_inference_def)
  have ls: "LookupSession 3 ?s = (Inr 0, ?s)" using LookupSession_run [OF demo_inference_inv e] by simp
  have th: "TensorToHost 0 demo_heap = (Inr (demo_values, [2, 3]), demo_heap)"
    using TensorToHost_run [OF demo_heap_wf, of 0] by simp
  have d: "valid_dims []" "unat (1 :: 64 word) = dims_prod []"
    by (simp_all add: valid_dims_def kMaxTensorRank_def max_numel_def dims_prod_def)
  obtain r1 h1 r2 h2 where "OrtValueToTensor ?v demo_heap = (Inr r1, h1)" "OrtValueToTensor ?v h1 = (Inr r2, h2)"
    using OrtTensor_ok [of demo_heap "[]" 1 "\<lambda>_. f32_one"] OrtTensor_ok [of _ "[]" 1 "\<lambda>_. f32_one"] d by fastforce
  then have co: "convert_outputs [?v, ?v] [] demo_heap = (Inr [r1, r2], h2)" by (simp add: bindE_Inr_run returnE_run)
  have up: "update_session 0 (\<lambda>st. st\<lparr>ss_session := ()\<rparr>) ?s = (Inr (), ?s)"
    by (simp add: update_session_def demo_inference_def)
  have sr: "session_Run demo_ort 0 [(''x'', [2, 3], demo_values)] [''y'', ''z''] ?s = (Inr [?v, ?v], ?s)"
    using up by (simp add: session_Run_def session_at_def demo_ort_def bindE_Inr_run ortE_def statusE_run)
  have hi: "host_inputs demo_ort [(0, ''x'')] [] demo_heap = (Inr [(''x'', [2, 3], demo_values)], demo_heap)"
    using th by (simp add: bindE_Inr_run returnE_run ortE_def demo_ort_def statusE_run)
  have 1: "heapE request_alloc ?s = (Inr (), ?s)"
    by (simp add: heapE_def demo_inference_def)
  have 2: "heapE (host_inputs demo_ort [(0, ''x'')] []) ?s = (Inr [(''x'', [2, 3], demo_values)], ?s)"
    using hi by (simp del: host_inputs.simps add: heapE_def demo_inference_def)
  have 3: "heapE (convert_outputs [?v, ?v] []) ?s = (Inr [r1, r2], ?s\<lparr>rt_heap := h2\<rparr>)"
    using co demo_parts by (simp del: convert_outputs.simps add: heapE_def)
  have rv: "run_validated demo_ort 0 [''x''] [0] [''y'', ''z''] ?s = (Inr [r1, r2], ?s\<lparr>rt_heap := h2\<rparr>)"
    unfolding run_validated_def
    using 1 2 sr 3 by (simp del: host_inputs.simps convert_outputs.simps add: catch_bad_alloc_def bindE_Inr_run checkE_run)
  have sess: "onnx_SessionRun demo_ort 3 [''x''] [0] [''y'', ''z''] ?s = (Inr [r1, r2], ?s\<lparr>rt_heap := h2\<rparr>)"
    using ls rv demo_parts by (simp add: onnx_SessionRun_def bindE_Inr_run session_at_def demo_session_def)
  have "\<exists>hs t. insert_outputs [r1, r2] [] (?s\<lparr>rt_heap := h2\<rparr>) = (Inr hs, t)"
    by (simp add: InsertInferenceTensor_def registryE_def registry_insert_def demo_inference_def bindE_Inr_run
        ValidateNextHandle_def emplace_def ValidateInsertion_def statusE_run returnE_run exec_simps)
  then have "\<exists>hs t. run_outputs (onnx_bridge demo_ort demo_build) 3 [(Some ''x'', 1)] [Some ''y'', Some ''z''] ?s = (Inr hs, t)"
    using sess by (simp add: run_outputs_def collect_input_def collect_output_name_def bindE_Inr_run lt returnE_run)
  then show ?thesis
    unfolding ts_onnx_session_run_def ts_function_run set_out_def s
    by (auto simp: runtimeE_def bindE_Inr_run numeral_2_eq_2)
qed

section \<open>Properties\<close>

text \<open>C13: Running a session is all or nothing for the client.  When the call returns OK, all outputs
  are registered under new handles, which are written to the caller's array with their number; when it
  returns anything else, the client's handles and tensors are as before, even if some results had
  already been registered, and the reported number of outputs is zero.  In every case modules,
  optimizers and the descriptions of sessions are untouched.\<close>

theorem session_run_all_or_nothing:
  assumes "inference_inv s" and "\<And>ns. output_names = Some ns \<Longrightarrow> output_count \<le> length ns"
    and "ts_onnx_session_run (onnx_bridge ort build) session input_names input_tensors input_count output_names
      output_count out_capacity (Some (Some hs, Some w)) s = (code, out', s')"
  shows "inference_inv s' \<and> keeps_objects s s' \<and>
    (if code = Some TS_OK
     then \<exists>ins. length ins = output_count \<and> out' = Some (Some (ins @ drop output_count hs), Some output_count) \<and>
       outputs_added s s' ins
     else same_handles s s' \<and> (\<exists>hs'. out' = Some (Some hs', Some 0)))"
  by (rule onnx.session_run_post [OF assms])

theorem session_run_all_or_nothing_witness:
  "\<exists>ins s'. ts_onnx_session_run (onnx_bridge demo_ort demo_build) 3 (Some [Some ''x'']) (Some [1]) 1
      (Some [Some ''y'', Some ''z'']) 2 2 (Some (Some [7, 7, 7], Some 9)) demo_inference =
        (Some TS_OK, Some (Some (ins @ [7]), Some 2), s') \<and>
    length ins = 2 \<and> inference_inv s' \<and> keeps_objects demo_inference s' \<and> outputs_added demo_inference s' ins"
proof -
  obtain out' s' where run: "ts_onnx_session_run (onnx_bridge demo_ort demo_build) 3 (Some [Some ''x'']) (Some [1]) 1
      (Some [Some ''y'', Some ''z'']) 2 2 (Some (Some [7, 7, 7], Some 9)) demo_inference = (Some TS_OK, out', s')"
    using demo_run_ok by (metis prod.collapse)
  have "2 \<le> length ns" if "Some [Some ''y'', Some ''z''] = Some ns" for ns :: "string option list" using that by auto
  note r = session_run_all_or_nothing [OF demo_inference_inv this run]
  have "drop 2 [7, 7, 7 :: handle] = [7]" by simp
  then show ?thesis using run r by auto
qed

text \<open>C23: An input of a run is read in the order of its storage, not in its logical order: the ONNX
  Runtime bridge hands the transpose of a contiguous matrix over with the transposed dimensions but
  with the values of the matrix itself, while the library's own view of the tensor has the transposed
  values.\<close>

theorem onnx_input_ignores_transposition:
  assumes "wf_heap h" and "r < length (tensors h)" and "alloc_plan h = []"
    and "dims_of (tensor_at h r) = [R, C]" and "is_contiguous (tensor_at h r)" and "t_offset (tensor_at h r) = 0"
    and "length (cpu_values (storage_of h (tensor_at h r))) = numel_of (tensor_at h r)"
    and "CpuBackend_Transpose2D r h = (Inr t, h1)"
  shows "fst (TensorToHost t h1) = Inr (logical_values h (tensor_at h r), [C, R]) \<and>
    logical_values h1 (tensor_at h1 t) = transpose_values (nat R) (nat C) (logical_values h (tensor_at h r))"
proof -
  note y = Transpose2D_yields [OF assms(1,2), unfolded assms(8)]
  have t: "t = length (tensors h)" using yieldsD(4) [OF y refl] .
  have mk: "makes_tensor h [r] (swap01 (dims_of (tensor_at h r))) (transpose_result h r)
      (record_meta h kTranspose2D [r]) h1" using yieldsD(5) [OF y refl] .
  then have d: "dims_of (tensor_at h1 t) = [C, R]" and v: "logical_values h1 (tensor_at h1 t) = transpose_result h r"
    and lt: "t < length (tensors h1)"
    using t assms(4) by (simp_all add: makes_tensor_def new_tensor_at_def)
  note sh = Transpose2D_shares [OF assms(8)]
  note lay = wf_heap_layout [OF assms(1,2)] and lay1 = wf_heap_layout [OF yieldsD(1) [OF y] lt]
  obtain vs where vs: "storage_of h (tensor_at h r) = CpuStorage vs" using lay by (auto simp: layout_ok_def)
  have lv: "logical_values h (tensor_at h r) = vs"
    using contiguous_logical_values [OF lay assms(5,6) vs] assms(7) vs by simp
  have n: "numel_of (tensor_at h1 t) = numel_of (tensor_at h r)"
    using layout_ok_numel [OF lay] layout_ok_numel [OF lay1] d assms(4) by (simp add: dims_prod_def mult.commute)
  have "alloc_plan h1 = []"
    using Transpose2D_succeeds [OF assms(1,3,2)] assms(4,8) by (simp add: succeeds_def)
  then have "TensorToHost t h1 = (Inr (cpu_values (storage_of h1 (tensor_at h1 t)), [C, R]), h1)"
    using TensorToHost_run [OF yieldsD(1) [OF y] lt] sh assms(7) n d by simp
  then show ?thesis using sh vs lv v assms(4) by (simp add: transpose_result_def)
qed

theorem onnx_input_ignores_transposition_witness:
  "\<exists>t h1. CpuBackend_Transpose2D 0 demo_heap = (Inr t, h1) \<and>
    fst (TensorToHost t h1) = Inr (demo_values, [3, 2]) \<and>
    logical_values h1 (tensor_at h1 t) = transpose_values 2 3 demo_values \<and>
    transpose_values 2 3 demo_values \<noteq> demo_values"
proof -
  have lv: "logical_values demo_heap (tensor_at demo_heap 0) = demo_values"
    using contiguous_logical_values [OF wf_heap_layout [OF demo_heap_wf], of 0 demo_values]
    by (simp add: is_contiguous_def row_major_def)
  have "succeeds (CpuBackend_Transpose2D 0) demo_heap" by (rule Transpose2D_succeeds [OF demo_heap_wf]) simp_all
  then obtain t h1 where run: "CpuBackend_Transpose2D 0 demo_heap = (Inr t, h1)" by (auto simp: succeeds_def)
  have ne: "transpose_values 2 3 demo_values \<noteq> demo_values"
    by code_simp
  have "fst (TensorToHost t h1) = Inr (logical_values demo_heap (tensor_at demo_heap 0), [3, 2]) \<and>
      logical_values h1 (tensor_at h1 t) = transpose_values (nat 2) (nat 3) (logical_values demo_heap (tensor_at demo_heap 0))"
    by (rule onnx_input_ignores_transposition [OF demo_heap_wf _ _ _ _ _ _ run])
      (simp_all add: is_contiguous_def row_major_def)
  then show ?thesis using run ne lv by simp
qed


text \<open>C28: Strings are delivered in two calls: with capacity zero a call only reports the size the string
  needs with its terminator, and with a buffer of at least that capacity it writes the string and the
  terminator and leaves the rest of the buffer alone.\<close>

theorem session_provider_two_phase:
  assumes "inference_inv s" and "entry_of (rt_registry s) session = Some e" and "entry_type e = kInferenceSession"
    and "rt_sessions s ! entry_object e = st" and "length (selected_provider st) < capacity"
  shows "ts_onnx_session_provider (onnx_bridge ort build) session 0 (Some (None, Some n)) s =
      (Some TS_OK, Some (None, Some (length (selected_provider st) + 1)), s\<lparr>rt_last_error := []\<rparr>) \<and>
    ts_onnx_session_provider (onnx_bridge ort build) session capacity (Some (Some buf, Some n)) s =
      (Some TS_OK, Some (Some (selected_provider st @ NUL # drop (length (selected_provider st) + 1) buf),
        Some (length (selected_provider st) + 1)), s\<lparr>rt_last_error := []\<rparr>)"
proof -
  have "inference_inv (s\<lparr>rt_last_error := []\<rparr>)" using assms(1) by simp
  from LookupSession_run [OF this, of session e] assms(2-4)
  have r: "onnx_SessionProvider session (s\<lparr>rt_last_error := []\<rparr>) = (Inr (selected_provider st), s\<lparr>rt_last_error := []\<rparr>)"
    by (simp add: onnx_SessionProvider_def bindE_Inr_run session_at_def returnE_run)
  have e: "rt_last_error (s\<lparr>rt_last_error := []\<rparr>) = []" by simp
  show ?thesis
    unfolding ts_onnx_session_provider_def onnx_fields
    by (intro conjI string_function_run(1) [where fetch = "onnx_SessionProvider session" and s = s, OF r e]
      string_function_run(2) [where fetch = "onnx_SessionProvider session" and s = s, OF r e assms(5)])
qed

theorem session_provider_two_phase_witness:
  "ts_onnx_session_provider (onnx_bridge demo_ort demo_build) 3 0 (Some (None, Some 0)) demo_inference =
      (Some TS_OK, Some (None, Some 21), demo_inference) \<and>
    ts_onnx_session_provider (onnx_bridge demo_ort demo_build) 3 22 (Some (Some (replicate 22 CHR ''-''), Some 0)) demo_inference =
      (Some TS_OK, Some (Some (kCpuProvider @ [NUL, CHR ''-'']), Some 21), demo_inference)"
proof -
  have e: "entry_of (rt_registry demo_inference) 3 = Some \<lparr>entry_type = kInferenceSession, entry_refs = 1, entry_object = 0\<rparr>"
    by (simp add: demo_inference_def)
  have s: "rt_sessions demo_inference ! 0 = demo_session" "demo_inference\<lparr>rt_last_error := []\<rparr> = demo_inference"
    by (simp_all add: demo_inference_def)
  have l: "selected_provider demo_session = kCpuProvider" "length kCpuProvider = 20"
    by (simp_all add: demo_session_def kCpuProvider_def)
  show ?thesis
    using session_provider_two_phase [OF demo_inference_inv e _ _, of demo_session 22 demo_ort demo_build 0
      "replicate 22 CHR ''-''"] s l by simp
qed

text \<open>C29: Ending a profile is idempotent: once a call has returned the path of a session's profile, every
  later call returns the same path and changes nothing, without asking ONNX Runtime again.\<close>

theorem end_profiling_idempotent:
  assumes "inference_inv s"
    and "onnx_SessionEndProfiling ort session s = (Inr path, s1)"
  shows "onnx_SessionEndProfiling ort' session s1 = (Inr path, s1)"
proof -
  obtain i t where lk: "LookupSession session s = (Inr i, t)"
    using assms(2) by (auto simp: onnx_SessionEndProfiling_def elim!: bindE_InrE)
  note f = LookupSession_found [OF assms(1) lk]
  let ?st = "rt_sessions s ! i"
  have en: "profiling_enabled ?st"
    using assms(2) lk f by (auto simp: onnx_SessionEndProfiling_def bindE_Inr_run session_at_def split: if_splits)
  show ?thesis
  proof (cases "profiling_ended ?st")
    case True
    then have a: "s1 = s" "path = profiling_path ?st"
      using assms(2) lk f en by (auto simp: onnx_SessionEndProfiling_def bindE_Inr_run session_at_def returnE_run)
    have "onnx_SessionEndProfiling ort' session s = (Inr (profiling_path ?st), s)"
      using True lk f en by (simp add: onnx_SessionEndProfiling_def bindE_Inr_run session_at_def returnE_run)
    then show ?thesis using a by simp
  next
    case False
    obtain x m where e: "ort_EndProfiling ort (ss_session ?st) = (x, m)" by force
    let ?new = "?st\<lparr>ss_session := m, profiling_path := path, profiling_ended := True\<rparr>"
    have s1: "s1 = s\<lparr>rt_sessions := (rt_sessions s)[i := ?new]\<rparr>"
      using assms(2) lk f en False e
      by (cases x) (simp_all add: onnx_SessionEndProfiling_def bindE_Inr_run session_at_def update_session_def
          ortE_def statusE_run returnE_run bindE_Inl_run)
    have "LookupSession session s1 = (Inr i, s1)" unfolding s1 by (rule f(3))
    then show ?thesis
      using f(2) en s1 by (simp add: onnx_SessionEndProfiling_def bindE_Inr_run session_at_def returnE_run)
  qed
qed

theorem end_profiling_idempotent_witness:
  "\<exists>s1. onnx_SessionEndProfiling demo_ort 3 demo_inference = (Inr ''profile.json'', s1) \<and>
    onnx_SessionEndProfiling demo_ort 3 s1 = (Inr ''profile.json'', s1)"
proof -
  have e: "entry_of (rt_registry demo_inference) 3 = Some \<lparr>entry_type = kInferenceSession, entry_refs = 1, entry_object = 0\<rparr>"
    by (simp add: demo_inference_def)
  have s: "rt_sessions demo_inference ! 0 = demo_session" by (simp add: demo_inference_def)
  have "fst (onnx_SessionEndProfiling demo_ort 3 demo_inference) = Inr ''profile.json''"
    using LookupSession_run [OF demo_inference_inv e] s
    by (simp add: onnx_SessionEndProfiling_def bindE_Inr_run session_at_def demo_session_def demo_ort_def
        update_session_def ortE_def returnE_run)
  then obtain s1 where "onnx_SessionEndProfiling demo_ort 3 demo_inference = (Inr ''profile.json'', s1)"
    by (metis prod.collapse)
  then show ?thesis using end_profiling_idempotent [OF demo_inference_inv] by blast
qed

text \<open>C27: The provider the bridge chooses is the one the policy of \<open>onnx_policy.h\<close> chooses over the
  available providers, the providers this build can configure and the platform's candidates; where
  the bridge fails, the policy fails with a status of the same code.\<close>

theorem provider_policies_agree:
  assumes "ort_GetAvailableProviders ort = Inr available"
    and "\<forall>p. List.member configurable p = CanConfigureProvider build p"
  shows "case ResolveProvider ort build requested of
      Inr p \<Rightarrow> ResolveProviderFromSnapshot requested available configurable
        (auto_candidates (ob_platform build)) = Inr p
    | Inl e \<Rightarrow> \<exists>st. ResolveProviderFromSnapshot requested available configurable
        (auto_candidates (ob_platform build)) = Inl st \<and> status_code st = status_code (OrtFailure operation e)"
proof -
  have k: "policy_IsKnownProvider p = IsKnownProvider p" for p
    by (simp add: policy_IsKnownProvider_def IsKnownProvider_def provider_names)
  have auto: "kAutoProvider = ''auto''" by (simp add: kAutoProvider_def)
  have codes: "status_code (OrtFailure operation \<lparr>ort_code = ORT_INVALID_ARGUMENT, ort_what = w\<rparr>) = TS_INVALID_ARGUMENT"
    "status_code (OrtFailure operation \<lparr>ort_code = ORT_NOT_IMPLEMENTED, ort_what = w\<rparr>) = TS_UNSUPPORTED" for w
    by (simp_all add: OrtFailure_def Let_def)
  show ?thesis
  proof (cases "requested = ''auto''")
    case True
    then have eq: "ResolveProviderFromSnapshot requested available configurable =
        resolve_candidates available configurable"
      by (simp add: ResolveProviderFromSnapshot_def k auto IsKnownProvider_def fun_eq_iff)
    show ?thesis
      unfolding eq using assms(1) True resolve_candidates_agree [OF assms(2), of available "auto_candidates (ob_platform build)" operation]
      by (simp add: ResolveProvider_def auto ResolveAutoProvider_def IsKnownProvider_def)
  next
    case False
    then show ?thesis
      using assms codes
      by (auto simp: ResolveProvider_def ResolveProviderFromSnapshot_def k auto ContainsProvider_def
          IsProviderAvailable_def ort_throw_def)
  qed
qed

theorem provider_policies_agree_witness:
  "case ResolveProvider demo_ort demo_build ''CPUExecutionProvider'' of
      Inr p \<Rightarrow> ResolveProviderFromSnapshot ''CPUExecutionProvider'' [kCudaProvider, kCpuProvider]
        [kCpuProvider, kCudaProvider, kOpenVinoProvider, kMiGraphXProvider]
        (auto_candidates (ob_platform demo_build)) = Inr p
    | Inl e \<Rightarrow> \<exists>st. ResolveProviderFromSnapshot ''CPUExecutionProvider'' [kCudaProvider, kCpuProvider]
        [kCpuProvider, kCudaProvider, kOpenVinoProvider, kMiGraphXProvider]
        (auto_candidates (ob_platform demo_build)) = Inl st \<and> status_code st = status_code (OrtFailure [] e)"
  by (rule provider_policies_agree)
    (auto simp: demo_ort_def demo_build_def CanConfigureProvider_def)

end
