(* ===== verification/Checkpoint_Codec.thy ===== *)
theory Checkpoint_Codec
  imports Training_Laws
begin

text \<open>
  The checkpoint format: what a module is written as, and that the reader gives back what was
  written.  An encoding with its reader is a \<open>codec\<close>; the scalars, the dimensions, the payload of
  a tensor and the whole file are interpretations of it.
\<close>

section \<open>Codecs\<close>

locale codec =
  fixes encode :: "'a \<Rightarrow> byte list" and reader :: "'a reader" and ok :: "'a \<Rightarrow> bool"
  assumes read_encode: "ok x \<Longrightarrow> reader (encode x @ rest) = (Inr x, rest)"
begin

lemma read_whole: "ok x \<Longrightarrow> reader (encode x) = (Inr x, [])"
  using read_encode [of x "[]"] by simp

lemma read_then: "ok x \<Longrightarrow> bindE reader f (encode x @ rest) = f x rest"
  by (simp add: bindE_Inr_run read_encode)

lemma encode_unique:
  assumes "ok x" and "ok y" and "encode x @ rest = encode y @ rest'"
  shows "x = y \<and> rest = rest'"
  using read_encode [OF assms(1), of rest] read_encode [OF assms(2), of rest'] assms(3)
  by (metis prod.inject sum.inject(2))

end

text \<open>A reader that accepts nothing but encodings.\<close>

locale exact_codec = codec +
  assumes encode_read: "reader bs = (Inr x, rest) \<Longrightarrow> bs = encode x @ rest"
begin

lemma accepts_iff: "ok x \<Longrightarrow> reader bs = (Inr x, rest) \<longleftrightarrow> bs = encode x @ rest"
  using read_encode encode_read by metis

end

section \<open>Scalars\<close>

lemma length_le_bytes [simp]: "length (le_bytes n v) = n"
  by (induction n arbitrary: v) simp_all

lemma le_value_le_bytes: "v < 256 ^ n \<Longrightarrow> le_value (le_bytes n v) = v"
proof (induction n arbitrary: v)
  case (Suc n)
  have "v < 256 ^ n * 256" using Suc.prems by (simp only: power_Suc mult.commute)
  then have "le_value (le_bytes n (v div 256)) = v div 256"
    by (intro Suc.IH less_mult_imp_div_less)
  moreover have "unat (of_nat (v mod 256) :: 8 word) = v mod 256" by (simp add: unat_of_nat)
  ultimately show ?case by simp
qed simp

lemma le_bytes_le_value: "le_bytes (length bs) (le_value bs) = bs"
proof (induction bs)
  case (Cons b bs)
  have b: "unat b < 256" using unsigned_less [where 'a = nat, of b] by simp
  then have "(unat b + 256 * le_value bs) mod 256 = unat b" "(unat b + 256 * le_value bs) div 256 = le_value bs"
    by simp_all
  then show ?case using Cons by simp
qed simp

interpretation scalar: exact_codec "le_bytes n" "ReadScalar n st" "\<lambda>v. v < 256 ^ n" for n st
proof unfold_locales
  fix bs rest v assume "ReadScalar n st bs = (Inr v, rest)"
  then have r: "n \<le> length bs" "v = le_value (take n bs)" "rest = drop n bs" by (simp_all add: ReadScalar_Inr)
  then have "le_bytes n v = take n bs" using le_bytes_le_value [of "take n bs"] by simp
  then show "bs = le_bytes n v @ rest" using r(3) by simp
qed (simp add: ReadScalar_Inr le_value_le_bytes)

lemma i64_round_trip: "- (2 ^ 63) \<le> d \<Longrightarrow> d < 2 ^ 63 \<Longrightarrow> u64_to_i64 (i64_to_u64 d) = d"
proof (cases "0 \<le> d")
  case False
  assume "- (2 ^ 63) \<le> d" "d < 2 ^ 63"
  moreover have "d mod 2 ^ 64 = (d + 2 ^ 64) mod 2 ^ 64" by simp
  moreover have "(d + 2 ^ 64) mod 2 ^ 64 = d + 2 ^ 64"
    using False \<open>- (2 ^ 63) \<le> d\<close> by (intro mod_pos_pos_trivial) simp_all
  ultimately have "d mod 2 ^ 64 = d + 2 ^ 64" by argo
  then show ?thesis using False \<open>- (2 ^ 63) \<le> d\<close> by (simp add: u64_to_i64_def i64_to_u64_def nat_less_iff)
qed (simp add: u64_to_i64_def i64_to_u64_def nat_less_iff)

lemma i64_to_u64_bound: "i64_to_u64 d < 256 ^ 8"
  by (simp add: i64_to_u64_def nat_less_iff)

lemma u64_round_trip: "v < 256 ^ 8 \<Longrightarrow> i64_to_u64 (u64_to_i64 v) = v"
proof (cases "v < 2 ^ 63")
  case False
  assume "v < 256 ^ 8"
  moreover have "(int v - 2 ^ 64) mod 2 ^ 64 = int v mod 2 ^ 64" by simp
  ultimately show ?thesis using False by (simp add: u64_to_i64_def i64_to_u64_def)
qed (simp add: u64_to_i64_def i64_to_u64_def)

definition dimensions_bytes :: "int list \<Rightarrow> byte list" where
  "dimensions_bytes d = concat (map (\<lambda>x. le_bytes 8 (i64_to_u64 x)) d)"

lemma read_dimensions_bytes:
  "i64_array d \<Longrightarrow> read_dimensions (length d) (dimensions_bytes d @ rest) = (Inr d, rest)"
proof (induction d)
  case Nil
  then show ?case by (simp add: dimensions_bytes_def returnE_run)
next
  case (Cons x d)
  then have x: "u64_to_i64 (i64_to_u64 x) = x" and "i64_array d"
    using i64_round_trip [of x] by (simp_all add: i64_array_def)
  then show ?case
    using Cons.IH
    by (simp add: scalar.read_then [OF i64_to_u64_bound [of x]] dimensions_bytes_def bindE_Inr_run returnE_run)
qed

lemma dimensions_bytes_read:
  "read_dimensions n bs = (Inr d, rest) \<Longrightarrow> bs = dimensions_bytes d @ rest \<and> length d = n"
proof (induction n arbitrary: bs d rest)
  case (Suc n)
  then obtain v bs1 e where v: "ReadScalar 8 (InternalError ''module_load: truncated tensor shape'') bs = (Inr v, bs1)"
    and e: "read_dimensions n bs1 = (Inr e, rest)" "d = u64_to_i64 v # e"
    by (auto simp: returnE_run elim!: bindE_InrE)
  have "v < 256 ^ 8" using v le_value_bound [of "take 8 bs"] by (auto simp: ReadScalar_Inr)
  then show ?case
    using scalar.encode_read [OF v] Suc.IH [OF e(1)] e(2) by (simp add: dimensions_bytes_def u64_round_trip)
qed (simp add: dimensions_bytes_def returnE_run)

lemma length_dimensions_bytes [simp]: "length (dimensions_bytes d) = 8 * length d"
  by (induction d) (simp_all add: dimensions_bytes_def)

lemma floats_bytes_simps [simp]:
  "floats_bytes [] = []" "floats_bytes (x # vs) = le_bytes 4 (unat x) @ floats_bytes vs"
  by (simp_all add: floats_bytes_def)

lemma length_floats_bytes [simp]: "length (floats_bytes vs) = 4 * length vs"
  by (induction vs) simp_all

lemma bytes_floats_bytes: "bytes_floats (length vs) (floats_bytes vs) = vs"
proof (induction vs)
  case (Cons x vs)
  have "unat x < 256 ^ 4" using unsigned_less [where 'a = nat, of x] by simp
  then show ?case using Cons by (simp add: le_value_le_bytes)
qed simp

lemma floats_bytes_read: "length bs = 4 * n \<Longrightarrow> floats_bytes (bytes_floats n bs) = bs"
proof (induction n arbitrary: bs)
  case (Suc n)
  have len: "length (take 4 bs) = 4" using Suc.prems by simp
  then have "le_value (take 4 bs) < 2 ^ 32" using le_value_bound [of "take 4 bs"] by simp
  then have "unat (of_nat (le_value (take 4 bs)) :: f32) = le_value (take 4 bs)"
    by (simp add: unat_of_nat)
  then have "le_bytes 4 (unat (of_nat (le_value (take 4 bs)) :: f32)) = take 4 bs"
    using le_bytes_le_value [of "take 4 bs"] len by simp
  moreover have "floats_bytes (bytes_floats n (drop 4 bs)) = drop 4 bs" using Suc by simp
  ultimately show ?case by simp
qed simp

section \<open>The payload of a tensor\<close>

definition tensor_bytes :: "int list \<Rightarrow> f32 list \<Rightarrow> byte list" where
  "tensor_bytes d vs = le_bytes 8 (length d) @ dimensions_bytes d @ le_bytes 8 (length vs) @ floats_bytes vs"

lemma length_tensor_bytes: "length (tensor_bytes d vs) = 16 + 8 * length d + 4 * length vs"
  by (simp add: tensor_bytes_def)

text \<open>The reader, in steps.\<close>

definition values_rest :: "shape_info \<Rightarrow> nat \<Rightarrow> f32 list reader" where
  "values_rest shape n =
     bindE (checkE (\<not> (n \<noteq> numel shape \<or> n > u64_max div 4))
       (InternalError ''module_load: invalid tensor element count'')) (\<lambda>_.
     bindE (read_bytes (4 * n) (InternalError ''module_load: truncated tensor payload''))
       (\<lambda>payload. returnE (bytes_floats n payload)))"

definition payload_rest :: "shape_info \<Rightarrow> int list \<Rightarrow> f32 list reader" where
  "payload_rest expected_shape dims =
     (case ValidateShape (dims_pointer dims) (length dims) of
       Inl _ \<Rightarrow> failE (InternalError ''module_load: invalid tensor shape'')
     | Inr shape \<Rightarrow>
         bindE (checkE (SameShape shape expected_shape)
           (InternalError ''module_load: checkpoint tensor shape mismatch'')) (\<lambda>_.
         bindE (ReadScalar 8 (InternalError ''module_load: invalid tensor element count''))
           (values_rest shape)))"

lemma ReadTensorPayload_rest:
  "ReadTensorPayload sh = bindE (ReadScalar 8 (InternalError ''module_load: invalid tensor rank'')) (\<lambda>rank.
     bindE (checkE (\<not> rank > 32) (InternalError ''module_load: invalid tensor rank'')) (\<lambda>_.
     bindE (read_dimensions rank) (payload_rest sh)))"
  unfolding ReadTensorPayload_def payload_rest_def [abs_def] values_rest_def [abs_def] ..

interpretation payload: exact_codec "tensor_bytes (dimensions sh)" "ReadTensorPayload sh"
  "\<lambda>vs. shape_ok sh \<and> length vs = numel sh" for sh
proof unfold_locales
  fix vs :: "f32 list" and rest assume "shape_ok sh \<and> length vs = numel sh"
  then have valid: "valid_dims (dimensions sh)" and n: "length vs = dims_prod (dimensions sh)"
    by (simp_all add: shape_ok_def)
  have rank: "length (dimensions sh) < 256 ^ 8" "\<not> length (dimensions sh) > 32"
    and small: "length vs < 256 ^ 8" "\<not> length vs > u64_max div 4"
    using valid n by (auto simp: valid_dims_def kMaxTensorRank_def max_numel_def u64_max_def)
  have same: "SameShape (canonical_shape (dimensions sh)) sh" by (simp add: SameShape_def)
  have bytes: "read_bytes (4 * length vs) st (floats_bytes vs @ rest) = (Inr (floats_bytes vs), rest)" for st
    by (simp add: read_bytes_Inr)
  show "ReadTensorPayload sh (tensor_bytes (dimensions sh) vs @ rest) = (Inr vs, rest)"
    unfolding ReadTensorPayload_def tensor_bytes_def append_assoc scalar.read_then [OF rank(1)]
    using rank small(2) same n bytes valid
      read_dimensions_bytes [OF valid_dims_i64 [OF valid]] ValidateShape_pointer [OF valid]
    by (simp add: scalar.read_then [OF small(1) [unfolded n]] bindE_Inr_run checkE_run bytes_floats_bytes [of vs, unfolded n] returnE_run)
next
  fix bs :: "byte list" and vs rest assume run: "ReadTensorPayload sh bs = (Inr vs, rest)"
  from run obtain rank bs1 where rank: "ReadScalar 8 (InternalError ''module_load: invalid tensor rank'') bs = (Inr rank, bs1)"
    and 1: "bindE (checkE (\<not> rank > 32) (InternalError ''module_load: invalid tensor rank'')) (\<lambda>_.
      bindE (read_dimensions rank) (payload_rest sh)) bs1 = (Inr vs, rest)"
    unfolding ReadTensorPayload_rest by (rule bindE_InrE)
  then obtain d bs2 where d: "read_dimensions rank bs1 = (Inr d, bs2)" and 2: "payload_rest sh d bs2 = (Inr vs, rest)"
    by (auto simp: checkE_run elim!: bindE_InrE split: if_splits)
  from 2 obtain shape where v: "ValidateShape (dims_pointer d) (length d) = Inr shape"
    by (auto simp: payload_rest_def failE_run split: sum.splits)
  with 2 have "SameShape shape sh" and 3: "bindE (ReadScalar 8 (InternalError ''module_load: invalid tensor element count''))
      (values_rest shape) bs2 = (Inr vs, rest)"
    by (auto simp: payload_rest_def checkE_run elim!: bindE_InrE split: if_splits)
  then have dims: "d = dimensions sh"
    using ValidateShape_pointer_Inr [OF v read_dimensions_i64 [OF d]] by (simp add: SameShape_def)
  from 3 obtain n bs3 where n: "ReadScalar 8 (InternalError ''module_load: invalid tensor element count'') bs2 = (Inr n, bs3)"
    and 4: "values_rest shape n bs3 = (Inr vs, rest)" by (rule bindE_InrE)
  then have vs: "4 * n \<le> length bs3" "vs = bytes_floats n (take (4 * n) bs3)" "rest = drop (4 * n) bs3"
    by (auto simp: values_rest_def checkE_run returnE_run read_bytes_Inr elim!: bindE_InrE split: if_splits)
  then have "floats_bytes vs @ rest = bs3" "length vs = n" by (simp_all add: floats_bytes_read)
  then show "bs = tensor_bytes (dimensions sh) vs @ rest"
    using scalar.encode_read [OF rank] dimensions_bytes_read [OF d] scalar.encode_read [OF n] dims
    by (simp add: tensor_bytes_def)
qed

section \<open>A whole file\<close>

text \<open>The flag for the bias is one byte, of which any value but zero counts as true.\<close>

definition header_bytes :: "linear_state \<Rightarrow> nat \<Rightarrow> byte list" where
  "header_bytes m flag = kCheckpointMagic @ le_bytes 4 kCheckpointVersion @
     le_bytes 8 (i64_to_u64 (in_features m)) @ le_bytes 8 (i64_to_u64 (out_features m)) @ le_bytes 1 flag"

definition payload_bytes :: "bool \<Rightarrow> shape_info \<Rightarrow> shape_info \<Rightarrow> f32 list \<times> f32 list \<Rightarrow> byte list" where
  "payload_bytes bias weight_shape bias_shape = (\<lambda>(weight, b).
     tensor_bytes (dimensions weight_shape) weight @
     (if bias then tensor_bytes (dimensions bias_shape) b else []))"

definition features_ok :: "linear_state \<Rightarrow> bool" where
  "features_ok m \<longleftrightarrow> i64_array [in_features m, out_features m]"

definition bias_flag :: "linear_state \<Rightarrow> nat" where
  "bias_flag m = (if use_bias m then 1 else 0)"

lemma read_header_bytes:
  assumes "features_ok m" and "flag < 256" and "(flag \<noteq> 0) = use_bias m"
  shows "read_header m (header_bytes m flag @ rest) = (Inr (), rest)"
proof -
  have 1: "kCheckpointVersion < 256 ^ 4" "flag < 256 ^ 1" using assms(2) by (simp_all add: kCheckpointVersion_def)
  have 2: "u64_to_i64 (i64_to_u64 (in_features m)) = in_features m"
    "u64_to_i64 (i64_to_u64 (out_features m)) = out_features m"
    using assms(1) i64_round_trip by (simp_all add: features_ok_def i64_array_def)
  have 3: "bindE (read_bytes 8 st) f (kCheckpointMagic @ r) = f kCheckpointMagic r"
    for st r and f :: "byte list \<Rightarrow> unit reader"
    by (simp add: bindE_def read_bytes_def kCheckpointMagic_def)
  show ?thesis
    using assms(3) 2
    by (simp del: One_nat_def le_bytes.simps add: read_header_def header_bytes_def 3 checkE_run returnE_run
        scalar.read_then [OF 1(1)] scalar.read_then [OF 1(2)] scalar.read_then [OF i64_to_u64_bound])
qed

lemma header_bytes_read:
  assumes "read_header m bs = (Inr (), rest)"
  shows "\<exists>flag < 256. (flag \<noteq> 0) = use_bias m \<and> bs = header_bytes m flag @ rest"
proof -
  obtain magic b1 version b2 inp b3 outp b4 flag where
      magic: "read_bytes 8 (InternalError ''module_load: invalid checkpoint magic'') bs = (Inr magic, b1)"
        "magic = kCheckpointMagic"
    and version: "ReadScalar 4 (InternalError ''module_load: truncated checkpoint header'') b1 = (Inr version, b2)"
    and inp: "ReadScalar 8 (InternalError ''module_load: truncated checkpoint header'') b2 = (Inr inp, b3)"
    and outp: "ReadScalar 8 (InternalError ''module_load: truncated checkpoint header'') b3 = (Inr outp, b4)"
    and flag: "ReadScalar 1 (InternalError ''module_load: truncated checkpoint header'') b4 = (Inr flag, rest)"
    and eq: "version = kCheckpointVersion" "u64_to_i64 inp = in_features m" "u64_to_i64 outp = out_features m"
      "(flag \<noteq> 0) = use_bias m"
    using assms unfolding read_header_def
    by (auto simp: checkE_run elim!: bindE_InrE split: if_splits)
  have small: "v < 256 ^ n" if "ReadScalar n st b = (Inr v, r)" for n st b v r
  proof -
    have "n \<le> length b" "v = le_value (take n b)" using that by (simp_all add: ReadScalar_Inr)
    then show ?thesis using le_value_bound [of "take n b"] by simp
  qed
  have "inp = i64_to_u64 (in_features m)" "outp = i64_to_u64 (out_features m)" "flag < 256"
    using u64_round_trip small [OF inp] small [OF outp] small [OF flag] eq(2,3) by (metis, metis, simp)
  moreover have "bs = kCheckpointMagic @ b1"
    using magic append_take_drop_id [of 8 bs] by (simp add: read_bytes_Inr)
  ultimately show ?thesis
    using scalar.encode_read [OF version] scalar.encode_read [OF inp] scalar.encode_read [OF outp]
      scalar.encode_read [OF flag] eq(1,4)
    by (intro exI [of _ flag]) (simp add: header_bytes_def)
qed

lemma read_payloads:
  assumes "shape_ok w" and "length ws = numel w" and "use_bias m \<Longrightarrow> shape_ok b \<and> length vs = numel b"
    and "\<not> use_bias m \<Longrightarrow> vs = []"
  shows "bindE (ReadTensorPayload w) (\<lambda>weight_values.
      bindE (if use_bias m then ReadTensorPayload b else returnE []) (\<lambda>bias_values. f weight_values bias_values))
    (payload_bytes (use_bias m) w b (ws, vs) @ rest) = f ws vs rest"
  using assms by (simp add: payload_bytes_def payload.read_then)

lemma read_checkpoint_bytes:
  assumes "features_ok m" and "flag < 256" and "(flag \<noteq> 0) = use_bias m"
    and "shape_ok w" and "length ws = numel w" and "use_bias m \<Longrightarrow> shape_ok b \<and> length vs = numel b"
    and "\<not> use_bias m \<Longrightarrow> vs = []"
  shows "fst (read_checkpoint m w b (header_bytes m flag @ payload_bytes (use_bias m) w b (ws, vs))) = Inr (ws, vs)"
proof -
  let ?f = "\<lambda>weight_values bias_values. bindE (getE (\<lambda>rest. rest = [])) (\<lambda>at_end.
     bindE (checkE at_end (InternalError ''module_load: checkpoint contains trailing data'')) (\<lambda>_.
     returnE (weight_values, bias_values)))"
  let ?p = "payload_bytes (use_bias m) w b (ws, vs)"
  have "read_header m (header_bytes m flag @ ?p) = (Inr (), ?p @ [])"
    using read_header_bytes [OF assms(1-3), of ?p] by simp
  then have "read_checkpoint m w b (header_bytes m flag @ ?p) =
      bindE (ReadTensorPayload w) (\<lambda>weight_values.
        bindE (if use_bias m then ReadTensorPayload b else returnE []) (\<lambda>bias_values.
        ?f weight_values bias_values)) (?p @ [])"
    unfolding read_checkpoint_def by (rule bindE_Inr_run)
  also have "\<dots> = ?f ws vs []" by (rule read_payloads [OF assms(4-7)])
  finally show ?thesis by (simp add: checkE_run returnE_run bindE_Inr_run)
qed

text \<open>Nothing else is accepted.\<close>

lemma checkpoint_bytes_read:
  assumes "fst (read_checkpoint m w b bs) = Inr (ws, vs)"
  shows "\<exists>flag < 256. (flag \<noteq> 0) = use_bias m \<and> bs = header_bytes m flag @ payload_bytes (use_bias m) w b (ws, vs)"
proof -
  obtain rest where run: "read_checkpoint m w b bs = (Inr (ws, vs), rest)"
    using assms by (cases "read_checkpoint m w b bs") simp
  obtain b1 b2 b3 where h: "read_header m bs = (Inr (), b1)" and w: "ReadTensorPayload w b1 = (Inr ws, b2)"
    and v: "(if use_bias m then ReadTensorPayload b else returnE []) b2 = (Inr vs, b3)" and e: "b3 = []"
    using run unfolding read_checkpoint_def
    by (elim bindE_InrE) (auto simp: returnE_run checkE_run split: if_splits)
  have "b2 = (if use_bias m then tensor_bytes (dimensions b) vs else [])"
    using v e payload.encode_read [of b b2 vs b3] by (auto simp: returnE_run split: if_splits)
  then show ?thesis
    using header_bytes_read [OF h] payload.encode_read [OF w] by (auto simp: payload_bytes_def)
qed

end
