(* ===== verification/Checkpoint_Spec.thy ===== *)
theory Checkpoint_Spec
  imports Checkpoint_Codec Training_Properties
begin

text \<open>
  What saving writes and what loading replaces.
\<close>

section \<open>Writing\<close>

text \<open>A step that appends bytes to an open file and changes nothing else but the plan of failures.\<close>

definition wrote :: "string \<Rightarrow> byte list \<Rightarrow> 'r training_runtime_scheme \<Rightarrow> 'r training_runtime_scheme \<Rightarrow> bool" where
  "wrote path bytes s s' \<longleftrightarrow> (\<exists>old. rt_files s path = Some old \<and>
     s'\<lparr>rt_io_plan := []\<rparr> = s\<lparr>rt_files := (rt_files s)(path \<mapsto> old @ bytes), rt_io_plan := []\<rparr>)"

lemma wrote_Nil: "rt_files s path \<noteq> None \<Longrightarrow> wrote path [] s s"
  by (cases s) (auto simp: wrote_def map_upd_triv)

lemma wroteD:
  assumes "wrote path bytes s s'" and "rt_files s path = Some old"
  shows "rt_heap s' = rt_heap s" "rt_files s' = (rt_files s)(path \<mapsto> old @ bytes)"
    "s'\<lparr>rt_io_plan := []\<rparr> = s\<lparr>rt_files := (rt_files s)(path \<mapsto> old @ bytes), rt_io_plan := []\<rparr>"
proof -
  show eq: "s'\<lparr>rt_io_plan := []\<rparr> = s\<lparr>rt_files := (rt_files s)(path \<mapsto> old @ bytes), rt_io_plan := []\<rparr>"
    using assms by (auto simp: wrote_def)
  show "rt_heap s' = rt_heap s" using arg_cong [OF eq, of rt_heap] by simp
  show "rt_files s' = (rt_files s)(path \<mapsto> old @ bytes)" using arg_cong [OF eq, of rt_files] by simp
qed

lemma wrote_keeps:
  assumes "wrote path bytes s s'"
  shows "rt_heap s' = rt_heap s" "rt_files s' path \<noteq> None"
proof -
  obtain old where "rt_files s path = Some old" using assms by (auto simp: wrote_def)
  note w = wroteD [OF assms this]
  show "rt_heap s' = rt_heap s" by (rule w(1))
  show "rt_files s' path \<noteq> None" by (simp add: w(2))
qed

lemma wrote_append:
  assumes "wrote path a s t" and "wrote path b t u"
  shows "wrote path (a @ b) s u"
proof -
  obtain old where old: "rt_files s path = Some old" using assms(1) by (auto simp: wrote_def)
  note t = wroteD [OF assms(1) old]
  have u: "u\<lparr>rt_io_plan := []\<rparr> = t\<lparr>rt_files := (rt_files t)(path \<mapsto> (old @ a) @ b), rt_io_plan := []\<rparr>"
    using wroteD(3) [OF assms(2), of "old @ a"] t(2) by simp
  have "t\<lparr>rt_files := F, rt_io_plan := []\<rparr> = (t\<lparr>rt_io_plan := []\<rparr>)\<lparr>rt_files := F\<rparr>" for F by simp
  then have "u\<lparr>rt_io_plan := []\<rparr> = (t\<lparr>rt_io_plan := []\<rparr>)\<lparr>rt_files := (rt_files t)(path \<mapsto> (old @ a) @ b)\<rparr>"
    using u by simp
  then show ?thesis using old unfolding t(2,3) by (simp add: wrote_def)
qed

text \<open>A command that, over the heap \<open>h\<close>, appends the bytes when it returns, and returns when no failure
  is planned.\<close>

definition writes :: "heap \<Rightarrow> string \<Rightarrow> byte list \<Rightarrow> ('r, unit) trt \<Rightarrow> bool" where
  "writes h path bytes m \<longleftrightarrow> (\<forall>s. rt_heap s = h \<longrightarrow> rt_files s path \<noteq> None \<longrightarrow>
     (\<forall>s'. m s = (Inr (), s') \<longrightarrow> wrote path bytes s s') \<and>
     (rt_io_plan s = [] \<longrightarrow> (\<exists>s'. m s = (Inr (), s') \<and> rt_io_plan s' = [])))"

lemma writesD:
  assumes "writes h path bytes m" and "rt_heap s = h" and "rt_files s path \<noteq> None"
  shows "m s = (Inr (), s') \<Longrightarrow> wrote path bytes s s'"
    "rt_io_plan s = [] \<Longrightarrow> \<exists>s'. m s = (Inr (), s') \<and> rt_io_plan s' = []"
  using assms unfolding writes_def by blast+

lemma writes_bind:
  fixes m n :: "('r, unit) trt"
  assumes m: "writes h path a m" and n: "writes h path b n"
  shows "writes h path (a @ b) (bindE m (\<lambda>_. n))"
  unfolding writes_def
proof (intro allI impI conjI)
  fix s :: "'r training_runtime_scheme" assume s: "rt_heap s = h" "rt_files s path \<noteq> None"
  show "wrote path (a @ b) s s'" if run: "bindE m (\<lambda>_. n) s = (Inr (), s')" for s'
  proof -
    obtain x t where "m s = (Inr x, t)" "n t = (Inr (), s')" using run by (rule bindE_InrE)
    then have "m s = (Inr (), t)" and n': "n t = (Inr (), s')" by simp_all
    then have w: "wrote path a s t" using writesD(1) [OF m s] by blast
    then have "rt_heap t = h" "rt_files t path \<noteq> None" using wrote_keeps [OF w] s by simp_all
    then show ?thesis using wrote_append [OF w] writesD(1) [OF n] n' by blast
  qed
  show "\<exists>s'. bindE m (\<lambda>_. n) s = (Inr (), s') \<and> rt_io_plan s' = []" if plan: "rt_io_plan s = []"
  proof -
    obtain t where t: "m s = (Inr (), t)" "rt_io_plan t = []" using writesD(2) [OF m s plan] by blast
    then have "rt_heap t = h" "rt_files t path \<noteq> None" using wrote_keeps [OF writesD(1) [OF m s t(1)]] s by simp_all
    then show ?thesis using t writesD(2) [OF n] by (simp add: bindE_Inr_run)
  qed
qed

lemma writes_get:
  assumes "\<And>s. rt_heap s = h \<Longrightarrow> m s = (Inr a, s)" and "writes h path b (f a)"
  shows "writes h path b (bindE m f)"
  using assms by (simp add: writes_def bindE_Inr_run)

lemma writes_return: "writes h path [] (returnE ())"
  by (simp add: writes_def returnE_run wrote_Nil)

lemma writes_stream: "writes h path bytes (stream_write path bytes st)"
  unfolding writes_def
proof (intro allI impI conjI)
  fix s :: "'r training_runtime_scheme" assume "rt_files s path \<noteq> None"
  then obtain old where old: "rt_files s path = Some old" by blast
  show "wrote path bytes s s'" if "stream_write path bytes st s = (Inr (), s')" for s'
    using that old
    by (auto simp: stream_write_def next_io_def bindE_def write_file_def wrote_def failE_run
        split: list.splits io_outcome.splits)
  show "\<exists>s'. stream_write path bytes st s = (Inr (), s') \<and> rt_io_plan s' = []" if "rt_io_plan s = []"
    using that old by (simp add: stream_write_def next_io_def bindE_def write_file_def)
qed

lemma writes_flush: "writes h path [] (stream_flush path st)"
  unfolding stream_flush_def by (rule writes_stream)

lemma writes_for: "writes h path (concat (map f xs)) (forE xs (\<lambda>x. stream_write path (f x) st))"
  by (induction xs) (simp_all add: writes_return writes_bind writes_stream)

lemma writes_SaveTensor:
  assumes "layout_ok h (tensor_at h r)" and "direct h r"
  shows "writes h path (tensor_bytes (dims_of (tensor_at h r)) (logical_values h (tensor_at h r)))
    (SaveTensor path r :: ('r, unit) trt)"
proof -
  let ?t = "tensor_at h r" and ?vs = "logical_values h (tensor_at h r)"
  have vals: "heapE (CpuValues r ''module_save'') s = (Inr ?vs, s)" if "rt_heap s = h" for s :: "'r training_runtime_scheme"
    using CpuValues_direct [OF assms] that by (auto simp: heapE_def)
  have t: "tensorE r s = (Inr ?t, s)" if "rt_heap s = h" for s :: "'r training_runtime_scheme"
    using that by (auto simp: tensorE_def heapE_def)
  have "writes h path (floats_bytes ?vs) (bindE (heapE (CpuValues r ''module_save'')) (\<lambda>values. if values = [] then returnE ()
      else stream_write path (floats_bytes values) (InternalError ''module_save: failed to write tensor payload'')) ::
      ('r, unit) trt)"
    by (rule writes_get [OF vals]) (simp_all add: writes_return writes_stream)
  then show ?thesis
    unfolding SaveTensor_def tensor_bytes_def dimensions_bytes_def
    by (intro writes_get [OF t] writes_bind writes_stream writes_for) (simp_all add: writes_stream)
qed

section \<open>Saving a module\<close>

definition module_bytes :: "heap \<Rightarrow> linear_state \<Rightarrow> byte list" where
  "module_bytes h m = header_bytes m (bias_flag m) @
     tensor_bytes (dims_of (tensor_at h (ls_weight m))) (logical_values h (tensor_at h (ls_weight m))) @
     (if use_bias m then tensor_bytes (dims_of (tensor_at h (the (ls_bias m))))
       (logical_values h (tensor_at h (the (ls_bias m)))) else [])"

lemma saved_parameters:
  assumes "wf_heap h" and "module_ok h m" and "p \<in> set (Parameters m)"
  shows "layout_ok h (tensor_at h p)" "direct h p" "public h p"
  using assms wf_heap_layout [OF assms(1)] publicD(1)
  by (auto simp: module_ok_def Parameters_def parameter_ok_def split: option.splits if_splits)

text \<open>What \<open>ModuleSave\<close> does once the file is open.\<close>

definition save_body :: "string \<Rightarrow> linear_state \<Rightarrow> ('r, unit) trt" where
  "save_body path m = bindE (forE [kCheckpointMagic, le_bytes 4 kCheckpointVersion,
         le_bytes 8 (i64_to_u64 (in_features m)), le_bytes 8 (i64_to_u64 (out_features m)),
         le_bytes 1 (if use_bias m then 1 else 0)]
       (\<lambda>bytes. stream_write path bytes (InternalError ''module_save: failed to write checkpoint header''))) (\<lambda>_.
     bindE (SaveTensor path (ls_weight m)) (\<lambda>_.
     bindE (if use_bias m then SaveTensor path (the (ls_bias m)) else returnE ()) (\<lambda>_.
     stream_flush path (InternalError ''module_save: failed to finalize checkpoint''))))"

lemma ModuleSave_body: "ModuleSave a path =
   bindE (checkE (path \<noteq> []) (InvalidArgument ''module_save: path must not be empty'')) (\<lambda>_.
   bindE (LookupModule a) (\<lambda>m. bindE (getE (\<lambda>s. module_at s m)) (\<lambda>state.
   bindE (open_output path (InternalError ''module_save: could not open checkpoint for writing'')) (\<lambda>_.
   save_body path state))))"
  unfolding ModuleSave_def save_body_def [abs_def] ..

lemma writes_module:
  assumes "wf_heap h" and "module_ok h m"
  shows "writes h path (module_bytes h m) (save_body path m)"
proof -
  note p = saved_parameters [OF assms]
  have w: "ls_weight m \<in> set (Parameters m)" and b: "use_bias m \<Longrightarrow> the (ls_bias m) \<in> set (Parameters m)"
    by (simp_all add: Parameters_def)
  have "writes h path (if use_bias m then tensor_bytes (dims_of (tensor_at h (the (ls_bias m))))
      (logical_values h (tensor_at h (the (ls_bias m)))) else [])
    (if use_bias m then SaveTensor path (the (ls_bias m)) else returnE ())"
    by (auto intro!: writes_SaveTensor p(1,2) b writes_return)
  then have tail: "writes h path ((if use_bias m then tensor_bytes (dims_of (tensor_at h (the (ls_bias m))))
      (logical_values h (tensor_at h (the (ls_bias m)))) else []) @ [])
    (bindE (if use_bias m then SaveTensor path (the (ls_bias m)) else returnE ()) (\<lambda>_.
     stream_flush path (InternalError ''module_save: failed to finalize checkpoint'')))"
    by (rule writes_bind [OF _ writes_flush])
  have eq: "module_bytes h m = concat (map (\<lambda>x. x) [kCheckpointMagic, le_bytes 4 kCheckpointVersion,
       le_bytes 8 (i64_to_u64 (in_features m)), le_bytes 8 (i64_to_u64 (out_features m)),
       le_bytes 1 (if use_bias m then 1 else 0)]) @
     tensor_bytes (dims_of (tensor_at h (ls_weight m))) (logical_values h (tensor_at h (ls_weight m))) @
     (if use_bias m then tensor_bytes (dims_of (tensor_at h (the (ls_bias m))))
       (logical_values h (tensor_at h (the (ls_bias m)))) else []) @ []"
    by (simp add: module_bytes_def header_bytes_def bias_flag_def)
  show ?thesis
    unfolding eq save_body_def
    by (rule writes_bind [OF writes_for [where f = "\<lambda>x. x"] writes_bind [OF writes_SaveTensor [OF p(1,2) [OF w]] tail]])
qed

lemma ModuleSave_run:
  fixes s :: "'r training_runtime_scheme"
  assumes inv: "train_inv s" and live: "live s kModule a m" and path: "path \<noteq> []"
  shows "ModuleSave a path s = (Inr (), s1) \<Longrightarrow> s1\<lparr>rt_io_plan := []\<rparr> = s\<lparr>rt_files := (rt_files s)
      (path \<mapsto> module_bytes (rt_heap s) (module_at s m)), rt_io_plan := []\<rparr>"
    "rt_io_plan s = [] \<Longrightarrow> \<exists>s1. ModuleSave a path s = (Inr (), s1) \<and> rt_io_plan s1 = []"
proof -
  let ?h = "rt_heap s" and ?m = "module_at s m"
  have "object_ok s kModule m" using live_object [OF inv live] .
  then have ok: "module_ok ?h ?m"
    using objects_okD(1) [OF train_invD(5) [OF inv]] by (simp add: object_ok_def module_at_def)
  have body: "writes ?h path (module_bytes ?h ?m) (save_body path ?m :: ('r, unit) trt)"
    by (rule writes_module [OF train_invD(3) [OF inv] ok])
  have run: "ModuleSave a path s = bindE (open_output path
       (InternalError ''module_save: could not open checkpoint for writing'')) (\<lambda>_. save_body path ?m) s"
    using live_lookup [OF train_invD(2) [OF inv] live] path
    by (simp add: ModuleSave_body LookupModule_def bindE_Inr_run checkE_run)
  let ?open = "open_output path (InternalError ''module_save: could not open checkpoint for writing'')"
  have o: "t\<lparr>rt_io_plan := []\<rparr> = s\<lparr>rt_files := (rt_files s)(path \<mapsto> []), rt_io_plan := []\<rparr>" "rt_heap t = ?h"
      "rt_files t = (rt_files s)(path \<mapsto> [])" if "?open s = (x, t)" "x = Inr ()" for x t
    using that by (auto simp: open_output_def next_io_def bindE_def write_file_def checkE_run split: list.splits if_splits)
  show "s1\<lparr>rt_io_plan := []\<rparr> = s\<lparr>rt_files := (rt_files s)(path \<mapsto> module_bytes ?h ?m), rt_io_plan := []\<rparr>"
    if save: "ModuleSave a path s = (Inr (), s1)"
  proof -
    from save run obtain x t where t: "?open s = (x, t)" "x = Inr ()" and b: "save_body path ?m t = (Inr (), s1)"
      by (auto elim: bindE_InrE)
    note o = o [OF t]
    have "rt_files t path = Some []" using o(3) by simp
    from wroteD(3) [OF writesD(1) [OF body o(2) _ b] this] have
      "s1\<lparr>rt_io_plan := []\<rparr> = t\<lparr>rt_files := (rt_files t)(path \<mapsto> module_bytes ?h ?m), rt_io_plan := []\<rparr>"
      using o(3) by simp
    also have "\<dots> = (t\<lparr>rt_io_plan := []\<rparr>)\<lparr>rt_files := (rt_files t)(path \<mapsto> module_bytes ?h ?m)\<rparr>" by simp
    finally show ?thesis unfolding o(1,3) by simp
  qed
  show "\<exists>s1. ModuleSave a path s = (Inr (), s1) \<and> rt_io_plan s1 = []" if plan: "rt_io_plan s = []"
  proof -
    obtain t where t: "?open s = (Inr (), t)" "rt_io_plan t = []"
      using plan by (simp add: open_output_def next_io_def bindE_def write_file_def checkE_run)
    note o = o [OF t(1) refl]
    have "rt_files t path \<noteq> None" using o(3) by simp
    then show ?thesis using writesD(2) [OF body o(2) _ t(2)] run t(1) by (simp add: bindE_Inr_run)
  qed
qed

section \<open>Replacing the values of a parameter\<close>

lemma replace_values_commit:
  assumes "layout_ok h (tensor_at h r)" and "direct h r" and "length vs = numel_of (tensor_at h r)"
  shows "replace_values r vs h = commit_pair (r, (vs, t_storage (tensor_at h r))) h"
proof -
  obtain m where "MutableCpuValues r ''module_load'' h = (if direct h r then (Inr (t_storage (tensor_at h r)), h)
     else (Inl (Failed (InvalidArgument m)), h))" using MutableCpuValues_run [OF assms(1)] by blast
  then show ?thesis
    using assms(2,3) by (simp add: replace_values_def commit_pair_def bindE_Inr_run direct_def)
qed

text \<open>What a replacement does: the values are new, one version more on every tensor that shares the
  counter, no gradient.\<close>

definition replaced :: "heap \<Rightarrow> tensor_ref \<Rightarrow> f32 list \<Rightarrow> heap \<Rightarrow> bool" where
  "replaced h r vs h' \<longleftrightarrow> sound h ((), h') \<and> logical_values h' (tensor_at h' r) = vs \<and>
     (\<forall>q < length (tensors h).
        (t_storage (tensor_at h q) \<noteq> t_storage (tensor_at h r) \<longrightarrow>
           logical_values h' (tensor_at h' q) = logical_values h (tensor_at h q)) \<and>
        tensor_version h' q = tensor_version h q + (if counter_of h q = counter_of h r then 1 else 0) \<and>
        grad_fn_of h' q = grad_fn_of h q \<and> RequiresGrad h' q = RequiresGrad h q \<and>
        gradient_of h' q = (if q = r then None else gradient_of h q))"

lemma replace_values_replaced:
  assumes inv: "heap_inv h" and pub: "public h r" and d: "direct h r" and len: "length vs = numel_of (tensor_at h r)"
  shows "\<exists>h'. replace_values r vs h = (Inr (), h') \<and> replaced h r vs h' \<and> alloc_plan h' = alloc_plan h"
proof -
  note wf = heap_invD(1) [OF inv]
  have r: "r < length (tensors h)" using publicD(1) [OF pub] .
  let ?st = "t_storage (tensor_at h r)"
  have ok: "target_ok h (r, (vs, ?st))" using pub d len by (simp add: target_ok_def)
  obtain res h' where run0: "commit_pair (r, (vs, ?st)) h = (res, h')" by force
  then have run: "commit_pair (r, (vs, ?st)) h = (Inr (), h')" and c: "committed h [(r, (vs, ?st))] h'"
    using commit_step [OF inv ok committed_Nil [OF inv]] by simp_all
  obtain old where old: "storages h ! ?st = CpuStorage old" "length old = length vs" "?st < length (storages h)"
    using direct_vector [OF wf r d] len by metis
  have h': "h' = h\<lparr>storages := (storages h)[?st := CpuStorage vs],
     counters := (counters h)[counter_of h r := (counters h ! counter_of h r)
       \<lparr>vc_value := vc_value (counters h ! counter_of h r) + 1\<rparr>],
     tensors := (tensors h)[r := (tensor_at h r)\<lparr>t_meta :=
       map_option (\<lambda>m. m\<lparr>meta_gradient := None\<rparr>) (t_meta (tensor_at h r))\<rparr>]\<rparr>"
    using run commit_pair_run [of vs h ?st r] old by simp
  have s: "sound h ((), h')" using c by (simp add: committed_def)
  have sk: "skeleton (tensor_at h' q) = skeleton (tensor_at h q)" if "q < length (tensors h)" for q
    using persistsD(3) [OF soundD(2) [OF s] that] .
  have lv: "logical_values h' (tensor_at h' q) = logical_values h (tensor_at h q)"
    if "q < length (tensors h)" "t_storage (tensor_at h q) \<noteq> ?st" for q
    using skeleton_eqD [OF sk [OF that(1)]] that(2)
    by (simp add: logical_values_def logical_storage_index_def h')
  have d': "direct h' r"
    using persists_direct [OF soundD(2) [OF s] r wf_heap_layout [OF wf r] d] .
  have "cpu_values (storage_of h' (tensor_at h' r)) = logical_values h' (tensor_at h' r)"
    using direct_values [OF wf_heap_layout [OF heap_invD(1) [OF soundD(1) [OF s]]] d'] r
      persistsD(1) [OF soundD(2) [OF s]] by simp
  then have new: "logical_values h' (tensor_at h' r) = vs"
    using skeleton_eqD [OF sk [OF r]] old by (simp add: h')
  have ver: "tensor_version h' q = tensor_version h q + (if counter_of h q = counter_of h r then 1 else 0)"
    if q: "q < length (tensors h)" for q
  proof -
    have "counter_of h q < length (counters h)" using wf_heap_layout [OF wf q] by (simp add: layout_ok_def)
    then show ?thesis
      using c skeleton_eqD [OF sk [OF q]] by (simp add: committed_def tensor_version_def)
  qed
  have meta: "grad_fn_of h' q = grad_fn_of h q \<and> RequiresGrad h' q = RequiresGrad h q \<and>
      gradient_of h' q = (if q = r then None else gradient_of h q)" if "q < length (tensors h)" for q
    using that by (auto simp: h' grad_fn_of_def RequiresGrad_def gradient_of_def nth_list_update split: option.splits)
  have "replace_values r vs h = (Inr (), h')"
    using replace_values_commit [OF wf_heap_layout [OF wf r] d len] run by simp
  moreover have "replaced h r vs h'" using s new lv ver meta by (simp add: replaced_def)
  moreover have "alloc_plan h' = alloc_plan h" by (simp add: h')
  ultimately show ?thesis by blast
qed

section \<open>Loading a module\<close>

text \<open>A heap in which a module has new values and everything a client can name is as before otherwise.\<close>

definition reloaded :: "heap \<Rightarrow> linear_state \<Rightarrow> f32 list list \<Rightarrow> heap \<Rightarrow> bool" where
  "reloaded h m vss h' \<longleftrightarrow> sound h ((), h') \<and>
     map (\<lambda>p. logical_values h' (tensor_at h' p)) (Parameters m) = vss \<and>
     (\<forall>p \<in> set (Parameters m). tensor_version h' p \<noteq> tensor_version h p \<and> gradient_of h' p = None) \<and>
     (\<forall>q < length (tensors h). t_storage (tensor_at h q) \<notin> (\<lambda>p. t_storage (tensor_at h p)) ` set (Parameters m) \<longrightarrow>
        logical_values h' (tensor_at h' q) = logical_values h (tensor_at h q)) \<and>
     (\<forall>q < length (tensors h). grad_fn_of h' q = grad_fn_of h q \<and> RequiresGrad h' q = RequiresGrad h q \<and>
        (q \<notin> set (Parameters m) \<longrightarrow> gradient_of h' q = gradient_of h q))"

definition module_values :: "linear_state \<Rightarrow> f32 list \<times> f32 list \<Rightarrow> f32 list list" where
  "module_values m = (\<lambda>(ws, vs). ws # (if use_bias m then [vs] else []))"

definition load_body :: "linear_state \<Rightarrow> f32 list \<times> f32 list \<Rightarrow> (heap, unit) run" where
  "load_body m = (\<lambda>(ws, vs). bindE (replace_values (ls_weight m) ws) (\<lambda>_.
     if use_bias m then replace_values (the (ls_bias m)) vs else returnE ()))"

lemma replacedD:
  assumes "replaced h r vs h'"
  shows "sound h ((), h')" "logical_values h' (tensor_at h' r) = vs"
    "q < length (tensors h) \<Longrightarrow> t_storage (tensor_at h q) \<noteq> t_storage (tensor_at h r) \<Longrightarrow>
       logical_values h' (tensor_at h' q) = logical_values h (tensor_at h q)"
    "q < length (tensors h) \<Longrightarrow>
       tensor_version h' q = tensor_version h q + (if counter_of h q = counter_of h r then 1 else 0)"
    "q < length (tensors h) \<Longrightarrow> grad_fn_of h' q = grad_fn_of h q \<and> RequiresGrad h' q = RequiresGrad h q \<and>
       gradient_of h' q = (if q = r then None else gradient_of h q)"
  using assms unfolding replaced_def by blast+

lemma one_or_two: "(v :: 64 word) + 1 \<noteq> v" "v + 1 + 1 \<noteq> v"
proof -
  have "(2 :: 64 word) \<noteq> 0" by simp
  then show "v + 1 \<noteq> v" "v + 1 + 1 \<noteq> v" by (simp_all add: add.assoc)
qed

lemma load_body_reloaded:
  assumes inv: "heap_inv h" and ok: "module_ok h m"
    and w: "length ws = numel_of (tensor_at h (ls_weight m))"
    and b: "use_bias m \<Longrightarrow> length vs = numel_of (tensor_at h (the (ls_bias m)))"
  shows "\<exists>h'. load_body m (ws, vs) h = (Inr (), h') \<and> reloaded h m (module_values m (ws, vs)) h' \<and>
    alloc_plan h' = alloc_plan h"
proof -
  note p = saved_parameters [OF heap_invD(1) [OF inv] ok]
  let ?w = "ls_weight m" and ?b = "the (ls_bias m)"
  have wp: "?w \<in> set (Parameters m)" by (simp add: Parameters_def)
  note wl = publicD(1) [OF p(3) [OF wp]]
  obtain h1 where h1: "replace_values ?w ws h = (Inr (), h1)" "replaced h ?w ws h1" "alloc_plan h1 = alloc_plan h"
    using replace_values_replaced [OF inv p(3) [OF wp] p(2) [OF wp] w] by blast
  note r1 = replacedD [OF h1(2)]
  show ?thesis
  proof (cases "use_bias m")
    case False
    then have ps: "Parameters m = [?w]" by (simp add: Parameters_def)
    have "reloaded h m (module_values m (ws, vs)) h1"
      using r1 wl one_or_two(1) False by (simp add: reloaded_def ps module_values_def)
    then show ?thesis using h1 False by (simp add: load_body_def bindE_Inr_run returnE_run)
  next
    case True
    then have ps: "Parameters m = [?w, ?b]" and bp: "?b \<in> set (Parameters m)" by (simp_all add: Parameters_def)
    note bl = publicD(1) [OF p(3) [OF bp]]
    have apart: "t_storage (tensor_at h ?b) \<noteq> t_storage (tensor_at h ?w)" "?b \<noteq> ?w"
      using ok True by (auto simp: module_ok_def split: option.splits)
    note s1 = soundD [OF r1(1)]
    have sk: "t_storage (tensor_at h1 q) = t_storage (tensor_at h q)" "counter_of h1 q = counter_of h q"
        "numel_of (tensor_at h1 q) = numel_of (tensor_at h q)" if "q < length (tensors h)" for q
      using skeleton_eqD [OF persistsD(3) [OF s1(2) that]] by simp_all
    have d1: "direct h1 ?b" using persists_direct [OF s1(2) bl p(1,2) [OF bp]] .
    obtain h2 where h2: "replace_values ?b vs h1 = (Inr (), h2)" "replaced h1 ?b vs h2" "alloc_plan h2 = alloc_plan h1"
      using replace_values_replaced [OF s1(1) s1(3) [OF p(3) [OF bp]] d1] b [OF True] sk(3) [OF bl] by metis
    note r2 = replacedD [OF h2(2)]
    have l1: "q < length (tensors h1)" if "q < length (tensors h)" for q
      using that persistsD(1) [OF s1(2)] by simp
    have "sound h ((), h2)" using sound_trans [OF s1 r2(1)] by blast
    moreover have "logical_values h2 (tensor_at h2 ?w) = ws"
      using r2(3) [OF l1 [OF wl]] sk(1) [OF wl] sk(1) [OF bl] apart(1) r1(2) by simp
    moreover have "tensor_version h2 q \<noteq> tensor_version h q \<and> gradient_of h2 q = None" if "q = ?w \<or> q = ?b" for q
    proof -
      have q: "q < length (tensors h)" using that wl bl by auto
      have "tensor_version h2 q = tensor_version h q + (if counter_of h q = counter_of h ?w then 1 else 0) +
          (if counter_of h q = counter_of h ?b then 1 else 0)"
        using r1(4) [OF q] r2(4) [OF l1 [OF q]] sk(2) q bl by simp
      then have "tensor_version h2 q \<noteq> tensor_version h q"
        using that one_or_two [of "tensor_version h q"] by (auto split: if_splits)
      then show ?thesis using that r1(5) [OF q] r2(5) [OF l1 [OF q]] by auto
    qed
    moreover have "logical_values h2 (tensor_at h2 q) = logical_values h (tensor_at h q)"
      if q: "q < length (tensors h)" "t_storage (tensor_at h q) \<noteq> t_storage (tensor_at h ?w)"
        "t_storage (tensor_at h q) \<noteq> t_storage (tensor_at h ?b)" for q
      using r1(3) [OF q(1,2)] r2(3) [OF l1 [OF q(1)]] sk(1) q bl by simp
    moreover have "grad_fn_of h2 q = grad_fn_of h q \<and> RequiresGrad h2 q = RequiresGrad h q \<and>
        (q \<notin> {?w, ?b} \<longrightarrow> gradient_of h2 q = gradient_of h q)" if q: "q < length (tensors h)" for q
      using r1(5) [OF q] r2(5) [OF l1 [OF q]] by simp
    ultimately have "reloaded h m (module_values m (ws, vs)) h2"
      using r2(2) True unfolding reloaded_def ps module_values_def by simp
    then show ?thesis using h1 h2 True by (simp add: load_body_def bindE_Inr_run)
  qed
qed

definition checkpoint_of :: "heap \<Rightarrow> linear_state \<Rightarrow> byte list \<Rightarrow> fault + f32 list \<times> f32 list" where
  "checkpoint_of h m bytes = fst (read_checkpoint m (t_shape (tensor_at h (ls_weight m)))
     (t_shape (tensor_at h (the (ls_bias m)))) bytes)"

lemma ModuleLoad_body:
  fixes s :: "'r training_runtime_scheme"
  assumes inv: "train_inv s" and live: "live s kModule a m" and path: "path \<noteq> []"
  shows "ModuleLoad a path s = bindE (open_input path (InternalError ''module_load: could not open checkpoint''))
    (\<lambda>bytes t. case checkpoint_of (rt_heap t) (module_at s m) bytes of
       Inl f \<Rightarrow> (Inl f, t) | Inr x \<Rightarrow> heapE (load_body (module_at s m) x) t) s"
proof -
  have body: "bindE (tensorE (ls_weight k)) (\<lambda>weight. bindE (tensorE (the (ls_bias k))) (\<lambda>bias.
      bindE (liftE (fst (read_checkpoint k (t_shape weight) (t_shape bias) bytes))) (\<lambda>(weight_values, bias_values).
      bindE (heapE (replace_values (ls_weight k) weight_values)) (\<lambda>_.
      if use_bias k then heapE (replace_values (the (ls_bias k)) bias_values) else returnE ())))) =
    (\<lambda>t :: 'r training_runtime_scheme. case checkpoint_of (rt_heap t) k bytes of
       Inl f \<Rightarrow> (Inl f, t) | Inr x \<Rightarrow> heapE (load_body k x) t)" for k bytes
    by (auto simp: fun_eq_iff checkpoint_of_def tensorE_def heapE_def bindE_def liftE_run returnE_run load_body_def
        split: sum.split prod.split)
  show ?thesis
    using live_lookup [OF train_invD(2) [OF inv] live] path
    by (simp add: ModuleLoad_def LookupModule_def bindE_Inr_run checkE_run body)
qed

lemma open_input_run:
  assumes "open_input path st s = (res, t)"
  shows "t\<lparr>rt_io_plan := []\<rparr> = s\<lparr>rt_io_plan := []\<rparr>" "rt_heap t = rt_heap s"
    "res = Inr bs \<Longrightarrow> \<exists>file n. rt_files s path = Some file \<and> bs = take n file"
    "rt_io_plan s = [] \<Longrightarrow> rt_files s path = Some file \<Longrightarrow> res = Inr file"
proof -
  show "t\<lparr>rt_io_plan := []\<rparr> = s\<lparr>rt_io_plan := []\<rparr>" "rt_heap t = rt_heap s"
    using assms by (auto simp: open_input_def next_io_def bindE_def failE_run returnE_run
        split: list.splits io_outcome.splits option.splits)
  show "\<exists>file n. rt_files s path = Some file \<and> bs = take n file" if "res = Inr bs"
    using assms that
    by (auto simp: open_input_def next_io_def bindE_def failE_run returnE_run
        split: list.splits io_outcome.splits option.splits intro: exI [of _ "length bs"])
  show "res = Inr file" if "rt_io_plan s = []" "rt_files s path = Some file"
    using assms that by (simp add: open_input_def next_io_def bindE_def returnE_run)
qed

definition parameter_shapes :: "heap \<Rightarrow> linear_state \<Rightarrow> shape_info \<times> shape_info" where
  "parameter_shapes h m = (t_shape (tensor_at h (ls_weight m)), t_shape (tensor_at h (the (ls_bias m))))"

definition file_of :: "heap \<Rightarrow> linear_state \<Rightarrow> nat \<Rightarrow> f32 list \<times> f32 list \<Rightarrow> byte list" where
  "file_of h m flag x = header_bytes m flag @
     payload_bytes (use_bias m) (fst (parameter_shapes h m)) (snd (parameter_shapes h m)) x"

lemma module_shapes:
  assumes "wf_heap h" and "module_ok h m"
  shows "shape_ok (t_shape (tensor_at h (ls_weight m)))"
    "use_bias m \<Longrightarrow> shape_ok (t_shape (tensor_at h (the (ls_bias m))))" "features_ok m"
proof -
  note p = saved_parameters(1) [OF assms]
  have w: "ls_weight m \<in> set (Parameters m)" by (simp add: Parameters_def)
  show "shape_ok (t_shape (tensor_at h (ls_weight m)))" using layout_ok_shape [OF p [OF w]] .
  show "shape_ok (t_shape (tensor_at h (the (ls_bias m))))" if "use_bias m"
    using layout_ok_shape [OF p] that by (simp add: Parameters_def)
  have "dims_of (tensor_at h (ls_weight m)) = [in_features m, out_features m]"
    using assms(2) by (simp add: module_ok_def parameter_ok_def)
  then show "features_ok m" using valid_dims_i64 [OF layout_ok_valid [OF p [OF w]]] by (simp add: features_ok_def)
qed

lemma checkpoint_of_file:
  assumes "wf_heap h" and "module_ok h m" and "flag < 256" and "(flag \<noteq> 0) = use_bias m"
    and "length ws = numel_of (tensor_at h (ls_weight m))"
    and "use_bias m \<Longrightarrow> length vs = numel_of (tensor_at h (the (ls_bias m)))" and "\<not> use_bias m \<Longrightarrow> vs = []"
  shows "checkpoint_of h m (file_of h m flag (ws, vs)) = Inr (ws, vs)"
  unfolding checkpoint_of_def file_of_def parameter_shapes_def fst_conv snd_conv
  using module_shapes [OF assms(1,2)] assms(3-7) by (intro read_checkpoint_bytes) simp_all

lemma ModuleLoad_run:
  fixes s :: "'r training_runtime_scheme"
  assumes inv: "train_inv s" and live: "live s kModule a m" and path: "path \<noteq> []"
    and run: "ModuleLoad a path s = (res, s')"
  shows "res \<noteq> Inr () \<Longrightarrow> s'\<lparr>rt_io_plan := []\<rparr> = s\<lparr>rt_io_plan := []\<rparr>"
    "res = Inr () \<Longrightarrow> \<exists>file n flag x h'. rt_files s path = Some file \<and> flag < 256 \<and>
       (flag \<noteq> 0) = use_bias (module_at s m) \<and> take n file = file_of (rt_heap s) (module_at s m) flag x \<and>
       reloaded (rt_heap s) (module_at s m) (module_values (module_at s m) x) h' \<and>
       s'\<lparr>rt_io_plan := []\<rparr> = s\<lparr>rt_heap := h', rt_io_plan := []\<rparr>"
    "rt_io_plan s = [] \<Longrightarrow> rt_files s path = Some bytes \<Longrightarrow> checkpoint_of (rt_heap s) (module_at s m) bytes = Inr x \<Longrightarrow>
       res = Inr () \<and> (\<exists>h'. reloaded (rt_heap s) (module_at s m) (module_values (module_at s m) x) h' \<and>
         s'\<lparr>rt_io_plan := []\<rparr> = s\<lparr>rt_heap := h', rt_io_plan := []\<rparr>)"
proof -
  let ?h = "rt_heap s" and ?m = "module_at s m"
  let ?open = "open_input path (InternalError ''module_load: could not open checkpoint'')"
  note split = run [unfolded ModuleLoad_body [OF inv live path]]
  have ok: "module_ok ?h ?m"
    using objects_okD(1) [OF train_invD(5) [OF inv]] live_object [OF inv live] by (simp add: object_ok_def module_at_def)
  note wf = train_invD(3) [OF inv] and hinv = train_invD(1) [OF inv]
  have load: "\<exists>h'. heapE (load_body ?m x) t = (Inr (), t\<lparr>rt_heap := h'\<rparr>) \<and> reloaded ?h ?m (module_values ?m x) h'"
    if "rt_heap t = ?h" "checkpoint_of ?h ?m bytes = Inr x" for t :: "'r training_runtime_scheme" and bytes x
  proof -
    obtain ws vs where x: "x = (ws, vs)" by force
    have "fst (read_checkpoint ?m (t_shape (tensor_at ?h (ls_weight ?m))) (t_shape (tensor_at ?h (the (ls_bias ?m)))) bytes) = Inr (ws, vs)"
      using that(2) x by (simp add: checkpoint_of_def)
    note len = read_checkpoint_lengths [OF this module_shapes(1) [OF wf ok]]
    then show ?thesis
      using load_body_reloaded [OF hinv ok len(1), of vs] module_shapes(2) [OF wf ok] x that(1)
      by (auto simp: heapE_def)
  qed
  obtain r t where o: "?open s = (r, t)" by force
  note oi = open_input_run [OF o]
  have upd: "(t\<lparr>rt_heap := h'\<rparr>)\<lparr>rt_io_plan := []\<rparr> = s\<lparr>rt_heap := h', rt_io_plan := []\<rparr>" for h'
  proof -
    have "(t\<lparr>rt_heap := h'\<rparr>)\<lparr>rt_io_plan := []\<rparr> = (t\<lparr>rt_io_plan := []\<rparr>)\<lparr>rt_heap := h'\<rparr>" by simp
    then show ?thesis unfolding oi(1) by simp
  qed
  have outcome: "(\<exists>f. r = Inl f \<and> res = Inl f \<and> s' = t) \<or>
      (\<exists>bs. r = Inr bs \<and> (\<exists>f. checkpoint_of ?h ?m bs = Inl f \<and> res = Inl f \<and> s' = t)) \<or>
      (\<exists>bs x h'. r = Inr bs \<and> checkpoint_of ?h ?m bs = Inr x \<and> res = Inr () \<and> s' = t\<lparr>rt_heap := h'\<rparr> \<and>
         reloaded ?h ?m (module_values ?m x) h')"
  proof (cases r)
    case (Inl f)
    then show ?thesis using split o by (simp add: bindE_Inl_run)
  next
    case (Inr bs)
    then have s: "(case checkpoint_of ?h ?m bs of Inl f \<Rightarrow> (Inl f, t) | Inr x \<Rightarrow> heapE (load_body ?m x) t) = (res, s')"
      using split o oi(2) by (simp add: bindE_Inr_run)
    show ?thesis
    proof (cases "checkpoint_of ?h ?m bs")
      case (Inr x)
      obtain h' where h': "heapE (load_body ?m x) t = (Inr (), t\<lparr>rt_heap := h'\<rparr>)" "reloaded ?h ?m (module_values ?m x) h'"
        using load [OF oi(2) Inr] by blast
      then have "res = Inr ()" "s' = t\<lparr>rt_heap := h'\<rparr>" using s Inr by simp_all
      then show ?thesis using h'(2) Inr \<open>r = Inr bs\<close> by blast
    qed (use s Inr in simp)
  qed
  show "s'\<lparr>rt_io_plan := []\<rparr> = s\<lparr>rt_io_plan := []\<rparr>" if "res \<noteq> Inr ()"
    using outcome that oi(1) by auto
  show "\<exists>file n flag x h'. rt_files s path = Some file \<and> flag < 256 \<and> (flag \<noteq> 0) = use_bias ?m \<and>
      take n file = file_of ?h ?m flag x \<and> reloaded ?h ?m (module_values ?m x) h' \<and>
      s'\<lparr>rt_io_plan := []\<rparr> = s\<lparr>rt_heap := h', rt_io_plan := []\<rparr>" if res: "res = Inr ()"
  proof -
    obtain bs x h' where b: "r = Inr bs" "checkpoint_of ?h ?m bs = Inr x" "s' = t\<lparr>rt_heap := h'\<rparr>"
      "reloaded ?h ?m (module_values ?m x) h'" using outcome res by auto
    obtain ws vs where x: "x = (ws, vs)" by force
    obtain flag where "flag < 256" "(flag \<noteq> 0) = use_bias ?m" "bs = file_of ?h ?m flag x"
      using checkpoint_bytes_read [of ?m _ _ bs ws vs] b(2) x
      by (auto simp: checkpoint_of_def file_of_def parameter_shapes_def)
    moreover obtain content n where "rt_files s path = Some content" "bs = take n content" using oi(3) [OF b(1)] by blast
    ultimately show ?thesis using b upd by metis
  qed
  show "res = Inr () \<and> (\<exists>h'. reloaded ?h ?m (module_values ?m x) h' \<and>
      s'\<lparr>rt_io_plan := []\<rparr> = s\<lparr>rt_heap := h', rt_io_plan := []\<rparr>)"
    if "rt_io_plan s = []" "rt_files s path = Some bytes" "checkpoint_of ?h ?m bytes = Inr x"
    using outcome oi(4) [OF that(1,2)] that(3) upd by auto
qed

end
