(* ===== verification/Checkpoint_Properties.thy ===== *)
theory Checkpoint_Properties
  imports Checkpoint_Spec System_Properties
begin

text \<open>
  The properties of checkpoints, and what loading one means for gradients that are still to be computed.
\<close>

section \<open>Files of one architecture\<close>

definition same_architecture :: "linear_state \<Rightarrow> linear_state \<Rightarrow> bool" where
  "same_architecture m n \<longleftrightarrow> in_features n = in_features m \<and> out_features n = out_features m \<and>
     use_bias n = use_bias m"

definition parameter_values :: "'r training_runtime_scheme \<Rightarrow> nat \<Rightarrow> f32 list list" where
  "parameter_values s m = map (\<lambda>p. logical_values (rt_heap s) (tensor_at (rt_heap s) p)) (Parameters (module_at s m))"

lemma module_numels:
  assumes "wf_heap h" and "module_ok h m"
  shows "numel_of (tensor_at h (ls_weight m)) = dims_prod [in_features m, out_features m]"
    "use_bias m \<Longrightarrow> numel_of (tensor_at h (the (ls_bias m))) = dims_prod [out_features m]"
  using module_shapes(1,2) [OF assms] module_dims [OF assms(2)] by (simp_all add: shape_ok_def)

lemma saved_checkpoint:
  assumes wf: "wf_heap h" "wf_heap g" and ok: "module_ok h m" "module_ok g n" and same: "same_architecture m n"
  shows "\<exists>x. checkpoint_of g n (module_bytes h m) = Inr x \<and>
    module_values n x = map (\<lambda>p. logical_values h (tensor_at h p)) (Parameters m)"
proof -
  let ?x = "(logical_values h (tensor_at h (ls_weight m)),
    if use_bias m then logical_values h (tensor_at h (the (ls_bias m))) else [])"
  have eq: "in_features n = in_features m" "out_features n = out_features m" "use_bias n = use_bias m"
    using same by (simp_all add: same_architecture_def)
  have "module_bytes h m = file_of g n (bias_flag n) ?x"
    using module_dims [OF ok(1)] module_dims [OF ok(2)] eq
    by (simp add: module_bytes_def file_of_def header_bytes_def payload_bytes_def parameter_shapes_def bias_flag_def)
  moreover have "checkpoint_of g n (file_of g n (bias_flag n) ?x) = Inr ?x"
    using module_numels [OF wf(1) ok(1)] module_numels [OF wf(2) ok(2)] eq
    by (intro checkpoint_of_file [OF wf(2) ok(2)]) (simp_all add: bias_flag_def)
  ultimately show ?thesis
    using eq by (intro exI [of _ ?x]) (simp add: module_values_def Parameters_def)
qed

lemma ts_module_save_OK:
  assumes "ts_module_save a (Some path) s = (Some TS_OK, s1)"
  obtains t where "ModuleSave a path (s\<lparr>rt_last_error := []\<rparr>) = (Inr (), t)" "s1 = t\<lparr>rt_last_error := []\<rparr>" "path \<noteq> []"
proof -
  obtain r t where run: "ModuleSave a path (s\<lparr>rt_last_error := []\<rparr>) = (r, t)" by force
  then have "fst (abi_result ''module_save'' r) = Some TS_OK" and s1: "s1 = t\<lparr>rt_last_error := snd (abi_result ''module_save'' r)\<rparr>"
    using assms by (simp_all add: ts_module_save_def ts_plain_run bindE_Inr_run checkE_run)
  then have r: "r = Inr ()" by (simp add: abi_result_ok_iff)
  moreover have "path \<noteq> []" using run r by (auto simp: ModuleSave_def checkE_run bindE_def)
  ultimately show ?thesis using that run s1 by simp
qed

lemma ts_module_load_run:
  assumes "ModuleLoad a path (s\<lparr>rt_last_error := []\<rparr>) = (r, t)"
  shows "ts_module_load a (Some path) s =
    (fst (abi_result ''module_load'' r), t\<lparr>rt_last_error := snd (abi_result ''module_load'' r)\<rparr>)"
  using assms by (simp add: ts_module_load_def ts_plain_run bindE_Inr_run checkE_run)

text \<open>What a successful save leaves behind.\<close>

lemma ts_module_save_file:
  assumes inv: "train_inv s" and live: "live s kModule a m" and save: "ts_module_save a (Some path) s = (Some TS_OK, s1)"
  shows "rt_files s1 = (rt_files s)(path \<mapsto> module_bytes (rt_heap s) (module_at s m))" "rt_heap s1 = rt_heap s"
    "rt_registry s1 = rt_registry s" "rt_modules s1 = rt_modules s" "path \<noteq> []"
proof -
  let ?s0 = "s\<lparr>rt_last_error := []\<rparr>"
  obtain t where run: "ModuleSave a path ?s0 = (Inr (), t)" and s1: "s1 = t\<lparr>rt_last_error := []\<rparr>" and path: "path \<noteq> []"
    using ts_module_save_OK [OF save] .
  have inv0: "train_inv ?s0" "live ?s0 kModule a m" using inv live by simp_all
  have at: "module_at ?s0 m = module_at s m" by (simp add: module_at_def)
  note eq = ModuleSave_run(1) [OF inv0 path run, unfolded at]
  show "rt_files s1 = (rt_files s)(path \<mapsto> module_bytes (rt_heap s) (module_at s m))"
    using arg_cong [OF eq, of rt_files] s1 by simp
  show "rt_heap s1 = rt_heap s" "rt_registry s1 = rt_registry s" "rt_modules s1 = rt_modules s"
    using arg_cong [OF eq, of rt_heap] arg_cong [OF eq, of rt_registry] arg_cong [OF eq, of rt_modules] s1 by simp_all
  show "path \<noteq> []" by (rule path)
qed

lemma ts_module_save_succeeds:
  assumes inv: "train_inv s" and live: "live s kModule a m" and "path \<noteq> []" and "rt_io_plan s = []"
  shows "\<exists>s1. ts_module_save a (Some path) s = (Some TS_OK, s1) \<and> rt_io_plan s1 = []"
proof -
  have "train_inv (s\<lparr>rt_last_error := []\<rparr>)" "live (s\<lparr>rt_last_error := []\<rparr>) kModule a m" using inv live by simp_all
  from ModuleSave_run(2) [OF this assms(3)] assms(4)
  obtain t where "ModuleSave a path (s\<lparr>rt_last_error := []\<rparr>) = (Inr (), t)" "rt_io_plan t = []" by auto
  then show ?thesis by (simp add: ts_module_save_def ts_plain_run bindE_Inr_run checkE_run)
qed

section \<open>Saving and loading\<close>

lemma load_saved:
  assumes "train_inv s" and "live s kModule a m" and "ts_module_save a (Some path) s = (Some TS_OK, s1)"
    and "train_inv t" and "live t kModule b n" and "rt_files t path = rt_files s1 path" and "rt_io_plan t = []"
    and "same_architecture (module_at s m) (module_at t n)"
  shows "\<exists>t1. ts_module_load b (Some path) t = (Some TS_OK, t1) \<and> rt_modules t1 = rt_modules t \<and>
    rt_registry t1 = rt_registry t \<and> reloaded (rt_heap t) (module_at t n) (parameter_values s m) (rt_heap t1)"
proof -
  let ?t0 = "t\<lparr>rt_last_error := []\<rparr>"
  note f = ts_module_save_file [OF assms(1-3)]
  have inv0: "train_inv ?t0" "live ?t0 kModule b n" using assms(4,5) by simp_all
  have at: "module_at ?t0 n = module_at t n" by (simp add: module_at_def)
  obtain x where x: "checkpoint_of (rt_heap t) (module_at t n) (module_bytes (rt_heap s) (module_at s m)) = Inr x"
    "module_values (module_at t n) x = parameter_values s m"
    using saved_checkpoint [OF train_invD(3) [OF assms(1)] train_invD(3) [OF assms(4)] live_module [OF assms(1,2)]
      live_module [OF assms(4,5)] assms(8)] unfolding parameter_values_def by blast
  obtain r t1 where run: "ModuleLoad b path ?t0 = (r, t1)" by force
  have plan: "rt_io_plan ?t0 = []" and content: "rt_files ?t0 path = Some (module_bytes (rt_heap s) (module_at s m))"
    using f(1) assms(6,7) by simp_all
  have x0: "checkpoint_of (rt_heap ?t0) (module_at ?t0 n) (module_bytes (rt_heap s) (module_at s m)) = Inr x"
    using x(1) at by simp
  have r: "r = Inr ()" and "\<exists>h'. reloaded (rt_heap t) (module_at t n) (parameter_values s m) h' \<and>
      t1\<lparr>rt_io_plan := []\<rparr> = ?t0\<lparr>rt_heap := h', rt_io_plan := []\<rparr>"
    using ModuleLoad_run(3) [OF inv0 f(5) run plan content x0] unfolding at x(2) by simp_all
  then obtain h' where h': "reloaded (rt_heap t) (module_at t n) (parameter_values s m) h'"
    and eq: "t1\<lparr>rt_io_plan := []\<rparr> = ?t0\<lparr>rt_heap := h', rt_io_plan := []\<rparr>" by blast
  have "rt_heap t1 = h'" "rt_modules t1 = rt_modules t" "rt_registry t1 = rt_registry t"
    using arg_cong [OF eq, of rt_heap] arg_cong [OF eq, of rt_modules] arg_cong [OF eq, of rt_registry] by simp_all
  then show ?thesis using ts_module_load_run [OF run] h' by (simp add: r)
qed

text \<open>C11: A checkpoint restores what was saved, bit by bit: after a successful save, a load of the
  same file into any module of the same architecture, at any later time and by any program state,
  returns OK and gives the module exactly the saved values, and tensors that share no storage with
  its parameters keep theirs.\<close>

theorem checkpoint_round_trip:
  assumes "train_inv s" and "live s kModule a m" and "ts_module_save a (Some path) s = (Some TS_OK, s1)"
    and "train_inv t" and "live t kModule b n" and "rt_files t path = rt_files s1 path" and "rt_io_plan t = []"
    and "same_architecture (module_at s m) (module_at t n)"
  shows "\<exists>t1. ts_module_load b (Some path) t = (Some TS_OK, t1) \<and> parameter_values t1 n = parameter_values s m \<and>
    (\<forall>q < length (tensors (rt_heap t)). t_storage (tensor_at (rt_heap t) q) \<notin>
         (\<lambda>p. t_storage (tensor_at (rt_heap t) p)) ` set (Parameters (module_at t n)) \<longrightarrow>
       logical_values (rt_heap t1) (tensor_at (rt_heap t1) q) = logical_values (rt_heap t) (tensor_at (rt_heap t) q))"
proof -
  obtain t1 where t1: "ts_module_load b (Some path) t = (Some TS_OK, t1)" "rt_modules t1 = rt_modules t"
    "reloaded (rt_heap t) (module_at t n) (parameter_values s m) (rt_heap t1)"
    using load_saved [OF assms] by blast
  then have "module_at t1 n = module_at t n" by (simp add: module_at_def)
  then show ?thesis using t1(1,3) by (auto simp: reloaded_def parameter_values_def)
qed

theorem checkpoint_round_trip_witness:
  "\<exists>s1 t1. ts_module_save 1 (Some ''a'') demo_training = (Some TS_OK, s1) \<and>
    ts_module_load 1 (Some ''a'') (demo_training\<lparr>rt_files := rt_files s1\<rparr>) = (Some TS_OK, t1) \<and>
    parameter_values t1 0 = [[0x3F800000, 0x40000000], [0x3F000000, 0x3F800000]]"
proof -
  have "rt_io_plan demo_training = []" by (simp add: demo_training_def)
  then obtain s1 where s1: "ts_module_save 1 (Some ''a'') demo_training = (Some TS_OK, s1)"
    using ts_module_save_succeeds [OF demo_training_inv demo_live(1), of "''a''"] by auto
  let ?t = "demo_training\<lparr>rt_files := rt_files s1\<rparr>"
  have t: "train_inv ?t" "live ?t kModule 1 0"
    using demo_training_inv demo_live(1) by (simp, simp add: live_def)
  have same: "same_architecture (module_at demo_training 0) (module_at ?t 0)"
    by (simp add: same_architecture_def module_at_def)
  have vals: "parameter_values demo_training 0 = [[0x3F800000, 0x40000000], [0x3F000000, 0x3F800000]]"
    using direct_values [OF wf_heap_layout [OF demo_training_wf, of 0] demo_training_direct [of 0]]
      direct_values [OF wf_heap_layout [OF demo_training_wf, of 1] demo_training_direct [of 1]]
    by (simp add: parameter_values_def module_at_def Parameters_def)
  show ?thesis
    using checkpoint_round_trip [OF demo_training_inv demo_live(1) s1 t _ _ same] s1 vals
    by (auto simp: demo_training_def)
qed

lemma module_load_result:
  assumes "train_inv s" and "live s kModule a m" and "ts_module_load a (Some path) s = (code, s')"
  shows "\<exists>h'. s'\<lparr>rt_io_plan := [], rt_last_error := []\<rparr> = s\<lparr>rt_heap := h', rt_io_plan := [], rt_last_error := []\<rparr> \<and>
    (if code = Some TS_OK
     then \<exists>content n flag x. rt_files s path = Some content \<and> flag < 256 \<and> (flag \<noteq> 0) = use_bias (module_at s m) \<and>
       take n content = file_of (rt_heap s) (module_at s m) flag x \<and>
       reloaded (rt_heap s) (module_at s m) (module_values (module_at s m) x) h'
     else h' = rt_heap s)"
proof -
  let ?s0 = "s\<lparr>rt_last_error := []\<rparr>"
  have inv0: "train_inv ?s0" "live ?s0 kModule a m" using assms(1,2) by simp_all
  have at: "module_at ?s0 m = module_at s m" by (simp add: module_at_def)
  obtain r t where run: "ModuleLoad a path ?s0 = (r, t)" by force
  have code: "code = fst (abi_result ''module_load'' r)" and s': "\<exists>e. s' = t\<lparr>rt_last_error := e\<rparr>"
    using assms(3) ts_module_load_run [OF run] by auto
  have upd: "s'\<lparr>rt_io_plan := [], rt_last_error := []\<rparr> = s\<lparr>rt_heap := h', rt_io_plan := [], rt_last_error := []\<rparr>"
    if "t\<lparr>rt_io_plan := []\<rparr> = ?s0\<lparr>rt_heap := h', rt_io_plan := []\<rparr>" for h'
  proof -
    have "s'\<lparr>rt_io_plan := [], rt_last_error := []\<rparr> = (t\<lparr>rt_io_plan := []\<rparr>)\<lparr>rt_last_error := []\<rparr>" using s' by auto
    then show ?thesis unfolding that by simp
  qed
  show ?thesis
  proof (cases "r = Inr ()")
    case True
    then have "path \<noteq> []" using run by (auto simp: ModuleLoad_def checkE_run bindE_def)
    from ModuleLoad_run(2) [OF inv0 this run True] obtain content n flag x h' where
      "rt_files s path = Some content" "flag < 256" "(flag \<noteq> 0) = use_bias (module_at s m)"
      "take n content = file_of (rt_heap s) (module_at s m) flag x"
      "reloaded (rt_heap s) (module_at s m) (module_values (module_at s m) x) h'"
      and eq: "t\<lparr>rt_io_plan := []\<rparr> = ?s0\<lparr>rt_heap := h', rt_io_plan := []\<rparr>" unfolding at by auto
    moreover have "code = Some TS_OK" using code True by simp
    ultimately show ?thesis using upd [OF eq] by (intro exI [of _ h']) (simp del: split_paired_Ex, blast)
  next
    case False
    have "t\<lparr>rt_io_plan := []\<rparr> = ?s0\<lparr>rt_io_plan := []\<rparr>"
    proof (cases "path = []")
      case True
      then show ?thesis using run by (simp add: ModuleLoad_def checkE_run bindE_Inl_run)
    qed (rule ModuleLoad_run(1) [OF inv0 _ run False])
    then have "t\<lparr>rt_io_plan := []\<rparr> = ?s0\<lparr>rt_heap := rt_heap s, rt_io_plan := []\<rparr>" by simp
    from upd [OF this] show ?thesis using False code by (intro exI [of _ "rt_heap s"]) (simp add: abi_result_ok_iff)
  qed
qed



section \<open>Graphs over replaced values\<close>

lemma reaches_kept:
  assumes wf: "wf_heap h" and root: "root < length (tensors h)"
    and same: "\<forall>q < length (tensors h). grad_fn_of h' q = grad_fn_of h q" and r: "reaches h root x"
  shows "x < length (tensors h) \<and> reaches h' root x"
  using r
proof (induction rule: reaches.induct)
  case (reaches_parent x node p)
  have "p < length (tensors h)"
    using wf_heap_node [OF wf] reaches_parent by (fastforce simp: node_ok_def)
  then show ?case using reaches_parent same reaches.reaches_parent by metis
qed (use root reaches.reaches_self in auto)

lemma Backward_stale:
  assumes "diff_heap h" and "is_loss h root" and "\<not> fresh_below h root"
  shows "Backward L root h = (Inl (Failed stale_alias), h)"
proof -
  have wf: "wf_heap h" and root: "root < length (tensors h)"
    and one: "numel_of (tensor_at h root) = 1" and rg: "RequiresGrad h root"
    using assms(1,2) by (simp_all add: diff_heap_def is_loss_def)
  obtain vis ts where top: "BuildTopology (length (tensors h)) h root ([], []) = Some (vis, ts)"
    and set: "set ts = {x. reaches h root x}" using BuildTopology_total [OF wf root] by metis
  show ?thesis using Backward_run [OF wf root one rg top] graph_fresh_below [OF set] assms(3) by simp
qed

lemma reloaded_stale:
  assumes inv: "heap_inv h" and loss: "is_loss h root" and re: "reloaded h m vss h'"
    and x: "reaches h root x" "grad_fn_of h x = Some node" and fresh: "versions_fresh h node"
    and p: "p \<in> set (node_parents node)" "p \<in> set (Parameters m)"
  shows "is_loss h' root" "\<not> fresh_below h' root" "diff_heap h'"
proof -
  note wf = heap_invD(1) [OF inv]
  have s: "sound h ((), h')" and same: "\<forall>q < length (tensors h). grad_fn_of h' q = grad_fn_of h q"
    and rg: "\<forall>q < length (tensors h). RequiresGrad h' q = RequiresGrad h q"
    and ver: "tensor_version h' p \<noteq> tensor_version h p" using re p(2) by (simp_all add: reloaded_def)
  note sd = soundD [OF s]
  have root: "root < length (tensors h)" using loss by (simp add: is_loss_def)
  show "is_loss h' root"
    using loss skeleton_eqD(1) [OF persistsD(3) [OF sd(2) root]] persistsD(1) [OF sd(2)] rg root
    by (simp add: is_loss_def)
  show "diff_heap h'" using heap_invD(4) [OF sd(1)] .
  note k = reaches_kept [OF wf root same x(1)]
  have "\<not> versions_fresh h' node"
    using fresh ver p(1) by (auto simp: versions_fresh_def dest!: sym [of _ "node_versions node"])
  then show "\<not> fresh_below h' root" using k same x(2) by (auto simp: fresh_below_def)
qed

text \<open>C18: Gradients are never computed through replaced values.  When a module has loaded a checkpoint
  after one of its parameters was used in a graph, differentiating a loss of that graph is refused
  with INVALID_ARGUMENT and changes nothing but the last error.\<close>

theorem load_makes_graphs_stale:
  assumes "train_inv s" and "live s kModule a m" and "ts_module_load a (Some path) s = (Some TS_OK, s1)"
    and "live s kTensor loss root" and "is_loss (rt_heap s) root" and "reaches (rt_heap s) root x"
    and "grad_fn_of (rt_heap s) x = Some node" and "versions_fresh (rt_heap s) node"
    and "p \<in> set (node_parents node)" and "p \<in> set (Parameters (module_at s m))"
  shows "ts_tensor_backward L loss s1 = (Some TS_INVALID_ARGUMENT, s1\<lparr>rt_last_error :=
    ''autograd: a saved tensor alias was modified before backward''\<rparr>)"
proof -
  have "lawful_plain (ts_module_load a (Some path))" by (rule lawful_module_plain)
  then have inv1: "train_inv s1" using assms(1,3) unfolding lawful_plain_def lawful_def by (metis snd_conv)
  have "\<exists>h' x. s1\<lparr>rt_io_plan := [], rt_last_error := []\<rparr> = s\<lparr>rt_heap := h', rt_io_plan := [], rt_last_error := []\<rparr> \<and>
      reloaded (rt_heap s) (module_at s m) (module_values (module_at s m) x) h'"
    using module_load_result [OF assms(1-3)] by auto
  then obtain h' y where eq: "s1\<lparr>rt_io_plan := [], rt_last_error := []\<rparr> =
      s\<lparr>rt_heap := h', rt_io_plan := [], rt_last_error := []\<rparr>"
    and re: "reloaded (rt_heap s) (module_at s m) (module_values (module_at s m) y) h'" by blast
  have h': "rt_heap s1 = h'" and reg: "rt_registry s1 = rt_registry s"
    using arg_cong [OF eq, of rt_heap] arg_cong [OF eq, of rt_registry] by simp_all
  have bw: "Backward L root (rt_heap s1) = (Inl (Failed stale_alias), rt_heap s1)"
    unfolding h' using reloaded_stale [OF train_invD(1) [OF assms(1)] assms(5) re assms(6-10)] by (intro Backward_stale)
  have "live s1 kTensor loss root" using assms(4) reg by (simp add: live_def)
  then have "LookupTensor loss (s1\<lparr>rt_last_error := []\<rparr>) = (Inr root, s1\<lparr>rt_last_error := []\<rparr>)"
    unfolding LookupTensor_def by (intro live_lookup) (use train_invD(2) [OF inv1] in simp_all)
  then show ?thesis
    using bw by (simp add: ts_tensor_backward_def ts_plain_run bindE_Inr_run heapE_def status_or_default_def)
qed

theorem load_makes_graphs_stale_witness:
  "\<exists>s1 s2. ts_module_save 1 (Some ''a'') demo_step = (Some TS_OK, s1) \<and>
    ts_module_load 1 (Some ''a'') s1 = (Some TS_OK, s2) \<and>
    fst (ts_tensor_backward demo_libm 2 s2) = Some TS_INVALID_ARGUMENT"
proof -
  have live: "live demo_step kModule 1 0" and plan: "rt_io_plan demo_step = []"
    by (simp_all add: live_def demo_step_def demo_training_def)
  obtain s1 where s1: "ts_module_save 1 (Some ''a'') demo_step = (Some TS_OK, s1)" "rt_io_plan s1 = []"
    using ts_module_save_succeeds [OF demo_step_inv live, of "''a''"] plan by auto
  note f = ts_module_save_file [OF demo_step_inv live s1(1)]
  have "lawful_plain (ts_module_save 1 (Some ''a''))" by (rule lawful_module_plain)
  then have inv1: "train_inv s1" using demo_step_inv s1(1) unfolding lawful_plain_def lawful_def by (metis snd_conv)
  have live1: "live s1 kModule 1 0" "live s1 kTensor 2 2"
    using live demo_step_live(1) f(3) by (simp_all add: live_def)
  have m: "module_at s1 0 = module_at demo_step 0" using f(4) by (simp add: module_at_def)
  obtain s2 where s2: "ts_module_load 1 (Some ''a'') s1 = (Some TS_OK, s2)"
    using load_saved [OF demo_step_inv live s1(1) inv1 live1(1) refl s1(2)] m by (auto simp: same_architecture_def)
  have h: "rt_heap s1 = demo_graph" using f(2) by (simp add: demo_step_def)
  have n: "grad_fn_of demo_graph 2 = Some \<lparr>node_operation = kSum, node_parents = [1], node_versions = [0]\<rparr>"
    "grad_fn_of demo_graph 1 = Some \<lparr>node_operation = kMultiply, node_parents = [0, 0], node_versions = [0, 0]\<rparr>"
    by (simp_all add: grad_fn_of_def demo_node_def)
  have r: "reaches demo_graph 2 1"
    using reaches.reaches_parent [OF reaches.reaches_self n(1)] by simp
  have fr: "versions_fresh demo_graph \<lparr>node_operation = kMultiply, node_parents = [0, 0], node_versions = [0, 0]\<rparr>"
    using demo_graph_fresh r n(2) by (simp add: fresh_below_def)
  have "ts_tensor_backward demo_libm 2 s2 = (Some TS_INVALID_ARGUMENT, s2\<lparr>rt_last_error :=
      ''autograd: a saved tensor alias was modified before backward''\<rparr>)"
    using load_makes_graphs_stale [OF inv1 live1(1) s2 live1(2), unfolded h, OF demo_graph_loss r n(2) fr, of 0] m
    by (simp add: module_at_def Parameters_def demo_step_def)
  then show ?thesis using s1(1) s2 by simp
qed

end
