(* ===== verification/Neural_Values.thy ===== *)
theory Neural_Values
  imports Training_Ops
begin

text \<open>
  The loops of the losses, the gated activation and the bias addition, as functions on the rows of a
  matrix: what \<open>mse_loss\<close>, \<open>cross_entropy_loss\<close>, \<open>swiglu\<close> and the forward computation of a linear module
  compute, without indices.  Sums run from left to right, in double precision where the code does.
\<close>

section \<open>Loops over the elements and rows of vectors\<close>

definition mat_rows :: "nat \<Rightarrow> nat \<Rightarrow> f32 list \<Rightarrow> f32 list list" where
  "mat_rows n w vs = map (\<lambda>i. mat_row w i vs) [0..<n]"

lemma loop_fold: "loop n (\<lambda>i. f (g i)) a = fold f (map g [0..<n]) a"
  by (simp add: loop_foldl foldl_conv_fold fold_map comp_def)

lemma zip_upt: "length xs = n \<Longrightarrow> length ys = n \<Longrightarrow> zip xs ys = map (\<lambda>i. (xs ! i, ys ! i)) [0..<n]"
  by (simp add: list_eq_iff_nth_eq)

lemma loop_zip:
  assumes "length xs = n" and "length ys = n"
  shows "loop n (\<lambda>i. f (xs ! i) (ys ! i)) a = fold (\<lambda>(x, y). f x y) (zip xs ys) a"
  using loop_fold [of n "\<lambda>(x, y). f x y" "\<lambda>i. (xs ! i, ys ! i)" a] by (simp add: zip_upt [OF assms])

lemma mat_row_nth: "j < w \<Longrightarrow> mat_row w i vs ! j = vs ! (i * w + j)"
  by (simp add: mat_row_def)

lemma zip_mat_rows: "zip (mat_rows n w xs) (mat_rows n w ys) = map (\<lambda>i. (mat_row w i xs, mat_row w i ys)) [0..<n]"
  by (simp add: mat_rows_def zip_map_map zip_same_conv_map)

text \<open>A vector given by its cells is the concatenation of its rows.\<close>

lemma concat_rows:
  assumes "length vs = n * w" and "\<And>i j. i < n \<Longrightarrow> j < w \<Longrightarrow> vs ! (i * w + j) = f i j"
  shows "vs = concat (map (\<lambda>i. map (f i) [0..<w]) [0..<n])"
  using assms
proof (induction n arbitrary: vs)
  case (Suc n)
  have "take (n * w) vs = concat (map (\<lambda>i. map (f i) [0..<w]) [0..<n])"
  proof (rule Suc.IH)
    fix i j assume ij: "i < n" "j < w"
    show "take (n * w) vs ! (i * w + j) = f i j"
      using Suc.prems(2) [of i j] ij matrix_index_less [OF ij] by simp
  qed (use Suc.prems(1) in simp)
  moreover have "drop (n * w) vs = map (f n) [0..<w]"
    using Suc.prems by (intro nth_equalityI) simp_all
  ultimately show ?case using append_take_drop_id [of "n * w" vs] by simp
qed simp

section \<open>Losses\<close>

definition mse_reference :: "f32 list \<Rightarrow> f32 list \<Rightarrow> f32" where
  "mse_reference prediction target = f64_to_f32 (f64_div
     (fold (\<lambda>(x, y) sum. let d = f64_sub (f32_to_f64 x) (f32_to_f64 y) in f64_add sum (f64_mul d d))
       (zip prediction target) f64_zero)
     (f64_of_nat (length prediction)))"

text \<open>The logarithm of the sum of the exponentials of a row, shifted by its maximum.\<close>

definition row_maximum :: "f32 list \<Rightarrow> f32" where
  "row_maximum row = foldl f32_max (hd row) (tl row)"

definition log_sum_exp :: "libm \<Rightarrow> f32 list \<Rightarrow> f64" where
  "log_sum_exp L row = f64_add
     (log64 L (fold (\<lambda>x sum. f64_add sum (exp64 L (f32_to_f64 (f32_sub x (row_maximum row))))) row f64_zero))
     (f32_to_f64 (row_maximum row))"

definition cross_entropy_reference :: "libm \<Rightarrow> nat \<Rightarrow> nat \<Rightarrow> f32 list \<Rightarrow> f32 list \<Rightarrow> f32" where
  "cross_entropy_reference L batch classes logits target = f64_to_f32 (f64_div
     (fold (\<lambda>(ls, ts). fold (\<lambda>(l, t) total.
          f64_sub total (f64_mul (f32_to_f64 t) (f64_sub (f32_to_f64 l) (log_sum_exp L ls)))) (zip ls ts))
       (zip (mat_rows batch classes logits) (mat_rows batch classes target)) f64_zero)
     (f64_of_nat batch))"

lemma mse_value_reference:
  assumes "length prediction = length target"
  shows "mse_value prediction target = mse_reference prediction target"
  using loop_zip [of prediction "length target" target "\<lambda>x y sum.
    let d = f64_sub (f32_to_f64 x) (f32_to_f64 y) in f64_add sum (f64_mul d d)" f64_zero] assms
  by (simp add: mse_value_def mse_reference_def Let_def)

lemma row_max_reference:
  assumes "0 < classes"
  shows "row_max logits classes row = row_maximum (mat_row classes row logits)"
proof -
  have "mat_row classes row logits = logits ! (row * classes) # map (\<lambda>j. logits ! (row * classes + j)) [1..<classes]"
    using assms by (simp add: mat_row_def upt_conv_Cons)
  then show ?thesis by (simp add: row_max_def row_maximum_def foldl_map)
qed

lemma log_denominator_reference:
  assumes "0 < classes"
  shows "log_denominator L logits classes row = log_sum_exp L (mat_row classes row logits)"
  using loop_fold [of classes "\<lambda>x sum. f64_add sum (exp64 L (f32_to_f64 (f32_sub x (row_max logits classes row))))"
    "\<lambda>j. logits ! (row * classes + j)" f64_zero] row_max_reference [OF assms, of logits row]
  by (simp add: log_denominator_def log_sum_exp_def mat_row_def Let_def)

lemma cross_entropy_value_reference:
  assumes "0 < classes"
  shows "cross_entropy_value L batch classes logits target =
    cross_entropy_reference L batch classes logits target"
proof -
  let ?summand = "\<lambda>ls l t total. f64_sub total (f64_mul (f32_to_f64 t) (f64_sub (f32_to_f64 l) (log_sum_exp L ls)))"
  have "loop classes (\<lambda>col total. f64_sub total (f64_mul (f32_to_f64 (target ! (row * classes + col)))
      (f64_sub (f32_to_f64 (logits ! (row * classes + col))) (log_denominator L logits classes row)))) total =
    fold (\<lambda>(l, t). ?summand (mat_row classes row logits) l t)
      (zip (mat_row classes row logits) (mat_row classes row target)) total" for row total
    using loop_zip [of "mat_row classes row logits" classes "mat_row classes row target"
      "?summand (mat_row classes row logits)" total] log_denominator_reference [OF assms, of L logits row]
    by (simp add: mat_row_nth cong: loop_cong)
  then show ?thesis
    using loop_fold [of batch "\<lambda>(ls, ts). fold (\<lambda>(l, t). ?summand ls l t) (zip ls ts)"
      "\<lambda>i. (mat_row classes i logits, mat_row classes i target)" f64_zero]
    by (simp add: cross_entropy_value_def cross_entropy_reference_def zip_mat_rows Let_def)
qed

section \<open>Row operations\<close>

definition swiglu_reference :: "libm \<Rightarrow> nat \<Rightarrow> nat \<Rightarrow> f32 list \<Rightarrow> f32 list" where
  "swiglu_reference L n w vs = concat (map (\<lambda>row. map2 (\<lambda>a b. f32_mul (SiluForward L a) b)
     (take (w div 2) row) (drop (w div 2) row)) (mat_rows n w vs))"

text \<open>\<open>X W + b\<close>, the bias being optional.\<close>

definition linear_reference :: "nat \<Rightarrow> nat \<Rightarrow> nat \<Rightarrow> f32 list \<Rightarrow> f32 list \<Rightarrow> f32 list option \<Rightarrow> f32 list" where
  "linear_reference m k n x w bias = concat (map (\<lambda>row. map (\<lambda>j.
     let p = dot row (mat_col k n j w) in case bias of None \<Rightarrow> p | Some b \<Rightarrow> f32_add p (b ! j)) [0..<n])
     (mat_rows m k x))"

lemma swiglu_values_reference:
  assumes "even w"
  shows "swiglu_values L (n * (w div 2)) n w (w div 2) vs = swiglu_reference L n w vs"
proof -
  let ?f = "\<lambda>i j. f32_mul (SiluForward L (vs ! (i * w + j))) (vs ! (i * w + (w div 2 + j)))"
  have "swiglu_values L (n * (w div 2)) n w (w div 2) vs = concat (map (\<lambda>i. map (?f i) [0..<w div 2]) [0..<n])"
    by (intro concat_rows) (simp_all add: swiglu_values_nth)
  moreover have "map (?f i) [0..<w div 2] = map2 (\<lambda>a b. f32_mul (SiluForward L a) b)
      (take (w div 2) (mat_row w i vs)) (drop (w div 2) (mat_row w i vs))" for i
    using assms by (intro nth_equalityI) (auto simp: mat_row_nth)
  ultimately show ?thesis by (simp add: swiglu_reference_def mat_rows_def comp_def)
qed

lemma add_bias_values_nth:
  assumes r: "r < rows" and c: "c < cols" and len: "length matrix = rows * cols"
  shows "add_bias_values rows cols matrix bias ! (r * cols + c) = f32_add (matrix ! (r * cols + c)) (bias ! c)"
proof -
  have "add_bias_values rows cols matrix bias ! (r * cols + c) =
      loop rows (\<lambda>row. loop cols (\<lambda>col v. if row * cols + col = r * cols + c then f32_add v (bias ! col) else v))
        (matrix ! (r * cols + c))"
    unfolding add_bias_values_def
    using matrix_index_less [OF r c] len by (intro loop_nth) (auto simp: length_loop update_nth)
  then show ?thesis using loop_matrix_once [OF r c, of "\<lambda>row col v. f32_add v (bias ! col)"] by simp
qed

lemma linear_values_reference:
  "matmul_values m k n x w = linear_reference m k n x w None"
  "add_bias_values m n (matmul_values m k n x w) b = linear_reference m k n x w (Some b)"
proof -
  have "matmul_values m k n x w = concat (map (\<lambda>i. map (\<lambda>j. dot (mat_row k i x) (mat_col k n j w)) [0..<n]) [0..<m])"
    by (intro concat_rows) (simp_all add: matmul_values_nth)
  then show "matmul_values m k n x w = linear_reference m k n x w None"
    by (simp add: linear_reference_def mat_rows_def comp_def)
  have "add_bias_values m n (matmul_values m k n x w) b =
      concat (map (\<lambda>i. map (\<lambda>j. f32_add (dot (mat_row k i x) (mat_col k n j w)) (b ! j)) [0..<n]) [0..<m])"
    by (intro concat_rows) (simp_all add: matmul_values_nth add_bias_values_nth)
  then show "add_bias_values m n (matmul_values m k n x w) b = linear_reference m k n x w (Some b)"
    by (simp add: linear_reference_def mat_rows_def comp_def Let_def)
qed

end
