(* ===== verification/Neural_Api.thy ===== *)
theory Neural_Api
  imports Neural_Values Training_Properties
begin

text \<open>
  What the exported functions of activations, losses and modules promise, in the terms of
  \<open>Core_Api_Spec\<close>: an abstract array machine for neural operations and its refinement, and the
  forward computation of a linear module.

  Operations that read a storage directly accept a dense operand only: a tensor whose values are its
  whole storage, in order.  \<open>dense\<close> tells which handles of a client are.
\<close>

section \<open>The abstract machine\<close>

datatype neural_op =
    OpRelu handle
  | OpSigmoid handle
  | OpTanh handle
  | OpGelu handle
  | OpSilu handle
  | OpSwiGlu handle
  | OpMse handle handle
  | OpCrossEntropy handle handle
  | OpCloneDetached handle

definition dense :: "'r runtime_scheme \<Rightarrow> handle \<Rightarrow> bool" where
  "dense s h = (case tensor_handle s h of None \<Rightarrow> False | Some r \<Rightarrow> direct (rt_heap s) r)"

definition map_array :: "(f32 \<Rightarrow> f32) \<Rightarrow> array option \<Rightarrow> array option" where
  "map_array f = map_option (\<lambda>(d, x). (d, map f x))"

definition loss :: "(int list \<Rightarrow> bool) \<Rightarrow> (int list \<Rightarrow> f32 list \<Rightarrow> f32 list \<Rightarrow> f32) \<Rightarrow>
    array option \<Rightarrow> array option \<Rightarrow> array option" where
  "loss accepts f a b = (case (a, b) of
       (Some (d, x), Some (e, y)) \<Rightarrow> if d = e \<and> accepts d then Some ([], [f d x y]) else None
     | _ \<Rightarrow> None)"

fun neural_result :: "libm \<Rightarrow> (handle \<Rightarrow> bool) \<Rightarrow> neural_op \<Rightarrow> array_store \<Rightarrow> array option" where
  "neural_result L D (OpRelu h) A = (if D h then map_array relu_value (A h) else None)"
| "neural_result L D (OpSigmoid h) A = (if D h then map_array (sigmoid_value L) (A h) else None)"
| "neural_result L D (OpTanh h) A = (if D h then map_array (tanhf L) (A h) else None)"
| "neural_result L D (OpGelu h) A = map_array (GeluForward L) (A h)"
| "neural_result L D (OpSilu h) A = map_array (SiluForward L) (A h)"
| "neural_result L D (OpSwiGlu h) A = (case A h of
       Some (d, x) \<Rightarrow>
         if can_gate d
         then Some (gated_dims d, swiglu_reference L (dims_prod (butlast d)) (nat (last d)) x)
         else None
     | None \<Rightarrow> None)"
| "neural_result L D (OpMse a b) A =
     (if D a \<and> D b then loss (\<lambda>_. True) (\<lambda>_. mse_reference) (A a) (A b) else None)"
| "neural_result L D (OpCrossEntropy a b) A =
     (if D a \<and> D b
      then loss (\<lambda>d. length d = 2) (\<lambda>d. cross_entropy_reference L (nat (d ! 0)) (nat (d ! 1))) (A a) (A b)
      else None)"
| "neural_result L D (OpCloneDetached h) A = A h"

fun run_neural :: "libm \<Rightarrow> neural_op \<Rightarrow> (handle, 'r) call" where
  "run_neural L (OpRelu h) = ts_tensor_relu L h"
| "run_neural L (OpSigmoid h) = ts_tensor_sigmoid L h"
| "run_neural L (OpTanh h) = ts_tensor_tanh L h"
| "run_neural L (OpGelu h) = ts_tensor_gelu L h"
| "run_neural L (OpSilu h) = ts_tensor_silu L h"
| "run_neural L (OpSwiGlu h) = ts_tensor_swiglu L h"
| "run_neural L (OpMse a b) = ts_mse_loss a b"
| "run_neural L (OpCrossEntropy a b) = ts_cross_entropy_loss L a b"
| "run_neural L (OpCloneDetached h) = ts_tensor_clone_detached h"

section \<open>Operations on the heap\<close>

lemma dense_handle: "tensor_handle s h = Some r \<Longrightarrow> dense s h = direct (rt_heap s) r"
  by (simp add: dense_def)

lemma dense_error [simp]: "dense (s\<lparr>rt_last_error := m\<rparr>) = dense s"
  by (simp add: dense_def fun_eq_iff split: option.split)

text \<open>A client's handle, with what the code finds behind it.\<close>

lemma implements_handle:
  assumes inv: "core_inv s"
    and none: "tensor_view s h = None \<Longrightarrow> spec = None"
    and some: "\<And>r. public (rt_heap s) r \<Longrightarrow> tensor_view s h = Some (array_of (rt_heap s) r) \<Longrightarrow>
      dense s h = direct (rt_heap s) r \<Longrightarrow> implements s spec (f r s)"
  shows "implements s spec (bindE (LookupTensor h) f s)"
  using inv
proof (cases rule: LookupTensor_cases [where h = h])
  case (missing m)
  then show ?thesis using none implements_fails [OF inv] by (simp add: bindE_Inl_run)
next
  case (found r)
  then show ?thesis using some [OF found(3,4) dense_handle [OF found(2)]] by (simp add: bindE_Inr_run)
qed

lemma refuses_view:
  assumes "wf_heap h" and "r < length (tensors h)" and "bindE (CpuValues r op) f h = (Inr x, h')"
  shows "direct h r"
proof (rule ccontr)
  assume "\<not> direct h r"
  moreover obtain m where "CpuValues r op h =
    (if direct h r then (Inr (logical_values h (tensor_at h r)), h) else (Inl (Failed (InvalidArgument m)), h))"
    using CpuValues_run [OF wf_heap_layout [OF assms(1,2)]] by blast
  ultimately show False using assms(3) by (simp add: bindE_def)
qed

lemma activation_implements:
  assumes inv: "core_inv s" and r: "public (rt_heap s) r" and op: "op \<in> {kRelu, kSigmoid, kTanh}"
  shows "implements s (if direct (rt_heap s) r then map_array (activation_value L op) (Some (array_of (rt_heap s) r))
      else None) (heapE (MakeActivation L r op) s)"
proof -
  note wf = core_invD(4) [OF inv] and rl = publicD(1) [OF r]
  show ?thesis
  proof (rule implements_heap [where m = "MakeActivation L r op", OF inv MakeActivation_yields [OF wf rl op]])
    fix x h' assume "MakeActivation L r op (rt_heap s) = (Inr x, h')"
    then have "direct (rt_heap s) r" unfolding MakeActivation_def by (rule refuses_view [OF wf rl])
    then show "(if direct (rt_heap s) r then map_array (activation_value L op) (Some (array_of (rt_heap s) r))
        else None) = Some (dims_of (tensor_at (rt_heap s) r),
          map (activation_value L op) (logical_values (rt_heap s) (tensor_at (rt_heap s) r)))"
      by (simp add: map_array_def array_of_def)
  next
    assume "alloc_plan (rt_heap s) = []" and "(if direct (rt_heap s) r
      then map_array (activation_value L op) (Some (array_of (rt_heap s) r)) else None) \<noteq> None"
    then show "succeeds (MakeActivation L r op) (rt_heap s)"
      by (intro MakeActivation_succeeds [OF wf _ rl _ op]) (simp_all split: if_splits)
  qed (use clean_record [of "[r]"] r in simp_all)
qed

lemma cpu_unary_implements:
  assumes inv: "core_inv s" and r: "public (rt_heap s) r" and op: "op \<in> {kGelu, kSilu}"
  shows "implements s (map_array f (Some (array_of (rt_heap s) r))) (heapE (CpuUnary r op name f) s)"
proof -
  note wf = core_invD(4) [OF inv] and rl = publicD(1) [OF r]
  show ?thesis
    by (rule implements_heap [where m = "CpuUnary r op name f", OF inv CpuUnary_yields [OF wf rl op]])
      (use clean_record [of "[r]"] r CpuUnary_succeeds [OF wf _ rl] in \<open>simp_all add: map_array_def array_of_def\<close>)
qed

lemma swiglu_implements:
  assumes inv: "core_inv s" and r: "public (rt_heap s) r" and d: "d = dims_of (tensor_at (rt_heap s) r)"
  shows "implements s (if can_gate d then Some (gated_dims d, swiglu_reference L (dims_prod (butlast d)) (nat (last d))
      (logical_values (rt_heap s) (tensor_at (rt_heap s) r))) else None) (heapE (SwiGlu L r) s)"
proof -
  note wf = core_invD(4) [OF inv] and rl = publicD(1) [OF r]
  have ref: "swiglu_result L d vs = swiglu_reference L (dims_prod (butlast d)) (nat (last d)) vs"
    if "can_gate d" for vs
  proof -
    have "0 < last d" "even (last d)"
      using gated_dims_valid(3) [OF tensor_shape_facts(1) [OF wf rl]] that d by (auto simp: can_gate_def)
    then have "even (nat (last d))" "nat (last d) div 2 = nat (last d div 2)" by (auto simp: even_nat_iff nat_div_distrib)
    then show ?thesis
      using swiglu_values_reference [of "nat (last d)" L "dims_prod (butlast d)" vs]
      by (simp add: swiglu_result_def gated_dims_def)
  qed
  show ?thesis
  proof (rule implements_heap [where m = "SwiGlu L r", OF inv SwiGlu_yields [OF wf rl, of L, folded d]])
    fix x h' assume "SwiGlu L r (rt_heap s) = (Inr x, h')"
    then have "can_gate d" using SwiGlu_run [OF wf rl, of L, folded d] by (auto split: if_splits)
    then show "(if can_gate d then Some (gated_dims d, swiglu_reference L (dims_prod (butlast d)) (nat (last d))
        (logical_values (rt_heap s) (tensor_at (rt_heap s) r))) else None) =
        Some (gated_dims d, swiglu_result L d (logical_values (rt_heap s) (tensor_at (rt_heap s) r)))"
      using ref by simp
  qed (use clean_record [of "[r]"] r SwiGlu_succeeds [OF wf _ rl] d in \<open>simp_all split: if_splits\<close>)
qed

lemma loss_implements:
  fixes cost :: "int list \<Rightarrow> f32 list \<Rightarrow> f32 list \<Rightarrow> f32"
  assumes inv: "core_inv s" and l: "public (rt_heap s) l" and r: "public (rt_heap s) r"
    and spec: "spec = (if direct (rt_heap s) l \<and> direct (rt_heap s) r
      then loss accepts cost (Some (array_of (rt_heap s) l)) (Some (array_of (rt_heap s) r)) else None)"
    and y: "yields (rt_heap s) [] [] [cost (dims_of (tensor_at (rt_heap s) l))
        (logical_values (rt_heap s) (tensor_at (rt_heap s) l)) (logical_values (rt_heap s) (tensor_at (rt_heap s) r))]
      (record_meta (rt_heap s) op [l, r]) (m (rt_heap s))"
    and run: "m (rt_heap s) = (if dims_of (tensor_at (rt_heap s) l) = dims_of (tensor_at (rt_heap s) r) \<and>
        accepts (dims_of (tensor_at (rt_heap s) l))
      then bindE (CpuValues l name) (\<lambda>xs. bindE (CpuValues r name) (\<lambda>ys.
        bindE (MakeScalar (cost (dims_of (tensor_at (rt_heap s) l)) xs ys)) (\<lambda>out.
        bindE (RecordBinary op l r out) (\<lambda>_. returnE out)))) (rt_heap s)
      else (Inl f, rt_heap s))"
  shows "implements s spec (heapE m s)"
proof (rule implements_heap [where m = m, OF inv y])
  note wf = core_invD(4) [OF inv] and ll = publicD(1) [OF l] and rl = publicD(1) [OF r]
  show "spec = Some ([], [cost (dims_of (tensor_at (rt_heap s) l))
      (logical_values (rt_heap s) (tensor_at (rt_heap s) l)) (logical_values (rt_heap s) (tensor_at (rt_heap s) r))])"
    if x: "m (rt_heap s) = (Inr x, h')" for x h'
  proof -
    have ok: "dims_of (tensor_at (rt_heap s) l) = dims_of (tensor_at (rt_heap s) r)"
      "accepts (dims_of (tensor_at (rt_heap s) l))"
      and x': "bindE (CpuValues l name) (\<lambda>xs. bindE (CpuValues r name) (\<lambda>ys.
        bindE (MakeScalar (cost (dims_of (tensor_at (rt_heap s) l)) xs ys)) (\<lambda>out.
        bindE (RecordBinary op l r out) (\<lambda>_. returnE out)))) (rt_heap s) = (Inr x, h')"
      using x run by (simp_all split: if_splits)
    have dl: "direct (rt_heap s) l" using refuses_view [OF wf ll x'] .
    have "direct (rt_heap s) r"
      using x' CpuValues_direct [OF wf_heap_layout [OF wf ll] dl]
      by (intro refuses_view [OF wf rl]) (simp add: bindE_Inr_run)
    then show ?thesis using dl ok spec by (simp add: loss_def array_of_def)
  qed
  show "succeeds m (rt_heap s)" if "alloc_plan (rt_heap s) = []" and "spec \<noteq> None"
  proof -
    have "direct (rt_heap s) l" "direct (rt_heap s) r" "dims_of (tensor_at (rt_heap s) l) = dims_of (tensor_at (rt_heap s) r)"
      "accepts (dims_of (tensor_at (rt_heap s) l))"
      using that(2) spec by (simp_all add: loss_def array_of_def split: if_splits)
    then show ?thesis
      using scalar_loss_succeeds [OF wf that(1) ll rl, of name "cost (dims_of (tensor_at (rt_heap s) l))" op] run
      unfolding succeeds_def by simp
  qed
qed (use clean_record [of "[l, r]"] l r in simp_all)

lemma mse_implements:
  assumes inv: "core_inv s" and l: "public (rt_heap s) l" and r: "public (rt_heap s) r"
  shows "implements s (if direct (rt_heap s) l \<and> direct (rt_heap s) r then loss (\<lambda>_. True) (\<lambda>_. mse_value)
      (Some (array_of (rt_heap s) l)) (Some (array_of (rt_heap s) r)) else None) (heapE (MseLoss l r) s)"
proof -
  note wf = core_invD(4) [OF inv] and ll = publicD(1) [OF l] and rl = publicD(1) [OF r]
  show ?thesis
    by (rule loss_implements [where cost = "\<lambda>_. mse_value" and m = "MseLoss l r", OF inv l r refl MseLoss_yields [OF wf ll rl]])
      (simp add: MseLoss_run [OF wf ll rl])
qed

lemma cross_entropy_implements:
  assumes inv: "core_inv s" and l: "public (rt_heap s) l" and r: "public (rt_heap s) r"
  shows "implements s (if direct (rt_heap s) l \<and> direct (rt_heap s) r then loss (\<lambda>d. length d = 2)
      (\<lambda>d. cross_entropy_value L (nat (d ! 0)) (nat (d ! 1)))
      (Some (array_of (rt_heap s) l)) (Some (array_of (rt_heap s) r)) else None)
    (heapE (CrossEntropyLoss L l r) s)"
proof -
  note wf = core_invD(4) [OF inv] and ll = publicD(1) [OF l] and rl = publicD(1) [OF r]
  let ?f = "InvalidShape (if dims_of (tensor_at (rt_heap s) l) \<noteq> dims_of (tensor_at (rt_heap s) r)
    then ''cross_entropy_loss: logits and one-hot target shapes must match''
    else ''cross_entropy_loss: initial contract requires rank-2 tensors'')"
  show ?thesis
    by (rule loss_implements [where cost = "\<lambda>d. cross_entropy_value L (nat (d ! 0)) (nat (d ! 1))"
          and m = "CrossEntropyLoss L l r" and name = "''cross_entropy_loss''" and f = "Failed ?f", OF inv l r refl CrossEntropyLoss_yields [OF wf ll rl]])
      (simp add: CrossEntropyLoss_run [OF wf ll rl])
qed

text \<open>The references compute the same.\<close>

lemma mse_array:
  assumes wf: "wf_heap h" and l: "l < length (tensors h)" and r: "r < length (tensors h)"
  shows "loss (\<lambda>_. True) (\<lambda>_. mse_reference) (Some (array_of h l)) (Some (array_of h r)) =
    loss (\<lambda>_. True) (\<lambda>_. mse_value) (Some (array_of h l)) (Some (array_of h r))"
  using tensor_shape_facts(3) [OF wf l] tensor_shape_facts(3) [OF wf r]
  by (simp add: loss_def array_of_def mse_value_reference)

lemma cross_entropy_array:
  assumes wf: "wf_heap h" and l: "l < length (tensors h)"
  shows "loss (\<lambda>d. length d = 2) (\<lambda>d. cross_entropy_reference L (nat (d ! 0)) (nat (d ! 1)))
      (Some (array_of h l)) (Some (array_of h r)) =
    loss (\<lambda>d. length d = 2) (\<lambda>d. cross_entropy_value L (nat (d ! 0)) (nat (d ! 1)))
      (Some (array_of h l)) (Some (array_of h r))"
proof -
  have "0 < dims_of (tensor_at h l) ! 1" if "length (dims_of (tensor_at h l)) = 2"
    using tensor_shape_facts(1) [OF wf l] that by (simp add: valid_dims_def)
  then show ?thesis by (auto simp: loss_def array_of_def cross_entropy_value_reference simp del: One_nat_def)
qed

section \<open>The exported functions\<close>

fun compute_neural :: "libm \<Rightarrow> neural_op \<Rightarrow> ('r, tensor_ref) rt" where
  "compute_neural L (OpMse a b) =
     bindE (LookupTensor a) (\<lambda>l. bindE (LookupTensor b) (\<lambda>r. heapE (MseLoss l r)))"
| "compute_neural L (OpCrossEntropy a b) =
     bindE (LookupTensor a) (\<lambda>l. bindE (LookupTensor b) (\<lambda>r. heapE (CrossEntropyLoss L l r)))"
| "compute_neural L (OpRelu h) = bindE (LookupTensor h) (\<lambda>r. heapE (Relu L r))"
| "compute_neural L (OpSigmoid h) = bindE (LookupTensor h) (\<lambda>r. heapE (Sigmoid L r))"
| "compute_neural L (OpTanh h) = bindE (LookupTensor h) (\<lambda>r. heapE (Tanh L r))"
| "compute_neural L (OpGelu h) = bindE (LookupTensor h) (\<lambda>r. heapE (Gelu L r))"
| "compute_neural L (OpSilu h) = bindE (LookupTensor h) (\<lambda>r. heapE (Silu L r))"
| "compute_neural L (OpSwiGlu h) = bindE (LookupTensor h) (\<lambda>r. heapE (SwiGlu L r))"
| "compute_neural L (OpCloneDetached h) = bindE (LookupTensor h) (\<lambda>r. heapE (CloneDetached r))"

lemma run_neural_compute:
  "\<exists>name message. \<forall>out s. run_neural L op out s =
     ts_function name (new_handle message (compute_neural L op)) out s"
  by (cases op) (auto simp: ts_tensor_relu_def ts_tensor_sigmoid_def ts_tensor_tanh_def ts_tensor_gelu_def
      ts_tensor_silu_def ts_tensor_swiglu_def ts_mse_loss_def ts_cross_entropy_loss_def
      ts_tensor_clone_detached_def RunTrainingUnary_def RunTrainingBinary_def)

lemma neural_unary_implements:
  assumes inv: "core_inv s"
    and none: "tensor_view s h = None \<Longrightarrow> spec = None"
    and some: "\<And>r. public (rt_heap s) r \<Longrightarrow> tensor_view s h = Some (array_of (rt_heap s) r) \<Longrightarrow>
      dense s h = direct (rt_heap s) r \<Longrightarrow> implements s spec (heapE (m r) s)"
  shows "implements s spec (bindE (LookupTensor h) (\<lambda>r. heapE (m r)) s)"
  by (rule implements_handle [OF inv]) (simp_all add: none some)

lemma clone_implements:
  assumes inv: "core_inv s" and r: "public (rt_heap s) r"
  shows "implements s (Some (array_of (rt_heap s) r)) (heapE (CloneDetached r) s)"
proof -
  note wf = core_invD(4) [OF inv] and rl = publicD(1) [OF r]
  show ?thesis
    by (rule implements_heap [where m = "CloneDetached r", OF inv CloneDetached_yields [OF wf rl]])
      (use CloneDetached_ok [OF _ wf_heap_layout [OF wf rl]] in \<open>auto simp: clean_None array_of_def succeeds_def\<close>)
qed

lemma map_array_None [simp]: "map_array f None = None"
  by (simp add: map_array_def)

lemma neural_activation_implements:
  assumes inv: "core_inv s" and op: "op \<in> {kRelu, kSigmoid, kTanh}" and f: "activation_value L op = f"
  shows "implements s (if dense s h then map_array f (tensor_view s h) else None)
    (bindE (LookupTensor h) (\<lambda>r. heapE (MakeActivation L r op)) s)"
proof (rule neural_unary_implements [OF inv])
  fix r assume r: "public (rt_heap s) r" "tensor_view s h = Some (array_of (rt_heap s) r)" "dense s h = direct (rt_heap s) r"
  show "implements s (if dense s h then map_array f (tensor_view s h) else None) (heapE (MakeActivation L r op) s)"
    unfolding r(2,3) f [symmetric] by (rule activation_implements [OF inv r(1) op])
qed simp

lemma neural_implements_unary:
  assumes inv: "core_inv s" and op: "\<forall>a b. op \<noteq> OpMse a b \<and> op \<noteq> OpCrossEntropy a b"
  shows "implements s (neural_result L (dense s) op (tensor_view s)) (compute_neural L op s)"
proof (cases op)
  case (OpRelu h)
  show ?thesis unfolding OpRelu compute_neural.simps neural_result.simps Relu_def
    by (rule neural_activation_implements [OF inv]) (simp_all add: fun_eq_iff)
next
  case (OpSigmoid h)
  show ?thesis unfolding OpSigmoid compute_neural.simps neural_result.simps Sigmoid_def
    by (rule neural_activation_implements [OF inv]) (simp_all add: fun_eq_iff)
next
  case (OpTanh h)
  show ?thesis unfolding OpTanh compute_neural.simps neural_result.simps Tanh_def
    by (rule neural_activation_implements [OF inv]) (simp_all add: fun_eq_iff)
next
  case (OpGelu h)
  show ?thesis unfolding OpGelu compute_neural.simps Gelu_def
    by (intro neural_unary_implements [OF inv]) (simp_all add: cpu_unary_implements [OF inv])
next
  case (OpSilu h)
  show ?thesis unfolding OpSilu compute_neural.simps Silu_def
    by (intro neural_unary_implements [OF inv]) (simp_all add: cpu_unary_implements [OF inv])
next
  case (OpSwiGlu h)
  show ?thesis unfolding OpSwiGlu compute_neural.simps
  proof (rule neural_unary_implements [OF inv])
    fix r assume r: "public (rt_heap s) r" "tensor_view s h = Some (array_of (rt_heap s) r)"
    show "implements s (neural_result L (dense s) (OpSwiGlu h) (tensor_view s)) (heapE (SwiGlu L r) s)"
      using swiglu_implements [OF inv r(1) refl, of L] r(2) by (simp only: neural_result.simps array_of_def option.case prod.case)
  qed simp
next
  case (OpCloneDetached h)
  show ?thesis unfolding OpCloneDetached compute_neural.simps
    by (intro neural_unary_implements [OF inv]) (simp_all add: clone_implements [OF inv])
qed (use op in simp_all)

lemma neural_implements_loss:
  assumes inv: "core_inv s"
    and heap: "\<And>l r. public (rt_heap s) l \<Longrightarrow> public (rt_heap s) r \<Longrightarrow>
      implements s (if direct (rt_heap s) l \<and> direct (rt_heap s) r
        then loss accepts f (Some (array_of (rt_heap s) l)) (Some (array_of (rt_heap s) r)) else None) (heapE (m l r) s)"
  shows "implements s (if dense s a \<and> dense s b then loss accepts f (tensor_view s a) (tensor_view s b) else None)
    (bindE (LookupTensor a) (\<lambda>l. bindE (LookupTensor b) (\<lambda>r. heapE (m l r))) s)"
proof (rule implements_handle [OF inv])
  fix l assume l: "public (rt_heap s) l" "tensor_view s a = Some (array_of (rt_heap s) l)" "dense s a = direct (rt_heap s) l"
  show "implements s (if dense s a \<and> dense s b then loss accepts f (tensor_view s a) (tensor_view s b) else None)
    (bindE (LookupTensor b) (\<lambda>r. heapE (m l r)) s)"
  proof (rule implements_handle [OF inv])
    fix r assume r: "public (rt_heap s) r" "tensor_view s b = Some (array_of (rt_heap s) r)" "dense s b = direct (rt_heap s) r"
    show "implements s (if dense s a \<and> dense s b then loss accepts f (tensor_view s a) (tensor_view s b) else None)
      (heapE (m l r) s)" unfolding l(2,3) r(2,3) by (rule heap [OF l(1) r(1)])
  qed (use l in \<open>simp add: loss_def\<close>)
qed (simp add: loss_def)

lemma compute_neural_implements:
  assumes inv: "core_inv s"
  shows "implements s (neural_result L (dense s) op (tensor_view s)) (compute_neural L op s)"
proof (cases "\<exists>a b. op = OpMse a b \<or> op = OpCrossEntropy a b")
  case True
  note wf = core_invD(4) [OF inv]
  have "implements s (neural_result L (dense s) (OpMse a b) (tensor_view s)) (compute_neural L (OpMse a b) s)" for a b
    unfolding neural_result.simps compute_neural.simps
    using mse_implements [OF inv] by (intro neural_implements_loss [OF inv]) (simp add: mse_array [OF wf] publicD(1) split del: if_split cong: if_cong)
  moreover have "implements s (neural_result L (dense s) (OpCrossEntropy a b) (tensor_view s))
      (compute_neural L (OpCrossEntropy a b) s)" for a b
    unfolding neural_result.simps compute_neural.simps
    using cross_entropy_implements [OF inv]
    by (intro neural_implements_loss [OF inv]) (simp add: cross_entropy_array [OF wf] publicD(1) del: One_nat_def split del: if_split cong: if_cong)
  ultimately show ?thesis using True by blast
qed (use neural_implements_unary [OF inv] in auto)

section \<open>Modules\<close>

text \<open>The array of a forward pass, given the state of the module and the arrays of its parameters.\<close>

definition forward_result :: "linear_state \<Rightarrow> f32 list \<Rightarrow> f32 list option \<Rightarrow> array \<Rightarrow> array option" where
  "forward_result m w b = (\<lambda>(d, x).
     if length d = 2 \<and> d ! 1 = in_features m \<and> valid_dims [d ! 0, out_features m]
     then Some ([d ! 0, out_features m],
       linear_reference (nat (d ! 0)) (nat (in_features m)) (nat (out_features m)) x w b)
     else None)"

definition bias_values :: "heap \<Rightarrow> linear_state \<Rightarrow> f32 list option" where
  "bias_values h m = (if use_bias m then Some (logical_values h (tensor_at h (the (ls_bias m)))) else None)"

lemma added_direct:
  assumes adds: "adds_tensor h h' (canonical_shape d) vs None" and "valid_dims d" and "length vs = dims_prod d"
  shows "direct h' (length (tensors h))"
  using adds_tensor_facts [OF adds] assms(2,3)
  by (simp add: direct_def is_contiguous_def row_major_is_contiguous del: One_nat_def)

lemma AttachNode_direct:
  assumes "AttachNode r op ps h = (Inr u, h')" and "r < length (tensors h)" and "direct h r"
  shows "direct h' r"
  using assms(1)
proof (cases rule: AttachNode_cases)
  case attached
  then show ?thesis
    using assms(2,3) by (cases "record_meta h op ps") (simp_all add: direct_def is_contiguous_def)
qed simp

lemma Matmul_direct:
  assumes wf: "wf_heap h" and ok: "alloc_plan h = []" and l: "l < length (tensors h)"
    and r: "r < length (tensors h)" and ld: "dims_of (tensor_at h l) = [m, k]"
    and rd: "dims_of (tensor_at h r) = [k, n]" and valid: "valid_dims [m, n]"
    and run: "CpuBackend_Matmul l r h = (Inr x, h')"
  shows "direct h' x"
proof -
  let ?d = "[m, n]" and ?vs = "matmul_values (nat m) (nat k) (nat n) (logical_values h (tensor_at h l))
    (logical_values h (tensor_at h r))"
  let ?h1 = "h\<lparr>storages := storages h @ [CpuStorage ?vs]\<rparr>"
  have v: "ValidateShape (Some ?d) 2 = Inr (canonical_shape ?d)"
    using ValidateShape_pointer [OF valid] by (simp add: dims_pointer_def numeral_2_eq_2)
  have run': "bindE (MakeTensor (canonical_shape ?d) (length (storages h)))
      (\<lambda>out. bindE (AttachNode out kMatmul [l, r]) (\<lambda>_. returnE out)) ?h1 = (Inr x, h')"
    using run assms v by (simp add: CpuBackend_Matmul_def ok_simps store_result_def write_values_def
        CpuStorage_Filled_ok bindE_assoc)
  obtain out h2 where mt: "MakeTensor (canonical_shape ?d) (length (storages h)) ?h1 = (Inr out, h2)"
    using run' by (auto elim: bindE_InrE)
  then have at: "AttachNode out kMatmul [l, r] h2 = (Inr (), h') \<and> x = out"
    using run' by (auto simp: bindE_def returnE_run split: prod.splits sum.splits)
  have "adds_tensor h h2 (canonical_shape ?d) ?vs None \<and> out = length (tensors h)"
    using valid_dims_i64 [OF valid] by (rule_tac MakeTensor_cases [OF mt, of h ?vs]) auto
  then have adds: "adds_tensor h h2 (canonical_shape ?d) ?vs None" and out: "out = length (tensors h)" by simp_all
  note f = adds_tensor_facts [OF adds]
  have len: "length ?vs = dims_prod ?d" by simp
  have "direct h2 out" "out < length (tensors h2)" using added_direct [OF adds valid len] f out by simp_all
  then show ?thesis using AttachNode_direct at by blast
qed

lemma ValidateModuleInput_run:
  assumes "wf_heap h" and "r < length (tensors h)"
  shows "\<exists>f. ValidateModuleInput m r h =
    (if length (dims_of (tensor_at h r)) = 2 \<and> dims_of (tensor_at h r) ! 1 = in_features m then Inr () else Inl f, h)"
  using layout_ok_ensure [OF wf_heap_layout [OF assms]]
  by (auto simp: ValidateModuleInput_def checkE_run)

lemma extends_runtime_trans: "extends_runtime s s1 \<Longrightarrow> extends_runtime s1 s2 \<Longrightarrow> extends_runtime s s2"
  unfolding extends_runtime_def
proof (elim exE conjE)
  fix h1 h2
  assume "s1 = s\<lparr>rt_heap := h1\<rparr>" "s2 = s1\<lparr>rt_heap := h2\<rparr>" "heap_inv h2" "heap_extends (rt_heap s) h1"
    "heap_extends (rt_heap s1) h2" "\<forall>p. public (rt_heap s) p \<longrightarrow> public h1 p" "\<forall>p. public (rt_heap s1) p \<longrightarrow> public h2 p"
  then show "\<exists>h'. s2 = s\<lparr>rt_heap := h'\<rparr> \<and> heap_inv h' \<and> heap_extends (rt_heap s) h' \<and>
      (\<forall>p. public (rt_heap s) p \<longrightarrow> public h' p)"
    by (intro exI [of _ h2]) (auto intro: ext.frame_trans)
qed

text \<open>The product and the bias: two tensors are made, the second is the result.\<close>

lemma product_bias_implements:
  assumes inv: "core_inv s" and r: "public (rt_heap s) r" and w: "public (rt_heap s) w" and b: "public (rt_heap s) b"
    and rd: "dims_of (tensor_at (rt_heap s) r) = [m, k]" and wd: "dims_of (tensor_at (rt_heap s) w) = [k, n]"
    and bd: "dims_of (tensor_at (rt_heap s) b) = [n]" and db: "direct (rt_heap s) b"
  shows "implements s (if valid_dims [m, n] then Some ([m, n], linear_reference (nat m) (nat k) (nat n)
      (logical_values (rt_heap s) (tensor_at (rt_heap s) r)) (logical_values (rt_heap s) (tensor_at (rt_heap s) w))
      (Some (logical_values (rt_heap s) (tensor_at (rt_heap s) b)))) else None)
    (heapE (bindE (CpuBackend_Matmul r w) (\<lambda>x. AddBias x b)) s)" (is "implements s ?spec _")
proof -
  let ?h = "rt_heap s"
  let ?x = "logical_values ?h (tensor_at ?h r)" and ?w = "logical_values ?h (tensor_at ?h w)"
  note wf = core_invD(4) [OF inv] and rl = publicD(1) [OF r] and wl = publicD(1) [OF w] and bl = publicD(1) [OF b]
  have mm: "matmul_result ?h r w = matmul_values (nat m) (nat k) (nat n) ?x ?w"
    using rd wd by (simp add: matmul_result_def)
  obtain res h1 where run1: "CpuBackend_Matmul r w ?h = (res, h1)" by force
  have y: "yields ?h [] [m, n] (matmul_values (nat m) (nat k) (nat n) ?x ?w) (record_meta ?h kMatmul [r, w]) (res, h1)"
    using Matmul_yields [OF wf rl wl] run1 rd wd mm by simp
  have cl: "clean_meta ?h (record_meta ?h kMatmul [r, w])" using r w by (intro clean_record) simp
  note s1 = heap_sound [OF inv y _ cl]
  have pub: "public ?h p \<Longrightarrow> public h1 p" for p
    using yields_safe(1) [OF core_invD(1) [OF inv] y _ cl] by (simp add: safe_def)
  have e1: "extends_runtime s (s\<lparr>rt_heap := h1\<rparr>)" by (rule s1(1)) simp
  show ?thesis
  proof (cases res)
    case (Inl f)
    then have "heapE (bindE (CpuBackend_Matmul r w) (\<lambda>x. AddBias x b)) s = (Inl f, s\<lparr>rt_heap := h1\<rparr>)"
      using run1 by (simp add: heapE_def bindE_Inl_run)
    moreover have "\<not> (alloc_plan ?h = [] \<and> valid_dims [m, n])"
      using Matmul_succeeds [OF wf _ rl wl rd wd] run1 Inl by (auto simp: succeeds_def)
    ultimately show ?thesis using e1 by (auto simp: implements_def)
  next
    case (Inr x)
    let ?s1 = "s\<lparr>rt_heap := h1\<rparr>"
    have x: "public h1 x" "array_of h1 x = ([m, n], matmul_values (nat m) (nat k) (nat n) ?x ?w)" "valid_dims [m, n]"
      using s1(2) [OF _ Inr] by simp_all
    note v1 = extends_runtime_view [OF inv e1]
    have wf1: "wf_heap h1" and b1: "public h1 b" "array_of h1 b = array_of ?h b" and ext: "heap_extends ?h h1"
      using yieldsD(1,2) [OF y] pub [OF b] array_of_extends [OF wf _ bl, of h1] by simp_all
    have xd: "dims_of (tensor_at h1 x) = [m, n]" "dims_of (tensor_at h1 b) = [n]"
      using x(2) b1(2) bd by (simp_all add: array_of_def)
    have "bias_result h1 x b = add_bias_values (nat m) (nat n) (logical_values h1 (tensor_at h1 x)) (logical_values h1 (tensor_at h1 b))"
      using xd by (simp add: bias_result_def)
    then have br: "bias_result h1 x b = linear_reference (nat m) (nat k) (nat n) ?x ?w (Some (logical_values ?h (tensor_at ?h b)))"
      using x(2) b1(2) linear_values_reference(2) by (simp add: array_of_def)
    obtain res2 h2 where run2: "AddBias x b h1 = (res2, h2)" by force
    have y2: "yields h1 [] [m, n] (bias_result h1 x b) (record_meta h1 kBiasAdd [x, b]) (res2, h2)"
      using AddBias_yields [OF wf1 publicD(1) [OF x(1)] publicD(1) [OF b1(1)]] run2 xd by simp
    have "clean_meta h1 (record_meta h1 kBiasAdd [x, b])" using x b1 by (intro clean_record) simp
    note s2 = heap_sound [of ?s1, simplified, OF v1(1) y2 _ this]
    have "extends_runtime s (s\<lparr>rt_heap := h2\<rparr>)" using extends_runtime_trans [OF e1] s2(1) by simp
    moreover have "public h2 z \<and> ?spec = Some (array_of h2 z)" if "res2 = Inr z" for z
      using s2(2) [OF _ that] br x(3) by simp
    moreover have "\<exists>z. res2 = Inr z" if plan: "alloc_plan ?h = []"
    proof -
      have "alloc_plan h1 = []" using Matmul_succeeds [OF wf plan rl wl rd wd x(3)] run1 by (auto simp: succeeds_def)
      moreover have "direct h1 x" using Matmul_direct [OF wf plan rl wl rd wd x(3)] run1 Inr by simp
      moreover have "direct h1 b" using persists_direct [OF persists_extends [OF ext] bl wf_heap_layout [OF wf bl] db] .
      ultimately have "succeeds (AddBias x b) h1"
        using xd by (intro AddBias_succeeds [OF wf1 _ publicD(1) [OF x(1)] publicD(1) [OF b1(1)]]) simp_all
      then show ?thesis using run2 by (auto simp: succeeds_def)
    qed
    moreover have "heapE (bindE (CpuBackend_Matmul r w) (\<lambda>x. AddBias x b)) s = (res2, s\<lparr>rt_heap := h2\<rparr>)"
      using run1 run2 Inr by (simp add: heapE_def bindE_Inr_run)
    ultimately show ?thesis by (simp add: implements_def)
  qed
qed

lemma linear_implements:
  assumes inv: "core_inv s" and m: "module_ok (rt_heap s) m" and r: "public (rt_heap s) r"
  shows "implements s (forward_result m (logical_values (rt_heap s) (tensor_at (rt_heap s) (ls_weight m)))
      (bias_values (rt_heap s) m) (array_of (rt_heap s) r)) (heapE (linear_forward m r) s)"
    (is "implements s ?spec _")
proof -
  let ?h = "rt_heap s"
  let ?d = "dims_of (tensor_at ?h r)" and ?w = "ls_weight m"
  note wf = core_invD(4) [OF inv] and rl = publicD(1) [OF r]
  have w: "public ?h ?w" using m by (simp add: module_ok_def parameter_ok_def)
  note wl = publicD(1) [OF w] and wd = module_dims(1) [OF m]
  obtain f where v: "ValidateModuleInput m r ?h =
      (if length ?d = 2 \<and> ?d ! 1 = in_features m then Inr () else Inl f, ?h)"
    using ValidateModuleInput_run [OF wf rl] by blast
  show ?thesis
  proof (cases "length ?d = 2 \<and> ?d ! 1 = in_features m")
    case False
    then have "heapE (linear_forward m r) s = (Inl f, s)" and "?spec = None"
      using v by (auto simp: heapE_def linear_forward_def bindE_Inl_run forward_result_def array_of_def)
    then show ?thesis using implements_fails [OF inv] by simp
  next
    case dd: True
    then have d: "?d = [?d ! 0, in_features m]" by (auto simp: length_Suc_conv numeral_2_eq_2)
    have run: "linear_forward m r ?h = bindE (CpuBackend_Matmul r ?w) (\<lambda>linear.
        if \<not> use_bias m then returnE linear else AddBias linear (the (ls_bias m))) ?h"
      using v dd by (simp add: linear_forward_def bindE_Inr_run Dispatcher_For_def)
    show ?thesis
    proof (cases "use_bias m")
      case True
      then obtain b where b: "ls_bias m = Some b" "public ?h b" "dims_of (tensor_at ?h b) = [out_features m]" "direct ?h b"
        using m by (auto simp: module_ok_def parameter_ok_def split: option.splits)
      have "?spec = (if valid_dims [?d ! 0, out_features m] then Some ([?d ! 0, out_features m],
          linear_reference (nat (?d ! 0)) (nat (in_features m)) (nat (out_features m)) (logical_values ?h (tensor_at ?h r))
            (logical_values ?h (tensor_at ?h ?w)) (Some (logical_values ?h (tensor_at ?h b)))) else None)"
        using dd True b(1) by (simp add: forward_result_def bias_values_def array_of_def)
      moreover have "heapE (linear_forward m r) s = heapE (bindE (CpuBackend_Matmul r ?w) (\<lambda>x. AddBias x b)) s"
        using run True b(1) by (simp add: heapE_def)
      ultimately show ?thesis using product_bias_implements [OF inv r w b(2) d wd b(3,4)] by simp
    next
      case False
      have eq: "linear_forward m r ?h = CpuBackend_Matmul r ?w ?h" using run False by (simp add: bindE_def returnE_def split: prod.split sum.split)
      show ?thesis
      proof (rule implements_heap [where m = "linear_forward m r", OF inv Matmul_yields [OF wf rl wl, folded eq]])
        show "succeeds (linear_forward m r) ?h" if "alloc_plan ?h = []" "?spec \<noteq> None"
          using that Matmul_succeeds [OF wf that(1) rl wl d wd] eq d
          by (simp add: forward_result_def array_of_def succeeds_def split: if_splits)
        show "?spec = Some ([?d ! 0, dims_of (tensor_at ?h ?w) ! 1], matmul_result ?h r ?w)"
          if "valid_dims [?d ! 0, dims_of (tensor_at ?h ?w) ! 1]"
          using that d dd wd False linear_values_reference(1)
          by (simp add: forward_result_def array_of_def bias_values_def matmul_result_def)
      qed (use clean_record [of "[r, ?w]"] r w in simp_all)
    qed
  qed
qed

text \<open>C7: The exported activations, losses and copies implement an abstract array machine.  Seen through
  the handles a client holds, a call that returns OK has registered one new handle for exactly the
  array the machine computes, the losses being computed row by row in double precision; a call that
  returns anything else has changed no handle and no array.  When the machine defines a result, no
  allocation fails and a handle is left, the call returns OK.  Relu, sigmoid, tanh and the losses are
  defined on dense operands only, gelu, silu, swiglu and copies on views too.\<close>

theorem neural_api_refines_array_machine:
  assumes "core_inv s" and "run_neural L op (Some v) s = (code, out', s')"
  shows "core_inv s' \<and> heap_extends (rt_heap s) (rt_heap s') \<and>
    (if code = Some TS_OK
     then rt_last_error s' = [] \<and> (\<exists>h a. out' = Some h \<and> h \<noteq> 0 \<and> tensor_handle s h = None \<and>
       neural_result L (dense s) op (tensor_view s) = Some a \<and> tensor_view s' = (tensor_view s)(h \<mapsto> a))
     else out' = Some 0 \<and> tensor_view s' = tensor_view s \<and> rt_registry s' = rt_registry s \<and>
       (code \<noteq> None \<longrightarrow> rt_last_error s' \<noteq> [])) \<and>
    (neural_result L (dense s) op (tensor_view s) \<noteq> None \<and> alloc_plan (rt_heap s) = [] \<and>
       next_handle (rt_registry s) \<noteq> - 1 \<longrightarrow> code = Some TS_OK)"
proof -
  let ?s0 = "s\<lparr>rt_last_error := []\<rparr>" and ?spec = "neural_result L (dense s) op (tensor_view s)"
  obtain name message where run: "\<And>out s. run_neural L op out s =
      ts_function name (new_handle message (compute_neural L op)) out (s :: 'a runtime_scheme)"
    using run_neural_compute by meson
  have imp: "implements ?s0 ?spec (compute_neural L op ?s0)"
    using compute_neural_implements [of ?s0 L op] assms(1) by simp
  have "handle_post s ?spec (code, out', s')"
    using new_handle_post [where compute = "compute_neural L op", OF assms(1) imp, of name message v] assms(2) run by simp
  moreover have "code = Some TS_OK" if "?spec \<noteq> None" "alloc_plan (rt_heap s) = []" "next_handle (rt_registry s) \<noteq> - 1"
    using new_handle_ok [where compute = "compute_neural L op", OF assms(1) that(1,2) imp that(3), of name message v] assms(2) run by simp
  ultimately show ?thesis unfolding handle_post_def prod.case by blast
qed

lemma demo_dense: "direct demo_heap 0" "logical_values demo_heap (tensor_at demo_heap 0) = demo_values"
  "dense demo_runtime 1"
proof -
  show d: "direct demo_heap 0" by (simp add: direct_def is_contiguous_def row_major_def)
  show "logical_values demo_heap (tensor_at demo_heap 0) = demo_values"
    using direct_values [OF wf_heap_layout [OF demo_heap_wf, of 0] d] by simp
  show "dense demo_runtime 1" using d by (simp add: dense_def demo_handles)
qed

theorem neural_api_refines_array_machine_witness:
  "\<exists>h s'. run_neural demo_libm (OpCrossEntropy 1 1) (Some 7) demo_runtime = (Some TS_OK, Some h, s') \<and>
    tensor_view s' h = Some ([], [cross_entropy_reference demo_libm 2 3 demo_values demo_values])"
proof -
  obtain code out' s' where run: "run_neural demo_libm (OpCrossEntropy 1 1) (Some 7) demo_runtime = (code, out', s')"
    by (metis prod.exhaust)
  have v: "neural_result demo_libm (dense demo_runtime) (OpCrossEntropy 1 1) (tensor_view demo_runtime) =
      Some ([], [cross_entropy_reference demo_libm 2 3 demo_values demo_values])"
    using demo_dense by (simp add: demo_view loss_def)
  show ?thesis
    using neural_api_refines_array_machine [OF demo_core_inv run] run v by (auto simp: demo_runtime_def)
qed

text \<open>C8: The forward pass of a linear module computes X W + b: entry (i, j) is the left-to-right dot
  product of row i of the input with column j of the weight, plus entry j of the bias.  A call that
  returns OK has registered one new handle for that array; it fails, without changing a handle or an
  array, when the input is not a matrix with as many columns as the module has input features, and it
  succeeds whenever it is, if no allocation fails and a handle is left.\<close>

theorem module_forward_computes:
  assumes "train_inv s" and "live s kModule a m" and "ts_module_forward a h (Some v) s = (code, out', s')"
  shows "core_inv s' \<and> heap_extends (rt_heap s) (rt_heap s') \<and>
    (case Option.bind (tensor_view s h) (forward_result (module_at s m)
         (logical_values (rt_heap s) (tensor_at (rt_heap s) (ls_weight (module_at s m))))
         (bias_values (rt_heap s) (module_at s m))) of
       None \<Rightarrow> code \<noteq> Some TS_OK
     | Some y \<Rightarrow> (code = Some TS_OK \<longrightarrow> (\<exists>k. out' = Some k \<and> k \<noteq> 0 \<and> tensor_handle s k = None \<and>
           tensor_view s' = (tensor_view s)(k \<mapsto> y))) \<and>
         (alloc_plan (rt_heap s) = [] \<and> next_handle (rt_registry s) \<noteq> - 1 \<longrightarrow> code = Some TS_OK)) \<and>
    (code \<noteq> Some TS_OK \<longrightarrow> out' = Some 0 \<and> tensor_view s' = tensor_view s \<and> rt_registry s' = rt_registry s)"
    (is "_ \<and> _ \<and> (case ?spec of None \<Rightarrow> _ | Some y \<Rightarrow> _ y) \<and> _")
proof -
  let ?s0 = "s\<lparr>rt_last_error := []\<rparr>"
  let ?compute = "bindE (LookupTensor h) (\<lambda>input_object. ModuleForward a input_object)"
  have inv: "core_inv s" using train_core_inv [OF assms(1)] .
  have live0: "LookupModule a ?s0 = (Inr m, ?s0)"
    unfolding LookupModule_def using train_invD(2) [OF assms(1)] assms(2) by (intro live_lookup) simp_all
  have "module_ok (rt_heap ?s0) (module_at s m)" using live_module [OF assms(1,2)] by simp
  have imp: "implements ?s0 ?spec (?compute ?s0)"
  proof (rule implements_handle)
    show "core_inv ?s0" using inv by simp
    fix r assume r: "public (rt_heap ?s0) r" "tensor_view ?s0 h = Some (array_of (rt_heap ?s0) r)"
    have "ModuleForward a r ?s0 = heapE (linear_forward (module_at s m) r) ?s0"
      using live0 by (simp add: ModuleForward_def bindE_Inr_run module_at_def)
    then show "implements ?s0 ?spec (ModuleForward a r ?s0)"
      using linear_implements [of ?s0, OF _ _ r(1)] live_module [OF assms(1,2)] inv r(2) by simp
  qed simp
  note name = ts_module_forward_def
  have "handle_post s ?spec (code, out', s')"
    using new_handle_post [where compute = ?compute, OF inv imp] assms(3) unfolding name by metis
  moreover have "code = Some TS_OK" if "?spec \<noteq> None" "alloc_plan (rt_heap s) = []" "next_handle (rt_registry s) \<noteq> - 1"
    using new_handle_ok [where compute = ?compute, OF inv that(1,2) imp that(3)] assms(3) unfolding name by (metis fst_conv)
  ultimately show ?thesis
    by (cases ?spec) (auto simp: handle_post_def split: if_splits)
qed

theorem module_forward_computes_witness:
  "\<exists>k s'. ts_module_forward 1 4 (Some 0) demo_training = (Some TS_OK, Some k, s') \<and>
    tensor_view s' k = Some ([1, 2], linear_reference 1 1 2 [0x3F800000] [0x3F800000, 0x40000000]
      (Some [0x3F000000, 0x3F800000]))"
proof -
  obtain code out' s' where run: "ts_module_forward 1 4 (Some 0) demo_training = (code, out', s')"
    by (metis prod.exhaust)
  have live: "live demo_training kModule 1 0" by (simp add: live_def demo_training_def)
  have vals: "logical_values demo_training_heap (tensor_at demo_training_heap i) =
      cpu_values (storage_of demo_training_heap (tensor_at demo_training_heap i))" if "i < 5" for i
    using direct_values [OF wf_heap_layout [OF demo_training_wf, of i] demo_training_direct [of i]] that by simp
  have view: "tensor_view demo_training 4 = Some ([1, 1], [0x3F800000])"
    using vals [of 3] by (simp add: tensor_view_def tensor_handle_def array_of_def demo_training_def)
  have "next_handle (rt_registry demo_training) \<noteq> - 1" by (simp add: demo_training_def)
  then show ?thesis
    using module_forward_computes [OF demo_training_inv live run] run view vals [of 0] vals [of 1] demo_training_dims(1)
    by (auto simp: module_at_def forward_result_def bias_values_def)
qed

end
