(* ===== verification/Torch_Runtime.thy ===== *)
theory Torch_Runtime
  imports Training_Api
begin

text \<open>
  The build with LibTorch: its state, the guards around LibTorch, devices, and the storage that holds
  a LibTorch tensor (\<open>native/src/training/torch_backend.h\<close>, \<open>torch_backend.cc\<close>, \<open>torch_storage.h\<close>,
  \<open>torch_storage.cc\<close>).

  LibTorch is not part of the repository: what the code calls of it is the record \<open>libtorch\<close>, a
  parameter.  A \<open>torch::Tensor\<close> is a reference of an arbitrary type \<open>'t\<close> into a world \<open>'w\<close> that holds
  everything LibTorch keeps (values, gradients, its random engine); modules and optimizers of LibTorch
  are references \<open>'m\<close> and \<open>'o\<close>.  A call reads and changes the world and may throw; a query only reads.
  An expression such as \<open>value.detach().clone()\<close> is one call.
\<close>

section \<open>LibTorch\<close>

text \<open>\<open>c10::Error\<close> is what the guards catch; anything else passes them.\<close>

datatype torch_exception = C10Error string | OtherException cxx_exception

type_synonym ('w, 'a) torch_call = "('w, torch_exception, 'a) exec"

datatype device_type =
    DeviceTypeCPU | DeviceTypeCUDA | DeviceTypeMPS | DeviceTypeXPU | DeviceTypeHIP | OtherDeviceType nat

text \<open>A \<open>torch::Device\<close>: its type and its index, which is -1 when it has none.\<close>

type_synonym torch_device = "device_type \<times> int"

text \<open>\<open>lt_max_device_index\<close> is the largest value of \<open>c10::DeviceIndex\<close>.\<close>

record ('t, 'w) libtorch_devices =
  lt_max_device_index :: int
  lt_getAccelerator :: "('w, device_type option) torch_call"
  lt_deviceCount :: "('w, int) torch_call"
  lt_defined :: "'t \<Rightarrow> 'w \<Rightarrow> bool"
  lt_is_float32 :: "'t \<Rightarrow> 'w \<Rightarrow> bool"
  lt_sizes :: "'t \<Rightarrow> 'w \<Rightarrow> int list"
  lt_numel :: "'t \<Rightarrow> 'w \<Rightarrow> int"
  lt_device :: "'t \<Rightarrow> 'w \<Rightarrow> torch_device"
  lt_impl :: "'t \<Rightarrow> nat"
  lt_expired :: "nat \<Rightarrow> 'w \<Rightarrow> bool"
  lt_requires_grad :: "'t \<Rightarrow> 'w \<Rightarrow> bool"
  lt_is_leaf :: "'t \<Rightarrow> 'w \<Rightarrow> bool"
  lt_grad :: "'t \<Rightarrow> 'w \<Rightarrow> 't"
  lt_host :: "'t \<Rightarrow> ('w, 't) torch_call"
  lt_data :: "'t \<Rightarrow> 'w \<Rightarrow> f32 list"
  lt_from_blob_clone :: "f32 list \<Rightarrow> int list \<Rightarrow> ('w, 't) torch_call"
  lt_to :: "'t \<Rightarrow> torch_device \<Rightarrow> ('w, 't) torch_call"
  lt_clone :: "'t \<Rightarrow> ('w, 't) torch_call"
  lt_detach_clone :: "'t \<Rightarrow> ('w, 't) torch_call"
  lt_copy :: "'t \<Rightarrow> 't \<Rightarrow> ('w, unit) torch_call"
  lt_set_requires_grad :: "'t \<Rightarrow> bool \<Rightarrow> ('w, unit) torch_call"
  lt_clear_grad :: "'t \<Rightarrow> ('w, unit) torch_call"
  lt_backward :: "'t \<Rightarrow> ('w, unit) torch_call"

record ('t, 'w) libtorch_ops = "('t, 'w) libtorch_devices" +
  lt_manual_seed :: "int \<Rightarrow> ('w, unit) torch_call"
  lt_full :: "int list \<Rightarrow> f32 \<Rightarrow> ('w, 't) torch_call"
  lt_reshape_clone :: "'t \<Rightarrow> int list \<Rightarrow> ('w, 't) torch_call"
  lt_transpose_contiguous :: "'t \<Rightarrow> ('w, 't) torch_call"
  lt_add :: "'t \<Rightarrow> 't \<Rightarrow> ('w, 't) torch_call"
  lt_mul :: "'t \<Rightarrow> 't \<Rightarrow> ('w, 't) torch_call"
  lt_matmul :: "'t \<Rightarrow> 't \<Rightarrow> ('w, 't) torch_call"
  lt_sum :: "'t \<Rightarrow> ('w, 't) torch_call"
  lt_relu :: "'t \<Rightarrow> ('w, 't) torch_call"
  lt_sigmoid :: "'t \<Rightarrow> ('w, 't) torch_call"
  lt_tanh :: "'t \<Rightarrow> ('w, 't) torch_call"
  lt_gelu :: "'t \<Rightarrow> ('w, 't) torch_call"
  lt_silu :: "'t \<Rightarrow> ('w, 't) torch_call"
  lt_slice :: "'t \<Rightarrow> int \<Rightarrow> int \<Rightarrow> ('w, 't) torch_call"
  lt_mse_loss :: "'t \<Rightarrow> 't \<Rightarrow> ('w, 't) torch_call"
  lt_log_softmax :: "'t \<Rightarrow> ('w, 't) torch_call"
  lt_sum_rows :: "'t \<Rightarrow> ('w, 't) torch_call"
  lt_mean :: "'t \<Rightarrow> ('w, 't) torch_call"
  lt_neg :: "'t \<Rightarrow> ('w, 't) torch_call"

record ('t, 'w, 'm, 'o) libtorch = "('t, 'w) libtorch_ops" +
  lt_Linear :: "int \<Rightarrow> int \<Rightarrow> bool \<Rightarrow> ('w, 'm) torch_call"
  lt_forward :: "'m \<Rightarrow> 't \<Rightarrow> ('w, 't) torch_call"
  lt_train :: "'m \<Rightarrow> bool \<Rightarrow> ('w, unit) torch_call"
  lt_module_to :: "'m \<Rightarrow> torch_device \<Rightarrow> ('w, unit) torch_call"
  lt_parameters :: "'m \<Rightarrow> 'w \<Rightarrow> 't list"
  lt_buffers :: "'m \<Rightarrow> 'w \<Rightarrow> 't list"
  lt_save :: "'m \<Rightarrow> string \<Rightarrow> ('w, unit) torch_call"
  lt_load :: "'m \<Rightarrow> string \<Rightarrow> ('w, unit) torch_call"
  lt_SGD :: "'t list \<Rightarrow> f64 \<Rightarrow> f64 \<Rightarrow> f64 \<Rightarrow> ('w, 'o) torch_call"
  lt_Adam :: "'t list \<Rightarrow> f64 \<Rightarrow> f64 \<Rightarrow> f64 \<Rightarrow> f64 \<Rightarrow> f64 \<Rightarrow> ('w, 'o) torch_call"
  lt_AdamW :: "'t list \<Rightarrow> f64 \<Rightarrow> f64 \<Rightarrow> f64 \<Rightarrow> f64 \<Rightarrow> f64 \<Rightarrow> ('w, 'o) torch_call"
  lt_zero_grad :: "'o \<Rightarrow> ('w, unit) torch_call"
  lt_step :: "'o \<Rightarrow> ('w, unit) torch_call"

section \<open>The runtime\<close>

text \<open>
  \<open>tr_tensors\<close> gives the member \<open>tensor_\<close> of the \<open>TorchStorage\<close> at a storage reference;
  \<open>tr_parameter_torch\<close> the members \<open>torch_parameters\<close> and \<open>torch_optimizer\<close> of a parameter optimizer;
  \<open>tr_identities\<close> and \<open>tr_next_identity\<close> are the static variables of \<open>nn_v2_state.h\<close>.
\<close>

record ('t, 'm, 'o, 'w) torch_runtime = training_runtime +
  tr_world :: 'w
  tr_tensors :: "nat \<Rightarrow> 't option"
  tr_modules :: "'m list"
  tr_optimizers :: "(nat \<times> 'o) list"
  tr_parameter_torch :: "nat \<Rightarrow> ('t list \<times> 'o) option"
  tr_identities :: "(nat \<times> 64 word) list"
  tr_next_identity :: "64 word"

type_synonym ('t, 'm, 'o, 'w, 'a) xrt = "(('t, 'm, 'o, 'w) torch_runtime, 'a) run"
type_synonym ('b, 't, 'm, 'o, 'w) xapi = "('b option \<times> ('t, 'm, 'o, 'w) torch_runtime, unit) run"

section \<open>Guards\<close>

definition TorchFailure :: "string \<Rightarrow> string \<Rightarrow> status" where
  "TorchFailure operation what = InternalError (operation @ '': '' @ what)"

definition GuardTorch :: "string \<Rightarrow> ('w, 'a) torch_call \<Rightarrow> ('t, 'm, 'o, 'w, 'a) xrt" where
  "GuardTorch operation call = (\<lambda>s. case call (tr_world s) of (r, w) \<Rightarrow>
     (case r of
        Inr a \<Rightarrow> Inr a
      | Inl (C10Error what) \<Rightarrow> Inl (Failed (TorchFailure operation what))
      | Inl (OtherException e) \<Rightarrow> Inl (Raised e), s\<lparr>tr_world := w\<rparr>))"

text \<open>A call outside every guard: its \<open>c10::Error\<close> is a \<open>std::exception\<close> for the boundary.\<close>

definition unguarded :: "('w, 'a) torch_call \<Rightarrow> ('t, 'm, 'o, 'w, 'a) xrt" where
  "unguarded call = (\<lambda>s. case call (tr_world s) of (r, w) \<Rightarrow>
     (case r of
        Inr a \<Rightarrow> Inr a
      | Inl (C10Error what) \<Rightarrow> Inl (Raised (StdException what))
      | Inl (OtherException e) \<Rightarrow> Inl (Raised e), s\<lparr>tr_world := w\<rparr>))"

definition GuardAllocation :: "string \<Rightarrow> ('s, 'a) run \<Rightarrow> ('s, 'a) run" where
  "GuardAllocation operation body = (\<lambda>s. case body s of
       (Inl (Raised BadAlloc), s') \<Rightarrow> (Inl (Failed (OutOfMemory (operation @ '': allocation failed''))), s')
     | x \<Rightarrow> x)"

definition worldE :: "('w \<Rightarrow> 'a) \<Rightarrow> ('t, 'm, 'o, 'w, 'a) xrt" where
  "worldE f = getE (\<lambda>s. f (tr_world s))"

section \<open>Devices\<close>

definition MatchesAccelerator :: "device \<Rightarrow> device_type \<Rightarrow> bool" where
  "MatchesAccelerator device accelerator = (case device of
       kCuda \<Rightarrow> accelerator = DeviceTypeCUDA
     | kMps \<Rightarrow> accelerator = DeviceTypeMPS
     | kXpu \<Rightarrow> accelerator = DeviceTypeXPU
     | kHip \<Rightarrow> accelerator = DeviceTypeHIP
     | kCpu \<Rightarrow> False)"

definition DeviceCountFromSnapshot :: "device \<Rightarrow> device_type option \<Rightarrow> int \<Rightarrow> status + nat" where
  "DeviceCountFromSnapshot device accelerator accelerator_count =
     (if device = kCpu then Inr 1
      else if accelerator = None \<or> \<not> MatchesAccelerator device (the accelerator) then Inr 0
      else if accelerator_count < 0
      then Inl (InternalError ''device_count: accelerator returned a negative count'')
      else Inr (nat accelerator_count))"

definition TorchDeviceFromSnapshot ::
    "int \<Rightarrow> device \<Rightarrow> int \<Rightarrow> device_type option \<Rightarrow> int \<Rightarrow> status + torch_device" where
  "TorchDeviceFromSnapshot max_index device device_index accelerator accelerator_count =
     (if device = kCpu
      then (if device_index \<noteq> 0
            then Inl (InvalidArgument ''torch device: CPU device index must be zero'')
            else Inr (DeviceTypeCPU, -1))
      else if device_index < 0
      then Inl (InvalidArgument ''torch device: accelerator index cannot be negative'')
      else if device = kMps \<and> device_index \<noteq> 0
      then Inl (InvalidArgument ''torch device: MPS device index must be zero'')
      else if device_index > max_index
      then Inl (InvalidArgument ''torch device: accelerator index exceeds LibTorch range'')
      else case DeviceCountFromSnapshot device accelerator accelerator_count of
          Inl st \<Rightarrow> Inl st
        | Inr count \<Rightarrow>
            (if nat device_index \<ge> count
             then Inl (Unsupported ''torch device: requested accelerator is not available'')
             else Inr (case device of
                 kCuda \<Rightarrow> (DeviceTypeCUDA, device_index)
               | kMps \<Rightarrow> (DeviceTypeMPS, -1)
               | kXpu \<Rightarrow> (DeviceTypeXPU, device_index)
               | _ \<Rightarrow> (DeviceTypeCUDA, device_index))))"

definition MapTorchDevice :: "torch_device \<Rightarrow> device_type option \<Rightarrow> status + device \<times> int" where
  "MapTorchDevice = (\<lambda>(torch_type, torch_index) accelerator.
     if torch_type = DeviceTypeCPU then Inr (kCpu, 0)
     else if torch_type = DeviceTypeMPS then Inr (kMps, 0)
     else if torch_type = DeviceTypeXPU \<or> torch_type = DeviceTypeHIP \<or> torch_type = DeviceTypeCUDA
     then (if torch_index < 0
           then Inl (InternalError ''wrap torch tensor: accelerator has no device index'')
           else Inr (if torch_type = DeviceTypeXPU then kXpu
                     else if torch_type = DeviceTypeHIP then kHip
                     else if accelerator = Some DeviceTypeHIP then kHip else kCuda, torch_index))
     else Inl (Unsupported ''wrap torch tensor: unsupported Torch device''))"

definition CaptureAcceleratorSnapshot ::
    "('t, 'w, 'z) libtorch_devices_scheme \<Rightarrow> ('w, device_type option \<times> int) torch_call" where
  "CaptureAcceleratorSnapshot T =
     bindE (lt_getAccelerator T) (\<lambda>accelerator.
     case accelerator of
       None \<Rightarrow> returnE (None, 0)
     | Some _ \<Rightarrow> bindE (lt_deviceCount T) (\<lambda>n. returnE (accelerator, n)))"

definition torch_DeviceCount ::
    "('t, 'w, 'z) libtorch_devices_scheme \<Rightarrow> device \<Rightarrow> (nat, 't, 'm, 'o, 'w) xapi" where
  "torch_DeviceCount T device =
     bindE (check_out ''device_count: output pointer is null'') (\<lambda>_.
     bindE (if device = kCpu then returnE (None, 0)
            else runtimeE (GuardTorch ''device_count'' (CaptureAcceleratorSnapshot T)))
       (\<lambda>(accelerator, n).
     bindE (set_out 0) (\<lambda>_.
     bindE (statusE (DeviceCountFromSnapshot device accelerator n)) set_out)))"

definition TorchDevice ::
    "('t, 'w, 'z) libtorch_devices_scheme \<Rightarrow> device \<Rightarrow> int \<Rightarrow> ('t, 'm, 'o, 'w, torch_device) xrt" where
  "TorchDevice T device device_index =
     (if device = kCpu \<or> device_index < 0 \<or> device = kMps \<and> device_index \<noteq> 0 \<or>
         device_index > lt_max_device_index T
      then statusE (TorchDeviceFromSnapshot (lt_max_device_index T) device device_index None 0)
      else bindE (GuardTorch ''torch device'' (CaptureAcceleratorSnapshot T)) (\<lambda>(accelerator, n).
        statusE (TorchDeviceFromSnapshot (lt_max_device_index T) device device_index accelerator n)))"

end
