(* ===== verification/Torch_Backend.thy ===== *)
theory Torch_Backend
  imports Torch_Runtime
begin

text \<open>
  Storages that hold a LibTorch tensor (\<open>native/src/training/torch_storage.cc\<close>), the conversion between
  tensors of the library and of LibTorch and the backend built on it (\<open>torch_backend.cc\<close>), and the
  dispatcher of this build (\<open>native/src/runtime/dispatcher.cc\<close>).
\<close>

section \<open>Storages\<close>

definition ValidateTorchStorageSize :: "int \<Rightarrow> status + nat" where
  "ValidateTorchStorageSize n =
     (if n < 0 then Inl (InternalError ''torch storage: tensor reported a negative element count'')
      else if nat n > u64_max div 4 then Inl (OutOfMemory ''torch storage: byte size overflow'')
      else Inr (nat n * 4))"

definition ValidateHostCopyMetadata :: "int \<Rightarrow> bool \<Rightarrow> int \<Rightarrow> status + unit" where
  "ValidateHostCopyMetadata expected_numel is_float32 actual_numel =
     (if \<not> is_float32 then Inl (Unsupported ''torch storage: host copy is not float32'')
      else if actual_numel \<noteq> expected_numel
      then Inl (InternalError ''torch storage: host copy changed element count'')
      else Inr ())"

text \<open>
  \<open>new TorchStorage(tensor)\<close>.  The heap keeps the kind and the byte size of the storage; what a copy to
  the host delivers is up to LibTorch when it happens (\<open>TorchStorage_CopyToHostF32\<close>), so the outcome the
  heap records for such a storage is a fixed refusal that nothing of this build reads.
\<close>

definition new_torch_storage :: "'t \<Rightarrow> nat \<Rightarrow> ('t, 'm, 'o, 'w, nat) xrt" where
  "new_torch_storage tensor bytes =
     bindE (heapE request_alloc) (\<lambda>_.
     bindE (heapE (new_storage (ForeignStorage StorageKindTorch bytes
       (Inl (Unsupported ''torch storage: read through LibTorch''))))) (\<lambda>storage.
     bindE (modifyE (\<lambda>s. s\<lparr>tr_tensors := (tr_tensors s)(storage \<mapsto> tensor)\<rparr>)) (\<lambda>_.
     returnE storage)))"

definition TorchStorage_FromTensor ::
    "('t, 'w, 'z) libtorch_devices_scheme \<Rightarrow> 't \<Rightarrow> ('t, 'm, 'o, 'w, nat) xrt" where
  "TorchStorage_FromTensor T tensor =
     bindE (worldE (lt_defined T tensor)) (\<lambda>is_defined.
     bindE (checkE is_defined (InvalidArgument ''torch storage: tensor is undefined'')) (\<lambda>_.
     bindE (worldE (lt_is_float32 T tensor)) (\<lambda>is_float32.
     bindE (checkE is_float32 (Unsupported ''torch storage: only float32 is supported'')) (\<lambda>_.
     bindE (worldE (lt_numel T tensor)) (\<lambda>n.
     bindE (statusE (ValidateTorchStorageSize n)) (\<lambda>bytes.
     GuardAllocation ''torch storage'' (new_torch_storage tensor bytes)))))))"

text \<open>
  \<open>TorchStorage::CopyToHostF32\<close>: on the caller's buffer (\<open>None\<close>: null) and the content of \<open>*out_written\<close>.
\<close>

definition TorchStorage_CopyToHostF32 :: "('t, 'w, 'z) libtorch_devices_scheme \<Rightarrow> 't \<Rightarrow> nat \<Rightarrow>
    ((f32 list option \<times> nat) \<times> ('t, 'm, 'o, 'w) torch_runtime, unit) run" where
  "TorchStorage_CopyToHostF32 T tensor capacity = (\<lambda>((out, _), s).
     let n = i64_to_u64 (lt_numel T tensor (tr_world s)) in
     if capacity < n
     then (Inl (Failed (InvalidArgument ''torch storage: output capacity is too small'')), ((out, 0), s))
     else if n > 0 \<and> out = None
     then (Inl (Failed (InvalidArgument ''torch storage: output values pointer is null'')), ((out, 0), s))
     else (case GuardTorch ''torch storage host copy'' (lt_host T tensor) s of
         (Inl f, s') \<Rightarrow> (Inl f, ((out, 0), s'))
       | (Inr host, s') \<Rightarrow>
           (case ValidateHostCopyMetadata (lt_numel T tensor (tr_world s')) (lt_is_float32 T host (tr_world s'))
               (lt_numel T host (tr_world s')) of
              Inl st \<Rightarrow> (Inl (Failed st), ((out, 0), s'))
            | Inr _ \<Rightarrow> (Inr (), ((write_prefix (take n (lt_data T host (tr_world s'))) out, n), s')))))"

section \<open>Conversions\<close>

definition torch_EnsureFloat32 :: "tensor \<Rightarrow> string \<Rightarrow> status + unit" where
  "torch_EnsureFloat32 tensor operation =
     (if t_dtype tensor \<noteq> kFloat32
      then Inl (Unsupported (operation @ '': only float32 is supported'')) else Inr ())"

text \<open>The host values of a storage of another kind, in the order of the storage.\<close>

definition storage_host_values :: "tensor \<Rightarrow> (heap, f32 list) run" where
  "storage_host_values t =
     bindE request_alloc (\<lambda>_.
     bindE (getE (\<lambda>h. storage_copy_to_host (storage_of h t) (Some (replicate (numel_of t) f32_zero)) (numel_of t)))
       (\<lambda>(res, values, written).
     bindE (statusE res) (\<lambda>_.
     bindE (checkE (written = numel_of t)
       (InternalError ''tensor to torch: storage returned an inconsistent element count'')) (\<lambda>_.
     returnE (the values)))))"

definition TensorToTorch ::
    "('t, 'w, 'z) libtorch_devices_scheme \<Rightarrow> tensor_ref \<Rightarrow> ('t, 'm, 'o, 'w, 't) xrt" where
  "TensorToTorch T r =
     bindE (tensorE r) (\<lambda>tensor.
     bindE (statusE (torch_EnsureFloat32 tensor ''tensor to torch'')) (\<lambda>_.
     bindE (getE (\<lambda>s. storage_kind_of (storage_of (rt_heap s) tensor))) (\<lambda>kind.
     if kind = StorageKindTorch
     then bindE (getE (\<lambda>s. tr_tensors s (t_storage tensor))) (\<lambda>storage.
       case storage of
         None \<Rightarrow> failE (InternalError ''tensor to torch: invalid Torch storage type'')
       | Some tensor_ \<Rightarrow> returnE tensor_)
     else bindE (heapE (storage_host_values tensor)) (\<lambda>values.
       GuardTorch ''tensor to torch'' (lt_from_blob_clone T values (dims_of tensor))))))"

definition WrapTorchTensor ::
    "('t, 'w, 'z) libtorch_devices_scheme \<Rightarrow> 't \<Rightarrow> ('t, 'm, 'o, 'w, tensor_ref) xrt" where
  "WrapTorchTensor T v =
     bindE (worldE (lt_defined T v)) (\<lambda>is_defined.
     bindE (checkE is_defined (InvalidArgument ''wrap torch tensor: tensor is undefined'')) (\<lambda>_.
     bindE (worldE (lt_is_float32 T v)) (\<lambda>is_float32.
     bindE (checkE is_float32 (Unsupported ''wrap torch tensor: only float32 is supported'')) (\<lambda>_.
     bindE (worldE (lt_sizes T v)) (\<lambda>dims.
     bindE (statusE (ValidateShape (dims_pointer dims) (length dims))) (\<lambda>shape.
     bindE (GuardTorch ''wrap torch tensor accelerator discovery'' (lt_getAccelerator T)) (\<lambda>accelerator.
     bindE (worldE (lt_device T v)) (\<lambda>torch_device.
     bindE (statusE (MapTorchDevice torch_device accelerator)) (\<lambda>(device, device_index).
     bindE (TorchStorage_FromTensor T v) (\<lambda>storage.
     GuardAllocation ''wrap torch tensor''
       (heapE (new_tensor shape storage kFloat32 device device_index 0 None))))))))))))"

text \<open>\<open>GuardTorch(operation, [&]() { return WrapTorchTensor(call, out); })\<close>: inside, only \<open>call\<close> throws.\<close>

definition wrap_result :: "('t, 'w, 'z) libtorch_devices_scheme \<Rightarrow> string \<Rightarrow> ('w, 't) torch_call \<Rightarrow>
    ('t, 'm, 'o, 'w, tensor_ref) xrt" where
  "wrap_result T operation call = bindE (GuardTorch operation call) (WrapTorchTensor T)"

section \<open>The backend\<close>

definition TorchBackend_FromData :: "('t, 'w, 'z) libtorch_ops_scheme \<Rightarrow> shape_info \<Rightarrow> f32 list option \<Rightarrow>
    ('t, 'm, 'o, 'w, tensor_ref) xrt" where
  "TorchBackend_FromData T shape data =
     bindE (checkE (\<not> (numel shape > 0 \<and> data = None))
       (InvalidArgument ''torch from data: input pointer is null'')) (\<lambda>_.
     wrap_result T ''torch from data''
       (lt_from_blob_clone T (case data of None \<Rightarrow> [] | Some d \<Rightarrow> take (numel shape) d) (dimensions shape)))"

definition TorchBackend_Full :: "('t, 'w, 'z) libtorch_ops_scheme \<Rightarrow> shape_info \<Rightarrow> f32 \<Rightarrow>
    ('t, 'm, 'o, 'w, tensor_ref) xrt" where
  "TorchBackend_Full T shape x = wrap_result T ''torch full'' (lt_full T (dimensions shape) x)"

definition TorchBackend_Reshape :: "('t, 'w, 'z) libtorch_ops_scheme \<Rightarrow> tensor_ref \<Rightarrow> shape_info \<Rightarrow>
    ('t, 'm, 'o, 'w, tensor_ref) xrt" where
  "TorchBackend_Reshape T r shape =
     bindE (tensorE r) (\<lambda>tensor.
     bindE (checkE (numel_of tensor = numel shape)
       (InvalidShape ''reshape: target shape must preserve element count'')) (\<lambda>_.
     bindE (TensorToTorch T r) (\<lambda>v.
     wrap_result T ''torch reshape'' (lt_reshape_clone T v (dimensions shape)))))"

definition TorchBackend_Transpose2D :: "('t, 'w, 'z) libtorch_ops_scheme \<Rightarrow> tensor_ref \<Rightarrow>
    ('t, 'm, 'o, 'w, tensor_ref) xrt" where
  "TorchBackend_Transpose2D T r =
     bindE (tensorE r) (\<lambda>tensor.
     bindE (checkE (length (dims_of tensor) = 2)
       (InvalidShape ''transpose: requires a rank-2 tensor'')) (\<lambda>_.
     bindE (TensorToTorch T r) (\<lambda>v.
     wrap_result T ''torch transpose'' (lt_transpose_contiguous T v))))"

definition TorchBackend_Add :: "('t, 'w, 'z) libtorch_ops_scheme \<Rightarrow> tensor_ref \<Rightarrow> tensor_ref \<Rightarrow>
    ('t, 'm, 'o, 'w, tensor_ref) xrt" where
  "TorchBackend_Add T left right =
     bindE (tensorE left) (\<lambda>l. bindE (tensorE right) (\<lambda>r.
     bindE (checkE (SameShape (t_shape l) (t_shape r)) (InvalidShape ''add: input shapes must match'')) (\<lambda>_.
     bindE (TensorToTorch T left) (\<lambda>a.
     bindE (TensorToTorch T right) (\<lambda>b.
     wrap_result T ''torch add'' (lt_add T a b))))))"

definition TorchBackend_Multiply :: "('t, 'w, 'z) libtorch_ops_scheme \<Rightarrow> tensor_ref \<Rightarrow> tensor_ref \<Rightarrow>
    ('t, 'm, 'o, 'w, tensor_ref) xrt" where
  "TorchBackend_Multiply T left right =
     bindE (tensorE left) (\<lambda>l. bindE (tensorE right) (\<lambda>r.
     bindE (checkE (SameShape (t_shape l) (t_shape r))
       (InvalidShape ''multiply: input shapes must match'')) (\<lambda>_.
     bindE (TensorToTorch T left) (\<lambda>a.
     bindE (TensorToTorch T right) (\<lambda>b.
     wrap_result T ''torch multiply'' (lt_mul T a b))))))"

definition TorchBackend_Sum :: "('t, 'w, 'z) libtorch_ops_scheme \<Rightarrow> tensor_ref \<Rightarrow>
    ('t, 'm, 'o, 'w, tensor_ref) xrt" where
  "TorchBackend_Sum T r = bindE (TensorToTorch T r) (\<lambda>v. wrap_result T ''torch sum'' (lt_sum T v))"

definition TorchBackend_Matmul :: "('t, 'w, 'z) libtorch_ops_scheme \<Rightarrow> tensor_ref \<Rightarrow> tensor_ref \<Rightarrow>
    ('t, 'm, 'o, 'w, tensor_ref) xrt" where
  "TorchBackend_Matmul T left right =
     bindE (tensorE left) (\<lambda>l. bindE (tensorE right) (\<lambda>r.
     bindE (checkE (length (dims_of l) = 2 \<and> length (dims_of r) = 2)
       (InvalidShape ''matmul: requires rank-2 tensors'')) (\<lambda>_.
     bindE (checkE (dims_of l ! 1 = dims_of r ! 0)
       (InvalidShape ''matmul: inner dimensions must match'')) (\<lambda>_.
     bindE (TensorToTorch T left) (\<lambda>a.
     bindE (TensorToTorch T right) (\<lambda>b.
     wrap_result T ''torch matmul'' (lt_matmul T a b)))))))"

section \<open>Dispatch\<close>

datatype backend_instance = CpuBackendInstance | TorchBackendInstance

definition IsTorchAccelerator :: "device \<Rightarrow> bool" where
  "IsTorchAccelerator device \<longleftrightarrow> device = kCuda \<or> device = kMps \<or> device = kXpu \<or> device = kHip"

definition torch_Dispatcher_For :: "device \<Rightarrow> status + backend_instance" where
  "torch_Dispatcher_For device =
     (if device = kCpu then Inr CpuBackendInstance
      else if IsTorchAccelerator device then Inr TorchBackendInstance
      else Inl (Unsupported ''dispatcher: requested device is not supported''))"

definition torch_Dispatcher_ForTensor :: "heap \<Rightarrow> tensor \<Rightarrow> status + backend_instance" where
  "torch_Dispatcher_ForTensor h tensor =
     (if storage_kind_of (storage_of h tensor) = StorageKindTorch then Inr TorchBackendInstance
      else torch_Dispatcher_For (t_device tensor))"

definition torch_Dispatcher_ForTensors :: "heap \<Rightarrow> tensor \<Rightarrow> tensor \<Rightarrow> status + backend_instance" where
  "torch_Dispatcher_ForTensors h left right =
     (if t_device left \<noteq> t_device right \<or> t_device_index left \<noteq> t_device_index right
      then Inl (InvalidArgument ''dispatcher: input tensors must use the same device'')
      else if storage_kind_of (storage_of h left) = StorageKindTorch \<or>
          storage_kind_of (storage_of h right) = StorageKindTorch then Inr TorchBackendInstance
      else torch_Dispatcher_For (t_device left))"

text \<open>A call through the dispatched \<open>Backend\<close>: the virtual function of either class.\<close>

definition through_backend :: "(heap, tensor_ref) run \<Rightarrow> ('t, 'm, 'o, 'w, tensor_ref) xrt \<Rightarrow>
    backend_instance \<Rightarrow> ('t, 'm, 'o, 'w, tensor_ref) xrt" where
  "through_backend cpu torch b = (case b of CpuBackendInstance \<Rightarrow> heapE cpu | TorchBackendInstance \<Rightarrow> torch)"

end
