(* ===== verification/Torch_Bridge.thy ===== *)
theory Torch_Bridge
  imports Torch_Backend
begin

text \<open>
  The training bridge of the build with LibTorch (\<open>native/src/training/training_bridge_torch.cc\<close>), and the
  operations of \<open>native/src/c_api.cc\<close> that dispatch to a backend, in that build.

  A module handle refers to a position of \<open>tr_modules\<close>, a handle of a module's optimizer to a position of
  \<open>tr_optimizers\<close>, which keeps the position of the module with the optimizer of LibTorch.
\<close>

section \<open>Tensor functions of the C interface\<close>

definition torch_RunBinaryOperation :: "handle \<Rightarrow> handle \<Rightarrow> string \<Rightarrow>
    (tensor_ref \<Rightarrow> tensor_ref \<Rightarrow> (heap, tensor_ref) run) \<Rightarrow>
    (tensor_ref \<Rightarrow> tensor_ref \<Rightarrow> ('t, 'm, 'o, 'w, tensor_ref) xrt) \<Rightarrow> (handle, 't, 'm, 'o, 'w) xapi" where
  "torch_RunBinaryOperation left right operation cpu torch =
     new_handle (operation @ '': output handle pointer is null'')
       (bindE (LookupTensor left) (\<lambda>l.
        bindE (LookupTensor right) (\<lambda>r.
        bindE (tensorE l) (\<lambda>left_object.
        bindE (tensorE r) (\<lambda>right_object.
        bindE (getE rt_heap) (\<lambda>h.
        bindE (statusE (torch_Dispatcher_ForTensors h left_object right_object)) (\<lambda>backend.
        through_backend (cpu l r) (torch l r) backend)))))))"

section \<open>Validation\<close>

definition torch_ValidateModuleDimensions :: "int \<Rightarrow> int \<Rightarrow> status + unit" where
  "torch_ValidateModuleDimensions inp outp =
     (if inp \<le> 0 \<or> outp \<le> 0
      then Inl (InvalidArgument ''linear_create: in_features and out_features must be positive'')
      else Inr ())"

definition torch_ValidateLearningRate :: "f64 \<Rightarrow> string \<Rightarrow> status + unit" where
  "torch_ValidateLearningRate x operation =
     (if \<not> f64_isfinite x \<or> \<not> f64_less f64_zero x
      then Inl (InvalidArgument (operation @ '': learning rate must be finite and positive''))
      else Inr ())"

definition torch_ValidateWeightDecay :: "f64 \<Rightarrow> string \<Rightarrow> status + unit" where
  "torch_ValidateWeightDecay x operation =
     (if \<not> f64_isfinite x \<or> f64_less x f64_zero
      then Inl (InvalidArgument (operation @ '': weight decay must be finite and non-negative''))
      else Inr ())"

definition torch_ValidateBetas :: "f64 \<Rightarrow> f64 \<Rightarrow> string \<Rightarrow> status + unit" where
  "torch_ValidateBetas beta1 beta2 operation =
     (if \<not> f64_isfinite beta1 \<or> \<not> f64_isfinite beta2 \<or> f64_less beta1 f64_zero \<or>
         \<not> f64_less beta1 f64_one \<or> f64_less beta2 f64_zero \<or> \<not> f64_less beta2 f64_one
      then Inl (InvalidArgument (operation @ '': beta values must be finite in [0, 1)''))
      else Inr ())"

definition torch_ValidateEpsilon :: "f64 \<Rightarrow> string \<Rightarrow> status + unit" where
  "torch_ValidateEpsilon x operation =
     (if \<not> f64_isfinite x \<or> \<not> f64_less f64_zero x
      then Inl (InvalidArgument (operation @ '': epsilon must be finite and positive''))
      else Inr ())"

definition EnsureSameDevice :: "tensor \<Rightarrow> tensor \<Rightarrow> string \<Rightarrow> status + unit" where
  "EnsureSameDevice left right operation =
     (if t_device left \<noteq> t_device right \<or> t_device_index left \<noteq> t_device_index right
      then Inl (InvalidArgument (operation @ '': tensors must use the same device''))
      else Inr ())"

section \<open>Tensors\<close>

definition torch_IsAvailable :: "(nat, 't, 'm, 'o, 'w) xapi" where
  "torch_IsAvailable =
     bindE (check_out ''training_available: output pointer is null'') (\<lambda>_. set_out 1)"

definition torch_CudaDeviceCount ::
    "('t, 'w, 'z) libtorch_devices_scheme \<Rightarrow> (nat, 't, 'm, 'o, 'w) xapi" where
  "torch_CudaDeviceCount T =
     bindE (check_out ''cuda_device_count: output pointer is null'') (\<lambda>_. torch_DeviceCount T kCuda)"

definition torch_ManualSeed :: "('t, 'w, 'm, 'o) libtorch \<Rightarrow> 64 word \<Rightarrow> ('t, 'm, 'o, 'w, unit) xrt" where
  "torch_ManualSeed T seed = GuardTorch ''manual_seed'' (lt_manual_seed T (sint seed))"

definition torch_Transfer :: "('t, 'w, 'm, 'o) libtorch \<Rightarrow> tensor_ref \<Rightarrow> device \<Rightarrow> int \<Rightarrow>
    ('t, 'm, 'o, 'w, tensor_ref) xrt" where
  "torch_Transfer T tensor device device_index =
     bindE (TorchDevice T device device_index) (\<lambda>target.
     bindE (TensorToTorch T tensor) (\<lambda>v.
     wrap_result T ''tensor_to_device''
       (bindE (lt_to T v target) (\<lambda>moved.
        bindE (getE (\<lambda>w. lt_device T moved w = lt_device T v w)) (\<lambda>same.
        if same then lt_clone T moved else returnE moved)))))"

definition torch_WithRequiresGrad :: "('t, 'w, 'm, 'o) libtorch \<Rightarrow> tensor_ref \<Rightarrow> bool \<Rightarrow>
    ('t, 'm, 'o, 'w, tensor_ref) xrt" where
  "torch_WithRequiresGrad T tensor requires_grad =
     bindE (TensorToTorch T tensor) (\<lambda>v.
     wrap_result T ''tensor_with_requires_grad''
       (bindE (lt_detach_clone T v) (\<lambda>leaf.
        bindE (lt_set_requires_grad T leaf requires_grad) (\<lambda>_. returnE leaf))))"

definition kindE :: "tensor_ref \<Rightarrow> ('t, 'm, 'o, 'w, storage_kind) xrt" where
  "kindE r = getE (\<lambda>s. storage_kind_of (storage_of (rt_heap s) (tensor_at (rt_heap s) r)))"

definition torch_RequiresGrad ::
    "('t, 'w, 'm, 'o) libtorch \<Rightarrow> tensor_ref \<Rightarrow> ('t, 'm, 'o, 'w, bool) xrt" where
  "torch_RequiresGrad T tensor =
     bindE (kindE tensor) (\<lambda>kind.
     if kind \<noteq> StorageKindTorch then heapE (getE (\<lambda>h. RequiresGrad h tensor))
     else bindE (TensorToTorch T tensor) (\<lambda>v. worldE (lt_requires_grad T v)))"

definition torch_Backward ::
    "libm \<Rightarrow> ('t, 'w, 'm, 'o) libtorch \<Rightarrow> tensor_ref \<Rightarrow> ('t, 'm, 'o, 'w, unit) xrt" where
  "torch_Backward L T tensor =
     bindE (kindE tensor) (\<lambda>kind.
     if kind \<noteq> StorageKindTorch then heapE (Backward L tensor)
     else
       bindE (tensorE tensor) (\<lambda>t.
       bindE (checkE (numel_of t = 1)
         (InvalidShape ''tensor_backward: loss tensor must contain one value'')) (\<lambda>_.
       bindE (TensorToTorch T tensor) (\<lambda>v.
       bindE (worldE (lt_requires_grad T v)) (\<lambda>rg.
       bindE (checkE rg
         (InvalidArgument ''tensor_backward: tensor does not require gradients'')) (\<lambda>_.
       GuardTorch ''tensor_backward'' (lt_backward T v)))))))"

definition torch_Gradient ::
    "('t, 'w, 'm, 'o) libtorch \<Rightarrow> tensor_ref \<Rightarrow> ('t, 'm, 'o, 'w, tensor_ref) xrt" where
  "torch_Gradient T tensor =
     bindE (kindE tensor) (\<lambda>kind.
     if kind \<noteq> StorageKindTorch then heapE (GradientSnapshot tensor)
     else
       bindE (TensorToTorch T tensor) (\<lambda>v.
       bindE (worldE (\<lambda>w. lt_defined T (lt_grad T v w) w)) (\<lambda>is_defined.
       bindE (checkE is_defined (InvalidArgument ''tensor_grad: gradient is not available'')) (\<lambda>_.
       wrap_result T ''tensor_grad'' (bindE (getE (lt_grad T v)) (lt_detach_clone T))))))"

definition torch_Relu ::
    "('t, 'w, 'm, 'o) libtorch \<Rightarrow> tensor_ref \<Rightarrow> ('t, 'm, 'o, 'w, tensor_ref) xrt" where
  "torch_Relu T tensor = bindE (TensorToTorch T tensor) (\<lambda>v. wrap_result T ''tensor_relu'' (lt_relu T v))"

definition torch_Sigmoid ::
    "('t, 'w, 'm, 'o) libtorch \<Rightarrow> tensor_ref \<Rightarrow> ('t, 'm, 'o, 'w, tensor_ref) xrt" where
  "torch_Sigmoid T tensor =
     bindE (TensorToTorch T tensor) (\<lambda>v. wrap_result T ''tensor_sigmoid'' (lt_sigmoid T v))"

definition torch_Tanh ::
    "('t, 'w, 'm, 'o) libtorch \<Rightarrow> tensor_ref \<Rightarrow> ('t, 'm, 'o, 'w, tensor_ref) xrt" where
  "torch_Tanh T tensor = bindE (TensorToTorch T tensor) (\<lambda>v. wrap_result T ''tensor_tanh'' (lt_tanh T v))"

definition torch_MseLoss ::
    "('t, 'w, 'm, 'o) libtorch \<Rightarrow> tensor_ref \<Rightarrow> tensor_ref \<Rightarrow> ('t, 'm, 'o, 'w, tensor_ref) xrt" where
  "torch_MseLoss T prediction target =
     bindE (tensorE prediction) (\<lambda>p. bindE (tensorE target) (\<lambda>t.
     bindE (statusE (EnsureSameDevice p t ''mse_loss'')) (\<lambda>_.
     bindE (checkE (SameShape (t_shape p) (t_shape t))
       (InvalidShape ''mse_loss: prediction and target shapes must match'')) (\<lambda>_.
     bindE (TensorToTorch T prediction) (\<lambda>prediction_value.
     bindE (TensorToTorch T target) (\<lambda>target_value.
     wrap_result T ''mse_loss'' (lt_mse_loss T prediction_value target_value)))))))"

definition torch_CrossEntropyLoss ::
    "('t, 'w, 'm, 'o) libtorch \<Rightarrow> tensor_ref \<Rightarrow> tensor_ref \<Rightarrow> ('t, 'm, 'o, 'w, tensor_ref) xrt" where
  "torch_CrossEntropyLoss T logits one_hot_target =
     bindE (tensorE logits) (\<lambda>l. bindE (tensorE one_hot_target) (\<lambda>t.
     bindE (statusE (EnsureSameDevice l t ''cross_entropy_loss'')) (\<lambda>_.
     bindE (checkE (SameShape (t_shape l) (t_shape t)) (InvalidShape
       ''cross_entropy_loss: logits and one-hot target shapes must match'')) (\<lambda>_.
     bindE (checkE (length (dims_of l) = 2) (InvalidShape
       ''cross_entropy_loss: initial contract requires rank-2 tensors'')) (\<lambda>_.
     bindE (TensorToTorch T logits) (\<lambda>logits_value.
     bindE (TensorToTorch T one_hot_target) (\<lambda>target_value.
     wrap_result T ''cross_entropy_loss''
       (bindE (lt_log_softmax T logits_value) (\<lambda>log_probabilities.
        bindE (lt_mul T target_value log_probabilities) (\<lambda>product.
        bindE (lt_sum_rows T product) (\<lambda>rows.
        bindE (lt_mean T rows) (lt_neg T))))))))))))"

section \<open>Modules\<close>

definition torch_LookupModule :: "handle \<Rightarrow> ('t, 'm, 'o, 'w, 'm) xrt" where
  "torch_LookupModule handle =
     bindE (registryE (registry_lookup handle kModule)) (\<lambda>i. getE (\<lambda>s. tr_modules s ! i))"

definition torch_LinearCreate ::
    "('t, 'w, 'm, 'o) libtorch \<Rightarrow> int \<Rightarrow> int \<Rightarrow> bool \<Rightarrow> (handle, 't, 'm, 'o, 'w) xapi" where
  "torch_LinearCreate T inp outp bias =
     bindE (check_out ''linear_create: output handle pointer is null'') (\<lambda>_.
     bindE (set_out 0) (\<lambda>_.
     bindE (statusE (torch_ValidateModuleDimensions inp outp)) (\<lambda>_.
     GuardAllocation ''linear_create''
       (bindE (runtimeE (heapE request_alloc)) (\<lambda>_.
        bindE (runtimeE (GuardTorch ''linear_create'' (lt_Linear T inp outp bias))) (\<lambda>m.
        bindE (runtimeE (getE (\<lambda>s. length (tr_modules s)))) (\<lambda>i.
        bindE (runtimeE (modifyE (\<lambda>s. s\<lparr>tr_modules := tr_modules s @ [m]\<rparr>))) (\<lambda>_.
        InsertObject kModule i))))))))"

definition torch_ModuleForward ::
    "('t, 'w, 'm, 'o) libtorch \<Rightarrow> handle \<Rightarrow> tensor_ref \<Rightarrow> ('t, 'm, 'o, 'w, tensor_ref) xrt" where
  "torch_ModuleForward T module input =
     bindE (torch_LookupModule module) (\<lambda>m.
     bindE (TensorToTorch T input) (\<lambda>v. wrap_result T ''module_forward'' (lt_forward T m v)))"

definition torch_ModuleSetTraining ::
    "('t, 'w, 'm, 'o) libtorch \<Rightarrow> handle \<Rightarrow> bool \<Rightarrow> ('t, 'm, 'o, 'w, unit) xrt" where
  "torch_ModuleSetTraining T module training =
     bindE (torch_LookupModule module) (\<lambda>m. unguarded (lt_train T m training))"

definition torch_ModuleToDevice ::
    "('t, 'w, 'm, 'o) libtorch \<Rightarrow> handle \<Rightarrow> device \<Rightarrow> int \<Rightarrow> ('t, 'm, 'o, 'w, unit) xrt" where
  "torch_ModuleToDevice T module device device_index =
     bindE (torch_LookupModule module) (\<lambda>m.
     bindE (TorchDevice T device device_index) (\<lambda>target.
     GuardTorch ''module_to_device'' (lt_module_to T m target)))"

definition torch_ModuleParameterCount ::
    "('t, 'w, 'm, 'o) libtorch \<Rightarrow> handle \<Rightarrow> (nat, 't, 'm, 'o, 'w) xapi" where
  "torch_ModuleParameterCount T module =
     bindE (check_out ''module_parameter_count: output pointer is null'') (\<lambda>_.
     bindE (set_out 0) (\<lambda>_.
     bindE (runtimeE (torch_LookupModule module)) (\<lambda>m.
     bindE (runtimeE (worldE (lt_parameters T m))) (\<lambda>parameters. set_out (length parameters)))))"

definition torch_ModuleParameterAt ::
    "('t, 'w, 'm, 'o) libtorch \<Rightarrow> handle \<Rightarrow> nat \<Rightarrow> ('t, 'm, 'o, 'w, tensor_ref) xrt" where
  "torch_ModuleParameterAt T module index =
     bindE (torch_LookupModule module) (\<lambda>m.
     bindE (worldE (lt_parameters T m)) (\<lambda>parameters.
     bindE (checkE (index < length parameters)
       (InvalidArgument ''module_parameter_at: index is out of range'')) (\<lambda>_.
     WrapTorchTensor T (parameters ! index))))"

definition torch_ModuleBufferCount ::
    "('t, 'w, 'm, 'o) libtorch \<Rightarrow> handle \<Rightarrow> (nat, 't, 'm, 'o, 'w) xapi" where
  "torch_ModuleBufferCount T module =
     bindE (check_out ''module_buffer_count: output pointer is null'') (\<lambda>_.
     bindE (set_out 0) (\<lambda>_.
     bindE (runtimeE (torch_LookupModule module)) (\<lambda>m.
     bindE (runtimeE (worldE (lt_buffers T m))) (\<lambda>buffers. set_out (length buffers)))))"

definition torch_ModuleBufferAt ::
    "('t, 'w, 'm, 'o) libtorch \<Rightarrow> handle \<Rightarrow> nat \<Rightarrow> ('t, 'm, 'o, 'w, tensor_ref) xrt" where
  "torch_ModuleBufferAt T module index =
     bindE (torch_LookupModule module) (\<lambda>m.
     bindE (worldE (lt_buffers T m)) (\<lambda>buffers.
     bindE (checkE (index < length buffers)
       (InvalidArgument ''module_buffer_at: index is out of range'')) (\<lambda>_.
     WrapTorchTensor T (buffers ! index))))"

definition torch_ModuleSave ::
    "('t, 'w, 'm, 'o) libtorch \<Rightarrow> handle \<Rightarrow> string \<Rightarrow> ('t, 'm, 'o, 'w, unit) xrt" where
  "torch_ModuleSave T module path =
     bindE (checkE (path \<noteq> []) (InvalidArgument ''module_save: checkpoint path is empty'')) (\<lambda>_.
     bindE (torch_LookupModule module) (\<lambda>m. GuardTorch ''module_save'' (lt_save T m path)))"

definition torch_ModuleLoad ::
    "('t, 'w, 'm, 'o) libtorch \<Rightarrow> handle \<Rightarrow> string \<Rightarrow> ('t, 'm, 'o, 'w, unit) xrt" where
  "torch_ModuleLoad T module path =
     bindE (checkE (path \<noteq> []) (InvalidArgument ''module_load: checkpoint path is empty'')) (\<lambda>_.
     bindE (torch_LookupModule module) (\<lambda>m. GuardTorch ''module_load'' (lt_load T m path)))"

definition torch_ModuleRelease :: "handle \<Rightarrow> ('t, 'm, 'o, 'w, unit) xrt" where
  "torch_ModuleRelease module = registryE (registry_release module kModule)"

section \<open>Optimizers of a module\<close>

definition CreateOptimizerState :: "nat \<Rightarrow> 'o \<Rightarrow> (handle, 't, 'm, 'o, 'w) xapi" where
  "CreateOptimizerState module optimizer =
     bindE (check_out ''optimizer: output handle pointer is null'') (\<lambda>_.
     bindE (set_out 0) (\<lambda>_.
     GuardAllocation ''optimizer''
       (bindE (runtimeE (heapE request_alloc)) (\<lambda>_.
        bindE (runtimeE (getE (\<lambda>s. length (tr_optimizers s)))) (\<lambda>k.
        bindE (runtimeE (modifyE (\<lambda>s. s\<lparr>tr_optimizers := tr_optimizers s @ [(module, optimizer)]\<rparr>)))
          (\<lambda>_. InsertObject kOptimizer k))))))"

text \<open>
  The common end of the three: look the module up, then \<open>GuardTorchAllocation\<close> around the constructor
  over the parameters of the module and \<open>CreateOptimizerState\<close>.
\<close>

definition create_module_optimizer :: "('t, 'w, 'm, 'o) libtorch \<Rightarrow> string \<Rightarrow> handle \<Rightarrow>
    ('t list \<Rightarrow> ('w, 'o) torch_call) \<Rightarrow> (handle, 't, 'm, 'o, 'w) xapi" where
  "create_module_optimizer T operation module construct =
     bindE (runtimeE (LookupModule module)) (\<lambda>i.
     GuardAllocation operation
       (bindE (runtimeE (getE (\<lambda>s. lt_parameters T (tr_modules s ! i) (tr_world s)))) (\<lambda>parameters.
        bindE (runtimeE (GuardTorch operation (construct parameters))) (CreateOptimizerState i))))"

definition torch_SgdCreate :: "('t, 'w, 'm, 'o) libtorch \<Rightarrow> handle \<Rightarrow> f64 \<Rightarrow> f64 \<Rightarrow> f64 \<Rightarrow>
    (handle, 't, 'm, 'o, 'w) xapi" where
  "torch_SgdCreate T module learning_rate momentum weight_decay =
     bindE (check_out ''sgd_create: output handle pointer is null'') (\<lambda>_.
     bindE (set_out 0) (\<lambda>_.
     bindE (statusE (torch_ValidateLearningRate learning_rate ''sgd_create'')) (\<lambda>_.
     bindE (statusE (torch_ValidateWeightDecay weight_decay ''sgd_create'')) (\<lambda>_.
     bindE (checkE (f64_isfinite momentum \<and> \<not> f64_less momentum f64_zero)
       (InvalidArgument ''sgd_create: momentum must be finite and non-negative'')) (\<lambda>_.
     create_module_optimizer T ''sgd_create'' module
       (\<lambda>parameters. lt_SGD T parameters learning_rate momentum weight_decay))))))"

definition torch_AdamCreate :: "('t, 'w, 'm, 'o) libtorch \<Rightarrow> handle \<Rightarrow> f64 \<Rightarrow> f64 \<Rightarrow> f64 \<Rightarrow> f64 \<Rightarrow> f64 \<Rightarrow>
    (handle, 't, 'm, 'o, 'w) xapi" where
  "torch_AdamCreate T module learning_rate beta1 beta2 epsilon weight_decay =
     bindE (check_out ''adam_create: output handle pointer is null'') (\<lambda>_.
     bindE (set_out 0) (\<lambda>_.
     bindE (statusE (torch_ValidateLearningRate learning_rate ''adam_create'')) (\<lambda>_.
     bindE (statusE (torch_ValidateBetas beta1 beta2 ''adam_create'')) (\<lambda>_.
     bindE (statusE (torch_ValidateEpsilon epsilon ''adam_create'')) (\<lambda>_.
     bindE (statusE (torch_ValidateWeightDecay weight_decay ''adam_create'')) (\<lambda>_.
     create_module_optimizer T ''adam_create'' module
       (\<lambda>parameters. lt_Adam T parameters learning_rate beta1 beta2 epsilon weight_decay)))))))"

definition torch_AdamWCreate :: "('t, 'w, 'm, 'o) libtorch \<Rightarrow> handle \<Rightarrow> f64 \<Rightarrow> f64 \<Rightarrow> f64 \<Rightarrow> f64 \<Rightarrow> f64 \<Rightarrow>
    (handle, 't, 'm, 'o, 'w) xapi" where
  "torch_AdamWCreate T module learning_rate beta1 beta2 epsilon weight_decay =
     bindE (check_out ''adamw_create: output handle pointer is null'') (\<lambda>_.
     bindE (set_out 0) (\<lambda>_.
     bindE (statusE (torch_ValidateLearningRate learning_rate ''adamw_create'')) (\<lambda>_.
     bindE (statusE (torch_ValidateBetas beta1 beta2 ''adamw_create'')) (\<lambda>_.
     bindE (statusE (torch_ValidateEpsilon epsilon ''adamw_create'')) (\<lambda>_.
     bindE (statusE (torch_ValidateWeightDecay weight_decay ''adamw_create'')) (\<lambda>_.
     create_module_optimizer T ''adamw_create'' module
       (\<lambda>parameters. lt_AdamW T parameters learning_rate beta1 beta2 epsilon weight_decay)))))))"

definition torch_LookupOptimizer :: "handle \<Rightarrow> ('t, 'm, 'o, 'w, 'o) xrt" where
  "torch_LookupOptimizer handle =
     bindE (LookupOptimizer handle) (\<lambda>k. getE (\<lambda>s. snd (tr_optimizers s ! k)))"

definition torch_OptimizerZeroGrad ::
    "('t, 'w, 'm, 'o) libtorch \<Rightarrow> handle \<Rightarrow> ('t, 'm, 'o, 'w, unit) xrt" where
  "torch_OptimizerZeroGrad T optimizer =
     bindE (torch_LookupOptimizer optimizer) (\<lambda>opt.
     GuardTorch ''optimizer_zero_grad'' (lt_zero_grad T opt))"

definition torch_OptimizerStep ::
    "('t, 'w, 'm, 'o) libtorch \<Rightarrow> handle \<Rightarrow> ('t, 'm, 'o, 'w, unit) xrt" where
  "torch_OptimizerStep T optimizer =
     bindE (torch_LookupOptimizer optimizer) (\<lambda>opt. GuardTorch ''optimizer_step'' (lt_step T opt))"

definition torch_OptimizerRelease :: "handle \<Rightarrow> ('t, 'm, 'o, 'w, unit) xrt" where
  "torch_OptimizerRelease optimizer = registryE (registry_release optimizer kOptimizer)"

end
