(* ===== verification/Torch_Nn.thy ===== *)
theory Torch_Nn
  imports Torch_Bridge
begin

text \<open>
  The parts of the neural layer that LibTorch tensors take: activations
  (\<open>native/src/training/nn_v2_runtime.h\<close>), switching gradients (\<open>nn_v2_parameter_control.h\<close>), identities
  and assignment (\<open>nn_v2_state.h\<close>), and the optimizer over tensors (\<open>nn_v2_optimizer.h\<close>), each in the
  code under \<open>TENSORA_WITH_TORCH\<close>.  Tensors in other storages take the code of the core-only build.
\<close>

section \<open>Activations\<close>

definition TorchUnary :: "('t, 'w, 'm, 'o) libtorch \<Rightarrow> tensor_ref \<Rightarrow> string \<Rightarrow> ('t \<Rightarrow> ('w, 't) torch_call) \<Rightarrow>
    ('t, 'm, 'o, 'w, tensor_ref) xrt" where
  "TorchUnary T tensor operation_name forward =
     bindE (TensorToTorch T tensor) (\<lambda>v.
     GuardAllocation operation_name (wrap_result T operation_name (forward v)))"

definition TorchSwiGlu ::
    "('t, 'w, 'm, 'o) libtorch \<Rightarrow> tensor_ref \<Rightarrow> ('t, 'm, 'o, 'w, tensor_ref) xrt" where
  "TorchSwiGlu T tensor =
     bindE (TensorToTorch T tensor) (\<lambda>v.
     bindE (worldE (lt_sizes T v)) (\<lambda>sizes.
     bindE (checkE (sizes \<noteq> [])
       (InvalidShape ''tensor_swiglu: input must have rank at least one'')) (\<lambda>_.
     bindE (returnE (last sizes)) (\<lambda>width.
     bindE (checkE (\<not> (width \<le> 0 \<or> width mod 2 \<noteq> 0))
       (InvalidShape ''tensor_swiglu: final dimension must be positive and even'')) (\<lambda>_.
     GuardAllocation ''tensor_swiglu'' (wrap_result T ''tensor_swiglu''
       (bindE (lt_slice T v 0 (width div 2)) (\<lambda>a.
        bindE (lt_slice T v (width div 2) width) (\<lambda>b.
        bindE (lt_silu T a) (\<lambda>gate. lt_mul T gate b))))))))))"

definition torch_Gelu :: "libm \<Rightarrow> ('t, 'w, 'm, 'o) libtorch \<Rightarrow> tensor_ref \<Rightarrow>
    ('t, 'm, 'o, 'w, tensor_ref) xrt" where
  "torch_Gelu L T tensor =
     bindE (kindE tensor) (\<lambda>kind.
     if kind = StorageKindTorch then TorchUnary T tensor ''tensor_gelu'' (lt_gelu T)
     else heapE (Gelu L tensor))"

definition torch_Silu :: "libm \<Rightarrow> ('t, 'w, 'm, 'o) libtorch \<Rightarrow> tensor_ref \<Rightarrow>
    ('t, 'm, 'o, 'w, tensor_ref) xrt" where
  "torch_Silu L T tensor =
     bindE (kindE tensor) (\<lambda>kind.
     if kind = StorageKindTorch then TorchUnary T tensor ''tensor_silu'' (lt_silu T)
     else heapE (Silu L tensor))"

definition torch_SwiGlu :: "libm \<Rightarrow> ('t, 'w, 'm, 'o) libtorch \<Rightarrow> tensor_ref \<Rightarrow>
    ('t, 'm, 'o, 'w, tensor_ref) xrt" where
  "torch_SwiGlu L T tensor =
     bindE (kindE tensor) (\<lambda>kind.
     if kind = StorageKindTorch then TorchSwiGlu T tensor else heapE (SwiGlu L tensor))"

section \<open>Gradients of a leaf\<close>

definition SetTorchRequiresGrad :: "('t, 'w, 'm, 'o) libtorch \<Rightarrow> tensor_ref \<Rightarrow> bool \<Rightarrow>
    ('t, 'm, 'o, 'w, unit) xrt" where
  "SetTorchRequiresGrad T tensor requires_grad =
     bindE (TensorToTorch T tensor) (\<lambda>v.
     bindE (worldE (lt_is_leaf T v)) (\<lambda>is_leaf.
     bindE (checkE is_leaf (InvalidArgument
       ''tensor_set_requires_grad: only leaf tensors may change requiresGrad'')) (\<lambda>_.
     GuardTorch ''tensor_set_requires_grad''
       (bindE (lt_set_requires_grad T v requires_grad) (\<lambda>_.
        bindE (getE (\<lambda>w. lt_defined T (lt_grad T v w) w)) (\<lambda>has_gradient.
        if \<not> requires_grad \<and> has_gradient then lt_clear_grad T v else returnE ()))))))"

definition torch_SetRequiresGrad :: "('t, 'w, 'm, 'o) libtorch \<Rightarrow> tensor_ref \<Rightarrow> bool \<Rightarrow>
    ('t, 'm, 'o, 'w, unit) xrt" where
  "torch_SetRequiresGrad T tensor requires_grad =
     bindE (kindE tensor) (\<lambda>kind.
     if kind = StorageKindTorch then SetTorchRequiresGrad T tensor requires_grad
     else heapE (SetCoreRequiresGrad tensor requires_grad))"

section \<open>Identities\<close>

definition PruneExpiredTorchIdentitiesLocked ::
    "('t, 'w, 'm, 'o) libtorch \<Rightarrow> ('t, 'm, 'o, 'w, unit) xrt" where
  "PruneExpiredTorchIdentitiesLocked T = modifyE (\<lambda>s.
     s\<lparr>tr_identities := filter (\<lambda>(key, _). \<not> lt_expired T key (tr_world s)) (tr_identities s)\<rparr>)"

definition TorchIdentity :: "('t, 'w, 'm, 'o) libtorch \<Rightarrow> tensor_ref \<Rightarrow>
    ('t, 'm, 'o, 'w, 64 word) xrt" where
  "TorchIdentity T tensor =
     bindE (TensorToTorch T tensor) (\<lambda>v.
     bindE (returnE (lt_impl T v)) (\<lambda>key.
     bindE (PruneExpiredTorchIdentitiesLocked T) (\<lambda>_.
     bindE (getE (\<lambda>s. map_of (tr_identities s) key)) (\<lambda>existing.
     case existing of
       Some ident \<Rightarrow> returnE ident
     | None \<Rightarrow>
         bindE (getE tr_next_identity) (\<lambda>assigned.
         bindE (checkE (assigned \<noteq> 0)
           (InternalError ''tensor_identity: opaque identity space exhausted'')) (\<lambda>_.
         bindE (modifyE (\<lambda>s. s\<lparr>tr_next_identity := assigned + 1\<rparr>)) (\<lambda>_.
         bindE (heapE (allocation_guard ''tensor_identity'' request_alloc)) (\<lambda>_.
         bindE (modifyE (\<lambda>s. s\<lparr>tr_identities := (key, assigned) # tr_identities s\<rparr>)) (\<lambda>_.
         returnE assigned)))))))))"

definition torch_TensorIdentity :: "('t, 'w, 'm, 'o) libtorch \<Rightarrow> tensor_ref \<Rightarrow>
    ('t, 'm, 'o, 'w, 64 word) xrt" where
  "torch_TensorIdentity T tensor =
     bindE (kindE tensor) (\<lambda>kind.
     if kind = StorageKindTorch then TorchIdentity T tensor else heapE (TensorIdentity tensor))"

definition torch_CloneDetached :: "('t, 'w, 'm, 'o) libtorch \<Rightarrow> tensor_ref \<Rightarrow>
    ('t, 'm, 'o, 'w, tensor_ref) xrt" where
  "torch_CloneDetached T tensor =
     bindE (kindE tensor) (\<lambda>kind.
     if kind = StorageKindTorch
     then bindE (TensorToTorch T tensor) (\<lambda>v.
       GuardAllocation ''tensor_clone_detached''
         (wrap_result T ''tensor_clone_detached'' (lt_detach_clone T v)))
     else heapE (CloneDetached tensor))"

section \<open>Assignment\<close>

text \<open>Copying the backups over the targets that were written; the result says whether all copies succeeded.\<close>

definition RollbackTorch :: "('t, 'w, 'm, 'o) libtorch \<Rightarrow> 't list \<Rightarrow> 't list \<Rightarrow> nat \<Rightarrow> 'w \<Rightarrow> bool \<times> 'w" where
  "RollbackTorch T targets backups committed w =
     (case forE (take committed (zip targets backups)) (\<lambda>(target, backup). lt_copy T target backup) w of
        (Inr _, w') \<Rightarrow> (True, w')
      | (Inl _, w') \<Rightarrow> (False, w'))"

text \<open>The loop of \<open>CommitTorchAssignments\<close>: the exception that ended it, if any, and how many were written.\<close>

fun commit_copies :: "('t, 'w, 'm, 'o) libtorch \<Rightarrow> ('t \<times> 't) list \<Rightarrow> nat \<Rightarrow> 'w \<Rightarrow>
    torch_exception option \<times> nat \<times> 'w" where
  "commit_copies T [] committed w = (None, committed, w)"
| "commit_copies T ((target, source) # pairs) committed w =
     (case lt_copy T target source w of
        (Inr _, w') \<Rightarrow> commit_copies T pairs (Suc committed) w'
      | (Inl e, w') \<Rightarrow> (Some e, committed, w'))"

definition CommitTorchAssignments :: "('t, 'w, 'm, 'o) libtorch \<Rightarrow> 't list \<Rightarrow> 't list \<Rightarrow> 't list \<Rightarrow>
    ('t, 'm, 'o, 'w, unit) xrt" where
  "CommitTorchAssignments T targets staged_sources backups = (\<lambda>s.
     case commit_copies T (zip targets staged_sources) 0 (tr_world s) of (e, committed, w) \<Rightarrow>
     (case e of
        None \<Rightarrow> (Inr (), s\<lparr>tr_world := w\<rparr>)
      | Some (C10Error what) \<Rightarrow>
          (case RollbackTorch T targets backups committed w of (rolled_back, w') \<Rightarrow>
             (Inl (Failed (if rolled_back then TorchFailure ''tensor_assign_many'' what
                else InternalError ''tensor_assign_many: provider mutation failed and rollback failed'')),
              s\<lparr>tr_world := w'\<rparr>))
      | Some (OtherException BadAlloc) \<Rightarrow>
          (case RollbackTorch T targets backups committed w of (rolled_back, w') \<Rightarrow>
             (Inl (Failed (if rolled_back then OutOfMemory ''tensor_assign_many: provider allocation failed''
                else InternalError ''tensor_assign_many: allocation failed and rollback failed'')),
              s\<lparr>tr_world := w'\<rparr>))
      | Some (OtherException other) \<Rightarrow> (Inl (Raised other), s\<lparr>tr_world := w\<rparr>)))"

definition torch_assign_pair :: "('t, 'w, 'm, 'o) libtorch \<Rightarrow> handle \<times> handle \<Rightarrow> assign_batch \<Rightarrow>
    ('t, 'm, 'o, 'w, assign_batch) xrt" where
  "torch_assign_pair T = (\<lambda>(target_handle, source_handle) batch.
     bindE (LookupTensor target_handle) (\<lambda>target.
     bindE (LookupTensor source_handle) (\<lambda>source.
     bindE (getE rt_heap) (\<lambda>h.
     bindE (statusE (ValidatePair h (tensor_at h target) (tensor_at h source) ''tensor_assign_many''))
       (\<lambda>_.
     bindE (torch_TensorIdentity T target) (\<lambda>target_identity.
     bindE (heapE (allocation_guard ''tensor_assign_many'' request_alloc)) (\<lambda>_.
     bindE (checkE (target_identity \<notin> set (ab_identities batch))
       (InvalidArgument ''tensor_assign_many: duplicate target tensor'')) (\<lambda>_.
     bindE (kindE target) (\<lambda>kind.
     bindE (checkE (ab_kind batch = None \<or> ab_kind batch = Some kind)
       (InvalidArgument ''tensor_assign_many: one transaction cannot span storage backends'')) (\<lambda>_.
     returnE \<lparr>ab_identities = target_identity # ab_identities batch, ab_kind = Some kind,
       ab_targets = ab_targets batch @ [target], ab_sources = ab_sources batch @ [source]\<rparr>))))))))))"

text \<open>The LibTorch tensor of a target, the staged copy of its source, and the backup of the target.\<close>

definition torch_stage_pair :: "('t, 'w, 'm, 'o) libtorch \<Rightarrow> tensor_ref \<times> tensor_ref \<Rightarrow> ('t \<times> 't \<times> 't) list \<Rightarrow>
    ('t, 'm, 'o, 'w, ('t \<times> 't \<times> 't) list) xrt" where
  "torch_stage_pair T = (\<lambda>(target_ref, source_ref) staged.
     bindE (TensorToTorch T target_ref) (\<lambda>target.
     bindE (TensorToTorch T source_ref) (\<lambda>source.
     GuardTorch ''tensor_assign_many''
       (bindE (lt_detach_clone T source) (\<lambda>staged_source.
        bindE (lt_detach_clone T target) (\<lambda>backup.
        returnE (staged @ [(target, staged_source, backup)])))))))"

definition assign_torch :: "('t, 'w, 'm, 'o) libtorch \<Rightarrow> tensor_ref list \<Rightarrow> tensor_ref list \<Rightarrow>
    ('t, 'm, 'o, 'w, unit) xrt" where
  "assign_torch T targets sources =
     bindE (GuardAllocation ''tensor_assign_many''
       (bindE (heapE request_alloc) (\<lambda>_.
        bindE (heapE request_alloc) (\<lambda>_.
        bindE (heapE request_alloc) (\<lambda>_.
        foldE (zip targets sources) [] (torch_stage_pair T)))))) (\<lambda>staged.
     bindE (CommitTorchAssignments T (map fst staged) (map (fst \<circ> snd) staged) (map (snd \<circ> snd) staged))
       (\<lambda>_.
     forE targets (\<lambda>target. heapE (increment_version target))))"

definition torch_AssignMany :: "('t, 'w, 'm, 'o) libtorch \<Rightarrow> handle list option \<Rightarrow> handle list option \<Rightarrow> nat \<Rightarrow>
    ('t, 'm, 'o, 'w, unit) xrt" where
  "torch_AssignMany T target_handles source_handles count =
     (if count = 0 then returnE ()
      else
        bindE (checkE (target_handles \<noteq> None \<and> source_handles \<noteq> None)
          (InvalidArgument ''tensor_assign_many: tensor arrays are null'')) (\<lambda>_.
        bindE (heapE (allocation_guard ''tensor_assign_many'' (bindE request_alloc (\<lambda>_. request_alloc))))
          (\<lambda>_.
        bindE (foldE (zip (take count (the target_handles)) (take count (the source_handles)))
          empty_batch (torch_assign_pair T)) (\<lambda>batch.
        if ab_kind batch = Some StorageKindCpu
        then heapE (assign_cpu (ab_targets batch) (ab_sources batch))
        else if ab_kind batch = Some StorageKindTorch
        then assign_torch T (ab_targets batch) (ab_sources batch)
        else failE (Unsupported ''tensor_assign_many: storage backend is unsupported'')))))"

section \<open>The optimizer over tensors\<close>

definition torch_collect_parameter :: "('t, 'w, 'm, 'o) libtorch \<Rightarrow> string \<Rightarrow> handle \<Rightarrow>
    tensor_ref list \<times> storage_kind option \<times> tensor_ref list \<Rightarrow>
    ('t, 'm, 'o, 'w, tensor_ref list \<times> storage_kind option \<times> tensor_ref list) xrt" where
  "torch_collect_parameter T operation handle = (\<lambda>(seen, kind, out).
     bindE (LookupTensor handle) (\<lambda>parameter.
     bindE (checkE (parameter \<notin> set seen)
       (InvalidArgument (operation @ '': duplicate parameter tensor''))) (\<lambda>_.
     bindE (torch_RequiresGrad T parameter) (\<lambda>requires_grad.
     if \<not> requires_grad then returnE (parameter # seen, kind, out)
     else
       bindE (kindE parameter) (\<lambda>parameter_kind.
       bindE (checkE (kind = None \<or> kind = Some parameter_kind)
         (InvalidArgument (operation @ '': all trainable parameters must use one backend''))) (\<lambda>_.
       returnE (parameter # seen, Some parameter_kind, out @ [parameter])))))))"

definition torch_CollectParameters :: "('t, 'w, 'm, 'o) libtorch \<Rightarrow> handle list option \<Rightarrow> nat \<Rightarrow> string \<Rightarrow>
    ('t, 'm, 'o, 'w, tensor_ref list \<times> storage_kind) xrt" where
  "torch_CollectParameters T handles count operation =
     bindE (checkE (handles \<noteq> None \<and> count \<noteq> 0)
       (InvalidArgument (operation @ '': parameter collection must not be empty''))) (\<lambda>_.
     bindE (foldE (take count (the handles)) ([], None, []) (torch_collect_parameter T operation))
       (\<lambda>(_, kind, out).
     bindE (checkE (out \<noteq> [])
       (InvalidArgument (operation @ '': no trainable parameters remain after filtering''))) (\<lambda>_.
     returnE (out, the kind))))"

text \<open>The members \<open>torch_parameters\<close> and \<open>torch_optimizer\<close> of a new state.\<close>

definition InitializeTorch :: "('t, 'w, 'm, 'o) libtorch \<Rightarrow> optimizer_core \<Rightarrow> tensor_ref list \<Rightarrow> string \<Rightarrow>
    ('t, 'm, 'o, 'w, 't list \<times> 'o) xrt" where
  "InitializeTorch T state parameters operation =
     GuardAllocation operation
       (bindE (heapE request_alloc) (\<lambda>_.
        bindE (foldE parameters [] (\<lambda>parameter acc.
          bindE (TensorToTorch T parameter) (\<lambda>v. returnE (acc @ [v])))) (\<lambda>torch_parameters.
        bindE (GuardTorch operation
          (case oc_kind state of
             kSgd \<Rightarrow> lt_SGD T torch_parameters (oc_learning_rate state) (oc_momentum state)
               (oc_weight_decay state)
           | kAdam \<Rightarrow> lt_Adam T torch_parameters (oc_learning_rate state) (oc_beta1 state) (oc_beta2 state)
               (oc_epsilon state) (oc_weight_decay state)
           | kAdamW \<Rightarrow> lt_AdamW T torch_parameters (oc_learning_rate state) (oc_beta1 state)
               (oc_beta2 state) (oc_epsilon state) (oc_weight_decay state))) (\<lambda>optimizer.
        returnE (torch_parameters, optimizer)))))"

definition torch_Create :: "('t, 'w, 'm, 'o) libtorch \<Rightarrow> handle list option \<Rightarrow> nat \<Rightarrow> optimizer_kind \<Rightarrow>
    f64 \<Rightarrow> f64 \<Rightarrow> f64 \<Rightarrow> f64 \<Rightarrow> f64 \<Rightarrow> f64 \<Rightarrow> string \<Rightarrow> (handle, 't, 'm, 'o, 'w) xapi" where
  "torch_Create T handles count kind learning_rate momentum beta1 beta2 epsilon weight_decay operation =
     bindE (check_out (operation @ '': output handle pointer is null'')) (\<lambda>_.
     bindE (set_out 0) (\<lambda>_.
     bindE (statusE (ValidateLearningRate learning_rate operation)) (\<lambda>_.
     bindE (statusE (ValidateWeightDecay weight_decay operation)) (\<lambda>_.
     bindE (if kind = kSgd then statusE (ValidateMomentum momentum operation)
            else bindE (statusE (ValidateBetas beta1 beta2 operation)) (\<lambda>_.
                 statusE (ValidateEpsilon epsilon operation))) (\<lambda>_.
     bindE (runtimeE (torch_CollectParameters T handles count operation)) (\<lambda>(parameters, storage_kind).
     bindE (runtimeE (heapE (allocation_guard operation request_alloc))) (\<lambda>_.
     bindE (returnE \<lparr>oc_kind = kind, oc_learning_rate = learning_rate,
       oc_momentum = momentum, oc_beta1 = beta1, oc_beta2 = beta2, oc_epsilon = epsilon,
       oc_weight_decay = weight_decay, oc_step = 0, oc_first_moment = [], oc_second_moment = []\<rparr>)
       (\<lambda>state.
     bindE (if storage_kind = StorageKindCpu
            then bindE (runtimeE (heapE (InitializeCpuMoments parameters operation)))
              (\<lambda>moments. returnE (moments, None))
            else if storage_kind = StorageKindTorch
            then bindE (runtimeE (InitializeTorch T state parameters operation))
              (\<lambda>members. returnE (([], []), Some members))
            else failE (Unsupported (operation @ '': parameter storage backend is unsupported'')))
       (\<lambda>((first, second), members).
     bindE (runtimeE (new_parameter_optimizer \<lparr>oc_kind = kind, oc_learning_rate = learning_rate,
       oc_momentum = momentum, oc_beta1 = beta1, oc_beta2 = beta2, oc_epsilon = epsilon,
       oc_weight_decay = weight_decay, oc_step = 0, oc_first_moment = first,
       oc_second_moment = second, po_parameters = parameters, po_storage_kind = storage_kind\<rparr>))
       (\<lambda>k.
     bindE (runtimeE (modifyE (\<lambda>s. s\<lparr>tr_parameter_torch := (tr_parameter_torch s)(k := members)\<rparr>)))
       (\<lambda>_. InsertObject kParameterOptimizer k)))))))))))"

definition torch_v2_SgdCreate :: "('t, 'w, 'm, 'o) libtorch \<Rightarrow> handle list option \<Rightarrow> nat \<Rightarrow> f64 \<Rightarrow> f64 \<Rightarrow>
    f64 \<Rightarrow> (handle, 't, 'm, 'o, 'w) xapi" where
  "torch_v2_SgdCreate T handles count learning_rate momentum weight_decay =
     torch_Create T handles count kSgd learning_rate momentum f64_zero f64_zero f64_zero weight_decay
       ''sgd_create_for_tensors''"

definition torch_v2_AdamCreate :: "('t, 'w, 'm, 'o) libtorch \<Rightarrow> handle list option \<Rightarrow> nat \<Rightarrow> f64 \<Rightarrow> f64 \<Rightarrow>
    f64 \<Rightarrow> f64 \<Rightarrow> f64 \<Rightarrow> (handle, 't, 'm, 'o, 'w) xapi" where
  "torch_v2_AdamCreate T handles count learning_rate beta1 beta2 epsilon weight_decay =
     torch_Create T handles count kAdam learning_rate f64_zero beta1 beta2 epsilon weight_decay
       ''adam_create_for_tensors''"

definition torch_v2_AdamWCreate :: "('t, 'w, 'm, 'o) libtorch \<Rightarrow> handle list option \<Rightarrow> nat \<Rightarrow> f64 \<Rightarrow> f64 \<Rightarrow>
    f64 \<Rightarrow> f64 \<Rightarrow> f64 \<Rightarrow> (handle, 't, 'm, 'o, 'w) xapi" where
  "torch_v2_AdamWCreate T handles count learning_rate beta1 beta2 epsilon weight_decay =
     torch_Create T handles count kAdamW learning_rate f64_zero beta1 beta2 epsilon weight_decay
       ''adamw_create_for_tensors''"

text \<open>The members a state in LibTorch storage always has.\<close>

definition torch_membersE :: "nat \<Rightarrow> ('t, 'm, 'o, 'w, 't list \<times> 'o) xrt" where
  "torch_membersE k = getE (\<lambda>s. the (tr_parameter_torch s k))"

definition torch_ZeroGrad ::
    "('t, 'w, 'm, 'o) libtorch \<Rightarrow> handle \<Rightarrow> ('t, 'm, 'o, 'w, unit) xrt" where
  "torch_ZeroGrad T optimizer =
     bindE (LookupParameterOptimizer optimizer) (\<lambda>k.
     bindE (getE (\<lambda>s. rt_parameter_optimizers s ! k)) (\<lambda>state.
     if po_storage_kind state = StorageKindTorch
     then bindE (torch_membersE k) (\<lambda>(_, torch_optimizer).
       GuardTorch ''parameter_optimizer_zero_grad'' (lt_zero_grad T torch_optimizer))
     else forE (po_parameters state) (\<lambda>parameter. heapE (ClearGradient parameter))))"

definition torch_v2_Step ::
    "libm \<Rightarrow> ('t, 'w, 'm, 'o) libtorch \<Rightarrow> handle \<Rightarrow> ('t, 'm, 'o, 'w, unit) xrt" where
  "torch_v2_Step L T optimizer =
     bindE (LookupParameterOptimizer optimizer) (\<lambda>k.
     bindE (getE (\<lambda>s. rt_parameter_optimizers s ! k)) (\<lambda>state.
     if po_storage_kind state = StorageKindTorch
     then bindE (torch_membersE k) (\<lambda>(torch_parameters, torch_optimizer).
       bindE (GuardTorch ''parameter_optimizer_step'' (lt_step T torch_optimizer)) (\<lambda>_.
       forE (zip (po_parameters state) torch_parameters) (\<lambda>(parameter, v).
         bindE (worldE (\<lambda>w. lt_defined T (lt_grad T v w) w)) (\<lambda>has_gradient.
         if has_gradient then heapE (increment_version parameter) else returnE ()))))
     else CpuStep L k))"

end
