(* ===== verification/Torch_Memory.thy ===== *)
theory Torch_Memory
  imports Torch_Nn
begin

text \<open>
  What the assignment of many LibTorch tensors does to their memory
  (\<open>native/src/training/nn_v2_state.h\<close>).

  The memory of LibTorch is seen through three functions: \<open>mem\<close> gives the value at an address in a world,
  \<open>live\<close> the addresses in use, \<open>cells\<close> the addresses of the elements of a tensor, in order.  \<open>torch_memory\<close>
  states what the code relies on: \<open>copy_\<close> writes the elements of its target and nothing else, even when
  it throws; a clone is new memory with the values of its source.
\<close>

definition same_memory :: "('w \<Rightarrow> nat \<Rightarrow> f32) \<Rightarrow> 'w \<Rightarrow> 'w \<Rightarrow> nat set \<Rightarrow> bool" where
  "same_memory mem w w' X \<longleftrightarrow> (\<forall>x \<in> X. mem w' x = mem w x)"

definition torch_memory :: "('t, 'w, 'z) libtorch_devices_scheme \<Rightarrow> ('w \<Rightarrow> nat \<Rightarrow> f32) \<Rightarrow> ('w \<Rightarrow> nat set) \<Rightarrow>
    ('t \<Rightarrow> nat list) \<Rightarrow> bool" where
  "torch_memory T mem live cells \<longleftrightarrow>
     (\<forall>a b w r w'. lt_copy T a b w = (r, w') \<longrightarrow>
        live w \<subseteq> live w' \<and> same_memory mem w w' (live w - set (cells a))) \<and>
     (\<forall>a b w w'. lt_copy T a b w = (Inr (), w') \<longrightarrow> distinct (cells a) \<longrightarrow> length (cells a) = length (cells b) \<longrightarrow>
        map (mem w') (cells a) = map (mem w) (cells b)) \<and>
     (\<forall>a w r w'. lt_detach_clone T a w = (r, w') \<longrightarrow> live w \<subseteq> live w' \<and> same_memory mem w w' (live w)) \<and>
     (\<forall>a c w w'. lt_detach_clone T a w = (Inr c, w') \<longrightarrow>
        set (cells c) \<subseteq> live w' - live w \<and> map (mem w') (cells c) = map (mem w) (cells a))"

lemma torch_memoryD:
  assumes "torch_memory T mem live cells"
  shows "lt_copy T a b w = (r, w') \<Longrightarrow> live w \<subseteq> live w'"
    "lt_copy T a b w = (r, w') \<Longrightarrow> same_memory mem w w' (live w - set (cells a))"
    "lt_copy T a b w = (Inr u, w') \<Longrightarrow> distinct (cells a) \<Longrightarrow> length (cells a) = length (cells b) \<Longrightarrow>
      map (mem w') (cells a) = map (mem w) (cells b)"
    "lt_detach_clone T a w = (q, w') \<Longrightarrow> live w \<subseteq> live w'"
    "lt_detach_clone T a w = (q, w') \<Longrightarrow> same_memory mem w w' (live w)"
    "lt_detach_clone T a w = (Inr c, w') \<Longrightarrow> set (cells c) \<subseteq> live w' - live w"
    "lt_detach_clone T a w = (Inr c, w') \<Longrightarrow> map (mem w') (cells c) = map (mem w) (cells a)"
  using assms unfolding torch_memory_def by (blast+, (cases u, blast)?, blast+)

lemma same_memory_refl [simp]: "same_memory mem w w X"
  by (simp add: same_memory_def)

lemma same_memory_trans:
  "same_memory mem w w1 X \<Longrightarrow> same_memory mem w1 w2 Y \<Longrightarrow> Z \<subseteq> X \<Longrightarrow> Z \<subseteq> Y \<Longrightarrow> same_memory mem w w2 Z"
  unfolding same_memory_def by (metis subsetD)

lemma same_memory_mono: "same_memory mem w w' X \<Longrightarrow> Z \<subseteq> X \<Longrightarrow> same_memory mem w w' Z"
  by (auto simp: same_memory_def)

lemma same_memory_map: "same_memory mem w w' X \<Longrightarrow> set xs \<subseteq> X \<Longrightarrow> map (mem w') xs = map (mem w) xs"
  by (auto simp: same_memory_def)

section \<open>Copying and rolling back\<close>

text \<open>Pairs a copy loop can process: equal sizes, and sources apart from every target.\<close>

definition target_cells :: "('t \<Rightarrow> nat list) \<Rightarrow> ('t \<times> 't) list \<Rightarrow> nat set" where
  "target_cells cells pairs = (\<Union>(a, _) \<in> set pairs. set (cells a))"

definition copyable :: "('t \<Rightarrow> nat list) \<Rightarrow> nat set \<Rightarrow> nat set \<Rightarrow> ('t \<times> 't) list \<Rightarrow> bool" where
  "copyable cells alive targets pairs \<longleftrightarrow> (\<forall>(a, b) \<in> set pairs.
     distinct (cells a) \<and> length (cells a) = length (cells b) \<and> set (cells a) \<subseteq> targets \<and>
     set (cells b) \<subseteq> alive - targets)"

lemma target_cells_simps [simp]:
  "target_cells cells [] = {}"
  "target_cells cells ((a, b) # pairs) = set (cells a) \<union> target_cells cells pairs"
  by (auto simp: target_cells_def)

lemma copyable_simps [simp]:
  "copyable cells alive targets []"
  "copyable cells alive targets ((a, b) # pairs) \<longleftrightarrow> distinct (cells a) \<and> length (cells a) = length (cells b) \<and>
     set (cells a) \<subseteq> targets \<and> set (cells b) \<subseteq> alive - targets \<and> copyable cells alive targets pairs"
  by (auto simp: copyable_def)

lemma copyable_mono: "copyable cells alive targets pairs \<Longrightarrow> alive \<subseteq> alive' \<Longrightarrow> copyable cells alive' targets pairs"
  unfolding copyable_def by fast

lemma copyable_targets: "copyable cells alive targets pairs \<Longrightarrow> target_cells cells pairs \<subseteq> targets"
  by (auto simp: copyable_def target_cells_def)

lemma copyable_take: "copyable cells alive targets pairs \<Longrightarrow> copyable cells alive targets (take n pairs)"
  unfolding copyable_def by (meson in_set_takeD)

lemma copyable_values:
  assumes "copyable cells alive targets pairs" and "same_memory mem w w' (alive - targets)" and "(a, b) \<in> set pairs"
  shows "map (mem w') (cells b) = map (mem w) (cells b)"
  using assms by (fastforce simp: copyable_def intro: same_memory_map)

lemma commit_copies_post:
  assumes laws: "torch_memory T mem live cells"
    and "copyable cells (live w) targets pairs" and "commit_copies T pairs k w = (e, n, w')"
  shows "live w \<subseteq> live w' \<and> same_memory mem w w' (live w - target_cells cells (take (Suc (n - k)) pairs)) \<and>
    k \<le> n \<and> (case e of None \<Rightarrow> n = k + length pairs | Some _ \<Rightarrow> n < k + length pairs)"
  using assms(2,3)
proof (induction pairs arbitrary: k w)
  case Nil
  then show ?case by simp
next
  case (Cons p pairs)
  obtain a b where p: "p = (a, b)" by force
  obtain r w1 where c: "lt_copy T a b w = (r, w1)" by force
  note l = torch_memoryD(1,2) [OF laws c]
  show ?case
  proof (cases r)
    case (Inl x)
    then show ?thesis using Cons.prems c l p by (auto intro: same_memory_mono)
  next
    case (Inr u)
    then have run: "commit_copies T pairs (Suc k) w1 = (e, n, w')" using Cons.prems(2) c p by simp
    have "copyable cells (live w1) targets pairs" using Cons.prems(1) p l(1) copyable_mono by auto
    note IH = Cons.IH [OF this run]
    then have "Suc (n - k) = Suc (Suc (n - Suc k))" by linarith
    then have "target_cells cells (take (Suc (n - k)) (p # pairs)) =
        set (cells a) \<union> target_cells cells (take (Suc (n - Suc k)) pairs)" using p by simp
    then show ?thesis
      using IH l by (auto split: option.splits intro: same_memory_trans)
  qed
qed

text \<open>After a complete loop a target that shares no memory with the other targets has the values of its source.\<close>

lemma commit_copies_values:
  assumes laws: "torch_memory T mem live cells"
    and "copyable cells (live w) targets pairs" and "targets \<subseteq> live w"
    and "commit_copies T pairs k w = (None, n, w')"
    and "i < length pairs" and "\<And>j. j < length pairs \<Longrightarrow> j \<noteq> i \<Longrightarrow>
      set (cells (fst (pairs ! i))) \<inter> set (cells (fst (pairs ! j))) = {}"
  shows "map (mem w') (cells (fst (pairs ! i))) = map (mem w) (cells (snd (pairs ! i)))"
  using assms(2-6)
proof (induction pairs arbitrary: k w i)
  case Nil
  then show ?case by simp
next
  case (Cons p pairs)
  obtain a b where p: "p = (a, b)" by force
  from Cons.prems(3) p obtain u w1 where c: "lt_copy T a b w = (Inr u, w1)"
    and run: "commit_copies T pairs (Suc k) w1 = (None, n, w')"
    by (auto split: prod.splits sum.splits)
  note l = torch_memoryD(1,2) [OF laws c]
  have cp: "copyable cells (live w1) targets pairs" using Cons.prems(1) p l(1) copyable_mono by auto
  show ?case
  proof (cases i)
    case 0
    note post = commit_copies_post [OF laws cp run]
    have "set (cells a) \<inter> target_cells cells pairs = {}"
    proof -
      have "set (cells a) \<inter> set (cells (fst q)) = {}" if "q \<in> set pairs" for q
      proof -
        from that obtain j where "j < length pairs" "q = pairs ! j" by (auto simp: in_set_conv_nth)
        then show ?thesis using Cons.prems(5) [of "Suc j"] 0 p by simp
      qed
      then show ?thesis by (fastforce simp: target_cells_def)
    qed
    moreover have "target_cells cells (take (Suc (n - Suc k)) pairs) \<subseteq> target_cells cells pairs"
      unfolding target_cells_def by (intro UN_mono set_take_subset) simp
    moreover have "set (cells a) \<subseteq> live w1" using Cons.prems(1,2) p l(1) by auto
    ultimately have "set (cells a) \<subseteq> live w1 - target_cells cells (take (Suc (n - Suc k)) pairs)" by blast
    then have "map (mem w') (cells a) = map (mem w1) (cells a)"
      by (rule same_memory_map [OF conjunct1 [OF conjunct2 [OF post]]])
    also have "\<dots> = map (mem w) (cells b)"
      using torch_memoryD(3) [OF laws c] Cons.prems(1) p by simp
    finally show ?thesis by (simp only: p 0 nth_Cons_0 fst_conv snd_conv)
  next
    case (Suc j)
    have "map (mem w') (cells (fst (pairs ! j))) = map (mem w1) (cells (snd (pairs ! j)))"
    proof (rule Cons.IH [OF cp _ run])
      show "targets \<subseteq> live w1" using Cons.prems(2) l(1) by blast
      show "j < length pairs" using Cons.prems(4) Suc by simp
      fix j' assume "j' < length pairs" "j' \<noteq> j"
      then show "set (cells (fst (pairs ! j))) \<inter> set (cells (fst (pairs ! j'))) = {}"
        using Cons.prems(5) [of "Suc j'"] Suc by simp
    qed
    moreover have away: "map (mem w1) (cells (snd (pairs ! j))) = map (mem w) (cells (snd (pairs ! j)))"
    proof (rule copyable_values [OF Cons.prems(1)])
      show "same_memory mem w w1 (live w - targets)"
        using l(2) Cons.prems(1) p by (auto intro: same_memory_mono)
      show "(fst (pairs ! j), snd (pairs ! j)) \<in> set (p # pairs)" using Suc Cons.prems(4) by simp
    qed
    ultimately show ?thesis using Suc by simp
  qed
qed

text \<open>Copying backups: an address of a target gets its value of the world the backups are from.\<close>

lemma copy_backups:
  assumes laws: "torch_memory T mem live cells"
    and "copyable cells (live w) targets pairs" and "targets \<subseteq> live w"
    and "\<forall>(a, b) \<in> set pairs. map (mem w) (cells b) = map m0 (cells a)"
    and "forE pairs (\<lambda>(target, backup). lt_copy T target backup) w = (Inr u, w')"
  shows "live w \<subseteq> live w' \<and> (\<forall>x \<in> live w. mem w' x = (if x \<in> target_cells cells pairs then m0 x else mem w x))"
  using assms(2-5)
proof (induction pairs arbitrary: w)
  case Nil
  then show ?case by (simp add: returnE_run)
next
  case (Cons p pairs)
  obtain a b where p: "p = (a, b)" by force
  obtain u1 w1 where c: "lt_copy T a b w = (Inr u1, w1)"
    and run: "forE pairs (\<lambda>(target, backup). lt_copy T target backup) w1 = (Inr u, w')"
    using Cons.prems(4) p by (auto elim: bindE_InrE)
  note l = torch_memoryD(1,2) [OF laws c]
  have cp: "copyable cells (live w1) targets pairs" using Cons.prems(1) p l(1) copyable_mono by auto
  have away: "same_memory mem w w1 (live w - targets)"
    using l(2) Cons.prems(1) p by (auto intro: same_memory_mono)
  have "map (mem w1) (cells b') = map m0 (cells a')" if "(a', b') \<in> set pairs" for a' b'
  proof -
    have "map (mem w) (cells b') = map m0 (cells a')" using Cons.prems(3) that by fastforce
    then show ?thesis using copyable_values [OF Cons.prems(1) away, of a' b'] that by simp
  qed
  then have IH: "live w1 \<subseteq> live w' \<and>
      (\<forall>x \<in> live w1. mem w' x = (if x \<in> target_cells cells pairs then m0 x else mem w1 x))"
    using Cons.prems(2) l(1) by (intro Cons.IH [OF cp _ _ run]) auto
  have "map (mem w1) (cells a) = map m0 (cells a)"
    using torch_memoryD(3) [OF laws c] Cons.prems(1,3) p by simp
  then have "\<forall>x \<in> live w. mem w1 x = (if x \<in> set (cells a) then m0 x else mem w x)"
    using l(2) by (auto simp: same_memory_def)
  then show ?case using IH l(1) p by (auto simp: subset_iff)
qed

end
