(* ===== verification/Torch_Assignment.thy ===== *)
theory Torch_Assignment
  imports Torch_Memory Tensor_State_Spec
begin

text \<open>
  The assignment of many tensors in the build with LibTorch (\<open>native/src/training/nn_v2_state.h\<close>): its
  first loop looks the pairs up and validates them, its second stages copies of the sources and backups
  of the targets, and \<open>CommitTorchAssignments\<close> writes the targets, or rolls them back.
\<close>

section \<open>The loop over the pairs\<close>

text \<open>A change of the runtime that leaves tensors, storages, handles and everything in LibTorch as they are.\<close>

definition calm :: "('t, 'm, 'o, 'w) torch_runtime \<Rightarrow> ('t, 'm, 'o, 'w) torch_runtime \<Rightarrow> bool" where
  "calm s s' \<longleftrightarrow> tensors (rt_heap s') = tensors (rt_heap s) \<and> storages (rt_heap s') = storages (rt_heap s) \<and>
     rt_registry s' = rt_registry s \<and> tr_tensors s' = tr_tensors s \<and> tr_world s' = tr_world s"

interpretation calm: frame_relation calm
  by unfold_locales (auto simp: calm_def)

text \<open>The tensor of LibTorch behind a tensor of the library, and behind a handle.\<close>

definition torch_tensor :: "('t, 'm, 'o, 'w) torch_runtime \<Rightarrow> tensor_ref \<Rightarrow> 't option" where
  "torch_tensor s r = (if storage_kind_of (storage_of (rt_heap s) (tensor_at (rt_heap s) r)) = StorageKindTorch
     then tr_tensors s (t_storage (tensor_at (rt_heap s) r)) else None)"

definition torch_of :: "('t, 'm, 'o, 'w) torch_runtime \<Rightarrow> handle \<Rightarrow> 't option" where
  "torch_of s h = Option.bind (tensor_handle s h) (torch_tensor s)"

lemma calm_torch:
  assumes "calm s s'"
  shows "torch_tensor s' = torch_tensor s" "tensor_handle s' = tensor_handle s" "torch_of s' = torch_of s"
proof -
  show "torch_tensor s' = torch_tensor s" "tensor_handle s' = tensor_handle s"
    using assms by (simp_all add: calm_def torch_tensor_def tensor_handle_def fun_eq_iff)
  then show "torch_of s' = torch_of s" by (intro ext) (simp add: torch_of_def)
qed

lemma calm_modify:
  "(\<And>s. calm s (f s)) \<Longrightarrow> keeps calm (modifyE f)"
  by (simp add: keeps_def)

lemma calm_LookupTensor: "keeps calm (LookupTensor h)"
proof -
  have "snd (LookupTensor h s) = s" for s :: "('a, 'b, 'c, 'd) torch_runtime"
    using registry_lookup_state [of h kTensor "rt_registry s"]
    by (cases "registry_lookup h kTensor (rt_registry s)") (simp add: LookupTensor_def registryE_def)
  then show ?thesis by (simp add: keeps_def calm.frame_refl)
qed

interpretation still: frame_relation "\<lambda>h h'. tensors h' = tensors h \<and> storages h' = storages h"
  by unfold_locales simp_all

lemma calm_heapE:
  assumes "keeps (\<lambda>h h'. tensors h' = tensors h \<and> storages h' = storages h) m"
  shows "keeps calm (heapE m)"
proof -
  have "calm s (snd (heapE m s))" for s :: "('b, 'c, 'd, 'e) torch_runtime"
  proof -
    obtain r h' where "m (rt_heap s) = (r, h')" by force
    then show ?thesis using keepsD [OF assms] by (simp add: calm_def heapE_def)
  qed
  then show ?thesis by (simp add: keeps_def)
qed

lemma calm_request_alloc: "keeps calm (heapE request_alloc)"
  by (rule calm_heapE) (simp add: keeps_def request_alloc_keeps_objects)

lemma calm_guard_request: "keeps calm (heapE (allocation_guard op request_alloc))"
  by (intro calm_heapE keeps_allocation_guard) (simp add: keeps_def request_alloc_keeps_objects)

lemma calm_status: "keeps calm (statusE r)" "keeps calm (checkE b st)" "keeps calm (failE st)"
  by (simp_all add: keeps_def statusE_run checkE_run failE_run calm.frame_refl)

lemmas calm_basic = calm.keeps_basic calm_LookupTensor calm_request_alloc calm_guard_request calm_status

lemma calm_TensorIdentity: "keeps calm (heapE (TensorIdentity r))"
  unfolding TensorIdentity_def by (intro calm_heapE) (auto simp: keeps_def bindE_def checkE_run returnE_run)

text \<open>A tensor that is kept in LibTorch is handed over without a call of LibTorch.\<close>

lemma TensorToTorch_stored:
  assumes "storage_kind_of (storage_of (rt_heap s) (tensor_at (rt_heap s) r)) = StorageKindTorch"
  shows "TensorToTorch T r s =
    ((if t_dtype (tensor_at (rt_heap s) r) \<noteq> kFloat32
      then Inl (Failed (Unsupported ''tensor to torch: only float32 is supported''))
      else case torch_tensor s r of
        None \<Rightarrow> Inl (Failed (InternalError ''tensor to torch: invalid Torch storage type''))
      | Some v \<Rightarrow> Inr v), s)"
  using assms by (simp add: TensorToTorch_def tensorE_def heapE_def bindE_def torch_EnsureFloat32_def statusE_run
      torch_tensor_def failE_run returnE_run split: option.split)

lemma TensorToTorch_stored_Inr:
  assumes "storage_kind_of (storage_of (rt_heap s) (tensor_at (rt_heap s) r)) = StorageKindTorch"
    and "TensorToTorch T r s = (Inr v, s')"
  shows "s' = s \<and> torch_tensor s r = Some v"
  using assms by (simp add: TensorToTorch_stored split: if_splits option.splits)

lemma kindE_run: "kindE r s = (Inr (storage_kind_of (storage_of (rt_heap s) (tensor_at (rt_heap s) r))), s)"
  by (simp add: kindE_def)

lemma calm_torch_TensorIdentity: "keeps calm (torch_TensorIdentity T r)"
proof -
  have prune: "keeps calm (PruneExpiredTorchIdentitiesLocked T)"
    unfolding PruneExpiredTorchIdentitiesLocked_def by (rule calm_modify) (simp add: calm_def)
  have rest: "keeps calm (case existing of Some ident \<Rightarrow> returnE ident
     | None \<Rightarrow>
         bindE (getE tr_next_identity) (\<lambda>assigned.
         bindE (checkE (assigned \<noteq> 0)
           (InternalError ''tensor_identity: opaque identity space exhausted'')) (\<lambda>_.
         bindE (modifyE (\<lambda>s. s\<lparr>tr_next_identity := assigned + 1\<rparr>)) (\<lambda>_.
         bindE (heapE (allocation_guard ''tensor_identity'' request_alloc)) (\<lambda>_.
         bindE (modifyE (\<lambda>s. s\<lparr>tr_identities := (key, assigned) # tr_identities s\<rparr>)) (\<lambda>_.
         returnE assigned))))))" for existing key
    by (cases existing) (auto intro!: calm_basic calm_modify simp: calm_def)
  have "calm s (snd (torch_TensorIdentity T r s))" for s
  proof (cases "storage_kind_of (storage_of (rt_heap s) (tensor_at (rt_heap s) r)) = StorageKindTorch")
    case False
    have "calm s (snd (heapE (TensorIdentity r) s))"
      by (rule calm_TensorIdentity [unfolded keeps_def, THEN spec])
    then show ?thesis using False by (simp add: torch_TensorIdentity_def bindE_Inr_run [OF kindE_run])
  next
    case True
    obtain x s1 where t: "TensorToTorch T r s = (x, s1)" by force
    then have s1: "s1 = s" using TensorToTorch_stored [OF True, of T] by simp
    have "torch_TensorIdentity T r s = TorchIdentity T r s"
      using True by (simp add: torch_TensorIdentity_def bindE_Inr_run [OF kindE_run])
    moreover have "calm s (snd (TorchIdentity T r s))"
    proof (cases x)
      case (Inl e)
      then show ?thesis using t s1 by (simp add: TorchIdentity_def bindE_Inl_run calm.frame_refl)
    next
      case (Inr v)
      have "keeps calm (bindE (PruneExpiredTorchIdentitiesLocked T) (\<lambda>_.
         bindE (getE (\<lambda>s. map_of (tr_identities s) (lt_impl T v))) (\<lambda>existing.
         case existing of Some ident \<Rightarrow> returnE ident
     | None \<Rightarrow>
         bindE (getE tr_next_identity) (\<lambda>assigned.
         bindE (checkE (assigned \<noteq> 0)
           (InternalError ''tensor_identity: opaque identity space exhausted'')) (\<lambda>_.
         bindE (modifyE (\<lambda>s. s\<lparr>tr_next_identity := assigned + 1\<rparr>)) (\<lambda>_.
         bindE (heapE (allocation_guard ''tensor_identity'' request_alloc)) (\<lambda>_.
         bindE (modifyE (\<lambda>s. s\<lparr>tr_identities := (lt_impl T v, assigned) # tr_identities s\<rparr>)) (\<lambda>_.
         returnE assigned))))))))"
        by (intro calm.keeps_bind calm.keeps_get prune rest)
      then show ?thesis using t s1 Inr by (simp add: TorchIdentity_def bindE_Inr_run keeps_def)
    qed
    ultimately show ?thesis by simp
  qed
  then show ?thesis by (simp add: keeps_def)
qed

lemma calm_assign_pair: "keeps calm (torch_assign_pair T p batch)"
  unfolding torch_assign_pair_def case_prod_unfold
  by (intro calm_basic calm_torch_TensorIdentity) (simp add: kindE_def calm.keeps_get)+

abbreviation kind_at :: "('t, 'm, 'o, 'w) torch_runtime \<Rightarrow> tensor_ref \<Rightarrow> storage_kind" where
  "kind_at s r \<equiv> storage_kind_of (storage_of (rt_heap s) (tensor_at (rt_heap s) r))"

lemma calm_kind: "calm s s' \<Longrightarrow> kind_at s' r = kind_at s r \<and> dims_of (tensor_at (rt_heap s') r) = dims_of (tensor_at (rt_heap s) r)"
  by (simp add: calm_def)

lemma torch_assign_pair_Inr:
  assumes "torch_assign_pair T (th, uh) b s = (Inr b', s')"
  obtains t u where "tensor_handle s th = Some t" "tensor_handle s uh = Some u"
    "dims_of (tensor_at (rt_heap s) t) = dims_of (tensor_at (rt_heap s) u)" "kind_at s t = kind_at s u"
    "ab_kind b = None \<or> ab_kind b = Some (kind_at s t)" "ab_kind b' = Some (kind_at s t)"
    "ab_targets b' = ab_targets b @ [t]" "ab_sources b' = ab_sources b @ [u]"
proof -
  obtain t u ident s1 s2 k where t: "tensor_handle s th = Some t" "tensor_handle s uh = Some u"
    and pair: "ValidatePair (rt_heap s) (tensor_at (rt_heap s) t) (tensor_at (rt_heap s) u)
      ''tensor_assign_many'' = Inr ()"
    and ident: "torch_TensorIdentity T t s = (Inr ident, s1)"
    and alloc: "heapE (allocation_guard ''tensor_assign_many'' request_alloc) s1 = (Inr (), s2)"
    and k: "k = kind_at s2 t" "ab_kind b = None \<or> ab_kind b = Some k"
    and b': "b' = \<lparr>ab_identities = ident # ab_identities b, ab_kind = Some k,
      ab_targets = ab_targets b @ [t], ab_sources = ab_sources b @ [u]\<rparr>"
    using assms unfolding torch_assign_pair_def
    by (auto simp: checkE_run statusE_run returnE_run map_sum_Inr_iff kindE_run elim!: bindE_InrE
        dest!: LookupTensor_InrD split: if_splits)
  have "calm s s2"
    using keepsD [OF calm_torch_TensorIdentity ident] keepsD [OF calm_guard_request alloc] by (rule calm.frame_trans)
  then have "k = kind_at s t" using calm_kind k(1) by metis
  moreover have "kind_at s t = kind_at s u"
    using pair by (simp add: ValidatePair_def split: if_splits)
  ultimately show thesis using that [OF t ValidatePair_Inr [OF pair]] k(2) b' by simp
qed

text \<open>What the loop has gathered from the pairs of handles it has accepted.\<close>

definition gathered :: "('t, 'm, 'o, 'w) torch_runtime \<Rightarrow> (handle \<times> handle) list \<Rightarrow> assign_batch \<Rightarrow> bool" where
  "gathered s pairs b \<longleftrightarrow>
     map (\<lambda>p. tensor_handle s (fst p)) pairs = map Some (ab_targets b) \<and>
     map (\<lambda>p. tensor_handle s (snd p)) pairs = map Some (ab_sources b) \<and>
     list_all2 (\<lambda>t u. dims_of (tensor_at (rt_heap s) t) = dims_of (tensor_at (rt_heap s) u))
       (ab_targets b) (ab_sources b) \<and>
     (\<forall>r \<in> set (ab_targets b) \<union> set (ab_sources b). ab_kind b = Some (kind_at s r))"

lemma gather_loop:
  "triple (\<lambda>s. calm s0 s \<and> gathered s0 [] empty_batch) (foldE pairs empty_batch (torch_assign_pair T))
    (\<lambda>b s. calm s0 s \<and> gathered s0 pairs b) (\<lambda>_ s. calm s0 s)"
proof (rule triple_fold_prefix)
  fix pre post :: "(handle \<times> handle) list" and x :: "handle \<times> handle" and batch
  obtain th uh where x: "x = (th, uh)" by force
  show "triple (\<lambda>s. calm s0 s \<and> gathered s0 pre batch) (torch_assign_pair T x batch)
      (\<lambda>b s. calm s0 s \<and> gathered s0 (pre @ [x]) b) (\<lambda>_ s. calm s0 s)"
  proof (rule tripleI)
    fix s a s' assume p: "calm s0 s \<and> gathered s0 pre batch" and run: "torch_assign_pair T x batch s = (Inr a, s')"
    note c = conjunct1 [OF p]
    have "gathered s0 (pre @ [x]) a"
    proof (rule torch_assign_pair_Inr [OF run [unfolded x]])
      fix t u
      assume "tensor_handle s th = Some t" "tensor_handle s uh = Some u"
        "dims_of (tensor_at (rt_heap s) t) = dims_of (tensor_at (rt_heap s) u)" "kind_at s t = kind_at s u"
        "ab_kind batch = None \<or> ab_kind batch = Some (kind_at s t)" "ab_kind a = Some (kind_at s t)"
        "ab_targets a = ab_targets batch @ [t]" "ab_sources a = ab_sources batch @ [u]"
      then show ?thesis
        using p x calm_kind [OF c, of t] calm_kind [OF c, of u] calm_torch(2) [OF c]
        by (auto simp: gathered_def list_all2_appendI)
    qed
    then show "calm s0 s' \<and> gathered s0 (pre @ [x]) a"
      using c keepsD [OF calm_assign_pair run] calm.frame_trans by blast
  next
    fix s e s' assume "calm s0 s \<and> gathered s0 pre batch" and run: "torch_assign_pair T x batch s = (Inl e, s')"
    then show "calm s0 s'" using keepsD [OF calm_assign_pair run] calm.frame_trans by blast
  qed
qed

section \<open>Staging\<close>

text \<open>As \<open>calm\<close>, but LibTorch may have taken new memory.\<close>

definition staging :: "('w \<Rightarrow> nat \<Rightarrow> f32) \<Rightarrow> ('w \<Rightarrow> nat set) \<Rightarrow> ('t, 'm, 'o, 'w) torch_runtime \<Rightarrow>
    ('t, 'm, 'o, 'w) torch_runtime \<Rightarrow> bool" where
  "staging mem live s s' \<longleftrightarrow> tensors (rt_heap s') = tensors (rt_heap s) \<and>
     storages (rt_heap s') = storages (rt_heap s) \<and> rt_registry s' = rt_registry s \<and>
     tr_tensors s' = tr_tensors s \<and> live (tr_world s) \<subseteq> live (tr_world s') \<and>
     same_memory mem (tr_world s) (tr_world s') (live (tr_world s))"

lemma staging_calm: "calm s s' \<Longrightarrow> staging mem live s s'"
  by (simp add: staging_def calm_def)

lemma staging_world:
  assumes "live (tr_world s) \<subseteq> live w" and "same_memory mem (tr_world s) w (live (tr_world s))"
  shows "staging mem live s (s\<lparr>tr_world := w\<rparr>)"
  using assms by (simp add: staging_def calm_def)

lemma staging_trans:
  assumes "staging mem live s s1" and "staging mem live s1 s2"
  shows "staging mem live s s2"
proof -
  have "live (tr_world s) \<subseteq> live (tr_world s1)" "live (tr_world s1) \<subseteq> live (tr_world s2)"
    using assms by (simp_all add: staging_def)
  moreover have "same_memory mem (tr_world s) (tr_world s2) (live (tr_world s))"
  proof (rule same_memory_trans [OF _ _ order_refl])
    show "same_memory mem (tr_world s) (tr_world s1) (live (tr_world s))"
      "same_memory mem (tr_world s1) (tr_world s2) (live (tr_world s1))"
      using assms by (simp_all add: staging_def)
  qed fact
  moreover have "tensors (rt_heap s2) = tensors (rt_heap s) \<and> storages (rt_heap s2) = storages (rt_heap s) \<and>
      rt_registry s2 = rt_registry s \<and> tr_tensors s2 = tr_tensors s"
    using assms by (simp add: staging_def)
  ultimately show ?thesis unfolding staging_def by blast
qed

lemma staging_torch:
  assumes "staging mem live s s'"
  shows "torch_tensor s' r = torch_tensor s r" "kind_at s' r = kind_at s r"
  using assms by (simp_all add: staging_def calm_def torch_tensor_def)

text \<open>A staged source has the values of the source, a backup those of the target, both in new memory.\<close>

definition staged_pair :: "('w \<Rightarrow> nat \<Rightarrow> f32) \<Rightarrow> ('w \<Rightarrow> nat set) \<Rightarrow> ('t \<Rightarrow> nat list) \<Rightarrow> ('t, 'm, 'o, 'w) torch_runtime \<Rightarrow>
    'w \<Rightarrow> tensor_ref \<times> tensor_ref \<Rightarrow> 't \<times> 't \<times> 't \<Rightarrow> bool" where
  "staged_pair mem live cells s w = (\<lambda>(t, u) (target, source, backup).
     torch_tensor s t = Some target \<and>
     (\<exists>v. torch_tensor s u = Some v \<and> map (mem w) (cells source) = map (mem (tr_world s)) (cells v)) \<and>
     map (mem w) (cells backup) = map (mem (tr_world s)) (cells target) \<and>
     set (cells source) \<union> set (cells backup) \<subseteq> live w - live (tr_world s))"

lemma staged_pair_later:
  assumes "staged_pair mem live cells s w p q" and "live w \<subseteq> live w'" and "same_memory mem w w' (live w)"
  shows "staged_pair mem live cells s w' p q"
proof -
  obtain t u target source backup where pq: "p = (t, u)" "q = (target, source, backup)" by (metis prod.exhaust)
  have "map (mem w') (cells x) = map (mem w) (cells x)" if "set (cells x) \<subseteq> live w" for x
    using same_memory_map [OF assms(3) that] .
  moreover have "set (cells source) \<subseteq> live w" "set (cells backup) \<subseteq> live w"
    using assms(1) by (auto simp: staged_pair_def pq)
  ultimately have "map (mem w') (cells source) = map (mem w) (cells source)"
    "map (mem w') (cells backup) = map (mem w) (cells backup)" by blast+
  then show ?thesis using assms(1,2) unfolding staged_pair_def pq by (auto simp del: map_eq_conv)
qed

lemma GuardTorch_Inr: "call (tr_world s) = (Inr a, w) \<Longrightarrow> GuardTorch op call s = (Inr a, s\<lparr>tr_world := w\<rparr>)"
  by (simp add: GuardTorch_def)

lemma GuardTorch_state: "call (tr_world s) = (r, w) \<Longrightarrow> snd (GuardTorch op call s) = s\<lparr>tr_world := w\<rparr>"
  by (simp add: GuardTorch_def)

lemma GuardTorch_InrD: "GuardTorch op call s = (Inr a, s') \<Longrightarrow> \<exists>w. call (tr_world s) = (Inr a, w) \<and> s' = s\<lparr>tr_world := w\<rparr>"
  by (auto simp: GuardTorch_def split: prod.splits sum.splits torch_exception.splits)

text \<open>The two clones of a pair.\<close>

lemma clones_post:
  assumes laws: "torch_memory T mem live cells"
    and run: "bindE (lt_detach_clone T source) (\<lambda>staged_source.
        bindE (lt_detach_clone T target) (\<lambda>backup. returnE (acc @ [(target, staged_source, backup)]))) w = (r, w')"
    and "set (cells target) \<subseteq> live w"
  shows "live w \<subseteq> live w' \<and> same_memory mem w w' (live w) \<and>
    (\<forall>acc'. r = Inr acc' \<longrightarrow> (\<exists>c b. acc' = acc @ [(target, c, b)] \<and>
      map (mem w') (cells c) = map (mem w) (cells source) \<and> map (mem w') (cells b) = map (mem w) (cells target) \<and>
      set (cells c) \<union> set (cells b) \<subseteq> live w' - live w))"
proof -
  obtain r1 w1 where c1: "lt_detach_clone T source w = (r1, w1)" by force
  note l1 = torch_memoryD(4,5) [OF laws c1]
  show ?thesis
  proof (cases r1)
    case (Inl e)
    then show ?thesis using run c1 l1 by (auto simp: bindE_Inl_run)
  next
    case (Inr c)
    obtain r2 w2 where c2: "lt_detach_clone T target w1 = (r2, w2)" by force
    note l2 = torch_memoryD(4,5) [OF laws c2]
    have mono: "live w \<subseteq> live w2" using l1 l2 by blast
    have same: "same_memory mem w w2 (live w)"
      by (rule same_memory_trans [OF l1(2) l2(2) order_refl l1(1)])
    show ?thesis
    proof (cases r2)
      case (Inl e)
      then show ?thesis using run c1 c2 Inr mono same by (auto simp: bindE_Inr_run bindE_Inl_run)
    next
      case (Inr b)
      have r: "r = Inr (acc @ [(target, c, b)])" "w' = w2"
        using run c1 c2 Inr \<open>r1 = Inr c\<close> by (simp_all add: bindE_Inr_run returnE_run)
      note d1 = torch_memoryD(6,7) [OF laws c1 [unfolded \<open>r1 = Inr c\<close>]]
        and d2 = torch_memoryD(6,7) [OF laws c2 [unfolded Inr]]
      have "map (mem w2) (cells c) = map (mem w1) (cells c)"
        using same_memory_map [OF l2(2)] d1(1) by blast
      moreover have "map (mem w1) (cells target) = map (mem w) (cells target)"
        using same_memory_map [OF l1(2) assms(3)] .
      ultimately have "map (mem w2) (cells c) = map (mem w) (cells source)"
        "map (mem w2) (cells b) = map (mem w) (cells target)" using d1(2) d2(2) by simp_all
      moreover have "set (cells c) \<union> set (cells b) \<subseteq> live w2 - live w" using d1(1) d2(1) l1(1) l2(1) by blast
      ultimately show ?thesis using r mono same by (auto simp del: map_eq_conv)
    qed
  qed
qed

lemma stage_pair_post:
  assumes laws: "torch_memory T mem live cells" and st: "staging mem live s0 s"
    and k: "kind_at s0 t = StorageKindTorch" "kind_at s0 u = StorageKindTorch"
    and cl: "\<And>r v. r = t \<or> r = u \<Longrightarrow> torch_tensor s0 r = Some v \<Longrightarrow> set (cells v) \<subseteq> live (tr_world s0)"
    and acc: "list_all2 (staged_pair mem live cells s0 (tr_world s)) pre acc"
    and run: "torch_stage_pair T (t, u) acc s = (r, s')"
  shows "staging mem live s0 s' \<and>
    (\<forall>acc'. r = Inr acc' \<longrightarrow> list_all2 (staged_pair mem live cells s0 (tr_world s')) (pre @ [(t, u)]) acc')"
proof -
  have same: "torch_tensor s = torch_tensor s0" "\<And>r. kind_at s r = kind_at s0 r"
    using staging_torch [OF st] by (simp_all add: fun_eq_iff)
  obtain rt st1 where a: "TensorToTorch T t s = (rt, st1)" by force
  have kt: "kind_at s t = StorageKindTorch" "kind_at s u = StorageKindTorch" using same(2) k by simp_all
  have st1: "st1 = s" using a TensorToTorch_stored [OF kt(1), of T] by simp
  obtain ru st2 where b: "TensorToTorch T u s = (ru, st2)" by force
  have st2: "st2 = s" using b TensorToTorch_stored [OF kt(2), of T] by simp
  show ?thesis
  proof (cases "\<exists>a v. rt = Inr a \<and> ru = Inr v")
    case False
    then have "s' = s \<and> (\<exists>e. r = Inl e)"
      using run a b st1 st2 by (auto simp: torch_stage_pair_def bindE_def split: sum.splits)
    then show ?thesis using st by auto
  next
    case True
    then obtain x v where x: "rt = Inr x" and v: "ru = Inr v" by blast
    have tx: "torch_tensor s0 t = Some x" "torch_tensor s0 u = Some v"
      using TensorToTorch_stored_Inr [OF kt(1) a [unfolded x]] TensorToTorch_stored_Inr [OF kt(2) b [unfolded v]] same(1)
      by simp_all
    let ?call = "bindE (lt_detach_clone T v) (\<lambda>staged_source.
        bindE (lt_detach_clone T x) (\<lambda>backup. returnE (acc @ [(x, staged_source, backup)])))"
    obtain rc w where call: "?call (tr_world s) = (rc, w)" by force
    have live: "live (tr_world s0) \<subseteq> live (tr_world s)"
      "same_memory mem (tr_world s0) (tr_world s) (live (tr_world s0))" using st by (simp_all add: staging_def)
    have g: "GuardTorch ''tensor_assign_many'' ?call s = (r, s')"
      using run a b st1 st2 x v by (simp add: torch_stage_pair_def bindE_Inr_run)
    then have s': "s' = s\<lparr>tr_world := w\<rparr>" using GuardTorch_state [where call = ?call, OF call, of "''tensor_assign_many''"] by simp
    note post = clones_post [OF laws call subset_trans [OF cl [OF _ tx(1)] live(1)], simplified]
    have st': "staging mem live s0 s'"
      using staging_trans [OF st staging_world] post s' by blast
    moreover have "list_all2 (staged_pair mem live cells s0 (tr_world s')) (pre @ [(t, u)]) acc'" if "r = Inr acc'" for acc'
    proof -
      have "rc = Inr acc'" using GuardTorch_InrD [OF g [unfolded that]] call by auto
      then obtain c b where n: "acc' = acc @ [(x, c, b)]"
        "map (mem w) (cells c) = map (mem (tr_world s)) (cells v)" "map (mem w) (cells b) = map (mem (tr_world s)) (cells x)"
        "set (cells c) \<union> set (cells b) \<subseteq> live w - live (tr_world s)"
        using post by (auto simp del: map_eq_conv)
      have old: "map (mem (tr_world s)) (cells y) = map (mem (tr_world s0)) (cells y)" if "y = v \<or> y = x" for y
        using same_memory_map [OF live(2)] cl tx that by blast
      have "staged_pair mem live cells s0 w (t, u) (x, c, b)"
        using n(2-4) old tx live(1) unfolding staged_pair_def by (auto simp del: map_eq_conv)
      moreover have "list_all2 (staged_pair mem live cells s0 w) pre acc"
        using acc staged_pair_later post by (fastforce elim: list_all2_mono)
      ultimately show ?thesis using n(1) s' by (simp add: list_all2_appendI)
    qed
    ultimately show ?thesis by blast
  qed
qed

lemma torch_stage_loop:
  assumes laws: "torch_memory T mem live cells"
    and k: "\<And>r. r \<in> fst ` set pairs \<union> snd ` set pairs \<Longrightarrow> kind_at s0 r = StorageKindTorch"
    and cl: "\<And>r v. r \<in> fst ` set pairs \<union> snd ` set pairs \<Longrightarrow> torch_tensor s0 r = Some v \<Longrightarrow>
      set (cells v) \<subseteq> live (tr_world s0)"
  shows "triple (\<lambda>s. staging mem live s0 s \<and> list_all2 (staged_pair mem live cells s0 (tr_world s)) [] [])
    (foldE pairs [] (torch_stage_pair T))
    (\<lambda>acc s. staging mem live s0 s \<and> list_all2 (staged_pair mem live cells s0 (tr_world s)) pairs acc)
    (\<lambda>_ s. staging mem live s0 s)"
proof (rule triple_fold_prefix)
  fix pre post :: "(tensor_ref \<times> tensor_ref) list" and x acc
  assume p: "pairs = pre @ x # post"
  obtain t u where x: "x = (t, u)" by force
  show "triple (\<lambda>s. staging mem live s0 s \<and> list_all2 (staged_pair mem live cells s0 (tr_world s)) pre acc)
    (torch_stage_pair T x acc)
    (\<lambda>acc s. staging mem live s0 s \<and> list_all2 (staged_pair mem live cells s0 (tr_world s)) (pre @ [x]) acc)
    (\<lambda>_ s. staging mem live s0 s)"
  proof (rule tripleI)
    fix s a s' assume i: "staging mem live s0 s \<and> list_all2 (staged_pair mem live cells s0 (tr_world s)) pre acc"
      and run: "torch_stage_pair T x acc s = (Inr a, s')"
    have "kind_at s0 t = StorageKindTorch" "kind_at s0 u = StorageKindTorch" using k p x by auto
    then show "staging mem live s0 s' \<and> list_all2 (staged_pair mem live cells s0 (tr_world s')) (pre @ [x]) a"
      using stage_pair_post [OF laws conjunct1 [OF i] _ _ _ conjunct2 [OF i] run [unfolded x]] cl p x by auto
  next
    fix s e s' assume i: "staging mem live s0 s \<and> list_all2 (staged_pair mem live cells s0 (tr_world s)) pre acc"
      and run: "torch_stage_pair T x acc s = (Inl e, s')"
    have "kind_at s0 t = StorageKindTorch" "kind_at s0 u = StorageKindTorch" using k p x by auto
    then show "staging mem live s0 s'"
      using stage_pair_post [OF laws conjunct1 [OF i] _ _ _ conjunct2 [OF i] run [unfolded x]] cl p x by auto
  qed
qed

section \<open>The commit\<close>

text \<open>The statuses that tell that rolling back has failed.\<close>

definition rollback_failures :: "status list" where
  "rollback_failures =
     [InternalError ''tensor_assign_many: provider mutation failed and rollback failed'',
      InternalError ''tensor_assign_many: allocation failed and rollback failed'']"

lemma CommitTorchAssignments_cases:
  assumes "CommitTorchAssignments T targets sources backups s = (r, s')"
  obtains (committed) n w where "commit_copies T (zip targets sources) 0 (tr_world s) = (None, n, w)" "r = Inr ()"
      "s' = s\<lparr>tr_world := w\<rparr>"
  | (rolled_back) e n w w' st where "commit_copies T (zip targets sources) 0 (tr_world s) = (Some e, n, w)"
      "RollbackTorch T targets backups n w = (True, w')" "s' = s\<lparr>tr_world := w'\<rparr>" "r = Inl (Failed st)"
  | (broken) st where "r = Inl (Failed st)" "st \<in> set rollback_failures"
  | (escaped) ex where "r = Inl (Raised ex)"
proof -
  obtain e n w where c: "commit_copies T (zip targets sources) 0 (tr_world s) = (e, n, w)" by (metis prod_cases3)
  obtain rb w' where rb: "RollbackTorch T targets backups n w = (rb, w')" by force
  show thesis
  proof (cases e)
    case None
    then show thesis using committed c assms by (simp add: CommitTorchAssignments_def)
  next
    case (Some ex)
    then show thesis
      using rolled_back broken escaped c rb assms
      by (cases ex; cases rb) (auto simp: CommitTorchAssignments_def rollback_failures_def split: cxx_exception.splits)
  qed
qed

lemma RollbackTorch_True:
  assumes "RollbackTorch T targets backups n w = (True, w')"
  shows "forE (take n (zip targets backups)) (\<lambda>(target, backup). lt_copy T target backup) w = (Inr (), w')"
  using assms by (auto simp: RollbackTorch_def split: prod.splits sum.splits)

text \<open>
  A rollback restores every address but those of the target whose copy has thrown: that one is not among
  the targets that are written back.
\<close>

lemma rollback_restores:
  assumes laws: "torch_memory T mem live cells"
    and src: "copyable cells (live w0) targets (zip ts sources)"
    and bak: "copyable cells (live w0) targets (zip ts backups)"
    and len: "length sources = length ts" "length backups = length ts"
    and sub: "targets \<subseteq> live w0"
    and vals: "\<forall>(a, b) \<in> set (zip ts backups). map (mem w0) (cells b) = map (mem w0) (cells a)"
    and commit: "commit_copies T (zip ts sources) 0 w0 = (Some e, n, w1)"
    and rb: "RollbackTorch T ts backups n w1 = (True, w2)"
  shows "n < length ts \<and> same_memory mem w0 w2 (live w0 - set (cells (ts ! n)))"
proof -
  note c = commit_copies_post [OF laws src commit]
  then have n: "n < length ts" using len by simp
  have live1: "live w0 \<subseteq> live w1" and kept: "same_memory mem w0 w1 (live w0 - target_cells cells (take (Suc n) (zip ts sources)))"
    using c by simp_all
  let ?ps = "take n (zip ts backups)"
  have tc: "target_cells cells (take m (zip ts xs)) = (\<Union>a \<in> set (take m ts). set (cells a))"
    if "length xs = length ts" for m xs
  proof -
    have firsts: "fst ` set (take m (zip ts xs)) = set (take m ts)"
      using that by (metis list.set_map map_fst_zip take_map take_zip length_take)
    have cells: "target_cells cells ps = (\<Union>a \<in> fst ` set ps. set (cells a))" for ps
      by (auto simp: target_cells_def)
    show ?thesis unfolding cells firsts ..
  qed
  have away: "same_memory mem w0 w1 (live w0 - targets)"
  proof (rule same_memory_mono [OF kept])
    have "target_cells cells (take (Suc n) (zip ts sources)) \<subseteq> targets"
      using copyable_targets [OF copyable_take [OF src]] .
    then show "live w0 - targets \<subseteq> live w0 - target_cells cells (take (Suc n) (zip ts sources))" by blast
  qed
  have b1: "copyable cells (live w1) targets ?ps" using copyable_take copyable_mono [OF bak live1] by blast
  have "map (mem w1) (cells b) = map (mem w0) (cells a)" if "(a, b) \<in> set ?ps" for a b
  proof -
    have ab: "(a, b) \<in> set (zip ts backups)" using that by (rule in_set_takeD)
    then have "map (mem w0) (cells b) = map (mem w0) (cells a)" using vals by fast
    then show ?thesis using copyable_values [OF bak away ab] by simp
  qed
  then have "live w1 \<subseteq> live w2 \<and> (\<forall>x \<in> live w1. mem w2 x = (if x \<in> target_cells cells ?ps then mem w0 x else mem w1 x))"
    using sub live1 by (intro copy_backups [OF laws b1 _ _ RollbackTorch_True [OF rb]]) auto
  then have w2: "mem w2 x = (if x \<in> target_cells cells ?ps then mem w0 x else mem w1 x)" if "x \<in> live w0" for x
    using that live1 by blast
  have "mem w2 x = mem w0 x" if "x \<in> live w0" "x \<notin> set (cells (ts ! n))" for x
  proof (cases "x \<in> target_cells cells ?ps")
    case False
    then have "x \<notin> target_cells cells (take (Suc n) (zip ts sources))"
      using that n by (simp add: tc [OF len(1)] tc [OF len(2)] take_Suc_conv_app_nth)
    then show ?thesis using w2 that False kept by (simp add: same_memory_def)
  qed (use w2 that in simp)
  then show ?thesis using n by (simp add: same_memory_def)
qed

section \<open>The whole assignment\<close>

text \<open>
  The state is \<open>backed\<close> by LibTorch: the LibTorch tensor behind a handle has one address for every element
  of the shape the library keeps, and its memory is in use.
\<close>

definition torch_shaped :: "('w \<Rightarrow> nat set) \<Rightarrow> ('t \<Rightarrow> nat list) \<Rightarrow> ('t, 'm, 'o, 'w) torch_runtime \<Rightarrow> tensor_ref \<Rightarrow> bool" where
  "torch_shaped live cells s r \<longleftrightarrow> (\<forall>v. torch_tensor s r = Some v \<longrightarrow>
     distinct (cells v) \<and> length (cells v) = dims_prod (dims_of (tensor_at (rt_heap s) r)) \<and>
     set (cells v) \<subseteq> live (tr_world s))"

definition torch_backed :: "('w \<Rightarrow> nat set) \<Rightarrow> ('t \<Rightarrow> nat list) \<Rightarrow> ('t, 'm, 'o, 'w) torch_runtime \<Rightarrow> bool" where
  "torch_backed live cells s \<longleftrightarrow> (\<forall>h r. tensor_handle s h = Some r \<longrightarrow> torch_shaped live cells s r)"

text \<open>
  The outcome of an assignment for the memory of LibTorch: after success, a target that overlaps no other
  has the values its source had; after a failure that was rolled back, all memory is as before, but for
  at most one target.
\<close>

definition assigned_memory :: "('w \<Rightarrow> nat \<Rightarrow> f32) \<Rightarrow> ('w \<Rightarrow> nat set) \<Rightarrow> ('t \<Rightarrow> nat list) \<Rightarrow> ('t \<times> 't) list \<Rightarrow> 'w \<Rightarrow>
    fault + unit \<Rightarrow> 'w \<Rightarrow> bool" where
  "assigned_memory mem live cells pairs w res w' \<longleftrightarrow> (case res of
     Inr _ \<Rightarrow> same_memory mem w w' (live w - target_cells cells pairs) \<and>
       (\<forall>i < length pairs. (\<forall>j < length pairs. j \<noteq> i \<longrightarrow>
          set (cells (fst (pairs ! i))) \<inter> set (cells (fst (pairs ! j))) = {}) \<longrightarrow>
          map (mem w') (cells (fst (pairs ! i))) = map (mem w) (cells (snd (pairs ! i))))
   | Inl (Failed st) \<Rightarrow> st \<in> set rollback_failures \<or> same_memory mem w w' (live w) \<or>
       (\<exists>i < length pairs. same_memory mem w w' (live w - set (cells (fst (pairs ! i)))))
   | Inl (Raised _) \<Rightarrow> True)"

text \<open>The steps before the commit change no memory, and those after it change nothing in LibTorch.\<close>

lemma calm_three_requests:
  "bindE (heapE request_alloc) (\<lambda>_. bindE (heapE request_alloc) (\<lambda>_. bindE (heapE request_alloc) (\<lambda>_. m))) s = (r, s') \<Longrightarrow>
   (\<exists>s1. calm s s1 \<and> m s1 = (r, s')) \<or> (calm s s' \<and> (\<exists>f. r = Inl f))"
proof -
  assume run: "bindE (heapE request_alloc) (\<lambda>_. bindE (heapE request_alloc) (\<lambda>_. bindE (heapE request_alloc) (\<lambda>_. m))) s = (r, s')"
  let ?n = "bindE (heapE request_alloc) (\<lambda>_. bindE (heapE request_alloc) (\<lambda>_. heapE request_alloc))"
  have eq: "bindE (heapE request_alloc) (\<lambda>_. bindE (heapE request_alloc) (\<lambda>_. bindE (heapE request_alloc) (\<lambda>_. m))) =
      bindE ?n (\<lambda>_. m)" by (simp add: bindE_assoc)
  obtain r1 s1 where n: "?n s = (r1, s1)" by force
  have "keeps calm ?n" by (intro calm_basic)
  then have "calm s s1" using n by (rule keepsD)
  then show ?thesis using run n by (cases r1) (auto simp: eq bindE_Inr_run bindE_Inl_run)
qed

lemma increments_run:
  "\<exists>s'. forE targets (\<lambda>t. heapE (increment_version t)) s = (Inr (), s') \<and> tr_world s' = tr_world s"
proof (induction targets arbitrary: s)
  case Nil
  then show ?case by (simp add: returnE_run)
next
  case (Cons t targets)
  obtain h where "heapE (increment_version t) s = (Inr (), s\<lparr>rt_heap := h\<rparr>)"
    by (simp add: heapE_def increment_version_def)
  then show ?case using Cons.IH [of "s\<lparr>rt_heap := h\<rparr>"] by (simp add: bindE_Inr_run)
qed

lemma GuardAllocation_Inr: "GuardAllocation op body s = (Inr a, s') \<longleftrightarrow> body s = (Inr a, s')"
  by (auto simp: GuardAllocation_def split: prod.splits sum.splits fault.splits cxx_exception.splits)

lemma GuardAllocation_state: "snd (GuardAllocation op body s) = snd (body s)"
  by (auto simp: GuardAllocation_def split: prod.splits sum.splits fault.splits cxx_exception.splits)

text \<open>The lists \<open>torch_targets\<close>, \<open>staged_sources\<close> and \<open>backups\<close> after the staging loop.\<close>

lemma staged_lists:
  assumes refs: "map (torch_tensor s) targets = map Some vs" "map (torch_tensor s) sources = map Some us"
    and dims: "list_all2 (\<lambda>t u. dims_of (tensor_at (rt_heap s) t) = dims_of (tensor_at (rt_heap s) u)) targets sources"
    and shaped: "\<forall>r \<in> set targets \<union> set sources. torch_shaped live cells s r"
    and staged: "list_all2 (staged_pair mem live cells s w) (zip targets sources) acc"
    and mono: "live (tr_world s) \<subseteq> live w" and same: "same_memory mem (tr_world s) w (live (tr_world s))"
    and X: "X = (\<Union>v \<in> set vs. set (cells v))"
  shows "map fst acc = vs" "X \<subseteq> live w" "length acc = length vs" "length us = length vs"
    "copyable cells (live w) X (zip vs (map (fst \<circ> snd) acc))"
    "copyable cells (live w) X (zip vs (map (snd \<circ> snd) acc))"
    "\<And>i. i < length vs \<Longrightarrow> map (mem w) (cells (fst (snd (acc ! i)))) = map (mem (tr_world s)) (cells (us ! i))"
    "\<forall>(a, b) \<in> set (zip vs (map (snd \<circ> snd) acc)). map (mem w) (cells b) = map (mem w) (cells a)"
proof -
  have len: "length targets = length vs" "length sources = length us" "length targets = length sources"
    using arg_cong [OF refs(1), of length] arg_cong [OF refs(2), of length] list_all2_lengthD [OF dims] by simp_all
  then show la: "length acc = length vs" and lu: "length us = length vs" using list_all2_lengthD [OF staged] by simp_all
  have at: "torch_tensor s (targets ! i) = Some (vs ! i)" "torch_tensor s (sources ! i) = Some (us ! i)"
    "dims_of (tensor_at (rt_heap s) (targets ! i)) = dims_of (tensor_at (rt_heap s) (sources ! i))"
    "targets ! i \<in> set targets" "sources ! i \<in> set sources"
    "staged_pair mem live cells s w (targets ! i, sources ! i) (acc ! i)" if "i < length vs" for i
    using that len la arg_cong [OF refs(1), of "\<lambda>xs. xs ! i"] arg_cong [OF refs(2), of "\<lambda>xs. xs ! i"]
      list_all2_nthD [OF dims, of i] list_all2_nthD [OF staged, of i] by simp_all
  have shape: "distinct (cells (vs ! i))" "length (cells (vs ! i)) = length (cells (us ! i))"
    "set (cells (vs ! i)) \<subseteq> live (tr_world s)" if "i < length vs" for i
    using shaped at [OF that] by (auto simp: torch_shaped_def ball_Un)
  have pair: "fst (acc ! i) = vs ! i"
    "map (mem w) (cells (fst (snd (acc ! i)))) = map (mem (tr_world s)) (cells (us ! i))"
    "map (mem w) (cells (snd (snd (acc ! i)))) = map (mem (tr_world s)) (cells (vs ! i))"
    "set (cells (fst (snd (acc ! i)))) \<subseteq> live w - live (tr_world s)"
    "set (cells (snd (snd (acc ! i)))) \<subseteq> live w - live (tr_world s)" if "i < length vs" for i
    using at [OF that] by (auto simp: staged_pair_def split: prod.splits simp del: map_eq_conv)
  show "map fst acc = vs" using pair(1) la by (intro nth_equalityI) simp_all
  have Xs: "X \<subseteq> live (tr_world s)" unfolding X using shape(3) by (intro UN_least) (metis in_set_conv_nth)
  then show "X \<subseteq> live w" using mono by blast
  have inX: "set (cells (vs ! i)) \<subseteq> X" if "i < length vs" for i unfolding X using that by (intro UN_upper nth_mem)
  have lens: "length (cells (fst (snd (acc ! i)))) = length (cells (vs ! i))"
    "length (cells (snd (snd (acc ! i)))) = length (cells (vs ! i))" if "i < length vs" for i
    using arg_cong [OF pair(2) [OF that], of length] arg_cong [OF pair(3) [OF that], of length] shape(2) [OF that] by simp_all
  show "copyable cells (live w) X (zip vs (map (fst \<circ> snd) acc))"
    unfolding copyable_def
  proof (clarsimp simp: in_set_zip la, intro conjI)
    fix i assume i: "i < length vs"
    show "distinct (cells (vs ! i))" "set (cells (vs ! i)) \<subseteq> X" using shape(1) inX i by blast+
    show "length (cells (vs ! i)) = length (cells (fst (snd (acc ! i))))" using lens(1) i by simp
    show "set (cells (fst (snd (acc ! i)))) \<subseteq> live w - X" using pair(4) [OF i] Xs by blast
  qed
  show "copyable cells (live w) X (zip vs (map (snd \<circ> snd) acc))"
    unfolding copyable_def
  proof (clarsimp simp: in_set_zip la, intro conjI)
    fix i assume i: "i < length vs"
    show "distinct (cells (vs ! i))" "set (cells (vs ! i)) \<subseteq> X" using shape(1) inX i by blast+
    show "length (cells (vs ! i)) = length (cells (snd (snd (acc ! i))))" using lens(2) i by simp
    show "set (cells (snd (snd (acc ! i)))) \<subseteq> live w - X" using pair(5) [OF i] Xs by blast
  qed
  show "\<And>i. i < length vs \<Longrightarrow> map (mem w) (cells (fst (snd (acc ! i)))) = map (mem (tr_world s)) (cells (us ! i))"
    by (rule pair(2))
  have "map (mem w) (cells (snd (snd (acc ! i)))) = map (mem w) (cells (vs ! i))" if "i < length vs" for i
    using pair(3) [OF that] same_memory_map [OF same shape(3) [OF that]] by simp
  then show "\<forall>(a, b) \<in> set (zip vs (map (snd \<circ> snd) acc)). map (mem w) (cells b) = map (mem w) (cells a)"
    by (clarsimp simp: in_set_zip la simp del: map_eq_conv)
qed

lemma assign_torch_memory:
  assumes laws: "torch_memory T mem live cells"
    and refs: "map (torch_tensor s) targets = map Some vs" "map (torch_tensor s) sources = map Some us"
    and kinds: "\<forall>r \<in> set targets \<union> set sources. kind_at s r = StorageKindTorch"
    and dims: "list_all2 (\<lambda>t u. dims_of (tensor_at (rt_heap s) t) = dims_of (tensor_at (rt_heap s) u)) targets sources"
    and shaped: "\<forall>r \<in> set targets \<union> set sources. torch_shaped live cells s r"
    and run: "assign_torch T targets sources s = (res, s')"
  shows "assigned_memory mem live cells (zip vs us) (tr_world s) res (tr_world s')"
proof -
  let ?stage = "GuardAllocation ''tensor_assign_many''
       (bindE (heapE request_alloc) (\<lambda>_.
        bindE (heapE request_alloc) (\<lambda>_.
        bindE (heapE request_alloc) (\<lambda>_.
        foldE (zip targets sources) [] (torch_stage_pair T)))))"
  have kp: "kind_at s r = StorageKindTorch" if "r \<in> fst ` set (zip targets sources) \<union> snd ` set (zip targets sources)" for r
    using that kinds by (auto dest: set_zip_leftD set_zip_rightD)
  have cl: "set (cells v) \<subseteq> live (tr_world s)"
    if "r \<in> fst ` set (zip targets sources) \<union> snd ` set (zip targets sources)" "torch_tensor s r = Some v" for r v
  proof -
    have "r \<in> set targets \<union> set sources" using that(1) by (auto dest: set_zip_leftD set_zip_rightD)
    then show ?thesis using shaped that(2) by (auto simp: torch_shaped_def)
  qed
  note loop = torch_stage_loop [OF laws kp cl]
  obtain rs s1 where st: "?stage s = (rs, s1)" by force
  let ?loop = "foldE (zip targets sources) [] (torch_stage_pair T)"
  have staged: "staging mem live s s1 \<and> (\<forall>acc. rs = Inr acc \<longrightarrow>
      list_all2 (staged_pair mem live cells s (tr_world s1)) (zip targets sources) acc)"
  proof -
    let ?body = "bindE (heapE request_alloc) (\<lambda>_. bindE (heapE request_alloc) (\<lambda>_. bindE (heapE request_alloc) (\<lambda>_. ?loop)))"
    obtain rb where body: "?body s = (rb, s1)" "\<And>acc. rs = Inr acc \<Longrightarrow> rb = Inr acc"
      using st GuardAllocation_state [of "''tensor_assign_many''" ?body s]
        GuardAllocation_Inr [of "''tensor_assign_many''" ?body s] by (metis prod.collapse snd_conv fst_conv)
    from calm_three_requests [OF body(1)] show ?thesis
    proof
      assume "\<exists>s0. calm s s0 \<and> ?loop s0 = (rb, s1)"
      then obtain s0 where s0: "calm s s0" "?loop s0 = (rb, s1)" by blast
      have pre: "staging mem live s s0 \<and> list_all2 (staged_pair mem live cells s (tr_world s0)) [] []"
        using staging_calm [OF s0(1)] by simp
      show ?thesis
      proof (cases rb)
        case (Inl e)
        then show ?thesis using triple_InlD [OF loop pre s0(2) [unfolded Inl]] body(2) by auto
      next
        case (Inr acc)
        then show ?thesis using triple_InrD [OF loop pre s0(2) [unfolded Inr]] body(2) by auto
      qed
    next
      assume "calm s s1 \<and> (\<exists>f. rb = Inl f)"
      then show ?thesis using staging_calm body(2) by blast
    qed
  qed
  then have mono: "live (tr_world s) \<subseteq> live (tr_world s1)"
    and same: "same_memory mem (tr_world s) (tr_world s1) (live (tr_world s))" by (simp_all add: staging_def)
  show ?thesis
  proof (cases rs)
    case (Inl f)
    then have "res = Inl f" "s' = s1" using run st by (simp_all add: assign_torch_def bindE_Inl_run)
    then show ?thesis using same by (cases f) (simp_all add: assigned_memory_def)
  next
    case (Inr acc)
    obtain rc s2 where cm: "CommitTorchAssignments T (map fst acc) (map (fst \<circ> snd) acc) (map (snd \<circ> snd) acc) s1 = (rc, s2)"
      by force
    have world: "tr_world s' = tr_world s2 \<and> res = rc"
    proof (cases rc)
      case (Inl e)
      then show ?thesis using run st Inr cm by (simp add: assign_torch_def bindE_Inr_run bindE_Inl_run)
    next
      case (Inr u)
      then have "forE targets (\<lambda>t. heapE (increment_version t)) s2 = (res, s')"
        using run st \<open>rs = Inr acc\<close> cm by (simp add: assign_torch_def bindE_Inr_run)
      then show ?thesis using increments_run [of targets s2] Inr by auto
    qed
    have acc: "list_all2 (staged_pair mem live cells s (tr_world s1)) (zip targets sources) acc"
      using staged Inr by blast
    note l = staged_lists [OF refs dims shaped acc mono same refl]
    let ?X = "\<Union>v \<in> set vs. set (cells v)"
    let ?src = "map (fst \<circ> snd) acc" and ?bak = "map (snd \<circ> snd) acc"
    have X: "?X = target_cells cells (zip vs us)" using l(4) by (force simp: target_cells_def in_set_zip in_set_conv_nth)
    from cm [unfolded l(1)] show ?thesis
    proof (cases rule: CommitTorchAssignments_cases)
      case (committed n w)
      have res: "res = Inr ()" using committed world by simp
      have w': "tr_world s' = w" using committed world by simp
      note post = commit_copies_post [OF laws l(5) committed(1)]
      have "target_cells cells (take (Suc (n - 0)) (zip vs ?src)) \<subseteq> ?X"
        using copyable_targets [OF copyable_take [OF l(5)]] .
      moreover have "same_memory mem (tr_world s1) w (live (tr_world s1) - target_cells cells (take (Suc (n - 0)) (zip vs ?src)))"
        using post by blast
      ultimately have "same_memory mem (tr_world s) w (live (tr_world s) - ?X)"
        by (intro same_memory_trans [OF same]) (use mono in \<open>blast+\<close>)
      moreover have "map (mem w) (cells (vs ! i)) = map (mem (tr_world s)) (cells (us ! i))"
        if i: "i < length vs" and alone: "\<And>j. j < length vs \<Longrightarrow> j \<noteq> i \<Longrightarrow> set (cells (vs ! i)) \<inter> set (cells (vs ! j)) = {}" for i
      proof -
        have "map (mem w) (cells (fst (zip vs ?src ! i))) = map (mem (tr_world s1)) (cells (snd (zip vs ?src ! i)))"
          by (rule commit_copies_values [OF laws l(5,2) committed(1)]) (use i alone l(3) in simp_all)
        then show ?thesis using l(7) [OF i] i l(3) by (simp del: map_eq_conv)
      qed
      ultimately show ?thesis
        unfolding assigned_memory_def res w' X [symmetric] using l(4) by (simp del: map_eq_conv)
    next
      case (rolled_back e n w w' st)
      note r = rollback_restores [OF laws l(5,6) _ _ l(2,8) rolled_back(1,2)]
      then have r: "n < length vs" "same_memory mem (tr_world s1) w' (live (tr_world s1) - set (cells (vs ! n)))"
        using l(3) by simp_all
      have "same_memory mem (tr_world s) w' (live (tr_world s) - set (cells (vs ! n)))"
        by (rule same_memory_trans [OF same r(2)]) (use mono in blast)+
      then show ?thesis using rolled_back r(1) l(4) world by (auto simp: assigned_memory_def)
    next
      case (broken st)
      then show ?thesis using world by (auto simp: assigned_memory_def)
    next
      case (escaped ex)
      then show ?thesis using world by (auto simp: assigned_memory_def)
    qed
  qed
qed

lemma torch_tensor_kind: "torch_tensor s r \<noteq> None \<Longrightarrow> kind_at s r = StorageKindTorch"
  by (simp add: torch_tensor_def split: if_splits)

lemma gathered_torch:
  assumes g: "gathered s (zip ths shs) b" and len: "length ths = length shs"
    and vs: "map (torch_of s) ths = map Some vs" and us: "map (torch_of s) shs = map Some us"
  shows "map (torch_tensor s) (ab_targets b) = map Some vs" "map (torch_tensor s) (ab_sources b) = map Some us"
    "\<forall>r \<in> set (ab_targets b) \<union> set (ab_sources b). kind_at s r = StorageKindTorch"
    "ths \<noteq> [] \<Longrightarrow> ab_kind b = Some StorageKindTorch"
    "\<forall>r \<in> set (ab_targets b) \<union> set (ab_sources b). \<exists>h. tensor_handle s h = Some r"
proof -
  have hs: "map (tensor_handle s) ths = map Some (ab_targets b)" "map (tensor_handle s) shs = map Some (ab_sources b)"
    using g len by (simp_all add: gathered_def flip: map_map [unfolded comp_def])
  have conv: "map (torch_tensor s) rs = map (torch_of s) hs"
    if "map (tensor_handle s) hs = map Some rs" for hs rs
  proof -
    have "map (torch_of s) hs = map (\<lambda>x. Option.bind x (torch_tensor s)) (map (tensor_handle s) hs)"
      by (simp add: torch_of_def)
    then show ?thesis unfolding that by simp
  qed
  show t: "map (torch_tensor s) (ab_targets b) = map Some vs" and u: "map (torch_tensor s) (ab_sources b) = map Some us"
    using conv [OF hs(1)] conv [OF hs(2)] vs us by simp_all
  have some: "torch_tensor s r \<noteq> None" if "r \<in> set (ab_targets b) \<union> set (ab_sources b)" for r
  proof -
    have "torch_tensor s r \<in> set (map Some vs) \<union> set (map Some us)"
      using that unfolding t [symmetric] u [symmetric] by auto
    then show ?thesis by auto
  qed
  show k: "\<forall>r \<in> set (ab_targets b) \<union> set (ab_sources b). kind_at s r = StorageKindTorch"
    by (intro ballI torch_tensor_kind some)
  show "ab_kind b = Some StorageKindTorch" if "ths \<noteq> []"
  proof -
    have "ab_targets b \<noteq> []" using that hs(1) by auto
    then obtain r where "r \<in> set (ab_targets b)" by (cases "ab_targets b") auto
    then show ?thesis using g k by (auto simp: gathered_def)
  qed
  have "Some r \<in> set (map (tensor_handle s) ths) \<union> set (map (tensor_handle s) shs)"
    if "r \<in> set (ab_targets b) \<union> set (ab_sources b)" for r using that unfolding hs by auto
  then show "\<forall>r \<in> set (ab_targets b) \<union> set (ab_sources b). \<exists>h. tensor_handle s h = Some r" by fastforce
qed

end
