(* ===== verification/Torch_Demo.thy ===== *)
theory Torch_Demo
  imports Torch_Assignment
begin

text \<open>
  A small LibTorch for the witnesses: a world is a memory of numbers, a tensor is a device with the
  addresses of its elements.  A copy whose target or source is not in memory throws; operations the
  witnesses do not use throw as well.
\<close>

type_synonym demo_tensor = "torch_device \<times> nat list"
type_synonym demo_world = "f32 list"

fun write_cells :: "nat list \<Rightarrow> 'x list \<Rightarrow> 'x list \<Rightarrow> 'x list" where
  "write_cells (a # as) (v # vs) w = write_cells as vs (w[a := v])"
| "write_cells _ _ w = w"

definition demo_clone :: "torch_device \<Rightarrow> nat list \<Rightarrow> (demo_world, demo_tensor) torch_call" where
  "demo_clone d a = (\<lambda>w. (Inr (d, [length w..<length w + length a]), w @ map ((!) w) a))"

definition demo_copy :: "demo_tensor \<Rightarrow> demo_tensor \<Rightarrow> (demo_world, unit) torch_call" where
  "demo_copy = (\<lambda>(_, a) (_, b) w.
     if list_all (\<lambda>x. x < length w) (a @ b) then (Inr (), write_cells a (map ((!) w) b) w)
     else (Inl (C10Error ''copy_: out of memory''), w))"

definition no_torch :: "('w, 'a) torch_call" where
  "no_torch = throwE (C10Error ''not available'')"

definition demo_torch :: "(demo_tensor, demo_world, unit, unit) libtorch" where
  "demo_torch = \<lparr>lt_max_device_index = 127, lt_getAccelerator = returnE (Some DeviceTypeHIP),
     lt_deviceCount = returnE 2, lt_defined = (\<lambda>t w. snd t \<noteq> []), lt_is_float32 = (\<lambda>t w. True),
     lt_sizes = (\<lambda>t w. [int (length (snd t))]), lt_numel = (\<lambda>t w. int (length (snd t))),
     lt_device = (\<lambda>t w. fst t), lt_impl = (\<lambda>t. case snd t of [] \<Rightarrow> 0 | a # _ \<Rightarrow> Suc a),
     lt_expired = (\<lambda>k w. False), lt_requires_grad = (\<lambda>t w. False), lt_is_leaf = (\<lambda>t w. True),
     lt_grad = (\<lambda>t w. ((DeviceTypeCPU, -1), [])), lt_host = (\<lambda>t. demo_clone (DeviceTypeCPU, -1) (snd t)),
     lt_data = (\<lambda>t w. map ((!) w) (snd t)),
     lt_from_blob_clone = (\<lambda>vs d w. (Inr ((DeviceTypeCPU, -1), [length w..<length w + length vs]), w @ vs)),
     lt_to = (\<lambda>t d. demo_clone d (snd t)), lt_clone = (\<lambda>t. demo_clone (fst t) (snd t)),
     lt_detach_clone = (\<lambda>t. demo_clone (fst t) (snd t)), lt_copy = demo_copy,
     lt_set_requires_grad = (\<lambda>_ _. no_torch), lt_clear_grad = (\<lambda>_. no_torch), lt_backward = (\<lambda>_. no_torch),
     lt_manual_seed = (\<lambda>_. no_torch), lt_full = (\<lambda>_ _. no_torch), lt_reshape_clone = (\<lambda>_ _. no_torch),
     lt_transpose_contiguous = (\<lambda>_. no_torch), lt_add = (\<lambda>_ _. no_torch), lt_mul = (\<lambda>_ _. no_torch),
     lt_matmul = (\<lambda>_ _. no_torch), lt_sum = (\<lambda>_. no_torch), lt_relu = (\<lambda>_. no_torch),
     lt_sigmoid = (\<lambda>_. no_torch), lt_tanh = (\<lambda>_. no_torch), lt_gelu = (\<lambda>_. no_torch), lt_silu = (\<lambda>_. no_torch),
     lt_slice = (\<lambda>_ _ _. no_torch), lt_mse_loss = (\<lambda>_ _. no_torch), lt_log_softmax = (\<lambda>_. no_torch),
     lt_sum_rows = (\<lambda>_. no_torch), lt_mean = (\<lambda>_. no_torch), lt_neg = (\<lambda>_. no_torch),
     lt_Linear = (\<lambda>_ _ _. no_torch), lt_forward = (\<lambda>_ _. no_torch), lt_train = (\<lambda>_ _. no_torch),
     lt_module_to = (\<lambda>_ _. no_torch), lt_parameters = (\<lambda>_ _. []), lt_buffers = (\<lambda>_ _. []),
     lt_save = (\<lambda>_ _. no_torch), lt_load = (\<lambda>_ _. no_torch), lt_SGD = (\<lambda>_ _ _ _. no_torch),
     lt_Adam = (\<lambda>_ _ _ _ _ _. no_torch), lt_AdamW = (\<lambda>_ _ _ _ _ _. no_torch), lt_zero_grad = (\<lambda>_. no_torch),
     lt_step = (\<lambda>_. no_torch)\<rparr>"

lemma length_write_cells [simp]: "length (write_cells as vs w) = length w"
  by (induction as vs w rule: write_cells.induct) simp_all

lemma write_cells_outside: "x \<notin> set as \<Longrightarrow> write_cells as vs w ! x = w ! x"
  by (induction as vs w rule: write_cells.induct) simp_all

lemma write_cells_inside:
  "distinct as \<Longrightarrow> length as = length vs \<Longrightarrow> set as \<subseteq> {..<length w} \<Longrightarrow> map ((!) (write_cells as vs w)) as = vs"
  by (induction as vs w rule: write_cells.induct) (simp_all add: write_cells_outside)

lemma demo_clone_law:
  assumes "demo_clone d a w = (r, w')"
  shows "{..<length w} \<subseteq> {..<length w'}" "same_memory (!) w w' {..<length w}"
    "r = Inr c \<Longrightarrow> set (snd c) \<subseteq> {..<length w'} - {..<length w} \<and> map ((!) w') (snd c) = map ((!) w) a"
  using assms by (auto simp: demo_clone_def same_memory_def nth_append intro!: nth_equalityI)

lemma demo_copy_law:
  assumes "demo_copy t u w = (r, w')"
  shows "length w' = length w" "same_memory (!) w w' (X - set (snd t))"
    "r = Inr x \<Longrightarrow> distinct (snd t) \<Longrightarrow> length (snd t) = length (snd u) \<Longrightarrow> map ((!) w') (snd t) = map ((!) w) (snd u)"
  using assms write_cells_inside [of "snd t" "map ((!) w) (snd u)" w]
  by (auto simp: demo_copy_def same_memory_def write_cells_outside list_all_iff subset_iff split: prod.splits if_splits
      simp del: map_eq_conv)

lemma demo_torch_memory: "torch_memory demo_torch (!) (\<lambda>w. {..<length w}) snd"
  unfolding torch_memory_def
proof (intro conjI allI impI; simp only: demo_torch_def libtorch_devices.simps libtorch_ops.simps libtorch.simps)
qed (use demo_clone_law demo_copy_law in \<open>fastforce simp del: map_eq_conv\<close>)+

section \<open>A state with two LibTorch tensors\<close>

text \<open>The handles 1 and 2 stand for tensors of two elements; their storages are kept by LibTorch.\<close>

definition demo_torch_tensor :: "nat \<Rightarrow> tensor" where
  "demo_torch_tensor i = \<lparr>t_shape = \<lparr>dimensions = [2], strides = [1], numel = 2, byte_size = 8\<rparr>, t_storage = i,
     t_dtype = kFloat32, t_device = kCpu, t_device_index = 0, t_offset = 0, t_version_counter = i, t_meta = None\<rparr>"

definition demo_torch_heap :: heap where
  "demo_torch_heap = \<lparr>storages = replicate 2 (ForeignStorage StorageKindTorch 8 (Inl (Unsupported ''torch storage: read through LibTorch''))),
     counters = [\<lparr>vc_value = 0, vc_identity = 1\<rparr>, \<lparr>vc_value = 0, vc_identity = 2\<rparr>],
     tensors = [demo_torch_tensor 0, demo_torch_tensor 1], next_identity = 3, alloc_plan = []\<rparr>"

definition demo_torch_state :: "(demo_tensor, unit, unit, demo_world) torch_runtime" where
  "demo_torch_state = \<lparr>rt_heap = demo_torch_heap,
     rt_registry = \<lparr>entries = [
         (1, \<lparr>entry_type = kTensor, entry_refs = 1, entry_object = 0\<rparr>),
         (2, \<lparr>entry_type = kTensor, entry_refs = 1, entry_object = 1\<rparr>)], next_handle = 3\<rparr>,
     rt_last_error = [], rt_modules = [], rt_optimizers = [], rt_parameter_optimizers = [],
     rt_engine = [], rt_files = (\<lambda>_. None), rt_io_plan = [],
     tr_world = [f32_one, f32_zero, f32_zero, f32_zero],
     tr_tensors = [0 \<mapsto> ((DeviceTypeCPU, -1), [0, 1]), 1 \<mapsto> ((DeviceTypeCPU, -1), [2, 3])],
     tr_modules = [], tr_optimizers = [], tr_parameter_torch = (\<lambda>_. None), tr_identities = [],
     tr_next_identity = 2 ^ 63\<rparr>"

lemma demo_torch_handle: "tensor_handle demo_torch_state h = (if h = 1 then Some 0 else if h = 2 then Some 1 else None)"
  by (simp add: tensor_handle_def demo_torch_state_def)

lemma demo_torch_tensors:
  "torch_tensor demo_torch_state 0 = Some ((DeviceTypeCPU, -1), [0, 1])"
  "torch_tensor demo_torch_state 1 = Some ((DeviceTypeCPU, -1), [2, 3])"
  by (simp_all add: torch_tensor_def demo_torch_state_def demo_torch_heap_def demo_torch_tensor_def)

lemma demo_torch_simps [simp]:
  "rt_heap demo_torch_state = demo_torch_heap" "tr_world demo_torch_state = [f32_one, f32_zero, f32_zero, f32_zero]"
  "tensor_at demo_torch_heap 0 = demo_torch_tensor 0" "tensor_at demo_torch_heap (Suc 0) = demo_torch_tensor 1"
  "dims_of (demo_torch_tensor i) = [2]"
  by (simp_all add: demo_torch_state_def demo_torch_heap_def demo_torch_tensor_def)

lemma demo_torch_backed: "torch_backed (\<lambda>w. {..<length w}) snd demo_torch_state"
proof -
  have "torch_shaped (\<lambda>w. {..<length w}) snd demo_torch_state r" if "r = 0 \<or> r = 1" for r
    using that demo_torch_tensors by (auto simp: torch_shaped_def dims_prod_def)
  then show ?thesis by (simp add: torch_backed_def demo_torch_handle)
qed

lemma demo_swap_runs: "fst (torch_AssignMany demo_torch (Some [1, 2]) (Some [2, 1]) 2 demo_torch_state) = Inr ()"
  by code_simp

lemma demo_wrap_ok:
  assumes "alloc_plan (rt_heap s) = []" and "MapTorchDevice d (Some DeviceTypeHIP) = Inr (dev, i)"
  shows "\<exists>r s'. WrapTorchTensor demo_torch (d, [a, b]) s = (Inr r, s')"
proof -
  let ?v = "(d, [a, b]) :: demo_tensor"
  let ?h1 = "rt_heap s\<lparr>storages := storages (rt_heap s) @ [ForeignStorage StorageKindTorch 8
    (Inl (Unsupported ''torch storage: read through LibTorch''))]\<rparr>"
  let ?s1 = "s\<lparr>rt_heap := ?h1, tr_tensors := (tr_tensors s)(length (storages (rt_heap s)) \<mapsto> ?v)\<rparr>"
  have "valid_dims [2]" by (simp add: valid_dims_def kMaxTensorRank_def max_numel_def)
  from ValidateShape_pointer [OF this] have sh: "ValidateShape (dims_pointer [2]) (Suc 0) = Inr (canonical_shape [2])" by simp
  have alloc: "request_alloc (rt_heap s) = (Inr (), rt_heap s)" using assms(1) by (simp add: request_alloc_def)
  have "ValidateTorchStorageSize 2 = Inr 8" by (simp add: ValidateTorchStorageSize_def u64_max_def)
  then have st: "TorchStorage_FromTensor demo_torch ?v s = (Inr (length (storages (rt_heap s))), ?s1)"
    by (simp add: TorchStorage_FromTensor_def new_torch_storage_def demo_torch_def worldE_def bindE_def
        statusE_run checkE_run heapE_def alloc new_storage_def returnE_run GuardAllocation_def)
  obtain r h2 where new: "new_tensor (canonical_shape [2]) (length (storages (rt_heap s))) kFloat32 dev i 0 None ?h1 = (Inr r, h2)"
    using new_tensor_ok [of ?h1] assms(1) by fastforce
  have acc: "GuardTorch ''wrap torch tensor accelerator discovery'' (lt_getAccelerator demo_torch) s = (Inr (Some DeviceTypeHIP), s)"
    by (simp add: GuardTorch_def demo_torch_def returnE_run)
  have "GuardAllocation ''wrap torch tensor'' (heapE (new_tensor (canonical_shape [2]) (length (storages (rt_heap s))) kFloat32 dev i 0 None)) ?s1 =
      (Inr r, ?s1\<lparr>rt_heap := h2\<rparr>)" using new by (simp add: GuardAllocation_def heapE_def)
  moreover have "lt_defined demo_torch ?v w" "lt_is_float32 demo_torch ?v w" "lt_sizes demo_torch ?v w = [2]"
    "lt_device demo_torch ?v w = d" for w by (simp_all add: demo_torch_def)
  ultimately have "WrapTorchTensor demo_torch ?v s = (Inr r, ?s1\<lparr>rt_heap := h2\<rparr>)"
    using sh acc assms(2) st
    by (simp add: WrapTorchTensor_def worldE_def checkE_run statusE_run bindE_Inr_run del: Nat.One_nat_def)
  then show ?thesis by blast
qed

end
