(* ===== verification/Torch_Properties.thy ===== *)
theory Torch_Properties
  imports Torch_Demo Inference_Properties
begin

text \<open>
  What the build with LibTorch promises of assignments, devices, identities and views
  (\<open>native/src/training/nn_v2_state.h\<close>, \<open>torch_backend.cc\<close>, \<open>training_bridge_torch.cc\<close>).
\<close>

section \<open>Assignment\<close>

lemma gathered_assignment:
  assumes "torch_memory T mem live cells" and "torch_backed live cells s"
    and "n \<noteq> 0" and "n \<le> length ths" and "n \<le> length shs"
    and "map (torch_of s) (take n ths) = map Some vs" and "map (torch_of s) (take n shs) = map Some us"
    and "calm s s1" and "gathered s (zip (take n ths) (take n shs)) batch"
  shows "ab_kind batch = Some StorageKindTorch"
    and "assign_torch T (ab_targets batch) (ab_sources batch) s1 = (res, s') \<Longrightarrow>
      assigned_memory mem live cells (zip vs us) (tr_world s) res (tr_world s')"
proof -
  have ne: "take n ths \<noteq> []" using assms(3,4) by auto
  note g = gathered_torch [OF assms(9) _ assms(6,7)]
  have g: "map (torch_tensor s) (ab_targets batch) = map Some vs" "map (torch_tensor s) (ab_sources batch) = map Some us"
    "\<forall>r \<in> set (ab_targets batch) \<union> set (ab_sources batch). kind_at s r = StorageKindTorch"
    "ab_kind batch = Some StorageKindTorch"
    "\<forall>r \<in> set (ab_targets batch) \<union> set (ab_sources batch). \<exists>h. tensor_handle s h = Some r"
    using g(1-3,5) g(4) [OF _ ne] assms(4,5) by simp_all
  then show "ab_kind batch = Some StorageKindTorch" by simp
  have same: "torch_tensor s1 = torch_tensor s" "tensors (rt_heap s1) = tensors (rt_heap s)"
    "storages (rt_heap s1) = storages (rt_heap s)" "tr_world s1 = tr_world s"
    using assms(8) calm_torch [OF assms(8)] by (simp_all add: calm_def)
  have "assigned_memory mem live cells (zip vs us) (tr_world s1) res (tr_world s')"
    if "assign_torch T (ab_targets batch) (ab_sources batch) s1 = (res, s')"
  proof (rule assign_torch_memory [OF assms(1) _ _ _ _ _ that])
    show "list_all2 (\<lambda>t u. dims_of (tensor_at (rt_heap s1) t) = dims_of (tensor_at (rt_heap s1) u))
        (ab_targets batch) (ab_sources batch)" using assms(9) same by (simp add: gathered_def)
    show "\<forall>r \<in> set (ab_targets batch) \<union> set (ab_sources batch). torch_shaped live cells s1 r"
      using g(5) assms(2) same unfolding torch_backed_def torch_shaped_def by metis
  qed (use g same in simp_all)
  then show "assign_torch T (ab_targets batch) (ab_sources batch) s1 = (res, s') \<Longrightarrow>
      assigned_memory mem live cells (zip vs us) (tr_world s) res (tr_world s')"
    using same by simp
qed

text \<open>The phases before the batch is staged change nothing of LibTorch's memory.\<close>

lemma AssignMany_phases:
  assumes run: "torch_AssignMany T (Some ths) (Some shs) n s = (res, s')" and n: "n \<noteq> 0"
  obtains f where "calm s s'" "res = Inl f"
  | batch s1 where "calm s s1" "gathered s (zip (take n ths) (take n shs)) batch"
      "ab_kind batch = Some StorageKindTorch \<Longrightarrow>
        assign_torch T (ab_targets batch) (ab_sources batch) s1 = (res, s')"
proof -
  let ?alloc = "heapE (allocation_guard ''tensor_assign_many'' (bindE request_alloc (\<lambda>_. request_alloc)))"
  have ka: "keeps calm ?alloc"
    by (intro calm_heapE keeps_allocation_guard still.keeps_bind) (simp_all add: keeps_def request_alloc_keeps_objects)
  obtain ra sa where a: "?alloc s = (ra, sa)" by force
  note ca = keepsD [OF ka a]
  let ?pairs = "zip (take n ths) (take n shs)"
  obtain rb sb where b: "foldE ?pairs empty_batch (torch_assign_pair T) sa = (rb, sb)" by force
  have pre: "calm s sa \<and> gathered s [] empty_batch" using ca by (simp add: gathered_def empty_batch_def)
  show thesis
  proof (cases ra)
    case (Inl f)
    then have "res = Inl f" "s' = sa"
      using run n a by (auto simp: torch_AssignMany_def bindE_def checkE_run)
    then show ?thesis using that(1) ca by simp
  next
    case (Inr u)
    note body = run [unfolded torch_AssignMany_def] n a Inr b
    show ?thesis
    proof (cases rb)
      case (Inl f)
      then have "res = Inl f" "s' = sb" using body by (simp_all add: bindE_def checkE_run)
      then show ?thesis using that(1) triple_InlD [OF gather_loop pre b [unfolded Inl]] by simp
    next
      case (Inr batch)
      have post: "calm s sb" "gathered s ?pairs batch"
        using triple_InrD [OF gather_loop pre b [unfolded Inr]] by blast+
      have "assign_torch T (ab_targets batch) (ab_sources batch) sb = (res, s')"
        if "ab_kind batch = Some StorageKindTorch"
        using body Inr that by (simp add: bindE_def checkE_run)
      then show ?thesis using that(2) post by blast
    qed
  qed
qed




section \<open>Devices\<close>

text \<open>
  What the code relies on: asking for the accelerator changes nothing and always has the same answer,
  \<open>to\<close> moves a tensor to the device (and the index, where there is one) it is given, a clone stays on the
  device of its source.
\<close>

definition torch_placement :: "('t, 'w, 'z) libtorch_devices_scheme \<Rightarrow> device_type option \<Rightarrow> bool" where
  "torch_placement T acc \<longleftrightarrow>
     (\<forall>w r w'. lt_getAccelerator T w = (r, w') \<longrightarrow> w' = w \<and> (\<forall>a. r = Inr a \<longrightarrow> a = acc)) \<and>
     (\<forall>v d w m w'. lt_to T v d w = (Inr m, w') \<longrightarrow>
        fst (lt_device T m w') = fst d \<and> (0 \<le> snd d \<longrightarrow> snd (lt_device T m w') = snd d)) \<and>
     (\<forall>v w c w'. lt_clone T v w = (Inr c, w') \<longrightarrow> lt_device T c w' = lt_device T v w)"

lemma torch_placementD:
  assumes "torch_placement T acc"
  shows "lt_getAccelerator T w = (r, w') \<Longrightarrow> w' = w"
    "lt_getAccelerator T w = (Inr a, w') \<Longrightarrow> a = acc"
    "lt_to T v d w = (Inr m, w') \<Longrightarrow> fst (lt_device T m w') = fst d"
    "lt_to T v d w = (Inr m, w') \<Longrightarrow> 0 \<le> snd d \<Longrightarrow> snd (lt_device T m w') = snd d"
    "lt_clone T v w = (Inr c, w') \<Longrightarrow> lt_device T c w' = lt_device T v w"
  using assms unfolding torch_placement_def by blast+

text \<open>A request that is granted names a device the accelerator of the snapshot provides.\<close>

definition grantable :: "device \<Rightarrow> int \<Rightarrow> device_type option \<Rightarrow> bool" where
  "grantable device i acc \<longleftrightarrow>
     (if device = kCpu then i = 0 else 0 \<le> i \<and> (\<exists>a. acc = Some a \<and> MatchesAccelerator device a))"

lemma TorchDeviceFromSnapshot_granted:
  assumes "TorchDeviceFromSnapshot mx device i acc n = Inr (ty, k)"
  shows "grantable device i acc"
    "fst td = ty \<Longrightarrow> (0 \<le> k \<Longrightarrow> snd td = k) \<Longrightarrow> MapTorchDevice td acc = Inr (device, i)"
  using assms
  by (cases device; auto simp: TorchDeviceFromSnapshot_def MapTorchDevice_def DeviceCountFromSnapshot_def
      MatchesAccelerator_def grantable_def split: if_splits option.splits prod.splits)+

lemma statusE_InrD: "statusE r s = (Inr a, s') \<Longrightarrow> r = Inr a \<and> s' = s"
  by (cases r) (simp_all add: statusE_run)

lemma checkE_InrD: "checkE b st s = (Inr a, s') \<Longrightarrow> b \<and> s' = s"
  by (simp add: checkE_run split: if_splits)

lemma worldE_run: "worldE f s = (Inr (f (tr_world s)), s)"
  by (simp add: worldE_def)

lemma heapE_worldD: "heapE m s = (Inr a, s') \<Longrightarrow> \<exists>h. m (rt_heap s) = (Inr a, h) \<and> s' = s\<lparr>rt_heap := h\<rparr>"
  by (auto simp: heapE_def split: prod.splits)

lemma TorchDevice_granted:
  assumes "torch_placement T acc" and "TorchDevice T device i s = (Inr td, s')"
  shows "\<exists>n. TorchDeviceFromSnapshot (lt_max_device_index T) device i acc n = Inr td"
proof (cases "device = kCpu \<or> i < 0 \<or> device = kMps \<and> i \<noteq> 0 \<or> i > lt_max_device_index T")
  case True
  then have "TorchDeviceFromSnapshot (lt_max_device_index T) device i None 0 = Inr td"
    using assms(2) by (auto simp: TorchDevice_def dest!: statusE_InrD)
  then have "TorchDeviceFromSnapshot (lt_max_device_index T) device i acc 0 = Inr td"
    using True by (auto simp: TorchDeviceFromSnapshot_def split: if_splits)
  then show ?thesis ..
next
  case False
  then obtain a n s1 where g: "GuardTorch ''torch device'' (CaptureAcceleratorSnapshot T) s = (Inr (a, n), s1)"
    and st: "TorchDeviceFromSnapshot (lt_max_device_index T) device i a n = Inr td"
    using assms(2) by (auto simp: TorchDevice_def elim!: bindE_InrE dest!: statusE_InrD)
  obtain w where "CaptureAcceleratorSnapshot T (tr_world s) = (Inr (a, n), w)" using GuardTorch_InrD [OF g] by blast
  then obtain w1 where "lt_getAccelerator T (tr_world s) = (Inr a, w1)"
    by (auto simp: CaptureAcceleratorSnapshot_def returnE_run elim!: bindE_InrE split: option.splits)
  then have "a = acc" by (rule torch_placementD(2) [OF assms(1)])
  then show ?thesis using st by blast
qed

lemma WrapTorchTensor_device:
  assumes "torch_placement T acc" and "WrapTorchTensor T v s = (Inr r, s')"
  shows "MapTorchDevice (lt_device T v (tr_world s)) acc =
    Inr (t_device (tensor_at (rt_heap s') r), t_device_index (tensor_at (rt_heap s') r))"
proof -
  from assms(2) obtain shape a s1 device i storage s2 where
    acc: "GuardTorch ''wrap torch tensor accelerator discovery'' (lt_getAccelerator T) s = (Inr a, s1)"
    and dev: "MapTorchDevice (lt_device T v (tr_world s1)) a = Inr (device, i)"
    and new: "GuardAllocation ''wrap torch tensor''
       (heapE (new_tensor shape storage kFloat32 device i 0 None)) s2 = (Inr r, s')"
    unfolding WrapTorchTensor_def
    by (auto simp: worldE_run elim!: bindE_InrE dest!: statusE_InrD checkE_InrD)
  obtain w where w: "lt_getAccelerator T (tr_world s) = (Inr a, w)" "s1 = s\<lparr>tr_world := w\<rparr>"
    using GuardTorch_InrD [OF acc] by blast
  have "w = tr_world s" "a = acc" using torch_placementD(1,2) [OF assms(1)] w(1) by blast+
  moreover obtain h where "new_tensor shape storage kFloat32 device i 0 None (rt_heap s2) = (Inr r, h)" "s' = s2\<lparr>rt_heap := h\<rparr>"
    using heapE_worldD [OF new [unfolded GuardAllocation_Inr]] by blast
  then have "t_device (tensor_at (rt_heap s') r) = device \<and> t_device_index (tensor_at (rt_heap s') r) = i"
    by (auto simp: new_tensor_def elim!: bindE_InrE)
  ultimately show ?thesis using dev w(2) by simp
qed

lemma demo_torch_placement: "torch_placement demo_torch (Some DeviceTypeHIP)"
  by (auto simp: torch_placement_def demo_torch_def demo_clone_def returnE_run)



section \<open>Identities\<close>

text \<open>
  The table of identities: one entry per implementation, one implementation per identity, all of them
  in the upper half of the 64-bit numbers and below the next one to be given (0 once all are given).
\<close>

definition identities_inv :: "('t, 'm, 'o, 'w) torch_runtime \<Rightarrow> bool" where
  "identities_inv s \<longleftrightarrow> distinct (map fst (tr_identities s)) \<and> distinct (map snd (tr_identities s)) \<and>
     (tr_next_identity s \<noteq> 0 \<longrightarrow> 2 ^ 63 \<le> tr_next_identity s) \<and>
     (\<forall>(k, i) \<in> set (tr_identities s). 2 ^ 63 \<le> i \<and> (tr_next_identity s \<noteq> 0 \<longrightarrow> i < tr_next_identity s))"

lemma filter_keys_distinct:
  "distinct (map fst xs) \<Longrightarrow> distinct (map fst (filter P xs))" "distinct (map snd xs) \<Longrightarrow> distinct (map snd (filter P xs))"
  by (simp_all add: distinct_map inj_on_def)

lemma distinct_snd_eq: "distinct (map snd xs) \<Longrightarrow> (k, i) \<in> set xs \<Longrightarrow> (k', i) \<in> set xs \<Longrightarrow> k = k'"
  by (force simp: distinct_map inj_on_def)

lemma word_less_next: "n + 1 \<noteq> 0 \<Longrightarrow> n < n + 1" for n :: "'a::len word"
  using unatSuc [of n] by (simp add: word_less_nat_alt add.commute)

text \<open>A successful call: the table afterwards, and where the identity comes from.\<close>

definition pruned :: "('t, 'w, 'm, 'o) libtorch \<Rightarrow> ('t, 'm, 'o, 'w) torch_runtime \<Rightarrow> (nat \<times> 64 word) list" where
  "pruned T s = filter (\<lambda>(key, _). \<not> lt_expired T key (tr_world s)) (tr_identities s)"

lemma TorchIdentity_Inr:
  assumes v: "torch_tensor s r = Some v" and run: "torch_TensorIdentity T r s = (Inr i, s')"
  shows "(map_of (pruned T s) (lt_impl T v) = Some i \<and> tr_identities s' = pruned T s \<and> tr_next_identity s' = tr_next_identity s) \<or>
    (map_of (pruned T s) (lt_impl T v) = None \<and> i = tr_next_identity s \<and> i \<noteq> 0 \<and>
      tr_identities s' = (lt_impl T v, i) # pruned T s \<and> tr_next_identity s' = i + 1)"
proof -
  have k: "kind_at s r = StorageKindTorch" by (rule torch_tensor_kind) (simp add: v)
  then have "TorchIdentity T r s = (Inr i, s')"
    using run by (simp add: torch_TensorIdentity_def bindE_Inr_run [OF kindE_run])
  moreover obtain x s1 where t: "TensorToTorch T r s = (x, s1)" by force
  moreover have "s1 = s" using t TensorToTorch_stored [OF k, of T] by simp
  ultimately obtain y where x: "x = Inr y"
    by (cases x) (simp_all add: TorchIdentity_def bindE_Inl_run)
  have "y = v" using TensorToTorch_stored_Inr [OF k t [unfolded x]] v by simp
  then show ?thesis
    using \<open>TorchIdentity T r s = (Inr i, s')\<close> t x \<open>s1 = s\<close>
    by (auto simp: TorchIdentity_def bindE_Inr_run PruneExpiredTorchIdentitiesLocked_def pruned_def returnE_run heapE_def
        elim!: bindE_InrE dest!: checkE_InrD split: option.splits prod.splits if_splits)
qed

lemma TorchIdentity_step:
  assumes inv: "identities_inv s" and v: "torch_tensor s r = Some v" and run: "torch_TensorIdentity T r s = (Inr i, s')"
  shows "identities_inv s' \<and> calm s s' \<and> (lt_impl T v, i) \<in> set (tr_identities s') \<and>
    set (pruned T s) \<subseteq> set (tr_identities s')"
proof -
  have d: "distinct (map fst (pruned T s))" "distinct (map snd (pruned T s))" and sub: "set (pruned T s) \<subseteq> set (tr_identities s)"
    using inv filter_keys_distinct by (auto simp: identities_inv_def pruned_def)
  have ids: "2 ^ 63 \<le> j" "tr_next_identity s \<noteq> 0 \<Longrightarrow> j < tr_next_identity s" if "(k, j) \<in> set (pruned T s)" for k j
    using inv that sub unfolding identities_inv_def by blast+
  have nx: "tr_next_identity s \<noteq> 0 \<Longrightarrow> 2 ^ 63 \<le> tr_next_identity s" using inv by (simp add: identities_inv_def)
  have calm: "calm s s'" using keepsD [OF calm_torch_TensorIdentity run] .
  from TorchIdentity_Inr [OF v run] show ?thesis
  proof
    assume a: "map_of (pruned T s) (lt_impl T v) = Some i \<and> tr_identities s' = pruned T s \<and>
      tr_next_identity s' = tr_next_identity s"
    then have "identities_inv s'" using d ids nx unfolding identities_inv_def by auto
    then show ?thesis using a calm map_of_SomeD by auto
  next
    assume a: "map_of (pruned T s) (lt_impl T v) = None \<and> i = tr_next_identity s \<and> i \<noteq> 0 \<and>
      tr_identities s' = (lt_impl T v, i) # pruned T s \<and> tr_next_identity s' = i + 1"
    have "i \<notin> snd ` set (pruned T s)" using ids(2) a by fastforce
    moreover have "lt_impl T v \<notin> fst ` set (pruned T s)" using a by (simp add: map_of_eq_None_iff)
    moreover have "2 ^ 63 \<le> i" using nx a by metis
    moreover have "2 ^ 63 \<le> i + 1 \<and> i < i + 1" if "i + 1 \<noteq> 0"
      using word_less_next [OF that] \<open>2 ^ 63 \<le> i\<close> by auto
    moreover have "j < i + 1" if "(k, j) \<in> set (pruned T s)" "i + 1 \<noteq> 0" for k j
      using ids(2) [OF that(1)] a word_less_next [OF that(2)] by (metis less_trans)
    ultimately have "identities_inv s'"
      using d ids a unfolding identities_inv_def by auto
    then show ?thesis using a calm by auto
  qed
qed

text \<open>C25: Identities tell LibTorch tensors apart: for two tensors in use, two calls give the same number
  exactly when both stand for the same LibTorch tensor; the numbers are in the upper half of the 64-bit
  range, and the table keeps one entry per tensor.\<close>

theorem torch_identities_faithful:
  assumes "identities_inv s" and "torch_tensor s a = Some v" and "torch_tensor s b = Some u"
    and "\<not> lt_expired T (lt_impl T v) (tr_world s)"
    and "torch_TensorIdentity T a s = (Inr i, s1)" and "torch_TensorIdentity T b s1 = (Inr j, s2)"
  shows "(i = j \<longleftrightarrow> lt_impl T v = lt_impl T u) \<and> 2 ^ 63 \<le> i \<and> 2 ^ 63 \<le> j \<and> identities_inv s2"
proof -
  note r1 = TorchIdentity_step [OF assms(1,2,5)]
  then have inv1: "identities_inv s1" and calm: "calm s s1" and in1: "(lt_impl T v, i) \<in> set (tr_identities s1)" by blast+
  have u1: "torch_tensor s1 b = Some u" using calm_torch(1) [OF calm] assms(3) by simp
  note r2 = TorchIdentity_step [OF inv1 u1 assms(6)]
  have "tr_world s1 = tr_world s" using calm by (simp add: calm_def)
  then have "(lt_impl T v, i) \<in> set (pruned T s1)" using in1 assms(4) by (simp add: pruned_def)
  then have both: "(lt_impl T v, i) \<in> set (tr_identities s2)" "(lt_impl T u, j) \<in> set (tr_identities s2)"
    and inv2: "identities_inv s2" using r2 by blast+
  have "lt_impl T v = lt_impl T u" if "i = j"
    using both that inv2 distinct_snd_eq [of "tr_identities s2" "lt_impl T v" i "lt_impl T u"] by (simp add: identities_inv_def)
  moreover have "i = j" if "lt_impl T v = lt_impl T u"
    using both that inv2 eq_key_imp_eq_value [of "tr_identities s2" "lt_impl T v" i j] by (simp add: identities_inv_def)
  moreover have "2 ^ 63 \<le> i" "2 ^ 63 \<le> j" using both inv2 unfolding identities_inv_def by blast+
  ultimately show ?thesis using inv2 by blast
qed

theorem torch_identities_faithful_witness:
  "\<exists>i j s1 s2. torch_TensorIdentity demo_torch 0 demo_torch_state = (Inr i, s1) \<and>
    torch_TensorIdentity demo_torch 1 s1 = (Inr j, s2) \<and> i \<noteq> j \<and> 2 ^ 63 \<le> j \<and> identities_inv s2"
proof -
  let ?s1 = "snd (torch_TensorIdentity demo_torch 0 demo_torch_state)"
  have run1: "torch_TensorIdentity demo_torch 0 demo_torch_state = (Inr (2 ^ 63), ?s1)"
    by (rule prod_eqI) (simp_all, code_simp)
  have "fst (torch_TensorIdentity demo_torch 1 ?s1) = Inr (2 ^ 63 + 1)" by code_simp
  then obtain s2 where run2: "torch_TensorIdentity demo_torch 1 ?s1 = (Inr (2 ^ 63 + 1), s2)" by (metis prod.collapse)
  have inv: "identities_inv demo_torch_state" by (simp add: identities_inv_def demo_torch_state_def)
  have live: "\<not> lt_expired demo_torch (lt_impl demo_torch ((DeviceTypeCPU, - 1), [0, 1])) (tr_world demo_torch_state)"
    by (simp add: demo_torch_def)
  have "(2 ^ 63 = (2 ^ 63 + 1 :: 64 word) \<longleftrightarrow> lt_impl demo_torch ((DeviceTypeCPU, - 1), [0, 1]) =
      lt_impl demo_torch ((DeviceTypeCPU, - 1), [2, 3])) \<and> (2 :: 64 word) ^ 63 \<le> 2 ^ 63 \<and> (2 :: 64 word) ^ 63 \<le> 2 ^ 63 + 1 \<and>
      identities_inv s2"
    by (rule torch_identities_faithful [OF inv demo_torch_tensors live run1 run2])
  then show ?thesis using run1 run2 by (intro exI [of _ "2 ^ 63"] exI [of _ "2 ^ 63 + 1"] exI [of _ ?s1] exI [of _ s2]) simp
qed

section \<open>Views\<close>

lemma storage_host_values_run:
  assumes wf: "wf_heap h" and r: "r < length (tensors h)" and plan: "alloc_plan h = []"
    and len: "length (cpu_values (storage_of h (tensor_at h r))) = numel_of (tensor_at h r)"
  shows "storage_host_values (tensor_at h r) h = (Inr (cpu_values (storage_of h (tensor_at h r))), h)"
proof -
  obtain vs where "storage_of h (tensor_at h r) = CpuStorage vs" using wf_heap_layout [OF wf r] by (auto simp: layout_ok_def)
  then show ?thesis
    using plan len by (simp add: storage_host_values_def bindE_Inr_run write_prefix_def returnE_run checkE_run statusE_run)
qed

lemma TensorToTorch_cpu:
  fixes s :: "('t, 'm, 'o, 'w) torch_runtime"
  assumes wf: "wf_heap (rt_heap s)" and r: "r < length (tensors (rt_heap s))" and plan: "alloc_plan (rt_heap s) = []"
    and len: "length (cpu_values (storage_of (rt_heap s) (tensor_at (rt_heap s) r))) = numel_of (tensor_at (rt_heap s) r)"
  shows "TensorToTorch T r s = GuardTorch ''tensor to torch''
    (lt_from_blob_clone T (cpu_values (storage_of (rt_heap s) (tensor_at (rt_heap s) r))) (dims_of (tensor_at (rt_heap s) r))) s"
proof -
  let ?t = "tensor_at (rt_heap s) r"
  have lay: "t_dtype ?t = kFloat32" "storage_kind_of (storage_of (rt_heap s) ?t) = StorageKindCpu"
    using wf_heap_layout [OF wf r] by (auto simp: layout_ok_def)
  have "heapE (storage_host_values ?t) s = (Inr (cpu_values (storage_of (rt_heap s) ?t)), s)"
    using storage_host_values_run [OF wf r plan len] by (simp add: heapE_def)
  then show ?thesis
    using lay by (simp add: TensorToTorch_def tensorE_def heapE_def [of "getE _"] bindE_Inr_run torch_EnsureFloat32_def
        statusE_run)
qed

text \<open>C26: A transposed view that is handed to LibTorch loses its transposition: LibTorch receives the
  transposed dimensions with the values of the matrix in the order of its storage, while the library's own
  view of the tensor has the transposed values.\<close>

theorem torch_input_ignores_transposition:
  fixes s :: "('t, 'm, 'o, 'w) torch_runtime"
  assumes "wf_heap h" and "r < length (tensors h)" and "alloc_plan h = []"
    and "dims_of (tensor_at h r) = [R, C]" and "is_contiguous (tensor_at h r)" and "t_offset (tensor_at h r) = 0"
    and "length (cpu_values (storage_of h (tensor_at h r))) = numel_of (tensor_at h r)"
    and "CpuBackend_Transpose2D r h = (Inr t, rt_heap s)"
  shows "TensorToTorch T t s = GuardTorch ''tensor to torch''
      (lt_from_blob_clone T (logical_values h (tensor_at h r)) [C, R]) s \<and>
    logical_values (rt_heap s) (tensor_at (rt_heap s) t) =
      transpose_values (nat R) (nat C) (logical_values h (tensor_at h r))"
proof -
  note y = Transpose2D_yields [OF assms(1,2), unfolded assms(8)]
  have t: "t = length (tensors h)" using yieldsD(4) [OF y refl] .
  have mk: "makes_tensor h [r] (swap01 (dims_of (tensor_at h r))) (transpose_result h r)
      (record_meta h kTranspose2D [r]) (rt_heap s)" using yieldsD(5) [OF y refl] .
  then have d: "dims_of (tensor_at (rt_heap s) t) = [C, R]"
    and v: "logical_values (rt_heap s) (tensor_at (rt_heap s) t) = transpose_result h r" and lt: "t < length (tensors (rt_heap s))"
    using t assms(4) by (simp_all add: makes_tensor_def new_tensor_at_def)
  note sh = Transpose2D_shares [OF assms(8)]
  note lay = wf_heap_layout [OF assms(1,2)] and lay1 = wf_heap_layout [OF yieldsD(1) [OF y] lt]
  obtain vs where vs: "storage_of h (tensor_at h r) = CpuStorage vs" using lay by (auto simp: layout_ok_def)
  have lv: "logical_values h (tensor_at h r) = vs"
    using contiguous_logical_values [OF lay assms(5,6) vs] assms(7) vs by simp
  have n: "numel_of (tensor_at (rt_heap s) t) = numel_of (tensor_at h r)"
    using layout_ok_numel [OF lay] layout_ok_numel [OF lay1] d assms(4) by (simp add: dims_prod_def mult.commute)
  have "alloc_plan (rt_heap s) = []"
    using Transpose2D_succeeds [OF assms(1,3,2)] assms(4,8) by (simp add: succeeds_def)
  then have "TensorToTorch T t s = GuardTorch ''tensor to torch''
      (lt_from_blob_clone T (cpu_values (storage_of (rt_heap s) (tensor_at (rt_heap s) t))) [C, R]) s"
    using TensorToTorch_cpu [OF yieldsD(1) [OF y] lt] sh assms(7) n d by simp
  then show ?thesis using sh vs lv v assms(4) by (simp add: transpose_result_def)
qed

theorem torch_input_ignores_transposition_witness:
  "\<exists>t. \<exists>s :: (demo_tensor, unit, unit, demo_world) torch_runtime. CpuBackend_Transpose2D 0 demo_heap = (Inr t, rt_heap s) \<and>
    TensorToTorch demo_torch t s = GuardTorch ''tensor to torch'' (lt_from_blob_clone demo_torch demo_values [3, 2]) s \<and>
    logical_values (rt_heap s) (tensor_at (rt_heap s) t) \<noteq> demo_values"
proof -
  have lv: "logical_values demo_heap (tensor_at demo_heap 0) = demo_values"
    using contiguous_logical_values [OF wf_heap_layout [OF demo_heap_wf], of 0 demo_values]
    by (simp add: is_contiguous_def row_major_def)
  have "succeeds (CpuBackend_Transpose2D 0) demo_heap" by (rule Transpose2D_succeeds [OF demo_heap_wf]) simp_all
  then obtain t h1 where run: "CpuBackend_Transpose2D 0 demo_heap = (Inr t, h1)" by (auto simp: succeeds_def)
  let ?s = "demo_torch_state\<lparr>rt_heap := h1\<rparr>"
  have run': "CpuBackend_Transpose2D 0 demo_heap = (Inr t, rt_heap ?s)" using run by simp
  have ne: "transpose_values 2 3 demo_values \<noteq> demo_values" by code_simp
  have "TensorToTorch demo_torch t ?s = GuardTorch ''tensor to torch''
        (lt_from_blob_clone demo_torch (logical_values demo_heap (tensor_at demo_heap 0)) [3, 2]) ?s \<and>
      logical_values (rt_heap ?s) (tensor_at (rt_heap ?s) t) =
        transpose_values (nat 2) (nat 3) (logical_values demo_heap (tensor_at demo_heap 0))"
    by (rule torch_input_ignores_transposition [OF demo_heap_wf _ _ _ _ _ _ run'])
      (simp_all add: is_contiguous_def row_major_def)
  then show ?thesis using run' ne lv by (intro exI [of _ t] exI [of _ ?s]) simp
qed

end
