(* ===== verification/Torch_Api.thy ===== *)
theory Torch_Api
  imports Torch_Nn
begin

text \<open>
  The exported functions of \<open>native/src/c_api.cc\<close> and \<open>training_c_api.cc\<close> in the build with LibTorch.  Their
  code is that of the core-only build; they call the bridge, the dispatcher and the storages of this build.
  The functions that reach neither (creation from host values, the queries of \<open>Core_Api\<close>, retain and
  release, the counters of handles) are those of \<open>Core_Api\<close> and \<open>Training_Api\<close>, whose definitions apply to
  any extension of the runtime.
\<close>

section \<open>Devices\<close>

definition torch_ts_runtime_device_count ::
    "('t, 'w, 'm, 'o) libtorch \<Rightarrow> nat \<Rightarrow> nat option \<Rightarrow> ('t, 'm, 'o, 'w) torch_runtime \<Rightarrow>
     int option \<times> nat option \<times> ('t, 'm, 'o, 'w) torch_runtime" where
  "torch_ts_runtime_device_count T device = ts_function ''runtime_device_count''
     (bindE (check_out ''runtime_device_count: output pointer is null'') (\<lambda>_.
      bindE (set_out 0) (\<lambda>_.
      bindE (statusE (DeviceFromCode device)) (\<lambda>target.
      if target = kCpu then set_out 1 else torch_DeviceCount T target))))"

text \<open>A call that makes a handle, and a call without an output.\<close>

type_synonym ('t, 'm, 'o, 'w) xcall = "handle option \<Rightarrow> ('t, 'm, 'o, 'w) torch_runtime \<Rightarrow>
    int option \<times> handle option \<times> ('t, 'm, 'o, 'w) torch_runtime"
type_synonym ('t, 'm, 'o, 'w) xplain = "('t, 'm, 'o, 'w) torch_runtime \<Rightarrow>
    int option \<times> ('t, 'm, 'o, 'w) torch_runtime"

definition torch_ts_tensor_to_device :: "('t, 'w, 'm, 'o) libtorch \<Rightarrow> handle \<Rightarrow> nat \<Rightarrow> int \<Rightarrow>
    ('t, 'm, 'o, 'w) xcall" where
  "torch_ts_tensor_to_device T tensor device device_index = ts_function ''tensor_to_device''
     (new_handle ''tensor_to_device: output handle pointer is null''
       (bindE (statusE (DeviceFromCode device)) (\<lambda>target.
        bindE (LookupTensor tensor) (\<lambda>r. torch_Transfer T r target device_index))))"

section \<open>Copies to the host\<close>

text \<open>\<open>Tensor::CopyToHostF32\<close> (\<open>native/src/tensor/tensor.cc\<close>) when the storage may be a \<open>TorchStorage\<close>.\<close>

definition torch_copy_to_host :: "('t, 'w, 'm, 'o) libtorch \<Rightarrow> tensor_ref \<Rightarrow> nat \<Rightarrow>
    ((f32 list option \<times> nat) \<times> ('t, 'm, 'o, 'w) torch_runtime, unit) run" where
  "torch_copy_to_host T r capacity = (\<lambda>((out, _), s).
     let h = rt_heap s; t = tensor_at h r in
     if storage_kind_of (storage_of h t) \<noteq> StorageKindTorch
     then (case tensor_copy_to_host h t out capacity of (result, buffer, written) \<Rightarrow>
       (map_sum Failed id result, ((buffer, written), s)))
     else if t_dtype t \<noteq> kFloat32
     then (Inl (Failed (Unsupported ''tensor copy: tensor dtype is not float32'')), ((out, 0), s))
     else if capacity < numel_of t
     then (Inl (Failed (InvalidArgument ''tensor copy: output capacity is smaller than tensor'')), ((out, 0), s))
     else if numel_of t > 0 \<and> out = None
     then (Inl (Failed (InvalidArgument ''tensor copy: output values pointer is null'')), ((out, 0), s))
     else if is_contiguous t \<and> t_offset t = 0 \<and> storage_byte_size (storage_of h t) = byte_size (t_shape t)
     then (case TorchStorage_CopyToHostF32 T (the (tr_tensors s (t_storage t))) capacity ((out, 0), s) of
         (Inl f, c) \<Rightarrow> (Inl f, c)
       | (Inr _, ((buffer, written), s')) \<Rightarrow>
           (if written \<noteq> numel_of t
            then (Inl (Failed (InternalError
              ''tensor copy: storage returned an inconsistent element count'')), ((buffer, 0), s'))
            else (Inr (), ((buffer, written), s'))))
     else if t_device t \<noteq> kCpu \<or> t_device_index t \<noteq> 0
     then (Inl (Failed (Unsupported
       ''tensor copy: non-contiguous accelerator views are not qualified yet'')), ((out, 0), s))
     else (Inl (Failed (Unsupported ''tensor copy: tensor is not backed by CPU storage'')), ((out, 0), s)))"

definition torch_ts_tensor_copy_to_host_f32 :: "('t, 'w, 'm, 'o) libtorch \<Rightarrow> handle \<Rightarrow> nat \<Rightarrow>
    (f32 list option \<times> nat) option \<Rightarrow> ('t, 'm, 'o, 'w) torch_runtime \<Rightarrow>
    int option \<times> (f32 list option \<times> nat) option \<times> ('t, 'm, 'o, 'w) torch_runtime" where
  "torch_ts_tensor_copy_to_host_f32 T tensor capacity = ts_function ''tensor_copy_to_host_f32''
     (bindE (check_out ''tensor_copy_to_host_f32: output count pointer is null'') (\<lambda>_.
      bindE (getE (\<lambda>(out, _). fst (the out))) (\<lambda>out_values.
      bindE (set_out (out_values, 0)) (\<lambda>_.
      bindE (runtimeE (LookupTensor tensor)) (\<lambda>r.
      bindE (runtimeE (tensorE r)) (\<lambda>object.
      bindE (checkE (numel_of object \<le> capacity) (InvalidArgument
        ''tensor_copy_to_host_f32: output capacity is smaller than tensor'')) (\<lambda>_.
      bindE (checkE (\<not> (numel_of object > 0 \<and> out_values = None)) (InvalidArgument
        ''tensor_copy_to_host_f32: output values pointer is null'')) (\<lambda>_.
      (\<lambda>(out, s). case torch_copy_to_host T r capacity (the out, s) of
         (result, (cell, s')) \<Rightarrow> (result, (Some cell, s')))))))))))"

section \<open>Operations of a backend\<close>

text \<open>\<open>Dispatcher::ForTensor\<close> and a call of the backend it finds.\<close>

definition torch_dispatch :: "handle \<Rightarrow> (tensor_ref \<Rightarrow> (heap, tensor_ref) run) \<Rightarrow>
    (tensor_ref \<Rightarrow> ('t, 'm, 'o, 'w, tensor_ref) xrt) \<Rightarrow> ('t, 'm, 'o, 'w, tensor_ref) xrt" where
  "torch_dispatch tensor cpu torch =
     bindE (LookupTensor tensor) (\<lambda>r.
     bindE (tensorE r) (\<lambda>object.
     bindE (getE rt_heap) (\<lambda>h.
     bindE (statusE (torch_Dispatcher_ForTensor h object)) (\<lambda>backend.
     through_backend (cpu r) (torch r) backend))))"

definition torch_ts_tensor_reshape :: "('t, 'w, 'm, 'o) libtorch \<Rightarrow> handle \<Rightarrow> int list option \<Rightarrow> nat \<Rightarrow>
    ('t, 'm, 'o, 'w) xcall" where
  "torch_ts_tensor_reshape T tensor dims rank = ts_function ''tensor_reshape''
     (new_handle ''tensor_reshape: output handle pointer is null''
       (bindE (statusE (ValidateShape dims rank)) (\<lambda>shape.
        torch_dispatch tensor (\<lambda>r. CpuBackend_Reshape r shape) (\<lambda>r. TorchBackend_Reshape T r shape))))"

definition torch_ts_tensor_transpose2d :: "('t, 'w, 'm, 'o) libtorch \<Rightarrow> handle \<Rightarrow> ('t, 'm, 'o, 'w) xcall" where
  "torch_ts_tensor_transpose2d T tensor = ts_function ''tensor_transpose2d''
     (new_handle ''tensor_transpose2d: output handle pointer is null''
       (torch_dispatch tensor CpuBackend_Transpose2D (TorchBackend_Transpose2D T)))"

definition torch_ts_tensor_sum :: "('t, 'w, 'm, 'o) libtorch \<Rightarrow> handle \<Rightarrow> ('t, 'm, 'o, 'w) xcall" where
  "torch_ts_tensor_sum T tensor = ts_function ''tensor_sum''
     (new_handle ''tensor_sum: output handle pointer is null''
       (torch_dispatch tensor CpuBackend_Sum (TorchBackend_Sum T)))"

definition torch_ts_tensor_add :: "('t, 'w, 'm, 'o) libtorch \<Rightarrow> handle \<Rightarrow> handle \<Rightarrow> ('t, 'm, 'o, 'w) xcall" where
  "torch_ts_tensor_add T left right = ts_function ''tensor_add''
     (torch_RunBinaryOperation left right ''tensor_add'' CpuBackend_Add (TorchBackend_Add T))"

definition torch_ts_tensor_multiply :: "('t, 'w, 'm, 'o) libtorch \<Rightarrow> handle \<Rightarrow> handle \<Rightarrow> ('t, 'm, 'o, 'w) xcall" where
  "torch_ts_tensor_multiply T left right = ts_function ''tensor_multiply''
     (torch_RunBinaryOperation left right ''tensor_multiply'' CpuBackend_Multiply (TorchBackend_Multiply T))"

definition torch_ts_tensor_matmul :: "('t, 'w, 'm, 'o) libtorch \<Rightarrow> handle \<Rightarrow> handle \<Rightarrow> ('t, 'm, 'o, 'w) xcall" where
  "torch_ts_tensor_matmul T left right = ts_function ''tensor_matmul''
     (torch_RunBinaryOperation left right ''tensor_matmul'' CpuBackend_Matmul (TorchBackend_Matmul T))"

section \<open>Functions of the training interface\<close>

definition torch_RunTrainingUnary :: "handle \<Rightarrow> (tensor_ref \<Rightarrow> ('t, 'm, 'o, 'w, tensor_ref) xrt) \<Rightarrow>
    (handle, 't, 'm, 'o, 'w) xapi" where
  "torch_RunTrainingUnary tensor operation =
     new_handle ''training unary: output handle pointer is null'' (bindE (LookupTensor tensor) operation)"

definition torch_RunTrainingBinary :: "handle \<Rightarrow> handle \<Rightarrow>
    (tensor_ref \<Rightarrow> tensor_ref \<Rightarrow> ('t, 'm, 'o, 'w, tensor_ref) xrt) \<Rightarrow> (handle, 't, 'm, 'o, 'w) xapi" where
  "torch_RunTrainingBinary left right operation =
     new_handle ''training binary: output handle pointer is null''
       (bindE (LookupTensor left) (\<lambda>left_object.
        bindE (LookupTensor right) (\<lambda>right_object. operation left_object right_object)))"

definition torch_ts_tensor_relu :: "('t, 'w, 'm, 'o) libtorch \<Rightarrow> handle \<Rightarrow> ('t, 'm, 'o, 'w) xcall" where
  "torch_ts_tensor_relu T tensor =
     ts_function ''tensor_relu'' (torch_RunTrainingUnary tensor (torch_Relu T))"

definition torch_ts_tensor_sigmoid :: "('t, 'w, 'm, 'o) libtorch \<Rightarrow> handle \<Rightarrow> ('t, 'm, 'o, 'w) xcall" where
  "torch_ts_tensor_sigmoid T tensor =
     ts_function ''tensor_sigmoid'' (torch_RunTrainingUnary tensor (torch_Sigmoid T))"

definition torch_ts_tensor_tanh :: "('t, 'w, 'm, 'o) libtorch \<Rightarrow> handle \<Rightarrow> ('t, 'm, 'o, 'w) xcall" where
  "torch_ts_tensor_tanh T tensor =
     ts_function ''tensor_tanh'' (torch_RunTrainingUnary tensor (torch_Tanh T))"

definition torch_ts_tensor_gelu :: "libm \<Rightarrow> ('t, 'w, 'm, 'o) libtorch \<Rightarrow> handle \<Rightarrow> ('t, 'm, 'o, 'w) xcall" where
  "torch_ts_tensor_gelu L T tensor =
     ts_function ''tensor_gelu'' (torch_RunTrainingUnary tensor (torch_Gelu L T))"

definition torch_ts_tensor_silu :: "libm \<Rightarrow> ('t, 'w, 'm, 'o) libtorch \<Rightarrow> handle \<Rightarrow> ('t, 'm, 'o, 'w) xcall" where
  "torch_ts_tensor_silu L T tensor =
     ts_function ''tensor_silu'' (torch_RunTrainingUnary tensor (torch_Silu L T))"

definition torch_ts_tensor_swiglu :: "libm \<Rightarrow> ('t, 'w, 'm, 'o) libtorch \<Rightarrow> handle \<Rightarrow> ('t, 'm, 'o, 'w) xcall" where
  "torch_ts_tensor_swiglu L T tensor =
     ts_function ''tensor_swiglu'' (torch_RunTrainingUnary tensor (torch_SwiGlu L T))"

definition torch_ts_tensor_clone_detached :: "('t, 'w, 'm, 'o) libtorch \<Rightarrow> handle \<Rightarrow> ('t, 'm, 'o, 'w) xcall" where
  "torch_ts_tensor_clone_detached T tensor =
     ts_function ''tensor_clone_detached'' (torch_RunTrainingUnary tensor (torch_CloneDetached T))"

definition torch_ts_tensor_grad :: "('t, 'w, 'm, 'o) libtorch \<Rightarrow> handle \<Rightarrow> ('t, 'm, 'o, 'w) xcall" where
  "torch_ts_tensor_grad T tensor =
     ts_function ''tensor_grad'' (torch_RunTrainingUnary tensor (torch_Gradient T))"

definition torch_ts_tensor_with_requires_grad :: "('t, 'w, 'm, 'o) libtorch \<Rightarrow> handle \<Rightarrow> nat \<Rightarrow>
    ('t, 'm, 'o, 'w) xcall" where
  "torch_ts_tensor_with_requires_grad T tensor requires_grad = ts_function ''tensor_with_requires_grad''
     (torch_RunTrainingUnary tensor (\<lambda>x. torch_WithRequiresGrad T x (requires_grad \<noteq> 0)))"

definition torch_ts_mse_loss :: "('t, 'w, 'm, 'o) libtorch \<Rightarrow> handle \<Rightarrow> handle \<Rightarrow> ('t, 'm, 'o, 'w) xcall" where
  "torch_ts_mse_loss T prediction target =
     ts_function ''mse_loss'' (torch_RunTrainingBinary prediction target (torch_MseLoss T))"

definition torch_ts_cross_entropy_loss :: "('t, 'w, 'm, 'o) libtorch \<Rightarrow> handle \<Rightarrow> handle \<Rightarrow>
    ('t, 'm, 'o, 'w) xcall" where
  "torch_ts_cross_entropy_loss T logits one_hot_target =
     ts_function ''cross_entropy_loss'' (torch_RunTrainingBinary logits one_hot_target (torch_CrossEntropyLoss T))"

definition torch_ts_tensor_identity :: "('t, 'w, 'm, 'o) libtorch \<Rightarrow> handle \<Rightarrow> 64 word option \<Rightarrow>
    ('t, 'm, 'o, 'w) torch_runtime \<Rightarrow> int option \<times> 64 word option \<times> ('t, 'm, 'o, 'w) torch_runtime" where
  "torch_ts_tensor_identity T tensor = ts_function ''tensor_identity''
     (bindE (check_out ''tensor_identity: output identity pointer is null'') (\<lambda>_.
      bindE (set_out 0) (\<lambda>_.
      bindE (runtimeE (LookupTensor tensor)) (\<lambda>object.
      bindE (runtimeE (torch_TensorIdentity T object)) set_out))))"

definition torch_ts_tensor_requires_grad :: "('t, 'w, 'm, 'o) libtorch \<Rightarrow> handle \<Rightarrow> nat option \<Rightarrow>
    ('t, 'm, 'o, 'w) torch_runtime \<Rightarrow> int option \<times> nat option \<times> ('t, 'm, 'o, 'w) torch_runtime" where
  "torch_ts_tensor_requires_grad T tensor = ts_function ''tensor_requires_grad''
     (bindE (check_out ''tensor_requires_grad: output pointer is null'') (\<lambda>_.
      bindE (set_out 0) (\<lambda>_.
      bindE (runtimeE (LookupTensor tensor)) (\<lambda>object.
      bindE (runtimeE (torch_RequiresGrad T object)) (\<lambda>rg.
      set_out (if rg then 1 else 0))))))"

definition torch_ts_tensor_set_requires_grad :: "('t, 'w, 'm, 'o) libtorch \<Rightarrow> handle \<Rightarrow> nat \<Rightarrow>
    ('t, 'm, 'o, 'w) xplain" where
  "torch_ts_tensor_set_requires_grad T tensor requires_grad = ts_plain ''tensor_set_requires_grad''
     (bindE (LookupTensor tensor) (\<lambda>object. torch_SetRequiresGrad T object (requires_grad \<noteq> 0)))"

definition torch_ts_tensor_backward :: "libm \<Rightarrow> ('t, 'w, 'm, 'o) libtorch \<Rightarrow> handle \<Rightarrow> ('t, 'm, 'o, 'w) xplain" where
  "torch_ts_tensor_backward L T tensor = ts_plain ''tensor_backward''
     (bindE (LookupTensor tensor) (\<lambda>object. torch_Backward L T object))"

definition torch_ts_tensor_assign_many :: "('t, 'w, 'm, 'o) libtorch \<Rightarrow> handle list option \<Rightarrow>
    handle list option \<Rightarrow> nat \<Rightarrow> ('t, 'm, 'o, 'w) xplain" where
  "torch_ts_tensor_assign_many T target_handles source_handles count =
     ts_plain ''tensor_assign_many'' (torch_AssignMany T target_handles source_handles count)"

section \<open>The runtime of training\<close>

type_synonym ('t, 'm, 'o, 'w) xcount = "nat option \<Rightarrow> ('t, 'm, 'o, 'w) torch_runtime \<Rightarrow>
    int option \<times> nat option \<times> ('t, 'm, 'o, 'w) torch_runtime"

definition torch_ts_training_available ::
    "('t, 'm, 'o, 'w) xcount" where
  "torch_ts_training_available =
     ts_function ''training_available''
       (torch_IsAvailable)"

definition torch_ts_manual_seed ::
    "('t, 'w, 'm, 'o) libtorch \<Rightarrow> 64 word \<Rightarrow> ('t, 'm, 'o, 'w) xplain" where
  "torch_ts_manual_seed T seed =
     ts_plain ''manual_seed''
       (torch_ManualSeed T seed)"

section \<open>Modules\<close>

definition torch_ts_linear_create ::
    "('t, 'w, 'm, 'o) libtorch \<Rightarrow> int \<Rightarrow> int \<Rightarrow> nat \<Rightarrow> ('t, 'm, 'o, 'w) xcall" where
  "torch_ts_linear_create T inp outp bias =
     ts_function ''linear_create''
       (bindE (check_out ''linear_create: output handle pointer is null'') (\<lambda>_.
        bindE (set_out 0) (\<lambda>_.
        torch_LinearCreate T inp outp (bias \<noteq> 0))))"

definition torch_ts_module_forward ::
    "('t, 'w, 'm, 'o) libtorch \<Rightarrow> handle \<Rightarrow> handle \<Rightarrow> ('t, 'm, 'o, 'w) xcall" where
  "torch_ts_module_forward T module input =
     ts_function ''module_forward''
       (new_handle ''module_forward: output handle pointer is null''
         (bindE (LookupTensor input) (\<lambda>input_object. torch_ModuleForward T module input_object)))"

definition torch_ts_module_set_training ::
    "('t, 'w, 'm, 'o) libtorch \<Rightarrow> handle \<Rightarrow> nat \<Rightarrow> ('t, 'm, 'o, 'w) xplain" where
  "torch_ts_module_set_training T module training =
     ts_plain ''module_set_training''
       (torch_ModuleSetTraining T module (training \<noteq> 0))"

definition torch_ts_module_to_device ::
    "('t, 'w, 'm, 'o) libtorch \<Rightarrow> handle \<Rightarrow> nat \<Rightarrow> int \<Rightarrow> ('t, 'm, 'o, 'w) xplain" where
  "torch_ts_module_to_device T module device device_index =
     ts_plain ''module_to_device''
       (bindE (statusE (DeviceFromCode device)) (\<lambda>target.
        torch_ModuleToDevice T module target device_index))"

definition torch_ts_module_parameter_count ::
    "('t, 'w, 'm, 'o) libtorch \<Rightarrow> handle \<Rightarrow> ('t, 'm, 'o, 'w) xcount" where
  "torch_ts_module_parameter_count T module =
     ts_function ''module_parameter_count''
       (torch_ModuleParameterCount T module)"

definition torch_ts_module_parameter_at ::
    "('t, 'w, 'm, 'o) libtorch \<Rightarrow> handle \<Rightarrow> nat \<Rightarrow> ('t, 'm, 'o, 'w) xcall" where
  "torch_ts_module_parameter_at T module index =
     ts_function ''module_parameter_at''
       (FetchAndInsertTrainingTensor ''module_parameter_at'' (torch_ModuleParameterAt T module index))"

definition torch_ts_module_buffer_count ::
    "('t, 'w, 'm, 'o) libtorch \<Rightarrow> handle \<Rightarrow> ('t, 'm, 'o, 'w) xcount" where
  "torch_ts_module_buffer_count T module =
     ts_function ''module_buffer_count''
       (torch_ModuleBufferCount T module)"

definition torch_ts_module_buffer_at ::
    "('t, 'w, 'm, 'o) libtorch \<Rightarrow> handle \<Rightarrow> nat \<Rightarrow> ('t, 'm, 'o, 'w) xcall" where
  "torch_ts_module_buffer_at T module index =
     ts_function ''module_buffer_at''
       (FetchAndInsertTrainingTensor ''module_buffer_at'' (torch_ModuleBufferAt T module index))"

definition torch_ts_module_save ::
    "('t, 'w, 'm, 'o) libtorch \<Rightarrow> handle \<Rightarrow> string option \<Rightarrow> ('t, 'm, 'o, 'w) xplain" where
  "torch_ts_module_save T module path =
     ts_plain ''module_save''
       (bindE (checkE (path \<noteq> None) (InvalidArgument ''module_save: path pointer is null'')) (\<lambda>_.
        torch_ModuleSave T module (the path)))"

definition torch_ts_module_load ::
    "('t, 'w, 'm, 'o) libtorch \<Rightarrow> handle \<Rightarrow> string option \<Rightarrow> ('t, 'm, 'o, 'w) xplain" where
  "torch_ts_module_load T module path =
     ts_plain ''module_load''
       (bindE (checkE (path \<noteq> None) (InvalidArgument ''module_load: path pointer is null'')) (\<lambda>_.
        torch_ModuleLoad T module (the path)))"

definition torch_ts_module_release ::
    "handle \<Rightarrow> ('t, 'm, 'o, 'w) xplain" where
  "torch_ts_module_release module =
     ts_plain ''module_release''
       (torch_ModuleRelease module)"

section \<open>Optimizers\<close>

definition torch_ts_sgd_create ::
    "('t, 'w, 'm, 'o) libtorch \<Rightarrow> handle \<Rightarrow> f64 \<Rightarrow> f64 \<Rightarrow> f64 \<Rightarrow> ('t, 'm, 'o, 'w) xcall" where
  "torch_ts_sgd_create T module learning_rate momentum weight_decay =
     ts_function ''sgd_create''
       (torch_SgdCreate T module learning_rate momentum weight_decay)"

definition torch_ts_adam_create ::
    "('t, 'w, 'm, 'o) libtorch \<Rightarrow> handle \<Rightarrow> f64 \<Rightarrow> f64 \<Rightarrow> f64 \<Rightarrow> f64 \<Rightarrow> f64 \<Rightarrow> ('t, 'm, 'o, 'w) xcall" where
  "torch_ts_adam_create T module learning_rate beta1 beta2 epsilon weight_decay =
     ts_function ''adam_create''
       (torch_AdamCreate T module learning_rate beta1 beta2 epsilon weight_decay)"

definition torch_ts_adamw_create ::
    "('t, 'w, 'm, 'o) libtorch \<Rightarrow> handle \<Rightarrow> f64 \<Rightarrow> f64 \<Rightarrow> f64 \<Rightarrow> f64 \<Rightarrow> f64 \<Rightarrow> ('t, 'm, 'o, 'w) xcall" where
  "torch_ts_adamw_create T module learning_rate beta1 beta2 epsilon weight_decay =
     ts_function ''adamw_create''
       (torch_AdamWCreate T module learning_rate beta1 beta2 epsilon weight_decay)"

definition torch_ts_optimizer_zero_grad ::
    "('t, 'w, 'm, 'o) libtorch \<Rightarrow> handle \<Rightarrow> ('t, 'm, 'o, 'w) xplain" where
  "torch_ts_optimizer_zero_grad T optimizer =
     ts_plain ''optimizer_zero_grad''
       (torch_OptimizerZeroGrad T optimizer)"

definition torch_ts_optimizer_step ::
    "('t, 'w, 'm, 'o) libtorch \<Rightarrow> handle \<Rightarrow> ('t, 'm, 'o, 'w) xplain" where
  "torch_ts_optimizer_step T optimizer =
     ts_plain ''optimizer_step''
       (torch_OptimizerStep T optimizer)"

definition torch_ts_optimizer_release ::
    "handle \<Rightarrow> ('t, 'm, 'o, 'w) xplain" where
  "torch_ts_optimizer_release optimizer =
     ts_plain ''optimizer_release''
       (torch_OptimizerRelease optimizer)"

definition torch_ts_sgd_create_for_tensors ::
    "('t, 'w, 'm, 'o) libtorch \<Rightarrow> handle list option \<Rightarrow> nat \<Rightarrow> f64 \<Rightarrow> f64 \<Rightarrow> f64 \<Rightarrow> ('t, 'm, 'o, 'w) xcall" where
  "torch_ts_sgd_create_for_tensors T parameters count learning_rate momentum weight_decay =
     ts_function ''sgd_create_for_tensors''
       (torch_v2_SgdCreate T parameters count learning_rate momentum weight_decay)"

definition torch_ts_adam_create_for_tensors ::
    "('t, 'w, 'm, 'o) libtorch \<Rightarrow> handle list option \<Rightarrow> nat \<Rightarrow> f64 \<Rightarrow> f64 \<Rightarrow> f64 \<Rightarrow> f64 \<Rightarrow> f64 \<Rightarrow> ('t, 'm, 'o, 'w) xcall" where
  "torch_ts_adam_create_for_tensors T parameters count learning_rate beta1 beta2 epsilon weight_decay =
     ts_function ''adam_create_for_tensors''
       (torch_v2_AdamCreate T parameters count learning_rate beta1 beta2 epsilon weight_decay)"

definition torch_ts_adamw_create_for_tensors ::
    "('t, 'w, 'm, 'o) libtorch \<Rightarrow> handle list option \<Rightarrow> nat \<Rightarrow> f64 \<Rightarrow> f64 \<Rightarrow> f64 \<Rightarrow> f64 \<Rightarrow> f64 \<Rightarrow> ('t, 'm, 'o, 'w) xcall" where
  "torch_ts_adamw_create_for_tensors T parameters count learning_rate beta1 beta2 epsilon weight_decay =
     ts_function ''adamw_create_for_tensors''
       (torch_v2_AdamWCreate T parameters count learning_rate beta1 beta2 epsilon weight_decay)"

definition torch_ts_parameter_optimizer_zero_grad ::
    "('t, 'w, 'm, 'o) libtorch \<Rightarrow> handle \<Rightarrow> ('t, 'm, 'o, 'w) xplain" where
  "torch_ts_parameter_optimizer_zero_grad T optimizer =
     ts_plain ''parameter_optimizer_zero_grad''
       (torch_ZeroGrad T optimizer)"

definition torch_ts_parameter_optimizer_step ::
    "libm \<Rightarrow> ('t, 'w, 'm, 'o) libtorch \<Rightarrow> handle \<Rightarrow> ('t, 'm, 'o, 'w) xplain" where
  "torch_ts_parameter_optimizer_step L T optimizer =
     ts_plain ''parameter_optimizer_step''
       (torch_v2_Step L T optimizer)"

end
