(* ===== verification/Torch_Agreement.thy ===== *)
theory Torch_Agreement
  imports Torch_Demo Torch_Api Training_Steps
begin

text \<open>
  The build with LibTorch on states without LibTorch tensors: the exported functions that choose between
  the two builds by the storage of a tensor do exactly what they do in the core-only build.
\<close>

section \<open>The same body, the same call\<close>

lemma ts_function_cong:
  "f (out, s\<lparr>rt_last_error := []\<rparr>) = g (out, s\<lparr>rt_last_error := []\<rparr>) \<Longrightarrow> ts_function op f out s = ts_function op g out s"
  by (simp add: ts_function_def abi_guard_def)

lemma ts_plain_cong:
  "f (s\<lparr>rt_last_error := []\<rparr>) = g (s\<lparr>rt_last_error := []\<rparr>) \<Longrightarrow> ts_plain op f s = ts_plain op g s"
  by (simp add: ts_plain_def abi_guard_def)

lemma new_handle_cong: "f s = g s \<Longrightarrow> new_handle msg f (out, s) = new_handle msg g (out, s)"
  by (simp add: new_handle_def bindE_def check_out_def checkE_run set_out_def runtimeE_def)

lemma bindE_cong: "m s = m' s \<Longrightarrow> (\<And>a s'. m s = (Inr a, s') \<Longrightarrow> f a s' = g a s') \<Longrightarrow> bindE m f s = bindE m' g s"
  by (auto simp: bindE_def split: prod.splits sum.splits)

section \<open>Tensors in the library's own storages\<close>

lemma cpu_tensor:
  fixes s :: "('t, 'm, 'o, 'w) torch_runtime"
  assumes "core_inv s" and "public (rt_heap s) r"
  shows "kind_at s r = StorageKindCpu" "t_device (tensor_at (rt_heap s) r) = kCpu"
    "t_device_index (tensor_at (rt_heap s) r) = 0"
  using wf_heap_layout [OF core_invD(4) [OF assms(1)] publicD(1) [OF assms(2)]] by (auto simp: layout_ok_def)

lemma lookup_cong:
  fixes s :: "('t, 'm, 'o, 'w) torch_runtime"
  assumes "core_inv s" and "\<And>r. public (rt_heap s) r \<Longrightarrow> f r s = g r s"
  shows "bindE (LookupTensor h) f s = bindE (LookupTensor h) g s"
  using assms(1)
proof (cases rule: LookupTensor_cases [where h = h])
  case (missing m)
  then show ?thesis by (simp add: bindE_Inl_run)
next
  case (found r)
  then show ?thesis using assms(2) by (simp add: bindE_Inr_run)
qed

lemma kindE_cpu:
  fixes s :: "('t, 'm, 'o, 'w) torch_runtime"
  assumes "core_inv s" and "public (rt_heap s) r"
  shows "bindE (kindE r) f s = f StorageKindCpu s"
  by (simp add: bindE_Inr_run [OF kindE_run] cpu_tensor [OF assms])

lemma cpu_functions:
  fixes s :: "('t, 'm, 'o, 'w) torch_runtime"
  assumes "core_inv s" and "public (rt_heap s) r"
  shows "torch_Gelu L T r s = heapE (Gelu L r) s" "torch_Silu L T r s = heapE (Silu L r) s"
    "torch_SwiGlu L T r s = heapE (SwiGlu L r) s" "torch_CloneDetached T r s = heapE (CloneDetached r) s"
    "torch_Gradient T r s = heapE (bridge_Gradient r) s" "torch_Backward L T r s = heapE (Backward L r) s"
    "torch_RequiresGrad T r s = heapE (getE (\<lambda>h. RequiresGrad h r)) s"
    "torch_SetRequiresGrad T r b s = heapE (SetRequiresGrad r b) s"
    "torch_TensorIdentity T r s = heapE (TensorIdentity r) s"
  by (simp_all add: torch_Gelu_def torch_Silu_def torch_SwiGlu_def torch_CloneDetached_def torch_Gradient_def
      torch_Backward_def torch_RequiresGrad_def torch_SetRequiresGrad_def torch_TensorIdentity_def
      bridge_Gradient_def SetRequiresGrad_def kindE_cpu [OF assms])

lemma cpu_dispatch:
  fixes s :: "('t, 'm, 'o, 'w) torch_runtime"
  assumes "core_inv s" and "public (rt_heap s) l" and "public (rt_heap s) r"
  shows "torch_Dispatcher_ForTensor (rt_heap s) (tensor_at (rt_heap s) r) = Inr CpuBackendInstance"
    "Dispatcher_ForTensor (tensor_at (rt_heap s) r) = Inr CpuBackend"
    "torch_Dispatcher_ForTensors (rt_heap s) (tensor_at (rt_heap s) l) (tensor_at (rt_heap s) r) = Inr CpuBackendInstance"
    "Dispatcher_ForTensors (tensor_at (rt_heap s) l) (tensor_at (rt_heap s) r) = Inr CpuBackend"
  using cpu_tensor [OF assms(1,2)] cpu_tensor [OF assms(1,3)]
  by (simp_all add: torch_Dispatcher_ForTensor_def torch_Dispatcher_For_def Dispatcher_ForTensor_def Dispatcher_For_def
      torch_Dispatcher_ForTensors_def Dispatcher_ForTensors_def)

lemma tensorE_run: "tensorE r s = (Inr (tensor_at (rt_heap s) r), s)"
  by (simp add: tensorE_def heapE_def)

lemma cpu_unary:
  fixes s :: "('t, 'm, 'o, 'w) torch_runtime"
  assumes "core_inv s" and "\<And>r. be_op CpuBackend r = cpu r"
  shows "torch_dispatch h cpu torch s =
    bindE (LookupTensor h) (\<lambda>r. bindE (tensorE r) (\<lambda>object. bindE (BackendFor object) (\<lambda>backend.
      heapE (be_op backend r)))) s"
  unfolding torch_dispatch_def
  by (rule lookup_cong [OF assms(1)])
    (simp add: bindE_Inr_run [OF tensorE_run] BackendFor_def statusE_def bindE_Inr_run cpu_dispatch [OF assms(1)]
      through_backend_def assms(2))

lemma cpu_binary:
  fixes s :: "('t, 'm, 'o, 'w) torch_runtime"
  assumes "core_inv s" and "\<And>l r. be_op CpuBackend l r = cpu l r"
  shows "torch_RunBinaryOperation a b op cpu torch (out, s) = RunBinaryOperation a b op be_op (out, s)"
  unfolding torch_RunBinaryOperation_def RunBinaryOperation_def
  by (intro new_handle_cong lookup_cong [OF assms(1)])
    (simp add: bindE_Inr_run [OF tensorE_run] statusE_def bindE_Inr_run cpu_dispatch [OF assms(1)]
      through_backend_def assms(2))

section \<open>Assignment\<close>

lemma idle_core_inv:
  assumes "core_inv s" and "idle s s'"
  shows "core_inv s'"
proof -
  note i = idleD [OF assms(2)]
  have t: "tensors (rt_heap s') = tensors (rt_heap s)" using i(1) by (simp add: quietly_def)
  have g: "gradient_of (rt_heap s') = gradient_of (rt_heap s)" "parents_of (rt_heap s') = parents_of (rt_heap s)"
    "owned (rt_heap s') = owned (rt_heap s)"
    using t by (simp_all add: fun_eq_iff gradient_of_def parents_of_def grad_fn_of_def owned_def)
  then have ig: "is_grad (rt_heap s') = is_grad (rt_heap s)" using t by (intro ext) (simp add: is_grad_def)
  have "heap_inv (rt_heap s')"
    using core_invD(1) [OF assms(1)] wf_heap_quietly [OF core_invD(4) [OF assms(1)] i(1)]
    unfolding heap_inv_def grads_owned_def one_counter_def t g ig by blast
  moreover have "public (rt_heap s') = public (rt_heap s)"
    using t ig by (intro ext) (simp add: public_def)
  ultimately show ?thesis using assms(1) i(2,3) by (simp add: core_inv_def)
qed

lemma cpu_assign_pair:
  fixes s :: "('t, 'm, 'o, 'w) torch_runtime"
  assumes inv: "core_inv s"
  shows "torch_assign_pair T p batch s = assign_pair p batch s"
    and "assign_pair p batch s = (Inr batch', s') \<Longrightarrow> ab_kind batch' = Some StorageKindCpu"
proof -
  obtain th uh where p: "p = (th, uh)" by force
  have later: "bindE (kindE t) f s1 = f (storage_kind_of (storage_of (rt_heap s) (tensor_at (rt_heap s) t))) s1"
    if "public (rt_heap s) t" "idle s s1" for t s1 and f :: "storage_kind \<Rightarrow> ('t, 'm, 'o, 'w, assign_batch) xrt"
  proof -
    have "rt_heap s1 = rt_heap s1" "core_inv s1" using idle_core_inv [OF inv that(2)] by simp_all
    moreover have "public (rt_heap s1) t"
      using that idleD(1) [OF that(2)] by (simp add: public_def quietly_def is_grad_def gradient_of_def)
    ultimately show ?thesis using kindE_cpu cpu_tensor(1) [OF inv that(1)] by metis
  qed
  show "torch_assign_pair T p batch s = assign_pair p batch s"
    unfolding p torch_assign_pair_def assign_pair_def prod.case
  proof (intro lookup_cong [OF inv])
    fix t u assume t: "public (rt_heap s) t" and u: "public (rt_heap s) u"
    have ti: "torch_TensorIdentity T t s = heapE (TensorIdentity t) s" by (rule cpu_functions [OF inv t])
    show "bindE (getE rt_heap) (\<lambda>h.
     bindE (statusE (ValidatePair h (tensor_at h t) (tensor_at h u) ''tensor_assign_many'')) (\<lambda>_.
     bindE (torch_TensorIdentity T t) (\<lambda>target_identity.
     bindE (heapE (allocation_guard ''tensor_assign_many'' request_alloc)) (\<lambda>_.
     bindE (checkE (target_identity \<notin> set (ab_identities batch))
       (InvalidArgument ''tensor_assign_many: duplicate target tensor'')) (\<lambda>_.
     bindE (kindE t) (\<lambda>kind.
     bindE (checkE (ab_kind batch = None \<or> ab_kind batch = Some kind)
       (InvalidArgument ''tensor_assign_many: one transaction cannot span storage backends'')) (\<lambda>_.
     returnE \<lparr>ab_identities = target_identity # ab_identities batch, ab_kind = Some kind,
       ab_targets = ab_targets batch @ [t], ab_sources = ab_sources batch @ [u]\<rparr>))))))) s =
     bindE (getE rt_heap) (\<lambda>h.
     bindE (statusE (ValidatePair h (tensor_at h t) (tensor_at h u) ''tensor_assign_many'')) (\<lambda>_.
     bindE (heapE (TensorIdentity t)) (\<lambda>target_identity.
     bindE (heapE (allocation_guard ''tensor_assign_many'' request_alloc)) (\<lambda>_.
     bindE (checkE (target_identity \<notin> set (ab_identities batch))
       (InvalidArgument ''tensor_assign_many: duplicate target tensor'')) (\<lambda>_.
     bindE (returnE (storage_kind_of (storage_of h (tensor_at h t)))) (\<lambda>kind.
     bindE (checkE (ab_kind batch = None \<or> ab_kind batch = Some kind)
       (InvalidArgument ''tensor_assign_many: one transaction cannot span storage backends'')) (\<lambda>_.
     returnE \<lparr>ab_identities = target_identity # ab_identities batch, ab_kind = Some kind,
       ab_targets = ab_targets batch @ [t], ab_sources = ab_sources batch @ [u]\<rparr>))))))) s"
      unfolding bindE_get
    proof (rule bindE_cong [OF refl], rule bindE_cong, rule_tac [2] bindE_cong [OF refl], rule_tac [2] bindE_cong [OF refl])
      fix x s1 assume "statusE (ValidatePair (rt_heap s) (tensor_at (rt_heap s) t) (tensor_at (rt_heap s) u)
        ''tensor_assign_many'') s = (Inr x, s1)"
      then have s1: "s1 = s" using statusE_run by (metis snd_conv)
      show "torch_TensorIdentity T t s1 = heapE (TensorIdentity t) s1" using s1 ti by simp
      fix ident s2 y s3 z s4
      assume "torch_TensorIdentity T t s1 = (Inr ident, s2)"
        and al: "heapE (allocation_guard ''tensor_assign_many'' request_alloc) s2 = (Inr y, s3)"
        and ck: "checkE (ident \<notin> set (ab_identities batch))
          (InvalidArgument ''tensor_assign_many: duplicate target tensor'') s3 = (Inr z, s4)"
      then have "heapE (TensorIdentity t) s = (Inr ident, s2)" using s1 ti by simp
      then have "idle s s2" by (rule keepsD [OF idle_heapE [OF quiet_TensorIdentity]])
      moreover have "idle s2 s3" using al by (rule keepsD [OF idle_heapE [OF quiet_guard_request]])
      moreover have "s4 = s3" using ck by (simp add: checkE_run)
      ultimately have "idle s s4" using idle_trans by blast
      then show "bindE (kindE t) (\<lambda>kind.
        bindE (checkE (ab_kind batch = None \<or> ab_kind batch = Some kind)
          (InvalidArgument ''tensor_assign_many: one transaction cannot span storage backends'')) (\<lambda>_.
        returnE \<lparr>ab_identities = ident # ab_identities batch, ab_kind = Some kind,
          ab_targets = ab_targets batch @ [t], ab_sources = ab_sources batch @ [u]\<rparr>)) s4 =
        bindE (returnE (storage_kind_of (storage_of (rt_heap s) (tensor_at (rt_heap s) t)))) (\<lambda>kind.
        bindE (checkE (ab_kind batch = None \<or> ab_kind batch = Some kind)
          (InvalidArgument ''tensor_assign_many: one transaction cannot span storage backends'')) (\<lambda>_.
        returnE \<lparr>ab_identities = ident # ab_identities batch, ab_kind = Some kind,
          ab_targets = ab_targets batch @ [t], ab_sources = ab_sources batch @ [u]\<rparr>)) s4"
        using later [OF t] by simp
    qed
  qed
  show "ab_kind batch' = Some StorageKindCpu" if run: "assign_pair p batch s = (Inr batch', s')"
  proof -
    obtain t where t: "tensor_handle s th = Some t"
      and b: "ab_kind batch' = Some (kind_at s t)"
      using run unfolding p assign_pair_def
      by (auto simp: checkE_run statusE_run returnE_run map_sum_Inr_iff elim!: bindE_InrE
          dest!: LookupTensor_InrD split: if_splits)
    then show ?thesis using cpu_tensor(1) [OF inv core_invD(3) [OF inv t]] by simp
  qed
qed

lemma cpu_assign_loop:
  fixes s :: "('t, 'm, 'o, 'w) torch_runtime"
  assumes "core_inv s" and "ab_kind b \<noteq> Some StorageKindTorch"
  shows "foldE pairs b (torch_assign_pair T) s = foldE pairs b assign_pair s \<and>
    (\<forall>c s'. foldE pairs b assign_pair s = (Inr c, s') \<longrightarrow> ab_kind c \<noteq> Some StorageKindTorch)"
  using assms
proof (induction pairs arbitrary: b s)
  case Nil
  then show ?case by (simp add: returnE_run)
next
  case (Cons p pairs)
  obtain r s1 where run: "assign_pair p b s = (r, s1)" by force
  have inv1: "core_inv s1" using idle_core_inv [OF Cons.prems(1) keepsD [OF idle_assign_pair run]] .
  have step: "torch_assign_pair T p b s = (r, s1)" using cpu_assign_pair(1) [OF Cons.prems(1)] run by simp
  show ?case
  proof (cases r)
    case (Inl e)
    then show ?thesis using run step by (simp add: bindE_Inl_run)
  next
    case (Inr c)
    have "ab_kind c \<noteq> Some StorageKindTorch"
      using cpu_assign_pair(2) [OF Cons.prems(1) run [unfolded Inr]] by simp
    then show ?thesis using Cons.IH [OF inv1] run step Inr by (simp add: bindE_Inr_run)
  qed
qed

lemma cpu_AssignMany:
  fixes s :: "('t, 'm, 'o, 'w) torch_runtime"
  assumes inv: "core_inv s"
  shows "torch_AssignMany T ths shs n s = AssignMany ths shs n s"
proof (cases "n = 0")
  case True
  then show ?thesis by (simp add: torch_AssignMany_def AssignMany_def)
next
  case False
  let ?pairs = "zip (take n (the ths)) (take n (the shs))"
  show ?thesis
    unfolding torch_AssignMany_def AssignMany_def if_not_P [OF False]
  proof (rule bindE_cong [OF refl], rule bindE_cong [OF refl], rule bindE_cong)
    fix x s1 y s2
    assume ck: "checkE (ths \<noteq> None \<and> shs \<noteq> None) (InvalidArgument ''tensor_assign_many: tensor arrays are null'') s = (Inr x, s1)"
      and al: "heapE (allocation_guard ''tensor_assign_many'' (bindE request_alloc (\<lambda>_. request_alloc))) s1 = (Inr y, s2)"
    have "s1 = s" using ck by (simp add: checkE_run)
    have "keeps quietly (allocation_guard ''tensor_assign_many'' (bindE request_alloc (\<lambda>_. request_alloc)))"
      by (intro keeps_allocation_guard quiet.keeps_bind quiet_request_alloc)
    then have "idle s1 s2" using al by (rule keepsD [OF idle_heapE])
    have empty_kind: "ab_kind empty_batch \<noteq> Some StorageKindTorch" by (simp add: empty_batch_def)
    have "core_inv s2" using \<open>s1 = s\<close> \<open>idle s1 s2\<close> idle_core_inv inv by blast
    then have loop: "foldE ?pairs empty_batch (torch_assign_pair T) s2 = foldE ?pairs empty_batch assign_pair s2"
      "\<And>c s'. foldE ?pairs empty_batch assign_pair s2 = (Inr c, s') \<Longrightarrow> ab_kind c \<noteq> Some StorageKindTorch"
      using cpu_assign_loop [of s2 empty_batch] empty_kind by blast+
    show "foldE ?pairs empty_batch (torch_assign_pair T) s2 = foldE ?pairs empty_batch assign_pair s2"
      by (rule loop)
    fix batch s3 assume "foldE ?pairs empty_batch (torch_assign_pair T) s2 = (Inr batch, s3)"
    then have "ab_kind batch \<noteq> Some StorageKindTorch" using loop by simp
    then show "(if ab_kind batch = Some StorageKindCpu then heapE (assign_cpu (ab_targets batch) (ab_sources batch))
        else if ab_kind batch = Some StorageKindTorch then assign_torch T (ab_targets batch) (ab_sources batch)
        else failE (Unsupported ''tensor_assign_many: storage backend is unsupported'')) s3 =
      (if ab_kind batch = Some StorageKindCpu then heapE (assign_cpu (ab_targets batch) (ab_sources batch))
        else failE (Unsupported ''tensor_assign_many: storage backend is unsupported'')) s3" by simp
  qed
qed

section \<open>The exported functions\<close>

lemma query_cong:
  fixes s :: "('t, 'm, 'o, 'w) torch_runtime"
  assumes inv: "core_inv s" and eq: "\<And>r. public (rt_heap s) r \<Longrightarrow> f r s = g r s"
  shows "bindE (check_out msg) (\<lambda>_. bindE (set_out v) (\<lambda>_. bindE (runtimeE (LookupTensor h)) (\<lambda>object.
      bindE (runtimeE (f object)) k))) (out, s) =
    bindE (check_out msg) (\<lambda>_. bindE (set_out v) (\<lambda>_. bindE (runtimeE (LookupTensor h)) (\<lambda>object.
      bindE (runtimeE (g object)) k))) (out, s)"
proof -
  have "bindE (runtimeE (LookupTensor h)) (\<lambda>object. bindE (runtimeE (f object)) k) (c, s) =
      bindE (runtimeE (LookupTensor h)) (\<lambda>object. bindE (runtimeE (g object)) k) (c, s)" for c
    using inv
  proof (cases rule: LookupTensor_cases [where h = h])
    case (missing m)
    then show ?thesis by (simp add: runtimeE_def bindE_def)
  next
    case (found r)
    then show ?thesis using eq by (simp add: runtimeE_def bindE_def)
  qed
  then show ?thesis by (simp add: check_out_def set_out_def bindE_def checkE_run)
qed

lemma cpu_copy:
  fixes s :: "('t, 'm, 'o, 'w) torch_runtime"
  assumes inv: "core_inv s"
  shows "torch_ts_tensor_copy_to_host_f32 T h capacity cell s = ts_tensor_copy_to_host_f32 h capacity cell s"
proof (cases cell)
  case None
  then show ?thesis
    unfolding torch_ts_tensor_copy_to_host_f32_def ts_tensor_copy_to_host_f32_def
    by (intro ts_function_cong) (simp add: check_out_def bindE_def checkE_run)
next
  case (Some c)
  obtain out w where c: "c = (out, w)" by force
  let ?s = "s\<lparr>rt_last_error := []\<rparr>"
  have inv': "core_inv ?s" using inv by simp
  show ?thesis
    unfolding torch_ts_tensor_copy_to_host_f32_def ts_tensor_copy_to_host_f32_def Some c
  proof (intro ts_function_cong bindE_cong [OF refl], goal_cases)
    case (1 _ s1 o1 s2 _ s3 r s4 t s5 _ s6 _ s7)
    then have s1: "s1 = (Some (out, w), ?s)" and s2: "o1 = out" "s2 = (Some (out, w), ?s)"
      and s3: "s3 = (Some (out, 0), ?s)"
      by (auto simp: check_out_def bindE_def checkE_run getE_def set_out_def split: if_splits)
    have s4: "tensor_handle ?s h = Some r" "s4 = s3"
      using 1(4) unfolding s3 by (auto simp: runtimeE_def split: prod.splits dest: LookupTensor_InrD)
    have "s7 = s3" "t = tensor_at (rt_heap s) r"
      using 1(5-7) s4(2) unfolding s3 by (auto simp: runtimeE_def tensorE_run checkE_run)
    then show ?case
      using cpu_tensor(1) [OF inv' core_invD(3) [OF inv' s4(1)]]
      unfolding s3 s2
      by (simp add: torch_copy_to_host_def Let_def bindE_def runtimeE_def heapE_def getE_def set_out_def statusE_run
          split: prod.splits)
  qed
qed

lemma backend_binary_agrees:
  fixes s :: "('t, 'm, 'o, 'w) torch_runtime"
  assumes "core_inv s"
  shows "torch_ts_tensor_add T a b out s = ts_tensor_add a b out s"
    "torch_ts_tensor_multiply T a b out s = ts_tensor_multiply a b out s"
    "torch_ts_tensor_matmul T a b out s = ts_tensor_matmul a b out s"
proof -
  let ?s = "s\<lparr>rt_last_error := []\<rparr>"
  have inv: "core_inv ?s" using assms by simp
  show "torch_ts_tensor_add T a b out s = ts_tensor_add a b out s"
    "torch_ts_tensor_multiply T a b out s = ts_tensor_multiply a b out s"
    "torch_ts_tensor_matmul T a b out s = ts_tensor_matmul a b out s"
    unfolding torch_ts_tensor_add_def ts_tensor_add_def torch_ts_tensor_multiply_def ts_tensor_multiply_def
      torch_ts_tensor_matmul_def ts_tensor_matmul_def
    by (intro ts_function_cong cpu_binary [OF inv]; simp add: CpuBackend_def)+
qed

lemma backend_unary_agrees:
  fixes s :: "('t, 'm, 'o, 'w) torch_runtime"
  assumes "core_inv s"
  shows "torch_ts_tensor_sum T a out s = ts_tensor_sum a out s"
    "torch_ts_tensor_transpose2d T a out s = ts_tensor_transpose2d a out s"
proof -
  let ?s = "s\<lparr>rt_last_error := []\<rparr>"
  have inv: "core_inv ?s" using assms by simp
  show "torch_ts_tensor_sum T a out s = ts_tensor_sum a out s"
    "torch_ts_tensor_transpose2d T a out s = ts_tensor_transpose2d a out s"
    unfolding torch_ts_tensor_sum_def ts_tensor_sum_def torch_ts_tensor_transpose2d_def ts_tensor_transpose2d_def
    by (intro ts_function_cong new_handle_cong cpu_unary [OF inv]; simp add: CpuBackend_def)+
qed

lemma reshape_agrees:
  fixes s :: "('t, 'm, 'o, 'w) torch_runtime"
  assumes "core_inv s"
  shows "torch_ts_tensor_reshape T a dims rank out s = ts_tensor_reshape a dims rank out s"
proof -
  let ?s = "s\<lparr>rt_last_error := []\<rparr>"
  have inv: "core_inv ?s" using assms by simp
  show "torch_ts_tensor_reshape T a dims rank out s = ts_tensor_reshape a dims rank out s"
    unfolding torch_ts_tensor_reshape_def ts_tensor_reshape_def
  proof (intro ts_function_cong new_handle_cong bindE_cong [OF refl])
    fix shape s1 assume "statusE (ValidateShape dims rank) ?s = (Inr shape, s1)"
    then have s1: "s1 = ?s" using statusE_run by (metis snd_conv)
    show "torch_dispatch a (\<lambda>r. CpuBackend_Reshape r shape) (\<lambda>r. TorchBackend_Reshape T r shape) s1 =
        bindE (LookupTensor a) (\<lambda>r. bindE (tensorE r) (\<lambda>object. bindE (BackendFor object) (\<lambda>backend.
          heapE (be_Reshape backend r shape)))) s1"
      unfolding s1
      by (rule cpu_unary [OF inv, where be_op = "\<lambda>backend r. be_Reshape backend r shape"]) (simp add: CpuBackend_def)
  qed
qed

lemma training_unary_agrees:
  fixes s :: "('t, 'm, 'o, 'w) torch_runtime"
  assumes "core_inv s"
  shows "torch_ts_tensor_gelu L T a out s = ts_tensor_gelu L a out s"
    "torch_ts_tensor_silu L T a out s = ts_tensor_silu L a out s"
    "torch_ts_tensor_swiglu L T a out s = ts_tensor_swiglu L a out s"
    "torch_ts_tensor_clone_detached T a out s = ts_tensor_clone_detached a out s"
    "torch_ts_tensor_grad T a out s = ts_tensor_grad a out s"
proof -
  let ?s = "s\<lparr>rt_last_error := []\<rparr>"
  have inv: "core_inv ?s" using assms by simp
  have un: "torch_RunTrainingUnary a f (out, ?s) = RunTrainingUnary a g (out, ?s)"
    if "\<And>r. public (rt_heap ?s) r \<Longrightarrow> f r ?s = heapE (g r) ?s" for f g
    unfolding torch_RunTrainingUnary_def RunTrainingUnary_def
    by (intro new_handle_cong lookup_cong [OF inv] that)
  note fs = cpu_functions [OF inv]
  show "torch_ts_tensor_gelu L T a out s = ts_tensor_gelu L a out s"
    "torch_ts_tensor_silu L T a out s = ts_tensor_silu L a out s"
    "torch_ts_tensor_swiglu L T a out s = ts_tensor_swiglu L a out s"
    "torch_ts_tensor_clone_detached T a out s = ts_tensor_clone_detached a out s"
    "torch_ts_tensor_grad T a out s = ts_tensor_grad a out s"
    unfolding torch_ts_tensor_gelu_def ts_tensor_gelu_def torch_ts_tensor_silu_def ts_tensor_silu_def
      torch_ts_tensor_swiglu_def ts_tensor_swiglu_def torch_ts_tensor_clone_detached_def ts_tensor_clone_detached_def
      torch_ts_tensor_grad_def ts_tensor_grad_def
    by (intro ts_function_cong un fs; assumption)+
qed

lemma query_agrees:
  fixes s :: "('t, 'm, 'o, 'w) torch_runtime"
  assumes "core_inv s"
  shows "torch_ts_tensor_identity T a ident s = ts_tensor_identity a ident s"
    "torch_ts_tensor_requires_grad T a flag s = ts_tensor_requires_grad a flag s"
proof -
  let ?s = "s\<lparr>rt_last_error := []\<rparr>"
  have inv: "core_inv ?s" using assms by simp
  note fs = cpu_functions [OF inv]
  show "torch_ts_tensor_identity T a ident s = ts_tensor_identity a ident s"
    "torch_ts_tensor_requires_grad T a flag s = ts_tensor_requires_grad a flag s"
    unfolding torch_ts_tensor_identity_def ts_tensor_identity_def torch_ts_tensor_requires_grad_def
      ts_tensor_requires_grad_def
    by (intro ts_function_cong query_cong [OF inv] fs; assumption)+
qed

lemma plain_agrees:
  fixes s :: "('t, 'm, 'o, 'w) torch_runtime"
  assumes "core_inv s"
  shows "torch_ts_tensor_set_requires_grad T a rg s = ts_tensor_set_requires_grad a rg s"
    "torch_ts_tensor_backward L T a s = ts_tensor_backward L a s"
    "torch_ts_tensor_assign_many T ths shs n s = ts_tensor_assign_many ths shs n s"
proof -
  let ?s = "s\<lparr>rt_last_error := []\<rparr>"
  have inv: "core_inv ?s" using assms by simp
  note fs = cpu_functions [OF inv]
  show "torch_ts_tensor_set_requires_grad T a rg s = ts_tensor_set_requires_grad a rg s"
    "torch_ts_tensor_backward L T a s = ts_tensor_backward L a s"
    "torch_ts_tensor_assign_many T ths shs n s = ts_tensor_assign_many ths shs n s"
    unfolding torch_ts_tensor_set_requires_grad_def ts_tensor_set_requires_grad_def torch_ts_tensor_backward_def
      ts_tensor_backward_def torch_ts_tensor_assign_many_def ts_tensor_assign_many_def
    by (intro ts_plain_cong lookup_cong [OF inv] fs cpu_AssignMany [OF inv]; assumption)+
qed

lemmas calls_agree = backend_binary_agrees backend_unary_agrees reshape_agrees training_unary_agrees query_agrees
  plain_agrees cpu_copy


text \<open>The two tensors of \<open>demo_heap\<close> in the build with LibTorch.\<close>

definition demo_cpu_state :: "(demo_tensor, unit, unit, demo_world) torch_runtime" where
  "demo_cpu_state = demo_torch_state\<lparr>rt_heap := demo_heap, tr_tensors := (\<lambda>_. None)\<rparr>"

lemma demo_cpu_inv: "train_inv demo_cpu_state"
proof -
  have "object_ok demo_cpu_state (entry_type e) (entry_object e)" if "entry_of (rt_registry demo_cpu_state) h = Some e" for h e
    using that demo_heap_public
    by (auto simp: demo_cpu_state_def demo_torch_state_def object_ok_def split: if_splits)
  moreover have "registry_inv (rt_registry demo_cpu_state)"
    by (simp add: registry_inv_def demo_cpu_state_def demo_torch_state_def)
  ultimately show ?thesis
    using demo_heap_inv by (simp add: train_inv_def objects_ok_def demo_cpu_state_def demo_torch_state_def)
qed


end
