(* ===== verification/Spec2Isabelle.thy ===== *)
theory Spec2Isabelle
  imports System_Properties Inference_Properties Checkpoint_Properties Neural_Api
    Torch_Properties Torch_Agreement
begin

text \<open>
  Tensora's native core: a tensor library behind a C interface (\<open>native/include/tensora.h\<close>), written in
  C++ under \<open>native/src\<close> and called from Dart.  This development models the core-only
  build of the library and the build with LibTorch, each with or without ONNX Runtime, and proves what
  their exported functions promise.  Unless it says LibTorch, a statement is about the core-only build.
  All paths below are relative to \<open>src/native/src\<close>.

  \<^bold>\<open>The program and its model.\<close>  A client holds 64-bit handles.  A call looks its handles up in a
  reference-counted registry, works on tensors, modules, optimizers or sessions, registers what it has
  made and returns a status code; a message for the last failure is kept per thread.  The model is a
  state-passing translation: a function of the code is a function from the state before to a result
  and the state after (\<open>Prelude\<close>: \<open>run\<close>, \<open>bindE\<close>, \<open>checkE\<close>), and a result is a value, a returned
  \<open>Status\<close> or a thrown exception (\<open>Status\<close>: \<open>fault\<close>), so that every early return, failed check and
  exception of the code is a branch.  Output parameters are results, or cells when the caller may pass a
  null pointer (\<open>None\<close>).

  \<^bold>\<open>Parts.\<close>
  \<^item> \<open>Status\<close> (\<open>core/status.h\<close>, \<open>abi_guard.h\<close>, \<open>allocation_guard.h\<close>, \<open>integer_math.h\<close>): codes, messages, the
    guards that turn exceptions into statuses, the boundary \<open>AbiGuard\<close> every exported function passes.
  \<^item> \<open>Ieee_Float\<close>: \<open>float\<close> and \<open>double\<close> as bit patterns with IEEE 754 arithmetic, rounding to nearest even.
  \<^item> \<open>Shape\<close> (\<open>tensor/shape.cc\<close>): validation with overflow checks, strides, logical indices.
  \<^item> \<open>Handle_Registry\<close> (\<open>runtime/handle_registry.cc\<close>): the table of handles.
  \<^item> \<open>Tensor_Heap\<close> (\<open>tensor/tensor.cc\<close>, \<open>memory/cpu_storage.cc\<close>): tensors, storages and version counters
    as an explicit store, because views share storages and counters.
  \<^item> \<open>Autograd_Graph\<close>, \<open>Kernels\<close>, \<open>Gradient_Kernels\<close>, \<open>Autograd_Backward\<close> (\<open>autograd/autograd.h\<close>): recording
    of operations, the gradient of each operation, \<open>Backward\<close>.
  \<^item> \<open>Cpu_Backend\<close> (\<open>backends/cpu/cpu_backend.cc\<close>, \<open>runtime/dispatcher.cc\<close>): the eight operations of a backend.
  \<^item> \<open>Core_Api\<close> (\<open>c_api.cc\<close>): the exported functions on tensors.
  \<^item> \<open>Training_Ops\<close>, \<open>Training_State\<close>, \<open>Linear_Module\<close>, \<open>Checkpoint\<close>, \<open>Optimizers\<close>, \<open>Parameter_Optimizer\<close>,
    \<open>Tensor_State\<close>, \<open>Training_Api\<close> (\<open>training/training_bridge_stub.cc\<close>, \<open>nn_v2_runtime.h\<close>, \<open>nn_v2_optimizer.h\<close>,
    \<open>nn_v2_state.h\<close>, \<open>nn_v2_parameter_control.h\<close>, \<open>training_c_api.cc\<close>): activations and losses, linear modules
    and their files, SGD, Adam and AdamW over a module or over a list of tensors, simultaneous
    assignment, and the exported functions of training.
  \<^item> \<open>Inference_State\<close>, \<open>Inference_Bridge\<close>, \<open>Inference_Api\<close> (\<open>inference/inference_bridge_onnx.cc\<close>,
    \<open>inference_bridge_stub.cc\<close>, \<open>onnx_policy.h\<close>, \<open>inference_c_api.cc\<close>): execution providers, sessions, runs,
    profiles; both bridges, and the exported functions over either of them.
  \<^item> \<open>Torch_Runtime\<close>, \<open>Torch_Backend\<close>, \<open>Torch_Bridge\<close>, \<open>Torch_Nn\<close>, \<open>Torch_Api\<close> (\<open>training/torch_backend.cc\<close>,
    \<open>torch_storage.cc\<close>, \<open>training_bridge_torch.cc\<close>, the code under \<open>TENSORA_WITH_TORCH\<close> of
    \<open>runtime/dispatcher.cc\<close> and of the \<open>nn_v2\<close> headers, and the exported functions over them): the build
    with LibTorch.  Its state \<open>torch_runtime\<close> extends that of the core-only build by the world of LibTorch,
    the LibTorch tensor in each storage, the modules and optimizers of LibTorch and the table of identities.

  \<^bold>\<open>What is proved.\<close>  The interfaces of the program are locales, interpreted on the definitions of the code:
  the contract of a backend (\<open>Cpu_Backend\<close>), the frames and laws of the steps of \<open>Prelude\<close>, the codecs of
  checkpoints (\<open>Checkpoint_Codec\<close>), the contract of an inference bridge (\<open>Inference_Spec\<close>), the laws every
  exported function of training obeys (\<open>Training_Laws\<close>).  On top of them:
  \<^item> \<open>Cpu_Backend\<close>, \<open>Core_Api_Spec\<close>, \<open>Neural_Values\<close>, \<open>Neural_Api\<close>: seen through handles, the exported functions
    implement an abstract array machine, soundly and completely; losses and the forward pass of a
    module are computed as their mathematical definitions say, in the stated order of rounding.
  \<^item> \<open>Backward_Apply\<close>, \<open>Backward_Pass\<close>, \<open>Backward_Spec\<close>: \<open>Backward\<close> terminates, refuses stale graphs without a
    change, and publishes exactly the gradients of the chain rule.
  \<^item> \<open>Heap_Invariant\<close>, \<open>Heap_Writes\<close>, \<open>Training_Invariant\<close>, \<open>Training_Steps\<close>, \<open>Training_Create\<close>, \<open>Training_Laws\<close>,
    \<open>Training_Faults\<close>, \<open>Training_System\<close>, \<open>System_Properties\<close>: the invariant of all states the exported
    functions can reach, the statuses they return, the objects they never change, bounds of all reads.
  \<^item> \<open>Optimizer_Spec\<close>, \<open>Tensor_State_Spec\<close>, \<open>Training_Properties\<close>, \<open>Training_Safety\<close>: an optimizer step is the
    textbook update of every parameter, the two kinds of optimizers agree, assignment is a transaction;
    \<open>System_Properties\<close> joins \<open>Backward\<close> and a step into one training step.
  \<^item> \<open>Checkpoint_Codec\<close>, \<open>Checkpoint_Spec\<close>, \<open>Checkpoint_Properties\<close>: files are read back bit by bit, loading is
    all or nothing and makes older graphs stale.
  \<^item> \<open>Inference_Spec\<close>, \<open>Inference_Run\<close>, \<open>Inference_Properties\<close>: a run registers all its outputs or none; the
    choice of a provider; delivery of strings; profiles; the stub.
  \<^item> \<open>Torch_Memory\<close>, \<open>Torch_Assignment\<close>, \<open>Torch_Properties\<close>: assignment over LibTorch tensors is a transaction
    with rollback, transfers end on the requested device, identities tell LibTorch tensors apart, a
    transposed view loses its transposition on the way to LibTorch.
  \<^item> \<open>Torch_Agreement\<close>: on states without LibTorch tensors the functions that choose by the storage of a
    tensor are the same in both builds.
  \<^item> \<open>Training_Demo\<close>, \<open>Torch_Demo\<close> and the demo definitions elsewhere are small concrete states for the witnesses.

  \<^bold>\<open>Conventions.\<close>  \<open>size_t\<close> and \<open>uint64_t\<close> quantities that the code checks for overflow are naturals with
  \<open>add64\<close> and \<open>mul64\<close> written out, \<open>int64_t\<close> is \<open>int\<close>; handles, reference counts, versions, identities and
  step counters are 64-bit words and wrap.  Calls are sequential, so every mutex is free.  Whether an
  allocation of a vector, storage, tensor, metadata record or shared state fails is a list of outcomes in
  the state (\<open>alloc_plan\<close>; the empty list lets everything succeed); temporaries and the registry's own
  reservations are assumed to succeed.  The heap only grows: destructors, and the counter of live bytes, are
  not modelled.  A released module, optimizer or session keeps its position in its list.  Files are a map
  from paths to bytes with a list of outcomes for the stream operations, on a little-endian machine.
  An array argument holds as many elements as its count says.

  \<^bold>\<open>Parameters.\<close>  Code that is not in the repository is an argument of the definitions that use it:
  \<open>expf\<close>, \<open>tanhf\<close> and the other functions of the C library (\<open>libm\<close>), the uniform distribution of the C++
  library (\<open>distribution\<close>; the Mersenne twister's seeding is modelled), ONNX Runtime (\<open>ort_runtime\<close>) and
  LibTorch (\<open>libtorch\<close>: a record of its calls, over a world \<open>'w\<close> that holds all values, gradients and devices,
  and references \<open>'t\<close>, \<open>'m\<close>, \<open>'o\<close> to tensors, modules and optimizers; a call may throw).  Two properties
  assume documented behaviour of LibTorch, as named hypotheses: \<open>torch_memory\<close> (\<open>copy_\<close> and \<open>clone\<close> write the
  cells of their target and of a fresh tensor) and \<open>torch_placement\<close> (\<open>to\<close> places its result on the device
  that is asked for, the accelerator does not change); \<open>Torch_Demo\<close> holds an instance of both.  No other
  property assumes anything of these parameters.

  \<^bold>\<open>Bounds and fuel.\<close>  \<open>BuildTopology\<close> recurses over the graph of recorded operations with fuel; the number of
  tensors of the heap is enough, because parents are older than their results
  (\<open>topology_is_topological\<close>).  All other recursions are structural.  Stack overflow is not modelled.

  \<^bold>\<open>Not modelled.\<close>  Threads; the count of live bytes of either kind of storage (\<open>LiveBytes\<close>) and with it
  \<open>ts_runtime_live_storage_bytes\<close>; the branch of \<open>TorchDeviceFromSnapshot\<close> for a value
  outside the enumeration \<open>Device\<close>, which no caller can pass; Dart packages, tests and build files.
\<close>

end
